(* ===== verification/Prelude.thy ===== *)
theory Prelude
  imports Main "HOL-Library.Sublist"
begin

text \<open>
  What every component of the model shares: the result type of \<^verbatim>\<open>src/result.ts\<close>, the
  string operations of the JavaScript library the sources call (\<^verbatim>\<open>startsWith\<close>,
  \<^verbatim>\<open>indexOf\<close>, \<^verbatim>\<open>split\<close>, \<^verbatim>\<open>join\<close>, \<^verbatim>\<open>Buffer.byteLength\<close>), and the generic lemmas
  about lists the component proofs use.

  A JavaScript string is a \<^typ>\<open>string\<close>: a list of code units, here those from 0 to 255.
  The program compares code units with ASCII constants only, so the wider units take
  the branches that a unit such as \<open>CHR 0xE9\<close> takes.
\<close>

section \<open>Results\<close>

text \<open>
  \<^verbatim>\<open>Result<T, E>\<close> of \<^verbatim>\<open>src/result.ts\<close>: \<open>Inr v\<close> is \<open>{ ok: true, value: v }\<close> and
  \<open>Inl e\<close> is \<open>{ ok: false, error: e }\<close>.
\<close>

type_synonym ('t, 'e) result = "'e + 't"

definition ok :: "'t \<Rightarrow> ('t, 'e) result" where
  "ok v = Inr v"

definition fail :: "'e \<Rightarrow> ('t, 'e) result" where
  "fail e = Inl e"

lemma result_simps [simp]:
  "ok v \<noteq> fail e" "fail e \<noteq> ok v"
  "(ok v = ok w) = (v = w)" "(fail e = fail f) = (e = f)"
  by (simp_all add: ok_def fail_def)

lemma case_result [simp]:
  "(case ok v of Inl e \<Rightarrow> f e | Inr w \<Rightarrow> g w) = g v"
  "(case fail e of Inl e \<Rightarrow> f e | Inr w \<Rightarrow> g w) = f e"
  by (simp_all add: ok_def fail_def)

lemma isl_result [simp]: "\<not> isl (ok v)" "isl (fail e)"
  by (simp_all add: ok_def fail_def)

lemma result_cases: "(\<And>e. r = fail e \<Longrightarrow> P) \<Longrightarrow> (\<And>v. r = ok v \<Longrightarrow> P) \<Longrightarrow> P"
  by (cases r) (auto simp: ok_def fail_def)

text \<open>The steps of a function that throws: each runs on what the one before it gave.\<close>

definition and_then :: "('a, 'e) result \<Rightarrow> ('a \<Rightarrow> ('b, 'e) result) \<Rightarrow> ('b, 'e) result" where
  "and_then r f = (case r of Inl e \<Rightarrow> fail e | Inr v \<Rightarrow> f v)"

lemma and_then_simps [simp]: "and_then (ok v) f = f v" "and_then (fail e) f = fail e"
  by (simp_all add: and_then_def)

lemma and_then_ok: "and_then r f = ok w \<longleftrightarrow> (\<exists>v. r = ok v \<and> f v = ok w)"
  by (cases r) (simp_all add: and_then_def ok_def fail_def)

lemma ok_and_then: "ok w = and_then r f \<longleftrightarrow> (\<exists>v. r = ok v \<and> f v = ok w)"
  using and_then_ok [of r f w] by metis

lemma and_then_fail: "and_then r f = fail e \<longleftrightarrow> r = fail e \<or> (\<exists>v. r = ok v \<and> f v = fail e)"
  by (cases r) (simp_all add: and_then_def ok_def fail_def)

lemma and_then_cong [fundef_cong]: "r = r' \<Longrightarrow> (\<And>v. r' = Inr v \<Longrightarrow> f v = g v) \<Longrightarrow> and_then r f = and_then r' g"
  by (cases r') (simp_all add: and_then_def)

section \<open>Strings\<close>

text \<open>\<^verbatim>\<open>subject.startsWith(text, position)\<close> for a position within the subject.\<close>

definition starts_at :: "'a list \<Rightarrow> 'a list \<Rightarrow> nat \<Rightarrow> bool" where
  "starts_at text subject position \<longleftrightarrow> prefix text (drop position subject)"

lemma starts_at_0 [simp]: "starts_at text subject 0 = prefix text subject"
  by (simp add: starts_at_def)

lemma starts_at_Suc [simp]: "starts_at text (c # cs) (Suc n) = starts_at text cs n"
  by (simp add: starts_at_def)

lemma starts_at_length: "starts_at text subject p \<Longrightarrow> p \<le> length subject \<Longrightarrow> p + length text \<le> length subject"
  by (auto simp: starts_at_def dest: prefix_length_le)

text \<open>\<^verbatim>\<open>text.split(d)\<close> for a one-character separator: never empty.\<close>

fun split_on :: "'a \<Rightarrow> 'a list \<Rightarrow> 'a list list" where
  "split_on d [] = [[]]"
| "split_on d (c # cs) =
     (if c = d then [] # split_on d cs
      else (case split_on d cs of [] \<Rightarrow> [[c]] | x # xs \<Rightarrow> (c # x) # xs))"

text \<open>\<^verbatim>\<open>parts.join(d)\<close> for a one-character separator.\<close>

fun join_with :: "'a \<Rightarrow> 'a list list \<Rightarrow> 'a list" where
  "join_with d [] = []"
| "join_with d [x] = x"
| "join_with d (x # y # ys) = x @ d # join_with d (y # ys)"

lemma split_on_not_Nil [simp]: "split_on d s \<noteq> []"
  by (induction s) (auto split: list.splits)

lemma split_on_hd_tl: "split_on d s = hd (split_on d s) # tl (split_on d s)"
  by simp

lemma join_with_Cons: "xs \<noteq> [] \<Longrightarrow> join_with d (x # xs) = x @ d # join_with d xs"
  by (cases xs) auto

lemma join_split [simp]: "join_with d (split_on d s) = s"
proof (induction s)
  case Nil
  then show ?case by simp
next
  case (Cons c cs)
  then show ?case
    by (cases "split_on d cs"; cases "tl (split_on d cs)") (auto simp: join_with_Cons)
qed

lemma split_on_no_sep: "x \<in> set (split_on d s) \<Longrightarrow> d \<notin> set x"
  by (induction s arbitrary: x) (auto split: if_splits list.splits)

lemma split_on_append_sep: "d \<notin> set x \<Longrightarrow> split_on d (x @ d # s) = x # split_on d s"
  by (induction x) auto

lemma split_on_append: "split_on d (x @ d # s) = split_on d x @ split_on d s"
proof (induction x)
  case (Cons c x)
  obtain y ys where "split_on d x = y # ys" by (cases "split_on d x") auto
  with Cons show ?case by simp
qed simp

lemma split_on_plain: "d \<notin> set x \<Longrightarrow> split_on d x = [x]"
  by (induction x) auto

lemma split_join: "xs \<noteq> [] \<Longrightarrow> \<forall>x \<in> set xs. d \<notin> set x \<Longrightarrow> split_on d (join_with d xs) = xs"
proof (induction d xs rule: join_with.induct)
  case (3 d x y ys)
  then show ?case by (simp add: split_on_append_sep)
qed (auto simp: split_on_plain)

text \<open>
  \<^verbatim>\<open>text.indexOf(c)\<close> with the two slices the sources take from it: what is before the first
  \<open>c\<close> (all of the text when there is none) and what starts at it (empty when there is none).
\<close>

definition before_first :: "'a \<Rightarrow> 'a list \<Rightarrow> 'a list" where
  "before_first c s = takeWhile (\<lambda>x. x \<noteq> c) s"

definition from_first :: "'a \<Rightarrow> 'a list \<Rightarrow> 'a list" where
  "from_first c s = dropWhile (\<lambda>x. x \<noteq> c) s"

lemma before_from [simp]: "before_first c s @ from_first c s = s"
  by (simp add: before_first_def from_first_def)

lemma before_first_notin [simp]: "c \<notin> set (before_first c s)"
  by (auto simp: before_first_def dest: set_takeWhileD)

lemma before_first_append: "c \<notin> set x \<Longrightarrow> before_first c (x @ s) = x @ before_first c s"
  unfolding before_first_def by (rule takeWhile_append2) auto

lemma from_first_append: "c \<notin> set x \<Longrightarrow> from_first c (x @ s) = from_first c s"
  unfolding from_first_def by (rule dropWhile_append2) auto

lemma from_first_cases: "from_first c s = [] \<or> (\<exists>t. from_first c s = c # t)"
proof (cases "from_first c s")
  case (Cons a t)
  then have "hd (from_first c s) = a" "from_first c s \<noteq> []" by simp_all
  then have "a = c" unfolding from_first_def using hd_dropWhile [of "\<lambda>x. x \<noteq> c" s] by simp
  with Cons show ?thesis by simp
qed simp

text \<open>\<^verbatim>\<open>Buffer.byteLength(text, 'utf8')\<close>: a code unit from 128 to 255 takes two bytes.\<close>

definition utf8_length :: "string \<Rightarrow> nat" where
  "utf8_length s = sum_list (map (\<lambda>c. if (of_char c :: nat) < 128 then 1 else 2) s)"

lemma utf8_length_ge: "length s \<le> utf8_length s"
  by (induction s) (auto simp: utf8_length_def)

lemma utf8_length_append: "utf8_length (s @ t) = utf8_length s + utf8_length t"
  by (simp add: utf8_length_def)

text \<open>A JavaScript \<^verbatim>\<open>Set\<close> in insertion order.\<close>

definition js_set :: "'a list \<Rightarrow> 'a list" where
  "js_set xs = fold (\<lambda>x acc. if x \<in> set acc then acc else acc @ [x]) xs []"

lemma set_js_set [simp]: "set (js_set xs) = set xs"
proof -
  have "set (fold (\<lambda>x acc. if x \<in> set acc then acc else acc @ [x]) xs acc) = set acc \<union> set xs" for acc
    by (induction xs arbitrary: acc) auto
  then show ?thesis by (simp add: js_set_def)
qed

lemma distinct_js_set: "distinct (js_set xs)"
proof -
  have "distinct acc \<Longrightarrow> distinct (fold (\<lambda>x acc. if x \<in> set acc then acc else acc @ [x]) xs acc)" for acc
    by (induction xs arbitrary: acc) auto
  then show ?thesis by (simp add: js_set_def)
qed

section \<open>Searching a list\<close>

lemma find_map: "List.find P (map f xs) = map_option f (List.find (P \<circ> f) xs)"
  by (induction xs) auto

lemma find_SomeD: "List.find P xs = Some x \<Longrightarrow> x \<in> set xs \<and> P x"
  by (auto simp: find_Some_iff)

section \<open>Characters\<close>

definition char_code :: "char \<Rightarrow> nat" where
  "char_code c = of_char c"

lemma char_code_less [simp]: "char_code c < 256"
  by (simp add: char_code_def)

lemma char_code_eq: "char_code c = char_code d \<longleftrightarrow> c = d"
  by (simp add: char_code_def)

lemma char_code_of [simp]: "n < 256 \<Longrightarrow> char_code (char_of n) = n"
  by (simp add: char_code_def)

definition is_digit :: "char \<Rightarrow> bool" where
  "is_digit c \<longleftrightarrow> 48 \<le> char_code c \<and> char_code c \<le> 57"

definition is_upper :: "char \<Rightarrow> bool" where
  "is_upper c \<longleftrightarrow> 65 \<le> char_code c \<and> char_code c \<le> 90"

definition is_lower :: "char \<Rightarrow> bool" where
  "is_lower c \<longleftrightarrow> 97 \<le> char_code c \<and> char_code c \<le> 122"

text \<open>The regular expression class \<^verbatim>\<open>\w\<close> without the Unicode flag.\<close>

definition is_word :: "char \<Rightarrow> bool" where
  "is_word c \<longleftrightarrow> is_digit c \<or> is_upper c \<or> is_lower c \<or> c = CHR ''_''"

definition ascii_upper :: "char \<Rightarrow> char" where
  "ascii_upper c = (if is_lower c then char_of (char_code c - 32) else c)"

definition ascii_lower :: "char \<Rightarrow> char" where
  "ascii_lower c = (if is_upper c then char_of (char_code c + 32) else c)"

text \<open>The class \<^verbatim>\<open>\s\<close>, which is also what \<^verbatim>\<open>trim\<close> strips.\<close>

definition is_space :: "char \<Rightarrow> bool" where
  "is_space c \<longleftrightarrow> (9 \<le> char_code c \<and> char_code c \<le> 13) \<or> char_code c = 32 \<or> char_code c = 160"

definition trim :: "string \<Rightarrow> string" where
  "trim s = rev (dropWhile is_space (rev (dropWhile is_space s)))"

lemmas char_class_defs = is_digit_def is_upper_def is_lower_def is_word_def char_code_def

text \<open>
  \<^verbatim>\<open>toUpperCase\<close>. The two units whose upper case lies beyond 255 (181 and 255) are left as they
  are; like their images they occur in no keyword and in no code the program compares.
\<close>

definition upper_char :: "char \<Rightarrow> string" where
  "upper_char c =
     (if is_lower c \<or> (224 \<le> char_code c \<and> char_code c \<noteq> 247 \<and> char_code c \<noteq> 255)
      then [char_of (char_code c - 32)]
      else if char_code c = 223 then ''SS'' else [c])"

definition toUpperCase :: "string \<Rightarrow> string" where
  "toUpperCase s = concat (map upper_char s)"

text \<open>\<^verbatim>\<open>toLowerCase\<close> of a code unit up to 255.\<close>

definition lower_char :: "char \<Rightarrow> char" where
  "lower_char c =
     (if is_upper c \<or> (192 \<le> char_code c \<and> char_code c \<le> 222 \<and> char_code c \<noteq> 215) then char_of (char_code c + 32) else c)"

definition toLowerCase :: "string \<Rightarrow> string" where
  "toLowerCase s = map lower_char s"

text \<open>Hexadecimal digits: \<^verbatim>\<open>[\da-fA-F]\<close> and the value \<^verbatim>\<open>Number.parseInt(_, 16)\<close> gives one.\<close>

definition is_hex :: "char \<Rightarrow> bool" where
  "is_hex c \<longleftrightarrow> is_digit c \<or> (65 \<le> char_code c \<and> char_code c \<le> 70) \<or> (97 \<le> char_code c \<and> char_code c \<le> 102)"

definition hex_value :: "char \<Rightarrow> nat" where
  "hex_value c =
     (if is_digit c then char_code c - 48
      else if char_code c \<le> 70 then char_code c - 55 else char_code c - 87)"

section \<open>State machines\<close>

text \<open>
  A component whose operations change a state: what every operation keeps holds in every state the
  operations reach.
\<close>

locale invariant_system =
  fixes step :: "'s \<Rightarrow> 's \<Rightarrow> bool"
    and inv :: "'s \<Rightarrow> bool"
  assumes step_inv: "step s s' \<Longrightarrow> inv s \<Longrightarrow> inv s'"
begin

lemma reachable_inv: "step\<^sup>*\<^sup>* s s' \<Longrightarrow> inv s \<Longrightarrow> inv s'"
  by (induction rule: rtranclp_induct) (auto intro: step_inv)

end

end
