(* ===== verification/Policy.thy ===== *)
theory Policy
  imports Prelude
begin

text \<open>
  \<^verbatim>\<open>src/actions/policy.ts\<close>: the pattern matcher of the target policies, the save-time check of
  command patterns and the normalisation of HTTP subjects.

  The matcher is modelled as the code runs it: a pattern is tokenised, and each token moves a
  buffer of reachable subject positions (class \<^verbatim>\<open>Reach\<close>). Its specification is the inductive
  relation \<open>glob\<close>, which speaks of the pattern's characters only; \<open>isPatternMatch_glob\<close> says the
  two agree on every pattern and subject. The second half models the percent decoding and the
  dot-segment removal and proves what a normalised subject can no longer contain.
\<close>

section \<open>Tokens of a pattern\<close>

datatype PatternKind = PathPattern | CommandPattern

datatype PatternToken = Literal string | SingleStar | DoubleStar

definition literal_token :: "string \<Rightarrow> PatternToken list" where
  "literal_token literal = (if literal = [] then [] else [Literal literal])"

text \<open>The loop of \<^verbatim>\<open>tokenise\<close>: \<open>literal\<close> is the text collected since the last wildcard.\<close>

fun tokenise_pattern_from :: "PatternKind \<Rightarrow> string \<Rightarrow> string \<Rightarrow> PatternToken list" where
  "tokenise_pattern_from kind literal [] = literal_token literal"
| "tokenise_pattern_from kind literal (c # cs) =
     (if c \<noteq> CHR ''*'' then tokenise_pattern_from kind (literal @ [c]) cs
      else literal_token literal @
        (if kind = PathPattern \<and> cs \<noteq> [] \<and> hd cs = CHR ''*''
         then DoubleStar # tokenise_pattern_from kind [] (tl cs)
         else SingleStar # tokenise_pattern_from kind [] cs))"

definition tokenise_pattern :: "string \<Rightarrow> PatternKind \<Rightarrow> PatternToken list" where
  "tokenise_pattern pattern kind = tokenise_pattern_from kind [] pattern"

section \<open>Reachable positions\<close>

text \<open>\<^verbatim>\<open>Reach\<close>: the subject and the buffer \<^verbatim>\<open>#current\<close>; \<^verbatim>\<open>#next\<close> is what each sweep returns.\<close>

record Reach =
  subject :: string
  current :: "bool list"

definition new_Reach :: "string \<Rightarrow> Reach" where
  "new_Reach s = \<lparr>subject = s, current = True # replicate (length s) False\<rparr>"

definition isComplete :: "Reach \<Rightarrow> bool" where
  "isComplete r = current r ! length (subject r)"

text \<open>\<^verbatim>\<open>literal(text)\<close>: each reached position where the text starts reaches the end of it.\<close>

definition reach_literal :: "string \<Rightarrow> Reach \<Rightarrow> Reach" where
  "reach_literal text r =
     r\<lparr>current := fold
         (\<lambda>position next.
            if current r ! position \<and> starts_at text (subject r) position
            then next[position + length text := True] else next)
         [0..<length (current r)] (replicate (length (current r)) False)\<rparr>"

text \<open>
  \<^verbatim>\<open>wildcard(stopAt)\<close>: one sweep with the flag \<^verbatim>\<open>isOpen\<close>; the subject is consumed in step with
  the buffer, and past its end \<^verbatim>\<open>charAt\<close> is empty and stops nothing.
\<close>

fun sweep :: "(char \<Rightarrow> bool) \<Rightarrow> bool \<Rightarrow> bool list \<Rightarrow> string \<Rightarrow> bool list" where
  "sweep stopAt isOpen [] s = []"
| "sweep stopAt isOpen (isReached # rs) [] =
     (isOpen \<or> isReached) # sweep stopAt (isOpen \<or> isReached) rs []"
| "sweep stopAt isOpen (isReached # rs) (c # cs) =
     (isOpen \<or> isReached) # sweep stopAt ((isOpen \<or> isReached) \<and> \<not> stopAt c) rs cs"

definition reach_wildcard :: "(char \<Rightarrow> bool) \<Rightarrow> Reach \<Rightarrow> Reach" where
  "reach_wildcard stopAt r = r\<lparr>current := sweep stopAt False (current r) (subject r)\<rparr>"

text \<open>\<^verbatim>\<open>SEPARATORS\<close>.\<close>

fun separator :: "PatternKind \<Rightarrow> char \<Rightarrow> bool" where
  "separator PathPattern c = (c = CHR ''/'')"
| "separator CommandPattern c = (c = CHR 0x0A \<or> c = CHR 0x0D)"

fun reach_token :: "PatternKind \<Rightarrow> PatternToken \<Rightarrow> Reach \<Rightarrow> Reach" where
  "reach_token kind (Literal text) r = reach_literal text r"
| "reach_token kind SingleStar r = reach_wildcard (separator kind) r"
| "reach_token kind DoubleStar r = reach_wildcard (\<lambda>_. False) r"

definition isPatternMatch :: "string \<Rightarrow> string \<Rightarrow> PatternKind \<Rightarrow> bool" where
  "isPatternMatch pattern s kind =
     isComplete (fold (reach_token kind) (tokenise_pattern pattern kind) (new_Reach s))"

text \<open>
  \<^verbatim>\<open>commandPatternProblem\<close>: the open pattern the message names, when the save is refused.
\<close>

definition commandPatternProblem :: "string list \<Rightarrow> bool \<Rightarrow> string option" where
  "commandPatternProblem patterns isAnyCommand =
     (if isAnyCommand then None
      else List.find (\<lambda>p. length p > 0 \<and> isPatternMatch p [] CommandPattern) patterns)"

section \<open>The specification of a match\<close>

text \<open>
  Read off the pattern's characters: a character that is not a star matches itself, a star of a
  path matches a run without \<open>/\<close>, two stars of a path match anything, a star of a command
  matches a run without a line terminator. Two stars are read together whenever they can be.
\<close>

inductive glob :: "PatternKind \<Rightarrow> string \<Rightarrow> string \<Rightarrow> bool" where
  glob_end: "glob kind [] []"
| glob_char: "c \<noteq> CHR ''*'' \<Longrightarrow> glob kind p s \<Longrightarrow> glob kind (c # p) (c # s)"
| glob_double: "glob PathPattern p v \<Longrightarrow> glob PathPattern (CHR ''*'' # CHR ''*'' # p) (u @ v)"
| glob_star: "kind = CommandPattern \<or> p = [] \<or> hd p \<noteq> CHR ''*'' \<Longrightarrow>
     \<forall>c \<in> set u. \<not> separator kind c \<Longrightarrow> glob kind p v \<Longrightarrow> glob kind (CHR ''*'' # p) (u @ v)"

text \<open>The language of a token list, between the buffer and the relation.\<close>

fun token_match :: "PatternKind \<Rightarrow> PatternToken list \<Rightarrow> string \<Rightarrow> bool" where
  "token_match kind [] s \<longleftrightarrow> s = []"
| "token_match kind (Literal t # ts) s \<longleftrightarrow> (\<exists>r. s = t @ r \<and> token_match kind ts r)"
| "token_match kind (SingleStar # ts) s \<longleftrightarrow>
     (\<exists>u v. s = u @ v \<and> (\<forall>c \<in> set u. \<not> separator kind c) \<and> token_match kind ts v)"
| "token_match kind (DoubleStar # ts) s \<longleftrightarrow> (\<exists>u v. s = u @ v \<and> token_match kind ts v)"

subsection \<open>The buffer and the tokens\<close>

lemma length_sweep [simp]: "length (sweep stopAt isOpen rs s) = length rs"
  by (induction stopAt isOpen rs s rule: sweep.induct) auto

text \<open>A position is open after a sweep when some reached position before it is joined to it by
  characters none of which stops the wildcard.\<close>

lemma sweep_nth:
  "n < length rs \<Longrightarrow> length rs = Suc (length s) \<Longrightarrow>
   sweep stopAt isOpen rs s ! n \<longleftrightarrow>
     (isOpen \<and> (\<forall>c \<in> set (take n s). \<not> stopAt c)) \<or>
     (\<exists>m \<le> n. rs ! m \<and> (\<forall>c \<in> set (drop m (take n s)). \<not> stopAt c))"
proof (induction stopAt isOpen rs s arbitrary: n rule: sweep.induct)
  case (1 stopAt isOpen s)
  then show ?case by simp
next
  case (2 stopAt isOpen r rs)
  then show ?case by auto
next
  case (3 stopAt isOpen r rs c cs)
  show ?case
  proof (cases n)
    case 0
    then show ?thesis by simp
  next
    case (Suc k)
    have split_le: "(\<exists>m \<le> Suc k. P m) \<longleftrightarrow> P 0 \<or> (\<exists>m \<le> k. P (Suc m))" for P :: "nat \<Rightarrow> bool"
      by (metis Suc_le_mono le0 not0_implies_Suc)
    from Suc "3.prems" have "k < length rs" "length rs = Suc (length cs)" by simp_all
    from "3.IH" [OF this] show ?thesis
      unfolding Suc split_le by auto
  qed
qed

lemma fold_update_nth:
  "i < length ys \<Longrightarrow>
   fold (\<lambda>p next. if P p then next[p + k := True] else next) ps ys ! i \<longleftrightarrow>
     ys ! i \<or> (\<exists>p \<in> set ps. P p \<and> p + k = i)"
proof (induction ps arbitrary: ys)
  case Nil
  then show ?case by simp
next
  case (Cons p ps)
  then show ?case by (cases "P p"; cases "p + k < length ys"; cases "p + k = i")
    (auto simp: nth_list_update list_update_beyond)
qed

lemma length_fold_update [simp]:
  "length (fold (\<lambda>p next. if P p then next[p + k := True] else next) ps ys) = length ys"
  by (induction ps arbitrary: ys) auto

text \<open>\<open>reach_inv r S\<close>: the buffer holds exactly the positions of \<open>S\<close>.\<close>

definition reach_inv :: "Reach \<Rightarrow> (nat \<Rightarrow> bool) \<Rightarrow> bool" where
  "reach_inv r S \<longleftrightarrow> length (current r) = Suc (length (subject r)) \<and>
     (\<forall>i \<le> length (subject r). current r ! i \<longleftrightarrow> S i)"

lemma reach_inv_new: "reach_inv (new_Reach s) (\<lambda>i. i = 0)"
  by (auto simp: reach_inv_def new_Reach_def nth_Cons split: nat.splits)

lemma reach_inv_literal:
  assumes "reach_inv r S"
  shows "reach_inv (reach_literal lit r)
           (\<lambda>i. \<exists>p. S p \<and> p \<le> length (subject r) \<and> starts_at lit (subject r) p \<and> p + length lit = i)"
proof -
  have less: "p < length (current r) \<longleftrightarrow> p \<le> length (subject r)" for p
    using assms by (auto simp: reach_inv_def)
  have "length (current (reach_literal lit r)) = Suc (length (subject r))"
    using assms by (simp add: reach_literal_def reach_inv_def)
  moreover have "current (reach_literal lit r) ! i \<longleftrightarrow>
      (\<exists>p. S p \<and> p \<le> length (subject r) \<and> starts_at lit (subject r) p \<and> p + length lit = i)"
    if "i \<le> length (subject r)" for i
  proof -
    have "current (reach_literal lit r) ! i \<longleftrightarrow>
        (\<exists>p \<in> set [0..<length (current r)].
           (current r ! p \<and> starts_at lit (subject r) p) \<and> p + length lit = i)"
      using that less by (simp add: reach_literal_def fold_update_nth del: upt_Suc)
    with assms show ?thesis by (auto simp: reach_inv_def less)
  qed
  ultimately show ?thesis
    by (simp add: reach_inv_def reach_literal_def)
qed

lemma reach_inv_wildcard:
  assumes "reach_inv r S"
  shows "reach_inv (reach_wildcard stopAt r)
           (\<lambda>i. \<exists>m \<le> i. S m \<and> (\<forall>c \<in> set (drop m (take i (subject r))). \<not> stopAt c))"
  using assms by (auto simp: reach_inv_def reach_wildcard_def sweep_nth)

lemma subject_reach_token [simp]: "subject (reach_token kind t r) = subject r"
  by (cases t) (simp_all add: reach_literal_def reach_wildcard_def)

text \<open>Choosing the end of a wildcard's run is splitting what is left after the reached position.\<close>

lemma reach_split:
  "(\<exists>i \<le> length s. (\<exists>m \<le> i. S m \<and> (\<forall>c \<in> set (drop m (take i s)). \<not> stopAt c)) \<and> P (drop i s)) \<longleftrightarrow>
   (\<exists>p \<le> length s. S p \<and> (\<exists>u v. drop p s = u @ v \<and> (\<forall>c \<in> set u. \<not> stopAt c) \<and> P v))"
  (is "?L \<longleftrightarrow> ?R")
proof
  assume ?L
  then obtain i m where im: "i \<le> length s" "m \<le> i" "S m"
    "\<forall>c \<in> set (drop m (take i s)). \<not> stopAt c" "P (drop i s)" by blast
  have "drop m s = drop m (take i s) @ drop i s"
    using im(1,2) by (metis append_take_drop_id diff_is_0_eq drop_0 drop_append length_take min.absorb2)
  with im show ?R by (meson le_trans)
next
  assume ?R
  then obtain p u v where p: "p \<le> length s" "S p" and uv: "drop p s = u @ v"
    and u: "\<forall>c \<in> set u. \<not> stopAt c" and v: "P v" by blast
  have len: "p + length u \<le> length s"
    using p(1) arg_cong [OF uv, of length] by simp
  have "drop (p + length u) s = v"
    using uv by (metis add.commute append_eq_conv_conj drop_drop)
  moreover have "drop p (take (p + length u) s) = u"
    using uv by (simp add: drop_take)
  ultimately show ?L using p u v len 
    by (intro exI [of _ "p + length u"] conjI exI [of _ p]) auto
qed

text \<open>
  The invariant of the loop over the tokens: the match succeeds when the tokens still to come
  match what is left of the subject after some reached position.
\<close>

lemma fold_reach_token:
  assumes "reach_inv r S"
  shows "isComplete (fold (reach_token kind) ts r) \<longleftrightarrow>
           (\<exists>p \<le> length (subject r). S p \<and> token_match kind ts (drop p (subject r)))"
  using assms
proof (induction ts arbitrary: r S)
  case Nil
  then show ?case by (auto simp: isComplete_def reach_inv_def)
next
  case (Cons t ts)
  let ?s = "subject r"
  show ?case
  proof (cases t)
    case (Literal lit)
    have "(\<exists>i \<le> length ?s. (\<exists>p. S p \<and> p \<le> length ?s \<and> starts_at lit ?s p \<and> p + length lit = i)
              \<and> token_match kind ts (drop i ?s)) \<longleftrightarrow>
          (\<exists>p \<le> length ?s. S p \<and> (\<exists>u. drop p ?s = lit @ u \<and> token_match kind ts u))"
      (is "?L \<longleftrightarrow> ?R")
    proof
      assume ?L
      then obtain p where p: "S p" "p \<le> length ?s" "starts_at lit ?s p"
        and m: "token_match kind ts (drop (p + length lit) ?s)" by auto
      from p(3) obtain u where u: "drop p ?s = lit @ u" by (auto simp: starts_at_def prefix_def)
      then have "drop (p + length lit) ?s = u"
        by (metis add.commute append_eq_conv_conj drop_drop)
      with p u m show ?R by auto
    next
      assume ?R
      then obtain p u where p: "p \<le> length ?s" "S p" and u: "drop p ?s = lit @ u"
        and m: "token_match kind ts u" by auto
      from u have "starts_at lit ?s p" by (simp add: starts_at_def)
      moreover have "drop (p + length lit) ?s = u" using u
        by (metis add.commute append_eq_conv_conj drop_drop)
      ultimately show ?L using p m starts_at_length by blast
    qed
    with Literal Cons.IH [OF reach_inv_literal [OF Cons.prems, of lit]] show ?thesis
      by (simp add: reach_literal_def)
  next
    case SingleStar
    with Cons.IH [OF reach_inv_wildcard [OF Cons.prems, of "separator kind"]] show ?thesis
      by (simp add: reach_wildcard_def reach_split)
  next
    case DoubleStar
    with Cons.IH [OF reach_inv_wildcard [OF Cons.prems, of "\<lambda>_. False"]]
      reach_split [of ?s S "\<lambda>_. False" "token_match kind ts"] show ?thesis
      by (simp add: reach_wildcard_def)
  qed
qed

subsection \<open>The tokens and the pattern\<close>

inductive_simps glob_Nil [simp]: "glob kind [] s"
inductive_simps glob_Cons: "glob kind (c # p) s"

lemma glob_char_iff: "c \<noteq> CHR ''*'' \<Longrightarrow> glob kind (c # p) s \<longleftrightarrow> (\<exists>r. s = c # r \<and> glob kind p r)"
  by (subst glob_Cons) auto

lemma glob_double_iff: "glob PathPattern (CHR ''*'' # CHR ''*'' # p) s \<longleftrightarrow> (\<exists>u v. s = u @ v \<and> glob PathPattern p v)"
  by (subst glob_Cons) auto

lemma glob_star_iff:
  "kind = CommandPattern \<or> p = [] \<or> hd p \<noteq> CHR ''*'' \<Longrightarrow>
   glob kind (CHR ''*'' # p) s \<longleftrightarrow>
     (\<exists>u v. s = u @ v \<and> (\<forall>c \<in> set u. \<not> separator kind c) \<and> glob kind p v)"
  by (subst glob_Cons) auto

lemma token_match_literal_token [simp]:
  "token_match kind (literal_token lit @ ts) s \<longleftrightarrow> (\<exists>r. s = lit @ r \<and> token_match kind ts r)"
  by (simp add: literal_token_def)

lemma token_match_tokenise:
  "token_match kind (tokenise_pattern_from kind lit p) s \<longleftrightarrow> (\<exists>r. s = lit @ r \<and> glob kind p r)"
proof (induction kind lit p arbitrary: s rule: tokenise_pattern_from.induct)
  case (1 kind lit)
  then show ?case using token_match_literal_token [of kind lit "[]"] by simp
next
  case (2 kind lit c cs)
  show ?case
  proof (cases "c = CHR ''*''")
    case False
    with "2.IH"(1) show ?thesis by (auto simp: glob_char_iff)
  next
    case star: True
    show ?thesis
    proof (cases "kind = PathPattern \<and> cs \<noteq> [] \<and> hd cs = CHR ''*''")
      case True
      then obtain p where cs: "cs = CHR ''*'' # p" by (cases cs) auto
      with star True "2.IH"(2) show ?thesis by (simp add: glob_double_iff)
    next
      case False
      then have "kind = CommandPattern \<or> cs = [] \<or> hd cs \<noteq> CHR ''*''"
        by (cases kind) auto
      moreover have "tokenise_pattern_from kind lit (c # cs) =
          literal_token lit @ SingleStar # tokenise_pattern_from kind [] cs"
        using star False by auto
      ultimately show ?thesis
        using "2.IH"(3) star False by (simp add: glob_star_iff del: tokenise_pattern_from.simps)
    qed
  qed
qed

lemma isPatternMatch_glob: "isPatternMatch pattern s kind \<longleftrightarrow> glob kind pattern s"
  using fold_reach_token [OF reach_inv_new [of s], of kind "tokenise_pattern pattern kind"]
  by (simp add: isPatternMatch_def tokenise_pattern_def token_match_tokenise new_Reach_def)

subsection \<open>Consequences for the policies\<close>

text \<open>A pattern without a star is an exact match.\<close>

lemma glob_literal: "CHR ''*'' \<notin> set p \<Longrightarrow> glob kind p s \<longleftrightarrow> s = p"
proof (induction p arbitrary: s)
  case (Cons c p)
  then have "c \<noteq> CHR ''*''" and IH: "\<And>s. glob kind p s \<longleftrightarrow> s = p" by auto
  then show ?case by (simp add: glob_char_iff)
qed simp

text \<open>
  A separator of the subject is matched by the pattern's own text, never by a wildcard: with
  single stars only, subject and pattern have the same separators in the same order.
\<close>

lemma glob_command_separators:
  "glob CommandPattern p s \<Longrightarrow> filter (separator CommandPattern) s = filter (separator CommandPattern) p"
proof (induction CommandPattern p s rule: glob.induct)
  case (glob_star p u v)
  then have "filter (separator CommandPattern) u = []" by (simp add: filter_empty_conv)
  with glob_star show ?case by simp
qed simp_all

fun no_double_star :: "string \<Rightarrow> bool" where
  "no_double_star (a # b # p) \<longleftrightarrow> \<not> (a = CHR ''*'' \<and> b = CHR ''*'') \<and> no_double_star (b # p)"
| "no_double_star _ \<longleftrightarrow> True"

lemma no_double_star_tl: "no_double_star (a # p) \<Longrightarrow> no_double_star p"
  by (cases p) auto

lemma glob_path_separators:
  "glob PathPattern p s \<Longrightarrow> no_double_star p \<Longrightarrow>
   filter (separator PathPattern) s = filter (separator PathPattern) p"
proof (induction PathPattern p s rule: glob.induct)
  case (glob_star p u v)
  then have "filter (separator PathPattern) u = []" by (simp add: filter_empty_conv)
  with glob_star show ?case by (auto dest: no_double_star_tl)
qed (auto dest: no_double_star_tl)

text \<open>What the save-time check refuses: patterns that match the empty command are all stars.\<close>

lemma glob_command_empty: "glob CommandPattern p [] \<longleftrightarrow> set p \<subseteq> {CHR ''*''}"
proof (induction p)
  case (Cons c p)
  then show ?case
    by (cases "c = CHR ''*''") (auto simp: glob_char_iff glob_star_iff)
qed simp

lemma glob_command_all_stars:
  "p \<noteq> [] \<Longrightarrow> set p \<subseteq> {CHR ''*''} \<Longrightarrow> \<forall>c \<in> set s. \<not> separator CommandPattern c \<Longrightarrow>
   glob CommandPattern p s"
proof (induction p)
  case (Cons c p)
  then have "glob CommandPattern p []" by (simp add: glob_command_empty)
  with Cons.prems show ?case
    using glob.glob_star [of CommandPattern p s "[]"] by simp
qed simp

section \<open>HTTP subjects\<close>

text \<open>\<^verbatim>\<open>UNRESERVED\<close>: \<^verbatim>\<open>/^[\w.~-]$/\<close>.\<close>

definition is_unreserved :: "char \<Rightarrow> bool" where
  "is_unreserved c \<longleftrightarrow> is_word c \<or> c = CHR ''.'' \<or> c = CHR ''~'' \<or> c = CHR ''-''"

text \<open>
  \<^verbatim>\<open>replaceAll(PERCENT_ESCAPE, \<dots>)\<close>: the escapes are found from left to right, and what a
  replacement yields is not scanned again.
\<close>

definition is_escape :: "char \<Rightarrow> string \<Rightarrow> bool" where
  "is_escape c cs \<longleftrightarrow> c = CHR ''%'' \<and> 2 \<le> length cs \<and> is_hex (cs ! 0) \<and> is_hex (cs ! 1)"

text \<open>The callback of \<^verbatim>\<open>replaceAll\<close> for the escape with the digits \<open>a\<close> and \<open>b\<close>.\<close>

definition decode_escape :: "char \<Rightarrow> char \<Rightarrow> string" where
  "decode_escape a b =
     (let character = char_of (16 * hex_value a + hex_value b) in
      if is_unreserved character then [character]
      else [CHR ''%'', ascii_upper a, ascii_upper b])"

function decodeUnreserved :: "string \<Rightarrow> string" where
  "decodeUnreserved [] = []"
| "decodeUnreserved (c # cs) =
     (if is_escape c cs then decode_escape (cs ! 0) (cs ! 1) @ decodeUnreserved (drop 2 cs)
      else c # decodeUnreserved cs)"
  by pat_completeness auto
termination by (relation "measure length") (auto simp: is_escape_def)

record DotFreePath =
  path :: string
  escaped :: bool

text \<open>What one turn of the loop of \<^verbatim>\<open>removeDotSegments\<close> does to \<^verbatim>\<open>output\<close>.\<close>

definition dot_output :: "bool \<Rightarrow> string \<Rightarrow> string list \<Rightarrow> string list" where
  "dot_output isLast segment out =
     (if segment = ''..'' then butlast out
      else if segment \<noteq> ''.'' then out @ [segment] else out)
     @ (if isLast \<and> (segment = ''.'' \<or> segment = ''..'') then [[]] else [])"

fun dot_loop :: "string list \<Rightarrow> string list \<Rightarrow> bool \<Rightarrow> string list \<times> bool" where
  "dot_loop [] out isEscaped = (out, isEscaped)"
| "dot_loop (segment # rest) out isEscaped =
     dot_loop rest (dot_output (rest = []) segment out)
       (isEscaped \<or> (segment = ''..'' \<and> out = []))"

definition removeDotSegments :: "string \<Rightarrow> DotFreePath" where
  "removeDotSegments p =
     (case dot_loop (tl (split_on (CHR ''/'') p)) [] False of
        (output, isEscaped) \<Rightarrow>
          \<lparr>path = CHR ''/'' # join_with (CHR ''/'') output, escaped = isEscaped\<rparr>)"

definition normalise :: "string \<Rightarrow> DotFreePath" where
  "normalise pathAndQuery =
     (let p = before_first (CHR ''?'') pathAndQuery;
          query = from_first (CHR ''?'') pathAndQuery;
          dotFree = removeDotSegments (decodeUnreserved p)
      in \<lparr>path = path dotFree @ decodeUnreserved query, escaped = escaped dotFree\<rparr>)"

definition httpSubject :: "string \<Rightarrow> string option" where
  "httpSubject p =
     (if \<not> prefix ''/'' p then None
      else (let s = normalise p in if escaped s then None else Some (path s)))"

subsection \<open>Percent decoding\<close>

lemma ascii_upper_hex_plain: "is_hex a \<Longrightarrow> ascii_upper a \<noteq> CHR ''?'' \<and> ascii_upper a \<noteq> CHR ''/''"
  by (auto simp: ascii_upper_def is_hex_def char_class_defs char_of_eq_iff take_bit_eq_mod)

lemma unreserved_plain: "is_unreserved c \<Longrightarrow> c \<noteq> CHR ''?'' \<and> c \<noteq> CHR ''/'' \<and> c \<noteq> CHR ''%''"
  by (auto simp: is_unreserved_def char_class_defs)

lemma is_hex_plain: "is_hex a \<Longrightarrow> a \<noteq> CHR ''?'' \<and> a \<noteq> CHR ''/''"
  by (auto simp: is_hex_def char_class_defs)

lemma decode_escape_plain:
  "is_hex a \<Longrightarrow> is_hex b \<Longrightarrow> c \<in> set (decode_escape a b) \<Longrightarrow> c \<noteq> CHR ''?'' \<and> c \<noteq> CHR ''/''"
  using ascii_upper_hex_plain [of a] ascii_upper_hex_plain [of b] unreserved_plain
  by (auto simp: decode_escape_def Let_def split: if_splits)

text \<open>Decoding adds no separator: neither a slash nor a question mark appears that was not there.\<close>

lemma decodeUnreserved_notin:
  "d = CHR ''?'' \<or> d = CHR ''/'' \<Longrightarrow> d \<in> set (decodeUnreserved s) \<longleftrightarrow> d \<in> set s"
proof (induction s rule: decodeUnreserved.induct)
  case 1
  then show ?case by simp
next
  case (2 c cs)
  show ?case
  proof (cases "is_escape c cs")
    case False
    with 2 show ?thesis by simp
  next
    case True
    then obtain a b rest where cs: "cs = a # b # rest" and h: "c = CHR ''%''" "is_hex a" "is_hex b"
      by (cases cs; cases "tl cs") (auto simp: is_escape_def)
    have d: "d \<notin> {c, a, b}" "d \<notin> set (decode_escape a b)"
      using "2.prems" h is_hex_plain decode_escape_plain by auto
    have "d \<in> set (decodeUnreserved rest) \<longleftrightarrow> d \<in> set rest"
      using "2.IH"(1) [OF True "2.prems"] cs by simp
    with d True cs show ?thesis by simp
  qed
qed

subsection \<open>Dot segments\<close>

definition dot_free :: "string list \<Rightarrow> bool" where
  "dot_free segments \<longleftrightarrow> (\<forall>x \<in> set segments. x \<noteq> ''.'' \<and> x \<noteq> ''..'')"

lemma dot_free_output: "dot_free out \<Longrightarrow> dot_free (dot_output isLast segment out)"
  by (auto simp: dot_free_def dot_output_def dest: in_set_butlastD)

lemma dot_loop_free: "dot_loop segments out0 esc0 = (out, esc) \<Longrightarrow> dot_free out0 \<Longrightarrow> dot_free out"
  by (induction segments out0 esc0 rule: dot_loop.induct) (auto simp: dot_free_output)

lemma dot_output_set: "x \<in> set (dot_output isLast segment out) \<Longrightarrow> x \<in> set out \<or> x = segment \<or> x = []"
  by (auto simp: dot_output_def dest: in_set_butlastD split: if_splits)

lemma dot_loop_set:
  "dot_loop segments out0 esc0 = (out, esc) \<Longrightarrow> x \<in> set out \<Longrightarrow> x \<in> set out0 \<union> set segments \<union> {[]}"
  by (induction segments out0 esc0 rule: dot_loop.induct) (auto dest!: dot_output_set)

lemma dot_output_last: "dot_output True segment out \<noteq> []"
  by (auto simp: dot_output_def)

lemma dot_loop_not_Nil:
  "dot_loop segments out0 esc0 = (out, esc) \<Longrightarrow> segments \<noteq> [] \<Longrightarrow> out \<noteq> []"
proof (induction segments out0 esc0 rule: dot_loop.induct)
  case (2 segment rest out0 esc0)
  then show ?case by (cases "rest = []") (auto simp: dot_output_last)
qed simp

text \<open>A list of segments with no dot segment passes through the loop unchanged.\<close>

lemma dot_loop_plain:
  "dot_free segments \<Longrightarrow> dot_loop segments out0 esc0 = (out0 @ segments, esc0)"
  by (induction segments out0 esc0 rule: dot_loop.induct) (auto simp: dot_free_def dot_output_def)

text \<open>
  The flag: climbing above the root is a prefix of the segments with more \<open>..\<close> than segments
  to remove; once set it stays set.
\<close>

lemma dot_loop_escaped_mono: "dot_loop segments out0 True = (out, esc) \<Longrightarrow> esc"
  by (induction segments out0 True rule: dot_loop.induct) auto

lemma tl_split_no_slash: "x \<in> set (tl (split_on (CHR ''/'') p)) \<Longrightarrow> CHR ''/'' \<notin> set x"
  using split_on_no_sep by (metis list.set_sel(2) split_on_not_Nil)

lemma removeDotSegments_path:
  assumes "prefix ''/'' p"
  obtains out where "path (removeDotSegments p) = CHR ''/'' # join_with (CHR ''/'') out"
    and "split_on (CHR ''/'') (path (removeDotSegments p)) = [] # out" and "dot_free out"
    and "\<And>x. x \<in> set out \<Longrightarrow> x = [] \<or> x \<in> set (tl (split_on (CHR ''/'') p))"
proof -
  from assms obtain q where p: "p = CHR ''/'' # q" by (auto simp: prefix_def)
  obtain out esc where l: "dot_loop (split_on (CHR ''/'') q) [] False = (out, esc)"
    by (cases "dot_loop (split_on (CHR ''/'') q) [] False")
  then have eq: "path (removeDotSegments p) = CHR ''/'' # join_with (CHR ''/'') out"
    by (simp add: removeDotSegments_def p)
  have free: "dot_free out" using dot_loop_free [OF l] by (simp add: dot_free_def)
  have mem: "x = [] \<or> x \<in> set (split_on (CHR ''/'') q)" if "x \<in> set out" for x
    using dot_loop_set [OF l that] by auto
  then have "\<forall>x \<in> set out. CHR ''/'' \<notin> set x" using split_on_no_sep by fastforce
  then have "split_on (CHR ''/'') (join_with (CHR ''/'') out) = out"
    using dot_loop_not_Nil [OF l] by (simp add: split_join)
  with eq free mem p that [of out] show thesis by simp
qed

lemma join_with_set: "c \<in> set (join_with d xs) \<Longrightarrow> c = d \<or> (\<exists>x \<in> set xs. c \<in> set x)"
  by (induction d xs rule: join_with.induct) auto

lemma split_on_set: "x \<in> set (split_on d s) \<Longrightarrow> set x \<subseteq> set s"
proof (induction s arbitrary: x)
  case (Cons a s)
  then show ?case by (cases "split_on d s") (fastforce split: if_splits)+
qed simp

lemma removeDotSegments_no_query:
  assumes "prefix ''/'' p" and "CHR ''?'' \<notin> set p"
  shows "CHR ''?'' \<notin> set (path (removeDotSegments p))"
proof -
  obtain out where out: "path (removeDotSegments p) = CHR ''/'' # join_with (CHR ''/'') out"
    and mem: "\<And>x. x \<in> set out \<Longrightarrow> x = [] \<or> x \<in> set (tl (split_on (CHR ''/'') p))"
    using removeDotSegments_path [OF assms(1)] by metis
  have "CHR ''?'' \<notin> set x" if "x \<in> set out" for x
    using mem [OF that] split_on_set [of x "CHR ''/''" p] assms(2)
    by (auto dest: list.set_sel(2) [OF split_on_not_Nil])
  then show ?thesis unfolding out using join_with_set by fastforce
qed

lemma normalise_path:
  assumes "prefix ''/'' p"
  shows "before_first (CHR ''?'') (path (normalise p)) =
           path (removeDotSegments (decodeUnreserved (before_first (CHR ''?'') p)))"
    and "from_first (CHR ''?'') (path (normalise p)) = decodeUnreserved (from_first (CHR ''?'') p)"
proof -
  let ?d = "decodeUnreserved (before_first (CHR ''?'') p)"
  from assms obtain q where p: "p = CHR ''/'' # q" by (auto simp: prefix_def)
  then have d: "prefix ''/'' ?d" by (simp add: before_first_def is_escape_def)
  have q: "CHR ''?'' \<notin> set (path (removeDotSegments ?d))"
    by (rule removeDotSegments_no_query [OF d]) (simp add: decodeUnreserved_notin)
  have f: "decodeUnreserved (from_first (CHR ''?'') p) = [] \<or>
      (\<exists>t. decodeUnreserved (from_first (CHR ''?'') p) = CHR ''?'' # t)"
    using from_first_cases [of "CHR ''?''" p] by (auto simp: is_escape_def)
  then have "before_first (CHR ''?'') (decodeUnreserved (from_first (CHR ''?'') p)) = []"
    and "from_first (CHR ''?'') (decodeUnreserved (from_first (CHR ''?'') p)) =
           decodeUnreserved (from_first (CHR ''?'') p)"
    by (auto simp: before_first_def from_first_def)
  with q show "before_first (CHR ''?'') (path (normalise p)) = path (removeDotSegments ?d)"
    and "from_first (CHR ''?'') (path (normalise p)) = decodeUnreserved (from_first (CHR ''?'') p)"
    by (simp_all add: normalise_def Let_def before_first_append from_first_append)
qed

section \<open>Properties\<close>

text \<open>
  C9: the buffer sweep of \<^verbatim>\<open>isPatternMatch\<close> decides exactly the documented pattern language, for
  every pattern, subject and kind: anchored at both ends, a star stops at a separator, two stars
  of a path cross it, everything else matches itself.
\<close>

theorem isPatternMatch_correct: "isPatternMatch pattern s kind \<longleftrightarrow> glob kind pattern s"
  by (rule isPatternMatch_glob)

text \<open>
  no single star ever matches across a separator: a subject a command pattern matches has the
  line terminators the pattern writes and no other, and a subject a path pattern without \<open>**\<close>
  matches has as many slashes as the pattern.
\<close>

theorem isPatternMatch_separators:
  assumes "isPatternMatch pattern s kind" and "kind = PathPattern \<longrightarrow> no_double_star pattern"
  shows "filter (separator kind) s = filter (separator kind) pattern"
  using assms glob_command_separators [of pattern s] glob_path_separators [of pattern s]
  by (cases kind) (auto simp: isPatternMatch_glob)

theorem isPatternMatch_separators_witness:
  "filter (separator PathPattern) ''/users/7/keys'' = filter (separator PathPattern) ''/users/*/keys''"
proof (rule isPatternMatch_separators)
  show "isPatternMatch ''/users/*/keys'' ''/users/7/keys'' PathPattern"
    by code_simp
qed simp

text \<open>
  the save-time check refuses a command allowlist exactly when one of its patterns, none of
  them empty, is made of stars only, that is, when the pattern would allow every one-line command.
\<close>

theorem commandPatternProblem_open:
  assumes "[] \<notin> set patterns"
  shows "commandPatternProblem patterns False \<noteq> None \<longleftrightarrow>
    (\<exists>p \<in> set patterns. \<forall>s. (\<forall>c \<in> set s. \<not> separator CommandPattern c) \<longrightarrow> isPatternMatch p s CommandPattern)"
proof -
  have open_iff: "isPatternMatch p [] CommandPattern \<longleftrightarrow>
      (\<forall>s. (\<forall>c \<in> set s. \<not> separator CommandPattern c) \<longrightarrow> isPatternMatch p s CommandPattern)"
    if "p \<in> set patterns" for p
    using that assms glob_command_all_stars [of p] glob_command_empty [of p]
    by (auto simp: isPatternMatch_glob)
  have "commandPatternProblem patterns False \<noteq> None \<longleftrightarrow>
      (\<exists>p \<in> set patterns. isPatternMatch p [] CommandPattern)"
    using assms by (auto simp: commandPatternProblem_def find_None_iff)
  with open_iff show ?thesis by blast
qed

theorem commandPatternProblem_open_witness:
  "\<exists>p \<in> {''uptime'', ''**''}. \<forall>s. (\<forall>c \<in> set s. \<not> separator CommandPattern c) \<longrightarrow>
     isPatternMatch p s CommandPattern"
proof -
  have "commandPatternProblem [''uptime'', ''**''] False \<noteq> None" by code_simp
  then show ?thesis using commandPatternProblem_open [of "[''uptime'', ''**'']"] by simp
qed

text \<open>
  the subject the HTTP policy is matched against starts with a slash, and once percent-encoded
  unreserved characters are decoded no segment of its path is a dot segment, so it names nothing
  above \<^verbatim>\<open>base_url\<close>; a path whose dot segments climb above the root has no subject at all, and
  removing dot segments a second time changes nothing.
\<close>

theorem httpSubject_confined:
  assumes "httpSubject p = Some s"
  shows "prefix ''/'' s \<and> dot_free (tl (split_on (CHR ''/'') (before_first (CHR ''?'') s))) \<and>
    removeDotSegments (before_first (CHR ''?'') s) =
      \<lparr>path = before_first (CHR ''?'') s, escaped = False\<rparr> \<and>
    \<not> escaped (normalise p)"
proof -
  from assms have p: "prefix ''/'' p" and s: "s = path (normalise p)" and e: "\<not> escaped (normalise p)"
    by (auto simp: httpSubject_def Let_def split: if_splits)
  let ?d = "decodeUnreserved (before_first (CHR ''?'') p)"
  have d: "prefix ''/'' ?d" using p by (auto simp: prefix_def before_first_def is_escape_def)
  obtain out where out: "path (removeDotSegments ?d) = CHR ''/'' # join_with (CHR ''/'') out"
      "split_on (CHR ''/'') (path (removeDotSegments ?d)) = [] # out" "dot_free out"
    by (rule removeDotSegments_path [OF d])
  have before: "before_first (CHR ''?'') s = path (removeDotSegments ?d)"
    using normalise_path(1) [OF p] s by simp
  have 1: "prefix ''/'' s" using s out(1) by (simp add: normalise_def Let_def)
  have 2: "dot_free (tl (split_on (CHR ''/'') (before_first (CHR ''?'') s)))"
    unfolding before out(2) by (simp add: out(3))
  have 3: "removeDotSegments (before_first (CHR ''?'') s) =
      \<lparr>path = before_first (CHR ''?'') s, escaped = False\<rparr>"
    unfolding before removeDotSegments_def [of "path (removeDotSegments ?d)"] out(2) list.sel
      dot_loop_plain [OF out(3)]
    by (simp add: out(1))
  from 1 2 3 e show ?thesis by simp
qed

theorem httpSubject_confined_witness:
  "prefix ''/'' ''/a/c?q=%2F'' \<and> dot_free (tl (split_on (CHR ''/'') (before_first (CHR ''?'') ''/a/c?q=%2F'')))"
proof -
  have "httpSubject ''/a/%62/%2e./c?q=%2f'' = Some ''/a/c?q=%2F''" by code_simp
  from httpSubject_confined [OF this] show ?thesis by simp
qed

end
