(* ===== verification/Encodings.thy ===== *)
theory Encodings
  imports Prelude
begin

text \<open>
  The encodings of the JavaScript and Node library that \<^verbatim>\<open>src/actions/scrub.ts\<close> and the HTTP
  connector call, as functions on lists of code units or bytes: UTF-8, Base64 and its URL alphabet,
  \<^verbatim>\<open>encodeURIComponent\<close>, the form encoding of \<^verbatim>\<open>URLSearchParams\<close> and the JSON string escape.
  A byte is a \<^typ>\<open>char\<close>, so a Buffer and the latin1 reading of it are the same list.
\<close>

type_synonym bytes = string

definition utf8_char :: "char \<Rightarrow> bytes" where
  "utf8_char c =
     (if char_code c < 128 then [c]
      else [char_of (192 + char_code c div 64), char_of (128 + char_code c mod 64)])"

definition utf8_encode :: "string \<Rightarrow> bytes" where
  "utf8_encode s = concat (map utf8_char s)"

text \<open>Hexadecimal digits of a byte, upper case for URLs and lower case for JSON.\<close>

definition hex_upper :: "nat \<Rightarrow> char" where
  "hex_upper n = (if n < 10 then char_of (48 + n) else char_of (55 + n))"

definition hex_lower :: "nat \<Rightarrow> char" where
  "hex_lower n = (if n < 10 then char_of (48 + n) else char_of (87 + n))"

definition percent_byte :: "char \<Rightarrow> string" where
  "percent_byte b = [CHR ''%'', hex_upper (char_code b div 16), hex_upper (char_code b mod 16)]"

definition is_alnum :: "char \<Rightarrow> bool" where
  "is_alnum c \<longleftrightarrow> is_digit c \<or> is_upper c \<or> is_lower c"

definition encodeURIComponent :: "string \<Rightarrow> string" where
  "encodeURIComponent s =
     concat (map (\<lambda>c. if is_alnum c \<or> c \<in> set ''-_.!~*'' \<or> c = CHR 0x27 \<or> c = CHR ''('' \<or> c = CHR '')''
                      then [c] else concat (map percent_byte (utf8_char c))) s)"

definition formEncode :: "string \<Rightarrow> string" where
  "formEncode s =
     concat (map (\<lambda>c. if is_alnum c \<or> c \<in> set ''*-._'' then [c]
                      else if c = CHR '' '' then ''+''
                      else concat (map percent_byte (utf8_char c))) s)"

text \<open>Base64: the sextets of a byte string, three bytes at a time.\<close>

fun sextets :: "nat list \<Rightarrow> nat list" where
  "sextets [] = []"
| "sextets [a] = [a div 4, (a mod 4) * 16]"
| "sextets [a, b] = [a div 4, (a mod 4) * 16 + b div 16, (b mod 16) * 4]"
| "sextets (a # b # c # rest) =
     [a div 4, (a mod 4) * 16 + b div 16, (b mod 16) * 4 + c div 64, c mod 64] @ sextets rest"

definition base64_char :: "bool \<Rightarrow> nat \<Rightarrow> char" where
  "base64_char url n =
     (if n < 26 then char_of (65 + n)
      else if n < 52 then char_of (71 + n)
      else if n < 62 then char_of (n - 4)
      else if n = 62 then (if url then CHR ''-'' else CHR ''+'')
      else (if url then CHR ''_'' else CHR ''/''))"

text \<open>\<^verbatim>\<open>toString('base64url')\<close> writes no padding, \<^verbatim>\<open>toString('base64')\<close> does.\<close>

definition base64url :: "bytes \<Rightarrow> string" where
  "base64url bs = map (base64_char True) (sextets (map char_code bs))"

definition base64 :: "bytes \<Rightarrow> string" where
  "base64 bs =
     (let body = map (base64_char False) (sextets (map char_code bs))
      in body @ replicate ((4 - length body mod 4) mod 4) (CHR ''=''))"

text \<open>\<^verbatim>\<open>JSON.stringify(value).slice(1, -1)\<close> of a string.\<close>

definition json_escape_char :: "char \<Rightarrow> string" where
  "json_escape_char c =
     (if c = CHR 0x22 then [CHR 0x5C, CHR 0x22]
      else if c = CHR 0x5C then [CHR 0x5C, CHR 0x5C]
      else if c = CHR 0x08 then [CHR 0x5C, CHR ''b'']
      else if c = CHR 0x0C then [CHR 0x5C, CHR ''f'']
      else if c = CHR 0x0A then [CHR 0x5C, CHR ''n'']
      else if c = CHR 0x0D then [CHR 0x5C, CHR ''r'']
      else if c = CHR 0x09 then [CHR 0x5C, CHR ''t'']
      else if char_code c < 32
        then [CHR 0x5C, CHR ''u'', CHR ''0'', CHR ''0'', hex_lower (char_code c div 16), hex_lower (char_code c mod 16)]
      else [c])"

definition jsonEscape :: "string \<Rightarrow> string" where
  "jsonEscape s = concat (map json_escape_char s)"

section \<open>Lemmas\<close>

lemma concat_map_not_Nil: "(\<And>c. f c \<noteq> []) \<Longrightarrow> s \<noteq> [] \<Longrightarrow> concat (map f s) \<noteq> []"
  by (cases s) auto

lemma utf8_char_not_Nil [simp]: "utf8_char c \<noteq> []"
  by (simp add: utf8_char_def)

lemma utf8_encode_Nil [simp]: "utf8_encode s = [] \<longleftrightarrow> s = []"
  using concat_map_not_Nil [of utf8_char s] by (cases s) (auto simp: utf8_encode_def)

lemma length_utf8_encode: "length (utf8_encode s) = utf8_length s"
  by (induction s) (auto simp: utf8_encode_def utf8_length_def utf8_char_def char_code_def)

lemma utf8_encode_append: "utf8_encode (s @ t) = utf8_encode s @ utf8_encode t"
  by (simp add: utf8_encode_def)

lemma percent_bytes_not_Nil: "concat (map percent_byte (utf8_char c)) \<noteq> []"
  by (simp add: utf8_char_def percent_byte_def)

lemma encodeURIComponent_not_Nil: "s \<noteq> [] \<Longrightarrow> encodeURIComponent s \<noteq> []"
  using percent_bytes_not_Nil unfolding encodeURIComponent_def
  by (intro concat_map_not_Nil) auto

lemma formEncode_not_Nil: "s \<noteq> [] \<Longrightarrow> formEncode s \<noteq> []"
  using percent_bytes_not_Nil unfolding formEncode_def
  by (intro concat_map_not_Nil) auto

lemma jsonEscape_not_Nil: "s \<noteq> [] \<Longrightarrow> jsonEscape s \<noteq> []"
  unfolding jsonEscape_def by (intro concat_map_not_Nil) (auto simp: json_escape_char_def)

lemma sextets_Nil [simp]: "sextets bs = [] \<longleftrightarrow> bs = []"
  by (induction bs rule: sextets.induct) auto

lemma base64_not_Nil: "bs \<noteq> [] \<Longrightarrow> base64 bs \<noteq> []" "bs \<noteq> [] \<Longrightarrow> base64url bs \<noteq> []"
  by (auto simp: base64_def base64url_def Let_def)

lemma length_base64: "length (base64 bs) = 4 * ((length bs + 2) div 3)"
proof -
  have "length (sextets xs) + (4 - length (sextets xs) mod 4) mod 4 = 4 * ((length xs + 2) div 3)" for xs
  proof (induction xs rule: sextets.induct)
    case (4 a b c rest)
    have "(5 + n) div 3 = Suc (Suc (Suc n) div 3)" for n :: nat by presburger
    with 4 show ?case by simp
  qed auto
  from this [of "map char_code bs"] show ?thesis by (simp add: base64_def Let_def)
qed

lemma sextets_less: "\<forall>b \<in> set bs. b < 256 \<Longrightarrow> w \<in> set (sextets bs) \<Longrightarrow> w < 64"
proof (induction bs rule: sextets.induct)
  case (2 a)
  then show ?case by auto
next
  case (3 a b)
  then have "a div 4 < 64" "b div 16 < 16" by auto
  with 3 show ?case by auto
next
  case (4 a b c rest)
  then have "a div 4 < 64" "b div 16 < 16" "c div 64 < 4" by auto
  with 4 show ?case by auto
qed simp

lemma base64_char_not_pad: "n < 64 \<Longrightarrow> base64_char url n \<noteq> CHR ''=''"
  by (auto simp: base64_char_def char_of_eq_iff take_bit_eq_mod)

lemma base64url_no_pad: "CHR ''='' \<notin> set (base64url bs)"
  using sextets_less [of "map char_code bs"] base64_char_not_pad
  by (auto simp: base64url_def) metis

end
