(* ===== verification/Scrub.thy ===== *)
theory Scrub
  imports Encodings
begin

text \<open>
  \<^verbatim>\<open>src/actions/scrub.ts\<close>: the encoded variants of an injected value, the replacement table, the
  one-pass scan that replaces them by markers, and the scrubber with its guard band.

  The scan is the code's loop, which would not end on an empty variant, so its result is an option
  and \<open>scrubText_total\<close> says it returns on every table \<open>createScrubber\<close> builds. Its specification
  is the list of pieces of the input: characters kept and hits replaced. The guard band lemma
  relates the scan of a captured prefix to the scan of the whole stream.
\<close>

section \<open>Variants\<close>

text \<open>
  An \<^verbatim>\<open>InjectedEntry\<close>; \<open>entry_value\<close> is the text whose UTF-8 bytes the Buffer holds, which is what
  \<^verbatim>\<open>entry.value.toString('utf8')\<close> gives back.
\<close>

record InjectedEntry =
  entry_field :: string
  entry_value :: string

definition redactionMarker :: "string \<Rightarrow> string" where
  "redactionMarker field = ''[redacted:'' @ field @ '']''"

text \<open>\<^verbatim>\<open>NON_PRINTABLE\<close>: anything outside the space to the tilde.\<close>

definition non_printable :: "char \<Rightarrow> bool" where
  "non_printable c \<longleftrightarrow> char_code c < 32 \<or> 126 < char_code c"

definition unitEscapes :: "char \<Rightarrow> string" where
  "unitEscapes c =
     [CHR 0x5C, CHR ''u'', CHR ''0'', CHR ''0'', hex_lower (char_code c div 16), hex_lower (char_code c mod 16)]"

definition unicodeEscape :: "string \<Rightarrow> string" where
  "unicodeEscape value =
     concat (map (\<lambda>c. if non_printable c then unitEscapes c else [c]) (jsonEscape value))"

definition padded :: "string \<Rightarrow> string" where
  "padded b = (let remainder = length b mod 4 in
     if remainder = 0 then b else b @ replicate (4 - remainder) (CHR ''=''))"

definition unpadded :: "string \<Rightarrow> string" where
  "unpadded b = rev (dropWhile (\<lambda>c. c = CHR ''='') (rev b))"

text \<open>\<^verbatim>\<open>toSorted(byLengthDescending)\<close>, a stable sort.\<close>

definition byLengthDescending :: "('a \<Rightarrow> 'b list) \<Rightarrow> 'a list \<Rightarrow> 'a list" where
  "byLengthDescending f xs = sort_key (\<lambda>x. - int (length (f x))) xs"

definition scrubVariants :: "string \<Rightarrow> string option \<Rightarrow> string list" where
  "scrubVariants value username =
     (if value = [] then []
      else
        (let octets = utf8_encode value; standard = base64 octets; url = base64url octets;
             variants = [value, encodeURIComponent value, formEncode value, padded standard,
               unpadded standard, padded url, unpadded url, jsonEscape value];
             withUser = (case username of None \<Rightarrow> variants
               | Some u \<Rightarrow> variants @ [base64 (utf8_encode (u @ '':'' @ value))]);
             withUnicode = (if list_ex non_printable value then withUser @ [unicodeEscape value]
               else withUser)
         in byLengthDescending id (js_set withUnicode)))"

section \<open>The table and the scan\<close>

record Replacement =
  variant :: string
  marker :: string

record Table =
  entries :: "Replacement list"
  starts :: "char list"

definition tableOf :: "Replacement list \<Rightarrow> Table" where
  "tableOf es = \<lparr>entries = es, starts = concat (map (\<lambda>e. take 1 (variant e)) es)\<rparr>"

text \<open>The entry that replaces at the current position: the first whose variant starts here.\<close>

definition hit_at :: "Table \<Rightarrow> string \<Rightarrow> Replacement option" where
  "hit_at table input =
     (case input of [] \<Rightarrow> None
      | c # _ \<Rightarrow> if c \<in> set (starts table)
               then List.find (\<lambda>e. prefix (variant e) input) (entries table) else None)"

text \<open>
  The loop of \<^verbatim>\<open>scrubText\<close> over what is left of the input; \<open>literal\<close> is the text since
  \<^verbatim>\<open>literalFrom\<close>. A hit with an empty variant would leave the index where it is for ever: None.
\<close>

function scrub_loop :: "Table \<Rightarrow> string \<Rightarrow> string \<Rightarrow> string option" where
  "scrub_loop table literal [] = Some literal"
| "scrub_loop table literal (c # cs) =
     (case hit_at table (c # cs) of
        None \<Rightarrow> scrub_loop table (literal @ [c]) cs
      | Some e \<Rightarrow>
          (if variant e = [] then None
           else map_option (\<lambda>rest. literal @ marker e @ rest)
                  (scrub_loop table [] (drop (length (variant e)) (c # cs)))))"
  by pat_completeness auto
termination
  by (relation "measure (\<lambda>(table, literal, input). length input)") auto

definition scrubText :: "Table \<Rightarrow> string \<Rightarrow> string option" where
  "scrubText table input = scrub_loop table [] input"

definition byteTable :: "Replacement list \<Rightarrow> Table" where
  "byteTable es =
     tableOf (byLengthDescending variant
       (map (\<lambda>e. \<lparr>variant = utf8_encode (variant e), marker = utf8_encode (marker e)\<rparr>) es))"

definition base64Room :: "nat \<Rightarrow> nat" where
  "base64Room maxBytes = maxBytes div 4 * 3"

section \<open>The scrubber\<close>

text \<open>
  \<^verbatim>\<open>createScrubber\<close> closes over the sorted entries; here they are the state the operations take.
\<close>

definition scrub_entries :: "InjectedEntry list \<Rightarrow> string option \<Rightarrow> Replacement list" where
  "scrub_entries es username =
     byLengthDescending variant
       (concat (map (\<lambda>e. map (\<lambda>v. \<lparr>variant = v, marker = redactionMarker (entry_field e)\<rparr>)
                           (scrubVariants (entry_value e) username)) es))"

record Scrubber =
  characters :: Table
  raw :: Table
  guardBytes :: nat

definition createScrubber :: "InjectedEntry list \<Rightarrow> string option \<Rightarrow> Scrubber" where
  "createScrubber es username =
     (let table = scrub_entries es username in
      \<lparr>characters = tableOf table, raw = byteTable table,
       guardBytes = fold max (map (\<lambda>e. utf8_length (variant e)) table) 0\<rparr>)"

definition scrub_text :: "Scrubber \<Rightarrow> string \<Rightarrow> string option" where
  "scrub_text s input = scrubText (characters s) input"

definition scrub_bytes :: "Scrubber \<Rightarrow> bytes \<Rightarrow> bytes option" where
  "scrub_bytes s input = scrubText (raw s) input"

text \<open>
  \<^verbatim>\<open>CappedText\<close>; the text of \<^verbatim>\<open>buffer\<close> is kept as the bytes before \<^verbatim>\<open>toString('utf8')\<close> reads them.
\<close>

record CappedText =
  capped_text :: string
  truncated :: bool
  captured_bytes :: nat

definition scrub_buffer :: "Scrubber \<Rightarrow> bytes \<Rightarrow> nat \<Rightarrow> CappedText option" where
  "scrub_buffer s input maxBytes =
     (case scrub_bytes s input of None \<Rightarrow> None
      | Some scrubbed \<Rightarrow>
          (let isCut = length scrubbed > maxBytes in
           Some \<lparr>capped_text = (if isCut then take maxBytes scrubbed else scrubbed),
                 truncated = (isCut \<or> length input > maxBytes),
                 captured_bytes = length input\<rparr>))"

definition scrub_base64 :: "Scrubber \<Rightarrow> bytes \<Rightarrow> nat \<Rightarrow> CappedText option" where
  "scrub_base64 s input maxBytes =
     (case scrub_bytes s input of None \<Rightarrow> None
      | Some scrubbed \<Rightarrow>
          (let fit = take (base64Room maxBytes) scrubbed in
           Some \<lparr>capped_text = base64 fit,
                 truncated = (length fit < length scrubbed \<or> length input > maxBytes),
                 captured_bytes = length input\<rparr>))"

text \<open>The values \<^verbatim>\<open>scrubDeep\<close> walks: text, bytes, arrays, objects and the scalars it leaves alone.\<close>

datatype value_tree =
    VText string
  | VBinary bytes
  | VArray "value_tree list"
  | VObject "(string \<times> value_tree) list"
  | VScalar int
  | VBool bool
  | VNull

fun scrubDeep :: "(string \<Rightarrow> string) \<Rightarrow> (bytes \<Rightarrow> string) \<Rightarrow> value_tree \<Rightarrow> value_tree" where
  "scrubDeep text_fn binary_fn (VText s) = VText (text_fn s)"
| "scrubDeep text_fn binary_fn (VBinary b) = VText (binary_fn b)"
| "scrubDeep text_fn binary_fn (VArray vs) = VArray (map (scrubDeep text_fn binary_fn) vs)"
| "scrubDeep text_fn binary_fn (VObject kvs) =
     VObject (map (\<lambda>(k, v). (k, scrubDeep text_fn binary_fn v)) kvs)"
| "scrubDeep text_fn binary_fn (VScalar n) = VScalar n"
| "scrubDeep text_fn binary_fn (VBool b) = VBool b"
| "scrubDeep text_fn binary_fn VNull = VNull"

section \<open>The pieces of a scan\<close>

datatype Piece = Kept char | Hit Replacement

fun piece_in :: "Piece \<Rightarrow> string" where
  "piece_in (Kept c) = [c]"
| "piece_in (Hit e) = variant e"

fun piece_out :: "Piece \<Rightarrow> string" where
  "piece_out (Kept c) = [c]"
| "piece_out (Hit e) = marker e"

definition pieces_in :: "Piece list \<Rightarrow> string" where
  "pieces_in ps = concat (map piece_in ps)"

definition pieces_out :: "Piece list \<Rightarrow> string" where
  "pieces_out ps = concat (map piece_out ps)"

lemma pieces_io_simps [simp]:
  "pieces_in [] = []" "pieces_in (p # ps) = piece_in p @ pieces_in ps"
  "pieces_in (ps @ qs) = pieces_in ps @ pieces_in qs"
  "pieces_out [] = []" "pieces_out (p # ps) = piece_out p @ pieces_out ps"
  "pieces_out (ps @ qs) = pieces_out ps @ pieces_out qs"
  by (simp_all add: pieces_in_def pieces_out_def)

lemma pieces_kept [simp]: "pieces_in (map Kept run) = run" "pieces_out (map Kept run) = run"
  by (induction run) simp_all

function pieces :: "Table \<Rightarrow> string \<Rightarrow> Piece list" where
  "pieces table [] = []"
| "pieces table (c # cs) =
     (case hit_at table (c # cs) of
        None \<Rightarrow> Kept c # pieces table cs
      | Some e \<Rightarrow> Hit e # pieces table (drop (length (variant e) - 1) cs))"
  by pat_completeness auto
termination by (relation "measure (\<lambda>(table, input). length input)") auto

text \<open>A table as \<^verbatim>\<open>tableOf\<close> builds it, none of whose variants is empty.\<close>

definition live_table :: "Table \<Rightarrow> bool" where
  "live_table t \<longleftrightarrow> t = tableOf (entries t) \<and> (\<forall>e \<in> set (entries t). variant e \<noteq> [])"

lemma hit_at_Some:
  "hit_at t s = Some e \<Longrightarrow> e \<in> set (entries t) \<and> prefix (variant e) s \<and> s \<noteq> []"
  by (cases s) (auto simp: hit_at_def find_Some_iff split: if_splits)

lemma hit_at_live:
  assumes "live_table t"
  shows "hit_at t s = List.find (\<lambda>e. prefix (variant e) s) (entries t)"
proof (cases s)
  case Nil
  then show ?thesis using assms
    by (auto simp: hit_at_def live_table_def find_None_iff intro: sym)
next
  case (Cons c cs)
  have "c \<in> set (starts t)" if "e \<in> set (entries t)" "prefix (variant e) s" for e
  proof -
    from that assms Cons have "take 1 (variant e) = [c]"
      by (cases "variant e") (auto simp: live_table_def)
    moreover have "starts t = concat (map (\<lambda>e. take 1 (variant e)) (entries t))"
      using assms unfolding live_table_def by (metis tableOf_def Table.select_convs(2))
    ultimately show ?thesis using that(1) by force
  qed
  then have "hit_at t s = None \<Longrightarrow> ?thesis"
    using Cons by (auto simp: hit_at_def find_None_iff split: if_splits intro!: sym [of _ None])
  then show ?thesis using Cons by (auto simp: hit_at_def split: if_splits)
qed

lemma hit_at_None: "live_table t \<Longrightarrow> hit_at t s = None \<longleftrightarrow> (\<forall>e \<in> set (entries t). \<not> prefix (variant e) s)"
  by (auto simp: hit_at_live find_None_iff)

lemma live_drop: "live_table t \<Longrightarrow> hit_at t (c # cs) = Some e \<Longrightarrow>
   drop (length (variant e)) (c # cs) = drop (length (variant e) - 1) cs"
  by (cases "variant e") (auto dest: hit_at_Some simp: live_table_def)

lemma scrub_loop_pieces:
  "live_table t \<Longrightarrow> scrub_loop t literal s = Some (literal @ pieces_out (pieces t s))"
proof (induction t literal s rule: scrub_loop.induct)
  case (2 t literal c cs)
  show ?case
  proof (cases "hit_at t (c # cs)")
    case None
    with 2 show ?thesis by simp
  next
    case (Some e)
    then have "variant e \<noteq> []" using "2.prems" hit_at_Some by (auto simp: live_table_def)
    with Some 2 show ?thesis by (simp add: live_drop)
  qed
qed simp

lemma pieces_in_pieces: "live_table t \<Longrightarrow> pieces_in (pieces t s) = s"
proof (induction t s rule: pieces.induct)
  case (2 t c cs)
  show ?case
  proof (cases "hit_at t (c # cs)")
    case None
    with 2 show ?thesis by simp
  next
    case (Some e)
    then obtain r where "c # cs = variant e @ r" using hit_at_Some [OF Some] by (auto simp: prefix_def)
    then have "drop (length (variant e) - 1) cs = r"
      using live_drop [OF "2.prems" Some] by simp
    with Some have "pieces t (c # cs) = Hit e # pieces t r" by simp
    moreover have "pieces_in (pieces t r) = r"
      using "2.IH"(2) [OF Some "2.prems"] \<open>drop (length (variant e) - 1) cs = r\<close> by simp
    ultimately show ?thesis using \<open>c # cs = variant e @ r\<close> by simp
  qed
qed simp

text \<open>What follows any piece is the scan of what is left of the input.\<close>

lemma pieces_suffix: "live_table t \<Longrightarrow> pieces t s = ps @ qs \<Longrightarrow> qs = pieces t (pieces_in qs)"
proof (induction t s arbitrary: ps rule: pieces.induct)
  case (1 t)
  then show ?case by simp
next
  case (2 t c cs)
  show ?case
  proof (cases ps)
    case Nil
    with 2 pieces_in_pieces [OF "2.prems"(1), of "c # cs"] show ?thesis by simp
  next
    case (Cons p ps')
    with 2 show ?thesis by (cases "hit_at t (c # cs)") auto
  qed
qed

lemma pieces_run_no_variant:
  assumes t: "live_table t" and s: "pieces t s = ps @ map Kept run @ qs" and e: "e \<in> set (entries t)"
  shows "\<not> sublist (variant e) run"
proof
  assume "sublist (variant e) run"
  then obtain a b where run: "run = a @ variant e @ b" by (auto simp: sublist_def)
  obtain c v where v: "variant e = c # v" using t e by (cases "variant e") (auto simp: live_table_def)
  let ?rest = "map Kept (variant e @ b) @ qs"
  have "?rest = pieces t (pieces_in ?rest)"
    using s run by (intro pieces_suffix [OF t, of s "ps @ map Kept a"]) simp
  then have "pieces t (variant e @ b @ pieces_in qs) = ?rest" by simp
  then have "hit_at t (variant e @ b @ pieces_in qs) = None"
    by (cases "hit_at t (variant e @ b @ pieces_in qs)") (auto simp: v)
  then show False using hit_at_None [OF t] e by auto
qed

lemma pieces_hit_entry: "Hit e \<in> set (pieces t s) \<Longrightarrow> e \<in> set (entries t)"
  by (induction t s rule: pieces.induct) (auto dest: hit_at_Some split: option.splits)

section \<open>The table of a scrubber\<close>

lemma set_byLengthDescending [simp]: "set (byLengthDescending f xs) = set xs"
  by (simp add: byLengthDescending_def)

lemma byLengthDescending_sorted:
  "sorted_wrt (\<lambda>x y. length (f y) \<le> length (f x)) (byLengthDescending f xs)"
proof -
  have "sorted (map (\<lambda>x. - int (length (f x))) (byLengthDescending f xs))"
    by (simp add: byLengthDescending_def)
  then show ?thesis by (simp add: sorted_map)
qed

lemma find_longest:
  "sorted_wrt (\<lambda>x y. length (f y) \<le> length (f x)) xs \<Longrightarrow> List.find P xs = Some x \<Longrightarrow>
   y \<in> set xs \<Longrightarrow> P y \<Longrightarrow> length (f y) \<le> length (f x)"
  by (induction xs) (auto split: if_splits)

lemma unpadded_not_Nil: "x \<in> set b \<Longrightarrow> x \<noteq> CHR ''='' \<Longrightarrow> unpadded b \<noteq> []"
  by (auto simp: unpadded_def dropWhile_eq_Nil_conv)

lemma sextets_head: "sextets (a # bs) = a div 4 # tl (sextets (a # bs))"
  by (cases bs; cases "tl bs") auto

lemma unpadded_base64_not_Nil:
  assumes "bs \<noteq> []"
  shows "unpadded (base64 bs) \<noteq> []" and "unpadded (base64url bs) \<noteq> []"
proof -
  obtain b r where bs: "bs = b # r" using assms by (cases bs) auto
  have "char_code b div 4 < 64" using char_code_less [of b] by linarith
  then have h: "base64_char url (char_code b div 4) \<noteq> CHR ''=''" for url by (rule base64_char_not_pad)
  have mem: "char_code b div 4 \<in> set (sextets (map char_code bs))"
    unfolding bs list.map by (subst sextets_head) (rule list.set_intros(1))
  from mem show "unpadded (base64 bs) \<noteq> []"
    by (intro unpadded_not_Nil [OF _ h [of False]]) (simp add: base64_def Let_def)
  from mem show "unpadded (base64url bs) \<noteq> []"
    by (intro unpadded_not_Nil [OF _ h [of True]]) (simp add: base64url_def)
qed

lemma padded_not_Nil: "b \<noteq> [] \<Longrightarrow> padded b \<noteq> []"
  by (simp add: padded_def Let_def)

lemma unicodeEscape_not_Nil: "s \<noteq> [] \<Longrightarrow> unicodeEscape s \<noteq> []"
  unfolding unicodeEscape_def
  by (intro concat_map_not_Nil jsonEscape_not_Nil) (auto simp: unitEscapes_def)

lemma scrubVariants_not_Nil: "v \<in> set (scrubVariants value username) \<Longrightarrow> v \<noteq> []"
proof -
  have "\<forall>v \<in> set (scrubVariants value username). v \<noteq> []" if "value \<noteq> []"
    using that by (simp add: scrubVariants_def Let_def unicodeEscape_not_Nil
      encodeURIComponent_not_Nil formEncode_not_Nil jsonEscape_not_Nil base64_not_Nil
      padded_not_Nil unpadded_base64_not_Nil split: option.split)
  then show "v \<in> set (scrubVariants value username) \<Longrightarrow> v \<noteq> []"
    by (cases "value = []") (auto simp: scrubVariants_def)
qed

lemma set_scrub_entries:
  "set (scrub_entries es username) =
     {\<lparr>variant = v, marker = redactionMarker (entry_field e)\<rparr> | v e.
        e \<in> set es \<and> v \<in> set (scrubVariants (entry_value e) username)}"
  by (auto simp: scrub_entries_def)

lemma live_tableOf: "\<forall>e \<in> set es. variant e \<noteq> [] \<Longrightarrow> live_table (tableOf es)"
  by (simp add: live_table_def tableOf_def)

lemma entries_tableOf [simp]: "entries (tableOf es) = es"
  by (simp add: tableOf_def)

lemma live_characters: "live_table (characters (createScrubber es username))"
  unfolding createScrubber_def Let_def
  by (auto intro!: live_tableOf simp: set_scrub_entries scrubVariants_not_Nil)

lemma live_raw: "live_table (raw (createScrubber es username))"
  unfolding createScrubber_def Let_def byteTable_def
  by (auto intro!: live_tableOf simp: set_scrub_entries scrubVariants_not_Nil)

lemma fold_max_ge: "x \<in> set xs \<Longrightarrow> x \<le> fold max xs (n :: nat)"
  by (metis Max.set_eq_fold Max_ge List.finite_set insertI2 list.simps(15))

lemma guardBytes_ge:
  "e \<in> set (entries (raw (createScrubber es username))) \<Longrightarrow>
   length (variant e) \<le> guardBytes (createScrubber es username)"
  by (auto simp: createScrubber_def Let_def byteTable_def length_utf8_encode intro!: fold_max_ge)

lemma scrubber_longest:
  assumes "t = characters (createScrubber es username) \<or> t = raw (createScrubber es username)"
    and "hit_at t s = Some e" "e' \<in> set (entries t)" "prefix (variant e') s"
  shows "length (variant e') \<le> length (variant e)"
proof -
  have live: "live_table t" using assms(1) live_characters live_raw by auto
  have "sorted_wrt (\<lambda>x y. length (variant y) \<le> length (variant x)) (entries t)"
    using assms(1) by (auto simp: createScrubber_def Let_def byteTable_def scrub_entries_def
        byLengthDescending_sorted)
  from find_longest [OF this, of "\<lambda>e. prefix (variant e) s"] assms(2-4) show ?thesis
    by (simp add: hit_at_live [OF live])
qed

section \<open>The guard band\<close>

text \<open>
  As long as the guard band lies ahead, the scan of a prefix of the stream finds what the scan of
  the whole stream finds.
\<close>

lemma hit_at_append:
  assumes "live_table t" and "\<forall>e \<in> set (entries t). length (variant e) \<le> length s"
  shows "hit_at t (s @ r) = hit_at t s"
proof -
  have "prefix (variant e) (s @ r) \<longleftrightarrow> prefix (variant e) s" if "e \<in> set (entries t)" for e
    using that assms(2) by (auto intro: prefix_prefix dest: prefix_length_prefix [OF _ prefixI [OF refl]])
  then have "List.find (\<lambda>e. prefix (variant e) (s @ r)) (entries t) =
      List.find (\<lambda>e. prefix (variant e) s) (entries t)"
    by (intro find_cong) auto
  then show ?thesis by (simp add: hit_at_live [OF assms(1)])
qed

lemma pieces_guard:
  assumes "live_table t" and "\<forall>e \<in> set (entries t). length (variant e) \<le> G" and "0 < G"
  shows "\<exists>ps qs qs'. pieces t s = ps @ qs \<and> pieces t (s @ r) = ps @ qs' \<and>
           length s < length (pieces_in ps) + G"
  using assms
proof (induction t s rule: pieces.induct)
  case (1 t)
  then show ?case by (intro exI [of _ "[]"] exI [of _ "pieces t r"]) simp
next
  case (2 t c cs)
  show ?case
  proof (cases "length (c # cs) < G")
    case True
    then show ?thesis
      by (intro exI [of _ "[]"] exI [of _ "pieces t (c # cs)"] exI [of _ "pieces t ((c # cs) @ r)"]) simp
  next
    case False
    with "2.prems"(2) have le: "\<forall>e \<in> set (entries t). length (variant e) \<le> length (c # cs)"
      by (metis le_trans linorder_le_less_linear nless_le)
    note same = hit_at_append [OF "2.prems"(1) le, of r]
    show ?thesis
    proof (cases "hit_at t (c # cs)")
      case None
      from "2.IH"(1) [OF None "2.prems"] obtain ps qs qs' where
        "pieces t cs = ps @ qs" "pieces t (cs @ r) = ps @ qs'" "length cs < length (pieces_in ps) + G"
        by blast
      with None same show ?thesis 
        by (intro exI [of _ "Kept c # ps"] exI [of _ qs] exI [of _ qs']) auto
    next
      case (Some e)
      define k where "k = length (variant e) - 1"
      have k: "k \<le> length cs" "length (variant e) = Suc k"
        using hit_at_Some [OF Some] "2.prems"(1)
        by (auto simp: k_def live_table_def dest!: prefix_length_le)
      from "2.IH"(2) [OF Some "2.prems"] obtain ps qs qs' where
        ih: "pieces t (drop k cs) = ps @ qs" "pieces t (drop k cs @ r) = ps @ qs'"
          "length (drop k cs) < length (pieces_in ps) + G"
        unfolding k_def by blast
      from ih(3) k have "length (c # cs) < length (pieces_in (Hit e # ps)) + G" by simp
      moreover have "pieces t (c # cs) = Hit e # ps @ qs" "pieces t ((c # cs) @ r) = Hit e # ps @ qs'"
        using Some same ih k by (simp_all add: k_def [symmetric])
      ultimately show ?thesis 
        by (intro exI [of _ "Hit e # ps"] exI [of _ qs] exI [of _ qs']) auto
    qed
  qed
qed

lemma pieces_out_grows:
  "\<forall>e. Hit e \<in> set ps \<longrightarrow> length (variant e) \<le> length (marker e) \<Longrightarrow>
   length (pieces_in ps) \<le> length (pieces_out ps)"
proof (induction ps)
  case (Cons p ps)
  then show ?case by (cases p) (auto intro: add_mono)
qed simp

lemma entries_characters [simp]:
  "entries (characters (createScrubber es username)) = scrub_entries es username"
  by (simp add: createScrubber_def Let_def)

lemma scrub_text_pieces:
  "scrub_text (createScrubber es username) input =
     Some (pieces_out (pieces (characters (createScrubber es username)) input))"
  by (simp add: scrub_text_def scrubText_def scrub_loop_pieces live_characters)

lemma scrub_bytes_pieces:
  "scrub_bytes (createScrubber es username) input =
     Some (pieces_out (pieces (raw (createScrubber es username)) input))"
  by (simp add: scrub_bytes_def scrubText_def scrub_loop_pieces live_raw)

section \<open>Properties\<close>

text \<open>
  C7: the scrubber always returns, and what it returns is the input with some occurrences of
  variants replaced by the marker of their field and nothing else changed: every replaced piece is
  a variant of an injected value with that value's marker, and no stretch of text kept between two
  markers contains a variant of any injected value.
\<close>

theorem scrub_text_correct:
  "\<exists>ps. scrub_text (createScrubber es username) input = Some (pieces_out ps) \<and>
     pieces_in ps = input \<and>
     (\<forall>r. Hit r \<in> set ps \<longrightarrow> (\<exists>e \<in> set es. variant r \<in> set (scrubVariants (entry_value e) username) \<and>
        marker r = redactionMarker (entry_field e))) \<and>
     (\<forall>before run after. ps = before @ map Kept run @ after \<longrightarrow>
        (\<forall>e \<in> set es. \<forall>v \<in> set (scrubVariants (entry_value e) username). \<not> sublist v run))"
proof -
  let ?t = "characters (createScrubber es username)"
  let ?ps = "pieces ?t input"
  have hits: "\<exists>e \<in> set es. variant r \<in> set (scrubVariants (entry_value e) username) \<and>
      marker r = redactionMarker (entry_field e)" if "Hit r \<in> set ?ps" for r
    using pieces_hit_entry [OF that] by (auto simp: set_scrub_entries)
  have runs: "\<not> sublist v run"
    if "?ps = before @ map Kept run @ after" "e \<in> set es" "v \<in> set (scrubVariants (entry_value e) username)"
    for before run "after" e v
  proof -
    have "\<lparr>variant = v, marker = redactionMarker (entry_field e)\<rparr> \<in> set (entries ?t)"
      using that(2,3) by (auto simp: set_scrub_entries)
    from pieces_run_no_variant [OF live_characters that(1) this] show ?thesis by simp
  qed
  show ?thesis
    using scrub_text_pieces pieces_in_pieces [OF live_characters] hits runs by blast
qed

theorem scrub_text_correct_witness:
  "\<exists>ps. scrub_text (createScrubber [\<lparr>entry_field = ''password'', entry_value = ''hunter2''\<rparr>] None) ''pw=hunter2;''
     = Some (pieces_out ps) \<and> pieces_in ps = ''pw=hunter2;''"
  using scrub_text_correct [of "[\<lparr>entry_field = ''password'', entry_value = ''hunter2''\<rparr>]" None "''pw=hunter2;''"]
  by blast

text \<open>
  at a position where several variants start, the longest is the one replaced, in text and in
  bytes, so a short value inside a longer one never breaks the longer match.
\<close>

theorem scrub_longest_match:
  assumes "t \<in> {characters (createScrubber es username), raw (createScrubber es username)}"
    and "hit_at t input = Some r" and "r' \<in> set (entries t)" and "prefix (variant r') input"
  shows "length (variant r') \<le> length (variant r)"
  using assms scrubber_longest [of t es username input r r'] by simp

theorem scrub_longest_match_witness:
  "length ''q'' \<le> length ''qr''"
proof -
  let ?es = "[\<lparr>entry_field = ''a'', entry_value = ''q''\<rparr>, \<lparr>entry_field = ''b'', entry_value = ''qr''\<rparr>]"
  let ?t = "characters (createScrubber ?es None)"
  have "hit_at ?t ''qrs'' = Some \<lparr>variant = ''qr'', marker = ''[redacted:b]''\<rparr>"
    by code_simp
  moreover have "\<lparr>variant = ''q'', marker = ''[redacted:a]''\<rparr> \<in> set (entries ?t)"
    by code_simp
  ultimately show ?thesis
    using scrub_longest_match [of ?t ?es None "''qrs''"
      "\<lparr>variant = ''qr'', marker = ''[redacted:b]''\<rparr>" "\<lparr>variant = ''q'', marker = ''[redacted:a]''\<rparr>"]
    by simp
qed

text \<open>
  every documented form of a non-empty value is among its variants (raw, percent-encoded,
  form-encoded, Base64 and Base64url with and without padding, the basic credential of the user
  name, the JSON escape, and the ASCII-only JSON escape of a value outside printable ASCII), none
  is empty and they come longest first.
\<close>

theorem scrubVariants_complete:
  assumes "value \<noteq> []"
  shows "set (scrubVariants value username) = {value, encodeURIComponent value, formEncode value,
      base64 (utf8_encode value), unpadded (base64 (utf8_encode value)),
      padded (base64url (utf8_encode value)), base64url (utf8_encode value), jsonEscape value}
      \<union> (case username of None \<Rightarrow> {} | Some u \<Rightarrow> {base64 (utf8_encode (u @ '':'' @ value))})
      \<union> (if list_ex non_printable value then {unicodeEscape value} else {})
      \<and>
    [] \<notin> set (scrubVariants value username) \<and>
    sorted_wrt (\<lambda>v w. length w \<le> length v) (scrubVariants value username)"
proof -
  have pad: "padded (base64 bs) = base64 bs" for bs
    by (simp add: padded_def Let_def length_base64)
  have unpad: "unpadded (base64url bs) = base64url bs" for bs
  proof -
    have "dropWhile (\<lambda>c. c = CHR ''='') (rev (base64url bs)) = rev (base64url bs)"
      using base64url_no_pad [of bs] by (intro dropWhile_eq_self_iff [THEN iffD2])
        (metis hd_in_set set_rev)
    then show ?thesis by (simp add: unpadded_def)
  qed
  have "set (scrubVariants value username) = {value, encodeURIComponent value, formEncode value,
      padded (base64 (utf8_encode value)), unpadded (base64 (utf8_encode value)),
      padded (base64url (utf8_encode value)), unpadded (base64url (utf8_encode value)), jsonEscape value}
      \<union> (case username of None \<Rightarrow> {} | Some u \<Rightarrow> {base64 (utf8_encode (u @ '':'' @ value))})
      \<union> (if list_ex non_printable value then {unicodeEscape value} else {})"
    using assms by (cases username) (simp_all add: scrubVariants_def Let_def insert_commute)
  moreover have "sorted_wrt (\<lambda>v w. length w \<le> length v) (scrubVariants value username)"
    using assms byLengthDescending_sorted [where f = "id :: string \<Rightarrow> string"]
    by (simp add: scrubVariants_def Let_def)
  moreover have "[] \<notin> set (scrubVariants value username)"
    using scrubVariants_not_Nil by blast
  ultimately show ?thesis unfolding pad unpad by blast
qed

theorem scrubVariants_complete_witness:
  "''a%20b'' \<in> set (scrubVariants ''a b'' None) \<and> ''YSBi'' \<in> set (scrubVariants ''a b'' None)"
proof -
  have "encodeURIComponent ''a b'' = ''a%20b''" "base64 (utf8_encode ''a b'') = ''YSBi''"
    by code_simp+
  with scrubVariants_complete [of "''a b''" None] show ?thesis by auto
qed

text \<open>
  with a table whose markers are at least as long as the variants they replace, a stream cut at
  \<^verbatim>\<open>maxBytes + guardBytes\<close> and then scrubbed and cut at \<^verbatim>\<open>maxBytes\<close> gives exactly the first
  \<^verbatim>\<open>maxBytes\<close> of the scrubbed whole stream: a value straddling the cut does not survive.
\<close>

theorem scrub_buffer_guard_band:
  assumes "\<forall>r \<in> set (entries (raw (createScrubber es username))). length (variant r) \<le> length (marker r)"
    and "guardBytes (createScrubber es username) > 0"
    and "scrub_bytes (createScrubber es username) stream = Some whole"
    and "scrub_buffer (createScrubber es username)
           (take (maxBytes + guardBytes (createScrubber es username)) stream) maxBytes = Some capped"
  shows "capped_text capped = take maxBytes whole"
proof -
  let ?s = "createScrubber es username"
  let ?c = "take (maxBytes + guardBytes ?s) stream"
  let ?r = "drop (maxBytes + guardBytes ?s) stream"
  obtain ps qs qs' where c: "pieces (raw ?s) ?c = ps @ qs" and w: "pieces (raw ?s) (?c @ ?r) = ps @ qs'"
    and guard: "length ?c < length (pieces_in ps) + guardBytes ?s"
    using pieces_guard [OF live_raw, of es username "guardBytes ?s" ?c ?r] guardBytes_ge assms(2) by blast
  have whole: "whole = pieces_out ps @ pieces_out qs'"
    using assms(3) w by (simp add: scrub_bytes_pieces)
  have capped: "capped_text capped = take maxBytes (pieces_out ps @ pieces_out qs)"
    using assms(4) c by (auto simp: scrub_buffer_def scrub_bytes_pieces Let_def)
  show ?thesis
  proof (cases "length stream \<le> maxBytes + guardBytes ?s")
    case True
    with c w have "qs = qs'" by simp
    with whole capped show ?thesis by simp
  next
    case False
    have "\<forall>e. Hit e \<in> set ps \<longrightarrow> length (variant e) \<le> length (marker e)"
      using assms(1) pieces_hit_entry [of _ "raw ?s" ?c] c by auto
    from pieces_out_grows [OF this] guard False have "maxBytes \<le> length (pieces_out ps)" by simp
    with whole capped show ?thesis by simp
  qed
qed

theorem scrub_buffer_guard_band_witness:
  "take 3 (pieces_out (pieces (raw (createScrubber [\<lparr>entry_field = ''f'', entry_value = ''k''\<rparr>] None)) ''akbkc''))
   = ''a[r''"
proof -
  let ?s = "createScrubber [\<lparr>entry_field = ''f'', entry_value = ''k''\<rparr>] None"
  have "\<forall>r \<in> set (entries (raw ?s)). length (variant r) \<le> length (marker r)" by code_simp
  moreover have "guardBytes ?s > 0" by code_simp
  moreover have "scrub_bytes ?s ''akbkc'' = Some (pieces_out (pieces (raw ?s) ''akbkc''))"
    by (rule scrub_bytes_pieces)
  moreover have "scrub_buffer ?s (take (3 + guardBytes ?s) ''akbkc'') 3 =
      Some \<lparr>capped_text = ''a[r'', truncated = True, captured_bytes = 5\<rparr>" by code_simp
  ultimately have "capped_text \<lparr>capped_text = ''a[r'', truncated = True, captured_bytes = 5\<rparr> =
      take 3 (pieces_out (pieces (raw ?s) ''akbkc''))"
    by (rule scrub_buffer_guard_band)
  then show ?thesis by simp
qed

text \<open>
  The hypothesis on the markers is needed. A marker shorter than its value shrinks the output, so
  the end of the captured buffer moves below the cut, and with it the beginning of an occurrence
  the capture cut in two: here a 24-byte value repeated three times, captured at 39 + 32 bytes,
  leaves its first fifteen bytes in the output.
\<close>

lemma guard_band_leak:
  "scrub_buffer (createScrubber [\<lparr>entry_field = ''f'', entry_value = ''abcdefghijklmnopqrstuvwx''\<rparr>] None)
     (take (39 + guardBytes (createScrubber [\<lparr>entry_field = ''f'', entry_value = ''abcdefghijklmnopqrstuvwx''\<rparr>] None))
       (concat (replicate 3 ''abcdefghijklmnopqrstuvwx''))) 39 =
   Some \<lparr>capped_text = ''[redacted:f][redacted:f]abcdefghijklmno'', truncated = True, captured_bytes = 71\<rparr>"
  by code_simp

end
