(* ===== verification/Secrets.thy ===== *)
theory Secrets
  imports Scrub
begin

text \<open>
  \<^verbatim>\<open>src/actions/secrets.ts\<close> and \<^verbatim>\<open>src/actions/combined-scrub.ts\<close>: the secrets one call holds,
  whose scrub table grows with every value the run adds and whose buffers are zeroed when the call
  ends, and the scrubber of a call over several targets, which applies every target's table.

  The two share one contract, the locale \<open>scrub_contract\<close>: a scrubber returns on every input.
  It is interpreted on the text scan and on the byte scan of \<^verbatim>\<open>createScrubber\<close>.
\<close>

section \<open>The contract of a scrubber\<close>

locale scrub_contract =
  fixes run :: "'s \<Rightarrow> string \<Rightarrow> string option"
    and valid :: "'s \<Rightarrow> bool"
  assumes run_total: "valid s \<Longrightarrow> \<exists>out. run s input = Some out"
begin

lemma run_all_total:
  "\<forall>s \<in> set ss. valid s \<Longrightarrow> \<exists>out. fold (\<lambda>s acc. Option.bind acc (run s)) ss (Some input) = Some out"
proof (induction ss arbitrary: input)
  case (Cons s ss)
  then obtain out where "run s input = Some out" using run_total by (metis list.set_intros(1))
  with Cons show ?case by simp
qed simp

end

definition created :: "Scrubber \<Rightarrow> bool" where
  "created s \<longleftrightarrow> (\<exists>es username. s = createScrubber es username)"

interpretation text_scrub: scrub_contract scrub_text created
  by unfold_locales (auto simp: created_def scrub_text_pieces)

interpretation byte_scrub: scrub_contract scrub_bytes created
  by unfold_locales (auto simp: created_def scrub_bytes_pieces)

section \<open>Several scrubbers over one answer\<close>

definition combined_guardBytes :: "Scrubber \<Rightarrow> Scrubber list \<Rightarrow> nat" where
  "combined_guardBytes first rest = fold max (map guardBytes rest) (guardBytes first)"

definition combined_text :: "Scrubber \<Rightarrow> Scrubber list \<Rightarrow> string \<Rightarrow> string option" where
  "combined_text first rest input =
     fold (\<lambda>s acc. Option.bind acc (scrub_text s)) (first # rest) (Some input)"

definition combined_bytes :: "Scrubber \<Rightarrow> Scrubber list \<Rightarrow> bytes \<Rightarrow> bytes option" where
  "combined_bytes first rest input =
     fold (\<lambda>s acc. Option.bind acc (scrub_bytes s)) (first # rest) (Some input)"

text \<open>\<^verbatim>\<open>others\<close>: every table but the first, which makes the one cut.\<close>

definition combined_others :: "Scrubber list \<Rightarrow> bytes \<Rightarrow> bytes option" where
  "combined_others rest input =
     fold (\<lambda>s acc. Option.bind acc (scrub_bytes s)) rest (Some input)"

definition combined_capped ::
    "Scrubber list \<Rightarrow> bytes \<Rightarrow> (bytes \<Rightarrow> CappedText option) \<Rightarrow> nat \<Rightarrow> CappedText option" where
  "combined_capped rest input cutter maxBytes =
     Option.bind (combined_others rest input) (\<lambda>scrubbed.
       Option.bind (cutter scrubbed) (\<lambda>result.
         Some (result\<lparr>truncated := (truncated result \<or> length input > maxBytes),
                      captured_bytes := length input\<rparr>)))"

definition combined_buffer :: "Scrubber \<Rightarrow> Scrubber list \<Rightarrow> bytes \<Rightarrow> nat \<Rightarrow> CappedText option" where
  "combined_buffer first rest input maxBytes =
     combined_capped rest input (\<lambda>scrubbed. scrub_buffer first scrubbed maxBytes) maxBytes"

definition combined_base64 :: "Scrubber \<Rightarrow> Scrubber list \<Rightarrow> bytes \<Rightarrow> nat \<Rightarrow> CappedText option" where
  "combined_base64 first rest input maxBytes =
     combined_capped rest input (\<lambda>scrubbed. scrub_base64 first scrubbed maxBytes) maxBytes"

section \<open>The secrets of a call\<close>

text \<open>
  The holder keeps every buffer it was given in \<open>held\<close>, and the map of \<^verbatim>\<open>values\<close> points into it:
  the value of a field is the buffer added last under that name, the same object \<open>held\<close> has.
\<close>

record SecretHolder =
  held :: "InjectedEntry list"
  holder_fields :: "string list"
  value_at :: "string \<rightharpoonup> nat"
  holder_username :: "string option"
  scrubber :: Scrubber

definition holder_value :: "SecretHolder \<Rightarrow> string \<Rightarrow> string option" where
  "holder_value h field = map_option (\<lambda>i. entry_value (held h ! i)) (value_at h field)"

fun index_entries :: "nat \<Rightarrow> InjectedEntry list \<Rightarrow> (string \<rightharpoonup> nat) \<Rightarrow> (string \<rightharpoonup> nat)" where
  "index_entries n [] m = m"
| "index_entries n (e # es) m = index_entries (Suc n) es (m(entry_field e \<mapsto> n))"

definition createSecretHolder :: "InjectedEntry list \<Rightarrow> string option \<Rightarrow> SecretHolder" where
  "createSecretHolder es username =
     \<lparr>held = es, holder_fields = js_set (map entry_field es),
      value_at = index_entries 0 es Map.empty, holder_username = username,
      scrubber = createScrubber es username\<rparr>"

definition holder_add :: "SecretHolder \<Rightarrow> InjectedEntry \<Rightarrow> SecretHolder" where
  "holder_add h entry =
     (let held' = held h @ [entry] in
      h\<lparr>held := held',
        holder_fields := (if value_at h (entry_field entry) = None
          then holder_fields h @ [entry_field entry] else holder_fields h),
        value_at := (value_at h)(entry_field entry \<mapsto> length (held h)),
        scrubber := createScrubber held' (holder_username h)\<rparr>)"

text \<open>\<^verbatim>\<open>dispose\<close>: every held buffer is filled with zero bytes; the scrub table is not touched.\<close>

definition zeroed :: "InjectedEntry \<Rightarrow> InjectedEntry" where
  "zeroed e = e\<lparr>entry_value := replicate (length (utf8_encode (entry_value e))) (CHR 0x00)\<rparr>"

definition holder_dispose :: "SecretHolder \<Rightarrow> SecretHolder" where
  "holder_dispose h = h\<lparr>held := map zeroed (held h)\<rparr>"

section \<open>Invariant\<close>

text \<open>
  Until the call ends the scrub table is the one of everything held, and every field has a value:
  the last entry added under its name.
\<close>

definition holder_inv :: "SecretHolder \<Rightarrow> bool" where
  "holder_inv h \<longleftrightarrow>
     scrubber h = createScrubber (held h) (holder_username h) \<and>
     set (holder_fields h) = entry_field ` set (held h) \<and> distinct (holder_fields h) \<and>
     dom (value_at h) = entry_field ` set (held h) \<and>
     (\<forall>field i. value_at h field = Some i \<longrightarrow>
        i < length (held h) \<and> entry_field (held h ! i) = field \<and>
        (\<forall>j. i < j \<and> j < length (held h) \<longrightarrow> entry_field (held h ! j) \<noteq> field))"

lemma index_entries_append: "index_entries n (es @ [e]) m = (index_entries n es m)(entry_field e \<mapsto> n + length es)"
  by (induction es arbitrary: n m) auto

lemma holder_add_create:
  "createSecretHolder (es @ [e]) username = holder_add (createSecretHolder es username) e
     \<longleftrightarrow> js_set (map entry_field es @ [entry_field e]) =
       (if index_entries 0 es Map.empty (entry_field e) = None
        then js_set (map entry_field es) @ [entry_field e] else js_set (map entry_field es))"
  by (auto simp: createSecretHolder_def holder_add_def Let_def index_entries_append)

lemma dom_index_entries: "dom (index_entries n es m) = dom m \<union> entry_field ` set es"
  by (induction es arbitrary: n m) (simp_all add: Un_commute del: fun_upd_apply)

lemma js_set_snoc: "js_set (xs @ [x]) = (if x \<in> set xs then js_set xs else js_set xs @ [x])"
proof -
  have "set (js_set xs) = set xs" by simp
  then show ?thesis unfolding js_set_def by simp
qed

lemma createSecretHolder_snoc:
  "createSecretHolder (es @ [e]) username = holder_add (createSecretHolder es username) e"
proof -
  have "index_entries 0 es Map.empty (entry_field e) = None \<longleftrightarrow> entry_field e \<notin> entry_field ` set es"
    using dom_index_entries [of 0 es Map.empty] domIff [of "entry_field e"] by auto
  then show ?thesis unfolding holder_add_create js_set_snoc by simp
qed

lemma holder_add_inv: "holder_inv h \<Longrightarrow> holder_inv (holder_add h e)"
  unfolding holder_inv_def holder_add_def Let_def
  by (auto simp: nth_append dom_def split: if_splits; force)

lemma holder_inv_create: "holder_inv (createSecretHolder es username)"
proof (induction es rule: rev_induct)
  case Nil
  show ?case by (simp add: createSecretHolder_def holder_inv_def js_set_def)
next
  case (snoc e es)
  then show ?case by (simp add: createSecretHolder_snoc holder_add_inv)
qed

lemma holder_inv_fold: "holder_inv h \<Longrightarrow> holder_inv (fold (\<lambda>e h. holder_add h e) es h)"
  by (induction es arbitrary: h) (auto simp: holder_add_inv)

lemma holder_fold_create:
  "fold (\<lambda>e h. holder_add h e) added (createSecretHolder es username) = createSecretHolder (es @ added) username"
proof (induction added arbitrary: es)
  case (Cons e added)
  from Cons [of "es @ [e]"] show ?case by (simp add: createSecretHolder_snoc)
qed simp

lemma holder_value_dom:
  assumes "holder_inv h"
  shows "(\<exists>v. holder_value h field = Some v) \<longleftrightarrow> field \<in> entry_field ` set (held h)"
  using assms by (auto simp: holder_value_def holder_inv_def domIff set_eq_iff)

section \<open>Properties\<close>

text \<open>
  however many values a run adds, and after the holder has been disposed, the call's scrubber
  is the one of every value ever held, in the order they came, including a value replaced under
  the same field name; disposing leaves only zero bytes in every buffer, the replaced ones
  included, and so in every field a connector can still read.
\<close>

theorem holder_scrubs_everything_held:
  fixes es added username
  defines "h \<equiv> fold (\<lambda>e h. holder_add h e) added (createSecretHolder es username)"
  shows "scrubber h = createScrubber (es @ added) username \<and>
    scrubber (holder_dispose h) = createScrubber (es @ added) username \<and>
    (\<forall>e \<in> set (held (holder_dispose h)). set (entry_value e) \<subseteq> {CHR 0x00}) \<and>
    (\<forall>field \<in> entry_field ` set (es @ added). \<exists>v w. holder_value h field = Some v \<and>
       holder_value (holder_dispose h) field = Some w \<and> set w \<subseteq> {CHR 0x00})"
proof -
  have h: "h = createSecretHolder (es @ added) username"
    unfolding h_def by (rule holder_fold_create)
  have inv: "holder_inv h" unfolding h by (rule holder_inv_create)
  have held: "held h = es @ added" unfolding h by (simp add: createSecretHolder_def)
  have scrub: "scrubber h = createScrubber (es @ added) username"
    unfolding h by (simp add: createSecretHolder_def)
  have zero: "set (entry_value (zeroed e)) \<subseteq> {CHR 0x00}" for e
    by (auto simp: zeroed_def)
  have "\<exists>v w. holder_value h field = Some v \<and> holder_value (holder_dispose h) field = Some w \<and>
      set w \<subseteq> {CHR 0x00}" if f: "field \<in> entry_field ` set (es @ added)" for field
  proof -
    obtain v where "holder_value h field = Some v"
      using f holder_value_dom [OF inv, of field] held by metis
    then obtain i where i: "value_at h field = Some i" "i < length (held h)"
      using inv by (auto simp: holder_value_def holder_inv_def)
    then show ?thesis using zero [of "held h ! i"] by (simp add: holder_value_def holder_dispose_def)
  qed
  with scrub zero show ?thesis by (auto simp: holder_dispose_def)
qed

theorem holder_scrubs_everything_held_witness:
  "\<exists>w. holder_value (holder_dispose (fold (\<lambda>e h. holder_add h e)
     [\<lparr>entry_field = ''refresh_token'', entry_value = ''new''\<rparr>]
     (createSecretHolder [\<lparr>entry_field = ''refresh_token'', entry_value = ''old''\<rparr>] None))) ''refresh_token'' = Some w
   \<and> set w \<subseteq> {CHR 0x00}"
  using holder_scrubs_everything_held [of "[\<lparr>entry_field = ''refresh_token'', entry_value = ''new''\<rparr>]"
    "[\<lparr>entry_field = ''refresh_token'', entry_value = ''old''\<rparr>]" None] by simp

text \<open>
  the answer of a call over several targets is scrubbed by every target's table before it is
  cut once: the combined buffer always returns, is the first \<^verbatim>\<open>maxBytes\<close> of the bytes all the
  tables leave, and says it is truncated exactly when it was cut or the capture was too long.
\<close>

theorem combined_buffer_correct:
  assumes "created first" and "\<forall>s \<in> set rest. created s"
  shows "\<exists>middle out. combined_others rest input = Some middle \<and> scrub_bytes first middle = Some out \<and>
    combined_buffer first rest input maxBytes =
      Some \<lparr>capped_text = take maxBytes out,
            truncated = (length out > maxBytes \<or> length middle > maxBytes \<or> length input > maxBytes),
            captured_bytes = length input\<rparr>"
proof -
  obtain middle where m: "combined_others rest input = Some middle"
    using byte_scrub.run_all_total [OF assms(2)] unfolding combined_others_def by blast
  obtain out where "scrub_bytes first middle = Some out"
    using byte_scrub.run_total [OF assms(1)] by blast
  with m show ?thesis
    by (auto simp: combined_buffer_def combined_capped_def scrub_buffer_def Let_def)
qed

theorem combined_buffer_correct_witness:
  "\<exists>r. combined_buffer (createScrubber [] None) [createScrubber [\<lparr>entry_field = ''f'', entry_value = ''k''\<rparr>] None]
     ''akb'' 9 = Some r"
proof -
  have c: "created (createScrubber es u)" for es u by (auto simp: created_def)
  then have "\<forall>s \<in> set [createScrubber [\<lparr>entry_field = ''f'', entry_value = ''k''\<rparr>] None]. created s" by simp
  from combined_buffer_correct [OF c this, where input = "''akb''" and maxBytes = 9] show ?thesis by blast
qed

end
