(* ===== verification/SqlTokens.thy ===== *)
theory SqlTokens
  imports Prelude
begin

text \<open>
  \<^verbatim>\<open>src/actions/connectors/sql/tokens.ts\<close>: the tokeniser the statement classifier stands on.

  A scanner of the code takes the source and an index and answers an end; here it takes what is
  left of the source at the index and answers how much of it the token consumes, so that
  \<open>end = index + consumed\<close>. The interface the tokeniser relies on is the locale \<open>scanner\<close> (a scan
  consumes at least one character and not more than there are); every scanner of the code
  interprets it, and the tokeniser terminates because of it.
\<close>

datatype SqlEngine = Mssql | Postgres

datatype TokenKind =
  TComment | TOther | TPlaceholder | TQuoted | TSemicolon | TString | TWord

record SqlToken =
  token_kind :: TokenKind
  token_text :: string
  token_end :: nat
  token_position :: nat

record Scanned =
  scan_kind :: TokenKind
  consumed :: nat
  scan_position :: nat

section \<open>Character classes\<close>

text \<open>\<^verbatim>\<open>SPACE\<close> is \<open>is_space\<close> of the prelude; \<^verbatim>\<open>WORD_START\<close> and \<^verbatim>\<open>WORD_PART\<close> on the code units up to 255.\<close>

definition is_letter :: "char \<Rightarrow> bool" where
  "is_letter c \<longleftrightarrow> is_upper c \<or> is_lower c \<or> char_code c \<in> {170, 181, 186} \<or>
     (192 \<le> char_code c \<and> char_code c \<noteq> 215 \<and> char_code c \<noteq> 247)"

definition word_start :: "char \<Rightarrow> bool" where
  "word_start c \<longleftrightarrow> is_letter c \<or> c = CHR ''_''"

definition word_part :: "char \<Rightarrow> bool" where
  "word_part c \<longleftrightarrow> word_start c \<or> is_digit c \<or> char_code c \<in> {178, 179, 185, 188, 189, 190}"

section \<open>Runs\<close>

text \<open>\<^verbatim>\<open>runOf\<close>: how many characters match in a row.\<close>

definition runOf :: "(char \<Rightarrow> bool) \<Rightarrow> string \<Rightarrow> nat" where
  "runOf matches s = length (takeWhile matches s)"

text \<open>\<^verbatim>\<open>endOfDoubled\<close>, after the opening delimiter: how much of the rest the run takes.\<close>

fun endOfDoubled :: "char \<Rightarrow> string \<Rightarrow> nat" where
  "endOfDoubled close [] = 0"
| "endOfDoubled close [c] = 1"
| "endOfDoubled close (c # d # rest) =
     (if c \<noteq> close then Suc (endOfDoubled close (d # rest))
      else if d = close then 2 + endOfDoubled close rest
      else 1)"

text \<open>\<^verbatim>\<open>endOfEscaped\<close>: a backslash takes the next character with it, past the end too.\<close>

fun endOfEscaped :: "string \<Rightarrow> nat" where
  "endOfEscaped [] = 0"
| "endOfEscaped [c] = 1"
| "endOfEscaped (c # d # rest) =
     (if c = CHR 0x5C then 2 + endOfEscaped rest
      else if c \<noteq> CHR 0x27 then Suc (endOfEscaped (d # rest))
      else if d = CHR 0x27 then 2 + endOfEscaped rest
      else 1)"

definition endOfLineComment :: "string \<Rightarrow> nat" where
  "endOfLineComment s = runOf (\<lambda>c. c \<noteq> CHR 0x0A \<and> c \<noteq> CHR 0x0D) s"

text \<open>\<^verbatim>\<open>endOfBlockComment\<close> after the opening \<^verbatim>\<open>/*\<close>, with \<^verbatim>\<open>depth\<close>.\<close>

fun endOfBlockComment :: "bool \<Rightarrow> nat \<Rightarrow> string \<Rightarrow> nat" where
  "endOfBlockComment isNested depth [] = 0"
| "endOfBlockComment isNested depth [c] = 1"
| "endOfBlockComment isNested depth (c # d # rest) =
     (if isNested \<and> c = CHR ''/'' \<and> d = CHR ''*''
      then 2 + endOfBlockComment isNested (depth + 1) rest
      else if c = CHR ''*'' \<and> d = CHR ''/''
      then (if depth - 1 = 0 then 2 else 2 + endOfBlockComment isNested (depth - 1) rest)
      else Suc (endOfBlockComment isNested depth (d # rest)))"

text \<open>\<^verbatim>\<open>source.indexOf(tag, _)\<close> in what is left after the opening tag.\<close>

fun index_of :: "string \<Rightarrow> string \<Rightarrow> nat option" where
  "index_of tag [] = (if tag = [] then Some 0 else None)"
| "index_of tag (c # cs) =
     (if prefix tag (c # cs) then Some 0 else map_option Suc (index_of tag cs))"

definition endOfDollarString :: "string \<Rightarrow> string \<Rightarrow> nat" where
  "endOfDollarString s tag =
     (case index_of tag (drop (length tag) s) of
        None \<Rightarrow> length s
      | Some i \<Rightarrow> length tag + i + length tag)"

definition dollarTag :: "string \<Rightarrow> string option" where
  "dollarTag s =
     (if s = [] \<or> hd s \<noteq> CHR ''$'' then None
      else
        (let body = (if tl s \<noteq> [] \<and> word_start (s ! 1) then 2 + runOf word_part (drop 2 s) else 1)
         in if body < length s \<and> s ! body = CHR ''$'' then Some (take (body + 1) s) else None))"

section \<open>Scanners\<close>

text \<open>\<^verbatim>\<open>Number(text)\<close> of a run of decimal digits.\<close>

definition decimal :: "string \<Rightarrow> nat" where
  "decimal s = fold (\<lambda>c n. 10 * n + (char_code c - 48)) s 0"

definition token :: "TokenKind \<Rightarrow> nat \<Rightarrow> Scanned" where
  "token kind n = \<lparr>scan_kind = kind, consumed = n, scan_position = 0\<rparr>"

definition placeholder :: "nat \<Rightarrow> nat \<Rightarrow> Scanned" where
  "placeholder n position = \<lparr>scan_kind = TPlaceholder, consumed = n, scan_position = position\<rparr>"

definition scanComment :: "string \<Rightarrow> SqlEngine \<Rightarrow> Scanned option" where
  "scanComment s engine =
     (if prefix ''--'' s then Some (token TComment (endOfLineComment s))
      else if prefix ''/*'' s
      then Some (token TComment (2 + endOfBlockComment (engine = Postgres) 1 (drop 2 s)))
      else None)"

definition scanPrefixedString :: "string \<Rightarrow> SqlEngine \<Rightarrow> Scanned option" where
  "scanPrefixedString s engine =
     (if length s < 2 \<or> s ! 1 \<noteq> CHR 0x27 then None
      else if engine = Mssql \<and> upper_char (hd s) = ''N''
      then Some (token TString (2 + endOfDoubled (CHR 0x27) (drop 2 s)))
      else if engine = Postgres \<and> upper_char (hd s) = ''E''
      then Some (token TString (2 + endOfEscaped (drop 2 s)))
      else None)"

definition scanString :: "string \<Rightarrow> SqlEngine \<Rightarrow> Scanned option" where
  "scanString s engine =
     (if s \<noteq> [] \<and> hd s = CHR 0x27
      then Some (token TString (1 + endOfDoubled (CHR 0x27) (tl s))) else None)"

definition scanDollarString :: "string \<Rightarrow> SqlEngine \<Rightarrow> Scanned option" where
  "scanDollarString s engine =
     (case (if engine = Postgres then dollarTag s else None) of
        None \<Rightarrow> None
      | Some tag \<Rightarrow> Some (token TString (endOfDollarString s tag)))"

definition scanQuoted :: "string \<Rightarrow> SqlEngine \<Rightarrow> Scanned option" where
  "scanQuoted s engine =
     (if s \<noteq> [] \<and> hd s = CHR 0x22 then Some (token TQuoted (1 + endOfDoubled (CHR 0x22) (tl s)))
      else if engine = Mssql \<and> s \<noteq> [] \<and> hd s = CHR ''[''
      then Some (token TQuoted (1 + endOfDoubled (CHR '']'') (tl s)))
      else None)"

definition scanPositional :: "string \<Rightarrow> Scanned option" where
  "scanPositional s =
     (let digits = (if s \<noteq> [] \<and> hd s = CHR ''$'' then runOf is_digit (tl s) else 0)
      in if digits > 0 then Some (placeholder (1 + digits) (decimal (take digits (tl s)))) else None)"

text \<open>\<^verbatim>\<open>PARAMETER\<close>: \<^verbatim>\<open>/^@p\d+$/\<close> on the variable's text.\<close>

definition is_parameter :: "string \<Rightarrow> bool" where
  "is_parameter name \<longleftrightarrow> take 2 name = ''@p'' \<and> drop 2 name \<noteq> [] \<and> (\<forall>c \<in> set (drop 2 name). is_digit c)"

definition scanVariable :: "string \<Rightarrow> Scanned option" where
  "scanVariable s =
     (if length s < 2 \<or> hd s \<noteq> CHR ''@'' \<or> \<not> word_start (s ! 1) then None
      else
        (let n = 2 + runOf word_part (drop 2 s); name = take n s
         in Some (if is_parameter name then placeholder n (decimal (drop 2 name)) else token TOther n)))"

definition scanPlaceholder :: "string \<Rightarrow> SqlEngine \<Rightarrow> Scanned option" where
  "scanPlaceholder s engine = (if engine = Postgres then scanPositional s else scanVariable s)"

definition SCANNERS :: "(string \<Rightarrow> SqlEngine \<Rightarrow> Scanned option) list" where
  "SCANNERS = [scanComment, scanPrefixedString, scanString, scanDollarString, scanPlaceholder, scanQuoted]"

fun first_scan :: "(string \<Rightarrow> SqlEngine \<Rightarrow> Scanned option) list \<Rightarrow> string \<Rightarrow> SqlEngine \<Rightarrow> Scanned option" where
  "first_scan [] s engine = None"
| "first_scan (scan # scans) s engine =
     (case scan s engine of Some r \<Rightarrow> Some r | None \<Rightarrow> first_scan scans s engine)"

definition scanToken :: "string \<Rightarrow> SqlEngine \<Rightarrow> Scanned" where
  "scanToken s engine =
     (case first_scan SCANNERS s engine of
        Some r \<Rightarrow> r
      | None \<Rightarrow>
          if s \<noteq> [] \<and> hd s = CHR '';'' then token TSemicolon 1
          else if s \<noteq> [] \<and> word_start (hd s) then token TWord (1 + runOf word_part (tl s))
          else token TOther 1)"

section \<open>The contract of a scanner\<close>

locale scanner =
  fixes scan :: "string \<Rightarrow> Scanned option"
  assumes scan_progress: "scan s = Some r \<Longrightarrow> 0 < consumed r"
    and scan_within: "scan s = Some r \<Longrightarrow> consumed r \<le> length s"
    and scan_nonempty: "scan s = Some r \<Longrightarrow> s \<noteq> []"
begin

text \<open>What a scan takes is a non-empty prefix of the source, and strictly less is left.\<close>

lemma scan_splits:
  assumes "scan s = Some r"
  shows "take (consumed r) s \<noteq> []" and "length (drop (consumed r) s) < length s"
  using scan_progress [OF assms] scan_nonempty [OF assms] by simp_all

end

lemma consumed_token [simp]: "consumed (token k n) = n" "consumed (placeholder n p) = n"
  by (simp_all add: token_def placeholder_def)

lemma runOf_le: "runOf P s \<le> length s"
  by (simp add: runOf_def length_takeWhile_le)

lemma endOfDoubled_le: "endOfDoubled q s \<le> length s"
  by (induction q s rule: endOfDoubled.induct) auto

lemma endOfEscaped_le: "endOfEscaped s \<le> length s"
  by (induction s rule: endOfEscaped.induct) auto

lemma endOfBlockComment_le: "endOfBlockComment n d s \<le> length s"
  by (induction n d s rule: endOfBlockComment.induct) auto

lemma index_of_le: "index_of tag s = Some i \<Longrightarrow> i + length tag \<le> length s"
  by (induction tag s arbitrary: i rule: index_of.induct)
    (auto split: if_splits dest: prefix_length_le)

lemma dollarTag_Some:
  "dollarTag s = Some tag \<Longrightarrow> prefix tag s \<and> 2 \<le> length tag \<and> length tag \<le> length s"
  by (auto simp: dollarTag_def Let_def take_is_prefix split: if_splits)

interpretation comment_scan: scanner "\<lambda>s. scanComment s engine" for engine
proof unfold_locales
  fix s r
  assume r: "scanComment s engine = Some r"
  from r show "s \<noteq> []" by (auto simp: scanComment_def split: if_splits)
  from r show "0 < consumed r"
    by (auto simp: scanComment_def endOfLineComment_def runOf_def prefix_def split: if_splits)
  from r show "consumed r \<le> length s"
    using endOfBlockComment_le [of "engine = Postgres" 1 "drop 2 s"]
      runOf_le [of "\<lambda>c. c \<noteq> CHR 0x0A \<and> c \<noteq> CHR 0x0D" s]
    by (auto simp: scanComment_def endOfLineComment_def prefix_def split: if_splits)
qed

interpretation prefixed_scan: scanner "\<lambda>s. scanPrefixedString s engine" for engine
proof unfold_locales
  fix s r
  assume r: "scanPrefixedString s engine = Some r"
  from r show "s \<noteq> []" by (auto simp: scanPrefixedString_def split: if_splits)
  from r show "0 < consumed r" by (auto simp: scanPrefixedString_def split: if_splits)
  from r show "consumed r \<le> length s"
    using endOfDoubled_le [of "CHR 0x27" "drop 2 s"] endOfEscaped_le [of "drop 2 s"]
    by (auto simp: scanPrefixedString_def split: if_splits)
qed

interpretation string_scan: scanner "\<lambda>s. scanString s engine" for engine
proof unfold_locales
  fix s r
  assume r: "scanString s engine = Some r"
  then obtain cs where "s = CHR 0x27 # cs" by (cases s) (auto simp: scanString_def split: if_splits)
  with r show "s \<noteq> []" "0 < consumed r" "consumed r \<le> length s"
    using endOfDoubled_le [of "CHR 0x27" cs] by (auto simp: scanString_def)
qed

interpretation dollar_scan: scanner "\<lambda>s. scanDollarString s engine" for engine
proof unfold_locales
  fix s r
  assume r: "scanDollarString s engine = Some r"
  then obtain tag where tag: "dollarTag s = Some tag" and c: "consumed r = endOfDollarString s tag"
    by (auto simp: scanDollarString_def split: option.splits if_splits)
  note t = dollarTag_Some [OF tag]
  have "i + length tag \<le> length s - length tag" if "index_of tag (drop (length tag) s) = Some i" for i
    using index_of_le [OF that] by simp
  with t c show "consumed r \<le> length s"
    by (fastforce simp: endOfDollarString_def split: option.splits)
  from t show "s \<noteq> []" by auto
  with t c show "0 < consumed r" by (auto simp: endOfDollarString_def split: option.splits)
qed

interpretation placeholder_scan: scanner "\<lambda>s. scanPlaceholder s engine" for engine
proof unfold_locales
  fix s r
  assume r: "scanPlaceholder s engine = Some r"
  from r show ne: "s \<noteq> []"
    by (auto simp: scanPlaceholder_def scanPositional_def scanVariable_def Let_def split: if_splits)
  from r show "0 < consumed r"
    by (auto simp: scanPlaceholder_def scanPositional_def scanVariable_def Let_def split: if_splits)
  from r show "consumed r \<le> length s"
    using runOf_le [of is_digit "tl s"] runOf_le [of word_part "drop 2 s"] ne
    by (cases s; cases "tl s") (auto simp: scanPlaceholder_def scanPositional_def scanVariable_def Let_def split: if_splits)
qed

interpretation quoted_scan: scanner "\<lambda>s. scanQuoted s engine" for engine
proof unfold_locales
  fix s r
  assume r: "scanQuoted s engine = Some r"
  then obtain c cs where "s = c # cs" by (cases s) (auto simp: scanQuoted_def split: if_splits)
  with r show "s \<noteq> []" "0 < consumed r" "consumed r \<le> length s"
    using endOfDoubled_le [of _ cs] by (auto simp: scanQuoted_def split: if_splits)
qed

text \<open>The first scanner that answers keeps the contract, and so does a whole token scan.\<close>

lemma first_scan_cases:
  "first_scan scans s engine = Some r \<Longrightarrow> \<exists>scan \<in> set scans. scan s engine = Some r"
  by (induction scans) (auto split: option.splits)

interpretation token_scan: scanner "\<lambda>s. if s = [] then None else Some (scanToken s engine)" for engine
proof unfold_locales
  fix s r
  assume "(if s = [] then None else Some (scanToken s engine)) = Some r"
  then have ne: "s \<noteq> []" and r: "r = scanToken s engine" by (auto split: if_splits)
  show "s \<noteq> []" by (rule ne)
  have "0 < consumed r \<and> consumed r \<le> length s"
  proof (cases "first_scan SCANNERS s engine")
    case None
    with r ne show ?thesis using runOf_le [of word_part "tl s"]
      by (cases s) (auto simp: scanToken_def)
  next
    case (Some r')
    then obtain scan where "scan \<in> set SCANNERS" "scan s engine = Some r'"
      using first_scan_cases by blast
    with Some r show ?thesis
      unfolding SCANNERS_def scanToken_def
      by (auto dest: comment_scan.scan_progress comment_scan.scan_within
          prefixed_scan.scan_progress prefixed_scan.scan_within
          string_scan.scan_progress string_scan.scan_within
          dollar_scan.scan_progress dollar_scan.scan_within
          placeholder_scan.scan_progress placeholder_scan.scan_within
          quoted_scan.scan_progress quoted_scan.scan_within)
  qed
  then show "0 < consumed r" "consumed r \<le> length s" by blast+
qed

section \<open>The tokeniser\<close>

text \<open>The loop of \<^verbatim>\<open>tokenise\<close> at \<open>index\<close>, with what is left of the statement there.\<close>

function tokenise_at :: "nat \<Rightarrow> string \<Rightarrow> SqlEngine \<Rightarrow> SqlToken list" where
  "tokenise_at index s engine =
     (if s = [] then []
      else
        (let space = runOf is_space s in
         if space > 0 then tokenise_at (index + space) (drop space s) engine
         else
           (let scanned = scanToken s engine; n = consumed scanned in
            \<lparr>token_kind = scan_kind scanned, token_text = take n s, token_end = index + n,
             token_position = scan_position scanned\<rparr>
            # tokenise_at (index + n) (drop n s) engine)))"
  by pat_completeness auto
termination
proof (relation "measure (\<lambda>(index, s, engine). length s)", goal_cases)
  case (3 index s engine space scanned n)
  then show ?case using token_scan.scan_splits(2) [of s engine scanned] by simp
qed auto

declare tokenise_at.simps [simp del]

definition tokenise :: "string \<Rightarrow> SqlEngine \<Rightarrow> SqlToken list" where
  "tokenise statement engine = tokenise_at 0 statement engine"

section \<open>Lemmas\<close>

lemma tokenise_at_space:
  "runOf is_space s > 0 \<Longrightarrow>
   tokenise_at index s engine = tokenise_at (index + runOf is_space s) (drop (runOf is_space s) s) engine"
  by (subst tokenise_at.simps) (auto simp: Let_def runOf_def)

lemma tokenise_at_token:
  "s \<noteq> [] \<Longrightarrow> runOf is_space s = 0 \<Longrightarrow>
   tokenise_at index s engine =
     \<lparr>token_kind = scan_kind (scanToken s engine), token_text = take (consumed (scanToken s engine)) s,
      token_end = index + consumed (scanToken s engine),
      token_position = scan_position (scanToken s engine)\<rparr>
     # tokenise_at (index + consumed (scanToken s engine)) (drop (consumed (scanToken s engine)) s) engine"
  by (subst tokenise_at.simps) (simp add: Let_def)

lemma tokenise_at_Nil [simp]: "tokenise_at index [] engine = []"
  by (subst tokenise_at.simps) simp

text \<open>
  The tokens tile the statement: each is a non-empty slice ending where it says, and between them
  there is white space only.
\<close>

fun tiles :: "nat \<Rightarrow> string \<Rightarrow> SqlToken list \<Rightarrow> bool" where
  "tiles index s [] \<longleftrightarrow> (\<forall>c \<in> set s. is_space c)"
| "tiles index s (t # ts) \<longleftrightarrow>
     (\<exists>gap rest. s = gap @ token_text t @ rest \<and> (\<forall>c \<in> set gap. is_space c) \<and> token_text t \<noteq> [] \<and>
        token_end t = index + length gap + length (token_text t) \<and> tiles (token_end t) rest ts)"

lemma tiles_gap: "\<forall>c \<in> set gap. is_space c \<Longrightarrow> tiles (index + length gap) s ts \<Longrightarrow> tiles index (gap @ s) ts"
proof (cases ts)
  case (Cons t ts')
  assume g: "\<forall>c \<in> set gap. is_space c" and "tiles (index + length gap) s ts"
  with Cons obtain gap' rest where "s = gap' @ token_text t @ rest" "\<forall>c \<in> set gap'. is_space c"
    "token_text t \<noteq> []" "token_end t = index + length gap + length gap' + length (token_text t)"
    "tiles (token_end t) rest ts'" by auto
  with g show ?thesis unfolding Cons tiles.simps
    by (intro exI [of _ "gap @ gap'"] exI [of _ rest]) auto
qed auto

lemma tokenise_at_tiles: "tiles index s (tokenise_at index s engine)"
proof (induction index s engine rule: tokenise_at.induct)
  case (1 index s engine)
  let ?space = "runOf is_space s" and ?r = "scanToken s engine"
  show ?case
  proof (cases "s = []")
    case True
    then show ?thesis by simp
  next
    case ne: False
    show ?thesis
    proof (cases "?space > 0")
      case True
      have split: "s = take ?space s @ drop ?space s" by simp
      have gap: "\<forall>c \<in> set (take ?space s). is_space c"
        by (auto simp: runOf_def takeWhile_eq_take [symmetric] dest: set_takeWhileD)
      have len: "length (take ?space s) = ?space" using runOf_le [of is_space s] by simp
      have "tiles (index + ?space) (drop ?space s) (tokenise_at (index + ?space) (drop ?space s) engine)"
        using "1.IH"(1) [OF ne refl True] .
      with gap len have "tiles index (take ?space s @ drop ?space s) (tokenise_at index s engine)"
        unfolding tokenise_at_space [OF True] by (intro tiles_gap) simp_all
      then show ?thesis by simp
    next
      case False
      then have z: "?space = 0" by simp
      have some: "(if s = [] then None else Some ?r) = Some ?r" using ne by simp
      have len: "length (take (consumed ?r) s) = consumed ?r"
        using token_scan.scan_within [OF some] by simp
      have "tiles (index + consumed ?r) (drop (consumed ?r) s)
          (tokenise_at (index + consumed ?r) (drop (consumed ?r) s) engine)"
        using "1.IH"(2) [OF ne refl False refl refl] .
      with len token_scan.scan_splits(1) [OF some] show ?thesis
        unfolding tokenise_at_token [OF ne z] tiles.simps
        by (intro exI [of _ "[]"] exI [of _ "drop (consumed ?r) s"]) simp
    qed
  qed
qed

subsection \<open>Literals\<close>

text \<open>Quoting by doubling: the run of a doubled text is the whole of it and its closing quote.\<close>

definition doubled :: "char \<Rightarrow> string \<Rightarrow> string" where
  "doubled q s = concat (map (\<lambda>c. if c = q then [q, q] else [c]) s)"

lemma doubled_simps [simp]:
  "doubled q [] = []" "doubled q (c # s) = (if c = q then q # q # doubled q s else c # doubled q s)"
  by (simp_all add: doubled_def)

lemma endOfDoubled_doubled:
  "rest = [] \<or> hd rest \<noteq> q \<Longrightarrow> endOfDoubled q (doubled q s @ q # rest) = length (doubled q s) + 1"
proof (induction s)
  case Nil
  then show ?case by (cases rest) auto
next
  case (Cons c s)
  obtain d ds where "doubled q s @ q # rest = d # ds" by (cases "doubled q s") auto
  with Cons show ?case by auto
qed

lemma scanToken_quote:
  "scanToken (CHR 0x27 # s) engine = token TString (1 + endOfDoubled (CHR 0x27) s)"
proof -
  have "scanComment (CHR 0x27 # s) engine = None"
    by (simp add: scanComment_def)
  moreover have "scanPrefixedString (CHR 0x27 # s) engine = None"
    by (simp add: scanPrefixedString_def upper_char_def char_class_defs)
  moreover have "scanString (CHR 0x27 # s) engine = Some (token TString (1 + endOfDoubled (CHR 0x27) s))"
    by (simp add: scanString_def)
  ultimately show ?thesis by (simp add: scanToken_def SCANNERS_def)
qed

text \<open>
  the tokens of a statement tile it: each is a non-empty slice of the statement that ends
  where it says it ends, they follow one another, and what is between them, before the first
  and after the last is white space only. Nothing of the statement escapes the classifier.
\<close>

theorem tokenise_covers_statement: "tiles 0 statement (tokenise statement engine)"
  unfolding tokenise_def by (rule tokenise_at_tiles)

text \<open>
  a text quoted by doubling its quotes is exactly one string token wherever it is met,
  whatever it contains and whichever engine reads it, and the scan goes on behind it: no
  keyword, separator or placeholder inside a literal reaches the classifier.
\<close>

theorem literal_is_one_token:
  assumes "rest = [] \<or> hd rest \<noteq> CHR 0x27"
  shows "tokenise_at index (CHR 0x27 # doubled (CHR 0x27) inside @ CHR 0x27 # rest) engine =
    \<lparr>token_kind = TString, token_text = CHR 0x27 # doubled (CHR 0x27) inside @ [CHR 0x27],
     token_end = index + length (doubled (CHR 0x27) inside) + 2, token_position = 0\<rparr>
    # tokenise_at (index + length (doubled (CHR 0x27) inside) + 2) rest engine"
proof -
  let ?s = "CHR 0x27 # doubled (CHR 0x27) inside @ CHR 0x27 # rest"
  have "runOf is_space ?s = 0"
    by (simp add: runOf_def is_space_def char_class_defs)
  moreover have "scanToken ?s engine = token TString (length (doubled (CHR 0x27) inside) + 2)"
    using endOfDoubled_doubled [OF assms, of inside] by (simp add: scanToken_quote)
  ultimately show ?thesis
    by (subst tokenise_at_token) (simp_all add: token_def)
qed

theorem literal_is_one_token_witness:
  "tokenise_at 7 (CHR 0x27 # doubled (CHR 0x27) (''x'' @ [CHR 0x27] @ ''; DROP'') @ CHR 0x27 # '';'') Mssql =
    \<lparr>token_kind = TString,
     token_text = CHR 0x27 # doubled (CHR 0x27) (''x'' @ [CHR 0x27] @ ''; DROP'') @ [CHR 0x27],
     token_end = 7 + length (doubled (CHR 0x27) (''x'' @ [CHR 0x27] @ ''; DROP'')) + 2, token_position = 0\<rparr>
    # tokenise_at (7 + length (doubled (CHR 0x27) (''x'' @ [CHR 0x27] @ ''; DROP'')) + 2) '';'' Mssql"
  by (rule literal_is_one_token) simp

end
