(* ===== verification/Actions.thy ===== *)
theory Actions
  imports Prelude
begin

text \<open>
  The vocabulary every connector shares: the decision shape of \<^verbatim>\<open>src/actions/policy.ts\<close>
  (ACT-39), the error codes and outcomes of \<^verbatim>\<open>src/actions/errors.ts\<close> (ACT-74), the endpoints
  and outputs of \<^verbatim>\<open>src/actions/connectors/context.ts\<close> and \<^verbatim>\<open>output.ts\<close>, and the control
  character rule of \<^verbatim>\<open>src/actions/connectors/control-characters.ts\<close>.
\<close>

section \<open>Decisions\<close>

datatype OperationKind = OpRead | OpWrite | OpShell | OpAct

datatype StatementClass = ClassRead | ClassDml | ClassDdl | ClassOther

datatype PolicyReason =
  RMethod | RPath | RHeader | RBodySize | ROperation | RStatementCount | RStatementClass
  | RStatementPattern | RCommand | RCommandMetacharacter | RCommandSize | ROrigin | RElement
  | RContent | RRef | RTopK | RRead

text \<open>\<open>Allowed k c\<close> is \<^verbatim>\<open>{ allowed: true, operation: k, class: c }\<close> with \<open>c = None\<close> for no class.\<close>

datatype PolicyDecision =
    Allowed (decided_operation: OperationKind) (decided_class: "StatementClass option")
  | Denied (denied_reason: PolicyReason)

definition is_allowed :: "PolicyDecision \<Rightarrow> bool" where
  "is_allowed d \<longleftrightarrow> (case d of Allowed _ _ \<Rightarrow> True | Denied _ \<Rightarrow> False)"

lemma is_allowed_simps [simp]: "is_allowed (Allowed k c)" "\<not> is_allowed (Denied r)"
  by (simp_all add: is_allowed_def)

section \<open>Errors\<close>

datatype ActionErrorCode =
  actions_disabled | connector_disabled | unknown_target | target_disabled | target_invalid
  | not_granted | insufficient_scope | invalid_arguments | policy_denied | rate_limited
  | credential_unavailable | credential_rotation_failed | destination_refused
  | host_key_mismatch | tls_error | connection_failed | authentication_failed | timeout
  | upstream_error | connector_fault | browser_unavailable | login_failed | unknown_session
  | session_expired | session_limit | element_not_found | index_unavailable | index_not_ready
  | ref_not_found | path_not_found | chunk_not_found | not_text

text \<open>A value of \<^verbatim>\<open>ActionErrorDetail\<close>; the reason of a policy decision keeps its constructor.\<close>

datatype DetailValue = DText string | DNumber nat | DBool bool | DReason PolicyReason

record ActionError =
  error_code :: ActionErrorCode
  error_detail :: "(string \<times> DetailValue) list"

definition action_error :: "ActionErrorCode \<Rightarrow> (string \<times> DetailValue) list \<Rightarrow> ActionError" where
  "action_error c d = \<lparr>error_code = c, error_detail = d\<rparr>"

lemma action_error_sel [simp]:
  "error_code (action_error c d) = c" "error_detail (action_error c d) = d"
  by (simp_all add: action_error_def)

text \<open>The spelling of a code: the keys of \<^verbatim>\<open>ACTION_ERROR_MESSAGES\<close>.\<close>

primrec code_name :: "ActionErrorCode \<Rightarrow> string" where
  "code_name actions_disabled = ''actions_disabled''"
| "code_name connector_disabled = ''connector_disabled''"
| "code_name unknown_target = ''unknown_target''"
| "code_name target_disabled = ''target_disabled''"
| "code_name target_invalid = ''target_invalid''"
| "code_name not_granted = ''not_granted''"
| "code_name insufficient_scope = ''insufficient_scope''"
| "code_name invalid_arguments = ''invalid_arguments''"
| "code_name policy_denied = ''policy_denied''"
| "code_name rate_limited = ''rate_limited''"
| "code_name credential_unavailable = ''credential_unavailable''"
| "code_name credential_rotation_failed = ''credential_rotation_failed''"
| "code_name destination_refused = ''destination_refused''"
| "code_name host_key_mismatch = ''host_key_mismatch''"
| "code_name tls_error = ''tls_error''"
| "code_name connection_failed = ''connection_failed''"
| "code_name authentication_failed = ''authentication_failed''"
| "code_name timeout = ''timeout''"
| "code_name upstream_error = ''upstream_error''"
| "code_name connector_fault = ''connector_fault''"
| "code_name browser_unavailable = ''browser_unavailable''"
| "code_name login_failed = ''login_failed''"
| "code_name unknown_session = ''unknown_session''"
| "code_name session_expired = ''session_expired''"
| "code_name session_limit = ''session_limit''"
| "code_name element_not_found = ''element_not_found''"
| "code_name index_unavailable = ''index_unavailable''"
| "code_name index_not_ready = ''index_not_ready''"
| "code_name ref_not_found = ''ref_not_found''"
| "code_name path_not_found = ''path_not_found''"
| "code_name chunk_not_found = ''chunk_not_found''"
| "code_name not_text = ''not_text''"

text \<open>\<^verbatim>\<open>ACTION_ERROR_MESSAGES\<close>: the fixed message of a code.\<close>

primrec error_message :: "ActionErrorCode \<Rightarrow> string" where
  "error_message actions_disabled = ''the actions layer is disabled on this deployment''"
| "error_message connector_disabled = ''the connector behind this target is disabled on this deployment''"
| "error_message unknown_target = ''no enabled, granted target of that name exists for this client''"
| "error_message target_disabled = ''the target is disabled''"
| "error_message target_invalid = ''the stored target fails validation; ask the operator to repair it''"
| "error_message not_granted = ''this client has not been granted the target''"
| "error_message insufficient_scope = ''the token does not hold the scope this tool needs''"
| "error_message invalid_arguments = ''the arguments do not match the tool schema''"
| "error_message policy_denied = ''the target'' @ [CHR 0x27] @ ''s policy does not allow this operation''"
| "error_message rate_limited = ''too many calls; retry after the number of seconds in detail.retry_after_s''"
| "error_message credential_unavailable =
     ''the credential for this target is not available; the operator can see why on the account page''"
| "error_message credential_rotation_failed = ''the rotated refresh token could not be written back to the vault''"
| "error_message destination_refused =
     ''the target'' @ [CHR 0x27] @ ''s destination resolved to an address vaultgate refuses to connect to''"
| "error_message host_key_mismatch = ''the SSH host key does not match the key pinned on the target''"
| "error_message tls_error = ''the TLS certificate of the destination could not be verified''"
| "error_message connection_failed = ''the destination could not be reached''"
| "error_message authentication_failed = ''the destination rejected the credential''"
| "error_message timeout =
     ''the target'' @ [CHR 0x27] @ ''s timeout elapsed and the operation was cancelled''"
| "error_message upstream_error = ''the destination reported an error; see detail.message''"
| "error_message connector_fault =
     ''the call could not be completed inside vaultgate; the destination did not report this and may never have been contacted; see detail.reason''"
| "error_message browser_unavailable = ''the browser sidecar did not answer''"
| "error_message login_failed = ''the browser sign-in did not complete; see detail.stage''"
| "error_message unknown_session = ''no open browser session of that id exists for this client''"
| "error_message session_expired = ''the browser session has ended''"
| "error_message session_limit = ''this client already holds the maximum number of open sessions on this target''"
| "error_message element_not_found = ''the element reference is not in the current page''"
| "error_message index_unavailable = ''the code search sidecar did not answer''"
| "error_message index_not_ready =
     ''the index for this repository is not ready yet; see detail.state, and retry shortly when it is building''"
| "error_message ref_not_found = ''the repository has no branch, tag, commit or pull request of that name''"
| "error_message path_not_found = ''no indexed file of that path exists in this snapshot of the repository''"
| "error_message chunk_not_found = ''no indexed chunk of that file holds that line; pass a location from a search''"
| "error_message not_text = ''the file is not text''"

definition DENIED_CODES :: "ActionErrorCode list" where
  "DENIED_CODES =
     [actions_disabled, connector_disabled, unknown_target, target_disabled, target_invalid,
      not_granted, insufficient_scope, invalid_arguments, policy_denied, rate_limited]"

datatype ActionOutcome = OutcomeOk | OutcomeDenied ActionErrorCode | OutcomeError ActionErrorCode

definition outcomeOf :: "ActionError \<Rightarrow> ActionOutcome" where
  "outcomeOf e =
     (if error_code e \<in> set DENIED_CODES then OutcomeDenied (error_code e)
      else OutcomeError (error_code e))"

section \<open>Endpoints\<close>

record Endpoint =
  endpoint_host :: string
  endpoint_tls :: bool

record PinnedEndpoint = Endpoint +
  pinned_address :: string

section \<open>What a run is lent\<close>

text \<open>The values a call holds, by field name, and the mapping's user name (ACT-50).\<close>

record InjectedValues =
  injected_value :: "string \<Rightarrow> string option"
  injected_username :: "string option"

record OutputLimit =
  limit_bytes :: nat
  limit_guard :: nat

section \<open>Thrown values\<close>

text \<open>
  What a \<^verbatim>\<open>catch\<close> receives: an action error, another \<^verbatim>\<open>Error\<close> with its \<^verbatim>\<open>code\<close>, name, message
  and the error it wraps (\<^verbatim>\<open>cause\<close> or \<^verbatim>\<open>originalError\<close>), or any other value, as text.
\<close>

datatype Thrown =
    ThrownAction ActionError
  | ThrownError "string option" string string "Thrown option"
  | ThrownOther string

text \<open>\<^verbatim>\<open>src/net/tls-error.ts\<close>: the codes of certificate and TLS failures.\<close>

definition TLS_PREFIXES :: "string list" where
  "TLS_PREFIXES = [''ERR_TLS_'', ''ERR_SSL_'', ''ERR_OSSL_'', ''CERT_'', ''UNABLE_TO_'', ''SELF_SIGNED_'']"

definition isTlsErrorCode :: "string \<Rightarrow> bool" where
  "isTlsErrorCode code \<longleftrightarrow>
     list_ex (\<lambda>p. prefix p code) TLS_PREFIXES \<or>
     code \<in> {''DEPTH_ZERO_SELF_SIGNED_CERT'', ''HOSTNAME_MISMATCH'', ''EPROTO''}"

section \<open>Control characters\<close>

definition CONTROL_CHARACTERS :: "char list" where
  "CONTROL_CHARACTERS =
     filter (\<lambda>c. c \<notin> {CHR 0x09, CHR 0x0A, CHR 0x0D}) (map char_of [0..<32::nat])"

definition hasNul :: "string \<Rightarrow> bool" where
  "hasNul s \<longleftrightarrow> CHR 0x00 \<in> set s"

definition hasControlCharacter :: "string \<Rightarrow> bool" where
  "hasControlCharacter s \<longleftrightarrow> list_ex (\<lambda>c. c \<in> set CONTROL_CHARACTERS) s"

lemma hasControlCharacter_iff:
  "hasControlCharacter s \<longleftrightarrow> (\<exists>c \<in> set s. char_code c < 32 \<and> char_code c \<notin> {9, 10, 13})"
proof -
  have "c \<in> set CONTROL_CHARACTERS \<longleftrightarrow> char_code c < 32 \<and> char_code c \<notin> {9, 10, 13}" for c :: char
  proof -
    have "c \<in> char_of ` {0..<32::nat} \<longleftrightarrow> char_code c < 32"
    proof
      assume "char_code c < 32"
      moreover have "c = char_of (char_code c)" by (simp add: char_code_def)
      ultimately show "c \<in> char_of ` {0..<32::nat}" by (intro image_eqI) auto
    qed auto
    moreover have "c = CHR 0x09 \<longleftrightarrow> char_code c = 9" "c = CHR 0x0A \<longleftrightarrow> char_code c = 10"
      "c = CHR 0x0D \<longleftrightarrow> char_code c = 13"
      using char_code_eq [of c "CHR 0x09"] char_code_eq [of c "CHR 0x0A"] char_code_eq [of c "CHR 0x0D"]
      by (simp_all add: char_code_def)
    ultimately show ?thesis by (auto simp: CONTROL_CHARACTERS_def)
  qed
  then show ?thesis by (auto simp: hasControlCharacter_def list_ex_iff)
qed

lemma hasNul_control: "hasNul s \<Longrightarrow> hasControlCharacter s"
  by (auto simp: hasControlCharacter_iff hasNul_def char_code_def intro!: bexI [of _ "CHR 0x00"])

end
