(* ===== verification/SqlClassify.thy ===== *)
theory SqlClassify
  imports SqlTokens Policy Actions
begin

text \<open>
  \<^verbatim>\<open>src/actions/connectors/sql/classify.ts\<close> and \<^verbatim>\<open>authorize.ts\<close>: a statement is classified over
  its tokens (ACT-36, ACT-37, ACT-38), its placeholders are checked against the parameters
  (ACT-23), and the class is judged against the target's policy (ACT-39). The words of a
  statement are compared in upper case, as \<^verbatim>\<open>toUpperCase\<close> gives them.
\<close>

section \<open>Classification\<close>

definition DENIED :: "string list" where
  "DENIED =
     [''ALTER'', ''BACKUP'', ''CALL'', ''COPY'', ''CREATE'', ''DBCC'', ''DELETE'', ''DENY'', ''DROP'',
      ''EXEC'', ''EXECUTE'', ''GRANT'', ''INSERT'', ''INTO'', ''LOCK'', ''MERGE'', ''OPENQUERY'',
      ''OPENROWSET'', ''READTEXT'', ''RECONFIGURE'', ''RESTORE'', ''REVOKE'', ''SET'', ''SHUTDOWN'',
      ''TRUNCATE'', ''UPDATE'', ''UPDATETEXT'', ''USE'', ''WAITFOR'', ''WRITETEXT'']"

definition READ_FIRST :: "string list" where
  "READ_FIRST = [''EXPLAIN'', ''SELECT'', ''WITH'']"

definition DML_FIRST :: "string list" where
  "DML_FIRST = [''DELETE'', ''INSERT'', ''MERGE'', ''UPDATE'']"

definition DDL_FIRST :: "string list" where
  "DDL_FIRST = [''ALTER'', ''CREATE'', ''DENY'', ''DROP'', ''GRANT'', ''REVOKE'', ''TRUNCATE'']"

definition PROCEDURE_PREFIXES :: "string list" where
  "PROCEDURE_PREFIXES = [''SP_'', ''XP_'']"

record StatementFacts =
  statementClass :: StatementClass
  bound_positions :: "nat list"

definition keywordsOf :: "SqlToken list \<Rightarrow> string list" where
  "keywordsOf tokens = map (\<lambda>t. toUpperCase (token_text t)) (filter (\<lambda>t. token_kind t = TWord) tokens)"

definition isProcedureName :: "string \<Rightarrow> bool" where
  "isProcedureName keyword \<longleftrightarrow> list_ex (\<lambda>p. prefix p keyword) PROCEDURE_PREFIXES"

definition isReadSafe :: "string list \<Rightarrow> bool" where
  "isReadSafe keywords \<longleftrightarrow> list_all (\<lambda>k. k \<notin> set DENIED \<and> \<not> isProcedureName k) keywords"

definition classOf :: "string list \<Rightarrow> StatementClass" where
  "classOf keywords =
     (case keywords of
        [] \<Rightarrow> ClassOther
      | first # _ \<Rightarrow>
          if first \<in> set READ_FIRST \<and> isReadSafe keywords then ClassRead
          else if first \<in> set DML_FIRST \<or> (first = ''WITH'' \<and> list_ex (\<lambda>w. w \<in> set DML_FIRST) keywords)
          then ClassDml
          else if first \<in> set DDL_FIRST then ClassDdl else ClassOther)"

text \<open>\<^verbatim>\<open>trim() !== ''\<close> on the tail: \<^verbatim>\<open>trim\<close> strips what \<^verbatim>\<open>\s\<close> matches.\<close>

definition is_blank :: "string \<Rightarrow> bool" where
  "is_blank s \<longleftrightarrow> list_all is_space s"

definition hasSecondStatement :: "string \<Rightarrow> SqlToken list \<Rightarrow> bool" where
  "hasSecondStatement statement tokens =
     (case find (\<lambda>t. token_kind t = TSemicolon) tokens of
        None \<Rightarrow> False
      | Some semi \<Rightarrow> \<not> is_blank (drop (token_end semi) statement))"

definition positionsOf :: "SqlToken list \<Rightarrow> nat list" where
  "positionsOf tokens =
     sort (remdups (map token_position (filter (\<lambda>t. token_kind t = TPlaceholder) tokens)))"

text \<open>\<open>None\<close> is the reading \<^verbatim>\<open>{ ok: false, reason: 'statement_count' }\<close>.\<close>

definition classifyStatement :: "string \<Rightarrow> SqlEngine \<Rightarrow> StatementFacts option" where
  "classifyStatement statement engine =
     (let tokens = tokenise statement engine in
      if hasSecondStatement statement tokens then None
      else Some \<lparr>statementClass = classOf (keywordsOf tokens), bound_positions = positionsOf tokens\<rparr>)"

text \<open>\<open>Some (count, engine)\<close> stands for the message, which names the two.\<close>

definition bindingProblem :: "nat list \<Rightarrow> nat \<Rightarrow> SqlEngine \<Rightarrow> (nat \<times> SqlEngine) option" where
  "bindingProblem positions count engine =
     (if length positions = count \<and> list_all (\<lambda>i. positions ! i = i + 1) [0..<length positions]
      then None else Some (count, engine))"

section \<open>Authorisation\<close>

record SqlDestination =
  sql_engine :: SqlEngine
  sql_host :: string
  sql_port :: "nat option"
  sql_database :: string
  sql_tls :: string
  sql_ca_pem :: "string option"

record SqlPolicy =
  operations :: "OperationKind list"
  max_rows :: nat
  timeout_ms :: nat
  statement_timeout_ms :: "nat option"
  write_classes :: "StatementClass list"
  statement_allowlist :: "string list"

record SqlRequest =
  sql_tool :: string
  sql_destination :: SqlDestination
  sql_policy :: SqlPolicy

definition SQL_QUERY_TOOL :: string where "SQL_QUERY_TOOL = ''sql_query''"
definition SQL_EXECUTE_TOOL :: string where "SQL_EXECUTE_TOOL = ''sql_execute''"

definition isWriteClass :: "StatementClass \<Rightarrow> bool" where
  "isWriteClass c \<longleftrightarrow> c = ClassDdl \<or> c = ClassDml"

definition isStatementAllowed :: "string list \<Rightarrow> string \<Rightarrow> bool" where
  "isStatementAllowed patterns statement \<longleftrightarrow>
     patterns = [] \<or> list_ex (\<lambda>p. isPatternMatch p statement CommandPattern) patterns"

definition readDecision :: "SqlPolicy \<Rightarrow> StatementClass \<Rightarrow> PolicyDecision" where
  "readDecision policy c =
     (if OpRead \<notin> set (operations policy) then Denied ROperation
      else if c = ClassRead then Allowed OpRead (Some ClassRead)
      else Denied RStatementClass)"

definition writeDecision :: "SqlPolicy \<Rightarrow> StatementClass \<Rightarrow> string \<Rightarrow> PolicyDecision" where
  "writeDecision policy c statement =
     (if OpWrite \<notin> set (operations policy) then Denied ROperation
      else if \<not> isWriteClass c \<or> c \<notin> set (write_classes policy) then Denied RStatementClass
      else if isStatementAllowed (statement_allowlist policy) statement then Allowed OpWrite (Some c)
      else Denied RStatementPattern)"

definition authorize_sql :: "SqlRequest \<Rightarrow> string \<Rightarrow> PolicyDecision" where
  "authorize_sql request statement =
     (case classifyStatement statement (sql_engine (sql_destination request)) of
        None \<Rightarrow> Denied RStatementCount
      | Some facts \<Rightarrow>
          if sql_tool request = SQL_QUERY_TOOL then readDecision (sql_policy request) (statementClass facts)
          else writeDecision (sql_policy request) (statementClass facts) statement)"

definition describe_sql :: "SqlRequest \<Rightarrow> string \<Rightarrow> StatementClass" where
  "describe_sql request statement =
     (case classifyStatement statement (sql_engine (sql_destination request)) of
        Some facts \<Rightarrow> statementClass facts | None \<Rightarrow> ClassOther)"

text \<open>ACT-19: each operation with the scope that reaches it, and the engine.\<close>

definition sql_capabilities :: "SqlDestination \<Rightarrow> SqlPolicy \<Rightarrow> (OperationKind \<times> string) list \<times> SqlEngine" where
  "sql_capabilities destination policy =
     (map (\<lambda>operation. (operation, if operation = OpRead then ''actions:sql.read'' else ''actions:sql.write''))
        (operations policy),
      sql_engine destination)"

section \<open>Lemmas\<close>

lemma classOf_read:
  "classOf ks = ClassRead \<longleftrightarrow> ks \<noteq> [] \<and> hd ks \<in> set READ_FIRST \<and> isReadSafe ks"
  by (cases ks) (auto simp: classOf_def)

lemma classOf_write:
  "isWriteClass (classOf ks) \<Longrightarrow> ks \<noteq> [] \<and> (hd ks \<in> set DML_FIRST \<union> set DDL_FIRST \<or> hd ks = ''WITH'')"
  by (cases ks) (auto simp: classOf_def isWriteClass_def split: if_splits)

text \<open>The classes are disjoint at the first keyword: nothing a read may start with is DML or DDL.\<close>

lemma firsts_disjoint: "set READ_FIRST \<inter> (set DML_FIRST \<union> set DDL_FIRST) = {}"
  by (simp add: READ_FIRST_def DML_FIRST_def DDL_FIRST_def)

text \<open>Every keyword that opens a write is denied in a read, so the two classes never meet.\<close>

lemma writes_denied: "set DML_FIRST \<union> set DDL_FIRST \<subseteq> set DENIED"
  by (simp add: DENIED_def DML_FIRST_def DDL_FIRST_def)

lemma keywordsOf_in: "k \<in> set (keywordsOf ts) \<longleftrightarrow> (\<exists>t \<in> set ts. token_kind t = TWord \<and> k = toUpperCase (token_text t))"
  by (auto simp: keywordsOf_def)

lemma isReadSafe_tokens:
  "isReadSafe (keywordsOf ts) \<longleftrightarrow>
     (\<forall>t \<in> set ts. token_kind t = TWord \<longrightarrow>
        toUpperCase (token_text t) \<notin> set DENIED \<and> \<not> isProcedureName (toUpperCase (token_text t)))"
  by (auto simp: isReadSafe_def list_all_iff keywordsOf_def)

lemma classifyStatement_Some:
  "classifyStatement s e = Some facts \<longleftrightarrow>
     \<not> hasSecondStatement s (tokenise s e) \<and>
     facts = \<lparr>statementClass = classOf (keywordsOf (tokenise s e)), bound_positions = positionsOf (tokenise s e)\<rparr>"
  by (auto simp: classifyStatement_def Let_def)

lemma sorted_distinct_initial:
  fixes xs :: "nat list"
  assumes "sorted xs" "distinct xs"
  shows "(length xs = n \<and> (\<forall>i < length xs. xs ! i = i + 1)) \<longleftrightarrow> set xs = {1..n}"
proof
  assume l: "length xs = n \<and> (\<forall>i < length xs. xs ! i = i + 1)"
  have "xs = map Suc [0..<n]" using l by (intro nth_equalityI) auto
  then show "set xs = {1..n}" by (auto simp: image_Suc_atLeastLessThan atLeastLessThanSuc_atLeastAtMost)
next
  assume s: "set xs = {1..n}"
  have "sorted_list_of_set {1..n} = [1..<Suc n]"
    by (metis atLeastLessThanSuc_atLeastAtMost sorted_list_of_set_range)
  moreover have "sorted_list_of_set (set xs) = xs"
    using assms by (simp add: sorted_list_of_set.idem_if_sorted_distinct)
  ultimately have "xs = [1..<Suc n]" using s by simp
  then show "length xs = n \<and> (\<forall>i < length xs. xs ! i = i + 1)" by (simp del: upt_Suc)
qed

text \<open>What a statement that \<open>hasSecondStatement\<close> lets pass looks like.\<close>

lemma tiles_ends: "tiles index s ts \<Longrightarrow> t \<in> set ts \<Longrightarrow> index \<le> token_end t"
proof (induction index s ts rule: tiles.induct)
  case (2 index s u us)
  then show ?case by (cases "t = u") fastforce+
qed simp

lemma tiles_first:
  "tiles index s ts \<Longrightarrow> find P ts = Some u \<Longrightarrow> t \<in> set ts \<Longrightarrow> P t \<Longrightarrow> token_end u \<le> token_end t"
proof (induction index s ts rule: tiles.induct)
  case (2 index s v vs)
  then show ?case using tiles_ends by (auto split: if_splits)
qed simp

lemma single_statement:
  assumes "\<not> hasSecondStatement s (tokenise s e)" and "t \<in> set (tokenise s e)" and "token_kind t = TSemicolon"
  shows "is_blank (drop (token_end t) s)"
proof -
  obtain u where u: "find (\<lambda>t. token_kind t = TSemicolon) (tokenise s e) = Some u"
    using assms(2,3) by (cases "find (\<lambda>t. token_kind t = TSemicolon) (tokenise s e)") (auto simp: find_None_iff)
  have "token_end u \<le> token_end t"
    using tiles_first [OF tokenise_at_tiles [of 0 s e, folded tokenise_def] u assms(2)] assms(3) by simp
  then have "set (drop (token_end t) s) \<subseteq> set (drop (token_end u) s)" by (rule set_drop_subset_set_drop)
  moreover have "is_blank (drop (token_end u) s)"
    using assms(1) u by (simp add: hasSecondStatement_def)
  ultimately show ?thesis by (auto simp: is_blank_def list_all_iff)
qed

section \<open>Properties\<close>

text \<open>A target to evaluate on: a SQL Server target that allows DML under an allowlist.\<close>

definition write_target :: "string list \<Rightarrow> SqlRequest" where
  "write_target allowlist =
     \<lparr>sql_tool = SQL_EXECUTE_TOOL,
      sql_destination = \<lparr>sql_engine = Mssql, sql_host = ''db'', sql_port = None,
        sql_database = ''d'', sql_tls = ''require'', sql_ca_pem = None\<rparr>,
      sql_policy = \<lparr>operations = [OpRead, OpWrite], max_rows = 5, timeout_ms = 1000,
        statement_timeout_ms = None, write_classes = [ClassDml], statement_allowlist = allowlist\<rparr>\<rparr>"

text \<open>
  C6: whatever \<^verbatim>\<open>sql_query\<close> is allowed to run is, as the tokeniser reads it, one statement without a
  write in it: the policy lets it read, it opens with \<^verbatim>\<open>SELECT\<close>, \<^verbatim>\<open>WITH\<close> or \<^verbatim>\<open>EXPLAIN\<close>, none of its words
  outside literals, comments and quoted identifiers is a denied keyword or names a system procedure,
  and nothing but blanks stands behind any separator. Where the server reads the text otherwise than
  the tokeniser (\<open>dollar_identifier_hides_keyword\<close> below) the claim is about the tokeniser's reading.
\<close>

theorem sql_query_only_reads:
  assumes "sql_tool request = SQL_QUERY_TOOL"
    and "authorize_sql request statement = Allowed operation c"
  defines "tokens \<equiv> tokenise statement (sql_engine (sql_destination request))"
  shows "operation = OpRead \<and> c = Some ClassRead \<and> OpRead \<in> set (operations (sql_policy request)) \<and>
    keywordsOf tokens \<noteq> [] \<and> hd (keywordsOf tokens) \<in> {''SELECT'', ''WITH'', ''EXPLAIN''} \<and>
    (\<forall>t \<in> set tokens. token_kind t = TWord \<longrightarrow>
       toUpperCase (token_text t) \<notin> set DENIED \<and> \<not> isProcedureName (toUpperCase (token_text t))) \<and>
    (\<forall>t \<in> set tokens. token_kind t = TSemicolon \<longrightarrow>
       is_blank (drop (token_end t) statement))"
proof -
  obtain facts where facts: "classifyStatement statement (sql_engine (sql_destination request)) = Some facts"
    and dec: "readDecision (sql_policy request) (statementClass facts) = Allowed operation c"
    using assms by (auto simp: authorize_sql_def split: option.splits)
  then have "classOf (keywordsOf tokens) = ClassRead" "operation = OpRead" "c = Some ClassRead"
    "OpRead \<in> set (operations (sql_policy request))"
    and one: "\<not> hasSecondStatement statement tokens"
    by (auto simp: readDecision_def classifyStatement_Some tokens_def split: if_splits)
  moreover have "\<forall>t \<in> set tokens. token_kind t = TSemicolon \<longrightarrow>
      is_blank (drop (token_end t) statement)"
    using single_statement one unfolding tokens_def by blast
  ultimately show ?thesis
    by (simp add: classOf_read isReadSafe_tokens READ_FIRST_def disj_commute disj_left_commute)
qed

theorem sql_query_only_reads_witness:
  "hd (keywordsOf (tokenise ''select 1;'' Postgres)) \<in> {''SELECT'', ''WITH'', ''EXPLAIN''}"
proof -
  let ?p = "\<lparr>operations = [OpRead], max_rows = 5, timeout_ms = 1000, statement_timeout_ms = None,
    write_classes = [ClassDml], statement_allowlist = []\<rparr>"
  let ?d = "\<lparr>sql_engine = Postgres, sql_host = ''db'', sql_port = None, sql_database = ''d'', sql_tls = ''require'',
    sql_ca_pem = None\<rparr>"
  let ?r = "\<lparr>sql_tool = SQL_QUERY_TOOL, sql_destination = ?d, sql_policy = ?p\<rparr>"
  have "authorize_sql ?r ''select 1;'' = Allowed OpRead (Some ClassRead)" by code_simp
  from sql_query_only_reads [OF _ this] show ?thesis by simp
qed

text \<open>
  whatever \<^verbatim>\<open>sql_execute\<close> is allowed to run is a write of a class the policy lists, never a
  read and never a statement of the class \<^verbatim>\<open>other\<close>, and it matches a pattern of the allowlist
  when the target carries one.
\<close>

theorem sql_execute_only_writes:
  assumes "sql_tool request \<noteq> SQL_QUERY_TOOL"
    and "authorize_sql request statement = Allowed operation c"
  shows "operation = OpWrite \<and> OpWrite \<in> set (operations (sql_policy request)) \<and>
    (c = Some ClassDml \<or> c = Some ClassDdl) \<and> the c \<in> set (write_classes (sql_policy request)) \<and>
    c = Some (describe_sql request statement) \<and>
    (statement_allowlist (sql_policy request) \<noteq> [] \<longrightarrow>
       (\<exists>p \<in> set (statement_allowlist (sql_policy request)). isPatternMatch p statement CommandPattern))"
  using assms
  by (auto simp: authorize_sql_def writeDecision_def describe_sql_def isWriteClass_def
      isStatementAllowed_def list_ex_iff split: option.splits if_splits)

theorem sql_execute_only_writes_witness:
  "describe_sql (write_target [''insert into log *'']) ''insert into log select 1'' = ClassDml"
proof -
  let ?r = "write_target [''insert into log *'']"
  have "authorize_sql ?r ''insert into log select 1'' = Allowed OpWrite (Some ClassDml)" by code_simp
  moreover have "sql_tool ?r \<noteq> SQL_QUERY_TOOL"
    by (simp add: write_target_def SQL_QUERY_TOOL_def SQL_EXECUTE_TOOL_def)
  ultimately show ?thesis using sql_execute_only_writes [of ?r "''insert into log select 1''"] by auto
qed

text \<open>
  the placeholders of a statement bind its parameters exactly: no problem is reported if and
  only if the positions of the placeholders outside literals are all of one to the number of
  parameters.
\<close>

theorem binding_exact:
  "bindingProblem (positionsOf tokens) count engine = None \<longleftrightarrow>
   {token_position t |t. t \<in> set tokens \<and> token_kind t = TPlaceholder} = {1..count}"
proof -
  let ?xs = "positionsOf tokens"
  have "set ?xs = {token_position t |t. t \<in> set tokens \<and> token_kind t = TPlaceholder}"
    by (auto simp: positionsOf_def)
  moreover have "sorted ?xs" "distinct ?xs" by (simp_all add: positionsOf_def)
  ultimately show ?thesis
    using sorted_distinct_initial [of ?xs count] by (auto simp: bindingProblem_def list_all_iff)
qed

text \<open>
  PostgreSQL's identifiers may hold a dollar sign behind their first character; the tokeniser's
  words may not. It reads the alias \<open>a$x$\<close> as the word \<open>a\<close> and an opening dollar quote, so what
  follows up to the next \<open>$x$\<close> is a string to it and code to the server.
\<close>

lemma dollar_identifier_hides_keyword:
  "classifyStatement
     ''WITH d AS (SELECT 1 AS a$x$), e AS (DELETE FROM t RETURNING *) SELECT 1 AS b$x$'' Postgres
   = Some \<lparr>statementClass = ClassRead, bound_positions = []\<rparr>"
  by code_simp

end
