(* ===== verification/VaultFields.thy ===== *)
theory VaultFields
  imports Prelude
begin

text \<open>
  \<^verbatim>\<open>src/vault/fields.ts\<close> and \<^verbatim>\<open>src/vault/field-edits.ts\<close> over the types of
  \<^verbatim>\<open>src/vault/client.ts\<close>: the selectors that name a field of a vault item, whether an item has the
  field, and the plan of an edit of its custom fields.
\<close>

section \<open>The vault contract\<close>

datatype ItemType = LoginItem | SecureNoteItem | CardItem | IdentityItem | SshKeyItem

datatype CustomFieldKind = TextField | HiddenField | BooleanField | LinkedField

record ExistingField =
  field_name :: string
  field_kind :: CustomFieldKind

record CustomFieldSummary = ExistingField +
  field_value :: "string option"

record LoginSummary =
  login_username :: "string option"
  login_uris :: "string list"
  hasPassword :: bool
  hasTotp :: bool

record ItemSummary =
  item_id :: string
  item_name :: string
  item_type :: ItemType
  item_folderId :: "string option"
  item_organizationId :: "string option"
  item_collectionIds :: "string list"
  item_favorite :: bool
  item_revisionDate :: string
  item_deletedDate :: "string option"
  item_login :: "LoginSummary option"
  hasNotes :: bool
  customFields :: "CustomFieldSummary list"

datatype SecretField =
    PasswordField
  | TotpField
  | NotesField
  | CardNumber
  | CardCode
  | SshPrivateKey
  | IdentityField string
  | CustomField string
  | InheritedMember string

datatype FieldSelector = Secret SecretField | UsernameField

datatype VaultErrorCode = vault_unavailable | item_not_found | invalid_item | vault_protocol_error

datatype SecretValue = TextSecret string | TotpSecret string nat

primrec vault_code :: "VaultErrorCode \<Rightarrow> string" where
  "vault_code vault_unavailable = ''vault_unavailable''"
| "vault_code item_not_found = ''not_found''"
| "vault_code invalid_item = ''invalid_item''"
| "vault_code vault_protocol_error = ''vault_protocol_error''"

section \<open>Selectors\<close>

definition FIXED_FIELDS :: "(string \<times> SecretField) list" where
  "FIXED_FIELDS =
     [(''password'', PasswordField), (''totp'', TotpField), (''notes'', NotesField), (''card.number'', CardNumber),
      (''card.code'', CardCode), (''sshKey.privateKey'', SshPrivateKey)]"

text \<open>
  \<^verbatim>\<open>FIXED_FIELDS[text]\<close> of a plain object also finds what it inherits from \<^verbatim>\<open>Object.prototype\<close>: a value
  that is no selector but is not \<^verbatim>\<open>undefined\<close> either.
\<close>

definition OBJECT_PROTOTYPE :: "string list" where
  "OBJECT_PROTOTYPE =
     [''constructor'', ''__defineGetter__'', ''__defineSetter__'', ''hasOwnProperty'', ''__lookupGetter__'',
      ''__lookupSetter__'', ''isPrototypeOf'', ''propertyIsEnumerable'', ''toString'', ''valueOf'', ''__proto__'',
      ''toLocaleString'']"

definition fixed_field :: "string \<Rightarrow> SecretField option" where
  "fixed_field s =
     (case map_of FIXED_FIELDS s of
        Some f \<Rightarrow> Some f
      | None \<Rightarrow> if s \<in> set OBJECT_PROTOTYPE then Some (InheritedMember s) else None)"

definition IDENTITY_PREFIX :: string where "IDENTITY_PREFIX = ''identity.''"
definition CUSTOM_PREFIX :: string where "CUSTOM_PREFIX = ''custom.''"
definition USERNAME_SELECTOR :: string where "USERNAME_SELECTOR = ''login.username''"

definition parseSecretField :: "string \<Rightarrow> SecretField option" where
  "parseSecretField s =
     (case fixed_field s of
        Some f \<Rightarrow> Some f
      | None \<Rightarrow>
        (if prefix IDENTITY_PREFIX s \<and> length s > length IDENTITY_PREFIX then Some (IdentityField (drop (length IDENTITY_PREFIX) s))
         else if prefix CUSTOM_PREFIX s \<and> length s > length CUSTOM_PREFIX then Some (CustomField (drop (length CUSTOM_PREFIX) s))
         else None))"

definition parseFieldSelector :: "string \<Rightarrow> FieldSelector option" where
  "parseFieldSelector s = (if s = USERNAME_SELECTOR then Some UsernameField else map_option Secret (parseSecretField s))"

definition isLoginFieldPresent :: "LoginSummary option \<Rightarrow> (LoginSummary \<Rightarrow> bool) \<Rightarrow> bool" where
  "isLoginFieldPresent login present = (case login of None \<Rightarrow> False | Some l \<Rightarrow> present l)"

fun isFieldPresent :: "ItemSummary \<Rightarrow> FieldSelector \<Rightarrow> bool" where
  "isFieldPresent item UsernameField = isLoginFieldPresent (item_login item) (\<lambda>l. login_username l \<noteq> None)"
| "isFieldPresent item (Secret PasswordField) = isLoginFieldPresent (item_login item) hasPassword"
| "isFieldPresent item (Secret TotpField) = isLoginFieldPresent (item_login item) hasTotp"
| "isFieldPresent item (Secret NotesField) = hasNotes item"
| "isFieldPresent item (Secret CardNumber) = (item_type item = CardItem)"
| "isFieldPresent item (Secret CardCode) = (item_type item = CardItem)"
| "isFieldPresent item (Secret (IdentityField _)) = (item_type item = IdentityItem)"
| "isFieldPresent item (Secret SshPrivateKey) = (item_type item = SshKeyItem)"
| "isFieldPresent item (Secret (CustomField name)) = list_ex (\<lambda>f. field_name f = name) (customFields item)"
| "isFieldPresent item (Secret (InheritedMember _)) = False"

text \<open>A selector the parser takes for one although the grammar has no such field.\<close>

lemma inherited_selector:
  "parseFieldSelector ''constructor'' = Some (Secret (InheritedMember ''constructor''))"
  by (simp add: parseFieldSelector_def USERNAME_SELECTOR_def parseSecretField_def fixed_field_def FIXED_FIELDS_def OBJECT_PROTOTYPE_def)

section \<open>Edits of custom fields\<close>

record CustomFieldSet =
  set_name :: string
  set_value :: string
  set_kind :: "CustomFieldKind option"

record CustomFieldEdits =
  edit_set :: "CustomFieldSet list"
  edit_rename :: "(string \<times> string) list"
  edit_remove :: "string list"

text \<open>A field kept under a name, or one written with a value, which replaces one or is new.\<close>

datatype 'f PlannedField =
    Keep 'f string CustomFieldKind
  | Write "'f option" string CustomFieldKind "string option"

text \<open>The refusals of the plan, in place of their messages.\<close>

datatype EditProblem =
    NamedTwice string | SeveralFields nat string | NoSuchField string | NameTaken string
  | WrongKind string CustomFieldKind CustomFieldKind | LinkedHoldsNoValue string | NotBoolean string

type_synonym ('t) Planned = "('t, EditProblem) result"

definition edited_names :: "CustomFieldEdits \<Rightarrow> string list" where
  "edited_names e =
     map set_name (edit_set e) @ concat (map (\<lambda>(f, t). [f, t]) (edit_rename e)) @ edit_remove e"

text \<open>The first name the list holds earlier too.\<close>

fun first_repeated :: "string set \<Rightarrow> string list \<Rightarrow> string option" where
  "first_repeated seen [] = None"
| "first_repeated seen (x # xs) = (if x \<in> seen then Some x else first_repeated (insert x seen) xs)"

definition namedTwice :: "CustomFieldEdits \<Rightarrow> string option" where
  "namedTwice e = first_repeated {} (edited_names e)"

definition storedValue :: "string \<Rightarrow> CustomFieldKind \<Rightarrow> string \<Rightarrow> string option Planned" where
  "storedValue name kind v =
     (if kind = LinkedField then fail (LinkedHoldsNoValue name)
      else if kind = BooleanField \<and> v \<noteq> ''true'' \<and> v \<noteq> ''false'' then fail (NotBoolean name)
      else ok (if v = [] then None else Some v))"

text \<open>The slots of the plan: one per existing field, \<open>None\<close> once removed, then the new ones.\<close>

type_synonym 'f slots = "'f PlannedField option list"

definition new_slots :: "'a ExistingField_scheme list \<Rightarrow> 'a ExistingField_scheme slots" where
  "new_slots existing = map (\<lambda>f. Some (Keep f (field_name f) (field_kind f))) existing"

definition matches :: "'a ExistingField_scheme list \<Rightarrow> string \<Rightarrow> (nat \<times> 'a ExistingField_scheme) list" where
  "matches existing name = filter (\<lambda>(i, f). field_name f = name) (enumerate 0 existing)"

definition only :: "'a ExistingField_scheme list \<Rightarrow> string \<Rightarrow> (nat \<times> 'a ExistingField_scheme) option Planned" where
  "only existing name =
     (case matches existing name of
        [] \<Rightarrow> ok None
      | [x] \<Rightarrow> ok (Some x)
      | xs \<Rightarrow> fail (SeveralFields (length xs) name))"

definition required_field :: "'a ExistingField_scheme list \<Rightarrow> string \<Rightarrow> (nat \<times> 'a ExistingField_scheme) Planned" where
  "required_field existing name =
     (case only existing name of
        Inl e \<Rightarrow> fail e
      | Inr None \<Rightarrow> fail (NoSuchField name)
      | Inr (Some x) \<Rightarrow> ok x)"

definition plan_remove ::
  "'a ExistingField_scheme list \<Rightarrow> string \<Rightarrow> 'a ExistingField_scheme slots \<Rightarrow> 'a ExistingField_scheme slots Planned" where
  "plan_remove existing name slots =
     (case required_field existing name of Inl e \<Rightarrow> fail e | Inr (i, f) \<Rightarrow> ok (slots[i := None]))"

definition plan_rename ::
  "'a ExistingField_scheme list \<Rightarrow> string \<times> string \<Rightarrow> 'a ExistingField_scheme slots \<Rightarrow> 'a ExistingField_scheme slots Planned" where
  "plan_rename existing r slots =
     (case r of (old, new) \<Rightarrow>
       (case required_field existing old of
          Inl e \<Rightarrow> fail e
        | Inr (i, f) \<Rightarrow>
          (if list_ex (\<lambda>f. field_name f = new) existing then fail (NameTaken new)
           else ok (slots[i := Some (Keep f new (field_kind f))]))))"

definition plan_set ::
  "'a ExistingField_scheme list \<Rightarrow> CustomFieldSet \<Rightarrow> 'a ExistingField_scheme slots \<Rightarrow> 'a ExistingField_scheme slots Planned" where
  "plan_set existing s slots =
     (case only existing (set_name s) of
        Inl e \<Rightarrow> fail e
      | Inr found \<Rightarrow>
        (let kind = (case found of Some (i, f) \<Rightarrow> field_kind f
                     | None \<Rightarrow> (case set_kind s of Some k \<Rightarrow> k | None \<Rightarrow> HiddenField))
         in if set_kind s \<noteq> None \<and> set_kind s \<noteq> Some kind then fail (WrongKind (set_name s) kind (the (set_kind s)))
            else
             (case storedValue (set_name s) kind (set_value s) of
                Inl e \<Rightarrow> fail e
              | Inr v \<Rightarrow>
                ok (case found of
                      None \<Rightarrow> slots @ [Some (Write None (set_name s) kind v)]
                    | Some (i, f) \<Rightarrow> slots[i := Some (Write (Some f) (set_name s) kind v)]))))"

fun eachOf :: "('i \<Rightarrow> 's \<Rightarrow> 's Planned) \<Rightarrow> 'i list \<Rightarrow> 's \<Rightarrow> 's Planned" where
  "eachOf step [] s = ok s"
| "eachOf step (x # xs) s = (case step x s of Inl e \<Rightarrow> fail e | Inr s' \<Rightarrow> eachOf step xs s')"

definition plan_fields :: "'f slots \<Rightarrow> 'f PlannedField list" where
  "plan_fields slots = map the (filter (\<lambda>s. s \<noteq> None) slots)"

definition planFieldEdits ::
  "'a ExistingField_scheme list \<Rightarrow> CustomFieldEdits \<Rightarrow> 'a ExistingField_scheme PlannedField list Planned" where
  "planFieldEdits existing edits =
     (case namedTwice edits of
        Some name \<Rightarrow> fail (NamedTwice name)
      | None \<Rightarrow>
        (case eachOf (plan_remove existing) (edit_remove edits) (new_slots existing) of
           Inl e \<Rightarrow> fail e
         | Inr s1 \<Rightarrow>
           (case eachOf (plan_rename existing) (edit_rename edits) s1 of
              Inl e \<Rightarrow> fail e
            | Inr s2 \<Rightarrow>
              (case eachOf (plan_set existing) (edit_set edits) s2 of
                 Inl e \<Rightarrow> fail e
               | Inr s3 \<Rightarrow> ok (plan_fields s3)))))"

section \<open>What an edit does\<close>

text \<open>
  The reference: what becomes of an existing field, and the fields an edit adds.
\<close>

definition stored :: "string \<Rightarrow> string option" where
  "stored v = (if v = [] then None else Some v)"

definition edited_field :: "CustomFieldEdits \<Rightarrow> 'a ExistingField_scheme \<Rightarrow> 'a ExistingField_scheme PlannedField option" where
  "edited_field e f =
     (case find (\<lambda>s. set_name s = field_name f) (edit_set e) of
        Some s \<Rightarrow> Some (Write (Some f) (field_name f) (field_kind f) (stored (set_value s)))
      | None \<Rightarrow>
        (case map_of (edit_rename e) (field_name f) of
           Some new \<Rightarrow> Some (Keep f new (field_kind f))
         | None \<Rightarrow> if field_name f \<in> set (edit_remove e) then None else Some (Keep f (field_name f) (field_kind f))))"

definition added_fields :: "'a ExistingField_scheme list \<Rightarrow> CustomFieldSet list \<Rightarrow> 'a ExistingField_scheme PlannedField list" where
  "added_fields existing sets =
     map (\<lambda>s. Write None (set_name s) (case set_kind s of Some k \<Rightarrow> k | None \<Rightarrow> HiddenField) (stored (set_value s)))
       (filter (\<lambda>s. set_name s \<notin> field_name ` set existing) sets)"

lemma first_repeated_None: "first_repeated seen xs = None \<longleftrightarrow> distinct xs \<and> set xs \<inter> seen = {}"
  by (induction seen xs rule: first_repeated.induct) auto

lemma only_eq:
  "only existing name =
     (if matches existing name = [] then Inr None
      else if length (matches existing name) = 1 then Inr (Some (hd (matches existing name)))
      else Inl (SeveralFields (length (matches existing name)) name))"
  unfolding only_def ok_def fail_def by (cases "matches existing name"; cases "tl (matches existing name)") simp_all

lemma matches_mem: "(j, f) \<in> set (matches existing name) \<longleftrightarrow> j < length existing \<and> existing ! j = f \<and> field_name f = name"
  unfolding matches_def by (auto simp: in_set_enumerate_eq)

lemma only_Some:
  assumes "only existing name = Inr (Some (i, f))"
  shows "i < length existing" "existing ! i = f" "field_name f = name"
    "\<And>j. j < length existing \<Longrightarrow> field_name (existing ! j) = name \<Longrightarrow> j = i"
proof -
  from assms have "length (matches existing name) = 1" "hd (matches existing name) = (i, f)"
    by (auto simp: only_eq split: if_splits)
  then have m: "matches existing name = [(i, f)]"
    by (cases "matches existing name") simp_all
  have mem: "(j, g) \<in> set (matches existing name) \<longleftrightarrow> j = i \<and> g = f" for j g
    unfolding m by simp
  show "i < length existing" "existing ! i = f" "field_name f = name"
    using mem [of i f] unfolding matches_mem by simp_all
  fix j assume "j < length existing" "field_name (existing ! j) = name"
  with mem [of j "existing ! j"] show "j = i" unfolding matches_mem by simp
qed

lemma only_None: "only existing name = Inr None \<longleftrightarrow> name \<notin> field_name ` set existing"
proof -
  have "only existing name = Inr None \<longleftrightarrow> set (matches existing name) = {}" by (simp add: only_eq)
  also have "\<dots> \<longleftrightarrow> (\<forall>j f. (j, f) \<notin> set (matches existing name))"
    by (cases "matches existing name") auto
  also have "\<dots> \<longleftrightarrow> \<not> (\<exists>f \<in> set existing. field_name f = name)"
    unfolding matches_mem by (metis in_set_conv_nth)
  also have "\<dots> \<longleftrightarrow> name \<notin> field_name ` set existing" by auto
  finally show ?thesis .
qed

lemma required_Some: "required_field existing name = Inr x \<Longrightarrow> only existing name = Inr (Some x)"
  unfolding required_field_def ok_def fail_def by (auto split: sum.splits option.splits)

text \<open>Writing the slot of the one field of a name changes the plan at that name alone.\<close>

lemma slot_update:
  assumes "only existing name = Inr (Some (i, f))"
  shows "(map h existing @ tail)[i := x] = map (\<lambda>g. if field_name g = name then x else h g) existing @ tail"
proof (rule nth_equalityI)
  note o = only_Some [OF assms]
  fix j assume j: "j < length ((map h existing @ tail)[i := x])"
  show "(map h existing @ tail)[i := x] ! j = (map (\<lambda>g. if field_name g = name then x else h g) existing @ tail) ! j"
  proof (cases "j < length existing")
    case True
    then have *: "field_name (existing ! j) = name \<longleftrightarrow> j = i" using o by metis
    show ?thesis using True o(1) by (simp add: nth_append nth_list_update * del: o(2))
  next
    case False
    with o(1) j have "i \<noteq> j" by simp
    with False show ?thesis by (simp add: nth_append)
  qed
qed simp

lemma slot_name: "only existing name = Inr (Some (i, f)) \<Longrightarrow> g \<in> set existing \<Longrightarrow> field_name g = name \<Longrightarrow> g = f"
  using only_Some by (metis in_set_conv_nth)

lemma plan_remove_Inr:
  assumes "plan_remove existing name (map h existing @ tail) = Inr s'"
  shows "s' = map (\<lambda>f. if field_name f = name then None else h f) existing @ tail"
proof -
  obtain i f where r: "required_field existing name = Inr (i, f)" and s: "s' = (map h existing @ tail)[i := None]"
    using assms unfolding plan_remove_def ok_def fail_def by (auto split: sum.splits)
  show ?thesis unfolding s by (rule slot_update [OF required_Some [OF r]])
qed

lemma plan_rename_Inr:
  assumes "plan_rename existing (old, new) (map h existing @ tail) = Inr s'"
  shows "s' = map (\<lambda>f. if field_name f = old then Some (Keep f new (field_kind f)) else h f) existing @ tail"
proof -
  obtain i f where r: "required_field existing old = Inr (i, f)"
    and s: "s' = (map h existing @ tail)[i := Some (Keep f new (field_kind f))]"
    using assms unfolding plan_rename_def ok_def fail_def by (auto split: sum.splits if_splits)
  have "s' = map (\<lambda>g. if field_name g = old then Some (Keep f new (field_kind f)) else h g) existing @ tail"
    unfolding s by (rule slot_update [OF required_Some [OF r]])
  then show ?thesis using slot_name [OF required_Some [OF r]] by (simp cong: map_cong)
qed

lemma storedValue_Inr: "storedValue name kind v = Inr w \<Longrightarrow> w = stored v"
  unfolding storedValue_def stored_def ok_def fail_def by (auto split: if_splits)

definition written :: "'a ExistingField_scheme option \<Rightarrow> CustomFieldSet \<Rightarrow> 'a ExistingField_scheme PlannedField" where
  "written found s =
     Write found (set_name s)
       (case found of Some f \<Rightarrow> field_kind f | None \<Rightarrow> (case set_kind s of Some k \<Rightarrow> k | None \<Rightarrow> HiddenField)) (stored (set_value s))"

lemma plan_set_Inr:
  assumes "plan_set existing s (map h existing @ tail) = Inr s'"
  shows "s' =
    map (\<lambda>f. if field_name f = set_name s then Some (written (Some f) s) else h f) existing @
    (if set_name s \<in> field_name ` set existing then tail else tail @ [Some (written None s)])"
proof (cases "only existing (set_name s)")
  case (Inr found)
  show ?thesis
  proof (cases found)
    case None
    with Inr have "set_name s \<notin> field_name ` set existing" by (simp add: only_None)
    moreover have "s' = (map h existing @ tail) @ [Some (written None s)]"
      using assms unfolding plan_set_def Inr None Let_def written_def ok_def fail_def
      by (auto split: sum.splits if_splits dest: storedValue_Inr)
    ultimately show ?thesis by (auto intro!: map_cong) (metis imageI)
  next
    case (Some x)
    obtain i f where x: "x = (i, f)" by (cases x)
    note o = Inr [unfolded Some x]
    have "s' = (map h existing @ tail)[i := Some (written (Some f) s)]"
      using assms unfolding plan_set_def Inr Some x Let_def written_def ok_def fail_def
      by (auto split: sum.splits if_splits dest: storedValue_Inr)
    then have "s' = map (\<lambda>g. if field_name g = set_name s then Some (written (Some f) s) else h g) existing @ tail"
      by (simp add: slot_update [OF o])
    moreover have "set_name s \<in> field_name ` set existing"
      using only_Some(1-3) [OF o] by (metis imageI nth_mem)
    ultimately show ?thesis using slot_name [OF o] by (simp cong: map_cong)
  qed
qed (use assms in \<open>simp add: plan_set_def fail_def\<close>)

lemma eachOf_Cons: "eachOf step (x # xs) s = Inr s'' \<longleftrightarrow> (\<exists>s'. step x s = Inr s' \<and> eachOf step xs s' = Inr s'')"
  by (simp add: fail_def split: sum.split)

lemma eachOf_Nil: "eachOf step [] s = Inr s'' \<longleftrightarrow> s'' = s"
  by (auto simp: ok_def)

lemma eachOf_remove:
  "eachOf (plan_remove existing) names (map h existing @ tail) = Inr s' \<Longrightarrow>
   s' = map (\<lambda>f. if field_name f \<in> set names then None else h f) existing @ tail"
proof (induction names arbitrary: h)
  case (Cons name names)
  then obtain s1 where "plan_remove existing name (map h existing @ tail) = Inr s1"
    and s1: "eachOf (plan_remove existing) names s1 = Inr s'"
    unfolding eachOf_Cons by blast
  then have "s1 = map (\<lambda>f. if field_name f = name then None else h f) existing @ tail" by (intro plan_remove_Inr)
  from Cons.IH [OF s1 [unfolded this]] show ?case by auto
qed (simp add: ok_def)

lemma eachOf_rename:
  "distinct (map fst rs) \<Longrightarrow> eachOf (plan_rename existing) rs (map h existing @ tail) = Inr s' \<Longrightarrow>
   s' = map (\<lambda>f. case map_of rs (field_name f) of Some new \<Rightarrow> Some (Keep f new (field_kind f)) | None \<Rightarrow> h f) existing @ tail"
proof (induction rs arbitrary: h)
  case (Cons r rs)
  obtain old new where r: "r = (old, new)" by (cases r)
  from Cons.prems(2) obtain s1 where "plan_rename existing (old, new) (map h existing @ tail) = Inr s1"
    and s1: "eachOf (plan_rename existing) rs s1 = Inr s'"
    unfolding r eachOf_Cons by blast
  then have "s1 = map (\<lambda>f. if field_name f = old then Some (Keep f new (field_kind f)) else h f) existing @ tail"
    by (intro plan_rename_Inr)
  note IH = Cons.IH [OF _ s1 [unfolded this]]
  have "map_of rs old = None" using Cons.prems(1) by (simp add: r map_of_eq_None_iff)
  with Cons.prems(1) show ?case
    by (subst IH) (auto simp: r intro!: map_cong split: option.split)
qed (simp add: ok_def)

lemma eachOf_set:
  "distinct (map set_name ss) \<Longrightarrow> eachOf (plan_set existing) ss (map h existing @ tail) = Inr s' \<Longrightarrow>
   s' = map (\<lambda>f. case find (\<lambda>s. set_name s = field_name f) ss of Some s \<Rightarrow> Some (written (Some f) s) | None \<Rightarrow> h f) existing @
     tail @ map (\<lambda>s. Some (written None s)) (filter (\<lambda>s. set_name s \<notin> field_name ` set existing) ss)"
proof (induction ss arbitrary: h tail)
  case (Cons s ss)
  from Cons.prems(2) obtain s1 where "plan_set existing s (map h existing @ tail) = Inr s1"
    and s1: "eachOf (plan_set existing) ss s1 = Inr s'"
    unfolding eachOf_Cons by blast
  then have "s1 = map (\<lambda>f. if field_name f = set_name s then Some (written (Some f) s) else h f) existing @
    (if set_name s \<in> field_name ` set existing then tail else tail @ [Some (written None s)])"
    by (intro plan_set_Inr)
  note IH = Cons.IH [OF _ s1 [unfolded this]]
  have "find (\<lambda>t. set_name t = set_name s) ss = None"
    using Cons.prems(1) unfolding find_None_iff by simp (metis imageI)
  with Cons.prems(1) show ?case
    by (subst IH) (auto intro!: map_cong split: option.split simp: eq_commute [of "set_name s"])
qed (simp add: ok_def)


lemma plan_fields_append: "plan_fields (map h existing @ map (\<lambda>x. Some (k x)) new) = List.map_filter h existing @ map k new"
  by (induction existing) (auto simp: plan_fields_def List.map_filter_def comp_def)

lemma namedTwice_None: "namedTwice e = None \<longleftrightarrow> distinct (edited_names e)"
  by (simp add: namedTwice_def first_repeated_None)

lemma edited_names_distinct:
  assumes "distinct (edited_names e)"
  shows "distinct (map set_name (edit_set e))" "distinct (map fst (edit_rename e))"
proof -
  show "distinct (map set_name (edit_set e))" using assms by (simp add: edited_names_def)
  have "distinct (concat (map (\<lambda>(f, t). [f, t]) rs)) \<Longrightarrow> distinct (map fst rs)" for rs :: "(string \<times> string) list"
    by (induction rs) force+
  then show "distinct (map fst (edit_rename e))" using assms by (simp add: edited_names_def)
qed

text \<open>
  When the plan of an edit of an item's custom fields succeeds, it is the reference edit: every
  existing field, in its order, is removed, renamed or given its value as the edit names it and
  otherwise kept, and the fields the edit sets that the item lacks follow in the edit's order.
\<close>

theorem planFieldEdits_sound:
  assumes "planFieldEdits existing edits = ok plan"
  shows "plan = List.map_filter (edited_field edits) existing @ added_fields existing (edit_set edits)"
proof -
  from assms have d: "distinct (edited_names edits)"
    unfolding namedTwice_None [symmetric] planFieldEdits_def by (auto split: option.splits)
  obtain s1 s2 s3 where s1: "eachOf (plan_remove existing) (edit_remove edits) (new_slots existing) = Inr s1"
    and s2: "eachOf (plan_rename existing) (edit_rename edits) s1 = Inr s2"
    and s3: "eachOf (plan_set existing) (edit_set edits) s2 = Inr s3" and plan: "plan = plan_fields s3"
    using assms unfolding planFieldEdits_def by (auto simp: ok_def fail_def split: option.splits sum.splits)
  note s1' = eachOf_remove [of existing _ _ "[]", simplified, OF s1 [unfolded new_slots_def]]
  note s2' = eachOf_rename [OF edited_names_distinct(2) [OF d], of existing _ "[]", simplified, OF s2 [unfolded s1']]
  note s3' = eachOf_set [OF edited_names_distinct(1) [OF d], of existing _ "[]", simplified, OF s3 [unfolded s2']]
  have "added_fields existing (edit_set edits) =
      map (written None) (filter (\<lambda>s. set_name s \<notin> field_name ` set existing) (edit_set edits))"
    by (simp add: added_fields_def written_def)
  moreover have "(case find (\<lambda>s. set_name s = field_name f) (edit_set edits) of
        Some s \<Rightarrow> Some (written (Some f) s)
      | None \<Rightarrow> (case map_of (edit_rename edits) (field_name f) of
          Some new \<Rightarrow> Some (Keep f new (field_kind f))
        | None \<Rightarrow> if field_name f \<in> set (edit_remove edits) then None else Some (Keep f (field_name f) (field_kind f)))) =
      edited_field edits f" for f :: "'a ExistingField_scheme"
  proof (cases "find (\<lambda>s. set_name s = field_name f) (edit_set edits)")
    case (Some s)
    then have "set_name s = field_name f" by (auto simp: find_Some_iff)
    with Some show ?thesis by (simp add: edited_field_def written_def)
  qed (simp add: edited_field_def)
  ultimately show ?thesis unfolding plan s3' plan_fields_append by simp
qed

definition sample_fields :: "ExistingField list" where
  "sample_fields =
     [\<lparr>field_name = ''pin'', field_kind = HiddenField\<rparr>, \<lparr>field_name = ''note'', field_kind = TextField\<rparr>,
      \<lparr>field_name = ''old'', field_kind = TextField\<rparr>]"

definition sample_edits :: CustomFieldEdits where
  "sample_edits =
     \<lparr>edit_set = [\<lparr>set_name = ''pin'', set_value = ''42'', set_kind = None\<rparr>, \<lparr>set_name = ''url'', set_value = ''x'', set_kind = Some TextField\<rparr>],
      edit_rename = [(''note'', ''memo'')], edit_remove = [''old'']\<rparr>"

theorem planFieldEdits_sound_witness:
  "\<exists>plan. planFieldEdits sample_fields sample_edits = ok plan \<and> length plan = 3 \<and>
     plan = List.map_filter (edited_field sample_edits) sample_fields @ added_fields sample_fields (edit_set sample_edits)"
proof -
  have "\<exists>plan. planFieldEdits sample_fields sample_edits = ok plan \<and> length plan = 3"
    by (simp add: sample_fields_def sample_edits_def planFieldEdits_def namedTwice_def edited_names_def new_slots_def
        plan_remove_def plan_rename_def plan_set_def required_field_def only_def matches_def storedValue_def plan_fields_def)
  with planFieldEdits_sound [of sample_fields sample_edits] show ?thesis by blast
qed

end
