(* ===== verification/SqlRun.thy ===== *)
theory SqlRun
  imports SqlClassify Encodings VaultFields
begin

text \<open>
  The \<^verbatim>\<open>sql\<close> connector's run: \<^verbatim>\<open>src/actions/connectors/sql/schemas.ts\<close> (ports, timeouts,
  save-time checks), \<^verbatim>\<open>values.ts\<close> (rows fitted to the limits), \<^verbatim>\<open>failures.ts\<close> with
  \<^verbatim>\<open>src/net/tls-error.ts\<close> (what a driver's error means), \<^verbatim>\<open>operation.ts\<close> (the statement's own
  limits) and \<^verbatim>\<open>run.ts\<close>. The drivers behind \<^verbatim>\<open>SqlSession\<close> are a parameter: what opening a
  session, running a statement and closing it answer. A run is the list of calls it makes to
  them together with its result.
\<close>

section \<open>Schemas\<close>

definition DEFAULT_PORTS :: "SqlEngine \<Rightarrow> nat" where
  "DEFAULT_PORTS e = (case e of Mssql \<Rightarrow> 1433 | Postgres \<Rightarrow> 5432)"

definition portOf :: "SqlDestination \<Rightarrow> nat" where
  "portOf d = (case sql_port d of Some p \<Rightarrow> p | None \<Rightarrow> DEFAULT_PORTS (sql_engine d))"

definition statementTimeoutOf :: "SqlPolicy \<Rightarrow> nat" where
  "statementTimeoutOf p =
     min (case statement_timeout_ms p of Some t \<Rightarrow> t | None \<Rightarrow> timeout_ms p) (timeout_ms p)"

definition sql_endpoints :: "SqlDestination \<Rightarrow> Endpoint list" where
  "sql_endpoints d = [\<lparr>endpoint_host = sql_host d, endpoint_tls = sql_tls d \<noteq> ''disable''\<rparr>]"

datatype SqlProblem = NeedsAuthority | NotPem | AuthorityElsewhere | AddressName | WriteWithoutRead

text \<open>\<^verbatim>\<open>isPemCertificates\<close> parses X.509 with the runtime, and \<^verbatim>\<open>isIP\<close> is Node's: both are parameters.\<close>

definition tlsProblems :: "(string \<Rightarrow> bool) \<Rightarrow> SqlDestination \<Rightarrow> SqlProblem list" where
  "tlsProblems isPem d =
     (if sql_tls d = ''verify-full'' \<and> sql_ca_pem d = None then [NeedsAuthority]
      else if sql_tls d = ''verify-full'' \<and> sql_ca_pem d \<noteq> None \<and> \<not> isPem (the (sql_ca_pem d)) then [NotPem]
      else if sql_tls d = ''verify-full'' \<or> sql_ca_pem d = None then [] else [AuthorityElsewhere])"

definition addressProblems :: "(string \<Rightarrow> bool) \<Rightarrow> SqlDestination \<Rightarrow> SqlProblem list" where
  "addressProblems isIP d =
     (if sql_engine d = Mssql \<and> sql_tls d \<noteq> ''disable'' \<and> isIP (sql_host d) then [AddressName] else [])"

definition operationProblems :: "SqlPolicy \<Rightarrow> SqlProblem list" where
  "operationProblems p =
     (if OpWrite \<in> set (operations p) \<and> OpRead \<notin> set (operations p) then [WriteWithoutRead] else [])"

definition sql_saveProblems ::
  "(string \<Rightarrow> bool) \<Rightarrow> (string \<Rightarrow> bool) \<Rightarrow> SqlDestination \<Rightarrow> SqlPolicy \<Rightarrow> SqlProblem list" where
  "sql_saveProblems isPem isIP d p = tlsProblems isPem d @ addressProblems isIP d @ operationProblems p"

definition sql_allowsNonRead :: "SqlPolicy \<Rightarrow> bool" where
  "sql_allowsNonRead p \<longleftrightarrow> OpWrite \<in> set (operations p)"

section \<open>Statements\<close>

definition MAX_STATEMENT_BYTES :: nat where "MAX_STATEMENT_BYTES = 64 * 1024"

datatype StatementIssue = TooLong | HasNul | HasControl

definition statementIssues :: "string \<Rightarrow> StatementIssue list" where
  "statementIssues s =
     (if utf8_length s > MAX_STATEMENT_BYTES then [TooLong] else []) @
     (if hasNul s then [HasNul] else if hasControlCharacter s then [HasControl] else [])"

section \<open>Values\<close>

text \<open>A number is the text \<^verbatim>\<open>JSON.stringify\<close> writes for it.\<close>

datatype SqlValue = SqlText string | SqlNumber string | SqlBool bool | SqlNull | SqlBinary bytes

type_synonym SqlRow = "SqlValue list"

definition value_size :: "SqlValue \<Rightarrow> nat" where
  "value_size v =
     (case v of
        SqlBinary b \<Rightarrow> (length b + 2) div 3 * 4 + 2
      | SqlText s \<Rightarrow> utf8_length (jsonEscape s) + 2
      | SqlNumber s \<Rightarrow> utf8_length s
      | SqlBool b \<Rightarrow> (if b then 4 else 5)
      | SqlNull \<Rightarrow> 4)"

definition rowSize :: "SqlRow \<Rightarrow> nat" where
  "rowSize row = fold (\<lambda>v bytes. bytes + value_size v) row 0 + (length row - 1) + 3"

record FittedRows =
  fitted_rows :: "SqlRow list"
  fitted_truncated :: bool
  fitted_bytes :: nat

fun fit_loop :: "nat \<Rightarrow> nat \<Rightarrow> SqlRow list \<Rightarrow> nat \<Rightarrow> SqlRow list \<Rightarrow> FittedRows" where
  "fit_loop maxRows maxBytes kept bytes [] =
     \<lparr>fitted_rows = kept, fitted_truncated = False, fitted_bytes = bytes\<rparr>"
| "fit_loop maxRows maxBytes kept bytes (row # rows) =
     (let size = rowSize row in
      if length kept \<ge> maxRows \<or> bytes + size > maxBytes
      then \<lparr>fitted_rows = kept, fitted_truncated = True, fitted_bytes = bytes\<rparr>
      else fit_loop maxRows maxBytes (kept @ [row]) (bytes + size) rows)"

definition fitRows :: "SqlRow list \<Rightarrow> nat \<Rightarrow> nat \<Rightarrow> FittedRows" where
  "fitRows rows maxRows maxBytes = fit_loop maxRows maxBytes [] 0 rows"

section \<open>Failures\<close>

record DriverFault =
  codes :: "string list"
  fault_name :: string
  fault_message :: string

definition MAX_WRAPPING :: nat where "MAX_WRAPPING = 4"
definition MESSAGE_CAP :: nat where "MESSAGE_CAP = 1024"

text \<open>The loop over the wrapped errors. The message of an action error is fixed and not modelled.\<close>

fun fault_codes :: "nat \<Rightarrow> Thrown option \<Rightarrow> string list" where
  "fault_codes 0 _ = []"
| "fault_codes (Suc n) (Some (ThrownError code name message wrapped)) =
     (case code of Some c \<Rightarrow> [c] | None \<Rightarrow> []) @ fault_codes n wrapped"
| "fault_codes (Suc n) (Some (ThrownAction e)) = [code_name (error_code e)]"
| "fault_codes (Suc n) (Some (ThrownOther s)) = []"
| "fault_codes (Suc n) None = []"

definition faultOf :: "Thrown \<Rightarrow> DriverFault" where
  "faultOf error =
     (let found = fault_codes MAX_WRAPPING (Some error) in
      case error of
        ThrownError code name message wrapped \<Rightarrow> \<lparr>codes = found, fault_name = name, fault_message = message\<rparr>
      | ThrownAction e \<Rightarrow> \<lparr>codes = found, fault_name = ''ActionError'', fault_message = []\<rparr>
      | ThrownOther s \<Rightarrow> \<lparr>codes = found, fault_name = [], fault_message = s\<rparr>)"

text \<open>
  A table is a plain object, so a code that is the name of a member of \<^verbatim>\<open>Object.prototype\<close> finds that
  member: the error then carries it in place of a code of the action layer.
\<close>

datatype ReportedError = Reported ActionError | ReportedInherited string

fun first_mapped :: "(string \<rightharpoonup> ActionErrorCode) \<Rightarrow> string list \<Rightarrow> ReportedError option" where
  "first_mapped table [] = None"
| "first_mapped table (c # cs) =
     (case table c of
        Some mapped \<Rightarrow> Some (Reported (action_error mapped [(''reason'', DText c)]))
      | None \<Rightarrow> if c \<in> set OBJECT_PROTOTYPE then Some (ReportedInherited c) else first_mapped table cs)"

definition actionErrorOf :: "Thrown \<Rightarrow> (string \<rightharpoonup> ActionErrorCode) \<Rightarrow> ReportedError" where
  "actionErrorOf error table =
     (case error of
        ThrownAction e \<Rightarrow> Reported e
      | _ \<Rightarrow>
        (let fault = faultOf error in
         case find isTlsErrorCode (codes fault) of
           Some c \<Rightarrow> Reported (action_error tls_error [(''reason'', DText c)])
         | None \<Rightarrow>
            (case first_mapped table (codes fault) of
               Some e \<Rightarrow> e
             | None \<Rightarrow> Reported (action_error upstream_error [(''message'', DText (take MESSAGE_CAP (fault_message fault)))]))))"

section \<open>The run\<close>

datatype SessionMode = ReadSession | WriteSession

record SqlConnection =
  connection_host :: string
  connection_address :: string
  connection_port :: nat
  connection_database :: string
  connection_username :: string
  connection_password :: string
  connection_tls :: string
  connection_ca :: "string option"
  connection_mode :: SessionMode
  connect_timeout :: nat
  statement_timeout :: nat

record SqlRows =
  columns :: "(string \<times> string) list"
  driver_rows :: "SqlRow list"
  rowsAffected :: nat

record SqlCredential =
  username_from :: string
  password_field :: string

record SqlRunContext =
  run_request :: SqlRequest
  run_credential :: SqlCredential
  run_pinned :: "PinnedEndpoint list"
  run_injected :: InjectedValues
  run_limit :: OutputLimit

record SqlOperation =
  statement_text :: string
  params :: "SqlValue list"

record SqlOutput =
  result_columns :: "(string \<times> string) list"
  result_rows :: "SqlRow list"
  result_truncated :: bool
  result_count :: nat
  result_bytes :: nat

text \<open>The sessions of one engine: what each call answers, an error thrown being \<open>Inl\<close>.\<close>

record 's SqlDriver =
  open_session :: "SqlConnection \<Rightarrow> Thrown + 's"
  query_session :: "'s \<Rightarrow> string \<Rightarrow> SqlValue list \<Rightarrow> nat \<Rightarrow> Thrown + SqlRows"
  close_session :: "'s \<Rightarrow> Thrown option"

datatype 's SqlEvent = Connect SqlConnection | Query 's string "SqlValue list" nat | Close 's

definition loginOf :: "SqlCredential \<Rightarrow> InjectedValues \<Rightarrow> (string \<times> string, ActionError) result" where
  "loginOf credential injected =
     (case (injected_value injected (password_field credential), injected_username injected) of
        (Some password, Some username) \<Rightarrow> ok (username, password)
      | _ \<Rightarrow> fail (action_error credential_unavailable []))"

definition connectionOf :: "SqlRunContext \<Rightarrow> string \<Rightarrow> string \<times> string \<Rightarrow> SqlConnection" where
  "connectionOf context addr login =
     (let d = sql_destination (run_request context); p = sql_policy (run_request context) in
      \<lparr>connection_host = sql_host d, connection_address = addr, connection_port = portOf d,
       connection_database = sql_database d, connection_username = fst login,
       connection_password = snd login, connection_tls = sql_tls d, connection_ca = sql_ca_pem d,
       connection_mode = (if sql_tool (run_request context) = SQL_QUERY_TOOL then ReadSession else WriteSession),
       connect_timeout = timeout_ms p, statement_timeout = statementTimeoutOf p\<rparr>)"

definition sql_prepare :: "SqlRunContext \<Rightarrow> SqlOperation \<Rightarrow> (SqlConnection, ActionError) result" where
  "sql_prepare context operation =
     (case run_pinned context of
        [] \<Rightarrow> fail (action_error destination_refused [(''reason'', DText ''unpinned'')])
      | endpoint # _ \<Rightarrow>
        (case classifyStatement (statement_text operation) (sql_engine (sql_destination (run_request context))) of
           None \<Rightarrow> fail (action_error policy_denied [(''reason'', DReason RStatementCount)])
         | Some facts \<Rightarrow>
           (case bindingProblem (bound_positions facts) (length (params operation))
                   (sql_engine (sql_destination (run_request context))) of
              Some problem \<Rightarrow> fail (action_error invalid_arguments [(''problem'', DNumber (fst problem))])
            | None \<Rightarrow>
              (case loginOf (run_credential context) (run_injected context) of
                 Inl e \<Rightarrow> fail e
               | Inr login \<Rightarrow> ok (connectionOf context (pinned_address endpoint) login)))))"

definition sql_toOutput :: "SqlRunContext \<Rightarrow> SqlRows \<Rightarrow> SqlOutput" where
  "sql_toOutput context r =
     (let fitted = fitRows (driver_rows r) (max_rows (sql_policy (run_request context))) (limit_bytes (run_limit context)) in
      \<lparr>result_columns = columns r, result_rows = fitted_rows fitted, result_truncated = fitted_truncated fitted,
       result_count = (if sql_tool (run_request context) = SQL_QUERY_TOOL then length (fitted_rows fitted)
                       else rowsAffected r),
       result_bytes = fitted_bytes fitted\<rparr>)"

definition INTERNAL_FAULTS :: "string list" where
  "INTERNAL_FAULTS = [''EvalError'', ''RangeError'', ''ReferenceError'', ''SyntaxError'', ''TypeError'']"

definition sql_failureOf :: "Thrown \<Rightarrow> ActionError" where
  "sql_failureOf error =
     (case error of
        ThrownAction e \<Rightarrow> e
      | _ \<Rightarrow>
        (let fault = faultOf error; message = take MESSAGE_CAP (fault_message fault) in
         if fault_name fault \<in> set INTERNAL_FAULTS
         then action_error connector_fault [(''reason'', DText ''internal''), (''message'', DText message)]
         else action_error upstream_error [(''message'', DText message)]))"

text \<open>\<^verbatim>\<open>closeQuietly\<close>: the session is closed whatever happened, and what closing throws is only logged.\<close>

definition sql_run ::
  "(SqlEngine \<Rightarrow> 's SqlDriver) \<Rightarrow> SqlRunContext \<Rightarrow> SqlOperation \<Rightarrow> 's SqlEvent list \<times> (SqlOutput, ActionError) result" where
  "sql_run sessions context operation =
     (case sql_prepare context operation of
        Inl e \<Rightarrow> ([], fail e)
      | Inr connection \<Rightarrow>
        (let driver = sessions (sql_engine (sql_destination (run_request context))) in
         case open_session driver connection of
           Inl thrown \<Rightarrow> ([Connect connection], fail (sql_failureOf thrown))
         | Inr session \<Rightarrow>
           (let limit = max_rows (sql_policy (run_request context)) + 1 in
            ([Connect connection,
              Query session (statement_text operation) (params operation) limit,
              Close session],
             (case query_session driver session (statement_text operation) (params operation) limit of
                Inl thrown \<Rightarrow> fail (sql_failureOf thrown)
              | Inr r \<Rightarrow> ok (sql_toOutput context r))))))"

section \<open>Lemmas\<close>

lemma rowSize_sum: "rowSize row = sum_list (map value_size row) + (length row - 1) + 3"
proof -
  have "fold (\<lambda>v bytes. bytes + value_size v) row a = a + sum_list (map value_size row)" for a
    by (induction row arbitrary: a) auto
  then show ?thesis by (simp add: rowSize_def)
qed

definition rows_size :: "SqlRow list \<Rightarrow> nat" where
  "rows_size rs = sum_list (map rowSize rs)"

lemma fit_loop_spec:
  assumes "length kept \<le> n" "bytes = rows_size kept" "bytes \<le> b"
  shows "\<exists>k \<le> length rs.
    fit_loop n b kept bytes rs =
      \<lparr>fitted_rows = kept @ take k rs, fitted_truncated = (k < length rs), fitted_bytes = rows_size (kept @ take k rs)\<rparr> \<and>
    length kept + k \<le> n \<and> rows_size (kept @ take k rs) \<le> b \<and>
    (k < length rs \<longrightarrow> length kept + k = n \<or> b < rows_size (kept @ take (Suc k) rs))"
  using assms
proof (induction rs arbitrary: kept bytes)
  case Nil
  then show ?case by simp
next
  case (Cons r rs)
  show ?case
  proof (cases "n \<le> length kept \<or> b < bytes + rowSize r")
    case True
    with Cons.prems show ?thesis by (intro exI [of _ 0]) (auto simp: Let_def rows_size_def)
  next
    case False
    with Cons.prems have "length (kept @ [r]) \<le> n" "bytes + rowSize r = rows_size (kept @ [r])"
      "bytes + rowSize r \<le> b" by (simp_all add: rows_size_def)
    from Cons.IH [OF this] obtain k where "k \<le> length rs"
      "fit_loop n b (kept @ [r]) (bytes + rowSize r) rs =
        \<lparr>fitted_rows = (kept @ [r]) @ take k rs, fitted_truncated = (k < length rs),
         fitted_bytes = rows_size ((kept @ [r]) @ take k rs)\<rparr>"
      "length (kept @ [r]) + k \<le> n" "rows_size ((kept @ [r]) @ take k rs) \<le> b"
      "k < length rs \<longrightarrow> length (kept @ [r]) + k = n \<or> b < rows_size ((kept @ [r]) @ take (Suc k) rs)"
      by blast
    with False show ?thesis by (intro exI [of _ "Suc k"]) (simp add: Let_def)
  qed
qed

lemma fitRows_spec:
  "\<exists>k \<le> length rs.
     fitRows rs n b =
       \<lparr>fitted_rows = take k rs, fitted_truncated = (k < length rs), fitted_bytes = rows_size (take k rs)\<rparr> \<and>
     k \<le> n \<and> rows_size (take k rs) \<le> b \<and>
     (k < length rs \<longrightarrow> k = n \<or> b < rows_size (take (Suc k) rs))"
  using fit_loop_spec [of "[]" n 0 b rs] by (simp add: fitRows_def rows_size_def)

text \<open>A connection as the destination describes it: the name for TLS, the port, the database and the TLS mode.\<close>

definition addressed_as :: "SqlConnection \<Rightarrow> SqlDestination \<Rightarrow> bool" where
  "addressed_as c d \<longleftrightarrow>
     connection_host c = sql_host d \<and> connection_database c = sql_database d \<and>
     connection_port c = (case sql_port d of Some p \<Rightarrow> p | None \<Rightarrow> if sql_engine d = Mssql then 1433 else 5432) \<and>
     connection_tls c = sql_tls d \<and> connection_ca c = sql_ca_pem d"

lemma sql_prepare_ok:
  assumes "sql_prepare context operation = Inr connection"
  shows "\<exists>endpoint facts.
    run_pinned context \<noteq> [] \<and> endpoint = hd (run_pinned context) \<and>
    connection_address connection = pinned_address endpoint \<and>
    classifyStatement (statement_text operation) (sql_engine (sql_destination (run_request context))) = Some facts \<and>
    bindingProblem (bound_positions facts) (length (params operation)) (sql_engine (sql_destination (run_request context))) = None \<and>
    (connection_mode connection = ReadSession \<longleftrightarrow> sql_tool (run_request context) = SQL_QUERY_TOOL) \<and>
    statement_timeout connection \<le> timeout_ms (sql_policy (run_request context)) \<and>
    injected_value (run_injected context) (password_field (run_credential context)) = Some (connection_password connection) \<and>
    injected_username (run_injected context) = Some (connection_username connection) \<and>
    addressed_as connection (sql_destination (run_request context))"
  using assms unfolding sql_prepare_def
  by (auto simp: ok_def fail_def connectionOf_def Let_def statementTimeoutOf_def loginOf_def addressed_as_def portOf_def
      DEFAULT_PORTS_def split: list.splits option.splits sum.splits if_splits SqlEngine.splits)

section \<open>Properties\<close>

text \<open>
  the rows of a result are the longest run of leading rows that fits both limits: never more
  than the row limit or the byte limit, reported as truncated exactly when rows were dropped, and
  the first row dropped would have crossed a limit.
\<close>

theorem fitRows_longest_fit:
  "\<exists>k \<le> length rs.
     fitted_rows (fitRows rs n b) = take k rs \<and> fitted_bytes (fitRows rs n b) = rows_size (take k rs) \<and>
     (fitted_truncated (fitRows rs n b) \<longleftrightarrow> k < length rs) \<and>
     k \<le> n \<and> rows_size (take k rs) \<le> b \<and>
     (k = length rs \<or> k = n \<or> b < rows_size (take (Suc k) rs))"
proof -
  obtain k where "k \<le> length rs"
    "fitRows rs n b =
       \<lparr>fitted_rows = take k rs, fitted_truncated = (k < length rs), fitted_bytes = rows_size (take k rs)\<rparr>"
    "k \<le> n" "rows_size (take k rs) \<le> b" "k < length rs \<longrightarrow> k = n \<or> b < rows_size (take (Suc k) rs)"
    using fitRows_spec [of rs n b] by blast
  then show ?thesis by (intro exI [of _ k]) auto
qed

text \<open>
  C15: a run that reaches the database does so only after every check has passed: it connects to the
  pinned address under the destination's name, database and TLS settings, with the password and the
  user name that were injected; the statement is one statement whose placeholders bind the parameters
  exactly; the session is read-only if and only if the tool is \<^verbatim>\<open>sql_query\<close>. It opens one session, and
  one that opened runs exactly the agent's statement with its parameters, once and for one row more
  than the policy allows, and is then closed, whatever the driver answers; the result holds no more
  rows than the policy allows.
\<close>

theorem sql_run_guarded:
  assumes "sql_run sessions context operation = (events, result)" and "Connect connection \<in> set events"
  defines "request \<equiv> run_request context"
  shows "run_pinned context \<noteq> [] \<and> connection_address connection = pinned_address (hd (run_pinned context)) \<and>
    addressed_as connection (sql_destination request) \<and>
    injected_value (run_injected context) (password_field (run_credential context)) = Some (connection_password connection) \<and>
    injected_username (run_injected context) = Some (connection_username connection) \<and>
    (\<exists>facts. classifyStatement (statement_text operation) (sql_engine (sql_destination request)) = Some facts \<and>
       bindingProblem (bound_positions facts) (length (params operation)) (sql_engine (sql_destination request)) = None) \<and>
    (connection_mode connection = ReadSession \<longleftrightarrow> sql_tool request = SQL_QUERY_TOOL) \<and>
    events = Connect connection #
      (case open_session (sessions (sql_engine (sql_destination request))) connection of
         Inl _ \<Rightarrow> []
       | Inr session \<Rightarrow>
           [Query session (statement_text operation) (params operation) (Suc (max_rows (sql_policy request))), Close session]) \<and>
    (case result of Inl _ \<Rightarrow> True | Inr output \<Rightarrow> length (result_rows output) \<le> max_rows (sql_policy request))"
proof -
  obtain c where c: "sql_prepare context operation = Inr c" and "connection = c"
    using assms(1,2) by (auto simp: sql_run_def Let_def split: sum.splits)
  note facts = sql_prepare_ok [OF c]
  have rows: "length (result_rows (sql_toOutput context r)) \<le> max_rows (sql_policy request)" for r
    using fitRows_spec [of "driver_rows r" "max_rows (sql_policy request)" "limit_bytes (run_limit context)"]
    by (auto simp: sql_toOutput_def Let_def request_def)
  have "events = Connect c #
      (case open_session (sessions (sql_engine (sql_destination request))) c of
         Inl _ \<Rightarrow> []
       | Inr session \<Rightarrow>
           [Query session (statement_text operation) (params operation) (Suc (max_rows (sql_policy request))), Close session])"
    using assms(1) c by (auto simp: sql_run_def Let_def request_def split: sum.splits)
  moreover have "case result of Inl _ \<Rightarrow> True | Inr output \<Rightarrow> length (result_rows output) \<le> max_rows (sql_policy request)"
    using assms(1) c rows by (auto simp: sql_run_def Let_def ok_def fail_def split: sum.splits)
  ultimately show ?thesis using facts \<open>connection = c\<close> by (auto simp: request_def)
qed

text \<open>A driver to run on: it opens, answers one row and cannot close.\<close>

definition one_row_driver :: "unit SqlDriver" where
  "one_row_driver =
     \<lparr>open_session = (\<lambda>_. Inr ()), query_session = (\<lambda>_ _ _ _.
        Inr \<lparr>columns = [(''a'', ''int4'')], driver_rows = [[SqlNumber ''1'']], rowsAffected = 0\<rparr>),
      close_session = (\<lambda>_. Some (ThrownOther ''gone''))\<rparr>"

definition read_context :: SqlRunContext where
  "read_context =
     \<lparr>run_request = (write_target [])\<lparr>sql_tool := SQL_QUERY_TOOL\<rparr>,
      run_credential = \<lparr>username_from = ''login.username'', password_field = ''password''\<rparr>,
      run_pinned = [\<lparr>endpoint_host = ''db'', endpoint_tls = True, pinned_address = ''10.0.0.7''\<rparr>],
      run_injected = \<lparr>injected_value = [''password'' \<mapsto> ''s3cret''], injected_username = Some ''app''\<rparr>,
      run_limit = \<lparr>limit_bytes = 1024, limit_guard = 64\<rparr>\<rparr>"

theorem sql_run_guarded_witness:
  "connection_address (the (case fst (sql_run (\<lambda>_. one_row_driver) read_context
       \<lparr>statement_text = ''select @p1'', params = [SqlNumber ''1'']\<rparr>) of Connect c # _ \<Rightarrow> Some c | _ \<Rightarrow> None)) = ''10.0.0.7''"
proof -
  let ?run = "sql_run (\<lambda>_. one_row_driver) read_context \<lparr>statement_text = ''select @p1'', params = [SqlNumber ''1'']\<rparr>"
  have prep: "\<not> isl (sql_prepare read_context \<lparr>statement_text = ''select @p1'', params = [SqlNumber ''1'']\<rparr>)"
    by code_simp
  then obtain c where c: "sql_prepare read_context \<lparr>statement_text = ''select @p1'', params = [SqlNumber ''1'']\<rparr> = Inr c"
    by (cases "sql_prepare read_context \<lparr>statement_text = ''select @p1'', params = [SqlNumber ''1'']\<rparr>") auto
  then obtain es where es: "fst ?run = Connect c # es"
    by (simp add: sql_run_def one_row_driver_def Let_def)
  then have run: "?run = (Connect c # es, snd ?run)" by (simp add: prod_eq_iff)
  have "connection_address c = pinned_address (hd (run_pinned read_context))"
    using sql_run_guarded [OF run] by (meson list.set_intros(1))
  with es show ?thesis by (simp add: read_context_def)
qed

text \<open>
  What a driver threw, on its own terms: \<open>thrown_at k error\<close> is the error reached from it by following
  the wrapped error \<open>k\<close> times, and \<open>outermost P error c\<close> says that \<open>c\<close> is the code of the outermost of the
  first four that satisfies \<open>P\<close>.
\<close>

primrec thrown_at :: "nat \<Rightarrow> Thrown \<Rightarrow> Thrown option" where
  "thrown_at 0 error = Some error"
| "thrown_at (Suc k) error =
     (case error of ThrownError _ _ _ (Some wrapped) \<Rightarrow> thrown_at k wrapped | _ \<Rightarrow> None)"

definition carried_code :: "Thrown \<Rightarrow> string option" where
  "carried_code error =
     (case error of ThrownError code _ _ _ \<Rightarrow> code | ThrownAction e \<Rightarrow> Some (code_name (error_code e)) | ThrownOther _ \<Rightarrow> None)"

definition code_at :: "nat \<Rightarrow> Thrown \<Rightarrow> string option" where
  "code_at k error = Option.bind (thrown_at k error) carried_code"

definition outermost :: "(string \<Rightarrow> bool) \<Rightarrow> Thrown \<Rightarrow> string \<Rightarrow> bool" where
  "outermost P error c \<longleftrightarrow>
     (\<exists>k < 4. code_at k error = Some c \<and> P c \<and> (\<forall>j < k. case code_at j error of None \<Rightarrow> True | Some d \<Rightarrow> \<not> P d))"

definition message_of :: "Thrown \<Rightarrow> string" where
  "message_of error = (case error of ThrownError _ _ message _ \<Rightarrow> message | ThrownOther s \<Rightarrow> s | ThrownAction _ \<Rightarrow> [])"

text \<open>A code the table answers, of its own or by inheritance.\<close>

definition known_code :: "(string \<rightharpoonup> ActionErrorCode) \<Rightarrow> string \<Rightarrow> bool" where
  "known_code table c \<longleftrightarrow> table c \<noteq> None \<or> c \<in> set OBJECT_PROTOTYPE"

text \<open>What a failure is to be reported as under a table of known codes.\<close>

inductive reported_as :: "(string \<rightharpoonup> ActionErrorCode) \<Rightarrow> Thrown \<Rightarrow> ReportedError \<Rightarrow> bool" for table where
  PassedOn: "reported_as table (ThrownAction e) (Reported e)"
| Certificate: "outermost isTlsErrorCode error c \<Longrightarrow> \<forall>e. error \<noteq> ThrownAction e \<Longrightarrow>
    reported_as table error (Reported (action_error tls_error [(''reason'', DText c)]))"
| Known: "\<forall>c. \<not> outermost isTlsErrorCode error c \<Longrightarrow> \<forall>e. error \<noteq> ThrownAction e \<Longrightarrow>
    outermost (known_code table) error c \<Longrightarrow> table c = Some mapped \<Longrightarrow>
    reported_as table error (Reported (action_error mapped [(''reason'', DText c)]))"
| Inherited: "\<forall>c. \<not> outermost isTlsErrorCode error c \<Longrightarrow> \<forall>e. error \<noteq> ThrownAction e \<Longrightarrow>
    outermost (known_code table) error c \<Longrightarrow> table c = None \<Longrightarrow>
    reported_as table error (ReportedInherited c)"
| Upstream: "\<forall>c. \<not> outermost isTlsErrorCode error c \<Longrightarrow> \<forall>e. error \<noteq> ThrownAction e \<Longrightarrow>
    \<forall>c. \<not> outermost (known_code table) error c \<Longrightarrow>
    reported_as table error (Reported (action_error upstream_error [(''message'', DText (take 1024 (message_of error)))]))"

lemma find_codes:
  "(find P (fault_codes n (Some error)) = Some c) \<longleftrightarrow>
   (\<exists>k < n. code_at k error = Some c \<and> P c \<and> (\<forall>j < k. case code_at j error of None \<Rightarrow> True | Some d \<Rightarrow> \<not> P d))"
proof (induction n arbitrary: error)
  case (Suc n)
  have wrapped: "(\<exists>k < Suc n. code_at k e = Some c \<and> P c \<and> (\<forall>j < k. case code_at j e of None \<Rightarrow> True | Some d \<Rightarrow> \<not> P d)) \<longleftrightarrow>
      (case code_at 0 e of Some d \<Rightarrow> if P d then c = d else tail | None \<Rightarrow> tail)"
    if "tail \<longleftrightarrow> (\<exists>k < n. code_at (Suc k) e = Some c \<and> P c \<and> (\<forall>j < k. case code_at (Suc j) e of None \<Rightarrow> True | Some d \<Rightarrow> \<not> P d))"
    for e tail
    using that by (auto simp: Ex_less_Suc2 All_less_Suc2 split: option.splits)
  show ?case
  proof (cases error)
    case (ThrownError code name message w)
    show ?thesis
    proof (cases w)
      case None
      have "(\<exists>k < n. code_at (Suc k) error = Some c \<and> P c \<and> (\<forall>j < k. case code_at (Suc j) error of None \<Rightarrow> True | Some d \<Rightarrow> \<not> P d)) \<longleftrightarrow> False"
        by (simp add: ThrownError None code_at_def)
      from wrapped [of False error, OF this [symmetric]] show ?thesis
        by (cases n; cases code) (auto simp: ThrownError None code_at_def carried_code_def)
    next
      case (Some inner)
      have "code_at (Suc k) error = code_at k inner" for k by (simp add: ThrownError Some code_at_def)
      then have "(find P (fault_codes n (Some inner)) = Some c) \<longleftrightarrow>
          (\<exists>k < n. code_at (Suc k) error = Some c \<and> P c \<and> (\<forall>j < k. case code_at (Suc j) error of None \<Rightarrow> True | Some d \<Rightarrow> \<not> P d))"
        using Suc.IH [of inner] by simp
      from wrapped [OF this] show ?thesis
        by (cases code) (auto simp: ThrownError Some code_at_def carried_code_def)
    qed
  next
    case (ThrownAction e)
    have "(\<exists>k < n. code_at (Suc k) error = Some c \<and> P c \<and> (\<forall>j < k. case code_at (Suc j) error of None \<Rightarrow> True | Some d \<Rightarrow> \<not> P d)) \<longleftrightarrow> False"
      by (simp add: ThrownAction code_at_def)
    from wrapped [of False error, OF this [symmetric]] show ?thesis by (auto simp: ThrownAction code_at_def carried_code_def)
  next
    case (ThrownOther t)
    have "(\<exists>k < n. code_at (Suc k) error = Some c \<and> P c \<and> (\<forall>j < k. case code_at (Suc j) error of None \<Rightarrow> True | Some d \<Rightarrow> \<not> P d)) \<longleftrightarrow> False"
      by (simp add: ThrownOther code_at_def)
    from wrapped [of False error, OF this [symmetric]] show ?thesis by (auto simp: ThrownOther code_at_def carried_code_def)
  qed
qed simp

lemma find_faults: "(find P (codes (faultOf error)) = Some c) \<longleftrightarrow> outermost P error c"
  by (cases error) (simp_all add: faultOf_def Let_def MAX_WRAPPING_def find_codes outermost_def)

lemma find_no_fault: "(find P (codes (faultOf error)) = None) \<longleftrightarrow> (\<forall>c. \<not> outermost P error c)"
  using find_faults [of P error] by (cases "find P (codes (faultOf error))") auto

lemma first_mapped_find:
  "first_mapped table cs =
     map_option (\<lambda>c. case table c of Some mapped \<Rightarrow> Reported (action_error mapped [(''reason'', DText c)]) | None \<Rightarrow> ReportedInherited c)
       (find (known_code table) cs)"
  by (induction cs) (auto simp: known_code_def split: option.splits)

lemma actionErrorOf_eq:
  assumes "\<forall>e. error \<noteq> ThrownAction e"
  shows "actionErrorOf error table =
    (case find isTlsErrorCode (codes (faultOf error)) of
       Some c \<Rightarrow> Reported (action_error tls_error [(''reason'', DText c)])
     | None \<Rightarrow>
         (case find (known_code table) (codes (faultOf error)) of
            Some c \<Rightarrow>
              (case table c of Some mapped \<Rightarrow> Reported (action_error mapped [(''reason'', DText c)]) | None \<Rightarrow> ReportedInherited c)
          | None \<Rightarrow> Reported (action_error upstream_error [(''message'', DText (take 1024 (message_of error)))])))"
proof -
  have message: "fault_message (faultOf error) = message_of error"
    using assms by (cases error) (simp_all add: faultOf_def Let_def message_of_def)
  have "actionErrorOf error table =
      (case find isTlsErrorCode (codes (faultOf error)) of
         Some c \<Rightarrow> Reported (action_error tls_error [(''reason'', DText c)])
       | None \<Rightarrow> (case first_mapped table (codes (faultOf error)) of
           Some e \<Rightarrow> e
         | None \<Rightarrow> Reported (action_error upstream_error [(''message'', DText (take 1024 (message_of error)))])))"
    unfolding message [symmetric] actionErrorOf_def MESSAGE_CAP_def Let_def using assms by (cases error) auto
  then show ?thesis
    unfolding first_mapped_find
    by (cases "find isTlsErrorCode (codes (faultOf error))"; cases "find (known_code table) (codes (faultOf error))") simp_all
qed

text \<open>
  C17: what a failure of a driver is reported as. An action error passes through unchanged. Otherwise,
  of the error and the three it wraps, the outermost code of a certificate failure makes it a TLS error;
  without one the outermost code the table knows names it; and without either it is an upstream error
  with the message of the outermost, cut to 1024 units. (A code that is the name of a member every
  object inherits counts as known, and stands in for the error's code.)
\<close>

theorem actionErrorOf_classified: "actionErrorOf error table = r \<longleftrightarrow> reported_as table error r"
proof
  assume r: "actionErrorOf error table = r"
  show "reported_as table error r"
  proof (cases "\<exists>e. error = ThrownAction e")
    case True
    with r show ?thesis by (auto simp: actionErrorOf_def intro: PassedOn)
  next
    case False
    then have e: "\<forall>e. error \<noteq> ThrownAction e" by blast
    note eq = r [unfolded actionErrorOf_eq [OF e]]
    show ?thesis
    proof (cases "find isTlsErrorCode (codes (faultOf error))")
      case (Some c)
      with eq Certificate [OF _ e] show ?thesis using find_faults by fastforce
    next
      case tls: None
      then have t: "\<forall>c. \<not> outermost isTlsErrorCode error c" by (simp add: find_no_fault)
      show ?thesis
      proof (cases "find (known_code table) (codes (faultOf error))")
        case None
        with eq tls Upstream [OF t e, of table] show ?thesis by (simp add: find_no_fault)
      next
        case (Some c)
        with eq tls Known [OF t e, of table c] Inherited [OF t e, of table c] show ?thesis
          by (cases "table c") (simp_all add: find_faults)
      qed
    qed
  qed
next
  assume "reported_as table error r"
  then show "actionErrorOf error table = r"
  proof cases
    case (PassedOn e)
    then show ?thesis by (simp add: actionErrorOf_def)
  next
    case (Certificate c)
    then show ?thesis unfolding actionErrorOf_eq [OF Certificate(3)] by (simp flip: find_faults)
  next
    case (Known c mapped)
    then show ?thesis unfolding actionErrorOf_eq [OF Known(3)] by (simp flip: find_faults find_no_fault)
  next
    case (Inherited c)
    then show ?thesis unfolding actionErrorOf_eq [OF Inherited(3)] by (simp flip: find_faults find_no_fault)
  next
    case Upstream
    then show ?thesis unfolding actionErrorOf_eq [OF Upstream(3)] by (simp flip: find_faults find_no_fault)
  qed
qed

text \<open>A code that is the name of an inherited member is taken for a known one.\<close>

lemma inherited_code_reported:
  "actionErrorOf (ThrownError (Some ''constructor'') ''Error'' ''x'' None) (\<lambda>_. None) = ReportedInherited ''constructor''"
  by (simp add: actionErrorOf_def faultOf_def Let_def MAX_WRAPPING_def isTlsErrorCode_def TLS_PREFIXES_def
      OBJECT_PROTOTYPE_def numeral_eq_Suc)

end
