(* ===== verification/Command.thy ===== *)
theory Command
  imports Policy Actions
begin

text \<open>
  \<^verbatim>\<open>src/actions/connectors/command.ts\<close>, the half the \<^verbatim>\<open>ssh\<close> and \<^verbatim>\<open>winrm\<close> connectors share:
  what an agent may ask for (ACT-27), what an operator may save (ACT-88) and how the policy
  judges a command before anything connects (ACT-35, ACT-39), and \<^verbatim>\<open>Capture\<close> of
  \<^verbatim>\<open>src/actions/connectors/capture.ts\<close>, the bounded buffer both fill (ACT-52).
\<close>

section \<open>Commands\<close>

definition MAX_COMMAND_BYTES :: nat where "MAX_COMMAND_BYTES = 16 * 1024"

definition is_line_break :: "char \<Rightarrow> bool" where
  "is_line_break c \<longleftrightarrow> c = CHR 0x0A \<or> c = CHR 0x0D"

definition SHELL_METACHARACTERS :: "char list" where
  "SHELL_METACHARACTERS = '';&|`$<>()''"

record CommandOperation =
  command :: string
  stdin :: "string option"

record CommandPolicy =
  allowed_commands :: "string list"
  any_command :: bool

record CommandDeployment =
  allowAnyCommand :: bool

datatype CommandIssue = CommandTooLong | CommandHasNul | CommandHasControl

definition commandIssues :: "string \<Rightarrow> CommandIssue list" where
  "commandIssues s =
     (if utf8_length s > MAX_COMMAND_BYTES then [CommandTooLong] else []) @
     (if hasNul s then [CommandHasNul] else if hasControlCharacter s then [CommandHasControl] else [])"

definition has_metacharacter :: "string \<Rightarrow> bool" where
  "has_metacharacter s \<longleftrightarrow> list_ex (\<lambda>c. c \<in> set SHELL_METACHARACTERS) s"

definition unmatchablePattern :: "string list \<Rightarrow> string option" where
  "unmatchablePattern patterns = find has_metacharacter patterns"

datatype CommandPolicyProblem = BothSet | NeitherSet | Unmatchable string

definition commandPolicyProblems :: "CommandPolicy \<Rightarrow> CommandPolicyProblem list" where
  "commandPolicyProblems p =
     (if any_command p then (if allowed_commands p = [] then [] else [BothSet])
      else if allowed_commands p = [] then [NeitherSet]
      else (case unmatchablePattern (allowed_commands p) of None \<Rightarrow> [] | Some u \<Rightarrow> [Unmatchable u]))"

definition command_refusal :: "CommandPolicy \<Rightarrow> string \<Rightarrow> CommandDeployment \<Rightarrow> PolicyReason option" where
  "command_refusal p s deployment =
     (if utf8_length s > MAX_COMMAND_BYTES then Some RCommandSize
      else if any_command p then (if allowAnyCommand deployment then None else Some RCommand)
      else if list_ex is_line_break s then Some RCommand
      else if has_metacharacter s then Some RCommandMetacharacter
      else if list_ex (\<lambda>pattern. isPatternMatch pattern s CommandPattern) (allowed_commands p) then None
      else Some RCommand)"

definition authorize_command :: "CommandDeployment \<Rightarrow> CommandPolicy \<Rightarrow> CommandOperation \<Rightarrow> PolicyDecision" where
  "authorize_command deployment p operation =
     (case command_refusal p (command operation) deployment of
        None \<Rightarrow> Allowed OpShell None
      | Some reason \<Rightarrow> Denied reason)"

definition describeCommand :: "CommandPolicy \<Rightarrow> CommandOperation \<Rightarrow> string" where
  "describeCommand p operation = (if any_command p then command operation else ''command'')"

text \<open>The operations offered with the scope that reaches them, and \<^verbatim>\<open>unrestricted\<close>.\<close>

definition command_capabilities ::
  "CommandDeployment \<Rightarrow> string \<Rightarrow> CommandPolicy \<Rightarrow> (OperationKind \<times> string) list \<times> bool" where
  "command_capabilities deployment scope p =
     (let isRefused = any_command p \<and> \<not> allowAnyCommand deployment in
      (if isRefused then [] else [(OpShell, scope)], any_command p))"

section \<open>Captured output\<close>

record Capture =
  capture_limit :: nat
  capture_chunks :: "string list"
  capture_count :: nat
  capture_cut :: bool

definition new_Capture :: "nat \<Rightarrow> Capture" where
  "new_Capture limit = \<lparr>capture_limit = limit, capture_chunks = [], capture_count = 0, capture_cut = False\<rparr>"

text \<open>\<open>room \<le> 0\<close> is written \<open>limit \<le> bytes\<close>.\<close>

definition capture_add :: "Capture \<Rightarrow> string \<Rightarrow> Capture" where
  "capture_add c chunk =
     (if capture_limit c \<le> capture_count c then c\<lparr>capture_cut := True\<rparr>
      else
        (let fitted = take (capture_limit c - capture_count c) chunk in
         c\<lparr>capture_chunks := capture_chunks c @ [fitted],
           capture_count := capture_count c + length fitted,
           capture_cut := (capture_cut c \<or> length fitted < length chunk)\<rparr>))"

definition capture_bytes :: "Capture \<Rightarrow> string" where
  "capture_bytes c = concat (capture_chunks c)"

section \<open>Lemmas\<close>

definition capture_inv :: "Capture \<Rightarrow> bool" where
  "capture_inv c \<longleftrightarrow> capture_count c = length (capture_bytes c) \<and> capture_count c \<le> capture_limit c"

lemma capture_inv_new [simp]: "capture_inv (new_Capture limit)"
  by (simp add: capture_inv_def new_Capture_def capture_bytes_def)

lemma capture_add_step:
  assumes "capture_inv c"
  shows "capture_inv (capture_add c chunk)"
    and "capture_bytes (capture_add c chunk) = capture_bytes c @ take (capture_limit c - capture_count c) chunk"
    and "capture_limit (capture_add c chunk) = capture_limit c"
  using assms by (auto simp: capture_inv_def capture_add_def capture_bytes_def Let_def)

text \<open>
  The state after a run of chunks: the captured bytes are the first bytes of all of them. The
  flag is also raised by an empty chunk behind a full buffer, so it is exact up to that.
\<close>

lemma capture_fold:
  assumes "capture_inv c"
  shows "capture_inv (fold (\<lambda>chunk c. capture_add c chunk) chunks c) \<and>
    capture_bytes (fold (\<lambda>chunk c. capture_add c chunk) chunks c)
      = capture_bytes c @ take (capture_limit c - capture_count c) (concat chunks) \<and>
    (capture_cut (fold (\<lambda>chunk c. capture_add c chunk) chunks c) \<longrightarrow>
       capture_cut c \<or> capture_limit c \<le> capture_count c + length (concat chunks)) \<and>
    (capture_limit c < capture_count c + length (concat chunks) \<longrightarrow>
       capture_cut (fold (\<lambda>chunk c. capture_add c chunk) chunks c)) \<and>
    (capture_cut c \<longrightarrow> capture_cut (fold (\<lambda>chunk c. capture_add c chunk) chunks c))"
  using assms
proof (induction chunks arbitrary: c)
  case Nil
  then show ?case by (simp add: capture_inv_def)
next
  case (Cons chunk chunks)
  let ?c = "capture_add c chunk"
  note step = capture_add_step [OF Cons.prems, of chunk]
  have count: "capture_count ?c = length (capture_bytes ?c)"
    "capture_count c = length (capture_bytes c)" "capture_count c \<le> capture_limit c"
    using step(1) Cons.prems by (simp_all add: capture_inv_def)
  have cut: "capture_cut ?c \<longleftrightarrow> capture_cut c \<or> capture_limit c \<le> capture_count c \<or>
      capture_limit c < capture_count c + length chunk"
    using count(3) by (auto simp: capture_add_def Let_def)
  show ?case
    using Cons.IH [OF step(1)] step(2,3) count cut
    by (simp add: min_def) (auto split: if_splits)
qed

section \<open>Properties\<close>

text \<open>
  the flag of a deployment and the policy decide a command completely: on a target that names
  its commands, an allowed command is within the size, holds no line break and no shell
  metacharacter and matches a pattern of the list; on a target that allows any command, the
  deployment must allow that too, and turning its switch off refuses every call.
\<close>

theorem command_allowed_iff:
  "is_allowed (authorize_command deployment p operation) \<longleftrightarrow>
     utf8_length (command operation) \<le> 16384 \<and>
     (if any_command p then allowAnyCommand deployment
      else set (command operation) \<inter> {CHR 0x0A, CHR 0x0D, CHR '';'', CHR ''&'', CHR ''|'', CHR ''`'',
             CHR ''$'', CHR ''<'', CHR ''>'', CHR ''('', CHR '')''} = {} \<and>
           (\<exists>pattern \<in> set (allowed_commands p). isPatternMatch pattern (command operation) CommandPattern))"
proof -
  have meta: "has_metacharacter s \<longleftrightarrow> (\<exists>c \<in> set s. c \<in> {CHR '';'', CHR ''&'', CHR ''|'', CHR ''`'',
      CHR ''$'', CHR ''<'', CHR ''>'', CHR ''('', CHR '')''})" for s
    by (simp add: has_metacharacter_def SHELL_METACHARACTERS_def list_ex_iff)
  have brk: "list_ex is_line_break s \<longleftrightarrow> (\<exists>c \<in> set s. c \<in> {CHR 0x0A, CHR 0x0D})" for s
    by (simp add: list_ex_iff is_line_break_def)
  have "is_allowed (authorize_command deployment p operation) \<longleftrightarrow> command_refusal p (command operation) deployment = None"
    by (simp add: authorize_command_def split: option.splits)
  also have "\<dots> \<longleftrightarrow> utf8_length (command operation) \<le> 16384 \<and>
     (if any_command p then allowAnyCommand deployment
      else \<not> list_ex is_line_break (command operation) \<and> \<not> has_metacharacter (command operation) \<and>
           (\<exists>pattern \<in> set (allowed_commands p). isPatternMatch pattern (command operation) CommandPattern))"
    by (simp add: command_refusal_def MAX_COMMAND_BYTES_def list_ex_iff)
  finally show ?thesis unfolding meta brk by (cases "any_command p") (simp_all, blast)
qed

text \<open>
  what a capture keeps: after any chunks, in any split, it holds the first \<open>limit\<close> bytes of
  the stream and not one more, and when bytes were dropped it says so.
\<close>

theorem capture_keeps_prefix:
  "capture_bytes (fold (\<lambda>chunk c. capture_add c chunk) chunks (new_Capture limit)) = take limit (concat chunks) \<and>
   (limit < length (concat chunks) \<longrightarrow>
      capture_cut (fold (\<lambda>chunk c. capture_add c chunk) chunks (new_Capture limit))) \<and>
   (length (concat chunks) < limit \<longrightarrow>
      \<not> capture_cut (fold (\<lambda>chunk c. capture_add c chunk) chunks (new_Capture limit)))"
  using capture_fold [OF capture_inv_new [of limit], of chunks]
  by (auto simp: new_Capture_def capture_bytes_def)

theorem capture_keeps_prefix_witness:
  "capture_cut (fold (\<lambda>chunk c. capture_add c chunk) [''ab'', ''cd''] (new_Capture 3)) \<and>
   \<not> capture_cut (fold (\<lambda>chunk c. capture_add c chunk) [''ab'', ''cd''] (new_Capture 5))"
  using capture_keeps_prefix [of "[''ab'', ''cd'']" 3] capture_keeps_prefix [of "[''ab'', ''cd'']" 5] by simp

text \<open>
  a command policy that saves without a problem is satisfiable as written: a pattern of its
  list that holds no wildcard and no line break, and is within the size, allows the command it
  spells, on every deployment.
\<close>

theorem saved_pattern_matches:
  assumes "commandPolicyProblems p = []" and "\<not> any_command p"
    and "pattern \<in> set (allowed_commands p)" and "command operation = pattern"
    and "CHR ''*'' \<notin> set pattern" and "\<not> list_ex is_line_break pattern" and "utf8_length pattern \<le> 16384"
  shows "authorize_command deployment p operation = Allowed OpShell None"
proof -
  have "unmatchablePattern (allowed_commands p) = None"
    using assms(1,2) by (auto simp: commandPolicyProblems_def split: if_splits option.splits)
  with assms(3) have "\<not> has_metacharacter pattern"
    by (auto simp: unmatchablePattern_def find_None_iff)
  moreover have "isPatternMatch pattern pattern CommandPattern"
    using assms(5) by (simp add: isPatternMatch_glob glob_literal)
  ultimately show ?thesis using assms
    by (auto simp: authorize_command_def command_refusal_def MAX_COMMAND_BYTES_def list_ex_iff)
qed

theorem saved_pattern_matches_witness:
  "authorize_command \<lparr>allowAnyCommand = False\<rparr> \<lparr>allowed_commands = [''uptime''], any_command = False\<rparr>
     \<lparr>command = ''uptime'', stdin = None\<rparr> = Allowed OpShell None"
  by (rule saved_pattern_matches [of _ "''uptime''"])
    (simp_all add: commandPolicyProblems_def unmatchablePattern_def has_metacharacter_def
      SHELL_METACHARACTERS_def is_line_break_def utf8_length_def)

end
