(* ===== verification/HttpRequest.thy ===== *)
theory HttpRequest
  imports Policy Actions Encodings "HOL-Library.AList"
begin

text \<open>
  The \<^verbatim>\<open>http\<close> connector before the wire: \<^verbatim>\<open>src/actions/connectors/http/operation.ts\<close> (what an
  agent may ask for, ACT-20), \<^verbatim>\<open>schemas.ts\<close> (save-time checks), \<^verbatim>\<open>authorize.ts\<close> (the decision of
  ACT-39) and \<^verbatim>\<open>request.ts\<close> (the request that is sent).

  The URL class of the runtime is modelled as far as the sources use it: an origin, a path name
  and a query, and the parse of a reference that starts with a slash against a base, dot
  segments and their percent-encoded spellings included, as the URL standard says. Objects of
  headers are association lists in insertion order, updated in place.
\<close>

section \<open>URLs\<close>

record Url =
  url_origin :: string
  url_pathname :: string
  url_search :: string

text \<open>The percent-encode sets of a path and of the query of an \<^verbatim>\<open>http(s)\<close> URL.\<close>

definition path_encoded :: "char \<Rightarrow> bool" where
  "path_encoded c \<longleftrightarrow> char_code c \<le> 32 \<or> 126 < char_code c \<or> c = CHR 0x22 \<or> c \<in> set ''#<>?`{}^''"

definition query_encoded :: "char \<Rightarrow> bool" where
  "query_encoded c \<longleftrightarrow> char_code c \<le> 32 \<or> 126 < char_code c \<or> c \<in> {CHR 0x22, CHR ''#'', CHR ''<'', CHR ''>'', CHR 0x27}"

definition encode_with :: "(char \<Rightarrow> bool) \<Rightarrow> string \<Rightarrow> string" where
  "encode_with encoded s =
     concat (map (\<lambda>c. if encoded c then concat (map percent_byte (utf8_char c)) else [c]) s)"

definition url_dot :: "string \<Rightarrow> bool" where
  "url_dot segment \<longleftrightarrow> map ascii_lower segment \<in> {''.'', ''%2e''}"

definition url_dot_dot :: "string \<Rightarrow> bool" where
  "url_dot_dot segment \<longleftrightarrow> map ascii_lower segment \<in> {''..'', ''.%2e'', ''%2e.'', ''%2e%2e''}"

definition url_output :: "bool \<Rightarrow> string \<Rightarrow> string list \<Rightarrow> string list" where
  "url_output isLast segment out =
     (if url_dot_dot segment then butlast out @ (if isLast then [[]] else [])
      else if url_dot segment then out @ (if isLast then [[]] else [])
      else out @ [encode_with path_encoded segment])"

fun url_segments :: "string list \<Rightarrow> string list \<Rightarrow> string list" where
  "url_segments [] out = out"
| "url_segments (segment # rest) out = url_segments rest (url_output (rest = []) segment out)"

definition serialise_path :: "string list \<Rightarrow> string" where
  "serialise_path segments = concat (map (\<lambda>s. CHR ''/'' # s) segments)"

text \<open>
  \<^verbatim>\<open>new URL(reference, base)\<close> for a reference that starts with a slash: tabs and line breaks are
  dropped, the fragment is cut off, a backslash is a slash. \<open>None\<close> is a reference that names a
  host of its own (it starts with two slashes): no such URL is under the base.
\<close>

definition url_under :: "string \<Rightarrow> Url \<Rightarrow> Url option" where
  "url_under reference base =
     (let clean = before_first (CHR ''#'') (filter (\<lambda>c. c \<notin> {CHR 0x09, CHR 0x0A, CHR 0x0D}) reference);
          slashed = map (\<lambda>c. if c = CHR 0x5C then CHR ''/'' else c) (before_first (CHR ''?'') clean);
          query = from_first (CHR ''?'') clean
      in if prefix ''//'' slashed then None
         else Some \<lparr>url_origin = url_origin base,
           url_pathname = serialise_path (url_segments (tl (split_on (CHR ''/'') slashed)) []),
           url_search = (if length query \<le> 1 then [] else encode_with query_encoded query)\<rparr>)"

section \<open>Operations\<close>

datatype HttpMethod = GET | HEAD | POST | PUT | PATCH | DELETE | OPTIONS

text \<open>A body is a text, or a JSON value with the text \<^verbatim>\<open>JSON.stringify\<close> gives it.\<close>

datatype HttpBody = TextBody string | JsonBody string

type_synonym Headers = "(string \<times> string) list"

record HttpOperation =
  op_method :: HttpMethod
  op_path :: string
  op_headers :: "Headers option"
  op_body :: "HttpBody option"

definition MAX_PATH_BYTES :: nat where "MAX_PATH_BYTES = 2048"
definition MAX_HEADERS :: nat where "MAX_HEADERS = 32"

definition path_refused :: "char \<Rightarrow> bool" where
  "path_refused c \<longleftrightarrow> char_code c \<le> 32 \<or> (127 \<le> char_code c \<and> char_code c \<le> 160) \<or> c = CHR 0x5C \<or> c = CHR ''#''"

fun has_encoded_separator :: "string \<Rightarrow> bool" where
  "has_encoded_separator (a # b # c # cs) \<longleftrightarrow>
     a = CHR ''%'' \<and> map ascii_lower [b, c] \<in> {''2f'', ''5c''} \<or> has_encoded_separator (b # c # cs)"
| "has_encoded_separator _ \<longleftrightarrow> False"

fun has_double_slash :: "string \<Rightarrow> bool" where
  "has_double_slash (a # b # cs) \<longleftrightarrow> a = CHR ''/'' \<and> b = CHR ''/'' \<or> has_double_slash (b # cs)"
| "has_double_slash _ \<longleftrightarrow> False"

datatype PathProblem = NoSlash | PathTooLong | PathCharacter | EncodedSeparator | DotDotSegment | EmptySegment

definition pathProblem :: "string \<Rightarrow> PathProblem option" where
  "pathProblem p =
     (let pathPart = before_first (CHR ''?'') p in
      if \<not> prefix ''/'' p then Some NoSlash
      else if utf8_length p > MAX_PATH_BYTES then Some PathTooLong
      else if list_ex path_refused p then Some PathCharacter
      else if has_encoded_separator pathPart then Some EncodedSeparator
      else if ''..'' \<in> set (split_on (CHR ''/'') pathPart) then Some DotDotSegment
      else if has_double_slash pathPart then Some EmptySegment else None)"

definition is_token_char :: "char \<Rightarrow> bool" where
  "is_token_char c \<longleftrightarrow> is_word c \<or> c \<in> set ''!#$%&*+.^`|~-'' \<or> c = CHR 0x27"

definition is_header_value :: "char \<Rightarrow> bool" where
  "is_header_value c \<longleftrightarrow> c = CHR 0x09 \<or> (32 \<le> char_code c \<and> char_code c \<le> 126) \<or> 128 \<le> char_code c"

datatype HeadersProblem = TooManyHeaders | BadHeader string

definition headersProblem :: "Headers \<Rightarrow> HeadersProblem option" where
  "headersProblem headers =
     (if length headers > MAX_HEADERS then Some TooManyHeaders
      else map_option (\<lambda>(name, _). BadHeader name)
        (find (\<lambda>(name, v). \<not> (name \<noteq> [] \<and> list_all is_token_char name) \<or> \<not> list_all is_header_value v) headers))"

section \<open>Target documents\<close>

datatype HttpCredential =
    BearerMode string
  | BasicMode string string
  | HeaderMode string string "string option"
  | QueryMode string string "string option"
  | GraphMode string "string option"
  | OAuth2Mode string "string option" string string

text \<open>
  \<open>BearerMode field\<close>, \<open>BasicMode field username_from\<close>, \<open>HeaderMode field name prefix\<close>,
  \<open>QueryMode field name prefix\<close>, \<open>GraphMode secret_field refresh_token_field\<close>,
  \<open>OAuth2Mode secret_field refresh_token_field name prefix\<close>.
\<close>

record HttpDestination =
  base_url :: Url
  certificate_sha256 :: "string option"
  http_ca_pem :: "string option"

record HttpPolicy =
  allowed_methods :: "HttpMethod list"
  allowed_paths :: "string list"
  allowed_request_headers :: "string list"
  response_headers :: "string list"
  max_body_bytes :: nat
  follow_redirects :: bool
  allow_query_credentials :: bool

record HttpTarget =
  http_destination :: HttpDestination
  http_credential :: HttpCredential
  http_policy :: HttpPolicy

definition READ_METHODS :: "HttpMethod list" where
  "READ_METHODS = [GET, HEAD, OPTIONS]"

datatype FieldRole = SecretRole | UsernameRole

definition adapterCredentialFields :: "string \<Rightarrow> string option \<Rightarrow> (string \<times> FieldRole) list" where
  "adapterCredentialFields secret_field refresh =
     (case refresh of None \<Rightarrow> [(secret_field, SecretRole)]
      | Some r \<Rightarrow> [(secret_field, SecretRole), (r, SecretRole)])"

definition http_credentialFields :: "HttpCredential \<Rightarrow> (string \<times> FieldRole) list" where
  "http_credentialFields credential =
     (case credential of
        BasicMode f u \<Rightarrow> [(u, UsernameRole), (f, SecretRole)]
      | GraphMode s r \<Rightarrow> adapterCredentialFields s r
      | OAuth2Mode s r _ _ \<Rightarrow> adapterCredentialFields s r
      | BearerMode f \<Rightarrow> [(f, SecretRole)]
      | HeaderMode f _ _ \<Rightarrow> [(f, SecretRole)]
      | QueryMode f _ _ \<Rightarrow> [(f, SecretRole)])"

datatype HttpProblem =
  PinAndAuthority | PinPlain | AuthorityPlain | AuthorityNotPem | GraphElsewhere | QueryNeedsSwitch
  | PatternOutside string | PatternNotNormal string string

definition is_plain :: "Url \<Rightarrow> bool" where
  "is_plain url \<longleftrightarrow> prefix ''http:'' (url_origin url)"

definition trustProblems :: "(string \<Rightarrow> bool) \<Rightarrow> HttpDestination \<Rightarrow> HttpProblem list" where
  "trustProblems isPem d =
     (let isPinned = certificate_sha256 d \<noteq> None; hasAuthority = http_ca_pem d \<noteq> None;
          isPlain = is_plain (base_url d)
      in (if isPinned \<and> hasAuthority then [PinAndAuthority] else []) @
         (if isPinned \<and> isPlain then [PinPlain] else []) @
         (if hasAuthority \<and> isPlain then [AuthorityPlain] else []) @
         (case http_ca_pem d of None \<Rightarrow> [] | Some pem \<Rightarrow> if isPem pem then [] else [AuthorityNotPem]))"

definition GRAPH_ORIGIN :: string where "GRAPH_ORIGIN = ''https://graph.microsoft.com''"

definition graphDestinationProblems :: "Url \<Rightarrow> HttpProblem list" where
  "graphDestinationProblems base = (if url_origin base = GRAPH_ORIGIN then [] else [GraphElsewhere])"

definition pathPatternProblems :: "string \<Rightarrow> HttpProblem list" where
  "pathPatternProblems pattern =
     (case httpSubject pattern of
        None \<Rightarrow> [PatternOutside pattern]
      | Some normalised \<Rightarrow> if normalised = pattern then [] else [PatternNotNormal pattern normalised])"

definition http_saveProblems :: "(string \<Rightarrow> bool) \<Rightarrow> HttpTarget \<Rightarrow> HttpProblem list" where
  "http_saveProblems isPem t =
     trustProblems isPem (http_destination t) @
     (case http_credential t of GraphMode _ _ \<Rightarrow> graphDestinationProblems (base_url (http_destination t)) | _ \<Rightarrow> []) @
     (case http_credential t of
        QueryMode _ _ _ \<Rightarrow> if allow_query_credentials (http_policy t) then [] else [QueryNeedsSwitch]
      | _ \<Rightarrow> []) @
     concat (map pathPatternProblems (allowed_paths (http_policy t)))"

definition http_allowsNonRead :: "HttpPolicy \<Rightarrow> bool" where
  "http_allowsNonRead p \<longleftrightarrow> list_ex (\<lambda>x. x \<notin> set READ_METHODS) (allowed_methods p)"

section \<open>The request\<close>

record EncodedBody =
  body_bytes :: bytes
  body_json :: bool

record OutgoingRequest =
  out_url :: Url
  out_method :: HttpMethod
  out_headers :: Headers
  out_body :: "bytes option"

datatype Injection = HeaderInjection string string | QueryInjection string string

definition CONTENT_TYPE :: string where "CONTENT_TYPE = ''content-type''"

definition isTokenCredential :: "HttpCredential \<Rightarrow> bool" where
  "isTokenCredential c \<longleftrightarrow> (case c of GraphMode _ _ \<Rightarrow> True | OAuth2Mode _ _ _ _ \<Rightarrow> True | _ \<Rightarrow> False)"

definition encodeBody :: "HttpOperation \<Rightarrow> EncodedBody option" where
  "encodeBody operation =
     (case op_body operation of
        None \<Rightarrow> None
      | Some (TextBody s) \<Rightarrow> Some \<lparr>body_bytes = utf8_encode s, body_json = False\<rparr>
      | Some (JsonBody s) \<Rightarrow> Some \<lparr>body_bytes = utf8_encode s, body_json = True\<rparr>)"

definition basePath :: "Url \<Rightarrow> string" where
  "basePath base = rev (dropWhile (\<lambda>c. c = CHR ''/'') (rev (url_pathname base)))"

definition requestSubject :: "string \<Rightarrow> string option" where
  "requestSubject p =
     (case httpSubject p of
        None \<Rightarrow> None
      | Some s \<Rightarrow> if has_double_slash (before_first (CHR ''?'') s) then None else Some s)"

definition resolveUnderBase :: "Url \<Rightarrow> string \<Rightarrow> Url option" where
  "resolveUnderBase base s = url_under (basePath base @ s) base"

definition isUnderBase :: "Url \<Rightarrow> Url \<Rightarrow> bool" where
  "isUnderBase url base \<longleftrightarrow>
     url_origin url = url_origin base \<and>
     (url_pathname url = basePath base \<or> prefix (basePath base @ ''/'') (url_pathname url))"

definition lowerCased :: "Headers \<Rightarrow> Headers" where
  "lowerCased headers = fold (\<lambda>(name, v) acc. AList.update (map ascii_lower name) v acc) headers []"

definition basicInjection :: "string option \<Rightarrow> string \<Rightarrow> (Injection, ActionError) result" where
  "basicInjection username v =
     (case username of
        None \<Rightarrow> fail (action_error credential_unavailable [])
      | Some u \<Rightarrow> ok (HeaderInjection ''authorization'' (''Basic '' @ base64 (utf8_encode (u @ '':'' @ v)))))"

definition bearerInjection :: "string \<Rightarrow> Injection" where
  "bearerInjection v = HeaderInjection ''authorization'' (''Bearer '' @ v)"

definition tokenInjection :: "string \<times> string \<Rightarrow> string \<Rightarrow> Injection" where
  "tokenInjection header token = HeaderInjection (fst header) (snd header @ token)"

definition text_or_empty :: "string option \<Rightarrow> string" where
  "text_or_empty p = (case p of Some s \<Rightarrow> s | None \<Rightarrow> [])"

definition credential_field :: "HttpCredential \<Rightarrow> string" where
  "credential_field c =
     (case c of BearerMode f \<Rightarrow> f | BasicMode f _ \<Rightarrow> f | HeaderMode f _ _ \<Rightarrow> f | QueryMode f _ _ \<Rightarrow> f
      | GraphMode f _ \<Rightarrow> f | OAuth2Mode f _ _ _ \<Rightarrow> f)"

text \<open>For the mapped modes only; a token credential never reaches it.\<close>

definition credentialInjection :: "HttpCredential \<Rightarrow> InjectedValues \<Rightarrow> (Injection, ActionError) result" where
  "credentialInjection credential injected =
     (case injected_value injected (credential_field credential) of
        None \<Rightarrow> fail (action_error credential_unavailable [])
      | Some v \<Rightarrow>
        (case credential of
           BasicMode _ _ \<Rightarrow> basicInjection (injected_username injected) v
         | HeaderMode _ name pre \<Rightarrow> ok (HeaderInjection name (text_or_empty pre @ v))
         | QueryMode _ name pre \<Rightarrow> ok (QueryInjection name (text_or_empty pre @ v))
         | _ \<Rightarrow> ok (bearerInjection v)))"

definition inject_credential :: "Url \<Rightarrow> Headers \<Rightarrow> Injection \<Rightarrow> Url \<times> Headers" where
  "inject_credential url headers injection =
     (case injection of
        HeaderInjection name v \<Rightarrow> (url, AList.update name v headers)
      | QueryInjection name v \<Rightarrow>
          (let parameter = encodeURIComponent name @ ''='' @ encodeURIComponent v in
           (url\<lparr>url_search := (if url_search url = [] then ''?'' @ parameter else url_search url @ ''&'' @ parameter)\<rparr>,
            headers)))"

definition buildRequest :: "Url \<Rightarrow> HttpOperation \<Rightarrow> Injection \<Rightarrow> string \<Rightarrow> (OutgoingRequest, ActionError) result" where
  "buildRequest base operation injection version =
     (case Option.bind (requestSubject (op_path operation)) (resolveUnderBase base) of
        None \<Rightarrow> fail (action_error policy_denied [(''reason'', DReason RPath)])
      | Some url \<Rightarrow>
        (if \<not> isUnderBase url base then fail (action_error policy_denied [(''reason'', DReason RPath)])
         else
          (let body = encodeBody operation;
               headers = lowerCased (case op_headers operation of Some h \<Rightarrow> h | None \<Rightarrow> []);
               typed = (if (case body of Some b \<Rightarrow> body_json b | None \<Rightarrow> False) \<and> map_of headers CONTENT_TYPE = None
                        then AList.update CONTENT_TYPE ''application/json'' headers else headers);
               agent = AList.update ''user-agent'' (''vaultgate/'' @ version) typed;
               injected = inject_credential url agent injection
           in ok \<lparr>out_url = fst injected, out_method = op_method operation, out_headers = snd injected,
                   out_body = map_option body_bytes body\<rparr>)))"

section \<open>Authorisation\<close>

definition FORBIDDEN_HEADERS :: "string list" where
  "FORBIDDEN_HEADERS =
     [''authorization'', ''cookie'', ''host'', ''transfer-encoding'', ''content-length'', ''user-agent'']"

definition injectedHeaderName :: "HttpCredential \<Rightarrow> string option" where
  "injectedHeaderName credential =
     (case credential of
        HeaderMode _ name _ \<Rightarrow> Some name
      | OAuth2Mode _ _ name _ \<Rightarrow> Some name
      | QueryMode _ _ _ \<Rightarrow> None
      | _ \<Rightarrow> Some ''authorization'')"

definition isForbiddenHeader :: "string \<Rightarrow> HttpCredential \<Rightarrow> bool" where
  "isForbiddenHeader name credential \<longleftrightarrow>
     name \<in> set FORBIDDEN_HEADERS \<or> prefix ''proxy-'' name \<or> Some name = injectedHeaderName credential"

definition isPathAllowed :: "HttpPolicy \<Rightarrow> string \<Rightarrow> bool" where
  "isPathAllowed p requested =
     (case requestSubject requested of
        None \<Rightarrow> False
      | Some s \<Rightarrow> list_ex (\<lambda>pattern. isPatternMatch pattern s PathPattern) (allowed_paths p))"

definition areHeadersAllowed :: "HttpPolicy \<Rightarrow> Headers \<Rightarrow> HttpCredential \<Rightarrow> bool" where
  "areHeadersAllowed p headers credential \<longleftrightarrow>
     list_all (\<lambda>name. \<not> isForbiddenHeader name credential \<and> name \<in> set (allowed_request_headers p))
       (map (\<lambda>h. map ascii_lower (fst h)) headers)"

definition authorize_http :: "HttpTarget \<Rightarrow> HttpOperation \<Rightarrow> PolicyDecision" where
  "authorize_http t operation =
     (let p = http_policy t in
      if op_method operation \<notin> set (allowed_methods p) then Denied RMethod
      else if \<not> isPathAllowed p (op_path operation) then Denied RPath
      else if \<not> areHeadersAllowed p (case op_headers operation of Some h \<Rightarrow> h | None \<Rightarrow> []) (http_credential t)
      then Denied RHeader
      else if (case encodeBody operation of None \<Rightarrow> False | Some b \<Rightarrow> length (body_bytes b) > max_body_bytes p)
      then Denied RBodySize
      else Allowed (if op_method operation \<in> set READ_METHODS then OpRead else OpWrite) None)"

definition http_capabilities :: "HttpPolicy \<Rightarrow> OperationKind list" where
  "http_capabilities p = map (\<lambda>x. if x \<in> set READ_METHODS then OpRead else OpWrite) (allowed_methods p)"

section \<open>Lemmas\<close>

subsection \<open>What decoding can bring into a subject\<close>

lemma ascii_upper_hex_unreserved: "is_hex a \<Longrightarrow> is_unreserved (ascii_upper a)"
  by (auto simp: ascii_upper_def is_hex_def is_unreserved_def char_class_defs)

lemma decodeUnreserved_set:
  "c \<in> set (decodeUnreserved s) \<Longrightarrow> c \<in> set s \<or> is_unreserved c \<or> c = CHR ''%''"
proof (induction s rule: decodeUnreserved.induct)
  case (2 x xs)
  show ?case
  proof (cases "is_escape x xs")
    case True
    then obtain a b rest where xs: "xs = a # b # rest" and h: "is_hex a" "is_hex b"
      by (cases xs; cases "tl xs") (auto simp: is_escape_def)
    have "c \<in> set (decode_escape a b) \<Longrightarrow> is_unreserved c \<or> c = CHR ''%''"
      using ascii_upper_hex_unreserved [OF h(1)] ascii_upper_hex_unreserved [OF h(2)]
      by (auto simp: decode_escape_def Let_def split: if_splits)
    with "2.IH"(1) [OF True] "2.prems" True xs show ?thesis by auto
  next
    case False
    with 2 show ?thesis by auto
  qed
qed simp

lemma removeDotSegments_set:
  assumes "prefix ''/'' p" and "c \<in> set (path (removeDotSegments p))"
  shows "c = CHR ''/'' \<or> c \<in> set p"
proof -
  obtain out where out: "path (removeDotSegments p) = CHR ''/'' # join_with (CHR ''/'') out"
    and mem: "\<And>x. x \<in> set out \<Longrightarrow> x = [] \<or> x \<in> set (tl (split_on (CHR ''/'') p))"
    using removeDotSegments_path [OF assms(1)] by metis
  from assms(2) consider "c = CHR ''/''" | x where "x \<in> set out" "c \<in> set x"
    unfolding out using join_with_set by fastforce
  then show ?thesis
  proof cases
    case 2
    with mem [OF 2(1)] have "x \<in> set (split_on (CHR ''/'') p)"
      by (metis empty_iff empty_set list.set_sel(2) split_on_not_Nil)
    with 2 split_on_set show ?thesis by fastforce
  qed simp
qed

lemma before_first_subset: "set (before_first d s) \<subseteq> set s" "set (from_first d s) \<subseteq> set s"
  by (auto simp: before_first_def from_first_def dest: set_takeWhileD set_dropWhileD)

lemma httpSubject_set:
  assumes "httpSubject p = Some s" and "c \<in> set s"
  shows "c \<in> set p \<or> is_unreserved c \<or> c = CHR ''%'' \<or> c = CHR ''/''"
proof -
  let ?d = "decodeUnreserved (before_first (CHR ''?'') p)"
  from assms have p: "prefix ''/'' p" and s: "s = path (normalise p)"
    by (auto simp: httpSubject_def Let_def split: if_splits)
  have d: "prefix ''/'' ?d" using p by (auto simp: prefix_def before_first_def is_escape_def)
  have "c \<in> set (path (removeDotSegments ?d)) \<or> c \<in> set (decodeUnreserved (from_first (CHR ''?'') p))"
    using assms(2) s by (simp add: normalise_def Let_def)
  then show ?thesis
    using removeDotSegments_set [OF d] decodeUnreserved_set before_first_subset [of "CHR ''?''" p] by blast
qed

text \<open>The characters \<open>pathProblem\<close> refuses stay out of the subject.\<close>

lemma subject_clean:
  assumes "pathProblem p = None" and "httpSubject p = Some s"
    and "c = CHR 0x09 \<or> c = CHR 0x0A \<or> c = CHR 0x0D \<or> c = CHR ''#'' \<or> c = CHR 0x5C"
  shows "c \<notin> set s"
proof
  assume "c \<in> set s"
  have "path_refused c" using assms(3) by (auto simp: path_refused_def char_class_defs)
  then have "c \<notin> set p" using assms(1) by (auto simp: pathProblem_def Let_def list_ex_iff split: if_splits)
  moreover have "\<not> is_unreserved c" "c \<noteq> CHR ''%''" "c \<noteq> CHR ''/''"
    using assms(3) by (auto simp: is_unreserved_def char_class_defs)
  ultimately show False using httpSubject_set [OF assms(2) \<open>c \<in> set s\<close>] by blast
qed

subsection \<open>Paths of URLs\<close>

lemma serialise_join: "segments \<noteq> [] \<Longrightarrow> serialise_path segments = CHR ''/'' # join_with (CHR ''/'') segments"
proof (induction segments)
  case (Cons s segments)
  then show ?case by (cases segments) (simp_all add: serialise_path_def)
qed simp

lemma encode_with_append: "encode_with f (s @ t) = encode_with f s @ encode_with f t"
  by (simp add: encode_with_def)

lemma encode_with_join:
  "\<not> f d \<Longrightarrow> encode_with f (join_with d xs) = join_with d (map (encode_with f) xs)"
  by (induction d xs rule: join_with.induct) (simp_all add: encode_with_def)

lemma encode_with_plain: "\<forall>c \<in> set s. \<not> f c \<Longrightarrow> encode_with f s = s"
  by (induction s) (simp_all add: encode_with_def)

lemma url_segments_plain:
  "\<forall>x \<in> set segments. \<not> url_dot x \<and> \<not> url_dot_dot x \<Longrightarrow>
   url_segments segments out = out @ map (encode_with path_encoded) segments"
  by (induction segments out rule: url_segments.induct) (auto simp: url_output_def)

text \<open>What the URL class guarantees of a path name: parsed, dot-free and encoded.\<close>

definition no_dots :: "string \<Rightarrow> bool" where
  "no_dots p \<longleftrightarrow> (\<forall>x \<in> set (split_on (CHR ''/'') p). \<not> url_dot x \<and> \<not> url_dot_dot x)"

definition url_ok :: "Url \<Rightarrow> bool" where
  "url_ok url \<longleftrightarrow> prefix ''/'' (url_pathname url) \<and> no_dots (url_pathname url) \<and>
     (\<forall>c \<in> set (url_pathname url). \<not> path_encoded c \<and> c \<noteq> CHR 0x5C)"

lemma basePath_decomp: "\<exists>n. url_pathname base = basePath base @ replicate n (CHR ''/'')"
proof -
  let ?r = "rev (url_pathname base)"
  have "\<forall>c \<in> set (takeWhile (\<lambda>c. c = CHR ''/'') ?r). c = CHR ''/''"
    by (auto dest: set_takeWhileD)
  then have "takeWhile (\<lambda>c. c = CHR ''/'') ?r = replicate (length (takeWhile (\<lambda>c. c = CHR ''/'') ?r)) (CHR ''/'')"
    by (metis replicate_length_same)
  then have "?r = replicate (length (takeWhile (\<lambda>c. c = CHR ''/'') ?r)) (CHR ''/'') @ dropWhile (\<lambda>c. c = CHR ''/'') ?r"
    by (metis takeWhile_dropWhile_id)
  then have "url_pathname base = rev (replicate (length (takeWhile (\<lambda>c. c = CHR ''/'') ?r)) (CHR ''/'')
      @ dropWhile (\<lambda>c. c = CHR ''/'') ?r)" by (metis rev_rev_ident)
  then show ?thesis by (auto simp: basePath_def)
qed

lemma basePath_ok:
  assumes "url_ok base"
  shows "no_dots (basePath base)" and "\<forall>c \<in> set (basePath base). \<not> path_encoded c \<and> c \<noteq> CHR 0x5C"
    and "basePath base = [] \<or> (\<exists>t. basePath base = CHR ''/'' # t)"
proof -
  obtain n where n: "url_pathname base = basePath base @ replicate n (CHR ''/'')" using basePath_decomp by blast
  have split: "set (split_on (CHR ''/'') (basePath base)) \<subseteq> set (split_on (CHR ''/'') (url_pathname base))"
    using n by (cases n) (simp_all add: split_on_append)
  show "no_dots (basePath base)" using assms split by (auto simp: url_ok_def no_dots_def)
  show "\<forall>c \<in> set (basePath base). \<not> path_encoded c \<and> c \<noteq> CHR 0x5C"
    using assms n by (auto simp: url_ok_def)
  show "basePath base = [] \<or> (\<exists>t. basePath base = CHR ''/'' # t)"
    using assms n by (cases "basePath base") (auto simp: url_ok_def prefix_def)
qed

lemma before_first_absent: "d \<notin> set s \<Longrightarrow> before_first d s = s"
  by (auto simp: before_first_def)

text \<open>The characters the parser drops or cuts at.\<close>

definition parser_chars :: "char set" where
  "parser_chars = {CHR 0x09, CHR 0x0A, CHR 0x0D, CHR ''#'', CHR 0x5C}"

lemma parser_chars_in:
  "c \<in> {CHR 0x09, CHR 0x0A, CHR 0x0D} \<Longrightarrow> c \<in> parser_chars" "CHR ''#'' \<in> parser_chars" "CHR 0x5C \<in> parser_chars"
  by (auto simp: parser_chars_def)

lemma parser_chars_encoded: "c \<in> insert (CHR ''?'') parser_chars \<Longrightarrow> path_encoded c \<or> c = CHR 0x5C"
  unfolding parser_chars_def by (elim insertE emptyE) (simp_all add: path_encoded_def char_class_defs)

text \<open>The whole of the parse, for a subject that holds nothing the parser rewrites.\<close>

lemma resolve_plain:
  assumes "url_ok base" and "resolveUnderBase base s = Some url" and "prefix ''/'' s"
    and clean: "set s \<inter> parser_chars = {}"
    and "no_dots (before_first (CHR ''?'') s)"
  shows "url_pathname url = basePath base @ encode_with path_encoded (before_first (CHR ''?'') s)"
proof -
  let ?b = "basePath base" and ?p = "before_first (CHR ''?'') s"
  note base = basePath_ok [OF assms(1)]
  have plain: "set ?b \<inter> insert (CHR ''?'') parser_chars = {}"
  proof -
    have "c \<notin> set ?b" if "c \<in> insert (CHR ''?'') parser_chars" for c
      using base(2) parser_chars_encoded [OF that] by auto
    then show ?thesis by auto
  qed
  have both: "set (?b @ s) \<inter> parser_chars = {}" using clean plain unfolding set_append by blast
  have f1: "filter (\<lambda>c. c \<notin> {CHR 0x09, CHR 0x0A, CHR 0x0D}) (?b @ s) = ?b @ s"
  proof (rule filter_True, rule ballI)
    fix c assume "c \<in> set (?b @ s)"
    with both have "c \<notin> parser_chars" by auto
    then show "c \<notin> {CHR 0x09, CHR 0x0A, CHR 0x0D}" using parser_chars_in(1) by metis
  qed
  have f2: "before_first (CHR ''#'') (?b @ s) = ?b @ s"
    using both parser_chars_in(2) by (intro before_first_absent) auto
  have f3: "before_first (CHR ''?'') (?b @ s) = ?b @ ?p"
    using plain by (intro before_first_append) auto
  have f4: "map (\<lambda>c. if c = CHR 0x5C then CHR ''/'' else c) (?b @ ?p) = ?b @ ?p"
  proof (rule map_idI)
    fix c assume "c \<in> set (?b @ ?p)"
    then have "c \<in> set (?b @ s)" using before_first_subset(1) [of "CHR ''?''" s] by auto
    with both parser_chars_in(3) have "c \<noteq> CHR 0x5C" by auto
    then show "(if c = CHR 0x5C then CHR ''/'' else c) = c" by simp
  qed
  have "resolveUnderBase base s =
      (if prefix ''//'' (?b @ ?p) then None
       else Some \<lparr>url_origin = url_origin base,
         url_pathname = serialise_path (url_segments (tl (split_on (CHR ''/'') (?b @ ?p))) []),
         url_search = (if length (from_first (CHR ''?'') (?b @ s)) \<le> 1 then []
           else encode_with query_encoded (from_first (CHR ''?'') (?b @ s)))\<rparr>)"
    unfolding resolveUnderBase_def url_under_def Let_def f1 f2 f3 f4 by (rule refl)
  with assms(2) have url: "url_pathname url = serialise_path (url_segments (tl (split_on (CHR ''/'') (?b @ ?p))) [])"
    by (cases "prefix ''//'' (?b @ ?p)") (simp_all only: if_True if_False option.inject option.distinct, auto)
  obtain q where q: "?p = CHR ''/'' # q"
    using assms(3) by (auto simp: prefix_def before_first_def)
  have split: "split_on (CHR ''/'') (?b @ ?p) = split_on (CHR ''/'') ?b @ split_on (CHR ''/'') q"
    unfolding q by (rule split_on_append)
  have q_dots: "no_dots q" using assms(5) by (simp add: no_dots_def q)
  have b_tl: "set (tl (split_on (CHR ''/'') ?b)) \<subseteq> set (split_on (CHR ''/'') ?b)"
    by (auto dest: list.set_sel(2) [OF split_on_not_Nil])
  have segs: "url_segments (tl (split_on (CHR ''/'') (?b @ ?p))) []
      = map (encode_with path_encoded) (tl (split_on (CHR ''/'') ?b)) @ map (encode_with path_encoded) (split_on (CHR ''/'') q)"
    unfolding split tl_append2 [OF split_on_not_Nil] using base(1) q_dots b_tl
    by (subst url_segments_plain) (auto simp: no_dots_def)
  have enc_b: "map (encode_with path_encoded) (tl (split_on (CHR ''/'') ?b)) = tl (split_on (CHR ''/'') ?b)"
  proof (rule map_idI)
    fix x assume "x \<in> set (tl (split_on (CHR ''/'') ?b))"
    then have "set x \<subseteq> set ?b" using b_tl split_on_set [of x "CHR ''/''" ?b] by auto
    with base(2) show "encode_with path_encoded x = x" by (intro encode_with_plain) auto
  qed
  have ser_b: "serialise_path (tl (split_on (CHR ''/'') ?b)) = ?b"
  proof (cases "?b = []")
    case False
    with base(3) obtain t where t: "?b = CHR ''/'' # t" by auto
    then show ?thesis by (simp add: serialise_join)
  qed (simp add: serialise_path_def)
  have ser_q: "serialise_path (map (encode_with path_encoded) (split_on (CHR ''/'') q)) = encode_with path_encoded ?p"
  proof -
    have slash: "\<not> path_encoded (CHR ''/'')" by (simp add: path_encoded_def char_class_defs)
    have "encode_with path_encoded q = join_with (CHR ''/'') (map (encode_with path_encoded) (split_on (CHR ''/'') q))"
      using encode_with_join [where f = path_encoded and d = "CHR ''/''" and xs = "split_on (CHR ''/'') q"] slash
      by simp
    with slash show ?thesis unfolding q by (simp add: serialise_join encode_with_def)
  qed
  show ?thesis unfolding url segs enc_b using ser_b ser_q by (simp add: serialise_path_def)
qed

lemma buildRequest_Inr:
  assumes "buildRequest base operation injection version = Inr r"
  shows "\<exists>s url. requestSubject (op_path operation) = Some s \<and> resolveUnderBase base s = Some url \<and>
    isUnderBase url base \<and> url_origin (out_url r) = url_origin url \<and> url_pathname (out_url r) = url_pathname url \<and>
    out_method r = op_method operation"
  using assms unfolding buildRequest_def inject_credential_def
  by (auto simp: ok_def fail_def Let_def bind_eq_Some_conv split: option.splits if_splits Injection.splits)

lemma update_set: "(n, v) \<in> set (AList.update k w al) \<Longrightarrow> (n = k \<and> v = w) \<or> (n, v) \<in> set al"
  by (induction al) (auto split: if_splits)

lemma lowerCased_set:
  assumes "(n, v) \<in> set (lowerCased headers)"
  shows "\<exists>h \<in> set headers. n = map ascii_lower (fst h)"
proof -
  have "(n, v) \<in> set (fold (\<lambda>(name, v) acc. AList.update (map ascii_lower name) v acc) headers acc) \<Longrightarrow>
      (n, v) \<in> set acc \<or> (\<exists>h \<in> set headers. n = map ascii_lower (fst h))" for acc
    by (induction headers arbitrary: acc) (fastforce dest: update_set)+
  from this [of "[]"] assms show ?thesis by (simp add: lowerCased_def)
qed

lemma buildRequest_headers:
  assumes "buildRequest base operation injection version = Inr r" and "(n, v) \<in> set (out_headers r)"
  shows "injection = HeaderInjection n v \<or> (n = ''user-agent'' \<and> v = ''vaultgate/'' @ version) \<or>
    (n = CONTENT_TYPE \<and> v = ''application/json'') \<or>
    (\<exists>h \<in> set (case op_headers operation of Some h \<Rightarrow> h | None \<Rightarrow> []). n = map ascii_lower (fst h))"
proof -
  define hs where "hs = (case op_headers operation of Some h \<Rightarrow> h | None \<Rightarrow> [])"
  have agent: "(n, v) \<in> set (AList.update ''user-agent'' w (if b then AList.update CONTENT_TYPE j (lowerCased hs) else lowerCased hs)) \<Longrightarrow>
      (n = ''user-agent'' \<and> v = w) \<or> (n = CONTENT_TYPE \<and> v = j) \<or> (\<exists>h \<in> set hs. n = map ascii_lower (fst h))" for w b j
    using lowerCased_set by (fastforce dest!: update_set split: if_splits)
  obtain url where url: "Option.bind (requestSubject (op_path operation)) (resolveUnderBase base) = Some url"
    using assms(1) unfolding buildRequest_def by (cases "Option.bind (requestSubject (op_path operation)) (resolveUnderBase base)") (auto simp: fail_def)
  then have under: "isUnderBase url base"
    using assms(1) unfolding buildRequest_def by (cases "isUnderBase url base") (auto simp: fail_def)
  define b where "b \<longleftrightarrow> (case encodeBody operation of Some b \<Rightarrow> body_json b | None \<Rightarrow> False) \<and>
    map_of (lowerCased hs) CONTENT_TYPE = None"
  have "out_headers r = snd (inject_credential url (AList.update ''user-agent'' (''vaultgate/'' @ version)
      (if b then AList.update CONTENT_TYPE ''application/json'' (lowerCased hs) else lowerCased hs)) injection)"
    using assms(1) under unfolding buildRequest_def url option.case Let_def
      hs_def [symmetric] b_def [symmetric] ok_def sum.inject by auto
  with assms(2) have "injection = HeaderInjection n v \<or>
      (n, v) \<in> set (AList.update ''user-agent'' (''vaultgate/'' @ version)
      (if b then AList.update CONTENT_TYPE ''application/json'' (lowerCased hs) else lowerCased hs))"
    by (cases injection) (auto simp: inject_credential_def Let_def simp del: append.simps dest: update_set)
  with agent show ?thesis unfolding hs_def [symmetric] by blast
qed

section \<open>Properties\<close>

text \<open>
  C10: every request that is built stays under \<^verbatim>\<open>base_url\<close>: same origin, and the path is the base's
  or continues it behind a slash; it keeps the method the policy judged.
\<close>

theorem request_under_base:
  assumes "buildRequest base operation injection version = Inr r"
  shows "url_origin (out_url r) = url_origin base \<and> out_method r = op_method operation \<and>
    (url_pathname (out_url r) = basePath base \<or>
     (\<exists>rest. url_pathname (out_url r) = basePath base @ ''/'' @ rest))"
  using buildRequest_Inr [OF assms] by (auto simp: isUnderBase_def prefix_def)

text \<open>
  for a path without percent-encoded dot segments the policy judges exactly the path the wire
  sees: when the operation parses, is allowed and a request is built, the path of its URL is the
  base's path followed by the path of a subject that matches one of the target's patterns.
\<close>

theorem wire_path_is_judged_path:
  assumes "pathProblem (op_path operation) = None"
    and "is_allowed (authorize_http target operation)"
    and "buildRequest (base_url (http_destination target)) operation injection version = Inr r"
    and "url_ok (base_url (http_destination target))"
    and "\<And>s. requestSubject (op_path operation) = Some s \<Longrightarrow> no_dots (before_first (CHR ''?'') s)"
  shows "\<exists>s. requestSubject (op_path operation) = Some s \<and>
    (\<exists>pattern \<in> set (allowed_paths (http_policy target)). isPatternMatch pattern s PathPattern) \<and>
    url_pathname (out_url r) =
      basePath (base_url (http_destination target)) @ encode_with path_encoded (before_first (CHR ''?'') s)"
proof -
  obtain s url where s: "requestSubject (op_path operation) = Some s"
    and url: "resolveUnderBase (base_url (http_destination target)) s = Some url"
    and out: "url_pathname (out_url r) = url_pathname url"
    using buildRequest_Inr [OF assms(3)] by blast
  from assms(2) s have pattern: "\<exists>pattern \<in> set (allowed_paths (http_policy target)). isPatternMatch pattern s PathPattern"
    by (auto simp: authorize_http_def Let_def isPathAllowed_def list_ex_iff split: if_splits)
  from s have h: "httpSubject (op_path operation) = Some s"
    by (auto simp: requestSubject_def split: option.splits if_splits)
  then have slash: "prefix ''/'' s"
    by (auto simp: httpSubject_def normalise_def removeDotSegments_def Let_def split: if_splits prod.splits)
  have "set s \<inter> parser_chars = {}"
    using subject_clean [OF assms(1) h] by (auto simp: parser_chars_def)
  from resolve_plain [OF assms(4) url slash this assms(5) [OF s]] s pattern out show ?thesis by auto
qed

definition public_target :: HttpTarget where
  "public_target =
     \<lparr>http_destination = \<lparr>base_url = \<lparr>url_origin = ''https://h'', url_pathname = ''/api/'', url_search = []\<rparr>,
        certificate_sha256 = None, http_ca_pem = None\<rparr>,
      http_credential = BearerMode ''token'',
      http_policy = \<lparr>allowed_methods = [GET], allowed_paths = [''/public/**''],
        allowed_request_headers = [''accept''], response_headers = [], max_body_bytes = 0,
        follow_redirects = False, allow_query_credentials = False\<rparr>\<rparr>"

definition public_get :: "string \<Rightarrow> HttpOperation" where
  "public_get p = \<lparr>op_method = GET, op_path = p, op_headers = Some [(''Accept'', ''*'')], op_body = None\<rparr>"

theorem wire_path_is_judged_path_witness:
  "\<exists>r. buildRequest (base_url (http_destination public_target)) (public_get ''/public/%61?q'') (bearerInjection ''t'') ''1'' = Inr r
     \<and> url_pathname (out_url r) = ''/api/public/a''"
proof -
  have "\<not> isl (buildRequest (base_url (http_destination public_target)) (public_get ''/public/%61?q'') (bearerInjection ''t'') ''1'')"
    by code_simp
  then obtain r where r: "buildRequest (base_url (http_destination public_target)) (public_get ''/public/%61?q'') (bearerInjection ''t'') ''1'' = Inr r"
    by (cases "buildRequest (base_url (http_destination public_target)) (public_get ''/public/%61?q'') (bearerInjection ''t'') ''1''") auto
  have path: "pathProblem (op_path (public_get ''/public/%61?q'')) = None" by code_simp
  have allowed: "is_allowed (authorize_http public_target (public_get ''/public/%61?q''))" by code_simp
  have base: "url_ok (base_url (http_destination public_target))" by code_simp
  have subject: "requestSubject (op_path (public_get ''/public/%61?q'')) = Some ''/public/a?q''" by code_simp
  have dots: "no_dots (before_first (CHR ''?'') ''/public/a?q'')" by code_simp
  have enc: "basePath (base_url (http_destination public_target)) @ encode_with path_encoded (before_first (CHR ''?'') ''/public/a?q'')
      = ''/api/public/a''" by code_simp
  have "url_pathname (out_url r) = ''/api/public/a''"
    using wire_path_is_judged_path [OF path allowed r base] subject dots enc by auto
  with r show ?thesis by auto
qed

theorem request_under_base_witness:
  "\<exists>r. buildRequest (base_url (http_destination public_target)) (public_get ''/public/x'') (bearerInjection ''t'') ''1'' = Inr r
     \<and> url_origin (out_url r) = ''https://h''"
proof -
  have "\<not> isl (buildRequest (base_url (http_destination public_target)) (public_get ''/public/x'') (bearerInjection ''t'') ''1'')"
    by code_simp
  then obtain r where r: "buildRequest (base_url (http_destination public_target)) (public_get ''/public/x'') (bearerInjection ''t'') ''1'' = Inr r"
    by (cases "buildRequest (base_url (http_destination public_target)) (public_get ''/public/x'') (bearerInjection ''t'') ''1''") auto
  have "url_origin (base_url (http_destination public_target)) = ''https://h''" by (simp add: public_target_def)
  with request_under_base [OF r] r show ?thesis by auto
qed

text \<open>
  Percent decoding runs once and can leave an encoded dot segment behind: \<open>%%32%65\<close> decodes to
  \<open>%2e\<close>. The subject \<open>/public/%2e%2e/admin\<close> matches \<open>/public/**\<close>, and the URL parser reads it as
  \<open>/admin\<close>: an operation that parses and that the policy allows reaches a path the policy does not.
\<close>

lemma encoded_dots_bypass_policy:
  "pathProblem (op_path (public_get ''/public/%%32%65%%32%65/admin'')) = None \<and>
   is_allowed (authorize_http public_target (public_get ''/public/%%32%65%%32%65/admin'')) \<and>
   map_option url_pathname (Option.bind (requestSubject ''/public/%%32%65%%32%65/admin'')
     (resolveUnderBase (base_url (http_destination public_target)))) = Some ''/api/admin'' \<and>
   \<not> is_allowed (authorize_http public_target (public_get ''/admin''))"
  by code_simp

text \<open>
  an agent cannot set a header that is not its own: every header of a request the policy
  allowed is the injected credential, vaultgate's user agent, the content type of a JSON body or
  one the policy lists, and none of the agent's is a forbidden header or the one the credential
  occupies.
\<close>

theorem agent_headers_confined:
  assumes "is_allowed (authorize_http target operation)"
    and "buildRequest base operation injection version = Inr r" and "(n, v) \<in> set (out_headers r)"
  shows "injection = HeaderInjection n v \<or> (n = ''user-agent'' \<and> v = ''vaultgate/'' @ version) \<or>
    (n = ''content-type'' \<and> v = ''application/json'') \<or>
    (n \<in> set (allowed_request_headers (http_policy target)) \<and>
     n \<notin> {''authorization'', ''cookie'', ''host'', ''transfer-encoding'', ''content-length'', ''user-agent''} \<and>
     \<not> prefix ''proxy-'' n \<and> injectedHeaderName (http_credential target) \<noteq> Some n)"
proof -
  have "\<forall>h \<in> set (case op_headers operation of Some h \<Rightarrow> h | None \<Rightarrow> []).
      map ascii_lower (fst h) \<in> set (allowed_request_headers (http_policy target)) \<and>
      \<not> isForbiddenHeader (map ascii_lower (fst h)) (http_credential target)"
    using assms(1) by (auto simp: authorize_http_def Let_def areHeadersAllowed_def list_all_iff split: if_splits)
  then have agent: "n \<in> set (allowed_request_headers (http_policy target)) \<and> \<not> isForbiddenHeader n (http_credential target)"
    if "\<exists>h \<in> set (case op_headers operation of Some h \<Rightarrow> h | None \<Rightarrow> []). n = map ascii_lower (fst h)"
    using that by blast
  have forbidden: "isForbiddenHeader n (http_credential target) \<longleftrightarrow>
      n \<in> {''authorization'', ''cookie'', ''host'', ''transfer-encoding'', ''content-length'', ''user-agent''} \<or>
      prefix ''proxy-'' n \<or> injectedHeaderName (http_credential target) = Some n"
    unfolding isForbiddenHeader_def FORBIDDEN_HEADERS_def by (simp only: list.set eq_commute [of "Some n"])
  show ?thesis
    using buildRequest_headers [OF assms(2,3)] agent unfolding forbidden CONTENT_TYPE_def by meson
qed

theorem agent_headers_confined_witness:
  "\<exists>r. buildRequest (base_url (http_destination public_target)) (public_get ''/public/x'') (bearerInjection ''t'') ''1'' = Inr r
     \<and> (\<forall>v. (''cookie'', v) \<notin> set (out_headers r))"
proof -
  have "\<not> isl (buildRequest (base_url (http_destination public_target)) (public_get ''/public/x'') (bearerInjection ''t'') ''1'')"
    by code_simp
  then obtain r where r: "buildRequest (base_url (http_destination public_target)) (public_get ''/public/x'') (bearerInjection ''t'') ''1'' = Inr r"
    by (cases "buildRequest (base_url (http_destination public_target)) (public_get ''/public/x'') (bearerInjection ''t'') ''1''") auto
  have "is_allowed (authorize_http public_target (public_get ''/public/x''))" by code_simp
  from agent_headers_confined [OF this r] have "(''cookie'', v) \<notin> set (out_headers r)" for v
    by (auto simp: bearerInjection_def)
  with r show ?thesis by auto
qed

end
