(* ===== verification/HttpRun.thy ===== *)
theory HttpRun
  imports HttpRequest
begin

text \<open>
  The \<^verbatim>\<open>http\<close> connector on the wire: \<^verbatim>\<open>src/actions/connectors/http/run.ts\<close> (hops, the credential
  in its injection point, the one retry of a stale token) and \<^verbatim>\<open>response.ts\<close> (what comes back,
  ACT-21, and what a failure to reach the destination means). The transport, the token service
  and the parse of a \<^verbatim>\<open>location\<close> header are parameters; the first two act on a world \<open>'w\<close> of
  their own, so they may answer each call differently. A run lists the requests it sends.
\<close>

section \<open>Responses\<close>

text \<open>Header names are lower case, as the \<^verbatim>\<open>Headers\<close> class looks them up.\<close>

record Response =
  status :: nat
  response_header :: "string \<Rightarrow> string option"
  response_body :: bytes

text \<open>\<^verbatim>\<open>isUtf8\<close>: the well-formed byte sequences of the Unicode standard, table 3-7.\<close>

definition between :: "nat \<Rightarrow> nat \<Rightarrow> char \<Rightarrow> bool" where
  "between a b c \<longleftrightarrow> a \<le> char_code c \<and> char_code c \<le> b"

fun isUtf8 :: "bytes \<Rightarrow> bool" where
  "isUtf8 [] = True"
| "isUtf8 (a # rest) =
     (if char_code a < 128 then isUtf8 rest
      else if between 0xC2 0xDF a then (case rest of b # r \<Rightarrow> between 0x80 0xBF b \<and> isUtf8 r | _ \<Rightarrow> False)
      else if between 0xE0 0xEF a then
        (case rest of b # c # r \<Rightarrow>
           between (if char_code a = 0xE0 then 0xA0 else 0x80) (if char_code a = 0xED then 0x9F else 0xBF) b \<and>
           between 0x80 0xBF c \<and> isUtf8 r
         | _ \<Rightarrow> False)
      else if between 0xF0 0xF4 a then
        (case rest of b # c # d # r \<Rightarrow>
           between (if char_code a = 0xF0 then 0x90 else 0x80) (if char_code a = 0xF4 then 0x8F else 0xBF) b \<and>
           between 0x80 0xBF c \<and> between 0x80 0xBF d \<and> isUtf8 r
         | _ \<Rightarrow> False)
      else False)"

definition TEXT_MEDIA_TYPES :: "string list" where
  "TEXT_MEDIA_TYPES =
     [''application/json'', ''application/xml'', ''application/javascript'', ''application/x-www-form-urlencoded'']"

definition isText :: "string option \<Rightarrow> bytes \<Rightarrow> bool" where
  "isText contentType bs =
     (case contentType of
        None \<Rightarrow> isUtf8 bs
      | Some t \<Rightarrow>
        (let media = map ascii_lower (trim (before_first (CHR '';'') t));
             isTextual = prefix ''text/'' media \<or> media \<in> set TEXT_MEDIA_TYPES \<or>
               suffix ''+json'' media \<or> suffix ''+xml'' media
         in isTextual \<and> isUtf8 bs))"

definition visibleHeaders :: "(string \<Rightarrow> string option) \<Rightarrow> string list \<Rightarrow> Headers" where
  "visibleHeaders get names =
     concat (map (\<lambda>name. case get name of None \<Rightarrow> [] | Some v \<Rightarrow> [(name, v)]) names)"

record HttpOutput =
  output_status :: nat
  output_headers :: Headers
  output_count :: nat
  output_body :: bytes
  output_base64 :: bool

definition http_toOutput :: "Response \<Rightarrow> bytes \<Rightarrow> HttpPolicy \<Rightarrow> HttpOutput" where
  "http_toOutput response raw p =
     \<lparr>output_status = status response,
      output_headers = visibleHeaders (response_header response) (response_headers p),
      output_count = length raw, output_body = raw,
      output_base64 = (\<not> isText (response_header response ''content-type'') raw)\<rparr>"

definition errorCode :: "Thrown \<Rightarrow> string" where
  "errorCode error =
     (case error of
        ThrownError (Some code) _ _ _ \<Rightarrow> code
      | ThrownError None name _ _ \<Rightarrow> name
      | ThrownAction e \<Rightarrow> code_name (error_code e)
      | ThrownOther _ \<Rightarrow> ''unknown'')"

definition transportFailure :: "Thrown \<Rightarrow> bool \<Rightarrow> ActionError" where
  "transportFailure error aborted =
     (let code = errorCode error in
      if code = ''AbortError'' \<or> aborted then action_error timeout []
      else action_error (if isTlsErrorCode code then tls_error else connection_failed) [(''reason'', DText code)])"

section \<open>Hops\<close>

definition MAX_HOPS :: nat where "MAX_HOPS = 2"

definition REDIRECT_STATUSES :: "nat list" where "REDIRECT_STATUSES = [301, 302, 303, 307, 308]"

definition hopMethod :: "nat \<Rightarrow> HttpMethod \<Rightarrow> HttpMethod" where
  "hopMethod s previous =
     (if s = 303 then (if previous = HEAD then HEAD else GET)
      else if previous = POST \<and> s \<in> {301, 302} then GET else previous)"

definition withoutContentType :: "Headers \<Rightarrow> Headers" where
  "withoutContentType headers = filter (\<lambda>(name, _). name \<noteq> ''content-type'') headers"

definition nextHop ::
  "(string \<Rightarrow> Url \<Rightarrow> Url option) \<Rightarrow> Response \<Rightarrow> OutgoingRequest \<Rightarrow> Url \<Rightarrow> Injection \<Rightarrow> OutgoingRequest option" where
  "nextHop parseLocation response previous base injection =
     (case response_header response ''location'' of
        None \<Rightarrow> None
      | Some location \<Rightarrow>
        (if status response \<notin> set REDIRECT_STATUSES then None
         else (case parseLocation location (out_url previous) of
           None \<Rightarrow> None
         | Some target \<Rightarrow>
           (if \<not> isUnderBase target base then None
            else
             (let newMethod = hopMethod (status response) (out_method previous);
                  keepsBody = (newMethod = out_method previous);
                  headers = (if keepsBody then out_headers previous else withoutContentType (out_headers previous));
                  injected = inject_credential target headers injection
              in Some \<lparr>out_url = fst injected, out_method = newMethod, out_headers = snd injected,
                   out_body = (if keepsBody then out_body previous else None)\<rparr>)))))"

section \<open>The run\<close>

text \<open>A pinned request: the request and the address it goes to.\<close>

type_synonym Sent = "OutgoingRequest \<times> string"

record 'w HttpWorld =
  transport :: "Sent \<Rightarrow> 'w \<Rightarrow> (Thrown + Response) \<times> 'w"
  accessToken :: "bool \<Rightarrow> 'w \<Rightarrow> (string, ActionError) result \<times> 'w"
  isAborted :: "'w \<Rightarrow> bool"
  parse_location :: "string \<Rightarrow> Url \<Rightarrow> Url option"

record HttpRunContext =
  http_target :: HttpTarget
  http_pinned :: "PinnedEndpoint list"
  http_injected :: InjectedValues
  http_limit :: OutputLimit
  token_header :: "string \<times> string"
  agent_version :: string

text \<open>The loop over the hops: \<open>fuel\<close> is \<^verbatim>\<open>MAX_HOPS - hops\<close>, and the requests sent come out in order.\<close>

fun follow ::
  "'w HttpWorld \<Rightarrow> HttpRunContext \<Rightarrow> string \<Rightarrow> Injection \<Rightarrow> nat \<Rightarrow> OutgoingRequest \<Rightarrow> Response \<Rightarrow> 'w
   \<Rightarrow> (Thrown + Response) \<times> 'w \<times> Sent list" where
  "follow W context addr injection 0 request response w = (Inr response, w, [])"
| "follow W context addr injection (Suc n) request response w =
     (if \<not> follow_redirects (http_policy (http_target context)) then (Inr response, w, [])
      else
       (case nextHop (parse_location W) response request (base_url (http_destination (http_target context))) injection of
          None \<Rightarrow> (Inr response, w, [])
        | Some hop \<Rightarrow>
          (case transport W (hop, addr) w of
             (Inl thrown, w') \<Rightarrow> (Inl thrown, w', [(hop, addr)])
           | (Inr r, w') \<Rightarrow>
             (case follow W context addr injection n hop r w' of
                (outcome, w'', sent) \<Rightarrow> (outcome, w'', (hop, addr) # sent)))))"

definition exchange ::
  "'w HttpWorld \<Rightarrow> HttpRunContext \<Rightarrow> string \<Rightarrow> OutgoingRequest \<Rightarrow> Injection \<Rightarrow> 'w
   \<Rightarrow> (Thrown + Response) \<times> 'w \<times> Sent list" where
  "exchange W context addr first injection w =
     (case transport W (first, addr) w of
        (Inl thrown, w') \<Rightarrow> (Inl thrown, w', [(first, addr)])
      | (Inr response, w') \<Rightarrow>
        (case follow W context addr injection MAX_HOPS first response w' of
           (outcome, w'', sent) \<Rightarrow> (outcome, w'', (first, addr) # sent)))"

definition injectionFor ::
  "'w HttpWorld \<Rightarrow> HttpRunContext \<Rightarrow> bool \<Rightarrow> 'w \<Rightarrow> (Injection, ActionError) result \<times> 'w" where
  "injectionFor W context isRetry w =
     (let credential = http_credential (http_target context) in
      if \<not> isTokenCredential credential then (credentialInjection credential (http_injected context), w)
      else (case accessToken W isRetry w of
          (Inl e, w') \<Rightarrow> (fail e, w')
        | (Inr token, w') \<Rightarrow> (ok (tokenInjection (token_header context) token), w')))"

definition isStaleToken :: "HttpRunContext \<Rightarrow> Response \<Rightarrow> bool" where
  "isStaleToken context response \<longleftrightarrow>
     status response = 401 \<and> isTokenCredential (http_credential (http_target context))"

text \<open>An attempt fails with a refusal of its own (\<open>Inl (Inl e)\<close>) or with what was thrown.\<close>

definition http_attempt ::
  "'w HttpWorld \<Rightarrow> HttpRunContext \<Rightarrow> string \<Rightarrow> HttpOperation \<Rightarrow> bool \<Rightarrow> 'w
   \<Rightarrow> ((ActionError + Thrown) + Response) \<times> 'w \<times> Sent list" where
  "http_attempt W context addr operation isRetry w =
     (case injectionFor W context isRetry w of
        (Inl e, w') \<Rightarrow> (Inl (Inl e), w', [])
      | (Inr injection, w') \<Rightarrow>
        (case buildRequest (base_url (http_destination (http_target context))) operation injection (agent_version context) of
           Inl e \<Rightarrow> (Inl (Inl e), w', [])
         | Inr first \<Rightarrow>
           (case exchange W context addr first injection w' of
              (Inl thrown, w'', sent) \<Rightarrow> (Inl (Inr thrown), w'', sent)
            | (Inr response, w'', sent) \<Rightarrow> (Inr response, w'', sent))))"

text \<open>\<^verbatim>\<open>readBodyCapped\<close>: no more than the limit and the guard band of the body is read.\<close>

definition readResponse :: "HttpRunContext \<Rightarrow> Response \<Rightarrow> HttpOutput" where
  "readResponse context response =
     http_toOutput response
       (take (limit_bytes (http_limit context) + limit_guard (http_limit context)) (response_body response))
       (http_policy (http_target context))"

definition settle ::
  "'w HttpWorld \<Rightarrow> HttpRunContext \<Rightarrow> (ActionError + Thrown) + Response \<Rightarrow> 'w \<Rightarrow> (HttpOutput, ActionError) result" where
  "settle W context outcome w =
     (case outcome of
        Inl (Inl e) \<Rightarrow> fail e
      | Inl (Inr thrown) \<Rightarrow> fail (transportFailure thrown (isAborted W w))
      | Inr response \<Rightarrow> ok (readResponse context response))"

definition http_run ::
  "'w HttpWorld \<Rightarrow> HttpRunContext \<Rightarrow> HttpOperation \<Rightarrow> 'w \<Rightarrow> (HttpOutput, ActionError) result \<times> 'w \<times> Sent list" where
  "http_run W context operation w =
     (case http_pinned context of
        [] \<Rightarrow> (fail (action_error destination_refused [(''reason'', DText ''unpinned'')]), w, [])
      | endpoint # _ \<Rightarrow>
        (case http_attempt W context (pinned_address endpoint) operation False w of
           (Inr response, w', sent) \<Rightarrow>
             (if isStaleToken context response
              then (case http_attempt W context (pinned_address endpoint) operation True w' of
                      (outcome, w'', sent') \<Rightarrow> (settle W context outcome w'', w'', sent @ sent'))
              else (ok (readResponse context response), w', sent))
         | (Inl refused, w', sent) \<Rightarrow> (settle W context (Inl refused) w', w', sent)))"

section \<open>Lemmas\<close>

lemma isUnderBase_inject: "isUnderBase (fst (inject_credential url headers injection)) base = isUnderBase url base"
  by (cases injection) (simp_all add: inject_credential_def isUnderBase_def Let_def)

lemma nextHop_under:
  "nextHop parse response previous base injection = Some hop \<Longrightarrow> isUnderBase (out_url hop) base"
  by (auto simp: nextHop_def Let_def isUnderBase_inject split: option.splits if_splits)

lemma follow_sent:
  "follow W ctx addr injection n request response w = (outcome, w', sent) \<Longrightarrow>
   length sent \<le> n \<and> (follow_redirects (http_policy (http_target ctx)) \<or> sent = []) \<and>
   (\<forall>(q, a) \<in> set sent. a = addr \<and> isUnderBase (out_url q) (base_url (http_destination (http_target ctx))))"
proof (induction W ctx addr injection n request response w arbitrary: outcome w' sent rule: follow.induct)
  case (2 W ctx addr injection n request response w)
  show ?case
  proof (cases "follow_redirects (http_policy (http_target ctx))")
    case True
    show ?thesis
    proof (cases "nextHop (parse_location W) response request (base_url (http_destination (http_target ctx))) injection")
      case None
      with True "2.prems" show ?thesis by simp
    next
      case (Some hop)
      obtain answer w1 where t: "transport W (hop, addr) w = (answer, w1)" by (cases "transport W (hop, addr) w")
      show ?thesis
      proof (cases answer)
        case (Inl thrown)
        with True Some t "2.prems" nextHop_under [OF Some] show ?thesis by auto
      next
        case (Inr r)
        obtain o2 w2 s2 where f: "follow W ctx addr injection n hop r w1 = (o2, w2, s2)"
          by (cases "follow W ctx addr injection n hop r w1") auto
        have "length s2 \<le> n \<and> (\<forall>(q, a) \<in> set s2. a = addr \<and> isUnderBase (out_url q) (base_url (http_destination (http_target ctx))))"
          using "2.IH" [OF _ Some _ Inr f] True t Inr by auto
        moreover have "sent = (hop, addr) # s2" using True Some t Inr f "2.prems" by simp
        ultimately show ?thesis using nextHop_under [OF Some] True by auto
      qed
    qed
  qed (use "2.prems" in simp)
qed simp

lemma http_attempt_sent:
  assumes "http_attempt W context addr operation isRetry w = (outcome, w', sent)"
  shows "length sent \<le> 3 \<and> (follow_redirects (http_policy (http_target context)) \<or> length sent \<le> 1) \<and>
    (\<forall>(q, a) \<in> set sent. a = addr \<and> isUnderBase (out_url q) (base_url (http_destination (http_target context))))"
proof -
  let ?base = "base_url (http_destination (http_target context))"
  obtain inj w1 where i: "injectionFor W context isRetry w = (inj, w1)" by (cases "injectionFor W context isRetry w")
  show ?thesis
  proof (cases inj)
    case (Inl e)
    with i assms show ?thesis by (simp add: http_attempt_def)
  next
    case inj: (Inr injection)
    show ?thesis
    proof (cases "buildRequest ?base operation injection (agent_version context)")
      case (Inl e)
      with i inj assms show ?thesis by (simp add: http_attempt_def)
    next
      case first: (Inr first)
      have under: "isUnderBase (out_url first) ?base"
        using buildRequest_Inr [OF first] by (auto simp: isUnderBase_def)
      obtain answer w2 where t: "transport W (first, addr) w1 = (answer, w2)" by (cases "transport W (first, addr) w1")
      show ?thesis
      proof (cases answer)
        case (Inl thrown)
        with i inj first t assms under show ?thesis by (auto simp: http_attempt_def exchange_def)
      next
        case (Inr r)
        obtain o3 w3 s3 where f: "follow W context addr injection MAX_HOPS first r w2 = (o3, w3, s3)"
          by (cases "follow W context addr injection MAX_HOPS first r w2") auto
        have "sent = (first, addr) # s3"
          using i inj first t Inr f assms by (auto simp: http_attempt_def exchange_def split: sum.splits)
        with under follow_sent [OF f] show ?thesis by (auto simp: MAX_HOPS_def)
      qed
    qed
  qed
qed

section \<open>Properties\<close>

text \<open>
  C14: whatever the destination answers, every request of a run goes to the pinned address and stays
  under \<^verbatim>\<open>base_url\<close>, redirect hops included, so the credential never leaves it; there are at most
  three requests, six with the retry of a stale token, and exactly one per attempt when the policy
  does not follow redirects.
\<close>

theorem http_run_stays_pinned:
  assumes "http_run W context operation w = (outcome, w', sent)"
  shows "(\<forall>(q, a) \<in> set sent. http_pinned context \<noteq> [] \<and> a = pinned_address (hd (http_pinned context)) \<and>
      isUnderBase (out_url q) (base_url (http_destination (http_target context)))) \<and>
    length sent \<le> (if isTokenCredential (http_credential (http_target context)) then 6 else 3) \<and>
    (follow_redirects (http_policy (http_target context)) \<or>
     length sent \<le> (if isTokenCredential (http_credential (http_target context)) then 2 else 1))"
proof (cases "http_pinned context")
  case Nil
  with assms show ?thesis by (simp add: http_run_def)
next
  case (Cons endpoint rest)
  obtain o1 w1 s1 where a1: "http_attempt W context (pinned_address endpoint) operation False w = (o1, w1, s1)"
    by (cases "http_attempt W context (pinned_address endpoint) operation False w") auto
  note sent1 = http_attempt_sent [OF a1]
  show ?thesis
  proof (cases "\<exists>response. o1 = Inr response \<and> isStaleToken context response")
    case False
    then have "sent = s1" using Cons a1 assms by (auto simp: http_run_def split: sum.splits)
    with sent1 Cons show ?thesis by auto
  next
    case True
    obtain o2 w2 s2 where a2: "http_attempt W context (pinned_address endpoint) operation True w1 = (o2, w2, s2)"
      by (cases "http_attempt W context (pinned_address endpoint) operation True w1") auto
    have "sent = s1 @ s2" using True Cons a1 a2 assms by (auto simp: http_run_def)
    moreover have "isTokenCredential (http_credential (http_target context))"
      using True by (auto simp: isStaleToken_def)
    ultimately show ?thesis using sent1 http_attempt_sent [OF a2] Cons by auto
  qed
qed

text \<open>A destination that answers every request with a redirect, first under the base and then elsewhere.\<close>

definition redirecting :: "nat HttpWorld" where
  "redirecting =
     \<lparr>transport = (\<lambda>_ n. (Inr \<lparr>status = 302, response_header = [''location'' \<mapsto> ''x''], response_body = []\<rparr>, Suc n)),
      accessToken = (\<lambda>_ n. (Inr ''t'', n)), isAborted = (\<lambda>_. False),
      parse_location = (\<lambda>_ url. Some (url\<lparr>url_origin := (if url_pathname url = ''/api/public/x'' then ''https://h'' else ''https://evil''),
        url_pathname := ''/api/public/y''\<rparr>))\<rparr>"

definition redirect_context :: HttpRunContext where
  "redirect_context =
     \<lparr>http_target = public_target\<lparr>http_policy := (http_policy public_target)\<lparr>follow_redirects := True\<rparr>\<rparr>,
      http_pinned = [\<lparr>endpoint_host = ''h'', endpoint_tls = True, pinned_address = ''10.0.0.9''\<rparr>],
      http_injected = \<lparr>injected_value = [''token'' \<mapsto> ''s3cret''], injected_username = None\<rparr>,
      http_limit = \<lparr>limit_bytes = 10, limit_guard = 2\<rparr>, token_header = ([], []), agent_version = ''1''\<rparr>"

theorem http_run_stays_pinned_witness:
  "list_all (\<lambda>(q, a). a = ''10.0.0.9'' \<and> url_origin (out_url q) = ''https://h'')
     (snd (snd (http_run redirecting redirect_context (public_get ''/public/x'') 0)))"
proof -
  let ?run = "http_run redirecting redirect_context (public_get ''/public/x'') 0"
  have "?run = (fst ?run, fst (snd ?run), snd (snd ?run))" by simp
  from http_run_stays_pinned [OF this] show ?thesis
    by (auto simp: list_all_iff redirect_context_def public_target_def isUnderBase_def)
qed

end
