(* ===== verification/RateLimit.thy ===== *)
theory RateLimit
  imports Prelude Complex_Main
begin

text \<open>
  \<^verbatim>\<open>src/net/rate-limit.ts\<close>, the limiters every surface shares (OPS-6, T21), and
  \<^verbatim>\<open>src/actions/limits.ts\<close>, the four limits of a call (ACT-59). Time is in milliseconds and is
  passed to each operation. A \<^verbatim>\<open>Map\<close> is its list of entries in insertion order, so the coldest
  key comes first; tokens are rational, where the code has doubles. The interface a limiter
  offers to what counts on it is the locale \<open>budget\<close>.
\<close>

section \<open>The bounded map\<close>

definition MAX_KEYS :: nat where "MAX_KEYS = 10000"
definition COLD_BATCH :: nat where "COLD_BATCH = 4"

type_synonym 'v RecentMap = "(string \<times> 'v) list"

definition recent_put :: "string \<Rightarrow> 'v \<Rightarrow> 'v RecentMap \<Rightarrow> 'v RecentMap" where
  "recent_put key v m =
     (let others = filter (\<lambda>e. fst e \<noteq> key) m
      in drop (length others + 1 - MAX_KEYS) others @ [(key, v)])"

definition forgetCold :: "('v \<Rightarrow> bool) \<Rightarrow> 'v RecentMap \<Rightarrow> 'v RecentMap" where
  "forgetCold isStale m = filter (\<lambda>e. \<not> isStale (snd e)) (take COLD_BATCH m) @ drop COLD_BATCH m"

section \<open>The token bucket\<close>

record Bucket =
  tokens :: rat
  refilledAt :: int
  bucket_limit :: nat

datatype RateLimitDecision = Admitted | Refused (retryAfterSeconds: int)

definition refilled :: "nat \<Rightarrow> Bucket \<Rightarrow> int \<Rightarrow> nat \<Rightarrow> Bucket" where
  "refilled windowMs bucket now limit =
     (let elapsed = max 0 (now - refilledAt bucket) in
      \<lparr>tokens = min (of_nat limit) (tokens bucket + of_int elapsed * of_nat limit / of_nat windowMs),
       refilledAt = now, bucket_limit = limit\<rparr>)"

definition take_token :: "nat \<Rightarrow> Bucket RecentMap \<Rightarrow> string \<Rightarrow> nat \<Rightarrow> int \<Rightarrow> RateLimitDecision \<times> Bucket RecentMap" where
  "take_token windowMs buckets key limit now =
     (let warm = forgetCold (\<lambda>b. of_nat (bucket_limit b) \<le> tokens (refilled windowMs b now (bucket_limit b))) buckets;
          bucket = refilled windowMs
            (case map_of warm key of
               Some b \<Rightarrow> b | None \<Rightarrow> \<lparr>tokens = of_nat limit, refilledAt = now, bucket_limit = limit\<rparr>) now limit
      in if 1 \<le> tokens bucket then (Admitted, recent_put key (bucket\<lparr>tokens := tokens bucket - 1\<rparr>) warm)
         else
          (let waitMs = (1 - tokens bucket) * of_nat windowMs / of_nat limit
           in (Refused (max 1 \<lceil>waitMs / 1000\<rceil>), recent_put key bucket warm)))"

section \<open>The fixed window\<close>

record Window =
  startedAt :: int
  count :: nat

definition isLive :: "nat \<Rightarrow> Window \<Rightarrow> int \<Rightarrow> bool" where
  "isLive windowMs w now \<longleftrightarrow> startedAt w + int windowMs > now"

definition hit :: "nat \<Rightarrow> nat \<Rightarrow> Window RecentMap \<Rightarrow> string \<Rightarrow> int \<Rightarrow> RateLimitDecision \<times> Window RecentMap" where
  "hit limit windowMs windows key now =
     (let warm = forgetCold (\<lambda>w. \<not> isLive windowMs w now) windows;
          existing = (case map_of warm key of
            Some w \<Rightarrow> if isLive windowMs w now then w else \<lparr>startedAt = now, count = 0\<rparr>
          | None \<Rightarrow> \<lparr>startedAt = now, count = 0\<rparr>);
          counted = existing\<lparr>count := count existing + 1\<rparr>;
          windows' = recent_put key counted warm
      in if count counted \<le> limit then (Admitted, windows')
         else (Refused \<lceil>of_int (startedAt counted + int windowMs - now) / (1000 :: rat)\<rceil>, windows'))"

section \<open>Calls in flight\<close>

text \<open>A handle is the closure \<^verbatim>\<open>enter\<close> returns: its key and its \<^verbatim>\<open>isReleased\<close>.\<close>

record InFlight =
  counts :: "string \<Rightarrow> nat option"
  handles :: "(string \<times> bool) list"

definition flight_count :: "InFlight \<Rightarrow> string \<Rightarrow> nat" where
  "flight_count f key = (case counts f key of Some n \<Rightarrow> n | None \<Rightarrow> 0)"

definition flight_enter :: "InFlight \<Rightarrow> string \<Rightarrow> nat \<times> InFlight" where
  "flight_enter f key =
     (length (handles f),
      f\<lparr>counts := (counts f)(key \<mapsto> flight_count f key + 1), handles := handles f @ [(key, False)]\<rparr>)"

definition flight_release :: "InFlight \<Rightarrow> nat \<Rightarrow> InFlight" where
  "flight_release f i =
     (if i \<ge> length (handles f) \<or> snd (handles f ! i) then f
      else
       (let key = fst (handles f ! i); remaining = flight_count f key - 1
        in f\<lparr>counts := (if remaining = 0 then (counts f)(key := None) else (counts f)(key \<mapsto> remaining)),
             handles := (handles f)[i := (key, True)]\<rparr>))"

section \<open>The limits of a call\<close>

definition MINUTE_MS :: nat where "MINUTE_MS = 60000"
definition CLIENT_CALLS_PER_MINUTE :: nat where "CLIENT_CALLS_PER_MINUTE = 120"
definition TARGET_IN_FLIGHT :: nat where "TARGET_IN_FLIGHT = 4"
definition CLIENT_IN_FLIGHT :: nat where "CLIENT_IN_FLIGHT = 8"

record LimitKey =
  limit_target :: string
  limit_client :: string
  targetPerMinute :: nat

record ActionLimits =
  target_buckets :: "Bucket RecentMap"
  client_buckets :: "Bucket RecentMap"
  target_flights :: InFlight
  client_flights :: InFlight

datatype LimitDecision = Acquired (release_target: nat) (release_client: nat) | LimitRefused int

definition createActionLimits :: ActionLimits where
  "createActionLimits =
     \<lparr>target_buckets = [], client_buckets = [],
      target_flights = \<lparr>counts = Map.empty, handles = []\<rparr>,
      client_flights = \<lparr>counts = Map.empty, handles = []\<rparr>\<rparr>"

definition acquire :: "ActionLimits \<Rightarrow> LimitKey \<Rightarrow> int \<Rightarrow> LimitDecision \<times> ActionLimits" where
  "acquire l key now =
     (case take_token MINUTE_MS (target_buckets l) (limit_target key) (targetPerMinute key) now of
        (Refused s, ts) \<Rightarrow> (LimitRefused s, l\<lparr>target_buckets := ts\<rparr>)
      | (Admitted, ts) \<Rightarrow>
        (case take_token MINUTE_MS (client_buckets l) (limit_client key) CLIENT_CALLS_PER_MINUTE now of
           (Refused s, cs) \<Rightarrow> (LimitRefused s, l\<lparr>target_buckets := ts, client_buckets := cs\<rparr>)
         | (Admitted, cs) \<Rightarrow>
           (let l' = l\<lparr>target_buckets := ts, client_buckets := cs\<rparr> in
            if flight_count (target_flights l') (limit_target key) \<ge> TARGET_IN_FLIGHT \<or>
               flight_count (client_flights l') (limit_client key) \<ge> CLIENT_IN_FLIGHT
            then (LimitRefused 1, l')
            else
             (case (flight_enter (target_flights l') (limit_target key), flight_enter (client_flights l') (limit_client key)) of
                ((i, tf), (j, cf)) \<Rightarrow> (Acquired i j, l'\<lparr>target_flights := tf, client_flights := cf\<rparr>)))))"

definition release :: "ActionLimits \<Rightarrow> nat \<Rightarrow> nat \<Rightarrow> ActionLimits" where
  "release l i j =
     l\<lparr>target_flights := flight_release (target_flights l) i,
       client_flights := flight_release (client_flights l) j\<rparr>"

text \<open>What can happen to the limits: a call is admitted or refused, a handle is released, again perhaps.\<close>

inductive limits_step :: "ActionLimits \<Rightarrow> ActionLimits \<Rightarrow> bool" where
  step_acquire: "acquire l key now = (d, l') \<Longrightarrow> limits_step l l'"
| step_release: "limits_step l (release l i j)"

inductive limits_reach :: "ActionLimits \<Rightarrow> bool" where
  reach_start: "limits_reach createActionLimits"
| reach_step: "limits_reach l \<Longrightarrow> limits_step l l' \<Longrightarrow> limits_reach l'"

inductive_cases limits_stepE: "limits_step l l'"

section \<open>Lemmas on the map\<close>

lemma length_recent_put: "length (recent_put key v m) \<le> MAX_KEYS"
  by (simp add: recent_put_def Let_def MAX_KEYS_def)

lemma forgetCold_subset: "set (forgetCold st m) \<subseteq> set m"
  by (auto simp: forgetCold_def dest: in_set_takeD in_set_dropD)

lemma forgetCold_keeps: "e \<in> set m \<Longrightarrow> \<not> st (snd e) \<Longrightarrow> e \<in> set (forgetCold st m)"
  by (cases "e \<in> set (take COLD_BATCH m)")
    (auto simp: forgetCold_def, metis Un_iff append_take_drop_id set_append)

lemma distinct_forgetCold: "distinct (map fst m) \<Longrightarrow> distinct (map fst (forgetCold st m))"
proof -
  assume d: "distinct (map fst m)"
  have "map fst m = map fst (take COLD_BATCH m) @ map fst (drop COLD_BATCH m)"
    by (metis append_take_drop_id map_append)
  with d have "distinct (map fst (take COLD_BATCH m))" "distinct (map fst (drop COLD_BATCH m))"
    "set (map fst (take COLD_BATCH m)) \<inter> set (map fst (drop COLD_BATCH m)) = {}"
    by (metis distinct_append)+
  then show ?thesis by (auto simp: forgetCold_def distinct_map_filter)
qed

lemma length_forgetCold: "length (forgetCold st m) \<le> length m"
  using length_filter_le [of "\<lambda>e. \<not> st (snd e)" "take COLD_BATCH m"]
  by (auto simp: forgetCold_def)

lemma map_of_forgetCold:
  assumes "distinct (map fst m)"
  shows "map_of (forgetCold st m) k = map_of m k \<or>
    (map_of (forgetCold st m) k = None \<and> (\<exists>v. map_of m k = Some v \<and> st v))"
proof (cases "map_of m k")
  case None
  then have "k \<notin> fst ` set (forgetCold st m)" using forgetCold_subset [of st m] by (force simp: map_of_eq_None_iff)
  then have "map_of (forgetCold st m) k = None" by (simp add: map_of_eq_None_iff)
  with None show ?thesis by simp
next
  case (Some v)
  show ?thesis
  proof (cases "st v")
    case False
    with Some have "(k, v) \<in> set (forgetCold st m)" using forgetCold_keeps by (fastforce dest: map_of_SomeD)
    with Some distinct_forgetCold [OF assms] show ?thesis by (simp add: map_of_is_SomeI)
  next
    case True
    then show ?thesis using Some
    proof (cases "map_of (forgetCold st m) k")
      case (Some w)
      then have "(k, w) \<in> set m" using forgetCold_subset by (fastforce dest: map_of_SomeD)
      with Some \<open>map_of m k = Some v\<close> assms show ?thesis by (simp add: map_of_is_SomeI)
    qed simp
  qed
qed

lemma distinct_recent_put: "distinct (map fst m) \<Longrightarrow> distinct (map fst (recent_put k v m))"
proof -
  assume "distinct (map fst m)"
  then have "distinct (map fst (filter (\<lambda>e. fst e \<noteq> k) m))" by (simp add: distinct_map_filter)
  then have "distinct (map fst (drop n (filter (\<lambda>e. fst e \<noteq> k) m)))" for n
    by (simp add: drop_map [symmetric] distinct_drop)
  then show ?thesis by (auto simp: recent_put_def Let_def dest: in_set_dropD)
qed

lemma keys_recent_put: "fst ` set (recent_put k v m) \<subseteq> insert k (fst ` set m)"
  using set_drop_subset [of _ "filter (\<lambda>e. fst e \<noteq> k) m"] by (fastforce simp: recent_put_def Let_def)

text \<open>Below the bound nothing is evicted.\<close>

lemma map_of_recent_put:
  assumes "length (filter (\<lambda>e. fst e \<noteq> k) m) < MAX_KEYS" and "distinct (map fst m)"
  shows "map_of (recent_put k v m) = (map_of m)(k \<mapsto> v)"
proof
  fix j
  have "recent_put k v m = filter (\<lambda>e. fst e \<noteq> k) m @ [(k, v)]"
    using assms(1) by (simp add: recent_put_def Let_def)
  moreover have "map_of (filter (\<lambda>e. fst e \<noteq> k) m) j = (if j = k then None else map_of m j)"
    by (induction m) auto
  ultimately show "map_of (recent_put k v m) j = ((map_of m)(k \<mapsto> v)) j"
    by (simp add: map_add_def split: option.splits)
qed

section \<open>The contract of a limiter\<close>

text \<open>How many of the events of a key a limiter admits, in order.\<close>

fun admissions :: "('s \<Rightarrow> string \<Rightarrow> int \<Rightarrow> bool \<times> 's) \<Rightarrow> 's \<Rightarrow> string \<Rightarrow> (string \<times> int) list \<Rightarrow> nat" where
  "admissions admit s k [] = 0"
| "admissions admit s k ((j, t) # events) =
     (case admit s j t of (d, s') \<Rightarrow> (if d \<and> j = k then 1 else 0) + admissions admit s' k events)"

fun in_order :: "int \<Rightarrow> int \<Rightarrow> (string \<times> int) list \<Rightarrow> bool" where
  "in_order from till [] \<longleftrightarrow> from \<le> till"
| "in_order from till ((j, t) # events) \<longleftrightarrow> from \<le> t \<and> in_order t till events"

locale budget =
  fixes level :: "'s \<Rightarrow> string \<Rightarrow> int \<Rightarrow> rat"
    and admit :: "'s \<Rightarrow> string \<Rightarrow> int \<Rightarrow> bool \<times> 's"
    and valid :: "'s \<Rightarrow> int \<Rightarrow> bool"
    and keys :: "string set"
    and rate :: "string \<Rightarrow> rat"
  assumes level_nonneg: "valid s t \<Longrightarrow> 0 \<le> level s k t"
    and level_growth: "valid s t \<Longrightarrow> t \<le> u \<Longrightarrow> level s k u \<le> level s k t + rate k * of_int (u - t)"
    and valid_later: "valid s t \<Longrightarrow> t \<le> u \<Longrightarrow> valid s u"
    and admit_valid: "valid s t \<Longrightarrow> j \<in> keys \<Longrightarrow> admit s j t = (d, s') \<Longrightarrow> valid s' t"
    and admit_level: "valid s t \<Longrightarrow> j \<in> keys \<Longrightarrow> admit s j t = (d, s') \<Longrightarrow>
      level s' k t = level s k t - (if d \<and> j = k then 1 else 0)"
begin

text \<open>What is admitted is paid for from the level at the start and what the rate adds since.\<close>

lemma admitted_within_budget:
  "valid s t0 \<Longrightarrow> in_order t0 till events \<Longrightarrow> fst ` set events \<subseteq> keys \<Longrightarrow> 0 \<le> rate k \<Longrightarrow>
   of_nat (admissions admit s k events) \<le> level s k t0 + rate k * of_int (till - t0)"
proof (induction events arbitrary: s t0)
  case Nil
  then have "0 \<le> level s k t0" "0 \<le> rate k * of_int (till - t0)" by (simp_all add: level_nonneg)
  then show ?case by simp
next
  case (Cons e events)
  obtain j t where e: "e = (j, t)" by (cases e)
  obtain d s' where d: "admit s j t = (d, s')" by (cases "admit s j t")
  from Cons.prems e have t: "t0 \<le> t" "in_order t till events" "j \<in> keys" "fst ` set events \<subseteq> keys" by auto
  have v: "valid s t" using valid_later [OF Cons.prems(1) t(1)] .
  have "of_nat (admissions admit s' k events) \<le> level s' k t + rate k * of_int (till - t)"
    using Cons.IH [OF admit_valid [OF v t(3) d] t(2,4) Cons.prems(4)] .
  moreover have "level s' k t = level s k t - (if d \<and> j = k then 1 else 0)"
    using admit_level [OF v t(3) d] .
  moreover have "level s k t \<le> level s k t0 + rate k * of_int (t - t0)"
    using level_growth [OF Cons.prems(1) t(1)] .
  ultimately show ?case using e d by (auto simp: algebra_simps)
qed

end

section \<open>The token bucket keeps the contract\<close>

definition bucket_level :: "nat \<Rightarrow> (string \<Rightarrow> nat) \<Rightarrow> Bucket RecentMap \<Rightarrow> string \<Rightarrow> int \<Rightarrow> rat" where
  "bucket_level windowMs quota m k t =
     (case map_of m k of None \<Rightarrow> of_nat (quota k) | Some b \<Rightarrow> tokens (refilled windowMs b t (quota k)))"

definition admit_token :: "nat \<Rightarrow> (string \<Rightarrow> nat) \<Rightarrow> Bucket RecentMap \<Rightarrow> string \<Rightarrow> int \<Rightarrow> bool \<times> Bucket RecentMap" where
  "admit_token windowMs quota m k t = (case take_token windowMs m k (quota k) t of (d, m') \<Rightarrow> (d = Admitted, m'))"

text \<open>
  Buckets of a set of keys that fits the map, each within its own limit and not from the future.
\<close>

definition buckets_valid :: "nat \<Rightarrow> (string \<Rightarrow> nat) \<Rightarrow> string set \<Rightarrow> Bucket RecentMap \<Rightarrow> int \<Rightarrow> bool" where
  "buckets_valid windowMs quota keys m t \<longleftrightarrow>
     0 < windowMs \<and> finite keys \<and> card keys \<le> MAX_KEYS \<and> distinct (map fst m) \<and> fst ` set m \<subseteq> keys \<and>
     (\<forall>(k, b) \<in> set m. 0 \<le> tokens b \<and> tokens b \<le> of_nat (quota k) \<and> bucket_limit b = quota k \<and> refilledAt b \<le> t)"

lemma refilled_sel [simp]: "refilledAt (refilled w b t l) = t" "bucket_limit (refilled w b t l) = l"
  by (simp_all add: refilled_def Let_def)

lemma refilled_bounds:
  assumes "0 \<le> tokens b" shows "0 \<le> tokens (refilled w b t l)" "tokens (refilled w b t l) \<le> of_nat l"
  using assms by (simp_all add: refilled_def Let_def)

lemma refilled_growth:
  assumes "t \<le> u" "refilledAt b \<le> t"
  shows "tokens (refilled w b u l) \<le> tokens (refilled w b t l) + of_nat l / of_nat w * of_int (u - t)"
proof -
  have "of_int (u - refilledAt b) * (of_nat l :: rat) / of_nat w
      = of_int (t - refilledAt b) * of_nat l / of_nat w + of_nat l / of_nat w * of_int (u - t)"
    by (simp add: algebra_simps add_divide_distrib diff_divide_distrib)
  moreover have "0 \<le> (of_nat l :: rat) / of_nat w * of_int (u - t)" using assms by simp
  moreover have "min L (T + x) \<le> min L (T + y) + g" if "x = y + g" "0 \<le> g" for L T x y g :: rat
    using that by (auto simp: min_def)
  ultimately have "min (of_nat l) (tokens b + of_int (u - refilledAt b) * (of_nat l :: rat) / of_nat w)
      \<le> min (of_nat l) (tokens b + of_int (t - refilledAt b) * of_nat l / of_nat w) + of_nat l / of_nat w * of_int (u - t)"
    by blast
  with assms show ?thesis by (simp add: refilled_def Let_def max_def)
qed

lemma take_token_cases:
  fixes m :: "Bucket RecentMap"
  assumes v: "buckets_valid w quota keys m t" and j: "j \<in> keys" and d: "take_token w m j (quota j) t = (d, m')"
  obtains warm b where "\<And>k. bucket_level w quota warm k t = bucket_level w quota m k t"
    and "tokens b = bucket_level w quota m j t" and "0 \<le> tokens b" and "tokens b \<le> of_nat (quota j)"
    and "refilledAt b = t" and "bucket_limit b = quota j"
    and "d = Admitted \<longleftrightarrow> 1 \<le> tokens b"
    and "d = Admitted \<Longrightarrow> map_of m' = (map_of warm)(j \<mapsto> b\<lparr>tokens := tokens b - 1\<rparr>)"
    and "d \<noteq> Admitted \<Longrightarrow> map_of m' = (map_of warm)(j \<mapsto> b) \<and>
      d = Refused (max 1 \<lceil>(1 - tokens b) * of_nat w / of_nat (quota j) / 1000\<rceil>)"
    and "set warm \<subseteq> set m" and "distinct (map fst m')" and "fst ` set m' \<subseteq> keys"
    and "set m' \<subseteq> insert (j, if d = Admitted then b\<lparr>tokens := tokens b - 1\<rparr> else b) (set warm)"
proof -
  define st where "st = (\<lambda>b. of_nat (bucket_limit b) \<le> tokens (refilled w b t (bucket_limit b)))"
  define warm where "warm = forgetCold st m"
  define b where "b = refilled w (case map_of warm j of Some b \<Rightarrow> b
      | None \<Rightarrow> \<lparr>tokens = of_nat (quota j), refilledAt = t, bucket_limit = quota j\<rparr>) t (quota j)"
  have dist: "distinct (map fst m)" and K: "finite keys" "card keys \<le> MAX_KEYS" "fst ` set m \<subseteq> keys"
    and each: "\<And>k b. (k, b) \<in> set m \<Longrightarrow> 0 \<le> tokens b \<and> tokens b \<le> of_nat (quota k) \<and> bucket_limit b = quota k \<and> refilledAt b \<le> t"
    using v by (auto simp: buckets_valid_def)
  have level: "bucket_level w quota warm k t = bucket_level w quota m k t" for k
    using map_of_forgetCold [OF dist, of st k]
  proof (elim disjE conjE exE)
    fix v assume n: "map_of (forgetCold st m) k = None" and sv: "map_of m k = Some v" "st v"
    from each [OF map_of_SomeD [OF sv(1)]] have e: "0 \<le> tokens v" "bucket_limit v = quota k" by auto
    with sv refilled_bounds(2) [of v w t "quota k"] have "tokens (refilled w v t (quota k)) = of_nat (quota k)"
      by (simp add: st_def)
    with n sv show ?thesis by (simp add: bucket_level_def warm_def)
  qed (simp add: bucket_level_def warm_def)
  have sub: "set warm \<subseteq> set m" unfolding warm_def by (rule forgetCold_subset)
  have dw: "distinct (map fst warm)" unfolding warm_def by (rule distinct_forgetCold [OF dist])
  have "tokens b = bucket_level w quota warm j t"
    unfolding b_def bucket_level_def by (cases "map_of warm j") (simp_all add: refilled_def Let_def)
  then have bl: "tokens b = bucket_level w quota m j t" by (simp add: level)
  have "0 \<le> tokens (case map_of warm j of Some b \<Rightarrow> b | None \<Rightarrow> \<lparr>tokens = of_nat (quota j), refilledAt = t, bucket_limit = quota j\<rparr>)"
    using each sub by (cases "map_of warm j") (auto dest!: map_of_SomeD)
  note b0 = refilled_bounds [OF this, of w t "quota j", folded b_def]
  have "length (filter (\<lambda>e. fst e \<noteq> j) warm) < MAX_KEYS"
  proof -
    have "length (filter (\<lambda>e. fst e \<noteq> j) warm) = card (fst ` set (filter (\<lambda>e. fst e \<noteq> j) warm))"
      using distinct_card [of "map fst (filter (\<lambda>e. fst e \<noteq> j) warm)"] dw by (simp add: distinct_map_filter)
    also have "\<dots> \<le> card (keys - {j})" using K sub by (intro card_mono) auto
    also have "\<dots> < card keys" using j K by (intro psubset_card_mono) auto
    finally show ?thesis using K by simp
  qed
  note put = map_of_recent_put [OF this dw]
  have m': "(d, m') = (if 1 \<le> tokens b then (Admitted, recent_put j (b\<lparr>tokens := tokens b - 1\<rparr>) warm)
      else (Refused (max 1 \<lceil>(1 - tokens b) * of_nat w / of_nat (quota j) / 1000\<rceil>), recent_put j b warm))"
    using d unfolding take_token_def Let_def st_def [symmetric] warm_def [symmetric] b_def [symmetric] by simp
  have entries: "set (recent_put j x warm) \<subseteq> insert (j, x) (set warm)" for x
    by (auto simp: recent_put_def Let_def dest: in_set_dropD)
  show thesis
  proof (rule that [OF level bl b0])
    show "refilledAt b = t" "bucket_limit b = quota j" by (simp_all add: b_def)
    show "d = Admitted \<longleftrightarrow> 1 \<le> tokens b" using m' by (auto split: if_splits)
    show "map_of m' = (map_of warm)(j \<mapsto> b\<lparr>tokens := tokens b - 1\<rparr>)" if "d = Admitted"
      using m' put that by (auto split: if_splits)
    show "map_of m' = (map_of warm)(j \<mapsto> b) \<and> d = Refused (max 1 \<lceil>(1 - tokens b) * of_nat w / of_nat (quota j) / 1000\<rceil>)"
      if "d \<noteq> Admitted" using m' put that by (auto split: if_splits)
    show "set warm \<subseteq> set m" by (rule sub)
    show "distinct (map fst m')" using m' distinct_recent_put [OF dw] by (auto split: if_splits)
    have "fst ` set (recent_put j x warm) \<subseteq> keys" for x
      using keys_recent_put [of j x warm] j K(3) sub by blast
    then show "fst ` set m' \<subseteq> keys" using m' by (simp split: if_splits)
    show "set m' \<subseteq> insert (j, if d = Admitted then b\<lparr>tokens := tokens b - 1\<rparr> else b) (set warm)"
      using m' entries by (auto split: if_splits)
  qed
qed

lemma bucket_level_some:
  assumes "map_of m k = Some b" "refilledAt b = t" "tokens b \<le> of_nat (quota k)"
  shows "bucket_level w quota m k t = tokens b"
  using assms by (simp add: bucket_level_def refilled_def Let_def)

interpretation token_bucket: budget "bucket_level w quota" "admit_token w quota" "buckets_valid w quota keys" keys
    "\<lambda>k. of_nat (quota k) / of_nat w"
  for w quota keys
proof
  fix m t k u
  assume v: "buckets_valid w quota keys m t"
  have each: "\<And>k b. (k, b) \<in> set m \<Longrightarrow> 0 \<le> tokens b \<and> refilledAt b \<le> t"
    using v by (auto simp: buckets_valid_def)
  show "0 \<le> bucket_level w quota m k t"
    using each refilled_bounds(1) by (auto simp: bucket_level_def split: option.splits dest!: map_of_SomeD)
  assume tu: "t \<le> u"
  show "bucket_level w quota m k u \<le> bucket_level w quota m k t + of_nat (quota k) / of_nat w * of_int (u - t)"
  proof (cases "map_of m k")
    case None
    with tu show ?thesis by (simp add: bucket_level_def)
  next
    case (Some b)
    with each [OF map_of_SomeD [OF Some]] refilled_growth [OF tu] show ?thesis by (simp add: bucket_level_def)
  qed
  show "buckets_valid w quota keys m u" using v tu by (fastforce simp: buckets_valid_def)
next
  fix m t j d m'
  assume v: "buckets_valid w quota keys m t" and j: "j \<in> keys" and a: "admit_token w quota m j t = (d, m')"
  then obtain d' where t: "take_token w m j (quota j) t = (d', m')" and d: "d \<longleftrightarrow> d' = Admitted"
    by (auto simp: admit_token_def split: prod.splits)
  note cases = take_token_cases [OF v j t]
  show "buckets_valid w quota keys m' t"
  proof (rule cases, goal_cases)
    case (1 warm b)
    have "\<forall>(k, b) \<in> set warm. 0 \<le> tokens b \<and> tokens b \<le> of_nat (quota k) \<and> bucket_limit b = quota k \<and> refilledAt b \<le> t"
      using v 1(10) by (auto simp: buckets_valid_def)
    moreover have "0 \<le> tokens b - 1" if "d' = Admitted" using 1(7) that by simp
    ultimately have "\<forall>(k, b) \<in> set m'. 0 \<le> tokens b \<and> tokens b \<le> of_nat (quota k) \<and> bucket_limit b = quota k \<and> refilledAt b \<le> t"
      using 1(3-6,13) by (auto split: if_splits)
    with 1(11,12) v show ?case by (simp add: buckets_valid_def)
  qed
  fix k
  show "bucket_level w quota m' k t = bucket_level w quota m k t - (if d \<and> j = k then 1 else 0)"
  proof (rule cases, goal_cases)
    case (1 warm b)
    show ?case
    proof (cases "k = j")
      case False
      then have "map_of m' k = map_of warm k" using 1(8,9) by (cases "d' = Admitted") auto
      with 1(1) [of k] False show ?thesis by (simp add: bucket_level_def)
    next
      case True
      show ?thesis
      proof (cases "d' = Admitted")
        case True
        have "bucket_level w quota m' j t = tokens (b\<lparr>tokens := tokens b - 1\<rparr>)"
          using 1(4,5) 1(8) [OF True] by (intro bucket_level_some) auto
        with True \<open>k = j\<close> 1(2) d show ?thesis by simp
      next
        case False
        have "bucket_level w quota m' j t = tokens b"
          using 1(4,5) 1(9) [OF False] by (intro bucket_level_some) auto
        with False \<open>k = j\<close> 1(2) d show ?thesis by simp
      qed
    qed
  qed
qed

lemma buckets_valid_empty [simp]:
  "buckets_valid w quota keys [] t \<longleftrightarrow> 0 < w \<and> finite keys \<and> card keys \<le> MAX_KEYS"
  by (simp add: buckets_valid_def)

section \<open>Calls in flight are counted\<close>

definition live_handles :: "InFlight \<Rightarrow> string \<Rightarrow> nat" where
  "live_handles f key = length (filter (\<lambda>h. h = (key, False)) (handles f))"

definition flight_inv :: "InFlight \<Rightarrow> bool" where
  "flight_inv f \<longleftrightarrow> (\<forall>key. flight_count f key = live_handles f key)"

lemma flight_inv_empty [simp]: "flight_inv \<lparr>counts = Map.empty, handles = []\<rparr>"
  by (simp add: flight_inv_def flight_count_def live_handles_def)

lemma flight_inv_enter: "flight_inv f \<Longrightarrow> flight_inv (snd (flight_enter f key))"
  by (simp add: flight_inv_def flight_enter_def flight_count_def live_handles_def)

lemma live_handles_release:
  assumes "i < length (handles f)" and "handles f ! i = (key, False)"
  shows "live_handles (f\<lparr>counts := c, handles := (handles f)[i := (key, True)]\<rparr>) k
    = live_handles f k - (if k = key then 1 else 0)"
    and "0 < live_handles f key"
proof -
  obtain xs ys where h: "handles f = xs @ (key, False) # ys" and i: "i = length xs"
    using id_take_nth_drop [OF assms(1)] assms by (metis length_take min.absorb4)
  show "live_handles (f\<lparr>counts := c, handles := (handles f)[i := (key, True)]\<rparr>) k
      = live_handles f k - (if k = key then 1 else 0)"
    by (auto simp: live_handles_def h i list_update_append)
  show "0 < live_handles f key" by (simp add: live_handles_def h)
qed

lemma flight_inv_release:
  assumes "flight_inv f" shows "flight_inv (flight_release f i)"
proof (cases "i \<ge> length (handles f) \<or> snd (handles f ! i)")
  case True
  with assms show ?thesis by (simp add: flight_release_def)
next
  case False
  obtain key where h: "handles f ! i = (key, False)" using False by (cases "handles f ! i") auto
  define n where "n = flight_count f key - 1"
  define c where "c = (if n = 0 then (counts f)(key := None) else (counts f)(key \<mapsto> n))"
  have r: "flight_release f i = f\<lparr>counts := c, handles := (handles f)[i := (key, True)]\<rparr>"
    using False h by (simp add: flight_release_def Let_def n_def c_def)
  have "flight_count (f\<lparr>counts := c, handles := hs\<rparr>) k = flight_count f k - (if k = key then 1 else 0)" for k hs
    by (simp add: flight_count_def c_def n_def)
  with assms live_handles_release(1) [of i f key] False h show ?thesis
    unfolding r flight_inv_def by simp
qed

lemma flight_count_release: "flight_inv f \<Longrightarrow> flight_count (flight_release f i) key \<le> flight_count f key"
  by (auto simp: flight_release_def flight_count_def Let_def split: option.splits)

text \<open>The invariant of the limits: what is counted is what is unreleased, and it is capped.\<close>

definition limits_inv :: "ActionLimits \<Rightarrow> bool" where
  "limits_inv l \<longleftrightarrow> flight_inv (target_flights l) \<and> flight_inv (client_flights l) \<and>
     (\<forall>key. flight_count (target_flights l) key \<le> TARGET_IN_FLIGHT) \<and>
     (\<forall>key. flight_count (client_flights l) key \<le> CLIENT_IN_FLIGHT)"

lemma flight_count_enter:
  "flight_count (snd (flight_enter f key)) k = flight_count f k + (if k = key then 1 else 0)"
  by (simp add: flight_enter_def flight_count_def)

lemma acquire_inv:
  assumes "limits_inv l" and "acquire l key now = (d, l')"
  shows "limits_inv l'"
proof -
  obtain dt ts where t: "take_token MINUTE_MS (target_buckets l) (limit_target key) (targetPerMinute key) now = (dt, ts)"
    by (cases "take_token MINUTE_MS (target_buckets l) (limit_target key) (targetPerMinute key) now")
  obtain dc cs where c: "take_token MINUTE_MS (client_buckets l) (limit_client key) CLIENT_CALLS_PER_MINUTE now = (dc, cs)"
    by (cases "take_token MINUTE_MS (client_buckets l) (limit_client key) CLIENT_CALLS_PER_MINUTE now")
  let ?tf = "flight_enter (target_flights l) (limit_target key)"
  let ?cf = "flight_enter (client_flights l) (limit_client key)"
  consider "target_flights l' = target_flights l" "client_flights l' = client_flights l"
    | "target_flights l' = snd ?tf" "client_flights l' = snd ?cf"
      "flight_count (target_flights l) (limit_target key) < TARGET_IN_FLIGHT"
      "flight_count (client_flights l) (limit_client key) < CLIENT_IN_FLIGHT"
  proof (cases "dt = Admitted \<and> dc = Admitted \<and> flight_count (target_flights l) (limit_target key) < TARGET_IN_FLIGHT \<and>
      flight_count (client_flights l) (limit_client key) < CLIENT_IN_FLIGHT")
    case True
    with assms(2) t c have "target_flights l' = snd ?tf" "client_flights l' = snd ?cf"
      by (auto simp: acquire_def Let_def flight_enter_def)
    with True that(2) show ?thesis by blast
  next
    case False
    have "target_flights l' = target_flights l \<and> client_flights l' = client_flights l"
    proof (cases dt)
      case (Refused s)
      with assms(2) t show ?thesis by (auto simp: acquire_def)
    next
      case dt: Admitted
      show ?thesis
      proof (cases dc)
        case (Refused s)
        with assms(2) t c dt show ?thesis by (auto simp: acquire_def)
      next
        case Admitted
        with False dt have "TARGET_IN_FLIGHT \<le> flight_count (target_flights l) (limit_target key) \<or>
          CLIENT_IN_FLIGHT \<le> flight_count (client_flights l) (limit_client key)" by auto
        with assms(2) t c dt Admitted show ?thesis by (auto simp: acquire_def Let_def)
      qed
    qed
    with that(1) show ?thesis by blast
  qed
  then show ?thesis
    using assms(1) flight_inv_enter
    by cases (auto simp: limits_inv_def flight_count_enter Suc_le_eq)
qed

lemma release_inv: "limits_inv l \<Longrightarrow> limits_inv (release l i j)"
  by (simp add: limits_inv_def release_def flight_inv_release)
    (meson flight_count_release order_trans)

lemma limits_reach_inv: "limits_reach l \<Longrightarrow> limits_inv l"
proof (induction rule: limits_reach.induct)
  case reach_start
  then show ?case by (simp add: limits_inv_def createActionLimits_def flight_count_def)
next
  case (reach_step l l')
  from reach_step.hyps(2) show ?case
  proof (cases rule: limits_step.cases)
    case (step_acquire key now d)
    with acquire_inv reach_step.IH show ?thesis by blast
  next
    case (step_release i j)
    with release_inv [OF reach_step.IH] show ?thesis by simp
  qed
qed

section \<open>Properties\<close>



text \<open>
  a refusal of the token bucket is honest: a caller that waits the seconds it was told, and
  whose bucket was not used in between, is admitted.
\<close>

theorem retry_after_is_enough:
  assumes "buckets_valid windowMs quota keys m now" and "key \<in> keys" and "0 < quota key"
    and "take_token windowMs m key (quota key) now = (Refused s, m')"
  shows "fst (take_token windowMs m' key (quota key) (now + 1000 * s)) = Admitted \<and> 1 \<le> s"
proof -
  let ?W = "of_nat windowMs :: rat" and ?q = "of_nat (quota key) :: rat"
  have w: "0 < ?W" "0 < ?q" using assms(1,3) by (simp_all add: buckets_valid_def)
  have a: "admit_token windowMs quota m key now = (False, m')" using assms(4) by (simp add: admit_token_def)
  have v': "buckets_valid windowMs quota keys m' now"
    using token_bucket.admit_valid [OF assms(1,2) a] .
  obtain b where b: "map_of m' key = Some b" "refilledAt b = now" "0 \<le> tokens b" "tokens b \<le> ?q"
    and s: "s = max 1 \<lceil>(1 - tokens b) * ?W / ?q / 1000\<rceil>"
    by (rule take_token_cases [OF assms(1,2,4)]) auto
  have s1: "1 \<le> s" and sw: "(1 - tokens b) * ?W / ?q / 1000 \<le> of_int s"
    using s by (simp_all add: le_of_int_ceiling of_int_max le_max_iff_disj)
  then have later: "now \<le> now + 1000 * s" by simp
  have "1 - tokens b \<le> of_int (1000 * s) * ?q / ?W"
    using sw w by (simp add: field_simps)
  then have "1 \<le> tokens (refilled windowMs b (now + 1000 * s) (quota key))"
    using b(2) s1 assms(3) by (simp add: refilled_def Let_def max_def algebra_simps)
  then have level: "1 \<le> bucket_level windowMs quota m' key (now + 1000 * s)"
    by (simp add: bucket_level_def b(1))
  obtain d m2 where t2: "take_token windowMs m' key (quota key) (now + 1000 * s) = (d, m2)"
    by (cases "take_token windowMs m' key (quota key) (now + 1000 * s)")
  have "d = Admitted"
  proof (rule take_token_cases [OF token_bucket.valid_later [OF v' later] assms(2) t2], goal_cases)
    case (1 warm b)
    with level show ?case by simp
  qed
  with t2 s1 show ?thesis by simp
qed

theorem retry_after_is_enough_witness:
  "fst (take_token 60000 [(''a'', \<lparr>tokens = 0, refilledAt = 7, bucket_limit = 2\<rparr>)] ''a'' 2 30007) = Admitted"
proof -
  have r: "take_token 60000 [(''a'', \<lparr>tokens = 0, refilledAt = 7, bucket_limit = 2\<rparr>)] ''a'' 2 7
      = (Refused 30, [(''a'', \<lparr>tokens = 0, refilledAt = 7, bucket_limit = 2\<rparr>)])"
    by (simp add: take_token_def forgetCold_def COLD_BATCH_def refilled_def Let_def recent_put_def MAX_KEYS_def)
  show ?thesis
    using retry_after_is_enough [of 60000 "\<lambda>_. 2" "{''a''}" "[(''a'', \<lparr>tokens = 0, refilledAt = 7, bucket_limit = 2\<rparr>)]"
        7 "''a''" 30 "[(''a'', \<lparr>tokens = 0, refilledAt = 7, bucket_limit = 2\<rparr>)]"] r
    by (simp add: buckets_valid_def MAX_KEYS_def)
qed

text \<open>
  whatever calls start and end, in any order, and however often a release is called, no target
  ever has more than four calls in flight and no client more than eight, and what is counted for a
  key is exactly its handles that were not released: a slot is neither leaked nor freed twice.
\<close>

theorem in_flight_capped:
  assumes "limits_reach l"
  shows "flight_count (target_flights l) target = live_handles (target_flights l) target \<and>
    flight_count (client_flights l) client = live_handles (client_flights l) client \<and>
    live_handles (target_flights l) target \<le> 4 \<and> live_handles (client_flights l) client \<le> 8"
proof -
  note i = limits_reach_inv [OF assms]
  have t: "flight_count (target_flights l) target = live_handles (target_flights l) target"
    "flight_count (target_flights l) target \<le> 4"
    using i unfolding limits_inv_def flight_inv_def TARGET_IN_FLIGHT_def by blast+
  have c: "flight_count (client_flights l) client = live_handles (client_flights l) client"
    "flight_count (client_flights l) client \<le> 8"
    using i unfolding limits_inv_def flight_inv_def CLIENT_IN_FLIGHT_def by blast+
  from t c show ?thesis by metis
qed

theorem in_flight_capped_witness:
  "live_handles (target_flights (snd (acquire createActionLimits
     \<lparr>limit_target = ''t'', limit_client = ''c'', targetPerMinute = 60\<rparr> 0))) ''t'' \<le> 4"
proof -
  let ?a = "acquire createActionLimits \<lparr>limit_target = ''t'', limit_client = ''c'', targetPerMinute = 60\<rparr> 0"
  have "limits_reach (snd ?a)"
    by (rule reach_step [OF reach_start step_acquire [of _ _ _ "fst ?a"]]) simp
  from in_flight_capped [OF this] show ?thesis by blast
qed

text \<open>
  a refusal of the fixed window is honest too, and never longer than it needs to be: the hit
  is admitted again as soon as the seconds it was told have passed, when the window allows any.
\<close>

theorem fixed_window_retry:
  assumes "hit limit windowMs windows key now = (Refused s, windows')" and "0 < limit" and "0 < windowMs"
    and "distinct (map fst windows)"
  shows "0 < s \<and> fst (hit limit windowMs windows' key (now + 1000 * s)) = Admitted"
proof -
  define warm where "warm = forgetCold (\<lambda>w. \<not> isLive windowMs w now) windows"
  define existing where "existing = (case map_of warm key of
            Some w \<Rightarrow> if isLive windowMs w now then w else \<lparr>startedAt = now, count = 0\<rparr>
          | None \<Rightarrow> \<lparr>startedAt = now, count = 0\<rparr>)"
  define counted where "counted = existing\<lparr>count := count existing + 1\<rparr>"
  have live: "startedAt counted + int windowMs > now"
    using assms(3) by (auto simp: counted_def existing_def isLive_def split: option.splits)
  have h: "windows' = recent_put key counted warm"
      "s = \<lceil>of_int (startedAt counted + int windowMs - now) / (1000 :: rat)\<rceil>"
    using assms(1) unfolding hit_def Let_def warm_def [symmetric] existing_def [symmetric] counted_def [symmetric]
    by (auto split: if_splits)
  have "(of_int (startedAt counted + int windowMs - now) :: rat) / 1000 \<le> of_int s"
    unfolding h(2) by (rule le_of_int_ceiling)
  then have "(of_int (startedAt counted + int windowMs - now) :: rat) \<le> of_int (1000 * s)"
    by (simp add: field_simps)
  then have over: "startedAt counted + int windowMs - now \<le> 1000 * s" by (simp only: of_int_le_iff)
  have s: "0 < s" using live over by linarith
  have dw: "distinct (map fst warm)" unfolding warm_def by (rule distinct_forgetCold [OF assms(4)])
  have mem: "(key, counted) \<in> set windows'" by (simp add: h(1) recent_put_def Let_def)
  have dist: "distinct (map fst windows')" unfolding h(1) by (rule distinct_recent_put [OF dw])
  have "map_of windows' key = Some counted" using mem dist by (simp add: map_of_is_SomeI)
  with map_of_forgetCold [OF dist, of "\<lambda>w. \<not> isLive windowMs w (now + 1000 * s)" key]
  have "map_of (forgetCold (\<lambda>w. \<not> isLive windowMs w (now + 1000 * s)) windows') key \<in> {None, Some counted}"
    by auto
  moreover have "\<not> isLive windowMs counted (now + 1000 * s)" using over by (simp add: isLive_def)
  ultimately have "fst (hit limit windowMs windows' key (now + 1000 * s)) = Admitted"
    using assms(2) by (auto simp: hit_def Let_def)
  with s show ?thesis by simp
qed

theorem fixed_window_retry_witness:
  "fst (hit 1 60000 [(''a'', \<lparr>startedAt = 0, count = 2\<rparr>)] ''a'' (500 + 1000 * 60)) = Admitted"
proof -
  have c: "\<lceil>119 / 2 :: rat\<rceil> = 60" by (simp add: ceiling_eq_iff)
  have "hit 1 60000 [(''a'', \<lparr>startedAt = 0, count = 1\<rparr>)] ''a'' 500 = (Refused 60, [(''a'', \<lparr>startedAt = 0, count = 2\<rparr>)])"
    by (simp add: hit_def forgetCold_def COLD_BATCH_def isLive_def Let_def recent_put_def MAX_KEYS_def c)
  from fixed_window_retry [OF this] show ?thesis by simp
qed

end
