(* ===== verification/Json.thy ===== *)
theory Json
  imports Encodings
begin

text \<open>
  JSON values as the sources read them from a parsed body or write them out. A number is kept as
  the text \<^verbatim>\<open>JSON.stringify\<close> writes for it, and \<open>Undefined\<close> is the absent value a property of a
  JavaScript object may hold.
\<close>

datatype json =
    JNull
  | JBool bool
  | JNumber string
  | JString string
  | JArray "json list"
  | JObject "(string \<times> json) list"
  | JUndefined

text \<open>\<^verbatim>\<open>name in value\<close> and \<^verbatim>\<open>value[name]\<close> of an object.\<close>

definition property_of :: "json \<Rightarrow> string \<Rightarrow> json option" where
  "property_of v name = (case v of JObject fields \<Rightarrow> map_of fields name | _ \<Rightarrow> None)"

definition is_json_string :: "json \<Rightarrow> bool" where
  "is_json_string v \<longleftrightarrow> (case v of JString _ \<Rightarrow> True | _ \<Rightarrow> False)"

end
