(* ===== verification/Scopes.thy ===== *)
theory Scopes
  imports Json
begin

text \<open>
  Scopes: the registry of \<^verbatim>\<open>src/scopes/registry.ts\<close>, the \<^verbatim>\<open>scope\<close> parameter of
  \<^verbatim>\<open>src/oauth/scopes.ts\<close> and the tool requirements of \<^verbatim>\<open>src/mcp/scopes.ts\<close>. A scope is its name,
  as everywhere in the sources.
\<close>

section \<open>The registry\<close>

type_synonym scope = string

definition SCOPES :: "scope list" where
  "SCOPES =
     [''vault:read'', ''vault:reveal'', ''vault:generate'', ''vault:write'', ''actions:http'',
      ''actions:sql.read'', ''actions:sql.write'', ''actions:ssh'', ''actions:winrm'',
      ''actions:browser'', ''actions:code'']"

datatype ConnectorKind = KHttp | KSql | KSsh | KWinrm | KBrowser | KCode

definition ACTION_SCOPE_CONNECTORS :: "(scope \<times> ConnectorKind) list" where
  "ACTION_SCOPE_CONNECTORS =
     [(''actions:http'', KHttp), (''actions:sql.read'', KSql), (''actions:sql.write'', KSql),
      (''actions:ssh'', KSsh), (''actions:winrm'', KWinrm), (''actions:browser'', KBrowser),
      (''actions:code'', KCode)]"

text \<open>\<^verbatim>\<open>SCOPE_DEFINITIONS\<close> without the explanations: the scope and whether it is risky.\<close>

definition SCOPE_DEFINITIONS :: "(scope \<times> bool) list" where
  "SCOPE_DEFINITIONS =
     [(''vault:read'', False), (''vault:reveal'', True), (''vault:generate'', False),
      (''vault:write'', True), (''actions:http'', True), (''actions:sql.read'', True),
      (''actions:sql.write'', True), (''actions:ssh'', True), (''actions:winrm'', True),
      (''actions:browser'', True), (''actions:code'', True)]"

definition isScope :: "string \<Rightarrow> bool" where
  "isScope s \<longleftrightarrow> s \<in> set SCOPES"

definition isActionScope :: "scope \<Rightarrow> bool" where
  "isActionScope s \<longleftrightarrow> map_of ACTION_SCOPE_CONNECTORS s \<noteq> None"

text \<open>\<open>None\<close> is the exception of a scope outside the registry.\<close>

definition scopeDefinition :: "scope \<Rightarrow> (scope \<times> bool) option" where
  "scopeDefinition s = find (\<lambda>d. fst d = s) SCOPE_DEFINITIONS"

record ScopeSwitches =
  enableWriteScope :: bool
  actions_enabled :: bool
  connectors :: "ConnectorKind \<Rightarrow> bool"

definition isEnabled :: "scope \<Rightarrow> ScopeSwitches \<Rightarrow> bool" where
  "isEnabled s config \<longleftrightarrow>
     (case map_of ACTION_SCOPE_CONNECTORS s of
        Some kind \<Rightarrow> actions_enabled config \<and> connectors config kind
      | None \<Rightarrow> s \<noteq> ''vault:write'' \<or> enableWriteScope config)"

definition enabledScopes :: "ScopeSwitches \<Rightarrow> scope list" where
  "enabledScopes config = filter (\<lambda>s. isEnabled s config) SCOPES"

section \<open>The scope parameter\<close>

definition DEFAULT_SCOPES :: "scope list" where "DEFAULT_SCOPES = [''vault:read'']"

text \<open>The loop; \<open>Inl entry\<close> is the \<^verbatim>\<open>ScopeError\<close> that names the entry.\<close>

fun parse_scopes :: "scope list \<Rightarrow> string list \<Rightarrow> scope list \<Rightarrow> string + scope list" where
  "parse_scopes enabled [] scopes = Inr scopes"
| "parse_scopes enabled (entry # rest) scopes =
     (if \<not> isScope entry \<or> entry \<notin> set enabled then Inl entry
      else parse_scopes enabled rest (if entry \<in> set scopes then scopes else scopes @ [entry]))"

definition parseScopeParameter :: "string option \<Rightarrow> scope list \<Rightarrow> string + scope list" where
  "parseScopeParameter parameter enabled =
     (let requested = filter (\<lambda>e. e \<noteq> []) (split_on (CHR '' '') (case parameter of Some t \<Rightarrow> t | None \<Rightarrow> []))
      in if requested = [] then Inr DEFAULT_SCOPES else parse_scopes enabled requested [])"

definition isScopeSubset :: "string list \<Rightarrow> string list \<Rightarrow> bool" where
  "isScopeSubset requested granted \<longleftrightarrow> list_all (\<lambda>s. s \<in> set granted) requested"

section \<open>Tools\<close>

definition TOOL_SCOPES :: "(string \<times> scope) list" where
  "TOOL_SCOPES =
     [(''vault_status'', ''vault:read''), (''search_items'', ''vault:read''), (''get_item'', ''vault:read''),
      (''list_folders'', ''vault:read''), (''list_collections'', ''vault:read''),
      (''get_secret'', ''vault:reveal''), (''generate_password'', ''vault:generate''),
      (''generate_passphrase'', ''vault:generate''), (''create_item'', ''vault:write''),
      (''update_item'', ''vault:write''), (''trash_item'', ''vault:write''), (''create_folder'', ''vault:write'')]"

definition TOOL_NAMES :: "string list" where
  "TOOL_NAMES =
     [''vault_status'', ''search_items'', ''get_item'', ''list_folders'', ''list_collections'', ''get_secret'',
      ''generate_password'', ''generate_passphrase'', ''create_item'', ''update_item'', ''trash_item'', ''create_folder'']"

definition isToolName :: "string \<Rightarrow> bool" where
  "isToolName s \<longleftrightarrow> s \<in> set TOOL_NAMES"

definition isSecretFieldValue :: "json \<Rightarrow> bool" where
  "isSecretFieldValue field \<longleftrightarrow>
     (case property_of field ''value'' of
        Some (JString v) \<Rightarrow>
          v \<noteq> [] \<and> property_of field ''kind'' \<notin> {Some (JString ''text''), Some (JString ''boolean'')}
      | _ \<Rightarrow> False)"

definition hasSecretFieldValue :: "json \<Rightarrow> bool" where
  "hasSecretFieldValue input \<longleftrightarrow>
     (case property_of input ''set_fields'' of
        Some (JArray items) \<Rightarrow> list_ex isSecretFieldValue items
      | _ \<Rightarrow> False)"

definition hasExplicitPassword :: "json \<Rightarrow> bool" where
  "hasExplicitPassword input \<longleftrightarrow>
     (case property_of input ''password'' of Some v \<Rightarrow> is_json_string v | None \<Rightarrow> False)"

datatype RequirementMode = NeedsAll | NeedsAny

record ScopeRequirement =
  required :: "scope list"
  requirement_mode :: RequirementMode

definition requiredScopes :: "string \<Rightarrow> json \<Rightarrow> ScopeRequirement option" where
  "requiredScopes tool input =
     map_option (\<lambda>base.
       let requiresReveal =
             ((tool = ''update_item'' \<or> tool = ''create_item'') \<and> hasExplicitPassword input) \<or>
             (tool = ''update_item'' \<and> hasSecretFieldValue input)
       in \<lparr>required = (if requiresReveal then [base, ''vault:reveal''] else [base]), requirement_mode = NeedsAll\<rparr>)
       (map_of TOOL_SCOPES tool)"

definition listTargetsRequirement :: "scope list \<Rightarrow> ScopeRequirement option" where
  "listTargetsRequirement enabled =
     (let scopes = filter isActionScope enabled in
      if scopes = [] then None else Some \<lparr>required = scopes, requirement_mode = NeedsAny\<rparr>)"

definition isRequirementMet :: "ScopeRequirement \<Rightarrow> scope list \<Rightarrow> bool" where
  "isRequirementMet requirement effective \<longleftrightarrow>
     (let held = filter (\<lambda>s. s \<in> set effective) (required requirement) in
      if requirement_mode requirement = NeedsAny then held \<noteq> []
      else length held = length (required requirement))"

definition effectiveScopes :: "string list \<Rightarrow> scope list \<Rightarrow> scope list" where
  "effectiveScopes held enabled = filter (\<lambda>s. s \<in> set held) enabled"

definition toolsAllowedBy :: "scope list \<Rightarrow> string list" where
  "toolsAllowedBy effective =
     filter (\<lambda>tool. \<exists>s. map_of TOOL_SCOPES tool = Some s \<and> s \<in> set effective) TOOL_NAMES"

section \<open>Lemmas\<close>

lemma parse_scopes_Inr:
  "parse_scopes enabled entries acc = Inr scopes \<longleftrightarrow>
     (\<forall>e \<in> set entries. isScope e \<and> e \<in> set enabled) \<and>
     scopes = fold (\<lambda>e acc. if e \<in> set acc then acc else acc @ [e]) entries acc"
  by (induction enabled entries acc rule: parse_scopes.induct) auto

lemma fold_distinct_set:
  fixes acc :: "string list"
  shows "set (fold (\<lambda>e acc. if e \<in> set acc then acc else acc @ [e]) entries acc) = set acc \<union> set entries"
    and "distinct acc \<Longrightarrow> distinct (fold (\<lambda>e acc. if e \<in> set acc then acc else acc @ [e]) entries acc)"
  by (induction entries arbitrary: acc) auto

lemma isScopeSubset_iff: "isScopeSubset a b \<longleftrightarrow> set a \<subseteq> set b"
  by (auto simp: isScopeSubset_def list_all_iff)

lemma isRequirementMet_iff:
  "isRequirementMet r effective \<longleftrightarrow>
     (if requirement_mode r = NeedsAny then set (required r) \<inter> set effective \<noteq> {}
      else set (required r) \<subseteq> set effective)"
proof -
  have "filter P xs \<noteq> [] \<longleftrightarrow> (\<exists>x \<in> set xs. P x)" for P and xs :: "scope list" by (auto simp: filter_empty_conv)
  moreover have "length (filter P xs) = length xs \<longleftrightarrow> (\<forall>x \<in> set xs. P x)" for P and xs :: "scope list"
    by (induction xs) (auto, metis Suc_n_not_le_n length_filter_le)
  ultimately show ?thesis by (auto simp: isRequirementMet_def Let_def)
qed

section \<open>Properties\<close>

text \<open>
  the scope parameter: a parsed request is never empty, has no scope twice, and unless it is
  the default read scope holds exactly the scopes the parameter names, all of them in the registry
  and enabled; one unknown or disabled scope refuses the whole request.
\<close>

theorem parseScopeParameter_exact:
  "case parseScopeParameter parameter enabled of
     Inl bad \<Rightarrow> parameter \<noteq> None \<and> bad \<in> set (split_on (CHR '' '') (the parameter)) \<and>
       (\<not> isScope bad \<or> bad \<notin> set enabled)
   | Inr scopes \<Rightarrow> scopes \<noteq> [] \<and> distinct scopes \<and>
       (scopes = [''vault:read''] \<or> parameter \<noteq> None \<and>
         set scopes = set (split_on (CHR '' '') (the parameter)) - {[]} \<and> set scopes \<subseteq> set enabled \<inter> set SCOPES)"
proof -
  let ?t = "case parameter of Some t \<Rightarrow> t | None \<Rightarrow> []"
  let ?r = "filter (\<lambda>e. e \<noteq> []) (split_on (CHR '' '') ?t)"
  have bad: "parse_scopes enabled entries acc = Inl e \<Longrightarrow> e \<in> set entries \<and> (\<not> isScope e \<or> e \<notin> set enabled)"
    for entries acc e
    by (induction enabled entries acc rule: parse_scopes.induct) (auto split: if_splits)
  show ?thesis
  proof (cases "?r = []")
    case True
    then show ?thesis by (simp add: parseScopeParameter_def DEFAULT_SCOPES_def)
  next
    case False
    then have some: "parameter \<noteq> None" by (cases parameter) auto
    then have t: "?t = the parameter" by auto
    show ?thesis
    proof (cases "parse_scopes enabled ?r []")
      case (Inl e)
      with False bad [OF Inl] some t show ?thesis by (simp add: parseScopeParameter_def)
    next
      case (Inr scopes)
      then have s: "scopes = fold (\<lambda>e acc. if e \<in> set acc then acc else acc @ [e]) ?r []"
        "\<forall>e \<in> set ?r. isScope e \<and> e \<in> set enabled" by (auto simp: parse_scopes_Inr)
      have "set scopes = set ?r" "distinct scopes"
        unfolding s(1) by (simp only: fold_distinct_set list.set Un_empty_left) (simp add: fold_distinct_set(2))
      moreover have "scopes \<noteq> []" using False \<open>set scopes = set ?r\<close> by (metis set_empty)
      moreover have "set ?r = set (split_on (CHR '' '') (the parameter)) - {[]}" unfolding t by auto
      ultimately show ?thesis using False Inr s(2) some unfolding t
        by (auto simp: parseScopeParameter_def isScope_def t)
    qed
  qed
qed

theorem parseScopeParameter_exact_witness:
  "\<exists>scopes. parseScopeParameter (Some ''vault:reveal vault:read vault:reveal'') SCOPES = Inr scopes \<and>
     set scopes = {''vault:reveal'', ''vault:read''} \<and> distinct scopes"
proof -
  have "parseScopeParameter (Some ''vault:reveal vault:read vault:reveal'') SCOPES = Inr [''vault:reveal'', ''vault:read'']"
    by code_simp
  with parseScopeParameter_exact [of "Some ''vault:reveal vault:read vault:reveal''" SCOPES] show ?thesis by simp
qed

text \<open>
  what a vault tool call needs is met by a token's effective scopes only when the token holds
  the tool's scope and the deployment enables it, and a call that hands over secret material needs
  the reveal scope as well; turning a scope off at the deployment takes it from every token.
\<close>

theorem requirement_met_iff:
  assumes "requiredScopes tool input = Some r"
  shows "isRequirementMet r (effectiveScopes held enabled) \<longleftrightarrow>
    the (map_of TOOL_SCOPES tool) \<in> set held \<inter> set enabled \<and>
    ((tool = ''create_item'' \<or> tool = ''update_item'') \<and> hasExplicitPassword input \<or>
     tool = ''update_item'' \<and> hasSecretFieldValue input \<longrightarrow> ''vault:reveal'' \<in> set held \<inter> set enabled)"
proof -
  obtain base where b: "map_of TOOL_SCOPES tool = Some base"
    using assms by (auto simp: requiredScopes_def)
  have r: "requirement_mode r = NeedsAll"
    "set (required r) = insert base
      (if ((tool = ''update_item'' \<or> tool = ''create_item'') \<and> hasExplicitPassword input) \<or>
          (tool = ''update_item'' \<and> hasSecretFieldValue input) then {''vault:reveal''} else {})"
    using assms b by (auto simp: requiredScopes_def Let_def)
  have "set (effectiveScopes held enabled) = set held \<inter> set enabled" by (auto simp: effectiveScopes_def)
  then show ?thesis
    unfolding isRequirementMet_iff r b option.sel by auto
qed

theorem requirement_met_iff_witness:
  "\<not> isRequirementMet \<lparr>required = [''vault:write'', ''vault:reveal''], requirement_mode = NeedsAll\<rparr>
     (effectiveScopes [''vault:write''] [''vault:write'', ''vault:reveal''])"
proof -
  let ?in = "JObject [(''password'', JString ''x'')]"
  have "requiredScopes ''create_item'' ?in
      = Some \<lparr>required = [''vault:write'', ''vault:reveal''], requirement_mode = NeedsAll\<rparr>"
    by code_simp
  from requirement_met_iff [OF this, of "[''vault:write'']" "[''vault:write'', ''vault:reveal'']"] show ?thesis
    by (simp add: hasExplicitPassword_def property_of_def is_json_string_def)
qed

end
