(* ===== verification/OAuthStore.thy ===== *)
theory OAuthStore
  imports Scopes
begin

text \<open>
  The rows the authorization server keeps, \<^verbatim>\<open>src/oauth/repositories/tokens.ts\<close>,
  \<^verbatim>\<open>authorization-codes.ts\<close> and \<^verbatim>\<open>consents.ts\<close>, with the rules of
  \<^verbatim>\<open>src/storage/maintenance.ts\<close> that retire them. A table is the list of its rows; an \<open>INSERT\<close>
  that breaks a \<^verbatim>\<open>PRIMARY KEY\<close> or \<^verbatim>\<open>UNIQUE\<close> column throws, which is \<open>None\<close> here; deleting a token
  sets the columns that refer to it to \<^verbatim>\<open>NULL\<close> (\<^verbatim>\<open>ON DELETE SET NULL\<close>). Clients live in a table of
  their own that these operations only refer to.
\<close>

datatype OAuthTokenKind = AccessToken | RefreshToken

record TokenRecord =
  t_id :: string
  t_hash :: string
  t_kind :: OAuthTokenKind
  t_family :: string
  t_parent :: "string option"
  t_replaced :: "string option"
  t_client :: string
  t_consent :: string
  t_scopes :: "string list"
  t_resource :: string
  t_issued :: int
  t_expires :: int
  t_revoked :: "int option"
  t_used :: "int option"

record AuthorizationCodeRecord =
  c_hash :: string
  c_client :: string
  c_consent :: string
  c_redirect :: string
  c_challenge :: string
  c_resource :: string
  c_scopes :: "string list"
  c_expires :: int
  c_used :: "int option"

record ConsentRecord =
  n_id :: string
  n_operator :: string
  n_client :: string
  n_scopes :: "string list"
  n_granted :: int
  n_revoked :: "int option"

text \<open>An audit row: the action, the client and the audited prefix of the credential.\<close>

record OAuthStore =
  tokens :: "TokenRecord list"
  codes :: "AuthorizationCodeRecord list"
  consents :: "ConsentRecord list"
  trail :: "(string \<times> string \<times> string) list"

section \<open>Tokens\<close>

definition insert_token :: "TokenRecord \<Rightarrow> OAuthStore \<Rightarrow> OAuthStore option" where
  "insert_token t s =
     (if list_ex (\<lambda>u. t_id u = t_id t \<or> t_hash u = t_hash t) (tokens s) then None
      else Some (s\<lparr>tokens := tokens s @ [t]\<rparr>))"

definition findByHash :: "string \<Rightarrow> OAuthStore \<Rightarrow> TokenRecord option" where
  "findByHash h s = find (\<lambda>t. t_hash t = h) (tokens s)"

definition update_tokens :: "(TokenRecord \<Rightarrow> bool) \<Rightarrow> (TokenRecord \<Rightarrow> TokenRecord) \<Rightarrow> OAuthStore \<Rightarrow> nat \<times> OAuthStore" where
  "update_tokens matches change s =
     (length (filter matches (tokens s)), s\<lparr>tokens := map (\<lambda>t. if matches t then change t else t) (tokens s)\<rparr>)"

definition markReplaced :: "string \<Rightarrow> string \<Rightarrow> OAuthStore \<Rightarrow> bool \<times> OAuthStore" where
  "markReplaced i replacedById s =
     (case update_tokens (\<lambda>t. t_id t = i \<and> t_replaced t = None) (\<lambda>t. t\<lparr>t_replaced := Some replacedById\<rparr>) s of
        (n, s') \<Rightarrow> (n = 1, s'))"

definition revoke_tokens :: "(TokenRecord \<Rightarrow> bool) \<Rightarrow> int \<Rightarrow> OAuthStore \<Rightarrow> nat \<times> OAuthStore" where
  "revoke_tokens matches now s =
     update_tokens (\<lambda>t. t_revoked t = None \<and> matches t) (\<lambda>t. t\<lparr>t_revoked := Some now\<rparr>) s"

definition revokeById :: "string \<Rightarrow> int \<Rightarrow> OAuthStore \<Rightarrow> nat \<times> OAuthStore" where
  "revokeById i = revoke_tokens (\<lambda>t. t_id t = i)"

definition revokeFamily :: "string \<Rightarrow> int \<Rightarrow> OAuthStore \<Rightarrow> nat \<times> OAuthStore" where
  "revokeFamily f = revoke_tokens (\<lambda>t. t_family t = f)"

definition revokeByConsent :: "string \<Rightarrow> int \<Rightarrow> OAuthStore \<Rightarrow> nat \<times> OAuthStore" where
  "revokeByConsent c = revoke_tokens (\<lambda>t. t_consent t = c)"

definition touchLastUsed :: "string \<Rightarrow> int \<Rightarrow> OAuthStore \<Rightarrow> OAuthStore" where
  "touchLastUsed i now s = snd (update_tokens (\<lambda>t. t_id t = i) (\<lambda>t. t\<lparr>t_used := Some now\<rparr>) s)"

section \<open>Authorization codes\<close>

definition insert_code :: "AuthorizationCodeRecord \<Rightarrow> OAuthStore \<Rightarrow> OAuthStore option" where
  "insert_code c s =
     (if list_ex (\<lambda>d. c_hash d = c_hash c) (codes s) then None else Some (s\<lparr>codes := codes s @ [c]\<rparr>))"

datatype ClaimOutcome = Claimed AuthorizationCodeRecord | Reused AuthorizationCodeRecord | UnknownCode

definition claim :: "string \<Rightarrow> int \<Rightarrow> OAuthStore \<Rightarrow> ClaimOutcome \<times> OAuthStore" where
  "claim h now s =
     (let matches = (\<lambda>c. c_hash c = h \<and> c_used c = None);
          changed = length (filter matches (codes s));
          s' = s\<lparr>codes := map (\<lambda>c. if matches c then c\<lparr>c_used := Some now\<rparr> else c) (codes s)\<rparr>
      in (case find (\<lambda>c. c_hash c = h) (codes s') of
            None \<Rightarrow> (UnknownCode, s')
          | Some c \<Rightarrow> (if changed = 1 then Claimed c else Reused c, s')))"

section \<open>Consents\<close>

definition findConsent :: "string \<Rightarrow> OAuthStore \<Rightarrow> ConsentRecord option" where
  "findConsent i s = find (\<lambda>n. n_id n = i) (consents s)"

text \<open>\<^verbatim>\<open>ORDER BY granted_at DESC LIMIT 1\<close>.\<close>

fun latest :: "ConsentRecord list \<Rightarrow> ConsentRecord option" where
  "latest [] = None"
| "latest (n # ns) =
     (case latest ns of None \<Rightarrow> Some n | Some m \<Rightarrow> if n_granted n \<ge> n_granted m then Some n else Some m)"

definition findActive :: "string \<Rightarrow> string \<Rightarrow> OAuthStore \<Rightarrow> ConsentRecord option" where
  "findActive operator client s =
     latest (filter (\<lambda>n. n_operator n = operator \<and> n_client n = client \<and> n_revoked n = None) (consents s))"

definition insert_consent :: "ConsentRecord \<Rightarrow> OAuthStore \<Rightarrow> OAuthStore option" where
  "insert_consent n s =
     (if list_ex (\<lambda>m. n_id m = n_id n) (consents s) then None else Some (s\<lparr>consents := consents s @ [n]\<rparr>))"

definition updateScopes :: "string \<Rightarrow> string list \<Rightarrow> OAuthStore \<Rightarrow> OAuthStore" where
  "updateScopes i scopes s = s\<lparr>consents := map (\<lambda>n. if n_id n = i then n\<lparr>n_scopes := scopes\<rparr> else n) (consents s)\<rparr>"

definition revoke_consent_row :: "string \<Rightarrow> int \<Rightarrow> OAuthStore \<Rightarrow> nat \<times> OAuthStore" where
  "revoke_consent_row i now s =
     (let matches = (\<lambda>n. n_id n = i \<and> n_revoked n = None) in
      (length (filter matches (consents s)),
       s\<lparr>consents := map (\<lambda>n. if matches n then n\<lparr>n_revoked := Some now\<rparr> else n) (consents s)\<rparr>))"

section \<open>Maintenance\<close>

definition TOKEN_GRACE_MS :: int where "TOKEN_GRACE_MS = 7 * 86400000"

definition retired_token :: "int \<Rightarrow> TokenRecord \<Rightarrow> bool" where
  "retired_token threshold t \<longleftrightarrow>
     (case t_revoked t of Some r \<Rightarrow> r \<le> threshold | None \<Rightarrow> False) \<or> t_expires t \<le> threshold"

definition forget_ids :: "string list \<Rightarrow> TokenRecord \<Rightarrow> TokenRecord" where
  "forget_ids gone t =
     t\<lparr>t_parent := (case t_parent t of Some i \<Rightarrow> if i \<in> set gone then None else Some i | None \<Rightarrow> None),
       t_replaced := (case t_replaced t of Some i \<Rightarrow> if i \<in> set gone then None else Some i | None \<Rightarrow> None)\<rparr>"

definition maintain :: "int \<Rightarrow> OAuthStore \<Rightarrow> OAuthStore" where
  "maintain now s =
     (let retired = retired_token (now - TOKEN_GRACE_MS);
          gone = map t_id (filter retired (tokens s))
      in s\<lparr>codes := filter (\<lambda>c. \<not> c_expires c \<le> now) (codes s),
           tokens := map (forget_ids gone) (filter (\<lambda>t. \<not> retired t) (tokens s))\<rparr>)"

section \<open>Lemmas\<close>

lemma find_Some_set: "find P xs = Some x \<Longrightarrow> x \<in> set xs \<and> P x"
  by (auto simp: find_Some_iff)

lemma insert_token_Some:
  "insert_token t s = Some s' \<longleftrightarrow>
     (\<forall>u \<in> set (tokens s). t_id u \<noteq> t_id t \<and> t_hash u \<noteq> t_hash t) \<and> s' = s\<lparr>tokens := tokens s @ [t]\<rparr>"
  by (auto simp: insert_token_def list_ex_iff)

lemma tokens_revoke [simp]:
  "tokens (snd (revoke_tokens P now s)) = map (\<lambda>t. if t_revoked t = None \<and> P t then t\<lparr>t_revoked := Some now\<rparr> else t) (tokens s)"
  "codes (snd (revoke_tokens P now s)) = codes s" "consents (snd (revoke_tokens P now s)) = consents s"
  "trail (snd (revoke_tokens P now s)) = trail s"
  by (simp_all add: revoke_tokens_def update_tokens_def)

lemma touchLastUsed_sel [simp]:
  "tokens (touchLastUsed i now s) = map (\<lambda>t. if t_id t = i then t\<lparr>t_used := Some now\<rparr> else t) (tokens s)"
  "codes (touchLastUsed i now s) = codes s" "consents (touchLastUsed i now s) = consents s"
  by (simp_all add: touchLastUsed_def update_tokens_def)

lemma markReplaced_sel [simp]:
  "tokens (snd (markReplaced i r s)) = map (\<lambda>t. if t_id t = i \<and> t_replaced t = None then t\<lparr>t_replaced := Some r\<rparr> else t) (tokens s)"
  "codes (snd (markReplaced i r s)) = codes s" "consents (snd (markReplaced i r s)) = consents s"
  "trail (snd (markReplaced i r s)) = trail s"
  by (simp_all add: markReplaced_def update_tokens_def)

lemma claim_sel:
  "tokens (snd (claim h now s)) = tokens s" "consents (snd (claim h now s)) = consents s"
  "trail (snd (claim h now s)) = trail s"
  "codes (snd (claim h now s)) = map (\<lambda>c. if c_hash c = h \<and> c_used c = None then c\<lparr>c_used := Some now\<rparr> else c) (codes s)"
  by (simp_all add: claim_def Let_def split: option.splits)

lemma forget_ids_sel [simp]:
  "t_id (forget_ids g t) = t_id t" "t_hash (forget_ids g t) = t_hash t" "t_kind (forget_ids g t) = t_kind t"
  "t_family (forget_ids g t) = t_family t" "t_expires (forget_ids g t) = t_expires t"
  "t_revoked (forget_ids g t) = t_revoked t" "t_consent (forget_ids g t) = t_consent t"
  "t_client (forget_ids g t) = t_client t" "t_resource (forget_ids g t) = t_resource t"
  by (simp_all add: forget_ids_def)

end
