(* ===== verification/OAuth.thy ===== *)
theory OAuth
  imports OAuthStore
begin

text \<open>
  The authorization server's credentials: \<^verbatim>\<open>src/oauth/credentials.ts\<close>, \<^verbatim>\<open>pkce.ts\<close>,
  \<^verbatim>\<open>token-issuance.ts\<close>, \<^verbatim>\<open>token.ts\<close>, \<^verbatim>\<open>token-refresh.ts\<close>, \<^verbatim>\<open>token-shared.ts\<close>, \<^verbatim>\<open>token-verifier.ts\<close>,
  \<^verbatim>\<open>revoke.ts\<close> and the code issuance of \<^verbatim>\<open>consent.ts\<close>. SHA-256 is a parameter (\<open>hash_of\<close>,
  \<open>challenge_of\<close>), and so is what the random source and the id source answer to a request
  (\<open>Minted\<close>). A request is handled at one instant.
\<close>

section \<open>Credentials\<close>

definition AUTHORIZATION_CODE_PREFIX :: string where "AUTHORIZATION_CODE_PREFIX = ''vg_ac_''"
definition ACCESS_TOKEN_PREFIX :: string where "ACCESS_TOKEN_PREFIX = ''vg_at_''"
definition REFRESH_TOKEN_PREFIX :: string where "REFRESH_TOKEN_PREFIX = ''vg_rt_''"

definition mintCredential :: "string \<Rightarrow> string \<Rightarrow> string" where
  "mintCredential pre body = pre @ body"

definition hasCredentialPrefix :: "string \<Rightarrow> string \<Rightarrow> bool" where
  "hasCredentialPrefix v pre \<longleftrightarrow> prefix pre v \<and> length pre < length v"

text \<open>\<^verbatim>\<open>indexOf('_', 3) + 1\<close> is 0 when there is no underscore.\<close>

definition auditPrefix :: "string \<Rightarrow> string" where
  "auditPrefix v =
     (let rest = from_first (CHR ''_'') (drop 3 v);
          bodyStart = (if rest = [] then 0 else length v - length rest + 1)
      in take (bodyStart + 8) v)"

record OAuthEnv =
  hash_of :: "string \<Rightarrow> string"
  challenge_of :: "string \<Rightarrow> string"
  resource_uri :: string
  accessTokenTtlMs :: int
  refreshTokenTtlMs :: int
  switches :: ScopeSwitches

record Minted =
  m_access :: string
  m_refresh :: string
  m_access_id :: string
  m_refresh_id :: string

section \<open>Errors and outcomes\<close>

datatype OAuthErrorCode =
  invalid_request | invalid_client | invalid_grant | unauthorized_client | unsupported_grant_type
  | unsupported_response_type | invalid_scope | invalid_target | access_denied
  | invalid_client_metadata | invalid_redirect_uri | temporarily_unavailable

definition oauthErrorStatus :: "OAuthErrorCode \<Rightarrow> nat" where
  "oauthErrorStatus e =
     (case e of invalid_client \<Rightarrow> 401 | temporarily_unavailable \<Rightarrow> 429 | _ \<Rightarrow> 400)"

text \<open>A request is answered, refused with an error of the protocol, or throws out of the store.\<close>

datatype 'a OAuthOutcome = Done 'a | Refused OAuthErrorCode | Threw

type_synonym FormFields = "string \<rightharpoonup> string"

definition requireField :: "FormFields \<Rightarrow> string \<Rightarrow> (string, OAuthErrorCode) result" where
  "requireField form name =
     (case form name of None \<Rightarrow> fail invalid_request
      | Some v \<Rightarrow> if v = [] then fail invalid_request else ok v)"

section \<open>PKCE\<close>

definition isValidCodeChallenge :: "string \<Rightarrow> bool" where
  "isValidCodeChallenge t \<longleftrightarrow> length t = 43 \<and> list_all (\<lambda>c. is_word c \<or> c = CHR ''-'') t"

definition isValidCodeVerifier :: "string \<Rightarrow> bool" where
  "isValidCodeVerifier t \<longleftrightarrow> 43 \<le> length t \<and> length t \<le> 128 \<and>
     list_all (\<lambda>c. is_word c \<or> c \<in> {CHR ''.'', CHR ''~'', CHR ''-''}) t"

definition isCodeVerifierFor :: "OAuthEnv \<Rightarrow> string \<Rightarrow> string \<Rightarrow> bool" where
  "isCodeVerifierFor env verifier challenge \<longleftrightarrow>
     isValidCodeVerifier verifier \<and> challenge_of env verifier = challenge"

section \<open>Issuance\<close>

record Grant =
  g_client :: string
  g_consent :: string
  g_family :: string
  g_parent :: "string option"
  g_scopes :: "string list"
  g_resource :: string
  g_refresh_expires :: "int option"

record IssuedPair =
  p_client :: string
  p_access :: string
  p_refresh :: string
  p_access_id :: string
  p_refresh_id :: string
  p_scopes :: "string list"
  p_expires_in :: int

text \<open>\<^verbatim>\<open>Math.ceil(milliseconds / 1000)\<close>.\<close>

definition toSeconds :: "int \<Rightarrow> int" where
  "toSeconds ms = - ((- ms) div 1000)"

definition access_record :: "OAuthEnv \<Rightarrow> Grant \<Rightarrow> Minted \<Rightarrow> int \<Rightarrow> TokenRecord" where
  "access_record env grant fresh now =
     \<lparr>t_id = m_access_id fresh, t_hash = hash_of env (mintCredential ACCESS_TOKEN_PREFIX (m_access fresh)),
      t_kind = AccessToken, t_family = g_family grant, t_parent = g_parent grant, t_replaced = None,
      t_client = g_client grant, t_consent = g_consent grant, t_scopes = g_scopes grant,
      t_resource = g_resource grant, t_issued = now, t_expires = now + accessTokenTtlMs env,
      t_revoked = None, t_used = None\<rparr>"

definition refresh_record :: "OAuthEnv \<Rightarrow> Grant \<Rightarrow> Minted \<Rightarrow> int \<Rightarrow> TokenRecord" where
  "refresh_record env grant fresh now =
     \<lparr>t_id = m_refresh_id fresh, t_hash = hash_of env (mintCredential REFRESH_TOKEN_PREFIX (m_refresh fresh)),
      t_kind = RefreshToken, t_family = g_family grant, t_parent = g_parent grant, t_replaced = None,
      t_client = g_client grant, t_consent = g_consent grant, t_scopes = g_scopes grant,
      t_resource = g_resource grant, t_issued = now,
      t_expires = (case g_refresh_expires grant of Some e \<Rightarrow> e | None \<Rightarrow> now + refreshTokenTtlMs env),
      t_revoked = None, t_used = None\<rparr>"

text \<open>The second component is \<open>None\<close> when an \<open>INSERT\<close> throws; the first may keep the row before it.\<close>

definition issueTokenPair :: "OAuthEnv \<Rightarrow> Grant \<Rightarrow> Minted \<Rightarrow> int \<Rightarrow> OAuthStore \<Rightarrow> OAuthStore \<times> IssuedPair option" where
  "issueTokenPair env grant fresh now s =
     (case insert_token (access_record env grant fresh now) s of
        None \<Rightarrow> (s, None)
      | Some s1 \<Rightarrow>
        (case insert_token (refresh_record env grant fresh now) s1 of
           None \<Rightarrow> (s1, None)
         | Some s2 \<Rightarrow>
           (s2, Some \<lparr>p_client = g_client grant,
              p_access = mintCredential ACCESS_TOKEN_PREFIX (m_access fresh),
              p_refresh = mintCredential REFRESH_TOKEN_PREFIX (m_refresh fresh),
              p_access_id = m_access_id fresh, p_refresh_id = m_refresh_id fresh,
              p_scopes = g_scopes grant, p_expires_in = toSeconds (accessTokenTtlMs env)\<rparr>)))"

definition isConsentActive :: "OAuthStore \<Rightarrow> string \<Rightarrow> bool" where
  "isConsentActive s i \<longleftrightarrow> (case findConsent i s of Some n \<Rightarrow> n_revoked n = None | None \<Rightarrow> False)"

definition audit_row :: "string \<Rightarrow> string \<Rightarrow> string \<Rightarrow> OAuthStore \<Rightarrow> OAuthStore" where
  "audit_row action client credential s = s\<lparr>trail := trail s @ [(action, client, auditPrefix credential)]\<rparr>"

section \<open>Redeeming a code\<close>

record CodeRequest =
  q_code :: string
  q_client :: string
  q_redirect :: string
  q_verifier :: string
  q_resource :: string

text \<open>The loop over the required fields, in the code's order.\<close>

fun required_values :: "FormFields \<Rightarrow> string list \<Rightarrow> (string list, OAuthErrorCode) result" where
  "required_values form [] = ok []"
| "required_values form (name # names) =
     (case requireField form name of
        Inl e \<Rightarrow> fail e
      | Inr v \<Rightarrow> (case required_values form names of Inl e \<Rightarrow> fail e | Inr vs \<Rightarrow> ok (v # vs)))"

definition readCodeRequest :: "OAuthEnv \<Rightarrow> FormFields \<Rightarrow> (CodeRequest, OAuthErrorCode) result" where
  "readCodeRequest env form =
     (case required_values form [''code'', ''client_id'', ''redirect_uri'', ''code_verifier'', ''resource''] of
        Inl e \<Rightarrow> fail e
      | Inr values \<Rightarrow>
        (let r = \<lparr>q_code = values ! 0, q_client = values ! 1, q_redirect = values ! 2,
                  q_verifier = values ! 3, q_resource = values ! 4\<rparr>
         in if q_resource r \<noteq> resource_uri env then fail invalid_target
            else if hasCredentialPrefix (q_code r) AUTHORIZATION_CODE_PREFIX then ok r
            else fail invalid_grant))"

definition claimCode :: "OAuthEnv \<Rightarrow> string \<Rightarrow> int \<Rightarrow> OAuthStore \<Rightarrow> (AuthorizationCodeRecord, OAuthErrorCode) result \<times> OAuthStore" where
  "claimCode env code now s =
     (let h = hash_of env code in
      case claim h now s of
        (UnknownCode, s') \<Rightarrow> (fail invalid_grant, s')
      | (Reused c, s') \<Rightarrow>
          (fail invalid_grant, audit_row ''token_revoked'' (c_client c) code (snd (revokeFamily h now s')))
      | (Claimed c, s') \<Rightarrow> (ok c, s'))"

definition redeemCode ::
  "OAuthEnv \<Rightarrow> FormFields \<Rightarrow> Minted \<Rightarrow> int \<Rightarrow> OAuthStore \<Rightarrow> IssuedPair OAuthOutcome \<times> OAuthStore" where
  "redeemCode env form fresh now s =
     (case readCodeRequest env form of
        Inl e \<Rightarrow> (Refused e, s)
      | Inr r \<Rightarrow>
        (case claimCode env (q_code r) now s of
           (Inl e, s') \<Rightarrow> (Refused e, s')
         | (Inr stored, s') \<Rightarrow>
           (let isBound = c_expires stored > now \<and> c_client stored = q_client r \<and>
                  c_redirect stored = q_redirect r \<and> c_resource stored = q_resource r \<and>
                  isConsentActive s' (c_consent stored)
            in if \<not> isBound then (Refused invalid_grant, s')
               else if \<not> isCodeVerifierFor env (q_verifier r) (c_challenge stored) then (Refused invalid_grant, s')
               else
                (case issueTokenPair env
                   \<lparr>g_client = c_client stored, g_consent = c_consent stored, g_family = c_hash stored,
                    g_parent = None, g_scopes = c_scopes stored, g_resource = q_resource r,
                    g_refresh_expires = None\<rparr> fresh now s' of
                   (s'', Some pair) \<Rightarrow> (Done pair, s'')
                 | (s'', None) \<Rightarrow> (Threw, s'')))))"

section \<open>Refreshing\<close>

definition replayed :: "OAuthEnv \<Rightarrow> TokenRecord \<Rightarrow> string \<Rightarrow> int \<Rightarrow> OAuthStore \<Rightarrow> OAuthStore" where
  "replayed env record presented now s =
     audit_row ''token_revoked'' (t_client record) presented (snd (revokeFamily (t_family record) now s))"

definition isUsableBy :: "TokenRecord \<Rightarrow> string \<Rightarrow> int \<Rightarrow> bool" where
  "isUsableBy record client now \<longleftrightarrow> t_expires record > now \<and> client = t_client record"

definition liveRefreshToken ::
  "OAuthEnv \<Rightarrow> FormFields \<Rightarrow> int \<Rightarrow> OAuthStore \<Rightarrow> (TokenRecord, OAuthErrorCode) result \<times> OAuthStore" where
  "liveRefreshToken env form now s =
     (case requireField form ''refresh_token'' of
        Inl e \<Rightarrow> (fail e, s)
      | Inr presented \<Rightarrow>
        (case requireField form ''client_id'' of
           Inl e \<Rightarrow> (fail e, s)
         | Inr client \<Rightarrow>
           (case (if hasCredentialPrefix presented REFRESH_TOKEN_PREFIX
                  then findByHash (hash_of env presented) s else None) of
              None \<Rightarrow> (fail invalid_grant, s)
            | Some record \<Rightarrow>
              (if t_kind record \<noteq> RefreshToken \<or> t_revoked record \<noteq> None then (fail invalid_grant, s)
               else if t_replaced record \<noteq> None then (fail invalid_grant, replayed env record presented now s)
               else if \<not> isUsableBy record client now then (fail invalid_grant, s)
               else if isConsentActive s (t_consent record) then (ok record, s)
               else (fail invalid_grant, s)))))"

definition refresh ::
  "OAuthEnv \<Rightarrow> FormFields \<Rightarrow> Minted \<Rightarrow> int \<Rightarrow> OAuthStore \<Rightarrow> IssuedPair OAuthOutcome \<times> OAuthStore" where
  "refresh env form fresh now s =
     (case liveRefreshToken env form now s of
        (Inl e, s') \<Rightarrow> (Refused e, s')
      | (Inr record, s') \<Rightarrow>
        (if form ''resource'' \<noteq> None \<and> form ''resource'' \<noteq> Some (t_resource record) then (Refused invalid_target, s')
         else
          (case parseScopeParameter (form ''scope'') (enabledScopes (switches env)) of
             Inl _ \<Rightarrow> (Refused invalid_scope, s')
           | Inr scopes \<Rightarrow>
             (let requested = (if form ''scope'' \<noteq> None then scopes else t_scopes record) in
              if \<not> isScopeSubset requested (t_scopes record) then (Refused invalid_scope, s')
              else
               (case issueTokenPair env
                  \<lparr>g_client = t_client record, g_consent = t_consent record, g_family = t_family record,
                   g_parent = Some (t_id record), g_scopes = requested, g_resource = t_resource record,
                   g_refresh_expires = Some (t_expires record)\<rparr> fresh now s' of
                  (_, None) \<Rightarrow> (Threw, s')
                | (s'', Some pair) \<Rightarrow>
                  (case markReplaced (t_id record) (p_refresh_id pair) s'' of
                     (True, s3) \<Rightarrow> (Done pair, s3)
                   | (False, s3) \<Rightarrow> (Refused invalid_grant, snd (revokeFamily (t_family record) now s3))))))))"

section \<open>The token endpoint\<close>

definition token_grant ::
  "OAuthEnv \<Rightarrow> FormFields \<Rightarrow> Minted \<Rightarrow> int \<Rightarrow> OAuthStore \<Rightarrow> IssuedPair OAuthOutcome \<times> OAuthStore" where
  "token_grant env form fresh now s =
     (if form ''grant_type'' = Some ''authorization_code'' then
        (case redeemCode env form fresh now s of
           (Done pair, s') \<Rightarrow> (Done pair, audit_row ''token_issued'' (p_client pair) (p_access pair) s')
         | r \<Rightarrow> r)
      else if form ''grant_type'' = Some ''refresh_token'' then
        (case refresh env form fresh now s of
           (Done pair, s') \<Rightarrow> (Done pair, audit_row ''token_refreshed'' (p_client pair) (p_access pair) s')
         | r \<Rightarrow> r)
      else (Refused unsupported_grant_type, s))"

section \<open>Revocation\<close>

definition revokeToken :: "OAuthEnv \<Rightarrow> string \<Rightarrow> int \<Rightarrow> OAuthStore \<Rightarrow> OAuthStore" where
  "revokeToken env token now s =
     (if \<not> hasCredentialPrefix token ACCESS_TOKEN_PREFIX \<and> \<not> hasCredentialPrefix token REFRESH_TOKEN_PREFIX then s
      else
       (case findByHash (hash_of env token) s of
          None \<Rightarrow> s
        | Some record \<Rightarrow>
            audit_row ''token_revoked'' (t_client record) token
              (snd (if t_kind record = RefreshToken then revokeFamily (t_family record) now s
                    else revokeById (t_id record) now s))))"

definition revokeConsent :: "string \<Rightarrow> string \<Rightarrow> int \<Rightarrow> OAuthStore \<Rightarrow> nat option \<times> OAuthStore" where
  "revokeConsent operator i now s =
     (case findConsent i s of
        None \<Rightarrow> (None, s)
      | Some n \<Rightarrow>
        (if n_operator n \<noteq> operator then (None, s)
         else
          (case revoke_consent_row i now s of
             (count, s') \<Rightarrow>
               if count = 0 then (None, s')
               else (case revokeByConsent i now s' of
                 (revoked, s'') \<Rightarrow> (Some revoked, audit_row ''consent_revoked'' (n_client n) [] s'')))))"

section \<open>Verification\<close>

datatype TokenRejection = Malformed | UnknownToken | RevokedToken | ExpiredToken

record VerifiedToken =
  v_client :: string
  v_subject :: string
  v_scopes :: "string list"
  v_expires :: int

definition LAST_USED_GRANULARITY_MS :: int where "LAST_USED_GRANULARITY_MS = 60000"

definition findLiveToken :: "OAuthEnv \<Rightarrow> string \<Rightarrow> int \<Rightarrow> OAuthStore \<Rightarrow> (TokenRecord \<times> ConsentRecord, TokenRejection) result" where
  "findLiveToken env h now s =
     (case findByHash h s of
        None \<Rightarrow> fail UnknownToken
      | Some record \<Rightarrow>
        (if t_kind record \<noteq> AccessToken then fail UnknownToken
         else if t_revoked record \<noteq> None then fail RevokedToken
         else if t_expires record \<le> now then fail ExpiredToken
         else if t_resource record \<noteq> resource_uri env then fail UnknownToken
         else (case findConsent (t_consent record) s of
             None \<Rightarrow> fail RevokedToken
           | Some n \<Rightarrow> if n_revoked n \<noteq> None then fail RevokedToken else ok (record, n))))"

definition verify :: "OAuthEnv \<Rightarrow> string \<Rightarrow> int \<Rightarrow> OAuthStore \<Rightarrow> (VerifiedToken, TokenRejection) result \<times> OAuthStore" where
  "verify env token now s =
     (if \<not> hasCredentialPrefix token ACCESS_TOKEN_PREFIX then (fail Malformed, s)
      else
       (case findLiveToken env (hash_of env token) now s of
          Inl e \<Rightarrow> (fail e, s)
        | Inr (record, n) \<Rightarrow>
            (ok \<lparr>v_client = t_client record, v_subject = n_operator n, v_scopes = t_scopes record, v_expires = t_expires record\<rparr>,
             (if (case t_used record of None \<Rightarrow> True | Some u \<Rightarrow> LAST_USED_GRANULARITY_MS \<le> now - u)
              then touchLastUsed (t_id record) now s else s))))"

section \<open>Consent\<close>

record Decision =
  d_operator :: string
  d_client :: string
  d_redirect :: string
  d_challenge :: string
  d_resource :: string
  d_pending :: "scope list"

definition CODE_TTL_MS :: int where "CODE_TTL_MS = 5 * 60 * 1000"

definition offeredScopes :: "OAuthEnv \<Rightarrow> scope list \<Rightarrow> scope list" where
  "offeredScopes env pending = filter (\<lambda>s. s \<notin> set pending) (enabledScopes (switches env))"

definition scopeFieldName :: "scope \<Rightarrow> string" where "scopeFieldName s = ''scope:'' @ s"

definition tickedScopes :: "OAuthEnv \<Rightarrow> scope list \<Rightarrow> FormFields \<Rightarrow> scope list" where
  "tickedScopes env pending form =
     filter (\<lambda>s. form (scopeFieldName s) = Some ''on'') (pending @ offeredScopes env pending)"

text \<open>\<open>body\<close> and \<open>consentId\<close> are what the random and id sources answer; \<open>None\<close> throws and rolls back.\<close>

definition issueCode :: "OAuthEnv \<Rightarrow> Decision \<Rightarrow> scope list \<Rightarrow> string \<Rightarrow> string \<Rightarrow> int \<Rightarrow> OAuthStore \<Rightarrow> (string \<times> OAuthStore) option" where
  "issueCode env d scopes body consentId now s =
     (let code = mintCredential AUTHORIZATION_CODE_PREFIX body;
          consented = (case findActive (d_operator d) (d_client d) s of
            None \<Rightarrow> map_option (\<lambda>s'. (consentId, s'))
              (insert_consent \<lparr>n_id = consentId, n_operator = d_operator d, n_client = d_client d,
                 n_scopes = scopes, n_granted = now, n_revoked = None\<rparr> s)
          | Some n \<Rightarrow> Some (n_id n, updateScopes (n_id n) (js_set (n_scopes n @ scopes)) s))
      in Option.bind consented (\<lambda>(i, s').
           map_option (\<lambda>s''. (code, s''))
             (insert_code \<lparr>c_hash = hash_of env code, c_client = d_client d, c_consent = i,
                c_redirect = d_redirect d, c_challenge = d_challenge d, c_resource = d_resource d,
                c_scopes = scopes, c_expires = now + CODE_TTL_MS, c_used = None\<rparr> s')))"

definition approve :: "OAuthEnv \<Rightarrow> Decision \<Rightarrow> FormFields \<Rightarrow> string \<Rightarrow> string \<Rightarrow> int \<Rightarrow> OAuthStore \<Rightarrow> string option OAuthOutcome \<times> OAuthStore" where
  "approve env d form body consentId now s =
     (let scopes = tickedScopes env (d_pending d) form in
      if scopes = [] then (Refused access_denied, audit_row ''consent_denied'' (d_client d) [] s)
      else (case issueCode env d scopes body consentId now s of
          None \<Rightarrow> (Threw, s)
        | Some (code, s') \<Rightarrow> (Done (Some code), audit_row ''consent_granted'' (d_client d) code s')))"

end
