(* ===== verification/OAuthSafety.thy ===== *)
theory OAuthSafety
  imports OAuth
begin

text \<open>
  The invariant of the authorization server's rows, and that every operation keeps it: ids and
  hashes are unique, a family has one client, consent and resource, at most one refresh token of
  it is live, its refresh tokens share an expiry and die together.
\<close>

section \<open>How an operation changes the tokens\<close>

text \<open>
  Every operation is a sequence of small changes of the rows. Each keeps the invariant below, so
  the operations do.
\<close>

definition rows_core :: "TokenRecord list \<Rightarrow> AuthorizationCodeRecord list \<Rightarrow> bool" where
  "rows_core ts cs \<longleftrightarrow>
     distinct (map t_id ts) \<and> distinct (map t_hash ts) \<and> distinct (map c_hash cs) \<and>
     (\<forall>c \<in> set cs. c_used c = None \<longrightarrow> (\<forall>t \<in> set ts. t_family t \<noteq> c_hash c)) \<and>
     (\<forall>a \<in> set ts. \<forall>b \<in> set ts. t_family a = t_family b \<longrightarrow>
        t_consent a = t_consent b \<and> t_client a = t_client b \<and> t_resource a = t_resource b \<and>
        (t_kind a = RefreshToken \<longrightarrow> t_kind b = RefreshToken \<longrightarrow> t_expires a = t_expires b) \<and>
        (t_kind a = RefreshToken \<longrightarrow> t_revoked a \<noteq> None \<longrightarrow> t_revoked b \<noteq> None) \<and>
        (t_kind a = RefreshToken \<longrightarrow> t_kind b = RefreshToken \<longrightarrow> t_revoked a = None \<longrightarrow> t_replaced a = None \<longrightarrow>
           t_replaced b = None \<longrightarrow> t_id a = t_id b))"

text \<open>A replaced token is a refresh token, and what replaced it is one of its family.\<close>

definition replaced_by :: "TokenRecord \<Rightarrow> string \<Rightarrow> TokenRecord list \<Rightarrow> bool" where
  "replaced_by a i ts \<longleftrightarrow>
     t_kind a = RefreshToken \<and> (\<exists>b \<in> set ts. t_id b = i \<and> t_kind b = RefreshToken \<and> t_family b = t_family a)"

definition rows_inv :: "TokenRecord list \<Rightarrow> AuthorizationCodeRecord list \<Rightarrow> bool" where
  "rows_inv ts cs \<longleftrightarrow> rows_core ts cs \<and>
     (\<forall>a \<in> set ts. case t_replaced a of None \<Rightarrow> True | Some i \<Rightarrow> replaced_by a i ts)"

definition store_inv :: "OAuthStore \<Rightarrow> bool" where
  "store_inv s \<longleftrightarrow> rows_inv (tokens s) (codes s)"

lemma store_inv_empty [simp]: "rows_inv [] []"
  by (simp add: rows_inv_def rows_core_def)

lemma store_inv_audit [simp]: "store_inv (audit_row a c v s) = store_inv s"
  by (simp add: store_inv_def audit_row_def)

lemma rows_invD:
  assumes "rows_inv ts cs"
  shows "distinct (map t_id ts)" "distinct (map t_hash ts)" "distinct (map c_hash cs)"
    and "\<And>c t. c \<in> set cs \<Longrightarrow> c_used c = None \<Longrightarrow> t \<in> set ts \<Longrightarrow> t_family t \<noteq> c_hash c"
    and "\<And>a b. a \<in> set ts \<Longrightarrow> b \<in> set ts \<Longrightarrow> t_family a = t_family b \<Longrightarrow>
      t_consent a = t_consent b \<and> t_client a = t_client b \<and> t_resource a = t_resource b"
    and "\<And>a b. a \<in> set ts \<Longrightarrow> b \<in> set ts \<Longrightarrow> t_family a = t_family b \<Longrightarrow> t_kind a = RefreshToken \<Longrightarrow>
      t_kind b = RefreshToken \<Longrightarrow> t_expires a = t_expires b"
    and "\<And>a b. a \<in> set ts \<Longrightarrow> b \<in> set ts \<Longrightarrow> t_family a = t_family b \<Longrightarrow> t_kind a = RefreshToken \<Longrightarrow>
      t_revoked a \<noteq> None \<Longrightarrow> t_revoked b \<noteq> None"
    and "\<And>a b. a \<in> set ts \<Longrightarrow> b \<in> set ts \<Longrightarrow> t_family a = t_family b \<Longrightarrow> t_kind a = RefreshToken \<Longrightarrow>
      t_kind b = RefreshToken \<Longrightarrow> t_revoked a = None \<Longrightarrow> t_replaced a = None \<Longrightarrow> t_replaced b = None \<Longrightarrow> t_id a = t_id b"
    and "\<And>a i. a \<in> set ts \<Longrightarrow> t_replaced a = Some i \<Longrightarrow>
      t_kind a = RefreshToken \<and> (\<exists>b \<in> set ts. t_id b = i \<and> t_kind b = RefreshToken \<and> t_family b = t_family a)"
proof -
  have core: "rows_core ts cs" using assms by (simp add: rows_inv_def)
  show "distinct (map t_id ts)" "distinct (map t_hash ts)" "distinct (map c_hash cs)"
    and "\<And>c t. c \<in> set cs \<Longrightarrow> c_used c = None \<Longrightarrow> t \<in> set ts \<Longrightarrow> t_family t \<noteq> c_hash c"
    and "\<And>a b. a \<in> set ts \<Longrightarrow> b \<in> set ts \<Longrightarrow> t_family a = t_family b \<Longrightarrow>
      t_consent a = t_consent b \<and> t_client a = t_client b \<and> t_resource a = t_resource b"
    and "\<And>a b. a \<in> set ts \<Longrightarrow> b \<in> set ts \<Longrightarrow> t_family a = t_family b \<Longrightarrow> t_kind a = RefreshToken \<Longrightarrow>
      t_kind b = RefreshToken \<Longrightarrow> t_expires a = t_expires b"
    and "\<And>a b. a \<in> set ts \<Longrightarrow> b \<in> set ts \<Longrightarrow> t_family a = t_family b \<Longrightarrow> t_kind a = RefreshToken \<Longrightarrow>
      t_revoked a \<noteq> None \<Longrightarrow> t_revoked b \<noteq> None"
    and "\<And>a b. a \<in> set ts \<Longrightarrow> b \<in> set ts \<Longrightarrow> t_family a = t_family b \<Longrightarrow> t_kind a = RefreshToken \<Longrightarrow>
      t_kind b = RefreshToken \<Longrightarrow> t_revoked a = None \<Longrightarrow> t_replaced a = None \<Longrightarrow> t_replaced b = None \<Longrightarrow> t_id a = t_id b"
    using core unfolding rows_core_def by blast+
  show "\<And>a i. a \<in> set ts \<Longrightarrow> t_replaced a = Some i \<Longrightarrow>
      t_kind a = RefreshToken \<and> (\<exists>b \<in> set ts. t_id b = i \<and> t_kind b = RefreshToken \<and> t_family b = t_family a)"
    using assms unfolding rows_inv_def by (fastforce simp: replaced_by_def)
qed

lemma rows_invI:
  assumes "distinct (map t_id ts)" "distinct (map t_hash ts)" "distinct (map c_hash cs)"
    and "\<And>c t. c \<in> set cs \<Longrightarrow> c_used c = None \<Longrightarrow> t \<in> set ts \<Longrightarrow> t_family t \<noteq> c_hash c"
    and "\<And>a b. a \<in> set ts \<Longrightarrow> b \<in> set ts \<Longrightarrow> t_family a = t_family b \<Longrightarrow>
      t_consent a = t_consent b \<and> t_client a = t_client b \<and> t_resource a = t_resource b"
    and "\<And>a b. a \<in> set ts \<Longrightarrow> b \<in> set ts \<Longrightarrow> t_family a = t_family b \<Longrightarrow> t_kind a = RefreshToken \<Longrightarrow>
      t_kind b = RefreshToken \<Longrightarrow> t_expires a = t_expires b"
    and "\<And>a b. a \<in> set ts \<Longrightarrow> b \<in> set ts \<Longrightarrow> t_family a = t_family b \<Longrightarrow> t_kind a = RefreshToken \<Longrightarrow>
      t_revoked a \<noteq> None \<Longrightarrow> t_revoked b \<noteq> None"
    and "\<And>a b. a \<in> set ts \<Longrightarrow> b \<in> set ts \<Longrightarrow> t_family a = t_family b \<Longrightarrow> t_kind a = RefreshToken \<Longrightarrow>
      t_kind b = RefreshToken \<Longrightarrow> t_revoked a = None \<Longrightarrow> t_replaced a = None \<Longrightarrow> t_replaced b = None \<Longrightarrow> t_id a = t_id b"
    and "\<And>a i. a \<in> set ts \<Longrightarrow> t_replaced a = Some i \<Longrightarrow>
      t_kind a = RefreshToken \<and> (\<exists>b \<in> set ts. t_id b = i \<and> t_kind b = RefreshToken \<and> t_family b = t_family a)"
  shows "rows_inv ts cs"
proof -
  have "rows_core ts cs" unfolding rows_core_def using assms(1-8) by blast
  with assms(9) show ?thesis by (auto simp: rows_inv_def replaced_by_def split: option.splits)
qed

lemma rows_inv_unique: "rows_inv ts cs \<Longrightarrow> a \<in> set ts \<Longrightarrow> b \<in> set ts \<Longrightarrow> t_id a = t_id b \<Longrightarrow> a = b"
  by (auto dest!: rows_invD(1) simp: distinct_map inj_on_def)

text \<open>
  Revoking a set of rows that is a union of families, or a single access token, keeps the invariant.
\<close>

definition revoke_row :: "(TokenRecord \<Rightarrow> bool) \<Rightarrow> int \<Rightarrow> TokenRecord \<Rightarrow> TokenRecord" where
  "revoke_row P now t = (if t_revoked t = None \<and> P t then t\<lparr>t_revoked := Some now\<rparr> else t)"

lemma revoke_row_sel [simp]:
  "t_id (revoke_row P now t) = t_id t" "t_hash (revoke_row P now t) = t_hash t" "t_kind (revoke_row P now t) = t_kind t"
  "t_family (revoke_row P now t) = t_family t" "t_consent (revoke_row P now t) = t_consent t"
  "t_client (revoke_row P now t) = t_client t" "t_resource (revoke_row P now t) = t_resource t"
  "t_expires (revoke_row P now t) = t_expires t" "t_replaced (revoke_row P now t) = t_replaced t"
  "t_scopes (revoke_row P now t) = t_scopes t"
  "t_revoked (revoke_row P now t) = None \<longleftrightarrow> t_revoked t = None \<and> \<not> P t"
  by (auto simp: revoke_row_def)

lemma rows_inv_map:
  assumes inv: "rows_inv ts cs"
    and same: "\<And>t. t_id (f t) = t_id t \<and> t_hash (f t) = t_hash t \<and> t_kind (f t) = t_kind t \<and>
      t_family (f t) = t_family t \<and> t_consent (f t) = t_consent t \<and> t_client (f t) = t_client t \<and>
      t_resource (f t) = t_resource t \<and> t_expires (f t) = t_expires t \<and> t_replaced (f t) = t_replaced t"
    and keeps: "\<And>t. t_revoked (f t) = None \<Longrightarrow> t_revoked t = None"
    and closed: "\<And>a b. a \<in> set ts \<Longrightarrow> b \<in> set ts \<Longrightarrow> t_family a = t_family b \<Longrightarrow> t_kind a = RefreshToken \<Longrightarrow>
      t_revoked (f a) \<noteq> None \<Longrightarrow> t_revoked (f b) \<noteq> None"
  shows "rows_inv (map f ts) cs"
proof -
  note d = rows_invD [OF inv]
  show ?thesis
  proof (rule rows_invI)
    show "distinct (map t_id (map f ts))" "distinct (map t_hash (map f ts))" "distinct (map c_hash cs)"
      using d(1-3) same by (simp_all add: comp_def)
    show "t_family t \<noteq> c_hash c" if "c \<in> set cs" "c_used c = None" "t \<in> set (map f ts)" for c t
      using that d(4) same by auto
    fix a assume "a \<in> set (map f ts)"
    then obtain x where x: "a = f x" "x \<in> set ts" by auto
    show "t_kind a = RefreshToken \<and> (\<exists>b \<in> set (map f ts). t_id b = i \<and> t_kind b = RefreshToken \<and> t_family b = t_family a)"
      if "t_replaced a = Some i" for i
    proof -
      from that x d(9) [of x i] same obtain y where "t_kind x = RefreshToken" "y \<in> set ts" "t_id y = i"
        "t_kind y = RefreshToken" "t_family y = t_family x" by auto
      then show ?thesis unfolding x(1) using same by (intro conjI bexI [of _ "f y"]) simp_all
    qed
    fix b assume "b \<in> set (map f ts)" and "t_family a = t_family b"
    then obtain y where y: "b = f y" "y \<in> set ts" and fam: "t_family x = t_family y" using x same by auto
    show "t_consent a = t_consent b \<and> t_client a = t_client b \<and> t_resource a = t_resource b"
      using d(5) [OF x(2) y(2) fam] x(1) y(1) same by auto
    show "t_kind a = RefreshToken \<Longrightarrow> t_kind b = RefreshToken \<Longrightarrow> t_expires a = t_expires b"
      using d(6) [OF x(2) y(2) fam] x(1) y(1) same by auto
    show "t_kind a = RefreshToken \<Longrightarrow> t_revoked a \<noteq> None \<Longrightarrow> t_revoked b \<noteq> None"
      using closed [OF x(2) y(2) fam] x(1) y(1) same by auto
    show "t_kind a = RefreshToken \<Longrightarrow> t_kind b = RefreshToken \<Longrightarrow> t_revoked a = None \<Longrightarrow> t_replaced a = None \<Longrightarrow>
        t_replaced b = None \<Longrightarrow> t_id a = t_id b"
      using d(8) [OF x(2) y(2) fam] keeps [of x] x(1) y(1) same by auto
  qed
qed

lemma store_inv_revoke:
  assumes "store_inv s"
    and closed: "\<And>a b. a \<in> set (tokens s) \<Longrightarrow> b \<in> set (tokens s) \<Longrightarrow> t_family a = t_family b \<Longrightarrow>
      t_kind a = RefreshToken \<Longrightarrow> P a \<Longrightarrow> P b"
  shows "store_inv (snd (revoke_tokens P now s))"
proof -
  have "rows_inv (map (revoke_row P now) (tokens s)) (codes s)"
  proof (rule rows_inv_map)
    show inv: "rows_inv (tokens s) (codes s)" using assms(1) by (simp add: store_inv_def)
    fix a b assume ab: "a \<in> set (tokens s)" "b \<in> set (tokens s)" "t_family a = t_family b" "t_kind a = RefreshToken"
      and r: "t_revoked (revoke_row P now a) \<noteq> None"
    from r consider "t_revoked a \<noteq> None" | "P a" by auto
    then show "t_revoked (revoke_row P now b) \<noteq> None"
      using closed [OF ab] rows_invD(7) [OF inv ab] by cases auto
  qed auto
  moreover have "revoke_row P now = (\<lambda>t. if t_revoked t = None \<and> P t then t\<lparr>t_revoked := Some now\<rparr> else t)"
    by (rule ext) (simp add: revoke_row_def)
  ultimately show ?thesis by (simp add: store_inv_def)
qed

lemma store_inv_revokeFamily: "store_inv s \<Longrightarrow> store_inv (snd (revokeFamily f now s))"
  unfolding revokeFamily_def by (rule store_inv_revoke) auto

lemma store_inv_revokeByConsent: "store_inv s \<Longrightarrow> store_inv (snd (revokeByConsent c now s))"
  unfolding revokeByConsent_def
  by (rule store_inv_revoke) (auto simp: store_inv_def dest: rows_invD(5))

lemma store_inv_revokeById:
  assumes "store_inv s" and "\<And>t. t \<in> set (tokens s) \<Longrightarrow> t_id t = i \<Longrightarrow> t_kind t = AccessToken"
  shows "store_inv (snd (revokeById i now s))"
  unfolding revokeById_def using assms by (intro store_inv_revoke) auto

lemma store_inv_touch:
  assumes "store_inv s" shows "store_inv (touchLastUsed i now s)"
proof -
  have "rows_inv (map (\<lambda>t. if t_id t = i then t\<lparr>t_used := Some now\<rparr> else t) (tokens s)) (codes s)"
    using assms rows_invD(7) [of "tokens s" "codes s"]
    by (intro rows_inv_map) (auto simp: store_inv_def split: if_splits)
  then show ?thesis by (simp add: store_inv_def)
qed

text \<open>Using up a code keeps it, dropping codes and adding an unused one for a fresh family too.\<close>

lemma rows_inv_claim:
  assumes "rows_inv ts cs"
  shows "rows_inv ts (map (\<lambda>c. if c_hash c = h \<and> c_used c = None then c\<lparr>c_used := Some now\<rparr> else c) cs)"
proof (rule rows_invI)
  have "map c_hash (map (\<lambda>c. if c_hash c = h \<and> c_used c = None then c\<lparr>c_used := Some now\<rparr> else c) cs) = map c_hash cs"
    by (induction cs) auto
  then show "distinct (map c_hash (map (\<lambda>c. if c_hash c = h \<and> c_used c = None then c\<lparr>c_used := Some now\<rparr> else c) cs))"
    using rows_invD(3) [OF assms] by (simp only:)
  show "t_family t \<noteq> c_hash c"
    if "c \<in> set (map (\<lambda>c. if c_hash c = h \<and> c_used c = None then c\<lparr>c_used := Some now\<rparr> else c) cs)"
      "c_used c = None" "t \<in> set ts" for c t
    using that rows_invD(4) [OF assms] by (auto split: if_splits)
qed (use rows_invD [OF assms] in blast)+

lemma store_inv_claim: "store_inv s \<Longrightarrow> store_inv (snd (claim h now s))"
  unfolding store_inv_def claim_sel by (rule rows_inv_claim)

lemma store_inv_insert_code:
  assumes "store_inv s" "insert_code c s = Some s'" and "\<forall>t \<in> set (tokens s). t_family t \<noteq> c_hash c"
  shows "store_inv s'"
proof -
  from assms(2) have s': "s' = s\<lparr>codes := codes s @ [c]\<rparr>" and new: "c_hash c \<notin> c_hash ` set (codes s)"
    by (auto simp: insert_code_def list_ex_iff split: if_splits)
  have inv: "rows_inv (tokens s) (codes s)" using assms(1) by (simp add: store_inv_def)
  have "rows_inv (tokens s) (codes s @ [c])"
  proof (rule rows_invI)
    show "distinct (map c_hash (codes s @ [c]))" using rows_invD(3) [OF inv] new by simp
    show "t_family t \<noteq> c_hash d" if "d \<in> set (codes s @ [c])" "c_used d = None" "t \<in> set (tokens s)" for d t
      using that rows_invD(4) [OF inv] assms(3) by auto
  qed (use rows_invD [OF inv] in blast)+
  then show ?thesis by (simp add: store_inv_def s')
qed

section \<open>Issuing a pair\<close>

lemma record_sel [simp]:
  "t_id (access_record env g fresh now) = m_access_id fresh" "t_id (refresh_record env g fresh now) = m_refresh_id fresh"
  "t_kind (access_record env g fresh now) = AccessToken" "t_kind (refresh_record env g fresh now) = RefreshToken"
  "t_family (access_record env g fresh now) = g_family g" "t_family (refresh_record env g fresh now) = g_family g"
  "t_consent (access_record env g fresh now) = g_consent g" "t_consent (refresh_record env g fresh now) = g_consent g"
  "t_client (access_record env g fresh now) = g_client g" "t_client (refresh_record env g fresh now) = g_client g"
  "t_resource (access_record env g fresh now) = g_resource g" "t_resource (refresh_record env g fresh now) = g_resource g"
  "t_scopes (access_record env g fresh now) = g_scopes g" "t_scopes (refresh_record env g fresh now) = g_scopes g"
  "t_revoked (access_record env g fresh now) = None" "t_revoked (refresh_record env g fresh now) = None"
  "t_replaced (access_record env g fresh now) = None" "t_replaced (refresh_record env g fresh now) = None"
  "t_expires (refresh_record env g fresh now) =
     (case g_refresh_expires g of Some e \<Rightarrow> e | None \<Rightarrow> now + refreshTokenTtlMs env)"
  by (simp_all add: access_record_def refresh_record_def)

lemma issueTokenPair_Some:
  assumes "issueTokenPair env g fresh now s = (s', Some pair)"
  shows "insert_token (access_record env g fresh now) s = Some (s\<lparr>tokens := tokens s @ [access_record env g fresh now]\<rparr>) \<and>
    insert_token (refresh_record env g fresh now) (s\<lparr>tokens := tokens s @ [access_record env g fresh now]\<rparr>) = Some s' \<and>
    s' = s\<lparr>tokens := tokens s @ [access_record env g fresh now, refresh_record env g fresh now]\<rparr> \<and>
    p_refresh_id pair = m_refresh_id fresh \<and> p_access_id pair = m_access_id fresh \<and> p_scopes pair = g_scopes g \<and>
    p_client pair = g_client g \<and>
    p_access pair = ACCESS_TOKEN_PREFIX @ m_access fresh \<and> p_refresh pair = REFRESH_TOKEN_PREFIX @ m_refresh fresh"
  using assms
  by (auto simp: issueTokenPair_def insert_token_Some mintCredential_def split: option.splits)

lemma issueTokenPair_None:
  assumes "issueTokenPair env g fresh now s = (s', None)"
  shows "s' = s \<or> insert_token (access_record env g fresh now) s = Some s'"
  using assms by (auto simp: issueTokenPair_def insert_token_Some split: option.splits)

lemma insert_token_distinct:
  assumes "insert_token t s = Some s'" "distinct (map t_id (tokens s))" "distinct (map t_hash (tokens s))"
  shows "tokens s' = tokens s @ [t] \<and> codes s' = codes s \<and> consents s' = consents s \<and>
    distinct (map t_id (tokens s')) \<and> distinct (map t_hash (tokens s'))"
  using assms by (auto simp: insert_token_Some)

lemma issueTokenPair_rows:
  assumes "issueTokenPair env g fresh now s = (s', Some pair)" "store_inv s"
  shows "distinct (map t_id (tokens s'))" "distinct (map t_hash (tokens s'))"
    "tokens s' = tokens s @ [access_record env g fresh now, refresh_record env g fresh now]" "codes s' = codes s"
proof -
  let ?s1 = "s\<lparr>tokens := tokens s @ [access_record env g fresh now]\<rparr>"
  note i = issueTokenPair_Some [OF assms(1)]
  have inv: "rows_inv (tokens s) (codes s)" using assms(2) by (simp add: store_inv_def)
  have 1: "distinct (map t_id (tokens ?s1)) \<and> distinct (map t_hash (tokens ?s1))"
    using insert_token_distinct [of _ s ?s1] i rows_invD(1,2) [OF inv] by blast
  then show "distinct (map t_id (tokens s'))" "distinct (map t_hash (tokens s'))"
    using insert_token_distinct [of _ ?s1 s'] i by blast+
  show "tokens s' = tokens s @ [access_record env g fresh now, refresh_record env g fresh now]" "codes s' = codes s"
    using i by simp_all
qed

text \<open>New rows of a family that has none, or that continue one whose only live token is replaced.\<close>

lemma rows_inv_append:
  assumes inv: "rows_inv ts cs" and d: "distinct (map t_id (ts @ new))" "distinct (map t_hash (ts @ new))"
    and used: "\<And>c. c \<in> set cs \<Longrightarrow> c_hash c = f \<Longrightarrow> c_used c \<noteq> None"
    and none: "\<And>t. t \<in> set ts \<Longrightarrow> t_family t \<noteq> f"
    and new: "\<And>t. t \<in> set new \<Longrightarrow> t_family t = f \<and> t_revoked t = None \<and> t_replaced t = None"
    and share: "\<And>a b. a \<in> set new \<Longrightarrow> b \<in> set new \<Longrightarrow>
      t_consent a = t_consent b \<and> t_client a = t_client b \<and> t_resource a = t_resource b"
    and one: "\<And>a b. a \<in> set new \<Longrightarrow> b \<in> set new \<Longrightarrow> t_kind a = RefreshToken \<Longrightarrow> t_kind b = RefreshToken \<Longrightarrow> a = b"
  shows "rows_inv (ts @ new) cs"
proof (rule rows_invI)
  show "distinct (map t_id (ts @ new))" "distinct (map t_hash (ts @ new))" "distinct (map c_hash cs)"
    using d rows_invD(3) [OF inv] by auto
  show "t_family t \<noteq> c_hash c" if "c \<in> set cs" "c_used c = None" "t \<in> set (ts @ new)" for c t
  proof (cases "t \<in> set ts")
    case True then show ?thesis using rows_invD(4) [OF inv that(1,2)] by blast
  next
    case False
    then have "t_family t = f" using that(3) new by auto
    then show ?thesis using used [OF that(1)] that(2) by auto
  qed
  show "t_kind a = RefreshToken \<and> (\<exists>b \<in> set (ts @ new). t_id b = i \<and> t_kind b = RefreshToken \<and> t_family b = t_family a)"
    if "a \<in> set (ts @ new)" "t_replaced a = Some i" for a i
    using that rows_invD(9) [OF inv, of a i] new by fastforce
  fix a b assume ab: "a \<in> set (ts @ new)" "b \<in> set (ts @ new)" "t_family a = t_family b"
  then consider "a \<in> set ts" "b \<in> set ts" | "a \<in> set new" "b \<in> set new"
    using new none by (metis Un_iff set_append)
  note cases = this
  show "t_consent a = t_consent b \<and> t_client a = t_client b \<and> t_resource a = t_resource b"
    by (rule cases) (use ab rows_invD(5) [OF inv] share in blast)+
  show "t_kind a = RefreshToken \<Longrightarrow> t_kind b = RefreshToken \<Longrightarrow> t_expires a = t_expires b"
    by (rule cases) (use ab rows_invD(6) [OF inv] one in blast)+
  show "t_kind a = RefreshToken \<Longrightarrow> t_revoked a \<noteq> None \<Longrightarrow> t_revoked b \<noteq> None"
    by (rule cases) (use ab rows_invD(7) [OF inv] new in \<open>blast | fastforce\<close>)+
  show "t_kind a = RefreshToken \<Longrightarrow> t_kind b = RefreshToken \<Longrightarrow> t_revoked a = None \<Longrightarrow> t_replaced a = None \<Longrightarrow>
      t_replaced b = None \<Longrightarrow> t_id a = t_id b"
    by (rule cases) (use ab rows_invD(8) [OF inv] one in blast)+
qed

text \<open>Refreshing: the row presented is marked, and the pair that replaces it is added.\<close>

definition mark_row :: "string \<Rightarrow> string \<Rightarrow> TokenRecord \<Rightarrow> TokenRecord" where
  "mark_row i r t = (if t_id t = i \<and> t_replaced t = None then t\<lparr>t_replaced := Some r\<rparr> else t)"

lemma mark_row_sel [simp]:
  "t_id (mark_row i r t) = t_id t" "t_hash (mark_row i r t) = t_hash t" "t_kind (mark_row i r t) = t_kind t"
  "t_family (mark_row i r t) = t_family t" "t_consent (mark_row i r t) = t_consent t"
  "t_client (mark_row i r t) = t_client t" "t_resource (mark_row i r t) = t_resource t"
  "t_expires (mark_row i r t) = t_expires t" "t_revoked (mark_row i r t) = t_revoked t"
  "t_scopes (mark_row i r t) = t_scopes t"
  by (simp_all add: mark_row_def)

lemma rows_inv_rotate:
  assumes inv: "rows_inv ts cs" and d: "distinct (map t_id (ts @ [a, n]))" "distinct (map t_hash (ts @ [a, n]))"
    and r: "r \<in> set ts" "t_kind r = RefreshToken" "t_revoked r = None" "t_replaced r = None"
    and a: "t_family a = t_family r" "t_consent a = t_consent r" "t_client a = t_client r" "t_resource a = t_resource r"
      "t_revoked a = None" "t_replaced a = None" "t_kind a = AccessToken"
    and n: "t_family n = t_family r" "t_consent n = t_consent r" "t_client n = t_client r" "t_resource n = t_resource r"
      "t_revoked n = None" "t_replaced n = None" "t_kind n = RefreshToken" "t_expires n = t_expires r"
  shows "rows_inv (map (mark_row (t_id r) (t_id n)) ts @ [a, n]) cs"
proof -
  let ?f = "mark_row (t_id r) (t_id n)"
  note v = rows_invD [OF inv]
  have live: "t_revoked x = None" if "x \<in> set ts" "t_family x = t_family r" "t_kind x = RefreshToken" for x
    using v(7) [OF that(1) r(1) that(2,3)] r(3) by blast
  have replaced: "t_replaced (?f x) \<noteq> None" if "x \<in> set ts" "t_family x = t_family r" "t_kind x = RefreshToken" for x
  proof (cases "t_replaced x")
    case None
    then have "t_id x = t_id r"
      using v(8) [OF that(1) r(1) that(2,3) r(2) live [OF that] None r(4)] by simp
    with None show ?thesis by (simp add: mark_row_def)
  next
    case (Some i) then show ?thesis by (simp add: mark_row_def)
  qed
  have shape: "\<exists>x \<in> set ts. b = ?f x \<or> b = a \<or> b = n" if "b \<in> set (map ?f ts @ [a, n])" for b
    using that r(1) by auto
  have shares: "t_consent b = t_consent c \<and> t_client b = t_client c \<and> t_resource b = t_resource c"
    if "b \<in> set (map ?f ts @ [a, n])" "c \<in> set (map ?f ts @ [a, n])" "t_family b = t_family c" for b c
  proof -
    have "\<exists>x \<in> set ts. t_family x = t_family b \<and> t_consent x = t_consent b \<and> t_client x = t_client b \<and> t_resource x = t_resource b"
      if "b \<in> set (map ?f ts @ [a, n])" for b
      using that r(1) a n by fastforce
    from this [OF that(1)] this [OF that(2)] that(3) v(5) show ?thesis by metis
  qed
  have expiry: "\<exists>x \<in> set ts. t_family x = t_family b \<and> t_expires x = t_expires b \<and> t_kind x = RefreshToken"
    if "b \<in> set (map ?f ts @ [a, n])" "t_kind b = RefreshToken" for b
    using that r(1,2) a n by fastforce
  have alive: "\<exists>x \<in> set ts. t_family x = t_family b \<and> t_revoked x = t_revoked b \<and> (t_kind b = RefreshToken \<longrightarrow> t_kind x = RefreshToken)"
    if "b \<in> set (map ?f ts @ [a, n])" for b
    using that r(1,2,3) a n by fastforce
  have unreplaced: "b = n \<or> (\<exists>x \<in> set ts. b = ?f x \<and> t_family x \<noteq> t_family r \<and> t_replaced x = None)"
    if "b \<in> set (map ?f ts @ [a, n])" "t_kind b = RefreshToken" "t_replaced b = None" for b
  proof -
    from that(1,2) a(7) consider "b = n" | x where "x \<in> set ts" "b = ?f x" by auto
    then show ?thesis
    proof cases
      case (2 x)
      then have "t_family x \<noteq> t_family r" using replaced [of x] that(2,3) by auto
      moreover have "t_replaced x = None" using 2(2) that(3) by (auto simp: mark_row_def split: if_splits)
      ultimately show ?thesis using 2 by blast
    qed simp
  qed
  show ?thesis
  proof (rule rows_invI)
    have "map t_id (map ?f ts @ [a, n]) = map t_id (ts @ [a, n])" "map t_hash (map ?f ts @ [a, n]) = map t_hash (ts @ [a, n])"
      by simp_all
    then show "distinct (map t_id (map ?f ts @ [a, n]))" "distinct (map t_hash (map ?f ts @ [a, n]))" "distinct (map c_hash cs)"
      using d v(3) by (simp_all only:)
    show "t_family t \<noteq> c_hash c" if "c \<in> set cs" "c_used c = None" "t \<in> set (map ?f ts @ [a, n])" for c t
      using alive [OF that(3)] v(4) [OF that(1,2)] by fastforce
    fix b assume b: "b \<in> set (map ?f ts @ [a, n])"
    show "t_kind b = RefreshToken \<and>
        (\<exists>c \<in> set (map ?f ts @ [a, n]). t_id c = i \<and> t_kind c = RefreshToken \<and> t_family c = t_family b)"
      if i: "t_replaced b = Some i" for i
    proof -
      from b i a n obtain x where x: "x \<in> set ts" "b = ?f x" by auto
      show ?thesis
      proof (cases "t_replaced x")
        case None
        with i x(2) have id: "t_id x = t_id r" "i = t_id n" by (auto simp: mark_row_def split: if_splits)
        have "x = r" by (rule rows_inv_unique [OF inv x(1) r(1) id(1)])
        with x id r(2) n show ?thesis by auto
      next
        case (Some j)
        with i x(2) have "j = i" by (simp add: mark_row_def)
        with v(9) [OF x(1) Some] obtain y where "t_kind x = RefreshToken" "y \<in> set ts" "t_id y = i"
          "t_kind y = RefreshToken" "t_family y = t_family x" by auto
        then show ?thesis using x(2) by (intro conjI bexI [of _ "?f y"]) simp_all
      qed
    qed
    fix c assume c: "c \<in> set (map ?f ts @ [a, n])" and fam: "t_family b = t_family c"
    show "t_consent b = t_consent c \<and> t_client b = t_client c \<and> t_resource b = t_resource c"
      by (rule shares [OF b c fam])
    show "t_kind b = RefreshToken \<Longrightarrow> t_kind c = RefreshToken \<Longrightarrow> t_expires b = t_expires c"
      using expiry [OF b] expiry [OF c] fam v(6) by metis
    show "t_kind b = RefreshToken \<Longrightarrow> t_revoked b \<noteq> None \<Longrightarrow> t_revoked c \<noteq> None"
      using alive [OF b] alive [OF c] fam v(7) by metis
    show "t_kind b = RefreshToken \<Longrightarrow> t_kind c = RefreshToken \<Longrightarrow> t_revoked b = None \<Longrightarrow> t_replaced b = None \<Longrightarrow>
        t_replaced c = None \<Longrightarrow> t_id b = t_id c"
    proof -
      assume k: "t_kind b = RefreshToken" "t_kind c = RefreshToken" "t_revoked b = None" "t_replaced b = None" "t_replaced c = None"
      from unreplaced [OF b k(1,4)] unreplaced [OF c k(2,5)] fam n(1)
      consider "b = n" "c = n" | x y where "x \<in> set ts" "y \<in> set ts" "b = ?f x" "c = ?f y"
        "t_replaced x = None" "t_replaced y = None" by auto
      then show ?thesis
      proof cases
        case 2 with v(8) [of x y] k fam show ?thesis by auto
      qed simp
    qed
  qed
qed

text \<open>Maintenance: a retired refresh token takes the ones it replaced with it.\<close>

lemma rows_inv_maintain:
  assumes inv: "rows_inv ts cs" and gone: "gone = map t_id (filter (retired_token h) ts)"
  shows "rows_inv (map (forget_ids gone) (filter (\<lambda>t. \<not> retired_token h t) ts)) (filter P cs)"
proof -
  note v = rows_invD [OF inv]
  have dead: "retired_token h x \<or> t_revoked x \<noteq> None"
    if x: "x \<in> set ts" "t_replaced x = Some i" and i: "i \<in> set gone" for x i
  proof -
    obtain y where y: "y \<in> set ts" "retired_token h y" "t_id y = i" using i gone by auto
    from v(9) [OF x] obtain z where z: "t_kind x = RefreshToken" "z \<in> set ts" "t_id z = i" "t_kind z = RefreshToken"
      "t_family z = t_family x" by auto
    have "z = y" using rows_inv_unique [OF inv z(2) y(1)] z(3) y(3) by simp
    with v(6) [OF z(2) x(1) z(5) z(4) z(1)] v(7) [OF z(2) x(1) z(5) z(4)] y(2)
    show ?thesis by (auto simp: retired_token_def split: option.splits)
  qed
  let ?live = "filter (\<lambda>t. \<not> retired_token h t) ts"
  show ?thesis
  proof (rule rows_invI)
    have "map t_id (map (forget_ids gone) ?live) = map t_id ?live" "map t_hash (map (forget_ids gone) ?live) = map t_hash ?live"
      by simp_all
    then show "distinct (map t_id (map (forget_ids gone) ?live))" "distinct (map t_hash (map (forget_ids gone) ?live))"
      "distinct (map c_hash (filter P cs))"
      using v(1-3) by (simp_all only: distinct_map_filter)
    show "t_family t \<noteq> c_hash c" if "c \<in> set (filter P cs)" "c_used c = None" "t \<in> set (map (forget_ids gone) ?live)" for c t
      using that v(4) [of c] by auto
    fix a assume "a \<in> set (map (forget_ids gone) ?live)"
    then obtain x where x: "x \<in> set ts" "\<not> retired_token h x" "a = forget_ids gone x" by auto
    show "t_kind a = RefreshToken \<and> (\<exists>b \<in> set (map (forget_ids gone) ?live). t_id b = i \<and> t_kind b = RefreshToken \<and> t_family b = t_family a)"
      if i: "t_replaced a = Some i" for i
    proof -
      from i x(3) have r: "t_replaced x = Some i" "i \<notin> set gone"
        by (auto simp: forget_ids_def split: option.splits if_splits)
      from v(9) [OF x(1) r(1)] obtain z where z: "t_kind x = RefreshToken" "z \<in> set ts" "t_id z = i" "t_kind z = RefreshToken"
        "t_family z = t_family x" by auto
      from r(2) z(2,3) gone have "\<not> retired_token h z" by auto
      with z x(3) show ?thesis by (intro conjI bexI [of _ "forget_ids gone z"]) auto
    qed
    fix b assume "b \<in> set (map (forget_ids gone) ?live)" and fam: "t_family a = t_family b"
    then obtain y where y: "y \<in> set ts" "\<not> retired_token h y" "b = forget_ids gone y" by auto
    have fam: "t_family x = t_family y" using fam x(3) y(3) by simp
    show "t_consent a = t_consent b \<and> t_client a = t_client b \<and> t_resource a = t_resource b"
      using v(5) [OF x(1) y(1) fam] x(3) y(3) by simp
    show "t_kind a = RefreshToken \<Longrightarrow> t_kind b = RefreshToken \<Longrightarrow> t_expires a = t_expires b"
      using v(6) [OF x(1) y(1) fam] x(3) y(3) by simp
    show "t_kind a = RefreshToken \<Longrightarrow> t_revoked a \<noteq> None \<Longrightarrow> t_revoked b \<noteq> None"
      using v(7) [OF x(1) y(1) fam] x(3) y(3) by simp
    assume k: "t_kind a = RefreshToken" "t_kind b = RefreshToken" "t_revoked a = None" "t_replaced a = None" "t_replaced b = None"
    have "t_revoked y = None" using v(7) [OF y(1) x(1) fam [symmetric]] k(2,3) x(3) y(3)
      by (cases "t_revoked y") auto
    moreover have "t_replaced z = None" if "z \<in> set ts" "\<not> retired_token h z" "t_replaced (forget_ids gone z) = None" "t_revoked z = None" for z
      using that dead [of z] by (auto simp: forget_ids_def split: option.splits if_splits)
    ultimately show "t_id a = t_id b"
      using v(8) [OF x(1) y(1) fam] k x y by auto
  qed
qed

section \<open>Every request keeps the invariant\<close>

lemma claim_Claimed:
  assumes "claim h now s = (Claimed c, s')"
  shows "c \<in> set (codes s') \<and> c_hash c = h \<and> (\<exists>d \<in> set (codes s). c_hash d = h \<and> c_used d = None) \<and>
    s' = snd (claim h now s)"
proof -
  have len: "length (filter (\<lambda>c. c_hash c = h \<and> c_used c = None) (codes s)) = 1"
    using assms by (auto simp: claim_def Let_def split: option.splits if_splits)
  then have "filter (\<lambda>c. c_hash c = h \<and> c_used c = None) (codes s) \<noteq> []" by (metis list.size(3) zero_neq_one)
  then have "\<exists>d \<in> set (codes s). c_hash d = h \<and> c_used d = None" by (simp add: filter_empty_conv)
  moreover have "c \<in> set (codes s') \<and> c_hash c = h \<and> s' = snd (claim h now s)"
    using assms by (auto simp: claim_def Let_def split: option.splits if_splits dest!: find_Some_set)
  ultimately show ?thesis by blast
qed

lemma claim_all_used: "\<forall>d \<in> set (codes (snd (claim h now s))). c_hash d = h \<longrightarrow> c_used d \<noteq> None"
proof -
  have "c_hash c' = h \<longrightarrow> c_used c' \<noteq> None" if "c' = (if c_hash c = h \<and> c_used c = None then c\<lparr>c_used := Some now\<rparr> else c)" for c c'
    using that by (cases "c_hash c = h \<and> c_used c = None") auto
  then show ?thesis unfolding claim_sel set_map by blast
qed

lemma claimCode_Inr:
  assumes "claimCode env code now s = (Inr c, s')"
  shows "c \<in> set (codes s')" "c_hash c = hash_of env code" "s' = snd (claim (hash_of env code) now s)"
    "\<exists>d \<in> set (codes s). c_hash d = hash_of env code \<and> c_used d = None"
proof -
  have "claim (hash_of env code) now s = (Claimed c, s')"
    using assms by (cases "claim (hash_of env code) now s"; cases "fst (claim (hash_of env code) now s)")
      (simp_all add: claimCode_def Let_def ok_def fail_def)
  note r = claim_Claimed [OF this]
  show "c \<in> set (codes s')" "c_hash c = hash_of env code" "s' = snd (claim (hash_of env code) now s)"
    "\<exists>d \<in> set (codes s). c_hash d = hash_of env code \<and> c_used d = None"
    by (insert r, elim conjE, assumption)+
qed

lemma claimCode_state:
  assumes "claimCode env code now s = (r, s')"
  shows "s' = snd (claim (hash_of env code) now s) \<or>
    (\<exists>c. s' = audit_row ''token_revoked'' c code (snd (revokeFamily (hash_of env code) now (snd (claim (hash_of env code) now s)))))"
  using assms
  by (cases "claim (hash_of env code) now s"; cases "fst (claim (hash_of env code) now s)")
    (auto simp: claimCode_def Let_def ok_def fail_def)

lemma store_inv_claimCode: "store_inv s \<Longrightarrow> claimCode env code now s = (r, s') \<Longrightarrow> store_inv s'"
  using claimCode_state [of env code now s r s'] by (auto intro!: store_inv_claim store_inv_revokeFamily)

lemma store_inv_issue:
  assumes "store_inv s" and i: "issueTokenPair env g fresh now s = (s', pair)"
    and fresh_family: "\<forall>t \<in> set (tokens s). t_family t \<noteq> g_family g"
    and used: "\<forall>c \<in> set (codes s). c_hash c = g_family g \<longrightarrow> c_used c \<noteq> None"
  shows "store_inv s'"
proof (cases pair)
  case (Some p)
  note r = issueTokenPair_rows [OF i [unfolded Some] assms(1)]
  have "rows_inv (tokens s @ [access_record env g fresh now, refresh_record env g fresh now]) (codes s)"
    using assms(1) fresh_family used r(1-3)
    by (intro rows_inv_append [where f = "g_family g"]) (auto simp: store_inv_def)
  then show ?thesis using r by (simp add: store_inv_def)
next
  case None
  from issueTokenPair_None [OF i [unfolded None]] show ?thesis
  proof
    assume *: "insert_token (access_record env g fresh now) s = Some s'"
    note r = insert_token_distinct [OF *] rows_invD(1,2) [of "tokens s" "codes s"]
    have "rows_inv (tokens s @ [access_record env g fresh now]) (codes s)"
      using assms(1) fresh_family used r
      by (intro rows_inv_append [where f = "g_family g"]) (auto simp: store_inv_def)
    then show ?thesis using r assms(1) by (simp add: store_inv_def)
  qed (use assms(1) in simp)
qed

lemma store_inv_redeemCode:
  assumes "store_inv s" and "redeemCode env form fresh now s = (r, s')"
  shows "store_inv s'"
proof (cases "readCodeRequest env form")
  case (Inl e) with assms show ?thesis by (simp add: redeemCode_def)
next
  case (Inr q)
  obtain rc s1 where c: "claimCode env (q_code q) now s = (rc, s1)" by fastforce
  have inv1: "store_inv s1" by (rule store_inv_claimCode [OF assms(1) c])
  show ?thesis
  proof (cases rc)
    case (Inl e) with assms(2) Inr c inv1 show ?thesis by (simp add: redeemCode_def)
  next
    case (Inr stored)
    note d = claimCode_Inr [OF c [unfolded Inr]]
    have none: "\<forall>t \<in> set (tokens s1). t_family t \<noteq> c_hash stored"
    proof -
      obtain x where x: "x \<in> set (codes s)" "c_hash x = c_hash stored" "c_used x = None" using d(2,4) by auto
      have "rows_inv (tokens s) (codes s)" "tokens s1 = tokens s" using assms(1) d(3) by (simp_all add: store_inv_def claim_sel)
      with rows_invD(4) [OF _ x(1,3)] x(2) show ?thesis by simp
    qed
    have used: "\<forall>c \<in> set (codes s1). c_hash c = c_hash stored \<longrightarrow> c_used c \<noteq> None"
      unfolding d(2,3) by (rule claim_all_used)
    have "s' = s1 \<or> (\<exists>g pair. issueTokenPair env g fresh now s1 = (s', pair) \<and> g_family g = c_hash stored)"
      using assms(2) \<open>readCodeRequest env form = Inr q\<close> c Inr
      by (auto simp: redeemCode_def Let_def split: if_splits prod.splits option.splits)
    then show ?thesis using inv1 store_inv_issue none used by metis
  qed
qed

lemma liveRefreshToken_cases:
  assumes "liveRefreshToken env form now s = (r, s')"
  shows "(\<exists>e. r = Inl e \<and> s' = s) \<or>
    (\<exists>presented old. form ''refresh_token'' = Some presented \<and> findByHash (hash_of env presented) s = Some old \<and>
       t_kind old = RefreshToken \<and> t_revoked old = None \<and>
       ((t_replaced old \<noteq> None \<and> r = Inl invalid_grant \<and> s' = replayed env old presented now s) \<or>
        (t_replaced old = None \<and> t_expires old > now \<and> form ''client_id'' = Some (t_client old) \<and>
         isConsentActive s (t_consent old) \<and> r = Inr old \<and> s' = s)))"
  using assms
  by (auto simp: liveRefreshToken_def requireField_def isUsableBy_def ok_def fail_def
      split: option.splits if_splits sum.splits)

lemma findByHash_Some: "findByHash h s = Some t \<Longrightarrow> t \<in> set (tokens s) \<and> t_hash t = h"
  by (auto simp: findByHash_def dest: find_Some_set)

lemma markReplaced_live:
  assumes d: "distinct (map t_id (tokens s))" and r: "r \<in> set (tokens s)" "t_replaced r = None"
  shows "fst (markReplaced (t_id r) n s)"
proof -
  have uniq: "t = r" if "t \<in> set (tokens s)" "t_id t = t_id r" for t
    using d r(1) that by (auto simp: distinct_map inj_on_def)
  have "filter (\<lambda>t. t_id t = t_id r \<and> t_replaced t = None) (tokens s) = filter (\<lambda>t. t = r) (tokens s)"
    using uniq r(2) by (intro filter_cong) auto
  moreover have "length (filter (\<lambda>t. t = r) (tokens s)) = 1"
    using d r(1) by (simp add: distinct_map distinct_length_filter Collect_conv_if)
  ultimately show ?thesis by (simp add: markReplaced_def update_tokens_def)
qed

text \<open>
  What a refresh does to a store that satisfies the invariant: it fails and leaves the store, it
  is a replay, or it rotates.
\<close>

definition rotation_grant :: "TokenRecord \<Rightarrow> string list \<Rightarrow> Grant" where
  "rotation_grant r scopes =
     \<lparr>g_client = t_client r, g_consent = t_consent r, g_family = t_family r, g_parent = Some (t_id r),
      g_scopes = scopes, g_resource = t_resource r, g_refresh_expires = Some (t_expires r)\<rparr>"

lemma rotation_grant_sel [simp]:
  "g_client (rotation_grant r scopes) = t_client r" "g_consent (rotation_grant r scopes) = t_consent r"
  "g_family (rotation_grant r scopes) = t_family r" "g_parent (rotation_grant r scopes) = Some (t_id r)"
  "g_scopes (rotation_grant r scopes) = scopes" "g_resource (rotation_grant r scopes) = t_resource r"
  "g_refresh_expires (rotation_grant r scopes) = Some (t_expires r)"
  by (simp_all add: rotation_grant_def)

definition rotates :: "OAuthEnv \<Rightarrow> TokenRecord \<Rightarrow> string list \<Rightarrow> Minted \<Rightarrow> int \<Rightarrow> OAuthStore \<Rightarrow> IssuedPair \<Rightarrow> OAuthStore \<Rightarrow> bool" where
  "rotates env r scopes fresh now s pair s' \<longleftrightarrow>
     (\<exists>s1. issueTokenPair env (rotation_grant r scopes) fresh now s = (s1, Some pair) \<and>
       s' = snd (markReplaced (t_id r) (p_refresh_id pair) s1) \<and> isScopeSubset scopes (t_scopes r))"

lemma rotates_rows:
  assumes inv: "store_inv s" and rot: "rotates env r scopes fresh now s pair s'"
    and r: "r \<in> set (tokens s)"
  shows "codes s' = codes s \<and> consents s' = consents s \<and>
    tokens s' = map (mark_row (t_id r) (m_refresh_id fresh)) (tokens s) @
      [access_record env (rotation_grant r scopes) fresh now, refresh_record env (rotation_grant r scopes) fresh now] \<and>
    m_refresh_id fresh \<notin> t_id ` set (tokens s)"
proof -
  from rot obtain s1 where i: "issueTokenPair env (rotation_grant r scopes) fresh now s = (s1, Some pair)"
    and s': "s' = snd (markReplaced (t_id r) (p_refresh_id pair) s1)" by (auto simp: rotates_def)
  note j = issueTokenPair_Some [OF i] and k = issueTokenPair_rows [OF i inv]
  have new: "m_refresh_id fresh \<notin> t_id ` set (tokens s)" "m_access_id fresh \<notin> t_id ` set (tokens s)" using k(1,3) by auto
  have "p_refresh_id pair = m_refresh_id fresh" using j by blast
  moreover have "t_id r \<noteq> m_refresh_id fresh" "t_id r \<noteq> m_access_id fresh" using new r by (metis image_eqI)+
  moreover have "mark_row (t_id r) (m_refresh_id fresh) =
    (\<lambda>t. if t_id t = t_id r \<and> t_replaced t = None then t\<lparr>t_replaced := Some (m_refresh_id fresh)\<rparr> else t)"
    by (rule ext) (simp add: mark_row_def)
  moreover have "consents s1 = consents s" using j by simp
  ultimately show ?thesis using s' k(3,4) new by simp
qed

lemma refresh_cases:
  assumes "store_inv s" and "refresh env form fresh now s = (r, s')"
  shows "s' = s \<and> \<not> (\<exists>p. r = Done p) \<or>
    (\<exists>old presented. form ''refresh_token'' = Some presented \<and> findByHash (hash_of env presented) s = Some old \<and>
       t_kind old = RefreshToken \<and> t_revoked old = None \<and>
       (t_replaced old \<noteq> None \<and> r = Refused invalid_grant \<and> s' = replayed env old presented now s \<or>
        t_replaced old = None \<and> t_expires old > now \<and> form ''client_id'' = Some (t_client old) \<and>
        isConsentActive s (t_consent old) \<and>
        (\<exists>scopes pair. r = Done pair \<and> rotates env old scopes fresh now s pair s')))"
proof -
  obtain l s1 where l: "liveRefreshToken env form now s = (l, s1)" by fastforce
  show ?thesis
  proof (cases l)
    case (Inl e)
    with l assms(2) have "r = Refused e" "s' = s1" by (simp_all add: refresh_def)
    with liveRefreshToken_cases [OF l] Inl show ?thesis by auto
  next
    case (Inr old)
    from liveRefreshToken_cases [OF l] Inr obtain presented where
      p: "form ''refresh_token'' = Some presented" "findByHash (hash_of env presented) s = Some old"
      "t_kind old = RefreshToken" "t_revoked old = None" "t_replaced old = None" "t_expires old > now"
      "form ''client_id'' = Some (t_client old)" "isConsentActive s (t_consent old)" "s1 = s" by auto
    have mem: "old \<in> set (tokens s)" using findByHash_Some [OF p(2)] by simp
    consider "s' = s" "\<And>p. r \<noteq> Done p"
      | scopes where "isScopeSubset scopes (t_scopes old)"
        "(case issueTokenPair env (rotation_grant old scopes) fresh now s of
            (_, None) \<Rightarrow> (Threw, s)
          | (s2, Some pair) \<Rightarrow>
            (case markReplaced (t_id old) (p_refresh_id pair) s2 of
               (True, s3) \<Rightarrow> (Done pair, s3)
             | (False, s3) \<Rightarrow> (Refused invalid_grant, snd (revokeFamily (t_family old) now s3)))) = (r, s')"
      using assms(2) l Inr p(9)
      by (auto simp: refresh_def rotation_grant_def Let_def split: if_splits sum.splits)
    then show ?thesis
    proof cases
      case (2 scopes)
      obtain s2 o2 where i: "issueTokenPair env (rotation_grant old scopes) fresh now s = (s2, o2)" by fastforce
      show ?thesis
      proof (cases o2)
        case None with 2(2) i show ?thesis by simp
      next
        case (Some pair)
        note k = issueTokenPair_rows [OF i [unfolded Some] assms(1)]
        have "fst (markReplaced (t_id old) (p_refresh_id pair) s2)"
          using k mem p(5) by (intro markReplaced_live) auto
        then have "r = Done pair" "s' = snd (markReplaced (t_id old) (p_refresh_id pair) s2)"
          using 2(2) i Some by (simp_all split: prod.splits bool.splits)
        then have "rotates env old scopes fresh now s pair s'" unfolding rotates_def using i Some 2(1) by blast
        with p \<open>r = Done pair\<close> show ?thesis by blast
      qed
    qed blast
  qed
qed

lemma store_inv_refresh:
  assumes inv: "store_inv s" and ref: "refresh env form fresh now s = (r, s')"
  shows "store_inv s'"
  using refresh_cases [OF inv ref]
proof (elim disjE exE conjE)
  fix old scopes pair presented
  assume rot: "rotates env old scopes fresh now s pair s'" and f: "findByHash (hash_of env presented) s = Some old"
    and k: "t_kind old = RefreshToken" "t_revoked old = None" "t_replaced old = None"
  have mem: "old \<in> set (tokens s)" using findByHash_Some [OF f] by simp
  note rows = rotates_rows [OF inv rot mem]
  from rot obtain s1 where i: "issueTokenPair env (rotation_grant old scopes) fresh now s = (s1, Some pair)"
    by (auto simp: rotates_def)
  note iss = issueTokenPair_rows [OF i inv]
  let ?a = "access_record env (rotation_grant old scopes) fresh now"
  let ?n = "refresh_record env (rotation_grant old scopes) fresh now"
  have "rows_inv (tokens s) (codes s)" using inv by (simp add: store_inv_def)
  then have "rows_inv (map (mark_row (t_id old) (t_id ?n)) (tokens s) @ [?a, ?n]) (codes s)"
    using iss(1-3) mem k by (intro rows_inv_rotate) simp_all
  then show "store_inv s'" using rows by (simp add: store_inv_def)
qed (use inv in \<open>auto simp: replayed_def intro!: store_inv_revokeFamily\<close>)

lemma store_inv_token_grant: "store_inv s \<Longrightarrow> token_grant env form fresh now s = (r, s') \<Longrightarrow> store_inv s'"
  by (auto simp: token_grant_def dest: store_inv_redeemCode store_inv_refresh
      split: if_splits prod.splits OAuthOutcome.splits)

lemma store_inv_revokeToken:
  assumes "store_inv s" shows "store_inv (revokeToken env credential now s)"
proof (cases "findByHash (hash_of env credential) s")
  case (Some t)
  have "t \<in> set (tokens s)" using findByHash_Some [OF Some] by simp
  then have "store_inv (snd (revokeById (t_id t) now s))" if "t_kind t \<noteq> RefreshToken"
    using that assms rows_inv_unique [of "tokens s" "codes s" _ t]
    by (intro store_inv_revokeById) (auto simp: store_inv_def intro: OAuthTokenKind.exhaust)
  with Some assms store_inv_revokeFamily show ?thesis by (auto simp: revokeToken_def)
qed (use assms in \<open>simp add: revokeToken_def\<close>)

lemma revoke_consent_row_sel [simp]:
  "tokens (snd (revoke_consent_row i now s)) = tokens s" "codes (snd (revoke_consent_row i now s)) = codes s"
  by (simp_all add: revoke_consent_row_def Let_def)

lemma revokeConsent_cases:
  assumes "revokeConsent operator i now s = (r, s')"
  shows "tokens s' = tokens s \<and> codes s' = codes s \<or>
    (\<exists>c. s' = audit_row ''consent_revoked'' c [] (snd (revokeByConsent i now (snd (revoke_consent_row i now s)))))"
  using assms by (auto simp: revokeConsent_def split: option.splits if_splits prod.splits) (metis revoke_consent_row_sel snd_conv)+

lemma store_inv_revokeConsent:
  assumes "store_inv s" "revokeConsent operator i now s = (r, s')" shows "store_inv s'"
proof -
  have row: "store_inv (snd (revoke_consent_row i now s))" using assms(1) by (simp add: store_inv_def)
  from revokeConsent_cases [OF assms(2)] show ?thesis
  proof
    assume "tokens s' = tokens s \<and> codes s' = codes s"
    then show ?thesis using assms(1) by (simp add: store_inv_def)
  next
    assume "\<exists>c. s' = audit_row ''consent_revoked'' c [] (snd (revokeByConsent i now (snd (revoke_consent_row i now s))))"
    then show ?thesis using store_inv_revokeByConsent [OF row] by auto
  qed
qed

lemma verify_state:
  assumes "verify env credential now s = (r, s')"
  shows "s' = s \<or> (\<exists>i. s' = touchLastUsed i now s)"
proof (cases "findLiveToken env (hash_of env credential) now s")
  case (Inl e) with assms show ?thesis by (simp add: verify_def split: if_splits)
next
  case (Inr tn) with assms show ?thesis by (cases tn) (auto simp: verify_def split: if_splits)
qed

lemma store_inv_maintain: "store_inv s \<Longrightarrow> store_inv (maintain now s)"
  by (simp add: store_inv_def maintain_def Let_def rows_inv_maintain)

lemma issueCode_Some:
  assumes "issueCode env d scopes body consentId now s = Some (code, s')"
  shows "code = mintCredential AUTHORIZATION_CODE_PREFIX body \<and>
    (\<exists>c s1. tokens s1 = tokens s \<and> codes s1 = codes s \<and> insert_code c s1 = Some s' \<and>
       c_hash c = hash_of env code \<and> c_used c = None)"
proof -
  define consented where "consented = (case findActive (d_operator d) (d_client d) s of
      None \<Rightarrow> map_option (\<lambda>s'. (consentId, s'))
        (insert_consent \<lparr>n_id = consentId, n_operator = d_operator d, n_client = d_client d,
           n_scopes = scopes, n_granted = now, n_revoked = None\<rparr> s)
    | Some n \<Rightarrow> Some (n_id n, updateScopes (n_id n) (js_set (n_scopes n @ scopes)) s))"
  have rows: "tokens s1 = tokens s \<and> codes s1 = codes s" if "consented = Some (i, s1)" for i s1
    using that by (auto simp: consented_def insert_consent_def updateScopes_def split: option.splits if_splits)
  from assms obtain i s1 where s1: "consented = Some (i, s1)"
    and ins: "map_option (\<lambda>s''. (mintCredential AUTHORIZATION_CODE_PREFIX body, s''))
             (insert_code \<lparr>c_hash = hash_of env (mintCredential AUTHORIZATION_CODE_PREFIX body), c_client = d_client d, c_consent = i,
                c_redirect = d_redirect d, c_challenge = d_challenge d, c_resource = d_resource d,
                c_scopes = scopes, c_expires = now + CODE_TTL_MS, c_used = None\<rparr> s1) = Some (code, s')"
    by (auto simp: issueCode_def Let_def consented_def [symmetric] bind_eq_Some_conv)
  from ins have "code = mintCredential AUTHORIZATION_CODE_PREFIX body" by auto
  moreover from ins have "\<exists>c. insert_code c s1 = Some s' \<and> c_hash c = hash_of env code \<and> c_used c = None" by force
  ultimately show ?thesis using rows [OF s1] by blast
qed

end
