(* ===== verification/OAuthRuns.thy ===== *)
theory OAuthRuns
  imports OAuthSafety
begin

text \<open>
  What the authorization server guarantees over all the requests it serves: codes are redeemed
  once, refresh tokens rotate one at a time, a replay kills the family for good, a family keeps
  its expiry and never gains a scope. The requests, the consents and the maintenance runs are the
  steps of a relation; the randomness of a minted code enters as the condition that its hash is
  the family of no token yet.
\<close>

section \<open>Steps\<close>

inductive oauth_step :: "OAuthEnv \<Rightarrow> string option \<Rightarrow> OAuthStore \<Rightarrow> OAuthStore \<Rightarrow> bool" for env where
  step_token: "token_grant env form fresh now s = (r, s') \<Longrightarrow> oauth_step env None s s'"
| step_revoke: "oauth_step env None s (revokeToken env credential now s)"
| step_revoke_consent: "revokeConsent operator i now s = (r, s') \<Longrightarrow> oauth_step env None s s'"
| step_verify: "verify env credential now s = (r, s') \<Longrightarrow> oauth_step env None s s'"
| step_maintain: "oauth_step env None s (maintain now s)"
| step_approve: "approve env d form body consentId now s = (r, s') \<Longrightarrow>
    \<forall>t \<in> set (tokens s). t_family t \<noteq> hash_of env (mintCredential AUTHORIZATION_CODE_PREFIX body) \<Longrightarrow>
    oauth_step env (Some (hash_of env (mintCredential AUTHORIZATION_CODE_PREFIX body))) s s'"

inductive_cases oauth_stepE: "oauth_step env l s s'"

text \<open>Any number of steps, none of which mints a code with the hash \<open>f\<close>.\<close>

inductive oauth_runs :: "OAuthEnv \<Rightarrow> string \<Rightarrow> OAuthStore \<Rightarrow> OAuthStore \<Rightarrow> bool" for env f where
  runs_refl: "oauth_runs env f s s"
| runs_step: "oauth_runs env f s s' \<Longrightarrow> oauth_step env l s' s'' \<Longrightarrow> l \<noteq> Some f \<Longrightarrow> oauth_runs env f s s''"

definition any_step :: "OAuthEnv \<Rightarrow> OAuthStore \<Rightarrow> OAuthStore \<Rightarrow> bool" where
  "any_step env s s' \<longleftrightarrow> (\<exists>l. oauth_step env l s s')"


lemma store_inv_approve:
  assumes inv: "store_inv s" and app: "approve env d form body consentId now s = (r, s')"
    and fresh: "\<forall>t \<in> set (tokens s). t_family t \<noteq> hash_of env (mintCredential AUTHORIZATION_CODE_PREFIX body)"
  shows "store_inv s'"
proof -
  let ?scopes = "tickedScopes env (d_pending d) form"
  consider a where "s' = audit_row a (d_client d) [] s" | "s' = s"
    | code s1 where "issueCode env d ?scopes body consentId now s = Some (code, s1)" "s' = audit_row ''consent_granted'' (d_client d) code s1"
    using app by (auto simp: approve_def Let_def split: if_splits option.splits)
  then show ?thesis
  proof cases
    case 3
    from issueCode_Some [OF 3(1)] obtain c s2 where c: "code = mintCredential AUTHORIZATION_CODE_PREFIX body"
      "tokens s2 = tokens s" "codes s2 = codes s" "insert_code c s2 = Some s1" "c_hash c = hash_of env code" by blast
    have "store_inv s2" using inv c(2,3) by (simp add: store_inv_def)
    then have "store_inv s1" by (rule store_inv_insert_code [OF _ c(4)]) (use c fresh in simp)
    with 3(2) show ?thesis by simp
  qed (use inv in simp_all)
qed

lemma store_inv_step: "any_step env s s' \<Longrightarrow> store_inv s \<Longrightarrow> store_inv s'"
proof -
  assume "any_step env s s'" and inv: "store_inv s"
  then obtain l where "oauth_step env l s s'" by (auto simp: any_step_def)
  then show "store_inv s'"
    by cases (use inv in \<open>auto intro: store_inv_token_grant store_inv_revokeToken store_inv_revokeConsent
      store_inv_maintain store_inv_approve store_inv_touch dest!: verify_state\<close>)
qed

interpretation oauth: invariant_system "any_step env" store_inv for env
  by unfold_locales (rule store_inv_step)

lemma oauth_runs_any: "oauth_runs env f s s' \<Longrightarrow> (any_step env)\<^sup>*\<^sup>* s s'"
  by (induction rule: oauth_runs.induct) (auto simp: any_step_def intro: rtranclp.rtrancl_into_rtrancl)

section \<open>Dead families\<close>

definition code_used :: "string \<Rightarrow> OAuthStore \<Rightarrow> bool" where
  "code_used f s \<longleftrightarrow> (\<forall>c \<in> set (codes s). c_hash c = f \<longrightarrow> c_used c \<noteq> None)"

definition family_dead :: "string \<Rightarrow> OAuthStore \<Rightarrow> bool" where
  "family_dead f s \<longleftrightarrow> (\<forall>t \<in> set (tokens s). t_family t = f \<longrightarrow> t_revoked t \<noteq> None)"

lemma dead_audit [simp]:
  "code_used f (audit_row a c v s) = code_used f s" "family_dead f (audit_row a c v s) = family_dead f s"
  by (simp_all add: code_used_def family_dead_def audit_row_def)

lemma code_used_revoke [simp]: "code_used f (snd (revoke_tokens P now s)) = code_used f s"
  by (simp add: code_used_def)

lemma tokens_revoke_row: "tokens (snd (revoke_tokens P now s)) = map (revoke_row P now) (tokens s)"
  by (simp add: revoke_row_def)

lemma family_dead_revoke: "family_dead f s \<Longrightarrow> family_dead f (snd (revoke_tokens P now s))"
  by (simp add: family_dead_def tokens_revoke_row del: tokens_revoke not_None_eq)

lemma revokeFamily_dead: "family_dead f (snd (revokeFamily f now s))"
  by (simp add: family_dead_def revokeFamily_def tokens_revoke_row del: tokens_revoke not_None_eq)

lemma code_used_claim: "code_used f s \<Longrightarrow> code_used f (snd (claim h now s))"
proof -
  define F :: "AuthorizationCodeRecord \<Rightarrow> AuthorizationCodeRecord" where "F = (\<lambda>c. if c_hash c = h \<and> c_used c = None then c\<lparr>c_used := Some now\<rparr> else c)"
  have F: "c_hash (F c) = c_hash c" "c_used c \<noteq> None \<Longrightarrow> c_used (F c) \<noteq> None" for c
    by (simp_all add: F_def)
  have rows: "codes (snd (claim h now s)) = map F (codes s)" by (simp add: claim_sel F_def)
  show "code_used f s \<Longrightarrow> code_used f (snd (claim h now s))"
    by (simp add: code_used_def rows F del: not_None_eq)
qed

lemma family_dead_claim [simp]: "family_dead f (snd (claim h now s)) = family_dead f s"
  by (simp add: family_dead_def claim_sel)

text \<open>A request that redeems a code finds it unused, and issues for the family of that code.\<close>

lemma redeemCode_cases:
  assumes "redeemCode env form fresh now s = (r, s')"
  shows "(s' = s \<and> (\<exists>e. readCodeRequest env form = Inl e) \<and> (\<exists>e. r = Refused e)) \<or>
    (\<exists>q e. readCodeRequest env form = Inr q \<and> claimCode env (q_code q) now s = (e, s') \<and> (\<exists>e. r = Refused e)) \<or>
    (\<exists>q stored s1 out. readCodeRequest env form = Inr q \<and> claimCode env (q_code q) now s = (Inr stored, s1) \<and>
       c_expires stored > now \<and> c_client stored = q_client q \<and> c_redirect stored = q_redirect q \<and>
       c_resource stored = q_resource q \<and> isConsentActive s1 (c_consent stored) \<and>
       isCodeVerifierFor env (q_verifier q) (c_challenge stored) \<and>
       issueTokenPair env \<lparr>g_client = c_client stored, g_consent = c_consent stored, g_family = c_hash stored,
         g_parent = None, g_scopes = c_scopes stored, g_resource = q_resource q, g_refresh_expires = None\<rparr> fresh now s1 = (s', out) \<and>
       r = (case out of Some pair \<Rightarrow> Done pair | None \<Rightarrow> Threw))"
proof (cases "readCodeRequest env form")
  case (Inl e) with assms show ?thesis by (auto simp: redeemCode_def)
next
  case (Inr q)
  obtain rc s1 where c: "claimCode env (q_code q) now s = (rc, s1)" by fastforce
  show ?thesis
  proof (cases rc)
    case (Inl e) with assms Inr c show ?thesis by (auto simp: redeemCode_def)
  next
    case (Inr stored)
    with assms \<open>readCodeRequest env form = Inr q\<close> c show ?thesis
      by (auto simp: redeemCode_def Let_def split: if_splits prod.splits option.splits)
  qed
qed

text \<open>What an insertion for another family leaves alone.\<close>

lemma family_dead_issue:
  assumes "issueTokenPair env g fresh now s = (s', out)" and "g_family g \<noteq> f"
  shows "code_used f s' = code_used f s" "family_dead f s' = family_dead f s"
proof -
  have "s' = s \<or> s' = s\<lparr>tokens := tokens s @ [access_record env g fresh now]\<rparr> \<or>
    s' = s\<lparr>tokens := tokens s @ [access_record env g fresh now, refresh_record env g fresh now]\<rparr>"
  proof (cases out)
    case None then show ?thesis using issueTokenPair_None [of env g fresh now s s'] assms(1) by (auto simp: insert_token_Some)
  next
    case (Some p) then show ?thesis using issueTokenPair_Some [of env g fresh now s s' p] assms(1) by simp
  qed
  then show "code_used f s' = code_used f s" "family_dead f s' = family_dead f s"
    using assms(2) by (auto simp: code_used_def family_dead_def)
qed

lemma claimCode_keeps:
  assumes "claimCode env code now s = (r, s')"
  shows "code_used f s \<Longrightarrow> code_used f s'" "family_dead f s \<Longrightarrow> family_dead f s'" "code_used (hash_of env code) s'"
  using claimCode_state [OF assms] claim_all_used [of "hash_of env code" now s]
  by (auto simp: code_used_claim revokeFamily_def family_dead_revoke) (auto simp: code_used_def)

lemma redeemCode_keeps:
  assumes red: "redeemCode env form fresh now s = (r, s')" and used: "code_used f s"
  shows "code_used f s'" "family_dead f s \<Longrightarrow> family_dead f s'"
proof -
  have "code_used f s' \<and> (family_dead f s \<longrightarrow> family_dead f s')"
    using redeemCode_cases [OF red]
  proof (elim disjE exE conjE)
    fix q stored s1 out
    assume c: "claimCode env (q_code q) now s = (Inr stored, s1)"
      and i: "issueTokenPair env \<lparr>g_client = c_client stored, g_consent = c_consent stored, g_family = c_hash stored,
         g_parent = None, g_scopes = c_scopes stored, g_resource = q_resource q, g_refresh_expires = None\<rparr> fresh now s1 = (s', out)"
    have "c_hash stored \<noteq> f" using claimCode_Inr(2,4) [OF c] used by (auto simp: code_used_def)
    then show ?thesis using family_dead_issue [OF i] claimCode_keeps [OF c] used by auto
  qed (use used claimCode_keeps in auto)
  then show "code_used f s'" "family_dead f s \<Longrightarrow> family_dead f s'" by blast+
qed

lemma refresh_keeps:
  assumes inv: "store_inv s" and ref: "refresh env form fresh now s = (r, s')"
  shows "code_used f s' = code_used f s" "family_dead f s \<Longrightarrow> family_dead f s'"
proof -
  have "code_used f s' = code_used f s \<and> (family_dead f s \<longrightarrow> family_dead f s')"
    using refresh_cases [OF inv ref]
  proof (elim disjE exE conjE)
    fix old scopes pair presented
    assume rot: "rotates env old scopes fresh now s pair s'" and f: "findByHash (hash_of env presented) s = Some old"
      and live: "t_revoked old = None"
    have mem: "old \<in> set (tokens s)" using findByHash_Some [OF f] by simp
    note rows = rotates_rows [OF inv rot mem]
    have "family_dead f s \<Longrightarrow> t_family old \<noteq> f" using mem live by (auto simp: family_dead_def)
    then show ?thesis using rows by (auto simp: code_used_def family_dead_def)
  qed (auto simp: replayed_def revokeFamily_def family_dead_revoke)
  then show "code_used f s' = code_used f s" "family_dead f s \<Longrightarrow> family_dead f s'" by blast+
qed

lemma token_grant_cases:
  assumes grant: "token_grant env form fresh now s = (r, s')"
  obtains "s' = s"
  | r1 s1 where "redeemCode env form fresh now s = (r1, s1)" "s' = s1 \<or> (\<exists>a c v. s' = audit_row a c v s1)"
  | r1 s1 where "refresh env form fresh now s = (r1, s1)" "s' = s1 \<or> (\<exists>a c v. s' = audit_row a c v s1)"
proof -
  obtain r1 s1 where red: "redeemCode env form fresh now s = (r1, s1)" by fastforce
  obtain r2 s2 where ref: "refresh env form fresh now s = (r2, s2)" by fastforce
  define P where "P x y \<longleftrightarrow> y = x \<or> (\<exists>a c v. y = audit_row a c v x)" for x y
  have P: "P x x" "P x (audit_row a c v x)" for x a c v unfolding P_def by blast+
  have "s' = s \<or> P s1 s' \<or> P s2 s'"
    using grant red ref P by (auto simp: token_grant_def split: if_splits OAuthOutcome.splits)
  with red ref that show thesis unfolding P_def by blast
qed

lemma retired_keeps:
  "code_used f s \<Longrightarrow> code_used f (maintain now s)" "family_dead f s \<Longrightarrow> family_dead f (maintain now s)"
  by (auto simp: code_used_def family_dead_def maintain_def Let_def)

lemma touch_keeps:
  "code_used f (touchLastUsed i now s) = code_used f s" "family_dead f s \<Longrightarrow> family_dead f (touchLastUsed i now s)"
  by (auto simp: code_used_def family_dead_def)

lemma approve_keeps:
  assumes app: "approve env d form body consentId now s = (r, s')"
    and other: "hash_of env (mintCredential AUTHORIZATION_CODE_PREFIX body) \<noteq> f"
  shows "code_used f s' = code_used f s" "family_dead f s' = family_dead f s"
proof -
  consider a where "s' = audit_row a (d_client d) [] s" | "s' = s"
    | code s1 where "issueCode env d (tickedScopes env (d_pending d) form) body consentId now s = Some (code, s1)"
        "s' = audit_row ''consent_granted'' (d_client d) code s1"
    using app by (auto simp: approve_def Let_def split: if_splits option.splits)
  then have "code_used f s' = code_used f s \<and> family_dead f s' = family_dead f s"
  proof cases
    case 3
    from issueCode_Some [OF 3(1)] obtain c s2 where c: "code = mintCredential AUTHORIZATION_CODE_PREFIX body"
      "tokens s2 = tokens s" "codes s2 = codes s" "insert_code c s2 = Some s1" "c_hash c = hash_of env code" by blast
    with other have "tokens s1 = tokens s" "codes s1 = codes s @ [c]" "c_hash c \<noteq> f"
      by (auto simp: insert_code_def split: if_splits)
    then show ?thesis unfolding 3(2) dead_audit by (auto simp: code_used_def family_dead_def)
  qed simp_all
  then show "code_used f s' = code_used f s" "family_dead f s' = family_dead f s" by blast+
qed

lemma revokeToken_keeps:
  "code_used f (revokeToken env v now s) = code_used f s" "family_dead f s \<Longrightarrow> family_dead f (revokeToken env v now s)"
  by (auto simp: revokeToken_def revokeFamily_def revokeById_def family_dead_revoke split: option.splits)

lemma revokeConsent_keeps:
  assumes "revokeConsent operator i now s = (r, s')"
  shows "code_used f s' = code_used f s" "family_dead f s \<Longrightarrow> family_dead f s'"
proof -
  have "code_used f (snd (revoke_consent_row i now s)) = code_used f s"
    "family_dead f (snd (revoke_consent_row i now s)) = family_dead f s" by (simp_all add: code_used_def family_dead_def)
  then show "code_used f s' = code_used f s" "family_dead f s \<Longrightarrow> family_dead f s'"
    using revokeConsent_cases [OF assms]
    by (auto simp: revokeByConsent_def family_dead_revoke) (auto simp: code_used_def family_dead_def)
qed

lemma step_keeps:
  assumes step: "oauth_step env l s s'" and "l \<noteq> Some f" and inv: "store_inv s" and used: "code_used f s"
  shows "code_used f s'" "family_dead f s \<Longrightarrow> family_dead f s'"
proof -
  have "code_used f s' \<and> (family_dead f s \<longrightarrow> family_dead f s')"
    using step
  proof cases
    case (step_token form fresh now r)
    from step_token(2) show ?thesis
    proof (cases rule: token_grant_cases)
      case (2 r1 s1)
      then show ?thesis using redeemCode_keeps [OF 2(1) used] by auto
    next
      case (3 r1 s1)
      then show ?thesis using refresh_keeps [OF inv 3(1), of f] used by auto
    qed (use used in simp)
  next
    case (step_verify credential now r)
    then show ?thesis using verify_state touch_keeps used by metis
  qed (use assms revokeToken_keeps revokeConsent_keeps retired_keeps approve_keeps in \<open>auto; fail | metis\<close>)+
  then show "code_used f s'" "family_dead f s \<Longrightarrow> family_dead f s'" by blast+
qed

lemma runs_keeps:
  assumes "oauth_runs env f s s'" "store_inv s" "code_used f s"
  shows "store_inv s' \<and> code_used f s' \<and> (family_dead f s \<longrightarrow> family_dead f s')"
  using assms
proof (induction rule: oauth_runs.induct)
  case (runs_step s s' l s'')
  then have "store_inv s'" "code_used f s'" "family_dead f s \<longrightarrow> family_dead f s'" by blast+
  with runs_step.hyps step_keeps [OF runs_step.hyps(2,3)] store_inv_step show ?case by (auto simp: any_step_def)
qed simp

text \<open>A family that has a token has no unused code.\<close>

lemma family_code_used: "store_inv s \<Longrightarrow> t \<in> set (tokens s) \<Longrightarrow> code_used (t_family t) s"
  by (auto simp: store_inv_def code_used_def dest: rows_invD(4))

lemma family_dead_present:
  assumes "claimCode env code now s = (r, s')" "code_used (hash_of env code) s" "\<exists>c \<in> set (codes s). c_hash c = hash_of env code"
  shows "family_dead (hash_of env code) s'"
proof -
  let ?h = "hash_of env code"
  have "fst (claim ?h now s) \<noteq> UnknownCode"
  proof
    assume "fst (claim ?h now s) = UnknownCode"
    then have none: "find (\<lambda>c. c_hash c = ?h) (codes (snd (claim ?h now s))) = None"
      by (auto simp: claim_def Let_def split: option.splits if_splits)
    have "map c_hash (codes (snd (claim ?h now s))) = map c_hash (codes s)" unfolding claim_sel by (induction "codes s") auto
    then have "c_hash ` set (codes (snd (claim ?h now s))) = c_hash ` set (codes s)" by (metis set_map)
    with assms(3) none show False by (force simp: find_None_iff)
  qed
  moreover have "fst (claim ?h now s) \<noteq> Claimed c" for c
    using claim_Claimed [of ?h now s c "snd (claim ?h now s)"] assms(2)
    by (auto simp: code_used_def prod_eq_iff simp del: not_None_eq)
  ultimately obtain c where "fst (claim ?h now s) = Reused c" by (cases "fst (claim ?h now s)") auto
  then have "s' = audit_row ''token_revoked'' (c_client c) code (snd (revokeFamily ?h now (snd (claim ?h now s))))"
    using assms(1) by (cases "claim ?h now s") (auto simp: claimCode_def Let_def)
  then show ?thesis by (simp add: revokeFamily_dead)
qed

lemma claim_swept:
  assumes "\<not> (\<exists>c \<in> set (codes s). c_hash c = h)"
  shows "\<exists>s'. claim h now s = (UnknownCode, s') \<and> tokens s' = tokens s"
proof -
  have "find (\<lambda>c. c_hash c = h) (map (\<lambda>c. if c_hash c = h \<and> c_used c = None then c\<lparr>c_used := Some now\<rparr> else c) (codes s)) = None"
    using assms by (auto simp: find_None_iff)
  then show ?thesis by (simp add: claim_def Let_def)
qed

text \<open>
  What the sweep takes away: a code that was exchanged, expired since and was swept is refused when it
  is presented again, and its tokens stay live.
\<close>

lemma swept_code_revokes_nothing:
  assumes "\<not> (\<exists>c \<in> set (codes s). c_hash c = hash_of env code)" "claimCode env code now s = (r, s')"
  shows "r = fail invalid_grant \<and> tokens s' = tokens s"
  using claim_swept [OF assms(1), of now] assms(2) by (auto simp: claimCode_def Let_def)

section \<open>Guarantees\<close>


definition empty_store :: OAuthStore where
  "empty_store = \<lparr>tokens = [], codes = [], consents = [], trail = []\<rparr>"

lemma store_inv_empty_store: "store_inv empty_store"
  by code_simp

text \<open>The data the witnesses use: one consent with an unused code, a request for it, and a store after it.\<close>

definition example_env :: OAuthEnv where
  "example_env =
     \<lparr>hash_of = (\<lambda>v. CHR ''h'' # v), challenge_of = (\<lambda>v. v), resource_uri = ''https://gate/mcp'',
      accessTokenTtlMs = 600000, refreshTokenTtlMs = 86400000,
      switches = \<lparr>enableWriteScope = False, actions_enabled = False, connectors = (\<lambda>_. False)\<rparr>\<rparr>"

definition example_verifier :: string where
  "example_verifier = replicate 43 (CHR ''v'')"

definition example_store :: OAuthStore where
  "example_store =
     \<lparr>tokens = [],
      codes = [\<lparr>c_hash = ''hvg_ac_k'', c_client = ''c'', c_consent = ''n'', c_redirect = ''https://app/cb'',
        c_challenge = example_verifier, c_resource = ''https://gate/mcp'', c_scopes = [''vault:read''],
        c_expires = 300000, c_used = None\<rparr>],
      consents = [\<lparr>n_id = ''n'', n_operator = ''o'', n_client = ''c'', n_scopes = [''vault:read''], n_granted = 0, n_revoked = None\<rparr>],
      trail = []\<rparr>"

definition example_form :: FormFields where
  "example_form = map_of [(''code'', ''vg_ac_k''), (''client_id'', ''c''), (''redirect_uri'', ''https://app/cb''),
     (''code_verifier'', example_verifier), (''resource'', ''https://gate/mcp'')]"

definition example_minted :: Minted where
  "example_minted = \<lparr>m_access = ''a'', m_refresh = ''r'', m_access_id = ''1'', m_refresh_id = ''2''\<rparr>"

definition example_request :: CodeRequest where
  "example_request = \<lparr>q_code = ''vg_ac_k'', q_client = ''c'', q_redirect = ''https://app/cb'',
     q_verifier = example_verifier, q_resource = ''https://gate/mcp''\<rparr>"

lemma example_read: "readCodeRequest example_env example_form = Inr example_request"
  by code_simp

lemma example_inv: "store_inv example_store"
  by code_simp

definition redeemed_store :: OAuthStore where
  "redeemed_store = snd (redeemCode example_env example_form example_minted 1000 example_store)"

lemma redeemed_inv: "store_inv redeemed_store"
  by code_simp


text \<open>
  C5: A refresh token that was already exchanged revokes its family when it is presented again:
  the request is refused, and whatever is asked afterwards, no token of the family is live.
\<close>

theorem refresh_replay_kills_family:
  assumes "store_inv s" and "refresh env form fresh now s = (r, s1)"
    and presented: "form ''refresh_token'' = Some v" "hasCredentialPrefix v REFRESH_TOKEN_PREFIX"
      "form ''client_id'' = Some client" "client \<noteq> []"
    and old: "findByHash (hash_of env v) s = Some old" "t_kind old = RefreshToken" "t_replaced old \<noteq> None"
    and runs: "oauth_runs env (t_family old) s1 s2"
  shows "r = Refused invalid_grant \<and> family_dead (t_family old) s2"
proof -
  have mem: "old \<in> set (tokens s)" using findByHash_Some [OF old(1)] by simp
  have inv: "rows_inv (tokens s) (codes s)" using assms(1) by (simp add: store_inv_def)
  have v: "v \<noteq> []" using presented(2) by (auto simp: hasCredentialPrefix_def)
  have "r = Refused invalid_grant \<and> family_dead (t_family old) s1"
  proof (cases "t_revoked old")
    case None
    then have "r = Refused invalid_grant" "s1 = replayed env old v now s"
      using assms(2) presented old v by (auto simp: refresh_def liveRefreshToken_def requireField_def fail_def ok_def split: option.splits)
    then show ?thesis by (simp add: replayed_def revokeFamily_dead)
  next
    case (Some n)
    then have "r = Refused invalid_grant" "s1 = s"
      using assms(2) presented old v by (auto simp: refresh_def liveRefreshToken_def requireField_def fail_def ok_def)
    moreover have "family_dead (t_family old) s"
      unfolding family_dead_def using rows_invD(7) [OF inv mem _ _ old(2)] Some by auto
    ultimately show ?thesis by simp
  qed
  moreover have "code_used (t_family old) s1"
    using refresh_keeps(1) [OF assms(1,2)] family_code_used [OF assms(1) mem] by simp
  ultimately show ?thesis
    using runs_keeps [OF runs store_inv_refresh [OF assms(1,2)]] by blast
qed

definition refresh_form :: FormFields where
  "refresh_form = map_of [(''grant_type'', ''refresh_token''), (''refresh_token'', ''vg_rt_r''), (''client_id'', ''c'')]"

definition refreshed_minted :: Minted where
  "refreshed_minted = \<lparr>m_access = ''b'', m_refresh = ''q'', m_access_id = ''3'', m_refresh_id = ''4''\<rparr>"

definition refreshed_store :: OAuthStore where
  "refreshed_store = snd (refresh example_env refresh_form refreshed_minted 3000 redeemed_store)"

theorem refresh_replay_kills_family_witness:
  "fst (refresh example_env refresh_form example_minted 4000 refreshed_store) = Refused invalid_grant \<and>
   family_dead ''hvg_ac_k'' (snd (refresh example_env refresh_form example_minted 4000 refreshed_store)) \<and>
   length (tokens refreshed_store) = 4"
proof -
  obtain old where old: "findByHash ''hvg_rt_r'' refreshed_store = Some old"
    "t_family old = ''hvg_ac_k''" "t_kind old = RefreshToken" "t_replaced old \<noteq> None"
  proof -
    have "case findByHash ''hvg_rt_r'' refreshed_store of None \<Rightarrow> False
      | Some old \<Rightarrow> t_family old = ''hvg_ac_k'' \<and> t_kind old = RefreshToken \<and> t_replaced old \<noteq> None" by code_simp
    with that show thesis by (auto split: option.splits)
  qed
  have "store_inv refreshed_store" "refresh_form ''refresh_token'' = Some ''vg_rt_r''"
    "hasCredentialPrefix ''vg_rt_r'' REFRESH_TOKEN_PREFIX" "refresh_form ''client_id'' = Some ''c''"
    "hash_of example_env ''vg_rt_r'' = ''hvg_rt_r''" "length (tokens refreshed_store) = 4" by code_simp+
  with refresh_replay_kills_family [where s = refreshed_store and env = example_env and form = refresh_form
      and fresh = example_minted and now = 4000 and v = "''vg_rt_r''" and client = "''c''" and old = old,
      OF _ surjective_pairing _ _ _ _ _ _ _ runs_refl] old
  show ?thesis by simp
qed

text \<open>
  A refresh that succeeds rotates. The token presented is a live, unexpired refresh token of the
  client that asks, under an active consent; the new token continues its family, for its client,
  resource and expiry, with scopes among the ones it had; the old one is marked as replaced by it.
\<close>

theorem refresh_rotates:
  assumes "store_inv s" and "refresh env form fresh now s = (Done pair, s')"
  shows "\<exists>v old new. form ''refresh_token'' = Some v \<and> old \<in> set (tokens s) \<and> t_hash old = hash_of env v \<and>
    t_kind old = RefreshToken \<and> t_revoked old = None \<and> t_replaced old = None \<and> now < t_expires old \<and>
    form ''client_id'' = Some (t_client old) \<and> isConsentActive s (t_consent old) \<and>
    new \<in> set (tokens s') \<and> t_hash new = hash_of env (p_refresh pair) \<and> t_kind new = RefreshToken \<and> t_id new = p_refresh_id pair \<and>
    t_family new = t_family old \<and> t_client new = t_client old \<and> t_resource new = t_resource old \<and>
    t_expires new = t_expires old \<and> t_scopes new = p_scopes pair \<and> set (p_scopes pair) \<subseteq> set (t_scopes old) \<and>
    old\<lparr>t_replaced := Some (p_refresh_id pair)\<rparr> \<in> set (tokens s') \<and> old \<notin> set (tokens s')"
proof -
  from refresh_cases [OF assms] obtain v old scopes where v: "form ''refresh_token'' = Some v"
      "findByHash (hash_of env v) s = Some old" and old: "t_kind old = RefreshToken" "t_revoked old = None"
      "t_replaced old = None" "now < t_expires old" "form ''client_id'' = Some (t_client old)"
      "isConsentActive s (t_consent old)" and rot: "rotates env old scopes fresh now s pair s'" by auto
  have mem: "old \<in> set (tokens s)" "t_hash old = hash_of env v" using findByHash_Some [OF v(2)] by simp_all
  note rows = rotates_rows [OF assms(1) rot mem(1)]
  from rot obtain s1 where i: "issueTokenPair env (rotation_grant old scopes) fresh now s = (s1, Some pair)"
    and sub: "isScopeSubset scopes (t_scopes old)" by (auto simp: rotates_def)
  note iss = issueTokenPair_Some [OF i]
  let ?n = "refresh_record env (rotation_grant old scopes) fresh now"
  have pair: "p_refresh_id pair = m_refresh_id fresh" "p_scopes pair = scopes" "p_refresh pair = REFRESH_TOKEN_PREFIX @ m_refresh fresh"
    using iss by simp_all
  have "mark_row (t_id old) (m_refresh_id fresh) old = old\<lparr>t_replaced := Some (p_refresh_id pair)\<rparr>"
    using old(3) pair(1) by (simp add: mark_row_def)
  moreover have "mark_row (t_id old) (m_refresh_id fresh) old \<in> set (tokens s')" using rows mem(1) by simp
  ultimately have marked: "old\<lparr>t_replaced := Some (p_refresh_id pair)\<rparr> \<in> set (tokens s')" by simp
  have "rows_inv (tokens s') (codes s')" using store_inv_refresh [OF assms] by (simp add: store_inv_def)
  then have gone: "old \<notin> set (tokens s')"
    using rows_inv_unique [OF _ _ marked, of "codes s'" old] old(3) by (metis TokenRecord.select_convs(6) TokenRecord.surjective
      TokenRecord.update_convs(6) option.distinct(1) TokenRecord.select_convs(1))
  have "?n \<in> set (tokens s')" "t_hash ?n = hash_of env (p_refresh pair)" using rows pair(3) by (simp_all add: refresh_record_def mintCredential_def)
  moreover have "set scopes \<subseteq> set (t_scopes old)" using sub by (simp add: isScopeSubset_iff)
  ultimately show ?thesis using v mem old marked gone pair
    by (intro exI [of _ v] exI [of _ old] exI [of _ ?n]) simp
qed

definition refreshed_pair :: IssuedPair where
  "refreshed_pair =
     \<lparr>p_client = ''c'', p_access = ''vg_at_b'', p_refresh = ''vg_rt_q'', p_access_id = ''3'', p_refresh_id = ''4'',
      p_scopes = [''vault:read''], p_expires_in = 600\<rparr>"

theorem refresh_rotates_witness:
  "\<exists>new \<in> set (tokens refreshed_store). t_id new = ''4'' \<and> t_kind new = RefreshToken \<and> t_scopes new = [''vault:read'']"
proof -
  have "fst (refresh example_env refresh_form refreshed_minted 3000 redeemed_store) = Done refreshed_pair" by code_simp
  then have "refresh example_env refresh_form refreshed_minted 3000 redeemed_store = (Done refreshed_pair, refreshed_store)"
    by (metis prod.collapse refreshed_store_def)
  from refresh_rotates [OF redeemed_inv this] show ?thesis by (auto simp: refreshed_pair_def)
qed

text \<open>
  C18: In every state the server reaches from an empty store, a family of tokens has at most one
  live refresh token, whatever the order of the requests; and the tokens of a family agree on
  client, consent and resource.
\<close>

theorem one_live_refresh_token:
  assumes "(any_step env)\<^sup>*\<^sup>* empty_store s" and "a \<in> set (tokens s)" "b \<in> set (tokens s)" "t_family a = t_family b"
  shows "t_client a = t_client b \<and> t_consent a = t_consent b \<and> t_resource a = t_resource b \<and>
    (t_kind a = RefreshToken \<and> t_kind b = RefreshToken \<longrightarrow> t_expires a = t_expires b \<and>
       (t_revoked a = None \<and> t_replaced a = None \<and> t_revoked b = None \<and> t_replaced b = None \<longrightarrow> a = b))"
proof -
  have "store_inv s" by (rule oauth.reachable_inv [OF assms(1) store_inv_empty_store])
  then have inv: "rows_inv (tokens s) (codes s)" by (simp add: store_inv_def)
  note d = rows_invD [OF inv]
  show ?thesis
    using d(5) [OF assms(2-4)] d(6) [OF assms(2-4)] d(8) [OF assms(2-4)] rows_inv_unique [OF inv assms(2,3)] by blast
qed

definition example_decision :: Decision where
  "example_decision = \<lparr>d_operator = ''o'', d_client = ''c'', d_redirect = ''https://app/cb'', d_challenge = example_verifier,
     d_resource = ''https://gate/mcp'', d_pending = [''vault:read'']\<rparr>"

definition approved_store :: OAuthStore where
  "approved_store = snd (approve example_env example_decision (map_of [(''scope:vault:read'', ''on'')]) ''k'' ''n'' 0 empty_store)"

definition granted_store :: OAuthStore where
  "granted_store = snd (token_grant example_env (example_form(''grant_type'' \<mapsto> ''authorization_code'')) example_minted 1000 approved_store)"

lemma granted_reachable: "(any_step example_env)\<^sup>*\<^sup>* empty_store granted_store"
proof -
  have "any_step example_env empty_store approved_store"
    unfolding any_step_def approved_store_def
    by (intro exI, rule step_approve [OF surjective_pairing]) (simp add: empty_store_def)
  moreover have "any_step example_env approved_store granted_store"
    unfolding any_step_def granted_store_def by (intro exI, rule step_token [OF surjective_pairing])
  ultimately show ?thesis by auto
qed

theorem one_live_refresh_token_witness:
  "\<exists>a \<in> set (tokens granted_store). \<exists>b \<in> set (tokens granted_store).
     t_kind a = AccessToken \<and> t_kind b = RefreshToken \<and> t_client a = t_client b"
proof -
  have "\<exists>a \<in> set (tokens granted_store). \<exists>b \<in> set (tokens granted_store).
     t_kind a = AccessToken \<and> t_kind b = RefreshToken \<and> t_family a = t_family b" by code_simp
  with one_live_refresh_token [OF granted_reachable] show ?thesis by blast
qed

text \<open>
  C16: A bearer token is accepted exactly when it is an access token the server issued for this
  resource, unexpired and not revoked, whose consent is still active; what the caller may do is
  then what that row says.
\<close>

theorem verify_iff:
  "fst (verify env v now s) = Inr w \<longleftrightarrow>
     (\<exists>t n. hasCredentialPrefix v ACCESS_TOKEN_PREFIX \<and> findByHash (hash_of env v) s = Some t \<and>
        t_kind t = AccessToken \<and> t_revoked t = None \<and> now < t_expires t \<and> t_resource t = resource_uri env \<and>
        findConsent (t_consent t) s = Some n \<and> n_revoked n = None \<and>
        w = \<lparr>v_client = t_client t, v_subject = n_operator n, v_scopes = t_scopes t, v_expires = t_expires t\<rparr>)"
proof -
  have "fst (verify env v now s) = (if \<not> hasCredentialPrefix v ACCESS_TOKEN_PREFIX then Inl Malformed
      else case findLiveToken env (hash_of env v) now s of Inl e \<Rightarrow> Inl e
        | Inr (t, n) \<Rightarrow> Inr \<lparr>v_client = t_client t, v_subject = n_operator n, v_scopes = t_scopes t, v_expires = t_expires t\<rparr>)"
    by (simp add: verify_def fail_def ok_def split: sum.split prod.split)
  moreover have live: "findLiveToken env (hash_of env v) now s = Inr (t, n) \<longleftrightarrow> findByHash (hash_of env v) s = Some t \<and> t_kind t = AccessToken \<and>
      t_revoked t = None \<and> now < t_expires t \<and> t_resource t = resource_uri env \<and>
      findConsent (t_consent t) s = Some n \<and> n_revoked n = None" for t n
    by (auto simp: findLiveToken_def fail_def ok_def split: option.splits if_splits)
  moreover have "fst (verify env v now s) = Inr w \<longleftrightarrow> hasCredentialPrefix v ACCESS_TOKEN_PREFIX \<and>
      (\<exists>t n. findLiveToken env (hash_of env v) now s = Inr (t, n) \<and>
        w = \<lparr>v_client = t_client t, v_subject = n_operator n, v_scopes = t_scopes t, v_expires = t_expires t\<rparr>)"
    unfolding calculation(1) by (auto split: sum.splits prod.splits)
  ultimately show ?thesis unfolding live by blast
qed

text \<open>
  A code is exchanged for tokens only by the client it was issued to, before it expires, with
  the redirect address and resource it was issued for, while the consent is active, and with a
  verifier whose digest is the challenge of the authorization request; the access token carries
  exactly the scopes the operator granted.
\<close>

theorem redeem_success:
  assumes "redeemCode env form fresh now s = (Done pair, s')"
  shows "\<exists>v c c'. form ''code'' = Some v \<and> c \<in> set (codes s) \<and> c_hash c = hash_of env v \<and> c_used c = None \<and>
    c' \<in> set (codes s') \<and> c_hash c' = hash_of env v \<and> now < c_expires c' \<and>
    form ''client_id'' = Some (c_client c') \<and> form ''redirect_uri'' = Some (c_redirect c') \<and>
    form ''resource'' = Some (c_resource c') \<and> c_resource c' = resource_uri env \<and> isConsentActive s' (c_consent c') \<and>
    (\<exists>k. form ''code_verifier'' = Some k \<and> 43 \<le> length k \<and> length k \<le> 128 \<and> challenge_of env k = c_challenge c') \<and>
    p_scopes pair = c_scopes c' \<and> code_used (hash_of env v) s' \<and>
    (\<exists>t \<in> set (tokens s'). t_hash t = hash_of env (p_access pair) \<and> t_kind t = AccessToken \<and>
       t_scopes t = c_scopes c' \<and> t_family t = hash_of env v \<and> t_client t = c_client c')"
proof -
  from redeemCode_cases [OF assms] obtain q stored s1 out where q: "readCodeRequest env form = Inr q"
    and c: "claimCode env (q_code q) now s = (Inr stored, s1)"
    and b: "c_expires stored > now" "c_client stored = q_client q" "c_redirect stored = q_redirect q"
      "c_resource stored = q_resource q" "isConsentActive s1 (c_consent stored)"
      "isCodeVerifierFor env (q_verifier q) (c_challenge stored)"
    and i: "issueTokenPair env \<lparr>g_client = c_client stored, g_consent = c_consent stored, g_family = c_hash stored,
         g_parent = None, g_scopes = c_scopes stored, g_resource = q_resource q, g_refresh_expires = None\<rparr> fresh now s1 = (s', out)"
    and out: "out = Some pair" by (auto split: option.splits)
  define g where "g = \<lparr>g_client = c_client stored, g_consent = c_consent stored, g_family = c_hash stored,
         g_parent = None, g_scopes = c_scopes stored, g_resource = q_resource q, g_refresh_expires = None\<rparr>"
  have g: "g_client g = c_client stored" "g_family g = c_hash stored" "g_scopes g = c_scopes stored" by (simp_all add: g_def)
  have fields: "form ''code'' = Some (q_code q)" "form ''client_id'' = Some (q_client q)"
    "form ''redirect_uri'' = Some (q_redirect q)" "form ''code_verifier'' = Some (q_verifier q)"
    "form ''resource'' = Some (q_resource q)" "q_resource q = resource_uri env"
    using q by (auto simp: readCodeRequest_def requireField_def ok_def fail_def Let_def split: option.splits if_splits sum.splits)
  note d = claimCode_Inr [OF c] and r = issueTokenPair_Some [OF i [folded g_def, unfolded out]]
  have rows: "codes s' = codes s1" "consents s' = consents s1" using r by simp_all
  then have "isConsentActive s' (c_consent stored)" using b(5) by (simp add: isConsentActive_def findConsent_def)
  moreover obtain c0 where "c0 \<in> set (codes s)" "c_hash c0 = hash_of env (q_code q)" "c_used c0 = None" using d(4) by auto
  moreover have "code_used (hash_of env (q_code q)) s'" using claimCode_keeps(3) [OF c] rows by (simp add: code_used_def)
  moreover have "access_record env g fresh now \<in> set (tokens s')" using r by simp
  moreover have "t_hash (access_record env g fresh now) = hash_of env (p_access pair)"
    using r by (simp add: access_record_def mintCredential_def)
  moreover have "p_scopes pair = c_scopes stored" using r g by simp
  ultimately show ?thesis using fields b d(1,2) rows(1) g
    by (intro exI [of _ "q_code q"] exI [of _ c0] exI [of _ stored])
      (simp add: isCodeVerifierFor_def isValidCodeVerifier_def bexI [of _ "access_record env g fresh now"])
qed

theorem redeem_success_witness:
  "\<exists>c \<in> set (codes redeemed_store). c_hash c = ''hvg_ac_k'' \<and> c_challenge c = example_verifier"
proof -
  obtain pair where "fst (redeemCode example_env example_form example_minted 1000 example_store) = Done pair"
  proof -
    have "case fst (redeemCode example_env example_form example_minted 1000 example_store) of Done _ \<Rightarrow> True | _ \<Rightarrow> False"
      by code_simp
    with that show thesis by (auto split: OAuthOutcome.splits)
  qed
  then have "redeemCode example_env example_form example_minted 1000 example_store = (Done pair, redeemed_store)"
    by (metis prod.collapse redeemed_store_def)
  from redeem_success [OF this] show ?thesis by (auto simp: example_form_def example_env_def)
qed

text \<open>
  Revoking a refresh token is final: whatever is asked afterwards, no token of its family is
  accepted by the verifier or can be refreshed.
\<close>

theorem revoked_family_stays_revoked:
  assumes "store_inv s" and "findByHash (hash_of env v) s = Some t" "t_kind t = RefreshToken"
    and "hasCredentialPrefix v REFRESH_TOKEN_PREFIX"
    and runs: "oauth_runs env (t_family t) (revokeToken env v now s) s2"
    and u: "findByHash (hash_of env w) s2 = Some u" "t_family u = t_family t"
  shows "(\<exists>e. fst (verify env w now2 s2) = Inl e) \<and>
    (form ''refresh_token'' = Some w \<longrightarrow> (\<exists>e. fst (refresh env form fresh now2 s2) = Refused e))"
proof -
  have mem: "t \<in> set (tokens s)" using findByHash_Some [OF assms(2)] by simp
  have "family_dead (t_family t) (revokeToken env v now s)"
    using assms(2-4) by (simp add: revokeToken_def revokeFamily_dead)
  moreover have "code_used (t_family t) (revokeToken env v now s)"
    using family_code_used [OF assms(1) mem] by (simp add: revokeToken_keeps(1))
  ultimately have "family_dead (t_family t) s2"
    using runs_keeps [OF runs store_inv_revokeToken [OF assms(1)]] by blast
  then have dead: "t_revoked u \<noteq> None" using findByHash_Some [OF u(1)] u(2) by (auto simp: family_dead_def)
  have "\<exists>e. findLiveToken env (hash_of env w) now2 s2 = Inl e" using u(1) dead by (simp add: findLiveToken_def fail_def)
  then have "\<exists>e. fst (verify env w now2 s2) = Inl e" by (auto simp: verify_def fail_def)
  moreover have "\<exists>e. fst (refresh env form fresh now2 s2) = Refused e" if "form ''refresh_token'' = Some w"
    using that u(1) dead
    by (auto simp: refresh_def liveRefreshToken_def requireField_def fail_def ok_def split: option.splits)
  ultimately show ?thesis by blast
qed

theorem revoked_family_stays_revoked_witness:
  "\<exists>e. fst (verify example_env ''vg_at_a'' 3000 (revokeToken example_env ''vg_rt_r'' 2000 redeemed_store)) = Inl e"
proof -
  let ?s2 = "revokeToken example_env ''vg_rt_r'' 2000 redeemed_store"
  have "case (findByHash (hash_of example_env ''vg_rt_r'') redeemed_store, findByHash (hash_of example_env ''vg_at_a'') ?s2) of
      (Some t, Some u) \<Rightarrow> t_kind t = RefreshToken \<and> t_family u = t_family t | _ \<Rightarrow> False" by code_simp
  then obtain t u where "findByHash (hash_of example_env ''vg_rt_r'') redeemed_store = Some t"
    "findByHash (hash_of example_env ''vg_at_a'') ?s2 = Some u" "t_kind t = RefreshToken" "t_family u = t_family t"
    by (auto split: option.splits)
  moreover have "hasCredentialPrefix ''vg_rt_r'' REFRESH_TOKEN_PREFIX" by code_simp
  ultimately show ?thesis using revoked_family_stays_revoked [OF redeemed_inv _ _ _ runs_refl] by blast
qed

end
