(* ===== verification/Net.thy ===== *)
theory Net
  imports Actions "HOL-Library.Word"
begin

text \<open>
  \<^verbatim>\<open>src/net/ip-ranges.ts\<close>, \<^verbatim>\<open>src/net/client-ip.ts\<close> and \<^verbatim>\<open>src/actions/destination.ts\<close>: which
  addresses a destination may have, which address a request comes from behind proxies, and the
  one address a call is pinned to. \<^verbatim>\<open>isIP\<close> and \<^verbatim>\<open>BlockList\<close> are of the Node library; an address
  is its 128 bits, an IPv4 one in the mapped block, as \<^verbatim>\<open>BlockList\<close> compares them.
\<close>

unbundle bit_operations_syntax

section \<open>Address literals\<close>

text \<open>The value of a sequence of digits.\<close>

definition digits_value :: "nat \<Rightarrow> string \<Rightarrow> nat" where
  "digits_value base s = fold (\<lambda>c n. n * base + hex_value c) s 0"

text \<open>A decimal octet: no leading zero, at most 255.\<close>

definition v4_segment :: "string \<Rightarrow> nat option" where
  "v4_segment s =
     (if 1 \<le> length s \<and> length s \<le> 3 \<and> list_all is_digit s \<and> (length s = 1 \<or> hd s \<noteq> CHR ''0'') \<and> digits_value 10 s \<le> 255
      then Some (digits_value 10 s) else None)"

definition all_some :: "'a option list \<Rightarrow> 'a list option" where
  "all_some xs = (if None \<in> set xs then None else Some (map the xs))"

definition octets :: "nat \<Rightarrow> nat \<Rightarrow> nat \<Rightarrow> nat \<Rightarrow> nat" where
  "octets a b c d = ((a * 256 + b) * 256 + c) * 256 + d"

definition parse_v4 :: "string \<Rightarrow> nat option" where
  "parse_v4 s =
     (case all_some (map v4_segment (split_on (CHR ''.'') s)) of
        Some [a, b, c, d] \<Rightarrow> Some (octets a b c d)
      | _ \<Rightarrow> None)"

definition v6_segment :: "string \<Rightarrow> nat option" where
  "v6_segment s = (if 1 \<le> length s \<and> length s \<le> 4 \<and> list_all is_hex s then Some (digits_value 16 s) else None)"

text \<open>
  The groups between colons, the last of which may be a dotted address that stands for two; an
  empty text has no group.
\<close>

definition v6_groups :: "bool \<Rightarrow> string \<Rightarrow> nat list option" where
  "v6_groups dotted s =
     (if s = [] then Some []
      else
       (let parts = split_on (CHR '':'') s;
            tail = (if dotted then parse_v4 (last parts) else None)
        in case tail of
             Some v \<Rightarrow> map_option (\<lambda>gs. gs @ [v div 65536, v mod 65536]) (all_some (map v6_segment (butlast parts)))
           | None \<Rightarrow> all_some (map v6_segment parts)))"

text \<open>The text before the first \<^verbatim>\<open>::\<close> and after it.\<close>

fun split_double :: "string \<Rightarrow> (string \<times> string) option" where
  "split_double (CHR '':'' # CHR '':'' # rest) = Some ([], rest)"
| "split_double (c # rest) = map_option (\<lambda>(a, b). (c # a, b)) (split_double rest)"
| "split_double [] = None"

definition v6_value :: "nat list \<Rightarrow> nat" where
  "v6_value gs = fold (\<lambda>g n. n * 65536 + g) gs 0"

text \<open>A \<^verbatim>\<open>::\<close> stands for one group of zeros or more.\<close>

definition parse_v6 :: "string \<Rightarrow> nat option" where
  "parse_v6 s =
     (case split_double s of
        None \<Rightarrow>
          (case v6_groups True s of
             Some gs \<Rightarrow> if length gs = 8 then Some (v6_value gs) else None
           | None \<Rightarrow> None)
      | Some (before, rest) \<Rightarrow>
          (case (v6_groups False before, v6_groups True rest) of
             (Some gs, Some hs) \<Rightarrow>
               if length gs + length hs \<le> 7
               then Some (v6_value (gs @ replicate (8 - (length gs + length hs)) 0 @ hs)) else None
           | _ \<Rightarrow> None))"

text \<open>A zone, \<^verbatim>\<open>%eth0\<close>, may follow an IPv6 literal and is not part of the address.\<close>

definition is_zone_char :: "char \<Rightarrow> bool" where
  "is_zone_char c \<longleftrightarrow> is_digit c \<or> is_upper c \<or> is_lower c \<or> c \<in> {CHR ''-'', CHR ''.'', CHR '':''}"

definition parse_zoned :: "string \<Rightarrow> nat option" where
  "parse_zoned s =
     (let zone = from_first (CHR ''%'') s in
      if zone = [] then parse_v6 s
      else if tl zone \<noteq> [] \<and> list_all is_zone_char (tl zone) then parse_v6 (before_first (CHR ''%'') s) else None)"

definition V4_MAPPED :: nat where "V4_MAPPED = 65535 * 2 ^ 32"

text \<open>\<^verbatim>\<open>isIP\<close> with the 128 bits \<^verbatim>\<open>BlockList\<close> reads: \<open>None\<close> where \<^verbatim>\<open>isIP\<close> answers 0.\<close>

definition address_bits :: "string \<Rightarrow> 128 word option" where
  "address_bits s =
     (case parse_v4 s of
        Some v \<Rightarrow> Some (word_of_nat (V4_MAPPED + v))
      | None \<Rightarrow> map_option word_of_nat (parse_zoned s))"

definition isIP :: "string \<Rightarrow> bool" where
  "isIP s \<longleftrightarrow> address_bits s \<noteq> None"

section \<open>Ranges\<close>

datatype AddressClass = PublicAddress | PrivateAddress | ForbiddenAddress | InvalidAddress

text \<open>A network and its prefix, in the 128 bits: an IPv4 prefix is 96 longer.\<close>

type_synonym Subnet = "128 word \<times> nat"

definition v4_subnet :: "nat \<Rightarrow> nat \<Rightarrow> nat \<Rightarrow> nat \<Rightarrow> nat \<Rightarrow> Subnet" where
  "v4_subnet a b c d p = (word_of_nat (V4_MAPPED + octets a b c d), 96 + p)"

definition v6_subnet :: "nat list \<Rightarrow> nat \<Rightarrow> Subnet" where
  "v6_subnet gs p = (word_of_nat (v6_value (gs @ replicate (8 - length gs) 0)), p)"

definition PRIVATE_V4 :: "Subnet list" where
  "PRIVATE_V4 = [v4_subnet 10 0 0 0 8, v4_subnet 100 64 0 0 10, v4_subnet 172 16 0 0 12, v4_subnet 192 168 0 0 16]"

definition PRIVATE_V6 :: "Subnet list" where
  "PRIVATE_V6 = [v6_subnet [0xfc00] 7]"

definition FORBIDDEN_V4 :: "Subnet list" where
  "FORBIDDEN_V4 =
     [v4_subnet 0 0 0 0 8, v4_subnet 127 0 0 0 8, v4_subnet 169 254 0 0 16, v4_subnet 192 0 0 0 24,
      v4_subnet 192 0 2 0 24, v4_subnet 198 18 0 0 15, v4_subnet 198 51 100 0 24, v4_subnet 203 0 113 0 24,
      v4_subnet 224 0 0 0 4, v4_subnet 240 0 0 0 4]"

definition FORBIDDEN_V6 :: "Subnet list" where
  "FORBIDDEN_V6 =
     [v6_subnet [] 128, v6_subnet [0, 0, 0, 0, 0, 0, 0, 1] 128, v6_subnet [0x64, 0xff9b] 96,
      v6_subnet [0x64, 0xff9b, 1] 48, v6_subnet [0x2001, 0xdb8] 32, v6_subnet [0xfe80] 10, v6_subnet [0xff00] 8]"

text \<open>\<^verbatim>\<open>BlockList.check\<close>: the bits above the prefix agree with a network of the list.\<close>

definition in_subnet :: "128 word \<Rightarrow> Subnet \<Rightarrow> bool" where
  "in_subnet w n \<longleftrightarrow> (case n of (network, p) \<Rightarrow> drop_bit (128 - p) w = drop_bit (128 - p) network)"

definition block_check :: "Subnet list \<Rightarrow> 128 word \<Rightarrow> bool" where
  "block_check ns w \<longleftrightarrow> list_ex (in_subnet w) ns"

definition IPV4_MAPPED_PREFIX :: string where "IPV4_MAPPED_PREFIX = ''::ffff:''"

definition classifyAddress :: "string \<Rightarrow> AddressClass" where
  "classifyAddress address =
     (let unmapped = (if prefix IPV4_MAPPED_PREFIX (map ascii_lower address)
                      then drop (length IPV4_MAPPED_PREFIX) address else address)
      in case address_bits unmapped of
           None \<Rightarrow> InvalidAddress
         | Some w \<Rightarrow>
           (if block_check (FORBIDDEN_V4 @ FORBIDDEN_V6) w then ForbiddenAddress
            else if block_check (PRIVATE_V4 @ PRIVATE_V6) w then PrivateAddress else PublicAddress))"

definition isPublicAddress :: "string \<Rightarrow> bool" where
  "isPublicAddress address \<longleftrightarrow> classifyAddress address = PublicAddress"

section \<open>The client's address\<close>

record ClientIpOptions =
  trustProxy :: bool
  trustedProxyHops :: nat

record ClientIpSource =
  forwardedFor :: "string option"
  socketAddress :: "string option"

text \<open>\<^verbatim>\<open>entries.at(-n)\<close>: from the end, the first for \<open>n = 0\<close>.\<close>

definition at_end :: "nat \<Rightarrow> 'a list \<Rightarrow> 'a option" where
  "at_end n xs =
     (if n = 0 then (if xs = [] then None else Some (hd xs))
      else if n \<le> length xs then Some (xs ! (length xs - n)) else None)"

definition resolveClientIp :: "ClientIpSource \<Rightarrow> ClientIpOptions \<Rightarrow> string option" where
  "resolveClientIp source options =
     (case forwardedFor source of
        None \<Rightarrow> socketAddress source
      | Some header \<Rightarrow>
        (if \<not> trustProxy options then socketAddress source
         else
          (case at_end (trustedProxyHops options) (map trim (split_on (CHR '','') header)) of
             Some candidate \<Rightarrow> if isIP candidate then Some candidate else socketAddress source
           | None \<Rightarrow> socketAddress source)))"

section \<open>Pinning\<close>

datatype DestinationProblem = DInvalid | DForbidden | DPrivate | DUnresolved

definition literalAddress :: "string \<Rightarrow> string" where
  "literalAddress host =
     (if host \<noteq> [] \<and> hd host = CHR ''['' \<and> last host = CHR '']'' then butlast (tl host) else host)"

definition addressProblem :: "string \<Rightarrow> bool \<Rightarrow> DestinationProblem option" where
  "addressProblem address isInternal =
     (case classifyAddress address of
        PublicAddress \<Rightarrow> None
      | PrivateAddress \<Rightarrow> if isInternal then None else Some DPrivate
      | ForbiddenAddress \<Rightarrow> Some DForbidden
      | InvalidAddress \<Rightarrow> Some DInvalid)"

fun first_problem :: "bool \<Rightarrow> string list \<Rightarrow> DestinationProblem option" where
  "first_problem isInternal [] = None"
| "first_problem isInternal (a # as) =
     (case addressProblem a isInternal of Some p \<Rightarrow> Some p | None \<Rightarrow> first_problem isInternal as)"

text \<open>\<open>lookup\<close> is the resolver; \<open>None\<close> where it rejects.\<close>

type_synonym Lookup = "string \<Rightarrow> string list option"

definition resolve_host :: "string \<Rightarrow> Lookup \<Rightarrow> string list" where
  "resolve_host host lookup = (case lookup host of Some addresses \<Rightarrow> addresses | None \<Rightarrow> [])"

definition pinEndpoint :: "Endpoint \<Rightarrow> bool \<Rightarrow> Lookup \<Rightarrow> (PinnedEndpoint, DestinationProblem) result" where
  "pinEndpoint endpoint isInternal lookup =
     (let literal = literalAddress (endpoint_host endpoint);
          addresses = (if isIP literal then [literal] else resolve_host (endpoint_host endpoint) lookup)
      in case addresses of
           [] \<Rightarrow> fail DUnresolved
         | first # _ \<Rightarrow>
           (case first_problem isInternal addresses of
              Some p \<Rightarrow> fail p
            | None \<Rightarrow> ok \<lparr>endpoint_host = endpoint_host endpoint, endpoint_tls = endpoint_tls endpoint,
                          pinned_address = first\<rparr>))"

section \<open>Lemmas\<close>

lemma all_some_iff: "all_some xs = Some ys \<longleftrightarrow> xs = map Some ys"
proof -
  have "None \<notin> set xs \<Longrightarrow> map Some (map the xs) = xs" by (induction xs) auto
  then show ?thesis by (auto simp: all_some_def)
qed

lemma unat_word128: "n < 2 ^ 128 \<Longrightarrow> unat (word_of_nat n :: 128 word) = n"
  by (simp add: unat_of_nat)

lemma unat_drop128: "n < 2 ^ 128 \<Longrightarrow> unat (drop_bit k (word_of_nat n :: 128 word)) = n div 2 ^ k"
  by (simp only: unat_drop_bit_eq unat_word128 flip: drop_bit_eq_div)

lemma word_of_unat: "unat (w :: 128 word) = n \<Longrightarrow> w = word_of_nat n"
  by auto

text \<open>Comparing the bits above a prefix of an IPv4 network compares the quotients.\<close>

lemma in_v4_subnet:
  assumes x: "x < 2 ^ 32" and net: "octets a b c d < 2 ^ 32" and p: "p \<le> 32"
  shows "in_subnet (word_of_nat (V4_MAPPED + x)) (v4_subnet a b c d p) \<longleftrightarrow>
    x div 2 ^ (32 - p) = octets a b c d div 2 ^ (32 - p)"
proof -
  let ?y = "octets a b c d"
  let ?k = "32 - p"
  have bits: "drop_bit ?k (word_of_nat (V4_MAPPED + z) :: 128 word) = word_of_nat ((V4_MAPPED + z) div 2 ^ ?k)"
    if "z < 2 ^ 32" for z
  proof -
    have "V4_MAPPED + z < 2 ^ 128" using that by (simp add: V4_MAPPED_def)
    then have "unat (drop_bit ?k (word_of_nat (V4_MAPPED + z) :: 128 word)) = (V4_MAPPED + z) div 2 ^ ?k"
      by (rule unat_drop128)
    then show ?thesis by (rule word_of_unat)
  qed
  have split: "(V4_MAPPED + z) div 2 ^ ?k = 65535 * 2 ^ p + z div 2 ^ ?k" for z
  proof -
    have mapped: "V4_MAPPED = 65535 * 2 ^ p * 2 ^ ?k"
      using p by (simp add: V4_MAPPED_def mult.assoc flip: power_add)
    show ?thesis unfolding mapped by (rule div_mult_self3) simp
  qed
  have small: "(V4_MAPPED + z) div 2 ^ ?k < 2 ^ 128" if "z < 2 ^ 32" for z
    by (rule le_less_trans [OF div_le_dividend]) (use that in \<open>simp add: V4_MAPPED_def\<close>)
  have "in_subnet (word_of_nat (V4_MAPPED + x)) (v4_subnet a b c d p) \<longleftrightarrow>
      (word_of_nat ((V4_MAPPED + x) div 2 ^ ?k) :: 128 word) = word_of_nat ((V4_MAPPED + ?y) div 2 ^ ?k)"
    using bits [OF x] bits [OF net] p by (simp add: in_subnet_def v4_subnet_def add.assoc)
  also have "\<dots> \<longleftrightarrow> (V4_MAPPED + x) div 2 ^ ?k = (V4_MAPPED + ?y) div 2 ^ ?k"
    using small [OF x] small [OF net] by (metis unat_word128)
  finally show ?thesis by (simp add: split)
qed

text \<open>No IPv4 address is in an IPv6 range of the lists: those networks are outside the mapped block.\<close>

lemma v4_not_in_v6:
  assumes "x < 2 ^ 32" and "p \<le> 96" and "(n :: nat) < 2 ^ 128" and "n div 2 ^ (128 - p) \<noteq> V4_MAPPED div 2 ^ (128 - p)"
  shows "\<not> in_subnet (word_of_nat (V4_MAPPED + x)) (word_of_nat n, p)"
proof
  assume "in_subnet (word_of_nat (V4_MAPPED + x)) (word_of_nat n, p)"
  then have "unat (drop_bit (128 - p) (word_of_nat (V4_MAPPED + x) :: 128 word)) = unat (drop_bit (128 - p) (word_of_nat n :: 128 word))"
    by (simp add: in_subnet_def)
  moreover have "V4_MAPPED + x < 2 ^ 128" using assms(1) by (simp add: V4_MAPPED_def)
  ultimately have "(V4_MAPPED + x) div 2 ^ (128 - p) = n div 2 ^ (128 - p)"
    using assms(3) by (simp only: unat_drop128)
  moreover have "(V4_MAPPED + x) div 2 ^ (128 - p) = V4_MAPPED div 2 ^ (128 - p)"
  proof -
    have k: "128 - p = 32 + (96 - p)" using assms(2) by simp
    have "(V4_MAPPED + x) div 2 ^ 32 = V4_MAPPED div 2 ^ 32" using assms(1) by (simp add: V4_MAPPED_def)
    then show ?thesis unfolding k power_add div_mult2_eq by simp
  qed
  ultimately show False using assms(4) by simp
qed

section \<open>IPv4 addresses, by their octets\<close>

definition v4_class :: "nat \<Rightarrow> nat \<Rightarrow> nat \<Rightarrow> AddressClass" where
  "v4_class a b c =
     (if a = 0 \<or> a = 127 \<or> (a = 169 \<and> b = 254) \<or> (a = 192 \<and> b = 0 \<and> (c = 0 \<or> c = 2)) \<or> (a = 198 \<and> (b = 18 \<or> b = 19)) \<or>
         (a = 198 \<and> b = 51 \<and> c = 100) \<or> (a = 203 \<and> b = 0 \<and> c = 113) \<or> 224 \<le> a
      then ForbiddenAddress
      else if a = 10 \<or> (a = 100 \<and> 64 \<le> b \<and> b \<le> 127) \<or> (a = 172 \<and> 16 \<le> b \<and> b \<le> 31) \<or> (a = 192 \<and> b = 168)
      then PrivateAddress else PublicAddress)"

lemma pair_eq: "r < k \<Longrightarrow> s < k \<Longrightarrow> a * k + r = e * k + s \<longleftrightarrow> a = e \<and> r = (s :: nat)"
proof -
  assume "r < k" "s < k"
  then have "(a * k + r) div k = a" "(e * k + s) div k = e" by simp_all
  then show ?thesis by auto
qed

lemma octets_less: "a < 256 \<Longrightarrow> b < 256 \<Longrightarrow> c < 256 \<Longrightarrow> d < 256 \<Longrightarrow> octets a b c d < 2 ^ 32"
  by (simp add: octets_def)

lemma octets_div:
  assumes "b < 256" "c < 256" "d < 256"
  shows "octets a b c d div 2 ^ 8 = (a * 256 + b) * 256 + c" "octets a b c d div 2 ^ 24 = a" "octets a b c d div 2 ^ 28 = a div 16"
    "octets a b c d div 2 ^ 16 = a * 256 + b" "octets a b c d div 2 ^ 17 = a * 128 + b div 2"
    "octets a b c d div 2 ^ 20 = a * 16 + b div 16" "octets a b c d div 2 ^ 22 = a * 4 + b div 64"
proof -
  show 8: "octets a b c d div 2 ^ 8 = (a * 256 + b) * 256 + c" using assms by (simp add: octets_def)
  have "(2::nat) ^ 16 = 2 ^ 8 * 256" "(2::nat) ^ 24 = 2 ^ 16 * 256" "(2::nat) ^ 28 = 2 ^ 24 * 16"
    "(2::nat) ^ 17 = 2 ^ 16 * 2" "(2::nat) ^ 20 = 2 ^ 16 * 16" "(2::nat) ^ 22 = 2 ^ 16 * 64" by simp_all
  note e = this
  have "((a * 256 + b) * 256 + c) div 256 = a * 256 + b" using assms(2) by simp
  then show 16: "octets a b c d div 2 ^ 16 = a * 256 + b" by (simp only: e(1) div_mult2_eq 8)
  have "(a * 256 + b) div 256 = a" using assms(1) by simp
  then show 24: "octets a b c d div 2 ^ 24 = a" by (simp only: e(2) div_mult2_eq 16)
  show "octets a b c d div 2 ^ 28 = a div 16" by (simp only: e(3) div_mult2_eq 24)
  have split: "(a * 256 + b) div m = a * k + b div m" if "256 = k * m" "0 < m" for k m
  proof -
    have "a * 256 = (a * k) * m" using that(1) by simp
    then show ?thesis using that(2) by (simp only: div_mult_self3)
  qed
  show "octets a b c d div 2 ^ 17 = a * 128 + b div 2" by (simp only: e(4) div_mult2_eq 16 split [of 128 2, simplified])
  show "octets a b c d div 2 ^ 20 = a * 16 + b div 16" by (simp only: e(5) div_mult2_eq 16 split [of 16 16, simplified])
  show "octets a b c d div 2 ^ 22 = a * 4 + b div 64" by (simp only: e(6) div_mult2_eq 16 split [of 4 64, simplified])
qed

text \<open>Membership in a network of the lists, by the octets of the address.\<close>

lemma in_v4_octets:
  assumes "a < 256" "b < 256" "c < 256" "d < 256" and n: "e < 256" "f < 256" "g < 256"
  shows "in_subnet (word_of_nat (V4_MAPPED + octets a b c d)) (v4_subnet e 0 0 0 8) \<longleftrightarrow> a = e"
    "in_subnet (word_of_nat (V4_MAPPED + octets a b c d)) (v4_subnet e 0 0 0 4) \<longleftrightarrow> a div 16 = e div 16"
    "in_subnet (word_of_nat (V4_MAPPED + octets a b c d)) (v4_subnet e f 0 0 16) \<longleftrightarrow> a = e \<and> b = f"
    "in_subnet (word_of_nat (V4_MAPPED + octets a b c d)) (v4_subnet e f g 0 24) \<longleftrightarrow> a = e \<and> b = f \<and> c = g"
    "in_subnet (word_of_nat (V4_MAPPED + octets a b c d)) (v4_subnet e f 0 0 15) \<longleftrightarrow> a = e \<and> b div 2 = f div 2"
    "in_subnet (word_of_nat (V4_MAPPED + octets a b c d)) (v4_subnet e f 0 0 12) \<longleftrightarrow> a = e \<and> b div 16 = f div 16"
    "in_subnet (word_of_nat (V4_MAPPED + octets a b c d)) (v4_subnet e f 0 0 10) \<longleftrightarrow> a = e \<and> b div 64 = f div 64"
proof -
  have x: "octets a b c d < 2 ^ 32" using assms(1-4) by (rule octets_less)
  have net: "octets e i j 0 < 2 ^ 32" if "i < 256" "j < 256" for i j using n(1) that by (intro octets_less) simp_all
  note sub = in_v4_subnet [OF x net] and q = octets_div [OF assms(2-4)] and r = octets_div [where d = 0]
  show "in_subnet (word_of_nat (V4_MAPPED + octets a b c d)) (v4_subnet e 0 0 0 8) \<longleftrightarrow> a = e"
    using sub [of 0 0 8] q(2) [of a] r(2) [of 0 0 e] by simp
  show "in_subnet (word_of_nat (V4_MAPPED + octets a b c d)) (v4_subnet e 0 0 0 4) \<longleftrightarrow> a div 16 = e div 16"
    using sub [of 0 0 4] q(3) [of a] r(3) [of 0 0 e] by simp
  show "in_subnet (word_of_nat (V4_MAPPED + octets a b c d)) (v4_subnet e f 0 0 16) \<longleftrightarrow> a = e \<and> b = f"
    using sub [of f 0 16] q(4) [of a] r(4) [of f 0 e] n pair_eq [of b 256 f a e] assms(2) by simp
  show "in_subnet (word_of_nat (V4_MAPPED + octets a b c d)) (v4_subnet e f g 0 24) \<longleftrightarrow> a = e \<and> b = f \<and> c = g"
    using sub [of f g 24] q(1) [of a] r(1) [of f g e] n pair_eq [of b 256 f a e] assms(2,3)
      pair_eq [of c 256 g "a * 256 + b" "e * 256 + f"] by simp
  show "in_subnet (word_of_nat (V4_MAPPED + octets a b c d)) (v4_subnet e f 0 0 15) \<longleftrightarrow> a = e \<and> b div 2 = f div 2"
    using sub [of f 0 15] q(5) [of a] r(5) [of f 0 e] n pair_eq [of "b div 2" 128 "f div 2" a e] assms(2) by simp
  show "in_subnet (word_of_nat (V4_MAPPED + octets a b c d)) (v4_subnet e f 0 0 12) \<longleftrightarrow> a = e \<and> b div 16 = f div 16"
    using sub [of f 0 12] q(6) [of a] r(6) [of f 0 e] n pair_eq [of "b div 16" 16 "f div 16" a e] assms(2) by simp
  show "in_subnet (word_of_nat (V4_MAPPED + octets a b c d)) (v4_subnet e f 0 0 10) \<longleftrightarrow> a = e \<and> b div 64 = f div 64"
    using sub [of f 0 10] q(7) [of a] r(7) [of f 0 e] n pair_eq [of "b div 64" 4 "f div 64" a e] assms(2) by simp
qed

lemma block_check_Cons [simp]: "block_check [] w = False" "block_check (n # ns) w = (in_subnet w n \<or> block_check ns w)"
  "block_check (ns @ ms) w = (block_check ns w \<or> block_check ms w)"
  by (auto simp: block_check_def)

lemma v4_class_iff:
  "v4_class a b c = ForbiddenAddress \<longleftrightarrow> a = 0 \<or> a = 127 \<or> (a = 169 \<and> b = 254) \<or> (a = 192 \<and> b = 0 \<and> c = 0) \<or>
     (a = 192 \<and> b = 0 \<and> c = 2) \<or> (a = 198 \<and> (b = 18 \<or> b = 19)) \<or> (a = 198 \<and> b = 51 \<and> c = 100) \<or>
     (a = 203 \<and> b = 0 \<and> c = 113) \<or> 224 \<le> a"
  "v4_class a b c \<noteq> ForbiddenAddress \<Longrightarrow> v4_class a b c = PrivateAddress \<longleftrightarrow>
     a = 10 \<or> (a = 100 \<and> 64 \<le> b \<and> b \<le> 127) \<or> (a = 172 \<and> 16 \<le> b \<and> b \<le> 31) \<or> (a = 192 \<and> b = 168)"
  by (simp_all add: v4_class_def split: if_splits) blast

lemma block_v4:
  assumes "a < 256" "b < 256" "c < 256" "d < 256"
  shows "block_check FORBIDDEN_V4 (word_of_nat (V4_MAPPED + octets a b c d)) \<longleftrightarrow> v4_class a b c = ForbiddenAddress"
    "v4_class a b c \<noteq> ForbiddenAddress \<Longrightarrow>
      block_check PRIVATE_V4 (word_of_nat (V4_MAPPED + octets a b c d)) \<longleftrightarrow> v4_class a b c = PrivateAddress"
proof -
  have q: "a div 16 = 14 \<or> a div 16 = 15 \<longleftrightarrow> 224 \<le> a" "b div 2 = 9 \<longleftrightarrow> b = 18 \<or> b = 19"
    "b div 16 = Suc 0 \<longleftrightarrow> 16 \<le> b \<and> b \<le> 31" "b div 64 = Suc 0 \<longleftrightarrow> 64 \<le> b \<and> b \<le> 127"
    using assms(1) by linarith+
  have n: "14 = (224 :: nat) div 16" "15 = (240 :: nat) div 16" by simp_all
  note sub = in_v4_octets(1,2) [OF assms, where f = 0 and g = 0] in_v4_octets(3,5,6,7) [OF assms, where g = 0]
    in_v4_octets(4) [OF assms]
  show "block_check FORBIDDEN_V4 (word_of_nat (V4_MAPPED + octets a b c d)) \<longleftrightarrow> v4_class a b c = ForbiddenAddress"
    unfolding FORBIDDEN_V4_def block_check_Cons v4_class_iff(1) by (simp add: sub q(2) del: of_nat_add flip: q(1))
  show "v4_class a b c \<noteq> ForbiddenAddress \<Longrightarrow>
      block_check PRIVATE_V4 (word_of_nat (V4_MAPPED + octets a b c d)) \<longleftrightarrow> v4_class a b c = PrivateAddress"
    unfolding PRIVATE_V4_def block_check_Cons v4_class_iff(2) by (simp add: sub q del: of_nat_add)
qed

lemma v6_value_zeros: "v6_value (gs @ replicate k 0) = v6_value gs * 65536 ^ k"
proof -
  have "fold (\<lambda>g n. n * 65536 + g) (replicate k 0) n = n * 65536 ^ k" for n :: nat
    by (induction k arbitrary: n) (simp_all del: fold_replicate)
  then show ?thesis by (simp add: v6_value_def del: fold_replicate)
qed

lemma block_v6:
  assumes "x < 2 ^ 32"
  shows "\<not> block_check FORBIDDEN_V6 (word_of_nat (V4_MAPPED + x))" "\<not> block_check PRIVATE_V6 (word_of_nat (V4_MAPPED + x))"
proof -
  have v128: "\<not> in_subnet (word_of_nat (V4_MAPPED + x)) (word_of_nat n, 128)" if "n < 2 ^ 32" for n
  proof
    assume "in_subnet (word_of_nat (V4_MAPPED + x)) (word_of_nat n, 128)"
    then have "unat (word_of_nat (V4_MAPPED + x) :: 128 word) = unat (word_of_nat n :: 128 word)" by (simp add: in_subnet_def)
    moreover have "V4_MAPPED + x < 2 ^ 128" "n < 2 ^ 128" using assms that by (simp_all add: V4_MAPPED_def)
    ultimately have "V4_MAPPED + x = n" by (simp only: unat_word128)
    with that show False by (simp add: V4_MAPPED_def)
  qed
  have nets: "v6_subnet [] 128 = (word_of_nat 0, 128)" "v6_subnet [0, 0, 0, 0, 0, 0, 0, 1] 128 = (word_of_nat 1, 128)"
    "v6_subnet [0x64, 0xff9b] 96 = (word_of_nat (0x64ff9b * 2 ^ 96), 96)"
    "v6_subnet [0x64, 0xff9b, 1] 48 = (word_of_nat (0x64ff9b0001 * 2 ^ 80), 48)"
    "v6_subnet [0x2001, 0xdb8] 32 = (word_of_nat (0x20010db8 * 2 ^ 96), 32)"
    "v6_subnet [0xfe80] 10 = (word_of_nat (0xfe80 * 2 ^ 112), 10)" "v6_subnet [0xff00] 8 = (word_of_nat (0xff00 * 2 ^ 112), 8)"
    "v6_subnet [0xfc00] 7 = (word_of_nat (0xfc00 * 2 ^ 112), 7)"
    by (simp_all only: v6_subnet_def v6_value_zeros) (simp_all add: v6_value_def)
  have out: "\<not> in_subnet (word_of_nat (V4_MAPPED + x)) (word_of_nat (0x64ff9b * 2 ^ 96), 96)"
    "\<not> in_subnet (word_of_nat (V4_MAPPED + x)) (word_of_nat (0x64ff9b0001 * 2 ^ 80), 48)"
    "\<not> in_subnet (word_of_nat (V4_MAPPED + x)) (word_of_nat (0x20010db8 * 2 ^ 96), 32)"
    "\<not> in_subnet (word_of_nat (V4_MAPPED + x)) (word_of_nat (0xfe80 * 2 ^ 112), 10)"
    "\<not> in_subnet (word_of_nat (V4_MAPPED + x)) (word_of_nat (0xff00 * 2 ^ 112), 8)"
    "\<not> in_subnet (word_of_nat (V4_MAPPED + x)) (word_of_nat (0xfc00 * 2 ^ 112), 7)"
    by (rule v4_not_in_v6 [OF assms]; simp add: V4_MAPPED_def)+
  have zero: "\<not> in_subnet (word_of_nat (V4_MAPPED + x)) (word_of_nat 0, 128)"
    "\<not> in_subnet (word_of_nat (V4_MAPPED + x)) (word_of_nat 1, 128)" by (rule v128, simp)+
  show "\<not> block_check FORBIDDEN_V6 (word_of_nat (V4_MAPPED + x))" "\<not> block_check PRIVATE_V6 (word_of_nat (V4_MAPPED + x))"
    unfolding FORBIDDEN_V6_def PRIVATE_V6_def nets block_check_Cons using out zero by blast+
qed

lemma parse_v4_digit: "parse_v4 s = Some v \<Longrightarrow> s \<noteq> [] \<and> is_digit (hd s)"
proof -
  assume "parse_v4 s = Some v"
  then obtain a rest where "map v4_segment (split_on (CHR ''.'') s) = Some a # rest"
    by (auto simp: parse_v4_def all_some_iff split: option.splits list.splits)
  then obtain x xs where x: "split_on (CHR ''.'') s = x # xs" "v4_segment x = Some a" by auto
  then have "x \<noteq> [] \<and> is_digit (hd x)" by (cases x) (auto simp: v4_segment_def split: if_splits)
  moreover have "\<exists>r. s = x @ r" using join_split [of "CHR ''.''" s] x(1) by (cases xs) auto
  ultimately show ?thesis by auto
qed

lemma classify_plain_v4:
  assumes "parse_v4 s = Some (octets a b c d)" and "a < 256" "b < 256" "c < 256" "d < 256"
  shows "classifyAddress s = v4_class a b c"
proof -
  have plain: "\<not> prefix IPV4_MAPPED_PREFIX (map ascii_lower s)"
    using parse_v4_digit [OF assms(1)]
    by (cases s) (auto simp: IPV4_MAPPED_PREFIX_def ascii_lower_def is_upper_def is_digit_def char_code_def)
  let ?w = "word_of_nat (V4_MAPPED + octets a b c d) :: 128 word"
  have "address_bits s = Some ?w" using assms(1) by (simp add: address_bits_def)
  moreover have "(if block_check (FORBIDDEN_V4 @ FORBIDDEN_V6) ?w then ForbiddenAddress
      else if block_check (PRIVATE_V4 @ PRIVATE_V6) ?w then PrivateAddress else PublicAddress) = v4_class a b c"
    using block_v4 [OF assms(2-5)] block_v6 [OF octets_less [OF assms(2-5)]]
    by (cases "v4_class a b c") (auto simp: v4_class_def split: if_splits)
  ultimately show ?thesis using plain by (simp add: classifyAddress_def Let_def del: of_nat_add)
qed

lemma classify_mapped:
  "map ascii_lower m = IPV4_MAPPED_PREFIX \<Longrightarrow> \<not> prefix IPV4_MAPPED_PREFIX (map ascii_lower s) \<Longrightarrow>
   classifyAddress (m @ s) = classifyAddress s"
proof -
  assume m: "map ascii_lower m = IPV4_MAPPED_PREFIX" "\<not> prefix IPV4_MAPPED_PREFIX (map ascii_lower s)"
  then have "length m = length IPV4_MAPPED_PREFIX" by (metis length_map)
  with m show ?thesis by (simp add: classifyAddress_def)
qed

section \<open>Properties\<close>

text \<open>
  the class of an IPv4 address is a matter of its first octets: the loopback, link-local and
  metadata, documentation, benchmarking, multicast and reserved blocks are refused always, the
  private and carrier-grade blocks need the opt-in, the rest is public; writing the address in the
  IPv4-mapped form of IPv6, in any case, does not change the answer.
\<close>

theorem classify_v4:
  assumes "parse_v4 s = Some (octets a b c d)" and "a < 256" "b < 256" "c < 256" "d < 256"
    and mapped: "map ascii_lower m = IPV4_MAPPED_PREFIX"
  shows "classifyAddress s = v4_class a b c \<and> classifyAddress (m @ s) = v4_class a b c"
proof -
  have "\<not> prefix IPV4_MAPPED_PREFIX (map ascii_lower s)"
    using parse_v4_digit [OF assms(1)]
    by (cases s) (auto simp: IPV4_MAPPED_PREFIX_def ascii_lower_def is_upper_def is_digit_def char_code_def)
  with classify_mapped [OF mapped] classify_plain_v4 [OF assms(1-5)] show ?thesis by simp
qed

theorem classify_v4_witness:
  "classifyAddress ''169.254.169.254'' = ForbiddenAddress \<and> classifyAddress ''::FFFF:169.254.169.254'' = ForbiddenAddress"
proof -
  have p: "parse_v4 ''169.254.169.254'' = Some (octets 169 254 169 254)"
    by (simp add: parse_v4_def v4_segment_def all_some_def digits_value_def hex_value_def is_digit_def char_code_def)
  have m: "map ascii_lower ''::FFFF:'' = IPV4_MAPPED_PREFIX" by code_simp
  have "classifyAddress ''169.254.169.254'' = v4_class 169 254 169 \<and>
      classifyAddress (''::FFFF:'' @ ''169.254.169.254'') = v4_class 169 254 169"
    by (rule classify_v4 [OF p _ _ _ _ m]) simp_all
  then show ?thesis by (simp add: v4_class_def)
qed

lemma first_problem_None: "first_problem isInternal as = None \<longleftrightarrow> list_all (\<lambda>a. addressProblem a isInternal = None) as"
  by (induction as) (auto split: option.splits)

lemma addressProblem_None:
  "addressProblem a isInternal = None \<longleftrightarrow>
     classifyAddress a = PublicAddress \<or> (isInternal \<and> classifyAddress a = PrivateAddress)"
  by (simp add: addressProblem_def split: AddressClass.split)

text \<open>The addresses a host stands for: itself when it is a literal, what the resolver answers otherwise.\<close>

definition addresses_of :: "Endpoint \<Rightarrow> Lookup \<Rightarrow> string list" where
  "addresses_of endpoint lookup =
     (if isIP (literalAddress (endpoint_host endpoint)) then [literalAddress (endpoint_host endpoint)]
      else resolve_host (endpoint_host endpoint) lookup)"

lemma pinned_addresses:
  "pinEndpoint endpoint isInternal lookup = ok pinned \<longleftrightarrow>
     addresses_of endpoint lookup \<noteq> [] \<and>
     list_all (\<lambda>a. classifyAddress a = PublicAddress \<or> (isInternal \<and> classifyAddress a = PrivateAddress))
       (addresses_of endpoint lookup) \<and>
     pinned = \<lparr>endpoint_host = endpoint_host endpoint, endpoint_tls = endpoint_tls endpoint,
                pinned_address = hd (addresses_of endpoint lookup)\<rparr>"
proof -
  have "pinEndpoint endpoint isInternal lookup =
    (case addresses_of endpoint lookup of [] \<Rightarrow> fail DUnresolved
     | first # _ \<Rightarrow> (case first_problem isInternal (addresses_of endpoint lookup) of Some p \<Rightarrow> fail p
        | None \<Rightarrow> ok \<lparr>endpoint_host = endpoint_host endpoint, endpoint_tls = endpoint_tls endpoint, pinned_address = first\<rparr>))"
    by (simp only: pinEndpoint_def Let_def flip: addresses_of_def)
  then show ?thesis
    using first_problem_None [of isInternal "addresses_of endpoint lookup"]
    by (cases "addresses_of endpoint lookup"; cases "first_problem isInternal (addresses_of endpoint lookup)")
      (auto simp: addressProblem_None)
qed

text \<open>
  C11: an endpoint is pinned exactly when its host stands for at least one address and all of
  them are public, or private on a target marked internal: one bad address of the answer refuses
  the whole host, and the address connected to is the first of the ones checked.
\<close>

theorem pin_iff:
  "pinEndpoint endpoint isInternal lookup = ok pinned \<longleftrightarrow>
     addresses_of endpoint lookup \<noteq> [] \<and>
     list_all (\<lambda>a. classifyAddress a = PublicAddress \<or> (isInternal \<and> classifyAddress a = PrivateAddress))
       (addresses_of endpoint lookup) \<and>
     pinned = \<lparr>endpoint_host = endpoint_host endpoint, endpoint_tls = endpoint_tls endpoint,
                pinned_address = hd (addresses_of endpoint lookup)\<rparr>"
  by (rule pinned_addresses)

text \<open>
  behind trusted proxies the client's address is read from what they wrote alone: whatever
  entries a client puts before theirs, with any commas and any text, the answer is the same.
\<close>

theorem forged_entries_ignored:
  assumes "1 \<le> trustedProxyHops options" "trustedProxyHops options \<le> length (split_on (CHR '','') genuine)"
  shows "resolveClientIp \<lparr>forwardedFor = Some (forged @ CHR '','' # genuine), socketAddress = socket\<rparr> options =
    resolveClientIp \<lparr>forwardedFor = Some genuine, socketAddress = socket\<rparr> options"
proof -
  have "at_end n (xs @ ys) = at_end n ys" if "1 \<le> n" "n \<le> length ys" for n and xs ys :: "string list"
  proof -
    have "(xs @ ys) ! (length (xs @ ys) - n) = ys ! (length ys - n)" using that by (auto simp: nth_append)
    then show ?thesis using that by (simp add: at_end_def)
  qed
  then show ?thesis using assms by (simp add: resolveClientIp_def split_on_append split: option.split)
qed

theorem forged_entries_ignored_witness:
  "resolveClientIp \<lparr>forwardedFor = Some ''10.0.0.1, 1.2.3.4,203.0.113.9'', socketAddress = Some ''192.0.2.1''\<rparr>
       \<lparr>trustProxy = True, trustedProxyHops = 1\<rparr> =
   resolveClientIp \<lparr>forwardedFor = Some ''203.0.113.9'', socketAddress = Some ''192.0.2.1''\<rparr>
       \<lparr>trustProxy = True, trustedProxyHops = 1\<rparr>"
  using forged_entries_ignored [of "\<lparr>trustProxy = True, trustedProxyHops = 1\<rparr>" "''203.0.113.9''"
    "''10.0.0.1, 1.2.3.4''" "Some ''192.0.2.1''"] by simp

end
