(* ===== verification/CanonicalJson.thy ===== *)
theory CanonicalJson
  imports Json "HOL-Library.Finite_Map" "HOL-Library.List_Lexorder" "HOL-Library.Char_ord"
begin

text \<open>
  \<^verbatim>\<open>src/actions/canonical-json.ts\<close>: one text for every way of writing a document. The reference is
  the meaning of a value, where an object is a finite map from its keys; two values have the same
  text exactly when they have the same meaning.
\<close>

section \<open>The text\<close>

text \<open>\<^verbatim>\<open>JSON.stringify\<close> of a string.\<close>

definition json_string :: "string \<Rightarrow> string" where
  "json_string s = CHR 0x22 # jsonEscape s @ [CHR 0x22]"

definition json_entry :: "string \<times> string \<Rightarrow> string" where
  "json_entry e = json_string (fst e) @ CHR '':'' # snd e"

definition defined_fields :: "(string \<times> 'v option) list \<Rightarrow> (string \<times> 'v) list" where
  "defined_fields fields = List.map_filter (\<lambda>(k, v). map_option (Pair k) v) fields"

fun canonicalJson :: "json \<Rightarrow> string" where
  "canonicalJson JNull = ''null''"
| "canonicalJson (JBool b) = (if b then ''true'' else ''false'')"
| "canonicalJson (JNumber n) = n"
| "canonicalJson (JString s) = json_string s"
| "canonicalJson (JArray vs) = CHR ''['' # join_with (CHR '','') (map canonicalJson vs) @ '']''"
| "canonicalJson (JObject fields) =
     CHR 0x7B #
     join_with (CHR '','')
       (map json_entry
         (sort_key fst
           (defined_fields (map (\<lambda>(k, v). (k, if v = JUndefined then None else Some (canonicalJson v))) fields)))) @
     [CHR 0x7D]"
| "canonicalJson JUndefined = []"

section \<open>The meaning\<close>

datatype doc =
    DNull
  | DBool bool
  | DNumber string
  | DString string
  | DArray "doc list"
  | DObject "(string, doc) fmap"
  | DUndefined

fun meaning :: "json \<Rightarrow> doc" where
  "meaning JNull = DNull"
| "meaning (JBool b) = DBool b"
| "meaning (JNumber n) = DNumber n"
| "meaning (JString s) = DString s"
| "meaning (JArray vs) = DArray (map meaning vs)"
| "meaning (JObject fields) =
     DObject (fmap_of_list (defined_fields (map (\<lambda>(k, v). (k, if v = JUndefined then None else Some (meaning v))) fields)))"
| "meaning JUndefined = DUndefined"

text \<open>
  The values a document can be: the keys of an object are distinct, no element of an array is
  undefined, and the text of a number is one \<^verbatim>\<open>JSON.stringify\<close> writes.
\<close>

definition number_char :: "char \<Rightarrow> bool" where
  "number_char c \<longleftrightarrow> is_digit c \<or> c \<in> {CHR ''-'', CHR ''+'', CHR ''.'', CHR ''e''}"

definition number_text :: "string \<Rightarrow> bool" where
  "number_text s \<longleftrightarrow> s \<noteq> [] \<and> list_all number_char s"

fun wf_json :: "json \<Rightarrow> bool" where
  "wf_json (JNumber n) = number_text n"
| "wf_json (JArray vs) = list_all (\<lambda>v. v \<noteq> JUndefined \<and> wf_json v) vs"
| "wf_json (JObject fields) = (distinct (map fst fields) \<and> list_all (\<lambda>(k, v). wf_json v) fields)"
| "wf_json _ = True"

section \<open>Reading the text\<close>

lemma join_with_concat: "join_with d (x # xs) = x @ concat (map (\<lambda>y. d # y) xs)"
  by (induction xs arbitrary: x) auto

lemma hex_value_lower: "n < 16 \<Longrightarrow> hex_value (hex_lower n) = n"
  by (auto simp: hex_value_def hex_lower_def is_digit_def char_code_def)

text \<open>What reads one character of a string's text back.\<close>

fun read_char :: "string \<Rightarrow> char \<times> string" where
  "read_char s =
     (if s \<noteq> [] \<and> hd s = CHR 0x5C
      then
       (if s ! 1 = CHR ''u'' then (char_of (16 * hex_value (s ! 4) + hex_value (s ! 5)), drop 6 s)
        else if s ! 1 = CHR ''b'' then (CHR 0x08, drop 2 s)
        else if s ! 1 = CHR ''f'' then (CHR 0x0C, drop 2 s)
        else if s ! 1 = CHR ''n'' then (CHR 0x0A, drop 2 s)
        else if s ! 1 = CHR ''r'' then (CHR 0x0D, drop 2 s)
        else if s ! 1 = CHR ''t'' then (CHR 0x09, drop 2 s)
        else (s ! 1, drop 2 s))
      else (hd s, drop 1 s))"

lemma read_char_escape: "read_char (json_escape_char c @ x) = (c, x)"
proof -
  have "char_code c div 16 * 16 + char_code c mod 16 = char_code c" by simp
  then have "char_of (16 * (char_code c div 16) + char_code c mod 16) = c"
    by (simp add: char_code_def mult.commute del: of_char_mod_256)
  moreover have "char_code c < 32 \<Longrightarrow> char_code c div 16 < 16" by simp
  ultimately show ?thesis by (simp add: json_escape_char_def hex_value_lower)
qed

lemma escape_char_prefix_free: "json_escape_char c @ x = json_escape_char d @ y \<Longrightarrow> c = d \<and> x = y"
  by (metis read_char_escape prod.inject)

lemma escape_char_quote: "json_escape_char c @ x \<noteq> CHR 0x22 # y"
  by (simp add: json_escape_char_def)

lemma escape_prefix_free: "jsonEscape a @ CHR 0x22 # s = jsonEscape b @ CHR 0x22 # t \<Longrightarrow> a = b \<and> s = t"
proof (induction a arbitrary: b)
  case Nil
  then show ?case
  proof (cases b)
    case (Cons d b')
    with Nil escape_char_quote [of d "jsonEscape b' @ CHR 0x22 # t" s] show ?thesis by (auto simp: jsonEscape_def)
  qed (simp add: jsonEscape_def)
next
  case (Cons c a)
  then show ?case
  proof (cases b)
    case Nil
    with Cons.prems escape_char_quote [of c "jsonEscape a @ CHR 0x22 # s" t] show ?thesis by (simp add: jsonEscape_def)
  next
    case (Cons d b')
    with Cons.prems have "json_escape_char c @ (jsonEscape a @ CHR 0x22 # s) = json_escape_char d @ (jsonEscape b' @ CHR 0x22 # t)"
      by (simp add: jsonEscape_def)
    from escape_char_prefix_free [OF this] Cons.IH show ?thesis by (simp add: Cons)
  qed
qed

lemma json_string_prefix_free: "json_string a @ s = json_string b @ t \<longleftrightarrow> a = b \<and> s = t"
  using escape_prefix_free [of a s b t] by (auto simp: json_string_def)

section \<open>The text decides the meaning\<close>

text \<open>What follows a value in a text: nothing, or a character no value starts or continues with.\<close>

definition delimiter :: "char \<Rightarrow> bool" where
  "delimiter c \<longleftrightarrow> c \<in> {CHR '','', CHR '']'', CHR 0x7D}"

definition delimited :: "string \<Rightarrow> bool" where
  "delimited s \<longleftrightarrow> (case s of [] \<Rightarrow> True | c # _ \<Rightarrow> delimiter c)"

lemma delimited_simps [simp]: "delimited []" "delimited (c # s) = delimiter c"
  by (simp_all add: delimited_def)

lemma delimiter_simps [simp]: "delimiter (CHR '','')" "delimiter (CHR '']'')" "delimiter (CHR 0x7D)"
  by (simp_all add: delimiter_def)

lemma number_char_delimiter: "number_char c \<Longrightarrow> \<not> delimiter c"
  by (auto simp: number_char_def delimiter_def is_digit_def char_code_def)

lemma number_prefix_free:
  assumes "number_text m" "number_text n" "delimited s" "delimited t" "m @ s = n @ t"
  shows "m = n" "s = t"
proof -
  have *: "takeWhile number_char (k @ u) = k" if "number_text k" "delimited u" for k u
    using that number_char_delimiter unfolding number_text_def delimited_def list_all_iff
    by (subst takeWhile_append2) (auto split: list.splits)
  from * [of m s] * [of n t] assms show "m = n" by simp
  with assms(5) show "s = t" by simp
qed

text \<open>The kind of a value shows in the first character of its text.\<close>

definition first_char :: "json \<Rightarrow> char \<Rightarrow> bool" where
  "first_char v c =
     (case v of
        JNull \<Rightarrow> c = CHR ''n'' | JBool b \<Rightarrow> c = (if b then CHR ''t'' else CHR ''f'') | JNumber _ \<Rightarrow> number_char c
      | JString _ \<Rightarrow> c = CHR 0x22 | JArray _ \<Rightarrow> c = CHR ''['' | JObject _ \<Rightarrow> c = CHR 0x7B | JUndefined \<Rightarrow> False)"

lemma text_starts: "wf_json v \<Longrightarrow> v \<noteq> JUndefined \<Longrightarrow> \<exists>c x. canonicalJson v = c # x \<and> first_char v c"
proof (cases v)
  case (JNumber n)
  moreover assume "wf_json v"
  ultimately show ?thesis by (cases n) (auto simp: first_char_def number_text_def)
qed (auto simp: first_char_def json_string_def)

lemma first_char_delimiter: "first_char v c \<Longrightarrow> \<not> delimiter c"
  using number_char_delimiter by (cases v) (auto simp: first_char_def delimiter_def split: if_splits)

text \<open>Texts between commas, up to the closing character.\<close>

lemma tail_prefix_free:
  assumes "\<And>x y s t. \<lbrakk>x \<in> set xs; y \<in> set ys; delimited s; delimited t; f x @ s = g y @ t\<rbrakk> \<Longrightarrow> R x y \<and> s = t"
    and "delimiter e" "e \<noteq> CHR '',''"
    and "concat (map (\<lambda>x. CHR '','' # f x) xs) @ e # s = concat (map (\<lambda>y. CHR '','' # g y) ys) @ e # t"
  shows "list_all2 R xs ys \<and> s = t"
  using assms(1,4)
proof (induction xs arbitrary: ys)
  case Nil
  then show ?case using assms(3) by (cases ys) auto
next
  case (Cons x xs)
  then obtain y ys' where ys: "ys = y # ys'" using assms(3) by (cases ys) auto
  have d: "delimited (concat (map (\<lambda>x. CHR '','' # h x) zs) @ e # u)" for h :: "'c \<Rightarrow> string" and zs u
    using assms(2) by (cases zs) simp_all
  have "R x y \<and> concat (map (\<lambda>x. CHR '','' # f x) xs) @ e # s = concat (map (\<lambda>y. CHR '','' # g y) ys') @ e # t"
    using Cons.prems(2) by (intro Cons.prems(1)) (simp_all add: ys d)
  moreover have "list_all2 R xs ys' \<and> s = t"
  proof (rule Cons.IH)
    show "R v w \<and> s = t" if "v \<in> set xs" "w \<in> set ys'" "delimited s" "delimited t" "f v @ s = g w @ t" for v w s t
      using that by (intro Cons.prems(1)) (simp_all add: ys)
  qed (use calculation in simp)
  ultimately show ?case by (simp add: ys)
qed

lemma list_prefix_free:
  assumes free: "\<And>x y s t. \<lbrakk>x \<in> set xs; y \<in> set ys; delimited s; delimited t; f x @ s = g y @ t\<rbrakk> \<Longrightarrow> R x y \<and> s = t"
    and e: "delimiter e" "e \<noteq> CHR '',''"
    and start: "\<And>x. x \<in> set xs \<Longrightarrow> \<exists>c u. f x = c # u \<and> \<not> delimiter c" "\<And>y. y \<in> set ys \<Longrightarrow> \<exists>c u. g y = c # u \<and> \<not> delimiter c"
    and eq: "join_with (CHR '','') (map f xs) @ e # s = join_with (CHR '','') (map g ys) @ e # t"
  shows "list_all2 R xs ys \<and> s = t"
proof (cases xs)
  case Nil
  then show ?thesis
  proof (cases ys)
    case (Cons y ys')
    with start(2) [of y] eq e Nil show ?thesis by (auto simp: join_with_concat simp del: join_with.simps(3))
  qed (use eq Nil in simp)
next
  case x: (Cons x xs')
  show ?thesis
  proof (cases ys)
    case Nil
    with start(1) [of x] eq e x show ?thesis by (auto simp: join_with_concat simp del: join_with.simps(3))
  next
    case y: (Cons y ys')
    have "concat (map (\<lambda>x. CHR '','' # f x) xs) @ e # s = concat (map (\<lambda>y. CHR '','' # g y) ys) @ e # t"
      using eq by (simp add: x y join_with_concat comp_def del: join_with.simps(3))
    then show ?thesis using free e by (intro tail_prefix_free [of xs ys f g R e]) blast+
  qed
qed

section \<open>Objects\<close>

definition live_fields :: "(string \<times> json) list \<Rightarrow> (string \<times> json) list" where
  "live_fields fields = filter (\<lambda>(k, v). v \<noteq> JUndefined) fields"

definition field_text :: "string \<times> json \<Rightarrow> string" where
  "field_text f = json_string (fst f) @ CHR '':'' # canonicalJson (snd f)"

lemma defined_live:
  "defined_fields (map (\<lambda>(k, v). (k, if v = JUndefined then None else Some (g v))) fields) = map (apsnd g) (live_fields fields)"
  by (induction fields) (auto simp: defined_fields_def live_fields_def List.map_filter_def)

lemma sort_key_map: "sort_key h (map g xs) = map g (sort_key (h \<circ> g) xs)"
proof -
  have "insort_key h (g x) (map g ys) = map g (insort_key (h \<circ> g) x ys)" for x ys by (induction ys) auto
  then show ?thesis by (induction xs) auto
qed

lemma canonicalJson_object:
  "canonicalJson (JObject fields) =
   CHR 0x7B # join_with (CHR '','') (map field_text (sort_key fst (live_fields fields))) @ [CHR 0x7D]"
proof -
  have "fst \<circ> apsnd canonicalJson = fst" "json_entry \<circ> apsnd canonicalJson = field_text"
    by (auto simp: json_entry_def field_text_def)
  then show ?thesis by (simp add: defined_live sort_key_map)
qed

lemma meaning_object: "meaning (JObject fields) = DObject (fmap_of_list (map (apsnd meaning) (live_fields fields)))"
  by (simp add: defined_live)

lemmas object_simps = canonicalJson_object meaning_object

lemma live_distinct: "distinct (map fst fields) \<Longrightarrow> distinct (map fst (live_fields fields))"
  unfolding live_fields_def by (rule distinct_map_filter)

lemma fmap_of_list_eq:
  "distinct (map fst xs) \<Longrightarrow> distinct (map fst ys) \<Longrightarrow> fmap_of_list xs = fmap_of_list ys \<longleftrightarrow> set xs = set ys"
proof -
  assume d: "distinct (map fst xs)" "distinct (map fst ys)"
  have "fmap_of_list xs = fmap_of_list ys \<longleftrightarrow> map_of xs = map_of ys"
    by (metis fmap_of_list.rep_eq fmlookup_inject)
  with d show ?thesis by (simp add: map_of_inject_set)
qed

lemma sort_by_key_unique:
  fixes xs ys :: "(string \<times> 'v) list"
  assumes "distinct (map fst xs)" "distinct (map fst ys)" "set xs = set ys"
  shows "sort_key fst xs = sort_key fst ys"
proof -
  have keys: "map fst (sort_key fst zs) = sort (map fst zs)" for zs :: "(string \<times> 'v) list"
    using sort_key_map [of id fst zs] by (simp add: id_def comp_def)
  have list: "zs = map (\<lambda>k. (k, the (map_of zs k))) (map fst zs)" if "distinct (map fst zs)" for zs :: "(string \<times> 'v) list"
  proof -
    have "map (\<lambda>p. (fst p, the (map_of zs (fst p)))) zs = zs"
      by (rule map_idI) (use that in \<open>auto simp: map_of_is_SomeI\<close>)
    then show ?thesis by (simp add: comp_def)
  qed
  have "map_of xs = map_of ys" using assms by (simp add: map_of_inject_set)
  moreover have "map_of (sort_key fst zs) = map_of zs" if "distinct (map fst zs)" for zs :: "(string \<times> 'v) list"
  proof -
    have "distinct (map fst (sort_key fst zs))" using that unfolding keys by simp
    with that show ?thesis by (simp add: map_of_inject_set)
  qed
  moreover have "sort (map fst xs) = sort (map fst ys)"
    using assms by (intro sorted_distinct_set_unique) simp_all
  ultimately show ?thesis
    using list [of "sort_key fst xs"] list [of "sort_key fst ys"] assms(1,2) unfolding keys by simp
qed


lemma same_kind:
  "first_char a c \<Longrightarrow> first_char b c \<Longrightarrow>
   (case a of
      JNull \<Rightarrow> b = JNull | JBool x \<Rightarrow> b = JBool x | JNumber _ \<Rightarrow> (\<exists>n. b = JNumber n) | JString _ \<Rightarrow> (\<exists>n. b = JString n)
    | JArray _ \<Rightarrow> (\<exists>vs. b = JArray vs) | JObject _ \<Rightarrow> (\<exists>fs. b = JObject fs) | JUndefined \<Rightarrow> False)"
  by (cases a; cases b) (auto simp: first_char_def number_char_def is_digit_def char_code_def split: if_splits)

lemma canonicalJson_prefix_free:
  "\<lbrakk>wf_json a; wf_json b; a \<noteq> JUndefined; b \<noteq> JUndefined; delimited s; delimited t;
    canonicalJson a @ s = canonicalJson b @ t\<rbrakk> \<Longrightarrow> meaning a = meaning b \<and> s = t"
proof (induction a arbitrary: b s t rule: canonicalJson.induct)
  case 1
  with text_starts [of JNull] text_starts [of b] same_kind [of JNull _ b] show ?case by fastforce
next
  case (2 x)
  with text_starts [of "JBool x"] text_starts [of b] same_kind [of "JBool x" _ b] show ?case by fastforce
next
  case (3 n)
  with text_starts [of "JNumber n"] text_starts [of b] same_kind [of "JNumber n" _ b] obtain m where "b = JNumber m" by fastforce
  with 3 number_prefix_free [of n m s t] show ?case by simp
next
  case (4 x)
  with text_starts [of "JString x"] text_starts [of b] same_kind [of "JString x" _ b] obtain y where "b = JString y" by fastforce
  with 4 show ?case by (simp add: json_string_prefix_free)
next
  case (5 vs)
  with text_starts [of "JArray vs"] text_starts [of b] same_kind [of "JArray vs" _ b] obtain ws where b: "b = JArray ws" by fastforce
  have start: "\<exists>c u. canonicalJson v = c # u \<and> \<not> delimiter c" if "v \<in> set us" "wf_json (JArray us)" for v us
    using that text_starts [of v] first_char_delimiter by (auto simp: list_all_iff)
  have "list_all2 (\<lambda>v w. meaning v = meaning w) vs ws \<and> s = t"
  proof (rule list_prefix_free [of vs ws canonicalJson canonicalJson _ "CHR '']''"])
    fix v w s t
    assume "v \<in> set vs" "w \<in> set ws" "delimited s" "delimited t" "canonicalJson v @ s = canonicalJson w @ t"
    then show "meaning v = meaning w \<and> s = t"
      using 5(2,3) unfolding b by (intro 5(1)) (auto simp: list_all_iff)
  qed (use 5 b start in auto)
  then show ?case by (simp add: b list_all2_conv_all_nth list_eq_iff_nth_eq)
next
  case (6 fields)
  with text_starts [of "JObject fields"] text_starts [of b] same_kind [of "JObject fields" _ b] obtain fields' where b: "b = JObject fields'"
    by fastforce
  let ?L = "\<lambda>fs. sort_key fst (live_fields fs)"
  have "list_all2 (\<lambda>f g. fst f = fst g \<and> meaning (snd f) = meaning (snd g)) (?L fields) (?L fields') \<and> s = t"
  proof (rule list_prefix_free [of _ _ field_text field_text _ "CHR 0x7D"])
    fix f g s t
    assume *: "f \<in> set (?L fields)" "g \<in> set (?L fields')" "delimited s" "delimited t" "field_text f @ s = field_text g @ t"
    then have "fst f = fst g" and eq: "canonicalJson (snd f) @ s = canonicalJson (snd g) @ t"
      by (auto simp: field_text_def json_string_prefix_free)
    have f: "(fst f, snd f) \<in> set fields" "wf_json (snd f)" "snd f \<noteq> JUndefined"
      and g: "wf_json (snd g)" "snd g \<noteq> JUndefined"
      using * 6(2,3) unfolding b by (auto simp: live_fields_def list_all_iff)
    have "meaning (snd f) = meaning (snd g) \<and> s = t"
      using 6(1) [OF f(1) refl f(3,2) g(1) f(3) g(2) *(3,4) eq] .
    with \<open>fst f = fst g\<close> show "(fst f = fst g \<and> meaning (snd f) = meaning (snd g)) \<and> s = t" by simp
  qed (use 6 b in \<open>auto simp: canonicalJson_object field_text_def json_string_def delimiter_def simp del: canonicalJson.simps\<close>)
  then have "map (apsnd meaning) (?L fields) = map (apsnd meaning) (?L fields')" "s = t"
    by (auto simp: list_all2_conv_all_nth list_eq_iff_nth_eq apsnd_def map_prod_def split_beta)
  from arg_cong [OF this(1), of set] have "set (map (apsnd meaning) (live_fields fields)) = set (map (apsnd meaning) (live_fields fields'))"
    by simp
  moreover have "distinct (map fst (map (apsnd meaning) (live_fields fs)))" if "wf_json (JObject fs)" for fs
    using that live_distinct by (simp add: comp_def)
  ultimately show ?case
    using 6(2,3) \<open>s = t\<close> unfolding b meaning_object by (simp only: doc.inject fmap_of_list_eq)
qed simp

lemma meaning_canonicalJson:
  "\<lbrakk>wf_json a; wf_json b; meaning a = meaning b\<rbrakk> \<Longrightarrow> canonicalJson a = canonicalJson b"
proof (induction a arbitrary: b rule: canonicalJson.induct)
  case (5 vs)
  then obtain ws where b: "b = JArray ws" by (cases b) auto
  with 5 have "map meaning vs = map meaning ws" by simp
  then have "map canonicalJson vs = map canonicalJson ws"
    using 5(1-3) unfolding b by (auto simp: list_eq_iff_nth_eq list_all_length)
  then show ?case by (simp add: b)
next
  case (6 fields)
  then obtain fields' where b: "b = JObject fields'" by (cases b) auto
  have d: "distinct (map fst (map (apsnd h) (live_fields fs)))" if "wf_json (JObject fs)" for h :: "json \<Rightarrow> 'h" and fs
    using that live_distinct by (simp add: comp_def)
  have *: "apsnd meaning ` set (live_fields fields) = apsnd meaning ` set (live_fields fields')"
    using 6(4) fmap_of_list_eq [OF d [OF 6(2)] d [OF 6(3) [unfolded b]], of meaning meaning]
    unfolding b meaning_object by simp
  have same_text: "canonicalJson v = canonicalJson w"
    if "(k, v) \<in> set (live_fields fields)" "(k, w) \<in> set (live_fields fields')" "meaning v = meaning w" for k v w
    using that 6(1) [of "(k, v)" k v w] 6(2,3) unfolding b by (auto simp: live_fields_def list_all_iff)
  have "apsnd canonicalJson ` set (live_fields fields) = apsnd canonicalJson ` set (live_fields fields')"
  proof (intro equalityI subsetI)
    fix x assume "x \<in> apsnd canonicalJson ` set (live_fields fields)"
    then obtain k v where kv: "(k, v) \<in> set (live_fields fields)" "x = (k, canonicalJson v)" by auto
    then have "(k, meaning v) \<in> apsnd meaning ` set (live_fields fields')" unfolding * [symmetric] by force
    then obtain w where "(k, w) \<in> set (live_fields fields')" "meaning v = meaning w" by auto
    with kv same_text show "x \<in> apsnd canonicalJson ` set (live_fields fields')" by force
  next
    fix x assume "x \<in> apsnd canonicalJson ` set (live_fields fields')"
    then obtain k w where kw: "(k, w) \<in> set (live_fields fields')" "x = (k, canonicalJson w)" by auto
    then have "(k, meaning w) \<in> apsnd meaning ` set (live_fields fields)" unfolding * by force
    then obtain v where "(k, v) \<in> set (live_fields fields)" "meaning v = meaning w" by auto
    with kw same_text show "x \<in> apsnd canonicalJson ` set (live_fields fields)" by force
  qed
  then have "sort_key fst (map (apsnd canonicalJson) (live_fields fields)) = sort_key fst (map (apsnd canonicalJson) (live_fields fields'))"
    using d [OF 6(2)] d [OF 6(3) [unfolded b]] by (intro sort_by_key_unique) simp_all
  then show ?case unfolding b by (simp add: defined_live)
next
  case 1
  then show ?case by (cases b) simp_all
next
  case (2 x)
  then show ?case by (cases b) simp_all
next
  case (3 n)
  then show ?case by (cases b) simp_all
next
  case (4 x)
  then show ?case by (cases b) simp_all
next
  case 7
  then show ?case by (cases b) simp_all
qed

text \<open>
  C19: Two documents have the same canonical text exactly when they mean the same document, whatever
  the order of their keys and whichever undefined properties they carry.
\<close>

theorem canonicalJson_iff:
  assumes "wf_json a" "wf_json b" "a \<noteq> JUndefined" "b \<noteq> JUndefined"
  shows "canonicalJson a = canonicalJson b \<longleftrightarrow> meaning a = meaning b"
  using canonicalJson_prefix_free [OF assms, of "[]" "[]"] meaning_canonicalJson [OF assms(1,2)] by auto

theorem canonicalJson_iff_witness:
  "canonicalJson (JObject [(''b'', JNumber ''1''), (''a'', JArray [JNull, JString ''x'']), (''c'', JUndefined)]) =
   canonicalJson (JObject [(''a'', JArray [JNull, JString ''x'']), (''b'', JNumber ''1'')])"
proof -
  let ?a = "JObject [(''b'', JNumber ''1''), (''a'', JArray [JNull, JString ''x'']), (''c'', JUndefined)]"
  let ?b = "JObject [(''a'', JArray [JNull, JString ''x'']), (''b'', JNumber ''1'')]"
  have "wf_json ?a" "wf_json ?b" by (simp_all add: number_text_def number_char_def is_digit_def char_code_def)
  moreover have "meaning ?a = meaning ?b"
    unfolding meaning_object by (subst doc.inject, subst fmap_of_list_eq) (auto simp: live_fields_def)
  ultimately show ?thesis using canonicalJson_iff [of ?a ?b] by blast
qed

end
