(* ===== verification/TargetsRepo.thy ===== *)
theory TargetsRepo
  imports Actions Scopes CanonicalJson Net VaultFields
begin

text \<open>
  The stored targets: the row and its validation (\<^verbatim>\<open>src/actions/targets-schemas.ts\<close>), the static half
  of a connector (\<^verbatim>\<open>src/actions/connectors/connector.ts\<close>), the repository over \<^verbatim>\<open>action_targets\<close> and
  \<^verbatim>\<open>action_grants\<close> (\<^verbatim>\<open>src/actions/targets-repo.ts\<close>) and the closing of sessions
  (\<^verbatim>\<open>src/actions/sessions.ts\<close>).

  A document is the JSON value its column holds. The schemas of a connector are parameters: for each
  document a function that parses it or lists its issues, as \<^verbatim>\<open>safeParse\<close> does.
\<close>

section \<open>Rows\<close>

record CommonPolicy =
  timeout_ms :: nat
  max_output_bytes :: nat
  rate_limit_per_minute :: nat

record TargetChanges =
  t_description :: string
  t_destination :: json
  t_internal :: bool
  t_item_id :: string
  t_mapping :: json
  t_policy :: json

record TargetRow = TargetChanges +
  t_id :: string
  t_name :: string
  t_connector :: ConnectorKind
  t_enabled :: bool
  t_revision :: nat
  t_createdAt :: int
  t_updatedAt :: int
  t_updatedBy :: string

record TargetDocuments =
  doc_destination :: json
  doc_credential :: json
  doc_policy :: json
  doc_common :: CommonPolicy

record ZodIssue =
  issue_path :: "string list"
  issue_message :: string

type_synonym 'v Parsed = "('v, ZodIssue list) result"

record CredentialField =
  cf_name :: string
  cf_selector :: string
  cf_is_username :: bool

text \<open>
  A policy schema extends the common one, so what it parses carries the common fields.
\<close>

record ConnectorSchemas =
  destinationSchema :: "json \<Rightarrow> json Parsed"
  credentialSchema :: "json \<Rightarrow> json Parsed"
  policySchema :: "json \<Rightarrow> (json \<times> CommonPolicy) Parsed"
  schema_endpoints :: "json \<Rightarrow> Endpoint list"
  credentialEndpoints :: "json \<Rightarrow> Endpoint list"
  credentialFields :: "json \<Rightarrow> CredentialField list"
  saveProblems :: "TargetDocuments \<Rightarrow> string list"
  basicUsername :: "json \<Rightarrow> string option"
  summariseDestination :: "json \<Rightarrow> string"
  allowsNonRead :: "json \<Rightarrow> bool"
  internalRefused :: "string option"

section \<open>Validation\<close>

text \<open>\<^verbatim>\<open>CONNECTOR_SCHEMAS\<close>: the schemas of a kind, when the build has them.\<close>

type_synonym SchemasFor = "ConnectorKind \<Rightarrow> ConnectorSchemas option"

primrec kind_name :: "ConnectorKind \<Rightarrow> string" where
  "kind_name KHttp = ''http''"
| "kind_name KSql = ''sql''"
| "kind_name KSsh = ''ssh''"
| "kind_name KWinrm = ''winrm''"
| "kind_name KBrowser = ''browser''"
| "kind_name KCode = ''code''"

definition issue_text :: "string list \<Rightarrow> ZodIssue \<Rightarrow> string" where
  "issue_text base issue = join_with (CHR ''.'') (base @ issue_path issue) @ '': '' @ issue_message issue"

definition issues :: "string \<Rightarrow> 'v Parsed \<Rightarrow> string list" where
  "issues document parsed = (case parsed of Inr _ \<Rightarrow> [] | Inl found \<Rightarrow> map (issue_text [document]) found)"

definition parseTargetDocuments ::
  "SchemasFor \<Rightarrow> ConnectorKind \<Rightarrow> json \<Rightarrow> json \<Rightarrow> json \<Rightarrow> (TargetDocuments \<times> ConnectorSchemas, string list) result" where
  "parseTargetDocuments schemasFor kind destination credential policy =
     (case schemasFor kind of
        None \<Rightarrow> fail [''connector: '' @ kind_name kind @ '' is not available in this build'']
      | Some schemas \<Rightarrow>
        (case (destinationSchema schemas destination, credentialSchema schemas credential, policySchema schemas policy) of
           (Inr d, Inr c, Inr (p, common)) \<Rightarrow>
             ok (\<lparr>doc_destination = d, doc_credential = c, doc_policy = p, doc_common = common\<rparr>, schemas)
         | (d, c, p) \<Rightarrow> fail (issues ''destination'' d @ issues ''credential.mapping'' c @ issues ''policy'' p)))"

datatype ValidatedTarget =
    Valid TargetRow TargetDocuments ConnectorSchemas
  | Invalid TargetRow "string list"

definition validateTarget :: "SchemasFor \<Rightarrow> TargetRow \<Rightarrow> ValidatedTarget" where
  "validateTarget schemasFor r =
     (case parseTargetDocuments schemasFor (t_connector r) (t_destination r) (t_mapping r) (t_policy r) of
        Inl problems \<Rightarrow> Invalid r problems
      | Inr (documents, schemas) \<Rightarrow>
        (case saveProblems schemas documents of [] \<Rightarrow> Valid r documents schemas | problems \<Rightarrow> Invalid r problems))"

section \<open>The store\<close>

record GrantRow =
  g_target :: string
  g_client :: string
  g_grantedAt :: int
  g_grantedBy :: string
  g_revokedAt :: "int option"
  g_readOnly :: bool

datatype CloseReason =
  by_agent | by_idle | by_absolute | by_revoked | by_target_changed | by_operator | by_shutdown | by_error

record SessionRow =
  sess_hash :: string
  sess_target :: string
  sess_client :: string
  sess_closed :: "(int \<times> CloseReason) option"

datatype TargetAction =
  target_created | target_updated | target_deleted | target_enabled | target_disabled | grant_added
  | grant_removed | sessions_closed

record TargetEvent =
  ev_action :: TargetAction
  ev_target :: string
  ev_connector :: ConnectorKind
  ev_operator :: string
  ev_client :: "string option"
  ev_changed :: "string list"
  ev_sessions :: "nat option"
  ev_readOnly :: bool

datatype Notice = Saved TargetRow "TargetDocuments option" | Removed TargetRow

record TargetStore =
  target_rows :: "TargetRow list"
  grant_rows :: "GrantRow list"
  session_rows :: "SessionRow list"
  client_ids :: "string list"
  target_events :: "TargetEvent list"
  notices :: "Notice list"

definition findById :: "string \<Rightarrow> TargetStore \<Rightarrow> TargetRow option" where
  "findById tid w = find (\<lambda>r. t_id r = tid) (target_rows w)"

definition findByName :: "string \<Rightarrow> TargetStore \<Rightarrow> TargetRow option" where
  "findByName name w = find (\<lambda>r. t_name r = name) (target_rows w)"

definition list_rows :: "TargetStore \<Rightarrow> TargetRow list" where
  "list_rows w = sort_key t_name (target_rows w)"

definition active :: "GrantRow \<Rightarrow> bool" where
  "active g \<longleftrightarrow> g_revokedAt g = None"

text \<open>Every pair of a target and an active grant of the client on it, by name.\<close>

definition listGranted :: "string \<Rightarrow> TargetStore \<Rightarrow> TargetRow list" where
  "listGranted client w =
     sort_key t_name
       (concat (map (\<lambda>r. map (\<lambda>_. r) (filter (\<lambda>g. g_target g = t_id r \<and> g_client g = client \<and> active g) (grant_rows w)))
         (target_rows w)))"

text \<open>\<open>None\<close> is the exception of the primary key or of the unique index on the name.\<close>

definition insert_target :: "TargetRow \<Rightarrow> TargetStore \<Rightarrow> TargetStore option" where
  "insert_target r w =
     (if list_ex (\<lambda>q. t_id q = t_id r \<or> t_name q = t_name r) (target_rows w) then None
      else Some (w\<lparr>target_rows := target_rows w @ [r]\<rparr>))"

definition update_row :: "string \<Rightarrow> (TargetRow \<Rightarrow> TargetRow) \<Rightarrow> TargetStore \<Rightarrow> TargetStore" where
  "update_row tid f w = w\<lparr>target_rows := map (\<lambda>r. if t_id r = tid then f r else r) (target_rows w)\<rparr>"

definition with_changes :: "'a TargetChanges_scheme \<Rightarrow> TargetRow \<Rightarrow> TargetRow" where
  "with_changes c r =
     r\<lparr>t_description := t_description c, t_destination := t_destination c, t_internal := t_internal c,
       t_item_id := t_item_id c, t_mapping := t_mapping c, t_policy := t_policy c\<rparr>"

text \<open>ACT-1: the revision bump.\<close>

definition bumped :: "TargetRow \<Rightarrow> (TargetRow \<Rightarrow> TargetRow) \<Rightarrow> int \<Rightarrow> string \<Rightarrow> TargetRow" where
  "bumped r changes moment by =
     (changes r)\<lparr>t_revision := t_revision r + 1, t_updatedAt := moment, t_updatedBy := by\<rparr>"

definition update_target :: "string \<Rightarrow> 'a TargetChanges_scheme \<Rightarrow> int \<Rightarrow> string \<Rightarrow> TargetStore \<Rightarrow> TargetStore" where
  "update_target tid changes moment by w = update_row tid (\<lambda>r. bumped r (with_changes changes) moment by) w"

definition setEnabled :: "string \<Rightarrow> bool \<Rightarrow> int \<Rightarrow> string \<Rightarrow> TargetStore \<Rightarrow> TargetStore" where
  "setEnabled tid on moment by w = update_row tid (\<lambda>r. bumped r (t_enabled_update (\<lambda>_. on)) moment by) w"

text \<open>\<^verbatim>\<open>ON DELETE CASCADE\<close> of the grants.\<close>

definition remove_target :: "string \<Rightarrow> TargetStore \<Rightarrow> TargetStore" where
  "remove_target tid w =
     w\<lparr>target_rows := filter (\<lambda>r. t_id r \<noteq> tid) (target_rows w),
       grant_rows := filter (\<lambda>g. g_target g \<noteq> tid) (grant_rows w)\<rparr>"

definition clientExists :: "string \<Rightarrow> TargetStore \<Rightarrow> bool" where
  "clientExists client w \<longleftrightarrow> client \<in> set (client_ids w)"

definition isGranted :: "string \<Rightarrow> string \<Rightarrow> TargetStore \<Rightarrow> bool" where
  "isGranted target client w \<longleftrightarrow>
     list_ex (\<lambda>g. g_target g = target \<and> g_client g = client \<and> active g) (grant_rows w)"

definition isReadOnly :: "string \<Rightarrow> string \<Rightarrow> TargetStore \<Rightarrow> bool" where
  "isReadOnly target client w \<longleftrightarrow>
     list_ex (\<lambda>g. g_target g = target \<and> g_client g = client \<and> active g \<and> g_readOnly g) (grant_rows w)"

definition listGrants :: "string \<Rightarrow> TargetStore \<Rightarrow> GrantRow list" where
  "listGrants target w = sort_key g_client (filter (\<lambda>g. g_target g = target) (grant_rows w))"

text \<open>
  The insert, or on a conflict of the primary key the update: an active grant keeps the stricter of
  the two switches, a revoked one is granted again as asked.
\<close>

definition regranted :: "int \<Rightarrow> string \<Rightarrow> bool \<Rightarrow> GrantRow \<Rightarrow> GrantRow" where
  "regranted moment by readOnly g =
     g\<lparr>g_grantedAt := moment, g_grantedBy := by,
       g_readOnly := (if g_revokedAt g = None then g_readOnly g \<or> readOnly else readOnly),
       g_revokedAt := None\<rparr>"

definition grant_target :: "string \<Rightarrow> string \<Rightarrow> int \<Rightarrow> string \<Rightarrow> bool \<Rightarrow> TargetStore \<Rightarrow> TargetStore" where
  "grant_target target client moment by readOnly w =
     (if list_ex (\<lambda>g. g_target g = target \<and> g_client g = client) (grant_rows w)
      then w\<lparr>grant_rows :=
               map (\<lambda>g. if g_target g = target \<and> g_client g = client then regranted moment by readOnly g else g)
                 (grant_rows w)\<rparr>
      else w\<lparr>grant_rows := grant_rows w @
               [\<lparr>g_target = target, g_client = client, g_grantedAt = moment, g_grantedBy = by, g_revokedAt = None,
                 g_readOnly = readOnly\<rparr>]\<rparr>)"

definition revoke_grants :: "(GrantRow \<Rightarrow> bool) \<Rightarrow> int \<Rightarrow> TargetStore \<Rightarrow> nat \<times> TargetStore" where
  "revoke_grants P moment w =
     (length (filter (\<lambda>g. P g \<and> active g) (grant_rows w)),
      w\<lparr>grant_rows := map (\<lambda>g. if P g \<and> active g then g\<lparr>g_revokedAt := Some moment\<rparr> else g) (grant_rows w)\<rparr>)"

definition revokeGrant :: "string \<Rightarrow> string \<Rightarrow> int \<Rightarrow> TargetStore \<Rightarrow> nat \<times> TargetStore" where
  "revokeGrant target client moment w = revoke_grants (\<lambda>g. g_target g = target \<and> g_client g = client) moment w"

definition revokeGrantsForClient :: "string \<Rightarrow> int \<Rightarrow> TargetStore \<Rightarrow> nat \<times> TargetStore" where
  "revokeGrantsForClient client moment w = revoke_grants (\<lambda>g. g_client g = client) moment w"

section \<open>Sessions\<close>

datatype SessionFilter = OnTarget string | OfClient string

fun session_in :: "SessionFilter \<Rightarrow> SessionRow \<Rightarrow> bool" where
  "session_in (OnTarget tid) s = (sess_target s = tid)"
| "session_in (OfClient tid) s = (sess_client s = tid)"

definition closeSessions :: "SessionFilter \<Rightarrow> CloseReason \<Rightarrow> int \<Rightarrow> TargetStore \<Rightarrow> nat \<times> TargetStore" where
  "closeSessions f reason moment w =
     (length (filter (\<lambda>s. sess_closed s = None \<and> session_in f s) (session_rows w)),
      w\<lparr>session_rows :=
          map (\<lambda>s. if sess_closed s = None \<and> session_in f s then s\<lparr>sess_closed := Some (moment, reason)\<rparr> else s)
            (session_rows w)\<rparr>)"

definition countOpenSessions :: "string \<Rightarrow> TargetStore \<Rightarrow> nat" where
  "countOpenSessions target w =
     length (filter (\<lambda>s. sess_target s = target \<and> sess_closed s = None) (session_rows w))"

end
