(* ===== verification/Targets.thy ===== *)
theory Targets
  imports TargetsRepo Policy
begin

text \<open>
  The targets service: the save-time checks (\<^verbatim>\<open>src/actions/targets-checks.ts\<close>), what the operations
  share (\<^verbatim>\<open>src/actions/targets-context.ts\<close>), the lifecycle of a target
  (\<^verbatim>\<open>src/actions/targets-lifecycle.ts\<close>) and its grants (\<^verbatim>\<open>src/actions/targets.ts\<close>).

  The checks of a create and of an update wait for the vault and the resolver. The two states of such
  an operation are the one it looked the target up in and the one its row is written in.
\<close>

section \<open>Checks\<close>

record CheckEnv =
  schemas_for :: SchemasFor
  vault_getItem :: "string \<Rightarrow> (ItemSummary, VaultErrorCode) result"
  resolver :: Lookup
  check_allowAnyCommand :: bool

primrec PROBLEM_MESSAGES :: "DestinationProblem \<Rightarrow> string" where
  "PROBLEM_MESSAGES DInvalid = ''is not a valid address''"
| "PROBLEM_MESSAGES DForbidden =
     ''is a loopback, link-local, multicast or unspecified address, which is refused always''"
| "PROBLEM_MESSAGES DPrivate = ''is a private-range address; set internal: true to allow it''"
| "PROBLEM_MESSAGES DUnresolved = ''does not resolve to any address''"

definition quoted :: "string \<Rightarrow> string" where
  "quoted s = CHR 0x22 # s @ [CHR 0x22]"

definition refusal_message :: "string \<Rightarrow> DestinationProblem \<Rightarrow> string" where
  "refusal_message host problem = ''host '' @ quoted host @ '' '' @ PROBLEM_MESSAGES problem"

record FieldReport =
  rep_selector :: string
  rep_is_username :: bool
  rep_problem :: "string option"

record EndpointReport =
  rep_host :: string
  rep_tls :: bool
  rep_address :: "string option"
  rep_problems :: "string list"

datatype ItemReport = ItemFound string | ItemMissing string

record CredentialReport =
  rep_item :: ItemReport
  rep_fields :: "FieldReport list"

record CheckReport =
  rep_all :: "string list"
  rep_endpoints :: "EndpointReport list"
  rep_credential :: "CredentialReport option"
  rep_rules :: "string list"

definition fieldReport :: "ItemSummary \<Rightarrow> CredentialField \<Rightarrow> FieldReport" where
  "fieldReport item f =
     \<lparr>rep_selector = cf_selector f, rep_is_username = cf_is_username f,
      rep_problem =
        (case parseFieldSelector (cf_selector f) of
           None \<Rightarrow> Some (''credential.mapping: '' @ quoted (cf_selector f) @ '' is not a field selector'')
         | Some selector \<Rightarrow>
           (if isFieldPresent item selector then None
            else Some (''credential.mapping: the item has no '' @ quoted (cf_selector f) @ '' field'')))\<rparr>"

definition credentialReport :: "CheckEnv \<Rightarrow> string \<Rightarrow> CredentialField list \<Rightarrow> CredentialReport" where
  "credentialReport env itemId mapped =
     (case vault_getItem env itemId of
        Inl code \<Rightarrow>
          \<lparr>rep_item = ItemMissing
             (if code = item_not_found then ''credential.item_id: no such item in the vault''
              else ''credential.item_id: the item could not be checked ('' @ vault_code code @ '')''),
           rep_fields = []\<rparr>
      | Inr item \<Rightarrow> \<lparr>rep_item = ItemFound (item_name item), rep_fields = map (fieldReport item) mapped\<rparr>)"

definition credentialProblems :: "CredentialReport \<Rightarrow> string list" where
  "credentialProblems c =
     (case rep_item c of
        ItemFound _ \<Rightarrow> List.map_filter rep_problem (rep_fields c)
      | ItemMissing problem \<Rightarrow> [problem])"

text \<open>\<^verbatim>\<open>commandPolicySchema\<close>: a list of strings and a boolean, each with a default.\<close>

fun string_items :: "json list \<Rightarrow> string list option" where
  "string_items [] = Some []"
| "string_items (JString s # vs) = map_option (Cons s) (string_items vs)"
| "string_items (v # vs) = None"

definition allowed_commands_of :: "json \<Rightarrow> string list option" where
  "allowed_commands_of policy =
     (case property_of policy ''allowed_commands'' of
        None \<Rightarrow> Some [] | Some JUndefined \<Rightarrow> Some [] | Some (JArray vs) \<Rightarrow> string_items vs | Some _ \<Rightarrow> None)"

definition any_command_of :: "json \<Rightarrow> bool option" where
  "any_command_of policy =
     (case property_of policy ''any_command'' of
        None \<Rightarrow> Some False | Some JUndefined \<Rightarrow> Some False | Some (JBool b) \<Rightarrow> Some b | Some _ \<Rightarrow> None)"

definition parse_commands :: "json \<Rightarrow> (string list \<times> bool) option" where
  "parse_commands policy =
     (case policy of
        JObject _ \<Rightarrow>
          (case (allowed_commands_of policy, any_command_of policy) of
             (Some patterns, Some b) \<Rightarrow> Some (patterns, b) | _ \<Rightarrow> None)
      | _ \<Rightarrow> None)"

definition commandProblems :: "json \<Rightarrow> bool \<Rightarrow> string list" where
  "commandProblems policy isAnyCommandAllowed =
     (case parse_commands policy of
        None \<Rightarrow> [''policy.allowed_commands: must be a list of patterns'']
      | Some (patterns, anyCommand) \<Rightarrow>
        (if anyCommand \<and> \<not> isAnyCommandAllowed
         then [''policy.any_command: VAULTGATE_ACTIONS_ALLOW_ANY_COMMAND is off on this deployment''] else []) @
        (case commandPatternProblem patterns anyCommand of
           None \<Rightarrow> []
         | Some p \<Rightarrow> [''policy.allowed_commands: the command pattern '' @ quoted p @
                      '' would allow every command; set any_command instead'']))"

definition namedHosts :: "ConnectorSchemas \<Rightarrow> TargetDocuments \<Rightarrow> (string \<times> Endpoint) list" where
  "namedHosts schemas documents =
     map (Pair ''destination'') (schema_endpoints schemas (doc_destination documents)) @
     map (Pair ''credential.mapping'') (credentialEndpoints schemas (doc_credential documents))"

definition endpointReport :: "bool \<Rightarrow> Lookup \<Rightarrow> string \<times> Endpoint \<Rightarrow> EndpointReport" where
  "endpointReport isInternal lookup = (\<lambda>(place, endpoint).
     (let pinned = pinEndpoint endpoint isInternal lookup in
      \<lparr>rep_host = endpoint_host endpoint, rep_tls = endpoint_tls endpoint,
       rep_address = (case pinned of Inr e \<Rightarrow> Some (pinned_address e) | Inl _ \<Rightarrow> None),
       rep_problems =
         (if \<not> endpoint_tls endpoint \<and> \<not> isInternal
          then [place @ '': plain transport to '' @ quoted (endpoint_host endpoint) @ '' needs internal: true''] else []) @
         (case pinned of Inr _ \<Rightarrow> [] | Inl problem \<Rightarrow> [place @ '': '' @ refusal_message (endpoint_host endpoint) problem])\<rparr>))"

definition endpointReports :: "CheckEnv \<Rightarrow> ConnectorSchemas \<Rightarrow> TargetDocuments \<Rightarrow> bool \<Rightarrow> EndpointReport list" where
  "endpointReports env schemas documents isInternal =
     map (endpointReport isInternal (resolver env)) (namedHosts schemas documents)"

definition stopped_report :: "string list \<Rightarrow> CheckReport" where
  "stopped_report problems = \<lparr>rep_all = problems, rep_endpoints = [], rep_credential = None, rep_rules = problems\<rparr>"

text \<open>The report, and the prepared changes when no check found a problem.\<close>

type_synonym Inspection = "CheckReport \<times> (TargetChanges \<times> TargetDocuments) option"

definition inspect_documents :: "CheckEnv \<Rightarrow> TargetChanges \<Rightarrow> TargetDocuments \<Rightarrow> ConnectorSchemas \<Rightarrow> Inspection" where
  "inspect_documents env changes documents schemas =
     (let rules = saveProblems schemas documents @
            commandProblems (t_policy changes) (check_allowAnyCommand env) @
            (if t_internal changes then (case internalRefused schemas of Some r \<Rightarrow> [r] | None \<Rightarrow> []) else []);
          endpoints = endpointReports env schemas documents (t_internal changes);
          credential = credentialReport env (t_item_id changes) (credentialFields schemas (doc_credential documents));
          problems = rules @ concat (map rep_problems endpoints) @ credentialProblems credential
      in (\<lparr>rep_all = problems, rep_endpoints = endpoints, rep_credential = Some credential, rep_rules = rules\<rparr>,
          if problems = [] then Some (changes, documents) else None))"

definition inspect :: "CheckEnv \<Rightarrow> ConnectorKind \<Rightarrow> TargetChanges Parsed \<Rightarrow> Inspection" where
  "inspect env kind input =
     (case input of
        Inl found \<Rightarrow> (stopped_report (map (issue_text []) found), None)
      | Inr changes \<Rightarrow>
        (case parseTargetDocuments (schemas_for env) kind (t_destination changes) (t_mapping changes) (t_policy changes) of
           Inl problems \<Rightarrow> (stopped_report problems, None)
         | Inr (documents, schemas) \<Rightarrow> inspect_documents env changes documents schemas))"

definition prepareChanges ::
  "CheckEnv \<Rightarrow> ConnectorKind \<Rightarrow> TargetChanges Parsed \<Rightarrow> (TargetChanges, string list) result" where
  "prepareChanges env kind input =
     (case inspect env kind input of
        (report, None) \<Rightarrow> fail (rep_all report)
      | (_, Some (changes, _)) \<Rightarrow> ok changes)"

definition checkChanges :: "CheckEnv \<Rightarrow> ConnectorKind \<Rightarrow> TargetChanges Parsed \<Rightarrow> CheckReport" where
  "checkChanges env kind input = fst (inspect env kind input)"

text \<open>ACT-7: the fields of \<^verbatim>\<open>EDITABLE\<close> by name, each as the JSON value that is compared.\<close>

definition editable :: "'a TargetChanges_scheme \<Rightarrow> (string \<times> json) list" where
  "editable r =
     [(''description'', JString (t_description r)), (''destination'', t_destination r),
      (''internal'', JBool (t_internal r)),
      (''credential'', JObject [(''item_id'', JString (t_item_id r)), (''mapping'', t_mapping r)]),
      (''policy'', t_policy r)]"

definition changedFields :: "'a TargetChanges_scheme \<Rightarrow> 'b TargetChanges_scheme \<Rightarrow> string list" where
  "changedFields before changes =
     map fst
       (filter (\<lambda>(field, old, new). canonicalJson old \<noteq> canonicalJson new)
         (map2 (\<lambda>(field, old) (_, new). (field, old, new)) (editable before) (editable changes)))"

section \<open>What the operations share\<close>

record TargetSummary =
  sum_row :: TargetRow
  sum_valid :: bool
  sum_problems :: "string list"
  sum_destination :: "string option"
  sum_grants :: "GrantRow list"

type_synonym TargetResult = "(TargetSummary, string list) result"

definition summariseTarget :: "SchemasFor \<Rightarrow> TargetStore \<Rightarrow> TargetRow \<Rightarrow> TargetSummary" where
  "summariseTarget schemasFor w r =
     (case validateTarget schemasFor r of
        Valid _ documents schemas \<Rightarrow>
          \<lparr>sum_row = r, sum_valid = True, sum_problems = [],
           sum_destination = Some (summariseDestination schemas (doc_destination documents)),
           sum_grants = listGrants (t_id r) w\<rparr>
      | Invalid _ problems \<Rightarrow>
          \<lparr>sum_row = r, sum_valid = False, sum_problems = problems, sum_destination = None,
           sum_grants = listGrants (t_id r) w\<rparr>)"

definition documentsOf :: "SchemasFor \<Rightarrow> TargetRow \<Rightarrow> TargetDocuments option" where
  "documentsOf schemasFor r =
     (case validateTarget schemasFor r of Valid _ documents _ \<Rightarrow> Some documents | Invalid _ _ \<Rightarrow> None)"

definition target_event :: "TargetAction \<Rightarrow> TargetRow \<Rightarrow> string \<Rightarrow> TargetEvent" where
  "target_event action r operatorId =
     \<lparr>ev_action = action, ev_target = t_name r, ev_connector = t_connector r, ev_operator = operatorId,
      ev_client = None, ev_changed = [], ev_sessions = None, ev_readOnly = False\<rparr>"

definition recordTargetEvent :: "TargetEvent \<Rightarrow> TargetStore \<Rightarrow> TargetStore" where
  "recordTargetEvent e w = w\<lparr>target_events := target_events w @ [e]\<rparr>"

definition notify :: "Notice \<Rightarrow> TargetStore \<Rightarrow> TargetStore" where
  "notify n w = w\<lparr>notices := notices w @ [n]\<rparr>"

definition unknownTarget :: "('a, string list) result" where
  "unknownTarget = fail [''id: no such target'']"

section \<open>Lifecycle\<close>

record TargetInput = TargetChanges +
  in_name :: string
  in_connector :: ConnectorKind
  in_enabled :: bool

definition NAME_TAKEN :: string where
  "NAME_TAKEN = ''name: a target of that name already exists''"

text \<open>\<open>Threw\<close> is the exception of the unique index, which the handler does not catch.\<close>

datatype 'a TargetOutcome = Answered 'a | Threw

definition changes_of :: "'a TargetChanges_scheme \<Rightarrow> TargetChanges" where
  "changes_of c = TargetChanges.truncate c"

definition new_target :: "TargetChanges \<Rightarrow> TargetInput \<Rightarrow> string \<Rightarrow> string \<Rightarrow> int \<Rightarrow> TargetRow" where
  "new_target changes input tid operatorId moment =
     \<lparr>t_description = t_description changes, t_destination = t_destination changes,
      t_internal = t_internal changes, t_item_id = t_item_id changes, t_mapping = t_mapping changes,
      t_policy = t_policy changes, t_id = tid, t_name = in_name input, t_connector = in_connector input,
      t_enabled = in_enabled input, t_revision = 1, t_createdAt = moment, t_updatedAt = moment,
      t_updatedBy = operatorId\<rparr>"

definition createTarget ::
  "CheckEnv \<Rightarrow> TargetInput Parsed \<Rightarrow> TargetStore \<Rightarrow> string \<Rightarrow> string \<Rightarrow> int \<Rightarrow> TargetStore \<Rightarrow> TargetResult TargetOutcome \<times> TargetStore" where
  "createTarget env shape looked_up tid operatorId moment w =
     (case shape of
        Inl found \<Rightarrow> (Answered (fail (map (issue_text []) found)), w)
      | Inr input \<Rightarrow>
        (if findByName (in_name input) looked_up \<noteq> None then (Answered (fail [NAME_TAKEN]), w)
         else
          (case prepareChanges env (in_connector input) (ok (changes_of input)) of
             Inl problems \<Rightarrow> (Answered (fail problems), w)
           | Inr changes \<Rightarrow>
             (let r = new_target changes input tid operatorId moment in
              (case insert_target r w of
                 None \<Rightarrow> (Threw, w)
               | Some w1 \<Rightarrow>
                 (let w2 = notify (Saved r None) (recordTargetEvent (target_event target_created r operatorId) w1)
                  in (Answered (ok (summariseTarget (schemas_for env) w2 r)), w2)))))))"

definition checkNewTarget :: "CheckEnv \<Rightarrow> TargetInput Parsed \<Rightarrow> TargetStore \<Rightarrow> CheckReport" where
  "checkNewTarget env shape w =
     (case shape of
        Inl found \<Rightarrow> stopped_report (map (issue_text []) found)
      | Inr input \<Rightarrow>
        (let report = checkChanges env (in_connector input) (ok (changes_of input)) in
         if findByName (in_name input) w = None then report
         else report\<lparr>rep_all := NAME_TAKEN # rep_all report, rep_rules := NAME_TAKEN # rep_rules report\<rparr>))"

definition updateTarget ::
  "CheckEnv \<Rightarrow> string \<Rightarrow> TargetChanges Parsed \<Rightarrow> TargetStore \<Rightarrow> string \<Rightarrow> int \<Rightarrow> TargetStore \<Rightarrow> TargetResult \<times> TargetStore" where
  "updateTarget env tid input looked_up operatorId moment w =
     (case findById tid looked_up of
        None \<Rightarrow> (unknownTarget, w)
      | Some before \<Rightarrow>
        (case prepareChanges env (t_connector before) input of
           Inl problems \<Rightarrow> (fail problems, w)
         | Inr changes \<Rightarrow>
           (let changed = changedFields before changes in
            if changed = [] then (ok (summariseTarget (schemas_for env) w before), w)
            else
             (case closeSessions (OnTarget tid) by_target_changed moment w of
                (n, w1) \<Rightarrow>
                (let w2 = recordTargetEvent
                       ((target_event target_updated before operatorId)\<lparr>ev_changed := changed, ev_sessions := Some n\<rparr>) w1;
                     w3 = update_target tid changes moment operatorId w2;
                     after_row = bumped before (with_changes changes) moment operatorId;
                     w4 = notify (Saved after_row (documentsOf (schemas_for env) before)) w3
                 in (ok (summariseTarget (schemas_for env) w4 after_row), w4))))))"

definition setTargetEnabled ::
  "SchemasFor \<Rightarrow> string \<Rightarrow> bool \<Rightarrow> string \<Rightarrow> int \<Rightarrow> TargetStore \<Rightarrow> TargetResult \<times> TargetStore" where
  "setTargetEnabled schemasFor tid on operatorId moment w =
     (case findById tid w of
        None \<Rightarrow> (unknownTarget, w)
      | Some r \<Rightarrow>
        (case (if on then (0, w) else closeSessions (OnTarget tid) by_target_changed moment w) of
           (n, w1) \<Rightarrow>
           (let w2 = recordTargetEvent
                  ((target_event (if on then target_enabled else target_disabled) r operatorId)\<lparr>ev_sessions := Some n\<rparr>) w1;
                w3 = setEnabled tid on moment operatorId w2;
                after_row = bumped r (t_enabled_update (\<lambda>_. on)) moment operatorId;
                w4 = notify (Saved after_row None) w3
            in (ok (summariseTarget schemasFor w4 after_row), w4))))"

definition removeTarget :: "string \<Rightarrow> string \<Rightarrow> int \<Rightarrow> TargetStore \<Rightarrow> (unit, string list) result \<times> TargetStore" where
  "removeTarget tid operatorId moment w =
     (case findById tid w of
        None \<Rightarrow> (unknownTarget, w)
      | Some r \<Rightarrow>
        (case closeSessions (OnTarget tid) by_target_changed moment (notify (Removed r) w) of
           (n, w1) \<Rightarrow>
           (ok (), recordTargetEvent ((target_event target_deleted r operatorId)\<lparr>ev_sessions := Some n\<rparr>)
              (remove_target tid w1))))"

section \<open>Grants and sessions\<close>

definition grantTarget ::
  "SchemasFor \<Rightarrow> string \<Rightarrow> string \<Rightarrow> bool \<Rightarrow> string \<Rightarrow> int \<Rightarrow> TargetStore \<Rightarrow> TargetResult \<times> TargetStore" where
  "grantTarget schemasFor tid client readOnly operatorId moment w =
     (case findById tid w of
        None \<Rightarrow> (unknownTarget, w)
      | Some r \<Rightarrow>
        (if \<not> clientExists client w then (fail [''client_id: no such client''], w)
         else
          (let w1 = grant_target tid client moment operatorId readOnly w;
               w2 = recordTargetEvent
                  ((target_event grant_added r operatorId)
                     \<lparr>ev_client := Some client, ev_readOnly := isReadOnly tid client w1\<rparr>) w1
           in (ok (summariseTarget schemasFor w2 r), w2))))"

definition revokeTargetGrant ::
  "SchemasFor \<Rightarrow> string \<Rightarrow> string \<Rightarrow> string \<Rightarrow> int \<Rightarrow> TargetStore \<Rightarrow> TargetResult \<times> TargetStore" where
  "revokeTargetGrant schemasFor tid client operatorId moment w =
     (case findById tid w of
        None \<Rightarrow> (unknownTarget, w)
      | Some r \<Rightarrow>
        (case closeSessions (OfClient client) by_revoked moment (snd (revokeGrant tid client moment w)) of
           (n, w1) \<Rightarrow>
           (let w2 = recordTargetEvent
                  ((target_event grant_removed r operatorId)\<lparr>ev_client := Some client, ev_sessions := Some n\<rparr>) w1
            in (ok (summariseTarget schemasFor w2 r), w2))))"

definition closeTargetSessions ::
  "SchemasFor \<Rightarrow> string \<Rightarrow> string \<Rightarrow> int \<Rightarrow> TargetStore \<Rightarrow> TargetResult \<times> TargetStore" where
  "closeTargetSessions schemasFor tid operatorId moment w =
     (case findById tid w of
        None \<Rightarrow> (unknownTarget, w)
      | Some r \<Rightarrow>
        (case closeSessions (OnTarget tid) by_operator moment w of
           (n, w1) \<Rightarrow>
           (let w2 = recordTargetEvent ((target_event sessions_closed r operatorId)\<lparr>ev_sessions := Some n\<rparr>) w1
            in (ok (summariseTarget schemasFor w2 r), w2))))"

definition onConsentRevoked :: "string \<Rightarrow> int \<Rightarrow> TargetStore \<Rightarrow> (nat \<times> nat) \<times> TargetStore" where
  "onConsentRevoked client moment w =
     (case revokeGrantsForClient client moment w of
        (g, w1) \<Rightarrow> (case closeSessions (OfClient client) by_revoked moment w1 of (n, w2) \<Rightarrow> ((g, n), w2)))"

section \<open>The service\<close>

datatype TargetRequest =
    CreateTarget CheckEnv "TargetInput Parsed" TargetStore string string int
  | UpdateTarget CheckEnv string "TargetChanges Parsed" TargetStore string int
  | EnableTarget SchemasFor string bool string int
  | RemoveTarget string string int
  | GrantTarget SchemasFor string string bool string int
  | RevokeGrant SchemasFor string string string int
  | CloseSessions SchemasFor string string int
  | ConsentRevoked string int

fun serve :: "TargetRequest \<Rightarrow> TargetStore \<Rightarrow> TargetStore" where
  "serve (CreateTarget env shape w0 tid by moment) w = snd (createTarget env shape w0 tid by moment w)"
| "serve (UpdateTarget env tid input w0 by moment) w = snd (updateTarget env tid input w0 by moment w)"
| "serve (EnableTarget schemasFor tid on by moment) w = snd (setTargetEnabled schemasFor tid on by moment w)"
| "serve (RemoveTarget tid by moment) w = snd (removeTarget tid by moment w)"
| "serve (GrantTarget schemasFor tid client readOnly by moment) w = snd (grantTarget schemasFor tid client readOnly by moment w)"
| "serve (RevokeGrant schemasFor tid client by moment) w = snd (revokeTargetGrant schemasFor tid client by moment w)"
| "serve (CloseSessions schemasFor tid by moment) w = snd (closeTargetSessions schemasFor tid by moment w)"
| "serve (ConsentRevoked client moment) w = snd (onConsentRevoked client moment w)"

end
