(* ===== verification/TargetsSafety.thy ===== *)
theory TargetsSafety
  imports Targets
begin

text \<open>
  What the targets service keeps and promises: the keys of the store, the grants as a map from a
  target and a client to the read-only switch, the revision as the name of a target's contents, and
  the sessions that may stay open across a change.
\<close>

section \<open>What an operation does to the rows\<close>

definition core :: "TargetStore \<Rightarrow> TargetRow list \<times> GrantRow list \<times> SessionRow list \<times> string list" where
  "core w = (target_rows w, grant_rows w, session_rows w, client_ids w)"

definition closed :: "SessionFilter \<Rightarrow> CloseReason \<Rightarrow> int \<Rightarrow> TargetStore \<Rightarrow> TargetStore" where
  "closed f reason moment w = snd (closeSessions f reason moment w)"

inductive effect :: "TargetRequest \<Rightarrow> TargetStore \<Rightarrow> TargetStore \<Rightarrow> bool" where
  eff_same: "effect req w w"
| eff_insert: "insert_target r w = Some w' \<Longrightarrow> t_id r = tid \<Longrightarrow> t_revision r = 1 \<Longrightarrow>
     effect (CreateTarget env shape w0 tid by moment) w w'"
| eff_update: "effect (UpdateTarget env tid input w0 by moment) w
     (update_target tid (c :: TargetChanges) moment by (closed (OnTarget tid) by_target_changed moment w))"
| eff_enable: "findById tid w \<noteq> None \<Longrightarrow> effect (EnableTarget sf tid on by moment) w
     (setEnabled tid on moment by (if on then w else closed (OnTarget tid) by_target_changed moment w))"
| eff_remove: "findById tid w \<noteq> None \<Longrightarrow> effect (RemoveTarget tid by moment) w
     (remove_target tid (closed (OnTarget tid) by_target_changed moment w))"
| eff_grant: "findById tid w \<noteq> None \<Longrightarrow> clientExists client w \<Longrightarrow>
     effect (GrantTarget sf tid client readOnly by moment) w (grant_target tid client moment by readOnly w)"
| eff_revoke: "findById tid w \<noteq> None \<Longrightarrow> effect (RevokeGrant sf tid client by moment) w
     (closed (OfClient client) by_revoked moment (snd (revokeGrant tid client moment w)))"
| eff_close: "effect (CloseSessions sf tid by moment) w (closed (OnTarget tid) by_operator moment w)"
| eff_consent: "effect (ConsentRevoked client moment) w
     (closed (OfClient client) by_revoked moment (snd (revokeGrantsForClient client moment w)))"

lemma core_record [simp]: "core (recordTargetEvent e w) = core w" "core (notify n w) = core w"
  by (simp_all add: core_def recordTargetEvent_def notify_def)

lemma core_eqD:
  assumes "core w = core w'"
  shows "core (update_target tid c moment by w) = core (update_target tid c moment by w')"
    "core (setEnabled tid on moment by w) = core (setEnabled tid on moment by w')"
    "core (remove_target tid w) = core (remove_target tid w')"
    "core (closed f reason moment w) = core (closed f reason moment w')"
  using assms
  by (simp_all add: core_def update_target_def setEnabled_def update_row_def remove_target_def closed_def closeSessions_def)

lemma core_under [simp]:
  "core (setEnabled tid on moment by (recordTargetEvent e w)) = core (setEnabled tid on moment by w)"
  "core (remove_target tid (closed f reason moment (notify n w))) = core (remove_target tid (closed f reason moment w))"
  by (auto intro!: core_eqD)

lemma new_target_sel [simp]: "t_id (new_target c input tid who moment) = tid" "t_revision (new_target c input tid who moment) = 1"
  by (simp_all add: new_target_def)

lemma create_effect:
  "\<exists>w'. effect (CreateTarget env shape w0 tid who moment) w w' \<and> core (snd (createTarget env shape w0 tid who moment w)) = core w'"
proof (cases "core (snd (createTarget env shape w0 tid who moment w)) = core w")
  case True
  then show ?thesis using eff_same by metis
next
  case False
  then obtain c input w1 where "insert_target (new_target c input tid who moment) w = Some w1"
    "core (snd (createTarget env shape w0 tid who moment w)) = core w1"
    by (auto simp: createTarget_def Let_def split: sum.splits option.splits if_splits)
  then show ?thesis using eff_insert [of _ w w1 tid] by (metis new_target_sel)
qed

lemma update_effect:
  "\<exists>w'. effect (UpdateTarget env tid input w0 who moment) w w' \<and> core (snd (updateTarget env tid input w0 who moment w)) = core w'"
proof (cases "core (snd (updateTarget env tid input w0 who moment w)) = core w")
  case True
  then show ?thesis using eff_same by metis
next
  case False
  then obtain e n c where
    "core (snd (updateTarget env tid input w0 who moment w)) =
       core (notify n (update_target tid (c :: TargetChanges) moment who
         (recordTargetEvent e (closed (OnTarget tid) by_target_changed moment w))))"
    unfolding updateTarget_def closed_def by (auto simp: Let_def case_prod_beta split: sum.splits option.splits if_splits)
  then show ?thesis using eff_update core_eqD(1) core_record by metis
qed

lemma enable_effect:
  "\<exists>w'. effect (EnableTarget sf tid on who moment) w w' \<and> core (snd (setTargetEnabled sf tid on who moment w)) = core w'"
proof (cases "findById tid w")
  case None
  then have "snd (setTargetEnabled sf tid on who moment w) = w" by (simp add: setTargetEnabled_def)
  then show ?thesis using eff_same by metis
next
  case (Some r)
  let ?w = "if on then w else closed (OnTarget tid) by_target_changed moment w"
  have "core (snd (setTargetEnabled sf tid on who moment w)) = core (setEnabled tid on moment who ?w)"
    unfolding setTargetEnabled_def Some closed_def by (cases on) (simp_all add: Let_def case_prod_beta)
  then show ?thesis using eff_enable Some by blast
qed

lemma remove_effect:
  "\<exists>w'. effect (RemoveTarget tid who moment) w w' \<and> core (snd (removeTarget tid who moment w)) = core w'"
proof (cases "findById tid w")
  case None
  then have "snd (removeTarget tid who moment w) = w" by (simp add: removeTarget_def)
  then show ?thesis using eff_same by metis
next
  case (Some r)
  then have "core (snd (removeTarget tid who moment w)) = core (remove_target tid (closed (OnTarget tid) by_target_changed moment w))"
    by (simp add: removeTarget_def case_prod_beta flip: closed_def)
  then show ?thesis using eff_remove Some by blast
qed

lemma grant_effect:
  "\<exists>w'. effect (GrantTarget sf tid client readOnly who moment) w w' \<and>
     core (snd (grantTarget sf tid client readOnly who moment w)) = core w'"
proof (cases "findById tid w = None \<or> \<not> clientExists client w")
  case True
  then have "snd (grantTarget sf tid client readOnly who moment w) = w" by (auto simp: grantTarget_def split: option.split)
  then show ?thesis using eff_same by metis
next
  case False
  then have "core (snd (grantTarget sf tid client readOnly who moment w)) = core (grant_target tid client moment who readOnly w)"
    by (auto simp: grantTarget_def Let_def)
  then show ?thesis using eff_grant False by blast
qed

lemma revoke_effect:
  "\<exists>w'. effect (RevokeGrant sf tid client who moment) w w' \<and> core (snd (revokeTargetGrant sf tid client who moment w)) = core w'"
proof (cases "findById tid w")
  case None
  then have "snd (revokeTargetGrant sf tid client who moment w) = w" by (simp add: revokeTargetGrant_def)
  then show ?thesis using eff_same by metis
next
  case (Some r)
  then have "core (snd (revokeTargetGrant sf tid client who moment w)) =
      core (closed (OfClient client) by_revoked moment (snd (revokeGrant tid client moment w)))"
    by (simp add: revokeTargetGrant_def closed_def Let_def case_prod_beta)
  then show ?thesis using eff_revoke Some by blast
qed

lemma close_effect:
  "\<exists>w'. effect (CloseSessions sf tid who moment) w w' \<and> core (snd (closeTargetSessions sf tid who moment w)) = core w'"
proof (cases "findById tid w")
  case None
  then have "snd (closeTargetSessions sf tid who moment w) = w" by (simp add: closeTargetSessions_def)
  then show ?thesis using eff_same by metis
next
  case (Some r)
  then have "core (snd (closeTargetSessions sf tid who moment w)) = core (closed (OnTarget tid) by_operator moment w)"
    by (simp add: closeTargetSessions_def closed_def Let_def case_prod_beta)
  then show ?thesis using eff_close by blast
qed

lemma consent_effect:
  "\<exists>w'. effect (ConsentRevoked client moment) w w' \<and> core (snd (onConsentRevoked client moment w)) = core w'"
  using eff_consent [of client moment w] by (auto simp: onConsentRevoked_def closed_def case_prod_beta)

lemma serve_effect: "\<exists>w'. effect req w w' \<and> core (serve req w) = core w'"
  using create_effect update_effect enable_effect remove_effect grant_effect revoke_effect close_effect consent_effect
  by (cases req) simp_all

section \<open>The keys of the store\<close>

definition grant_key :: "GrantRow \<Rightarrow> string \<times> string" where
  "grant_key g = (g_target g, g_client g)"

definition keys_inv :: "TargetStore \<Rightarrow> bool" where
  "keys_inv w \<longleftrightarrow>
     distinct (map t_id (target_rows w)) \<and> distinct (map t_name (target_rows w)) \<and>
     distinct (map grant_key (grant_rows w)) \<and>
     (\<forall>g \<in> set (grant_rows w). g_target g \<in> t_id ` set (target_rows w) \<and> g_client g \<in> set (client_ids w))"

lemma keys_inv_core: "core w = core w' \<Longrightarrow> keys_inv w = keys_inv w'"
  by (simp add: core_def keys_inv_def)

lemma findById_Some: "findById tid w = Some r \<Longrightarrow> r \<in> set (target_rows w) \<and> t_id r = tid"
  unfolding findById_def by (drule find_SomeD) simp

lemma with_changes_sel [simp]:
  "t_id (with_changes c r) = t_id r" "t_name (with_changes c r) = t_name r" "t_connector (with_changes c r) = t_connector r"
  "t_enabled (with_changes c r) = t_enabled r" "t_revision (with_changes c r) = t_revision r"
  by (simp_all add: with_changes_def)

lemma bumped_sel [simp]:
  "t_revision (bumped r f moment by) = t_revision r + 1"
  "t_id (bumped r f moment by) = t_id (f r)" "t_name (bumped r f moment by) = t_name (f r)"
  "t_enabled (bumped r f moment by) = t_enabled (f r)"
  "TargetChanges.truncate (bumped r f moment by) = TargetChanges.truncate (f r)"
  by (simp_all add: bumped_def TargetChanges.truncate_def)

lemma closed_sel [simp]:
  "target_rows (closed f reason moment w) = target_rows w" "grant_rows (closed f reason moment w) = grant_rows w"
  "client_ids (closed f reason moment w) = client_ids w"
  by (simp_all add: closed_def closeSessions_def)

lemma update_row_sel [simp]:
  "target_rows (update_row tid f w) = map (\<lambda>r. if t_id r = tid then f r else r) (target_rows w)"
  "grant_rows (update_row tid f w) = grant_rows w" "session_rows (update_row tid f w) = session_rows w"
  "client_ids (update_row tid f w) = client_ids w"
  by (simp_all add: update_row_def)

lemma keys_update_row:
  assumes "\<And>r. t_id (f r) = t_id r \<and> t_name (f r) = t_name r" "keys_inv w"
  shows "keys_inv (update_row tid f w)"
proof -
  let ?h = "\<lambda>r. if t_id r = tid then f r else r"
  have h: "t_id \<circ> ?h = t_id" "t_name \<circ> ?h = t_name" using assms(1) by auto
  have "t_id ` ?h ` set (target_rows w) = t_id ` set (target_rows w)" unfolding image_comp h ..
  with assms(2) show ?thesis unfolding keys_inv_def update_row_sel map_map h set_map by simp
qed

lemma keys_closed: "keys_inv (closed f reason moment w) = keys_inv w"
  by (simp add: keys_inv_def)

lemma keys_insert: "insert_target r w = Some w' \<Longrightarrow> keys_inv w \<Longrightarrow> keys_inv w'"
  by (auto simp: insert_target_def keys_inv_def list_ex_iff split: if_splits) metis+

lemma keys_remove: "keys_inv w \<Longrightarrow> keys_inv (remove_target tid w)"
  by (auto simp: keys_inv_def remove_target_def distinct_map_filter)

lemma keys_map_grants:
  assumes "\<And>g. grant_key (h g) = grant_key g" "keys_inv w"
  shows "keys_inv (w\<lparr>grant_rows := map h (grant_rows w)\<rparr>)"
proof -
  from assms(1) have "g_target (h g) = g_target g" "g_client (h g) = g_client g" for g by (simp_all add: grant_key_def)
  with assms show ?thesis by (auto simp: keys_inv_def comp_def)
qed

lemma keys_revoke: "keys_inv w \<Longrightarrow> keys_inv (snd (revoke_grants P moment w))"
  unfolding revoke_grants_def snd_conv by (rule keys_map_grants) (simp_all add: grant_key_def)

lemma keys_grant:
  assumes "keys_inv w" "findById tid w \<noteq> None" "clientExists client w"
  shows "keys_inv (grant_target tid client moment by readOnly w)"
proof (cases "list_ex (\<lambda>g. g_target g = tid \<and> g_client g = client) (grant_rows w)")
  case True
  then show ?thesis using assms(1) unfolding grant_target_def
    by (simp only: if_True) (rule keys_map_grants, simp_all add: grant_key_def regranted_def)
next
  case False
  obtain r where "r \<in> set (target_rows w)" "t_id r = tid" using assms(2) findById_Some by fastforce
  with False assms(1,3) show ?thesis
    by (auto simp: grant_target_def keys_inv_def grant_key_def clientExists_def list_ex_iff)
qed

lemma keys_effect: "effect req w w' \<Longrightarrow> keys_inv w \<Longrightarrow> keys_inv w'"
proof (induction rule: effect.induct)
  case (eff_update tid c moment who env input w0 w)
  then show ?case unfolding update_target_def by (intro keys_update_row) (simp_all add: keys_closed)
next
  case (eff_enable tid w sf on who moment)
  then show ?case unfolding setEnabled_def by (intro keys_update_row) (simp_all add: keys_closed)
qed (simp_all add: keys_closed keys_insert keys_remove keys_revoke keys_grant revokeGrant_def revokeGrantsForClient_def)

lemma keys_serve: "keys_inv w \<Longrightarrow> keys_inv (serve req w)"
  using serve_effect [of req w] keys_effect keys_inv_core by metis

interpretation targets: invariant_system "\<lambda>w w'. \<exists>req. w' = serve req w" keys_inv
  by unfold_locales (auto intro: keys_serve)

text \<open>
  Whatever the operators and the revoked consents do, in any order, ids and names stay unique, a
  target and a client have at most one grant, and every grant is of a stored target to a registered
  client.
\<close>

theorem store_keys:
  assumes "keys_inv w"
  shows "keys_inv (fold serve reqs w)"
proof -
  have "(\<lambda>w w'. \<exists>req. w' = serve req w)\<^sup>*\<^sup>* w (fold serve reqs w)"
  proof (induction reqs arbitrary: w)
    case (Cons req reqs)
    then show ?case by (metis (mono_tags, lifting) converse_rtranclp_into_rtranclp fold_simps(2))
  qed simp
  then show ?thesis using assms by (rule targets.reachable_inv)
qed

section \<open>Finding a target\<close>

lemma findById_core: "core w = core w' \<Longrightarrow> findById tid w = findById tid w'"
  by (simp add: core_def findById_def)

lemma findById_closed [simp]: "findById tid (closed f reason moment w) = findById tid w"
  by (simp add: findById_def)

lemma findById_update_row:
  assumes "\<And>r. t_id (f r) = t_id r"
  shows "findById tid (update_row t f w) = map_option (\<lambda>r. if tid = t then f r else r) (findById tid w)"
proof -
  have "find (\<lambda>r. t_id r = tid) (map (\<lambda>r. if t_id r = t then f r else r) rs) =
      map_option (\<lambda>r. if tid = t then f r else r) (find (\<lambda>r. t_id r = tid) rs)" for rs
    by (induction rs) (auto simp: assms)
  then show ?thesis by (simp add: findById_def)
qed

lemma findById_insert:
  "insert_target r w = Some w' \<Longrightarrow>
   findById tid w' = (case findById tid w of Some q \<Rightarrow> Some q | None \<Rightarrow> if t_id r = tid then Some r else None)"
proof -
  assume "insert_target r w = Some w'"
  then have "target_rows w' = target_rows w @ [r]" by (auto simp: insert_target_def split: if_splits)
  moreover have "find P (xs @ [x]) = (case find P xs of Some q \<Rightarrow> Some q | None \<Rightarrow> if P x then Some x else None)" for P and x :: TargetRow and xs
    by (induction xs) auto
  ultimately show ?thesis by (simp add: findById_def)
qed

lemma findById_remove: "findById tid (remove_target t w) = (if tid = t then None else findById tid w)"
proof -
  have "find (\<lambda>r. t_id r = tid) (filter (\<lambda>r. t_id r \<noteq> t) rs) = (if tid = t then None else find (\<lambda>r. t_id r = tid) rs)" for rs
    by (induction rs) auto
  from this [of "target_rows w"] show ?thesis by (simp add: findById_def remove_target_def)
qed

lemma findById_grants [simp]:
  "findById tid (grant_target t c moment by readOnly w) = findById tid w"
  "findById tid (snd (revoke_grants P moment w)) = findById tid w"
  by (simp_all add: findById_def grant_target_def revoke_grants_def)

lemmas findById_effects =
  update_target_def setEnabled_def revokeGrant_def revokeGrantsForClient_def findById_update_row findById_remove

section \<open>Revisions\<close>

text \<open>The ids the requests create targets under.\<close>

fun created_id :: "TargetRequest \<Rightarrow> string option" where
  "created_id (CreateTarget _ _ _ tid _ _) = Some tid"
| "created_id _ = None"

text \<open>What may have become of a target: gone, as it was, or of a later revision.\<close>

definition later_row :: "TargetRow option \<Rightarrow> TargetRow \<Rightarrow> bool" where
  "later_row found r \<longleftrightarrow> (case found of None \<Rightarrow> True | Some r' \<Rightarrow> r' = r \<or> t_revision r < t_revision r')"

lemma effect_later: "effect req w w' \<Longrightarrow> findById tid w = Some r \<Longrightarrow> later_row (findById tid w') r"
  by (induction rule: effect.induct) (auto simp: findById_insert findById_effects later_row_def)

lemma effect_gone: "effect req w w' \<Longrightarrow> findById tid w = None \<Longrightarrow> created_id req \<noteq> Some tid \<Longrightarrow> findById tid w' = None"
  by (induction rule: effect.induct) (auto simp: findById_insert findById_effects)

lemma serve_later:
  "findById tid w = Some r \<Longrightarrow> later_row (findById tid (serve req w)) r"
  "findById tid w = None \<Longrightarrow> created_id req \<noteq> Some tid \<Longrightarrow> findById tid (serve req w) = None"
  using serve_effect [of req w] effect_later effect_gone findById_core by metis+

lemma later_trans: "later_row found r \<Longrightarrow> found = Some q \<Longrightarrow> later_row found' q \<Longrightarrow> later_row found' r"
  by (auto simp: later_row_def split: option.splits)

text \<open>
  A revision names a target's contents (ACT-1): a target found again after any requests, none of
  which creates a target under its id, either is the very row it was or has a greater revision.
\<close>

theorem revision_names_contents:
  assumes "findById tid w = Some r" "findById tid (fold serve reqs w) = Some r'" "Some tid \<notin> created_id ` set reqs"
  shows "r' = r \<or> t_revision r < t_revision r'"
proof -
  have "later_row (findById tid (fold serve reqs w)) r" if "later_row (findById tid w) r" for w
    using that assms(3)
  proof (induction reqs arbitrary: w)
    case (Cons req reqs)
    have "later_row (findById tid (serve req w)) r"
    proof (cases "findById tid w")
      case None
      then have "findById tid (serve req w) = None" using Cons.prems(2) by (intro serve_later(2)) auto
      then show ?thesis by (simp add: later_row_def)
    next
      case (Some q)
      then show ?thesis using later_trans [OF Cons.prems(1)] serve_later(1) by blast
    qed
    then show ?case using Cons by simp
  qed simp
  from this [of w] assms(1,2) show ?thesis by (simp add: later_row_def)
qed

section \<open>Grants\<close>

text \<open>The specification: who may use a target, and whether to read only.\<close>

type_synonym Access = "string \<times> string \<Rightarrow> bool option"

definition access :: "TargetStore \<Rightarrow> Access" where
  "access w = (\<lambda>(t, c). if isGranted t c w then Some (isReadOnly t c w) else None)"

fun access_after :: "TargetRequest \<Rightarrow> TargetStore \<Rightarrow> Access \<Rightarrow> Access" where
  "access_after (GrantTarget _ t c readOnly _ _) w m =
     (if findById t w \<noteq> None \<and> clientExists c w
      then m((t, c) \<mapsto> (case m (t, c) of Some strict \<Rightarrow> strict \<or> readOnly | None \<Rightarrow> readOnly)) else m)"
| "access_after (RevokeGrant _ t c _ _) w m = (if findById t w \<noteq> None then m((t, c) := None) else m)"
| "access_after (RemoveTarget t _ _) w m = (\<lambda>(t', c). if t' = t then None else m (t', c))"
| "access_after (ConsentRevoked c _) w m = (\<lambda>(t, c'). if c' = c then None else m (t, c'))"
| "access_after _ w m = m"

lemma access_grants:
  "access w (t, c) =
   (if \<exists>g \<in> set (grant_rows w). grant_key g = (t, c) \<and> active g
    then Some (\<exists>g \<in> set (grant_rows w). grant_key g = (t, c) \<and> active g \<and> g_readOnly g) else None)"
  by (auto simp: access_def isGranted_def isReadOnly_def list_ex_iff grant_key_def)

lemma access_cong: "grant_rows w = grant_rows w' \<Longrightarrow> access w = access w'"
  by (simp add: fun_eq_iff access_grants)

lemma access_core: "core w = core w' \<Longrightarrow> access w = access w'"
  by (rule access_cong) (simp add: core_def)

lemma bex_map: "(\<exists>g \<in> set (map h gs). P g) \<longleftrightarrow> (\<exists>g \<in> set gs. P (h g))"
  by auto

lemma access_revoke:
  "access (snd (revoke_grants P moment w)) (t, c) =
   (if \<exists>g \<in> set (grant_rows w). grant_key g = (t, c) \<and> active g \<and> \<not> P g
    then Some (\<exists>g \<in> set (grant_rows w). grant_key g = (t, c) \<and> active g \<and> \<not> P g \<and> g_readOnly g) else None)"
proof -
  let ?h = "\<lambda>g. if P g \<and> active g then g\<lparr>g_revokedAt := Some moment\<rparr> else g"
  have rows: "grant_rows (snd (revoke_grants P moment w)) = map ?h (grant_rows w)" by (simp add: revoke_grants_def)
  have "grant_key (?h g) = grant_key g" "active (?h g) \<longleftrightarrow> active g \<and> \<not> P g" "g_readOnly (?h g) = g_readOnly g" for g
    by (auto simp: grant_key_def active_def)
  then show ?thesis unfolding access_grants rows bex_map by (simp only: conj_assoc)
qed

lemma access_revoke_keys:
  assumes "\<And>g. P g \<longleftrightarrow> Q (grant_key g)"
  shows "access (snd (revoke_grants P moment w)) k = (if Q k then None else access w k)"
proof -
  obtain t c where k: "k = (t, c)" by (cases k)
  show ?thesis unfolding k access_revoke access_grants [of w] assms by auto
qed

lemma access_grant:
  assumes "keys_inv w"
  shows "access (grant_target t c moment who readOnly w) =
    (access w)((t, c) \<mapsto> (case access w (t, c) of Some strict \<Rightarrow> strict \<or> readOnly | None \<Rightarrow> readOnly))"
proof (cases "\<exists>g \<in> set (grant_rows w). grant_key g = (t, c)")
  case False
  then have "\<not> list_ex (\<lambda>g. g_target g = t \<and> g_client g = c) (grant_rows w)" by (auto simp: list_ex_iff grant_key_def)
  then have rows: "grant_rows (grant_target t c moment who readOnly w) = grant_rows w @
      [\<lparr>g_target = t, g_client = c, g_grantedAt = moment, g_grantedBy = who, g_revokedAt = None, g_readOnly = readOnly\<rparr>]"
    by (simp add: grant_target_def)
  show ?thesis
    using False by (auto simp: fun_eq_iff access_grants rows grant_key_def active_def)
next
  case True
  then obtain g where g: "g \<in> set (grant_rows w)" "grant_key g = (t, c)" by blast
  have "distinct (map grant_key (grant_rows w))" using assms by (simp add: keys_inv_def)
  then have only: "g' \<in> set (grant_rows w) \<and> grant_key g' = (t, c) \<longleftrightarrow> g' = g" for g'
    using g by (auto simp: distinct_map inj_on_def)
  let ?h = "\<lambda>g. if grant_key g = (t, c) then regranted moment who readOnly g else g"
  have "list_ex (\<lambda>g. g_target g = t \<and> g_client g = c) (grant_rows w)" using g by (auto simp: list_ex_iff grant_key_def)
  then have rows: "grant_rows (grant_target t c moment who readOnly w) = map ?h (grant_rows w)"
    by (simp add: grant_target_def grant_key_def)
  have key: "grant_key (?h g') = grant_key g'" for g' by (simp add: grant_key_def regranted_def)
  have "access (grant_target t c moment who readOnly w) (t', c') = access w (t', c')" if "(t', c') \<noteq> (t, c)" for t' c'
  proof -
    have "grant_key (?h g') = (t', c') \<and> active (?h g') \<longleftrightarrow> grant_key g' = (t', c') \<and> active g'"
      "grant_key (?h g') = (t', c') \<and> active (?h g') \<and> g_readOnly (?h g') \<longleftrightarrow>
       grant_key g' = (t', c') \<and> active g' \<and> g_readOnly g'" for g'
      unfolding key using that by auto
    then show ?thesis unfolding access_grants rows bex_map by (simp only:)
  qed
  moreover have "access (grant_target t c moment who readOnly w) (t, c) =
      Some (if active g then g_readOnly g \<or> readOnly else readOnly)"
  proof -
    have *: "(\<exists>g' \<in> set (grant_rows w). grant_key (?h g') = (t, c) \<and> Q (?h g')) \<longleftrightarrow> Q (?h g)" for Q
      unfolding key Bex_def by (metis only)
    have "active (?h g)" "g_readOnly (?h g) = (if active g then g_readOnly g \<or> readOnly else readOnly)"
      using g(2) by (auto simp: active_def regranted_def)
    then show ?thesis
      unfolding access_grants rows bex_map using * [of active] * [of "\<lambda>g. active g \<and> g_readOnly g"] by (simp only:) simp
  qed
  moreover have "access w (t, c) = (if active g then Some (g_readOnly g) else None)"
  proof -
    have "(\<exists>g' \<in> set (grant_rows w). grant_key g' = (t, c) \<and> Q g') \<longleftrightarrow> Q g" for Q
      unfolding Bex_def by (metis only)
    then show ?thesis unfolding access_grants by (simp only:) simp
  qed
  ultimately show ?thesis by (auto simp: fun_eq_iff)
qed

lemma grantTarget_core:
  "core (snd (grantTarget sf tid client readOnly who moment w)) =
   core (if findById tid w \<noteq> None \<and> clientExists client w then grant_target tid client moment who readOnly w else w)"
  by (auto simp: grantTarget_def Let_def split: option.split)

lemma revokeTargetGrant_core:
  "core (snd (revokeTargetGrant sf tid client who moment w)) =
   core (if findById tid w \<noteq> None then closed (OfClient client) by_revoked moment (snd (revokeGrant tid client moment w)) else w)"
  by (auto simp: revokeTargetGrant_def closed_def Let_def case_prod_beta split: option.split)

lemma removeTarget_core:
  "core (snd (removeTarget tid who moment w)) =
   core (if findById tid w \<noteq> None then remove_target tid (closed (OnTarget tid) by_target_changed moment w) else w)"
  by (auto simp: removeTarget_def case_prod_beta simp flip: closed_def split: option.split)

lemma onConsentRevoked_core:
  "core (snd (onConsentRevoked client moment w)) =
   core (closed (OfClient client) by_revoked moment (snd (revokeGrantsForClient client moment w)))"
  by (simp add: onConsentRevoked_def closed_def case_prod_beta)

lemmas request_cores = grantTarget_core revokeTargetGrant_core removeTarget_core onConsentRevoked_core

lemma access_closed [simp]: "access (closed f reason moment w) = access w"
  by (rule access_cong) simp

lemma access_remove: "access (remove_target tid w) (t, c) = (if t = tid then None else access w (t, c))"
  unfolding access_grants by (auto simp: remove_target_def grant_key_def)

inductive_cases effect_createE: "effect (CreateTarget env shape w0 tid by moment) w w'"
inductive_cases effect_updateE: "effect (UpdateTarget env tid input w0 by moment) w w'"
inductive_cases effect_enableE: "effect (EnableTarget sf tid on by moment) w w'"
inductive_cases effect_closeE: "effect (CloseSessions sf tid by moment) w w'"

lemma grants_kept:
  "effect (CreateTarget env shape w0 tid by moment) w w' \<Longrightarrow> grant_rows w' = grant_rows w"
  "effect (UpdateTarget env tid input w0 by moment) w w' \<Longrightarrow> grant_rows w' = grant_rows w"
  "effect (EnableTarget sf tid on by moment) w w' \<Longrightarrow> grant_rows w' = grant_rows w"
  "effect (CloseSessions sf tid by moment) w w' \<Longrightarrow> grant_rows w' = grant_rows w"
  by (auto elim!: effect_createE effect_updateE effect_enableE effect_closeE
      simp: insert_target_def update_target_def setEnabled_def split: if_splits)

lemma access_kept:
  "access (serve (CreateTarget env shape w0 tid by moment) w) = access w"
  "access (serve (UpdateTarget env tid input w0 by moment) w) = access w"
  "access (serve (EnableTarget sf tid on by moment) w) = access w"
  "access (serve (CloseSessions sf tid by moment) w) = access w"
  using serve_effect grants_kept access_core access_cong by metis+

lemma no_grant_unknown: "keys_inv w \<Longrightarrow> findById t w = None \<Longrightarrow> access w (t, c) = None"
  unfolding access_grants findById_def find_None_iff by (fastforce simp: keys_inv_def grant_key_def)

text \<open>
  C8: The grants implement a map from a target and a client to the read-only switch: a grant keeps the
  stricter switch of an active one, a revocation, a removed target or a revoked consent takes exactly
  its own entries away, and nothing else an operator does changes who may use what.
\<close>

theorem access_refines:
  assumes "keys_inv w"
  shows "access (serve req w) = access_after req w (access w)"
proof (cases req)
  case (GrantTarget sf t c readOnly who moment)
  then show ?thesis
    using access_grant [OF assms] access_core [OF grantTarget_core [of sf t c readOnly who moment w]] by (auto split: if_splits)
next
  case (RevokeGrant sf t c who moment)
  have "access (snd (revokeGrant t c moment w)) = (access w)((t, c) := None)"
    unfolding revokeGrant_def fun_eq_iff
    by (subst access_revoke_keys [where Q = "\<lambda>k. k = (t, c)"]) (auto simp: grant_key_def)
  then show ?thesis
    using access_core [OF revokeTargetGrant_core [of sf t c who moment w]] RevokeGrant by (auto split: if_splits)
next
  case (RemoveTarget t who moment)
  then show ?thesis
    using access_core [OF removeTarget_core [of t who moment w]] no_grant_unknown [OF assms]
    by (auto simp: fun_eq_iff access_remove split: if_splits)
next
  case (ConsentRevoked c moment)
  have "access (snd (revokeGrantsForClient c moment w)) = (\<lambda>(t, c'). if c' = c then None else access w (t, c'))"
    unfolding revokeGrantsForClient_def fun_eq_iff
    by (subst access_revoke_keys [where Q = "\<lambda>k. snd k = c"]) (auto simp: grant_key_def)
  then show ?thesis using access_core [OF onConsentRevoked_core [of c moment w]] ConsentRevoked by simp
qed (simp_all only: access_kept access_after.simps)

section \<open>Open sessions\<close>

lemma closed_open: "s \<in> set (session_rows (closed f reason moment w)) \<Longrightarrow> sess_closed s = None \<Longrightarrow> \<not> session_in f s"
  by (auto simp: closed_def closeSessions_def split: if_splits)

lemma session_rows_kept [simp]:
  "session_rows (remove_target tid w) = session_rows w" "session_rows (snd (revoke_grants P moment w)) = session_rows w"
  "session_rows (grant_target t c moment by readOnly w) = session_rows w"
  by (simp_all add: remove_target_def revoke_grants_def grant_target_def)

definition same_contents :: "TargetRow \<Rightarrow> TargetRow option \<Rightarrow> bool" where
  "same_contents r found \<longleftrightarrow>
     (case found of
        None \<Rightarrow> False
      | Some r' \<Rightarrow> TargetChanges.truncate r' = TargetChanges.truncate r \<and> (t_enabled r \<longrightarrow> t_enabled r'))"

lemma truncate_enabled [simp]: "TargetChanges.truncate (t_enabled_update f r) = TargetChanges.truncate r"
  by (simp add: TargetChanges.truncate_def)

lemma effect_session_target:
  "effect req w w' \<Longrightarrow> s \<in> set (session_rows w') \<Longrightarrow> sess_closed s = None \<Longrightarrow> findById (sess_target s) w = Some r \<Longrightarrow>
   same_contents r (findById (sess_target s) w')"
proof (induction rule: effect.induct)
  case (eff_update env tid input w0 who moment w c)
  then have "sess_target s \<noteq> tid" using closed_open by (fastforce simp: update_target_def)
  with eff_update show ?case by (simp add: findById_effects same_contents_def)
next
  case (eff_enable tid w sf on who moment)
  then have "sess_target s \<noteq> tid \<or> on" using closed_open by (cases on) (fastforce simp: setEnabled_def)+
  with eff_enable show ?case by (auto simp: findById_effects same_contents_def split: if_splits)
next
  case (eff_remove tid w who moment)
  then have "sess_target s \<noteq> tid" using closed_open by fastforce
  with eff_remove show ?case by (simp add: findById_effects same_contents_def)
qed (auto simp: findById_insert findById_effects same_contents_def)

lemma effect_session_grant:
  "effect req w w' \<Longrightarrow> s \<in> set (session_rows w') \<Longrightarrow> sess_closed s = None \<Longrightarrow> access w (sess_target s, sess_client s) \<noteq> None \<Longrightarrow>
   keys_inv w \<Longrightarrow> access w' (sess_target s, sess_client s) \<noteq> None"
proof (induction rule: effect.induct)
  case (eff_remove tid w who moment)
  then have "sess_target s \<noteq> tid" using closed_open by fastforce
  with eff_remove show ?case by (simp add: access_remove)
next
  case (eff_grant tid w client sf readOnly who moment)
  then show ?case by (simp add: access_grant)
next
  case (eff_revoke tid w sf client who moment)
  then have "sess_client s \<noteq> client" using closed_open by fastforce
  with eff_revoke show ?case
    unfolding revokeGrant_def by (simp add: access_revoke_keys [where Q = "\<lambda>k. k = (tid, client)"] grant_key_def)
next
  case (eff_consent client moment w)
  then have "sess_client s \<noteq> client" using closed_open by fastforce
  with eff_consent show ?case
    unfolding revokeGrantsForClient_def by (simp add: access_revoke_keys [where Q = "\<lambda>k. snd k = client"] grant_key_def)
qed (auto simp: insert_target_def update_target_def setEnabled_def access_grants split: if_splits)

text \<open>
  A session still open after a request is one the request did not concern (ACT-8, ACT-10, ACT-96):
  its target is still stored with the same documents and not newly disabled, and a client that could
  use the target still can.
\<close>

theorem open_sessions_unaffected:
  assumes "keys_inv w" "s \<in> set (session_rows (serve req w))" "sess_closed s = None"
    "findById (sess_target s) w = Some r" "access w (sess_target s, sess_client s) \<noteq> None"
  shows "same_contents r (findById (sess_target s) (serve req w)) \<and>
    access (serve req w) (sess_target s, sess_client s) \<noteq> None"
proof -
  obtain w' where w': "effect req w w'" and c: "core (serve req w) = core w'" using serve_effect by blast
  then have s: "s \<in> set (session_rows w')" using assms(2) by (simp add: core_def)
  show ?thesis
    using effect_session_target [OF w' s assms(3,4)] effect_session_grant [OF w' s assms(3,5,1)]
    unfolding findById_core [OF c] access_core [OF c] ..
qed

section \<open>What a save has checked\<close>

lemma endpointReport_ok:
  "rep_problems (endpointReport isInternal lookup (place, endpoint)) = [] \<longleftrightarrow>
   (endpoint_tls endpoint \<or> isInternal) \<and> (\<exists>pinned. pinEndpoint endpoint isInternal lookup = Inr pinned)"
  by (auto simp: endpointReport_def Let_def split: sum.splits)

lemma fieldReport_ok:
  "rep_problem (fieldReport item f) = None \<longleftrightarrow>
   (\<exists>selector. parseFieldSelector (cf_selector f) = Some selector \<and> isFieldPresent item selector)"
  by (auto simp: fieldReport_def split: option.splits)

lemma map_filter_empty: "List.map_filter f xs = [] \<longleftrightarrow> (\<forall>x \<in> set xs. f x = None)"
  by (induction xs) (auto simp: List.map_filter_def)

lemma credentialProblems_ok:
  "credentialProblems (credentialReport env itemId mapped) = [] \<longleftrightarrow>
   (\<exists>item. vault_getItem env itemId = Inr item \<and>
      (\<forall>f \<in> set mapped. \<exists>selector. parseFieldSelector (cf_selector f) = Some selector \<and> isFieldPresent item selector))"
  by (auto simp: credentialReport_def credentialProblems_def map_filter_empty fieldReport_ok split: sum.splits)

text \<open>
  A target can be saved exactly when its documents parse, no rule of the connector or of the
  command patterns speaks against it, every host it names resolves to addresses the target may use
  over TLS unless the target is internal, and the vault item has every mapped field.
\<close>

theorem prepareChanges_iff:
  "prepareChanges env kind (ok c) = ok c' \<longleftrightarrow>
   c' = c \<and>
   (\<exists>documents schemas item.
      parseTargetDocuments (schemas_for env) kind (t_destination c) (t_mapping c) (t_policy c) = ok (documents, schemas) \<and>
      saveProblems schemas documents = [] \<and> commandProblems (t_policy c) (check_allowAnyCommand env) = [] \<and>
      (t_internal c \<longrightarrow> internalRefused schemas = None) \<and>
      (\<forall>(place, endpoint) \<in> set (namedHosts schemas documents).
         (endpoint_tls endpoint \<or> t_internal c) \<and> (\<exists>pinned. pinEndpoint endpoint (t_internal c) (resolver env) = ok pinned)) \<and>
      vault_getItem env (t_item_id c) = ok item \<and>
      (\<forall>f \<in> set (credentialFields schemas (doc_credential documents)).
         \<exists>selector. parseFieldSelector (cf_selector f) = Some selector \<and> isFieldPresent item selector))"
proof (cases "parseTargetDocuments (schemas_for env) kind (t_destination c) (t_mapping c) (t_policy c)")
  case (Inl problems)
  then show ?thesis by (simp add: prepareChanges_def inspect_def ok_def fail_def)
next
  case (Inr x)
  obtain documents schemas where x: "x = (documents, schemas)" by (cases x)
  have hosts: "concat (map rep_problems (endpointReports env schemas documents (t_internal c))) = [] \<longleftrightarrow>
      (\<forall>(place, endpoint) \<in> set (namedHosts schemas documents).
         (endpoint_tls endpoint \<or> t_internal c) \<and> (\<exists>pinned. pinEndpoint endpoint (t_internal c) (resolver env) = Inr pinned))"
    unfolding endpointReports_def by (auto simp: endpointReport_ok)
  show ?thesis
    using hosts credentialProblems_ok [of env "t_item_id c" "credentialFields schemas (doc_credential documents)"]
    by (auto simp: prepareChanges_def inspect_def inspect_documents_def Inr x ok_def fail_def Let_def simp del: concat_eq_Nil_conv
        split: if_splits option.splits)
qed

text \<open>
  An update that waited for its checks tells the observer of the row it looked up before it waited: a
  target disabled meanwhile is stored disabled and reported enabled.
\<close>

lemma update_reports_stale_row:
  assumes "findById tid looked_up = Some before" "findById tid w = Some r"
    "prepareChanges env (t_connector before) input = ok changes" "changedFields before changes \<noteq> []"
    and w': "w' = serve (UpdateTarget env tid input looked_up who moment) w"
  shows "\<exists>seen stored docs. last (notices w') = Saved seen docs \<and> findById tid w' = Some stored \<and>
    t_enabled seen = t_enabled before \<and> t_enabled stored = t_enabled r"
proof -
  have "findById tid (notify n w) = findById tid w" "findById tid (recordTargetEvent e w) = findById tid w" for n e w
    by (simp_all add: findById_def notify_def recordTargetEvent_def)
  moreover have "last (notices (notify n w)) = n" for n w by (simp add: notify_def)
  ultimately show ?thesis
    using assms(1-4) unfolding w'
    by (simp add: updateTarget_def ok_def case_prod_beta Let_def findById_effects flip: closed_def)
qed

section \<open>A store, and requests on it\<close>

definition sample_common :: CommonPolicy where
  "sample_common = \<lparr>timeout_ms = 30000, max_output_bytes = 4096, rate_limit_per_minute = 60\<rparr>"

definition sample_schemas :: ConnectorSchemas where
  "sample_schemas =
     \<lparr>destinationSchema = ok, credentialSchema = ok, policySchema = (\<lambda>p. ok (p, sample_common)),
      schema_endpoints = (\<lambda>_. [\<lparr>endpoint_host = ''8.8.8.8'', endpoint_tls = True\<rparr>]), credentialEndpoints = (\<lambda>_. []),
      credentialFields = (\<lambda>_. [\<lparr>cf_name = ''token'', cf_selector = ''password'', cf_is_username = False\<rparr>]),
      saveProblems = (\<lambda>_. []), basicUsername = (\<lambda>_. None), summariseDestination = (\<lambda>_. ''8.8.8.8''),
      allowsNonRead = (\<lambda>_. False), internalRefused = None\<rparr>"

definition sample_item :: ItemSummary where
  "sample_item =
     \<lparr>item_id = ''i'', item_name = ''item'', item_type = LoginItem, item_folderId = None, item_organizationId = None,
      item_collectionIds = [], item_favorite = False, item_revisionDate = [], item_deletedDate = None,
      item_login = Some \<lparr>login_username = None, login_uris = [], hasPassword = True, hasTotp = False\<rparr>,
      hasNotes = False, customFields = []\<rparr>"

definition sample_env :: CheckEnv where
  "sample_env =
     \<lparr>schemas_for = (\<lambda>_. Some sample_schemas), vault_getItem = (\<lambda>_. ok sample_item), resolver = (\<lambda>_. None),
      check_allowAnyCommand = False\<rparr>"

definition sample_changes :: TargetChanges where
  "sample_changes =
     \<lparr>t_description = ''d'', t_destination = JNull, t_internal = False, t_item_id = ''i'', t_mapping = JNull,
      t_policy = JObject []\<rparr>"

definition sample_row :: TargetRow where
  "sample_row =
     \<lparr>t_description = ''d'', t_destination = JNull, t_internal = False, t_item_id = ''i'', t_mapping = JNull,
      t_policy = JObject [], t_id = ''t'', t_name = ''api'', t_connector = KHttp, t_enabled = True, t_revision = 3,
      t_createdAt = 0, t_updatedAt = 0, t_updatedBy = ''op''\<rparr>"

definition sample_session :: SessionRow where
  "sample_session = \<lparr>sess_hash = ''h'', sess_target = ''t'', sess_client = ''c'', sess_closed = None\<rparr>"

definition sample_store :: TargetStore where
  "sample_store =
     \<lparr>target_rows = [sample_row],
      grant_rows = [\<lparr>g_target = ''t'', g_client = ''c'', g_grantedAt = 0, g_grantedBy = ''op'', g_revokedAt = None, g_readOnly = True\<rparr>],
      session_rows = [sample_session], client_ids = [''c'', ''d''], target_events = [], notices = []\<rparr>"

lemma sample_keys: "keys_inv sample_store"
  by (simp add: keys_inv_def sample_store_def sample_row_def grant_key_def)

lemma sample_find: "findById ''t'' sample_store = Some sample_row"
  by (simp add: findById_def sample_store_def sample_row_def)

lemma sample_access: "access sample_store (''t'', ''c'') = Some True"
  by (simp add: access_grants sample_store_def grant_key_def active_def)

theorem store_keys_witness:
  "keys_inv (fold serve [GrantTarget Map.empty ''t'' ''d'' False ''op'' 5, RemoveTarget ''t'' ''op'' 6] sample_store)"
  by (rule store_keys [OF sample_keys])

theorem revision_names_contents_witness:
  "\<exists>r'. findById ''t'' (fold serve [EnableTarget Map.empty ''t'' False ''op'' 5] sample_store) = Some r' \<and>
     (r' = sample_row \<or> t_revision sample_row < t_revision r')"
proof -
  have "findById ''t'' (fold serve [EnableTarget Map.empty ''t'' False ''op'' 5] sample_store) =
      Some (bumped sample_row (t_enabled_update (\<lambda>_. False)) 5 ''op'')"
    by (simp add: setTargetEnabled_def sample_find Let_def case_prod_beta flip: closed_def)
      (simp add: findById_def setEnabled_def sample_store_def sample_row_def notify_def recordTargetEvent_def)
  with revision_names_contents [OF sample_find this] show ?thesis by simp
qed

theorem access_refines_witness:
  "access (serve (GrantTarget Map.empty ''t'' ''c'' False ''op'' 5) sample_store) (''t'', ''c'') = Some True"
  using access_refines [OF sample_keys, of "GrantTarget Map.empty ''t'' ''c'' False ''op'' 5"]
  by (simp add: sample_find sample_access clientExists_def)

theorem open_sessions_unaffected_witness:
  "same_contents sample_row (findById ''t'' (serve (ConsentRevoked ''d'' 9) sample_store))"
proof -
  have "sample_session \<in> set (session_rows (serve (ConsentRevoked ''d'' 9) sample_store))"
    by (simp add: onConsentRevoked_def revokeGrantsForClient_def revoke_grants_def closeSessions_def sample_store_def sample_session_def)
  from open_sessions_unaffected [OF sample_keys this, of sample_row] show ?thesis
    by (simp add: sample_find sample_access sample_session_def)
qed

theorem prepareChanges_iff_witness:
  "prepareChanges sample_env KHttp (ok sample_changes) = ok sample_changes"
proof -
  let ?docs = "\<lparr>doc_destination = JNull, doc_credential = JNull, doc_policy = JObject [], doc_common = sample_common\<rparr>"
  have p: "parse_v4 ''8.8.8.8'' = Some (octets 8 8 8 8)"
    by (simp add: parse_v4_def v4_segment_def all_some_def digits_value_def hex_value_def is_digit_def char_code_def)
  then have "isIP ''8.8.8.8''" by (simp add: isIP_def address_bits_def)
  then have addresses: "addresses_of \<lparr>endpoint_host = ''8.8.8.8'', endpoint_tls = True\<rparr> (\<lambda>_. None) = [''8.8.8.8'']"
    by (simp add: addresses_of_def literalAddress_def)
  have "classifyAddress ''8.8.8.8'' = PublicAddress" using classify_plain_v4 [OF p] by (simp add: v4_class_def)
  then have pinned: "\<exists>pinned. pinEndpoint \<lparr>endpoint_host = ''8.8.8.8'', endpoint_tls = True\<rparr> False (\<lambda>_. None) = ok pinned"
    unfolding pinned_addresses addresses by simp
  have "\<exists>selector. parseFieldSelector ''password'' = Some selector \<and> isFieldPresent sample_item selector"
    by (simp add: parseFieldSelector_def USERNAME_SELECTOR_def parseSecretField_def fixed_field_def FIXED_FIELDS_def
        sample_item_def isLoginFieldPresent_def)
  with pinned show ?thesis
    unfolding prepareChanges_iff
    by (intro conjI exI [of _ ?docs] exI [of _ sample_schemas] exI [of _ sample_item])
      (simp_all add: sample_env_def sample_changes_def sample_schemas_def parseTargetDocuments_def namedHosts_def
        commandProblems_def parse_commands_def allowed_commands_of_def any_command_of_def property_of_def
        commandPatternProblem_def ok_def)
qed

end
