(* ===== verification/EngineResolve.thy ===== *)
theory EngineResolve
  imports TargetsRepo Secrets RateLimit
begin

text \<open>
  What the engine knows of a connector's runtime (\<^verbatim>\<open>src/actions/connectors/connector.ts\<close>,
  \<^verbatim>\<open>context.ts\<close>, \<^verbatim>\<open>output.ts\<close>, \<^verbatim>\<open>tool.ts\<close>, \<^verbatim>\<open>registry.ts\<close>), the first half of ACT-16
  (\<^verbatim>\<open>src/actions/engine-resolve.ts\<close>) and the listing of targets (\<^verbatim>\<open>src/actions/engine-listing.ts\<close>).

  A run is a script: what the connector asks of the engine's support, one request at a time with the
  answer it gets, until it finishes, throws, or stays silent. The code behind a script is the
  connector's own.
\<close>

section \<open>Connectors\<close>

type_synonym Arguments = "(string \<times> value_tree) list"

record ConnectorOutput =
  out_result :: Arguments
  out_captured :: "(string \<times> bytes) list"
  out_base64 :: "string list"
  out_bytes :: "nat option"

record OperationRequest =
  req_documents :: TargetDocuments
  req_tool :: string

record CallTarget =
  ct_id :: string
  ct_name :: string
  ct_revision :: nat

record RunContext =
  run_documents :: TargetDocuments
  run_tool :: string
  run_username :: "string option"
  run_target :: CallTarget
  run_pinned :: "PinnedEndpoint list"
  run_maxBytes :: nat

text \<open>A request names the context it is made on: the first, where a call has one target.\<close>

datatype RunScript =
    Finish "(ConnectorOutput, ActionError) result"
  | ThrowMessage string
  | Silent
  | Capture nat InjectedEntry RunScript
  | ReadValue nat string "string option \<Rightarrow> RunScript"
  | ReadGuard "nat \<Rightarrow> RunScript"
  | ScrubText nat string "string \<Rightarrow> RunScript"
  | ResolveHost nat Endpoint "(PinnedEndpoint, ActionError) result \<Rightarrow> RunScript"
  | RotateField nat string string "(unit, ActionError) result \<Rightarrow> RunScript"

record RepoArgument =
  repo_max :: nat
  repo_singleOnly :: "string list"

record ConnectorTool =
  tool_name :: string
  tool_scope :: scope
  tool_input :: "Arguments \<Rightarrow> value_tree Parsed"
  tool_repo :: "RepoArgument option"

record TargetCapabilities =
  cap_operations :: "(OperationKind \<times> scope) list"
  cap_engine :: "string option"
  cap_unrestricted :: bool
  cap_code :: "(string \<times> string option \<times> string list \<times> bool) option"

record Connector =
  conn_kind :: ConnectorKind
  conn_tools :: "ConnectorTool list"
  conn_capabilities :: "json \<Rightarrow> json \<Rightarrow> TargetCapabilities"
  conn_authorize :: "OperationRequest \<Rightarrow> value_tree \<Rightarrow> PolicyDecision"
  conn_describe :: "OperationRequest \<Rightarrow> value_tree \<Rightarrow> string"
  conn_run :: "RunContext \<Rightarrow> value_tree \<Rightarrow> RunScript"
  conn_runMany :: "(RunContext list \<Rightarrow> value_tree \<Rightarrow> RunScript) option"
  conn_authorizeMany :: "(OperationRequest list \<Rightarrow> value_tree \<Rightarrow> PolicyDecision) option"

text \<open>\<^verbatim>\<open>byKind\<close> and \<^verbatim>\<open>byTool\<close> are maps filled in order, so the last of a key is the one found.\<close>

type_synonym Registry = "Connector list"

definition registry_get :: "Registry \<Rightarrow> ConnectorKind \<Rightarrow> Connector option" where
  "registry_get registry kind = find (\<lambda>c. conn_kind c = kind) (rev registry)"

definition forTool :: "Registry \<Rightarrow> string \<Rightarrow> Connector option" where
  "forTool registry tool = find (\<lambda>c. list_ex (\<lambda>t. tool_name t = tool) (conn_tools c)) (rev registry)"

section \<open>Resolution\<close>

record Caller =
  caller_client :: string
  caller_name :: string
  caller_prefix :: string
  caller_scopes :: "scope list"
  caller_request :: string
  caller_ip :: string

record Invocation =
  inv_tool :: string
  inv_target :: string
  inv_arguments :: Arguments
  inv_targets :: "string list option"

record ResolveEnv =
  layer_enabled :: bool
  switches :: "ConnectorKind \<Rightarrow> bool"
  registry :: Registry
  known_schemas :: SchemasFor
  is_available :: "ConnectorKind \<Rightarrow> bool"

record ResolvedCall =
  rc_row :: TargetRow
  rc_documents :: TargetDocuments
  rc_schemas :: ConnectorSchemas
  rc_connector :: Connector
  rc_tool :: ConnectorTool
  rc_operation :: value_tree
  rc_decided :: OperationKind
  rc_description :: string

record Attempt =
  att_description :: "string option"
  att_call :: "(ResolvedCall, ActionError) result"

record Resolution = Attempt +
  res_row :: "TargetRow option"

definition refused :: "ActionError \<Rightarrow> Attempt" where
  "refused e = \<lparr>att_description = None, att_call = fail e\<rparr>"

text \<open>\<^verbatim>\<open>parts.join(separator)\<close>.\<close>

fun join_text :: "string \<Rightarrow> string list \<Rightarrow> string" where
  "join_text separator [] = []"
| "join_text separator [x] = x"
| "join_text separator (x # y # ys) = x @ separator @ join_text separator (y # ys)"

definition operation_problem :: "ZodIssue \<Rightarrow> string" where
  "operation_problem issue =
     (let place = join_with (CHR ''.'') (issue_path issue)
      in (if place = [] then ''(root)'' else place) @ '': '' @ issue_message issue)"

definition policy_denied_error :: "PolicyReason \<Rightarrow> ActionError" where
  "policy_denied_error reason = action_error policy_denied [(''reason'', DReason reason)]"

definition grant_read_only :: ActionError where
  "grant_read_only = action_error policy_denied [(''reason'', DText ''grant_read_only'')]"

definition resolveOperation ::
  "scope list \<Rightarrow> Invocation \<Rightarrow> TargetRow \<Rightarrow> TargetDocuments \<Rightarrow> ConnectorSchemas \<Rightarrow> Connector \<Rightarrow> Attempt" where
  "resolveOperation scopes ivk r documents schemas connector =
     (case find (\<lambda>t. tool_name t = inv_tool ivk) (conn_tools connector) of
        None \<Rightarrow> refused (action_error invalid_arguments [(''problem'', DText ''the tool does not apply to this target'')])
      | Some t \<Rightarrow>
        (if tool_scope t \<notin> set scopes then refused (action_error insufficient_scope [(''scope'', DText (tool_scope t))])
         else
          (case tool_input t (filter (\<lambda>(k, v). k \<noteq> ''target'') (inv_arguments ivk)) of
             Inl found \<Rightarrow>
               refused (action_error invalid_arguments [(''problems'', DText (join_text ''; '' (map operation_problem found)))])
           | Inr operation \<Rightarrow>
             (let request = \<lparr>req_documents = documents, req_tool = tool_name t\<rparr>;
                  description = conn_describe connector request operation
              in \<lparr>att_description = Some description,
                  att_call =
                    (case conn_authorize connector request operation of
                       Denied reason \<Rightarrow> fail (policy_denied_error reason)
                     | Allowed kind _ \<Rightarrow>
                         ok \<lparr>rc_row = r, rc_documents = documents, rc_schemas = schemas, rc_connector = connector,
                             rc_tool = t, rc_operation = operation, rc_decided = kind, rc_description = description\<rparr>)\<rparr>))))"

definition resolveGranted :: "ResolveEnv \<Rightarrow> scope list \<Rightarrow> Invocation \<Rightarrow> TargetRow \<Rightarrow> Attempt" where
  "resolveGranted env scopes ivk r =
     (case (if switches env (t_connector r) then registry_get (registry env) (t_connector r) else None) of
        None \<Rightarrow> refused (action_error connector_disabled [])
      | Some connector \<Rightarrow>
        (if \<not> t_enabled r then refused (action_error ActionErrorCode.target_disabled [])
         else
          (case validateTarget (known_schemas env) r of
             Invalid _ _ \<Rightarrow> refused (action_error target_invalid [])
           | Valid row documents schemas \<Rightarrow> resolveOperation scopes ivk row documents schemas connector)))"

definition resolution :: "TargetRow option \<Rightarrow> Attempt \<Rightarrow> Resolution" where
  "resolution r a = \<lparr>att_description = att_description a, att_call = att_call a, res_row = r\<rparr>"

definition resolveCall :: "ResolveEnv \<Rightarrow> TargetStore \<Rightarrow> Caller \<Rightarrow> Invocation \<Rightarrow> Resolution" where
  "resolveCall env w caller ivk =
     (if \<not> layer_enabled env then resolution None (refused (action_error actions_disabled []))
      else
       (case findByName (inv_target ivk) w of
          None \<Rightarrow> resolution None (refused (action_error unknown_target []))
        | Some r \<Rightarrow>
          (let attempt =
             (if isGranted (t_id r) (caller_client caller) w then resolveGranted env (caller_scopes caller) ivk r
              else refused (action_error not_granted []))
           in (case att_call attempt of
                 Inr call \<Rightarrow>
                   (if rc_decided call \<noteq> OpRead \<and> isReadOnly (t_id r) (caller_client caller) w
                    then resolution (Some r) (attempt\<lparr>att_call := fail grant_read_only\<rparr>)
                    else resolution (Some r) attempt)
               | Inl _ \<Rightarrow> resolution (Some r) attempt))))"

section \<open>Listing\<close>

record TargetListing =
  lst_name :: string
  lst_description :: string
  lst_connector :: ConnectorKind
  lst_operations :: "OperationKind list"
  lst_engine :: "string option"
  lst_unrestricted :: bool
  lst_code :: "(string \<times> string option \<times> string list \<times> bool) option"

definition servingConnector :: "ResolveEnv \<Rightarrow> ConnectorKind \<Rightarrow> Connector option" where
  "servingConnector env kind =
     (if switches env kind \<and> is_available env kind then registry_get (registry env) kind else None)"

definition listed_operations :: "TargetCapabilities \<Rightarrow> scope list \<Rightarrow> bool \<Rightarrow> OperationKind list" where
  "listed_operations capabilities scopes readOnly =
     js_set (map fst
       (filter (\<lambda>(operation, s). s \<in> set scopes \<and> (\<not> readOnly \<or> operation = OpRead)) (cap_operations capabilities)))"

definition list_row :: "ResolveEnv \<Rightarrow> TargetStore \<Rightarrow> Caller \<Rightarrow> TargetRow \<Rightarrow> TargetListing option" where
  "list_row env w caller r =
     (case (servingConnector env (t_connector r), validateTarget (known_schemas env) r) of
        (Some connector, Valid _ documents _) \<Rightarrow>
          (if \<not> t_enabled r then None
           else
            (let capabilities = conn_capabilities connector (doc_destination documents) (doc_policy documents);
                 operations = listed_operations capabilities (caller_scopes caller)
                   (isReadOnly (t_id r) (caller_client caller) w)
             in if operations = [] then None
                else Some
                  \<lparr>lst_name = t_name r, lst_description = t_description r, lst_connector = t_connector r,
                   lst_operations = operations, lst_engine = cap_engine capabilities,
                   lst_unrestricted = cap_unrestricted capabilities, lst_code = cap_code capabilities\<rparr>))
      | _ \<Rightarrow> None)"

definition listTargets :: "ResolveEnv \<Rightarrow> TargetStore \<Rightarrow> Caller \<Rightarrow> TargetListing list" where
  "listTargets env w caller =
     (if \<not> layer_enabled env then []
      else List.map_filter (list_row env w caller) (listGranted (caller_client caller) w))"

section \<open>Lemmas\<close>

lemma refused_sel [simp]: "att_description (refused e) = None" "att_call (refused e) = fail e"
  by (simp_all add: refused_def)

lemma resolution_sel [simp]:
  "att_description (resolution r a) = att_description a" "att_call (resolution r a) = att_call a" "res_row (resolution r a) = r"
  by (simp_all add: resolution_def)

text \<open>The checks of ACT-16, in order, for a call that resolves.\<close>

definition may_call :: "ResolveEnv \<Rightarrow> TargetStore \<Rightarrow> Caller \<Rightarrow> Invocation \<Rightarrow> ResolvedCall \<Rightarrow> bool" where
  "may_call env w caller ivk call \<longleftrightarrow>
     layer_enabled env \<and>
     findByName (inv_target ivk) w = Some (rc_row call) \<and>
     isGranted (t_id (rc_row call)) (caller_client caller) w \<and>
     switches env (t_connector (rc_row call)) \<and>
     registry_get (registry env) (t_connector (rc_row call)) = Some (rc_connector call) \<and>
     t_enabled (rc_row call) \<and>
     validateTarget (known_schemas env) (rc_row call) = Valid (rc_row call) (rc_documents call) (rc_schemas call) \<and>
     find (\<lambda>t. tool_name t = inv_tool ivk) (conn_tools (rc_connector call)) = Some (rc_tool call) \<and>
     tool_scope (rc_tool call) \<in> set (caller_scopes caller) \<and>
     tool_input (rc_tool call) (filter (\<lambda>(k, v). k \<noteq> ''target'') (inv_arguments ivk)) = ok (rc_operation call) \<and>
     (let request = \<lparr>req_documents = rc_documents call, req_tool = tool_name (rc_tool call)\<rparr> in
      is_allowed (conn_authorize (rc_connector call) request (rc_operation call)) \<and>
      decided_operation (conn_authorize (rc_connector call) request (rc_operation call)) = rc_decided call \<and>
      rc_description call = conn_describe (rc_connector call) request (rc_operation call)) \<and>
     (rc_decided call = OpRead \<or> \<not> isReadOnly (t_id (rc_row call)) (caller_client caller) w)"

lemma validateTarget_row: "validateTarget sf r = Valid r' documents schemas \<Longrightarrow> r' = r"
  by (auto simp: validateTarget_def split: sum.splits list.splits)

lemma resolveOperation_ok:
  "att_call (resolveOperation scopes ivk r documents schemas connector) = Inr call \<longleftrightarrow>
   rc_row call = r \<and> rc_documents call = documents \<and> rc_schemas call = schemas \<and> rc_connector call = connector \<and>
   find (\<lambda>t. tool_name t = inv_tool ivk) (conn_tools connector) = Some (rc_tool call) \<and>
   tool_scope (rc_tool call) \<in> set scopes \<and>
   tool_input (rc_tool call) (filter (\<lambda>(k, v). k \<noteq> ''target'') (inv_arguments ivk)) = Inr (rc_operation call) \<and>
   (let request = \<lparr>req_documents = documents, req_tool = tool_name (rc_tool call)\<rparr> in
    is_allowed (conn_authorize connector request (rc_operation call)) \<and>
    decided_operation (conn_authorize connector request (rc_operation call)) = rc_decided call \<and>
    rc_description call = conn_describe connector request (rc_operation call))"
  by (cases call) (auto simp: resolveOperation_def Let_def fail_def ok_def split: option.splits sum.splits PolicyDecision.splits)

lemma resolveGranted_ok:
  "att_call (resolveGranted env scopes ivk r) = Inr call \<longleftrightarrow>
   switches env (t_connector r) \<and> t_enabled r \<and>
   registry_get (registry env) (t_connector r) = Some (rc_connector call) \<and>
   validateTarget (known_schemas env) r = Valid r (rc_documents call) (rc_schemas call) \<and>
   att_call (resolveOperation scopes ivk r (rc_documents call) (rc_schemas call) (rc_connector call)) = Inr call"
proof (cases "switches env (t_connector r) \<and> t_enabled r")
  case True
  show ?thesis
  proof (cases "registry_get (registry env) (t_connector r)")
    case (Some connector)
    with True show ?thesis
    proof (cases "validateTarget (known_schemas env) r")
      case (Valid r' documents schemas)
      with True Some validateTarget_row [OF Valid] show ?thesis
        by (auto simp: resolveGranted_def resolveOperation_ok)
    qed (simp add: resolveGranted_def fail_def)
  qed (use True in \<open>simp add: resolveGranted_def fail_def\<close>)
qed (auto simp: resolveGranted_def fail_def split: option.splits)

lemma resolveCall_ok: "att_call (resolveCall env w caller ivk) = Inr call \<longleftrightarrow> may_call env w caller ivk call"
proof (cases "layer_enabled env")
  case True
  show ?thesis
  proof (cases "findByName (inv_target ivk) w")
    case None
    then show ?thesis by (simp add: resolveCall_def may_call_def fail_def)
  next
    case (Some r)
    show ?thesis
    proof (cases "isGranted (t_id r) (caller_client caller) w")
      case granted: True
      have "att_call (resolveCall env w caller ivk) = Inr call \<longleftrightarrow>
          att_call (resolveGranted env (caller_scopes caller) ivk r) = Inr call \<and>
          (rc_decided call = OpRead \<or> \<not> isReadOnly (t_id r) (caller_client caller) w)"
        using True Some granted by (auto simp: resolveCall_def Let_def fail_def split: sum.splits)
      then show ?thesis
        using True Some granted by (auto simp: resolveGranted_ok resolveOperation_ok may_call_def Let_def ok_def)
    next
      case False
      with True Some show ?thesis by (auto simp: resolveCall_def may_call_def fail_def)
    qed
  qed
qed (simp add: resolveCall_def may_call_def fail_def)

section \<open>Properties\<close>

text \<open>
  A call resolves exactly when every check of ACT-16 passes: the layer and the connector are on,
  the named target exists, is granted to the client, enabled and valid, the tool is the connector's
  and within the caller's scopes, the arguments parse, the policy allows the operation, and a
  read-only grant is used for a read.
\<close>

theorem resolveCall_iff: "att_call (resolveCall env w caller ivk) = ok call \<longleftrightarrow> may_call env w caller ivk call"
  unfolding ok_def by (rule resolveCall_ok)

text \<open>
  What a client without a grant is answered depends on two things only, whether the layer is on
  and whether a target has the name it asked for; nothing of the target, its connector, its policy or
  the arguments shows, and nothing of them is classified for the audit trail either.
\<close>

theorem ungranted_answer:
  assumes "\<And>r. findByName (inv_target ivk) w = Some r \<Longrightarrow> \<not> isGranted (t_id r) (caller_client caller) w"
  shows "att_call (resolveCall env w caller ivk) =
      fail (action_error
        (if \<not> layer_enabled env then actions_disabled
         else if findByName (inv_target ivk) w = None then unknown_target else not_granted) []) \<and>
    att_description (resolveCall env w caller ivk) = None"
  using assms by (cases "findByName (inv_target ivk) w") (auto simp: resolveCall_def fail_def)

lemma resolveOperation_codes:
  "att_call (resolveOperation scopes ivk r documents schemas connector) = Inl e \<Longrightarrow>
   error_code e \<in> {invalid_arguments, insufficient_scope, policy_denied}"
  by (auto simp: resolveOperation_def policy_denied_error_def Let_def fail_def ok_def
      split: option.splits sum.splits PolicyDecision.splits if_splits)

lemma listGranted_mem:
  "r \<in> set (listGranted client w) \<longleftrightarrow> r \<in> set (target_rows w) \<and> isGranted (t_id r) client w"
  by (auto simp: listGranted_def isGranted_def list_ex_iff)

lemma findByName_unique:
  "distinct (map t_name (target_rows w)) \<Longrightarrow> r \<in> set (target_rows w) \<Longrightarrow> findByName (t_name r) w = Some r"
proof -
  have "distinct (map t_name rs) \<Longrightarrow> r \<in> set rs \<Longrightarrow> find (\<lambda>q. t_name q = t_name r) rs = Some r" for rs
    by (induction rs) auto
  then show "distinct (map t_name (target_rows w)) \<Longrightarrow> r \<in> set (target_rows w) \<Longrightarrow> findByName (t_name r) w = Some r"
    by (simp add: findByName_def)
qed

text \<open>
  A listed target is one its reader can call: a call on it never fails for the layer, the
  connector, the grant or the target itself, only for the tool, the scope, the arguments or the policy.
\<close>

theorem listed_is_callable:
  assumes "distinct (map t_name (target_rows w))" "l \<in> set (listTargets env w caller)" "inv_target ivk = lst_name l"
    "att_call (resolveCall env w caller ivk) = fail e"
  shows "error_code e \<in> {invalid_arguments, insufficient_scope, policy_denied}"
proof -
  from assms(2) obtain r where on: "layer_enabled env" and r: "r \<in> set (listGranted (caller_client caller) w)"
    and l: "list_row env w caller r = Some l"
    by (auto simp: listTargets_def List.map_filter_def split: if_splits)
  from l obtain connector documents schemas where c: "servingConnector env (t_connector r) = Some connector"
    and v: "validateTarget (known_schemas env) r = Valid r documents schemas"
    and enabled: "t_enabled r" and name: "lst_name l = t_name r"
    using validateTarget_row by (fastforce simp: list_row_def Let_def split: option.splits ValidatedTarget.splits if_splits)
  have "findByName (inv_target ivk) w = Some r"
    using findByName_unique [OF assms(1)] r assms(3) name by (simp add: listGranted_mem)
  moreover have "isGranted (t_id r) (caller_client caller) w" using r by (simp add: listGranted_mem)
  moreover have "resolveGranted env (caller_scopes caller) ivk r =
      resolveOperation (caller_scopes caller) ivk r documents schemas connector"
    using c v enabled by (simp add: resolveGranted_def servingConnector_def split: if_splits)
  ultimately show ?thesis
    using assms(4) on resolveOperation_codes [of "caller_scopes caller" ivk r documents schemas connector]
    by (auto simp: resolveCall_def Let_def fail_def grant_read_only_def split: sum.splits if_splits)
qed

end
