(* ===== verification/EngineRun.thy ===== *)
theory EngineRun
  imports EngineResolve
begin

text \<open>
  The second half of ACT-16 and what it leaves behind: the record of a call
  (\<^verbatim>\<open>src/actions/engine-record.ts\<close> over \<^verbatim>\<open>src/actions/calls.ts\<close>), the credential, the pinned
  destination and the run (\<^verbatim>\<open>src/actions/engine-run.ts\<close>, \<^verbatim>\<open>engine-run-many.ts\<close>) with the support a
  connector is lent (\<^verbatim>\<open>src/actions/run-support.ts\<close>).

  The vault, the resolver, the hash and the JSON text of the arguments are parameters. The clock and
  the id generator are functions of how often they were read. The timer of a run is the number of
  answers the connector gets before the policy timeout elapses, \<open>None\<close> when it is done first.
\<close>

section \<open>State\<close>

datatype ItemPatch = PatchCustomField string string | PatchPassword string | PatchNotes string

record EngineEnv = ResolveEnv +
  v_getItem :: "string \<Rightarrow> (ItemSummary, VaultErrorCode) result"
  v_getSecret :: "string \<Rightarrow> SecretField \<Rightarrow> (SecretValue, VaultErrorCode) result"
  v_updateItem :: "string \<Rightarrow> ItemPatch \<Rightarrow> (unit, VaultErrorCode) result"
  net_lookup :: Lookup
  clock :: "nat \<Rightarrow> int"
  fresh :: "nat \<Rightarrow> string"
  stringify :: "Arguments \<Rightarrow> string"
  sha256_hex :: "bytes \<Rightarrow> string"
  decimal_text :: "nat \<Rightarrow> string"
  timer :: "nat \<Rightarrow> nat option"

datatype CallOutcome = Ended ActionOutcome | Interrupted

record CallRow =
  row_id :: string
  row_at :: int
  row_targetId :: "string option"
  row_targetName :: string
  row_connector :: "ConnectorKind option"
  row_revision :: "nat option"
  row_tool :: string
  row_clientId :: string
  row_tokenPrefix :: string
  row_operation :: "OperationKind option"
  row_classification :: "string option"
  row_arguments :: bytes
  row_argumentsTruncated :: bool
  row_outputBytes :: nat
  row_outputTruncated :: bool
  row_durationMs :: int
  row_outcome :: CallOutcome
  row_requestId :: string
  row_ip :: string

record CallAudit =
  audit_tool :: string
  audit_outcome :: ActionOutcome
  audit_clientId :: string
  audit_tokenPrefix :: string
  audit_requestId :: string
  audit_ip :: string
  audit_durationMs :: int
  audit_clientName :: string
  audit_target :: string

datatype EngineEvent = CallAudited CallAudit | CredentialRotated string string string ConnectorKind

record EngineState =
  store :: TargetStore
  limits :: ActionLimits
  call_rows :: "CallRow list"
  engine_events :: "EngineEvent list"
  vault_patches :: "(string \<times> ItemPatch) list"
  clock_reads :: nat
  ids_used :: nat
  unzeroed :: "InjectedEntry list"

text \<open>
  \<open>unzeroed\<close> keeps the buffers a call made and let go of without zeroing them: no variable of the code
  names them any more, but the memory of the process still holds what they hold.
\<close>

definition let_go :: "InjectedEntry list \<Rightarrow> EngineState \<Rightarrow> EngineState" where
  "let_go buffers s = s\<lparr>unzeroed := unzeroed s @ buffers\<rparr>"

definition now_of :: "'e EngineEnv_scheme \<Rightarrow> EngineState \<Rightarrow> int \<times> EngineState" where
  "now_of env s = (clock env (clock_reads s), s\<lparr>clock_reads := Suc (clock_reads s)\<rparr>)"

definition newId :: "'e EngineEnv_scheme \<Rightarrow> EngineState \<Rightarrow> string \<times> EngineState" where
  "newId env s = (fresh env (ids_used s), s\<lparr>ids_used := Suc (ids_used s)\<rparr>)"

section \<open>Scrubbing\<close>

text \<open>
  A scrubber of the engine always returns (\<open>scrub_text\<close> and \<open>scrub_bytes\<close> of a created table do), so
  its operations are total.
\<close>

record ScrubView =
  view_text :: "string \<Rightarrow> string"
  view_buffer :: "bytes \<Rightarrow> nat \<Rightarrow> CappedText"
  view_base64 :: "bytes \<Rightarrow> nat \<Rightarrow> CappedText"
  view_deep :: "value_tree \<Rightarrow> value_tree"

definition scrub_deep :: "Scrubber \<Rightarrow> value_tree \<Rightarrow> value_tree" where
  "scrub_deep s v = scrubDeep (\<lambda>t. the (scrub_text s t)) (\<lambda>b. base64 (the (scrub_bytes s b))) v"

definition single_view :: "Scrubber \<Rightarrow> ScrubView" where
  "single_view s =
     \<lparr>view_text = (\<lambda>t. the (scrub_text s t)), view_buffer = (\<lambda>b n. the (scrub_buffer s b n)),
      view_base64 = (\<lambda>b n. the (scrub_base64 s b n)), view_deep = scrub_deep s\<rparr>"

definition combined_view :: "Scrubber \<Rightarrow> Scrubber list \<Rightarrow> ScrubView" where
  "combined_view first rest =
     \<lparr>view_text = (\<lambda>t. the (combined_text first rest t)), view_buffer = (\<lambda>b n. the (combined_buffer first rest b n)),
      view_base64 = (\<lambda>b n. the (combined_base64 first rest b n)),
      view_deep = (\<lambda>v. fold scrub_deep (first # rest) v)\<rparr>"

definition deep_arguments :: "ScrubView \<Rightarrow> Arguments \<Rightarrow> Arguments" where
  "deep_arguments view arguments = (case view_deep view (VObject arguments) of VObject kvs \<Rightarrow> kvs | _ \<Rightarrow> [])"

primrec reason_name :: "PolicyReason \<Rightarrow> string" where
  "reason_name RMethod = ''method''"
| "reason_name RPath = ''path''"
| "reason_name RHeader = ''header''"
| "reason_name RBodySize = ''body_size''"
| "reason_name ROperation = ''operation''"
| "reason_name RStatementCount = ''statement_count''"
| "reason_name RStatementClass = ''statement_class''"
| "reason_name RStatementPattern = ''statement_pattern''"
| "reason_name RCommand = ''command''"
| "reason_name RCommandMetacharacter = ''command_metacharacter''"
| "reason_name RCommandSize = ''command_size''"
| "reason_name ROrigin = ''origin''"
| "reason_name RElement = ''element''"
| "reason_name RContent = ''content''"
| "reason_name RRef = ''ref''"
| "reason_name RTopK = ''top_k''"
| "reason_name RRead = ''read''"

definition scrub_detail_value :: "ScrubView \<Rightarrow> DetailValue \<Rightarrow> DetailValue" where
  "scrub_detail_value view d =
     (case d of
        DText t \<Rightarrow> DText (view_text view t)
      | DReason r \<Rightarrow> if view_text view (reason_name r) = reason_name r then d else DText (view_text view (reason_name r))
      | _ \<Rightarrow> d)"

definition scrub_error :: "ScrubView \<Rightarrow> ActionError \<Rightarrow> ActionError" where
  "scrub_error view e = action_error (error_code e) (map (\<lambda>(k, d). (k, scrub_detail_value view d)) (error_detail e))"

section \<open>The record of a call\<close>

definition ARGUMENTS_CAP_BYTES :: nat where "ARGUMENTS_CAP_BYTES = 4096"

text \<open>The excerpt is kept as its bytes.\<close>

definition encodeArguments :: "'e EngineEnv_scheme \<Rightarrow> Arguments \<Rightarrow> bytes \<times> bool" where
  "encodeArguments env arguments =
     (let content = utf8_encode (stringify env arguments) in
      if length content \<le> ARGUMENTS_CAP_BYTES then (content, False)
      else (take ARGUMENTS_CAP_BYTES content @ [CHR 0x0A] @ ''[vaultgate: '' @ decimal_text env ARGUMENTS_CAP_BYTES @ '' of '' @
              decimal_text env (length content) @ '' bytes shown; sha256 of the whole is '' @ sha256_hex env content @ '']'',
            True))"

record CallFacts =
  facts_caller :: Caller
  facts_invocation :: Invocation
  facts_startedAt :: int
  facts_row :: "TargetRow option"
  facts_resolved :: "ResolvedCall option"
  facts_description :: "string option"
  facts_scrub :: "Scrubber option"

definition scrubbedArguments :: "CallFacts \<Rightarrow> Arguments" where
  "scrubbedArguments facts =
     (case facts_scrub facts of
        None \<Rightarrow> inv_arguments (facts_invocation facts)
      | Some s \<Rightarrow> deep_arguments (single_view s) (inv_arguments (facts_invocation facts)))"

definition scrubbedClassification :: "CallFacts \<Rightarrow> string option" where
  "scrubbedClassification facts =
     (case (facts_description facts, facts_scrub facts) of
        (Some c, Some s) \<Rightarrow> Some (view_text (single_view s) c)
      | (c, _) \<Rightarrow> c)"

definition scrubbedError :: "CallFacts \<Rightarrow> ActionError \<Rightarrow> ActionError" where
  "scrubbedError facts e = (case facts_scrub facts of None \<Rightarrow> e | Some s \<Rightarrow> scrub_error (single_view s) e)"

definition insertRow ::
  "'e EngineEnv_scheme \<Rightarrow> CallFacts \<Rightarrow> CallOutcome \<Rightarrow> int \<Rightarrow> EngineState \<Rightarrow> string \<times> EngineState" where
  "insertRow env facts outcome durationMs s =
     (case newId env s of (rid, s1) \<Rightarrow>
       (case encodeArguments env (scrubbedArguments facts) of (encoded, short) \<Rightarrow>
         (rid, s1\<lparr>call_rows := call_rows s1 @
            [\<lparr>row_id = rid, row_at = facts_startedAt facts, row_targetId = map_option t_id (facts_row facts),
              row_targetName = inv_target (facts_invocation facts),
              row_connector = map_option t_connector (facts_row facts),
              row_revision = map_option t_revision (facts_row facts), row_tool = inv_tool (facts_invocation facts),
              row_clientId = caller_client (facts_caller facts), row_tokenPrefix = caller_prefix (facts_caller facts),
              row_operation = map_option rc_decided (facts_resolved facts),
              row_classification = scrubbedClassification facts, row_arguments = encoded, row_argumentsTruncated = short,
              row_outputBytes = 0, row_outputTruncated = False, row_durationMs = durationMs, row_outcome = outcome,
              row_requestId = caller_request (facts_caller facts), row_ip = caller_ip (facts_caller facts)\<rparr>]\<rparr>)))"

text \<open>MCP-13: the event carries the outcome.\<close>

definition auditEvent :: "CallFacts \<Rightarrow> ActionOutcome \<Rightarrow> int \<Rightarrow> EngineState \<Rightarrow> EngineState" where
  "auditEvent facts outcome durationMs s =
     s\<lparr>engine_events := engine_events s @
         [CallAudited
            \<lparr>audit_tool = inv_tool (facts_invocation facts), audit_outcome = outcome,
             audit_clientId = caller_client (facts_caller facts), audit_tokenPrefix = caller_prefix (facts_caller facts),
             audit_requestId = caller_request (facts_caller facts), audit_ip = caller_ip (facts_caller facts),
             audit_durationMs = durationMs, audit_clientName = caller_name (facts_caller facts),
             audit_target = inv_target (facts_invocation facts)\<rparr>]\<rparr>"

definition recordFailure :: "'e EngineEnv_scheme \<Rightarrow> CallFacts \<Rightarrow> ActionError \<Rightarrow> EngineState \<Rightarrow> ActionError \<times> EngineState" where
  "recordFailure env facts e s =
     (let final = scrubbedError facts e in
      (case now_of env s of (t, s1) \<Rightarrow>
        (let durationMs = t - facts_startedAt facts;
             s2 = snd (insertRow env facts (Ended (outcomeOf final)) durationMs s1)
         in (final, auditEvent facts (outcomeOf final) durationMs s2))))"

definition reserveCall :: "'e EngineEnv_scheme \<Rightarrow> CallFacts \<Rightarrow> EngineState \<Rightarrow> string \<times> EngineState" where
  "reserveCall env facts s = insertRow env facts Interrupted 0 s"

definition completeCall :: "string \<Rightarrow> ActionOutcome \<Rightarrow> nat \<Rightarrow> bool \<Rightarrow> int \<Rightarrow> EngineState \<Rightarrow> EngineState" where
  "completeCall rid outcome n short durationMs s =
     s\<lparr>call_rows := map (\<lambda>r. if row_id r = rid
          then r\<lparr>row_outcome := Ended outcome, row_outputBytes := n, row_outputTruncated := short, row_durationMs := durationMs\<rparr>
          else r) (call_rows s)\<rparr>"

definition complete_reservation ::
  "'e EngineEnv_scheme \<Rightarrow> CallFacts \<Rightarrow> string \<Rightarrow> ActionOutcome \<Rightarrow> nat \<Rightarrow> bool \<Rightarrow> EngineState \<Rightarrow> EngineState" where
  "complete_reservation env facts rid outcome n short s =
     (case now_of env s of (t, s1) \<Rightarrow>
       (let durationMs = t - facts_startedAt facts
        in auditEvent facts outcome durationMs (completeCall rid outcome n short durationMs s1)))"

section \<open>Credential and destination\<close>

definition usernameOf :: "'e EngineEnv_scheme \<Rightarrow> string \<Rightarrow> string option" where
  "usernameOf env itemId =
     (case v_getItem env itemId of
        Inl _ \<Rightarrow> None
      | Inr item \<Rightarrow> (case item_login item of None \<Rightarrow> None | Some login \<Rightarrow> login_username login))"

definition secretOf :: "'e EngineEnv_scheme \<Rightarrow> string \<Rightarrow> SecretField \<Rightarrow> string option" where
  "secretOf env itemId selector =
     (case v_getSecret env itemId selector of
        Inl _ \<Rightarrow> None
      | Inr (TextSecret v) \<Rightarrow> Some v
      | Inr (TotpSecret code _) \<Rightarrow> Some code)"

definition fetched_value :: "'e EngineEnv_scheme \<Rightarrow> string \<Rightarrow> CredentialField \<Rightarrow> string option" where
  "fetched_value env itemId f =
     (case parseFieldSelector (cf_selector f) of
        None \<Rightarrow> None
      | Some UsernameField \<Rightarrow> usernameOf env itemId
      | Some (Secret selector) \<Rightarrow> secretOf env itemId selector)"

text \<open>A field that cannot be fetched ends the loop; the buffers made before it are what the error carries here.\<close>

fun fetch_fields ::
  "'e EngineEnv_scheme \<Rightarrow> string \<Rightarrow> CredentialField list \<Rightarrow> InjectedEntry list \<Rightarrow> string option \<Rightarrow>
   (InjectedEntry list \<times> string option, InjectedEntry list) result" where
  "fetch_fields env itemId [] found username = ok (found, username)"
| "fetch_fields env itemId (f # fs) found username =
     (case fetched_value env itemId f of
        None \<Rightarrow> fail found
      | Some v \<Rightarrow>
        (if cf_is_username f then fetch_fields env itemId fs found (Some v)
         else fetch_fields env itemId fs (found @ [\<lparr>entry_field = cf_name f, entry_value = v\<rparr>]) username))"

definition fetchCredential :: "'e EngineEnv_scheme \<Rightarrow> ResolvedCall \<Rightarrow> (SecretHolder, ActionError \<times> InjectedEntry list) result" where
  "fetchCredential env call =
     (case fetch_fields env (t_item_id (rc_row call)) (credentialFields (rc_schemas call) (doc_credential (rc_documents call))) [] None of
        Inl buffers \<Rightarrow> fail (action_error credential_unavailable [], buffers)
      | Inr (found, username) \<Rightarrow>
          ok (createSecretHolder found
               (case username of Some u \<Rightarrow> Some u
                | None \<Rightarrow> basicUsername (rc_schemas call) (doc_destination (rc_documents call)))))"

primrec problem_text :: "DestinationProblem \<Rightarrow> string" where
  "problem_text DInvalid = ''invalid''"
| "problem_text DForbidden = ''forbidden''"
| "problem_text DPrivate = ''private''"
| "problem_text DUnresolved = ''unresolved''"

definition pin_error :: "DestinationProblem \<Rightarrow> ActionError" where
  "pin_error problem =
     action_error (if problem = DUnresolved then connection_failed else destination_refused) [(''reason'', DText (problem_text problem))]"

fun pin_all :: "Lookup \<Rightarrow> bool \<Rightarrow> Endpoint list \<Rightarrow> PinnedEndpoint list \<Rightarrow> (PinnedEndpoint list, ActionError) result" where
  "pin_all lookup isInternal [] pinned = ok pinned"
| "pin_all lookup isInternal (e # es) pinned =
     (case pinEndpoint e isInternal lookup of
        Inl problem \<Rightarrow> fail (pin_error problem)
      | Inr p \<Rightarrow> pin_all lookup isInternal es (pinned @ [p]))"

definition pinDestination :: "Lookup \<Rightarrow> ResolvedCall \<Rightarrow> (PinnedEndpoint list, ActionError) result" where
  "pinDestination lookup call =
     pin_all lookup (t_internal (rc_row call)) (schema_endpoints (rc_schemas call) (doc_destination (rc_documents call))) []"

section \<open>The run\<close>

text \<open>The writable selectors of ACT-83.\<close>

fun patchFor :: "FieldSelector \<Rightarrow> string \<Rightarrow> ItemPatch option" where
  "patchFor (Secret (CustomField name)) v = Some (PatchCustomField name v)"
| "patchFor (Secret PasswordField) v = Some (PatchPassword v)"
| "patchFor (Secret NotesField) v = Some (PatchNotes v)"
| "patchFor _ v = None"

definition rotation_failed :: "string \<Rightarrow> ActionError" where
  "rotation_failed reason = action_error credential_rotation_failed [(''reason'', DText reason)]"

primrec vault_error_name :: "VaultErrorCode \<Rightarrow> string" where
  "vault_error_name vault_unavailable = ''vault_unavailable''"
| "vault_error_name item_not_found = ''not_found''"
| "vault_error_name invalid_item = ''invalid_item''"
| "vault_error_name vault_protocol_error = ''vault_protocol_error''"

definition rotate_field ::
  "'e EngineEnv_scheme \<Rightarrow> TargetRow \<Rightarrow> string \<Rightarrow> string \<Rightarrow> EngineState \<Rightarrow> (unit, ActionError) result \<times> EngineState" where
  "rotate_field env r field v s =
     (case Option.bind (parseFieldSelector field) (\<lambda>selector. patchFor selector v) of
        None \<Rightarrow> (fail (rotation_failed ''unwritable_field''), s)
      | Some patch \<Rightarrow>
        (let s1 = s\<lparr>vault_patches := vault_patches s @ [(t_item_id r, patch)]\<rparr> in
         (case v_updateItem env (t_item_id r) patch of
            Inl code \<Rightarrow> (fail (rotation_failed (vault_error_name code)), s1)
          | Inr _ \<Rightarrow>
              (ok (), s1\<lparr>engine_events := engine_events s1 @
                 [CredentialRotated (t_item_id r) field (t_name r) (t_connector r)]\<rparr>))))"

definition support_resolve :: "'e EngineEnv_scheme \<Rightarrow> TargetRow \<Rightarrow> Endpoint \<Rightarrow> (PinnedEndpoint, ActionError) result" where
  "support_resolve env r endpoint =
     (case pinEndpoint endpoint (t_internal r) (net_lookup env) of
        Inl problem \<Rightarrow> fail (pin_error problem) | Inr pinned \<Rightarrow> ok pinned)"

definition THROWN_MESSAGE_CAP :: nat where "THROWN_MESSAGE_CAP = 1024"

definition thrown_error :: "string \<Rightarrow> ActionError" where
  "thrown_error message = action_error upstream_error [(''message'', DText (take THROWN_MESSAGE_CAP message))]"

definition timeout_error :: ActionError where
  "timeout_error = action_error timeout []"

text \<open>
  The connector's run beside the timer: the answers it is given, the values it captures, and how the
  race ends. A request on a context the call does not have throws.
\<close>

definition expired :: "nat option \<Rightarrow> bool" where "expired left = (left = Some 0)"

definition one_less :: "nat option \<Rightarrow> nat option" where "one_less left = map_option (\<lambda>n. n - 1) left"

definition all_guardBytes :: "SecretHolder list \<Rightarrow> nat" where
  "all_guardBytes hs = (case map scrubber hs of [] \<Rightarrow> 0 | first # rest \<Rightarrow> combined_guardBytes first rest)"

primrec run_script ::
  "'e EngineEnv_scheme \<Rightarrow> TargetRow list \<Rightarrow> RunScript \<Rightarrow> nat option \<Rightarrow> SecretHolder list \<Rightarrow> EngineState \<Rightarrow>
   (ConnectorOutput, ActionError) result \<times> SecretHolder list \<times> EngineState" where
  "run_script env rs (Finish result) left hs s = ((if expired left then fail timeout_error else result), hs, s)"
| "run_script env rs (ThrowMessage message) left hs s =
     ((if expired left then fail timeout_error else fail (thrown_error message)), hs, s)"
| "run_script env rs Silent left hs s = (fail timeout_error, hs, s)"
| "run_script env rs (Capture i entry rest) left hs s =
     (if expired left then (fail timeout_error, hs, s)
      else if i < length hs then run_script env rs rest (one_less left) (hs[i := holder_add (hs ! i) entry]) s
      else (fail (thrown_error ''no such context''), hs, s))"
| "run_script env rs (ReadValue i field rest) left hs s =
     (if expired left then (fail timeout_error, hs, s)
      else if i < length hs then run_script env rs (rest (holder_value (hs ! i) field)) (one_less left) hs s
      else (fail (thrown_error ''no such context''), hs, s))"
| "run_script env rs (ReadGuard rest) left hs s =
     (if expired left then (fail timeout_error, hs, s)
      else run_script env rs (rest (all_guardBytes hs)) (one_less left) hs s)"
| "run_script env rs (ScrubText i input rest) left hs s =
     (if expired left then (fail timeout_error, hs, s)
      else if i < length hs
      then run_script env rs (rest (view_text (single_view (scrubber (hs ! i))) input)) (one_less left) hs s
      else (fail (thrown_error ''no such context''), hs, s))"
| "run_script env rs (ResolveHost i endpoint rest) left hs s =
     (if expired left then (fail timeout_error, hs, s)
      else if i < length rs then run_script env rs (rest (support_resolve env (rs ! i) endpoint)) (one_less left) hs s
      else (fail (thrown_error ''no such context''), hs, s))"
| "run_script env rs (RotateField i field v rest) left hs s =
     (if expired left then (fail timeout_error, hs, s)
      else if i < length rs
      then (case rotate_field env (rs ! i) field v s of
              (answer, s') \<Rightarrow> run_script env rs (rest answer) (one_less left) hs s')
      else (fail (thrown_error ''no such context''), hs, s))"

section \<open>The answer\<close>

record RunOutput =
  ro_result :: Arguments
  ro_bytes :: nat
  ro_truncated :: bool

definition capture_stream :: "ConnectorOutput \<Rightarrow> ScrubView \<Rightarrow> nat \<Rightarrow> (string \<times> CappedText) list" where
  "capture_stream out view maxBytes =
     map (\<lambda>(key, buffer).
       (key, if key \<in> set (out_base64 out) then view_base64 view buffer maxBytes else view_buffer view buffer maxBytes))
       (out_captured out)"

text \<open>Fields spread into an object: a later one replaces an earlier one of its name.\<close>

definition spread :: "Arguments \<Rightarrow> Arguments \<Rightarrow> Arguments" where
  "spread obj new = fold (\<lambda>(k, v) acc. if k \<in> fst ` set acc then map (\<lambda>(k', v'). if k' = k then (k, v) else (k', v')) acc else acc @ [(k, v)]) new obj"

definition assemble :: "ConnectorOutput \<Rightarrow> ScrubView \<Rightarrow> nat \<Rightarrow> int \<Rightarrow> RunOutput" where
  "assemble out view maxBytes durationMs =
     (let captured = capture_stream out view maxBytes;
          isTruncated = (map_of (out_result out) ''truncated'' = Some (VBool True) \<or> list_ex (\<lambda>(_, c). truncated c) captured)
      in \<lparr>ro_result =
            spread (spread (deep_arguments view (out_result out)) (map (\<lambda>(k, c). (k, VText (capped_text c))) captured))
              [(''truncated'', VBool isTruncated), (''duration_ms'', VScalar durationMs)],
          ro_bytes = (case out_bytes out of Some n \<Rightarrow> n | None \<Rightarrow> sum_list (map (\<lambda>(_, c). captured_bytes c) captured)),
          ro_truncated = isTruncated\<rparr>)"

text \<open>What a run is given: the resolved call, its secrets and its pinned addresses.\<close>

record ConnectorCall =
  cc_resolved :: ResolvedCall
  cc_credential :: SecretHolder
  cc_pinned :: "PinnedEndpoint list"

definition context_of :: "nat \<Rightarrow> ConnectorCall \<Rightarrow> RunContext" where
  "context_of maxBytes c =
     \<lparr>run_documents = rc_documents (cc_resolved c), run_tool = tool_name (rc_tool (cc_resolved c)),
      run_username = holder_username (cc_credential c),
      run_target = \<lparr>ct_id = t_id (rc_row (cc_resolved c)), ct_name = t_name (rc_row (cc_resolved c)),
                    ct_revision = t_revision (rc_row (cc_resolved c))\<rparr>,
      run_pinned = cc_pinned c, run_maxBytes = maxBytes\<rparr>"

text \<open>The answer with the holder as the run left it: every buffer zeroed.\<close>

definition runConnector ::
  "'e EngineEnv_scheme \<Rightarrow> ConnectorCall \<Rightarrow> EngineState \<Rightarrow> (RunOutput, ActionError) result \<times> SecretHolder list \<times> EngineState" where
  "runConnector env c s =
     (let resolved = cc_resolved c; common = doc_common (rc_documents resolved) in
      (case now_of env s of (began, s1) \<Rightarrow>
        (case run_script env [rc_row resolved]
                (conn_run (rc_connector resolved) (context_of (max_output_bytes common) c) (rc_operation resolved))
                (timer env (timeout_ms common)) [cc_credential c] s1 of
           (Inl e, hs, s2) \<Rightarrow> (fail e, map holder_dispose hs, s2)
         | (Inr out, hs, s2) \<Rightarrow>
             (case now_of env s2 of (t, s3) \<Rightarrow>
               (ok (assemble out (single_view (scrubber (hd hs))) (max_output_bytes common) (t - began)),
                map holder_dispose hs, s3)))))"

definition no_runMany :: ActionError where
  "no_runMany = action_error connector_fault [(''reason'', DText ''internal''), (''message'', DText ''no runMany'')]"

definition many_script :: "ConnectorCall list \<Rightarrow> nat \<Rightarrow> RunScript" where
  "many_script cs maxBytes =
     (let resolved = cc_resolved (hd cs) in
      (case conn_runMany (rc_connector resolved) of
         None \<Rightarrow> Finish (fail no_runMany)
       | Some f \<Rightarrow> f (map (context_of maxBytes) cs) (rc_operation resolved)))"

definition combined_of :: "SecretHolder list \<Rightarrow> ScrubView" where
  "combined_of hs = combined_view (scrubber (hd hs)) (map scrubber (tl hs))"

definition min_over :: "(CommonPolicy \<Rightarrow> nat) \<Rightarrow> ConnectorCall list \<Rightarrow> nat" where
  "min_over f cs = Min (set (map (\<lambda>c. f (doc_common (rc_documents (cc_resolved c)))) cs))"

definition runConnectorMany ::
  "'e EngineEnv_scheme \<Rightarrow> ConnectorCall list \<Rightarrow> EngineState \<Rightarrow> (RunOutput, ActionError) result \<times> SecretHolder list \<times> EngineState" where
  "runConnectorMany env cs s =
     (let maxBytes = min_over max_output_bytes cs in
      (case now_of env s of (began, s1) \<Rightarrow>
        (case run_script env (map (rc_row \<circ> cc_resolved) cs) (many_script cs maxBytes)
                (timer env (min_over timeout_ms cs)) (map cc_credential cs) s1 of
           (Inl e, hs, s2) \<Rightarrow> (fail e, map holder_dispose hs, s2)
         | (Inr out, hs, s2) \<Rightarrow>
             (case now_of env s2 of (t, s3) \<Rightarrow>
               (ok (assemble out (combined_of hs) maxBytes (t - began)), map holder_dispose hs, s3)))))"

end
