(* ===== verification/Engine.thy ===== *)
theory Engine
  imports EngineRun
begin

text \<open>
  The engine: one call in the order of ACT-16 (\<^verbatim>\<open>src/actions/engine.ts\<close>) and one call over several
  targets (\<^verbatim>\<open>src/actions/engine-many.ts\<close>). An operation yields the answer of the agent, the secret
  holders it created as it leaves them, and the state: limits, rows, events and the writes to the vault.
\<close>

section \<open>One target\<close>

datatype CallResult = CallOk Arguments | CallError ActionError

type_synonym Answer = "CallResult \<times> SecretHolder list \<times> EngineState"

definition failed_call :: "SecretHolder list \<Rightarrow> ActionError \<times> EngineState \<Rightarrow> Answer" where
  "failed_call hs recorded = (CallError (fst recorded), hs, snd recorded)"

definition execute :: "'e EngineEnv_scheme \<Rightarrow> CallFacts \<Rightarrow> ResolvedCall \<Rightarrow> EngineState \<Rightarrow> Answer" where
  "execute env facts resolved s =
     (case fetchCredential env resolved of
        Inl (e, buffers) \<Rightarrow> failed_call [] (recordFailure env facts e (let_go buffers s))
      | Inr credential \<Rightarrow>
        (let known = facts\<lparr>facts_scrub := Some (scrubber credential)\<rparr> in
         (case pinDestination (net_lookup env) resolved of
            Inl e \<Rightarrow> failed_call [holder_dispose credential] (recordFailure env known e s)
          | Inr pinned \<Rightarrow>
            (case reserveCall env known s of (rid, s1) \<Rightarrow>
              (case runConnector env \<lparr>cc_resolved = resolved, cc_credential = credential, cc_pinned = pinned\<rparr> s1 of
                 (Inl e, hs, s2) \<Rightarrow>
                   (let final = scrub_error (single_view (scrubber (hd hs))) e
                    in (CallError final, hs, complete_reservation env known rid (OutcomeError (error_code final)) 0 False s2))
               | (Inr out, hs, s2) \<Rightarrow>
                   (CallOk (ro_result out), hs,
                    complete_reservation env known rid OutcomeOk (ro_bytes out) (ro_truncated out) s2))))))"

definition facts_for :: "Caller \<Rightarrow> Invocation \<Rightarrow> int \<Rightarrow> CallFacts" where
  "facts_for caller ivk moment =
     \<lparr>facts_caller = caller, facts_invocation = ivk, facts_startedAt = moment, facts_row = None,
      facts_resolved = None, facts_description = None, facts_scrub = None\<rparr>"

definition resolved_facts :: "Caller \<Rightarrow> Invocation \<Rightarrow> int \<Rightarrow> Resolution \<Rightarrow> CallFacts" where
  "resolved_facts caller ivk moment r =
     (facts_for caller ivk moment)
       \<lparr>facts_row := res_row r, facts_resolved := (case att_call r of Inr c \<Rightarrow> Some c | Inl _ \<Rightarrow> None),
        facts_description := att_description r\<rparr>"

definition limit_key :: "Caller \<Rightarrow> ResolvedCall \<Rightarrow> LimitKey" where
  "limit_key caller resolved =
     \<lparr>limit_target = t_id (rc_row resolved), limit_client = caller_client caller,
      targetPerMinute = rate_limit_per_minute (doc_common (rc_documents resolved))\<rparr>"

definition rate_limited_error :: "int \<Rightarrow> ActionError" where
  "rate_limited_error seconds = action_error rate_limited [(''retry_after_s'', DNumber (nat seconds))]"

definition acquire_limit :: "'e EngineEnv_scheme \<Rightarrow> LimitKey \<Rightarrow> EngineState \<Rightarrow> LimitDecision \<times> EngineState" where
  "acquire_limit env key s =
     (case now_of env s of (t, s1) \<Rightarrow>
       (case acquire (limits s1) key t of (decision, l) \<Rightarrow> (decision, s1\<lparr>limits := l\<rparr>)))"

definition release_limit :: "LimitDecision \<Rightarrow> EngineState \<Rightarrow> EngineState" where
  "release_limit decision s =
     (case decision of Acquired i j \<Rightarrow> s\<lparr>limits := release (limits s) i j\<rparr> | LimitRefused _ \<Rightarrow> s)"

definition released :: "LimitDecision \<Rightarrow> Answer \<Rightarrow> Answer" where
  "released decision answer = (case answer of (result, hs, s) \<Rightarrow> (result, hs, release_limit decision s))"

definition call_one :: "'e EngineEnv_scheme \<Rightarrow> Caller \<Rightarrow> Invocation \<Rightarrow> EngineState \<Rightarrow> Answer" where
  "call_one env caller ivk s =
     (let found = resolveCall (ResolveEnv.truncate env) (store s) caller ivk in
      (case now_of env s of (moment, s1) \<Rightarrow>
        (let facts = resolved_facts caller ivk moment found in
         (case att_call found of
            Inl e \<Rightarrow> failed_call [] (recordFailure env facts e s1)
          | Inr resolved \<Rightarrow>
            (case acquire_limit env (limit_key caller resolved) s1 of (decision, s2) \<Rightarrow>
              (case decision of
                 LimitRefused seconds \<Rightarrow> failed_call [] (recordFailure env facts (rate_limited_error seconds) s2)
               | Acquired _ _ \<Rightarrow> released decision (execute env facts resolved s2)))))))"

section \<open>Several targets\<close>

type_synonym Prepared = "CallFacts \<times> ResolvedCall"

definition perTarget :: "Invocation \<Rightarrow> string \<Rightarrow> Invocation" where
  "perTarget ivk name =
     \<lparr>inv_tool = inv_tool ivk, inv_target = name,
      inv_arguments = spread [(''target'', VText name)] (filter (\<lambda>(k, v). k \<noteq> ''repo'') (inv_arguments ivk)),
      inv_targets = None\<rparr>"

definition withRepo :: "ActionError \<Rightarrow> string \<Rightarrow> ActionError" where
  "withRepo e repo = action_error (error_code e) (filter (\<lambda>(k, d). k \<noteq> ''repo'') (error_detail e) @ [(''repo'', DText repo)])"

text \<open>Each name gets its row with the error; the agent is told the failing one.\<close>

fun record_all :: "'e EngineEnv_scheme \<Rightarrow> CallFacts list \<Rightarrow> ActionError \<Rightarrow> EngineState \<Rightarrow> ActionError list \<times> EngineState" where
  "record_all env [] e s = ([], s)"
| "record_all env (f # fs) e s =
     (case recordFailure env f e s of (final, s1) \<Rightarrow>
       (case record_all env fs e s1 of (finals, s2) \<Rightarrow> (final # finals, s2)))"

definition failAll :: "'e EngineEnv_scheme \<Rightarrow> CallFacts list \<Rightarrow> nat \<Rightarrow> ActionError \<Rightarrow> EngineState \<Rightarrow> ActionError \<times> EngineState" where
  "failAll env facts failing e s =
     (case record_all env facts e s of (finals, s1) \<Rightarrow>
       (if failing < length facts then withRepo (finals ! failing) (inv_target (facts_invocation (facts ! failing))) else e, s1))"

definition resolutionError :: "(ResolvedCall, ActionError) result \<Rightarrow> ActionError option" where
  "resolutionError r =
     (case r of
        Inl e \<Rightarrow> Some e
      | Inr c \<Rightarrow> if rc_decided c = OpRead then None
                 else Some (action_error connector_fault [(''reason'', DText ''multi_target_write'')]))"

fun resolve_names ::
  "'e EngineEnv_scheme \<Rightarrow> Caller \<Rightarrow> Invocation \<Rightarrow> string list \<Rightarrow> EngineState \<Rightarrow> (CallFacts \<times> (ResolvedCall, ActionError) result) list \<times> EngineState" where
  "resolve_names env caller ivk [] s = ([], s)"
| "resolve_names env caller ivk (name # names) s =
     (let found = resolveCall (ResolveEnv.truncate env) (store s) caller (perTarget ivk name) in
      (case now_of env s of (moment, s1) \<Rightarrow>
        (case resolve_names env caller ivk names s1 of (rest, s2) \<Rightarrow>
          ((resolved_facts caller (ivk\<lparr>inv_target := name\<rparr>) moment found, att_call found) # rest, s2))))"

fun first_error :: "nat \<Rightarrow> (CallFacts \<times> (ResolvedCall, ActionError) result) list \<Rightarrow> (nat \<times> ActionError) option" where
  "first_error n [] = None"
| "first_error n ((f, r) # rest) = (case resolutionError r of Some e \<Rightarrow> Some (n, e) | None \<Rightarrow> first_error (Suc n) rest)"

definition prepared_of :: "(CallFacts \<times> (ResolvedCall, ActionError) result) list \<Rightarrow> Prepared list" where
  "prepared_of found = List.map_filter (\<lambda>(f, r). case r of Inr c \<Rightarrow> Some (f, c) | Inl _ \<Rightarrow> None) found"

definition repoArgumentOf :: "'e EngineEnv_scheme \<Rightarrow> string \<Rightarrow> RepoArgument option" where
  "repoArgumentOf env tool =
     (case forTool (registry env) tool of
        None \<Rightarrow> None
      | Some c \<Rightarrow> Option.bind (find (\<lambda>t. tool_name t = tool) (conn_tools c)) tool_repo)"

definition repoProblem :: "'e EngineEnv_scheme \<Rightarrow> Invocation \<Rightarrow> string list \<Rightarrow> string option" where
  "repoProblem env ivk names =
     (let repo = repoArgumentOf env (inv_tool ivk);
          most = (case repo of Some r \<Rightarrow> repo_max r | None \<Rightarrow> 1)
      in if \<not> distinct names \<or> names = [] \<or> length names > most
         then Some (''repo: must name 1 to '' @ decimal_text env most @ '' distinct connections'')
         else if length names > 1
         then (case repo of
                 None \<Rightarrow> None
               | Some r \<Rightarrow>
                 map_option (\<lambda>key. key @ '': may be given with one repo only'')
                   (find (\<lambda>key. map_of (inv_arguments ivk) key \<noteq> None) (repo_singleOnly r)))
         else None)"

definition jointDecision :: "Prepared list \<Rightarrow> ActionError option" where
  "jointDecision prepared =
     (let head_call = snd (hd prepared);
          requests = map (\<lambda>(f, c). \<lparr>req_documents = rc_documents c, req_tool = tool_name (rc_tool head_call)\<rparr>) prepared
      in case conn_authorizeMany (rc_connector head_call) of
           None \<Rightarrow> None
         | Some judge \<Rightarrow>
           (case judge requests (rc_operation head_call) of
              Allowed _ _ \<Rightarrow> None
            | Denied reason \<Rightarrow> Some (policy_denied_error reason)))"

fun acquire_all :: "'e EngineEnv_scheme \<Rightarrow> LimitKey list \<Rightarrow> EngineState \<Rightarrow> LimitDecision list \<times> EngineState" where
  "acquire_all env [] s = ([], s)"
| "acquire_all env (key # keys) s =
     (case acquire_limit env key s of (d, s1) \<Rightarrow> (case acquire_all env keys s1 of (ds, s2) \<Rightarrow> (d # ds, s2)))"

fun refused_at :: "nat \<Rightarrow> LimitDecision list \<Rightarrow> (nat \<times> int) option" where
  "refused_at n [] = None"
| "refused_at n (Acquired _ _ # ds) = refused_at (Suc n) ds"
| "refused_at n (LimitRefused seconds # ds) = Some (n, seconds)"

text \<open>
  The facts with what is known of each, the calls or the failing index with its error and the buffers
  let go of, the holders.
\<close>

fun prepare_calls ::
  "'e EngineEnv_scheme \<Rightarrow> Prepared list \<Rightarrow> CallFacts list \<times> (ConnectorCall list, nat \<times> ActionError \<times> InjectedEntry list) result \<times> SecretHolder list" where
  "prepare_calls env [] = ([], ok [], [])"
| "prepare_calls env ((facts, resolved) # rest) =
     (case fetchCredential env resolved of
        Inl (e, buffers) \<Rightarrow> (facts # map fst rest, fail (0, e, buffers), [])
      | Inr credential \<Rightarrow>
        (let known = facts\<lparr>facts_scrub := Some (scrubber credential)\<rparr> in
         (case pinDestination (net_lookup env) resolved of
            Inl e \<Rightarrow> (known # map fst rest, fail (0, e, []), [credential])
          | Inr pinned \<Rightarrow>
            (case prepare_calls env rest of
               (ks, Inl (n, e, buffers), hs) \<Rightarrow> (known # ks, fail (Suc n, e, buffers), credential # hs)
             | (ks, Inr cs, hs) \<Rightarrow>
                 (known # ks, ok (\<lparr>cc_resolved = resolved, cc_credential = credential, cc_pinned = pinned\<rparr> # cs),
                  credential # hs)))))"

fun reserve_all :: "'e EngineEnv_scheme \<Rightarrow> CallFacts list \<Rightarrow> EngineState \<Rightarrow> string list \<times> EngineState" where
  "reserve_all env [] s = ([], s)"
| "reserve_all env (f # fs) s =
     (case reserveCall env f s of (rid, s1) \<Rightarrow> (case reserve_all env fs s1 of (rids, s2) \<Rightarrow> (rid # rids, s2)))"

fun complete_all ::
  "'e EngineEnv_scheme \<Rightarrow> (CallFacts \<times> string) list \<Rightarrow> ActionOutcome \<Rightarrow> nat \<Rightarrow> bool \<Rightarrow> EngineState \<Rightarrow> EngineState" where
  "complete_all env [] outcome n short s = s"
| "complete_all env ((f, rid) # rest) outcome n short s =
     complete_all env rest outcome n short (complete_reservation env f rid outcome n short s)"

definition executeMany :: "'e EngineEnv_scheme \<Rightarrow> Prepared list \<Rightarrow> EngineState \<Rightarrow> Answer" where
  "executeMany env prepared s =
     (case prepare_calls env prepared of
        (known, Inl (n, e, buffers), hs) \<Rightarrow> failed_call (map holder_dispose hs) (failAll env known n e (let_go buffers s))
      | (known, Inr cs, _) \<Rightarrow>
        (case reserve_all env known s of (rids, s1) \<Rightarrow>
          (case runConnectorMany env cs s1 of
             (Inl e, hs, s2) \<Rightarrow>
               (let final = scrub_error (combined_of hs) e
                in (CallError final, hs, complete_all env (zip known rids) (OutcomeError (error_code final)) 0 False s2))
           | (Inr out, hs, s2) \<Rightarrow>
               (CallOk (ro_result out), hs, complete_all env (zip known rids) OutcomeOk (ro_bytes out) (ro_truncated out) s2))))"

definition release_all :: "LimitDecision list \<Rightarrow> Answer \<Rightarrow> Answer" where
  "release_all ds answer = (case answer of (result, hs, s) \<Rightarrow> (result, hs, fold release_limit ds s))"

definition run_prepared :: "'e EngineEnv_scheme \<Rightarrow> Caller \<Rightarrow> Prepared list \<Rightarrow> EngineState \<Rightarrow> Answer" where
  "run_prepared env caller prepared s =
     (case jointDecision prepared of
        Some e \<Rightarrow> (CallError e, [], snd (record_all env (map fst prepared) e s))
      | None \<Rightarrow>
        (case acquire_all env (map (limit_key caller \<circ> snd) prepared) s of (ds, s1) \<Rightarrow>
          release_all ds
            (case refused_at 0 ds of
               Some (n, seconds) \<Rightarrow> failed_call [] (failAll env (map fst prepared) n (rate_limited_error seconds) s1)
             | None \<Rightarrow> executeMany env prepared s1)))"

definition callMany :: "'e EngineEnv_scheme \<Rightarrow> Caller \<Rightarrow> Invocation \<Rightarrow> string list \<Rightarrow> EngineState \<Rightarrow> Answer" where
  "callMany env caller ivk names s =
     (case repoProblem env ivk names of
        Some problem \<Rightarrow>
          (case now_of env s of (moment, s1) \<Rightarrow>
            failed_call [] (recordFailure env (facts_for caller ivk moment)
              (action_error invalid_arguments [(''problem'', DText problem)]) s1))
      | None \<Rightarrow>
        (case resolve_names env caller ivk names s of (found, s1) \<Rightarrow>
          (case first_error 0 found of
             Some (n, e) \<Rightarrow> failed_call [] (failAll env (map fst found) n e s1)
           | None \<Rightarrow> run_prepared env caller (prepared_of found) s1)))"

definition engine_call :: "'e EngineEnv_scheme \<Rightarrow> Caller \<Rightarrow> Invocation \<Rightarrow> EngineState \<Rightarrow> Answer" where
  "engine_call env caller ivk s =
     (case inv_targets ivk of
        Some names \<Rightarrow> callMany env caller ivk names s
      | None \<Rightarrow> call_one env caller ivk s)"

end
