(* ===== verification/EngineGuard.thy ===== *)
theory EngineGuard
  imports Engine
begin

text \<open>
  A connector runs only after every check. The specification is an engine whose connectors check for
  themselves: each run looks at the store again and stays silent unless the target is stored, enabled,
  valid, granted to the caller and within its scopes, the policy allows the operation, every pinned
  address is one the target may use and the four limits admitted every target of the call; a run over
  several targets wants them distinct and the connector's judgement of them together as well. The
  theorem is that those checks change nothing: no call of the engine ever reaches a connector without
  them.
\<close>

section \<open>The checks of a run\<close>

definition address_allowed :: "bool \<Rightarrow> PinnedEndpoint \<Rightarrow> bool" where
  "address_allowed isInternal p \<longleftrightarrow>
     classifyAddress (pinned_address p) = PublicAddress \<or> (isInternal \<and> classifyAddress (pinned_address p) = PrivateAddress)"

definition run_checked :: "ResolveEnv \<Rightarrow> TargetStore \<Rightarrow> Caller \<Rightarrow> Connector \<Rightarrow> RunContext \<Rightarrow> value_tree \<Rightarrow> bool" where
  "run_checked env w caller c ctx operation \<longleftrightarrow>
     (\<exists>r schemas t kind cls.
        r \<in> set (target_rows w) \<and> t_id r = ct_id (run_target ctx) \<and> t_enabled r \<and>
        isGranted (t_id r) (caller_client caller) w \<and>
        layer_enabled env \<and> switches env (t_connector r) \<and> registry_get (registry env) (t_connector r) = Some c \<and>
        validateTarget (known_schemas env) r = Valid r (run_documents ctx) schemas \<and>
        t \<in> set (conn_tools c) \<and> tool_name t = run_tool ctx \<and> tool_scope t \<in> set (caller_scopes caller) \<and>
        conn_authorize c \<lparr>req_documents = run_documents ctx, req_tool = run_tool ctx\<rparr> operation = Allowed kind cls \<and>
        (kind = OpRead \<or> \<not> isReadOnly (t_id r) (caller_client caller) w) \<and>
        map Endpoint.truncate (run_pinned ctx) = schema_endpoints schemas (doc_destination (run_documents ctx)) \<and>
        list_all (address_allowed (t_internal r)) (run_pinned ctx))"

text \<open>A run over several targets: each of them checked, for a read.\<close>

definition read_checked :: "ResolveEnv \<Rightarrow> TargetStore \<Rightarrow> Caller \<Rightarrow> RunContext \<Rightarrow> bool" where
  "read_checked env w caller ctx \<longleftrightarrow>
     (\<exists>c operation cls. run_checked env w caller c ctx operation \<and>
        conn_authorize c \<lparr>req_documents = run_documents ctx, req_tool = run_tool ctx\<rparr> operation = Allowed OpRead cls)"

text \<open>What a run over several targets wants of them together.\<close>

definition joint_allowed :: "Connector \<Rightarrow> RunContext list \<Rightarrow> value_tree \<Rightarrow> bool" where
  "joint_allowed c ctxs operation \<longleftrightarrow>
     distinct (map (\<lambda>ctx. ct_name (run_target ctx)) ctxs) \<and>
     (case conn_authorizeMany c of
        None \<Rightarrow> True
      | Some judge \<Rightarrow>
          \<exists>kind cls. judge (map (\<lambda>ctx. \<lparr>req_documents = run_documents ctx, req_tool = run_tool ctx\<rparr>) ctxs) operation =
            Allowed kind cls)"

text \<open>
  The limits of the targets a call resolves, taken one after the other at the readings of the clock
  that follow those of the resolution: every one of them admits.
\<close>

fun limits_admit :: "(nat \<Rightarrow> int) \<Rightarrow> LimitKey list \<Rightarrow> nat \<Rightarrow> ActionLimits \<Rightarrow> bool" where
  "limits_admit readings [] n l = True"
| "limits_admit readings (key # keys) n l =
     (case acquire l key (readings n) of
        (Acquired _ _, l') \<Rightarrow> limits_admit readings keys (Suc n) l'
      | (LimitRefused _, _) \<Rightarrow> False)"

definition invocations :: "Invocation \<Rightarrow> Invocation list" where
  "invocations ivk = (case inv_targets ivk of None \<Rightarrow> [ivk] | Some names \<Rightarrow> map (perTarget ivk) names)"

definition resolved_calls :: "ResolveEnv \<Rightarrow> TargetStore \<Rightarrow> Caller \<Rightarrow> Invocation list \<Rightarrow> ResolvedCall list" where
  "resolved_calls env w caller ivks =
     List.map_filter (\<lambda>i. case att_call (resolveCall env w caller i) of Inr c \<Rightarrow> Some c | Inl _ \<Rightarrow> None) ivks"

definition within_limits :: "EngineEnv \<Rightarrow> Caller \<Rightarrow> Invocation \<Rightarrow> EngineState \<Rightarrow> bool" where
  "within_limits env caller ivk s \<longleftrightarrow>
     limits_admit (clock env)
       (map (limit_key caller) (resolved_calls (ResolveEnv.truncate env) (store s) caller (invocations ivk)))
       (clock_reads s + length (invocations ivk)) (limits s)"

text \<open>A connector that checks for itself; \<open>admitted\<close> is what the limits said.\<close>

definition guarded :: "bool \<Rightarrow> ResolveEnv \<Rightarrow> TargetStore \<Rightarrow> Caller \<Rightarrow> Connector \<Rightarrow> Connector" where
  "guarded admitted env w caller c =
     c\<lparr>conn_run := (\<lambda>ctx operation.
          if admitted \<and> run_checked env w caller c ctx operation then conn_run c ctx operation else Silent),
       conn_runMany := map_option (\<lambda>f ctxs operation.
         if admitted \<and> list_all (read_checked env w caller) ctxs \<and> joint_allowed c ctxs operation
         then f ctxs operation else Silent) (conn_runMany c)\<rparr>"

definition guarded_env :: "bool \<Rightarrow> TargetStore \<Rightarrow> Caller \<Rightarrow> EngineEnv \<Rightarrow> EngineEnv" where
  "guarded_env admitted w caller env =
     env\<lparr>registry := map (guarded admitted (ResolveEnv.truncate env) w caller) (registry env)\<rparr>"

section \<open>What does not look at the registry\<close>

lemma env_sel [simp]:
  "now_of (env\<lparr>registry := R\<rparr>) s = now_of env s" "newId (env\<lparr>registry := R\<rparr>) s = newId env s"
  "encodeArguments (env\<lparr>registry := R\<rparr>) a = encodeArguments env a"
  "fetched_value (env\<lparr>registry := R\<rparr>) i f = fetched_value env i f"
  "rotate_field (env\<lparr>registry := R\<rparr>) r field v s = rotate_field env r field v s"
  "support_resolve (env\<lparr>registry := R\<rparr>) r e = support_resolve env r e"
  for env :: EngineEnv
  by (simp_all add: now_of_def newId_def encodeArguments_def fetched_value_def usernameOf_def secretOf_def rotate_field_def
      support_resolve_def Let_def split: option.split sum.split FieldSelector.split)

lemma fetch_fields_registry [simp]: "fetch_fields (env\<lparr>registry := R\<rparr>) i fs es u = fetch_fields env i fs es u"
  for env :: EngineEnv
  by (induction fs arbitrary: es u) (simp_all split: option.split)

lemma run_script_registry [simp]: "run_script (env\<lparr>registry := R\<rparr>) rs sc left hs s = run_script env rs sc left hs s"
  for env :: EngineEnv
  by (induction sc arbitrary: left hs s) (simp_all split: prod.split)

lemma insertRow_registry [simp]: "insertRow (env\<lparr>registry := R\<rparr>) f outcome d s = insertRow env f outcome d s"
  for env :: EngineEnv
  by (simp add: insertRow_def)

lemma record_registry [simp]:
  "recordFailure (env\<lparr>registry := R\<rparr>) f e s = recordFailure env f e s"
  "reserveCall (env\<lparr>registry := R\<rparr>) f s = reserveCall env f s"
  "complete_reservation (env\<lparr>registry := R\<rparr>) f rid outcome n short s = complete_reservation env f rid outcome n short s"
  "acquire_limit (env\<lparr>registry := R\<rparr>) key s = acquire_limit env key s"
  for env :: EngineEnv
  by (simp_all add: recordFailure_def reserveCall_def complete_reservation_def acquire_limit_def)

lemma all_registry [simp]:
  "record_all (env\<lparr>registry := R\<rparr>) fs e s = record_all env fs e s"
  "acquire_all (env\<lparr>registry := R\<rparr>) keys s = acquire_all env keys s"
  "reserve_all (env\<lparr>registry := R\<rparr>) fs s = reserve_all env fs s"
  "complete_all (env\<lparr>registry := R\<rparr>) ps outcome n short s = complete_all env ps outcome n short s"
  "failAll (env\<lparr>registry := R\<rparr>) fs k e s = failAll env fs k e s"
  "fetchCredential (env\<lparr>registry := R\<rparr>) resolved = fetchCredential env resolved"
  for env :: EngineEnv
proof -
  show r: "record_all (env\<lparr>registry := R\<rparr>) fs e s = record_all env fs e s" for fs e s
    by (induction fs arbitrary: s) (simp_all split: prod.split)
  show "acquire_all (env\<lparr>registry := R\<rparr>) keys s = acquire_all env keys s"
    by (induction keys arbitrary: s) (simp_all split: prod.split)
  show "reserve_all (env\<lparr>registry := R\<rparr>) fs s = reserve_all env fs s"
    by (induction fs arbitrary: s) (simp_all split: prod.split)
  show "complete_all (env\<lparr>registry := R\<rparr>) ps outcome n short s = complete_all env ps outcome n short s"
    by (induction ps arbitrary: s) auto
  show "failAll (env\<lparr>registry := R\<rparr>) fs k e s = failAll env fs k e s" by (simp add: failAll_def r)
  show "fetchCredential (env\<lparr>registry := R\<rparr>) resolved = fetchCredential env resolved" by (simp add: fetchCredential_def)
qed

section \<open>Other connectors, the same call\<close>

text \<open>A resolved call, its facts and a connector's call with the connector replaced.\<close>

definition swap_call :: "(Connector \<Rightarrow> Connector) \<Rightarrow> ResolvedCall \<Rightarrow> ResolvedCall" where
  "swap_call g c = c\<lparr>rc_connector := g (rc_connector c)\<rparr>"

definition swap_facts :: "(Connector \<Rightarrow> Connector) \<Rightarrow> CallFacts \<Rightarrow> CallFacts" where
  "swap_facts g f = f\<lparr>facts_resolved := map_option (swap_call g) (facts_resolved f)\<rparr>"

definition swap_prepared :: "(Connector \<Rightarrow> Connector) \<Rightarrow> Prepared \<Rightarrow> Prepared" where
  "swap_prepared g = map_prod (swap_facts g) (swap_call g)"

lemma swap_call_sel [simp]:
  "rc_row (swap_call g c) = rc_row c" "rc_documents (swap_call g c) = rc_documents c" "rc_schemas (swap_call g c) = rc_schemas c"
  "rc_connector (swap_call g c) = g (rc_connector c)" "rc_tool (swap_call g c) = rc_tool c"
  "rc_operation (swap_call g c) = rc_operation c" "rc_decided (swap_call g c) = rc_decided c"
  "rc_description (swap_call g c) = rc_description c"
  by (simp_all add: swap_call_def)

lemma swap_facts_sel [simp]:
  "facts_caller (swap_facts g f) = facts_caller f" "facts_invocation (swap_facts g f) = facts_invocation f"
  "facts_startedAt (swap_facts g f) = facts_startedAt f" "facts_row (swap_facts g f) = facts_row f"
  "facts_description (swap_facts g f) = facts_description f" "facts_scrub (swap_facts g f) = facts_scrub f"
  "map_option rc_decided (facts_resolved (swap_facts g f)) = map_option rc_decided (facts_resolved f)"
  "(swap_facts g f)\<lparr>facts_scrub := x\<rparr> = swap_facts g (f\<lparr>facts_scrub := x\<rparr>)"
  by (simp_all add: swap_facts_def option.map_comp comp_def)

lemma scrubbed_swap [simp]:
  "scrubbedArguments (swap_facts g f) = scrubbedArguments f" "scrubbedClassification (swap_facts g f) = scrubbedClassification f"
  "scrubbedError (swap_facts g f) = scrubbedError f"
  by (auto simp: scrubbedArguments_def scrubbedClassification_def scrubbedError_def split: option.split)

lemma insertRow_swap [simp]: "insertRow env (swap_facts g f) outcome d s = insertRow env f outcome d s"
  by (simp add: insertRow_def)

lemma record_swap [simp]:
  "recordFailure env (swap_facts g f) e s = recordFailure env f e s"
  "reserveCall env (swap_facts g f) s = reserveCall env f s"
  "complete_reservation env (swap_facts g f) rid outcome n short s = complete_reservation env f rid outcome n short s"
  by (simp_all add: recordFailure_def reserveCall_def complete_reservation_def auditEvent_def)

lemma all_swap [simp]:
  "record_all env (map (swap_facts g) fs) e s = record_all env fs e s"
  "reserve_all env (map (swap_facts g) fs) s = reserve_all env fs s"
  by (induction fs arbitrary: s) (simp_all split: prod.split)

lemma complete_all_swap [simp]:
  "complete_all env (map (map_prod (swap_facts g) h) ps) outcome n short s = complete_all env (map (map_prod (\<lambda>f. f) h) ps) outcome n short s"
  by (induction ps arbitrary: s) auto

lemma failAll_swap [simp]: "failAll env (map (swap_facts g) fs) k e s = failAll env fs k e s"
  by (simp add: failAll_def split: prod.split)

lemma fetch_swap [simp]:
  "fetchCredential env (swap_call g c) = fetchCredential env c" "pinDestination lookup (swap_call g c) = pinDestination lookup c"
  "limit_key caller (swap_call g c) = limit_key caller c"
  by (simp_all add: fetchCredential_def pinDestination_def limit_key_def split: sum.split option.split)

section \<open>Resolution\<close>

definition swap_attempt :: "(Connector \<Rightarrow> Connector) \<Rightarrow> Attempt \<Rightarrow> Attempt" where
  "swap_attempt g a = a\<lparr>att_call := map_sum (\<lambda>e. e) (swap_call g) (att_call a)\<rparr>"

locale replacement =
  fixes g :: "Connector \<Rightarrow> Connector"
  assumes keeps: "conn_kind (g c) = conn_kind c" "conn_tools (g c) = conn_tools c" "conn_authorize (g c) = conn_authorize c"
    "conn_describe (g c) = conn_describe c" "conn_authorizeMany (g c) = conn_authorizeMany c"
begin

lemma registry_get_map: "registry_get (map g R) kind = map_option g (registry_get R kind)"
  by (simp add: registry_get_def rev_map find_map comp_def keeps)

lemma forTool_map: "forTool (map g R) tool = map_option g (forTool R tool)"
  by (simp add: forTool_def rev_map find_map comp_def keeps)

lemma resolveOperation_swap:
  "resolveOperation scopes ivk r documents schemas (g c) = swap_attempt g (resolveOperation scopes ivk r documents schemas c)"
  by (simp add: resolveOperation_def swap_attempt_def keeps Let_def refused_def swap_call_def ok_def fail_def
      split: option.split sum.split PolicyDecision.split)

lemma resolveGranted_swap:
  "resolveGranted (env\<lparr>registry := map g (registry env)\<rparr>) scopes ivk r = swap_attempt g (resolveGranted env scopes ivk r)"
  for env :: ResolveEnv
  by (auto simp: resolveGranted_def registry_get_map resolveOperation_swap split: option.split ValidatedTarget.split)
    (simp_all add: swap_attempt_def refused_def fail_def)

lemma resolveCall_swap:
  "resolveCall (env\<lparr>registry := map g (registry env)\<rparr>) w caller ivk =
   (resolveCall env w caller ivk)\<lparr>att_call := map_sum (\<lambda>e. e) (swap_call g) (att_call (resolveCall env w caller ivk))\<rparr>"
  for env :: ResolveEnv
  by (auto simp: resolveCall_def resolveGranted_swap swap_attempt_def Let_def resolution_def refused_def fail_def
      split: option.split sum.split)

end

interpretation guard: replacement "guarded admitted env w caller"
  by unfold_locales (simp_all add: guarded_def)

lemma guarded_runs [simp]:
  "run_checked env w caller c ctx operation \<Longrightarrow> conn_run (guarded True env w caller c) ctx operation = conn_run c ctx operation"
  by (simp add: guarded_def)

lemma guarded_truncate [simp]:
  "ResolveEnv.truncate (guarded_env admitted w caller env) =
   (ResolveEnv.truncate env)\<lparr>registry := map (guarded admitted (ResolveEnv.truncate env) w caller) (registry (ResolveEnv.truncate env))\<rparr>"
  by (simp add: guarded_env_def ResolveEnv.truncate_def)

lemma resolved_facts_swap:
  "resolved_facts caller ivk moment (r\<lparr>att_call := map_sum (\<lambda>e. e) (swap_call g) (att_call r)\<rparr>) =
   swap_facts g (resolved_facts caller ivk moment r)"
  by (cases "att_call r") (simp_all add: resolved_facts_def swap_facts_def)

section \<open>What a pinned destination is\<close>

lemma pin_all_Inr:
  "pin_all lookup isInternal es acc = Inr ps \<Longrightarrow>
   \<exists>qs. ps = acc @ qs \<and> map Endpoint.truncate qs = es \<and> list_all (address_allowed isInternal) qs"
proof (induction es arbitrary: acc)
  case (Cons e es)
  from Cons.prems obtain q where q: "pinEndpoint e isInternal lookup = Inr q" and rest: "pin_all lookup isInternal es (acc @ [q]) = Inr ps"
    by (auto simp: fail_def split: sum.splits)
  from Cons.IH [OF rest] obtain qs where qs: "ps = (acc @ [q]) @ qs" "map Endpoint.truncate qs = es" "list_all (address_allowed isInternal) qs"
    by blast
  have "Endpoint.truncate q = e \<and> address_allowed isInternal q"
    using q [folded ok_def, unfolded pinned_addresses]
    by (cases "addresses_of e lookup") (auto simp: Endpoint.truncate_def address_allowed_def)
  with qs show ?case by (intro exI [of _ "q # qs"]) simp
qed (simp add: ok_def)

lemma pinDestination_Inr:
  "pinDestination lookup c = Inr ps \<Longrightarrow>
   map Endpoint.truncate ps = schema_endpoints (rc_schemas c) (doc_destination (rc_documents c)) \<and>
   list_all (address_allowed (t_internal (rc_row c))) ps"
  unfolding pinDestination_def using pin_all_Inr by fastforce

lemma may_call_checked:
  assumes "may_call env w caller ivk c" "pinDestination lookup c = Inr ps" "cc_resolved call = c" "cc_pinned call = ps"
  shows "run_checked env w caller (rc_connector c) (context_of n call) (rc_operation c)"
proof -
  let ?request = "\<lparr>req_documents = rc_documents c, req_tool = tool_name (rc_tool c)\<rparr>"
  have "rc_row c \<in> set (target_rows w)"
    using assms(1) find_SomeD by (fastforce simp: may_call_def findByName_def)
  moreover have "rc_tool c \<in> set (conn_tools (rc_connector c))"
    using assms(1) find_SomeD by (fastforce simp: may_call_def)
  moreover obtain cls where "conn_authorize (rc_connector c) ?request (rc_operation c) = Allowed (rc_decided c) cls"
    using assms(1) by (cases "conn_authorize (rc_connector c) ?request (rc_operation c)") (auto simp: may_call_def Let_def)
  ultimately show ?thesis
    using assms pinDestination_Inr [OF assms(2)]
    unfolding run_checked_def may_call_def context_of_def
    by (intro exI [of _ "rc_row c"] exI [of _ "rc_schemas c"] exI [of _ "rc_tool c"] exI [of _ "rc_decided c"] exI [of _ cls]) simp
qed

section \<open>One target\<close>

lemma runConnector_guarded:
  fixes env :: EngineEnv
  assumes "\<And>n. run_checked renv w caller (rc_connector c) (context_of n call) (rc_operation c)" "cc_resolved call = c"
  shows "runConnector (env\<lparr>registry := R\<rparr>) (call\<lparr>cc_resolved := swap_call (guarded True renv w caller) c\<rparr>) s = runConnector env call s"
proof -
  have "context_of n (call\<lparr>cc_resolved := swap_call (guarded True renv w caller) c\<rparr>) = context_of n call" for n
    by (simp add: context_of_def assms(2))
  then show ?thesis using assms by (simp add: runConnector_def Let_def split: prod.split sum.split)
qed

lemma execute_guarded:
  fixes env :: EngineEnv
  assumes "may_call renv w caller ivk c"
  shows "execute (env\<lparr>registry := R\<rparr>) (swap_facts (guarded True renv w caller) facts) (swap_call (guarded True renv w caller) c) s =
    execute env facts c s"
proof (cases "fetchCredential env c")
  case (Inr credential)
  show ?thesis
  proof (cases "pinDestination (net_lookup env) c")
    case (Inr pinned)
    let ?call = "\<lparr>cc_resolved = c, cc_credential = credential, cc_pinned = pinned\<rparr>"
    have "runConnector (env\<lparr>registry := R\<rparr>) \<lparr>cc_resolved = swap_call (guarded True renv w caller) c, cc_credential = credential,
        cc_pinned = pinned\<rparr> s' = runConnector env ?call s'" for s'
      using runConnector_guarded [where renv = renv and w = w and caller = caller and c = c and call = ?call and env = env and R = R and s = s'] may_call_checked [OF assms Inr] by simp
    then show ?thesis using \<open>fetchCredential env c = Inr credential\<close> Inr by (simp add: execute_def Let_def split: prod.split sum.split)
  qed (use Inr in \<open>simp add: execute_def\<close>)
qed (simp add: execute_def)

lemma store_now [simp]: "store (snd (now_of env s)) = store s" "limits (snd (now_of env s)) = limits s"
  by (simp_all add: now_of_def)

lemma now_eq: "now_of env s = (t, s') \<Longrightarrow> store s' = store s \<and> limits s' = limits s \<and> clock_reads s' = Suc (clock_reads s)"
  by (auto simp: now_of_def)

lemma acquire_limit_eq:
  "acquire_limit env key s = (d, s') \<longleftrightarrow>
   (\<exists>l. acquire (limits s) key (clock env (clock_reads s)) = (d, l) \<and> s' = s\<lparr>clock_reads := Suc (clock_reads s), limits := l\<rparr>)"
  by (auto simp: acquire_limit_def now_of_def split: prod.split)

lemma resolved_calls_simps [simp]:
  "resolved_calls env w caller [] = []"
  "att_call (resolveCall env w caller i) = Inr c \<Longrightarrow> resolved_calls env w caller (i # is) = c # resolved_calls env w caller is"
  by (simp_all add: resolved_calls_def List.map_filter_def)

lemma call_one_guarded:
  assumes "inv_targets ivk = None"
  shows "call_one (guarded_env (within_limits env caller ivk s) (store s) caller env) caller ivk s = call_one env caller ivk s"
proof -
  let ?renv = "ResolveEnv.truncate env"
  let ?adm = "within_limits env caller ivk s"
  let ?g = "guarded ?adm ?renv (store s) caller"
  show ?thesis
  proof (cases "att_call (resolveCall ?renv (store s) caller ivk)")
    case (Inl e)
    then show ?thesis
      unfolding call_one_def Let_def guarded_truncate guard.resolveCall_swap resolved_facts_swap
      by (simp add: guarded_env_def split: prod.split)
  next
    case (Inr c)
    obtain moment s1 where now: "now_of env s = (moment, s1)" by (cases "now_of env s")
    obtain d s2 where limit: "acquire_limit env (limit_key caller c) s1 = (d, s2)"
      by (cases "acquire_limit env (limit_key caller c) s1")
    show ?thesis
    proof (cases d)
      case (LimitRefused seconds)
      with Inr show ?thesis
        unfolding call_one_def Let_def guarded_truncate guard.resolveCall_swap resolved_facts_swap
        by (simp add: guarded_env_def now limit split: prod.split)
    next
      case (Acquired i j)
      have "?adm"
        using limit now_eq [OF now] Acquired
        by (auto simp: within_limits_def invocations_def assms Inr acquire_limit_eq)
      have "execute (guarded_env ?adm (store s) caller env) (swap_facts ?g facts) (swap_call ?g c) s' = execute env facts c s'" for facts s'
        unfolding guarded_env_def using \<open>?adm\<close> Inr by (simp add: execute_guarded resolveCall_ok)
      with Inr Acquired show ?thesis
        unfolding call_one_def Let_def guarded_truncate guard.resolveCall_swap resolved_facts_swap
        by (simp add: guarded_env_def now limit)
    qed
  qed
qed

section \<open>Several targets\<close>

definition swap_connector_call :: "(Connector \<Rightarrow> Connector) \<Rightarrow> ConnectorCall \<Rightarrow> ConnectorCall" where
  "swap_connector_call g c = c\<lparr>cc_resolved := swap_call g (cc_resolved c)\<rparr>"

lemma swap_connector_call_sel [simp]:
  "cc_resolved (swap_connector_call g c) = swap_call g (cc_resolved c)" "cc_credential (swap_connector_call g c) = cc_credential c"
  "context_of n (swap_connector_call g c) = context_of n c"
  by (simp_all add: swap_connector_call_def context_of_def)

lemma prepare_calls_swap:
  "prepare_calls (env\<lparr>registry := R\<rparr>) (map (swap_prepared g) ps) =
   (case prepare_calls env ps of (ks, r, hs) \<Rightarrow> (map (swap_facts g) ks, map_sum (\<lambda>e. e) (map (swap_connector_call g)) r, hs))"
  for env :: EngineEnv
proof (induction ps)
  case (Cons p ps)
  obtain f c where p: "p = (f, c)" by (cases p)
  have "map fst (map (swap_prepared g) ps) = map (swap_facts g) (map fst ps)" by (simp add: swap_prepared_def)
  with Cons show ?case
    by (simp add: p swap_prepared_def Let_def ok_def fail_def swap_connector_call_def split: sum.split prod.split)
qed (simp add: ok_def)

lemma prepare_calls_Inr:
  "prepare_calls env ps = (ks, Inr cs, hs) \<Longrightarrow>
   list_all2 (\<lambda>p c. cc_resolved c = snd p \<and> pinDestination (net_lookup env) (snd p) = Inr (cc_pinned c)) ps cs"
proof (induction ps arbitrary: ks cs hs)
  case (Cons p ps)
  obtain f c where p: "p = (f, c)" by (cases p)
  show ?case
    using Cons.prems Cons.IH by (fastforce simp: p Let_def ok_def fail_def split: sum.splits prod.splits)
qed (simp add: ok_def)

lemma min_over_swap [simp]: "min_over f (map (swap_connector_call g) cs) = min_over f cs"
proof -
  have "(\<lambda>c. f (doc_common (rc_documents (cc_resolved c)))) ` swap_connector_call g ` A =
      (\<lambda>c. f (doc_common (rc_documents (cc_resolved c)))) ` A" for A
    by (simp add: image_image)
  then show ?thesis by (simp add: min_over_def)
qed

lemma many_script_guarded:
  assumes "\<forall>c \<in> set cs. read_checked renv w caller (context_of n c)"
    and "cs \<noteq> [] \<Longrightarrow> joint_allowed (rc_connector (cc_resolved (hd cs))) (map (context_of n) cs) (rc_operation (cc_resolved (hd cs)))"
  shows "many_script (map (swap_connector_call (guarded True renv w caller)) cs) n = many_script cs n"
proof (cases cs)
  case (Cons c cs')
  have "list_all (read_checked renv w caller) (map (context_of n) cs)" using assms(1) by (simp add: list_all_iff)
  with assms(2) show ?thesis
    by (cases "conn_runMany (rc_connector (cc_resolved c))")
      (simp_all add: many_script_def Cons guarded_def comp_def)
qed simp

lemma runConnectorMany_guarded:
  fixes env :: EngineEnv
  assumes "\<And>n. \<forall>c \<in> set cs. read_checked renv w caller (context_of n c)"
    and "\<And>n. cs \<noteq> [] \<Longrightarrow> joint_allowed (rc_connector (cc_resolved (hd cs))) (map (context_of n) cs) (rc_operation (cc_resolved (hd cs)))"
  shows "runConnectorMany (env\<lparr>registry := R\<rparr>) (map (swap_connector_call (guarded True renv w caller)) cs) s = runConnectorMany env cs s"
proof -
  have "map (rc_row \<circ> cc_resolved) (map (swap_connector_call g) cs) = map (rc_row \<circ> cc_resolved) cs"
    "map cc_credential (map (swap_connector_call g) cs) = map cc_credential cs" for g
    by simp_all
  then show ?thesis
    by (simp add: runConnectorMany_def Let_def many_script_guarded [OF assms] split: prod.split sum.split del: map_map)
qed

text \<open>What \<^verbatim>\<open>callMany\<close> hands on: calls that resolved, for a read.\<close>

definition read_call :: "ResolveEnv \<Rightarrow> TargetStore \<Rightarrow> Caller \<Rightarrow> string \<Rightarrow> ResolvedCall \<Rightarrow> bool" where
  "read_call env w caller tool c \<longleftrightarrow>
     rc_decided c = OpRead \<and> (\<exists>ivk. inv_tool ivk = tool \<and> may_call env w caller ivk c)"

lemma read_call_tool: "read_call env w caller tool c \<Longrightarrow> tool_name (rc_tool c) = tool"
  using find_SomeD by (fastforce simp: read_call_def may_call_def)

lemma read_call_checked:
  assumes "read_call env w caller tool c" "pinDestination lookup c = Inr ps" "cc_resolved call = c" "cc_pinned call = ps"
  shows "read_checked env w caller (context_of n call)"
proof -
  obtain ivk where may: "may_call env w caller ivk c" and read: "rc_decided c = OpRead"
    using assms(1) by (auto simp: read_call_def)
  have "\<exists>cls. conn_authorize (rc_connector c) \<lparr>req_documents = run_documents (context_of n call),
      req_tool = run_tool (context_of n call)\<rparr> (rc_operation c) = Allowed OpRead cls"
    using may read assms(3)
    by (cases "conn_authorize (rc_connector c) \<lparr>req_documents = rc_documents c, req_tool = tool_name (rc_tool c)\<rparr> (rc_operation c)")
      (auto simp: may_call_def context_of_def Let_def)
  with may_call_checked [OF may assms(2-4)] show ?thesis unfolding read_checked_def by blast
qed

lemma joint_allowed_prepared:
  assumes "list_all2 (\<lambda>p c. cc_resolved c = snd p \<and> pinDestination lookup (snd p) = Inr (cc_pinned c)) ps cs"
    and "\<forall>p \<in> set ps. read_call renv w caller tool (snd p)" and "jointDecision ps = None"
    and "distinct (map (t_name \<circ> rc_row \<circ> snd) ps)" and "cs \<noteq> []"
  shows "joint_allowed (rc_connector (cc_resolved (hd cs))) (map (context_of n) cs) (rc_operation (cc_resolved (hd cs)))"
proof -
  have cs: "map cc_resolved cs = map snd ps"
    using assms(1) by (induction rule: list_all2_induct) auto
  have "ps \<noteq> []" using assms(1,5) by auto
  then have hd: "cc_resolved (hd cs) = snd (hd ps)" using cs assms(5) by (metis hd_map)
  have names: "map (\<lambda>ctx. ct_name (run_target ctx)) (map (context_of n) cs) = map (t_name \<circ> rc_row \<circ> snd) ps"
    using arg_cong [OF cs, of "map (\<lambda>c. t_name (rc_row c))"] by (simp add: context_of_def comp_def)
  have tools: "tool_name (rc_tool (snd p)) = tool_name (rc_tool (snd (hd ps)))" if "p \<in> set ps" for p
    using that \<open>ps \<noteq> []\<close> assms(2) read_call_tool hd_in_set by metis
  have "map (\<lambda>ctx. \<lparr>req_documents = run_documents ctx, req_tool = run_tool ctx\<rparr>) (map (context_of n) cs) =
      map (\<lambda>c. \<lparr>req_documents = rc_documents c, req_tool = tool_name (rc_tool c)\<rparr>) (map cc_resolved cs)"
    by (simp add: context_of_def)
  also have "\<dots> = map (\<lambda>(f, c). \<lparr>req_documents = rc_documents c, req_tool = tool_name (rc_tool (snd (hd ps)))\<rparr>) ps"
    unfolding cs using tools by auto
  finally have requests: "map (\<lambda>ctx. \<lparr>req_documents = run_documents ctx, req_tool = run_tool ctx\<rparr>) (map (context_of n) cs) =
      map (\<lambda>(f, c). \<lparr>req_documents = rc_documents c, req_tool = tool_name (rc_tool (snd (hd ps)))\<rparr>) ps" .
  show ?thesis
    using assms(3,4) unfolding joint_allowed_def names requests hd
    by (simp add: jointDecision_def Let_def split: option.splits PolicyDecision.splits)
qed

lemma executeMany_guarded:
  fixes env :: EngineEnv
  assumes "\<forall>p \<in> set ps. read_call renv w caller tool (snd p)"
    and joint: "jointDecision ps = None" and apart: "distinct (map (t_name \<circ> rc_row \<circ> snd) ps)"
  shows "executeMany (env\<lparr>registry := R\<rparr>) (map (swap_prepared (guarded True renv w caller)) ps) s = executeMany env ps s"
proof -
  obtain ks r hs where p: "prepare_calls env ps = (ks, r, hs)" by (cases "prepare_calls env ps")
  show ?thesis
  proof (cases r)
    case (Inl e)
    then show ?thesis by (cases e) (simp add: executeMany_def prepare_calls_swap p)
  next
    case (Inr cs)
    have "\<forall>c \<in> set cs. read_checked renv w caller (context_of n c)" for n
    proof
      fix c assume "c \<in> set cs"
      then obtain i where i: "i < length cs" "c = cs ! i" by (auto simp: in_set_conv_nth)
      from prepare_calls_Inr [OF p [unfolded Inr]] i have "i < length ps" "cc_resolved c = snd (ps ! i)"
        "pinDestination (net_lookup env) (snd (ps ! i)) = Inr (cc_pinned c)"
        by (simp_all add: list_all2_conv_all_nth)
      then show "read_checked renv w caller (context_of n c)" using assms(1) by (intro read_call_checked [where tool = tool]) simp_all
    qed
    moreover note joint_allowed_prepared [OF prepare_calls_Inr [OF p [unfolded Inr]] assms]
    ultimately have run: "runConnectorMany (env\<lparr>registry := R\<rparr>) (map (swap_connector_call (guarded True renv w caller)) cs) s' =
        runConnectorMany env cs s'" for s'
      by (rule runConnectorMany_guarded)
    have "zip (map (swap_facts g) ks) rids = map (map_prod (swap_facts g) (\<lambda>r. r)) (zip ks rids)" for g and rids :: "string list"
      by (simp add: zip_map1 map_prod_def)
    moreover have "map (map_prod (\<lambda>f. f) (\<lambda>r. r)) ps = ps" for ps :: "(CallFacts \<times> string) list" by (simp add: map_prod_def split_beta)
    ultimately show ?thesis
      by (simp add: executeMany_def prepare_calls_swap p Inr run Let_def split: prod.split sum.split)
  qed
qed

section \<open>A call over several names\<close>

definition swap_found :: "(Connector \<Rightarrow> Connector) \<Rightarrow> CallFacts \<times> (ResolvedCall, ActionError) result \<Rightarrow> CallFacts \<times> (ResolvedCall, ActionError) result" where
  "swap_found g = map_prod (swap_facts g) (map_sum (\<lambda>e. e) (swap_call g))"

lemma resolve_names_guarded:
  fixes env :: EngineEnv
  shows "resolve_names (guarded_env adm (store s) caller env) caller ivk names s =
    (case resolve_names env caller ivk names s of
       (found, s') \<Rightarrow> (map (swap_found (guarded adm (ResolveEnv.truncate env) (store s) caller)) found, s'))"
proof (induction names arbitrary: s)
  case (Cons name names)
  obtain moment s1 where now: "now_of env s = (moment, s1)" by (cases "now_of env s")
  have g: "now_of (guarded_env adm w caller env) s = now_of env s" for w s by (simp add: guarded_env_def)
  show ?case
    using Cons.IH [of s1]
    by (simp add: now g now_eq [OF now, THEN conjunct1] Let_def guard.resolveCall_swap resolved_facts_swap split: prod.split)
      (simp add: swap_found_def)
qed simp

lemma resolve_names_state:
  "resolve_names env caller ivk names s = (found, s') \<Longrightarrow>
   store s' = store s \<and> limits s' = limits s \<and> clock_reads s' = clock_reads s + length names \<and>
   map snd (prepared_of found) = resolved_calls (ResolveEnv.truncate env) (store s) caller (map (perTarget ivk) names) \<and>
   list_all (\<lambda>(f, r). \<exists>ivk'. inv_tool ivk' = inv_tool ivk \<and>
     r = att_call (resolveCall (ResolveEnv.truncate env) (store s) caller ivk')) found"
proof (induction names arbitrary: s found)
  case (Cons name names)
  obtain moment s1 where now: "now_of env s = (moment, s1)" by (cases "now_of env s")
  obtain rest where rest: "resolve_names env caller ivk names s1 = (rest, s')"
    and found: "found = (resolved_facts caller (ivk\<lparr>inv_target := name\<rparr>) moment
        (resolveCall (ResolveEnv.truncate env) (store s) caller (perTarget ivk name)),
        att_call (resolveCall (ResolveEnv.truncate env) (store s) caller (perTarget ivk name))) # rest"
    using Cons.prems by (auto simp: now Let_def split: prod.splits)
  let ?c = "att_call (resolveCall (ResolveEnv.truncate env) (store s) caller (perTarget ivk name))"
  have "map snd (prepared_of ((f, ?c) # rest)) = (case ?c of Inr c \<Rightarrow> [c] | Inl _ \<Rightarrow> []) @ map snd (prepared_of rest)" for f
    by (simp add: prepared_of_def List.map_filter_def split: sum.split)
  moreover have "resolved_calls env w caller (i # is) =
      (case att_call (resolveCall env w caller i) of Inr c \<Rightarrow> [c] | Inl _ \<Rightarrow> []) @ resolved_calls env w caller is" for env w caller i "is"
    by (simp add: resolved_calls_def List.map_filter_def split: sum.split)
  moreover have "inv_tool (perTarget ivk name) = inv_tool ivk" by (simp add: perTarget_def)
  ultimately show ?case using Cons.IH [OF rest] now_eq [OF now] unfolding found by (auto split: sum.split)
qed (simp add: prepared_of_def List.map_filter_def)

lemma first_error_swap: "first_error n (map (swap_found g) found) = first_error n found"
proof (induction found arbitrary: n)
  case (Cons p found)
  obtain f r where p: "p = (f, r)" by (cases p)
  have "resolutionError (map_sum (\<lambda>e. e) (swap_call g) r) = resolutionError r" by (cases r) (simp_all add: resolutionError_def)
  with Cons show ?case by (simp add: p swap_found_def split: option.split)
qed simp

lemma first_error_None:
  "first_error n found = None \<Longrightarrow> (f, r) \<in> set found \<Longrightarrow> \<exists>c. r = Inr c \<and> rc_decided c = OpRead"
proof (induction found arbitrary: n)
  case (Cons p found)
  obtain f' r' where p: "p = (f', r')" by (cases p)
  from Cons.prems(1) have none: "resolutionError r' = None" and rest: "first_error (Suc n) found = None"
    by (auto simp: p split: option.splits)
  from none have "\<exists>c. r' = Inr c \<and> rc_decided c = OpRead" by (auto simp: resolutionError_def split: sum.splits if_splits)
  with Cons.prems(2) Cons.IH [OF rest] show ?case by (auto simp: p)
qed simp

lemma prepared_of_swap: "prepared_of (map (swap_found g) found) = map (swap_prepared g) (prepared_of found)"
proof (induction found)
  case (Cons p found)
  obtain f r where p: "p = (f, r)" by (cases p)
  show ?case using Cons by (cases r) (simp_all add: prepared_of_def p swap_found_def swap_prepared_def List.map_filter_def)
qed (simp add: prepared_of_def List.map_filter_def)

lemma prepared_of_mem: "(f, c) \<in> set (prepared_of found) \<longleftrightarrow> (f, Inr c) \<in> set found"
  by (force simp: prepared_of_def List.map_filter_def split: sum.splits)

lemma jointDecision_swap: "jointDecision (map (swap_prepared (guarded adm renv w caller)) ps) = jointDecision ps"
proof (cases ps)
  case (Cons p ps')
  have "map (\<lambda>(f, c). \<lparr>req_documents = rc_documents c, req_tool = t\<rparr>) (map (swap_prepared g) ps) =
      map (\<lambda>(f, c). \<lparr>req_documents = rc_documents c, req_tool = t\<rparr>) ps" for g and t :: string
    by (auto simp: swap_prepared_def)
  note requests = this
  have "conn_authorizeMany (guarded adm renv w caller c) = conn_authorizeMany c" for c by (simp add: guarded_def)
  moreover have "snd (hd (map (swap_prepared g) ps)) = swap_call g (snd (hd ps))" for g by (simp add: Cons swap_prepared_def)
  ultimately show ?thesis unfolding jointDecision_def Let_def requests by (simp split: option.split)
qed (simp add: jointDecision_def)

lemma refused_at_admit:
  "acquire_all env keys s = (ds, s') \<Longrightarrow>
   refused_at n ds = None \<longleftrightarrow> limits_admit (clock env) keys (clock_reads s) (limits s)"
proof (induction keys arbitrary: s ds n)
  case (Cons key keys)
  obtain d s1 where a: "acquire_limit env key s = (d, s1)" by (cases "acquire_limit env key s")
  with Cons.prems obtain ds1 where ds: "acquire_all env keys s1 = (ds1, s')" "ds = d # ds1" by (auto split: prod.splits)
  from a obtain l where l: "acquire (limits s) key (clock env (clock_reads s)) = (d, l)"
    and s1: "s1 = s\<lparr>clock_reads := Suc (clock_reads s), limits := l\<rparr>"
    by (auto simp: acquire_limit_eq)
  show ?case using Cons.IH [OF ds(1)] by (cases d) (simp_all add: ds(2) l s1)
qed simp

lemma run_prepared_guarded:
  fixes env :: EngineEnv
  assumes calls: "\<forall>p \<in> set ps. read_call renv w caller tool (snd p)" and apart: "distinct (map (t_name \<circ> rc_row \<circ> snd) ps)"
    and adm: "limits_admit (clock env) (map (limit_key caller \<circ> snd) ps) (clock_reads s) (limits s) \<Longrightarrow> adm"
  shows "run_prepared (env\<lparr>registry := R\<rparr>) caller (map (swap_prepared (guarded adm renv w caller)) ps) s = run_prepared env caller ps s"
proof (cases "jointDecision ps")
  have maps: "map fst (map (swap_prepared g) ps) = map (swap_facts g) (map fst ps)"
    "map (limit_key caller \<circ> snd) (map (swap_prepared g) ps) = map (limit_key caller \<circ> snd) ps" for g
    by (auto simp: swap_prepared_def)
  {
    case (Some e)
    then show ?thesis unfolding run_prepared_def maps by (simp add: jointDecision_swap del: map_map)
  next
    case None
    obtain ds s1 where a: "acquire_all env (map (limit_key caller \<circ> snd) ps) s = (ds, s1)"
      by (cases "acquire_all env (map (limit_key caller \<circ> snd) ps) s")
    show ?thesis
    proof (cases "refused_at 0 ds")
      case allowed: None
      then have "adm" using adm refused_at_admit [OF a] by blast
      with None allowed a show ?thesis
        unfolding run_prepared_def maps by (simp add: jointDecision_swap executeMany_guarded [OF calls None apart] del: map_map)
    next
      case (Some nr)
      with None a show ?thesis
        unfolding run_prepared_def maps by (simp add: jointDecision_swap split: prod.split del: map_map)
    qed
  }
qed

lemma resolved_names:
  assumes "distinct names"
  shows "distinct (map (t_name \<circ> rc_row) (resolved_calls env w caller (map (perTarget ivk) names)))"
proof -
  have name: "t_name (rc_row c) = name" if "att_call (resolveCall env w caller (perTarget ivk name)) = Inr c" for c name
    using that find_SomeD by (fastforce simp: resolveCall_ok may_call_def findByName_def perTarget_def)
  have "set (map (t_name \<circ> rc_row) (resolved_calls env w caller (map (perTarget ivk) ns))) \<subseteq> set ns" for ns
    using name by (fastforce simp: resolved_calls_def List.map_filter_def split: sum.splits)
  with assms show ?thesis
  proof (induction names)
    case (Cons n ns)
    then show ?case
      using name [of n]
      by (cases "att_call (resolveCall env w caller (perTarget ivk n))")
        (auto simp: resolved_calls_def List.map_filter_def)
  qed simp
qed

lemma callMany_guarded:
  fixes env :: EngineEnv
  assumes "inv_targets ivk = Some names"
  shows "callMany (guarded_env (within_limits env caller ivk s) (store s) caller env) caller ivk names s = callMany env caller ivk names s"
proof -
  let ?adm = "within_limits env caller ivk s"
  let ?g = "guarded ?adm (ResolveEnv.truncate env) (store s) caller"
  let ?env = "guarded_env ?adm (store s) caller env"
  have "repoArgumentOf ?env tool = repoArgumentOf env tool" for tool
    by (simp add: repoArgumentOf_def guarded_env_def guard.forTool_map guarded_def split: option.split)
  then have problem: "repoProblem ?env ivk names = repoProblem env ivk names"
    by (simp add: repoProblem_def guarded_env_def Let_def split: option.split)
  obtain found s1 where found: "resolve_names env caller ivk names s = (found, s1)" by (cases "resolve_names env caller ivk names s")
  note st = resolve_names_state [OF found]
  have fst_swap: "map fst (map (swap_found ?g) found) = map (swap_facts ?g) (map fst found)" by (auto simp: swap_found_def)
  have calls: "run_prepared ?env caller (map (swap_prepared ?g) (prepared_of found)) s1 = run_prepared env caller (prepared_of found) s1"
    if none: "first_error 0 found = None" and ok: "repoProblem env ivk names = None"
    unfolding guarded_env_def
  proof (rule run_prepared_guarded)
    show "\<forall>p \<in> set (prepared_of found). read_call (ResolveEnv.truncate env) (store s) caller (inv_tool ivk) (snd p)"
    proof
      fix p assume "p \<in> set (prepared_of found)"
      then have mem: "(fst p, Inr (snd p)) \<in> set found" by (metis prepared_of_mem prod.collapse)
      then have "rc_decided (snd p) = OpRead" using first_error_None [OF none] by blast
      moreover have "\<exists>ivk'. inv_tool ivk' = inv_tool ivk \<and>
          Inr (snd p) = att_call (resolveCall (ResolveEnv.truncate env) (store s) caller ivk')"
        using st mem by (auto simp: list_all_iff)
      ultimately show "read_call (ResolveEnv.truncate env) (store s) caller (inv_tool ivk) (snd p)"
        by (metis read_call_def resolveCall_ok)
    qed
    have "distinct names" using ok by (auto simp: repoProblem_def Let_def split: if_splits)
    with resolved_names st show "distinct (map (t_name \<circ> rc_row \<circ> snd) (prepared_of found))" by (metis map_map comp_assoc)
    show ?adm if "limits_admit (clock env) (map (limit_key caller \<circ> snd) (prepared_of found)) (clock_reads s1) (limits s1)"
      using that st by (metis within_limits_def invocations_def assms option.simps(5) map_map length_map)
  qed
  have failed: "failAll ?env fs n e s1 = failAll env fs n e s1" for fs n e
    by (simp add: guarded_env_def)
  have refused: "now_of ?env s = now_of env s" "recordFailure ?env f e s' = recordFailure env f e s'" for f e s'
    by (simp_all add: guarded_env_def)
  show ?thesis
  proof (cases "repoProblem env ivk names")
    case None
    show ?thesis
    proof (cases "first_error 0 found")
      case first: None
      with None show ?thesis
        by (simp add: callMany_def problem resolve_names_guarded found first_error_swap prepared_of_swap calls [OF first None])
    next
      case (Some ne)
      obtain n e where ne: "ne = (n, e)" by (cases ne)
      show ?thesis
        by (simp add: callMany_def problem None resolve_names_guarded found first_error_swap Some ne fst_swap failed del: map_map)
    qed
  next
    case (Some m)
    then show ?thesis by (simp add: callMany_def problem refused)
  qed
qed


end
