(* ===== verification/EngineSafety.thy ===== *)
theory EngineSafety
  imports EngineGuard
begin

text \<open>
  What a call leaves behind, whatever becomes of it: one row and one event for each name, with the
  outcome the agent is told (ACT-60, ACT-62), the calls in flight as they were, and no secret in memory
  (ACT-50).
\<close>

section \<open>Secrets\<close>

definition zeroed_out :: "SecretHolder \<Rightarrow> bool" where
  "zeroed_out h \<longleftrightarrow> list_all (\<lambda>e. set (entry_value e) \<subseteq> {CHR 0x00}) (held h)"

lemma zeroed_dispose [simp]: "zeroed_out (holder_dispose h)"
  by (auto simp: zeroed_out_def holder_dispose_def zeroed_def list_all_iff)

lemma runConnector_zeroed:
  "runConnector env c s = (r, hs, s') \<Longrightarrow> list_all zeroed_out hs"
  "runConnectorMany env cs s = (r, hs, s') \<Longrightarrow> list_all zeroed_out hs"
  by (auto simp: runConnector_def runConnectorMany_def Let_def list_all_iff split: prod.splits sum.splits)

lemma execute_zeroed: "list_all zeroed_out (fst (snd (execute env facts c s)))"
  unfolding execute_def failed_call_def Let_def
  by (auto split: sum.split prod.split dest: runConnector_zeroed(1))

lemma call_one_zeroed: "list_all zeroed_out (fst (snd (call_one env caller ivk s)))"
  unfolding call_one_def failed_call_def released_def Let_def
  by (auto split: sum.split prod.split LimitDecision.split) (metis execute_zeroed fst_conv snd_conv)

lemma executeMany_zeroed: "list_all zeroed_out (fst (snd (executeMany env ps s)))"
  unfolding executeMany_def failed_call_def Let_def
  by (auto simp: list_all_iff split: sum.split prod.split) (auto dest!: runConnector_zeroed(2) simp: list_all_iff)

lemma callMany_zeroed: "list_all zeroed_out (fst (snd (callMany env caller ivk names s)))"
  unfolding callMany_def run_prepared_def release_all_def failed_call_def
  by (auto split: option.split prod.split) (metis executeMany_zeroed fst_conv snd_conv)

text \<open>Only a credential that cannot be fetched in full lets go of buffers it made.\<close>

lemma unzeroed_kept [simp]:
  "unzeroed (snd (now_of env s)) = unzeroed s" "unzeroed (snd (insertRow env f o' d s)) = unzeroed s"
  "unzeroed (auditEvent f oc d s) = unzeroed s" "unzeroed (completeCall rid oc n short d s) = unzeroed s"
  "unzeroed (snd (rotate_field env r field v s)) = unzeroed s" "unzeroed (release_limit ld s) = unzeroed s"
  by (simp_all add: now_of_def insertRow_def newId_def auditEvent_def completeCall_def rotate_field_def Let_def release_limit_def
      split: prod.split option.split sum.split LimitDecision.split)

lemma unzeroed_record [simp]:
  "unzeroed (snd (recordFailure env f e s)) = unzeroed s" "unzeroed (snd (reserveCall env f s)) = unzeroed s"
  "unzeroed (complete_reservation env f rid oc n short s) = unzeroed s"
  "unzeroed (snd (acquire_limit env key s)) = unzeroed s"
  using unzeroed_kept(1) [of env s]
  by (simp_all add: recordFailure_def reserveCall_def complete_reservation_def acquire_limit_def Let_def case_prod_beta)

lemma unzeroed_all [simp]:
  "unzeroed (snd (record_all env fs e s)) = unzeroed s" "unzeroed (snd (reserve_all env fs s)) = unzeroed s"
  "unzeroed (complete_all env ps oc n short s) = unzeroed s" "unzeroed (snd (failAll env fs k e s)) = unzeroed s"
  "unzeroed (snd (acquire_all env keys s)) = unzeroed s" "unzeroed (fold release_limit ds s) = unzeroed s"
  "unzeroed (snd (resolve_names env caller ivk names s)) = unzeroed s"
proof -
  show r: "unzeroed (snd (record_all env fs e s)) = unzeroed s" for fs s
    by (induction fs arbitrary: s) (simp_all add: case_prod_beta)
  show "unzeroed (snd (reserve_all env fs s)) = unzeroed s" by (induction fs arbitrary: s) (simp_all add: case_prod_beta)
  show "unzeroed (complete_all env ps oc n short s) = unzeroed s" by (induction ps arbitrary: s) auto
  show "unzeroed (snd (failAll env fs k e s)) = unzeroed s" by (simp add: failAll_def case_prod_beta r)
  show "unzeroed (snd (acquire_all env keys s)) = unzeroed s" by (induction keys arbitrary: s) (simp_all add: case_prod_beta)
  show "unzeroed (fold release_limit ds s) = unzeroed s" by (induction ds arbitrary: s) simp_all
  show "unzeroed (snd (resolve_names env caller ivk names s)) = unzeroed s"
    by (induction names arbitrary: s) (simp_all add: case_prod_beta Let_def)
qed

lemma unzeroed_script [simp]: "unzeroed (snd (snd (run_script env rs sc left hs s))) = unzeroed s"
  by (induction sc arbitrary: left hs s) (simp_all add: case_prod_beta)

lemma unzeroed_run [simp]:
  "unzeroed (snd (snd (runConnector env c s))) = unzeroed s" "unzeroed (snd (snd (runConnectorMany env cs s))) = unzeroed s"
  by (simp_all add: runConnector_def runConnectorMany_def Let_def case_prod_beta split: sum.split)

text \<open>The answer to a call, and the buffers it let go of.\<close>

definition told :: "CallResult \<Rightarrow> ActionErrorCode option" where
  "told r = (case r of CallOk _ \<Rightarrow> None | CallError e \<Rightarrow> Some (error_code e))"

definition kept_or_unavailable :: "EngineState \<Rightarrow> Answer \<Rightarrow> bool" where
  "kept_or_unavailable s answer \<longleftrightarrow>
     (case answer of (r, hs, s') \<Rightarrow> unzeroed s' = unzeroed s \<or> told r = Some credential_unavailable)"

lemma fetchCredential_Inl: "fetchCredential env c = Inl (e, buffers) \<Longrightarrow> e = action_error credential_unavailable []"
  by (auto simp: fetchCredential_def fail_def ok_def split: sum.splits prod.splits)

lemma error_code_scrubbed [simp]:
  "error_code (scrub_error view e) = error_code e" "error_code (withRepo e repo) = error_code e"
  "error_code (fst (recordFailure env f e s)) = error_code e"
  by (simp_all add: scrub_error_def withRepo_def recordFailure_def scrubbedError_def Let_def case_prod_beta split: option.split)

lemma failAll_code: "n < length fs \<Longrightarrow> error_code (fst (failAll env fs n e s)) = error_code e"
proof -
  have "n < length fs \<Longrightarrow> error_code (fst (record_all env fs e s) ! n) = error_code e" for n s
    by (induction fs arbitrary: n s) (auto simp: case_prod_beta nth_Cons split: nat.split)
  then show "n < length fs \<Longrightarrow> ?thesis" by (simp add: failAll_def case_prod_beta)
qed

lemma execute_kept: "kept_or_unavailable s (execute env facts c s)"
proof (cases "fetchCredential env c")
  case (Inl failure)
  then obtain e buffers where "fetchCredential env c = Inl (e, buffers)" by (cases failure) simp
  with fetchCredential_Inl [OF this] show ?thesis
    by (simp add: kept_or_unavailable_def execute_def failed_call_def told_def)
next
  case (Inr credential)
  show ?thesis
  proof (cases "pinDestination (net_lookup env) c")
    case (Inl e)
    with Inr show ?thesis by (simp add: kept_or_unavailable_def execute_def failed_call_def Let_def)
  next
    case pinned: (Inr pinned)
    define known where "known = facts\<lparr>facts_scrub := Some (scrubber credential)\<rparr>"
    obtain rid s1 where s1: "reserveCall env known s = (rid, s1)" by (cases "reserveCall env known s")
    obtain r hs s2 where s2: "runConnector env \<lparr>cc_resolved = c, cc_credential = credential, cc_pinned = pinned\<rparr> s1 = (r, hs, s2)"
      by (metis prod_cases3)
    have "unzeroed s2 = unzeroed s"
      using unzeroed_run(1) [of env "\<lparr>cc_resolved = c, cc_credential = credential, cc_pinned = pinned\<rparr>" s1]
        unzeroed_record(2) [of env known s] by (simp add: s1 s2)
    with Inr pinned s1 s2 show ?thesis
      by (simp add: kept_or_unavailable_def execute_def Let_def known_def split: sum.split)
  qed
qed

lemma prepare_calls_failed:
  "prepare_calls env ps = (known, Inl (n, e, buffers), hs) \<Longrightarrow>
   n < length known \<and> (buffers = [] \<or> error_code e = credential_unavailable)"
proof (induction ps arbitrary: known n hs)
  case (Cons p ps)
  obtain f c where p: "p = (f, c)" by (cases p)
  show ?case
  proof (cases "fetchCredential env c")
    case (Inl failure)
    then show ?thesis using Cons.prems fetchCredential_Inl by (cases failure) (fastforce simp: p fail_def)
  next
    case (Inr credential)
    with Cons show ?thesis
      by (cases "pinDestination (net_lookup env) c")
        (fastforce simp: p fail_def ok_def Let_def split: prod.splits sum.splits)+
  qed
qed (simp add: ok_def)

lemma executeMany_kept: "kept_or_unavailable s (executeMany env ps s)"
proof -
  obtain known r hs where p: "prepare_calls env ps = (known, r, hs)" by (metis prod_cases3)
  show ?thesis
  proof (cases r)
    case (Inl failure)
    then obtain n e buffers where f: "prepare_calls env ps = (known, Inl (n, e, buffers), hs)" using p by (cases failure) auto
    from prepare_calls_failed [OF f] show ?thesis
      by (auto simp: f kept_or_unavailable_def executeMany_def failed_call_def told_def failAll_code let_go_def)
  next
    case (Inr cs)
    obtain rids s1 where s1: "reserve_all env known s = (rids, s1)" by (cases "reserve_all env known s")
    obtain out hs' s2 where s2: "runConnectorMany env cs s1 = (out, hs', s2)" by (metis prod_cases3)
    have "unzeroed s2 = unzeroed s"
      using unzeroed_run(2) [of env cs s1] unzeroed_all(2) [of env known s] by (simp add: s1 s2)
    with Inr p s1 s2 show ?thesis by (simp add: kept_or_unavailable_def executeMany_def Let_def split: sum.split)
  qed
qed

lemma kept_from:
  "unzeroed s1 = unzeroed s \<Longrightarrow> kept_or_unavailable s1 answer \<Longrightarrow> kept_or_unavailable s answer"
  "unzeroed (snd recorded) = unzeroed s \<Longrightarrow> kept_or_unavailable s (failed_call hs recorded)"
  "kept_or_unavailable s answer \<Longrightarrow> kept_or_unavailable s (released d answer)"
  "kept_or_unavailable s answer \<Longrightarrow> kept_or_unavailable s (release_all ds answer)"
  by (auto simp: kept_or_unavailable_def failed_call_def released_def release_all_def split: prod.splits)

lemma call_one_kept: "kept_or_unavailable s (call_one env caller ivk s)"
proof -
  define found where "found = resolveCall (ResolveEnv.truncate env) (store s) caller ivk"
  obtain moment s1 where now: "now_of env s = (moment, s1)" by (cases "now_of env s")
  then have s1: "unzeroed s1 = unzeroed s" using unzeroed_kept(1) [of env s] by simp
  define facts where "facts = resolved_facts caller ivk moment found"
  show ?thesis
  proof (cases "att_call found")
    case (Inl e)
    with s1 show ?thesis by (auto simp: call_one_def now facts_def Let_def simp flip: found_def intro!: kept_from(2))
  next
    case (Inr c)
    obtain d s2 where a: "acquire_limit env (limit_key caller c) s1 = (d, s2)" by (cases "acquire_limit env (limit_key caller c) s1")
    then have s2: "unzeroed s2 = unzeroed s" using unzeroed_record(4) [of env "limit_key caller c" s1] s1 by simp
    show ?thesis
    proof (cases d)
      case (Acquired i j)
      then show ?thesis
        using Inr kept_from(3) [OF kept_from(1) [OF s2 execute_kept]]
        by (simp add: call_one_def now facts_def Let_def a flip: found_def)
    next
      case (LimitRefused seconds)
      with Inr s2 show ?thesis by (auto simp: call_one_def now facts_def Let_def a simp flip: found_def intro!: kept_from(2))
    qed
  qed
qed

lemma run_prepared_kept: "kept_or_unavailable s (run_prepared env caller ps s)"
proof (cases "jointDecision ps")
  case None
  obtain ds s1 where a: "acquire_all env (map (limit_key caller \<circ> snd) ps) s = (ds, s1)"
    by (cases "acquire_all env (map (limit_key caller \<circ> snd) ps) s")
  then have s1: "unzeroed s1 = unzeroed s" using unzeroed_all(5) [of env "map (limit_key caller \<circ> snd) ps" s] by simp
  show ?thesis
  proof (cases "refused_at 0 ds")
    case allowed: None
    then show ?thesis using kept_from(4) [OF kept_from(1) [OF s1 executeMany_kept]] by (simp add: run_prepared_def None a)
  next
    case (Some nr)
    obtain n seconds where nr: "nr = (n, seconds)" by (cases nr)
    have "kept_or_unavailable s (failed_call [] (failAll env (map fst ps) n (rate_limited_error seconds) s1))"
      by (rule kept_from(2)) (simp add: s1)
    from kept_from(4) [OF this] show ?thesis by (simp add: run_prepared_def None a Some nr)
  qed
qed (simp add: run_prepared_def kept_or_unavailable_def)

lemma callMany_kept: "kept_or_unavailable s (callMany env caller ivk names s)"
proof -
  obtain moment s1 where now: "now_of env s = (moment, s1)" by (cases "now_of env s")
  obtain found s2 where f: "resolve_names env caller ivk names s = (found, s2)" by (cases "resolve_names env caller ivk names s")
  have s: "unzeroed s1 = unzeroed s" "unzeroed s2 = unzeroed s"
    using unzeroed_kept(1) [of env s] unzeroed_all(7) [of env caller ivk names s] by (simp_all add: now f)
  show ?thesis
    by (auto simp: callMany_def now f s split: option.split intro: kept_from(2) kept_from(1) [OF s(2) run_prepared_kept])
qed


text \<open>
  The buffers left behind: of a mapping of two fields, where the second cannot be fetched, the value of
  the first stays in memory as it came from the vault.
\<close>

lemma fetched_buffers_left:
  assumes "credentialFields (rc_schemas c) (doc_credential (rc_documents c)) = [f1, f2]"
    and "fetched_value env (t_item_id (rc_row c)) f1 = Some v" "\<not> cf_is_username f1"
    and "fetched_value env (t_item_id (rc_row c)) f2 = None"
  shows "unzeroed (snd (snd (execute env facts c s))) = unzeroed s @ [\<lparr>entry_field = cf_name f1, entry_value = v\<rparr>]"
  using assms by (simp add: execute_def fetchCredential_def failed_call_def fail_def let_go_def)

text \<open>
  A connector that outlives its timeout is abandoned, not stopped: what it captures after the buffers
  were disposed of joins the holder and is never zeroed.
\<close>

lemma late_capture_not_zeroed:
  "\<not> zeroed_out (holder_add (holder_dispose h) \<lparr>entry_field = ''access_token'', entry_value = ''eyJ0''\<rparr>)"
  by (simp add: zeroed_out_def holder_add_def Let_def)

section \<open>Calls in flight\<close>

text \<open>What only the limiters change.\<close>

lemma limits_kept [simp]:
  "limits (snd (now_of env s)) = limits s" "limits (snd (insertRow env f o' d s)) = limits s"
  "limits (auditEvent f oc d s) = limits s" "limits (completeCall rid oc n short d s) = limits s"
  "limits (snd (rotate_field env r field v s)) = limits s"
  by (simp_all add: now_of_def insertRow_def newId_def auditEvent_def completeCall_def rotate_field_def Let_def
      split: prod.split option.split sum.split)

lemma limits_record [simp]:
  "limits (snd (recordFailure env f e s)) = limits s" "limits (snd (reserveCall env f s)) = limits s"
  "limits (complete_reservation env f rid oc n short s) = limits s"
  by (simp_all add: recordFailure_def reserveCall_def complete_reservation_def Let_def case_prod_beta)

lemma limits_all [simp]:
  "limits (snd (record_all env fs e s)) = limits s" "limits (snd (reserve_all env fs s)) = limits s"
  "limits (complete_all env ps oc n short s) = limits s" "limits (snd (failAll env fs k e s)) = limits s"
proof -
  show r: "limits (snd (record_all env fs e s)) = limits s" for fs s
    by (induction fs arbitrary: s) (simp_all add: case_prod_beta)
  show "limits (snd (reserve_all env fs s)) = limits s" by (induction fs arbitrary: s) (simp_all add: case_prod_beta)
  show "limits (complete_all env ps oc n short s) = limits s" by (induction ps arbitrary: s) auto
  show "limits (snd (failAll env fs k e s)) = limits s" by (simp add: failAll_def case_prod_beta r)
qed

lemma limits_script [simp]: "limits (snd (snd (run_script env rs sc left hs s))) = limits s"
  by (induction sc arbitrary: left hs s) (simp_all add: case_prod_beta)

lemma limits_run [simp]:
  "limits (snd (snd (runConnector env c s))) = limits s" "limits (snd (snd (runConnectorMany env cs s))) = limits s"
  by (simp_all add: runConnector_def runConnectorMany_def Let_def case_prod_beta split: sum.split)

lemma limits_let_go [simp]: "limits (let_go buffers s) = limits s"
  by (simp add: let_go_def)

lemma limits_execute [simp]: "limits (snd (snd (execute env facts c s))) = limits s"
proof (cases "fetchCredential env c")
  case (Inr credential)
  show ?thesis
  proof (cases "pinDestination (net_lookup env) c")
    case (Inr pinned)
    define known where "known = facts\<lparr>facts_scrub := Some (scrubber credential)\<rparr>"
    obtain rid s1 where s1: "reserveCall env known s = (rid, s1)" by (cases "reserveCall env known s")
    obtain r hs s2 where s2: "runConnector env \<lparr>cc_resolved = c, cc_credential = credential, cc_pinned = pinned\<rparr> s1 = (r, hs, s2)"
      by (metis prod_cases3)
    have "limits s2 = limits s"
      using limits_run(1) [of env "\<lparr>cc_resolved = c, cc_credential = credential, cc_pinned = pinned\<rparr>" s1]
        limits_record(2) [of env known s] by (simp add: s1 s2)
    with Inr \<open>fetchCredential env c = Inr credential\<close> s1 s2 show ?thesis
      by (simp add: execute_def Let_def known_def split: sum.split)
  qed (simp add: execute_def failed_call_def \<open>fetchCredential env c = Inr credential\<close> Let_def)
qed (simp add: execute_def failed_call_def case_prod_beta)

lemma limits_executeMany [simp]: "limits (snd (snd (executeMany env ps s))) = limits s"
proof -
  obtain known r hs where p: "prepare_calls env ps = (known, r, hs)" by (metis prod_cases3)
  show ?thesis
  proof (cases r)
    case (Inl failure)
    then show ?thesis by (cases failure) (simp add: executeMany_def failed_call_def p case_prod_beta)
  next
    case (Inr cs)
    obtain rids s1 where s1: "reserve_all env known s = (rids, s1)" by (cases "reserve_all env known s")
    obtain out hs' s2 where s2: "runConnectorMany env cs s1 = (out, hs', s2)" by (metis prod_cases3)
    have "limits s2 = limits s"
      using limits_run(2) [of env cs s1] limits_all(2) [of env known s] by (simp add: s1 s2)
    with Inr p s1 s2 show ?thesis by (simp add: executeMany_def Let_def split: sum.split)
  qed
qed

lemma limits_names [simp]: "limits (snd (resolve_names env caller ivk names s)) = limits s"
proof (induction names arbitrary: s)
  case (Cons name names)
  obtain moment s1 where now: "now_of env s = (moment, s1)" by (cases "now_of env s")
  obtain rest s2 where rest: "resolve_names env caller ivk names s1 = (rest, s2)" by (cases "resolve_names env caller ivk names s1")
  have "limits s2 = limits s" using Cons.IH [of s1] limits_kept(1) [of env s] by (simp add: now rest)
  then show ?case by (simp add: now rest Let_def)
qed simp

section \<open>Released handles\<close>

text \<open>A limiter's handles: entering appends a live one, releasing marks one.\<close>

definition mark :: "nat \<Rightarrow> (string \<times> bool) list \<Rightarrow> (string \<times> bool) list" where
  "mark i hs = (if i < length hs then hs[i := (fst (hs ! i), True)] else hs)"

lemma handles_release: "handles (flight_release f i) = mark i (handles f)"
proof (cases "i < length (handles f) \<and> snd (handles f ! i)")
  case True
  then have "(handles f)[i := (fst (handles f ! i), True)] = handles f"
    by (metis list_update_id prod.collapse)
  with True show ?thesis by (simp add: flight_release_def mark_def)
qed (auto simp: flight_release_def mark_def Let_def)

lemma mark_all:
  "length (fold mark is hs) = length hs \<and>
   (\<forall>j < length hs. fold mark is hs ! j = (if j \<in> set is then (fst (hs ! j), True) else hs ! j))"
proof (induction "is" arbitrary: hs)
  case (Cons i "is")
  from Cons [of "mark i hs"] show ?case by (auto simp: mark_def nth_list_update)
qed simp

lemma marked_live:
  assumes "set is = {length hs ..< length hs + length new}"
  shows "fold mark is (hs @ new) = hs @ map (\<lambda>h. (fst h, True)) new"
proof (rule nth_equalityI)
  note m = mark_all [of "is" "hs @ new"]
  then show "length (fold mark is (hs @ new)) = length (hs @ map (\<lambda>h. (fst h, True)) new)" by simp
  fix j assume "j < length (fold mark is (hs @ new))"
  then have j: "j < length hs + length new" using m by simp
  then have "fold mark is (hs @ new) ! j = (if length hs \<le> j then (fst ((hs @ new) ! j), True) else (hs @ new) ! j)"
    using m by (simp add: assms)
  also have "\<dots> = (hs @ map (\<lambda>h. (fst h, True)) new) ! j"
    using j by (cases "j < length hs") (simp_all add: nth_append)
  finally show "fold mark is (hs @ new) ! j = (hs @ map (\<lambda>h. (fst h, True)) new) ! j" .
qed


text \<open>Acquiring appends a live handle to each list, or none.\<close>

lemma acquire_handles:
  assumes "acquire l key moment = (d, l')"
  shows "(\<exists>seconds. d = LimitRefused seconds \<and> target_flights l' = target_flights l \<and> client_flights l' = client_flights l) \<or>
    (d = Acquired (length (handles (target_flights l))) (length (handles (client_flights l))) \<and>
     handles (target_flights l') = handles (target_flights l) @ [(limit_target key, False)] \<and>
     handles (client_flights l') = handles (client_flights l) @ [(limit_client key, False)])"
proof -
  obtain dt ts where t: "take_token MINUTE_MS (target_buckets l) (limit_target key) (targetPerMinute key) moment = (dt, ts)"
    by (cases "take_token MINUTE_MS (target_buckets l) (limit_target key) (targetPerMinute key) moment")
  obtain dc cs where c: "take_token MINUTE_MS (client_buckets l) (limit_client key) CLIENT_CALLS_PER_MINUTE moment = (dc, cs)"
    by (cases "take_token MINUTE_MS (client_buckets l) (limit_client key) CLIENT_CALLS_PER_MINUTE moment")
  show ?thesis
    using assms by (cases dt; cases dc) (auto simp: acquire_def t c Let_def flight_enter_def split: if_splits)
qed

definition target_handles :: "LimitDecision list \<Rightarrow> nat list" where
  "target_handles ds = List.map_filter (\<lambda>d. case d of Acquired i j \<Rightarrow> Some i | LimitRefused _ \<Rightarrow> None) ds"

definition client_handles :: "LimitDecision list \<Rightarrow> nat list" where
  "client_handles ds = List.map_filter (\<lambda>d. case d of Acquired i j \<Rightarrow> Some j | LimitRefused _ \<Rightarrow> None) ds"

lemma target_handles_simps [simp]:
  "target_handles [] = []" "target_handles (Acquired i j # ds) = i # target_handles ds"
  "target_handles (LimitRefused n # ds) = target_handles ds"
  "client_handles [] = []" "client_handles (Acquired i j # ds) = j # client_handles ds"
  "client_handles (LimitRefused n # ds) = client_handles ds"
  by (simp_all add: target_handles_def client_handles_def List.map_filter_def)

text \<open>What a round of acquisitions adds, and that releasing its decisions takes exactly that away.\<close>

definition entered :: "InFlight \<Rightarrow> InFlight \<Rightarrow> nat list \<Rightarrow> bool" where
  "entered f f' is \<longleftrightarrow> (\<exists>new. handles f' = handles f @ new \<and>
     set is = {length (handles f) ..< length (handles f) + length new})"

lemma entered_none: "entered f f []" by (simp add: entered_def)

lemma entered_one:
  assumes "handles f' = handles f @ [h]" "entered f' f'' is"
  shows "entered f f'' (length (handles f) # is)"
proof -
  from assms(2) obtain new where new: "handles f'' = handles f' @ new"
    and s: "set is = {length (handles f') ..< length (handles f') + length new}"
    by (auto simp: entered_def)
  show ?thesis unfolding entered_def
    by (rule exI [of _ "h # new"]) (auto simp: new assms(1) s)
qed

lemma entered_same: "handles f' = handles f \<Longrightarrow> entered f' f'' is \<Longrightarrow> entered f f'' is"
  by (simp add: entered_def)

lemma acquire_all_entered:
  assumes "acquire_all env keys s = (ds, s')" "limits_inv (limits s)"
  shows "limits_inv (limits s') \<and>
    entered (target_flights (limits s)) (target_flights (limits s')) (target_handles ds) \<and>
    entered (client_flights (limits s)) (client_flights (limits s')) (client_handles ds)"
  using assms
proof (induction keys arbitrary: s ds)
  case (Cons key keys)
  obtain d s1 where a: "acquire_limit env key s = (d, s1)" by (cases "acquire_limit env key s")
  obtain ds1 s2 where r: "acquire_all env keys s1 = (ds1, s2)" by (cases "acquire_all env keys s1")
  with Cons.prems(1) a have ds: "ds = d # ds1" and s': "s' = s2" by auto
  from a have acq: "acquire (limits s) key (clock env (clock_reads s)) = (d, limits s1)"
    by (auto simp: acquire_limit_def now_of_def split: prod.splits)
  have IH: "limits_inv (limits s2)" "entered (target_flights (limits s1)) (target_flights (limits s2)) (target_handles ds1)"
    "entered (client_flights (limits s1)) (client_flights (limits s2)) (client_handles ds1)"
    using Cons.IH [OF r [folded s'], folded s'] acquire_inv [OF Cons.prems(2) acq] s' by auto
  from acquire_handles [OF acq] show ?case
  proof (elim disjE exE conjE)
    fix seconds
    assume "d = LimitRefused seconds" "target_flights (limits s1) = target_flights (limits s)"
      "client_flights (limits s1) = client_flights (limits s)"
    with IH show ?thesis by (simp add: ds s')
  next
    assume "d = Acquired (length (handles (target_flights (limits s)))) (length (handles (client_flights (limits s))))"
      "handles (target_flights (limits s1)) = handles (target_flights (limits s)) @ [(limit_target key, False)]"
      "handles (client_flights (limits s1)) = handles (client_flights (limits s)) @ [(limit_client key, False)]"
    with IH show ?thesis by (simp add: ds s' entered_one)
  qed
qed (auto simp: entered_none)

lemma release_fold:
  "handles (target_flights (limits (fold release_limit ds s))) = fold mark (target_handles ds) (handles (target_flights (limits s)))"
  "handles (client_flights (limits (fold release_limit ds s))) = fold mark (client_handles ds) (handles (client_flights (limits s)))"
  "limits_inv (limits s) \<Longrightarrow> limits_inv (limits (fold release_limit ds s))"
proof (induction ds arbitrary: s)
  case (Cons d ds)
  {
    case 1 show ?case using Cons.IH(1) by (cases d) (simp_all add: release_limit_def release_def handles_release)
  next
    case 2 show ?case using Cons.IH(2) by (cases d) (simp_all add: release_limit_def release_def handles_release)
  next
    case 3 then show ?case using Cons.IH(3) by (cases d) (simp_all add: release_limit_def release_inv)
  }
qed simp_all

text \<open>The flights of two states of the limits that hold the same handles unreleased.\<close>

definition same_flights :: "ActionLimits \<Rightarrow> ActionLimits \<Rightarrow> bool" where
  "same_flights l l' \<longleftrightarrow> flight_count (target_flights l') = flight_count (target_flights l) \<and>
     flight_count (client_flights l') = flight_count (client_flights l)"

lemma counts_restored:
  assumes "flight_inv f" "flight_inv g" "entered f f' is" "handles g = fold mark is (handles f')"
  shows "flight_count g = flight_count f"
proof -
  from assms(3) obtain new where "handles f' = handles f @ new"
    "set is = {length (handles f) ..< length (handles f) + length new}"
    by (auto simp: entered_def)
  then have "handles g = handles f @ map (\<lambda>h. (fst h, True)) new" using assms(4) marked_live by metis
  then have "live_handles g key = live_handles f key" for key
    by (simp add: live_handles_def comp_def filter_map)
  with assms(1,2) show ?thesis by (auto simp: flight_inv_def)
qed

lemma acquired_released:
  assumes "acquire_all env keys s = (ds, s1)" "limits_inv (limits s)" "limits s2 = limits s1"
  shows "same_flights (limits s) (limits (fold release_limit ds s2))"
proof -
  note e = acquire_all_entered [OF assms(1,2)]
  have "limits_inv (limits (fold release_limit ds s2))" using e release_fold(3) assms(3) by simp
  then show ?thesis
    using assms(2) e counts_restored release_fold(1,2) [of ds s2] unfolding same_flights_def limits_inv_def assms(3) by metis
qed


lemma same_flights_refl [simp]: "same_flights l l"
  by (simp add: same_flights_def)

lemma limits_failed [simp]:
  "snd (snd (failed_call hs x)) = snd x" "snd (snd (released d a)) = release_limit d (snd (snd a))"
  "snd (snd (release_all ds a)) = fold release_limit ds (snd (snd a))"
  by (simp_all add: failed_call_def released_def release_all_def split: prod.split)

lemma call_one_flights:
  assumes "limits_inv (limits s)"
  shows "same_flights (limits s) (limits (snd (snd (call_one env caller ivk s))))"
proof -
  define found where "found = resolveCall (ResolveEnv.truncate env) (store s) caller ivk"
  obtain moment s1 where now: "now_of env s = (moment, s1)" by (cases "now_of env s")
  then have l1: "limits s1 = limits s" using limits_kept(1) [of env s] by simp
  define facts where "facts = resolved_facts caller ivk moment found"
  show ?thesis
  proof (cases "att_call found")
    case (Inl e)
    then have "snd (snd (call_one env caller ivk s)) = snd (recordFailure env facts e s1)"
      by (simp add: call_one_def now facts_def Let_def flip: found_def)
    then show ?thesis by (simp add: l1)
  next
    case (Inr resolved)
    obtain d s2 where a: "acquire_limit env (limit_key caller resolved) s1 = (d, s2)"
      by (cases "acquire_limit env (limit_key caller resolved) s1")
    then have all: "acquire_all env [limit_key caller resolved] s1 = ([d], s2)" by simp
    define s3 where "s3 = (case d of
        LimitRefused seconds \<Rightarrow> snd (recordFailure env facts (rate_limited_error seconds) s2)
      | Acquired _ _ \<Rightarrow> snd (snd (execute env facts resolved s2)))"
    have "snd (snd (call_one env caller ivk s)) = fold release_limit [d] s3"
      using Inr by (cases d) (simp_all add: call_one_def now facts_def Let_def a s3_def release_limit_def flip: found_def)
    moreover have "limits s3 = limits s2" by (cases d) (simp_all add: s3_def)
    ultimately show ?thesis using acquired_released [OF all] assms l1 by metis
  qed
qed

lemma run_prepared_flights:
  assumes "limits_inv (limits s)"
  shows "same_flights (limits s) (limits (snd (snd (run_prepared env caller ps s))))"
proof (cases "jointDecision ps")
  case None
  obtain ds s1 where a: "acquire_all env (map (limit_key caller \<circ> snd) ps) s = (ds, s1)"
    by (cases "acquire_all env (map (limit_key caller \<circ> snd) ps) s")
  define s2 where "s2 = (case refused_at 0 ds of
      Some (n, seconds) \<Rightarrow> snd (failAll env (map fst ps) n (rate_limited_error seconds) s1)
    | None \<Rightarrow> snd (snd (executeMany env ps s1)))"
  have "snd (snd (run_prepared env caller ps s)) = fold release_limit ds s2"
    by (simp add: run_prepared_def None a s2_def split: option.split prod.split)
  moreover have "limits s2 = limits s1" by (simp add: s2_def split: option.split prod.split)
  ultimately show ?thesis using acquired_released [OF a assms] by metis
qed (simp add: run_prepared_def)

lemma callMany_flights:
  assumes "limits_inv (limits s)"
  shows "same_flights (limits s) (limits (snd (snd (callMany env caller ivk names s))))"
proof (cases "repoProblem env ivk names")
  case (Some problem)
  obtain moment s1 where now: "now_of env s = (moment, s1)" by (cases "now_of env s")
  with limits_kept(1) [of env s] Some show ?thesis by (simp add: callMany_def)
next
  case None
  obtain found s1 where f: "resolve_names env caller ivk names s = (found, s1)" by (cases "resolve_names env caller ivk names s")
  then have l1: "limits s1 = limits s" using limits_names [of env caller ivk names s] by simp
  show ?thesis
  proof (cases "first_error 0 found")
    case first: None
    with None f run_prepared_flights [of s1 env caller "prepared_of found"] assms l1 show ?thesis
      by (simp add: callMany_def)
  next
    case (Some ne)
    with None f l1 show ?thesis by (cases ne) (simp add: callMany_def)
  qed
qed

text \<open>
  C13: A call gives back every slot it took: whatever becomes of it, refused halfway through its
  targets, failed or timed out, the calls in flight of each target and each client are as many when it
  returns as when it came.
\<close>

theorem slots_given_back:
  assumes "limits_inv (limits s)"
  shows "flight_count (target_flights (limits (snd (snd (engine_call env caller ivk s))))) target =
      flight_count (target_flights (limits s)) target \<and>
    flight_count (client_flights (limits (snd (snd (engine_call env caller ivk s))))) client =
      flight_count (client_flights (limits s)) client"
  using call_one_flights [OF assms, of env caller ivk] callMany_flights [OF assms, of env caller ivk]
  by (cases "inv_targets ivk") (simp_all add: engine_call_def same_flights_def)


section \<open>Rows and events\<close>

text \<open>
  Ids that were not given out yet name no row, which is what \<^verbatim>\<open>newId\<close> promises; then completing
  a reservation touches the reserved row alone.
\<close>

definition ids_inv :: "'e EngineEnv_scheme \<Rightarrow> EngineState \<Rightarrow> bool" where
  "ids_inv env s \<longleftrightarrow> inj (fresh env) \<and> row_id ` set (call_rows s) \<subseteq> fresh env ` {..<ids_used s}"

definition audited :: "EngineEvent list \<Rightarrow> CallAudit list" where
  "audited es = List.map_filter (\<lambda>e. case e of CallAudited a \<Rightarrow> Some a | CredentialRotated _ _ _ _ \<Rightarrow> None) es"

definition row_of :: "CallFacts \<Rightarrow> CallOutcome \<Rightarrow> CallRow \<Rightarrow> bool" where
  "row_of f outcome r \<longleftrightarrow>
     row_targetName r = inv_target (facts_invocation f) \<and> row_tool r = inv_tool (facts_invocation f) \<and>
     row_clientId r = caller_client (facts_caller f) \<and> row_tokenPrefix r = caller_prefix (facts_caller f) \<and>
     row_requestId r = caller_request (facts_caller f) \<and> row_ip r = caller_ip (facts_caller f) \<and> row_outcome r = outcome"

definition event_of :: "CallFacts \<Rightarrow> ActionOutcome \<Rightarrow> CallAudit \<Rightarrow> bool" where
  "event_of f outcome a \<longleftrightarrow>
     audit_target a = inv_target (facts_invocation f) \<and> audit_tool a = inv_tool (facts_invocation f) \<and>
     audit_clientId a = caller_client (facts_caller f) \<and> audit_tokenPrefix a = caller_prefix (facts_caller f) \<and>
     audit_requestId a = caller_request (facts_caller f) \<and> audit_ip a = caller_ip (facts_caller f) \<and> audit_outcome a = outcome"

text \<open>From one state to the next: rows appended for facts, with an outcome each, and events.\<close>

definition wrote :: "'e EngineEnv_scheme \<Rightarrow> EngineState \<Rightarrow> EngineState \<Rightarrow> CallRow list \<Rightarrow> CallAudit list \<Rightarrow> bool" where
  "wrote env s s' rs as \<longleftrightarrow>
     ids_inv env s' \<and> call_rows s' = call_rows s @ rs \<and> audited (engine_events s') = audited (engine_events s) @ as"

lemma audited_append [simp]: "audited (xs @ ys) = audited xs @ audited ys"
  by (simp add: audited_def List.map_filter_def)

lemma audited_simps [simp]:
  "audited [] = []" "audited [CallAudited a] = [a]" "audited [CredentialRotated i f n k] = []"
  by (simp_all add: audited_def List.map_filter_def)

lemma wrote_trans: "wrote env s s1 rs as \<Longrightarrow> wrote env s1 s2 rs' as' \<Longrightarrow> wrote env s s2 (rs @ rs') (as @ as')"
  by (simp add: wrote_def)

lemma wrote_none: "ids_inv env s \<Longrightarrow> call_rows s' = call_rows s \<Longrightarrow> audited (engine_events s') = audited (engine_events s) \<Longrightarrow>
    ids_used s' = ids_used s \<Longrightarrow> wrote env s s' [] []"
  by (simp add: wrote_def ids_inv_def)

lemma wrote_limits: "wrote env s s' rs as \<Longrightarrow> wrote env (s\<lparr>limits := l\<rparr>) s' rs as"
    "wrote env s s' rs as \<Longrightarrow> wrote env s (s'\<lparr>limits := l\<rparr>) rs as"
  by (simp add: wrote_def ids_inv_def) (auto simp: wrote_def ids_inv_def image_subset_iff)

lemma wrote_now: "ids_inv env s \<Longrightarrow> wrote env s (snd (now_of env s)) [] []"
  by (rule wrote_none) (simp_all add: now_of_def)

lemma wrote_insertRow:
  assumes "ids_inv env s" "insertRow env f outcome d s = (rid, s')"
  shows "\<exists>r. wrote env s s' [r] [] \<and> row_of f outcome r \<and> row_id r = rid \<and> rid = fresh env (ids_used s) \<and>
    engine_events s' = engine_events s \<and> ids_used s' = Suc (ids_used s)"
proof -
  from assms(1) have "\<forall>r \<in> set (call_rows s). row_id r \<in> fresh env ` {..<Suc (ids_used s)}" "inj (fresh env)"
    unfolding ids_inv_def by (auto simp: image_subset_iff less_Suc_eq)
  with assms(2) show ?thesis
    by (auto simp: insertRow_def newId_def wrote_def ids_inv_def row_of_def image_subset_iff split: prod.splits)
qed

lemma wrote_auditEvent:
  assumes "ids_inv env s"
  shows "\<exists>a. wrote env s (auditEvent f outcome d s) [] [a] \<and> event_of f outcome a"
  using assms by (auto simp: auditEvent_def wrote_def ids_inv_def event_of_def)

lemma wrote_recordFailure:
  assumes "ids_inv env s"
  shows "\<exists>r a. wrote env s (snd (recordFailure env f e s)) [r] [a] \<and>
    row_of f (Ended (outcomeOf e)) r \<and> event_of f (outcomeOf e) a \<and> error_code (fst (recordFailure env f e s)) = error_code e"
proof -
  define final where "final = scrubbedError f e"
  have code: "error_code final = error_code e"
    by (simp add: final_def scrubbedError_def scrub_error_def action_error_def split: option.split)
  then have out: "outcomeOf final = outcomeOf e" by (simp add: outcomeOf_def)
  obtain t s1 where now: "now_of env s = (t, s1)" by (cases "now_of env s")
  obtain rid s2 where ins: "insertRow env f (Ended (outcomeOf e)) (t - facts_startedAt f) s1 = (rid, s2)"
    by (cases "insertRow env f (Ended (outcomeOf e)) (t - facts_startedAt f) s1")
  have w1: "wrote env s s1 [] []" using wrote_now [OF assms] by (simp add: now)
  then have i1: "ids_inv env s1" by (simp add: wrote_def)
  from wrote_insertRow [OF i1 ins] obtain r where r: "wrote env s1 s2 [r] []" "row_of f (Ended (outcomeOf e)) r" by blast
  then have "ids_inv env s2" by (simp add: wrote_def)
  from wrote_auditEvent [OF this] obtain a
    where a: "wrote env s2 (auditEvent f (outcomeOf e) (t - facts_startedAt f) s2) [] [a]" "event_of f (outcomeOf e) a" by blast
  have "recordFailure env f e s = (final, auditEvent f (outcomeOf e) (t - facts_startedAt f) s2)"
    by (simp add: recordFailure_def now ins out Let_def flip: final_def)
  with code r(2) a(2) wrote_trans [OF wrote_trans [OF w1 r(1)] a(1)] show ?thesis by auto
qed


text \<open>Who called what, which is all of the facts the rows and events are checked for.\<close>

definition who_of :: "CallFacts \<Rightarrow> Caller \<times> Invocation" where
  "who_of f = (facts_caller f, facts_invocation f)"

lemma who_of_scrub [simp]: "who_of (f\<lparr>facts_scrub := x\<rparr>) = who_of f"
  by (simp add: who_of_def)

lemma row_of_who: "who_of f = who_of g \<Longrightarrow> row_of f oc r = row_of g oc r"
  by (simp add: who_of_def row_of_def)

lemma event_of_who: "who_of f = who_of g \<Longrightarrow> event_of f oc a = event_of g oc a"
  by (simp add: who_of_def event_of_def)

definition recorded :: "'e EngineEnv_scheme \<Rightarrow> CallFacts list \<Rightarrow> ActionOutcome \<Rightarrow> EngineState \<Rightarrow> EngineState \<Rightarrow> bool" where
  "recorded env fs oc s s' \<longleftrightarrow> (\<exists>rs as. wrote env s s' rs as \<and>
     list_all2 (\<lambda>f r. row_of f (Ended oc) r) fs rs \<and> list_all2 (\<lambda>f a. event_of f oc a) fs as)"

lemma list_all2_who:
  assumes "map who_of fs = map who_of gs"
  shows "list_all2 (\<lambda>f r. row_of f oc r) fs rs = list_all2 (\<lambda>f r. row_of f oc r) gs rs"
    "list_all2 (\<lambda>f a. event_of f oc' a) fs as = list_all2 (\<lambda>f a. event_of f oc' a) gs as"
proof -
  have n: "length fs = length gs" using assms by (rule map_eq_imp_length_eq)
  have who: "who_of (fs ! i) = who_of (gs ! i)" if "i < length gs" for i
    using assms that n by (metis nth_map)
  show "list_all2 (\<lambda>f r. row_of f oc r) fs rs = list_all2 (\<lambda>f r. row_of f oc r) gs rs"
    "list_all2 (\<lambda>f a. event_of f oc' a) fs as = list_all2 (\<lambda>f a. event_of f oc' a) gs as"
    using n row_of_who [OF who] event_of_who [OF who] by (auto simp: list_all2_conv_all_nth)
qed

lemma recorded_who: "map who_of fs = map who_of gs \<Longrightarrow> recorded env fs oc s s' = recorded env gs oc s s'"
  unfolding recorded_def using list_all2_who by metis

lemma recorded_failure: "ids_inv env s \<Longrightarrow> recorded env [f] (outcomeOf e) s (snd (recordFailure env f e s))"
  unfolding recorded_def using wrote_recordFailure [of env s f e] by force

lemma recorded_cons:
  assumes "recorded env [f] oc s s1" "recorded env fs oc s1 s2"
  shows "recorded env (f # fs) oc s s2"
proof -
  from assms obtain r a where 1: "wrote env s s1 [r] [a]" "row_of f (Ended oc) r" "event_of f oc a"
    by (auto simp: recorded_def list_all2_Cons1)
  from assms obtain rs as where 2: "wrote env s1 s2 rs as" "list_all2 (\<lambda>f r. row_of f (Ended oc) r) fs rs"
    "list_all2 (\<lambda>f a. event_of f oc a) fs as"
    by (auto simp: recorded_def)
  from wrote_trans [OF 1(1) 2(1)] have "wrote env s s2 (r # rs) (a # as)" by simp
  with 1 2 show ?thesis unfolding recorded_def by blast
qed

lemma recorded_inv: "recorded env fs oc s s' \<Longrightarrow> ids_inv env s'"
  by (auto simp: recorded_def wrote_def)

lemma recorded_after: "wrote env s s1 [] [] \<Longrightarrow> recorded env fs oc s1 s2 \<Longrightarrow> recorded env fs oc s s2"
  unfolding recorded_def using wrote_trans by fastforce

lemma recorded_then: "recorded env fs oc s s1 \<Longrightarrow> wrote env s1 s2 [] [] \<Longrightarrow> recorded env fs oc s s2"
  unfolding recorded_def using wrote_trans by fastforce

lemma recorded_record_all: "ids_inv env s \<Longrightarrow> recorded env fs (outcomeOf e) s (snd (record_all env fs e s))"
proof (induction fs arbitrary: s)
  case (Cons f fs)
  obtain final s1 where f: "recordFailure env f e s = (final, s1)" by (cases "recordFailure env f e s")
  obtain finals s2 where r: "record_all env fs e s1 = (finals, s2)" by (cases "record_all env fs e s1")
  from recorded_failure [OF Cons.prems, of f e] have 1: "recorded env [f] (outcomeOf e) s s1" by (simp add: f)
  from Cons.IH [OF recorded_inv [OF 1]] have "recorded env fs (outcomeOf e) s1 s2" by (simp add: r)
  with recorded_cons [OF 1 this] show ?case by (simp add: f r)
qed (simp add: recorded_def wrote_def)

lemma record_all_codes: "list_all (\<lambda>final. error_code final = error_code e) (fst (record_all env fs e s))"
proof (induction fs arbitrary: s)
  case (Cons f fs)
  obtain final s1 where f: "recordFailure env f e s = (final, s1)" by (cases "recordFailure env f e s")
  obtain finals s2 where r: "record_all env fs e s1 = (finals, s2)" by (cases "record_all env fs e s1")
  have "error_code final = error_code e"
    using f by (auto simp: recordFailure_def Let_def scrubbedError_def scrub_error_def action_error_def split: prod.splits option.splits)
  with Cons.IH [of s1] show ?case by (simp add: f r)
qed simp

lemma length_record_all: "length (fst (record_all env fs e s)) = length fs"
  by (induction fs arbitrary: s) (auto simp: case_prod_beta)

lemma failAll_recorded:
  assumes "ids_inv env s"
  shows "recorded env fs (outcomeOf e) s (snd (failAll env fs n e s))" "error_code (fst (failAll env fs n e s)) = error_code e"
proof -
  show "recorded env fs (outcomeOf e) s (snd (failAll env fs n e s))"
    using recorded_record_all [OF assms] by (simp add: failAll_def case_prod_beta)
  have "error_code (fst (record_all env fs e s) ! n) = error_code e" if "n < length fs"
    using record_all_codes [of e env fs s] that by (simp add: list_all_length length_record_all)
  then show "error_code (fst (failAll env fs n e s)) = error_code e"
    by (simp add: failAll_def case_prod_beta withRepo_def action_error_def)
qed


text \<open>A run writes no row, uses no id and audits no call.\<close>

definition same_records :: "EngineState \<Rightarrow> EngineState \<Rightarrow> bool" where
  "same_records s s' \<longleftrightarrow> call_rows s' = call_rows s \<and> ids_used s' = ids_used s \<and>
     audited (engine_events s') = audited (engine_events s)"

lemma same_records_refl [simp]: "same_records s s"
  by (simp add: same_records_def)

lemma same_records_trans: "same_records s s1 \<Longrightarrow> same_records s1 s2 \<Longrightarrow> same_records s s2"
  by (simp add: same_records_def)

lemma same_records_now: "same_records s (snd (now_of env s))"
  by (simp add: same_records_def now_of_def)

lemma same_records_rotate: "same_records s (snd (rotate_field env r field v s))"
  by (auto simp: same_records_def rotate_field_def Let_def split: option.split sum.split)

lemma same_records_script: "same_records s (snd (snd (run_script env rs sc left hs s)))"
proof (induction sc arbitrary: left hs s)
  case (RotateField i field v rest)
  obtain answer s1 where r: "rotate_field env (rs ! i) field v s = (answer, s1)" by (cases "rotate_field env (rs ! i) field v s")
  have "same_records s s1" using same_records_rotate [of s env "rs ! i" field v] by (simp add: r)
  with RotateField.IH show ?case by (auto simp: r intro: same_records_trans)
qed simp_all

lemma same_records_run:
  "same_records s (snd (snd (runConnector env c s)))" "same_records s (snd (snd (runConnectorMany env cs s)))"
proof -
  have final: "same_records s s2 \<Longrightarrow> same_records s (snd (now_of env s2))" for s2
    using same_records_trans same_records_now by blast
  have run: "same_records s (snd (snd (run_script env rs sc left hs (snd (now_of env s)))))" for rs sc left hs
    using same_records_trans [OF same_records_now same_records_script] .
  show "same_records s (snd (snd (runConnector env c s)))"
    unfolding runConnector_def Let_def
    by (simp add: case_prod_beta run split: sum.split) (metis final run)
  show "same_records s (snd (snd (runConnectorMany env cs s)))"
    unfolding runConnectorMany_def Let_def
    by (simp add: case_prod_beta run split: sum.split) (metis final run)
qed

lemma reserve_all_rows:
  assumes "ids_inv env s" "reserve_all env fs s = (rids, s')"
  shows "\<exists>rs. wrote env s s' rs [] \<and> list_all2 (\<lambda>f r. row_of f Interrupted r) fs rs \<and> map row_id rs = rids \<and>
    rids = map (fresh env) [ids_used s ..< ids_used s + length fs]"
  using assms
proof (induction fs arbitrary: s rids)
  case (Cons f fs)
  obtain rid s1 where f: "reserveCall env f s = (rid, s1)" by (cases "reserveCall env f s")
  from Cons.prems(2) f obtain rids1 where r: "reserve_all env fs s1 = (rids1, s')" and "rids = rid # rids1"
    by (auto split: prod.splits)
  from wrote_insertRow [OF Cons.prems(1) f [unfolded reserveCall_def]] obtain x
    where x: "wrote env s s1 [x] []" "row_of f Interrupted x" "row_id x = rid" "rid = fresh env (ids_used s)"
      "ids_used s1 = Suc (ids_used s)"
    by blast
  then have "ids_inv env s1" by (simp add: wrote_def)
  from Cons.IH [OF this r] obtain rs where rs: "wrote env s1 s' rs []" "list_all2 (\<lambda>f r. row_of f Interrupted r) fs rs"
    "map row_id rs = rids1" "rids1 = map (fresh env) [ids_used s1 ..< ids_used s1 + length fs]"
    by blast
  have "wrote env s s' (x # rs) []" using wrote_trans [OF x(1) rs(1)] by simp
  moreover have "rid # rids1 = map (fresh env) [ids_used s ..< ids_used s + length (f # fs)]"
    using x(4,5) rs(4) by (simp add: upt_conv_Cons del: upt_Suc)
  ultimately show ?case
    using x rs \<open>rids = rid # rids1\<close> by (intro exI [of _ "x # rs"]) simp
qed (auto simp: wrote_def)

lemma completeCall_rows:
  assumes "call_rows s = old @ r # rs" "row_id r = rid" "rid \<notin> row_id ` set old" "rid \<notin> row_id ` set rs"
  shows "call_rows (completeCall rid oc n short d s) = old @
    r\<lparr>row_outcome := Ended oc, row_outputBytes := n, row_outputTruncated := short, row_durationMs := d\<rparr> # rs"
proof -
  let ?g = "\<lambda>r. if row_id r = rid
    then r\<lparr>row_outcome := Ended oc, row_outputBytes := n, row_outputTruncated := short, row_durationMs := d\<rparr> else r"
  have "map ?g old = old" "map ?g rs = rs" using assms(3,4) by (auto intro!: map_idI)
  then show ?thesis by (simp add: completeCall_def assms(1,2))
qed

lemma complete_all_rows:
  assumes "call_rows s = old @ rs" "row_id ` set old \<inter> set (map snd ps) = {}" "map row_id rs = map snd ps"
    "distinct (map snd ps)" "list_all2 (\<lambda>p r. row_of (fst p) Interrupted r) ps rs"
  shows "\<exists>rs' as. call_rows (complete_all env ps oc n short s) = old @ rs' \<and> map row_id rs' = map row_id rs \<and>
    list_all2 (\<lambda>p r. row_of (fst p) (Ended oc) r) ps rs' \<and> list_all2 (\<lambda>p a. event_of (fst p) oc a) ps as \<and>
    audited (engine_events (complete_all env ps oc n short s)) = audited (engine_events s) @ as \<and>
    ids_used (complete_all env ps oc n short s) = ids_used s"
  using assms
proof (induction ps arbitrary: s old rs)
  case (Cons p ps)
  obtain f rid where p: "p = (f, rid)" by (cases p)
  from Cons.prems(5) obtain r rs1 where rs: "rs = r # rs1" "row_of f Interrupted r"
    "list_all2 (\<lambda>p r. row_of (fst p) Interrupted r) ps rs1"
    by (auto simp: list_all2_Cons1 p)
  have rid: "row_id r = rid" "map row_id rs1 = map snd ps" using Cons.prems(3) by (simp_all add: rs p)
  obtain t s1 where now: "now_of env s = (t, s1)" by (cases "now_of env s")
  define d where "d = t - facts_startedAt f"
  define r' where "r' = r\<lparr>row_outcome := Ended oc, row_outputBytes := n, row_outputTruncated := short, row_durationMs := d\<rparr>"
  define s2 where "s2 = auditEvent f oc d (completeCall rid oc n short d s1)"
  have s2: "complete_reservation env f rid oc n short s = s2"
    by (simp add: complete_reservation_def now Let_def s2_def d_def)
  have s1: "call_rows s1 = call_rows s" "engine_events s1 = engine_events s" "ids_used s1 = ids_used s"
    using now by (auto simp: now_of_def)
  have "rid \<notin> row_id ` set rs1"
    using Cons.prems(4) rid(2) by (simp add: p flip: set_map)
  moreover have "rid \<notin> row_id ` set old" using Cons.prems(2) by (auto simp: p)
  ultimately have rows: "call_rows s2 = (old @ [r']) @ rs1"
    using completeCall_rows [of s1 old r rs1 rid oc n short d] Cons.prems(1) s1(1) rid(1)
    by (simp add: s2_def auditEvent_def r'_def rs)
  have "row_id r' = rid" "row_of f (Ended oc) r'" using rid(1) rs(2) by (simp_all add: r'_def row_of_def)
  obtain a where a: "audited (engine_events s2) = audited (engine_events s) @ [a]" "event_of f oc a" "ids_used s2 = ids_used s"
    using s1 by (auto simp: s2_def auditEvent_def completeCall_def event_of_def)
  have "row_id ` set (old @ [r']) \<inter> set (map snd ps) = {}"
    using Cons.prems(2,4) \<open>row_id r' = rid\<close> by (auto simp: p)
  from Cons.IH [OF rows this rid(2) _ rs(3)] Cons.prems(4) obtain rs' as
    where IH: "call_rows (complete_all env ps oc n short s2) = (old @ [r']) @ rs'" "map row_id rs' = map row_id rs1"
      "list_all2 (\<lambda>p r. row_of (fst p) (Ended oc) r) ps rs'" "list_all2 (\<lambda>p a. event_of (fst p) oc a) ps as"
      "audited (engine_events (complete_all env ps oc n short s2)) = audited (engine_events s2) @ as"
      "ids_used (complete_all env ps oc n short s2) = ids_used s2"
    by (auto simp: p)
  with a \<open>row_id r' = rid\<close> \<open>row_of f (Ended oc) r'\<close> rid(1) show ?case
    by (intro exI [of _ "r' # rs'"] exI [of _ "a # as"]) (simp add: p s2 rs)
qed simp

lemma completed_recorded:
  assumes "ids_inv env s" "reserve_all env fs s = (rids, s1)" "same_records s1 s2"
  shows "recorded env fs oc s (complete_all env (zip fs rids) oc n short s2)"
proof -
  from reserve_all_rows [OF assms(1,2)] obtain rs
    where w: "wrote env s s1 rs []" and rs: "list_all2 (\<lambda>f r. row_of f Interrupted r) fs rs" and ids: "map row_id rs = rids"
      "rids = map (fresh env) [ids_used s ..< ids_used s + length fs]" by blast
  have n: "length rids = length fs" using ids(2) by simp
  then have snd: "map snd (zip fs rids) = rids" by simp
  have i: "inj (fresh env)" "row_id ` set (call_rows s) \<subseteq> fresh env ` {..<ids_used s}" using assms(1) by (auto simp: ids_inv_def)
  then have "distinct rids" by (simp add: ids(2) distinct_map inj_on_subset [OF i(1)])
  have "fresh env ` {..<ids_used s} \<inter> set rids = {}" using i(1) by (auto simp: ids(2) inj_eq)
  with i(2) have "row_id ` set (call_rows s) \<inter> set rids = {}" by blast
  moreover have "list_all2 (\<lambda>p r. row_of (fst p) Interrupted r) (zip fs rids) rs"
    using rs n by (simp add: list_all2_conv_all_nth)
  moreover have "call_rows s2 = call_rows s @ rs" using w assms(3) by (simp add: wrote_def same_records_def)
  ultimately obtain rs' as where c: "call_rows (complete_all env (zip fs rids) oc n short s2) = call_rows s @ rs'"
    "map row_id rs' = map row_id rs" "list_all2 (\<lambda>p r. row_of (fst p) (Ended oc) r) (zip fs rids) rs'"
    "list_all2 (\<lambda>p a. event_of (fst p) oc a) (zip fs rids) as"
    "audited (engine_events (complete_all env (zip fs rids) oc n short s2)) = audited (engine_events s2) @ as"
    "ids_used (complete_all env (zip fs rids) oc n short s2) = ids_used s2"
    using complete_all_rows [of s2 "call_rows s" rs "zip fs rids" env oc n short] \<open>distinct rids\<close> ids(1) unfolding snd by blast
  have "row_id ` set (call_rows s @ rs') = row_id ` set (call_rows s @ rs)"
    using c(2) by (simp add: image_Un flip: set_map)
  then have "wrote env s (complete_all env (zip fs rids) oc n short s2) rs' as"
    using w assms(3) c by (auto simp: wrote_def ids_inv_def same_records_def)
  moreover have "list_all2 (\<lambda>f r. row_of f (Ended oc) r) fs rs'" "list_all2 (\<lambda>f a. event_of f oc a) fs as"
    using c(3,4) n by (simp_all add: list_all2_conv_all_nth)
  ultimately show ?thesis unfolding recorded_def by blast
qed


text \<open>The outcome in the row and the event, against what the agent is told.\<close>

fun outcome_fits :: "CallResult \<Rightarrow> ActionOutcome \<Rightarrow> bool" where
  "outcome_fits (CallOk _) oc \<longleftrightarrow> oc = OutcomeOk"
| "outcome_fits (CallError e) oc \<longleftrightarrow> oc = outcomeOf e \<or> oc = OutcomeError (error_code e)"

definition leaves :: "'e EngineEnv_scheme \<Rightarrow> CallFacts list \<Rightarrow> EngineState \<Rightarrow> Answer \<Rightarrow> bool" where
  "leaves env fs s answer \<longleftrightarrow> (\<exists>oc. recorded env fs oc s (snd (snd answer)) \<and> outcome_fits (fst answer) oc)"

lemma outcome_fits_code: "error_code e = error_code e' \<Longrightarrow> outcome_fits (CallError e) (outcomeOf e')"
  by (simp add: outcomeOf_def)

lemma leaves_who: "map who_of fs = map who_of gs \<Longrightarrow> leaves env fs s answer = leaves env gs s answer"
  unfolding leaves_def using recorded_who by metis

lemma leaves_after: "wrote env s s1 [] [] \<Longrightarrow> leaves env fs s1 answer \<Longrightarrow> leaves env fs s answer"
  unfolding leaves_def using recorded_after by blast

lemma leaves_limits: "leaves env fs s (result, hs, s') \<Longrightarrow> leaves env fs s (result, hs, s'\<lparr>limits := l\<rparr>)"
  unfolding leaves_def recorded_def using wrote_limits(2) by fastforce

lemma leaves_failure: "ids_inv env s \<Longrightarrow> leaves env [f] s (failed_call hs (recordFailure env f e s))"
  using recorded_failure [of env s f e] wrote_recordFailure [of env s f e] outcome_fits_code
  unfolding leaves_def failed_call_def fst_conv snd_conv by blast

lemma leaves_failAll: "ids_inv env s \<Longrightarrow> leaves env fs s (failed_call hs (failAll env fs n e s))"
  using failAll_recorded [where env = env and s = s and fs = fs and e = e and n = n] outcome_fits_code
  unfolding leaves_def failed_call_def fst_conv snd_conv by blast

lemma ids_let_go: "ids_inv env s \<Longrightarrow> ids_inv env (let_go buffers s)"
  by (simp add: ids_inv_def let_go_def)

lemma leaves_let_go: "ids_inv env s \<Longrightarrow> leaves env fs (let_go buffers s) answer \<Longrightarrow> leaves env fs s answer"
  by (rule leaves_after [OF wrote_none]) (simp_all add: let_go_def)

lemma execute_leaves:
  assumes i: "ids_inv env s"
  shows "leaves env [facts] s (execute env facts resolved s)"
proof (cases "fetchCredential env resolved")
  case (Inl failure)
  then show ?thesis by (cases failure) (simp add: execute_def leaves_let_go [OF i leaves_failure [OF ids_let_go [OF i]]])
next
  case credential: (Inr credential)
  define known where "known = facts\<lparr>facts_scrub := Some (scrubber credential)\<rparr>"
  have who: "leaves env [facts] s answer = leaves env [known] s answer" for answer
    by (rule leaves_who) (simp add: known_def)
  show ?thesis
  proof (cases "pinDestination (net_lookup env) resolved")
    case (Inl e)
    then show ?thesis using leaves_failure [OF i] unfolding who by (simp add: execute_def credential Let_def flip: known_def)
  next
    case (Inr pinned)
    obtain rid s1 where res: "reserveCall env known s = (rid, s1)" by (cases "reserveCall env known s")
    then have all: "reserve_all env [known] s = ([rid], s1)" by simp
    define c where "c = \<lparr>cc_resolved = resolved, cc_credential = credential, cc_pinned = pinned\<rparr>"
    obtain r hs s2 where run: "runConnector env c s1 = (r, hs, s2)" by (metis prod_cases3)
    have "same_records s1 s2" using same_records_run(1) [of s1 env c] by (simp add: run)
    note finish = completed_recorded [OF i all this]
    show ?thesis
    proof (cases r)
      case (Inl e)
      then have "execute env facts resolved s =
          (let final = scrub_error (single_view (scrubber (hd hs))) e
           in (CallError final, hs, complete_all env (zip [known] [rid]) (OutcomeError (error_code final)) 0 False s2))"
        using credential Inr res run by (simp add: execute_def Let_def flip: known_def c_def)
      then show ?thesis using finish unfolding who by (auto simp: leaves_def Let_def)
    next
      case (Inr out)
      then have "execute env facts resolved s =
          (CallOk (ro_result out), hs, complete_all env (zip [known] [rid]) OutcomeOk (ro_bytes out) (ro_truncated out) s2)"
        using credential \<open>pinDestination (net_lookup env) resolved = Inr pinned\<close> res run
        by (simp add: execute_def Let_def flip: known_def c_def)
      then show ?thesis using finish unfolding who by (auto simp: leaves_def)
    qed
  qed
qed

lemma prepare_calls_who: "prepare_calls env ps = (known, r, hs) \<Longrightarrow> map who_of known = map (who_of \<circ> fst) ps"
proof (induction ps arbitrary: known r hs)
  case (Cons p ps)
  obtain facts resolved where p: "p = (facts, resolved)" by (cases p)
  obtain ks r1 hs1 where "prepare_calls env ps = (ks, r1, hs1)" by (metis prod_cases3)
  with Cons show ?case
    by (cases r1) (auto simp: p Let_def split: sum.splits)
qed simp

lemma executeMany_leaves:
  assumes i: "ids_inv env s"
  shows "leaves env (map fst ps) s (executeMany env ps s)"
proof -
  obtain known r hs where p: "prepare_calls env ps = (known, r, hs)" by (metis prod_cases3)
  have who: "leaves env (map fst ps) s answer = leaves env known s answer" for answer
    using prepare_calls_who [OF p] by (intro leaves_who) simp
  show ?thesis
  proof (cases r)
    case (Inl ne)
    obtain n e buffers where "ne = (n, e, buffers)" by (metis prod_cases3)
    with Inl show ?thesis unfolding who by (simp add: executeMany_def p leaves_let_go [OF i leaves_failAll [OF ids_let_go [OF i]]])
  next
    case (Inr cs)
    obtain rids s1 where res: "reserve_all env known s = (rids, s1)" by (cases "reserve_all env known s")
    obtain out hs' s2 where run: "runConnectorMany env cs s1 = (out, hs', s2)" by (metis prod_cases3)
    have "same_records s1 s2" using same_records_run(2) [of s1 env cs] by (simp add: run)
    note finish = completed_recorded [OF i res this]
    show ?thesis
      using finish Inr unfolding who by (cases out) (auto simp: executeMany_def p res run Let_def leaves_def)
  qed
qed


lemma same_wrote: "ids_inv env s \<Longrightarrow> same_records s s' \<Longrightarrow> wrote env s s' [] []"
  by (rule wrote_none) (simp_all add: same_records_def)

lemma same_records_limits [simp]:
  "same_records s (s'\<lparr>limits := l\<rparr>) = same_records s s'" "same_records s (release_limit d s') = same_records s s'"
  by (auto simp: same_records_def release_limit_def split: LimitDecision.split)

lemma same_records_acquire: "same_records s (snd (acquire_limit env key s))"
  using same_records_now [of s env] by (simp add: acquire_limit_def case_prod_beta)

lemma same_records_acquire_all: "acquire_all env keys s = (ds, s') \<Longrightarrow> same_records s s'"
proof (induction keys arbitrary: s ds)
  case (Cons key keys)
  obtain d s1 where a: "acquire_limit env key s = (d, s1)" by (cases "acquire_limit env key s")
  with Cons.prems obtain ds1 where "acquire_all env keys s1 = (ds1, s')" by (auto split: prod.splits)
  from same_records_trans [OF _ Cons.IH [OF this]] show ?case using same_records_acquire [of s env key] by (simp add: a)
qed simp

lemma leaves_release: "leaves env fs s answer \<Longrightarrow> leaves env fs s (released d answer)"
    "leaves env fs s answer \<Longrightarrow> leaves env fs s (release_all ds answer)"
proof -
  have 1: "leaves env fs s (released d answer)" if "leaves env fs s answer" for d answer
    using that leaves_limits by (cases answer; cases d) (simp_all add: released_def release_limit_def)
  show "leaves env fs s (released d answer)" if "leaves env fs s answer" using 1 [OF that] .
  show "leaves env fs s (release_all ds answer)" if "leaves env fs s answer"
    using that
  proof (induction ds arbitrary: answer)
    case (Cons d ds)
    have "release_all (d # ds) answer = release_all ds (released d answer)"
      by (cases answer) (simp add: release_all_def released_def)
    with Cons.IH [OF 1 [OF Cons.prems]] show ?case by simp
  qed (simp add: release_all_def)
qed

lemma who_of_resolved [simp]: "who_of (resolved_facts caller ivk moment r) = (caller, ivk)"
  "who_of (facts_for caller ivk moment) = (caller, ivk)"
  by (simp_all add: who_of_def resolved_facts_def facts_for_def)

lemma call_one_leaves:
  assumes i: "ids_inv env s"
  shows "\<exists>f. who_of f = (caller, ivk) \<and> leaves env [f] s (call_one env caller ivk s)"
proof -
  define found where "found = resolveCall (ResolveEnv.truncate env) (store s) caller ivk"
  obtain moment s1 where now: "now_of env s = (moment, s1)" by (cases "now_of env s")
  define facts where "facts = resolved_facts caller ivk moment found"
  have w1: "wrote env s s1 [] []" using wrote_now [OF i] by (simp add: now)
  then have i1: "ids_inv env s1" by (simp add: wrote_def)
  have "leaves env [facts] s (call_one env caller ivk s)"
  proof (cases "att_call found")
    case (Inl e)
    then have "call_one env caller ivk s = failed_call [] (recordFailure env facts e s1)"
      by (simp add: call_one_def now facts_def Let_def flip: found_def)
    with leaves_after [OF w1 leaves_failure [OF i1]] show ?thesis by simp
  next
    case (Inr resolved)
    obtain d s2 where a: "acquire_limit env (limit_key caller resolved) s1 = (d, s2)"
      by (cases "acquire_limit env (limit_key caller resolved) s1")
    have "same_records s1 s2" using same_records_acquire [of s1 env "limit_key caller resolved"] by (simp add: a)
    then have w2: "wrote env s s2 [] []" using wrote_trans [OF w1 same_wrote [OF i1]] by simp
    then have i2: "ids_inv env s2" by (simp add: wrote_def)
    have "call_one env caller ivk s =
        (case d of LimitRefused seconds \<Rightarrow> failed_call [] (recordFailure env facts (rate_limited_error seconds) s2)
         | Acquired _ _ \<Rightarrow> released d (execute env facts resolved s2))"
      using Inr by (cases d) (simp_all add: call_one_def now facts_def Let_def a flip: found_def)
    then show ?thesis
      using leaves_after [OF w2 leaves_failure [OF i2]] leaves_after [OF w2 leaves_release(1) [OF execute_leaves [OF i2]]]
      by (cases d) simp_all
  qed
  moreover have "who_of facts = (caller, ivk)" by (simp add: facts_def)
  ultimately show ?thesis by blast
qed

lemma run_prepared_leaves:
  assumes i: "ids_inv env s"
  shows "leaves env (map fst ps) s (run_prepared env caller ps s)"
proof (cases "jointDecision ps")
  case None
  obtain ds s1 where a: "acquire_all env (map (limit_key caller \<circ> snd) ps) s = (ds, s1)"
    by (cases "acquire_all env (map (limit_key caller \<circ> snd) ps) s")
  have w: "wrote env s s1 [] []" using same_wrote [OF i same_records_acquire_all [OF a]] .
  then have i1: "ids_inv env s1" by (simp add: wrote_def)
  show ?thesis
    using leaves_after [OF w leaves_release(2) [OF leaves_failAll [OF i1]]]
      leaves_after [OF w leaves_release(2) [OF executeMany_leaves [OF i1]]]
    by (simp add: run_prepared_def None a split: option.split prod.split)
next
  case (Some e)
  then show ?thesis
    using recorded_record_all [OF i, of "map fst ps" e] by (auto simp: run_prepared_def leaves_def)
qed

lemma resolve_names_who:
  "resolve_names env caller ivk names s = (found, s') \<Longrightarrow>
   same_records s s' \<and> map (who_of \<circ> fst) found = map (\<lambda>name. (caller, ivk\<lparr>inv_target := name\<rparr>)) names"
proof (induction names arbitrary: s found)
  case (Cons name names)
  obtain moment s1 where now: "now_of env s = (moment, s1)" by (cases "now_of env s")
  obtain p rest where rest: "resolve_names env caller ivk names s1 = (rest, s')"
    and found: "found = p # rest" "who_of (fst p) = (caller, ivk\<lparr>inv_target := name\<rparr>)"
    using Cons.prems by (auto simp: now Let_def split: prod.splits)
  have "same_records s s1" using same_records_now [of s env] by (simp add: now)
  with Cons.IH [OF rest] found show ?case using same_records_trans by (auto simp: comp_def)
qed simp

lemma first_error_prepared: "first_error n found = None \<Longrightarrow> map fst (prepared_of found) = map fst found"
proof (induction found arbitrary: n)
  case (Cons p found)
  obtain f r where p: "p = (f, r)" by (cases p)
  from first_error_None [OF Cons.prems, of f r] obtain c where "r = Inr c" by (auto simp: p)
  with Cons show ?case by (auto simp: p prepared_of_def List.map_filter_def split: option.splits)
qed (simp add: prepared_of_def List.map_filter_def)

definition called_names :: "'e EngineEnv_scheme \<Rightarrow> Invocation \<Rightarrow> string list" where
  "called_names env ivk =
     (case inv_targets ivk of
        None \<Rightarrow> [inv_target ivk]
      | Some names \<Rightarrow> if repoProblem env ivk names = None then names else [inv_target ivk])"

lemma callMany_leaves:
  assumes i: "ids_inv env s"
  shows "\<exists>fs. map who_of fs = map (\<lambda>name. (caller, ivk\<lparr>inv_target := name\<rparr>))
      (if repoProblem env ivk names = None then names else [inv_target ivk]) \<and> leaves env fs s (callMany env caller ivk names s)"
proof (cases "repoProblem env ivk names")
  case (Some problem)
  obtain moment s1 where now: "now_of env s = (moment, s1)" by (cases "now_of env s")
  have w: "wrote env s s1 [] []" using wrote_now [OF i] by (simp add: now)
  then have i1: "ids_inv env s1" by (simp add: wrote_def)
  let ?f = "facts_for caller ivk moment"
  from leaves_after [OF w leaves_failure [OF i1, of ?f]] have "leaves env [?f] s (callMany env caller ivk names s)"
    by (simp add: callMany_def Some now)
  then show ?thesis using Some by (intro exI [of _ "[?f]"]) simp
next
  case None
  obtain found s1 where f: "resolve_names env caller ivk names s = (found, s1)" by (cases "resolve_names env caller ivk names s")
  note who = resolve_names_who [OF f]
  then have w: "wrote env s s1 [] []" using same_wrote [OF i] by blast
  then have i1: "ids_inv env s1" by (simp add: wrote_def)
  have "leaves env (map fst found) s (callMany env caller ivk names s)"
  proof (cases "first_error 0 found")
    case first: None
    from leaves_after [OF w run_prepared_leaves [OF i1]] show ?thesis
      by (simp add: callMany_def None f first flip: first_error_prepared [OF first])
  next
    case (Some ne)
    with leaves_after [OF w leaves_failAll [OF i1]] show ?thesis by (cases ne) (simp add: callMany_def None f)
  qed
  with who None show ?thesis by (intro exI [of _ "map fst found"]) simp
qed

definition row_line :: "CallRow \<Rightarrow> string \<times> string \<times> string \<times> string \<times> string \<times> string \<times> CallOutcome" where
  "row_line r = (row_targetName r, row_tool r, row_clientId r, row_tokenPrefix r, row_requestId r, row_ip r, row_outcome r)"

definition event_line :: "CallAudit \<Rightarrow> string \<times> string \<times> string \<times> string \<times> string \<times> string \<times> CallOutcome" where
  "event_line a = (audit_target a, audit_tool a, audit_clientId a, audit_tokenPrefix a, audit_requestId a, audit_ip a, Ended (audit_outcome a))"

definition call_line :: "Caller \<Rightarrow> Invocation \<Rightarrow> ActionOutcome \<Rightarrow> string \<Rightarrow> string \<times> string \<times> string \<times> string \<times> string \<times> string \<times> CallOutcome" where
  "call_line caller ivk oc name = (name, inv_tool ivk, caller_client caller, caller_prefix caller, caller_request caller, caller_ip caller, Ended oc)"

lemma lines_of:
  assumes "map who_of fs = map (\<lambda>name. (caller, ivk\<lparr>inv_target := name\<rparr>)) names"
  shows "list_all2 (\<lambda>f r. row_of f (Ended oc) r) fs rs \<Longrightarrow> map row_line rs = map (call_line caller ivk oc) names"
    "list_all2 (\<lambda>f a. event_of f oc a) fs as \<Longrightarrow> map event_line as = map (call_line caller ivk oc) names"
proof -
  have n: "length fs = length names" using map_eq_imp_length_eq [OF assms] .
  have who: "who_of (fs ! i) = (caller, ivk\<lparr>inv_target := names ! i\<rparr>)" if "i < length fs" for i
    using arg_cong [OF assms, of "\<lambda>xs. xs ! i"] that n by simp
  then have "facts_caller (fs ! i) = caller" "facts_invocation (fs ! i) = ivk\<lparr>inv_target := names ! i\<rparr>" if "i < length fs" for i
    using that by (simp_all add: who_of_def)
  then show "list_all2 (\<lambda>f r. row_of f (Ended oc) r) fs rs \<Longrightarrow> map row_line rs = map (call_line caller ivk oc) names"
    "list_all2 (\<lambda>f a. event_of f oc a) fs as \<Longrightarrow> map event_line as = map (call_line caller ivk oc) names"
    using n by (auto simp: list_all2_conv_all_nth row_line_def event_line_def call_line_def row_of_def event_of_def intro!: nth_equalityI)
qed

text \<open>
  C2: Whatever becomes of a call, it leaves exactly one row and one audit event for each name it was
  made for, in order, with the caller, the tool and one outcome, which is the outcome of the answer: no
  row stays interrupted and no other row is touched.
\<close>

theorem one_row_per_name:
  assumes "ids_inv env s" "engine_call env caller ivk s = (answer, hs, s')"
  shows "\<exists>oc rs as. outcome_fits answer oc \<and>
    call_rows s' = call_rows s @ rs \<and> map row_line rs = map (call_line caller ivk oc) (called_names env ivk) \<and>
    audited (engine_events s') = audited (engine_events s) @ as \<and>
    map event_line as = map (call_line caller ivk oc) (called_names env ivk)"
proof -
  have "\<exists>fs. map who_of fs = map (\<lambda>name. (caller, ivk\<lparr>inv_target := name\<rparr>)) (called_names env ivk) \<and>
      leaves env fs s (answer, hs, s')"
  proof (cases "inv_targets ivk")
    case None
    from call_one_leaves [OF assms(1), of caller ivk] obtain f where f: "who_of f = (caller, ivk)"
      "leaves env [f] s (answer, hs, s')"
      using assms(2) None by (auto simp: engine_call_def)
    then show ?thesis by (intro exI [of _ "[f]"]) (simp add: called_names_def None)
  next
    case (Some names)
    with callMany_leaves [OF assms(1), of caller ivk names] assms(2) show ?thesis
      by (simp add: engine_call_def called_names_def)
  qed
  then obtain fs oc where who: "map who_of fs = map (\<lambda>name. (caller, ivk\<lparr>inv_target := name\<rparr>)) (called_names env ivk)"
    and "recorded env fs oc s s'" "outcome_fits answer oc"
    by (auto simp: leaves_def)
  then show ?thesis unfolding recorded_def wrote_def using lines_of [OF who] by blast
qed

end
