(* ===== verification/EngineExamples.thy ===== *)
theory EngineExamples
  imports EngineSafety TargetsSafety
begin

text \<open>
  One deployment to instantiate the properties of the engine on: a target with a read-only grant, a
  connector with one tool that reads, and an environment in which every lookup succeeds.
\<close>

section \<open>A connector, its environment and a caller\<close>

definition sample_tool :: ConnectorTool where
  "sample_tool = \<lparr>tool_name = ''http_request'', tool_scope = ''http:read'', tool_input = (\<lambda>args. ok (VObject args)), tool_repo = None\<rparr>"

definition sample_connector :: Connector where
  "sample_connector =
     \<lparr>conn_kind = KHttp, conn_tools = [sample_tool],
      conn_capabilities = (\<lambda>_ _. \<lparr>cap_operations = [(OpRead, ''http:read'')], cap_engine = None, cap_unrestricted = False, cap_code = None\<rparr>),
      conn_authorize = (\<lambda>_ _. Allowed OpRead None), conn_describe = (\<lambda>_ _. ''GET /''),
      conn_run = (\<lambda>_ _. Finish (ok \<lparr>out_result = [], out_captured = [(''body'', ''ok'')], out_base64 = [], out_bytes = None\<rparr>)),
      conn_runMany = None, conn_authorizeMany = None\<rparr>"

definition sample_resolve :: ResolveEnv where
  "sample_resolve =
     \<lparr>layer_enabled = True, switches = (\<lambda>_. True), registry = [sample_connector],
      known_schemas = (\<lambda>_. Some sample_schemas), is_available = (\<lambda>_. True)\<rparr>"

definition sample_engine :: EngineEnv where
  "sample_engine =
     \<lparr>layer_enabled = True, switches = (\<lambda>_. True), registry = [sample_connector],
      known_schemas = (\<lambda>_. Some sample_schemas), is_available = (\<lambda>_. True),
      v_getItem = (\<lambda>_. ok sample_item), v_getSecret = (\<lambda>_ _. ok (TextSecret ''hunter2hunter2'')),
      v_updateItem = (\<lambda>_ _. ok ()), net_lookup = (\<lambda>_. None), clock = int, fresh = (\<lambda>n. replicate n (CHR ''i'')),
      stringify = (\<lambda>_. ''{}''), sha256_hex = (\<lambda>_. ''00''), decimal_text = (\<lambda>n. replicate n (CHR ''1'')), timer = (\<lambda>_. None)\<rparr>"

definition sample_caller :: Caller where
  "sample_caller =
     \<lparr>caller_client = ''c'', caller_name = ''agent'', caller_prefix = ''vgt'', caller_scopes = [''http:read''],
      caller_request = ''r'', caller_ip = ''192.0.2.1''\<rparr>"

definition stranger :: Caller where
  "stranger = sample_caller\<lparr>caller_client := ''d''\<rparr>"

definition sample_call :: Invocation where
  "sample_call = \<lparr>inv_tool = ''http_request'', inv_target = ''api'', inv_arguments = [], inv_targets = None\<rparr>"

definition sample_state :: EngineState where
  "sample_state =
     \<lparr>store = sample_store, limits = createActionLimits, call_rows = [], engine_events = [], vault_patches = [],
      clock_reads = 0, ids_used = 0, unzeroed = []\<rparr>"

lemma sample_findByName: "findByName ''api'' sample_store = Some sample_row"
  by (simp add: findByName_def sample_store_def sample_row_def)

lemma sample_ids: "ids_inv sample_engine sample_state"
proof -
  have "inj (\<lambda>n. replicate n (CHR ''i''))" by (rule injI) simp
  then show ?thesis by (simp add: ids_inv_def sample_engine_def sample_state_def)
qed

lemma sample_limits: "limits_inv createActionLimits"
  using reach_start by (rule limits_reach_inv)

section \<open>The properties on it\<close>

theorem ungranted_answer_witness:
  "att_call (resolveCall sample_resolve sample_store stranger sample_call) = fail (action_error not_granted [])"
proof -
  have "\<not> isGranted (t_id sample_row) (caller_client stranger) sample_store"
    by (simp add: isGranted_def sample_store_def stranger_def sample_caller_def sample_row_def)
  with ungranted_answer [of sample_call sample_store stranger sample_resolve] show ?thesis
    by (simp add: sample_call_def sample_findByName sample_resolve_def)
qed

lemma sample_valid:
  "validateTarget (known_schemas sample_resolve) sample_row =
     Valid sample_row \<lparr>doc_destination = JNull, doc_credential = JNull, doc_policy = JObject [], doc_common = sample_common\<rparr> sample_schemas"
  by (simp add: validateTarget_def parseTargetDocuments_def sample_resolve_def sample_schemas_def sample_row_def ok_def)

lemma sample_listing:
  "listTargets sample_resolve sample_store sample_caller =
     [\<lparr>lst_name = ''api'', lst_description = ''d'', lst_connector = KHttp, lst_operations = [OpRead], lst_engine = None,
       lst_unrestricted = False, lst_code = None\<rparr>]"
proof -
  have "listGranted (caller_client sample_caller) sample_store = [sample_row]"
    by (simp add: listGranted_def sample_store_def sample_caller_def sample_row_def active_def)
  moreover have "servingConnector sample_resolve (t_connector sample_row) = Some sample_connector"
    by (simp add: servingConnector_def sample_resolve_def registry_get_def sample_connector_def sample_row_def)
  moreover have "t_enabled sample_row" "t_name sample_row = ''api''" "t_description sample_row = ''d''" "t_connector sample_row = KHttp"
    by (simp_all add: sample_row_def)
  ultimately have "list_row sample_resolve sample_store sample_caller sample_row =
     Some \<lparr>lst_name = ''api'', lst_description = ''d'', lst_connector = KHttp, lst_operations = [OpRead], lst_engine = None,
       lst_unrestricted = False, lst_code = None\<rparr>"
    by (simp add: list_row_def sample_valid Let_def listed_operations_def js_set_def sample_connector_def sample_caller_def)
  with \<open>listGranted (caller_client sample_caller) sample_store = [sample_row]\<close> show ?thesis
    by (simp add: listTargets_def List.map_filter_def sample_resolve_def)
qed

theorem listed_is_callable_witness:
  "\<exists>e. att_call (resolveCall sample_resolve sample_store sample_caller (sample_call\<lparr>inv_tool := ''sql_query''\<rparr>)) = fail e \<and>
     error_code e \<in> {invalid_arguments, insufficient_scope, policy_denied}"
proof -
  let ?ivk = "sample_call\<lparr>inv_tool := ''sql_query''\<rparr>"
  obtain l where l: "l \<in> set (listTargets sample_resolve sample_store sample_caller)" "inv_target ?ivk = lst_name l"
    by (simp add: sample_listing sample_call_def)
  have "\<not> may_call sample_resolve sample_store sample_caller ?ivk c" for c
  proof
    assume "may_call sample_resolve sample_store sample_caller ?ivk c"
    then have "registry_get (registry sample_resolve) (t_connector (rc_row c)) = Some (rc_connector c)"
      "find (\<lambda>t. tool_name t = ''sql_query'') (conn_tools (rc_connector c)) = Some (rc_tool c)"
      by (simp_all add: may_call_def)
    moreover from this(1) have "rc_connector c = sample_connector"
      by (simp add: sample_resolve_def registry_get_def split: if_splits)
    ultimately show False by (simp add: sample_connector_def sample_tool_def)
  qed
  then obtain e where e: "att_call (resolveCall sample_resolve sample_store sample_caller ?ivk) = fail e"
    unfolding fail_def by (metis resolveCall_ok sumE)
  have "distinct (map t_name (target_rows sample_store))" by (simp add: sample_store_def)
  from listed_is_callable [OF this l e] e show ?thesis by blast
qed

theorem slots_given_back_witness:
  "flight_count (target_flights (limits (snd (snd (engine_call sample_engine sample_caller sample_call sample_state))))) ''t'' = 0"
  using slots_given_back [of sample_state sample_engine sample_caller sample_call "''t''"] sample_limits
  by (simp add: sample_state_def createActionLimits_def flight_count_def)

theorem one_row_per_name_witness:
  "\<exists>oc r. call_rows (snd (snd (engine_call sample_engine sample_caller sample_call sample_state))) = [r] \<and>
     row_line r = (''api'', ''http_request'', ''c'', ''vgt'', ''r'', ''192.0.2.1'', Ended oc)"
proof -
  obtain answer hs s' where call: "engine_call sample_engine sample_caller sample_call sample_state = (answer, hs, s')"
    by (metis prod_cases3)
  from one_row_per_name [OF sample_ids call] obtain oc rs where "call_rows s' = call_rows sample_state @ rs"
    "map row_line rs = map (call_line sample_caller sample_call oc) (called_names sample_engine sample_call)"
    by blast
  moreover have "called_names sample_engine sample_call = [''api'']" by (simp add: called_names_def sample_call_def)
  moreover have "call_rows sample_state = []" by (simp add: sample_state_def)
  moreover have "call_line sample_caller sample_call oc ''api'' = (''api'', ''http_request'', ''c'', ''vgt'', ''r'', ''192.0.2.1'', Ended oc)"
    by (simp add: call_line_def sample_caller_def sample_call_def)
  ultimately show ?thesis by (auto simp: call)
qed

end
