(* ===== verification/Octets.thy ===== *)
theory Octets
  imports Encodings "HOL-Library.Word"
begin

text \<open>
  Buffers whose bytes are computed with: an octet is an \<open>8 word\<close>, and a \<^verbatim>\<open>Buffer\<close> a list of them.
  The little-endian integers of \<^verbatim>\<open>readUInt16LE\<close>, \<^verbatim>\<open>readUInt32LE\<close>, \<^verbatim>\<open>writeBigUInt64LE\<close> and their
  counterparts, and the encodings \<^verbatim>\<open>latin1\<close> and \<^verbatim>\<open>utf16le\<close>.
\<close>

type_synonym octet = "8 word"
type_synonym octets = "8 word list"

definition octet_of :: "char \<Rightarrow> octet" where
  "octet_of c = word_of_nat (char_code c)"

definition char_of_octet :: "octet \<Rightarrow> char" where
  "char_of_octet w = char_of (unat w)"

definition latin1 :: "string \<Rightarrow> octets" where
  "latin1 s = map octet_of s"

definition text_of :: "octets \<Rightarrow> string" where
  "text_of bs = map char_of_octet bs"

definition utf16le :: "string \<Rightarrow> octets" where
  "utf16le s = concat (map (\<lambda>c. [octet_of c, 0]) s)"

lemma octet_less [simp]: "unat (w :: octet) < 256"
  using unsigned_less [of w, where ?'a = nat] by simp

lemma char_of_octet_of [simp]: "char_of_octet (octet_of c) = c"
  by (simp add: char_of_octet_def octet_of_def unat_of_nat char_code_def)

lemma octet_of_char_of [simp]: "octet_of (char_of_octet w) = w"
  by (simp add: char_of_octet_def octet_of_def)

lemma text_of_latin1 [simp]: "text_of (latin1 s) = s"
  by (simp add: text_of_def latin1_def comp_def)

lemma latin1_text_of [simp]: "latin1 (text_of bs) = bs"
  by (simp add: text_of_def latin1_def comp_def)

lemma length_latin1 [simp]: "length (latin1 s) = length s" "length (text_of bs) = length bs"
  by (simp_all add: latin1_def text_of_def)

lemma latin1_append [simp]: "latin1 (s @ t) = latin1 s @ latin1 t" "text_of (bs @ cs) = text_of bs @ text_of cs"
  by (simp_all add: latin1_def text_of_def)

lemma latin1_simps [simp]: "latin1 [] = []" "latin1 (c # cs) = octet_of c # latin1 cs" "text_of [] = []"
  by (simp_all add: latin1_def text_of_def)

lemma length_utf16le [simp]: "length (utf16le s) = 2 * length s"
  by (induction s) (auto simp: utf16le_def)

section \<open>Little-endian integers\<close>

text \<open>The \<open>n\<close> bytes of a number, least significant first; a number that does not fit is refused by the caller.\<close>

primrec le_bytes :: "nat \<Rightarrow> nat \<Rightarrow> octets" where
  "le_bytes 0 v = []"
| "le_bytes (Suc n) v = word_of_nat (v mod 256) # le_bytes n (v div 256)"

primrec le_value :: "octets \<Rightarrow> nat" where
  "le_value [] = 0"
| "le_value (b # bs) = unat b + 256 * le_value bs"

lemma length_le_bytes [simp]: "length (le_bytes n v) = n"
  by (induction n arbitrary: v) auto

lemma le_bytes_eq_Nil [simp]: "le_bytes n v = [] \<longleftrightarrow> n = 0"
  by (cases n) auto

lemma le_bytes_zero: "le_bytes n 0 = replicate n 0"
  by (induction n) auto

lemma le_value_bytes [simp]: "v < 256 ^ n \<Longrightarrow> le_value (le_bytes n v) = v"
proof (induction n arbitrary: v)
  case (Suc n)
  then have "v div 256 < 256 ^ n" by (simp add: less_mult_imp_div_less mult.commute)
  with Suc.IH [OF this] show ?case by (simp add: unat_of_nat)
qed simp

lemma le_bytes_value [simp]: "length bs = n \<Longrightarrow> le_bytes n (le_value bs) = bs"
proof (induction n arbitrary: bs)
  case (Suc n)
  then obtain b bs' where bs: "bs = b # bs'" "length bs' = n" by (cases bs) auto
  with octet_less [of b] Suc.IH [OF bs(2)] show ?case by (simp add: bs(1))
qed simp

lemma le_value_less: "le_value bs < 256 ^ length bs"
proof (induction bs)
  case (Cons b bs)
  then have "256 * (le_value bs + 1) \<le> 256 * 256 ^ length bs" by (intro mult_le_mono2) simp
  with octet_less [of b] show ?case by (simp del: octet_less)
qed simp

lemma le_bytes_inject: "v < 256 ^ n \<Longrightarrow> w < 256 ^ n \<Longrightarrow> le_bytes n v = le_bytes n w \<longleftrightarrow> v = w"
  by (metis le_value_bytes)

text \<open>\<^verbatim>\<open>buffer.subarray(from, to)\<close> for positions within the buffer, as a start and a length.\<close>

definition cut_at :: "'a list \<Rightarrow> nat \<Rightarrow> nat \<Rightarrow> 'a list" where
  "cut_at bs from n = take n (drop from bs)"

lemma length_cut_at: "from + n \<le> length bs \<Longrightarrow> length (cut_at bs from n) = n"
  by (simp add: cut_at_def)

lemma cut_at_0 [simp]: "cut_at bs from 0 = []" "length xs = n \<Longrightarrow> cut_at (xs @ ys) 0 n = xs"
  by (simp_all add: cut_at_def)

lemma cut_at_append [simp]: "cut_at (xs @ ys) (length xs + from) n = cut_at ys from n"
  by (simp add: cut_at_def)

lemma cut_at_middle: "from = length xs \<Longrightarrow> n = length ys \<Longrightarrow> cut_at (xs @ ys @ zs) from n = ys"
  by (simp add: cut_at_def)

lemma cut_at_cut_at: "from + n \<le> m \<Longrightarrow> cut_at (cut_at bs a m) from n = cut_at bs (a + from) n"
  by (simp add: cut_at_def drop_take min_absorb1 add.commute)

end
