(* ===== verification/Rc4.thy ===== *)
theory Rc4
  imports Octets "HOL-Library.Multiset"
begin

text \<open>
  \<^verbatim>\<open>src/crypto/rc4.ts\<close>: the running cipher of the NTLM session. Its state is the table of 256 bytes
  and the two indices; the sums masked with \<^verbatim>\<open>BYTE\<close> are sums of octets.
\<close>

unbundle bit_operations_syntax

record Rc4 =
  rc4_table :: octets
  rc4_from :: octet
  rc4_to :: octet

definition rc4_swap :: "octets \<Rightarrow> octet \<Rightarrow> octet \<Rightarrow> octets" where
  "rc4_swap table left right =
     table[unat left := table ! unat right, unat right := table ! unat left]"

primrec rc4_mix :: "octets \<Rightarrow> nat list \<Rightarrow> octets \<times> octet \<Rightarrow> octets \<times> octet" where
  "rc4_mix key [] state = state"
| "rc4_mix key (index # rest) state =
     (case state of (table, mixed) \<Rightarrow>
       (let mixed' = mixed + table ! index + key ! (index mod length key)
        in rc4_mix key rest (rc4_swap table (word_of_nat index) mixed', mixed')))"

text \<open>With an empty key \<^verbatim>\<open>readUInt8(NaN)\<close> throws.\<close>

definition new_rc4 :: "octets \<Rightarrow> Rc4 option" where
  "new_rc4 key =
     (if key = [] then None
      else Some \<lparr>rc4_table = fst (rc4_mix key [0..<256] (map word_of_nat [0..<256], 0)), rc4_from = 0, rc4_to = 0\<rparr>)"

definition keystreamByte :: "Rc4 \<Rightarrow> octet \<times> Rc4" where
  "keystreamByte c =
     (let f = rc4_from c + 1;
          t = rc4_to c + rc4_table c ! unat f;
          table = rc4_swap (rc4_table c) f t
      in (table ! unat (table ! unat f + table ! unat t), \<lparr>rc4_table = table, rc4_from = f, rc4_to = t\<rparr>))"

fun rc4_apply :: "Rc4 \<Rightarrow> octets \<Rightarrow> octets \<times> Rc4" where
  "rc4_apply c [] = ([], c)"
| "rc4_apply c (b # bs) =
     (case keystreamByte c of (k, c1) \<Rightarrow>
       (case rc4_apply c1 bs of (out, c2) \<Rightarrow> ((b XOR k) # out, c2)))"

definition rc4 :: "octets \<Rightarrow> octets \<Rightarrow> octets option" where
  "rc4 key data = map_option (\<lambda>c. fst (rc4_apply c data)) (new_rc4 key)"

section \<open>The table stays a permutation\<close>

definition rc4_ok :: "Rc4 \<Rightarrow> bool" where
  "rc4_ok c \<longleftrightarrow> mset (rc4_table c) = mset (map word_of_nat [0..<256])"

lemma rc4_ok_length: "mset table = mset (map word_of_nat [0..<256]) \<Longrightarrow> length table = 256"
  by (metis length_map length_upt diff_zero size_mset)

lemma mset_rc4_swap: "length table = 256 \<Longrightarrow> mset (rc4_swap table left right) = mset table"
proof -
  assume "length table = 256"
  then show ?thesis by (simp add: rc4_swap_def mset_swap)
qed

lemma mset_rc4_mix: "length (fst state) = 256 \<Longrightarrow> mset (fst (rc4_mix key is state)) = mset (fst state)"
proof (induction "is" arbitrary: state)
  case (Cons i "is")
  obtain table mixed where state: "state = (table, mixed)" by (cases state)
  have l: "length (rc4_swap table (word_of_nat i) m) = 256" for m using Cons.prems by (simp add: state rc4_swap_def)
  show ?case using Cons.IH [of "(rc4_swap table (word_of_nat i) m, m)" for m] l Cons.prems mset_rc4_swap
    by (simp add: state Let_def)
qed simp

lemma new_rc4_ok: "new_rc4 key = Some c \<Longrightarrow> rc4_ok c"
  using mset_rc4_mix [of "(map word_of_nat [0..<256], 0)" key "[0..<256]"]
  by (auto simp: new_rc4_def rc4_ok_def split: if_splits)

lemma keystreamByte_ok: "rc4_ok c \<Longrightarrow> rc4_ok (snd (keystreamByte c))"
  using mset_rc4_swap [of "rc4_table c"] rc4_ok_length [of "rc4_table c"] by (simp add: keystreamByte_def rc4_ok_def Let_def)

lemma rc4_apply_ok: "rc4_ok c \<Longrightarrow> rc4_ok (snd (rc4_apply c bs))"
  by (induction bs arbitrary: c) (auto simp: case_prod_beta keystreamByte_ok)

section \<open>The cipher\<close>

lemma length_rc4_apply [simp]: "length (fst (rc4_apply c bs)) = length bs"
  by (induction bs arbitrary: c) (auto simp: case_prod_beta)

lemma rc4_apply_append:
  "rc4_apply c (xs @ ys) =
     (case rc4_apply c xs of (out, c1) \<Rightarrow> (case rc4_apply c1 ys of (out', c2) \<Rightarrow> (out @ out', c2)))"
  by (induction xs arbitrary: c) (auto simp: case_prod_beta)

text \<open>The state the cipher is left in depends on how much it was applied to, not on what.\<close>

lemma rc4_apply_state: "length xs = length ys \<Longrightarrow> snd (rc4_apply c xs) = snd (rc4_apply c ys)"
  by (induction xs ys arbitrary: c rule: list_induct2) (auto simp: case_prod_beta)

lemma rc4_apply_twice: "rc4_apply c bs = (out, c') \<Longrightarrow> rc4_apply c out = (bs, c')"
proof (induction bs arbitrary: c out c')
  case (Cons b bs)
  obtain k c1 where k: "keystreamByte c = (k, c1)" by (cases "keystreamByte c")
  obtain rest c2 where r: "rc4_apply c1 bs = (rest, c2)" by (cases "rc4_apply c1 bs")
  with Cons.prems k have "out = (b XOR k) # rest" "c' = c2" by auto
  with Cons.IH [OF r] k show ?case by (simp add: xor.assoc)
qed simp

lemma rc4_twice:
  assumes "rc4 key bytes = Some out"
  shows "rc4 key out = Some bytes"
proof -
  from assms obtain c where c: "new_rc4 key = Some c" and out: "out = fst (rc4_apply c bytes)" by (auto simp: rc4_def)
  then have "rc4_apply c bytes = (out, snd (rc4_apply c bytes))" by simp
  from rc4_apply_twice [OF this] show ?thesis by (simp add: rc4_def c)
qed

section \<open>The published cipher\<close>

text \<open>
  RC4 as it is published, with the table a function of the octets and the indices counted from the
  length of the stream: \<open>arcfour key n\<close> is its \<open>n\<close>th octet.
\<close>

primrec arcfour_schedule :: "octets \<Rightarrow> nat \<Rightarrow> (octet \<Rightarrow> octet) \<times> octet" where
  "arcfour_schedule key 0 = (id, 0)"
| "arcfour_schedule key (Suc i) =
     (case arcfour_schedule key i of (S, j) \<Rightarrow>
       (let j' = j + S (word_of_nat i) + key ! (i mod length key)
        in (S(word_of_nat i := S j', j' := S (word_of_nat i)), j')))"

primrec arcfour_state :: "octets \<Rightarrow> nat \<Rightarrow> (octet \<Rightarrow> octet) \<times> octet" where
  "arcfour_state key 0 = (fst (arcfour_schedule key 256), 0)"
| "arcfour_state key (Suc n) =
     (case arcfour_state key n of (S, j) \<Rightarrow>
       (let i = word_of_nat (Suc n); j' = j + S i
        in (S(i := S j', j' := S i), j')))"

definition arcfour :: "octets \<Rightarrow> nat \<Rightarrow> octet" where
  "arcfour key n = (case arcfour_state key (Suc n) of (S, j) \<Rightarrow> S (S (word_of_nat (Suc n)) + S j))"

text \<open>Some octets enciphered with the stream from its \<open>place\<close>th octet on.\<close>

definition arcfour_xor :: "octets \<Rightarrow> nat \<Rightarrow> octets \<Rightarrow> octets" where
  "arcfour_xor key place bs = map2 (XOR) bs (map (arcfour key) [place..<place + length bs])"

definition table_reads :: "octets \<Rightarrow> (octet \<Rightarrow> octet) \<Rightarrow> bool" where
  "table_reads table S \<longleftrightarrow> length table = 256 \<and> (\<forall>x. table ! unat x = S x)"

definition cipher_at :: "octets \<Rightarrow> nat \<Rightarrow> Rc4 \<Rightarrow> bool" where
  "cipher_at key place c \<longleftrightarrow> rc4_from c = word_of_nat place \<and> rc4_to c = snd (arcfour_state key place) \<and>
     table_reads (rc4_table c) (fst (arcfour_state key place))"

lemma unat_octet [simp]: "unat (x :: octet) < 256"
  using unsigned_less [of x, where ?'a = nat] by simp

lemma table_reads_swap:
  assumes "table_reads table S"
  shows "table_reads (rc4_swap table a b) (S(a := S b, b := S a))"
proof -
  have len: "length table = 256" and reads: "table ! unat x = S x" for x using assms by (simp_all add: table_reads_def)
  have "rc4_swap table a b ! unat x = (S(a := S b, b := S a)) x" for x
  proof (cases "x = b")
    case False
    then have "unat b \<noteq> unat x" by (metis word_unat_eq_iff)
    then have swapped: "rc4_swap table a b ! unat x = table[unat a := table ! unat b] ! unat x" by (simp add: rc4_swap_def)
    show ?thesis
    proof (cases "x = a")
      case False
      then have "unat a \<noteq> unat x" by (metis word_unat_eq_iff)
      with swapped False \<open>x \<noteq> b\<close> show ?thesis by (simp add: reads)
    qed (use swapped \<open>x \<noteq> b\<close> len in \<open>simp add: reads\<close>)
  qed (simp add: rc4_swap_def len reads)
  with len show ?thesis by (simp add: table_reads_def rc4_swap_def)
qed

lemma rc4_mix_append: "rc4_mix key (xs @ ys) state = rc4_mix key ys (rc4_mix key xs state)"
  by (induction xs arbitrary: state) (auto simp: case_prod_beta Let_def)

lemma rc4_mix_schedule:
  "n \<le> 256 \<Longrightarrow> table_reads (fst (rc4_mix key [0..<n] (map word_of_nat [0..<256], 0))) (fst (arcfour_schedule key n)) \<and>
     snd (rc4_mix key [0..<n] (map word_of_nat [0..<256], 0)) = snd (arcfour_schedule key n)"
proof (induction n)
  case 0
  show ?case by (simp add: table_reads_def)
next
  case (Suc n)
  obtain table j where m: "rc4_mix key [0..<n] (map word_of_nat [0..<256], 0) = (table, j)" by fastforce
  obtain S j' where a: "arcfour_schedule key n = (S, j')" by fastforce
  have unat: "unat (word_of_nat n :: octet) = n" using Suc.prems by (simp add: unat_of_nat)
  have "table_reads table S" "j = j'" using Suc m a by simp_all
  moreover from this have "table ! n = S (word_of_nat n)" using unat by (metis table_reads_def)
  ultimately show ?case using table_reads_swap [of table S] by (simp add: rc4_mix_append m a Let_def del: fun_upd_apply)
qed

lemma new_rc4_at: "new_rc4 key = Some c \<Longrightarrow> cipher_at key 0 c"
  using rc4_mix_schedule [of 256 key] by (auto simp: new_rc4_def cipher_at_def split: if_splits)

lemma keystreamByte_at:
  assumes "cipher_at key place c" "keystreamByte c = (k, c')"
  shows "k = arcfour key place \<and> cipher_at key (Suc place) c'"
proof -
  obtain S j where a: "arcfour_state key place = (S, j)" by fastforce
  let ?i = "word_of_nat (Suc place) :: octet" and ?j = "j + S (word_of_nat (Suc place))"
  have c: "rc4_from c + 1 = ?i" "rc4_to c = j" "table_reads (rc4_table c) S" using assms(1) a by (simp_all add: cipher_at_def add.commute)
  then have t: "rc4_to c + rc4_table c ! unat ?i = ?j" by (simp add: table_reads_def)
  have swapped: "table_reads (rc4_swap (rc4_table c) ?i ?j) (S(?i := S ?j, ?j := S ?i))" by (rule table_reads_swap [OF c(3)])
  then show ?thesis using assms(2) unfolding keystreamByte_def c(1) Let_def t
    by (auto simp: arcfour_def cipher_at_def a table_reads_def Let_def simp del: fun_upd_apply of_nat_Suc)
qed

lemma arcfour_xor_Nil [simp]: "arcfour_xor key place [] = []"
  by (simp add: arcfour_xor_def)

lemma arcfour_xor_Cons [simp]: "arcfour_xor key place (b # bs) = (b XOR arcfour key place) # arcfour_xor key (Suc place) bs"
  by (simp add: arcfour_xor_def upt_rec del: upt_Suc)

text \<open>The running cipher is the published one, wherever it stands in its stream.\<close>

lemma rc4_apply_at:
  "cipher_at key place c \<Longrightarrow> rc4_apply c bs = (out, c') \<Longrightarrow>
     out = arcfour_xor key place bs \<and> cipher_at key (place + length bs) c'"
proof (induction bs arbitrary: place c out c')
  case (Cons b bs)
  obtain k c1 where k: "keystreamByte c = (k, c1)" by (cases "keystreamByte c")
  obtain rest c2 where r: "rc4_apply c1 bs = (rest, c2)" by (cases "rc4_apply c1 bs")
  from Cons.prems k r have "out = (b XOR k) # rest" "c' = c2" by auto
  with keystreamByte_at [OF Cons.prems(1) k] Cons.IH [OF _ r, of "Suc place"] show ?case by simp
qed simp

theorem rc4_arcfour: "rc4 key data = (if key = [] then None else Some (arcfour_xor key 0 data))"
proof (cases "new_rc4 key")
  case (Some c)
  obtain out c' where "rc4_apply c data = (out, c')" by (cases "rc4_apply c data")
  with rc4_apply_at [OF new_rc4_at [OF Some] this] Some show ?thesis by (simp add: rc4_def new_rc4_def split: if_splits)
qed (simp add: rc4_def new_rc4_def split: if_splits)

end
