(* ===== verification/Md4.thy ===== *)
theory Md4
  imports Octets
begin

text \<open>
  \<^verbatim>\<open>src/crypto/md4.ts\<close>, written with four registers that rotate, against RFC 1320, where each step
  updates one register in place, written out here from the RFC's own tables. The padding is that of RFC 1320 3.1 and 3.2, and it is injective.
\<close>

unbundle bit_operations_syntax

type_synonym word32 = "32 word"

section \<open>The module\<close>

definition BLOCK_BYTES :: nat where "BLOCK_BYTES = 64"
definition LENGTH_BYTES :: nat where "LENGTH_BYTES = 8"

type_synonym Md4State = "word32 \<times> word32 \<times> word32 \<times> word32"
type_synonym Step = "nat \<times> nat"

record Round =
  schedule :: "Step list"
  mix :: "word32 \<Rightarrow> word32 \<Rightarrow> word32 \<Rightarrow> word32"
  added :: word32

definition INITIAL :: Md4State where
  "INITIAL = (0x67452301, 0xefcdab89, 0x98badcfe, 0x10325476)"

definition ROUND_ONE :: "Step list" where
  "ROUND_ONE = [(0, 3), (1, 7), (2, 11), (3, 19), (4, 3), (5, 7), (6, 11), (7, 19),
     (8, 3), (9, 7), (10, 11), (11, 19), (12, 3), (13, 7), (14, 11), (15, 19)]"

definition ROUND_TWO :: "Step list" where
  "ROUND_TWO = [(0, 3), (4, 5), (8, 9), (12, 13), (1, 3), (5, 5), (9, 9), (13, 13),
     (2, 3), (6, 5), (10, 9), (14, 13), (3, 3), (7, 5), (11, 9), (15, 13)]"

definition ROUND_THREE :: "Step list" where
  "ROUND_THREE = [(0, 3), (8, 9), (4, 11), (12, 15), (2, 3), (10, 9), (6, 11), (14, 15),
     (1, 3), (9, 9), (5, 11), (13, 15), (3, 3), (11, 9), (7, 11), (15, 15)]"

definition ROUNDS :: "Round list" where
  "ROUNDS =
     [\<lparr>schedule = ROUND_ONE, mix = (\<lambda>x y z. (x AND y) OR (NOT x AND z)), added = 0\<rparr>,
      \<lparr>schedule = ROUND_TWO, mix = (\<lambda>x y z. (x AND y) OR (x AND z) OR (y AND z)), added = 0x5a827999\<rparr>,
      \<lparr>schedule = ROUND_THREE, mix = (\<lambda>x y z. x XOR y XOR z), added = 0x6ed9eba1\<rparr>]"

definition rotate_left :: "word32 \<Rightarrow> nat \<Rightarrow> word32" where
  "rotate_left v n = push_bit n v OR drop_bit (32 - n) v"

definition pad :: "octets \<Rightarrow> octets" where
  "pad bytes =
     (let tail = length bytes mod BLOCK_BYTES;
          blocks = (length bytes - tail) div BLOCK_BYTES + (if tail < BLOCK_BYTES - LENGTH_BYTES then 1 else 2)
      in bytes @ [0x80] @ replicate (blocks * BLOCK_BYTES - LENGTH_BYTES - length bytes - 1) 0 @
         le_bytes LENGTH_BYTES (length bytes * 8))"

fun md4_step :: "(nat \<Rightarrow> word32) \<Rightarrow> Round \<Rightarrow> Step \<Rightarrow> Md4State \<Rightarrow> Md4State" where
  "md4_step X spec (index, n) (a, b, c, d) = (d, rotate_left (a + mix spec b c d + X index + added spec) n, b, c)"

definition md4_round :: "(nat \<Rightarrow> word32) \<Rightarrow> Round \<Rightarrow> Md4State \<Rightarrow> Md4State" where
  "md4_round X spec s = fold (md4_step X spec) (schedule spec) s"

definition md4_compress :: "Md4State \<Rightarrow> (nat \<Rightarrow> word32) \<Rightarrow> Md4State" where
  "md4_compress s X =
     (case s of (a0, b0, c0, d0) \<Rightarrow> (case fold (md4_round X) ROUNDS s of (a, b, c, d) \<Rightarrow> (a0 + a, b0 + b, c0 + c, d0 + d)))"

definition wordsOf :: "octets \<Rightarrow> nat \<Rightarrow> nat \<Rightarrow> word32" where
  "wordsOf padded place index = word_of_nat (le_value (cut_at padded (place + index * 4) 4))"

definition md4_digest :: "Md4State \<Rightarrow> octets" where
  "md4_digest s = (case s of (a, b, c, d) \<Rightarrow> concat (map (\<lambda>w. le_bytes 4 (unat w)) [a, b, c, d]))"

definition md4 :: "octets \<Rightarrow> octets" where
  "md4 bytes =
     (let padded = pad bytes in
      md4_digest
        (fold (\<lambda>block s. md4_compress s (wordsOf padded (block * BLOCK_BYTES))) [0..<length padded div BLOCK_BYTES] INITIAL))"

section \<open>RFC 1320\<close>

text \<open>
  The digest as the RFC writes it out, sharing nothing with the module but the byte order of a word. 3.1
  and 3.2: a message is followed by one bit and by zeros until its length is 56 modulo 64, and then by
  the length in bits.
\<close>

definition rfc_padding :: "nat \<Rightarrow> nat" where
  "rfc_padding n = (119 - n mod 64) mod 64"

definition rfc_pad :: "octets \<Rightarrow> octets" where
  "rfc_pad bytes = bytes @ [0x80] @ replicate (rfc_padding (length bytes)) 0 @ le_bytes 8 (length bytes * 8)"

text \<open>3.4: the three functions, and the step \<open>[ABCD k s]\<close>, which reads all four registers and writes the first named.\<close>

definition rfc_F :: "word32 \<Rightarrow> word32 \<Rightarrow> word32 \<Rightarrow> word32" where "rfc_F x y z = (x AND y) OR (NOT x AND z)"
definition rfc_G :: "word32 \<Rightarrow> word32 \<Rightarrow> word32 \<Rightarrow> word32" where "rfc_G x y z = (x AND y) OR (x AND z) OR (y AND z)"
definition rfc_H :: "word32 \<Rightarrow> word32 \<Rightarrow> word32 \<Rightarrow> word32" where "rfc_H x y z = x XOR y XOR z"

type_synonym Registers = "word32 list"

datatype Order = ABCD | DABC | CDAB | BCDA

primrec order_of :: "Order \<Rightarrow> nat list" where
  "order_of ABCD = [0, 1, 2, 3]"
| "order_of DABC = [3, 0, 1, 2]"
| "order_of CDAB = [2, 3, 0, 1]"
| "order_of BCDA = [1, 2, 3, 0]"

definition rfc_step ::
  "(word32 \<Rightarrow> word32 \<Rightarrow> word32 \<Rightarrow> word32) \<Rightarrow> word32 \<Rightarrow> (nat \<Rightarrow> word32) \<Rightarrow> Order \<times> nat \<times> nat \<Rightarrow> Registers \<Rightarrow> Registers" where
  "rfc_step f constant X step regs =
     (case step of (order, k, s) \<Rightarrow>
       (let r = (\<lambda>i. regs ! (order_of order ! i))
        in regs[order_of order ! 0 := word_rotl s (r 0 + f (r 1) (r 2) (r 3) + X k + constant)]))"

definition RFC_ROUND_1 :: "(Order \<times> nat \<times> nat) list" where
  "RFC_ROUND_1 =
     [(ABCD, 0, 3), (DABC, 1, 7), (CDAB, 2, 11), (BCDA, 3, 19),
      (ABCD, 4, 3), (DABC, 5, 7), (CDAB, 6, 11), (BCDA, 7, 19),
      (ABCD, 8, 3), (DABC, 9, 7), (CDAB, 10, 11), (BCDA, 11, 19),
      (ABCD, 12, 3), (DABC, 13, 7), (CDAB, 14, 11), (BCDA, 15, 19)]"

definition RFC_ROUND_2 :: "(Order \<times> nat \<times> nat) list" where
  "RFC_ROUND_2 =
     [(ABCD, 0, 3), (DABC, 4, 5), (CDAB, 8, 9), (BCDA, 12, 13),
      (ABCD, 1, 3), (DABC, 5, 5), (CDAB, 9, 9), (BCDA, 13, 13),
      (ABCD, 2, 3), (DABC, 6, 5), (CDAB, 10, 9), (BCDA, 14, 13),
      (ABCD, 3, 3), (DABC, 7, 5), (CDAB, 11, 9), (BCDA, 15, 13)]"

definition RFC_ROUND_3 :: "(Order \<times> nat \<times> nat) list" where
  "RFC_ROUND_3 =
     [(ABCD, 0, 3), (DABC, 8, 9), (CDAB, 4, 11), (BCDA, 12, 15),
      (ABCD, 2, 3), (DABC, 10, 9), (CDAB, 6, 11), (BCDA, 14, 15),
      (ABCD, 1, 3), (DABC, 9, 9), (CDAB, 5, 11), (BCDA, 13, 15),
      (ABCD, 3, 3), (DABC, 11, 9), (CDAB, 7, 11), (BCDA, 15, 15)]"

definition rfc_rounds :: "(nat \<Rightarrow> word32) \<Rightarrow> Registers \<Rightarrow> Registers" where
  "rfc_rounds X regs =
     fold (rfc_step rfc_H 0x6ED9EBA1 X) RFC_ROUND_3
       (fold (rfc_step rfc_G 0x5A827999 X) RFC_ROUND_2 (fold (rfc_step rfc_F 0 X) RFC_ROUND_1 regs))"

definition rfc_compress :: "(nat \<Rightarrow> word32) \<Rightarrow> Registers \<Rightarrow> Registers" where
  "rfc_compress X regs = map2 (+) regs (rfc_rounds X regs)"

fun rfc_blocks :: "octets \<Rightarrow> octets list" where
  "rfc_blocks [] = []"
| "rfc_blocks (b # bs) = take 64 (b # bs) # rfc_blocks (drop 64 (b # bs))"

definition rfc_md4 :: "octets \<Rightarrow> octets" where
  "rfc_md4 bytes =
     concat (map (\<lambda>w. le_bytes 4 (unat w))
       (fold (\<lambda>block regs. rfc_compress (\<lambda>k. word_of_nat (le_value (cut_at block (4 * k) 4))) regs)
         (rfc_blocks (rfc_pad bytes)) [0x67452301, 0xefcdab89, 0x98badcfe, 0x10325476]))"

section \<open>Padding\<close>

lemma pad_arith: "r < 56 \<Longrightarrow> (119 - r) mod 64 = 55 - (r :: nat)" "56 \<le> r \<Longrightarrow> (119 - r) mod 64 = 119 - r"
proof -
  assume "r < 56"
  then have "119 - r = 55 - r + 64" by linarith
  then have "(119 - r) mod 64 = (55 - r) mod 64" by (metis mod_add_self2)
  moreover have "55 - r < 64" by linarith
  ultimately show "(119 - r) mod 64 = 55 - r" by (metis mod_less)
next
  assume "56 \<le> r"
  then have "119 - r < 64" by linarith
  then show "(119 - r) mod 64 = 119 - r" by (rule mod_less)
qed

lemma pad_rfc: "pad bytes = rfc_pad bytes"
proof -
  define n q r where "n = length bytes" and "q = n div 64" and "r = n mod 64"
  have n: "n = 64 * q + r" "r < 64" by (simp_all add: q_def r_def)
  have "((n - r) div 64 + (if r < 56 then 1 else 2)) * 64 - 8 - n - 1 = (119 - r) mod 64"
    using n(2) by (cases "r < 56") (simp_all add: n(1) pad_arith)
  then show ?thesis
    unfolding pad_def rfc_pad_def rfc_padding_def Let_def BLOCK_BYTES_def LENGTH_BYTES_def by (simp flip: n_def r_def)
qed

lemma length_pad: "length (pad bytes) mod 64 = 0"
proof -
  define n q r where "n = length bytes" and "q = n div 64" and "r = n mod 64"
  have n: "n = 64 * q + r" "r < 64" by (simp_all add: q_def r_def)
  have "length (pad bytes) = 64 * q + (r + 9 + (119 - r) mod 64)"
    unfolding pad_rfc rfc_pad_def rfc_padding_def using n(2) by (simp add: n(1) flip: n_def)
  moreover have "(r + 9 + (119 - r) mod 64) mod 64 = 0"
    using n(2) by (cases "r < 56") (simp_all add: pad_arith)
  ultimately show ?thesis by simp
qed

section \<open>Rounds\<close>

definition regs_of :: "Md4State \<Rightarrow> Registers" where
  "regs_of s = (case s of (a, b, c, d) \<Rightarrow> [a, b, c, d])"

lemma rotate_left_rotl: "n < 32 \<Longrightarrow> rotate_left v n = word_rotl n v"
proof (rule bit_word_eqI)
  fix i assume n: "n < 32" and "i < LENGTH(32)"
  then have i: "i < 32" by simp
  have rotated: "bit (word_rotl n v) i = bit v ((i + (32 - n)) mod 32)" using n i by (simp add: bit_word_rotl_iff)
  have plain: "bit (rotate_left v n) i = (n \<le> i \<and> bit v (i - n) \<or> bit v (i + (32 - n)))"
    using i by (auto simp: rotate_left_def bit_or_iff bit_push_bit_iff bit_drop_bit_eq add.commute)
  show "bit (rotate_left v n) i = bit (word_rotl n v) i"
  proof (cases "n \<le> i")
    case True
    then have "i + (32 - n) = i - n + 32" using n by simp
    then have "(i + (32 - n)) mod 32 = i - n" using i by (metis less_imp_diff_less mod_add_self2 mod_less)
    moreover have "\<not> bit v (i + (32 - n))" using True n bit_imp_le_length [of v "i + (32 - n)"] by auto
    ultimately show ?thesis using True by (simp add: rotated plain)
  next
    case False
    then show ?thesis using n by (simp add: rotated plain)
  qed
qed

text \<open>Four steps of the module, which rotates the registers, are four of the RFC, which turns the order of reading.\<close>

lemma rfc_step_at:
  "rfc_step f q X (ABCD, k, n) [a, b, c, d] = [word_rotl n (a + f b c d + X k + q), b, c, d]"
  "rfc_step f q X (DABC, k, n) [a, b, c, d] = [a, b, c, word_rotl n (d + f a b c + X k + q)]"
  "rfc_step f q X (CDAB, k, n) [a, b, c, d] = [a, b, word_rotl n (c + f d a b + X k + q), d]"
  "rfc_step f q X (BCDA, k, n) [a, b, c, d] = [a, word_rotl n (b + f c d a + X k + q), c, d]"
  by (simp_all add: rfc_step_def Let_def numeral_eq_Suc)

definition turned :: "Step list \<Rightarrow> (Order \<times> nat \<times> nat) list" where
  "turned steps = zip (concat (replicate (length steps div 4) [ABCD, DABC, CDAB, BCDA])) steps"

lemma four_steps:
  assumes "snd w < 32" "snd x < 32" "snd y < 32" "snd z < 32"
  shows "regs_of (fold (md4_step X spec) [w, x, y, z] s) =
     fold (rfc_step (mix spec) (added spec) X) [(ABCD, w), (DABC, x), (CDAB, y), (BCDA, z)] (regs_of s)"
  using assms
  by (cases s; cases w; cases x; cases y; cases z) (simp add: regs_of_def rfc_step_at rotate_left_rotl)

lemma round_turned:
  assumes "length steps = 4 * n" "list_all (\<lambda>p. snd p < 32) steps"
  shows "regs_of (fold (md4_step X spec) steps s) = fold (rfc_step (mix spec) (added spec) X) (turned steps) (regs_of s)"
  using assms
proof (induction n arbitrary: steps s)
  case (Suc n)
  then have "length steps = Suc (Suc (Suc (Suc (4 * n))))" by simp
  then obtain w x y z rest where steps: "steps = [w, x, y, z] @ rest" "length rest = 4 * n"
    unfolding length_Suc_conv by auto
  have turned: "turned steps = [(ABCD, w), (DABC, x), (CDAB, y), (BCDA, z)] @ turned rest"
    by (simp add: turned_def steps)
  have "regs_of (fold (md4_step X spec) rest s') = fold (rfc_step (mix spec) (added spec) X) (turned rest) (regs_of s')" for s'
    using Suc.IH [OF steps(2)] Suc.prems(2) steps(1) by simp
  with four_steps [of w x y z X spec s] Suc.prems(2) show ?case
    unfolding turned by (simp add: steps(1) del: fold_simps)
qed (simp add: turned_def)

lemma turned_rounds: "turned ROUND_ONE = RFC_ROUND_1" "turned ROUND_TWO = RFC_ROUND_2" "turned ROUND_THREE = RFC_ROUND_3"
proof -
  have four: "concat (replicate 4 [ABCD, DABC, CDAB, BCDA]) =
      [ABCD, DABC, CDAB, BCDA, ABCD, DABC, CDAB, BCDA, ABCD, DABC, CDAB, BCDA, ABCD, DABC, CDAB, BCDA]"
    by code_simp
  have turned: "turned steps = zip (concat (replicate 4 [ABCD, DABC, CDAB, BCDA])) steps" if "length steps = 16" for steps
    using that by (simp add: turned_def)
  have "length ROUND_ONE = 16" "length ROUND_TWO = 16" "length ROUND_THREE = 16"
    by (simp_all add: ROUND_ONE_def ROUND_TWO_def ROUND_THREE_def)
  note this [THEN turned, unfolded four]
  then show "turned ROUND_ONE = RFC_ROUND_1" "turned ROUND_TWO = RFC_ROUND_2" "turned ROUND_THREE = RFC_ROUND_3"
    by (simp_all add: ROUND_ONE_def ROUND_TWO_def ROUND_THREE_def RFC_ROUND_1_def RFC_ROUND_2_def RFC_ROUND_3_def)
qed

lemma mixes: "(\<lambda>x y z. (x AND y) OR (NOT x AND z)) = rfc_F" "(\<lambda>x y z. (x AND y) OR (x AND z) OR (y AND z)) = rfc_G"
    "(\<lambda>x y z. x XOR y XOR z) = rfc_H"
  by (simp_all add: rfc_F_def rfc_G_def rfc_H_def fun_eq_iff)

lemma rounds_rfc: "regs_of (fold (md4_round X) ROUNDS s) = rfc_rounds X (regs_of s)"
proof -
  have len: "length ROUND_ONE = 4 * 4" "length ROUND_TWO = 4 * 4" "length ROUND_THREE = 4 * 4"
    by (simp_all add: ROUND_ONE_def ROUND_TWO_def ROUND_THREE_def)
  have small: "list_all (\<lambda>p. snd p < 32) ROUND_ONE" "list_all (\<lambda>p. snd p < 32) ROUND_TWO" "list_all (\<lambda>p. snd p < 32) ROUND_THREE"
    by (simp_all add: ROUND_ONE_def ROUND_TWO_def ROUND_THREE_def)
  note one = round_turned [OF len(1) small(1), unfolded turned_rounds]
  note two = round_turned [OF len(2) small(2), unfolded turned_rounds]
  note three = round_turned [OF len(3) small(3), unfolded turned_rounds]
  show ?thesis
    unfolding ROUNDS_def fold_simps md4_round_def Round.simps one two three mixes rfc_rounds_def by (rule refl)
qed

lemma compress_rfc: "regs_of (md4_compress s X) = rfc_compress X (regs_of s)"
  unfolding rfc_compress_def rounds_rfc [symmetric]
  by (cases s; cases "fold (md4_round X) ROUNDS s") (simp add: md4_compress_def regs_of_def)

section \<open>Blocks\<close>

lemma rfc_step_cong: "X k = Y k \<Longrightarrow> rfc_step f q X (order, k, n) regs = rfc_step f q Y (order, k, n) regs"
  by (simp add: rfc_step_def)

lemma rfc_fold_cong:
  "list_all (\<lambda>(order, k, n). X k = Y k) steps \<Longrightarrow> fold (rfc_step f q X) steps regs = fold (rfc_step f q Y) steps regs"
  by (induction steps arbitrary: regs) (auto simp: rfc_step_cong [of X _ Y])

lemma rfc_compress_cong:
  assumes "\<And>k. k < 16 \<Longrightarrow> X k = Y k"
  shows "rfc_compress X regs = rfc_compress Y regs"
proof -
  have "list_all (\<lambda>(order, k, n). X k = Y k) RFC_ROUND_1" "list_all (\<lambda>(order, k, n). X k = Y k) RFC_ROUND_2"
    "list_all (\<lambda>(order, k, n). X k = Y k) RFC_ROUND_3"
    by (simp_all add: RFC_ROUND_1_def RFC_ROUND_2_def RFC_ROUND_3_def assms)
  then show ?thesis by (simp add: rfc_compress_def rfc_rounds_def rfc_fold_cong [of X Y])
qed

lemma rfc_blocks_length: "length bs = 64 * n \<Longrightarrow> rfc_blocks bs = map (\<lambda>i. cut_at bs (64 * i) 64) [0..<n]"
proof (induction n arbitrary: bs)
  case (Suc n)
  then have "rfc_blocks bs = take 64 bs # rfc_blocks (drop 64 bs)" by (cases bs) auto
  also have "rfc_blocks (drop 64 bs) = map (\<lambda>i. cut_at (drop 64 bs) (64 * i) 64) [0..<n]" using Suc by simp
  also have "\<dots> = map (\<lambda>i. cut_at bs (64 * i) 64) [1..<Suc n]"
    unfolding One_nat_def map_Suc_upt [symmetric] by (simp add: cut_at_def add.commute)
  finally show ?case by (simp add: cut_at_def upt_conv_Cons del: upt_Suc)
qed simp

text \<open>
  C20: the digest is the one RFC 1320 defines: the rotating registers of the module compute what the 48
  in-place steps of the RFC, with its functions, constants, orders and shifts, compute over the blocks of
  the message padded as the RFC pads it.
\<close>

theorem md4_rfc: "md4 bytes = rfc_md4 bytes"
proof -
  define padded n where "padded = pad bytes" and "n = length padded div 64"
  have len: "length padded = 64 * n" using length_pad [of bytes] by (auto simp: padded_def n_def)
  define X where "X = (\<lambda>block :: nat. wordsOf padded (block * BLOCK_BYTES))"
  have step: "rfc_compress (X i) regs =
      rfc_compress (\<lambda>k. word_of_nat (le_value (cut_at (cut_at padded (64 * i) 64) (4 * k) 4))) regs" for i regs
  proof (rule rfc_compress_cong)
    fix k :: nat assume "k < 16"
    then have "cut_at (cut_at padded (64 * i) 64) (4 * k) 4 = cut_at padded (i * 64 + k * 4) 4"
      by (simp add: cut_at_cut_at mult.commute)
    then show "X i k = word_of_nat (le_value (cut_at (cut_at padded (64 * i) 64) (4 * k) 4))"
      by (simp add: X_def wordsOf_def BLOCK_BYTES_def)
  qed
  have "regs_of (fold (\<lambda>i s. md4_compress s (X i)) is s) =
      fold (\<lambda>block regs. rfc_compress (\<lambda>k. word_of_nat (le_value (cut_at block (4 * k) 4))) regs)
        (map (\<lambda>i. cut_at padded (64 * i) 64) is) (regs_of s)" for "is" s
    by (induction "is" arbitrary: s) (simp_all add: compress_rfc step)
  then have "regs_of (fold (\<lambda>i s. md4_compress s (X i)) [0..<n] INITIAL) =
      fold (\<lambda>block regs. rfc_compress (\<lambda>k. word_of_nat (le_value (cut_at block (4 * k) 4))) regs)
        (rfc_blocks padded) [0x67452301, 0xefcdab89, 0x98badcfe, 0x10325476]"
    by (simp add: rfc_blocks_length [OF len] regs_of_def INITIAL_def)
  moreover have "md4_digest s = concat (map (\<lambda>w. le_bytes 4 (unat w)) (regs_of s))" for s
    by (cases s) (simp add: md4_digest_def regs_of_def)
  ultimately show ?thesis
    by (simp add: md4_def rfc_md4_def Let_def BLOCK_BYTES_def X_def n_def flip: pad_rfc padded_def)
qed

lemma length_md4 [simp]: "length (md4 bytes) = 16"
  by (simp add: md4_def md4_digest_def Let_def split: prod.split)

text \<open>No two messages of a representable length are padded alike.\<close>

lemma pad_injective:
  assumes "length xs < 2 ^ 61" "length ys < 2 ^ 61" "pad xs = pad ys"
  shows "xs = ys"
proof -
  have tail: "drop (length (pad zs) - 8) (pad zs) = le_bytes 8 (length zs * 8)" for zs
    by (simp add: pad_rfc rfc_pad_def)
  have "le_bytes 8 (length xs * 8) = le_bytes 8 (length ys * 8)" using tail assms(3) by metis
  then have "length xs = length ys" using assms(1,2) by (simp add: le_bytes_inject)
  moreover have "take (length zs) (pad zs) = zs" for zs by (simp add: pad_rfc rfc_pad_def)
  ultimately show ?thesis using assms(3) by metis
qed

end
