(* ===== verification/Decodings.thy ===== *)
theory Decodings
  imports Encodings SqlTokens
begin

text \<open>
  The decoders of the Node library that the readers call: UTF-8 (\<^verbatim>\<open>toString('utf8')\<close>) and Base64
  (\<^verbatim>\<open>Buffer.from(text, 'base64')\<close>), with the round trips against the encoders. A code unit of the
  model is at most 255: a sequence of UTF-8 that decodes to a wider one, or to the replacement
  character, gives the stand-in \<open>CHR 0xBF\<close>, which takes the same branches of every reader.
\<close>

section \<open>UTF-8\<close>

definition STAND_IN :: char where "STAND_IN = CHR 0xBF"

definition is_continuation :: "char \<Rightarrow> bool" where
  "is_continuation c \<longleftrightarrow> 128 \<le> char_code c \<and> char_code c < 192"

text \<open>How many bytes the sequence that begins with this byte has.\<close>

definition sequence_length :: "char \<Rightarrow> nat" where
  "sequence_length c =
     (if 194 \<le> char_code c \<and> char_code c < 224 then 2
      else if 224 \<le> char_code c \<and> char_code c < 240 then 3
      else if 240 \<le> char_code c \<and> char_code c < 245 then 4 else 1)"

definition two_bytes :: "char \<Rightarrow> char \<Rightarrow> char" where
  "two_bytes c d = (if char_code c < 196 then char_of ((char_code c - 192) * 64 + (char_code d - 128)) else STAND_IN)"

function utf8_decode :: "bytes \<Rightarrow> string" where
  "utf8_decode [] = []"
| "utf8_decode (c # cs) =
     (if char_code c < 128 then c # utf8_decode cs
      else
       (let n = sequence_length c; rest = takeWhile is_continuation (take (n - 1) cs) in
        if n = 2 \<and> length rest = 1 then two_bytes c (hd rest) # utf8_decode (drop 1 cs)
        else STAND_IN # utf8_decode (drop (length rest) cs)))"
  by pat_completeness auto
termination by (relation "measure length") auto

lemma utf8_decode_char: "utf8_decode (utf8_char c @ bs) = c # utf8_decode bs"
proof (cases "char_code c < 128")
  case True
  then show ?thesis by (simp add: utf8_char_def)
next
  case False
  define n where "n = char_code c"
  have n: "128 \<le> n" "n < 256" using False char_code_less [of c] by (simp_all add: n_def)
  then have two: "192 + n div 64 = 194 \<or> 192 + n div 64 = 195" by auto
  have lead: "char_code (char_of (192 + n div 64)) = 192 + n div 64"
    and cont: "char_code (char_of (128 + n mod 64)) = 128 + n mod 64"
    using n by (auto intro!: char_code_of)
  have "(192 + n div 64 - 192) * 64 + (128 + n mod 64 - 128) = n" by simp
  then have "two_bytes (char_of (192 + n div 64)) (char_of (128 + n mod 64)) = c"
    unfolding two_bytes_def lead cont using two by (auto simp: n_def char_code_def)
  moreover have "is_continuation (char_of (128 + n mod 64))" by (simp add: is_continuation_def cont)
  moreover have "sequence_length (char_of (192 + n div 64)) = 2" using two by (auto simp: sequence_length_def lead)
  ultimately show ?thesis using two False by (simp add: utf8_char_def lead flip: n_def)
qed

lemma utf8_decode_encode [simp]: "utf8_decode (utf8_encode s) = s"
  by (induction s) (simp_all add: utf8_encode_def utf8_decode_char)

section \<open>Base64\<close>

text \<open>Both alphabets are read, whatever the encoding is called.\<close>

definition base64_value :: "char \<Rightarrow> nat option" where
  "base64_value c =
     (if is_upper c then Some (char_code c - 65)
      else if is_lower c then Some (char_code c - 71)
      else if is_digit c then Some (char_code c + 4)
      else if c = CHR ''+'' \<or> c = CHR ''-'' then Some 62
      else if c = CHR ''/'' \<or> c = CHR ''_'' then Some 63
      else None)"

fun unsextets :: "nat list \<Rightarrow> nat list" where
  "unsextets [] = []"
| "unsextets [a] = []"
| "unsextets [a, b] = [a * 4 + b div 16]"
| "unsextets [a, b, c] = [a * 4 + b div 16, (b mod 16) * 16 + c div 4]"
| "unsextets (a # b # c # d # rest) =
     [a * 4 + b div 16, (b mod 16) * 16 + c div 4, (c mod 4) * 64 + d] @ unsextets rest"

text \<open>The decoder stops at the padding and skips what is not of the alphabet.\<close>

definition base64_decode :: "string \<Rightarrow> bytes" where
  "base64_decode s = map char_of (unsextets (List.map_filter base64_value (before_first (CHR ''='') s)))"

lemma base64_char_code:
  "n < 26 \<Longrightarrow> char_code (base64_char u n) = 65 + n"
  "26 \<le> n \<Longrightarrow> n < 52 \<Longrightarrow> char_code (base64_char u n) = 71 + n"
  "52 \<le> n \<Longrightarrow> n < 62 \<Longrightarrow> char_code (base64_char u n) = n - 4"
  by (simp_all add: base64_char_def)

lemma base64_value_char:
  assumes "n < 64"
  shows "base64_value (base64_char u n) = Some n \<and> base64_char u n \<noteq> CHR ''=''"
proof -
  consider "n < 26" | "26 \<le> n \<and> n < 52" | "52 \<le> n \<and> n < 62" | "n = 62" | "n = 63" using assms by linarith
  then show ?thesis
  proof cases
    case 1
    have "base64_char u n \<noteq> CHR ''=''" using base64_char_code(1) [OF 1, of u] 1 by (auto simp: char_code_def)
    with 1 show ?thesis by (simp add: base64_value_def is_upper_def base64_char_code)
  next
    case 2
    have "base64_char u n \<noteq> CHR ''=''" using base64_char_code(2) [of n u] 2 by (auto simp: char_code_def)
    with 2 show ?thesis by (simp add: base64_value_def is_upper_def is_lower_def base64_char_code)
  next
    case 3
    have "base64_char u n \<noteq> CHR ''=''" using base64_char_code(3) [of n u] 3 by (auto simp: char_code_def)
    moreover have "is_digit (base64_char u n)" "\<not> is_upper (base64_char u n)" "\<not> is_lower (base64_char u n)"
      using 3 by (auto simp: is_upper_def is_lower_def is_digit_def base64_char_code)
    ultimately show ?thesis using 3 by (simp add: base64_value_def base64_char_code)
  qed (cases u; simp add: base64_value_def base64_char_def char_class_defs)+
qed

lemma unsextets_sextets: "\<forall>b \<in> set bs. b < 256 \<Longrightarrow> unsextets (sextets bs) = bs"
proof (induction bs rule: sextets.induct)
  case (2 a)
  then show ?case by simp
next
  case (3 a b)
  then have "b div 16 < 16" by auto
  then have "((a mod 4) * 16 + b div 16) div 16 = a mod 4" "((a mod 4) * 16 + b div 16) mod 16 = b div 16"
    by simp_all
  then show ?case by simp
next
  case (4 a b c rest)
  then have "b div 16 < 16" "c div 64 < 4" by auto
  then have "((a mod 4) * 16 + b div 16) div 16 = a mod 4" "((a mod 4) * 16 + b div 16) mod 16 = b div 16"
    "((b mod 16) * 4 + c div 64) div 4 = b mod 16" "((b mod 16) * 4 + c div 64) mod 4 = c div 64"
    by simp_all
  with 4 show ?case by simp
qed simp

lemma map_filter_values:
  "\<forall>n \<in> set ns. n < 64 \<Longrightarrow> List.map_filter base64_value (map (base64_char u) ns) = ns"
  using base64_value_char by (induction ns) (auto simp: List.map_filter_simps)

lemma no_padding: "\<forall>n \<in> set ns. n < 64 \<Longrightarrow> CHR ''='' \<notin> set (map (base64_char u) ns)"
  using base64_value_char by fastforce

lemma sextets_of_bytes_less: "\<forall>n \<in> set (sextets (map char_code bs)). n < 64"
  using sextets_less [of "map char_code bs"] by auto

lemma map_char_of_code [simp]: "map char_of (map char_code bs) = bs"
  by (simp add: char_code_def comp_def)

lemma base64_decode_base64url [simp]: "base64_decode (base64url bs) = bs"
proof -
  have "before_first (CHR ''='') (base64url bs) = base64url bs"
    using before_first_append [OF no_padding [OF sextets_of_bytes_less, of True bs], of "[]"]
    by (simp add: base64url_def before_first_def)
  then show ?thesis
    using map_filter_values [OF sextets_of_bytes_less, of True bs] unsextets_sextets [of "map char_code bs"]
    by (simp add: base64_decode_def base64url_def del: map_map)
qed

lemma base64_decode_base64 [simp]: "base64_decode (base64 bs) = bs"
proof -
  have "before_first (CHR ''='') (map (base64_char False) (sextets (map char_code bs)) @ replicate k (CHR ''='')) =
      map (base64_char False) (sextets (map char_code bs))" for k
    using before_first_append [OF no_padding [OF sextets_of_bytes_less, of False bs], of "replicate k (CHR ''='')"]
    by (cases k) (simp_all add: before_first_def)
  then show ?thesis
    using map_filter_values [OF sextets_of_bytes_less, of False bs] unsextets_sextets [of "map char_code bs"]
    by (simp add: base64_decode_def base64_def Let_def del: map_map)
qed

text \<open>What \<^verbatim>\<open>/^[\d+/A-Za-z]*={0,2}$/\<close> matches.\<close>

definition is_base64_char :: "char \<Rightarrow> bool" where
  "is_base64_char c \<longleftrightarrow> is_alnum c \<or> c = CHR ''+'' \<or> c = CHR ''/''"

definition is_base64_text :: "string \<Rightarrow> bool" where
  "is_base64_text s \<longleftrightarrow>
     (let rest = dropWhile is_base64_char s in length rest \<le> 2 \<and> list_all (\<lambda>c. c = CHR ''='') rest)"

lemma base64_char_ok: "n < 64 \<Longrightarrow> is_base64_char (base64_char False n)"
  using base64_char_code [of n False]
  by (cases "n < 62") (auto simp: is_base64_char_def is_alnum_def is_upper_def is_lower_def is_digit_def base64_char_def)

lemma sextets_mod: "length (sextets bs) mod 4 \<noteq> 1"
  by (induction bs rule: sextets.induct) auto

lemma dropWhile_padding: "list_all P xs \<Longrightarrow> \<not> P c \<Longrightarrow> dropWhile P (xs @ replicate k c) = replicate k c"
  by (induction xs) (auto simp: dropWhile_eq_self_iff)

lemma padding_less: "m < 4 \<Longrightarrow> m \<noteq> 1 \<Longrightarrow> (4 - m) mod 4 \<le> (2 :: nat)"
proof -
  assume "m < 4" "m \<noteq> 1"
  then have "m = 0 \<or> m = 2 \<or> m = 3" by linarith
  then show ?thesis by (elim disjE) simp_all
qed

lemma base64_text [simp]: "is_base64_text (base64 bs)"
proof -
  define body where "body = map (base64_char False) (sextets (map char_code bs))"
  define k where "k = (4 - length body mod 4) mod 4"
  have "list_all is_base64_char body"
    using base64_char_ok sextets_of_bytes_less [of bs] by (simp add: list_all_iff body_def)
  then have rest: "dropWhile is_base64_char (body @ replicate k (CHR ''='')) = replicate k (CHR ''='')"
    by (rule dropWhile_padding) code_simp
  have "length body mod 4 \<noteq> 1" unfolding body_def length_map by (rule sextets_mod)
  then have k: "k \<le> 2" unfolding k_def by (intro padding_less) simp_all
  have "base64 bs = body @ replicate k (CHR ''='')" by (simp only: base64_def body_def k_def Let_def)
  with rest k show ?thesis by (simp add: is_base64_text_def list_all_iff)
qed

section \<open>Numbers as text\<close>

text \<open>\<^verbatim>\<open>String(n)\<close> of a natural number; \<open>decimal\<close> reads it back.\<close>

fun nat_text :: "nat \<Rightarrow> string" where
  "nat_text n = (if n < 10 then [char_of (48 + n)] else nat_text (n div 10) @ [char_of (48 + n mod 10)])"

declare nat_text.simps [simp del]

lemma is_digit_of: "n < 10 \<Longrightarrow> is_digit (char_of (48 + n)) \<and> char_code (char_of (48 + n)) - 48 = n"
  by (simp add: is_digit_def char_code_of)

lemma decimal_snoc: "decimal (s @ [c]) = 10 * decimal s + (char_code c - 48)"
  by (simp add: decimal_def)

lemma decimal_nat_text [simp]: "decimal (nat_text n) = n"
proof (induction n rule: nat_text.induct)
  case (1 n)
  show ?case
  proof (cases "n < 10")
    case True
    then show ?thesis using decimal_snoc [of "[]" "char_of (48 + n)"] is_digit_of [OF True]
      by (simp add: nat_text.simps decimal_def)
  next
    case False
    then show ?thesis using 1 is_digit_of [of "n mod 10"] by (simp add: nat_text.simps [of n] decimal_snoc)
  qed
qed

lemma nat_text_digits: "list_all is_digit (nat_text n)"
proof (induction n rule: nat_text.induct)
  case (1 n)
  then show ?case using is_digit_of [of n] is_digit_of [of "n mod 10"] by (simp add: nat_text.simps [of n])
qed

lemma nat_text_not_Nil [simp]: "nat_text n \<noteq> []"
  by (simp add: nat_text.simps [of n])

lemma length_nat_text: "n < 10 ^ k \<Longrightarrow> 0 < k \<Longrightarrow> length (nat_text n) \<le> k"
proof (induction k arbitrary: n)
  case (Suc k)
  show ?case
  proof (cases "n < 10")
    case False
    with Suc.prems have "0 < k" by (cases k) auto
    moreover have "n div 10 < 10 ^ k" using Suc.prems by (simp add: less_mult_imp_div_less mult.commute)
    ultimately show ?thesis using Suc.IH False by (simp add: nat_text.simps [of n])
  qed (simp add: nat_text.simps [of n])
qed simp

end
