(* ===== verification/Ntlm.thy ===== *)
theory Ntlm
  imports Md4 Rc4 SqlTokens
begin

text \<open>
  The three messages of the NTLM exchange (\<^verbatim>\<open>src/actions/connectors/winrm/ntlm/\<close>): the strict reader
  of \<^verbatim>\<open>reader.ts\<close>, the flags, the negotiate message, the challenge and its attribute list, the NTLMv2
  response and the authenticate message. \<^verbatim>\<open>NtlmProblem\<close> is the left of a result, with the reason it
  names; HMAC-MD5 and the entropy are parameters, MD4 and RC4 are the program's own.
\<close>

section \<open>The reader\<close>

type_synonym 't Ntlm = "('t, string) result"

definition bytes_slice :: "octets \<Rightarrow> nat \<Rightarrow> nat \<Rightarrow> string \<Rightarrow> octets Ntlm" where
  "bytes_slice b place n what =
     (if place + n > length b then fail (what @ '' lies outside the message'') else ok (cut_at b place n))"

definition bytes_u16 :: "octets \<Rightarrow> nat \<Rightarrow> string \<Rightarrow> nat Ntlm" where
  "bytes_u16 b place what = map_sum id le_value (bytes_slice b place 2 what)"

definition bytes_u32 :: "octets \<Rightarrow> nat \<Rightarrow> string \<Rightarrow> nat Ntlm" where
  "bytes_u32 b place what = map_sum id le_value (bytes_slice b place 4 what)"

definition bytes_field :: "octets \<Rightarrow> nat \<Rightarrow> string \<Rightarrow> octets Ntlm" where
  "bytes_field b place what =
     and_then (bytes_u16 b place what) (\<lambda>n.
     and_then (bytes_u32 b (place + 4) what) (\<lambda>offset.
     bytes_slice b offset n what))"

section \<open>Flags\<close>

definition NTLM_SIGNATURE :: octets where "NTLM_SIGNATURE = latin1 (''NTLMSSP'' @ [CHR 0x00])"

definition MESSAGE_NEGOTIATE :: nat where "MESSAGE_NEGOTIATE = 1"
definition MESSAGE_CHALLENGE :: nat where "MESSAGE_CHALLENGE = 2"
definition MESSAGE_AUTHENTICATE :: nat where "MESSAGE_AUTHENTICATE = 3"

definition flag_unicode :: word32 where "flag_unicode = 0x00000001"
definition flag_requestTarget :: word32 where "flag_requestTarget = 0x00000004"
definition flag_sign :: word32 where "flag_sign = 0x00000010"
definition flag_seal :: word32 where "flag_seal = 0x00000020"
definition flag_ntlm :: word32 where "flag_ntlm = 0x00000200"
definition flag_alwaysSign :: word32 where "flag_alwaysSign = 0x00008000"
definition flag_extendedSessionSecurity :: word32 where "flag_extendedSessionSecurity = 0x00080000"
definition flag_targetInfo :: word32 where "flag_targetInfo = 0x00800000"
definition flag_version :: word32 where "flag_version = 0x02000000"
definition flag_key128 :: word32 where "flag_key128 = 0x20000000"
definition flag_keyExchange :: word32 where "flag_keyExchange = 0x40000000"

lemmas flag_defs = flag_unicode_def flag_requestTarget_def flag_sign_def flag_seal_def flag_ntlm_def flag_alwaysSign_def
  flag_extendedSessionSecurity_def flag_targetInfo_def flag_version_def flag_key128_def flag_keyExchange_def

definition NEGOTIATE_FLAGS :: word32 where
  "NEGOTIATE_FLAGS =
     flag_unicode OR flag_requestTarget OR flag_sign OR flag_seal OR flag_ntlm OR flag_alwaysSign OR
     flag_extendedSessionSecurity OR flag_targetInfo OR flag_version OR flag_key128 OR flag_keyExchange"

definition REQUIRED_FLAGS :: word32 where
  "REQUIRED_FLAGS = flag_unicode OR flag_sign OR flag_seal OR flag_extendedSessionSecurity OR flag_key128"

definition VERSION_FIELD :: octets where "VERSION_FIELD = [0, 0, 0, 0, 0, 0, 0, 0x0f]"

section \<open>The negotiate message\<close>

text \<open>Sixteen zero bytes are the domain and the workstation.\<close>

definition negotiateMessage :: octets where
  "negotiateMessage =
     NTLM_SIGNATURE @ le_bytes 4 MESSAGE_NEGOTIATE @ le_bytes 4 (unat NEGOTIATE_FLAGS) @ replicate 16 0 @ VERSION_FIELD"

section \<open>The attribute list\<close>

definition MAX_ATTRIBUTES :: nat where "MAX_ATTRIBUTES = 64"
definition AV_EOL :: nat where "AV_EOL = 0"
definition AV_FLAGS :: nat where "AV_FLAGS = 6"
definition AV_TIMESTAMP :: nat where "AV_TIMESTAMP = 7"
definition AV_CHANNEL_BINDINGS :: nat where "AV_CHANNEL_BINDINGS = 10"

record AvPair =
  av_id :: nat
  av_value :: octets

definition TOO_MANY :: string where
  "TOO_MANY = ''the target information holds more attributes than any challenge does''"

text \<open>The loop, with the rounds it still has; the list is what was pushed.\<close>

fun read_pairs :: "nat \<Rightarrow> octets \<Rightarrow> nat \<Rightarrow> AvPair list \<Rightarrow> AvPair list Ntlm" where
  "read_pairs 0 b place pairs = fail TOO_MANY"
| "read_pairs (Suc rounds) b place pairs =
     and_then (bytes_u16 b place ''an attribute identifier'') (\<lambda>i.
     and_then (bytes_u16 b (place + 2) ''an attribute length'') (\<lambda>n.
     and_then (bytes_slice b (place + 4) n ''an attribute value'') (\<lambda>v.
       if i = AV_EOL then (if n \<noteq> 0 then fail ''the terminating attribute carries a value'' else ok pairs)
       else read_pairs rounds b (place + 4 + n) (pairs @ [\<lparr>av_id = i, av_value = v\<rparr>]))))"

definition readAttributes :: "octets \<Rightarrow> AvPair list Ntlm" where
  "readAttributes info = read_pairs (Suc MAX_ATTRIBUTES) info 0 []"

definition attributeBytes :: "AvPair \<Rightarrow> octets" where
  "attributeBytes p = le_bytes 2 (av_id p) @ le_bytes 2 (length (av_value p)) @ av_value p"

definition writeAttributes :: "AvPair list \<Rightarrow> octets" where
  "writeAttributes pairs = concat (map attributeBytes pairs) @ replicate 4 0"

text \<open>A pair that \<^verbatim>\<open>writeUInt16LE\<close> takes and a reader does not take for the terminator.\<close>

definition pair_ok :: "AvPair \<Rightarrow> bool" where
  "pair_ok p \<longleftrightarrow> 0 < av_id p \<and> av_id p < 2 ^ 16 \<and> length (av_value p) < 2 ^ 16"

section \<open>The challenge\<close>

record Challenge =
  ch_flags :: word32
  serverChallenge :: octets
  attributes :: "AvPair list"
  ch_timestamp :: "octets option"
  raw :: octets

definition timestampOf :: "AvPair list \<Rightarrow> octets option Ntlm" where
  "timestampOf pairs =
     (case find (\<lambda>p. av_id p = AV_TIMESTAMP) pairs of
        None \<Rightarrow> ok None
      | Some p \<Rightarrow> if length (av_value p) \<noteq> 8 then fail ''the timestamp attribute is not eight bytes'' else ok (Some (av_value p)))"

definition weakFlags :: "word32 \<Rightarrow> bool" where
  "weakFlags flags \<longleftrightarrow> flags AND REQUIRED_FLAGS \<noteq> REQUIRED_FLAGS"

definition WEAK_FLAGS :: string where
  "WEAK_FLAGS = ''it offers neither Unicode, extended session security, sealing, signing nor 128-bit keys''"

definition parseChallenge :: "octets \<Rightarrow> Challenge Ntlm" where
  "parseChallenge message =
     and_then (bytes_slice message 0 8 ''the signature'') (\<lambda>s.
     if s \<noteq> NTLM_SIGNATURE then fail ''it does not begin with the NTLMSSP signature'' else
     and_then (bytes_u32 message 8 ''the message type'') (\<lambda>kind.
     if kind \<noteq> MESSAGE_CHALLENGE then fail ''it is not a challenge'' else
     and_then (bytes_u32 message 20 ''the negotiated flags'') (\<lambda>flags.
     and_then (bytes_field message 40 ''the target information'') (\<lambda>info.
     and_then (readAttributes info) (\<lambda>pairs.
     if weakFlags (word_of_nat flags) then fail WEAK_FLAGS else
     and_then (bytes_slice message 24 8 ''the server challenge'') (\<lambda>challenge.
     and_then (timestampOf pairs) (\<lambda>t.
       ok \<lparr>ch_flags = word_of_nat flags, serverChallenge = challenge, attributes = pairs,
           ch_timestamp = t, raw = message\<rparr>)))))))"

text \<open>A set-up of the announced flags; \<^verbatim>\<open>AV_FLAG_MIC_PROVIDED\<close> is bit one.\<close>

definition AV_FLAG_MIC_PROVIDED :: word32 where "AV_FLAG_MIC_PROVIDED = 2"

definition withMicAnnounced :: "AvPair list \<Rightarrow> AvPair list Ntlm" where
  "withMicAnnounced pairs =
     (let announce = (\<lambda>v. \<lparr>av_id = AV_FLAGS, av_value = le_bytes 4 (unat (v OR AV_FLAG_MIC_PROVIDED))\<rparr>) in
      (case find (\<lambda>p. av_id p = AV_FLAGS) pairs of
         None \<Rightarrow> ok (pairs @ [announce 0])
       | Some p \<Rightarrow>
         (if length (av_value p) \<noteq> 4 then fail ''the flags attribute is not four bytes''
          else
           (let announced = announce (word_of_nat (le_value (av_value p)))
            in ok (map (\<lambda>q. if av_id q = AV_FLAGS then announced else q) pairs)))))"

definition blobAttributes :: "Challenge \<Rightarrow> octets option \<Rightarrow> octets Ntlm" where
  "blobAttributes challenge channelBinding =
     and_then (case ch_timestamp challenge of None \<Rightarrow> ok (attributes challenge) | Some _ \<Rightarrow> withMicAnnounced (attributes challenge))
       (\<lambda>announced. ok (writeAttributes
          (case channelBinding of
             None \<Rightarrow> announced
           | Some b \<Rightarrow> announced @ [\<lparr>av_id = AV_CHANNEL_BINDINGS, av_value = b\<rparr>])))"

section \<open>The NTLMv2 response\<close>

record NtlmCredential =
  nc_username :: string
  nc_domain :: string
  nc_password :: string

record Ntlmv2Response =
  nt_response :: octets
  lm_response :: octets
  sessionBaseKey :: octets

type_synonym Hmac = "octets \<Rightarrow> octets \<Rightarrow> octets"

definition ntowfv2 :: "Hmac \<Rightarrow> NtlmCredential \<Rightarrow> octets" where
  "ntowfv2 hmac credential =
     hmac (md4 (utf16le (nc_password credential))) (utf16le (toUpperCase (nc_username credential) @ nc_domain credential))"

definition ntlmCredential :: "string \<Rightarrow> string \<Rightarrow> NtlmCredential" where
  "ntlmCredential login password =
     (if CHR 0x5C \<notin> set login then \<lparr>nc_username = login, nc_domain = [], nc_password = password\<rparr>
      else \<lparr>nc_username = tl (from_first (CHR 0x5C) login), nc_domain = before_first (CHR 0x5C) login, nc_password = password\<rparr>)"

definition FILETIME_EPOCH_OFFSET_MS :: nat where "FILETIME_EPOCH_OFFSET_MS = 11644473600000"
definition FILETIME_PER_MS :: nat where "FILETIME_PER_MS = 10000"

definition fileTime :: "nat \<Rightarrow> octets" where
  "fileTime epochMilliseconds = le_bytes 8 ((epochMilliseconds + FILETIME_EPOCH_OFFSET_MS) * FILETIME_PER_MS)"

definition ntlmv2Blob :: "octets \<Rightarrow> octets \<Rightarrow> octets \<Rightarrow> octets" where
  "ntlmv2Blob stamp clientChallenge attrs =
     [1, 1, 0, 0, 0, 0, 0, 0] @ stamp @ clientChallenge @ replicate 4 0 @ attrs @ replicate 4 0"

definition ntlmv2Response :: "Hmac \<Rightarrow> octets \<Rightarrow> octets \<Rightarrow> octets \<Rightarrow> octets \<Rightarrow> bool \<Rightarrow> Ntlmv2Response" where
  "ntlmv2Response hmac key server client blob isTimestamped =
     (let proof_string = hmac key (server @ blob) in
      \<lparr>nt_response = proof_string @ blob,
       lm_response = (if isTimestamped then replicate 24 0 else hmac key (server @ client) @ client),
       sessionBaseKey = hmac key proof_string\<rparr>)"

section \<open>The authenticate message\<close>

record Parts =
  part_lm :: octets
  part_nt :: octets
  part_domain :: octets
  part_user :: octets
  part_workstation :: octets
  part_sessionKey :: octets

definition parts_in_order :: "Parts \<Rightarrow> octets list" where
  "parts_in_order p = [part_lm p, part_nt p, part_domain p, part_user p, part_workstation p, part_sessionKey p]"

text \<open>The triple of each part, which follow each other from byte 12 on.\<close>

fun field_triples :: "nat \<Rightarrow> octets list \<Rightarrow> octets" where
  "field_triples offset [] = []"
| "field_triples offset (v # vs) =
     le_bytes 2 (length v) @ le_bytes 2 (length v) @ le_bytes 4 offset @ field_triples (offset + length v) vs"

definition HEADER_BYTES :: nat where "HEADER_BYTES = 88"
definition MIC_AT :: nat where "MIC_AT = 72"

text \<open>\<open>None\<close> is the \<^verbatim>\<open>RangeError\<close> of a part or an offset that its field cannot hold.\<close>

definition assemble_message :: "Parts \<Rightarrow> word32 \<Rightarrow> octets option" where
  "assemble_message parts flags =
     (let payload = concat (parts_in_order parts) in
      if list_all (\<lambda>v. length v < 2 ^ 16) (parts_in_order parts) \<and> HEADER_BYTES + length payload < 2 ^ 32
      then Some (NTLM_SIGNATURE @ le_bytes 4 MESSAGE_AUTHENTICATE @ field_triples HEADER_BYTES (parts_in_order parts) @
             le_bytes 4 (unat flags) @ VERSION_FIELD @ replicate 16 0 @ payload)
      else None)"

definition signIntegrity :: "Hmac \<Rightarrow> octets \<Rightarrow> octets \<Rightarrow> Challenge \<Rightarrow> octets \<Rightarrow> octets" where
  "signIntegrity hmac message negotiate challenge key =
     (let mic = take 16 (hmac key (negotiate @ raw challenge @ message))
      in take MIC_AT message @ mic @ drop (MIC_AT + length mic) message)"

record AuthenticateRequest =
  ar_credential :: NtlmCredential
  ar_challenge :: Challenge
  ar_negotiate :: octets
  ar_channelBinding :: "octets option"
  ar_random :: "nat \<Rightarrow> octets"
  ar_now :: nat

record Authentication =
  auth_message :: octets
  exportedSessionKey :: octets
  isKeyExchange :: bool

text \<open>The outer option is the \<^verbatim>\<open>RangeError\<close>, the inner result the \<^verbatim>\<open>NtlmProblem\<close>.\<close>

definition authenticateMessage :: "Hmac \<Rightarrow> AuthenticateRequest \<Rightarrow> Authentication Ntlm option" where
  "authenticateMessage hmac request =
     (let challenge = ar_challenge request;
          credential = ar_credential request;
          negotiated = NEGOTIATE_FLAGS AND ch_flags challenge;
          clientChallenge = ar_random request 8
      in
      (case blobAttributes challenge (ar_channelBinding request) of
         Inl e \<Rightarrow> Some (fail e)
       | Inr attrs \<Rightarrow>
         (let blob = ntlmv2Blob (case ch_timestamp challenge of Some t \<Rightarrow> t | None \<Rightarrow> fileTime (ar_now request)) clientChallenge attrs;
              response = ntlmv2Response hmac (ntowfv2 hmac credential) (serverChallenge challenge) clientChallenge blob
                (ch_timestamp challenge \<noteq> None);
              exchange = negotiated AND flag_keyExchange \<noteq> 0;
              key = (if exchange then ar_random request 16 else sessionBaseKey response)
          in
          (case (if exchange then rc4 (sessionBaseKey response) key else Some []) of
             None \<Rightarrow> None
           | Some sealed \<Rightarrow>
             (case assemble_message
                \<lparr>part_lm = lm_response response, part_nt = nt_response response, part_domain = utf16le (nc_domain credential),
                 part_user = utf16le (nc_username credential), part_workstation = [], part_sessionKey = sealed\<rparr> negotiated of
                None \<Rightarrow> None
              | Some message \<Rightarrow>
                Some (ok
                  \<lparr>auth_message =
                     (if ch_timestamp challenge \<noteq> None then signIntegrity hmac message (ar_negotiate request) challenge key
                      else message),
                   exportedSessionKey = key, isKeyExchange = exchange\<rparr>))))))"

end
