(* ===== verification/NtlmSafety.thy ===== *)
theory NtlmSafety
  imports Ntlm
begin

text \<open>
  What the strict reader of the NTLM messages accepts: an attribute list is read back exactly as it was
  written and nothing else is read as one, what the reader returns lies inside the message, and the
  authenticate message holds its parts where a reader of its triples looks for them.
\<close>

section \<open>The reader\<close>

lemma bytes_slice_ok: "bytes_slice b place n what = ok v \<longleftrightarrow> place + n \<le> length b \<and> v = cut_at b place n"
  by (auto simp: bytes_slice_def)

lemma bytes_u_ok:
  "bytes_u16 b place what = ok v \<longleftrightarrow> place + 2 \<le> length b \<and> v = le_value (cut_at b place 2)"
  "bytes_u32 b place what = ok v \<longleftrightarrow> place + 4 \<le> length b \<and> v = le_value (cut_at b place 4)"
  by (auto simp: bytes_u16_def bytes_u32_def bytes_slice_def ok_def fail_def)

lemma drop_room: "drop place b = v @ r \<Longrightarrow> place \<le> length b \<Longrightarrow> place + length v \<le> length b"
  by (metis add.commute length_append length_drop le_add1 le_diff_conv2)

lemma drop_more: "drop place b = v @ r \<Longrightarrow> p = place + length v \<Longrightarrow> drop p b = r"
  by (metis add.commute append_eq_conv_conj drop_drop)

lemma terminator: "writeAttributes [] = le_bytes 2 AV_EOL @ le_bytes 2 0"
  by (simp add: writeAttributes_def AV_EOL_def le_bytes_zero flip: replicate_add)

lemma bytes_slice_at: "drop place b = v @ r \<Longrightarrow> place \<le> length b \<Longrightarrow> n = length v \<Longrightarrow> bytes_slice b place n what = ok v"
  using drop_room by (auto simp: bytes_slice_ok cut_at_def)

lemma drop_nonempty: "drop place b = v @ r \<Longrightarrow> v \<noteq> [] \<Longrightarrow> place \<le> length b"
  by (cases "place \<le> length b") auto

lemma bytes_u_at:
  "drop place b = le_bytes 2 v @ r \<Longrightarrow> v < 2 ^ 16 \<Longrightarrow> bytes_u16 b place what = ok v"
  "drop place b = le_bytes 4 w @ r \<Longrightarrow> w < 2 ^ 32 \<Longrightarrow> bytes_u32 b place what = ok w"
proof -
  assume d: "drop place b = le_bytes 2 v @ r" and "v < 2 ^ 16"
  then have "v < 256 ^ 2" by simp
  moreover have "le_bytes 2 v \<noteq> []" by simp
  ultimately show "bytes_u16 b place what = ok v"
    using drop_room [OF d] drop_nonempty [OF d] d by (auto simp: bytes_u_ok cut_at_def)
next
  assume d: "drop place b = le_bytes 4 w @ r" and "w < 2 ^ 32"
  then have "w < 256 ^ 4" by simp
  moreover have "le_bytes 4 w \<noteq> []" by simp
  ultimately show "bytes_u32 b place what = ok w"
    using drop_room [OF d] drop_nonempty [OF d] d by (auto simp: bytes_u_ok cut_at_def)
qed

section \<open>Attributes\<close>

lemma header_split:
  assumes "4 + n \<le> length d" "i = le_value (take 2 d)" "n = le_value (cut_at d 2 2)"
  shows "d = le_bytes 2 i @ le_bytes 2 n @ cut_at d 4 n @ drop (4 + n) d"
proof -
  have "le_bytes 2 i = take 2 d" "le_bytes 2 n = cut_at d 2 2" using assms by (simp_all add: length_cut_at)
  moreover have "d = take 2 d @ cut_at d 2 2 @ cut_at d 4 n @ drop (4 + n) d"
    by (metis add_2_eq_Suc' append_take_drop_id cut_at_def drop_drop numeral_Bit0 one_add_one add.commute)
  ultimately show ?thesis by simp
qed

lemma read_pairs_sound:
  "read_pairs k b place acc = ok pairs \<Longrightarrow>
   \<exists>new rest. pairs = acc @ new \<and> length new < k \<and> list_all pair_ok new \<and> drop place b = writeAttributes new @ rest"
proof (induction k arbitrary: place acc)
  case (Suc k)
  define d where "d = drop place b"
  obtain i n v where i: "bytes_u16 b place ''an attribute identifier'' = ok i"
    and n: "bytes_u16 b (place + 2) ''an attribute length'' = ok n"
    and v: "bytes_slice b (place + 4) n ''an attribute value'' = ok v"
    and rest: "(if i = AV_EOL then (if n \<noteq> 0 then fail ''the terminating attribute carries a value'' else ok acc)
       else read_pairs k b (place + 4 + n) (acc @ [\<lparr>av_id = i, av_value = v\<rparr>])) = ok pairs"
    using Suc.prems by (auto simp: and_then_ok)
  have room: "4 + n \<le> length d" using v by (auto simp: bytes_slice_ok d_def)
  have id: "i = le_value (take 2 d)" and len: "n = le_value (cut_at d 2 2)" and val: "v = cut_at d 4 n"
    using i n v by (simp_all add: bytes_u_ok bytes_slice_ok d_def cut_at_def add.commute)
  have split: "d = le_bytes 2 i @ le_bytes 2 n @ v @ drop (4 + n) d" using header_split [OF room id len] val by simp
  show ?case
  proof (cases "i = AV_EOL")
    case True
    with rest have "n = 0" "pairs = acc" by (auto split: if_splits)
    with split True have "d = writeAttributes [] @ drop 4 d"
      by (simp add: terminator val)
    with \<open>pairs = acc\<close> show ?thesis
      by (intro exI [of _ "[]"] exI [of _ "drop 4 d"] conjI) (simp_all flip: d_def)
  next
    case False
    with rest have "read_pairs k b (place + 4 + n) (acc @ [\<lparr>av_id = i, av_value = v\<rparr>]) = ok pairs" by simp
    from Suc.IH [OF this] obtain new r where new: "pairs = acc @ \<lparr>av_id = i, av_value = v\<rparr> # new" "length new < k"
      "list_all pair_ok new" "drop (place + 4 + n) b = writeAttributes new @ r" by auto
    have "length v = n" using room by (simp add: val length_cut_at)
    moreover have "i < 2 ^ 16" "n < 2 ^ 16"
      using le_value_less [of "take 2 d"] le_value_less [of "cut_at d 2 2"] room by (simp_all add: id len length_cut_at)
    ultimately have "pair_ok \<lparr>av_id = i, av_value = v\<rparr>" using False by (simp add: pair_ok_def AV_EOL_def)
    have "drop (4 + n) d = writeAttributes new @ r" unfolding d_def drop_drop by (metis add.assoc add.commute new(4))
    then have "d = writeAttributes (\<lparr>av_id = i, av_value = v\<rparr> # new) @ r"
      using split \<open>length v = n\<close> by (simp add: writeAttributes_def attributeBytes_def)
    with new(1-3) \<open>pair_ok _\<close> show ?thesis
      unfolding d_def by (intro exI [of _ "\<lparr>av_id = i, av_value = v\<rparr> # new"] exI [of _ r]) simp
  qed
qed simp

lemma read_pairs_complete:
  "length new < k \<Longrightarrow> list_all pair_ok new \<Longrightarrow> drop place b = writeAttributes new @ rest \<Longrightarrow>
   read_pairs k b place acc = ok (acc @ new)"
proof (induction new arbitrary: k place acc)
  case Nil
  then obtain k' where k: "k = Suc k'" by (cases k) auto
  have d: "drop place b = le_bytes 2 AV_EOL @ le_bytes 2 0 @ rest"
    using Nil.prems(3) by (simp add: terminator)
  have d2: "drop (place + 2) b = le_bytes 2 0 @ rest" by (rule drop_more [OF d]) simp
  have "drop (place + 4) b = rest" by (rule drop_more [OF d2]) simp
  then have d4: "drop (place + 4) b = [] @ rest" by simp
  have "place + 2 \<le> length b" using drop_room [OF d drop_nonempty [OF d]] by simp
  then have "place + 4 \<le> length b" using drop_room [OF d2] by simp
  with bytes_u_at(1) [OF d] bytes_u_at(1) [OF d2] bytes_slice_at [OF d4] show ?case
    by (simp add: k AV_EOL_def)
next
  case (Cons p new)
  then obtain k' where k: "k = Suc k'" by (cases k) auto
  let ?tail = "writeAttributes new @ rest"
  have ok: "0 < av_id p" "av_id p < 2 ^ 16" "length (av_value p) < 2 ^ 16" using Cons.prems(2) by (simp_all add: pair_ok_def)
  have d: "drop place b = le_bytes 2 (av_id p) @ le_bytes 2 (length (av_value p)) @ av_value p @ ?tail"
    using Cons.prems(3) by (simp add: writeAttributes_def attributeBytes_def)
  have d2: "drop (place + 2) b = le_bytes 2 (length (av_value p)) @ av_value p @ ?tail" by (rule drop_more [OF d]) simp
  have d4: "drop (place + 4) b = av_value p @ ?tail" by (rule drop_more [OF d2]) simp
  have d5: "drop (place + 4 + length (av_value p)) b = ?tail" by (rule drop_more [OF d4]) simp
  have "place + 2 \<le> length b" using drop_room [OF d drop_nonempty [OF d]] by simp
  then have "place + 4 \<le> length b" using drop_room [OF d2] by simp
  from bytes_u_at(1) [OF d ok(2)] bytes_u_at(1) [OF d2 ok(3)] bytes_slice_at [OF d4 this refl] ok(1)
  have "read_pairs k b place acc =
      read_pairs k' b (place + 4 + length (av_value p)) (acc @ [\<lparr>av_id = av_id p, av_value = av_value p\<rparr>])"
    by (simp add: k AV_EOL_def)
  also have "\<lparr>av_id = av_id p, av_value = av_value p\<rparr> = p" by (cases p) simp
  also have "read_pairs k' b (place + 4 + length (av_value p)) (acc @ [p]) = ok ((acc @ [p]) @ new)" using Cons.prems(1,2) by (intro Cons.IH d5) (simp_all add: k)
  finally show ?case by simp
qed

text \<open>
  reading an attribute list is the inverse of writing one, in both directions: what is read is at
  most 64 pairs a writer can write, and reads as a list exactly what such a list was written as, with
  whatever follows its terminator left alone.
\<close>

theorem readAttributes_iff:
  "readAttributes info = ok pairs \<longleftrightarrow>
     length pairs \<le> MAX_ATTRIBUTES \<and> list_all pair_ok pairs \<and> prefix (writeAttributes pairs) info"
  using read_pairs_sound [of "Suc MAX_ATTRIBUTES" info 0 "[]" pairs] read_pairs_complete [of pairs "Suc MAX_ATTRIBUTES" 0 info _ "[]"]
  by (auto simp: readAttributes_def prefix_def)


text \<open>Reading a list never returns a byte that is not in it, so a challenge is all inside the message.\<close>

lemma parseChallenge_ok:
  assumes "parseChallenge message = ok c"
  shows "raw c = message \<and> REQUIRED_FLAGS AND ch_flags c = REQUIRED_FLAGS \<and> length (serverChallenge c) = 8 \<and>
    length (attributes c) \<le> MAX_ATTRIBUTES \<and> list_all pair_ok (attributes c) \<and>
    (case ch_timestamp c of None \<Rightarrow> True | Some t \<Rightarrow> length t = 8)"
  using assms
  by (auto simp: parseChallenge_def and_then_ok readAttributes_iff weakFlags_def bytes_slice_ok length_cut_at timestampOf_def and.commute
      split: if_splits option.splits)

section \<open>The authenticate message\<close>

lemma triples_read:
  assumes "list_all (\<lambda>v. length v < 2 ^ 16) vs" "off + length (concat vs) < 2 ^ 32" "drop place m = field_triples off vs @ post"
    "drop off m = concat vs @ rest" "off \<le> length m" "i < length vs"
  shows "bytes_field m (place + 8 * i) what = ok (vs ! i)"
  using assms
proof (induction vs arbitrary: place off i)
  case (Cons v vs)
  have d: "drop place m = le_bytes 2 (length v) @ le_bytes 2 (length v) @ le_bytes 4 off @ field_triples (off + length v) vs @ post"
    using Cons.prems(3) by simp
  have d2: "drop (place + 2) m = le_bytes 2 (length v) @ le_bytes 4 off @ field_triples (off + length v) vs @ post"
    by (rule drop_more [OF d]) simp
  have d4: "drop (place + 4) m = le_bytes 4 off @ field_triples (off + length v) vs @ post" by (rule drop_more [OF d2]) simp
  have d8: "drop (place + 8) m = field_triples (off + length v) vs @ post" by (rule drop_more [OF d4]) simp
  have room: "off + length v \<le> length m" using drop_room [of off m v "concat vs @ rest"] Cons.prems(4,5) by simp
  show ?case
  proof (cases i)
    case 0
    have "bytes_u16 m place what = ok (length v)" using Cons.prems(1) by (intro bytes_u_at(1) [OF d]) simp
    moreover have "bytes_u32 m (place + 4) what = ok off" using Cons.prems(2) by (intro bytes_u_at(2) [OF d4]) simp
    moreover have "bytes_slice m off (length v) what = ok v"
      using Cons.prems(4,5) by (intro bytes_slice_at [of off m v "concat vs @ rest"]) simp_all
    ultimately show ?thesis by (simp add: bytes_field_def 0)
  next
    case (Suc j)
    have "bytes_field m (place + 8 + 8 * j) what = ok (vs ! j)"
    proof (rule Cons.IH [OF _ _ d8 _ room])
      show "drop (off + length v) m = concat vs @ rest" using Cons.prems(4) by (intro drop_more [of off m v "concat vs @ rest"]) simp_all
    qed (use Cons.prems Suc in simp_all)
    then show ?thesis by (simp add: Suc add.assoc)
  qed
qed simp

lemma length_field_triples: "length (field_triples off vs) = 8 * length vs"
  by (induction vs arbitrary: off) auto

text \<open>The message with what stands in the MIC field, zeros or the MIC.\<close>

definition message_with :: "octets \<Rightarrow> Parts \<Rightarrow> word32 \<Rightarrow> octets" where
  "message_with mic parts flags =
     NTLM_SIGNATURE @ le_bytes 4 MESSAGE_AUTHENTICATE @ field_triples HEADER_BYTES (parts_in_order parts) @
     le_bytes 4 (unat flags) @ VERSION_FIELD @ mic @ concat (parts_in_order parts)"

definition parts_fit :: "Parts \<Rightarrow> bool" where
  "parts_fit parts \<longleftrightarrow>
     list_all (\<lambda>v. length v < 2 ^ 16) (parts_in_order parts) \<and> HEADER_BYTES + length (concat (parts_in_order parts)) < 2 ^ 32"

lemma assemble_message_Some:
  "assemble_message parts flags = Some m \<longleftrightarrow> parts_fit parts \<and> m = message_with (replicate 16 0) parts flags"
  by (auto simp: assemble_message_def message_with_def parts_fit_def Let_def)

lemma message_head:
  "drop 12 (message_with mic parts flags) =
     field_triples HEADER_BYTES (parts_in_order parts) @ le_bytes 4 (unat flags) @ VERSION_FIELD @ mic @ concat (parts_in_order parts)"
  "drop 60 (message_with mic parts flags) = le_bytes 4 (unat flags) @ VERSION_FIELD @ mic @ concat (parts_in_order parts)"
  "drop 72 (message_with mic parts flags) = mic @ concat (parts_in_order parts)"
  "take 72 (message_with mic parts flags) =
     NTLM_SIGNATURE @ le_bytes 4 MESSAGE_AUTHENTICATE @ field_triples HEADER_BYTES (parts_in_order parts) @
     le_bytes 4 (unat flags) @ VERSION_FIELD"
  by (simp_all add: message_with_def NTLM_SIGNATURE_def length_field_triples parts_in_order_def VERSION_FIELD_def)

lemma message_fields:
  assumes "parts_fit parts" "length mic = 16" "i < 6"
  shows "bytes_field (message_with mic parts flags) (12 + 8 * i) what = ok (parts_in_order parts ! i)"
proof (rule triples_read [where off = HEADER_BYTES])
  have "drop (72 + 16) (message_with mic parts flags) = concat (parts_in_order parts)"
    by (rule drop_more [OF message_head(3)]) (simp add: assms(2))
  then show "drop HEADER_BYTES (message_with mic parts flags) = concat (parts_in_order parts) @ []"
    by (simp add: HEADER_BYTES_def)
  show "HEADER_BYTES \<le> length (message_with mic parts flags)"
    by (simp add: message_with_def HEADER_BYTES_def NTLM_SIGNATURE_def VERSION_FIELD_def length_field_triples parts_in_order_def assms(2))
qed (use assms message_head(1) in \<open>simp_all add: parts_fit_def parts_in_order_def\<close>)

lemma message_flags: "bytes_u32 (message_with mic parts flags) 60 what = ok (unat flags)"
  using bytes_u_at(2) [OF message_head(2)] unsigned_less [of flags, where ?'a = nat] by simp

lemma signIntegrity_message:
  assumes "\<And>k d. length (hmac k d) = 16"
  shows "signIntegrity hmac (message_with (replicate 16 0) parts flags) negotiate challenge key =
    message_with (hmac key (negotiate @ raw challenge @ message_with (replicate 16 0) parts flags)) parts flags"
proof -
  let ?m = "message_with (replicate 16 0) parts flags"
  have "drop (72 + 16) ?m = concat (parts_in_order parts)" by (rule drop_more [OF message_head(3)]) simp
  then show ?thesis
    by (simp add: signIntegrity_def assms MIC_AT_def message_head(4) Let_def) (simp add: message_with_def)
qed


section \<open>The destination's side\<close>

text \<open>
  What a destination does with the message (MS-NLMP 3.2.5.1.2): it checks the proof against the key of
  the account, and derives the session key, sealed or not; and the integrity code, with its own
  field zeroed.
\<close>

definition server_key :: "Hmac \<Rightarrow> octets \<Rightarrow> octets \<Rightarrow> octets \<Rightarrow> octets option" where
  "server_key hmac key challenge message =
     (case (bytes_field message 20 [], bytes_field message 52 [], bytes_u32 message 60 []) of
        (Inr nt, Inr sealed, Inr flags) \<Rightarrow>
          (if take 16 nt \<noteq> hmac key (challenge @ drop 16 nt) then None
           else
            (let base = hmac key (take 16 nt)
             in if word_of_nat flags AND flag_keyExchange \<noteq> 0 then rc4 base sealed else Some base))
      | _ \<Rightarrow> None)"

definition mic_verifies :: "Hmac \<Rightarrow> octets \<Rightarrow> Challenge \<Rightarrow> octets \<Rightarrow> octets \<Rightarrow> bool" where
  "mic_verifies hmac negotiate challenge key message \<longleftrightarrow>
     cut_at message 72 16 = hmac key (negotiate @ raw challenge @ take 72 message @ replicate 16 0 @ drop 88 message)"

lemma server_key_message:
  assumes len: "\<And>k d. length (hmac k d) = 16" and fits: "parts_fit parts" and "length mic = 16"
    and nt: "part_nt parts = hmac key (challenge @ blob) @ blob"
    and sealed: "if flags AND flag_keyExchange \<noteq> 0 then rc4 (hmac key (hmac key (challenge @ blob))) exported = Some (part_sessionKey parts)
      else exported = hmac key (hmac key (challenge @ blob))"
  shows "server_key hmac key challenge (message_with mic parts flags) = Some exported"
proof -
  define proof_string where "proof_string = hmac key (challenge @ blob)"
  have fields: "bytes_field (message_with mic parts flags) 20 [] = Inr (part_nt parts)"
    "bytes_field (message_with mic parts flags) 52 [] = Inr (part_sessionKey parts)"
    "bytes_u32 (message_with mic parts flags) 60 [] = Inr (unat flags)"
    using message_fields [OF fits assms(3), of 1 flags "[]"] message_fields [OF fits assms(3), of 5 flags "[]"]
      message_flags [of mic parts flags "[]"]
    by (simp_all add: parts_in_order_def ok_def)
  have take: "take 16 (part_nt parts) = proof_string" "drop 16 (part_nt parts) = blob"
    by (simp_all add: nt len proof_string_def)
  have same: "word_of_nat (unat flags) = flags" by simp
  have accepted: "(proof_string \<noteq> hmac key (challenge @ blob)) = False" by (simp add: proof_string_def)
  have "server_key hmac key challenge (message_with mic parts flags) =
      (if flags AND flag_keyExchange \<noteq> 0 then rc4 (hmac key proof_string) (part_sessionKey parts) else Some (hmac key proof_string))"
    unfolding server_key_def fields prod.case sum.case take Let_def same accepted if_False by (rule refl)
  also have "\<dots> = Some exported"
  proof (cases "flags AND flag_keyExchange \<noteq> 0")
    case True
    show ?thesis unfolding if_P [OF True] proof_string_def by (rule rc4_twice) (rule sealed [unfolded if_P [OF True]])
  next
    case False
    show ?thesis unfolding if_not_P [OF False] proof_string_def by (simp only: sealed [unfolded if_not_P [OF False]])
  qed
  finally show ?thesis .
qed

lemma mic_message:
  assumes "length mic = 16"
    and "mic = hmac key (negotiate @ raw challenge @ message_with (replicate 16 0) parts flags)"
  shows "mic_verifies hmac negotiate challenge key (message_with mic parts flags)"
proof -
  have "drop 88 (message_with mic parts flags) = concat (parts_in_order parts)"
    by (rule drop_more [OF message_head(3)]) (simp add: assms(1))
  moreover have "cut_at (message_with mic parts flags) 72 16 = mic"
    by (simp add: cut_at_def message_head(3) assms(1))
  moreover have "take 72 (message_with mic parts flags) @ replicate 16 0 @ concat (parts_in_order parts) =
      message_with (replicate 16 0) parts flags"
    by (simp add: message_head(4)) (simp add: message_with_def)
  ultimately show ?thesis by (simp add: mic_verifies_def assms(2))
qed

text \<open>
  C21: a destination that knows the account's key accepts the third message and derives the session key
  the client exports, exchanged or not, and when it had timestamped its challenge the integrity code
  over the three messages verifies.
\<close>

theorem server_agrees:
  assumes "\<And>k d. length (hmac k d) = 16" "authenticateMessage hmac request = Some (ok a)"
  shows "server_key hmac (ntowfv2 hmac (ar_credential request)) (serverChallenge (ar_challenge request)) (auth_message a) =
      Some (exportedSessionKey a) \<and>
    (ch_timestamp (ar_challenge request) = None \<or>
     mic_verifies hmac (ar_negotiate request) (ar_challenge request) (exportedSessionKey a) (auth_message a))"
proof -
  let ?ch = "ar_challenge request" and ?cred = "ar_credential request"
  let ?key = "ntowfv2 hmac ?cred"
  define negotiated where "negotiated = NEGOTIATE_FLAGS AND ch_flags ?ch"
  obtain attrs where attrs: "blobAttributes ?ch (ar_channelBinding request) = ok attrs"
    using assms(2) by (cases "blobAttributes ?ch (ar_channelBinding request)") (auto simp: authenticateMessage_def Let_def ok_def fail_def)
  define blob where "blob = ntlmv2Blob (case ch_timestamp ?ch of Some t \<Rightarrow> t | None \<Rightarrow> fileTime (ar_now request)) (ar_random request 8) attrs"
  define response where "response = ntlmv2Response hmac ?key (serverChallenge ?ch) (ar_random request 8) blob (ch_timestamp ?ch \<noteq> None)"
  define exchange where "exchange \<longleftrightarrow> negotiated AND flag_keyExchange \<noteq> 0"
  define key where "key = (if exchange then ar_random request 16 else sessionBaseKey response)"
  define parts where "parts = (\<lambda>sealed. \<lparr>part_lm = lm_response response, part_nt = nt_response response,
    part_domain = utf16le (nc_domain ?cred), part_user = utf16le (nc_username ?cred), part_workstation = [], part_sessionKey = sealed\<rparr>)"
  have run: "authenticateMessage hmac request =
      (case (if exchange then rc4 (sessionBaseKey response) key else Some []) of
         None \<Rightarrow> None
       | Some sealed \<Rightarrow>
         (case assemble_message (parts sealed) negotiated of
            None \<Rightarrow> None
          | Some message \<Rightarrow>
            Some (ok \<lparr>auth_message =
                (if ch_timestamp ?ch \<noteq> None then signIntegrity hmac message (ar_negotiate request) ?ch key else message),
              exportedSessionKey = key, isKeyExchange = exchange\<rparr>)))"
    by (simp only: authenticateMessage_def Let_def attrs ok_def sum.case negotiated_def exchange_def blob_def response_def key_def parts_def)
  obtain sealed where sealed: "(if exchange then rc4 (sessionBaseKey response) key else Some []) = Some sealed"
    using assms(2) unfolding run
    by (cases "if exchange then rc4 (sessionBaseKey response) key else Some []") simp_all
  obtain m where m: "assemble_message (parts sealed) negotiated = Some m"
    using assms(2) unfolding run sealed by (cases "assemble_message (parts sealed) negotiated") simp_all
  have a: "a = \<lparr>auth_message = (if ch_timestamp ?ch \<noteq> None then signIntegrity hmac m (ar_negotiate request) ?ch key else m),
      exportedSessionKey = key, isKeyExchange = exchange\<rparr>"
    using assms(2) unfolding run sealed by (simp add: m)
  have fits: "parts_fit (parts sealed)" and m: "m = message_with (replicate 16 0) (parts sealed) negotiated"
    using m by (simp_all add: assemble_message_Some)
  have base: "sessionBaseKey response = hmac ?key (hmac ?key (serverChallenge ?ch @ blob))"
    and nt: "part_nt (parts sealed) = hmac ?key (serverChallenge ?ch @ blob) @ blob"
    by (simp_all add: response_def parts_def ntlmv2Response_def Let_def)
  have seal: "if negotiated AND flag_keyExchange \<noteq> 0
      then rc4 (hmac ?key (hmac ?key (serverChallenge ?ch @ blob))) key = Some (part_sessionKey (parts sealed))
      else key = hmac ?key (hmac ?key (serverChallenge ?ch @ blob))"
    using sealed by (simp add: parts_def key_def base flip: exchange_def split: if_splits)
  have server: "length mic = 16 \<Longrightarrow>
      server_key hmac ?key (serverChallenge ?ch) (message_with mic (parts sealed) negotiated) = Some key" for mic :: octets
    by (rule server_key_message [where blob = blob, OF assms(1) fits]) (assumption | rule nt | rule seal)+
  show ?thesis
  proof (cases "ch_timestamp ?ch")
    case None
    then show ?thesis using server [of "replicate 16 0"] by (simp add: a m)
  next
    case (Some t)
    define mic where "mic = hmac key (ar_negotiate request @ raw ?ch @ m)"
    have "auth_message a = message_with mic (parts sealed) negotiated"
      unfolding mic_def using Some by (simp add: a m signIntegrity_message [OF assms(1)])
    moreover have "length mic = 16" by (simp add: mic_def assms(1))
    ultimately show ?thesis
      using server [of mic] mic_message [of mic hmac key "ar_negotiate request" ?ch "parts sealed" negotiated] by (simp add: a mic_def m)
  qed
qed

text \<open>A challenge of a destination that offers no key exchange and stamps no time.\<close>

definition example_request :: AuthenticateRequest where
  "example_request = \<lparr>ar_credential = \<lparr>nc_username = ''svc'', nc_domain = ''LAB'', nc_password = ''pw''\<rparr>,
     ar_challenge = \<lparr>ch_flags = REQUIRED_FLAGS, serverChallenge = [1, 2, 3, 4, 5, 6, 7, 8], attributes = [],
       ch_timestamp = None, raw = []\<rparr>,
     ar_negotiate = negotiateMessage, ar_channelBinding = None, ar_random = (\<lambda>n. replicate n 7), ar_now = 1\<rparr>"

lemma example_flags: "(NEGOTIATE_FLAGS AND REQUIRED_FLAGS) AND flag_keyExchange = 0"
  by code_simp

lemma example_request_runs: "\<exists>a. authenticateMessage (\<lambda>_ _. replicate 16 0) example_request = Some (ok a)"
  by (simp add: authenticateMessage_def example_request_def blobAttributes_def Let_def example_flags assemble_message_def
      parts_in_order_def ntlmv2Response_def HEADER_BYTES_def writeAttributes_def ntlmv2Blob_def fileTime_def)

lemma server_agrees_witness:
  "\<exists>a. authenticateMessage (\<lambda>_ _. replicate 16 0) example_request = Some (ok a) \<and>
     server_key (\<lambda>_ _. replicate 16 0) (ntowfv2 (\<lambda>_ _. replicate 16 0) (ar_credential example_request))
       (serverChallenge (ar_challenge example_request)) (auth_message a) = Some (exportedSessionKey a)"
proof -
  obtain a where a: "authenticateMessage (\<lambda>_ _. replicate 16 0) example_request = Some (ok a)"
    using example_request_runs by blast
  show ?thesis using server_agrees [OF _ a] a by auto
qed

end
