(* ===== verification/NtlmSession.thy ===== *)
theory NtlmSession
  imports NtlmSafety Decodings
begin

text \<open>
  Session security (\<^verbatim>\<open>ntlm/security.ts\<close>): a handle and a counter for each direction, the message
  sealed before it is signed, and the signature checked before the message is given out. \<open>None\<close> is
  the \<^verbatim>\<open>RangeError\<close> of a counter that has left its four bytes. MD5 and HMAC-MD5 are parameters.
\<close>

section \<open>A direction\<close>

record Direction =
  signKey :: octets
  dir_cipher :: Rc4
  dir_exchange :: bool
  dir_sequence :: nat

definition SIGNATURE_BYTES :: nat where "SIGNATURE_BYTES = 16"
definition CHECKSUM_BYTES :: nat where "CHECKSUM_BYTES = 8"
definition COUNTER_BYTES :: nat where "COUNTER_BYTES = 4"
definition SIGNATURE_VERSION :: nat where "SIGNATURE_VERSION = 1"

lemmas security_sizes = SIGNATURE_BYTES_def CHECKSUM_BYTES_def COUNTER_BYTES_def SIGNATURE_VERSION_def

definition subKey :: "(octets \<Rightarrow> octets) \<Rightarrow> octets \<Rightarrow> string \<Rightarrow> octets" where
  "subKey md5 key purpose = md5 (key @ latin1 (purpose @ [CHR 0x00]))"

definition new_Direction :: "(octets \<Rightarrow> octets) \<Rightarrow> octets \<Rightarrow> string \<Rightarrow> bool \<Rightarrow> Direction option" where
  "new_Direction md5 key party kx =
     map_option (\<lambda>c. \<lparr>signKey = subKey md5 key (''session key to '' @ party @ '' signing key magic constant''),
                      dir_cipher = c, dir_exchange = kx, dir_sequence = 0\<rparr>)
       (new_rc4 (subKey md5 key (''session key to '' @ party @ '' sealing key magic constant'')))"

definition dir_apply :: "Direction \<Rightarrow> octets \<Rightarrow> octets \<times> Direction" where
  "dir_apply d bytes = (case rc4_apply (dir_cipher d) bytes of (out, c) \<Rightarrow> (out, d\<lparr>dir_cipher := c\<rparr>))"

definition dir_sign :: "Hmac \<Rightarrow> Direction \<Rightarrow> octets \<Rightarrow> (octets \<times> Direction) option" where
  "dir_sign hmac d message =
     (if dir_sequence d \<ge> 2 ^ 32 then None
      else
       (let counter = le_bytes COUNTER_BYTES (dir_sequence d);
            version = le_bytes COUNTER_BYTES SIGNATURE_VERSION;
            checksum = take CHECKSUM_BYTES (hmac (signKey d) (counter @ message));
            d1 = d\<lparr>dir_sequence := dir_sequence d + 1\<rparr>;
            (field, d2) = (if dir_exchange d then dir_apply d1 checksum else (checksum, d1))
        in Some (version @ field @ counter, d2)))"

section \<open>The two directions\<close>

record NtlmSecurity =
  sec_client :: Direction
  sec_server :: Direction

record SealedMessage =
  signature :: octets
  sealed :: octets

definition new_NtlmSecurity :: "(octets \<Rightarrow> octets) \<Rightarrow> octets \<Rightarrow> bool \<Rightarrow> NtlmSecurity option" where
  "new_NtlmSecurity md5 key kx =
     (case (new_Direction md5 key ''client-to-server'' kx, new_Direction md5 key ''server-to-client'' kx) of
        (Some c, Some d) \<Rightarrow> Some \<lparr>sec_client = c, sec_server = d\<rparr>
      | _ \<Rightarrow> None)"

definition seal :: "Hmac \<Rightarrow> NtlmSecurity \<Rightarrow> octets \<Rightarrow> (SealedMessage \<times> NtlmSecurity) option" where
  "seal hmac s message =
     (case dir_apply (sec_client s) message of (out, c1) \<Rightarrow>
       (case dir_sign hmac c1 message of
          None \<Rightarrow> None
        | Some (sig, c2) \<Rightarrow> Some (\<lparr>signature = sig, sealed = out\<rparr>, s\<lparr>sec_client := c2\<rparr>)))"

text \<open>
  A message that fails its check has moved the handle and the counter all the same; a signature of
  another length has not. \<^verbatim>\<open>timingSafeEqual\<close> throws on two lengths.
\<close>

definition unseal :: "Hmac \<Rightarrow> NtlmSecurity \<Rightarrow> octets \<Rightarrow> octets \<Rightarrow> (octets Ntlm \<times> NtlmSecurity) option" where
  "unseal hmac s sig bytes =
     (if length sig \<noteq> SIGNATURE_BYTES then Some (fail ''the message signature is not sixteen bytes'', s)
      else
       (case dir_apply (sec_server s) bytes of (message, d1) \<Rightarrow>
         (case dir_sign hmac d1 message of
            None \<Rightarrow> None
          | Some (expected, d2) \<Rightarrow>
            (if length expected \<noteq> length sig then None
             else if expected \<noteq> sig
               then Some (fail ''the message signature does not match what the destination sent'', s\<lparr>sec_server := d2\<rparr>)
             else Some (ok message, s\<lparr>sec_server := d2\<rparr>)))))"

section \<open>Lemmas\<close>

lemma dir_sign_Some:
  "dir_sign hmac d m = Some (sig, d') \<Longrightarrow>
     dir_sequence d < 2 ^ 32 \<and> dir_sequence d' = dir_sequence d + 1 \<and>
     drop (length sig - 4) sig = le_bytes 4 (dir_sequence d) \<and> 8 \<le> length sig"
  by (auto simp: dir_sign_def dir_apply_def Let_def security_sizes split: if_splits prod.splits)

lemma dir_sign_length:
  "dir_sign hmac d m = Some (sig, d') \<Longrightarrow> (\<And>k b. length (hmac k b) = 16) \<Longrightarrow> length sig = 16"
  using length_rc4_apply [of "dir_cipher d"]
  by (auto simp: dir_sign_def dir_apply_def Let_def security_sizes case_prod_beta split: if_splits)

lemma dir_sign_defined: "dir_sequence d < 2 ^ 32 \<Longrightarrow> \<exists>sig d'. dir_sign hmac d m = Some (sig, d')"
  by (auto simp: dir_sign_def Let_def case_prod_beta)

lemma dir_apply_twice: "dir_apply d m = (out, d') \<Longrightarrow> dir_apply d out = (m, d')"
  by (auto simp: dir_apply_def split: prod.splits dest: rc4_apply_twice)

lemma dir_apply_sequence [simp]: "dir_apply d m = (out, d') \<Longrightarrow> dir_sequence d' = dir_sequence d"
  by (auto simp: dir_apply_def split: prod.splits)

lemma seal_Some:
  "seal hmac s m = Some (r, s') \<longleftrightarrow>
     (\<exists>out c1 sig c2. dir_apply (sec_client s) m = (out, c1) \<and> dir_sign hmac c1 m = Some (sig, c2) \<and>
        r = \<lparr>signature = sig, sealed = out\<rparr> \<and> s' = s\<lparr>sec_client := c2\<rparr>)"
  by (auto simp: seal_def split: prod.splits option.splits)

section \<open>Where a direction stands\<close>

text \<open>
  The keys of a direction as the protocol derives them (MS-NLMP 3.4.5.2 and 3.4.5.3), and a direction
  that has sealed or opened \<open>n\<close> messages and used \<open>place\<close> octets of the published cipher's stream.
\<close>

definition signing_key :: "(octets \<Rightarrow> octets) \<Rightarrow> octets \<Rightarrow> octets" where
  "signing_key md5 key = md5 (key @ latin1 (''session key to client-to-server signing key magic constant'' @ [CHR 0x00]))"

definition sealing_key :: "(octets \<Rightarrow> octets) \<Rightarrow> octets \<Rightarrow> octets" where
  "sealing_key md5 key = md5 (key @ latin1 (''session key to client-to-server sealing key magic constant'' @ [CHR 0x00]))"

definition client_at :: "(octets \<Rightarrow> octets) \<Rightarrow> octets \<Rightarrow> bool \<Rightarrow> nat \<Rightarrow> nat \<Rightarrow> Direction \<Rightarrow> bool" where
  "client_at md5 key kx place n d \<longleftrightarrow>
     signKey d = signing_key md5 key \<and> dir_exchange d = kx \<and> dir_sequence d = n \<and>
     cipher_at (sealing_key md5 key) place (dir_cipher d)"

text \<open>The message in cipher, and its signature, as the protocol has them at that place.\<close>

definition checksum_of :: "(octets \<Rightarrow> octets) \<Rightarrow> Hmac \<Rightarrow> octets \<Rightarrow> nat \<Rightarrow> octets \<Rightarrow> octets" where
  "checksum_of md5 hmac key n message = take 8 (hmac (signing_key md5 key) (le_bytes 4 n @ message))"

definition cipher_of :: "(octets \<Rightarrow> octets) \<Rightarrow> octets \<Rightarrow> nat \<Rightarrow> octets \<Rightarrow> octets" where
  "cipher_of md5 key place message = arcfour_xor (sealing_key md5 key) place message"

definition signature_of :: "(octets \<Rightarrow> octets) \<Rightarrow> Hmac \<Rightarrow> octets \<Rightarrow> bool \<Rightarrow> nat \<Rightarrow> nat \<Rightarrow> octets \<Rightarrow> octets" where
  "signature_of md5 hmac key kx place n message =
     (let check = checksum_of md5 hmac key n message
      in le_bytes 4 1 @ (if kx then arcfour_xor (sealing_key md5 key) (place + length message) check else check) @ le_bytes 4 n)"

definition next_place :: "(octets \<Rightarrow> octets) \<Rightarrow> Hmac \<Rightarrow> octets \<Rightarrow> bool \<Rightarrow> nat \<Rightarrow> nat \<Rightarrow> octets \<Rightarrow> nat" where
  "next_place md5 hmac key kx place n message =
     place + length message + (if kx then length (checksum_of md5 hmac key n message) else 0)"

lemma new_NtlmSecurity_at: "new_NtlmSecurity md5 key kx = Some s \<Longrightarrow> client_at md5 key kx 0 0 (sec_client s)"
  by (auto simp: new_NtlmSecurity_def new_Direction_def client_at_def subKey_def signing_key_def sealing_key_def
      dest: new_rc4_at split: option.splits)

lemma seal_at:
  assumes "client_at md5 key kx place n (sec_client s)" "seal hmac s m = Some (r, s')"
  shows "r = \<lparr>signature = signature_of md5 hmac key kx place n m, sealed = cipher_of md5 key place m\<rparr> \<and>
    client_at md5 key kx (next_place md5 hmac key kx place n m) (Suc n) (sec_client s')"
proof -
  obtain out c where out: "rc4_apply (dir_cipher (sec_client s)) m = (out, c)" by (cases "rc4_apply (dir_cipher (sec_client s)) m")
  let ?check = "checksum_of md5 hmac key n m"
  obtain field c' where field: "rc4_apply c ?check = (field, c')" by (cases "rc4_apply c ?check")
  have at: "cipher_at (sealing_key md5 key) place (dir_cipher (sec_client s))" using assms(1) by (simp add: client_at_def)
  note first = rc4_apply_at [OF at out]
  note then_check = rc4_apply_at [OF conjunct2 [OF first] field]
  show ?thesis
    using assms out field first then_check
    by (auto simp: seal_Some dir_sign_def dir_apply_def client_at_def signature_of_def next_place_def cipher_of_def
        checksum_of_def security_sizes Let_def add.assoc split: if_splits prod.splits)
qed

lemma unseal_client: "unseal hmac s sig bytes = Some (r, s') \<Longrightarrow> sec_client s' = sec_client s"
  by (auto simp: unseal_def split: if_splits option.splits prod.splits)

section \<open>The other party\<close>

text \<open>The destination holds the same two directions, with the roles exchanged.\<close>

definition mirror :: "NtlmSecurity \<Rightarrow> NtlmSecurity" where
  "mirror s = \<lparr>sec_client = sec_server s, sec_server = sec_client s\<rparr>"

lemma mirror_mirror [simp]: "mirror (mirror s) = (s :: NtlmSecurity)"
  by (simp add: mirror_def)

lemma unseal_seal:
  assumes "\<And>k b. length (hmac k b) = 16" "seal hmac s m = Some (r, s')"
  shows "unseal hmac (mirror s) (signature r) (sealed r) = Some (ok m, mirror s')"
proof -
  from assms(2) obtain out c1 sig c2 where step: "dir_apply (sec_client s) m = (out, c1)" "dir_sign hmac c1 m = Some (sig, c2)"
    "r = \<lparr>signature = sig, sealed = out\<rparr>" "s' = s\<lparr>sec_client := c2\<rparr>"
    by (auto simp: seal_Some)
  have "length sig = 16" using dir_sign_length [OF step(2) assms(1)] .
  moreover have "dir_apply (sec_client s) out = (m, c1)" by (rule dir_apply_twice [OF step(1)])
  ultimately show ?thesis using step(2,3,4) by (simp add: unseal_def mirror_def SIGNATURE_BYTES_def)
qed

section \<open>A conversation\<close>

datatype Turn = Ask octets | Answer octets

primrec turn_message :: "Turn \<Rightarrow> octets" where
  "turn_message (Ask m) = m"
| "turn_message (Answer m) = m"

text \<open>Each turn is sealed by one party and unsealed by the other; what was read is collected.\<close>

fun converse :: "Hmac \<Rightarrow> NtlmSecurity \<Rightarrow> NtlmSecurity \<Rightarrow> Turn list \<Rightarrow> octets Ntlm list option" where
  "converse hmac client server [] = Some []"
| "converse hmac client server (Ask m # turns) =
     (case seal hmac client m of
        None \<Rightarrow> None
      | Some (r, client') \<Rightarrow>
        (case unseal hmac server (signature r) (sealed r) of
           None \<Rightarrow> None
         | Some (heard, server') \<Rightarrow> map_option ((#) heard) (converse hmac client' server' turns)))"
| "converse hmac client server (Answer m # turns) =
     (case seal hmac server m of
        None \<Rightarrow> None
      | Some (r, server') \<Rightarrow>
        (case unseal hmac client (signature r) (sealed r) of
           None \<Rightarrow> None
         | Some (heard, client') \<Rightarrow> map_option ((#) heard) (converse hmac client' server' turns)))"

definition room :: "NtlmSecurity \<Rightarrow> nat \<Rightarrow> bool" where
  "room s n \<longleftrightarrow> dir_sequence (sec_client s) + n \<le> 2 ^ 32 \<and> dir_sequence (sec_server s) + n \<le> 2 ^ 32"

lemma room_mirror [simp]: "room (mirror s) n = room s n"
  by (auto simp: room_def mirror_def)

lemma seal_room: "room s (Suc n) \<Longrightarrow> \<exists>r s'. seal hmac s m = Some (r, s') \<and> room s' n"
proof -
  assume room: "room s (Suc n)"
  obtain out c1 where a: "dir_apply (sec_client s) m = (out, c1)" by (cases "dir_apply (sec_client s) m")
  moreover obtain sig c2 where b: "dir_sign hmac c1 m = Some (sig, c2)"
    using dir_sign_defined [of c1 hmac m] room dir_apply_sequence [OF a] by (auto simp: room_def)
  ultimately show ?thesis using dir_sign_Some [OF b] dir_apply_sequence [OF a] room by (auto simp: seal_Some room_def)
qed

lemma converse_heard:
  assumes "\<And>k b. length (hmac k b) = 16" "room s (length turns)"
  shows "converse hmac s (mirror s) turns = Some (map (ok \<circ> turn_message) turns)"
  using assms(2)
proof (induction turns arbitrary: s)
  case (Cons t turns)
  show ?case
  proof (cases t)
    case (Ask m)
    obtain r s' where "seal hmac s m = Some (r, s')" "room s' (length turns)" using seal_room Cons.prems by (metis length_Cons)
    then show ?thesis using Ask unseal_seal [of hmac s m r s', OF assms(1)] Cons.IH [of s'] by simp
  next
    case (Answer m)
    obtain r s' where s': "seal hmac (mirror s) m = Some (r, s')" "room s' (length turns)"
      using seal_room [of "mirror s"] Cons.prems by (metis length_Cons room_mirror)
    then show ?thesis using Answer unseal_seal [of hmac "mirror s" m r s', OF assms(1) s'(1)] Cons.IH [of "mirror s'"] by simp
  qed
qed simp

lemma new_NtlmSecurity_room: "new_NtlmSecurity md5 key kx = Some s \<Longrightarrow> n \<le> 2 ^ 32 \<Longrightarrow> room s n"
  by (auto simp: new_NtlmSecurity_def new_Direction_def room_def split: option.splits)

text \<open>
  C22: two parties that derived the same exported key read each other: in every conversation of at
  most 2^32 messages, in whichever order the parties speak, each message arrives as it was sealed
  and nothing is refused.
\<close>

theorem conversation_heard:
  assumes "\<And>k b. length (hmac k b) = 16" "new_NtlmSecurity md5 key kx = Some s" "length turns \<le> 2 ^ 32"
  shows "converse hmac s (mirror s) turns = Some (map (ok \<circ> turn_message) turns)"
  using converse_heard [OF assms(1) new_NtlmSecurity_room [OF assms(2,3)]] .

lemma conversation_heard_witness:
  "\<exists>s. new_NtlmSecurity (\<lambda>_. [1, 2, 3]) [9] True = Some s \<and>
     converse (\<lambda>_ _. replicate 16 0) s (mirror s) [Ask [1, 2], Answer [3], Answer [], Ask [4]] = Some [ok [1, 2], ok [3], ok [], ok [4]]"
proof -
  obtain s where s: "new_NtlmSecurity (\<lambda>_. [1, 2, 3]) [9] True = Some s"
    by (simp add: new_NtlmSecurity_def new_Direction_def subKey_def new_rc4_def)
  show ?thesis using s conversation_heard [OF _ s, of "\<lambda>_ _. replicate 16 0" "[Ask [1, 2], Answer [3], Answer [], Ask [4]]"] by simp
qed

section \<open>Replay\<close>

text \<open>The states the reader of one session goes through, whatever the destination sends.\<close>

inductive reads :: "Hmac \<Rightarrow> NtlmSecurity \<Rightarrow> NtlmSecurity \<Rightarrow> bool" for hmac where
  reads: "unseal hmac s sig bytes = Some (r, s') \<Longrightarrow> reads hmac s s'"

inductive_cases readsE: "reads hmac s s'"

lemma unseal_ok:
  assumes "unseal hmac s sig bytes = Some (ok m, s')"
  shows "drop 12 sig = le_bytes 4 (dir_sequence (sec_server s)) \<and> dir_sequence (sec_server s) < 2 ^ 32 \<and>
    dir_sequence (sec_server s') = Suc (dir_sequence (sec_server s))"
proof -
  obtain m' d1 where a: "dir_apply (sec_server s) bytes = (m', d1)" by (cases "dir_apply (sec_server s) bytes")
  from assms a obtain d2 where "dir_sign hmac d1 m' = Some (sig, d2)" "length sig = 16" "s' = s\<lparr>sec_server := d2\<rparr>"
    by (auto simp: unseal_def SIGNATURE_BYTES_def split: if_splits option.splits prod.splits)
  with dir_sign_Some [OF this(1)] dir_apply_sequence [OF a] show ?thesis by simp
qed

lemma reads_sequence: "reads hmac s s' \<Longrightarrow> dir_sequence (sec_server s) \<le> dir_sequence (sec_server s')"
  by (erule readsE) (auto simp: unseal_def dest!: dir_sign_Some split: if_splits option.splits prod.splits)

lemma all_reads_sequence: "(reads hmac)\<^sup>*\<^sup>* s s' \<Longrightarrow> dir_sequence (sec_server s) \<le> dir_sequence (sec_server s')"
  by (induction rule: rtranclp_induct) (auto dest: reads_sequence)

text \<open>
  a signature that was accepted once is never accepted again: whatever the destination sent in
  between, and whatever bytes it comes with.
\<close>

theorem replay_refused:
  assumes "unseal hmac s sig bytes = Some (ok m, s1)" "(reads hmac)\<^sup>*\<^sup>* s1 s2"
  shows "unseal hmac s2 sig bytes' \<noteq> Some (ok m', s3)"
proof
  assume again: "unseal hmac s2 sig bytes' = Some (ok m', s3)"
  let ?n = "dir_sequence (sec_server s)" and ?n' = "dir_sequence (sec_server s2)"
  have "le_bytes 4 ?n = le_bytes 4 ?n'" "?n < 256 ^ 4" "?n' < 256 ^ 4"
    using unseal_ok [OF assms(1)] unseal_ok [OF again] by simp_all
  then have "?n = ?n'" using le_bytes_inject by blast
  then show False using unseal_ok [OF assms(1)] all_reads_sequence [OF assms(2)] by simp
qed

lemma replay_refused_witness:
  "\<exists>s (r :: SealedMessage) s1. unseal (\<lambda>_ _. replicate 16 0) s (signature r) (sealed r) = Some (ok [7], s1) \<and>
     unseal (\<lambda>_ _. replicate 16 0) s1 (signature r) (sealed r) \<noteq> Some (ok [7], s1)"
proof -
  obtain s where s: "new_NtlmSecurity (\<lambda>_. [1, 2, 3]) [9] True = Some s"
    by (simp add: new_NtlmSecurity_def new_Direction_def subKey_def new_rc4_def)
  obtain r s1 where "seal (\<lambda>_ _. replicate 16 0) s [7] = Some (r, s1)"
    using seal_room [of s 0 "\<lambda>_ _. replicate 16 0" "[7]"] new_NtlmSecurity_room [OF s, of 1] by auto
  then have a: "unseal (\<lambda>_ _. replicate 16 0) (mirror s) (signature r) (sealed r) = Some (ok [7], mirror s1)"
    by (intro unseal_seal) simp_all
  have b: "unseal (\<lambda>_ _. replicate 16 0) (mirror s1) (signature r) (sealed r) \<noteq> Some (ok [7], mirror s1)"
    by (rule replay_refused [OF a rtranclp.rtrancl_refl])
  show ?thesis by (intro exI conjI) (rule a, rule b)
qed

section \<open>A reply that was not read\<close>

text \<open>
  The counters also refuse what is honest: once the destination has sealed a reply that was never
  read, such as that of a call that was aborted while it waited, no later reply can be read.
\<close>

lemma skipped_reply_refused:
  assumes "seal hmac (mirror s) m1 = Some (r1, t1)" "seal hmac t1 m2 = Some (r2, t2)"
  shows "unseal hmac s (signature r2) bytes \<noteq> Some (ok m, s')"
proof
  assume read: "unseal hmac s (signature r2) bytes = Some (ok m, s')"
  obtain out c1 sig c2 where one: "dir_apply (sec_server s) m1 = (out, c1)" "dir_sign hmac c1 m1 = Some (sig, c2)" "sec_client t1 = c2"
    using assms(1) by (auto simp: seal_Some mirror_def)
  obtain out' d1 sig' d2 where two: "dir_apply c2 m2 = (out', d1)" "dir_sign hmac d1 m2 = Some (sig', d2)" "signature r2 = sig'"
    using assms(2) one(3) by (auto simp: seal_Some)
  have len: "length sig' = 16" using read two(3) by (auto simp: unseal_def SIGNATURE_BYTES_def split: if_splits)
  let ?n = "dir_sequence (sec_server s)"
  have "dir_sequence d1 = Suc ?n"
    using dir_apply_sequence [OF one(1)] dir_sign_Some [OF one(2)] dir_apply_sequence [OF two(1)] by simp
  with dir_sign_Some [OF two(2)] len have "drop 12 sig' = le_bytes 4 (Suc ?n)" "Suc ?n < 256 ^ 4" by simp_all
  moreover have "drop 12 sig' = le_bytes 4 ?n" "?n < 256 ^ 4" using unseal_ok [OF read] two(3) by simp_all
  ultimately show False using le_bytes_inject by fastforce
qed

end
