(* ===== verification/NtlmBinding.thy ===== *)
theory NtlmBinding
  imports Ntlm
begin

text \<open>
  The channel binding of an exchange over TLS (\<^verbatim>\<open>ntlm/channel-binding.ts\<close>): the reader of a
  certificate's DER, the digest its signature algorithm names, and the bytes of the binding. The
  digests themselves are a parameter.
\<close>

section \<open>The reader\<close>

definition SEQUENCE_TAG :: octet where "SEQUENCE_TAG = 0x30"
definition OBJECT_IDENTIFIER :: octet where "OBJECT_IDENTIFIER = 0x06"
definition LONG_FORM :: nat where "LONG_FORM = 0x80"
definition LENGTH_COUNT :: octet where "LENGTH_COUNT = 0x7f"
definition MAX_LENGTH_BYTES :: nat where "MAX_LENGTH_BYTES = 4"

record Element =
  el_tag :: octet
  el_from :: nat
  el_to :: nat

definition bounded :: "octets \<Rightarrow> octet \<Rightarrow> nat \<Rightarrow> nat \<Rightarrow> Element option" where
  "bounded der tag start n = (if start + n > length der then None else Some \<lparr>el_tag = tag, el_from = start, el_to = start + n\<rparr>)"

definition be_value :: "octets \<Rightarrow> nat" where
  "be_value bs = fold (\<lambda>b n. n * 256 + unat b) bs 0"

definition elementAt :: "octets \<Rightarrow> nat \<Rightarrow> Element option" where
  "elementAt der place =
     (if place + 2 > length der then None
      else
       (let tag = der ! place; marker = der ! (place + 1) in
        if unat marker < LONG_FORM then bounded der tag (place + 2) (unat marker)
        else
         (let n = unat (marker AND LENGTH_COUNT) in
          if n = 0 \<or> n > MAX_LENGTH_BYTES \<or> place + 2 + n > length der then None
          else bounded der tag (place + 2 + n) (be_value (cut_at der (place + 2) n)))))"

definition taggedAt :: "octets \<Rightarrow> nat \<Rightarrow> octet \<Rightarrow> Element option" where
  "taggedAt der place tag =
     (case elementAt der place of None \<Rightarrow> None | Some e \<Rightarrow> if el_tag e = tag then Some e else None)"

definition signatureAlgorithm :: "octets \<Rightarrow> octets option" where
  "signatureAlgorithm certificate =
     (case taggedAt certificate 0 SEQUENCE_TAG of
        None \<Rightarrow> None
      | Some outer \<Rightarrow>
        (case elementAt certificate (el_from outer) of
           None \<Rightarrow> None
         | Some tbsCertificate \<Rightarrow>
           (case taggedAt certificate (el_to tbsCertificate) SEQUENCE_TAG of
              None \<Rightarrow> None
            | Some algorithm \<Rightarrow>
              (case taggedAt certificate (el_from algorithm) OBJECT_IDENTIFIER of
                 None \<Rightarrow> None
               | Some identifier \<Rightarrow> Some (cut_at certificate (el_from identifier) (el_to identifier - el_from identifier))))))"

text \<open>The identifiers as bytes, not as their hexadecimal text.\<close>

definition DIGESTS :: "(octets \<times> string) list" where
  "DIGESTS =
     [([0x2a, 0x86, 0x48, 0x86, 0xf7, 0x0d, 0x01, 0x01, 0x0c], ''sha384''),
      ([0x2a, 0x86, 0x48, 0xce, 0x3d, 0x04, 0x03, 0x03], ''sha384''),
      ([0x2a, 0x86, 0x48, 0x86, 0xf7, 0x0d, 0x01, 0x01, 0x0d], ''sha512''),
      ([0x2a, 0x86, 0x48, 0xce, 0x3d, 0x04, 0x03, 0x04], ''sha512'')]"

definition DEFAULT_DIGEST :: string where "DEFAULT_DIGEST = ''sha256''"

definition endPointDigest :: "octets \<Rightarrow> string" where
  "endPointDigest certificate =
     (case signatureAlgorithm certificate of
        None \<Rightarrow> DEFAULT_DIGEST
      | Some identifier \<Rightarrow> (case map_of DIGESTS identifier of None \<Rightarrow> DEFAULT_DIGEST | Some d \<Rightarrow> d))"

section \<open>The token\<close>

definition APPLICATION_DATA_PREFIX :: string where "APPLICATION_DATA_PREFIX = ''tls-server-end-point:''"
definition WORD_BYTES :: nat where "WORD_BYTES = 4"
definition ADDRESS_WORDS :: nat where "ADDRESS_WORDS = 4"

definition channelBindings :: "octets \<Rightarrow> octets" where
  "channelBindings endPointData =
     replicate (ADDRESS_WORDS * WORD_BYTES) 0 @ le_bytes WORD_BYTES (length endPointData) @ endPointData"

type_synonym Hash = "string \<Rightarrow> octets \<Rightarrow> octets"

definition channelBindingToken :: "Hash \<Rightarrow> octets \<Rightarrow> octets" where
  "channelBindingToken hash certificate =
     hash ''md5'' (channelBindings (latin1 APPLICATION_DATA_PREFIX @ hash (endPointDigest certificate) certificate))"

section \<open>Lemmas\<close>

text \<open>Whatever the bytes are, an element that is read lies within them.\<close>

lemma elementAt_bounds:
  "elementAt der place = Some e \<Longrightarrow> place + 2 \<le> el_from e \<and> el_from e \<le> el_to e \<and> el_to e \<le> length der"
  by (auto simp: elementAt_def bounded_def Let_def split: if_splits)

section \<open>Well-formed certificates\<close>

text \<open>The encoding of a length: one byte below 128, and the least number of bytes otherwise.\<close>

fun be_bytes :: "nat \<Rightarrow> octets" where
  "be_bytes n = (if n < 256 then [word_of_nat n] else be_bytes (n div 256) @ [word_of_nat (n mod 256)])"

declare be_bytes.simps [simp del]

definition der_length :: "nat \<Rightarrow> octets" where
  "der_length n = (if n < 128 then [word_of_nat n] else word_of_nat (128 + length (be_bytes n)) # be_bytes n)"

definition der_tlv :: "octet \<Rightarrow> octets \<Rightarrow> octets" where
  "der_tlv tag v = tag # der_length (length v) @ v"

lemma be_value_snoc: "be_value (bs @ [b]) = be_value bs * 256 + unat b"
  by (simp add: be_value_def)

lemma be_value_bytes [simp]: "be_value (be_bytes n) = n"
proof (induction n rule: be_bytes.induct)
  case (1 n)
  show ?case
  proof (cases "n < 256")
    case True
    then show ?thesis by (simp add: be_bytes.simps [of n] be_value_def unat_of_nat)
  next
    case False
    then show ?thesis using 1 by (simp add: be_bytes.simps [of n] be_value_snoc unat_of_nat)
  qed
qed

lemma length_be_bytes: "n < 256 ^ k \<Longrightarrow> 0 < k \<Longrightarrow> 0 < length (be_bytes n) \<and> length (be_bytes n) \<le> k"
proof (induction k arbitrary: n)
  case (Suc k)
  show ?case
  proof (cases "n < 256")
    case False
    with Suc.prems have "0 < k" by (cases k) auto
    moreover have "n div 256 < 256 ^ k" using Suc.prems by (simp add: less_mult_imp_div_less mult.commute)
    ultimately show ?thesis using Suc.IH [of "n div 256"] False by (simp add: be_bytes.simps [of n])
  qed (simp add: be_bytes.simps [of n])
qed simp

lemma long_marker: "0 < k \<Longrightarrow> k \<le> 4 \<Longrightarrow> unat (word_of_nat (128 + k) AND LENGTH_COUNT) = k \<and> unat (word_of_nat (128 + k) :: octet) = 128 + k"
proof -
  assume "0 < k" "k \<le> 4"
  then have "k = 1 \<or> k = 2 \<or> k = 3 \<or> k = 4" by linarith
  then show ?thesis by (elim disjE) (simp_all add: LENGTH_COUNT_def)
qed

text \<open>An element where it was written, whatever stands before and behind it.\<close>

lemma elementAt_tlv:
  assumes "length v < 256 ^ 4" "place = length xs"
  shows "elementAt (xs @ der_tlv tag v @ ys) place =
    Some \<lparr>el_tag = tag, el_from = place + (length (der_tlv tag v) - length v), el_to = place + length (der_tlv tag v)\<rparr>"
proof (cases "length v < 128")
  case True
  then show ?thesis
    by (simp add: elementAt_def der_tlv_def der_length_def nth_append assms(2) Let_def LONG_FORM_def bounded_def unat_of_nat)
next
  case False
  define k where "k = length (be_bytes (length v))"
  have k: "0 < k" "k \<le> 4" using length_be_bytes [OF assms(1)] by (simp_all add: k_def)
  have "cut_at (xs @ der_tlv tag v @ ys) (place + 2) k = be_bytes (length v)"
    using False by (simp add: cut_at_def der_tlv_def der_length_def assms(2) k_def)
  with False k long_marker [OF k] show ?thesis
    by (simp add: elementAt_def der_tlv_def der_length_def nth_append assms(2) Let_def LONG_FORM_def bounded_def
        MAX_LENGTH_BYTES_def flip: k_def)
qed

text \<open>
  the identifier of the signature algorithm is read out of every certificate of the shape of
  RFC 5280, whatever its first member, the parameters of the algorithm and the signature are, in
  both forms of a length.
\<close>

theorem signatureAlgorithm_read:
  assumes "length (tbs @ der_tlv SEQUENCE_TAG (der_tlv OBJECT_IDENTIFIER oid @ parameters) @ sig) < 256 ^ 4"
    and "tbs = der_tlv tag v"
  shows "signatureAlgorithm (der_tlv SEQUENCE_TAG (tbs @ der_tlv SEQUENCE_TAG (der_tlv OBJECT_IDENTIFIER oid @ parameters) @ sig)) = Some oid"
proof -
  define alg where "alg = der_tlv OBJECT_IDENTIFIER oid @ parameters"
  define body where "body = tbs @ der_tlv SEQUENCE_TAG alg @ sig"
  define h where "h = SEQUENCE_TAG # der_length (length body)"
  define h2 where "h2 = SEQUENCE_TAG # der_length (length alg)"
  define h3 where "h3 = OBJECT_IDENTIFIER # der_length (length oid)"
  have tlv: "length (der_tlv tg w) \<ge> length w" for tg w by (simp add: der_tlv_def)
  have small: "length body < 256 ^ 4" "length v < 256 ^ 4" "length alg < 256 ^ 4" "length oid < 256 ^ 4"
    using assms tlv [of v tag] tlv [of alg SEQUENCE_TAG] tlv [of oid OBJECT_IDENTIFIER] by (simp_all add: body_def alg_def)
  define cert where "cert = der_tlv SEQUENCE_TAG body"
  have 1: "cert = [] @ der_tlv SEQUENCE_TAG body @ []" by (simp add: cert_def)
  have 2: "cert = h @ der_tlv tag v @ (der_tlv SEQUENCE_TAG alg @ sig)"
  proof -
    have "cert = h @ body" by (simp add: cert_def der_tlv_def h_def)
    then show ?thesis by (simp add: body_def assms(2))
  qed
  have 3: "cert = (h @ der_tlv tag v) @ der_tlv SEQUENCE_TAG alg @ sig" by (simp add: 2)
  have 4: "cert = (h @ der_tlv tag v @ h2) @ der_tlv OBJECT_IDENTIFIER oid @ (parameters @ sig)"
  proof -
    have "der_tlv SEQUENCE_TAG alg = h2 @ alg" by (simp add: der_tlv_def h2_def)
    then show ?thesis by (simp add: 2) (simp add: alg_def)
  qed
  have 5: "cert = (h @ der_tlv tag v @ h2 @ h3) @ oid @ (parameters @ sig)"
    by (simp add: 4 der_tlv_def [of _ oid] h3_def)
  have heads: "length (der_tlv SEQUENCE_TAG body) - length body = length h" "length (der_tlv SEQUENCE_TAG alg) - length alg = length h2"
    "length (der_tlv OBJECT_IDENTIFIER oid) - length oid = length h3" "length (der_tlv OBJECT_IDENTIFIER oid) = length h3 + length oid"
    by (simp_all add: der_tlv_def h_def h2_def h3_def)
  have e1: "elementAt cert 0 = Some \<lparr>el_tag = SEQUENCE_TAG, el_from = length h, el_to = length (der_tlv SEQUENCE_TAG body)\<rparr>"
    by (subst 1, subst elementAt_tlv [OF small(1)]) (simp_all add: heads)
  have e2: "elementAt cert (length h) = Some \<lparr>el_tag = tag,
      el_from = length h + (length (der_tlv tag v) - length v), el_to = length h + length (der_tlv tag v)\<rparr>"
    by (subst 2, subst elementAt_tlv [OF small(2)]) simp_all
  have e3: "elementAt cert (length h + length (der_tlv tag v)) = Some \<lparr>el_tag = SEQUENCE_TAG,
      el_from = length h + length (der_tlv tag v) + length h2, el_to = length h + length (der_tlv tag v) + length (der_tlv SEQUENCE_TAG alg)\<rparr>"
    by (subst 3, subst elementAt_tlv [OF small(3)]) (simp_all add: heads)
  have e4: "elementAt cert (length h + length (der_tlv tag v) + length h2) = Some \<lparr>el_tag = OBJECT_IDENTIFIER,
      el_from = length (h @ der_tlv tag v @ h2 @ h3), el_to = length (h @ der_tlv tag v @ h2 @ h3) + length oid\<rparr>"
    by (subst 4, subst elementAt_tlv [OF small(4)]) (simp_all add: heads)
  have e5: "cut_at cert (length (h @ der_tlv tag v @ h2 @ h3)) (length oid) = oid"
    unfolding 5 by (rule cut_at_middle) simp_all
  have "signatureAlgorithm cert = Some oid"
    by (simp only: signatureAlgorithm_def taggedAt_def e1 e2 e3 e4 e5 option.case Element.simps diff_add_inverse if_True refl)
  then show ?thesis by (simp only: cert_def body_def alg_def)
qed

lemma signatureAlgorithm_read_witness:
  "signatureAlgorithm (der_tlv SEQUENCE_TAG (der_tlv 1 [7] @ der_tlv SEQUENCE_TAG (der_tlv OBJECT_IDENTIFIER [42, 3] @ [5, 0]) @ [3, 1, 0])) = Some [42, 3]"
  by (rule signatureAlgorithm_read [OF _ refl]) (simp add: der_tlv_def der_length_def)

end
