(* ===== verification/NtlmHandshake.thy ===== *)
theory NtlmHandshake
  imports NtlmSession NtlmBinding
begin

text \<open>
  The exchange as HTTP carries it (\<^verbatim>\<open>ntlm/handshake.ts\<close>) and the sealed envelope of a plain listener
  (\<^verbatim>\<open>encryption.ts\<close>): what is written, and the strict readers of what comes back.
\<close>

section \<open>The headers\<close>

definition SCHEME :: string where "SCHEME = ''negotiate''"

definition negotiateHeader :: "octets \<Rightarrow> string" where
  "negotiateHeader message = ''Negotiate '' @ base64 (text_of message)"

definition challengeToken :: "string option \<Rightarrow> octets Ntlm" where
  "challengeToken header =
     (let offers = map trim (split_on (CHR '','') (case header of None \<Rightarrow> [] | Some h \<Rightarrow> h));
          offer = find (\<lambda>o'. prefix (SCHEME @ '' '') (toLowerCase o')) offers
      in (case map_option (\<lambda>o'. trim (drop (length SCHEME + 1) o')) offer of
            None \<Rightarrow> fail ''it offered no Negotiate challenge to answer''
          | Some t \<Rightarrow>
            (if t \<noteq> [] \<and> is_base64_char (hd t) \<and> is_base64_text t then ok (latin1 (base64_decode t))
             else fail ''it offered no Negotiate challenge to answer'')))"

section \<open>The handshake\<close>

record NtlmStart =
  st_credential :: NtlmCredential
  st_certificate :: "octets option"
  st_random :: "nat \<Rightarrow> octets"
  st_now :: nat

record NtlmAnswer =
  authorization :: string
  security :: NtlmSecurity

definition startNtlm_authorization :: string where
  "startNtlm_authorization = negotiateHeader negotiateMessage"

text \<open>\<^verbatim>\<open>answer\<close>: the outer option is a \<^verbatim>\<open>RangeError\<close>, the result an \<^verbatim>\<open>NtlmProblem\<close>.\<close>

definition ntlm_answer :: "(octets \<Rightarrow> octets \<Rightarrow> octets) \<Rightarrow> Hash \<Rightarrow> NtlmStart \<Rightarrow> string option \<Rightarrow> NtlmAnswer Ntlm option" where
  "ntlm_answer hmac hash start header =
     (case and_then (challengeToken header) parseChallenge of
        Inl e \<Rightarrow> Some (fail e)
      | Inr challenge \<Rightarrow>
        (case authenticateMessage hmac
           \<lparr>ar_credential = st_credential start, ar_challenge = challenge, ar_negotiate = negotiateMessage,
            ar_channelBinding = map_option (channelBindingToken hash) (st_certificate start),
            ar_random = st_random start, ar_now = st_now start\<rparr> of
           None \<Rightarrow> None
         | Some (Inl e) \<Rightarrow> Some (fail e)
         | Some (Inr a) \<Rightarrow>
           (case new_NtlmSecurity (hash ''md5'') (exportedSessionKey a) (isKeyExchange a) of
              None \<Rightarrow> None
            | Some s \<Rightarrow> Some (ok \<lparr>authorization = negotiateHeader (auth_message a), security = s\<rparr>))))"

section \<open>The sealed envelope\<close>

definition BOUNDARY :: string where "BOUNDARY = ''--Encrypted Boundary''"
definition PROTOCOL :: string where "PROTOCOL = ''application/HTTP-SPNEGO-session-encrypted''"
definition OCTET_STREAM :: string where "OCTET_STREAM = ''application/octet-stream''"
definition SOAP_TYPE :: string where "SOAP_TYPE = ''application/soap+xml;charset=UTF-8''"
definition CRLF :: string where "CRLF = [CHR 0x0D, CHR 0x0A]"
definition TAB :: string where "TAB = [CHR 0x09]"

definition ENCRYPTED_CONTENT_TYPE :: string where
  "ENCRYPTED_CONTENT_TYPE = ''multipart/encrypted;protocol='' @ [CHR 0x22] @ PROTOCOL @ [CHR 0x22] @
     '';boundary='' @ [CHR 0x22] @ ''Encrypted Boundary'' @ [CHR 0x22]"

definition SIGNATURE_LENGTH_BYTES :: nat where "SIGNATURE_LENGTH_BYTES = 4"
definition MAX_LINE_BYTES :: nat where "MAX_LINE_BYTES = 512"

definition envelope_lines :: "nat \<Rightarrow> string list" where
  "envelope_lines n =
     [BOUNDARY, TAB @ ''Content-Type: '' @ PROTOCOL, TAB @ ''OriginalContent: type='' @ SOAP_TYPE @ '';Length='' @ nat_text n,
      BOUNDARY, TAB @ ''Content-Type: '' @ OCTET_STREAM]"

definition wrapEncrypted :: "Hmac \<Rightarrow> NtlmSecurity \<Rightarrow> string \<Rightarrow> (octets \<times> NtlmSecurity) option" where
  "wrapEncrypted hmac s soap =
     (let plain = latin1 (utf8_encode soap) in
      (case seal hmac s plain of
         None \<Rightarrow> None
       | Some (r, s') \<Rightarrow>
         Some (latin1 (concat (map (\<lambda>l. l @ CRLF) (envelope_lines (length plain)))) @
               le_bytes SIGNATURE_LENGTH_BYTES (length (signature r)) @ signature r @ sealed r @
               latin1 (BOUNDARY @ ''--'' @ CRLF), s')))"

record Line =
  line_text :: string
  line_next :: nat

text \<open>\<^verbatim>\<open>body.indexOf(CRLF, from)\<close>, from where the search begins.\<close>

fun crlf_index :: "string \<Rightarrow> nat option" where
  "crlf_index [] = None"
| "crlf_index (c # cs) = (if prefix CRLF (c # cs) then Some 0 else map_option Suc (crlf_index cs))"

definition lineAt :: "octets \<Rightarrow> nat \<Rightarrow> Line Ntlm" where
  "lineAt body place =
     (let rest = text_of (drop place body) in
      (case crlf_index rest of
         None \<Rightarrow> fail ''a header line of the encrypted body does not end''
       | Some n \<Rightarrow>
         (if n > MAX_LINE_BYTES then fail ''a header line of the encrypted body does not end''
          else ok \<lparr>line_text = take n rest, line_next = place + n + length CRLF\<rparr>)))"

definition expect :: "Line \<Rightarrow> (string \<Rightarrow> bool) \<Rightarrow> string \<Rightarrow> Line Ntlm" where
  "expect l isRight what =
     (if \<not> isRight (line_text l) then fail (''the encrypted body does not carry '' @ what) else ok l)"

definition after_prefix :: "string \<Rightarrow> string \<Rightarrow> string option" where
  "after_prefix p s = (if prefix p s then Some (drop (length p) s) else None)"

text \<open>The group that \<^verbatim>\<open>DECLARED_LENGTH\<close> captures.\<close>

definition declared_length :: "string \<Rightarrow> string option" where
  "declared_length l =
     (case after_prefix ''OriginalContent:'' (dropWhile is_space l) of
        None \<Rightarrow> None
      | Some r \<Rightarrow>
        (case after_prefix (''type='' @ SOAP_TYPE @ '';Length='') (dropWhile is_space r) of
           None \<Rightarrow> None
         | Some d \<Rightarrow> if d \<noteq> [] \<and> length d \<le> 9 \<and> list_all is_digit d then Some d else None))"

definition readHead :: "octets \<Rightarrow> (nat \<times> nat) Ntlm" where
  "readHead body =
     and_then (and_then (lineAt body 0) (\<lambda>l. expect l (\<lambda>t. t = BOUNDARY) ''its opening boundary'')) (\<lambda>first.
     and_then (and_then (lineAt body (line_next first)) (\<lambda>l. expect l (sublist PROTOCOL) ''the session-encrypted type'')) (\<lambda>protocol.
     and_then (lineAt body (line_next protocol)) (\<lambda>original.
     case declared_length (line_text original) of
       None \<Rightarrow> fail ''the encrypted body declares no original content length''
     | Some declared \<Rightarrow>
     and_then (and_then (lineAt body (line_next original)) (\<lambda>l. expect l (\<lambda>t. t = BOUNDARY) ''a boundary before its sealed part'')) (\<lambda>second.
     and_then (and_then (lineAt body (line_next second)) (\<lambda>l. expect l (sublist OCTET_STREAM) ''an octet-stream part'')) (\<lambda>octet.
       ok (decimal declared, line_next octet))))))"

text \<open>The signature and the sealed payload of a body that is exactly of the shape.\<close>

definition envelope_parts :: "octets \<Rightarrow> (octets \<times> octets) Ntlm" where
  "envelope_parts body =
     and_then (readHead body) (\<lambda>(declared, place).
     and_then (bytes_u32 body place ''the signature length'') (\<lambda>n.
     and_then (bytes_slice body (place + SIGNATURE_LENGTH_BYTES) n ''the signature'') (\<lambda>sig.
     let start = place + SIGNATURE_LENGTH_BYTES + n in
     and_then (bytes_slice body start declared ''the sealed payload'') (\<lambda>payload.
     let tail = text_of (drop (start + declared) body) in
     if tail \<noteq> BOUNDARY @ ''--'' @ CRLF \<and> tail \<noteq> BOUNDARY @ ''--''
       then fail ''the encrypted body does not end at its closing boundary''
     else ok (sig, payload)))))"

definition unwrapEncrypted :: "Hmac \<Rightarrow> NtlmSecurity \<Rightarrow> octets \<Rightarrow> (string Ntlm \<times> NtlmSecurity) option" where
  "unwrapEncrypted hmac s body =
     (case envelope_parts body of
        Inl e \<Rightarrow> Some (fail e, s)
      | Inr (sig, payload) \<Rightarrow>
        map_option (\<lambda>(r, s'). (map_sum id (\<lambda>m. utf8_decode (text_of m)) r, s')) (unseal hmac s sig payload))"

definition isEncrypted :: "string option \<Rightarrow> bool" where
  "isEncrypted contentType = (case contentType of None \<Rightarrow> False | Some t \<Rightarrow> sublist PROTOCOL t)"

section \<open>Lemmas\<close>

lemma crlf_index_line: "CHR 0x0D \<notin> set l \<Longrightarrow> crlf_index (l @ CRLF @ rest) = Some (length l)"
  by (induction l) (auto simp: CRLF_def)

lemma lineAt_line:
  assumes "CHR 0x0D \<notin> set l" "length l \<le> MAX_LINE_BYTES" "place = length xs"
  shows "lineAt (xs @ latin1 (l @ CRLF) @ ys) place = ok \<lparr>line_text = l, line_next = place + length (l @ CRLF)\<rparr>"
  using assms crlf_index_line [OF assms(1), of "text_of ys"] by (simp add: lineAt_def Let_def)

lemma declared_length_line:
  assumes "n < 10 ^ 9"
  shows "declared_length (TAB @ ''OriginalContent: type='' @ SOAP_TYPE @ '';Length='' @ nat_text n) = Some (nat_text n)"
proof -
  have "is_space (CHR 0x09)" "\<not> is_space (CHR ''O'')" "is_space (CHR '' '')" "\<not> is_space (CHR ''t'')"
    by code_simp+
  then show ?thesis using length_nat_text [OF assms] nat_text_digits [of n]
    by (simp add: declared_length_def after_prefix_def TAB_def SOAP_TYPE_def)
qed

lemma no_CR_digits: "list_all is_digit s \<Longrightarrow> CHR 0x0D \<notin> set s"
  by (auto simp: list_all_iff is_digit_def char_code_def)

lemma envelope_lines_ok: "n < 10 ^ 9 \<Longrightarrow> l \<in> set (envelope_lines n) \<Longrightarrow> CHR 0x0D \<notin> set l \<and> length l \<le> MAX_LINE_BYTES"
  using no_CR_digits [OF nat_text_digits, of n] length_nat_text [of n 9]
  by (auto simp: envelope_lines_def BOUNDARY_def PROTOCOL_def SOAP_TYPE_def OCTET_STREAM_def TAB_def MAX_LINE_BYTES_def)

lemma sublist_end: "sublist p (a @ p)"
  unfolding sublist_def by (rule exI [of _ a], rule exI [of _ "[]"]) simp

lemma readHead_envelope:
  assumes "n < 10 ^ 9"
  shows "readHead (latin1 (concat (map (\<lambda>l. l @ CRLF) (envelope_lines n))) @ rest) =
    ok (n, length (concat (map (\<lambda>l. l @ CRLF) (envelope_lines n))))"
proof -
  define l2 where "l2 = TAB @ ''Content-Type: '' @ PROTOCOL"
  define l3 where "l3 = TAB @ ''OriginalContent: type='' @ SOAP_TYPE @ '';Length='' @ nat_text n"
  define l5 where "l5 = TAB @ ''Content-Type: '' @ OCTET_STREAM"
  define body where "body = latin1 (concat (map (\<lambda>l. l @ CRLF) (envelope_lines n))) @ rest"
  have lines: "envelope_lines n = [BOUNDARY, l2, l3, BOUNDARY, l5]" by (simp add: envelope_lines_def l2_def l3_def l5_def)
  have at: "lineAt body (length (concat (map (\<lambda>l. l @ CRLF) before))) =
      ok \<lparr>line_text = l, line_next = length (concat (map (\<lambda>l. l @ CRLF) (before @ [l])))\<rparr>"
    if "envelope_lines n = before @ l # behind" for before l behind
  proof -
    have "body = latin1 (concat (map (\<lambda>l. l @ CRLF) before)) @ latin1 (l @ CRLF) @
        (latin1 (concat (map (\<lambda>l. l @ CRLF) behind)) @ rest)"
      by (simp add: body_def that)
    moreover have fits: "CHR 0x0D \<notin> set l" "length l \<le> MAX_LINE_BYTES" using envelope_lines_ok [OF assms, of l] that by simp_all
    ultimately have "lineAt body (length (concat (map (\<lambda>l. l @ CRLF) before))) =
        ok \<lparr>line_text = l, line_next = length (concat (map (\<lambda>l. l @ CRLF) before)) + length (l @ CRLF)\<rparr>"
      using lineAt_line [OF fits, of "length (concat (map (\<lambda>l. l @ CRLF) before))" "latin1 (concat (map (\<lambda>l. l @ CRLF) before))"
          "latin1 (concat (map (\<lambda>l. l @ CRLF) behind)) @ rest"]
      by (simp only: length_latin1 simp_thms)
    then show ?thesis by simp
  qed
  note steps = at [of "[]" BOUNDARY "[l2, l3, BOUNDARY, l5]"] at [of "[BOUNDARY]" l2 "[l3, BOUNDARY, l5]"]
    at [of "[BOUNDARY, l2]" l3 "[BOUNDARY, l5]"] at [of "[BOUNDARY, l2, l3]" BOUNDARY "[l5]"]
    at [of "[BOUNDARY, l2, l3, BOUNDARY]" l5 "[]"]
  have "sublist PROTOCOL l2" "sublist OCTET_STREAM l5"
    using sublist_end [of PROTOCOL "TAB @ ''Content-Type: ''"] sublist_end [of OCTET_STREAM "TAB @ ''Content-Type: ''"]
    by (simp_all add: l2_def l5_def)
  moreover have "declared_length l3 = Some (nat_text n)" using declared_length_line [OF assms] by (simp only: l3_def)
  ultimately have "readHead body = ok (n, length (concat (map (\<lambda>l. l @ CRLF) [BOUNDARY, l2, l3, BOUNDARY, l5])))"
    using steps by (simp add: readHead_def expect_def lines)
  then show ?thesis by (simp only: body_def lines)
qed

lemma wrapEncrypted_Some:
  "wrapEncrypted hmac s soap = Some (body, s') \<longleftrightarrow>
     (\<exists>r. seal hmac s (latin1 (utf8_encode soap)) = Some (r, s') \<and>
        body = latin1 (concat (map (\<lambda>l. l @ CRLF) (envelope_lines (length (utf8_encode soap))))) @
               le_bytes 4 (length (signature r)) @ signature r @ sealed r @ latin1 (BOUNDARY @ ''--'' @ CRLF))"
  by (auto simp: wrapEncrypted_def Let_def SIGNATURE_LENGTH_BYTES_def split: option.splits)

lemma seal_length:
  assumes "\<And>k b. length (hmac k b) = 16" "seal hmac s m = Some (r, s')"
  shows "length (signature r) = 16 \<and> length (sealed r) = length m"
proof -
  from assms(2) obtain out c1 sig c2 where step: "dir_apply (sec_client s) m = (out, c1)" "dir_sign hmac c1 m = Some (sig, c2)"
    "r = \<lparr>signature = sig, sealed = out\<rparr>" by (auto simp: seal_Some)
  then show ?thesis using dir_sign_length [OF step(2) assms(1)] length_rc4_apply [of "dir_cipher (sec_client s)" m]
    by (simp add: dir_apply_def case_prod_beta)
qed

lemma envelope_parts_wrap:
  assumes "n < 10 ^ 9" "length payload = n" "length sig = 16"
  shows "envelope_parts (latin1 (concat (map (\<lambda>l. l @ CRLF) (envelope_lines n))) @
      le_bytes 4 (length sig) @ sig @ payload @ latin1 (BOUNDARY @ ''--'' @ CRLF)) = ok (sig, payload)"
proof -
  define head where "head = latin1 (concat (map (\<lambda>l. l @ CRLF) (envelope_lines n)))"
  define body where "body = head @ le_bytes 4 (length sig) @ sig @ payload @ latin1 (BOUNDARY @ ''--'' @ CRLF)"
  have "readHead body = ok (n, length head)"
    using readHead_envelope [OF assms(1)] by (simp add: body_def head_def)
  moreover have "bytes_u32 body (length head) what = ok 16" for what
    using assms(3) by (simp add: bytes_u32_def bytes_slice_def body_def cut_at_def ok_def)
  moreover have "bytes_slice body (length head + 4) 16 what = ok sig" for what
    using assms(3) by (simp add: bytes_slice_def body_def cut_at_def)
  moreover have "bytes_slice body (length head + 4 + 16) n what = ok payload" for what
    using assms(2,3) by (simp add: bytes_slice_def body_def cut_at_def)
  moreover have "text_of (drop (length head + 4 + 16 + n) body) = BOUNDARY @ ''--'' @ CRLF"
    using assms(2,3) by (simp add: body_def del: latin1_append latin1_simps)
  ultimately have "envelope_parts body = ok (sig, payload)"
    by (simp only: envelope_parts_def and_then_simps case_prod_conv SIGNATURE_LENGTH_BYTES_def Let_def simp_thms if_False)
  then show ?thesis by (simp only: body_def head_def)
qed

text \<open>
  an envelope that the destination sealed with the mirrored session is read back as the text it
  sealed, whatever the text holds, and leaves the two sides in step.
\<close>

theorem envelope_read:
  assumes "\<And>k b. length (hmac k b) = 16" "length (utf8_encode soap) < 10 ^ 9"
    and "wrapEncrypted hmac (mirror s) soap = Some (body, t)"
  shows "unwrapEncrypted hmac s body = Some (ok soap, mirror t)"
proof -
  from assms(3) obtain r where r: "seal hmac (mirror s) (latin1 (utf8_encode soap)) = Some (r, t)"
    and body: "body = latin1 (concat (map (\<lambda>l. l @ CRLF) (envelope_lines (length (utf8_encode soap))))) @
       le_bytes 4 (length (signature r)) @ signature r @ sealed r @ latin1 (BOUNDARY @ ''--'' @ CRLF)"
    by (auto simp: wrapEncrypted_Some)
  have "envelope_parts body = ok (signature r, sealed r)"
    unfolding body using seal_length [OF assms(1) r] assms(2) by (intro envelope_parts_wrap) simp_all
  moreover have "unseal hmac s (signature r) (sealed r) = Some (ok (latin1 (utf8_encode soap)), mirror t)"
    using unseal_seal [OF assms(1) r] by simp
  ultimately show ?thesis by (simp add: unwrapEncrypted_def ok_def)
qed

lemma envelope_read_witness:
  "\<exists>s body t. wrapEncrypted (\<lambda>_ _. replicate 16 0) (mirror s) ''<s/>'' = Some (body, t) \<and>
     unwrapEncrypted (\<lambda>_ _. replicate 16 0) s body = Some (ok ''<s/>'', mirror t)"
proof -
  obtain s where s: "new_NtlmSecurity (\<lambda>_. [1, 2, 3]) [9] True = Some s"
    by (simp add: new_NtlmSecurity_def new_Direction_def subKey_def new_rc4_def)
  have "room (mirror s) 1" using new_NtlmSecurity_room [OF s, of 1] by simp
  then obtain r t where "seal (\<lambda>_ _. replicate 16 0) (mirror s) (latin1 (utf8_encode ''<s/>'')) = Some (r, t)"
    using seal_room [of "mirror s" 0] by fastforce
  then obtain body where body: "wrapEncrypted (\<lambda>_ _. replicate 16 0) (mirror s) ''<s/>'' = Some (body, t)"
    using wrapEncrypted_Some by blast
  have "length (utf8_encode ''<s/>'') < 10 ^ 9" by (simp add: utf8_encode_def utf8_char_def char_code_def)
  from envelope_read [OF _ this body] body show ?thesis by auto
qed

text \<open>The challenge of a header that offers it, alone or beside another scheme.\<close>

lemma base64_chars: "c \<in> set (base64 bs) \<Longrightarrow> is_base64_char c \<or> c = CHR ''=''"
  using base64_char_ok sextets_of_bytes_less [of bs] by (auto simp: base64_def Let_def)

lemma base64_no_space: "c \<in> set (base64 bs) \<Longrightarrow> \<not> is_space c"
  by (drule base64_chars) (auto simp: is_base64_char_def is_alnum_def is_digit_def is_upper_def is_lower_def is_space_def char_code_def)

lemma trim_id: "s = [] \<or> \<not> is_space (hd s) \<and> \<not> is_space (last s) \<Longrightarrow> trim s = s"
proof (cases "s = []")
  case False
  assume "s = [] \<or> \<not> is_space (hd s) \<and> \<not> is_space (last s)"
  with False have "dropWhile is_space s = s" "dropWhile is_space (rev s) = rev s"
    by (simp_all add: dropWhile_eq_self_iff hd_rev)
  then show ?thesis by (simp add: trim_def)
qed (simp add: trim_def)

lemma text_of_not_Nil: "m \<noteq> [] \<Longrightarrow> text_of m \<noteq> []"
  by (simp add: text_of_def)

lemma last_base64: "bs \<noteq> [] \<Longrightarrow> \<not> is_space (last (base64 bs))"
  using base64_no_space base64_not_Nil(1) by (metis last_in_set)

lemma trim_base64: "trim (base64 bs) = base64 bs"
  using base64_no_space by (intro trim_id) (metis hd_in_set last_in_set)

lemma negotiateHeader_trim: "m \<noteq> [] \<Longrightarrow> trim (negotiateHeader m) = negotiateHeader m"
proof -
  assume "m \<noteq> []"
  then have "text_of m \<noteq> []" by (rule text_of_not_Nil)
  then have "\<not> is_space (last (base64 (text_of m)))" "base64 (text_of m) \<noteq> []"
    using last_base64 base64_not_Nil(1) by blast+
  moreover have "\<not> is_space (CHR ''N'')" by code_simp
  ultimately show ?thesis by (intro trim_id) (simp add: negotiateHeader_def)
qed

lemma hd_base64: "bs \<noteq> [] \<Longrightarrow> is_base64_char (hd (base64 bs))"
proof -
  assume "bs \<noteq> []"
  then have "sextets (map char_code bs) \<noteq> []" by simp
  then have "hd (base64 bs) = base64_char False (hd (sextets (map char_code bs)))" "hd (sextets (map char_code bs)) < 64"
    using sextets_of_bytes_less [of bs] by (simp_all add: base64_def Let_def hd_append hd_map)
  then show ?thesis using base64_char_ok by simp
qed

lemma negotiateHeader_offer: "prefix (SCHEME @ '' '') (toLowerCase (negotiateHeader m))"
proof -
  have "map lower_char ''Negotiate '' = SCHEME @ '' ''" by code_simp
  then show ?thesis by (simp only: negotiateHeader_def toLowerCase_def map_append) simp
qed

lemma negotiateHeader_token: "trim (drop (length SCHEME + 1) (negotiateHeader m)) = base64 (text_of m)"
  by (simp add: SCHEME_def negotiateHeader_def trim_base64)

lemma negotiateHeader_no_comma: "CHR '','' \<notin> set (negotiateHeader m)"
proof -
  have "\<not> is_base64_char (CHR '','')" by code_simp
  then show ?thesis using base64_chars [of "CHR '',''" "text_of m"] by (auto simp: negotiateHeader_def)
qed

text \<open>
  the message of a Negotiate offer is read out of the header it was written into, wherever the
  offer stands in the header's list and whatever other schemes are offered before and behind it.
\<close>

theorem challengeToken_offered:
  assumes "m \<noteq> []" "\<forall>o' \<in> set (before @ behind). CHR '','' \<notin> set o'"
    and "\<forall>o' \<in> set before. \<not> prefix ''negotiate '' (toLowerCase (trim o'))"
  shows "challengeToken (Some (join_with (CHR '','') (before @ negotiateHeader m # behind))) = ok m"
proof -
  let ?header = "join_with (CHR '','') (before @ negotiateHeader m # behind)"
  have "split_on (CHR '','') ?header = before @ negotiateHeader m # behind"
    using assms(2) negotiateHeader_no_comma by (intro split_join) auto
  moreover have "find (\<lambda>o'. prefix (SCHEME @ '' '') (toLowerCase o')) (map trim (before @ negotiateHeader m # behind)) = Some (negotiateHeader m)"
  proof -
    have "find (\<lambda>o'. prefix (SCHEME @ '' '') (toLowerCase o')) (map trim before) = None"
      using assms(3) by (auto simp: find_None_iff SCHEME_def)
    then have "find (\<lambda>o'. prefix (SCHEME @ '' '') (toLowerCase o')) (map trim before @ os) =
        find (\<lambda>o'. prefix (SCHEME @ '' '') (toLowerCase o')) os" for os
      by (induction before) (auto split: if_splits)
    then show ?thesis using negotiateHeader_offer by (simp add: negotiateHeader_trim [OF assms(1)])
  qed
  moreover have "text_of m \<noteq> []" using assms(1) by (rule text_of_not_Nil)
  ultimately show ?thesis
    using hd_base64 [of "text_of m"] base64_not_Nil(1) [of "text_of m"]
      negotiateHeader_token [of m] by (simp add: challengeToken_def)
qed

lemma challengeToken_offered_witness:
  "challengeToken (Some (join_with (CHR '','') [''Basic realm'', negotiateHeader [78, 84], '' Kerberos'' ])) = ok [78, 84]"
  using challengeToken_offered [of "[78, 84]" "[''Basic realm'']" "['' Kerberos'']"]
  by (simp add: toLowerCase_def lower_char_def is_upper_def char_code_def trim_def is_space_def)

end
