(* ===== verification/Xml.thy ===== *)
theory Xml
  imports Prelude "HOL-Library.AList"
begin

text \<open>
  The strict reader of WS-Management answers (\<^verbatim>\<open>winrm/xml.ts\<close>). The position of the reader is what
  is left of the text, and its element count is passed along. A \<^verbatim>\<open>XmlProblem\<close> is \<open>Problem\<close>; the two
  functions that call each other take fuel, and \<open>parse_returns\<close> shows that the fuel of \<open>parseXml\<close>
  never runs out.
\<close>

definition MAX_DEPTH :: nat where "MAX_DEPTH = 24"
definition MAX_ELEMENTS :: nat where "MAX_ELEMENTS = 4096"
definition MAX_ATTRIBUTES :: nat where "MAX_ATTRIBUTES = 32"

datatype XmlStop = OutOfFuel | Problem string

type_synonym 't Xml = "('t, XmlStop) result"

datatype XmlElement =
  Element (x_name: string) (x_local: string) (x_attributes: "(string \<times> string) list") (x_text: string)
    (x_children: "XmlElement list")

section \<open>The characters of a name\<close>

definition name_start :: "char \<Rightarrow> bool" where
  "name_start c \<longleftrightarrow> is_upper c \<or> is_lower c \<or> c = CHR ''_''"

definition name_rest :: "char \<Rightarrow> bool" where
  "name_rest c \<longleftrightarrow> is_word c \<or> c = CHR ''.'' \<or> c = CHR '':'' \<or> c = CHR ''-''"

section \<open>The reader\<close>

definition problem :: "string \<Rightarrow> 't Xml" where
  "problem reason = fail (Problem reason)"

lemma problem_simps [simp]: "problem r \<noteq> ok v" "problem r \<noteq> fail OutOfFuel" "and_then (problem r) f = problem r"
  by (simp_all add: problem_def)

text \<open>\<^verbatim>\<open>#take\<close>, \<^verbatim>\<open>#skipSpace\<close> and \<^verbatim>\<open>#name\<close>.\<close>

definition take_text :: "string \<Rightarrow> string \<Rightarrow> string Xml" where
  "take_text p s = (if prefix p s then ok (drop (length p) s) else problem (''expected '' @ p))"

definition skip_space :: "string \<Rightarrow> string" where
  "skip_space s = dropWhile is_space s"

definition read_name :: "string \<Rightarrow> (string \<times> string) Xml" where
  "read_name s =
     (case s of
        [] \<Rightarrow> problem ''expected an element or attribute name''
      | c # cs \<Rightarrow>
        (if \<not> name_start c then problem ''expected an element or attribute name''
         else ok (c # takeWhile name_rest cs, dropWhile name_rest cs)))"

definition read_value :: "string \<Rightarrow> (string \<times> string) Xml" where
  "read_value s =
     (case s of
        [] \<Rightarrow> problem ''expected a quoted attribute value''
      | q # cs \<Rightarrow>
        (if q \<noteq> CHR 0x22 \<and> q \<noteq> CHR 0x27 then problem ''expected a quoted attribute value''
         else if q \<notin> set cs then problem ''an attribute value is not closed''
         else
          (let v = before_first q cs in
           if CHR ''&'' \<in> set v \<or> CHR ''<'' \<in> set v then problem ''an attribute value contains a reference or a tag''
           else ok (v, tl (from_first q cs)))))"

text \<open>
  An assignment to a plain object: an existing key keeps its place, and a string assigned to
  \<^verbatim>\<open>__proto__\<close> is ignored.
\<close>

definition set_attribute :: "string \<Rightarrow> string \<Rightarrow> (string \<times> string) list \<Rightarrow> (string \<times> string) list" where
  "set_attribute name v attrs = (if name = ''__proto__'' then attrs else AList.update name v attrs)"

text \<open>\<^verbatim>\<open>#attributes\<close>, with the rounds the loop still has.\<close>

fun read_attributes :: "nat \<Rightarrow> string \<Rightarrow> (string \<times> string) list \<Rightarrow> ((string \<times> string) list \<times> bool \<times> string) Xml" where
  "read_attributes 0 s attrs = problem ''an element carries more attributes than any WS-Management response does''"
| "read_attributes (Suc rounds) s attrs =
     (let s = skip_space s in
      if prefix ''/>'' s then ok (attrs, True, drop 2 s)
      else if prefix ''>'' s then ok (attrs, False, drop 1 s)
      else
       and_then (read_name s) (\<lambda>(name, s1).
       and_then (take_text ''='' (skip_space s1)) (\<lambda>s2.
       and_then (read_value (skip_space s2)) (\<lambda>(v, s3).
       read_attributes rounds s3 (set_attribute name v attrs)))))"

definition read_characters :: "string \<Rightarrow> (string \<times> string) Xml" where
  "read_characters s =
     (if CHR ''<'' \<notin> set s then problem ''an element is not closed''
      else
       (let t = before_first (CHR ''<'') s in
        if CHR ''&'' \<in> set t then problem ''character data contains a reference''
        else ok (t, from_first (CHR ''<'') s)))"

definition localName :: "string \<Rightarrow> string" where
  "localName name = (if CHR '':'' \<notin> set name then name else tl (from_first (CHR '':'') name))"

text \<open>\<^verbatim>\<open>#element\<close> and \<^verbatim>\<open>#content\<close>: the loop of the latter calls itself with what it has collected.\<close>

fun read_element :: "nat \<Rightarrow> nat \<Rightarrow> string \<Rightarrow> nat \<Rightarrow> (XmlElement \<times> string \<times> nat) Xml"
  and read_content :: "nat \<Rightarrow> string \<Rightarrow> nat \<Rightarrow> string \<Rightarrow> XmlElement list \<Rightarrow> string \<Rightarrow> nat
    \<Rightarrow> (string \<times> XmlElement list \<times> string \<times> nat) Xml"
where
  "read_element 0 depth s n = fail OutOfFuel"
| "read_element (Suc fuel) depth s n =
     (if depth > MAX_DEPTH then problem ''the document is nested deeper than any WS-Management response is''
      else if n + 1 > MAX_ELEMENTS then problem ''the document holds more elements than any WS-Management response does''
      else
       and_then (take_text ''<'' s) (\<lambda>s1.
       and_then (read_name s1) (\<lambda>(name, s2).
       and_then (read_attributes (Suc MAX_ATTRIBUTES) s2 []) (\<lambda>(attrs, isEmpty, s3).
         if isEmpty then ok (Element name (localName name) attrs [] [], s3, n + 1)
         else
          and_then (read_content fuel name depth [] [] s3 (n + 1)) (\<lambda>(t, children, s4, m).
            ok (Element name (localName name) attrs t children, s4, m))))))"
| "read_content 0 name depth acc children s n = fail OutOfFuel"
| "read_content (Suc fuel) name depth acc children s n =
     and_then (read_characters s) (\<lambda>(t, s1).
       if prefix ''</'' s1 then
         and_then (read_name (drop 2 s1)) (\<lambda>(closing, s2).
           if closing \<noteq> name then problem (''<'' @ name @ ''> is closed by another tag'')
           else and_then (take_text ''>'' (skip_space s2)) (\<lambda>s3. ok (trim (acc @ t), children, s3, n)))
       else if prefix ''<!'' s1 \<or> prefix ''<?'' s1 then problem ''a declaration, comment or section is not accepted here''
       else
         and_then (read_element fuel (depth + 1) s1 n) (\<lambda>(child, s2, m).
           read_content fuel name depth (acc @ t) (children @ [child]) s2 m))"

declare read_element.simps [simp del] read_content.simps [simp del] read_attributes.simps [simp del]

text \<open>What follows the first \<^verbatim>\<open>?>\<close>.\<close>

fun after_declaration :: "string \<Rightarrow> string option" where
  "after_declaration [] = None"
| "after_declaration (c # cs) = (if prefix ''?>'' (c # cs) then Some (tl cs) else after_declaration cs)"

definition read_declaration :: "string \<Rightarrow> string Xml" where
  "read_declaration s =
     (let s = skip_space s in
      if \<not> prefix ''<?xml'' s then ok s
      else (case after_declaration s of None \<Rightarrow> problem ''the XML declaration is not closed'' | Some s1 \<Rightarrow> ok (skip_space s1)))"

definition parseXml :: "string \<Rightarrow> XmlElement Xml" where
  "parseXml s =
     and_then (read_declaration s) (\<lambda>s1.
     and_then (read_element (2 * length s + 2) 1 s1 0) (\<lambda>(root, s2, n).
       if skip_space s2 \<noteq> [] then problem ''there is more than one root element'' else ok root))"

section \<open>Finding elements\<close>

definition child :: "XmlElement \<Rightarrow> string \<Rightarrow> XmlElement option" where
  "child e l = find (\<lambda>c. x_local c = l) (x_children e)"

fun at_path :: "XmlElement \<Rightarrow> string list \<Rightarrow> XmlElement option" where
  "at_path e [] = Some e"
| "at_path e (l # ls) = (case child e l of None \<Rightarrow> None | Some c \<Rightarrow> at_path c ls)"

fun descendants :: "XmlElement \<Rightarrow> string \<Rightarrow> XmlElement list" where
  "descendants (Element name l attrs t children) wanted =
     concat (map (\<lambda>c. (if x_local c = wanted then [c] else []) @ descendants c wanted) children)"

section \<open>The reader returns\<close>

lemma skip_space_le: "length (skip_space s) \<le> length s"
  by (simp add: skip_space_def length_dropWhile_le)

lemma take_text_less: "take_text p s = ok s1 \<Longrightarrow> length s1 + length p = length s"
  by (auto simp: take_text_def prefix_def split: if_splits)

lemma read_name_less: "read_name s = ok (name, s1) \<Longrightarrow> length s1 < length s"
  using length_dropWhile_le [of name_rest "tl s"] by (auto simp: read_name_def split: list.splits if_splits)

lemma read_value_less: "read_value s = ok (v, s1) \<Longrightarrow> length s1 < length s"
proof -
  have "length (tl (from_first q cs)) \<le> length cs" for q :: char and cs
    using length_dropWhile_le [of "\<lambda>x. x \<noteq> q" cs] by (simp add: from_first_def)
  then show "read_value s = ok (v, s1) \<Longrightarrow> length s1 < length s"
    by (auto simp: read_value_def Let_def less_Suc_eq_le split: list.splits if_splits)
qed

lemma read_attributes_step:
  assumes "\<not> prefix ''/>'' (skip_space s)" "\<not> prefix ''>'' (skip_space s)"
  shows "read_attributes (Suc rounds) s attrs =
    and_then (read_name (skip_space s)) (\<lambda>(name, s1).
    and_then (take_text ''='' (skip_space s1)) (\<lambda>s2.
    and_then (read_value (skip_space s2)) (\<lambda>(v, s3).
    read_attributes rounds s3 (set_attribute name v attrs))))"
  using assms by (simp add: read_attributes.simps Let_def)

lemma read_attributes_less: "read_attributes rounds s attrs = ok (r, e, s') \<Longrightarrow> length s' < length s"
proof (induction rounds arbitrary: s attrs)
  case (Suc rounds)
  let ?s = "skip_space s"
  have le: "length ?s \<le> length s" by (rule skip_space_le)
  show ?case
  proof (cases "prefix ''/>'' ?s \<or> prefix ''>'' ?s")
    case True
    with Suc.prems le show ?thesis by (auto simp: read_attributes.simps Let_def prefix_def split: if_splits)
  next
    case False
    with Suc.prems obtain nm a b v c where step: "read_name ?s = ok (nm, a)" "take_text ''='' (skip_space a) = ok b"
      "read_value (skip_space b) = ok (v, c)" "read_attributes rounds c (set_attribute nm v attrs) = ok (r, e, s')"
      using read_attributes_step [of s rounds attrs] by (auto simp: and_then_ok ok_and_then)
    show ?thesis
      using le read_name_less [OF step(1)] take_text_less [OF step(2)] read_value_less [OF step(3)] Suc.IH [OF step(4)]
        skip_space_le [of a] skip_space_le [of b] by linarith
  qed
qed (simp add: read_attributes.simps)

lemma read_characters_ok: "read_characters s = ok (t, s') \<Longrightarrow> s = t @ s' \<and> s' \<noteq> [] \<and> hd s' = CHR ''<''"
proof -
  assume run: "read_characters s = ok (t, s')"
  then have lt: "CHR ''<'' \<in> set s" and s': "s' = from_first (CHR ''<'') s" "t = before_first (CHR ''<'') s"
    by (auto simp: read_characters_def Let_def split: if_splits)
  have s: "t @ s' = s" by (simp add: s')
  have "s' \<noteq> []"
  proof
    assume "s' = []"
    with s have "s = before_first (CHR ''<'') s" by (simp add: s'(2))
    with lt show False using before_first_notin by metis
  qed
  then show ?thesis using s from_first_cases [of "CHR ''<''" s] by (auto simp: s'(1))
qed

lemma no_fuel_problems [simp]:
  "take_text p s \<noteq> fail OutOfFuel" "read_name s \<noteq> fail OutOfFuel" "read_value s \<noteq> fail OutOfFuel"
  "read_characters s \<noteq> fail OutOfFuel" "read_declaration s \<noteq> fail OutOfFuel"
  by (auto simp: take_text_def read_name_def read_value_def read_characters_def read_declaration_def Let_def split: list.splits option.splits)

lemma read_attributes_fuel [simp]: "read_attributes rounds s attrs \<noteq> fail OutOfFuel"
proof (induction rounds arbitrary: s attrs)
  case (Suc rounds)
  then show ?case by (auto simp: read_attributes.simps Let_def and_then_fail split: prod.splits)
qed (simp add: read_attributes.simps)

text \<open>The two functions, inverted.\<close>

lemma read_element_ok:
  "read_element (Suc fuel) depth s n = ok (e, s', m) \<longleftrightarrow>
     depth \<le> MAX_DEPTH \<and> n < MAX_ELEMENTS \<and>
     (\<exists>s1 name s2 attrs isEmpty s3. take_text ''<'' s = ok s1 \<and> read_name s1 = ok (name, s2) \<and>
        read_attributes (Suc MAX_ATTRIBUTES) s2 [] = ok (attrs, isEmpty, s3) \<and>
        (if isEmpty then e = Element name (localName name) attrs [] [] \<and> s' = s3 \<and> m = n + 1
         else \<exists>t children. read_content fuel name depth [] [] s3 (n + 1) = ok (t, children, s', m) \<and>
           e = Element name (localName name) attrs t children))"
  by (auto simp: read_element.simps and_then_ok split: if_splits) (blast+)?

lemma read_content_ok:
  "read_content (Suc fuel) name depth acc children s n = ok (t, es, s', m) \<longleftrightarrow>
     (\<exists>c s1. read_characters s = ok (c, s1) \<and>
        (if prefix ''</'' s1
         then \<exists>s2. read_name (drop 2 s1) = ok (name, s2) \<and> take_text ''>'' (skip_space s2) = ok s' \<and>
           t = trim (acc @ c) \<and> es = children \<and> m = n
         else \<not> prefix ''<!'' s1 \<and> \<not> prefix ''<?'' s1 \<and>
           (\<exists>e s2 k. read_element fuel (depth + 1) s1 n = ok (e, s2, k) \<and>
              read_content fuel name depth (acc @ c) (children @ [e]) s2 k = ok (t, es, s', m))))"
proof (cases "read_characters s" rule: result_cases)
  case (2 v)
  then show ?thesis by (cases v) (auto simp: read_content.simps and_then_ok ok_and_then)
qed (simp add: read_content.simps)

lemma read_element_out:
  "read_element (Suc fuel) depth s n = fail OutOfFuel \<longleftrightarrow>
     depth \<le> MAX_DEPTH \<and> n < MAX_ELEMENTS \<and>
     (\<exists>s1 name s2 attrs s3. take_text ''<'' s = ok s1 \<and> read_name s1 = ok (name, s2) \<and>
        read_attributes (Suc MAX_ATTRIBUTES) s2 [] = ok (attrs, False, s3) \<and>
        read_content fuel name depth [] [] s3 (n + 1) = fail OutOfFuel)"
  by (auto simp: read_element.simps and_then_fail split: if_splits) blast

lemma read_content_out:
  "read_content (Suc fuel) name depth acc children s n = fail OutOfFuel \<longleftrightarrow>
     (\<exists>c s1. read_characters s = ok (c, s1) \<and> \<not> prefix ''</'' s1 \<and> \<not> prefix ''<!'' s1 \<and> \<not> prefix ''<?'' s1 \<and>
        (read_element fuel (depth + 1) s1 n = fail OutOfFuel \<or>
         (\<exists>e s2 k. read_element fuel (depth + 1) s1 n = ok (e, s2, k) \<and>
            read_content fuel name depth (acc @ c) (children @ [e]) s2 k = fail OutOfFuel)))"
proof (cases "read_characters s" rule: result_cases)
  case (1 e)
  then show ?thesis using no_fuel_problems(4) [of s] by (auto simp: read_content.simps)
next
  case (2 v)
  then show ?thesis by (cases v) (auto simp: read_content.simps and_then_fail)
qed

lemma read_less:
  "(\<forall>depth s n e s' m. read_element fuel depth s n = ok (e, s', m) \<longrightarrow> length s' < length s) \<and>
   (\<forall>name depth acc children s n t es s' m. read_content fuel name depth acc children s n = ok (t, es, s', m) \<longrightarrow> length s' < length s)"
proof (induction fuel)
  case (Suc fuel)
  have element: "length s' < length s" if run: "read_element (Suc fuel) depth s n = ok (e, s', m)" for depth s n e s' m
  proof -
    from run obtain s1 name s2 attrs isEmpty s3 where step: "take_text ''<'' s = ok s1" "read_name s1 = ok (name, s2)"
      "read_attributes (Suc MAX_ATTRIBUTES) s2 [] = ok (attrs, isEmpty, s3)" and "length s' \<le> length s3"
      using Suc.IH unfolding read_element_ok by (fastforce split: if_splits)
    then show ?thesis using take_text_less [OF step(1)] read_name_less [OF step(2)] read_attributes_less [OF step(3)] by simp
  qed
  have content: "length s' < length s" if run: "read_content (Suc fuel) name depth acc children s n = ok (t, es, s', m)"
    for name depth acc children s n t es s' m
  proof -
    from run obtain c s1 where c: "read_characters s = ok (c, s1)" unfolding read_content_ok by blast
    have le: "length s1 \<le> length s" using read_characters_ok [OF c] by (metis length_append trans_le_add2 le_refl)
    show ?thesis
    proof (cases "prefix ''</'' s1")
      case True
      with run c obtain s2 where step: "read_name (drop 2 s1) = ok (name, s2)" "take_text ''>'' (skip_space s2) = ok s'"
        unfolding read_content_ok by auto
      then show ?thesis using le read_name_less [OF step(1)] take_text_less [OF step(2)] skip_space_le [of s2] by simp
    next
      case False
      with run c obtain e s2 k where "read_element fuel (depth + 1) s1 n = ok (e, s2, k)"
        "read_content fuel name depth (acc @ c) (children @ [e]) s2 k = ok (t, es, s', m)"
        unfolding read_content_ok by auto
      with Suc.IH le show ?thesis by (meson less_le_trans less_trans)
    qed
  qed
  show ?case using element content by blast
qed (simp add: read_element.simps read_content.simps)

lemma fuel_suffices:
  "(\<forall>depth s n. 2 * length s < fuel \<longrightarrow> read_element fuel depth s n \<noteq> fail OutOfFuel) \<and>
   (\<forall>name depth acc children s n. 2 * length s + 1 < fuel \<longrightarrow> read_content fuel name depth acc children s n \<noteq> fail OutOfFuel)"
proof (induction fuel)
  case (Suc fuel)
  have element: "read_element (Suc fuel) depth s n \<noteq> fail OutOfFuel" if fuel: "2 * length s < Suc fuel" for depth s n
  proof
    assume "read_element (Suc fuel) depth s n = fail OutOfFuel"
    then obtain s1 name s2 attrs s3 where step: "take_text ''<'' s = ok s1" "read_name s1 = ok (name, s2)"
      "read_attributes (Suc MAX_ATTRIBUTES) s2 [] = ok (attrs, False, s3)" "read_content fuel name depth [] [] s3 (n + 1) = fail OutOfFuel"
      unfolding read_element_out by blast
    have "2 * length s3 + 1 < fuel"
      using take_text_less [OF step(1)] read_name_less [OF step(2)] read_attributes_less [OF step(3)] fuel by simp
    with Suc.IH step(4) show False by blast
  qed
  have content: "read_content (Suc fuel) name depth acc children s n \<noteq> fail OutOfFuel" if fuel: "2 * length s + 1 < Suc fuel"
    for name depth acc children s n
  proof
    assume "read_content (Suc fuel) name depth acc children s n = fail OutOfFuel"
    then obtain c s1 where c: "read_characters s = ok (c, s1)"
      and sub: "read_element fuel (depth + 1) s1 n = fail OutOfFuel \<or>
        (\<exists>e s2 k. read_element fuel (depth + 1) s1 n = ok (e, s2, k) \<and>
           read_content fuel name depth (acc @ c) (children @ [e]) s2 k = fail OutOfFuel)"
      unfolding read_content_out by blast
    have le: "length s1 \<le> length s" using read_characters_ok [OF c] by (metis length_append trans_le_add2 le_refl)
    then have "read_element fuel (depth + 1) s1 n \<noteq> fail OutOfFuel" using Suc.IH fuel by simp
    with sub obtain e s2 k where next_step: "read_element fuel (depth + 1) s1 n = ok (e, s2, k)"
      "read_content fuel name depth (acc @ c) (children @ [e]) s2 k = fail OutOfFuel" by blast
    have "length s2 < length s1" using read_less next_step(1) by blast
    then have "2 * length s2 + 1 < fuel" using le fuel by simp
    with Suc.IH next_step(2) show False by blast
  qed
  show ?case using element content by blast
qed (simp)

lemma after_declaration_le: "after_declaration s = Some t \<Longrightarrow> length t \<le> length s"
  by (induction s rule: after_declaration.induct) (auto split: if_splits)

lemma read_declaration_le:
  assumes "read_declaration s = ok s1"
  shows "length s1 \<le> length s"
proof (cases "prefix ''<?xml'' (skip_space s)")
  case True
  with assms obtain t where "after_declaration (skip_space s) = Some t" "s1 = skip_space t"
    by (auto simp: read_declaration_def Let_def split: option.splits)
  then show ?thesis using after_declaration_le skip_space_le [of t] skip_space_le [of s] by (meson le_trans)
qed (use assms skip_space_le in \<open>auto simp: read_declaration_def\<close>)

text \<open>
  C23: the reader returns on every text: the fuel it starts with is never used up, so the answer is
  an element or a problem of the text.
\<close>

theorem parse_returns: "parseXml s \<noteq> fail OutOfFuel"
proof
  assume "parseXml s = fail OutOfFuel"
  then obtain s1 where s1: "read_declaration s = ok s1" "read_element (2 * length s + 2) 1 s1 0 = fail OutOfFuel"
    by (auto simp: parseXml_def and_then_fail split: if_splits)
  then show False using fuel_suffices [of "2 * length s + 2"] read_declaration_le [OF s1(1)] by auto
qed

end
