(* ===== verification/XmlSafety.thy ===== *)
theory XmlSafety
  imports Xml
begin

text \<open>
  What the strict reader guarantees: the bounds of every element it gives out, and that the documents
  of its shape are read back as they were written.
\<close>

section \<open>The bounds\<close>

fun xml_size :: "XmlElement \<Rightarrow> nat" where
  "xml_size (Element name l attrs t children) = Suc (sum_list (map xml_size children))"

fun xml_depth :: "XmlElement \<Rightarrow> nat" where
  "xml_depth (Element name l attrs t children) = Suc (foldr max (map xml_depth children) 0)"

fun xml_attributes_le :: "nat \<Rightarrow> XmlElement \<Rightarrow> bool" where
  "xml_attributes_le k (Element name l attrs t children) \<longleftrightarrow> length attrs \<le> k \<and> list_all (xml_attributes_le k) children"

lemma foldr_max_le: "foldr max ds (0 :: nat) \<le> k \<longleftrightarrow> (\<forall>d \<in> set ds. d \<le> k)"
  by (induction ds) auto

lemma length_set_attribute: "length (set_attribute name v attrs) \<le> Suc (length attrs)"
proof -
  have "length (AList.update name v attrs) \<le> Suc (length attrs)" by (induction attrs) auto
  then show ?thesis by (simp add: set_attribute_def)
qed

lemma read_attributes_length:
  "read_attributes rounds s attrs = ok (r, e, s') \<Longrightarrow> length r + 1 \<le> length attrs + rounds"
proof (induction rounds arbitrary: s attrs)
  case (Suc rounds)
  show ?case
  proof (cases "prefix ''/>'' (skip_space s) \<or> prefix ''>'' (skip_space s)")
    case True
    with Suc.prems show ?thesis by (auto simp: read_attributes.simps Let_def split: if_splits)
  next
    case False
    with Suc.prems obtain nm v c where "read_attributes rounds c (set_attribute nm v attrs) = ok (r, e, s')"
      using read_attributes_step [of s rounds attrs] by (auto simp: and_then_ok ok_and_then)
    from Suc.IH [OF this] length_set_attribute [of nm v attrs] show ?thesis by simp
  qed
qed (simp add: read_attributes.simps)

definition in_bounds :: "nat \<Rightarrow> XmlElement \<Rightarrow> bool" where
  "in_bounds depth e \<longleftrightarrow> depth + xml_depth e \<le> Suc MAX_DEPTH \<and> xml_attributes_le MAX_ATTRIBUTES e"

lemma read_bounds:
  "(\<forall>depth s n e s' m. read_element fuel depth s n = ok (e, s', m) \<longrightarrow>
      in_bounds depth e \<and> m = n + xml_size e \<and> m \<le> MAX_ELEMENTS) \<and>
   (\<forall>name depth acc children s n t es s' m. read_content fuel name depth acc children s n = ok (t, es, s', m) \<longrightarrow> n \<le> MAX_ELEMENTS \<longrightarrow>
      (\<exists>new. es = children @ new \<and> list_all (in_bounds (Suc depth)) new \<and> m = n + sum_list (map xml_size new) \<and> m \<le> MAX_ELEMENTS))"
proof (induction fuel)
  case (Suc fuel)
  have element: "in_bounds depth e \<and> m = n + xml_size e \<and> m \<le> MAX_ELEMENTS"
    if run: "read_element (Suc fuel) depth s n = ok (e, s', m)" for depth s n e s' m
  proof -
    from run obtain name s2 attrs isEmpty s3 where depth: "depth \<le> MAX_DEPTH" "n < MAX_ELEMENTS"
      and attrs: "read_attributes (Suc MAX_ATTRIBUTES) s2 [] = ok (attrs, isEmpty, s3)"
      and rest: "if isEmpty then e = Element name (localName name) attrs [] [] \<and> m = n + 1
         else \<exists>t children. read_content fuel name depth [] [] s3 (n + 1) = ok (t, children, s', m) \<and>
           e = Element name (localName name) attrs t children"
      unfolding read_element_ok by (metis (no_types, lifting))
    have few: "length attrs \<le> MAX_ATTRIBUTES" using read_attributes_length [OF attrs] by simp
    show ?thesis
    proof (cases isEmpty)
      case True
      with rest depth few show ?thesis by (simp add: in_bounds_def)
    next
      case False
      with rest obtain t children where content: "read_content fuel name depth [] [] s3 (n + 1) = ok (t, children, s', m)"
        and e: "e = Element name (localName name) attrs t children" by auto
      have room: "n + 1 \<le> MAX_ELEMENTS" using depth(2) by simp
      from Suc.IH content room have "list_all (in_bounds (Suc depth)) children"
        "m = n + 1 + sum_list (map xml_size children)" "m \<le> MAX_ELEMENTS"
        by fastforce+
      moreover from this(1) have "foldr max (map xml_depth children) 0 \<le> MAX_DEPTH - depth"
        by (auto simp: foldr_max_le in_bounds_def list_all_iff)
      ultimately show ?thesis using depth(1) few e by (auto simp: in_bounds_def list_all_iff)
    qed
  qed
  have content: "\<exists>new. es = children @ new \<and> list_all (in_bounds (Suc depth)) new \<and> m = n + sum_list (map xml_size new) \<and> m \<le> MAX_ELEMENTS"
    if run: "read_content (Suc fuel) name depth acc children s n = ok (t, es, s', m)" and n: "n \<le> MAX_ELEMENTS"
    for name depth acc children s n t es s' m
  proof -
    from run obtain c s1 where c: "read_characters s = ok (c, s1)" unfolding read_content_ok by blast
    show ?thesis
    proof (cases "prefix ''</'' s1")
      case True
      with run c n show ?thesis unfolding read_content_ok by auto
    next
      case False
      with run c obtain e s2 k where step: "read_element fuel (depth + 1) s1 n = ok (e, s2, k)"
        "read_content fuel name depth (acc @ c) (children @ [e]) s2 k = ok (t, es, s', m)"
        unfolding read_content_ok by auto
      from Suc.IH step(1) have e: "in_bounds (Suc depth) e" "k = n + xml_size e" "k \<le> MAX_ELEMENTS" by fastforce+
      from Suc.IH step(2) e(3) obtain new where "es = (children @ [e]) @ new" "list_all (in_bounds (Suc depth)) new"
        "m = k + sum_list (map xml_size new)" "m \<le> MAX_ELEMENTS" by blast
      with e show ?thesis by (intro exI [of _ "e # new"]) (simp add: in_bounds_def)
    qed
  qed
  show ?case using element content by blast
qed (simp add: read_element.simps read_content.simps)

text \<open>
  C24: whatever a destination sends, an element that the reader gives out is nested at most 24 deep,
  holds at most 4096 elements and carries at most 32 attributes on each of them.
\<close>

theorem parse_bounds:
  assumes "parseXml s = ok e"
  shows "xml_depth e \<le> MAX_DEPTH \<and> xml_size e \<le> MAX_ELEMENTS \<and> xml_attributes_le MAX_ATTRIBUTES e"
proof -
  from assms obtain s1 s2 m where "read_element (2 * length s + 2) 1 s1 0 = ok (e, s2, m)"
    by (auto simp: parseXml_def and_then_ok split: if_splits)
  then show ?thesis using read_bounds [of "2 * length s + 2"] by (fastforce simp: in_bounds_def)
qed

lemma parse_bounds_witness:
  "xml_depth (Element ''a'' ''a'' [(''x'', ''1'')] [] []) \<le> MAX_DEPTH \<and> xml_size (Element ''a'' ''a'' [(''x'', ''1'')] [] []) \<le> MAX_ELEMENTS \<and>
     xml_attributes_le MAX_ATTRIBUTES (Element ''a'' ''a'' [(''x'', ''1'')] [] [])"
  by (rule parse_bounds [of "''<a x='' @ [CHR 0x27] @ ''1'' @ [CHR 0x27] @ ''/>''"]) code_simp

section \<open>Documents\<close>

fun xml_text :: "XmlElement \<Rightarrow> string" where
  "xml_text (Element name l attrs t children) =
     ''<'' @ name @ concat (map (\<lambda>(n, v). '' '' @ n @ ''='' @ [CHR 0x22] @ v @ [CHR 0x22]) attrs) @ ''>'' @
     t @ concat (map xml_text children) @ ''</'' @ name @ ''>''"

definition name_ok :: "string \<Rightarrow> bool" where
  "name_ok name \<longleftrightarrow> name \<noteq> [] \<and> name_start (hd name) \<and> list_all name_rest (tl name)"

definition attrs_ok :: "(string \<times> string) list \<Rightarrow> bool" where
  "attrs_ok attrs \<longleftrightarrow> distinct (map fst attrs) \<and>
     list_all (\<lambda>(n, v). name_ok n \<and> n \<noteq> ''__proto__'' \<and> set v \<inter> {CHR ''&'', CHR ''<'', CHR 0x22} = {}) attrs"

fun xml_ok :: "XmlElement \<Rightarrow> bool" where
  "xml_ok (Element name l attrs t children) \<longleftrightarrow>
     name_ok name \<and> l = localName name \<and> attrs_ok attrs \<and> length attrs \<le> MAX_ATTRIBUTES \<and>
     CHR ''&'' \<notin> set t \<and> CHR ''<'' \<notin> set t \<and> trim t = t \<and> list_all xml_ok children"

lemma read_name_text: "name_ok name \<Longrightarrow> rest \<noteq> [] \<Longrightarrow> \<not> name_rest (hd rest) \<Longrightarrow> read_name (name @ rest) = ok (name, rest)"
  by (cases name; cases rest)
    (auto simp: name_ok_def read_name_def list_all_iff takeWhile_append2 dropWhile_append2)

lemma name_ok_not_space: "name_ok name \<Longrightarrow> skip_space (name @ rest) = name @ rest"
  by (cases name) (auto simp: name_ok_def skip_space_def name_start_def char_class_defs is_space_def)

lemma read_value_text:
  assumes "set v \<inter> {CHR ''&'', CHR ''<'', CHR 0x22} = {}"
  shows "read_value ([CHR 0x22] @ v @ [CHR 0x22] @ rest) = ok (v, rest)"
proof -
  have "CHR 0x22 \<notin> set v" using assms by auto
  then have "before_first (CHR 0x22) (v @ [CHR 0x22] @ rest) = v" "from_first (CHR 0x22) (v @ [CHR 0x22] @ rest) = CHR 0x22 # rest"
    by (simp_all add: before_first_append from_first_append) (simp_all add: before_first_def from_first_def)
  then show ?thesis using assms by (simp add: read_value_def Let_def)
qed

lemma delimiters [simp]:
  "\<not> name_rest (CHR '' '')" "\<not> name_rest (CHR ''>'')" "\<not> name_rest (CHR ''='')" "is_space (CHR '' '')"
  "\<not> is_space (CHR ''>'')" "\<not> is_space (CHR ''<'')" "\<not> is_space (CHR ''='')" "\<not> is_space (CHR 0x22)"
  by code_simp+

lemma skip_space_simps [simp]:
  "skip_space (CHR '' '' # s) = skip_space s" "skip_space (CHR ''>'' # s) = CHR ''>'' # s" "skip_space (CHR ''<'' # s) = CHR ''<'' # s"
  "skip_space (CHR ''='' # s) = CHR ''='' # s" "skip_space (CHR 0x22 # s) = CHR 0x22 # s" "skip_space [] = []"
  by (simp_all add: skip_space_def)

lemma name_ok_hd: "name_ok name \<Longrightarrow> \<exists>c cs. name = c # cs \<and> CHR ''/'' \<noteq> c \<and> CHR ''>'' \<noteq> c \<and> CHR ''!'' \<noteq> c \<and> CHR ''?'' \<noteq> c"
  by (cases name) (auto simp: name_ok_def name_start_def char_class_defs)

lemma read_attributes_text:
  assumes "list_all (\<lambda>(n, v). name_ok n \<and> n \<noteq> ''__proto__'' \<and> set v \<inter> {CHR ''&'', CHR ''<'', CHR 0x22} = {}) attrs"
    and "distinct (map fst (got @ attrs))" "length attrs < rounds"
  shows "read_attributes rounds (concat (map (\<lambda>(n, v). '' '' @ n @ ''='' @ [CHR 0x22] @ v @ [CHR 0x22]) attrs) @ ''>'' @ rest) got =
    ok (got @ attrs, False, rest)"
  using assms
proof (induction attrs arbitrary: rounds got)
  case Nil
  then show ?case by (cases rounds) (simp_all add: read_attributes.simps Let_def)
next
  case (Cons a attrs)
  obtain n v where a: "a = (n, v)" by (cases a)
  from Cons.prems obtain r where r: "rounds = Suc r" by (cases rounds) auto
  let ?more = "concat (map (\<lambda>(n, v). '' '' @ n @ ''='' @ [CHR 0x22] @ v @ [CHR 0x22]) attrs) @ ''>'' @ rest"
  have n: "name_ok n" "n \<noteq> ''__proto__''" and v: "set v \<inter> {CHR ''&'', CHR ''<'', CHR 0x22} = {}"
    using Cons.prems(1) by (simp_all add: a)
  have s: "skip_space ('' '' @ n @ ''='' @ [CHR 0x22] @ v @ [CHR 0x22] @ ?more) = n @ ''='' @ [CHR 0x22] @ v @ [CHR 0x22] @ ?more"
    using name_ok_not_space [OF n(1)] by simp
  obtain c cs where c: "n = c # cs" "CHR ''/'' \<noteq> c" "CHR ''>'' \<noteq> c" using name_ok_hd [OF n(1)] by blast
  have name: "read_name (n @ ''='' @ [CHR 0x22] @ v @ [CHR 0x22] @ ?more) = ok (n, ''='' @ [CHR 0x22] @ v @ [CHR 0x22] @ ?more)"
    using read_name_text [OF n(1), of "''='' @ [CHR 0x22] @ v @ [CHR 0x22] @ ?more"] by simp
  have eq: "take_text ''='' (skip_space (''='' @ [CHR 0x22] @ v @ [CHR 0x22] @ ?more)) = ok ([CHR 0x22] @ v @ [CHR 0x22] @ ?more)"
    by (simp add: take_text_def)
  have "n \<notin> fst ` set got" using Cons.prems(2) by (simp add: a)
  then have update: "set_attribute n v got = got @ [(n, v)]"
    using n(2) by (induction got) (auto simp: set_attribute_def)
  have "read_attributes (Suc r) ('' '' @ n @ ''='' @ [CHR 0x22] @ v @ [CHR 0x22] @ ?more) got =
      read_attributes r ?more (set_attribute n v got)"
    by (subst read_attributes_step; (subst s)?)
      (use c name eq read_value_text [OF v, of ?more] in \<open>simp_all add: take_text_def skip_space_def\<close>)
  also have "\<dots> = ok ((got @ [(n, v)]) @ attrs, False, rest)"
    unfolding update using Cons.prems by (intro Cons.IH) (simp_all add: a r)
  finally show ?case by (simp add: a r)
qed

lemma read_characters_text: "CHR ''&'' \<notin> set t \<Longrightarrow> CHR ''<'' \<notin> set t \<Longrightarrow> read_characters (t @ ''<'' @ rest) = ok (t, ''<'' @ rest)"
  using before_first_append [of "CHR ''<''" t "''<'' @ rest"] from_first_append [of "CHR ''<''" t "''<'' @ rest"]
  by (simp add: read_characters_def Let_def) (simp add: before_first_def from_first_def)

lemma xml_text_hd: "xml_ok e \<Longrightarrow> \<exists>c cs. xml_text e = CHR ''<'' # c # cs \<and> CHR ''/'' \<noteq> c \<and> CHR ''!'' \<noteq> c \<and> CHR ''?'' \<noteq> c"
proof (cases e)
  case (Element name l attrs t children)
  assume "xml_ok e"
  with Element name_ok_hd [of name] show ?thesis by auto
qed

definition reads_back :: "XmlElement \<Rightarrow> bool" where
  "reads_back e \<longleftrightarrow> (\<forall>fuel depth n rest. depth + xml_depth e \<le> Suc MAX_DEPTH \<longrightarrow> n + xml_size e \<le> MAX_ELEMENTS \<longrightarrow>
     2 * length (xml_text e @ rest) < fuel \<longrightarrow> read_element fuel depth (xml_text e @ rest) n = ok (e, rest, n + xml_size e))"

lemma read_content_text:
  assumes "list_all reads_back es" "list_all xml_ok es" "name_ok name" "\<forall>e \<in> set es. Suc depth + xml_depth e \<le> Suc MAX_DEPTH"
    and "CHR ''&'' \<notin> set t" "CHR ''<'' \<notin> set t" "n + sum_list (map xml_size es) \<le> MAX_ELEMENTS"
    and "2 * length (t @ concat (map xml_text es) @ ''</'' @ name @ ''>'' @ rest) + 1 < fuel"
  shows "read_content fuel name depth acc got (t @ concat (map xml_text es) @ ''</'' @ name @ ''>'' @ rest) n =
    ok (trim (acc @ t), got @ es, rest, n + sum_list (map xml_size es))"
  using assms
proof (induction es arbitrary: fuel t n acc got)
  case Nil
  then obtain f where f: "fuel = Suc f" by (cases fuel) auto
  have "read_characters (t @ ''</'' @ name @ ''>'' @ rest) = ok (t, ''</'' @ name @ ''>'' @ rest)"
    using read_characters_text [of t "''/'' @ name @ ''>'' @ rest"] Nil.prems by simp
  moreover have "read_name (name @ ''>'' @ rest) = ok (name, ''>'' @ rest)"
    using read_name_text [OF Nil.prems(3), of "''>'' @ rest"] by simp
  ultimately show ?case unfolding f by (simp add: read_content.simps take_text_def)
next
  case (Cons e es)
  from Cons.prems obtain f where f: "fuel = Suc f" by (cases fuel) auto
  let ?tail = "concat (map xml_text es) @ ''</'' @ name @ ''>'' @ rest"
  obtain c cs where hd: "xml_text e = CHR ''<'' # c # cs" "CHR ''/'' \<noteq> c" "CHR ''!'' \<noteq> c" "CHR ''?'' \<noteq> c"
    using xml_text_hd [of e] Cons.prems(2) by auto
  have chars: "read_characters (t @ xml_text e @ ?tail) = ok (t, xml_text e @ ?tail)"
    using read_characters_text [of t "c # cs @ ?tail"] Cons.prems(5,6) by (simp add: hd(1))
  have again: "read_element f (depth + 1) (xml_text e @ ?tail) n = ok (e, ?tail, n + xml_size e)"
    using Cons.prems by (simp add: reads_back_def f)
  have "read_content f name depth (acc @ t) (got @ [e]) ([] @ ?tail) (n + xml_size e) =
      ok (trim ((acc @ t) @ []), (got @ [e]) @ es, rest, n + xml_size e + sum_list (map xml_size es))"
    using Cons.prems hd(1) by (intro Cons.IH) (simp_all add: f)
  moreover have "read_content (Suc f) name depth acc got (t @ xml_text e @ ?tail) n =
      read_content f name depth (acc @ t) (got @ [e]) ?tail (n + xml_size e)"
    by (simp only: read_content.simps chars and_then_simps case_prod_conv) (use again hd in simp)
  ultimately show ?case by (simp add: f add.assoc)
qed

lemma reads_back: "xml_ok e \<Longrightarrow> reads_back e"
proof (induction e)
  case (Element name l attrs t children)
  have ok: "name_ok name" "l = localName name" "length attrs \<le> MAX_ATTRIBUTES" "trim t = t" "CHR ''&'' \<notin> set t" "CHR ''<'' \<notin> set t"
    "list_all xml_ok children" and attrs: "attrs_ok attrs"
    using Element.prems by simp_all
  have children: "list_all reads_back children" using Element.IH ok(7) by (simp add: list_all_iff)
  show ?case unfolding reads_back_def
  proof (intro allI impI)
    fix fuel depth n rest
    assume depth: "depth + xml_depth (Element name l attrs t children) \<le> Suc MAX_DEPTH"
      and n: "n + xml_size (Element name l attrs t children) \<le> MAX_ELEMENTS"
      and fuel: "2 * length (xml_text (Element name l attrs t children) @ rest) < fuel"
    then obtain f where f: "fuel = Suc f" by (cases fuel) auto
    let ?attrs = "concat (map (\<lambda>(n, v). '' '' @ n @ ''='' @ [CHR 0x22] @ v @ [CHR 0x22]) attrs)"
    let ?content = "t @ concat (map xml_text children) @ ''</'' @ name @ ''>'' @ rest"
    have "foldr max (map xml_depth children) 0 \<le> MAX_DEPTH - depth" using depth by simp
    then have deep: "\<forall>e \<in> set children. Suc depth + xml_depth e \<le> Suc MAX_DEPTH"
      using depth by (auto simp: foldr_max_le)
    have "hd (?attrs @ ''>'' @ ?content) \<in> {CHR '' '', CHR ''>''}" by (cases attrs) auto
    then have name: "read_name (name @ ?attrs @ ''>'' @ ?content) = ok (name, ?attrs @ ''>'' @ ?content)"
      using ok(1) by (intro read_name_text) auto
    have alist: "read_attributes (Suc MAX_ATTRIBUTES) (?attrs @ ''>'' @ ?content) [] = ok (attrs, False, ?content)"
      using read_attributes_text [of attrs "[]" "Suc MAX_ATTRIBUTES" ?content] attrs ok(3) by (simp add: attrs_ok_def)
    have content: "read_content f name depth [] [] ?content (n + 1) =
        ok (trim ([] @ t), [] @ children, rest, n + 1 + sum_list (map xml_size children))"
      using children ok deep n fuel by (intro read_content_text) (simp_all add: f)
    have "take_text ''<'' (''<'' @ name @ ?attrs @ ''>'' @ ?content) = ok (name @ ?attrs @ ''>'' @ ?content)"
      by (simp add: take_text_def)
    then have "read_element (Suc f) depth (''<'' @ name @ ?attrs @ ''>'' @ ?content) n =
        ok (Element name (localName name) attrs t children, rest, n + 1 + sum_list (map xml_size children))"
      using depth n ok(4) name alist content by (simp add: read_element.simps)
    then show "read_element fuel depth (xml_text (Element name l attrs t children) @ rest) n =
        ok (Element name l attrs t children, rest, n + xml_size (Element name l attrs t children))"
      by (simp add: f ok(2))
  qed
qed

text \<open>
  C25: every document of the strict shape, within the bounds, is read back as it was written:
  elements, attributes, text and children in their order.
\<close>

theorem parse_print:
  assumes "xml_ok e" "xml_depth e \<le> MAX_DEPTH" "xml_size e \<le> MAX_ELEMENTS"
  shows "parseXml (xml_text e) = ok e"
proof -
  obtain c cs where hd: "xml_text e = CHR ''<'' # c # cs" "CHR ''?'' \<noteq> c" using xml_text_hd [OF assms(1)] by blast
  then have "read_declaration (xml_text e) = ok (xml_text e)" by (simp add: read_declaration_def Let_def)
  moreover have "read_element (2 * length (xml_text e) + 2) 1 (xml_text e @ []) 0 = ok (e, [], 0 + xml_size e)"
    using reads_back [OF assms(1)] assms(2,3) unfolding reads_back_def by (metis Suc_le_mono add_2_eq_Suc' append_Nil2 less_SucI lessI plus_1_eq_Suc add_0)
  ultimately show ?thesis by (simp add: parseXml_def)
qed

lemma parse_print_witness:
  "parseXml (xml_text (Element ''s:Body'' ''Body'' [] [] [Element ''rsp:Stream'' ''Stream'' [(''Name'', ''stdout'')] ''aGk='' []])) =
     ok (Element ''s:Body'' ''Body'' [] [] [Element ''rsp:Stream'' ''Stream'' [(''Name'', ''stdout'')] ''aGk='' []])"
  by (rule parse_print) code_simp+

end
