(* ===== verification/Wsman.thy ===== *)
theory Wsman
  imports Xml Octets Decodings Actions
begin

text \<open>
  The SOAP documents of one \<^verbatim>\<open>winrm_run\<close>: what is written (\<^verbatim>\<open>winrm/envelopes.ts\<close>), what is read out of
  an answer (\<^verbatim>\<open>responses.ts\<close>), and what a failure means (\<^verbatim>\<open>failures.ts\<close>).
\<close>

section \<open>Escaping\<close>

definition replace_all :: "char \<Rightarrow> string \<Rightarrow> string \<Rightarrow> string" where
  "replace_all c r s = concat (map (\<lambda>x. if x = c then r else [x]) s)"

text \<open>The five passes, in their order.\<close>

definition escapeXml :: "string \<Rightarrow> string" where
  "escapeXml s =
     replace_all (CHR 0x27) ''&apos;'' (replace_all (CHR 0x22) ''&quot;'' (replace_all (CHR ''>'') ''&gt;''
       (replace_all (CHR ''<'') ''&lt;'' (replace_all (CHR ''&'') ''&amp;'' s))))"

section \<open>Envelopes\<close>

definition SOAP :: string where "SOAP = ''http://www.w3.org/2003/05/soap-envelope''"
definition ADDRESSING :: string where "ADDRESSING = ''http://schemas.xmlsoap.org/ws/2004/08/addressing''"
definition WSMAN :: string where "WSMAN = ''http://schemas.dmtf.org/wbem/wsman/1/wsman.xsd''"
definition SHELL :: string where "SHELL = ''http://schemas.microsoft.com/wbem/wsman/1/windows/shell''"
definition TRANSFER :: string where "TRANSFER = ''http://schemas.xmlsoap.org/ws/2004/09/transfer''"

definition RESOURCE_URI :: string where "RESOURCE_URI = SHELL @ ''/cmd''"
definition ANONYMOUS :: string where "ANONYMOUS = ADDRESSING @ ''/role/anonymous''"
definition COMMAND_DONE :: string where "COMMAND_DONE = SHELL @ ''/CommandState/Done''"
definition TERMINATE :: string where "TERMINATE = SHELL @ ''/signal/terminate''"

definition action_create :: string where "action_create = TRANSFER @ ''/Create''"
definition action_command :: string where "action_command = SHELL @ ''/Command''"
definition action_send :: string where "action_send = SHELL @ ''/Send''"
definition action_receive :: string where "action_receive = SHELL @ ''/Receive''"
definition action_signal :: string where "action_signal = SHELL @ ''/Signal''"
definition action_delete :: string where "action_delete = TRANSFER @ ''/Delete''"

definition MAX_ENVELOPE_SIZE :: string where "MAX_ENVELOPE_SIZE = ''153600''"
definition OPERATION_TIMEOUT :: string where "OPERATION_TIMEOUT = ''PT60S''"
definition LOCALE :: string where "LOCALE = ''en-US''"

datatype WinrmShell = PowerShell | CmdShell

record EnvelopeHeader =
  eh_action :: string
  eh_url :: string
  eh_messageId :: string
  eh_shellId :: "string option"
  eh_options :: "(string \<times> string) list option"

definition quoted :: "string \<Rightarrow> string" where
  "quoted s = [CHR 0x22] @ s @ [CHR 0x22]"

definition optionSet :: "(string \<times> string) list \<Rightarrow> string" where
  "optionSet options =
     ''<w:OptionSet>'' @
     concat (map (\<lambda>(name, v). ''<w:Option Name='' @ quoted (escapeXml name) @ ''>'' @ escapeXml v @ ''</w:Option>'') options) @
     ''</w:OptionSet>''"

definition selectorSet :: "string \<Rightarrow> string" where
  "selectorSet shellId =
     ''<w:SelectorSet><w:Selector Name='' @ quoted ''ShellId'' @ ''>'' @ escapeXml shellId @ ''</w:Selector></w:SelectorSet>''"

definition must :: string where "must = '' s:mustUnderstand='' @ quoted ''true'' @ ''>''"

definition header :: "EnvelopeHeader \<Rightarrow> string" where
  "header i = concat
     [''<s:Header>'',
      ''<a:To>'' @ escapeXml (eh_url i) @ ''</a:To>'',
      ''<w:ResourceURI'' @ must @ RESOURCE_URI @ ''</w:ResourceURI>'',
      ''<a:ReplyTo><a:Address'' @ must @ ANONYMOUS @ ''</a:Address></a:ReplyTo>'',
      ''<w:MaxEnvelopeSize'' @ must @ MAX_ENVELOPE_SIZE @ ''</w:MaxEnvelopeSize>'',
      ''<a:MessageID>uuid:'' @ escapeXml (eh_messageId i) @ ''</a:MessageID>'',
      ''<w:Locale xml:lang='' @ quoted LOCALE @ '' s:mustUnderstand='' @ quoted ''false'' @ ''></w:Locale>'',
      ''<w:OperationTimeout>'' @ OPERATION_TIMEOUT @ ''</w:OperationTimeout>'',
      ''<a:Action'' @ must @ escapeXml (eh_action i) @ ''</a:Action>'',
      (case eh_shellId i of None \<Rightarrow> [] | Some s \<Rightarrow> selectorSet s),
      (case eh_options i of None \<Rightarrow> [] | Some os \<Rightarrow> optionSet os),
      ''</s:Header>'']"

definition envelope :: "EnvelopeHeader \<Rightarrow> string \<Rightarrow> string" where
  "envelope i body = concat
     [''<s:Envelope xmlns:s='' @ quoted SOAP @ '' xmlns:a='' @ quoted ADDRESSING @ '' xmlns:w='' @ quoted WSMAN @
        '' xmlns:rsp='' @ quoted SHELL @ ''>'',
      header i,
      ''<s:Body>'' @ body @ ''</s:Body>'',
      ''</s:Envelope>'']"

definition createShell :: "string \<Rightarrow> string \<Rightarrow> string" where
  "createShell url messageId =
     envelope \<lparr>eh_action = action_create, eh_url = url, eh_messageId = messageId, eh_shellId = None,
       eh_options = Some [(''WINRS_NOPROFILE'', ''FALSE''), (''WINRS_CODEPAGE'', ''65001'')]\<rparr>
       (''<rsp:Shell><rsp:InputStreams>stdin</rsp:InputStreams>'' @
        ''<rsp:OutputStreams>stdout stderr</rsp:OutputStreams></rsp:Shell>'')"

record CommandRequest =
  cr_url :: string
  cr_messageId :: string
  cr_shellId :: string
  cr_command :: string
  cr_shell :: WinrmShell

definition encodedCommand :: "string \<Rightarrow> string" where
  "encodedCommand command = base64 (text_of (utf16le command))"

definition commandLine :: "CommandRequest \<Rightarrow> string" where
  "commandLine r =
     (if cr_shell r = CmdShell
      then ''<rsp:CommandLine><rsp:Command>'' @ escapeXml (cr_command r) @ ''</rsp:Command></rsp:CommandLine>''
      else
       ''<rsp:CommandLine><rsp:Command>powershell</rsp:Command>'' @
       concat (map (\<lambda>v. ''<rsp:Arguments>'' @ escapeXml v @ ''</rsp:Arguments>'')
         [''-NoProfile'', ''-NonInteractive'', ''-EncodedCommand'', encodedCommand (cr_command r)]) @
       ''</rsp:CommandLine>'')"

definition runCommand :: "CommandRequest \<Rightarrow> string" where
  "runCommand r =
     envelope \<lparr>eh_action = action_command, eh_url = cr_url r, eh_messageId = cr_messageId r, eh_shellId = Some (cr_shellId r),
       eh_options = Some [(''WINRS_CONSOLEMODE_STDIN'', ''TRUE''),
         (''WINRS_SKIP_CMD_SHELL'', if cr_shell r = CmdShell then ''FALSE'' else ''TRUE'')]\<rparr>
       (commandLine r)"

record StreamRequest =
  sr_url :: string
  sr_messageId :: string
  sr_shellId :: string
  sr_commandId :: string

definition stream_header :: "string \<Rightarrow> StreamRequest \<Rightarrow> EnvelopeHeader" where
  "stream_header a r =
     \<lparr>eh_action = a, eh_url = sr_url r, eh_messageId = sr_messageId r, eh_shellId = Some (sr_shellId r), eh_options = None\<rparr>"

definition sendStdin :: "StreamRequest \<Rightarrow> string \<Rightarrow> string" where
  "sendStdin r stdin =
     envelope (stream_header action_send r)
       (''<rsp:Send><rsp:Stream Name='' @ quoted ''stdin'' @ '' CommandId='' @ quoted (escapeXml (sr_commandId r)) @
        '' End='' @ quoted ''true'' @ ''>'' @ base64 (utf8_encode stdin) @ ''</rsp:Stream></rsp:Send>'')"

definition receive :: "StreamRequest \<Rightarrow> string" where
  "receive r =
     envelope (stream_header action_receive r)
       (''<rsp:Receive><rsp:DesiredStream CommandId='' @ quoted (escapeXml (sr_commandId r)) @
        ''>stdout stderr</rsp:DesiredStream></rsp:Receive>'')"

definition signalTerminate :: "StreamRequest \<Rightarrow> string" where
  "signalTerminate r =
     envelope (stream_header action_signal r)
       (''<rsp:Signal CommandId='' @ quoted (escapeXml (sr_commandId r)) @ ''><rsp:Code>'' @ TERMINATE @ ''</rsp:Code></rsp:Signal>'')"

definition deleteShell :: "string \<Rightarrow> string \<Rightarrow> string \<Rightarrow> string" where
  "deleteShell url messageId shellId =
     envelope \<lparr>eh_action = action_delete, eh_url = url, eh_messageId = messageId, eh_shellId = Some shellId, eh_options = None\<rparr> []"

section \<open>Answers\<close>

record SoapFault =
  subcode :: string
  fault_reason :: string

definition TIMED_OUT :: string where "TIMED_OUT = ''TimedOut''"

text \<open>\<^verbatim>\<open>localPart\<close> is \<^verbatim>\<open>localName\<close> under another name; \<^verbatim>\<open>?.text ?? ''\<close>.\<close>

definition text_or_empty :: "XmlElement option \<Rightarrow> string" where
  "text_or_empty e = (case e of None \<Rightarrow> [] | Some x \<Rightarrow> x_text x)"

definition first_of :: "'a list \<Rightarrow> 'a option" where
  "first_of xs = (case xs of [] \<Rightarrow> None | x # _ \<Rightarrow> Some x)"

definition faultOf :: "XmlElement \<Rightarrow> SoapFault option" where
  "faultOf e =
     (case at_path e [''Body'', ''Fault''] of
        None \<Rightarrow> None
      | Some fault \<Rightarrow>
        (let code = text_or_empty (at_path fault [''Code'', ''Subcode'', ''Value'']);
             reason = text_or_empty (at_path fault [''Reason'', ''Text'']);
             detail = text_or_empty (first_of (descendants fault ''Message''))
         in Some \<lparr>subcode = localName code, fault_reason = (if reason = [] then detail else reason)\<rparr>))"

definition required :: "string option \<Rightarrow> string \<Rightarrow> string Xml" where
  "required v what =
     (case v of
        None \<Rightarrow> problem (''the response does not carry '' @ what)
      | Some t \<Rightarrow> if t = [] then problem (''the response does not carry '' @ what) else ok t)"

definition shellIdOf :: "XmlElement \<Rightarrow> string Xml" where
  "shellIdOf e = required (map_option x_text (first_of (descendants e ''ShellId''))) ''a shell identifier''"

definition commandIdOf :: "XmlElement \<Rightarrow> string Xml" where
  "commandIdOf e =
     required (map_option x_text (at_path e [''Body'', ''CommandResponse'', ''CommandId''])) ''a command identifier''"

record ReceivedStream =
  stream_name :: string
  stream_bytes :: bytes

record Received =
  streams :: "ReceivedStream list"
  exitCode :: "int option"
  isDone :: bool

definition decodeStream :: "XmlElement \<Rightarrow> bytes Xml" where
  "decodeStream e =
     (let encoded = filter (\<lambda>c. \<not> is_space c) (x_text e) in
      if \<not> is_base64_text encoded then problem ''an output stream is not base64'' else ok (base64_decode encoded))"

text \<open>What \<^verbatim>\<open>/^-?\d{1,10}$/\<close> matches, as a number.\<close>

definition signed_decimal :: "string \<Rightarrow> int option" where
  "signed_decimal t =
     (let negative = prefix ''-'' t; digits = (if negative then tl t else t) in
      if digits \<noteq> [] \<and> length digits \<le> 10 \<and> list_all is_digit digits
      then Some (if negative then - int (decimal digits) else int (decimal digits)) else None)"

definition exitCodeOf :: "XmlElement option \<Rightarrow> int option Xml" where
  "exitCodeOf state =
     (case Option.bind state (\<lambda>s. map_option x_text (at_path s [''ExitCode''])) of
        None \<Rightarrow> ok None
      | Some t \<Rightarrow> (case signed_decimal t of None \<Rightarrow> problem ''the exit code is not a number'' | Some n \<Rightarrow> ok (Some n)))"

fun read_streams :: "XmlElement list \<Rightarrow> ReceivedStream list Xml" where
  "read_streams [] = ok []"
| "read_streams (e # es) =
     and_then (decodeStream e) (\<lambda>b.
     and_then (read_streams es) (\<lambda>rest.
       ok (\<lparr>stream_name = (case map_of (x_attributes e) ''Name'' of None \<Rightarrow> [] | Some n \<Rightarrow> n), stream_bytes = b\<rparr> # rest)))"

definition receivedOf :: "XmlElement \<Rightarrow> Received Xml" where
  "receivedOf e =
     and_then (read_streams (descendants e ''Stream'')) (\<lambda>ss.
     let state = first_of (descendants e ''CommandState'') in
     and_then (exitCodeOf state) (\<lambda>code.
       ok \<lparr>streams = ss, exitCode = code,
           isDone = (Option.bind state (\<lambda>s. map_of (x_attributes s) ''State'') = Some COMMAND_DONE)\<rparr>))"

section \<open>Failures\<close>

definition MESSAGE_CAP :: nat where "MESSAGE_CAP = 1024"
definition UNAUTHORIZED :: nat where "UNAUTHORIZED = 401"
definition OK_STATUS :: nat where "OK_STATUS = 200"

fun codeOf :: "Thrown \<Rightarrow> string" where
  "codeOf (ThrownAction e) = code_name (error_code e)"
| "codeOf (ThrownError code name message wrapped) = (case code of Some c \<Rightarrow> c | None \<Rightarrow> name)"
| "codeOf (ThrownOther s) = ''unknown''"

fun messageOf :: "Thrown \<Rightarrow> string" where
  "messageOf (ThrownAction e) = take MESSAGE_CAP (error_message (error_code e))"
| "messageOf (ThrownError code name message wrapped) = take MESSAGE_CAP message"
| "messageOf (ThrownOther s) = take MESSAGE_CAP s"

definition reasonOf :: "Thrown \<Rightarrow> string" where
  "reasonOf t =
     (case t of
        ThrownAction e \<Rightarrow>
          (case map_of (error_detail e) ''message'' of Some (DText m) \<Rightarrow> take MESSAGE_CAP m | _ \<Rightarrow> messageOf t)
      | _ \<Rightarrow> messageOf t)"

definition winrm_transportFailure :: "Thrown \<Rightarrow> bool \<Rightarrow> ActionError" where
  "winrm_transportFailure t aborted =
     (case t of
        ThrownAction e \<Rightarrow> e
      | _ \<Rightarrow>
        (let code = codeOf t in
         if code = ''AbortError'' \<or> aborted then action_error timeout []
         else action_error (if isTlsErrorCode code then tls_error else connection_failed) [(''reason'', DText code)]))"

definition faultFailure :: "SoapFault \<Rightarrow> ActionError" where
  "faultFailure f =
     (let message = (if fault_reason f = [] then subcode f else fault_reason f) in
      action_error upstream_error
        [(''message'', DText (take MESSAGE_CAP (if message = [] then ''the destination reported a fault'' else message)))])"

definition unreadableResponse :: ActionError where
  "unreadableResponse =
     action_error upstream_error [(''message'', DText ''the destination sent a WS-Management response vaultgate could not read'')]"

definition INTERNAL_FAULTS :: "string list" where
  "INTERNAL_FAULTS = [''EvalError'', ''RangeError'', ''ReferenceError'', ''SyntaxError'', ''TypeError'']"

fun thrown_name :: "Thrown \<Rightarrow> string" where
  "thrown_name (ThrownAction e) = ''ActionError''"
| "thrown_name (ThrownError code name message wrapped) = name"
| "thrown_name (ThrownOther s) = ''unknown''"

definition runFailure :: "Thrown \<Rightarrow> ActionError" where
  "runFailure t =
     (case t of
        ThrownAction e \<Rightarrow> e
      | _ \<Rightarrow>
        (if thrown_name t \<in> set INTERNAL_FAULTS
         then action_error connector_fault [(''reason'', DText ''internal''), (''message'', DText (messageOf t))]
         else action_error upstream_error [(''message'', DText (messageOf t))]))"

definition statusFailure :: "nat \<Rightarrow> ActionError" where
  "statusFailure n =
     (if n = UNAUTHORIZED then action_error authentication_failed []
      else action_error upstream_error [(''message'', DText (''the destination answered HTTP '' @ nat_text n))])"

section \<open>No value is markup\<close>

text \<open>The characters of a document that make its elements and attributes.\<close>

definition markup :: "string \<Rightarrow> string" where
  "markup s = filter (\<lambda>c. c = CHR ''<'' \<or> c = CHR ''>'' \<or> c = CHR 0x22 \<or> c = CHR 0x27) s"

lemma markup_append [simp]: "markup (s @ t) = markup s @ markup t"
  by (simp add: markup_def)

lemma markup_simps [simp]:
  "markup [] = []"
  "markup (c # s) = (if c = CHR ''<'' \<or> c = CHR ''>'' \<or> c = CHR 0x22 \<or> c = CHR 0x27 then c # markup s else markup s)"
  by (simp_all add: markup_def)

lemma replace_all_set: "c \<notin> set r \<Longrightarrow> c \<notin> set (replace_all c r s)"
  by (auto simp: replace_all_def split: if_splits)

lemma replace_all_other: "d \<notin> set r \<Longrightarrow> d \<notin> set s \<Longrightarrow> d \<notin> set (replace_all c r s)"
  by (auto simp: replace_all_def split: if_splits)

lemma escapeXml_clean:
  "CHR ''<'' \<notin> set (escapeXml s)" "CHR ''>'' \<notin> set (escapeXml s)" "CHR 0x22 \<notin> set (escapeXml s)" "CHR 0x27 \<notin> set (escapeXml s)"
  unfolding escapeXml_def by ((rule replace_all_set, simp) | (rule replace_all_other, simp))+

lemma markup_escape [simp]: "markup (escapeXml s) = []"
  using escapeXml_clean [of s] by (auto simp: markup_def filter_empty_conv)

lemma markup_base64 [simp]: "markup (base64 bs) = []"
proof -
  have "\<not> is_base64_char (CHR ''<'')" "\<not> is_base64_char (CHR ''>'')" "\<not> is_base64_char (CHR 0x22)" "\<not> is_base64_char (CHR 0x27)"
    by code_simp+
  moreover have "is_base64_char c \<or> c = CHR ''=''" if "c \<in> set (base64 bs)" for c
    using that base64_char_ok sextets_of_bytes_less [of bs] by (auto simp: base64_def Let_def)
  ultimately show ?thesis by (fastforce simp: markup_def filter_empty_conv)
qed

lemma markup_header:
  "eh_action i = eh_action j \<Longrightarrow> (eh_shellId i = None) = (eh_shellId j = None) \<Longrightarrow> eh_options i = eh_options j \<Longrightarrow>
     markup (header i) = markup (header j)"
  by (auto simp: header_def selectorSet_def split: option.splits)

lemma markup_envelope:
  "eh_action i = eh_action j \<Longrightarrow> (eh_shellId i = None) = (eh_shellId j = None) \<Longrightarrow> eh_options i = eh_options j \<Longrightarrow>
     markup body = markup body' \<Longrightarrow> markup (envelope i body) = markup (envelope j body')"
  using markup_header [of i j] by (simp add: envelope_def)

text \<open>
  C26: no value is markup: the command, the shell and command identifiers a destination chose, the
  URL and the standard input leave the elements and attributes of every envelope as they are, so
  none of them opens or closes a tag or ends an attribute.
\<close>

theorem values_are_not_markup:
  "markup (runCommand (r\<lparr>cr_url := u, cr_messageId := i, cr_shellId := s, cr_command := c\<rparr>)) = markup (runCommand r) \<and>
   markup (sendStdin \<lparr>sr_url = u, sr_messageId = i, sr_shellId = s, sr_commandId = d\<rparr> x) = markup (sendStdin q y) \<and>
   markup (receive \<lparr>sr_url = u, sr_messageId = i, sr_shellId = s, sr_commandId = d\<rparr>) = markup (receive q) \<and>
   markup (signalTerminate \<lparr>sr_url = u, sr_messageId = i, sr_shellId = s, sr_commandId = d\<rparr>) = markup (signalTerminate q) \<and>
   markup (deleteShell u i s) = markup (deleteShell v j t) \<and> markup (createShell u i) = markup (createShell v j)"
  unfolding runCommand_def sendStdin_def receive_def signalTerminate_def deleteShell_def createShell_def stream_header_def
  by (intro conjI markup_envelope) (simp_all add: commandLine_def quoted_def)

section \<open>The command arrives\<close>

text \<open>What PowerShell does with the argument of \<^verbatim>\<open>-EncodedCommand\<close>.\<close>

fun utf16le_decode :: "octets \<Rightarrow> string" where
  "utf16le_decode (a # b # rest) = (if b = 0 then char_of_octet a else STAND_IN) # utf16le_decode rest"
| "utf16le_decode bs = []"

lemma utf16le_decode_encode: "utf16le_decode (utf16le s) = s"
  by (induction s) (simp_all add: utf16le_def)

lemma encodedCommand_decoded: "utf16le_decode (latin1 (base64_decode (encodedCommand command))) = command"
  by (simp add: encodedCommand_def utf16le_decode_encode)

end
