(* ===== verification/WinrmClient.thy ===== *)
theory WinrmClient
  imports Wsman Command
begin

text \<open>
  The session of one \<^verbatim>\<open>winrm_run\<close> (\<^verbatim>\<open>winrm/client.ts\<close>, \<^verbatim>\<open>run.ts\<close>): the shell is created, the command
  started and given its input, the output polled until it is done, and the shell deleted.

  The transport is the interface \<^verbatim>\<open>WinrmTransport\<close>, over a state of its own; what a session asks of it
  is recorded in \<open>ws_asked\<close>. Time is counted in exchanges: the signal of the call is aborted once
  \<open>wire_deadline\<close> of them have been made, and an exchange under an aborted signal is not sent. The
  polling loop ends because of it.
\<close>

section \<open>The wire\<close>

record SoapAnswer =
  soap_text :: string
  soap_status :: nat

text \<open>The flag of \<open>send\<close> says that the exchange has the deadline of the clean-up, not of the call.\<close>

record 't Transport =
  send :: "string \<Rightarrow> bool \<Rightarrow> 't \<Rightarrow> (Thrown + SoapAnswer) \<times> 't"
  release :: "'t \<Rightarrow> 't"

record 't Wire =
  wire_transport :: "'t Transport"
  wire_url :: string
  wire_shell :: WinrmShell
  wire_deadline :: nat
  wire_ids :: "nat \<Rightarrow> string"

datatype Asked = AskedSend string bool | AskedRelease

record 't WireState =
  ws_transport :: 't
  ws_asked :: "Asked list"
  ws_ids :: nat
  ws_clock :: nat

text \<open>What throws an \<^verbatim>\<open>ActionError\<close>, over the state of the wire.\<close>

type_synonym ('t, 'a) Step = "'t WireState \<Rightarrow> ('a, ActionError) result \<times> 't WireState"

definition step_then :: "('t, 'a) Step \<Rightarrow> ('a \<Rightarrow> ('t, 'b) Step) \<Rightarrow> ('t, 'b) Step" where
  "step_then m f st = (case m st of (Inl e, st') \<Rightarrow> (fail e, st') | (Inr v, st') \<Rightarrow> f v st')"

definition from_xml :: "'a Xml \<Rightarrow> ('t, 'a) Step" where
  "from_xml r st = (case r of Inl _ \<Rightarrow> fail unreadableResponse | Inr v \<Rightarrow> ok v, st)"

definition aborted :: "'t Wire \<Rightarrow> 't WireState \<Rightarrow> bool" where
  "aborted W st \<longleftrightarrow> wire_deadline W \<le> ws_clock st"

definition next_id :: "'t Wire \<Rightarrow> 't WireState \<Rightarrow> string \<times> 't WireState" where
  "next_id W st = (wire_ids W (ws_ids st), st\<lparr>ws_ids := Suc (ws_ids st)\<rparr>)"

definition ABORT :: Thrown where
  "ABORT = ThrownError (Some ''ABORT_ERR'') ''AbortError'' ''The operation was aborted'' None"

record Answer =
  answer_envelope :: XmlElement
  answer_status :: nat

text \<open>\<^verbatim>\<open>post\<close>.\<close>

definition wire_post :: "'t Wire \<Rightarrow> string \<Rightarrow> bool \<Rightarrow> ('t, Answer) Step" where
  "wire_post W body cleanup st =
     (if \<not> cleanup \<and> aborted W st then (fail (winrm_transportFailure ABORT True), st)
      else
       (case send (wire_transport W) body cleanup (ws_transport st) of (r, t) \<Rightarrow>
         (let st' = st\<lparr>ws_transport := t, ws_asked := ws_asked st @ [AskedSend body cleanup], ws_clock := Suc (ws_clock st)\<rparr> in
          (case r of
             Inl thrown \<Rightarrow> (fail (winrm_transportFailure thrown (\<not> cleanup \<and> aborted W st')), st')
           | Inr a \<Rightarrow>
             (case parseXml (soap_text a) of
                Inl _ \<Rightarrow> (fail unreadableResponse, st')
              | Inr e \<Rightarrow> (ok \<lparr>answer_envelope = e, answer_status = soap_status a\<rparr>, st'))))))"

text \<open>\<^verbatim>\<open>call\<close>: an exchange that has to succeed.\<close>

definition wire_call :: "'t Wire \<Rightarrow> string \<Rightarrow> bool \<Rightarrow> ('t, XmlElement) Step" where
  "wire_call W body cleanup =
     step_then (wire_post W body cleanup) (\<lambda>a st.
       (case faultOf (answer_envelope a) of
          Some f \<Rightarrow> (fail (faultFailure f), st)
        | None \<Rightarrow>
          (if answer_status a \<noteq> OK_STATUS then (fail (statusFailure (answer_status a)), st)
           else (ok (answer_envelope a), st))))"

definition streamPlan :: "'t Wire \<Rightarrow> string \<Rightarrow> string \<Rightarrow> 't WireState \<Rightarrow> StreamRequest \<times> 't WireState" where
  "streamPlan W shellId commandId st =
     (case next_id W st of (i, st') \<Rightarrow>
       (\<lparr>sr_url = wire_url W, sr_messageId = i, sr_shellId = shellId, sr_commandId = commandId\<rparr>, st'))"

text \<open>\<^verbatim>\<open>receiveOnce\<close>: \<open>None\<close> asks again.\<close>

definition receiveOnce :: "'t Wire \<Rightarrow> StreamRequest \<Rightarrow> ('t, Received option) Step" where
  "receiveOnce W plan =
     step_then (wire_post W (receive plan) False) (\<lambda>a st.
       (case faultOf (answer_envelope a) of
          Some f \<Rightarrow> (if subcode f = TIMED_OUT then ok None else fail (faultFailure f), st)
        | None \<Rightarrow>
          (if answer_status a \<noteq> OK_STATUS then (fail (statusFailure (answer_status a)), st)
           else step_then (from_xml (receivedOf (answer_envelope a))) (\<lambda>r st'. (ok (Some r), st')) st)))"

record WinrmResult =
  wr_exitCode :: "int option"
  wr_stdout :: bytes
  wr_stderr :: bytes
  wr_truncated :: bool

definition resultOf :: "Received \<Rightarrow> Capture \<Rightarrow> Capture \<Rightarrow> WinrmResult" where
  "resultOf received out err =
     \<lparr>wr_exitCode = exitCode received, wr_stdout = capture_bytes out, wr_stderr = capture_bytes err,
      wr_truncated = (capture_cut out \<or> capture_cut err)\<rparr>"

text \<open>The streams of one answer, each into its capture.\<close>

definition add_stream :: "ReceivedStream \<Rightarrow> Capture \<times> Capture \<Rightarrow> Capture \<times> Capture" where
  "add_stream s c =
     (case c of (out, err) \<Rightarrow>
       if stream_name s = ''stderr'' then (out, capture_add err (stream_bytes s)) else (capture_add out (stream_bytes s), err))"

lemma wire_post_clock: "wire_post W body cleanup st = (r, st') \<Longrightarrow> cleanup \<or> \<not> aborted W st \<Longrightarrow> ws_clock st' = Suc (ws_clock st)"
  by (auto simp: wire_post_def Let_def split: if_splits prod.splits sum.splits)

lemma receiveOnce_clock: "receiveOnce W plan st = (r, st') \<Longrightarrow> \<not> aborted W st \<Longrightarrow> ws_clock st' = Suc (ws_clock st)"
  using wire_post_clock [of W "receive plan" False st]
  by (auto simp: receiveOnce_def step_then_def from_xml_def split: prod.splits sum.splits option.splits if_splits)

lemma streamPlan_clock: "streamPlan W s c st = (plan, st') \<Longrightarrow> ws_clock st' = ws_clock st"
  by (auto simp: streamPlan_def next_id_def)

lemma round_closer:
  assumes "\<not> aborted W st" "streamPlan W shellId commandId st = (plan, st1)" "receiveOnce W plan st1 = (r, st2)"
  shows "wire_deadline W - ws_clock st2 < wire_deadline W - ws_clock st"
proof -
  have "ws_clock st1 = ws_clock st" using assms(2) by (rule streamPlan_clock)
  then have "ws_clock st2 = Suc (ws_clock st)" using receiveOnce_clock [OF assms(3)] assms(1) by (simp add: aborted_def)
  with assms(1) show ?thesis by (simp add: aborted_def)
qed

text \<open>\<^verbatim>\<open>collect\<close>: each round makes one exchange, so the deadline is one closer.\<close>

function collect :: "'t Wire \<Rightarrow> string \<Rightarrow> string \<Rightarrow> Capture \<times> Capture \<Rightarrow> ('t, WinrmResult) Step" where
  "collect W shellId commandId c st =
     (if aborted W st then (fail (action_error timeout []), st)
      else
       (case streamPlan W shellId commandId st of (plan, st1) \<Rightarrow>
         (case receiveOnce W plan st1 of
            (Inl e, st2) \<Rightarrow> (fail e, st2)
          | (Inr None, st2) \<Rightarrow> collect W shellId commandId c st2
          | (Inr (Some received), st2) \<Rightarrow>
            (let c' = fold add_stream (streams received) c in
             if isDone received then (ok (resultOf received (fst c') (snd c')), st2)
             else collect W shellId commandId c' st2))))"
  by pat_completeness auto

termination
  by (relation "measure (\<lambda>(W, shellId, commandId, c, st). wire_deadline W - ws_clock st)")
    (auto intro: round_closer [OF _ sym sym])

declare collect.simps [simp del]

section \<open>The session\<close>

text \<open>\<^verbatim>\<open>terminate\<close>: whatever comes of it, the failure of the call stands.\<close>

definition terminate :: "'t Wire \<Rightarrow> StreamRequest \<Rightarrow> 't WireState \<Rightarrow> 't WireState" where
  "terminate W plan st = snd (wire_call W (signalTerminate plan) True st)"

record WinrmCommand =
  wc_command :: string
  wc_stdin :: "string option"
  wc_captureBytes :: nat

definition collect_or_terminate :: "'t Wire \<Rightarrow> string \<Rightarrow> string \<Rightarrow> nat \<Rightarrow> ('t, WinrmResult) Step" where
  "collect_or_terminate W shellId commandId n st =
     (case collect W shellId commandId (new_Capture n, new_Capture n) st of
        (Inr r, st1) \<Rightarrow> (ok r, st1)
      | (Inl e, st1) \<Rightarrow>
        (case streamPlan W shellId commandId st1 of (plan, st2) \<Rightarrow> (fail e, terminate W plan st2)))"

definition session_run :: "'t Wire \<Rightarrow> string \<Rightarrow> WinrmCommand \<Rightarrow> ('t, WinrmResult) Step" where
  "session_run W shellId request st =
     (case next_id W st of (i, st0) \<Rightarrow>
       step_then (wire_call W (runCommand
         \<lparr>cr_url = wire_url W, cr_messageId = i, cr_shellId = shellId, cr_command = wc_command request, cr_shell = wire_shell W\<rparr>) False)
       (\<lambda>started. step_then (from_xml (commandIdOf started))
       (\<lambda>commandId st2.
         (case wc_stdin request of
            None \<Rightarrow> collect_or_terminate W shellId commandId (wc_captureBytes request) st2
          | Some given \<Rightarrow>
            (case streamPlan W shellId commandId st2 of (plan, st3) \<Rightarrow>
              step_then (wire_call W (sendStdin plan given) False)
                (\<lambda>_. collect_or_terminate W shellId commandId (wc_captureBytes request)) st3)))) st0)"

definition wire_release :: "'t Wire \<Rightarrow> 't WireState \<Rightarrow> 't WireState" where
  "wire_release W st =
     st\<lparr>ws_transport := release (wire_transport W) (ws_transport st), ws_asked := ws_asked st @ [AskedRelease]\<rparr>"

definition session_close :: "'t Wire \<Rightarrow> string \<Rightarrow> ('t, unit) Step" where
  "session_close W shellId st =
     (case next_id W st of (i, st1) \<Rightarrow>
       (case wire_call W (deleteShell (wire_url W) i shellId) True st1 of
          (Inl e, st2) \<Rightarrow> (fail e, wire_release W st2)
        | (Inr _, st2) \<Rightarrow> (ok (), wire_release W st2)))"

text \<open>\<^verbatim>\<open>winrmSessionOver\<close>: the identifier of the shell is the session.\<close>

definition winrm_open :: "'t Wire \<Rightarrow> ('t, string) Step" where
  "winrm_open W st =
     (case next_id W st of (i, st1) \<Rightarrow>
       (case step_then (wire_call W (createShell (wire_url W) i) False) (\<lambda>created. from_xml (shellIdOf created)) st1 of
          (Inl e, st2) \<Rightarrow> (fail e, wire_release W st2)
        | (Inr shellId, st2) \<Rightarrow> (ok shellId, st2)))"

section \<open>One call\<close>

text \<open>
  \<^verbatim>\<open>createRun\<close> after its preparation: a shell that does not delete is logged, and the text of the
  log line is what comes out beside the result.
\<close>

definition winrm_exchange :: "'t Wire \<Rightarrow> WinrmCommand \<Rightarrow> 't WireState \<Rightarrow> (WinrmResult, ActionError) result \<times> string list \<times> 't WireState" where
  "winrm_exchange W request st =
     (case winrm_open W st of
        (Inl e, st1) \<Rightarrow> (fail (runFailure (ThrownAction e)), [], st1)
      | (Inr shellId, st1) \<Rightarrow>
        (case session_run W shellId request st1 of (r, st2) \<Rightarrow>
          (case session_close W shellId st2 of (closed, st3) \<Rightarrow>
            ((case r of Inl e \<Rightarrow> fail (runFailure (ThrownAction e)) | Inr v \<Rightarrow> ok v),
             (case closed of Inl e \<Rightarrow> [reasonOf (ThrownAction e)] | Inr _ \<Rightarrow> []), st3))))"

record WinrmDestination =
  wd_url :: string
  wd_username :: string
  wd_shell :: WinrmShell

record WinrmRunContext =
  wx_pinned :: "PinnedEndpoint list"
  wx_injected :: InjectedValues
  wx_destination :: WinrmDestination
  wx_password_field :: string
  wx_limit :: OutputLimit

record WinrmConnection =
  wn_url :: string
  wn_address :: string
  wn_username :: string
  wn_password :: string
  wn_shell :: WinrmShell

text \<open>\<^verbatim>\<open>prepare\<close>: every refusal here happens with nothing open.\<close>

definition winrm_prepare :: "WinrmRunContext \<Rightarrow> (WinrmConnection, ActionError) result" where
  "winrm_prepare context =
     (case wx_pinned context of
        [] \<Rightarrow> fail (action_error destination_refused [(''reason'', DText ''unpinned'')])
      | endpoint # _ \<Rightarrow>
        (case injected_value (wx_injected context) (wx_password_field context) of
           None \<Rightarrow> fail (action_error credential_unavailable [])
         | Some password \<Rightarrow>
           ok \<lparr>wn_url = wd_url (wx_destination context), wn_address = pinned_address endpoint,
               wn_username = wd_username (wx_destination context), wn_password = password,
               wn_shell = wd_shell (wx_destination context)\<rparr>))"

text \<open>The factory makes a wire of a connection; the log lines are scrubbed.\<close>

definition winrm_run ::
  "(WinrmConnection \<Rightarrow> 't Wire) \<Rightarrow> (string \<Rightarrow> string) \<Rightarrow> WinrmRunContext \<Rightarrow> CommandOperation \<Rightarrow> 't WireState
   \<Rightarrow> (WinrmResult, ActionError) result \<times> string list \<times> 't WireState" where
  "winrm_run open_wire scrub context operation st =
     (case winrm_prepare context of
        Inl e \<Rightarrow> (fail e, [], st)
      | Inr connection \<Rightarrow>
        (case winrm_exchange (open_wire connection)
           \<lparr>wc_command = command operation, wc_stdin = stdin operation,
            wc_captureBytes = limit_bytes (wx_limit context) + limit_guard (wx_limit context)\<rparr> st of
           (r, logged, st') \<Rightarrow> (r, map scrub logged, st')))"

end
