(* ===== verification/WinrmSafety.thy ===== *)
theory WinrmSafety
  imports WinrmClient
begin

text \<open>
  What a session asks of its transport, whatever the destination answers: the order of the exchanges,
  how many there are, and that the shell is deleted.
\<close>

section \<open>What each operation asks\<close>

text \<open>
  Of one exchange, from the transport alone: the state it leaves, and the document it answers, when it is
  an answer the session can go on from.
\<close>

definition moved :: "'t Wire \<Rightarrow> string \<Rightarrow> bool \<Rightarrow> 't \<Rightarrow> 't" where
  "moved W body cleanup t = snd (send (wire_transport W) body cleanup t)"

definition understood :: "'t Wire \<Rightarrow> string \<Rightarrow> bool \<Rightarrow> 't \<Rightarrow> XmlElement option" where
  "understood W body cleanup t =
     (case fst (send (wire_transport W) body cleanup t) of
        Inl _ \<Rightarrow> None
      | Inr a \<Rightarrow>
        (case parseXml (soap_text a) of
           Inl _ \<Rightarrow> None
         | Inr e \<Rightarrow> (if faultOf e = None \<and> soap_status a = 200 then Some e else None)))"

lemma wire_post_asked:
  "wire_post W body cleanup st = (r, st') \<Longrightarrow>
     ws_asked st' = ws_asked st @ (if \<not> cleanup \<and> aborted W st then [] else [AskedSend body cleanup]) \<and>
     ws_clock st' = ws_clock st + (if \<not> cleanup \<and> aborted W st then 0 else 1) \<and>
     (\<not> cleanup \<and> aborted W st \<longrightarrow> r = fail (action_error timeout []))"
  by (auto simp: wire_post_def winrm_transportFailure_def ABORT_def Let_def split: if_splits prod.splits sum.splits)

lemma wire_call_asked:
  "wire_call W body cleanup st = (r, st') \<Longrightarrow>
     ws_asked st' = ws_asked st @ (if \<not> cleanup \<and> aborted W st then [] else [AskedSend body cleanup]) \<and>
     ws_clock st' = ws_clock st + (if \<not> cleanup \<and> aborted W st then 0 else 1) \<and>
     (\<not> cleanup \<and> aborted W st \<longrightarrow> r = fail (action_error timeout []))"
  using wire_post_asked [of W body cleanup st]
  by (auto simp: wire_call_def step_then_def ok_def fail_def split: prod.splits sum.splits option.splits if_splits)

lemma wire_call_answered:
  "wire_call W body cleanup st = (r, st') \<Longrightarrow> cleanup \<or> \<not> aborted W st \<Longrightarrow>
     ws_transport st' = moved W body cleanup (ws_transport st) \<and> ws_ids st' = ws_ids st \<and>
     (case understood W body cleanup (ws_transport st) of None \<Rightarrow> isl r | Some e \<Rightarrow> r = Inr e)"
  by (auto simp: wire_call_def wire_post_def step_then_def moved_def understood_def OK_STATUS_def ok_def fail_def Let_def
      split: prod.splits sum.splits option.splits if_splits)

lemma receiveOnce_asked:
  "receiveOnce W plan st = (r, st') \<Longrightarrow> \<not> aborted W st \<Longrightarrow>
     ws_asked st' = ws_asked st @ [AskedSend (receive plan) False] \<and> ws_clock st' = Suc (ws_clock st)"
proof -
  assume run: "receiveOnce W plan st = (r, st')" and live: "\<not> aborted W st"
  obtain a st1 where a: "wire_post W (receive plan) False st = (a, st1)" by (cases "wire_post W (receive plan) False st")
  have "st' = st1" using run
    by (cases a) (auto simp: receiveOnce_def step_then_def a from_xml_def split: option.splits sum.splits if_splits)
  with wire_post_asked [OF a] live show ?thesis by simp
qed

lemma next_id_asked: "next_id W st = (i, st') \<Longrightarrow> ws_asked st' = ws_asked st \<and> ws_clock st' = ws_clock st"
  by (auto simp: next_id_def)

lemma streamPlan_asked:
  "streamPlan W shellId commandId st = (plan, st') \<Longrightarrow>
     ws_asked st' = ws_asked st \<and> ws_clock st' = ws_clock st \<and> sr_shellId plan = shellId \<and> sr_commandId plan = commandId"
  by (auto simp: streamPlan_def next_id_def)

definition polls :: "string \<Rightarrow> string \<Rightarrow> Asked list \<Rightarrow> bool" where
  "polls shellId commandId asked \<longleftrightarrow>
     (\<forall>x \<in> set asked. \<exists>p. x = AskedSend (receive p) False \<and> sr_shellId p = shellId \<and> sr_commandId p = commandId)"

lemma collect_asked:
  "collect W shellId commandId c st = (r, st') \<Longrightarrow>
     \<exists>asked. ws_asked st' = ws_asked st @ asked \<and> polls shellId commandId asked \<and>
       ws_clock st' = ws_clock st + length asked \<and> ws_clock st' \<le> max (wire_deadline W) (ws_clock st)"
proof (induction W shellId commandId c st rule: collect.induct)
  case (1 W shellId commandId c st)
  show ?case
  proof (cases "aborted W st")
    case True
    with "1.prems" show ?thesis by (intro exI [of _ "[]"]) (simp add: collect.simps polls_def)
  next
    case False
    obtain plan st1 where plan: "streamPlan W shellId commandId st = (plan, st1)" by (cases "streamPlan W shellId commandId st")
    obtain a st2 where a: "receiveOnce W plan st1 = (a, st2)" by (cases "receiveOnce W plan st1")
    have "\<not> aborted W st1" using False streamPlan_asked [OF plan] by (simp add: aborted_def)
    note asked = streamPlan_asked [OF plan] receiveOnce_asked [OF a this]
    have one: "ws_asked st2 = ws_asked st @ [AskedSend (receive plan) False]" "ws_clock st2 = Suc (ws_clock st)"
      "polls shellId commandId [AskedSend (receive plan) False]" "ws_clock st2 \<le> wire_deadline W"
      using asked False by (auto simp: polls_def aborted_def)
    have more: ?thesis if ended: "\<exists>asked. ws_asked st' = ws_asked st2 @ asked \<and> polls shellId commandId asked \<and>
        ws_clock st' = ws_clock st2 + length asked \<and> ws_clock st' \<le> max (wire_deadline W) (ws_clock st2)"
    proof -
      from ended obtain more where "ws_asked st' = ws_asked st2 @ more" "polls shellId commandId more"
        "ws_clock st' = ws_clock st2 + length more" "ws_clock st' \<le> max (wire_deadline W) (ws_clock st2)" by blast
      with one show ?thesis by (intro exI [of _ "AskedSend (receive plan) False # more"]) (auto simp: polls_def)
    qed
    show ?thesis
    proof (cases a)
      case (Inl e)
      with "1.prems" False plan a have "st' = st2" by (simp add: collect.simps)
      then show ?thesis by (intro more exI [of _ "[]"]) (simp add: polls_def)
    next
      case (Inr answer)
      show ?thesis
      proof (cases answer)
        case None
        with "1.prems" False plan a Inr have "collect W shellId commandId c st2 = (r, st')" by (simp add: collect.simps [of W shellId commandId c st])
        from "1.IH"(1) [OF False plan [symmetric] a [symmetric] Inr None this] show ?thesis by (rule more)
      next
        case (Some received)
        show ?thesis
        proof (cases "isDone received")
          case True
          with "1.prems" False plan a Inr Some have "st' = st2" by (simp add: collect.simps Let_def)
          then show ?thesis by (intro more exI [of _ "[]"]) (simp add: polls_def)
        next
          case False
          with "1.prems" \<open>\<not> aborted W st\<close> plan a Inr Some
          have "collect W shellId commandId (fold add_stream (streams received) c) st2 = (r, st')"
            by (simp add: collect.simps [of W shellId commandId c st] Let_def)
          from "1.IH"(2) [OF \<open>\<not> aborted W st\<close> plan [symmetric] a [symmetric] Inr Some refl False this] show ?thesis by (rule more)
        qed
      qed
    qed
  qed
qed

section \<open>The trace of a session\<close>

text \<open>
  What a session has to ask once it has its shell, from the answers of the destination alone (\<open>t\<close> the
  state of the transport, \<open>n\<close> the identifiers used, \<open>clock\<close> the exchanges made): the command, unless
  the deadline has passed; nothing more when its answer names no command; the input, unless the
  deadline has passed; nothing more when the input is not taken; then the polls, and a signal under the
  same shell and the same command exactly when the polling failed.
\<close>

definition signalled :: "string \<Rightarrow> string \<Rightarrow> Asked list \<Rightarrow> bool" where
  "signalled shellId commandId xs \<longleftrightarrow>
     (\<exists>p. xs = [AskedSend (signalTerminate p) True] \<and> sr_shellId p = shellId \<and> sr_commandId p = commandId)"

definition polled :: "string \<Rightarrow> string \<Rightarrow> bool \<Rightarrow> Asked list \<Rightarrow> bool" where
  "polled shellId commandId succeeded xs \<longleftrightarrow>
     (\<exists>ps ended. xs = ps @ ended \<and> polls shellId commandId ps \<and>
        (if succeeded then ps \<noteq> [] \<and> ended = [] else signalled shellId commandId ended))"

definition command_started :: "'t Wire \<Rightarrow> string \<Rightarrow> 't \<Rightarrow> string option" where
  "command_started W start t =
     (case understood W start False t of
        None \<Rightarrow> None
      | Some e \<Rightarrow> (case commandIdOf e of Inl _ \<Rightarrow> None | Inr commandId \<Rightarrow> Some commandId))"

definition session_trace :: "'t Wire \<Rightarrow> WinrmCommand \<Rightarrow> string \<Rightarrow> bool \<Rightarrow> 't \<Rightarrow> nat \<Rightarrow> nat \<Rightarrow> Asked list \<Rightarrow> bool" where
  "session_trace W request shellId succeeded t n clock xs \<longleftrightarrow>
     (let start = runCommand \<lparr>cr_url = wire_url W, cr_messageId = wire_ids W n, cr_shellId = shellId,
            cr_command = wc_command request, cr_shell = wire_shell W\<rparr>
      in if wire_deadline W \<le> clock then xs = [] \<and> \<not> succeeded
      else
       (case command_started W start t of
          None \<Rightarrow> xs = [AskedSend start False] \<and> \<not> succeeded
        | Some commandId \<Rightarrow>
          (case wc_stdin request of
             None \<Rightarrow> \<exists>ys. xs = AskedSend start False # ys \<and> polled shellId commandId succeeded ys
           | Some given \<Rightarrow>
             (let feed = sendStdin \<lparr>sr_url = wire_url W, sr_messageId = wire_ids W (Suc n), sr_shellId = shellId,
                    sr_commandId = commandId\<rparr> given
              in if wire_deadline W \<le> Suc clock then xs = [AskedSend start False] \<and> \<not> succeeded
              else
               (case understood W feed False (moved W start False t) of
                  None \<Rightarrow> xs = [AskedSend start False, AskedSend feed False] \<and> \<not> succeeded
                | Some _ \<Rightarrow> \<exists>ys. xs = AskedSend start False # AskedSend feed False # ys \<and> polled shellId commandId succeeded ys)))))"

text \<open>The shell the destination gave, from its answer to the first envelope.\<close>

definition shell_given :: "'t Wire \<Rightarrow> 't WireState \<Rightarrow> string option" where
  "shell_given W st =
     (if aborted W st then None
      else
       (case understood W (createShell (wire_url W) (wire_ids W (ws_ids st))) False (ws_transport st) of
          None \<Rightarrow> None
        | Some e \<Rightarrow> (case shellIdOf e of Inl _ \<Rightarrow> None | Inr shellId \<Rightarrow> Some shellId)))"

lemma terminate_asked: "ws_asked (terminate W plan st) = ws_asked st @ [AskedSend (signalTerminate plan) True] \<and>
    ws_clock (terminate W plan st) = Suc (ws_clock st)"
  using wire_call_asked [of W "signalTerminate plan" True st] by (cases "wire_call W (signalTerminate plan) True st") (simp add: terminate_def)

lemma collect_done: "collect W shellId commandId c st = (Inr v, st') \<Longrightarrow> ws_asked st' \<noteq> ws_asked st"
proof -
  assume run: "collect W shellId commandId c st = (Inr v, st')"
  obtain plan st1 where plan: "streamPlan W shellId commandId st = (plan, st1)" by (cases "streamPlan W shellId commandId st")
  obtain a st2 where a: "receiveOnce W plan st1 = (a, st2)" by (cases "receiveOnce W plan st1")
  have live: "\<not> aborted W st" using run by (auto simp: collect.simps [of W shellId commandId c st] fail_def)
  then have "\<not> aborted W st1" using streamPlan_asked [OF plan] by (simp add: aborted_def)
  then have one: "ws_asked st2 = ws_asked st @ [AskedSend (receive plan) False]"
    using receiveOnce_asked [OF a] streamPlan_asked [OF plan] by simp
  have "\<exists>c'. collect W shellId commandId c' st2 = (Inr v, st') \<or> st' = st2"
    using run live plan a
    by (auto simp: collect.simps [of W shellId commandId c st] Let_def fail_def ok_def simp del: split_paired_Ex
        split: sum.splits option.splits if_splits)
  then have "\<exists>more. ws_asked st' = ws_asked st2 @ more" using collect_asked by fastforce
  with one show ?thesis by auto
qed

lemma collect_or_terminate_asked:
  assumes "collect_or_terminate W shellId commandId n st = (r, st')"
  shows "\<exists>xs. ws_asked st' = ws_asked st @ xs \<and> polled shellId commandId (\<not> isl r) xs \<and>
    length xs + ws_clock st \<le> Suc (max (wire_deadline W) (ws_clock st))"
proof -
  obtain a st1 where a: "collect W shellId commandId (new_Capture n, new_Capture n) st = (a, st1)"
    by (cases "collect W shellId commandId (new_Capture n, new_Capture n) st")
  from collect_asked [OF a] obtain ps where ps: "ws_asked st1 = ws_asked st @ ps" "polls shellId commandId ps"
    "ws_clock st1 = ws_clock st + length ps" "ws_clock st1 \<le> max (wire_deadline W) (ws_clock st)" by blast
  show ?thesis
  proof (cases a)
    case (Inr v)
    with assms a have "r = ok v" "st' = st1" by (simp_all add: collect_or_terminate_def)
    moreover have "ps \<noteq> []" using collect_done a ps(1) Inr by fastforce
    ultimately show ?thesis using ps by (intro exI [of _ ps]) (auto simp: polled_def)
  next
    case (Inl e)
    obtain plan st2 where plan: "streamPlan W shellId commandId st1 = (plan, st2)" by (cases "streamPlan W shellId commandId st1")
    with assms a Inl have r: "r = fail e" "st' = terminate W plan st2" by (simp_all add: collect_or_terminate_def)
    have "ws_asked st' = ws_asked st @ ps @ [AskedSend (signalTerminate plan) True]"
      using terminate_asked [of W plan st2] streamPlan_asked [OF plan] ps(1) r(2) by simp
    moreover have "polled shellId commandId (\<not> isl r) (ps @ [AskedSend (signalTerminate plan) True])"
      using ps(2) r(1) streamPlan_asked [OF plan] by (auto simp: polled_def signalled_def)
    ultimately show ?thesis using ps(3,4) by (intro exI [of _ "ps @ [AskedSend (signalTerminate plan) True]"]) simp
  qed
qed

lemma step_then_cases:
  assumes "step_then m f st = (r, st')"
  obtains (failed) e where "m st = (Inl e, st')" "r = fail e"
    | (went_on) v st1 where "m st = (Inr v, st1)" "f v st1 = (r, st')"
  using assms by (auto simp: step_then_def split: prod.splits sum.splits)

text \<open>What was asked, and how many exchanges of it the deadline of the call had room for.\<close>

lemma session_run_asked:
  assumes "session_run W shellId request st = (r, st')"
  shows "\<exists>xs. ws_asked st' = ws_asked st @ xs \<and>
    session_trace W request shellId (\<not> isl r) (ws_transport st) (ws_ids st) (ws_clock st) xs \<and>
    length xs \<le> Suc (wire_deadline W - ws_clock st)"
proof -
  define st0 where "st0 = st\<lparr>ws_ids := Suc (ws_ids st)\<rparr>"
  define start where "start = runCommand \<lparr>cr_url = wire_url W, cr_messageId = wire_ids W (ws_ids st), cr_shellId = shellId,
      cr_command = wc_command request, cr_shell = wire_shell W\<rparr>"
  note trace = session_trace_def [of W request shellId _ _ "ws_ids st", folded start_def]
  obtain a st1 where a: "wire_call W start False st0 = (a, st1)" by (cases "wire_call W start False st0")
  show ?thesis
  proof (cases "aborted W st")
    case True
    then have "aborted W st0" by (simp add: aborted_def st0_def)
    with wire_call_asked [OF a] have "a = fail (action_error timeout [])" "ws_asked st1 = ws_asked st" by (simp_all add: st0_def)
    with assms a True show ?thesis
      by (auto simp: session_run_def next_id_def step_then_def trace aborted_def fail_def simp flip: start_def st0_def)
  next
    case False
    then have live: "\<not> aborted W st0" "\<not> wire_deadline W \<le> ws_clock st" by (simp_all add: aborted_def st0_def)
    note call = wire_call_asked [OF a] wire_call_answered [OF a, OF disjI2, OF live(1)]
    have st1: "ws_asked st1 = ws_asked st @ [AskedSend start False]" "ws_clock st1 = Suc (ws_clock st)"
      "ws_transport st1 = moved W start False (ws_transport st)" "ws_ids st1 = Suc (ws_ids st)"
      using call live by (simp_all add: st0_def)
    show ?thesis
    proof (cases "command_started W start (ws_transport st)")
      case None
      then have "st' = st1 \<and> isl r" using assms a call
        by (auto simp: session_run_def next_id_def step_then_def command_started_def st0_def from_xml_def fail_def
            simp flip: start_def split: option.splits sum.splits)
      with None st1 live show ?thesis by (intro exI [of _ "[AskedSend start False]"]) (auto simp: trace Let_def)
    next
      case (Some commandId)
      then obtain e where e: "a = Inr e" "commandIdOf e = Inr commandId" using call
        by (auto simp: command_started_def st0_def split: option.splits sum.splits)
      show ?thesis
      proof (cases "wc_stdin request")
        case None
        with assms a e have c: "collect_or_terminate W shellId commandId (wc_captureBytes request) st1 = (r, st')"
          by (simp add: session_run_def next_id_def step_then_def from_xml_def st0_def ok_def flip: start_def)
        from collect_or_terminate_asked [OF c] obtain ys where "ws_asked st' = ws_asked st1 @ ys" "polled shellId commandId (\<not> isl r) ys"
          "length ys + ws_clock st1 \<le> Suc (max (wire_deadline W) (ws_clock st1))" by blast
        with st1 live Some None show ?thesis
          by (intro exI [of _ "AskedSend start False # ys"]) (auto simp: trace Let_def)
      next
        case (Some given)
        note stdin = this
        define feed where "feed = sendStdin \<lparr>sr_url = wire_url W, sr_messageId = wire_ids W (Suc (ws_ids st)), sr_shellId = shellId,
            sr_commandId = commandId\<rparr> given"
        define st3 where "st3 = st1\<lparr>ws_ids := Suc (Suc (ws_ids st))\<rparr>"
        obtain b st4 where b: "wire_call W feed False st3 = (b, st4)" by (cases "wire_call W feed False st3")
        from assms a e stdin st1(4) have run: "(case b of Inl x \<Rightarrow> (fail x, st4)
            | Inr _ \<Rightarrow> collect_or_terminate W shellId commandId (wc_captureBytes request) st4) = (r, st')"
          by (simp add: session_run_def next_id_def step_then_def from_xml_def st0_def ok_def streamPlan_def b
              flip: start_def feed_def st3_def split: sum.splits)
        have st3: "ws_asked st3 = ws_asked st1" "ws_clock st3 = ws_clock st1" "ws_transport st3 = ws_transport st1"
          "aborted W st3 \<longleftrightarrow> wire_deadline W \<le> Suc (ws_clock st)" using st1(2) by (simp_all add: st3_def aborted_def)
        note traced = trace Let_def \<open>command_started W start (ws_transport st) = Some commandId\<close> stdin feed_def [symmetric]
        show ?thesis
        proof (cases "aborted W st3")
          case True
          with wire_call_asked [OF b] st3 have "b = fail (action_error timeout [])" "ws_asked st4 = ws_asked st1" by simp_all
          with run True st3 st1 live show ?thesis
            by (intro exI [of _ "[AskedSend start False]"]) (auto simp: traced fail_def)
        next
          case False
          note fed = wire_call_asked [OF b] wire_call_answered [OF b, OF disjI2, OF False]
          have st4: "ws_asked st4 = ws_asked st @ [AskedSend start False, AskedSend feed False]" "ws_clock st4 = Suc (Suc (ws_clock st))"
            using fed st3 st1 False by simp_all
          show ?thesis
          proof (cases "understood W feed False (moved W start False (ws_transport st))")
            case None
            then have "isl b" using fed st3 st1 by simp
            with run have "st' = st4" "isl r" by (auto simp: fail_def split: sum.splits)
            with None False st3 st4 st1 live show ?thesis
              by (intro exI [of _ "[AskedSend start False, AskedSend feed False]"]) (auto simp: traced)
          next
            case (Some u)
            then have "b = Inr u" using fed st3 st1 by simp
            with run have "collect_or_terminate W shellId commandId (wc_captureBytes request) st4 = (r, st')" by simp
            from collect_or_terminate_asked [OF this] obtain ys where "ws_asked st' = ws_asked st4 @ ys" "polled shellId commandId (\<not> isl r) ys"
              "length ys + ws_clock st4 \<le> Suc (max (wire_deadline W) (ws_clock st4))" by blast
            with Some False st3 st4 live show ?thesis
              by (intro exI [of _ "AskedSend start False # AskedSend feed False # ys"]) (auto simp: traced)
          qed
        qed
      qed
    qed
  qed
qed

lemma session_close_asked:
  assumes "session_close W shellId st = (r, st')"
  shows "\<exists>j. ws_asked st' = ws_asked st @ [AskedSend (deleteShell (wire_url W) j shellId) True, AskedRelease]"
proof -
  obtain j st1 where j: "next_id W st = (j, st1)" by (cases "next_id W st")
  obtain a st2 where a: "wire_call W (deleteShell (wire_url W) j shellId) True st1 = (a, st2)"
    by (cases "wire_call W (deleteShell (wire_url W) j shellId) True st1")
  have "st' = wire_release W st2" using assms j a by (cases a) (simp_all add: session_close_def)
  with wire_call_asked [OF a] next_id_asked [OF j] show ?thesis by (auto simp: wire_release_def)
qed

lemma winrm_open_asked:
  assumes "winrm_open W st = (r, st')"
  shows "case shell_given W st of
      None \<Rightarrow> isl r \<and> ws_asked st' = ws_asked st @
        (if aborted W st then [] else [AskedSend (createShell (wire_url W) (wire_ids W (ws_ids st))) False]) @ [AskedRelease]
    | Some shellId \<Rightarrow> r = Inr shellId \<and> \<not> aborted W st \<and>
        ws_asked st' = ws_asked st @ [AskedSend (createShell (wire_url W) (wire_ids W (ws_ids st))) False] \<and>
        ws_transport st' = moved W (createShell (wire_url W) (wire_ids W (ws_ids st))) False (ws_transport st) \<and>
        ws_ids st' = Suc (ws_ids st) \<and> ws_clock st' = Suc (ws_clock st)"
proof -
  define st1 where "st1 = st\<lparr>ws_ids := Suc (ws_ids st)\<rparr>"
  define create where "create = createShell (wire_url W) (wire_ids W (ws_ids st))"
  obtain a st2 where a: "wire_call W create False st1 = (a, st2)" by (cases "wire_call W create False st1")
  from assms a have run: "(case step_then (wire_call W create False) (\<lambda>created. from_xml (shellIdOf created)) st1 of
      (Inl e, st2) \<Rightarrow> (fail e, wire_release W st2) | (Inr shellId, st2) \<Rightarrow> (ok shellId, st2)) = (r, st')"
    by (simp add: winrm_open_def next_id_def flip: create_def st1_def)
  have same: "aborted W st1 = aborted W st" "ws_asked st1 = ws_asked st" "ws_transport st1 = ws_transport st" "ws_clock st1 = ws_clock st"
    by (simp_all add: st1_def aborted_def)
  show ?thesis
  proof (cases "aborted W st")
    case True
    with wire_call_asked [OF a] same have "a = fail (action_error timeout [])" "ws_asked st2 = ws_asked st" by simp_all
    with run a True show ?thesis by (auto simp: shell_given_def step_then_def fail_def wire_release_def)
  next
    case False
    note call = wire_call_asked [OF a] wire_call_answered [OF a, OF disjI2, unfolded same, OF False]
    have st2: "ws_asked st2 = ws_asked st @ [AskedSend create False]" "ws_clock st2 = Suc (ws_clock st)"
      "ws_ids st2 = Suc (ws_ids st)" using call False same by (simp_all add: st1_def)
    show ?thesis
      using run a call st2 False
      by (auto simp: shell_given_def step_then_def from_xml_def fail_def ok_def wire_release_def
          simp flip: create_def split: option.splits sum.splits)
  qed
qed

section \<open>The shell is deleted\<close>

text \<open>
  C27: whether a call has a shell is the destination's answer to its first envelope. With a shell, and
  whatever comes after, the call asks what \<open>session_trace\<close> says and then deletes that shell and releases
  the connection; the command was started exactly when the deadline had not passed, and the polling,
  once begun, is followed by a signal to that command exactly when it failed. With no shell the call
  fails, has run nothing and has released the connection.
\<close>

theorem shell_deleted:
  assumes "winrm_exchange W request st = (r, logged, st')"
  shows "\<exists>asked. ws_asked st' = ws_asked st @ asked \<and>
    (let create = createShell (wire_url W) (wire_ids W (ws_ids st)) in
     case shell_given W st of
       None \<Rightarrow> isl r \<and> asked = (if aborted W st then [] else [AskedSend create False]) @ [AskedRelease]
     | Some shellId \<Rightarrow>
       \<exists>j xs. asked = AskedSend create False # xs @ [AskedSend (deleteShell (wire_url W) j shellId) True, AskedRelease] \<and>
         session_trace W request shellId (\<not> isl r) (moved W create False (ws_transport st)) (Suc (ws_ids st)) (Suc (ws_clock st)) xs)"
proof -
  obtain a st1 where a: "winrm_open W st = (a, st1)" by (cases "winrm_open W st")
  note opened = winrm_open_asked [OF a]
  show ?thesis
  proof (cases "shell_given W st")
    case None
    with opened have "isl a" by simp
    with assms a have "isl r" "st' = st1" by (auto simp: winrm_exchange_def fail_def split: sum.splits)
    with opened None show ?thesis by auto
  next
    case (Some shellId)
    with opened have "a = Inr shellId" by simp
    obtain b st2 where b: "session_run W shellId request st1 = (b, st2)" by (cases "session_run W shellId request st1")
    obtain c st3 where c: "session_close W shellId st2 = (c, st3)" by (cases "session_close W shellId st2")
    from assms a \<open>a = Inr shellId\<close> b c have r: "isl r = isl b" "st' = st3" by (auto simp: winrm_exchange_def split: sum.splits)
    from session_run_asked [OF b] obtain ys where ys: "ws_asked st2 = ws_asked st1 @ ys"
      "session_trace W request shellId (\<not> isl b) (ws_transport st1) (ws_ids st1) (ws_clock st1) ys" by blast
    from session_close_asked [OF c] obtain j where
      "ws_asked st3 = ws_asked st2 @ [AskedSend (deleteShell (wire_url W) j shellId) True, AskedRelease]" by blast
    with ys opened Some r show ?thesis by (auto simp: Let_def)
  qed
qed

text \<open>
  a call ends: under a deadline of \<open>n\<close> exchanges it makes at most \<open>n\<close> of them, and two more for
  the clean-up (the signal and the deletion), before it lets the connection go.
\<close>

theorem call_ends:
  assumes "winrm_exchange W request st = (r, logged, st')"
  shows "length (ws_asked st') \<le> length (ws_asked st) + wire_deadline W + 3"
proof -
  obtain a st1 where a: "winrm_open W st = (a, st1)" by (cases "winrm_open W st")
  note opened = winrm_open_asked [OF a]
  show ?thesis
  proof (cases "shell_given W st")
    case None
    with opened have "isl a" by simp
    with assms a have "st' = st1" by (auto simp: winrm_exchange_def fail_def split: sum.splits)
    with opened None show ?thesis by (auto simp: aborted_def)
  next
    case (Some shellId)
    with opened have "a = Inr shellId" by simp
    obtain b st2 where b: "session_run W shellId request st1 = (b, st2)" by (cases "session_run W shellId request st1")
    obtain c st3 where c: "session_close W shellId st2 = (c, st3)" by (cases "session_close W shellId st2")
    from assms a \<open>a = Inr shellId\<close> b c have "st' = st3" by (auto simp: winrm_exchange_def split: sum.splits)
    with session_run_asked [OF b] session_close_asked [OF c] opened Some show ?thesis by (auto simp: aborted_def)
  qed
qed

section \<open>An example\<close>

text \<open>A destination that answers each exchange with the next of four documents.\<close>

definition example_answers :: "string list" where
  "example_answers =
     [''<e><ShellId>S</ShellId></e>'', ''<e><Body><CommandResponse><CommandId>C</CommandId></CommandResponse></Body></e>'',
      ''<e><Stream>aGk=</Stream><CommandState State='' @ quoted COMMAND_DONE @ ''><ExitCode>0</ExitCode></CommandState></e>'', ''<e/>'']"

definition example_transport :: "nat Transport" where
  "example_transport =
     \<lparr>send = (\<lambda>body cleanup n. (Inr \<lparr>soap_text = example_answers ! n, soap_status = 200\<rparr>, Suc n)), release = id\<rparr>"

definition example_wire :: "nat Wire" where
  "example_wire = \<lparr>wire_transport = example_transport, wire_url = ''u'', wire_shell = CmdShell, wire_deadline = 3, wire_ids = (\<lambda>n. ''i'')\<rparr>"

definition example_command :: WinrmCommand where
  "example_command = \<lparr>wc_command = ''hi'', wc_stdin = None, wc_captureBytes = 9\<rparr>"

definition example_start :: "nat WireState" where
  "example_start = \<lparr>ws_transport = 0, ws_asked = [], ws_ids = 0, ws_clock = 0\<rparr>"

lemma example_run:
  "fst (winrm_exchange example_wire example_command example_start) =
     ok \<lparr>wr_exitCode = Some 0, wr_stdout = ''hi'', wr_stderr = [], wr_truncated = False\<rparr>"
  by code_simp

lemma example_shell: "shell_given example_wire example_start = Some ''S''"
  by code_simp

lemma shell_deleted_witness:
  "\<exists>j xs. ws_asked (snd (snd (winrm_exchange example_wire example_command example_start))) =
     AskedSend (createShell ''u'' ''i'') False # xs @ [AskedSend (deleteShell ''u'' j ''S'') True, AskedRelease] \<and>
     session_trace example_wire example_command ''S'' True 1 1 1 xs"
proof -
  obtain r logged st' where run: "winrm_exchange example_wire example_command example_start = (r, logged, st')"
    by (cases "winrm_exchange example_wire example_command example_start")
  with example_run have "\<not> isl r" by auto
  then show ?thesis using shell_deleted [OF run] run example_shell
    by (auto simp: example_wire_def example_start_def moved_def example_transport_def)
qed

lemma call_ends_witness: "length (ws_asked (snd (snd (winrm_exchange example_wire example_command example_start)))) \<le> 6"
proof -
  obtain r logged st' where run: "winrm_exchange example_wire example_command example_start = (r, logged, st')"
    by (cases "winrm_exchange example_wire example_command example_start")
  show ?thesis using call_ends [OF run] run by (simp add: example_wire_def example_start_def)
qed

text \<open>
  A command is not always signalled: when its input cannot be delivered, the deadline included, the
  shell is deleted with no signal before it.
\<close>

lemma no_signal_without_polls:
  assumes "wc_stdin request = Some t" "wire_deadline W = ws_clock st + 1" "session_run W shellId request st = (r, st')"
  shows "ws_asked st' = ws_asked st @ [AskedSend (runCommand \<lparr>cr_url = wire_url W, cr_messageId = wire_ids W (ws_ids st),
    cr_shellId = shellId, cr_command = wc_command request, cr_shell = wire_shell W\<rparr>) False]"
  using session_run_asked [OF assms(3)] assms(1,2) by (auto simp: session_trace_def Let_def split: option.splits)

end
