(* ===== verification/WinrmTransport.thy ===== *)
theory WinrmTransport
  imports WinrmSafety NtlmHandshake
begin

text \<open>
  How an envelope reaches the destination (\<^verbatim>\<open>winrm/transport.ts\<close>): with a Basic pair, or over an NTLM
  exchange that is established by the first envelope and, on a plain listener, seals every envelope.
  The destination is a parameter that answers the \<open>n\<close>th request; the requests made are recorded.
\<close>

section \<open>Requests\<close>

definition MAX_RESPONSE_BYTES :: nat where "MAX_RESPONSE_BYTES = 512 * 1024"
definition SOAP_CONTENT_TYPE :: string where "SOAP_CONTENT_TYPE = ''application/soap+xml;charset=UTF-8''"

record PostRequest =
  post_url :: string
  post_address :: string
  post_headers :: "(string \<times> string) list"
  post_body :: octets

record RawAnswer =
  raw_status :: nat
  raw_contentType :: "string option"
  raw_authenticate :: "string option"
  raw_body :: octets

record WinrmDependencies =
  peer :: "nat \<Rightarrow> PostRequest \<Rightarrow> bool \<Rightarrow> Thrown + RawAnswer"
  peer_certificate :: "octets option"
  dep_version :: string
  dep_random :: "nat \<Rightarrow> octets"
  dep_now :: nat
  dep_hmac :: Hmac
  dep_hash :: Hash
  url_protocol :: "string \<Rightarrow> string"

record NetState =
  posts :: "PostRequest list"
  established :: "NtlmSecurity option"
  is_released :: bool

definition RANGE_ERROR :: Thrown where
  "RANGE_ERROR = ThrownError (Some ''ERR_OUT_OF_RANGE'') ''RangeError'' ''The value is out of range'' None"

text \<open>The \<^verbatim>\<open>message\<close> of a \<^verbatim>\<open>NtlmProblem\<close>, and \<^verbatim>\<open>readNtlm\<close>, whose outer \<open>None\<close> is any other exception.\<close>

definition ntlm_problem :: "string \<Rightarrow> string" where
  "ntlm_problem reason = ''the destination'' @ [CHR 0x27] @ ''s encrypted exchange is not readable: '' @ reason"

definition readNtlm :: "'a Ntlm option \<Rightarrow> Thrown + 'a" where
  "readNtlm r =
     (case r of
        None \<Rightarrow> Inl RANGE_ERROR
      | Some (Inl e) \<Rightarrow> Inl (ThrownAction (action_error upstream_error [(''message'', DText (ntlm_problem e))]))
      | Some (Inr v) \<Rightarrow> Inr v)"

definition net_post ::
  "WinrmDependencies \<Rightarrow> WinrmConnection \<Rightarrow> (string \<times> string) list \<Rightarrow> octets \<Rightarrow> bool \<Rightarrow> NetState \<Rightarrow> (Thrown + RawAnswer) \<times> NetState" where
  "net_post D connection headers body cleanup t =
     (let q = \<lparr>post_url = wn_url connection, post_address = wn_address connection,
         post_headers = (''user-agent'', ''vaultgate/'' @ dep_version D) # headers, post_body = body\<rparr>
      in (case peer D (length (posts t)) q cleanup of
            Inl thrown \<Rightarrow> Inl thrown
          | Inr a \<Rightarrow> Inr (a\<lparr>raw_body := take MAX_RESPONSE_BYTES (raw_body a)\<rparr>),
          t\<lparr>posts := posts t @ [q]\<rparr>))"

definition soap_octets :: "string \<Rightarrow> octets" where
  "soap_octets s = latin1 (utf8_encode s)"

definition plain_answer :: "RawAnswer \<Rightarrow> Thrown + SoapAnswer" where
  "plain_answer a =
     (if raw_status a = UNAUTHORIZED then Inl (ThrownAction (action_error authentication_failed []))
      else Inr \<lparr>soap_text = utf8_decode (text_of (raw_body a)), soap_status = raw_status a\<rparr>)"

section \<open>Basic\<close>

definition basic_headers :: "WinrmConnection \<Rightarrow> (string \<times> string) list" where
  "basic_headers connection =
     [(''content-type'', SOAP_CONTENT_TYPE),
      (''authorization'', ''Basic '' @ base64 (utf8_encode (wn_username connection @ '':'' @ wn_password connection)))]"

definition basic_send :: "WinrmDependencies \<Rightarrow> WinrmConnection \<Rightarrow> string \<Rightarrow> bool \<Rightarrow> NetState \<Rightarrow> (Thrown + SoapAnswer) \<times> NetState" where
  "basic_send D connection body cleanup t =
     (case net_post D connection (basic_headers connection) (soap_octets body) cleanup t of
        (Inl thrown, t') \<Rightarrow> (Inl thrown, t')
      | (Inr a, t') \<Rightarrow> (plain_answer a, t'))"

definition basicTransport :: "WinrmDependencies \<Rightarrow> WinrmConnection \<Rightarrow> NetState Transport" where
  "basicTransport D connection = \<lparr>send = basic_send D connection, release = id\<rparr>"

section \<open>Negotiate\<close>

definition ntlm_start :: "WinrmDependencies \<Rightarrow> WinrmConnection \<Rightarrow> NtlmStart" where
  "ntlm_start D connection =
     \<lparr>st_credential = ntlmCredential (wn_username connection) (wn_password connection), st_certificate = peer_certificate D,
      st_random = dep_random D, st_now = dep_now D\<rparr>"

definition handshake ::
  "WinrmDependencies \<Rightarrow> WinrmConnection \<Rightarrow> bool \<Rightarrow> NetState \<Rightarrow> (Thrown + NtlmSecurity) \<times> NetState" where
  "handshake D connection cleanup t =
     (case net_post D connection [(''content-type'', SOAP_CONTENT_TYPE), (''authorization'', startNtlm_authorization)] [] cleanup t of
        (Inl thrown, t1) \<Rightarrow> (Inl thrown, t1)
      | (Inr challenged, t1) \<Rightarrow>
        (case readNtlm (ntlm_answer (dep_hmac D) (dep_hash D) (ntlm_start D connection) (raw_authenticate challenged)) of
           Inl thrown \<Rightarrow> (Inl thrown, t1)
         | Inr answer \<Rightarrow>
           (case net_post D connection [(''content-type'', SOAP_CONTENT_TYPE), (''authorization'', authorization answer)] [] cleanup t1 of
              (Inl thrown, t2) \<Rightarrow> (Inl thrown, t2)
            | (Inr accepted, t2) \<Rightarrow>
              (if raw_status accepted = UNAUTHORIZED then Inl (ThrownAction (action_error authentication_failed []))
               else Inr (security answer), t2))))"

definition sealedAnswer :: "Hmac \<Rightarrow> RawAnswer \<Rightarrow> NtlmSecurity \<Rightarrow> (Thrown + SoapAnswer) \<times> NtlmSecurity" where
  "sealedAnswer hmac a s =
     (if \<not> isEncrypted (raw_contentType a)
      then (Inl (ThrownAction (action_error upstream_error [(''message'', DText (''the destination answered HTTP '' @
              nat_text (raw_status a) @ '' without the message encryption it requires''))])), s)
      else
       (case unwrapEncrypted hmac s (raw_body a) of
          None \<Rightarrow> (Inl RANGE_ERROR, s)
        | Some (r, s') \<Rightarrow>
          ((case readNtlm (Some r) of
              Inl thrown \<Rightarrow> Inl thrown
            | Inr txt \<Rightarrow> Inr \<lparr>soap_text = txt, soap_status = raw_status a\<rparr>), s')))"

text \<open>An envelope over an established session.\<close>

definition established_send ::
  "WinrmDependencies \<Rightarrow> WinrmConnection \<Rightarrow> bool \<Rightarrow> string \<Rightarrow> bool \<Rightarrow> NtlmSecurity \<Rightarrow> NetState \<Rightarrow> (Thrown + SoapAnswer) \<times> NetState" where
  "established_send D connection isSealed body cleanup s t =
     (if \<not> isSealed then
       (case net_post D connection [(''content-type'', SOAP_CONTENT_TYPE)] (soap_octets body) cleanup t of
          (Inl thrown, t') \<Rightarrow> (Inl thrown, t')
        | (Inr a, t') \<Rightarrow> (plain_answer a, t'))
      else
       (case wrapEncrypted (dep_hmac D) s body of
          None \<Rightarrow> (Inl RANGE_ERROR, t)
        | Some (bytes, s1) \<Rightarrow>
          (case net_post D connection [(''content-type'', ENCRYPTED_CONTENT_TYPE)] bytes cleanup (t\<lparr>established := Some s1\<rparr>) of
             (Inl thrown, t') \<Rightarrow> (Inl thrown, t')
           | (Inr a, t') \<Rightarrow>
             (if raw_status a = UNAUTHORIZED then (Inl (ThrownAction (action_error authentication_failed [])), t')
              else (case sealedAnswer (dep_hmac D) a s1 of (r, s2) \<Rightarrow> (r, t'\<lparr>established := Some s2\<rparr>))))))"

definition negotiate_send ::
  "WinrmDependencies \<Rightarrow> WinrmConnection \<Rightarrow> bool \<Rightarrow> string \<Rightarrow> bool \<Rightarrow> NetState \<Rightarrow> (Thrown + SoapAnswer) \<times> NetState" where
  "negotiate_send D connection isSealed body cleanup t =
     (case established t of
        Some s \<Rightarrow> established_send D connection isSealed body cleanup s t
      | None \<Rightarrow>
        (case handshake D connection cleanup t of
           (Inl thrown, t1) \<Rightarrow> (Inl thrown, t1)
         | (Inr s, t1) \<Rightarrow> established_send D connection isSealed body cleanup s (t1\<lparr>established := Some s\<rparr>)))"

definition net_release :: "NetState \<Rightarrow> NetState" where
  "net_release t = t\<lparr>is_released := True\<rparr>"

definition negotiateTransport :: "WinrmDependencies \<Rightarrow> WinrmConnection \<Rightarrow> bool \<Rightarrow> NetState Transport" where
  "negotiateTransport D connection isSealed = \<lparr>send = negotiate_send D connection isSealed, release = net_release\<rparr>"

text \<open>\<^verbatim>\<open>openTransport\<close>, by the target's \<^verbatim>\<open>auth\<close>.\<close>

datatype WinrmAuth = AuthNegotiate | AuthBasic

definition openTransport :: "WinrmDependencies \<Rightarrow> WinrmAuth \<Rightarrow> WinrmConnection \<Rightarrow> NetState Transport" where
  "openTransport D auth connection =
     (case auth of
        AuthBasic \<Rightarrow> basicTransport D connection
      | AuthNegotiate \<Rightarrow> negotiateTransport D connection (url_protocol D (wn_url connection) = ''http:''))"

text \<open>The wire that \<^verbatim>\<open>winrmSessionOver\<close> builds for a connection.\<close>

definition session_wire :: "WinrmDependencies \<Rightarrow> WinrmAuth \<Rightarrow> nat \<Rightarrow> (nat \<Rightarrow> string) \<Rightarrow> WinrmConnection \<Rightarrow> NetState Wire" where
  "session_wire D auth deadline newId connection =
     \<lparr>wire_transport = openTransport D auth connection, wire_url = wn_url connection, wire_shell = wn_shell connection,
      wire_deadline = deadline, wire_ids = newId\<rparr>"

section \<open>What every exchange keeps\<close>

text \<open>
  A property of the transport's state that each of its two operations keeps holds after a whole call,
  however the destination answers.
\<close>

locale transport_invariant =
  fixes T :: "'t Transport"
    and P :: "'t \<Rightarrow> bool"
  assumes send_keeps: "send T body cleanup t = (r, t') \<Longrightarrow> P t \<Longrightarrow> P t'"
    and release_keeps: "P t \<Longrightarrow> P (release T t)"
begin

definition kept_by :: "'t Wire \<Rightarrow> ('t WireState \<Rightarrow> 'a \<times> 't WireState) \<Rightarrow> bool" where
  "kept_by W m \<longleftrightarrow> (wire_transport W = T \<longrightarrow> (\<forall>st. P (ws_transport st) \<longrightarrow> P (ws_transport (snd (m st)))))"

lemma kept_byD: "kept_by W m \<Longrightarrow> wire_transport W = T \<Longrightarrow> m st = (r, st') \<Longrightarrow> P (ws_transport st) \<Longrightarrow> P (ws_transport st')"
  unfolding kept_by_def by (metis snd_conv)

lemma wire_post_keeps: "kept_by W (wire_post W body cleanup)"
  using send_keeps by (auto simp: kept_by_def wire_post_def Let_def split: prod.splits sum.splits)

lemma step_then_keeps: "kept_by W m \<Longrightarrow> (\<And>v. kept_by W (f v)) \<Longrightarrow> kept_by W (step_then m f)"
  unfolding kept_by_def step_then_def by (auto split: prod.splits sum.splits)

lemma from_xml_keeps: "kept_by W (from_xml r)"
  by (simp add: kept_by_def from_xml_def)

lemma wire_call_keeps: "kept_by W (wire_call W body cleanup)"
  unfolding wire_call_def by (rule step_then_keeps [OF wire_post_keeps]) (auto simp: kept_by_def split: option.splits)

lemma receiveOnce_keeps: "kept_by W (receiveOnce W plan)"
  unfolding receiveOnce_def
  by (rule step_then_keeps [OF wire_post_keeps]) (auto simp: kept_by_def step_then_def from_xml_def split: option.splits sum.splits)

lemma next_id_keeps: "next_id W st = (i, st') \<Longrightarrow> ws_transport st' = ws_transport st"
  by (auto simp: next_id_def)

lemma streamPlan_keeps: "streamPlan W s c st = (i, st') \<Longrightarrow> ws_transport st' = ws_transport st"
  by (auto simp: streamPlan_def next_id_def)

lemma collect_keeps:
  "collect W shellId commandId c st = (r, st') \<Longrightarrow> wire_transport W = T \<Longrightarrow> P (ws_transport st) \<Longrightarrow> P (ws_transport st')"
proof (induction W shellId commandId c st rule: collect.induct)
  case (1 W shellId commandId c st)
  obtain plan st1 where plan: "streamPlan W shellId commandId st = (plan, st1)" by (cases "streamPlan W shellId commandId st")
  obtain a st2 where a: "receiveOnce W plan st1 = (a, st2)" by (cases "receiveOnce W plan st1")
  have st2: "P (ws_transport st2)"
    using kept_byD [OF receiveOnce_keeps "1.prems"(2) a] streamPlan_keeps [OF plan] "1.prems"(3) by simp
  show ?case
  proof (cases "aborted W st")
    case False
    show ?thesis
    proof (cases a)
      case (Inl e)
      with "1.prems"(1) False plan a st2 show ?thesis by (simp add: collect.simps)
    next
      case (Inr answer)
      show ?thesis
      proof (cases answer)
        case None
        with "1.prems"(1) False plan a Inr have "collect W shellId commandId c st2 = (r, st')" by (simp add: collect.simps [of W shellId commandId c st])
        from "1.IH"(1) [OF False plan [symmetric] a [symmetric] Inr None this "1.prems"(2) st2] show ?thesis .
      next
        case (Some received)
        show ?thesis
        proof (cases "isDone received")
          case True
          with "1.prems"(1) \<open>\<not> aborted W st\<close> plan a Inr Some st2 show ?thesis by (simp add: collect.simps Let_def)
        next
          case False
          with "1.prems"(1) \<open>\<not> aborted W st\<close> plan a Inr Some
          have "collect W shellId commandId (fold add_stream (streams received) c) st2 = (r, st')"
            by (simp add: collect.simps [of W shellId commandId c st] Let_def)
          from "1.IH"(2) [OF \<open>\<not> aborted W st\<close> plan [symmetric] a [symmetric] Inr Some refl False this "1.prems"(2) st2] show ?thesis .
        qed
      qed
    qed
  qed (use "1.prems" in \<open>simp add: collect.simps\<close>)
qed

lemma collect_or_terminate_keeps: "kept_by W (collect_or_terminate W shellId commandId n)"
  unfolding kept_by_def
proof (intro impI allI)
  fix st :: "'t WireState" assume W: "wire_transport W = T" and P: "P (ws_transport st)"
  obtain a st1 where a: "collect W shellId commandId (new_Capture n, new_Capture n) st = (a, st1)"
    by (cases "collect W shellId commandId (new_Capture n, new_Capture n) st")
  obtain plan st2 where plan: "streamPlan W shellId commandId st1 = (plan, st2)" by (cases "streamPlan W shellId commandId st1")
  obtain b st3 where b: "wire_call W (signalTerminate plan) True st2 = (b, st3)" by (cases "wire_call W (signalTerminate plan) True st2")
  have "P (ws_transport st1)" by (rule collect_keeps [OF a W P])
  moreover have "P (ws_transport st3)"
    using kept_byD [OF wire_call_keeps W b] streamPlan_keeps [OF plan] calculation by simp
  ultimately show "P (ws_transport (snd (collect_or_terminate W shellId commandId n st)))"
    by (cases a) (simp_all add: collect_or_terminate_def a plan terminate_def b)
qed

lemma session_run_keeps: "kept_by W (session_run W shellId request)"
proof -
  have input_keeps: "kept_by W (\<lambda>st2. (case wc_stdin request of
      None \<Rightarrow> collect_or_terminate W shellId commandId (wc_captureBytes request) st2
    | Some given \<Rightarrow> (case streamPlan W shellId commandId st2 of (plan, st3) \<Rightarrow>
        step_then (wire_call W (sendStdin plan given) False)
          (\<lambda>_. collect_or_terminate W shellId commandId (wc_captureBytes request)) st3)))" for commandId
  proof (cases "wc_stdin request")
    case (Some given)
    have "kept_by W (step_then (wire_call W (sendStdin plan given) False)
          (\<lambda>_. collect_or_terminate W shellId commandId (wc_captureBytes request)))" for plan
      by (rule step_then_keeps [OF wire_call_keeps collect_or_terminate_keeps])
    then show ?thesis using Some by (auto simp: kept_by_def streamPlan_def next_id_def)
  qed (simp add: collect_or_terminate_keeps)
  have "kept_by W (step_then (wire_call W body False) (\<lambda>started. step_then (from_xml (commandIdOf started))
      (\<lambda>commandId st2. (case wc_stdin request of
      None \<Rightarrow> collect_or_terminate W shellId commandId (wc_captureBytes request) st2
    | Some given \<Rightarrow> (case streamPlan W shellId commandId st2 of (plan, st3) \<Rightarrow>
        step_then (wire_call W (sendStdin plan given) False)
          (\<lambda>_. collect_or_terminate W shellId commandId (wc_captureBytes request)) st3)))))" for body
    by (intro step_then_keeps wire_call_keeps from_xml_keeps input_keeps)
  then show ?thesis by (simp add: kept_by_def session_run_def next_id_def)
qed

lemma exchange_keeps:
  assumes "wire_transport W = T" "P (ws_transport st)" "winrm_exchange W request st = (r, logged, st')"
  shows "P (ws_transport st')"
proof -
  obtain i st0 where i: "next_id W st = (i, st0)" by (cases "next_id W st")
  obtain a st1 where a: "step_then (wire_call W (createShell (wire_url W) i) False) (\<lambda>created. from_xml (shellIdOf created)) st0 = (a, st1)"
    by (cases "step_then (wire_call W (createShell (wire_url W) i) False) (\<lambda>created. from_xml (shellIdOf created)) st0")
  have st1: "P (ws_transport st1)"
    using kept_byD [OF step_then_keeps [OF wire_call_keeps from_xml_keeps] assms(1) a] next_id_keeps [OF i] assms(2) by simp
  have released: "P (ws_transport (wire_release W s))" if "P (ws_transport s)" for s
    using release_keeps [OF that] assms(1) by (simp add: wire_release_def)
  show ?thesis
  proof (cases a)
    case (Inl e)
    with assms(3) i a released [OF st1] show ?thesis by (auto simp: winrm_exchange_def winrm_open_def fail_def)
  next
    case (Inr shellId)
    obtain b st2 where b: "session_run W shellId request st1 = (b, st2)" by (cases "session_run W shellId request st1")
    have st2: "P (ws_transport st2)" by (rule kept_byD [OF session_run_keeps assms(1) b st1])
    obtain j st3 where j: "next_id W st2 = (j, st3)" by (cases "next_id W st2")
    obtain c st4 where c: "wire_call W (deleteShell (wire_url W) j shellId) True st3 = (c, st4)"
      by (cases "wire_call W (deleteShell (wire_url W) j shellId) True st3")
    have "P (ws_transport st4)"
      using kept_byD [OF wire_call_keeps assms(1) c] next_id_keeps [OF j] st2 by simp
    with assms(3) i a Inr b j c released show ?thesis
      by (cases c) (auto simp: winrm_exchange_def winrm_open_def session_close_def ok_def)
  qed
qed

end

section \<open>A plain listener sees sealed envelopes only\<close>

text \<open>
  Everything a plain listener may be sent. A handshake request has no body, and its authorization is
  the first message or the answer that \<^verbatim>\<open>authenticateMessage\<close> makes of some challenge, with the account
  of the connection.
\<close>

definition post_to :: "WinrmDependencies \<Rightarrow> WinrmConnection \<Rightarrow> (string \<times> string) list \<Rightarrow> octets \<Rightarrow> PostRequest" where
  "post_to D connection headers body =
     \<lparr>post_url = wn_url connection, post_address = wn_address connection,
      post_headers = (''user-agent'', ''vaultgate/'' @ dep_version D) # headers, post_body = body\<rparr>"

definition session_derived :: "WinrmDependencies \<Rightarrow> WinrmConnection \<Rightarrow> string \<Rightarrow> octets \<Rightarrow> bool \<Rightarrow> bool" where
  "session_derived D connection authz key kx \<longleftrightarrow>
     (\<exists>token challenge a. parseChallenge token = Inr challenge \<and>
        authenticateMessage (dep_hmac D)
          \<lparr>ar_credential = ntlmCredential (wn_username connection) (wn_password connection), ar_challenge = challenge,
           ar_negotiate = negotiateMessage, ar_channelBinding = map_option (channelBindingToken (dep_hash D)) (peer_certificate D),
           ar_random = dep_random D, ar_now = dep_now D\<rparr> = Some (Inr a) \<and>
        authz = negotiateHeader (auth_message a) \<and> key = exportedSessionKey a \<and> kx = isKeyExchange a)"

definition handshake_post :: "WinrmDependencies \<Rightarrow> WinrmConnection \<Rightarrow> PostRequest \<Rightarrow> bool" where
  "handshake_post D connection q \<longleftrightarrow>
     (\<exists>authz. q = post_to D connection [(''content-type'', ''application/soap+xml;charset=UTF-8''), (''authorization'', authz)] [] \<and>
        (authz = negotiateHeader negotiateMessage \<or> (\<exists>key kx. session_derived D connection authz key kx)))"

text \<open>
  An envelope in its MIME frame: nothing of it but its length outside the cipher. The envelopes of a
  session follow each other in one stream under one key, so no octet of the stream is used twice.
\<close>

definition framed :: "octets \<Rightarrow> octets \<Rightarrow> octets" where
  "framed sig bytes =
     latin1 (concat (map (\<lambda>l. l @ [CHR 0x0D, CHR 0x0A]) (envelope_lines (length bytes)))) @
     le_bytes 4 (length sig) @ sig @ bytes @ latin1 (''--Encrypted Boundary--'' @ [CHR 0x0D, CHR 0x0A])"

definition sealed_post :: "WinrmDependencies \<Rightarrow> WinrmConnection \<Rightarrow> octets \<Rightarrow> bool \<Rightarrow> nat \<Rightarrow> nat \<Rightarrow> octets \<Rightarrow> PostRequest" where
  "sealed_post D connection key kx place n soapBytes =
     post_to D connection [(''content-type'', ENCRYPTED_CONTENT_TYPE)]
       (framed (signature_of (dep_hash D ''md5'') (dep_hmac D) key kx place n soapBytes) (cipher_of (dep_hash D ''md5'') key place soapBytes))"

inductive sealed_posts :: "WinrmDependencies \<Rightarrow> WinrmConnection \<Rightarrow> octets \<Rightarrow> bool \<Rightarrow> PostRequest list \<Rightarrow> nat \<Rightarrow> nat \<Rightarrow> bool"
  for D connection key kx where
  sealed_none: "sealed_posts D connection key kx [] 0 0"
| sealed_one: "sealed_posts D connection key kx qs place n \<Longrightarrow>
    sealed_posts D connection key kx (qs @ [sealed_post D connection key kx place n soapBytes])
      (next_place (dep_hash D ''md5'') (dep_hmac D) key kx place n soapBytes) (Suc n)"

definition plain_traffic :: "WinrmDependencies \<Rightarrow> WinrmConnection \<Rightarrow> PostRequest list \<Rightarrow> NtlmSecurity option \<Rightarrow> bool" where
  "plain_traffic D connection qs s \<longleftrightarrow>
     (case s of
        None \<Rightarrow> list_all (handshake_post D connection) qs
      | Some session \<Rightarrow>
        \<exists>hs authz key kx ss place n. qs = hs @ ss \<and> list_all (handshake_post D connection) hs \<and>
          session_derived D connection authz key kx \<and> sealed_posts D connection key kx ss place n \<and>
          client_at (dep_hash D ''md5'') key kx place n (sec_client session))"

definition plain_state :: "WinrmDependencies \<Rightarrow> WinrmConnection \<Rightarrow> NetState \<Rightarrow> bool" where
  "plain_state D connection t \<longleftrightarrow> plain_traffic D connection (posts t) (established t)"

lemma plain_traffic_simps:
  "plain_traffic D connection qs None = list_all (handshake_post D connection) qs"
  "plain_traffic D connection qs (Some session) =
     (\<exists>hs authz key kx ss place n. qs = hs @ ss \<and> list_all (handshake_post D connection) hs \<and>
        session_derived D connection authz key kx \<and> sealed_posts D connection key kx ss place n \<and>
        client_at (dep_hash D ''md5'') key kx place n (sec_client session))"
  by (simp_all add: plain_traffic_def)

lemma plain_traffic_start:
  "list_all (handshake_post D connection) qs \<Longrightarrow> session_derived D connection authz key kx \<Longrightarrow>
     client_at (dep_hash D ''md5'') key kx 0 0 (sec_client session) \<Longrightarrow> plain_traffic D connection qs (Some session)"
  unfolding plain_traffic_simps by (metis append_Nil2 sealed_none)

lemma plain_traffic_more:
  "list_all (handshake_post D connection) hs \<Longrightarrow> session_derived D connection authz key kx \<Longrightarrow>
     sealed_posts D connection key kx ss place n \<Longrightarrow> client_at (dep_hash D ''md5'') key kx place n (sec_client session) \<Longrightarrow>
     plain_traffic D connection (hs @ ss) (Some session)"
  unfolding plain_traffic_simps by blast

lemma net_post_to: "net_post D connection headers body cleanup t = (r, t') \<Longrightarrow>
    t' = t\<lparr>posts := posts t @ [post_to D connection headers body]\<rparr>"
  by (auto simp: net_post_def post_to_def Let_def)

lemma ntlm_answer_derived:
  assumes "readNtlm (ntlm_answer (dep_hmac D) (dep_hash D) (ntlm_start D connection) challenged) = Inr answer"
  shows "\<exists>key kx. session_derived D connection (authorization answer) key kx \<and>
    client_at (dep_hash D ''md5'') key kx 0 0 (sec_client (security answer))"
proof -
  define request where "request = (\<lambda>challenge. \<lparr>ar_credential = ntlmCredential (wn_username connection) (wn_password connection),
    ar_challenge = challenge, ar_negotiate = negotiateMessage,
    ar_channelBinding = map_option (channelBindingToken (dep_hash D)) (peer_certificate D),
    ar_random = dep_random D, ar_now = dep_now D\<rparr>)"
  have "ntlm_answer (dep_hmac D) (dep_hash D) (ntlm_start D connection) challenged = Some (Inr answer)"
    using assms by (auto simp: readNtlm_def split: option.splits sum.splits)
  then obtain challenge where challenge: "and_then (challengeToken challenged) parseChallenge = Inr challenge"
    by (auto simp: ntlm_answer_def fail_def split: sum.splits)
  with \<open>ntlm_answer _ _ _ _ = _\<close> obtain a where a: "authenticateMessage (dep_hmac D) (request challenge) = Some (Inr a)"
    by (auto simp: ntlm_answer_def ntlm_start_def fail_def request_def split: option.splits sum.splits)
  with challenge \<open>ntlm_answer _ _ _ _ = _\<close> obtain s where
    s: "new_NtlmSecurity (dep_hash D ''md5'') (exportedSessionKey a) (isKeyExchange a) = Some s"
    "answer = \<lparr>authorization = negotiateHeader (auth_message a), security = s\<rparr>"
    by (auto simp: ntlm_answer_def ntlm_start_def request_def ok_def split: option.splits)
  from challenge obtain token where "parseChallenge token = Inr challenge"
    by (auto simp: and_then_def fail_def split: sum.splits)
  with a s have "session_derived D connection (authorization answer) (exportedSessionKey a) (isKeyExchange a)"
    unfolding session_derived_def request_def by auto
  with new_NtlmSecurity_at [OF s(1)] s(2) show ?thesis by auto
qed

lemma handshake_plain:
  assumes "handshake D connection cleanup t = (r, t')" "established t = None" "list_all (handshake_post D connection) (posts t)"
  shows "established t' = None \<and> list_all (handshake_post D connection) (posts t') \<and>
    (\<forall>s. r = Inr s \<longrightarrow> plain_traffic D connection (posts t') (Some s))"
proof -
  let ?h = "\<lambda>authz. [(''content-type'', SOAP_CONTENT_TYPE), (''authorization'', authz)]"
  obtain x t1 where x: "net_post D connection (?h startNtlm_authorization) [] cleanup t = (x, t1)"
    by (cases "net_post D connection (?h startNtlm_authorization) [] cleanup t")
  have first: "handshake_post D connection (post_to D connection (?h startNtlm_authorization) [])"
    by (auto simp: handshake_post_def startNtlm_authorization_def SOAP_CONTENT_TYPE_def)
  have t1: "established t1 = None" "list_all (handshake_post D connection) (posts t1)"
    using net_post_to [OF x] assms(2,3) first by simp_all
  define heard where "heard = (\<lambda>challenged :: RawAnswer. readNtlm (ntlm_answer (dep_hmac D) (dep_hash D) (ntlm_start D connection) (raw_authenticate challenged)))"
  have run: "(case x of Inl thrown \<Rightarrow> (Inl thrown, t1)
      | Inr challenged \<Rightarrow> (case heard challenged of Inl thrown \<Rightarrow> (Inl thrown, t1)
        | Inr answer \<Rightarrow> (case net_post D connection (?h (authorization answer)) [] cleanup t1 of (Inl thrown, t2) \<Rightarrow> (Inl thrown, t2)
          | (Inr accepted, t2) \<Rightarrow>
            (if raw_status accepted = UNAUTHORIZED then Inl (ThrownAction (action_error authentication_failed []))
             else Inr (security answer), t2)))) = (r, t')"
    using assms(1) by (cases x) (simp_all add: handshake_def x heard_def)
  show ?thesis
  proof (cases "\<exists>challenged answer. x = Inr challenged \<and> heard challenged = Inr answer")
    case False
    then have "isl r \<and> t' = t1" using run by (auto split: sum.splits)
    with t1 show ?thesis by auto
  next
    case True
    then obtain challenged answer where went: "x = Inr challenged" "heard challenged = Inr answer" by blast
    obtain y t2 where y: "net_post D connection (?h (authorization answer)) [] cleanup t1 = (y, t2)"
      by (cases "net_post D connection (?h (authorization answer)) [] cleanup t1")
    obtain key kx where derived: "session_derived D connection (authorization answer) key kx"
      "client_at (dep_hash D ''md5'') key kx 0 0 (sec_client (security answer))"
      using ntlm_answer_derived [OF went(2) [unfolded heard_def]] by blast
    then have "handshake_post D connection (post_to D connection (?h (authorization answer)) [])"
      unfolding handshake_post_def SOAP_CONTENT_TYPE_def by blast
    with net_post_to [OF y] t1 have t2: "established t2 = None" "list_all (handshake_post D connection) (posts t2)" by simp_all
    have t': "t' = t2" "isl r \<or> r = Inr (security answer)" using run went y by (auto split: sum.splits if_splits)
    with t2 plain_traffic_start [OF t2(2) derived] show ?thesis by auto
  qed
qed

lemma wrapEncrypted_at:
  assumes "client_at (dep_hash D ''md5'') key kx place n (sec_client s)" "wrapEncrypted (dep_hmac D) s soap = Some (bytes, s1)"
  shows "\<exists>soapBytes. post_to D connection [(''content-type'', ENCRYPTED_CONTENT_TYPE)] bytes = sealed_post D connection key kx place n soapBytes \<and>
    client_at (dep_hash D ''md5'') key kx (next_place (dep_hash D ''md5'') (dep_hmac D) key kx place n soapBytes) (Suc n) (sec_client s1)"
proof -
  let ?plain = "latin1 (utf8_encode soap)"
  from assms(2) obtain r where r: "seal (dep_hmac D) s ?plain = Some (r, s1)"
    "bytes = latin1 (concat (map (\<lambda>l. l @ CRLF) (envelope_lines (length ?plain)))) @
       le_bytes SIGNATURE_LENGTH_BYTES (length (signature r)) @ signature r @ sealed r @ latin1 (BOUNDARY @ ''--'' @ CRLF)"
    by (auto simp: wrapEncrypted_def Let_def split: option.splits prod.splits)
  note at = seal_at [OF assms(1) r(1)]
  have "length (cipher_of md5 key place ?plain) = length ?plain" for md5 by (simp add: cipher_of_def arcfour_xor_def)
  with at r(2) show ?thesis
    by (intro exI [of _ ?plain]) (simp add: sealed_post_def framed_def CRLF_def BOUNDARY_def SIGNATURE_LENGTH_BYTES_def)
qed

lemma sealedAnswer_client: "sealedAnswer hmac a s = (r, s') \<Longrightarrow> sec_client s' = sec_client s"
  by (auto simp: sealedAnswer_def unwrapEncrypted_def dest!: unseal_client split: if_splits option.splits prod.splits sum.splits)

lemma established_send_plain:
  assumes "established_send D connection True body cleanup s t = (r, t')" "established t = Some s" "plain_state D connection t"
  shows "plain_state D connection t'"
proof (cases "wrapEncrypted (dep_hmac D) s body")
  case None
  with assms show ?thesis by (simp add: established_send_def)
next
  case (Some w)
  obtain bytes s1 where w: "wrapEncrypted (dep_hmac D) s body = Some (bytes, s1)" using Some by (cases w) simp
  let ?h = "[(''content-type'', ENCRYPTED_CONTENT_TYPE)]"
  obtain a t1 where post: "net_post D connection ?h bytes cleanup (t\<lparr>established := Some s1\<rparr>) = (a, t1)"
    by (cases "net_post D connection ?h bytes cleanup (t\<lparr>established := Some s1\<rparr>)")
  from assms(2,3) obtain hs authz key kx ss place n where t: "posts t = hs @ ss" "list_all (handshake_post D connection) hs"
    "session_derived D connection authz key kx" "sealed_posts D connection key kx ss place n"
    "client_at (dep_hash D ''md5'') key kx place n (sec_client s)"
    unfolding plain_state_def by (auto simp: plain_traffic_simps)
  from wrapEncrypted_at [OF t(5) w] obtain soapBytes where
    q: "post_to D connection ?h bytes = sealed_post D connection key kx place n soapBytes" and
    at: "client_at (dep_hash D ''md5'') key kx (next_place (dep_hash D ''md5'') (dep_hmac D) key kx place n soapBytes) (Suc n) (sec_client s1)"
    by blast
  have t1: "established t1 = Some s1" "posts t1 = posts t @ [post_to D connection ?h bytes]" using net_post_to [OF post] by simp_all
  have run: "(case a of Inl thrown \<Rightarrow> (Inl thrown, t1)
      | Inr x \<Rightarrow> (if raw_status x = UNAUTHORIZED then (Inl (ThrownAction (action_error authentication_failed [])), t1)
          else (case sealedAnswer (dep_hmac D) x s1 of (r, s2) \<Rightarrow> (r, t1\<lparr>established := Some s2\<rparr>)))) = (r, t')"
    using assms(1) by (cases a) (simp_all add: established_send_def w post)
  have "\<exists>s2. established t' = Some s2 \<and> sec_client s2 = sec_client s1 \<and> posts t' = posts t1"
    using run t1(1) sealedAnswer_client by (cases a) (auto split: if_splits prod.splits)
  then obtain s2 where s2: "established t' = Some s2" "sec_client s2 = sec_client s1"
    "posts t' = hs @ (ss @ [sealed_post D connection key kx place n soapBytes])" using t(1) t1(2) q by auto
  show ?thesis unfolding plain_state_def s2(1,3)
    by (rule plain_traffic_more [OF t(2,3) sealed_one [OF t(4)]]) (simp add: s2(2) at)
qed

lemma negotiate_send_plain:
  assumes "negotiate_send D connection True body cleanup t = (r, t')" "plain_state D connection t"
  shows "plain_state D connection t'"
proof (cases "established t")
  case (Some s)
  with assms established_send_plain show ?thesis by (simp add: negotiate_send_def)
next
  case None
  obtain a t1 where h: "handshake D connection cleanup t = (a, t1)" by (cases "handshake D connection cleanup t")
  have "list_all (handshake_post D connection) (posts t)" using assms(2) None by (simp add: plain_state_def plain_traffic_simps)
  note t1 = handshake_plain [OF h None this]
  show ?thesis
  proof (cases a)
    case (Inl e)
    with None h assms(1) have "t' = t1" by (simp add: negotiate_send_def)
    with t1 show ?thesis by (simp add: plain_state_def plain_traffic_simps)
  next
    case (Inr s)
    with None h assms(1) have "established_send D connection True body cleanup s (t1\<lparr>established := Some s\<rparr>) = (r, t')"
      by (simp add: negotiate_send_def)
    then show ?thesis by (rule established_send_plain) (use t1 Inr in \<open>simp_all add: plain_state_def\<close>)
  qed
qed

interpretation negotiate_sealed: transport_invariant "negotiateTransport D connection True" "plain_state D connection" for D connection
  by unfold_locales (auto simp: negotiateTransport_def net_release_def plain_state_def [of _ _ "_\<lparr>is_released := _\<rparr>"]
      simp flip: plain_state_def dest!: negotiate_send_plain)

definition posts_to :: "WinrmConnection \<Rightarrow> NetState \<Rightarrow> bool" where
  "posts_to connection t \<longleftrightarrow> list_all (\<lambda>q. post_url q = wn_url connection \<and> post_address q = wn_address connection) (posts t)"

lemma net_post_pinned: "net_post D connection headers body cleanup t = (r, t') \<Longrightarrow> posts_to connection t \<Longrightarrow> posts_to connection t'"
  by (drule net_post_to) (simp add: posts_to_def post_to_def)

interpretation basic_pinned: transport_invariant "basicTransport D connection" "posts_to connection" for D connection
  by unfold_locales (auto simp: basicTransport_def basic_send_def intro: net_post_pinned split: prod.splits sum.splits)

text \<open>
  C28: on a plain endpoint the requests of a call, all of them to the address that was validated, are
  handshakes and then envelopes. A handshake carries no body, and its authorization is the first
  message or the answer to a challenge; no other header is sent. An envelope is in the published cipher
  under the client's sealing key of the session that the answer set up, each one further along the one
  stream and under the next number: no command, no input, no identifier and no password crosses the
  network in the clear, whatever the destination says.
\<close>

theorem plain_endpoint_sealed:
  assumes "url_protocol D (wn_url connection) = ''http:''"
    and "ws_transport st = \<lparr>posts = [], established = None, is_released = False\<rparr>"
    and "winrm_exchange (session_wire D AuthNegotiate deadline newId connection) request st = (r, logged, st')"
  shows "\<exists>hs ss. posts (ws_transport st') = hs @ ss \<and> list_all (handshake_post D connection) hs \<and>
    (ss = [] \<or> (\<exists>authz key kx place n. session_derived D connection authz key kx \<and> sealed_posts D connection key kx ss place n))"
proof -
  have "plain_state D connection (ws_transport st)" by (simp add: assms(2) plain_state_def plain_traffic_simps)
  moreover have "wire_transport (session_wire D AuthNegotiate deadline newId connection) = negotiateTransport D connection True"
    by (simp add: session_wire_def openTransport_def assms(1))
  ultimately have plain: "plain_state D connection (ws_transport st')"
    using negotiate_sealed.exchange_keeps [OF _ _ assms(3)] by blast
  show ?thesis
  proof (cases "established (ws_transport st')")
    case None
    with plain show ?thesis
      by (intro exI [of _ "posts (ws_transport st')"] exI [of _ "[]"]) (simp add: plain_state_def plain_traffic_simps)
  next
    case (Some s)
    with plain have "plain_traffic D connection (posts (ws_transport st')) (Some s)" by (simp add: plain_state_def)
    then show ?thesis unfolding plain_traffic_simps by blast
  qed
qed

text \<open>A host that answers every request with 401 and no challenge: the first message is all it sees.\<close>

definition example_dependencies :: WinrmDependencies where
  "example_dependencies =
     \<lparr>peer = (\<lambda>n q cleanup. Inr \<lparr>raw_status = 401, raw_contentType = None, raw_authenticate = None, raw_body = []\<rparr>),
      peer_certificate = None, dep_version = ''1'', dep_random = (\<lambda>n. replicate n 0), dep_now = 0,
      dep_hmac = (\<lambda>_ _. replicate 16 0), dep_hash = (\<lambda>_ _. replicate 16 0), url_protocol = (\<lambda>_. ''http:'')\<rparr>"

definition example_connection :: WinrmConnection where
  "example_connection = \<lparr>wn_url = ''http://h'', wn_address = ''10.0.0.1'', wn_username = ''u'', wn_password = ''p'', wn_shell = CmdShell\<rparr>"

definition example_net :: "NetState WireState" where
  "example_net = \<lparr>ws_transport = \<lparr>posts = [], established = None, is_released = False\<rparr>, ws_asked = [], ws_ids = 0, ws_clock = 0\<rparr>"

lemma example_first_post:
  "\<exists>q. q \<in> set (posts (ws_transport (snd (snd (winrm_exchange
     (session_wire example_dependencies AuthNegotiate 3 (\<lambda>n. ''i'') example_connection) example_command example_net)))))"
proof -
  have "challengeToken None = fail ''it offered no Negotiate challenge to answer''" by code_simp
  then have "ntlm_answer hmac hash start None = Some (fail ''it offered no Negotiate challenge to answer'')" for hmac hash start
    by (simp add: ntlm_answer_def)
  then have "readNtlm (ntlm_answer hmac hash start None) = Inl (ThrownAction (action_error upstream_error
      [(''message'', DText (ntlm_problem ''it offered no Negotiate challenge to answer''))]))" for hmac hash start
    by (simp add: readNtlm_def)
  then show ?thesis
    by (simp add: winrm_exchange_def winrm_open_def next_id_def step_then_def wire_call_def wire_post_def aborted_def session_wire_def
        example_dependencies_def example_connection_def example_net_def openTransport_def negotiateTransport_def negotiate_send_def
        handshake_def net_post_def Let_def wire_release_def net_release_def)
qed

lemma plain_endpoint_sealed_witness:
  "\<exists>hs ss. posts (ws_transport (snd (snd (winrm_exchange
     (session_wire example_dependencies AuthNegotiate 3 (\<lambda>n. ''i'') example_connection) example_command example_net)))) = hs @ ss \<and>
     list_all (handshake_post example_dependencies example_connection) hs \<and> (hs \<noteq> [] \<or> ss \<noteq> [])"
proof -
  obtain r logged st' where run: "winrm_exchange (session_wire example_dependencies AuthNegotiate 3 (\<lambda>n. ''i'') example_connection)
      example_command example_net = (r, logged, st')"
    by (cases "winrm_exchange (session_wire example_dependencies AuthNegotiate 3 (\<lambda>n. ''i'') example_connection) example_command example_net")
  have some: "posts (ws_transport st') \<noteq> []" using example_first_post run by auto
  have plain: "url_protocol example_dependencies (wn_url example_connection) = ''http:''"
    "ws_transport example_net = \<lparr>posts = [], established = None, is_released = False\<rparr>"
    by (simp_all add: example_dependencies_def example_net_def)
  from plain_endpoint_sealed [OF plain run] some run show ?thesis by fastforce
qed

end
