(* ===== verification/Base32.thy ===== *)
theory Base32
  imports Octets
begin

text \<open>
  \<^verbatim>\<open>src/identity/base32.ts\<close>: the base32 encoder of the authenticator secrets. The sources shift the
  bytes through one number with \<^verbatim>\<open><<\<close>, which keeps 32 bits; the buffer here is a \<^typ>\<open>32 word\<close>, so
  the bits that fall off its top fall off here too. The encoder is compared with the positional
  definition of RFC 4648: the digits, base 32, of the number the bytes spell.
\<close>

unbundle bit_operations_syntax

definition ALPHABET :: string where
  "ALPHABET = ''ABCDEFGHIJKLMNOPQRSTUVWXYZ234567''"

definition base32_char :: "nat \<Rightarrow> char" where
  "base32_char n = ALPHABET ! n"

section \<open>The encoder\<close>

text \<open>The inner loop: a digit goes out while the buffer holds five bits or more.\<close>

fun drain :: "string \<Rightarrow> 32 word \<Rightarrow> nat \<Rightarrow> string \<times> nat" where
  "drain out buffer bits =
     (if 5 \<le> bits then drain (out @ [base32_char (unat (drop_bit (bits - 5) buffer AND 0x1F))]) buffer (bits - 5)
      else (out, bits))"

declare drain.simps [simp del]

fun base32_loop :: "string \<Rightarrow> 32 word \<Rightarrow> nat \<Rightarrow> octets \<Rightarrow> string \<times> 32 word \<times> nat" where
  "base32_loop out buffer bits [] = (out, buffer, bits)"
| "base32_loop out buffer bits (b # bs) =
     (let buffer' = push_bit 8 buffer OR ucast b in
      case drain out buffer' (bits + 8) of (out', bits') \<Rightarrow> base32_loop out' buffer' bits' bs)"

definition base32Encode :: "octets \<Rightarrow> string" where
  "base32Encode bs =
     (case base32_loop [] 0 0 bs of (out, buffer, bits) \<Rightarrow>
       (let out' = (if 0 < bits then out @ [base32_char (unat (push_bit (5 - bits) buffer AND 0x1F))] else out);
            remainder = length out' mod 8
        in if remainder = 0 then out' else out' @ replicate (8 - remainder) (CHR ''='')))"

definition randomBase32 :: "octets \<Rightarrow> string" where
  "randomBase32 bs = map (\<lambda>b. base32_char (unat b mod length ALPHABET)) bs"

section \<open>The definition of RFC 4648\<close>

text \<open>The lowest \<open>k\<close> digits of a number, base 32, the highest first.\<close>

primrec digits32 :: "nat \<Rightarrow> nat \<Rightarrow> nat list" where
  "digits32 0 n = []"
| "digits32 (Suc k) n = digits32 k (n div 32) @ [n mod 32]"

text \<open>The bytes as one number, the first byte highest.\<close>

definition big_endian :: "octets \<Rightarrow> nat" where
  "big_endian bs = foldl (\<lambda>n b. 256 * n + unat b) 0 bs"

definition rfc_base32 :: "octets \<Rightarrow> string" where
  "rfc_base32 bs =
     (let k = (8 * length bs + 4) div 5;
          quanta = (length bs + 4) div 5
      in map base32_char (digits32 k (big_endian bs * 2 ^ (5 * k - 8 * length bs))) @ replicate (8 * quanta - k) (CHR ''=''))"

lemma big_endian_snoc [simp]: "big_endian (bs @ [b]) = 256 * big_endian bs + unat b" "big_endian [] = 0"
  by (simp_all add: big_endian_def)

lemma length_digits32 [simp]: "length (digits32 k n) = k"
  by (induction k arbitrary: n) simp_all

text \<open>The low bits of the buffer survive the shift of the next byte.\<close>

lemma shifted:
  fixes buffer :: "32 word" and b :: octet
  assumes "bits \<le> 4"
  shows "unat (push_bit 8 buffer OR ucast b) mod 2 ^ (bits + 8) = 256 * (unat buffer mod 2 ^ bits) + unat b"
proof -
  have eq: "push_bit 8 buffer OR ucast b = push_bit 8 buffer + ucast b"
    by (rule disjunctive_add [symmetric]) (auto simp: bit_simps not_le dest: bit_imp_le_length)
  have cast: "unat (ucast b :: 32 word) = unat b"
    by (simp add: unsigned_ucast_eq take_bit_nat_eq_self less_le_trans [OF octet_less])
  have "unat (push_bit 8 buffer OR ucast b) = (unat buffer * 256 + unat b) mod 2 ^ 32"
    by (subst eq) (simp add: unat_word_ariths push_bit_eq_mult cast mod_simps)
  moreover have "(m :: nat) mod 2 ^ 32 mod 2 ^ (bits + 8) = m mod 2 ^ (bits + 8)" for m
    using assms by (intro mod_mod_cancel le_imp_power_dvd) simp
  ultimately have "unat (push_bit 8 buffer OR ucast b) mod 2 ^ (bits + 8) = (256 * unat buffer + unat b) mod (256 * 2 ^ bits)"
    by (simp add: power_add mult.commute)
  also have "\<dots> = 256 * (unat buffer mod 2 ^ bits) + unat b"
    by (simp add: mod_mult2_eq)
  finally show ?thesis .
qed

lemma low_digit:
  fixes buffer :: "32 word"
  shows "unat (drop_bit k buffer AND 0x1F) = unat buffer div 2 ^ k mod 32"
proof -
  have "drop_bit k buffer AND 0x1F = take_bit 5 (drop_bit k buffer)"
    by (simp only: take_bit_eq_mask mask_eq_decr_exp) simp
  then show ?thesis
    by (simp only: unsigned_take_bit_eq unat_drop_bit_eq) (simp add: take_bit_eq_mod drop_bit_eq_div)
qed

text \<open>What the loop has written once it has read \<open>bs\<close>: the digits so far, and what is left in the buffer.\<close>

lemma drain_step:
  assumes "m = unat buffer mod 2 ^ bits" "bits \<le> 12" "N mod 2 ^ bits = m"
    "out = map base32_char (digits32 k (N div 2 ^ bits))"
  shows "drain out buffer bits = (map base32_char (digits32 (k + bits div 5) (N div 2 ^ (bits mod 5))), bits mod 5)"
  using assms
proof (induction out buffer bits arbitrary: k m rule: drain.induct)
  case (1 out buffer bits)
  show ?case
  proof (cases "5 \<le> bits")
    case False
    with 1 show ?thesis by (simp add: drain.simps [of _ buffer bits])
  next
    case True
    then obtain b where b: "bits = b + 5" using le_Suc_ex by (metis add.commute)
    have low: "N mod 2 ^ bits = unat buffer mod 2 ^ bits" using 1 by simp
    then have "N mod 2 ^ bits mod 2 ^ b = unat buffer mod 2 ^ bits mod 2 ^ b" by simp
    then have rest: "N mod 2 ^ b = unat buffer mod 2 ^ b"
      by (simp add: b power_add mod_mod_cancel)
    have "N mod 2 ^ bits div 2 ^ b = unat buffer mod 2 ^ bits div 2 ^ b" using low by simp
    then have digit: "N div 2 ^ b mod 32 = unat buffer div 2 ^ b mod 32"
      by (simp add: b power_add mod_mult2_eq)
    have "N div 2 ^ bits = N div 2 ^ b div 32"
      by (simp add: b power_add div_mult2_eq)
    then have "out @ [base32_char (unat (drop_bit b buffer AND 0x1F))] = map base32_char (digits32 (Suc k) (N div 2 ^ b))"
      using 1(5) by (simp add: low_digit digit)
    moreover have "drain out buffer bits = drain (out @ [base32_char (unat (drop_bit b buffer AND 0x1F))]) buffer b"
      by (subst drain.simps) (simp add: b)
    moreover have "bits div 5 = Suc (b div 5)" "bits mod 5 = b mod 5" by (simp_all add: b)
    ultimately show ?thesis
      using 1(1) [of "unat buffer mod 2 ^ b" "Suc k"] True 1(3) rest by (simp add: b)
  qed
qed

lemma base32_loop_digits:
  "\<exists>buffer. base32_loop [] 0 0 bs =
     (map base32_char (digits32 (8 * length bs div 5) (big_endian bs div 2 ^ (8 * length bs mod 5))), buffer, 8 * length bs mod 5) \<and>
     unat buffer mod 2 ^ (8 * length bs mod 5) = big_endian bs mod 2 ^ (8 * length bs mod 5)"
proof (induction bs rule: rev_induct)
  case Nil
  then show ?case by simp
next
  case (snoc b bs)
  have step: "base32_loop out buffer bits (bs @ [b]) =
      (case base32_loop out buffer bits bs of (out', buffer', bits') \<Rightarrow> base32_loop out' buffer' bits' [b])" for out buffer bits
    by (induction bs arbitrary: out buffer bits) (auto simp: Let_def split: prod.splits)
  define bits where "bits = 8 * length bs mod 5"
  obtain buffer where IH: "base32_loop [] 0 0 bs = (map base32_char (digits32 (8 * length bs div 5) (big_endian bs div 2 ^ bits)), buffer, bits)"
    "unat buffer mod 2 ^ bits = big_endian bs mod 2 ^ bits"
    using snoc by (auto simp: bits_def)
  define buffer' where "buffer' = push_bit 8 buffer OR ucast b"
  define N where "N = big_endian (bs @ [b])"
  have small: "bits \<le> 4" by (simp add: bits_def less_Suc_eq_le [symmetric])
  have low: "unat buffer' mod 2 ^ (bits + 8) = N mod 2 ^ (bits + 8)"
    using shifted [OF small, of buffer b] IH(2) octet_less [of b]
    by (simp add: buffer'_def N_def power_add mult.commute [of _ 256] mod_mult2_eq)
  have high: "N div 2 ^ (bits + 8) = big_endian bs div 2 ^ bits"
    using octet_less [of b] by (simp add: N_def power_add mult.commute [of _ 256] div_mult2_eq)
  have count: "8 * length (bs @ [b]) div 5 = 8 * length bs div 5 + (bits + 8) div 5" "8 * length (bs @ [b]) mod 5 = (bits + 8) mod 5"
  proof -
    have "8 * length (bs @ [b]) = 5 * (8 * length bs div 5) + (bits + 8)" by (simp add: bits_def)
    from arg_cong [OF this, of "\<lambda>n. n div 5"] arg_cong [OF this, of "\<lambda>n. n mod 5"]
    show "8 * length (bs @ [b]) div 5 = 8 * length bs div 5 + (bits + 8) div 5" "8 * length (bs @ [b]) mod 5 = (bits + 8) mod 5"
      by (simp_all only: div_mult_self4 mod_mult_self4 mod_mult_self2 div_mult_self2)
  qed
  have "drain (map base32_char (digits32 (8 * length bs div 5) (big_endian bs div 2 ^ bits))) buffer' (bits + 8) =
      (map base32_char (digits32 (8 * length bs div 5 + (bits + 8) div 5) (N div 2 ^ ((bits + 8) mod 5))), (bits + 8) mod 5)"
    using small low high by (intro drain_step [OF refl]) simp_all
  moreover have "unat buffer' mod 2 ^ ((bits + 8) mod 5) = N mod 2 ^ ((bits + 8) mod 5)"
  proof -
    have "unat buffer' mod 2 ^ (bits + 8) mod 2 ^ ((bits + 8) mod 5) = N mod 2 ^ (bits + 8) mod 2 ^ ((bits + 8) mod 5)"
      using low by simp
    then show ?thesis by (simp add: mod_mod_cancel le_imp_power_dvd)
  qed
  ultimately show ?case
    unfolding step IH(1) count by (simp add: buffer'_def [symmetric] N_def)
qed

lemma padding: "8 * ((n + 4) div 5) - (8 * n + 4) div 5 = (if (8 * n + 4) div 5 mod 8 = 0 then 0 else 8 - (8 * n + 4) div 5 mod (8 :: nat))"
proof -
  define q r where "q = n div 5" and "r = n mod 5"
  have "n = 5 * q + r" "r < 5" by (simp_all add: q_def r_def)
  then have n: "n = 5 * q + r" "r \<in> {0, 1, 2, 3, 4}" by auto
  have "(5 * q + s) div 5 = q + s div 5" "(8 * (5 * q + s) + 4) div 5 = 8 * q + (8 * s + 4) div 5"
    "(8 * q + t) mod 8 = t mod 8" for s t :: nat
    by (simp_all add: algebra_simps)
  from this(1) [of "r + 4"] this(2) [of r] this(3) n(2) show ?thesis
    by (auto simp: n(1) add.assoc)
qed

text \<open>
  The base32 text of an authenticator secret is the one RFC 4648 defines, on every input,
  although the encoder keeps only 32 bits of the bytes it has shifted in.
\<close>

theorem base32Encode_rfc: "base32Encode bs = rfc_base32 bs"
proof -
  define bits where "bits = 8 * length bs mod 5"
  define k where "k = 8 * length bs div 5"
  define N where "N = big_endian bs"
  obtain buffer where loop: "base32_loop [] 0 0 bs = (map base32_char (digits32 k (N div 2 ^ bits)), buffer, bits)"
    and rest: "unat buffer mod 2 ^ bits = N mod 2 ^ bits"
    using base32_loop_digits [of bs] by (auto simp: bits_def k_def N_def)
  have small: "bits \<le> 4" by (simp add: bits_def less_Suc_eq_le [symmetric])
  have total: "8 * length bs = 5 * k + bits" by (simp add: k_def bits_def)
  define k' where "k' = (8 * length bs + 4) div 5"
  define out where "out = (if 0 < bits then map base32_char (digits32 k (N div 2 ^ bits)) @ [base32_char (unat (push_bit (5 - bits) buffer AND 0x1F))]
    else map base32_char (digits32 k (N div 2 ^ bits)))"
  have digits: "out = map base32_char (digits32 k' (N * 2 ^ (5 * k' - 8 * length bs)))"
  proof (cases "bits = 0")
    case True
    then have "k' = k" using total unfolding k'_def by simp
    with True show ?thesis using total by (simp add: out_def)
  next
    case False
    then have k': "k' = Suc k" using total small unfolding k'_def by simp
    have shift: "5 * k' - 8 * length bs = 5 - bits" using total small by (simp add: k')
    have five: "(2 :: nat) ^ (5 - bits) * 2 ^ bits = 32"
      using small by (simp flip: power_add)
    have "N * 2 ^ (5 - bits) div 32 = N * 2 ^ (5 - bits) div (2 ^ (5 - bits) * 2 ^ bits)" using five by simp
    then have high: "N * 2 ^ (5 - bits) div 32 = N div 2 ^ bits" by (simp add: div_mult2_eq)
    have scaled: "(M * 2 ^ (5 - bits)) mod 32 = (M mod 2 ^ bits) * 2 ^ (5 - bits)" for M :: nat
      using mult_mod_right [of "2 ^ (5 - bits)" M "2 ^ bits"] unfolding five by (simp add: mult.commute)
    have "unat (push_bit (5 - bits) buffer AND 0x1F) = (unat buffer * 2 ^ (5 - bits)) mod 32"
    proof -
      have "push_bit (5 - bits) buffer AND 0x1F = take_bit 5 (push_bit (5 - bits) buffer)"
        by (simp only: take_bit_eq_mask mask_eq_decr_exp) simp
      moreover have "unat ((2 :: 32 word) ^ (5 - bits)) = 2 ^ (5 - bits)"
      proof -
        have "bits \<in> {1, 2, 3, 4}" using small False by auto
        then show ?thesis by auto
      qed
      ultimately show ?thesis
        by (simp only: unsigned_take_bit_eq push_bit_eq_mult unat_word_ariths)
          (simp add: take_bit_eq_mod mod_mod_cancel mod_simps)
    qed
    then have "unat (push_bit (5 - bits) buffer AND 0x1F) = N * 2 ^ (5 - bits) mod 32"
      using rest by (simp add: scaled)
    with False show ?thesis unfolding shift by (simp add: out_def k' high)
  qed
  have "length out = k'" by (simp add: digits)
  moreover have "8 * ((length bs + 4) div 5) - k' = (if k' mod 8 = 0 then 0 else 8 - k' mod 8)"
    unfolding k'_def by (rule padding)
  ultimately show ?thesis
    using digits unfolding base32Encode_def rfc_base32_def loop k'_def [symmetric] N_def [symmetric]
    by (simp add: out_def [symmetric] Let_def)
qed

end
