(* ===== verification/Credentials.thy ===== *)
theory Credentials
  imports Base32 Decodings
begin

text \<open>
  What an operator proves who they are with, and how it is kept: the one-time codes of
  \<^verbatim>\<open>src/identity/totp.ts\<close>, the recovery codes of \<^verbatim>\<open>recovery-codes.ts\<close>, the password hashes of
  \<^verbatim>\<open>password.ts\<close> and the sealed text of \<^verbatim>\<open>src/crypto/secret-box.ts\<close>.

  \<^verbatim>\<open>node:crypto\<close> is a parameter wherever it is called: HMAC-SHA1, SHA-256, scrypt, HKDF and
  AES-256-GCM are arguments, and what a property needs of one (the length of a digest, that an
  authenticated text opens to what was sealed) is a hypothesis of that property.
\<close>

section \<open>One-time codes\<close>

definition TOTP_SECRET_BYTES :: nat where "TOTP_SECRET_BYTES = 20"
definition TOTP_DIGITS :: nat where "TOTP_DIGITS = 6"
definition TOTP_STEP_SECONDS :: int where "TOTP_STEP_SECONDS = 30"
definition MS_PER_SECOND :: int where "MS_PER_SECOND = 1000"
definition MS_PER_MINUTE :: int where "MS_PER_MINUTE = 60 * MS_PER_SECOND"
definition MS_PER_HOUR :: int where "MS_PER_HOUR = 60 * MS_PER_MINUTE"
definition ISSUER :: string where "ISSUER = ''vaultgate''"
definition COUNTER_BYTES :: nat where "COUNTER_BYTES = 8"
definition WINDOW :: int where "WINDOW = 1"

text \<open>\<^verbatim>\<open>padStart(n, '0')\<close>.\<close>

definition pad_start :: "nat \<Rightarrow> string \<Rightarrow> string" where
  "pad_start n s = replicate (n - length s) (CHR ''0'') @ s"

text \<open>\<^verbatim>\<open>readUInt32BE\<close>, which throws beyond the end.\<close>

definition read_uint32be :: "octets \<Rightarrow> nat \<Rightarrow> nat option" where
  "read_uint32be bs offset = (if offset + 4 \<le> length bs then Some (le_value (rev (cut_at bs offset 4))) else None)"

text \<open>\<open>None\<close> is the \<^verbatim>\<open>RangeError\<close> of a counter that is not an unsigned 64-bit number or of a digest too short.\<close>

definition hotp :: "(octets \<Rightarrow> octets \<Rightarrow> octets) \<Rightarrow> octets \<Rightarrow> int \<Rightarrow> nat \<Rightarrow> string option" where
  "hotp hmac secret counter digits =
     (if counter < 0 \<or> 2 ^ 64 \<le> counter then None
      else
       (let digest = hmac secret (rev (le_bytes COUNTER_BYTES (nat counter))) in
        if digest = [] then None
        else map_option (\<lambda>binary. pad_start digits (nat_text (binary mod 2 ^ 31 mod 10 ^ digits)))
               (read_uint32be digest (unat (last digest) mod 16))))"

definition totpStep :: "int \<Rightarrow> int" where
  "totpStep timeMs = timeMs div (MS_PER_SECOND * TOTP_STEP_SECONDS)"

record TotpVerification =
  tv_secret :: octets
  tv_code :: string
  tv_nowMs :: int
  tv_lastStep :: "int option"

definition totp_shape :: "string \<Rightarrow> bool" where
  "totp_shape code \<longleftrightarrow> length code = 6 \<and> list_all is_digit code"

text \<open>The loop over the steps of the window: the steps already used are passed over before they are computed.\<close>

fun try_steps :: "(octets \<Rightarrow> octets \<Rightarrow> octets) \<Rightarrow> TotpVerification \<Rightarrow> int list \<Rightarrow> int option option" where
  "try_steps hmac v [] = Some None"
| "try_steps hmac v (step # steps) =
     (if (case tv_lastStep v of None \<Rightarrow> False | Some l \<Rightarrow> step \<le> l) then try_steps hmac v steps
      else
       (case hotp hmac (tv_secret v) step TOTP_DIGITS of
          None \<Rightarrow> None
        | Some code \<Rightarrow> if code = tv_code v then Some (Some step) else try_steps hmac v steps))"

definition verifyTotp :: "(octets \<Rightarrow> octets \<Rightarrow> octets) \<Rightarrow> TotpVerification \<Rightarrow> int option option" where
  "verifyTotp hmac v =
     (if \<not> totp_shape (tv_code v) then Some None
      else (let now = totpStep (tv_nowMs v) in try_steps hmac v [now - WINDOW .. now + WINDOW]))"

record Enrolment =
  en_secretBase32 :: string
  en_uri :: string

definition describeEnrolment :: "string option \<Rightarrow> octets \<Rightarrow> Enrolment" where
  "describeEnrolment account secret =
     (let secretBase32 = filter (\<lambda>c. c \<noteq> CHR ''='') (base32Encode secret);
          label = encodeURIComponent (ISSUER @ '':'' @ (case account of None \<Rightarrow> ''operator'' | Some a \<Rightarrow> a));
          query = join_with (CHR ''&'') (map (\<lambda>(k, v). formEncode k @ ''='' @ formEncode v)
            [(''secret'', secretBase32), (''issuer'', ISSUER), (''algorithm'', ''SHA1''),
             (''digits'', nat_text TOTP_DIGITS), (''period'', nat_text (nat TOTP_STEP_SECONDS))])
      in \<lparr>en_secretBase32 = secretBase32, en_uri = ''otpauth://totp/'' @ label @ ''?'' @ query\<rparr>)"

section \<open>Recovery codes\<close>

definition RECOVERY_CODE_COUNT :: nat where "RECOVERY_CODE_COUNT = 8"
definition RECOVERY_CODE_LENGTH :: nat where "RECOVERY_CODE_LENGTH = 10"

text \<open>\<^verbatim>\<open>digest('hex')\<close>.\<close>

definition hex_text :: "bytes \<Rightarrow> string" where
  "hex_text bs = concat (map (\<lambda>b. [hex_lower (char_code b div 16), hex_lower (char_code b mod 16)]) bs)"

text \<open>\<open>draw i\<close> is what the random source gives at its \<open>i\<close>-th call.\<close>

definition generateRecoveryCodes :: "(nat \<Rightarrow> nat \<Rightarrow> bytes) \<Rightarrow> nat \<Rightarrow> string list" where
  "generateRecoveryCodes draw i =
     map (\<lambda>k. randomBase32 (latin1 (draw (i + k) RECOVERY_CODE_LENGTH))) [0..<RECOVERY_CODE_COUNT]"

definition normaliseRecoveryCode :: "string \<Rightarrow> string" where
  "normaliseRecoveryCode s = filter (\<lambda>c. \<not> is_space c \<and> c \<noteq> CHR ''-'') (toUpperCase s)"

definition hashRecoveryCode :: "(bytes \<Rightarrow> bytes) \<Rightarrow> string \<Rightarrow> string" where
  "hashRecoveryCode sha256 code = hex_text (sha256 (utf8_encode (normaliseRecoveryCode code)))"

section \<open>What a code proves\<close>

lemma hotp_defined: "0 \<le> counter \<Longrightarrow> counter < 2 ^ 64 \<Longrightarrow> (\<And>k m. length (hmac k m) = 20) \<Longrightarrow> hotp hmac secret counter digits \<noteq> None"
proof -
  assume range: "0 \<le> counter" "counter < 2 ^ 64" and digest: "\<And>k m. length (hmac k m) = (20 :: nat)"
  have "unat (w :: octet) mod 16 + 4 \<le> 20" for w
    using mod_less_divisor [of 16 "unat w"] by linarith
  then have "read_uint32be (hmac secret m) (unat w mod 16) \<noteq> None" for m and w :: octet
    by (simp add: read_uint32be_def digest)
  moreover have "hmac secret m \<noteq> []" for m using digest [of secret m] by auto
  ultimately show ?thesis using range by (simp add: hotp_def Let_def)
qed

definition unused_step :: "int option \<Rightarrow> int \<Rightarrow> bool" where
  "unused_step last_step step \<longleftrightarrow> (case last_step of None \<Rightarrow> True | Some l \<Rightarrow> l < step)"

lemma try_steps_iff:
  "\<forall>step \<in> set steps. hotp hmac (tv_secret v) step TOTP_DIGITS \<noteq> None \<Longrightarrow>
   try_steps hmac v steps =
     Some (find (\<lambda>step. unused_step (tv_lastStep v) step \<and> hotp hmac (tv_secret v) step TOTP_DIGITS = Some (tv_code v)) steps)"
  by (induction steps) (auto simp: unused_step_def not_le split: option.splits)

lemma window_steps: "[n - WINDOW .. n + WINDOW] = [n - 1, n, n + 1]"
  by (simp add: WINDOW_def upto_rec1)

text \<open>
  From the second minute of 1970 on, a one-time code is accepted exactly when it has the shape
  of one, it is the code of a step at most one away from the present, and that step comes after the
  last one used; the earliest such step is the one recorded.
\<close>

theorem verifyTotp_exact:
  assumes "\<And>k m. length (hmac k m) = 20" "60000 \<le> tv_nowMs v" "tv_nowMs v < 2 ^ 64"
  shows "verifyTotp hmac v =
    Some (if totp_shape (tv_code v)
          then find (\<lambda>step. unused_step (tv_lastStep v) step \<and> hotp hmac (tv_secret v) step TOTP_DIGITS = Some (tv_code v))
                 [totpStep (tv_nowMs v) - 1, totpStep (tv_nowMs v), totpStep (tv_nowMs v) + 1]
          else None)"
proof -
  define now where "now = totpStep (tv_nowMs v)"
  have "1 \<le> now" "now + 1 < 2 ^ 64"
    using assms(2,3) by (simp_all add: now_def totpStep_def MS_PER_SECOND_def TOTP_STEP_SECONDS_def)
  moreover have "hotp hmac (tv_secret v) step TOTP_DIGITS \<noteq> None" if "0 \<le> step" "step < 2 ^ 64" for step
    using that assms(1) by (rule hotp_defined)
  ultimately have "\<forall>step \<in> set [now - 1, now, now + 1]. hotp hmac (tv_secret v) step TOTP_DIGITS \<noteq> None"
    by (simp del: not_None_eq)
  from try_steps_iff [OF this] show ?thesis
    unfolding verifyTotp_def now_def [symmetric] Let_def window_steps by simp
qed

theorem verifyTotp_exact_witness:
  "verifyTotp (\<lambda>k m. replicate 20 0) \<lparr>tv_secret = [], tv_code = ''000000'', tv_nowMs = 60000, tv_lastStep = Some 1\<rparr> = Some (Some 2)"
proof -
  have "totp_shape ''000000''" by code_simp
  moreover have "hotp (\<lambda>k m. replicate 20 0) [] 2 TOTP_DIGITS = Some ''000000''"
  proof -
    have "nat_text 0 = ''0''" by code_simp
    moreover have "pad_start 6 ''0'' = ''000000''" by code_simp
    moreover have "read_uint32be (replicate 20 0) 0 = Some 0" by code_simp
    ultimately show ?thesis by (simp add: hotp_def TOTP_DIGITS_def)
  qed
  moreover have "totpStep 60000 = 2" by code_simp
  ultimately show ?thesis
    using verifyTotp_exact [where hmac = "\<lambda>k m. replicate 20 0"
        and v = "\<lparr>tv_secret = [], tv_code = ''000000'', tv_nowMs = 60000, tv_lastStep = Some 1\<rparr>"]
    by (simp add: unused_step_def)
qed

end
