(* ===== verification/Passwords.thy ===== *)
theory Passwords
  imports Credentials
begin

text \<open>
  \<^verbatim>\<open>src/identity/password.ts\<close> and \<^verbatim>\<open>common-passwords.ts\<close>: the policy a new password meets and the
  text a hash is stored as. scrypt is a parameter that may throw (\<open>None\<close>: parameters it refuses);
  the list of common passwords is data, the parameter \<open>entries\<close>.
\<close>

section \<open>The policy\<close>

definition PASSWORD_MIN_LENGTH :: nat where "PASSWORD_MIN_LENGTH = 12"
definition PASSWORD_MAX_LENGTH :: nat where "PASSWORD_MAX_LENGTH = 256"

definition isCommonPassword :: "string list \<Rightarrow> string \<Rightarrow> bool" where
  "isCommonPassword entries s \<longleftrightarrow> toLowerCase s \<in> set (map toLowerCase entries)"

definition checkPasswordPolicy :: "string list \<Rightarrow> string \<Rightarrow> (string, string) result" where
  "checkPasswordPolicy entries password =
     (if length password < PASSWORD_MIN_LENGTH then fail (''use at least '' @ nat_text PASSWORD_MIN_LENGTH @ '' characters'')
      else if PASSWORD_MAX_LENGTH < length password then fail (''use at most '' @ nat_text PASSWORD_MAX_LENGTH @ '' characters'')
      else if isCommonPassword entries password then fail ''that password is on the list of most common passwords''
      else ok password)"

section \<open>The stored text\<close>

definition SALT_BYTES :: nat where "SALT_BYTES = 32"
definition HASH_BYTES :: nat where "HASH_BYTES = 64"
definition FIELD_COUNT :: nat where "FIELD_COUNT = 6"

record ScryptParameters =
  cost :: nat
  blockSize :: nat
  parallelism :: nat

definition CURRENT_PARAMETERS :: ScryptParameters where
  "CURRENT_PARAMETERS = \<lparr>cost = 2 ^ 17, blockSize = 8, parallelism = 1\<rparr>"

type_synonym Scrypt = "string \<Rightarrow> bytes \<Rightarrow> ScryptParameters \<Rightarrow> bytes option"

definition hash_text :: "ScryptParameters \<Rightarrow> bytes \<Rightarrow> bytes \<Rightarrow> string" where
  "hash_text parameters salt hash =
     join_with (CHR ''$'')
       [''scrypt'', nat_text (cost parameters), nat_text (blockSize parameters), nat_text (parallelism parameters),
        base64 salt, base64 hash]"

definition hashPassword :: "Scrypt \<Rightarrow> string \<Rightarrow> bytes \<Rightarrow> ScryptParameters \<Rightarrow> string option" where
  "hashPassword scrypt password salt parameters = map_option (hash_text parameters salt) (scrypt password salt parameters)"

text \<open>
  \<^verbatim>\<open>Number(text)\<close> where it is a non-negative integer: the empty text is 0; a numeral in hexadecimal,
  octal or binary; or a decimal numeral whose fraction and exponent leave an integer. A fraction
  beyond the 53 bits of a double, which \<^verbatim>\<open>Number\<close> would round away, makes no integer here.
\<close>

definition radix_value :: "nat \<Rightarrow> string \<Rightarrow> nat option" where
  "radix_value r s =
     (if s \<noteq> [] \<and> list_all (\<lambda>c. is_hex c \<and> hex_value c < r) s then Some (foldl (\<lambda>n c. r * n + hex_value c) 0 s) else None)"

definition exponent_of :: "string \<Rightarrow> int option" where
  "exponent_of s =
     (case s of
        [] \<Rightarrow> Some 0
      | c # cs \<Rightarrow>
        (if c \<noteq> CHR ''e'' \<and> c \<noteq> CHR ''E'' then None
         else
          (let signed = cs \<noteq> [] \<and> (hd cs = CHR ''+'' \<or> hd cs = CHR ''-'');
               ds = (if signed then tl cs else cs)
           in if ds = [] \<or> \<not> list_all is_digit ds then None
              else Some (if signed \<and> hd cs = CHR ''-'' then - int (decimal ds) else int (decimal ds)))))"

definition scaled_integer :: "nat \<Rightarrow> int \<Rightarrow> nat option" where
  "scaled_integer m e =
     (if 0 \<le> e then Some (m * 10 ^ nat e)
      else if m mod 10 ^ nat (- e) = 0 then Some (m div 10 ^ nat (- e)) else None)"

definition decimal_number :: "string \<Rightarrow> nat option" where
  "decimal_number s =
     (let whole = takeWhile is_digit s;
          rest = dropWhile is_digit s;
          fraction = (case rest of [] \<Rightarrow> [] | c # cs \<Rightarrow> if c = CHR ''.'' then takeWhile is_digit cs else []);
          behind = (case rest of [] \<Rightarrow> [] | c # cs \<Rightarrow> if c = CHR ''.'' then dropWhile is_digit cs else rest)
      in if whole @ fraction = [] then None
         else Option.bind (exponent_of behind) (\<lambda>e. scaled_integer (decimal (whole @ fraction)) (e - int (length fraction))))"

definition natural_number :: "string \<Rightarrow> nat option" where
  "natural_number s0 =
     (let s = trim s0 in
      (case s of
         [] \<Rightarrow> Some 0
       | [c] \<Rightarrow> decimal_number s
       | c # x # ds \<Rightarrow>
         (if c = CHR ''0'' \<and> lower_char x = CHR ''x'' then radix_value 16 ds
          else if c = CHR ''0'' \<and> lower_char x = CHR ''o'' then radix_value 8 ds
          else if c = CHR ''0'' \<and> lower_char x = CHR ''b'' then radix_value 2 ds
          else if c = CHR ''+'' then decimal_number (x # ds)
          else decimal_number s)))"

definition positiveInteger :: "string \<Rightarrow> nat option" where
  "positiveInteger s = (case natural_number s of None \<Rightarrow> None | Some n \<Rightarrow> if 0 < n \<and> n < 2 ^ 53 then Some n else None)"

record StoredHash =
  sh_parameters :: ScryptParameters
  sh_salt :: bytes
  sh_hash :: bytes

definition parseStoredHash :: "string \<Rightarrow> StoredHash option" where
  "parseStoredHash stored =
     (case split_on (CHR ''$'') stored of
        [name, c, b, p, salt, hash] \<Rightarrow>
          (if name \<noteq> ''scrypt'' then None
           else
            (case (positiveInteger c, positiveInteger b, positiveInteger p) of
               (Some cost', Some blockSize', Some parallelism') \<Rightarrow>
                 Some \<lparr>sh_parameters = \<lparr>cost = cost', blockSize = blockSize', parallelism = parallelism'\<rparr>,
                       sh_salt = base64_decode salt, sh_hash = base64_decode hash\<rparr>
             | _ \<Rightarrow> None))
      | _ \<Rightarrow> None)"

text \<open>\<open>None\<close>: scrypt threw.\<close>

definition isCorrectPassword :: "Scrypt \<Rightarrow> string \<Rightarrow> string \<Rightarrow> bool option" where
  "isCorrectPassword scrypt password stored =
     (case parseStoredHash stored of
        None \<Rightarrow> Some False
      | Some parsed \<Rightarrow>
        (if length (sh_hash parsed) \<noteq> HASH_BYTES then Some False
         else map_option (\<lambda>candidate. candidate = sh_hash parsed) (scrypt password (sh_salt parsed) (sh_parameters parsed))))"

definition requiresRehash :: "string \<Rightarrow> ScryptParameters \<Rightarrow> bool" where
  "requiresRehash stored now =
     (case parseStoredHash stored of
        None \<Rightarrow> True
      | Some parsed \<Rightarrow>
        cost (sh_parameters parsed) < cost now \<or> blockSize (sh_parameters parsed) < blockSize now \<or>
        parallelism (sh_parameters parsed) < parallelism now)"

lemma natural_number_digits: "natural_number (nat_text n) = Some n"
proof -
  have digits: "list_all is_digit (nat_text n)" by (rule nat_text_digits)
  then have all: "\<forall>c \<in> set (nat_text n). is_digit c" by (simp add: list_all_iff)
  have no_space: "is_digit c \<Longrightarrow> \<not> is_space c" for c by (auto simp: is_digit_def is_space_def)
  have "dropWhile is_space s = s" if "\<forall>c \<in> set s. is_digit c" for s
    using that no_space by (cases s) auto
  then have trim: "trim (nat_text n) = nat_text n" using all by (simp add: trim_def)
  have run: "takeWhile is_digit (nat_text n) = nat_text n" "dropWhile is_digit (nat_text n) = []"
    using all by (simp_all add: takeWhile_eq_all_conv dropWhile_eq_Nil_conv)
  have "decimal_number (nat_text n) = Some n"
    unfolding decimal_number_def run by (simp add: exponent_of_def scaled_integer_def)
  moreover have "is_digit x \<Longrightarrow> lower_char x \<notin> {CHR ''x'', CHR ''o'', CHR ''b''} \<and> x \<noteq> CHR ''+''" for x
    by (auto simp: lower_char_def is_digit_def is_upper_def char_code_def)
  ultimately show ?thesis
    using all by (auto simp: natural_number_def trim Let_def split: list.splits)
qed

lemma positiveInteger_text: "0 < n \<Longrightarrow> n < 2 ^ 53 \<Longrightarrow> positiveInteger (nat_text n) = Some n"
  by (simp add: positiveInteger_def natural_number_digits)

lemma no_dollar: "CHR ''$'' \<notin> set (nat_text n)" "CHR ''$'' \<notin> set (base64 bs)"
proof -
  show "CHR ''$'' \<notin> set (nat_text n)"
    using nat_text_digits [of n] by (auto simp: list_all_iff is_digit_def char_code_def)
next
  have "is_base64_text (base64 bs)" by simp
  show "CHR ''$'' \<notin> set (base64 bs)"
  proof
    assume "CHR ''$'' \<in> set (base64 bs)"
    then obtain k where "CHR ''$'' = base64_char False k" "k < 64"
      using sextets_of_bytes_less [of bs] by (auto simp: base64_def list_all_iff)
    then have "is_base64_char (CHR ''$'')" using base64_char_ok [of k] by simp
    then show False by (simp add: is_base64_char_def is_alnum_def char_class_defs)
  qed
qed

definition usable_parameters :: "ScryptParameters \<Rightarrow> bool" where
  "usable_parameters p \<longleftrightarrow>
     0 < cost p \<and> cost p < 2 ^ 53 \<and> 0 < blockSize p \<and> blockSize p < 2 ^ 53 \<and> 0 < parallelism p \<and> parallelism p < 2 ^ 53"

lemma parse_hash_text:
  "usable_parameters p \<Longrightarrow> parseStoredHash (hash_text p salt hash) = Some \<lparr>sh_parameters = p, sh_salt = salt, sh_hash = hash\<rparr>"
  unfolding parseStoredHash_def hash_text_def
  by (subst split_join) (auto simp: no_dollar positiveInteger_text usable_parameters_def)

text \<open>
  A stored hash accepts exactly the passwords that derive the same bytes from its salt and its
  parameters, so the password it was made from is accepted, and the parameters it was made with are
  the ones that decide whether it is upgraded.
\<close>

theorem stored_hash_verifies:
  assumes "usable_parameters p" "hashPassword scrypt password salt p = Some stored"
    and "\<And>w s q h. scrypt w s q = Some h \<Longrightarrow> length h = HASH_BYTES"
  shows "isCorrectPassword scrypt attempt stored = map_option (\<lambda>h. Some h = scrypt password salt p) (scrypt attempt salt p) \<and>
    isCorrectPassword scrypt password stored = Some True \<and>
    requiresRehash stored now = (cost p < cost now \<or> blockSize p < blockSize now \<or> parallelism p < parallelism now)"
proof -
  obtain h where h: "scrypt password salt p = Some h" "stored = hash_text p salt h"
    using assms(2) by (auto simp: hashPassword_def)
  then have "parseStoredHash stored = Some \<lparr>sh_parameters = p, sh_salt = salt, sh_hash = h\<rparr>"
    using parse_hash_text [OF assms(1)] by simp
  moreover have "length h = HASH_BYTES" using assms(3) h(1) .
  ultimately show ?thesis
    using h(1) by (simp add: isCorrectPassword_def requiresRehash_def)
qed

theorem stored_hash_verifies_witness:
  "isCorrectPassword (\<lambda>w s q. Some (replicate 64 (hd w))) ''abc'' ''scrypt$2$8$1$$YWFhYWFhYWFhYWFhYWFhYWFhYWFhYWFhYWFhYWFhYWFhYWFhYWFhYWFhYWFhYWFhYWFhYWFhYWFhYWFhYWFhYQ=='' = Some True"
proof -
  let ?scrypt = "\<lambda>w s q. Some (replicate 64 (hd w)) :: bytes option"
  let ?p = "\<lparr>cost = 2, blockSize = 8, parallelism = 1\<rparr>"
  have "hashPassword ?scrypt ''abc'' [] ?p =
      Some ''scrypt$2$8$1$$YWFhYWFhYWFhYWFhYWFhYWFhYWFhYWFhYWFhYWFhYWFhYWFhYWFhYWFhYWFhYWFhYWFhYWFhYWFhYWFhYWFhYQ==''"
    by code_simp
  moreover have "usable_parameters ?p" by (simp add: usable_parameters_def)
  moreover have "?scrypt w s q = Some h \<Longrightarrow> length h = HASH_BYTES" for w s q h
    by (auto simp: HASH_BYTES_def)
  ultimately show ?thesis
    using stored_hash_verifies [THEN conjunct2, THEN conjunct1] by blast
qed

end
