(* ===== verification/SecretBox.thy ===== *)
theory SecretBox
  imports Decodings
begin

text \<open>
  \<^verbatim>\<open>src/crypto/secret-box.ts\<close>: secrets sealed under a key derived from the root secret, as the text
  \<^verbatim>\<open>v1.<iv>.<ciphertext>.<tag>\<close>. HKDF-SHA256 and AES-256-GCM of \<^verbatim>\<open>node:crypto\<close> are the parameters of
  \<open>Crypto\<close>: \<open>gcm_open\<close> is \<open>None\<close> where \<^verbatim>\<open>final()\<close> throws because the tag does not fit.
\<close>

definition VERSION :: string where "VERSION = ''v1''"
definition KEY_BYTES :: nat where "KEY_BYTES = 32"
definition IV_BYTES :: nat where "IV_BYTES = 12"
definition TAG_BYTES :: nat where "TAG_BYTES = 16"
definition PART_COUNT :: nat where "PART_COUNT = 4"

definition TOTP_SECRET_INFO :: string where "TOTP_SECRET_INFO = ''vaultgate/totp-secret/v1''"
definition STATE_COOKIE_INFO :: string where "STATE_COOKIE_INFO = ''vaultgate/state-cookie/v1''"
definition VAULT_CLIENT_SECRET_INFO :: string where "VAULT_CLIENT_SECRET_INFO = ''vaultgate/vault-client-secret/v1''"
definition VAULT_MASTER_PASSWORD_INFO :: string where "VAULT_MASTER_PASSWORD_INFO = ''vaultgate/vault-master-password/v1''"

record Crypto =
  hkdf :: "bytes \<Rightarrow> bytes \<Rightarrow> string \<Rightarrow> nat \<Rightarrow> bytes"
  gcm_seal :: "bytes \<Rightarrow> bytes \<Rightarrow> bytes \<Rightarrow> bytes \<times> bytes"
  gcm_open :: "bytes \<Rightarrow> bytes \<Rightarrow> bytes \<Rightarrow> bytes \<Rightarrow> bytes option"

definition deriveKey :: "Crypto \<Rightarrow> bytes \<Rightarrow> string \<Rightarrow> bytes" where
  "deriveKey C rootKey info = hkdf C rootKey [] info KEY_BYTES"

record SecretBox =
  box_crypto :: Crypto
  box_key :: bytes

definition createSecretBox :: "Crypto \<Rightarrow> bytes \<Rightarrow> string \<Rightarrow> SecretBox" where
  "createSecretBox C rootKey info = \<lparr>box_crypto = C, box_key = deriveKey C rootKey info\<rparr>"

text \<open>\<open>iv\<close> is what the random source gives for \<open>IV_BYTES\<close>.\<close>

definition box_seal :: "SecretBox \<Rightarrow> bytes \<Rightarrow> bytes \<Rightarrow> string" where
  "box_seal box iv plaintext =
     (case gcm_seal (box_crypto box) (box_key box) iv plaintext of
        (ciphertext, tag) \<Rightarrow> join_with (CHR ''.'') (VERSION # map base64url [iv, ciphertext, tag]))"

definition box_open :: "SecretBox \<Rightarrow> string \<Rightarrow> bytes option" where
  "box_open box text =
     (let parts = split_on (CHR ''.'') text in
      if length parts \<noteq> PART_COUNT \<or> parts ! 0 \<noteq> VERSION then None
      else
       (let iv = base64_decode (parts ! 1);
            ciphertext = base64_decode (parts ! 2);
            tag = base64_decode (parts ! 3)
        in if length iv \<noteq> IV_BYTES \<or> length tag \<noteq> TAG_BYTES then None
           else gcm_open (box_crypto box) (box_key box) iv ciphertext tag))"

text \<open>What AES-256-GCM promises: a tag of 16 bytes, and an untouched text opens to what was sealed.\<close>

definition gcm_works :: "Crypto \<Rightarrow> bool" where
  "gcm_works C \<longleftrightarrow> (\<forall>key iv plaintext. case gcm_seal C key iv plaintext of
     (ciphertext, tag) \<Rightarrow> length tag = TAG_BYTES \<and> gcm_open C key iv ciphertext tag = Some plaintext)"

lemma no_dot: "CHR ''.'' \<notin> set (base64url bs)"
proof
  assume "CHR ''.'' \<in> set (base64url bs)"
  then obtain k where k: "CHR ''.'' = base64_char True k" "k < 64"
    using sextets_of_bytes_less [of bs] by (auto simp: base64url_def)
  have "base64_value (base64_char True k) = Some k" using base64_value_char k(2) by simp
  then have "base64_value (CHR ''.'') = Some k" using k(1) by simp
  then show False by (simp add: base64_value_def char_class_defs)
qed

text \<open>
  A sealed secret opens to what was sealed in the box of the same purpose, and a text of another
  number of parts, of another version, or with an initialisation vector or a tag of another length
  never reaches the cipher.
\<close>

theorem secret_box_opens:
  assumes "gcm_works C" "length iv = IV_BYTES"
  shows "box_open (createSecretBox C rootKey info) (box_seal (createSecretBox C rootKey info) iv plaintext) = Some plaintext \<and>
    (box_open (createSecretBox C rootKey info) s \<noteq> None \<longrightarrow>
      (\<exists>a b c. s = join_with (CHR ''.'') [VERSION, a, b, c] \<and> length (base64_decode a) = IV_BYTES \<and>
        length (base64_decode c) = TAG_BYTES \<and>
        box_open (createSecretBox C rootKey info) s =
          gcm_open C (deriveKey C rootKey info) (base64_decode a) (base64_decode b) (base64_decode c)))"
proof (intro conjI impI)
  obtain ciphertext tag where sealed: "gcm_seal C (deriveKey C rootKey info) iv plaintext = (ciphertext, tag)"
    by (cases "gcm_seal C (deriveKey C rootKey info) iv plaintext")
  then have "length tag = TAG_BYTES" "gcm_open C (deriveKey C rootKey info) iv ciphertext tag = Some plaintext"
    using assms(1) [unfolded gcm_works_def, THEN spec [of _ "deriveKey C rootKey info"], THEN spec [of _ iv], THEN spec [of _ plaintext]]
    by simp_all
  moreover have "split_on (CHR ''.'') (join_with (CHR ''.'') [VERSION, base64url iv, base64url ciphertext, base64url tag]) =
      [VERSION, base64url iv, base64url ciphertext, base64url tag]"
    by (rule split_join) (auto simp: no_dot VERSION_def)
  ultimately show "box_open (createSecretBox C rootKey info) (box_seal (createSecretBox C rootKey info) iv plaintext) = Some plaintext"
    using assms(2) sealed by (simp add: box_open_def box_seal_def createSecretBox_def PART_COUNT_def del: join_with.simps)
next
  assume opens: "box_open (createSecretBox C rootKey info) s \<noteq> None"
  then have parts: "length (split_on (CHR ''.'') s) = 4" "split_on (CHR ''.'') s ! 0 = VERSION"
    by (auto simp: box_open_def PART_COUNT_def Let_def split: if_splits)
  then obtain v a b c where p: "split_on (CHR ''.'') s = [v, a, b, c]"
    by (auto simp: length_Suc_conv numeral_eq_Suc)
  then have "s = join_with (CHR ''.'') [v, a, b, c]" using join_split [of "CHR ''.''" s] by simp
  with p parts opens show "\<exists>a b c. s = join_with (CHR ''.'') [VERSION, a, b, c] \<and> length (base64_decode a) = IV_BYTES \<and>
      length (base64_decode c) = TAG_BYTES \<and>
      box_open (createSecretBox C rootKey info) s =
        gcm_open C (deriveKey C rootKey info) (base64_decode a) (base64_decode b) (base64_decode c)"
    by (intro exI [of _ a] exI [of _ b] exI [of _ c])
      (auto simp: box_open_def createSecretBox_def PART_COUNT_def Let_def split: if_splits)
qed

theorem secret_box_opens_witness:
  "box_open (createSecretBox \<lparr>hkdf = \<lambda>k s i n. k, gcm_seal = \<lambda>k iv p. (p, replicate 16 (CHR ''t'')),
      gcm_open = \<lambda>k iv c t. if t = replicate 16 (CHR ''t'') then Some c else None\<rparr> ''root'' TOTP_SECRET_INFO)
    (box_seal (createSecretBox \<lparr>hkdf = \<lambda>k s i n. k, gcm_seal = \<lambda>k iv p. (p, replicate 16 (CHR ''t'')),
      gcm_open = \<lambda>k iv c t. if t = replicate 16 (CHR ''t'') then Some c else None\<rparr> ''root'' TOTP_SECRET_INFO)
      (replicate 12 (CHR ''i'')) ''secret'') = Some ''secret''"
  using secret_box_opens [where C = "\<lparr>hkdf = \<lambda>k s i n. k, gcm_seal = \<lambda>k iv p. (p, replicate 16 (CHR ''t'')),
      gcm_open = \<lambda>k iv c t. if t = replicate 16 (CHR ''t'') then Some c else None\<rparr>"
      and iv = "replicate 12 (CHR ''i'')" and rootKey = "''root''" and info = TOTP_SECRET_INFO and plaintext = "''secret''"]
  by (simp add: gcm_works_def TAG_BYTES_def IV_BYTES_def)

end
