(* ===== verification/Browser.thy ===== *)
theory Browser
  imports Passwords SecretBox
begin

text \<open>
  What a browser request carries, \<^verbatim>\<open>src/identity\<close>: the destination after a sign-in
  (\<^verbatim>\<open>provider.ts\<close>), the address it names (\<^verbatim>\<open>email.ts\<close>), its cookies (\<^verbatim>\<open>sessions.ts\<close>), and the two
  checks of a state-changing request (\<^verbatim>\<open>csrf.ts\<close>). The origin of the public URL is the parameter
  that \<^verbatim>\<open>new URL\<close> gives.
\<close>

section \<open>The destination after a sign-in\<close>

definition safeNextPath :: "string option \<Rightarrow> string \<Rightarrow> string" where
  "safeNextPath candidate fallback =
     (case candidate of
        None \<Rightarrow> fallback
      | Some c \<Rightarrow>
        (if \<not> prefix ''/'' c \<or> prefix ''//'' c then fallback
         else if CHR 0x5C \<in> set c then fallback else c))"

definition ACCOUNT_PATH :: string where "ACCOUNT_PATH = ''/account''"

definition loginLocation :: "string \<Rightarrow> string \<Rightarrow> string" where
  "loginLocation pathname search = ''/login?next='' @ encodeURIComponent (safeNextPath (Some (pathname @ search)) ACCOUNT_PATH)"

text \<open>
  What a browser makes of a \<^verbatim>\<open>Location\<close> header against an https page (the WHATWG URL standard): it
  drops the controls and spaces in front and every tab and newline. What is left stays on the page's
  origin when it names neither a scheme (a letter, then letters, digits, plus, minus or dot, up to a
  colon) nor a host (two slashes of either kind in front).
\<close>

definition url_input :: "string \<Rightarrow> string" where
  "url_input s = filter (\<lambda>c. c \<noteq> CHR 0x09 \<and> c \<noteq> CHR 0x0A \<and> c \<noteq> CHR 0x0D) (dropWhile (\<lambda>c. char_code c \<le> 32) s)"

definition scheme_letter :: "char \<Rightarrow> bool" where
  "scheme_letter c \<longleftrightarrow> 65 \<le> char_code c \<and> char_code c \<le> 90 \<or> 97 \<le> char_code c \<and> char_code c \<le> 122"

definition scheme_char :: "char \<Rightarrow> bool" where
  "scheme_char c \<longleftrightarrow> scheme_letter c \<or> 48 \<le> char_code c \<and> char_code c \<le> 57 \<or> c \<in> {CHR ''+'', CHR ''-'', CHR ''.''}"

definition names_scheme :: "string \<Rightarrow> bool" where
  "names_scheme s \<longleftrightarrow>
     (case s of [] \<Rightarrow> False | c # _ \<Rightarrow> scheme_letter c \<and> prefix '':'' (dropWhile scheme_char s))"

definition names_host :: "string \<Rightarrow> bool" where
  "names_host s \<longleftrightarrow> (case s of a # b # _ \<Rightarrow> a \<in> {CHR ''/'', CHR 0x5C} \<and> b \<in> {CHR ''/'', CHR 0x5C} | _ \<Rightarrow> False)"

definition stays_here :: "string \<Rightarrow> bool" where
  "stays_here s \<longleftrightarrow> \<not> names_scheme (url_input s) \<and> \<not> names_host (url_input s)"

lemma url_input_path: "prefix ''/'' c \<Longrightarrow> set c \<inter> {CHR 0x09, CHR 0x0A, CHR 0x0D} = {} \<Longrightarrow> url_input c = c"
  by (cases c) (auto simp: url_input_def char_code_def filter_id_conv)

text \<open>
  C29: A destination without a tab or a newline in it stays on this origin: an absolute URL, a
  reference that names a host with slashes of either kind and everything else that is not a path
  becomes the fallback, and a path of this origin that has no backslash in it is kept as it is.
\<close>

theorem safeNextPath_local:
  assumes "set c \<inter> {CHR 0x09, CHR 0x0A, CHR 0x0D} = {}" "stays_here fallback"
  shows "stays_here (safeNextPath (Some c) fallback) \<and>
    safeNextPath (Some c) fallback = (if prefix ''/'' c \<and> stays_here c \<and> CHR 0x5C \<notin> set c then c else fallback)"
proof (cases "prefix ''/'' c")
  case True
  have "stays_here c \<longleftrightarrow> \<not> names_host c"
    unfolding stays_here_def url_input_path [OF True assms(1)]
    using True by (cases c) (auto simp: names_scheme_def scheme_letter_def char_code_def)
  moreover have "CHR 0x5C \<notin> set c \<Longrightarrow> names_host c \<longleftrightarrow> prefix ''//'' c"
    using True by (cases c; cases "tl c") (auto simp: names_host_def)
  ultimately show ?thesis using True assms(2) by (auto simp: safeNextPath_def)
qed (use assms(2) in \<open>simp add: safeNextPath_def\<close>)

theorem safeNextPath_local_witness:
  "safeNextPath (Some ''/oauth/authorize/x?y=1'') ACCOUNT_PATH = ''/oauth/authorize/x?y=1'' \<and>
   stays_here (safeNextPath (Some ''https://evil.example'') ACCOUNT_PATH)"
proof -
  have "set ''/oauth/authorize/x?y=1'' \<inter> {CHR 0x09, CHR 0x0A, CHR 0x0D} = {}"
    "set ''https://evil.example'' \<inter> {CHR 0x09, CHR 0x0A, CHR 0x0D} = {}" by auto
  moreover have "stays_here ACCOUNT_PATH" "stays_here ''/oauth/authorize/x?y=1''" by code_simp+
  ultimately show ?thesis
    using safeNextPath_local [of "''/oauth/authorize/x?y=1''" ACCOUNT_PATH] safeNextPath_local [of "''https://evil.example''" ACCOUNT_PATH]
    by simp
qed

text \<open>What the specification rejects, and what it keeps.\<close>

lemma stays_here_examples:
  "\<not> stays_here ''https://evil.example''" "\<not> stays_here ''javascript:alert(1)''" "\<not> stays_here ''  //evil.example''"
  "\<not> stays_here (''/'' @ [CHR 0x5C] @ ''evil.example'')" "stays_here ''/login?next=https://evil.example''"
  by code_simp+

text \<open>A tab between the two slashes passes the check and is dropped by the browser.\<close>

lemma tab_leaves_origin:
  "safeNextPath (Some (''/'' @ [CHR 0x09] @ ''/evil.example'')) ACCOUNT_PATH = ''/'' @ [CHR 0x09] @ ''/evil.example''"
  "url_input (''/'' @ [CHR 0x09] @ ''/evil.example'') = ''//evil.example''"
  "\<not> stays_here (safeNextPath (Some (''/'' @ [CHR 0x09] @ ''/evil.example'')) ACCOUNT_PATH)"
  by code_simp+

section \<open>The address\<close>

definition MAX_EMAIL_LENGTH :: nat where "MAX_EMAIL_LENGTH = 254"

text \<open>The class \<^verbatim>\<open>[\s\p{Cc}]\<close>.\<close>

definition space_or_control :: "char \<Rightarrow> bool" where
  "space_or_control c \<longleftrightarrow> is_space c \<or> char_code c < 32 \<or> (127 \<le> char_code c \<and> char_code c < 160)"

text \<open>\<^verbatim>\<open>indexOf\<close> and \<^verbatim>\<open>lastIndexOf\<close> of one character, -1 where it does not occur.\<close>

definition index_char :: "char \<Rightarrow> string \<Rightarrow> int" where
  "index_char c s = (if c \<in> set s then int (length (before_first c s)) else -1)"

definition last_index_char :: "char \<Rightarrow> string \<Rightarrow> int" where
  "last_index_char c s = (if c \<in> set s then int (length s) - 1 - int (length (before_first c (rev s))) else -1)"

definition normaliseEmail :: "string \<Rightarrow> (string, string) result" where
  "normaliseEmail raw' =
     (let email = toLowerCase (trim raw');
          place = index_char (CHR ''@'') email;
          domain = drop (nat (place + 1)) email;
          dot = index_char (CHR ''.'') domain
      in if length email \<le> MAX_EMAIL_LENGTH \<and> 0 < place \<and> place = last_index_char (CHR ''@'') email \<and> 0 < dot \<and>
            dot < int (length domain) - 1 \<and> \<not> list_ex space_or_control email
         then ok email else fail ''enter a valid e-mail address'')"

section \<open>Cookies\<close>

record CookiePolicy =
  sessionCookieName :: string
  stateCookieName :: string
  cp_isSecure :: bool

text \<open>\<open>https\<close>: whether the scheme of the public URL is \<^verbatim>\<open>https:\<close>.\<close>

definition cookiePolicyFor :: "bool \<Rightarrow> CookiePolicy" where
  "cookiePolicyFor https =
     (let pre = (if https then ''__Host-'' else []) in
      \<lparr>sessionCookieName = pre @ ''vg_session'', stateCookieName = pre @ ''vg_state'', cp_isSecure = https\<rparr>)"

text \<open>\<^verbatim>\<open>parts.join('; ')\<close>.\<close>

fun join_attributes :: "string list \<Rightarrow> string" where
  "join_attributes [] = []"
| "join_attributes [x] = x"
| "join_attributes (x # y # ys) = x @ ''; '' @ join_attributes (y # ys)"

definition serialiseCookie :: "string \<Rightarrow> string \<Rightarrow> bool \<Rightarrow> nat \<Rightarrow> string" where
  "serialiseCookie name v secure maxAge =
     join_attributes ([name @ ''='' @ v, ''Path=/'', ''HttpOnly'', ''SameSite=Lax''] @ (if secure then [''Secure''] else []) @
       [''Max-Age='' @ nat_text maxAge])"

text \<open>A \<^verbatim>\<open>Map\<close>: a name set again keeps the later value.\<close>

definition cookie_pair :: "string \<Rightarrow> (string \<times> string) option" where
  "cookie_pair pair =
     (let place = index_char (CHR ''='') pair;
          name = trim (take (nat (max place 0)) pair)
      in if name = [] then None else Some (name, trim (drop (nat (place + 1)) pair)))"

definition parseCookies :: "string option \<Rightarrow> string \<Rightarrow> string option" where
  "parseCookies header =
     map_of (rev (List.map_filter cookie_pair (split_on (CHR '';'') (case header of None \<Rightarrow> [] | Some h \<Rightarrow> h))))"

text \<open>What a browser sends back: the pairs it keeps, in any order, joined by a semicolon and a space.\<close>

definition cookie_header :: "(string \<times> string) list \<Rightarrow> string" where
  "cookie_header kept = join_attributes (map (\<lambda>(n, v). n @ ''='' @ v) kept)"

section \<open>The checks of a state-changing request\<close>

text \<open>\<open>headers\<close> is \<^verbatim>\<open>Headers.get\<close> with names in lower case.\<close>

definition isSameOriginRequest :: "(string \<Rightarrow> string option) \<Rightarrow> string \<Rightarrow> bool" where
  "isSameOriginRequest headers publicOrigin =
     (let origin = headers ''origin'' in
      if origin = None \<or> origin = Some ''null'' then headers ''sec-fetch-site'' = Some ''same-origin''
      else origin = Some publicOrigin)"

definition isValidCsrfToken :: "string option \<Rightarrow> string \<Rightarrow> bool" where
  "isValidCsrfToken submitted expected =
     (case submitted of
        None \<Rightarrow> False
      | Some s \<Rightarrow>
        (let presented = utf8_encode s; bound = utf8_encode expected in
         length presented = length bound \<and> presented = bound))"

lemma isValidCsrfToken_iff: "isValidCsrfToken submitted expected \<longleftrightarrow> submitted = Some expected"
  by (auto simp: isValidCsrfToken_def Let_def split: option.splits dest: arg_cong [of _ _ utf8_decode])

end
