(* ===== verification/IdentityStore.thy ===== *)
theory IdentityStore
  imports Browser
begin

text \<open>
  The tables of \<^verbatim>\<open>src/identity/repositories\<close>: operators, browser sessions, recovery codes, bootstrap
  tokens and login attempts, with the rules of \<^verbatim>\<open>src/storage/maintenance.ts\<close> that retire their rows.
  A table is the list of its rows in the order they were inserted. A statement that breaks a
  \<^verbatim>\<open>PRIMARY KEY\<close>, the unique index on \<^verbatim>\<open>lower(email)\<close> or a reference to an operator throws, which is
  \<open>None\<close>.
\<close>

record OperatorRecord =
  op_id :: string
  op_email :: "string option"
  op_passwordHash :: string
  op_totpSecret :: "string option"
  op_totpLastStep :: "int option"
  op_createdAt :: int
  op_passwordChangedAt :: int

record SessionRecord =
  se_idHash :: string
  se_operator :: string
  se_createdAt :: int
  se_lastSeenAt :: int
  se_expiresAt :: int
  se_reauthenticatedAt :: "int option"
  se_csrf :: string
  se_ip :: "string option"
  se_userAgent :: "string option"

record RecoveryRow =
  rc_hash :: string
  rc_operator :: string
  rc_usedAt :: "int option"

record BootstrapRow =
  bt_hash :: string
  bt_expiresAt :: int
  bt_consumedAt :: "int option"

record AttemptRow =
  at_subject :: string
  at_time :: int
  at_succeeded :: bool

record IdentityStore =
  db_operators :: "OperatorRecord list"
  db_sessions :: "SessionRecord list"
  db_recovery :: "RecoveryRow list"
  db_bootstrap :: "BootstrapRow list"
  db_attempts :: "AttemptRow list"

definition empty_identity :: IdentityStore where
  "empty_identity = \<lparr>db_operators = [], db_sessions = [], db_recovery = [], db_bootstrap = [], db_attempts = []\<rparr>"

text \<open>SQL \<^verbatim>\<open>UPDATE\<close>: the rows of a table that match are rewritten in place.\<close>

definition update_rows :: "('r \<Rightarrow> bool) \<Rightarrow> ('r \<Rightarrow> 'r) \<Rightarrow> 'r list \<Rightarrow> 'r list" where
  "update_rows P f rows' = map (\<lambda>r. if P r then f r else r) rows'"

lemma set_update_rows: "r \<in> set (update_rows P f rs) \<longleftrightarrow> (\<exists>s \<in> set rs. r = (if P s then f s else s))"
  by (auto simp: update_rows_def)

section \<open>Operators\<close>

text \<open>SQLite's \<^verbatim>\<open>lower\<close> maps the letters of ASCII.\<close>

definition sql_lower :: "string option \<Rightarrow> string option" where
  "sql_lower = map_option (map ascii_lower)"

definition operator_count :: "IdentityStore \<Rightarrow> nat" where
  "operator_count s = length (db_operators s)"

text \<open>\<^verbatim>\<open>ORDER BY created_at LIMIT 1\<close>: the oldest row, the first of those created together.\<close>

definition findAny :: "IdentityStore \<Rightarrow> OperatorRecord option" where
  "findAny s = find (\<lambda>o'. \<forall>p \<in> set (db_operators s). op_createdAt o' \<le> op_createdAt p) (db_operators s)"

definition findOperatorById :: "string \<Rightarrow> IdentityStore \<Rightarrow> OperatorRecord option" where
  "findOperatorById i s = find (\<lambda>o'. op_id o' = i) (db_operators s)"

definition findByEmail :: "string \<Rightarrow> IdentityStore \<Rightarrow> OperatorRecord option" where
  "findByEmail email s = find (\<lambda>o'. op_email o' \<noteq> None \<and> sql_lower (op_email o') = sql_lower (Some email)) (db_operators s)"

definition email_taken :: "string option \<Rightarrow> OperatorRecord list \<Rightarrow> bool" where
  "email_taken email rows' \<longleftrightarrow> email \<noteq> None \<and> (\<exists>o' \<in> set rows'. sql_lower (op_email o') = sql_lower email)"

definition create_operator :: "OperatorRecord \<Rightarrow> IdentityStore \<Rightarrow> IdentityStore option" where
  "create_operator r s =
     (if op_id r \<in> op_id ` set (db_operators s) \<or> email_taken (op_email r) (db_operators s) then None
      else Some (s\<lparr>db_operators := db_operators s @ [r]\<rparr>))"

definition update_operator :: "string \<Rightarrow> (OperatorRecord \<Rightarrow> OperatorRecord) \<Rightarrow> IdentityStore \<Rightarrow> IdentityStore" where
  "update_operator i f s = s\<lparr>db_operators := update_rows (\<lambda>o'. op_id o' = i) f (db_operators s)\<rparr>"

definition updateEmail :: "string \<Rightarrow> string \<Rightarrow> IdentityStore \<Rightarrow> IdentityStore option" where
  "updateEmail i email s =
     (if email_taken (Some email) (filter (\<lambda>o'. op_id o' \<noteq> i) (db_operators s)) then None
      else Some (update_operator i (\<lambda>o'. o'\<lparr>op_email := Some email\<rparr>) s))"

definition updatePasswordHash :: "string \<Rightarrow> string \<Rightarrow> int \<Rightarrow> IdentityStore \<Rightarrow> IdentityStore" where
  "updatePasswordHash i hash changedAt = update_operator i (\<lambda>o'. o'\<lparr>op_passwordHash := hash, op_passwordChangedAt := changedAt\<rparr>)"

definition updateTotpSecret :: "string \<Rightarrow> string \<Rightarrow> IdentityStore \<Rightarrow> IdentityStore" where
  "updateTotpSecret i ciphertext = update_operator i (\<lambda>o'. o'\<lparr>op_totpSecret := Some ciphertext, op_totpLastStep := None\<rparr>)"

definition updateTotpLastStep :: "string \<Rightarrow> int \<Rightarrow> IdentityStore \<Rightarrow> IdentityStore" where
  "updateTotpLastStep i step = update_operator i (\<lambda>o'. o'\<lparr>op_totpLastStep := Some step\<rparr>)"

section \<open>Browser sessions\<close>

definition insert_session :: "SessionRecord \<Rightarrow> IdentityStore \<Rightarrow> IdentityStore option" where
  "insert_session r s =
     (if se_idHash r \<in> se_idHash ` set (db_sessions s) \<or> se_operator r \<notin> op_id ` set (db_operators s) then None
      else Some (s\<lparr>db_sessions := db_sessions s @ [r]\<rparr>))"

definition findByIdHash :: "string \<Rightarrow> IdentityStore \<Rightarrow> SessionRecord option" where
  "findByIdHash h s = find (\<lambda>r. se_idHash r = h) (db_sessions s)"

definition listForOperator :: "string \<Rightarrow> IdentityStore \<Rightarrow> SessionRecord list" where
  "listForOperator i s = sort_key se_createdAt (filter (\<lambda>r. se_operator r = i) (db_sessions s))"

definition update_session :: "string \<Rightarrow> (SessionRecord \<Rightarrow> SessionRecord) \<Rightarrow> IdentityStore \<Rightarrow> IdentityStore" where
  "update_session h f s = s\<lparr>db_sessions := update_rows (\<lambda>r. se_idHash r = h) f (db_sessions s)\<rparr>"

definition touch_session :: "string \<Rightarrow> int \<Rightarrow> int \<Rightarrow> IdentityStore \<Rightarrow> IdentityStore" where
  "touch_session h lastSeenAt expiresAt = update_session h (\<lambda>r. r\<lparr>se_lastSeenAt := lastSeenAt, se_expiresAt := expiresAt\<rparr>)"

definition setReauthenticatedAt :: "string \<Rightarrow> int \<Rightarrow> IdentityStore \<Rightarrow> IdentityStore" where
  "setReauthenticatedAt h time = update_session h (\<lambda>r. r\<lparr>se_reauthenticatedAt := Some time\<rparr>)"

definition delete_session :: "string \<Rightarrow> IdentityStore \<Rightarrow> IdentityStore" where
  "delete_session h s = s\<lparr>db_sessions := filter (\<lambda>r. se_idHash r \<noteq> h) (db_sessions s)\<rparr>"

definition deleteOthersForOperator :: "string \<Rightarrow> string \<Rightarrow> IdentityStore \<Rightarrow> nat \<times> IdentityStore" where
  "deleteOthersForOperator i keep s =
     (let gone = (\<lambda>r. se_operator r = i \<and> se_idHash r \<noteq> keep) in
      (length (filter gone (db_sessions s)), s\<lparr>db_sessions := filter (\<lambda>r. \<not> gone r) (db_sessions s)\<rparr>))"

section \<open>Recovery codes\<close>

fun insert_codes :: "string \<Rightarrow> string list \<Rightarrow> RecoveryRow list \<Rightarrow> RecoveryRow list option" where
  "insert_codes i [] rows' = Some rows'"
| "insert_codes i (h # hs) rows' =
     (if h \<in> rc_hash ` set rows' then None
      else insert_codes i hs (rows' @ [\<lparr>rc_hash = h, rc_operator = i, rc_usedAt = None\<rparr>]))"

definition replaceAll :: "string \<Rightarrow> string list \<Rightarrow> IdentityStore \<Rightarrow> IdentityStore option" where
  "replaceAll i hashes s =
     map_option (\<lambda>rows'. s\<lparr>db_recovery := rows'\<rparr>)
       (if hashes \<noteq> [] \<and> i \<notin> op_id ` set (db_operators s) then None
        else insert_codes i hashes (filter (\<lambda>r. rc_operator r \<noteq> i) (db_recovery s)))"

definition unused_code :: "string \<Rightarrow> string \<Rightarrow> RecoveryRow \<Rightarrow> bool" where
  "unused_code i h r \<longleftrightarrow> rc_operator r = i \<and> rc_hash r = h \<and> rc_usedAt r = None"

definition consume_code :: "string \<Rightarrow> string \<Rightarrow> int \<Rightarrow> IdentityStore \<Rightarrow> bool \<times> IdentityStore" where
  "consume_code i h usedAt s =
     (length (filter (unused_code i h) (db_recovery s)) = 1,
      s\<lparr>db_recovery := update_rows (unused_code i h) (\<lambda>r. r\<lparr>rc_usedAt := Some usedAt\<rparr>) (db_recovery s)\<rparr>)"

definition countUnused :: "string \<Rightarrow> IdentityStore \<Rightarrow> nat" where
  "countUnused i s = length (filter (\<lambda>r. rc_operator r = i \<and> rc_usedAt r = None) (db_recovery s))"

section \<open>Bootstrap tokens\<close>

definition insert_bootstrap :: "string \<Rightarrow> int \<Rightarrow> IdentityStore \<Rightarrow> IdentityStore option" where
  "insert_bootstrap h expiresAt s =
     (if h \<in> bt_hash ` set (db_bootstrap s) then None
      else Some (s\<lparr>db_bootstrap := db_bootstrap s @ [\<lparr>bt_hash = h, bt_expiresAt = expiresAt, bt_consumedAt = None\<rparr>]\<rparr>))"

definition usable_row :: "string \<Rightarrow> int \<Rightarrow> BootstrapRow \<Rightarrow> bool" where
  "usable_row h now r \<longleftrightarrow> bt_hash r = h \<and> now < bt_expiresAt r \<and> bt_consumedAt r = None"

definition isUsable :: "string \<Rightarrow> int \<Rightarrow> IdentityStore \<Rightarrow> bool" where
  "isUsable h now s \<longleftrightarrow> (\<exists>r \<in> set (db_bootstrap s). usable_row h now r)"

definition consume_bootstrap :: "string \<Rightarrow> int \<Rightarrow> IdentityStore \<Rightarrow> bool \<times> IdentityStore" where
  "consume_bootstrap h now s =
     (length (filter (usable_row h now) (db_bootstrap s)) = 1,
      s\<lparr>db_bootstrap := update_rows (usable_row h now) (\<lambda>r. r\<lparr>bt_consumedAt := Some now\<rparr>) (db_bootstrap s)\<rparr>)"

section \<open>Login attempts\<close>

definition record_attempt :: "string \<Rightarrow> int \<Rightarrow> bool \<Rightarrow> IdentityStore \<Rightarrow> IdentityStore" where
  "record_attempt sub attemptedAt didSucceed s =
     s\<lparr>db_attempts := db_attempts s @ [\<lparr>at_subject = sub, at_time = attemptedAt, at_succeeded = didSucceed\<rparr>]\<rparr>"

definition countFailuresSince :: "string \<Rightarrow> int \<Rightarrow> IdentityStore \<Rightarrow> nat" where
  "countFailuresSince sub since s =
     length (filter (\<lambda>r. at_subject r = sub \<and> \<not> at_succeeded r \<and> since < at_time r) (db_attempts s))"

section \<open>Maintenance\<close>

text \<open>The rules of \<^verbatim>\<open>RULES\<close> for these tables.\<close>

definition LOGIN_ATTEMPT_RETENTION_MS :: int where "LOGIN_ATTEMPT_RETENTION_MS = 24 * MS_PER_HOUR"

definition identity_maintenance :: "int \<Rightarrow> IdentityStore \<Rightarrow> IdentityStore" where
  "identity_maintenance now s =
     s\<lparr>db_sessions := filter (\<lambda>r. now < se_expiresAt r) (db_sessions s),
       db_bootstrap := filter (\<lambda>r. now < bt_expiresAt r) (db_bootstrap s),
       db_attempts := filter (\<lambda>r. now - LOGIN_ATTEMPT_RETENTION_MS \<le> at_time r) (db_attempts s)\<rparr>"

end
