(* ===== verification/Sessions.thy ===== *)
theory Sessions
  imports IdentityStore
begin

text \<open>
  Browser sessions: \<^verbatim>\<open>src/identity/sessions.ts\<close> and \<^verbatim>\<open>session-manager.ts\<close>, and the login backoff of
  \<^verbatim>\<open>login-throttle.ts\<close>. The state is the sessions table beside the clock; the operations are the
  manager's, and \<open>session_step\<close> is one of them at a time with the clock moving between them.
\<close>

section \<open>Identifiers and expiry\<close>

definition SESSION_ID_BYTES :: nat where "SESSION_ID_BYTES = 32"
definition CSRF_TOKEN_BYTES :: nat where "CSRF_TOKEN_BYTES = 32"
definition SESSION_IDLE_TTL_MS :: int where "SESSION_IDLE_TTL_MS = MS_PER_HOUR"
definition REAUTHENTICATION_WINDOW_MS :: int where "REAUTHENTICATION_WINDOW_MS = 5 * MS_PER_MINUTE"

definition hashSessionId :: "(bytes \<Rightarrow> bytes) \<Rightarrow> string \<Rightarrow> string" where
  "hashSessionId sha256 i = hex_text (sha256 (utf8_encode i))"

definition nextSessionExpiry :: "int \<Rightarrow> int \<Rightarrow> int \<Rightarrow> int" where
  "nextSessionExpiry now createdAt absoluteTtlMs = min (now + SESSION_IDLE_TTL_MS) (createdAt + absoluteTtlMs)"

definition isRecentlyReauthenticated :: "int option \<Rightarrow> int \<Rightarrow> bool" where
  "isRecentlyReauthenticated reauthenticatedAt now \<longleftrightarrow>
     (case reauthenticatedAt of None \<Rightarrow> False | Some t \<Rightarrow> now - t < REAUTHENTICATION_WINDOW_MS)"

text \<open>\<^verbatim>\<open>Math.ceil\<close> of a quotient is the negated floor of the negated one.\<close>

definition reauthenticationMinutesLeft :: "int option \<Rightarrow> int \<Rightarrow> int" where
  "reauthenticationMinutesLeft reauthenticatedAt now =
     (case reauthenticatedAt of
        None \<Rightarrow> 0
      | Some t \<Rightarrow>
        if \<not> isRecentlyReauthenticated reauthenticatedAt now then 0
        else - (- (t + REAUTHENTICATION_WINDOW_MS - now) div MS_PER_MINUTE))"

section \<open>The manager\<close>

record SessionState =
  st_idHash :: string
  st_operatorId :: string
  st_csrfToken :: string
  st_createdAt :: int
  st_expiresAt :: int
  st_reauthenticatedAt :: "int option"
  st_isReauthenticated :: bool

record ClientInfo =
  ci_ip :: "string option"
  ci_userAgent :: "string option"

definition toState :: "SessionRecord \<Rightarrow> int \<Rightarrow> SessionState" where
  "toState r now =
     \<lparr>st_idHash = se_idHash r, st_operatorId = se_operator r, st_csrfToken = se_csrf r, st_createdAt = se_createdAt r,
      st_expiresAt = se_expiresAt r, st_reauthenticatedAt = se_reauthenticatedAt r,
      st_isReauthenticated = isRecentlyReauthenticated (se_reauthenticatedAt r) now\<rparr>"

text \<open>\<open>idBytes\<close> and \<open>csrfBytes\<close> are the two draws of the random source, in this order.\<close>

definition new_session :: "(bytes \<Rightarrow> bytes) \<Rightarrow> int \<Rightarrow> bytes \<Rightarrow> bytes \<Rightarrow> string \<Rightarrow> ClientInfo \<Rightarrow> int \<Rightarrow> SessionRecord" where
  "new_session sha256 absoluteTtlMs idBytes csrfBytes operatorId client now =
     \<lparr>se_idHash = hashSessionId sha256 (base64url idBytes), se_operator = operatorId, se_createdAt = now, se_lastSeenAt = now,
      se_expiresAt = nextSessionExpiry now now absoluteTtlMs, se_reauthenticatedAt = None, se_csrf = base64url csrfBytes,
      se_ip = ci_ip client, se_userAgent = ci_userAgent client\<rparr>"

definition start_session ::
  "(bytes \<Rightarrow> bytes) \<Rightarrow> int \<Rightarrow> bytes \<Rightarrow> bytes \<Rightarrow> string \<Rightarrow> ClientInfo \<Rightarrow> int \<Rightarrow> IdentityStore \<Rightarrow> ((string \<times> SessionState) \<times> IdentityStore) option" where
  "start_session sha256 absoluteTtlMs idBytes csrfBytes operatorId client now s =
     (let r = new_session sha256 absoluteTtlMs idBytes csrfBytes operatorId client now in
      map_option (Pair (base64url idBytes, toState r now)) (insert_session r s))"

definition resolve_session :: "(bytes \<Rightarrow> bytes) \<Rightarrow> int \<Rightarrow> string option \<Rightarrow> int \<Rightarrow> IdentityStore \<Rightarrow> SessionState option \<times> IdentityStore" where
  "resolve_session sha256 absoluteTtlMs sessionId now s =
     (case sessionId of
        None \<Rightarrow> (None, s)
      | Some i \<Rightarrow>
        (case findByIdHash (hashSessionId sha256 i) s of
           None \<Rightarrow> (None, s)
         | Some r \<Rightarrow>
           (if se_expiresAt r \<le> now then (None, delete_session (se_idHash r) s)
            else
             (let expiresAt = nextSessionExpiry now (se_createdAt r) absoluteTtlMs in
              (Some (toState (r\<lparr>se_lastSeenAt := now, se_expiresAt := expiresAt\<rparr>) now),
               touch_session (se_idHash r) now expiresAt s)))))"

definition end_session :: "string \<Rightarrow> IdentityStore \<Rightarrow> IdentityStore" where
  "end_session = delete_session"

definition endOthers :: "string \<Rightarrow> string \<Rightarrow> IdentityStore \<Rightarrow> nat \<times> IdentityStore" where
  "endOthers = deleteOthersForOperator"

definition markReauthenticated :: "string \<Rightarrow> int \<Rightarrow> IdentityStore \<Rightarrow> IdentityStore" where
  "markReauthenticated = setReauthenticatedAt"

definition list_sessions :: "string \<Rightarrow> IdentityStore \<Rightarrow> SessionRecord list" where
  "list_sessions = listForOperator"

section \<open>The backoff\<close>

definition THROTTLE_FREE_FAILURES :: nat where "THROTTLE_FREE_FAILURES = 5"
definition THROTTLE_WINDOW_MS :: int where "THROTTLE_WINDOW_MS = 15 * MS_PER_MINUTE"
definition MAX_DELAY_MS :: int where "MAX_DELAY_MS = 60 * MS_PER_SECOND"

definition backoffDelayMs :: "nat \<Rightarrow> int" where
  "backoffDelayMs failures =
     (if failures < THROTTLE_FREE_FAILURES then 0
      else min MAX_DELAY_MS (MS_PER_SECOND * 2 ^ (failures - THROTTLE_FREE_FAILURES)))"

definition ipSubject :: "string option \<Rightarrow> string" where
  "ipSubject ip = ''ip:'' @ (case ip of None \<Rightarrow> ''unknown'' | Some a \<Rightarrow> a)"

definition emailSubject :: "string \<Rightarrow> string" where
  "emailSubject email = ''email:'' @ email"

definition operatorSubject :: "string \<Rightarrow> string" where
  "operatorSubject operatorId = ''operator:'' @ operatorId"

definition accountSubject :: "OperatorRecord \<Rightarrow> string" where
  "accountSubject o' = (case op_email o' of None \<Rightarrow> operatorSubject (op_id o') | Some email \<Rightarrow> emailSubject email)"

definition delayFor :: "string list \<Rightarrow> int \<Rightarrow> IdentityStore \<Rightarrow> int" where
  "delayFor subjects now s =
     backoffDelayMs (fold max (map (\<lambda>sub. countFailuresSince sub (now - THROTTLE_WINDOW_MS) s) subjects) 0)"

definition record_attempts :: "string list \<Rightarrow> int \<Rightarrow> bool \<Rightarrow> IdentityStore \<Rightarrow> IdentityStore" where
  "record_attempts subjects now didSucceed s = fold (\<lambda>sub. record_attempt sub now didSucceed) subjects s"

lemma record_attempts_sel [simp]:
  "db_operators (record_attempts subs now b s) = db_operators s" "db_sessions (record_attempts subs now b s) = db_sessions s"
  "db_recovery (record_attempts subs now b s) = db_recovery s" "db_bootstrap (record_attempts subs now b s) = db_bootstrap s"
  by (induction subs arbitrary: s) (simp_all add: record_attempts_def record_attempt_def)

section \<open>What every reachable table keeps\<close>

text \<open>
  One operation of the manager or of maintenance, or the clock moving on. The operations of the other
  tables leave the sessions alone, but an operator has to exist for a session to start.
\<close>

inductive session_step :: "(bytes \<Rightarrow> bytes) \<Rightarrow> int \<Rightarrow> int \<times> IdentityStore \<Rightarrow> int \<times> IdentityStore \<Rightarrow> bool"
  for sha256 :: "bytes \<Rightarrow> bytes" and ttl :: int where
  clock_moves: "now \<le> later \<Longrightarrow> session_step sha256 ttl (now, s) (later, s)"
| session_starts: "start_session sha256 ttl a b i client now s = Some (r, s') \<Longrightarrow> session_step sha256 ttl (now, s) (now, s')"
| session_resolved: "resolve_session sha256 ttl i now s = (r, s') \<Longrightarrow> session_step sha256 ttl (now, s) (now, s')"
| session_ended: "session_step sha256 ttl (now, s) (now, end_session h s)"
| others_ended: "session_step sha256 ttl (now, s) (now, snd (endOthers i h s))"
| reauthenticated: "session_step sha256 ttl (now, s) (now, markReauthenticated h now s)"
| maintained: "session_step sha256 ttl (now, s) (now, identity_maintenance now s)"
| elsewhere: "db_sessions s' = db_sessions s \<Longrightarrow> session_step sha256 ttl (now, s) (now, s')"

inductive_cases session_stepE: "session_step sha256 ttl a b"

definition row_ok :: "int \<Rightarrow> int \<Rightarrow> SessionRecord \<Rightarrow> bool" where
  "row_ok ttl now r \<longleftrightarrow>
     se_createdAt r \<le> se_lastSeenAt r \<and> se_lastSeenAt r \<le> now \<and>
     se_expiresAt r = nextSessionExpiry (se_lastSeenAt r) (se_createdAt r) ttl \<and>
     (case se_reauthenticatedAt r of None \<Rightarrow> True | Some t \<Rightarrow> t \<le> now)"

definition sessions_ok :: "int \<Rightarrow> int \<times> IdentityStore \<Rightarrow> bool" where
  "sessions_ok ttl w \<longleftrightarrow>
     (\<forall>r \<in> set (db_sessions (snd w)). row_ok ttl (fst w) r) \<and> distinct (map se_idHash (db_sessions (snd w)))"

lemma row_ok_later: "row_ok ttl now r \<Longrightarrow> now \<le> later \<Longrightarrow> row_ok ttl later r"
  by (auto simp: row_ok_def split: option.splits)

lemma distinct_update: "(\<And>r. P r \<Longrightarrow> f (g r) = f r) \<Longrightarrow> map f (update_rows P g rs) = map f rs"
  by (simp add: update_rows_def)

lemma sessions_ok_insert:
  "sessions_ok ttl (now, s) \<Longrightarrow> row_ok ttl now r \<Longrightarrow> insert_session r s = Some s' \<Longrightarrow> sessions_ok ttl (now, s')"
  by (auto simp: sessions_ok_def insert_session_def split: if_splits)

lemma sessions_ok_update:
  "sessions_ok ttl (now, s) \<Longrightarrow> (\<And>r. r \<in> set (db_sessions s) \<Longrightarrow> se_idHash r = h \<Longrightarrow> row_ok ttl now (f r)) \<Longrightarrow>
   (\<And>r. se_idHash (f r) = se_idHash r) \<Longrightarrow> sessions_ok ttl (now, update_session h f s)"
  by (auto simp: sessions_ok_def update_session_def set_update_rows distinct_update)

lemma sessions_ok_filter: "sessions_ok ttl (now, s) \<Longrightarrow> db_sessions s' = filter P (db_sessions s) \<Longrightarrow> sessions_ok ttl (now, s')"
  by (auto simp: sessions_ok_def distinct_map_filter)

lemma findByIdHash_Some: "findByIdHash h s = Some r \<Longrightarrow> r \<in> set (db_sessions s) \<and> se_idHash r = h"
  by (auto simp: findByIdHash_def find_Some_iff)

lemma unique_row: "sessions_ok ttl w \<Longrightarrow> r \<in> set (db_sessions (snd w)) \<Longrightarrow> q \<in> set (db_sessions (snd w)) \<Longrightarrow> se_idHash r = se_idHash q \<Longrightarrow> r = q"
  by (auto simp: sessions_ok_def distinct_map inj_on_def)

lemma sessions_ok_resolve:
  assumes "sessions_ok ttl (now, s)" "resolve_session sha256 ttl i now s = (r, s')"
  shows "sessions_ok ttl (now, s')"
proof (cases "s' = s")
  case False
  then obtain j q where q: "i = Some j" "findByIdHash (hashSessionId sha256 j) s = Some q"
    using assms(2) by (auto simp: resolve_session_def split: option.splits)
  from findByIdHash_Some [OF q(2)] have mem: "q \<in> set (db_sessions s)" by simp
  show ?thesis
  proof (cases "se_expiresAt q \<le> now")
    case True
    then show ?thesis
      using assms q by (auto simp: resolve_session_def delete_session_def intro: sessions_ok_filter)
  next
    case live: False
    have "row_ok ttl now p \<Longrightarrow> row_ok ttl now (p\<lparr>se_lastSeenAt := now, se_expiresAt := nextSessionExpiry now (se_createdAt p) ttl\<rparr>)" for p
      by (auto simp: row_ok_def)
    moreover have "p = q" if "p \<in> set (db_sessions s)" "se_idHash p = se_idHash q" for p
      using unique_row [OF assms(1), of p q] that mem by simp
    moreover have "row_ok ttl now q" using assms(1) mem by (simp add: sessions_ok_def)
    ultimately have "sessions_ok ttl (now, touch_session (se_idHash q) now (nextSessionExpiry now (se_createdAt q) ttl) s)"
      unfolding touch_session_def by (intro sessions_ok_update [OF assms(1)]) auto
    then show ?thesis using assms(2) q live by (auto simp: resolve_session_def Let_def)
  qed
qed (use assms in simp)

lemma sessions_ok_step: "session_step sha256 ttl w w' \<Longrightarrow> sessions_ok ttl w \<Longrightarrow> sessions_ok ttl w'"
proof (induction rule: session_step.induct)
  case (clock_moves now later s)
  then show ?case by (auto simp: sessions_ok_def intro: row_ok_later)
next
  case (session_starts a b i client now s r s')
  then show ?case
    by (auto simp: start_session_def Let_def row_ok_def new_session_def intro!: sessions_ok_insert [OF session_starts.prems])
next
  case (session_resolved i now s r s')
  then show ?case by (blast intro: sessions_ok_resolve)
next
  case (session_ended now s h)
  then show ?case by (auto simp: end_session_def delete_session_def intro: sessions_ok_filter)
next
  case (others_ended now s i h)
  then show ?case by (auto simp: endOthers_def deleteOthersForOperator_def Let_def intro: sessions_ok_filter)
next
  case (reauthenticated now s h)
  then show ?case
    unfolding markReauthenticated_def setReauthenticatedAt_def
    by (intro sessions_ok_update) (auto simp: sessions_ok_def row_ok_def)
next
  case (maintained now s)
  then show ?case by (auto simp: identity_maintenance_def intro: sessions_ok_filter)
next
  case (elsewhere s' s now)
  then show ?case by (simp add: sessions_ok_def)
qed

interpretation sessions: invariant_system "session_step sha256 ttl" "sessions_ok ttl"
  by unfold_locales (rule sessions_ok_step)

text \<open>
  C30: Whatever the order of sign-ins, requests, sign-outs, password checks and maintenance, a cookie
  resolves only to a session younger than the absolute limit whose last request is less than an
  hour old; resolving it moves its expiry, never past either limit; and it counts as confirmed only
  if the password was confirmed within the last five minutes.
\<close>

theorem session_lifetime:
  assumes "(session_step sha256 ttl)\<^sup>*\<^sup>* (start, empty_identity) (now, s)"
    and "resolve_session sha256 ttl (Some i) now s = (Some st, s')"
  shows "\<exists>r. findByIdHash (hashSessionId sha256 i) s = Some r \<and> st_operatorId st = se_operator r \<and>
    now < se_createdAt r + ttl \<and> now < se_lastSeenAt r + SESSION_IDLE_TTL_MS \<and>
    st_expiresAt st = min (now + SESSION_IDLE_TTL_MS) (se_createdAt r + ttl) \<and>
    (st_isReauthenticated st \<longleftrightarrow> (\<exists>t. se_reauthenticatedAt r = Some t \<and> t \<le> now \<and> now < t + REAUTHENTICATION_WINDOW_MS)) \<and>
    findByIdHash (hashSessionId sha256 i) s' = Some (r\<lparr>se_lastSeenAt := now, se_expiresAt := st_expiresAt st\<rparr>)"
proof -
  have "sessions_ok ttl (start, empty_identity)" by (simp add: sessions_ok_def empty_identity_def)
  with assms(1) have inv: "sessions_ok ttl (now, s)" by (rule sessions.reachable_inv)
  obtain r where r: "findByIdHash (hashSessionId sha256 i) s = Some r" "\<not> se_expiresAt r \<le> now"
    and st: "st = toState (r\<lparr>se_lastSeenAt := now, se_expiresAt := nextSessionExpiry now (se_createdAt r) ttl\<rparr>) now"
    and s': "s' = touch_session (se_idHash r) now (nextSessionExpiry now (se_createdAt r) ttl) s"
    using assms(2) by (auto simp: resolve_session_def Let_def split: option.splits if_splits)
  from findByIdHash_Some [OF r(1)] have mem: "r \<in> set (db_sessions s)" "se_idHash r = hashSessionId sha256 i" by simp_all
  then have row: "row_ok ttl now r" using inv by (simp add: sessions_ok_def)
  have found: "find (\<lambda>p. se_idHash p = h) (update_rows (\<lambda>p. se_idHash p = h) f rs) = map_option f (find (\<lambda>p. se_idHash p = h) rs)"
    if "\<And>p. se_idHash (f p) = se_idHash p" for h f rs
    using that by (induction rs) (auto simp: update_rows_def)
  have "findByIdHash (hashSessionId sha256 i) s' = Some (r\<lparr>se_lastSeenAt := now, se_expiresAt := st_expiresAt st\<rparr>)"
    using r(1) mem by (simp add: s' st touch_session_def update_session_def findByIdHash_def found toState_def)
  then show ?thesis
    using r row by (auto simp: st toState_def row_ok_def nextSessionExpiry_def isRecentlyReauthenticated_def split: option.splits)
qed

definition example_identity :: IdentityStore where
  "example_identity = empty_identity\<lparr>db_operators :=
     [\<lparr>op_id = ''op'', op_email = Some ''a@b.example'', op_passwordHash = [], op_totpSecret = None, op_totpLastStep = None,
       op_createdAt = 0, op_passwordChangedAt = 0\<rparr>]\<rparr>"

definition example_signed_in :: IdentityStore where
  "example_signed_in = snd (the (start_session id 43200000 ''a'' ''b'' ''op'' \<lparr>ci_ip = None, ci_userAgent = None\<rparr> 0 example_identity))"

theorem session_lifetime_witness:
  "\<exists>r. findByIdHash (hashSessionId id ''YQ'') example_signed_in = Some r \<and> 1000 < se_createdAt r + 43200000 \<and>
    1000 < se_lastSeenAt r + SESSION_IDLE_TTL_MS"
proof -
  have started: "start_session id 43200000 ''a'' ''b'' ''op'' \<lparr>ci_ip = None, ci_userAgent = None\<rparr> 0 example_identity \<noteq> None"
    by code_simp
  then obtain r s where rs: "start_session id 43200000 ''a'' ''b'' ''op'' \<lparr>ci_ip = None, ci_userAgent = None\<rparr> 0 example_identity = Some (r, s)"
    by auto
  then have s: "s = example_signed_in" by (simp add: example_signed_in_def)
  have "session_step id 43200000 (0, empty_identity) (0, example_identity)"
    by (rule elsewhere) (simp add: example_identity_def)
  moreover have "session_step id 43200000 (0, example_identity) (0, example_signed_in)"
    using session_starts [OF rs] s by simp
  moreover have "session_step id 43200000 (0, example_signed_in) (1000, example_signed_in)"
    by (rule clock_moves) simp
  ultimately have run: "(session_step id 43200000)\<^sup>*\<^sup>* (0, empty_identity) (1000, example_signed_in)"
    by (meson r_into_rtranclp rtranclp.rtrancl_into_rtrancl)
  have "fst (resolve_session id 43200000 (Some ''YQ'') 1000 example_signed_in) \<noteq> None" by code_simp
  then obtain st s' where "resolve_session id 43200000 (Some ''YQ'') 1000 example_signed_in = (Some st, s')"
    by (metis not_None_eq prod.collapse)
  from session_lifetime [OF run this] show ?thesis by blast
qed

end
