(* ===== verification/Login.thy ===== *)
theory Login
  imports Sessions
begin

text \<open>
  The sign-in, \<^verbatim>\<open>src/identity/routes-login.ts\<close> with \<^verbatim>\<open>guards.ts\<close> and \<^verbatim>\<open>browser.ts\<close>. A handler runs in
  segments: what happens before an \<^verbatim>\<open>await\<close> of the backoff or of scrypt, and what happens after it, on
  the store as it is by then but with what the handler read before. A first segment gives a response
  or what is pending; a later one takes what is pending. Between two segments other requests run.

  A page is a value that names the renderer and its arguments. The state cookie is the value the box
  opened (\<open>rq_sealed\<close>): sealing and opening it is \<^verbatim>\<open>SecretBox\<close>. \<open>sv_draw i n\<close> is what the random source
  gives when it is asked for \<open>n\<close> bytes at its \<open>i\<close>-th call.
\<close>

section \<open>Services, requests and responses\<close>

definition STATE_TTL_MS :: int where "STATE_TTL_MS = 10 * MS_PER_MINUTE"

record BrowserState =
  bs_csrfToken :: string
  bs_expiresAt :: int
  bs_setupSecret :: "string option"
  bs_passwordVerified :: "string option"
  bs_pendingTotp :: "string option"

record IdentityServices =
  sv_sha256 :: "bytes \<Rightarrow> bytes"
  sv_hmac :: "octets \<Rightarrow> octets \<Rightarrow> octets"
  sv_scrypt :: Scrypt
  sv_draw :: "nat \<Rightarrow> nat \<Rightarrow> bytes"
  sv_ttl :: int
  sv_parameters :: ScryptParameters
  sv_common :: "string list"
  sv_totpBox :: SecretBox
  sv_origin :: string
  sv_homePath :: string

record AuditEvent =
  ev_action :: string
  ev_outcome :: string
  ev_operator :: "string option"
  ev_ip :: "string option"
  ev_details :: "(string \<times> string) list"

record World =
  w_store :: IdentityStore
  w_now :: int
  w_draws :: nat
  w_fallback :: "string option option"
  w_trail :: "AuditEvent list"

record Request =
  rq_path :: string
  rq_headers :: "string \<Rightarrow> string option"
  rq_form :: "string \<Rightarrow> string option"
  rq_query :: "string \<Rightarrow> string option"
  rq_sealed :: "BrowserState option"
  rq_session :: "SessionState option"
  rq_client :: ClientInfo

datatype Page =
    PageText string
  | PagePasswordStep string string "string option" bool
  | PageSecondStep string string "string option"
  | PageSetup string string Enrolment string "string option"
  | PageSetupUnavailable
  | PageRecoveryCodes "string list"
  | PageTotpRotation string Enrolment "string option"
  | PageAccount "string option"
  | PageUnlock string string
  | PageRedirect string

record Response =
  rs_status :: nat
  rs_page :: Page
  rs_sessionCookie :: "string option"
  rs_stateCookie :: "BrowserState option option"

definition html :: "nat \<Rightarrow> Page \<Rightarrow> Response" where
  "html s page = \<lparr>rs_status = s, rs_page = page, rs_sessionCookie = None, rs_stateCookie = None\<rparr>"

definition redirect :: "string \<Rightarrow> Response" where
  "redirect location = html 303 (PageRedirect location)"

text \<open>A handler that throws answers 500.\<close>

definition server_error :: Response where
  "server_error = html 500 (PageText ''Internal Server Error'')"

definition audit_event :: "AuditEvent \<Rightarrow> World \<Rightarrow> World" where
  "audit_event e w = w\<lparr>w_trail := w_trail w @ [e]\<rparr>"

definition store_write :: "(IdentityStore \<Rightarrow> IdentityStore) \<Rightarrow> World \<Rightarrow> World" where
  "store_write f w = w\<lparr>w_store := f (w_store w)\<rparr>"

definition draw :: "IdentityServices \<Rightarrow> nat \<Rightarrow> World \<Rightarrow> bytes \<times> World" where
  "draw sv n w = (sv_draw sv (w_draws w) n, w\<lparr>w_draws := Suc (w_draws w)\<rparr>)"

definition field :: "(string \<Rightarrow> string option) \<Rightarrow> string \<Rightarrow> string" where
  "field form name = (case form name of None \<Rightarrow> [] | Some v \<Rightarrow> v)"

section \<open>The guards\<close>

definition deny :: "Request \<Rightarrow> string \<Rightarrow> World \<Rightarrow> Response \<times> World" where
  "deny rq reason w =
     (html 403 (PageText ''Forbidden''),
      audit_event \<lparr>ev_action = ''request.denied'', ev_outcome = ''denied'', ev_operator = None, ev_ip = ci_ip (rq_client rq),
        ev_details = [(''reason'', reason), (''path'', rq_path rq)]\<rparr> w)"

text \<open>\<open>None\<close>: the checks passed.\<close>

definition stateChange :: "IdentityServices \<Rightarrow> Request \<Rightarrow> string \<Rightarrow> World \<Rightarrow> Response option \<times> World" where
  "stateChange sv rq expected w =
     (if \<not> isSameOriginRequest (rq_headers rq) (sv_origin sv) then apfst Some (deny rq ''cross-origin request'' w)
      else if isValidCsrfToken (rq_form rq ''csrf'') expected then (None, w)
      else apfst Some (deny rq ''missing or stale synchroniser token'' w))"

definition readState :: "Request \<Rightarrow> World \<Rightarrow> BrowserState option" where
  "readState rq w = (case rq_sealed rq of None \<Rightarrow> None | Some st \<Rightarrow> if w_now w < bs_expiresAt st then Some st else None)"

definition state_cookie :: "BrowserState \<Rightarrow> World \<Rightarrow> Response \<Rightarrow> Response" where
  "state_cookie st w r = r\<lparr>rs_stateCookie := Some (Some (st\<lparr>bs_expiresAt := w_now w + STATE_TTL_MS\<rparr>))\<rparr>"

definition clear_state_cookie :: "Response \<Rightarrow> Response" where
  "clear_state_cookie r = r\<lparr>rs_stateCookie := Some None\<rparr>"

definition anonymous_state :: "string \<Rightarrow> BrowserState" where
  "anonymous_state csrf = \<lparr>bs_csrfToken = csrf, bs_expiresAt = 0, bs_setupSecret = None, bs_passwordVerified = None, bs_pendingTotp = None\<rparr>"

definition requireState :: "IdentityServices \<Rightarrow> Request \<Rightarrow> World \<Rightarrow> (BrowserState, Response) result \<times> World" where
  "requireState sv rq w =
     (case readState rq w of
        None \<Rightarrow> apfst fail (deny rq ''missing browser state'' w)
      | Some st \<Rightarrow>
        (case stateChange sv rq (bs_csrfToken st) w of
           (Some r, w') \<Rightarrow> (fail r, w')
         | (None, w') \<Rightarrow> (ok st, w')))"

section \<open>Who the password is for\<close>

definition legacyOperator :: "IdentityStore \<Rightarrow> OperatorRecord option" where
  "legacyOperator s = (case findAny s of None \<Rightarrow> None | Some o' \<Rightarrow> if op_email o' = None then Some o' else None)"

definition is_legacy :: "World \<Rightarrow> bool" where
  "is_legacy w \<longleftrightarrow> legacyOperator (w_store w) \<noteq> None"

record Claim =
  cl_operator :: "OperatorRecord option"
  cl_subjects :: "string list"
  cl_details :: "(string \<times> string) list"

definition claimFrom :: "Request \<Rightarrow> IdentityStore \<Rightarrow> Claim" where
  "claimFrom rq s =
     (let ip = ipSubject (ci_ip (rq_client rq)) in
      (case legacyOperator s of
         Some o' \<Rightarrow> \<lparr>cl_operator = Some o', cl_subjects = [ip, accountSubject o'], cl_details = []\<rparr>
       | None \<Rightarrow>
         (case normaliseEmail (field (rq_form rq) ''email'') of
            Inl e \<Rightarrow> \<lparr>cl_operator = None, cl_subjects = [ip], cl_details = []\<rparr>
          | Inr email \<Rightarrow>
            \<lparr>cl_operator = findByEmail email s, cl_subjects = [ip, emailSubject email], cl_details = [(''email'', email)]\<rparr>)))"

definition subjectsFor :: "Request \<Rightarrow> OperatorRecord \<Rightarrow> string list" where
  "subjectsFor rq o' = [ipSubject (ci_ip (rq_client rq)), accountSubject o']"

definition emailDetail :: "OperatorRecord \<Rightarrow> (string \<times> string) list" where
  "emailDetail o' = (case op_email o' of None \<Rightarrow> [] | Some email \<Rightarrow> [(''email'', email)])"

definition login_failed :: "Request \<Rightarrow> Claim \<Rightarrow> string \<Rightarrow> World \<Rightarrow> World" where
  "login_failed rq claim' step w =
     audit_event \<lparr>ev_action = ''login.failed'', ev_outcome = ''failure'', ev_operator = None, ev_ip = ci_ip (rq_client rq),
       ev_details = (''step'', step) # cl_details claim'\<rparr>
       (store_write (record_attempts (cl_subjects claim') (w_now w) False) w)"

section \<open>The password step\<close>

definition LOGIN_FAILURE_MESSAGE :: string where "LOGIN_FAILURE_MESSAGE = ''Those details were not recognised.''"
definition FALLBACK_PASSWORD_BYTES :: nat where "FALLBACK_PASSWORD_BYTES = 32"

text \<open>
  \<^verbatim>\<open>fallbackHashSource\<close>: the hash an unknown address is checked against, made once. scrypt refusing
  its own parameters (\<open>None\<close>) is a rejected promise, which is kept as well.
\<close>

definition fallback_hash :: "IdentityServices \<Rightarrow> World \<Rightarrow> string option \<times> World" where
  "fallback_hash sv w =
     (case w_fallback w of
        Some h \<Rightarrow> (h, w)
      | None \<Rightarrow>
        (case draw sv FALLBACK_PASSWORD_BYTES w of
           (password, w1) \<Rightarrow>
           (case draw sv SALT_BYTES w1 of
              (salt, w2) \<Rightarrow>
              (let h = hashPassword (sv_scrypt sv) (base64url password) salt (sv_parameters sv) in
               (h, w2\<lparr>w_fallback := Some h\<rparr>)))))"

record PasswordPending =
  pp_request :: Request
  pp_state :: BrowserState
  pp_next :: string
  pp_claim :: Claim
  pp_due :: int

definition passwordStep :: "IdentityServices \<Rightarrow> Request \<Rightarrow> World \<Rightarrow> (PasswordPending, Response) result \<times> World" where
  "passwordStep sv rq w =
     (case requireState sv rq w of
        (Inl r, w') \<Rightarrow> (fail r, w')
      | (Inr st, w') \<Rightarrow>
        (let claim' = claimFrom rq (w_store w') in
         (ok \<lparr>pp_request = rq, pp_state = st, pp_next = safeNextPath (rq_form rq ''next'') (sv_homePath sv),
              pp_claim = claim', pp_due = w_now w' + delayFor (cl_subjects claim') (w_now w') (w_store w')\<rparr>, w')))"

record RehashPending =
  rp_pending :: PasswordPending
  rp_operator :: OperatorRecord
  rp_hash :: "string option"

definition password_accepted :: "PasswordPending \<Rightarrow> OperatorRecord \<Rightarrow> World \<Rightarrow> Response" where
  "password_accepted p o' w =
     state_cookie ((anonymous_state (bs_csrfToken (pp_state p)))\<lparr>bs_passwordVerified := Some (op_id o')\<rparr>) w
       (html 200 (PageSecondStep (bs_csrfToken (pp_state p)) (pp_next p) None))"

definition password_refused :: "PasswordPending \<Rightarrow> World \<Rightarrow> Response \<times> World" where
  "password_refused p w =
     (let w' = login_failed (pp_request p) (pp_claim p) ''password'' w in
      (html 401 (PagePasswordStep (bs_csrfToken (pp_state p)) (pp_next p) (Some LOGIN_FAILURE_MESSAGE) (is_legacy w')), w'))"

text \<open>
  After the backoff and scrypt. The operator is the one read before them. An upgraded hash is
  written by the segment after this one, when scrypt has computed it.
\<close>

definition passwordStep_checked ::
  "IdentityServices \<Rightarrow> PasswordPending \<Rightarrow> World \<Rightarrow> (RehashPending, Response) result \<times> World" where
  "passwordStep_checked sv p w0 =
     (let password = field (rq_form (pp_request p)) ''password'';
          (storedHash, w) = (case cl_operator (pp_claim p) of Some o' \<Rightarrow> (Some (op_passwordHash o'), w0) | None \<Rightarrow> fallback_hash sv w0)
      in
      (case Option.bind storedHash (isCorrectPassword (sv_scrypt sv) password) of
         None \<Rightarrow> (fail server_error, w)
       | Some isCorrect \<Rightarrow>
         (case cl_operator (pp_claim p) of
            None \<Rightarrow> apfst fail (password_refused p w)
          | Some o' \<Rightarrow>
            (if \<not> isCorrect then apfst fail (password_refused p w)
             else if requiresRehash (op_passwordHash o') (sv_parameters sv) then
               (case draw sv SALT_BYTES w of
                  (salt, w') \<Rightarrow>
                  (ok \<lparr>rp_pending = p, rp_operator = o', rp_hash = hashPassword (sv_scrypt sv) password salt (sv_parameters sv)\<rparr>, w'))
             else (fail (password_accepted p o' w), w)))))"

definition passwordStep_rehashed :: "RehashPending \<Rightarrow> World \<Rightarrow> Response \<times> World" where
  "passwordStep_rehashed p w =
     (case rp_hash p of
        None \<Rightarrow> (server_error, w)
      | Some upgraded \<Rightarrow>
        (let o' = rp_operator p;
             w' = store_write (updatePasswordHash (op_id o') upgraded (op_passwordChangedAt o')) w
         in (password_accepted (rp_pending p) o' w', w')))"

section \<open>The second factor\<close>

datatype Method = ByTotp | ByRecovery

text \<open>The outer \<open>None\<close> is a thrown \<^verbatim>\<open>RangeError\<close>, the inner one a refusal.\<close>

definition verifySecondFactor :: "IdentityServices \<Rightarrow> OperatorRecord \<Rightarrow> string \<Rightarrow> World \<Rightarrow> Method option option \<times> World" where
  "verifySecondFactor sv o' code w =
     (let trimmed = trim code in
      if totp_shape trimmed then
        (case box_open (sv_totpBox sv) (case op_totpSecret o' of None \<Rightarrow> [] | Some c \<Rightarrow> c) of
           None \<Rightarrow> (Some None, w)
         | Some secret \<Rightarrow>
           (case verifyTotp (sv_hmac sv) \<lparr>tv_secret = latin1 secret, tv_code = trimmed, tv_nowMs = w_now w, tv_lastStep = op_totpLastStep o'\<rparr> of
              None \<Rightarrow> (None, w)
            | Some None \<Rightarrow> (Some None, w)
            | Some (Some step) \<Rightarrow> (Some (Some ByTotp), store_write (updateTotpLastStep (op_id o') step) w)))
      else
        (case consume_code (op_id o') (hashRecoveryCode (sv_sha256 sv) trimmed) (w_now w) (w_store w) of
           (wasConsumed, s) \<Rightarrow> (Some (if wasConsumed then Some ByRecovery else None), w\<lparr>w_store := s\<rparr>)))"

record SecondPending =
  sp_request :: Request
  sp_state :: BrowserState
  sp_operator :: OperatorRecord
  sp_next :: string
  sp_due :: int

definition secondStep :: "IdentityServices \<Rightarrow> Request \<Rightarrow> World \<Rightarrow> (SecondPending, Response) result \<times> World" where
  "secondStep sv rq w =
     (case requireState sv rq w of
        (Inl r, w') \<Rightarrow> (fail r, w')
      | (Inr st, w') \<Rightarrow>
        (case Option.bind (bs_passwordVerified st) (\<lambda>i. findOperatorById i (w_store w')) of
           None \<Rightarrow> apfst fail (deny rq ''password step not completed'' w')
         | Some o' \<Rightarrow>
           (ok \<lparr>sp_request = rq, sp_state = st, sp_operator = o', sp_next = safeNextPath (rq_form rq ''next'') (sv_homePath sv),
                sp_due = w_now w' + delayFor (subjectsFor rq o') (w_now w') (w_store w')\<rparr>, w')))"

text \<open>\<^verbatim>\<open>services.sessions.start\<close> with its two draws; \<open>None\<close> is an insert that throws.\<close>

definition start_for :: "IdentityServices \<Rightarrow> string \<Rightarrow> ClientInfo \<Rightarrow> World \<Rightarrow> (string \<times> SessionState) option \<times> World" where
  "start_for sv operatorId client w =
     (case draw sv SESSION_ID_BYTES w of
        (idBytes, w1) \<Rightarrow>
        (case draw sv CSRF_TOKEN_BYTES w1 of
           (csrfBytes, w2) \<Rightarrow>
           (case start_session (sv_sha256 sv) (sv_ttl sv) idBytes csrfBytes operatorId client (w_now w2) (w_store w2) of
              None \<Rightarrow> (None, w2)
            | Some (started, s) \<Rightarrow> (Some started, w2\<lparr>w_store := s\<rparr>))))"

definition method_name :: "Method \<Rightarrow> string" where
  "method_name m = (case m of ByTotp \<Rightarrow> ''totp'' | ByRecovery \<Rightarrow> ''recovery'')"

definition signed_in :: "IdentityServices \<Rightarrow> SecondPending \<Rightarrow> Method \<Rightarrow> World \<Rightarrow> Response \<times> World" where
  "signed_in sv p method' w =
     (let rq = sp_request p;
          o' = sp_operator p;
          w1 = store_write (record_attempts (subjectsFor rq o') (w_now w) True) w;
          w2 = (case rq_session rq of None \<Rightarrow> w1 | Some previous \<Rightarrow> store_write (end_session (st_idHash previous)) w1)
      in
      (case start_for sv (op_id o') (rq_client rq) w2 of
         (None, w3) \<Rightarrow> (server_error, w3)
       | (Some (i, st), w3) \<Rightarrow>
         (clear_state_cookie ((redirect (sp_next p))\<lparr>rs_sessionCookie := Some i\<rparr>),
          audit_event \<lparr>ev_action = ''login.succeeded'', ev_outcome = ''ok'', ev_operator = Some (op_id o'),
            ev_ip = ci_ip (rq_client rq), ev_details = (''method'', method_name method') # emailDetail o'\<rparr> w3)))"

definition secondStep_checked :: "IdentityServices \<Rightarrow> SecondPending \<Rightarrow> World \<Rightarrow> Response \<times> World" where
  "secondStep_checked sv p w =
     (let rq = sp_request p; o' = sp_operator p in
      (case verifySecondFactor sv o' (field (rq_form rq) ''code'') w of
         (None, w1) \<Rightarrow> (server_error, w1)
       | (Some None, w1) \<Rightarrow>
         (html 401 (PageSecondStep (bs_csrfToken (sp_state p)) (sp_next p) (Some LOGIN_FAILURE_MESSAGE)),
          login_failed rq \<lparr>cl_operator = Some o', cl_subjects = subjectsFor rq o', cl_details = emailDetail o'\<rparr> ''second-factor'' w1)
       | (Some (Some method'), w1) \<Rightarrow> signed_in sv p method' w1))"

section \<open>The other routes\<close>

definition login_page :: "IdentityServices \<Rightarrow> Request \<Rightarrow> World \<Rightarrow> Response \<times> World" where
  "login_page sv rq w =
     (let next' = safeNextPath (rq_query rq ''next'') (sv_homePath sv) in
      if rq_session rq \<noteq> None then (redirect next', w)
      else
       (case draw sv CSRF_TOKEN_BYTES w of
          (b, w') \<Rightarrow>
          (let csrf = base64url b in
           (state_cookie (anonymous_state csrf) w' (html 200 (PagePasswordStep csrf next' None (is_legacy w'))), w'))))"

definition logout :: "IdentityServices \<Rightarrow> Request \<Rightarrow> World \<Rightarrow> Response \<times> World" where
  "logout sv rq w =
     (case rq_session rq of
        None \<Rightarrow> (redirect ''/login'', w)
      | Some session \<Rightarrow>
        (case stateChange sv rq (st_csrfToken session) w of
           (Some r, w') \<Rightarrow> (r, w')
         | (None, w') \<Rightarrow>
           ((redirect ''/login'')\<lparr>rs_sessionCookie := Some []\<rparr>,
            audit_event \<lparr>ev_action = ''logout'', ev_outcome = ''ok'', ev_operator = Some (st_operatorId session),
              ev_ip = ci_ip (rq_client rq), ev_details = []\<rparr>
              (store_write (end_session (st_idHash session)) w'))))"

text \<open>\<^verbatim>\<open>attachSession\<close>: the session cookie is resolved once, before the handler.\<close>

definition attach_session :: "IdentityServices \<Rightarrow> string option \<Rightarrow> Request \<Rightarrow> World \<Rightarrow> Request \<times> World" where
  "attach_session sv cookie rq w =
     (case resolve_session (sv_sha256 sv) (sv_ttl sv) cookie (w_now w) (w_store w) of
        (session, s) \<Rightarrow> (rq\<lparr>rq_session := session\<rparr>, w\<lparr>w_store := s\<rparr>))"

end
