(* ===== verification/Account.thy ===== *)
theory Account
  imports Login
begin

text \<open>
  The first run and the account page: \<^verbatim>\<open>src/identity/bootstrap.ts\<close>, \<^verbatim>\<open>routes-setup.ts\<close>,
  \<^verbatim>\<open>routes-account.ts\<close>, \<^verbatim>\<open>routes-email.ts\<close> and \<^verbatim>\<open>primitives.ts\<close>, in segments as the sign-in is.
\<close>

section \<open>The bootstrap token\<close>

definition BOOTSTRAP_TOKEN_TTL_MS :: int where "BOOTSTRAP_TOKEN_TTL_MS = 30 * MS_PER_MINUTE"
definition TOKEN_BYTES :: nat where "TOKEN_BYTES = 32"

definition hashBootstrapToken :: "(bytes \<Rightarrow> bytes) \<Rightarrow> string \<Rightarrow> string" where
  "hashBootstrapToken sha256 s = hex_text (sha256 (utf8_encode s))"

text \<open>
  \<open>minted\<close> is the flag of the process. The outer \<open>None\<close> is an insert that throws, which ends the
  process: nothing catches it. The token is what the log line shows, if one is written.
\<close>

definition ensureToken :: "IdentityServices \<Rightarrow> string option \<Rightarrow> bool \<times> World \<Rightarrow> (string option \<times> bool \<times> World) option" where
  "ensureToken sv presetToken st =
     (case st of (minted, w) \<Rightarrow>
       if minted \<or> 0 < operator_count (w_store w) then Some (None, minted, w)
       else
        (case (case presetToken of Some t \<Rightarrow> (t, w) | None \<Rightarrow> apfst base64url (draw sv TOKEN_BYTES w)) of
           (t, w') \<Rightarrow>
           map_option (\<lambda>s. (Some t, True, w'\<lparr>w_store := s\<rparr>))
             (insert_bootstrap (hashBootstrapToken (sv_sha256 sv) t) (w_now w' + BOOTSTRAP_TOKEN_TTL_MS) (w_store w'))))"

definition isTokenUsable :: "IdentityServices \<Rightarrow> string option \<Rightarrow> World \<Rightarrow> bool" where
  "isTokenUsable sv t w \<longleftrightarrow>
     (case t of None \<Rightarrow> False | Some t' \<Rightarrow> isUsable (hashBootstrapToken (sv_sha256 sv) t') (w_now w) (w_store w))"

definition hasOperator :: "World \<Rightarrow> bool" where
  "hasOperator w \<longleftrightarrow> 0 < operator_count (w_store w)"

definition UUID_BYTES :: nat where "UUID_BYTES = 16"

text \<open>\<^verbatim>\<open>randomUuid\<close> over the bytes drawn: version 4 and the variant bits written in.\<close>

definition uuid_of :: "bytes \<Rightarrow> string" where
  "uuid_of drawn =
     (let b = map char_code drawn;
          b' = b[6 := b ! 6 mod 16 + 64, 8 := b ! 8 mod 64 + 128];
          hex = hex_text (map char_of b')
      in join_with (CHR ''-'') [take 8 hex, take 4 (drop 8 hex), take 4 (drop 12 hex), take 4 (drop 16 hex), drop 20 hex])"

section \<open>Setup\<close>

record SetupInput =
  si_email :: string
  si_password :: string
  si_totpStep :: int

text \<open>The outer \<open>None\<close> is the \<^verbatim>\<open>RangeError\<close> of \<^verbatim>\<open>verifyTotp\<close>.\<close>

definition validate_setup :: "IdentityServices \<Rightarrow> (string \<Rightarrow> string option) \<Rightarrow> octets \<Rightarrow> int \<Rightarrow> (SetupInput, string) result option" where
  "validate_setup sv form secret now =
     (case normaliseEmail (field form ''email'') of
        Inl e \<Rightarrow> Some (fail e)
      | Inr email \<Rightarrow>
        (case checkPasswordPolicy (sv_common sv) (field form ''password'') of
           Inl e \<Rightarrow> Some (fail e)
         | Inr password \<Rightarrow>
           (case verifyTotp (sv_hmac sv) \<lparr>tv_secret = secret, tv_code = field form ''code'', tv_nowMs = now, tv_lastStep = None\<rparr> of
              None \<Rightarrow> None
            | Some None \<Rightarrow> Some (fail ''the authenticator code was not accepted'')
            | Some (Some step) \<Rightarrow> Some (ok \<lparr>si_email = email, si_password = password, si_totpStep = step\<rparr>))))"

definition setupContext :: "IdentityServices \<Rightarrow> Request \<Rightarrow> World \<Rightarrow> (octets \<times> string, Response) result \<times> World" where
  "setupContext sv rq w =
     (case requireState sv rq w of
        (Inl r, w') \<Rightarrow> (fail r, w')
      | (Inr st, w') \<Rightarrow>
        (case bs_setupSecret st of
           None \<Rightarrow> apfst fail (deny rq ''missing enrolment state'' w')
         | Some secret \<Rightarrow> (ok (latin1 (base64_decode secret), bs_csrfToken st), w')))"

definition setup_page :: "IdentityServices \<Rightarrow> Request \<Rightarrow> World \<Rightarrow> Response \<times> World" where
  "setup_page sv rq w =
     (if hasOperator w then (html 404 (PageText ''Not Found''), w)
      else if \<not> isTokenUsable sv (rq_query rq ''token'') w then (html 200 PageSetupUnavailable, w)
      else
       (case draw sv TOTP_SECRET_BYTES w of
          (secret, w1) \<Rightarrow>
          (case draw sv CSRF_TOKEN_BYTES w1 of
             (b, w2) \<Rightarrow>
             (let csrf = base64url b in
              (state_cookie ((anonymous_state csrf)\<lparr>bs_setupSecret := Some (base64 secret)\<rparr>) w2
                 (html 200 (PageSetup (field (rq_query rq) ''token'') csrf (describeEnrolment None (latin1 secret)) [] None)), w2)))))"

record SetupPending =
  su_request :: Request
  su_secret :: octets
  su_input :: SetupInput
  su_token :: string
  su_hash :: "string option"

text \<open>The first segment ends in \<^verbatim>\<open>hashPassword\<close>, whose salt is drawn before it waits.\<close>

definition setup_post :: "IdentityServices \<Rightarrow> Request \<Rightarrow> World \<Rightarrow> (SetupPending, Response) result \<times> World" where
  "setup_post sv rq w =
     (if hasOperator w then (fail (html 404 (PageText ''Not Found'')), w)
      else
       (case setupContext sv rq w of
          (Inl r, w') \<Rightarrow> (fail r, w')
        | (Inr (secret, csrf), w') \<Rightarrow>
          (let t = field (rq_form rq) ''token'' in
           (case validate_setup sv (rq_form rq) secret (w_now w') of
              None \<Rightarrow> (fail server_error, w')
            | Some (Inl e) \<Rightarrow>
              (let email = trim (field (rq_form rq) ''email'') in
               (fail (html 400 (PageSetup t csrf (describeEnrolment (if email = [] then None else Some email) secret) email (Some e))), w'))
            | Some (Inr input) \<Rightarrow>
              (case draw sv SALT_BYTES w' of
                 (salt, w'') \<Rightarrow>
                 (ok \<lparr>su_request = rq, su_secret = secret, su_input = input, su_token = t,
                      su_hash = hashPassword (sv_scrypt sv) (si_password input) salt (sv_parameters sv)\<rparr>, w''))))))"

text \<open>\<^verbatim>\<open>createOperator\<close>: one transaction. The outer \<open>None\<close> is an exception, after which the store is as before.\<close>

definition create_in_store ::
  "IdentityServices \<Rightarrow> SetupInput \<Rightarrow> string \<Rightarrow> string \<Rightarrow> string \<Rightarrow> string list \<Rightarrow> int \<Rightarrow> IdentityStore \<Rightarrow> IdentityStore option" where
  "create_in_store sv input i passwordHash totpCiphertext codes now s =
     Option.bind
       (create_operator \<lparr>op_id = i, op_email = Some (si_email input), op_passwordHash = passwordHash,
          op_totpSecret = Some totpCiphertext, op_totpLastStep = Some (si_totpStep input), op_createdAt = now,
          op_passwordChangedAt = now\<rparr> s)
       (replaceAll i (map (hashRecoveryCode (sv_sha256 sv)) codes))"

definition createOperator ::
  "IdentityServices \<Rightarrow> string \<Rightarrow> SetupInput \<Rightarrow> string \<Rightarrow> string \<Rightarrow> string list \<Rightarrow> World \<Rightarrow> string option option \<times> World" where
  "createOperator sv t input passwordHash totpCiphertext codes w =
     (case consume_bootstrap (hashBootstrapToken (sv_sha256 sv) t) (w_now w) (w_store w) of
        (False, s) \<Rightarrow> (Some None, w\<lparr>w_store := s\<rparr>)
      | (True, s) \<Rightarrow>
        (case draw sv UUID_BYTES w of
           (b, w') \<Rightarrow>
           (case create_in_store sv input (uuid_of b) passwordHash totpCiphertext codes (w_now w') s of
              None \<Rightarrow> (None, w')
            | Some s' \<Rightarrow> (Some (Some (uuid_of b)), w'\<lparr>w_store := s'\<rparr>))))"

definition setup_hashed :: "IdentityServices \<Rightarrow> SetupPending \<Rightarrow> World \<Rightarrow> Response \<times> World" where
  "setup_hashed sv p w =
     (case su_hash p of
        None \<Rightarrow> (server_error, w)
      | Some passwordHash \<Rightarrow>
        (let codes = generateRecoveryCodes (sv_draw sv) (w_draws w);
             w1 = w\<lparr>w_draws := w_draws w + RECOVERY_CODE_COUNT\<rparr>
         in
         (case draw sv IV_BYTES w1 of
            (iv, w2) \<Rightarrow>
            (case createOperator sv (su_token p) (su_input p) passwordHash (box_seal (sv_totpBox sv) iv (text_of (su_secret p))) codes w2 of
               (None, w3) \<Rightarrow> (server_error, w3)
             | (Some None, w3) \<Rightarrow> (html 400 PageSetupUnavailable, w3)
             | (Some (Some operatorId), w3) \<Rightarrow>
               (case start_for sv operatorId (rq_client (su_request p)) w3 of
                  (None, w4) \<Rightarrow> (server_error, w4)
                | (Some (i, st), w4) \<Rightarrow>
                  (clear_state_cookie ((html 200 (PageRecoveryCodes codes))\<lparr>rs_sessionCookie := Some i\<rparr>),
                   audit_event \<lparr>ev_action = ''operator.created'', ev_outcome = ''ok'', ev_operator = Some operatorId,
                     ev_ip = ci_ip (rq_client (su_request p)), ev_details = [(''email'', si_email (su_input p))]\<rparr> w4))))))"

section \<open>The gates of the account page\<close>

record Authenticated =
  au_session :: SessionState
  au_operator :: OperatorRecord

definition LEGACY_ALLOWED_PATHS :: "string list" where
  "LEGACY_ALLOWED_PATHS = [''/account/reauthenticate'', ''/account/email'']"

definition requireAuthenticated :: "IdentityServices \<Rightarrow> Request \<Rightarrow> World \<Rightarrow> (Authenticated, Response) result \<times> World" where
  "requireAuthenticated sv rq w =
     (case rq_session rq of
        None \<Rightarrow> apfst fail (deny rq ''no session'' w)
      | Some session \<Rightarrow>
        (case stateChange sv rq (st_csrfToken session) w of
           (Some r, w') \<Rightarrow> (fail r, w')
         | (None, w') \<Rightarrow>
           (case findOperatorById (st_operatorId session) (w_store w') of
              None \<Rightarrow> apfst fail (deny rq ''operator no longer exists'' w')
            | Some o' \<Rightarrow>
              (if op_email o' = None \<and> rq_path rq \<notin> set LEGACY_ALLOWED_PATHS then apfst fail (deny rq ''e-mail address required'' w')
               else (ok \<lparr>au_session = session, au_operator = o'\<rparr>, w')))))"

definition requireReauthenticated :: "IdentityServices \<Rightarrow> Request \<Rightarrow> World \<Rightarrow> (Authenticated, Response) result \<times> World" where
  "requireReauthenticated sv rq w =
     (case requireAuthenticated sv rq w of
        (Inl r, w') \<Rightarrow> (fail r, w')
      | (Inr a, w') \<Rightarrow>
        (if st_isReauthenticated (au_session a) then (ok a, w') else apfst fail (deny rq ''re-authentication required'' w')))"

definition account_event :: "Request \<Rightarrow> string \<Rightarrow> string \<Rightarrow> AuditEvent" where
  "account_event rq action operatorId =
     \<lparr>ev_action = action, ev_outcome = ''ok'', ev_operator = Some operatorId, ev_ip = ci_ip (rq_client rq), ev_details = []\<rparr>"

section \<open>The account page\<close>

record ReauthPending =
  re_request :: Request
  re_who :: Authenticated
  re_next :: string
  re_due :: int

definition reauthenticate :: "IdentityServices \<Rightarrow> Request \<Rightarrow> World \<Rightarrow> (ReauthPending, Response) result \<times> World" where
  "reauthenticate sv rq w =
     (case requireAuthenticated sv rq w of
        (Inl r, w') \<Rightarrow> (fail r, w')
      | (Inr a, w') \<Rightarrow>
        (ok \<lparr>re_request = rq, re_who = a, re_next = safeNextPath (rq_form rq ''next'') ACCOUNT_PATH,
             re_due = w_now w' + delayFor (subjectsFor rq (au_operator a)) (w_now w') (w_store w')\<rparr>, w'))"

definition refusedReauthentication :: "Authenticated \<Rightarrow> string \<Rightarrow> Response" where
  "refusedReauthentication a next' =
     (if next' = ACCOUNT_PATH \<or> op_email (au_operator a) = None then html 401 (PageAccount (Some ''That password was not recognised.''))
      else html 401 (PageUnlock next' ''That password was not recognised.''))"

definition reauthenticate_checked :: "IdentityServices \<Rightarrow> ReauthPending \<Rightarrow> World \<Rightarrow> Response \<times> World" where
  "reauthenticate_checked sv p w =
     (let rq = re_request p; o' = au_operator (re_who p) in
      (case isCorrectPassword (sv_scrypt sv) (field (rq_form rq) ''password'') (op_passwordHash o') of
         None \<Rightarrow> (server_error, w)
       | Some isCorrect \<Rightarrow>
         (let w1 = store_write (record_attempts (subjectsFor rq o') (w_now w) isCorrect) w in
          if \<not> isCorrect then
            (refusedReauthentication (re_who p) (re_next p),
             audit_event ((account_event rq ''reauthentication.failed'' (op_id o'))\<lparr>ev_outcome := ''failure''\<rparr>) w1)
          else
            (redirect (if re_next p = ACCOUNT_PATH then ''/account?notice=reauthenticated'' else re_next p),
             audit_event (account_event rq ''reauthentication.succeeded'' (op_id o'))
               (store_write (markReauthenticated (st_idHash (au_session (re_who p))) (w_now w)) w1)))))"

record ChangePending =
  cg_request :: Request
  cg_who :: Authenticated
  cg_hash :: "string option"

definition changePassword :: "IdentityServices \<Rightarrow> Request \<Rightarrow> World \<Rightarrow> (ChangePending, Response) result \<times> World" where
  "changePassword sv rq w =
     (case requireReauthenticated sv rq w of
        (Inl r, w') \<Rightarrow> (fail r, w')
      | (Inr a, w') \<Rightarrow>
        (case checkPasswordPolicy (sv_common sv) (field (rq_form rq) ''password'') of
           Inl e \<Rightarrow> (fail (html 400 (PageAccount (Some e))), w')
         | Inr password \<Rightarrow>
           (case draw sv SALT_BYTES w' of
              (salt, w'') \<Rightarrow>
              (ok \<lparr>cg_request = rq, cg_who = a, cg_hash = hashPassword (sv_scrypt sv) password salt (sv_parameters sv)\<rparr>, w''))))"

definition changePassword_hashed :: "ChangePending \<Rightarrow> World \<Rightarrow> Response \<times> World" where
  "changePassword_hashed p w =
     (case cg_hash p of
        None \<Rightarrow> (server_error, w)
      | Some hash \<Rightarrow>
        (let i = op_id (au_operator (cg_who p)) in
         (redirect ''/account?notice=password-changed'',
          audit_event (account_event (cg_request p) ''password.changed'' i)
            (store_write (\<lambda>s. snd (endOthers i (st_idHash (au_session (cg_who p))) (updatePasswordHash i hash (w_now w) s))) w))))"

definition rotateTotp :: "IdentityServices \<Rightarrow> Request \<Rightarrow> World \<Rightarrow> Response \<times> World" where
  "rotateTotp sv rq w0 =
     (case requireReauthenticated sv rq w0 of
        (Inl r, w) \<Rightarrow> (r, w)
      | (Inr a, w) \<Rightarrow>
        (let csrf = st_csrfToken (au_session a); o' = au_operator a in
         (case rq_form rq ''code'' of
            None \<Rightarrow>
              (case draw sv TOTP_SECRET_BYTES w of
                 (secret, w1) \<Rightarrow>
                 (state_cookie ((anonymous_state csrf)\<lparr>bs_pendingTotp := Some (base64 secret)\<rparr>) w1
                    (html 200 (PageTotpRotation csrf (describeEnrolment (op_email o') (latin1 secret)) None)), w1))
          | Some code \<Rightarrow>
            (case Option.bind (readState rq w) bs_pendingTotp of
               None \<Rightarrow> deny rq ''no pending authenticator'' w
             | Some pending \<Rightarrow>
               (let secret = base64_decode pending in
                (case verifyTotp (sv_hmac sv) \<lparr>tv_secret = latin1 secret, tv_code = trim code, tv_nowMs = w_now w, tv_lastStep = None\<rparr> of
                   None \<Rightarrow> (server_error, w)
                 | Some None \<Rightarrow>
                   (html 400 (PageTotpRotation csrf (describeEnrolment (op_email o') (latin1 secret)) (Some ''the code was not accepted'')), w)
                 | Some (Some step) \<Rightarrow>
                   (case draw sv IV_BYTES w of
                      (iv, w1) \<Rightarrow>
                      (clear_state_cookie (redirect ''/account?notice=totp-rotated''),
                       audit_event (account_event rq ''totp.rotated'' (op_id o'))
                         (store_write (\<lambda>s. updateTotpLastStep (op_id o') step
                            (updateTotpSecret (op_id o') (box_seal (sv_totpBox sv) iv secret) s)) w1)))))))))"

definition regenerateRecoveryCodes :: "IdentityServices \<Rightarrow> Request \<Rightarrow> World \<Rightarrow> Response \<times> World" where
  "regenerateRecoveryCodes sv rq w0 =
     (case requireReauthenticated sv rq w0 of
        (Inl r, w) \<Rightarrow> (r, w)
      | (Inr a, w) \<Rightarrow>
        (let codes = generateRecoveryCodes (sv_draw sv) (w_draws w);
             w1 = w\<lparr>w_draws := w_draws w + RECOVERY_CODE_COUNT\<rparr>;
             i = op_id (au_operator a)
         in
         (case replaceAll i (map (hashRecoveryCode (sv_sha256 sv)) codes) (w_store w1) of
            None \<Rightarrow> (server_error, w1)
          | Some s \<Rightarrow>
            (html 200 (PageRecoveryCodes codes),
             audit_event (account_event rq ''recovery-codes.regenerated'' i) (w1\<lparr>w_store := s\<rparr>)))))"

definition changeEmail :: "IdentityServices \<Rightarrow> Request \<Rightarrow> World \<Rightarrow> Response \<times> World" where
  "changeEmail sv rq w0 =
     (case requireReauthenticated sv rq w0 of
        (Inl r, w) \<Rightarrow> (r, w)
      | (Inr a, w) \<Rightarrow>
        (case normaliseEmail (field (rq_form rq) ''email'') of
           Inl e \<Rightarrow> (html 400 (PageAccount (Some e)), w)
         | Inr email \<Rightarrow>
           (case updateEmail (op_id (au_operator a)) email (w_store w) of
              None \<Rightarrow> (server_error, w)
            | Some s \<Rightarrow>
              (redirect (''/account?notice='' @ (if op_email (au_operator a) = None then ''email-set'' else ''email-changed'')),
               audit_event ((account_event rq ''email.changed'' (op_id (au_operator a)))\<lparr>ev_details := [(''email'', email)]\<rparr>)
                 (w\<lparr>w_store := s\<rparr>)))))"

text \<open>A preset token outlives the process that stored it: the next start before its expiry throws.\<close>

lemma preset_token_restart_throws:
  assumes "ensureToken sv (Some t) (False, w) = Some (Some t, True, w')" "db_operators (w_store w'') = []"
    and "db_bootstrap (w_store w'') = db_bootstrap (w_store w')"
  shows "ensureToken sv (Some t) (False, w'') = None"
  using assms
  by (auto simp: ensureToken_def insert_bootstrap_def operator_count_def split: if_splits)

end
