(* ===== verification/LoginSystem.thy ===== *)
theory LoginSystem
  imports Account
begin

text \<open>
  The routes of \<^verbatim>\<open>src/identity\<close> together: requests arrive, wait for their backoff or for scrypt, and
  go on in any order, with the clock moving and maintenance running between them; and which handlers
  leave which part of the store as it was.
\<close>

section \<open>The system\<close>

datatype Pending =
    PPassword PasswordPending
  | PRehash RehashPending
  | PSecond SecondPending
  | PSetup SetupPending
  | PReauth ReauthPending
  | PChange ChangePending

datatype Route =
    GetLogin | PostLogin | PostVerify | PostLogout | GetSetup | PostSetup
  | PostReauth | PostPassword | PostTotp | PostRecovery | PostEmail

type_synonym Segment = "(Pending, Response) result \<times> World"

definition waits :: "('p \<Rightarrow> Pending) \<Rightarrow> ('p, Response) result \<times> World \<Rightarrow> Segment" where
  "waits P r = (case r of (Inl response, w) \<Rightarrow> (fail response, w) | (Inr p, w) \<Rightarrow> (ok (P p), w))"

definition answers :: "Response \<times> World \<Rightarrow> Segment" where
  "answers r = apfst fail r"

definition begin_route :: "IdentityServices \<Rightarrow> Route \<Rightarrow> Request \<Rightarrow> World \<Rightarrow> Segment" where
  "begin_route sv route rq w =
     (case route of
        GetLogin \<Rightarrow> answers (login_page sv rq w)
      | PostLogin \<Rightarrow> waits PPassword (passwordStep sv rq w)
      | PostVerify \<Rightarrow> waits PSecond (secondStep sv rq w)
      | PostLogout \<Rightarrow> answers (logout sv rq w)
      | GetSetup \<Rightarrow> answers (setup_page sv rq w)
      | PostSetup \<Rightarrow> waits PSetup (setup_post sv rq w)
      | PostReauth \<Rightarrow> waits PReauth (reauthenticate sv rq w)
      | PostPassword \<Rightarrow> waits PChange (changePassword sv rq w)
      | PostTotp \<Rightarrow> answers (rotateTotp sv rq w)
      | PostRecovery \<Rightarrow> answers (regenerateRecoveryCodes sv rq w)
      | PostEmail \<Rightarrow> answers (changeEmail sv rq w))"

definition resume :: "IdentityServices \<Rightarrow> Pending \<Rightarrow> World \<Rightarrow> Segment" where
  "resume sv p w =
     (case p of
        PPassword q \<Rightarrow> waits PRehash (passwordStep_checked sv q w)
      | PRehash q \<Rightarrow> answers (passwordStep_rehashed q w)
      | PSecond q \<Rightarrow> answers (secondStep_checked sv q w)
      | PSetup q \<Rightarrow> answers (setup_hashed sv q w)
      | PReauth q \<Rightarrow> answers (reauthenticate_checked sv q w)
      | PChange q \<Rightarrow> answers (changePassword_hashed q w))"

text \<open>A request that waits for its backoff does not go on before it has passed.\<close>

definition due_time :: "World \<Rightarrow> Pending \<Rightarrow> int" where
  "due_time w p = (case p of PPassword q \<Rightarrow> pp_due q | PSecond q \<Rightarrow> sp_due q | PReauth q \<Rightarrow> re_due q | _ \<Rightarrow> w_now w)"

text \<open>\<open>routes\<close> are the routes that are requested in the run.\<close>

inductive login_step :: "IdentityServices \<Rightarrow> Route set \<Rightarrow> World \<times> Pending list \<Rightarrow> World \<times> Pending list \<Rightarrow> bool"
  for sv :: IdentityServices and routes :: "Route set" where
  time_passes: "w_now w \<le> later \<Longrightarrow> login_step sv routes (w, ps) (w\<lparr>w_now := later\<rparr>, ps)"
| arrives: "route \<in> routes \<Longrightarrow> attach_session sv cookie rq w = (rq', w1) \<Longrightarrow> begin_route sv route rq' w1 = (r, w2) \<Longrightarrow>
    login_step sv routes (w, ps) (w2, (case r of Inl response \<Rightarrow> ps | Inr p \<Rightarrow> ps @ [p]))"
| goes_on: "p \<in> set ps \<Longrightarrow> due_time w p \<le> w_now w \<Longrightarrow> resume sv p w = (r, w') \<Longrightarrow>
    login_step sv routes (w, ps) (w', (case r of Inl response \<Rightarrow> remove1 p ps | Inr q \<Rightarrow> q # remove1 p ps))"
| maintains: "login_step sv routes (w, ps) (store_write (identity_maintenance (w_now w)) w, ps)"

section \<open>What the operations leave alone\<close>

named_theorems leaves \<open>tables an operation does not write\<close>

lemma db_leaves [leaves]:
  "db_recovery (update_operator i f s) = db_recovery s" "db_recovery (update_session h g s) = db_recovery s"
  "db_recovery (delete_session h s) = db_recovery s" "db_recovery (snd (deleteOthersForOperator i h s)) = db_recovery s"
  "db_recovery (identity_maintenance now s) = db_recovery s" "db_recovery (record_attempts subs now b s) = db_recovery s"
  "db_operators (update_session h g s) = db_operators s" "db_operators (delete_session h s) = db_operators s"
  "db_operators (snd (deleteOthersForOperator i h s)) = db_operators s" "db_operators (identity_maintenance now s) = db_operators s"
  "db_operators (record_attempts subs now b s) = db_operators s"
  by (simp_all add: update_operator_def update_session_def delete_session_def deleteOthersForOperator_def identity_maintenance_def Let_def)

lemma audit_leaves [simp]: "w_store (audit_event e w) = w_store w" "w_now (audit_event e w) = w_now w" "w_draws (audit_event e w) = w_draws w"
  by (simp_all add: audit_event_def)

lemma store_write_sel [simp]: "w_store (store_write f w) = f (w_store w)" "w_now (store_write f w) = w_now w"
  by (simp_all add: store_write_def)

lemma deny_sel [simp]:
  "w_store (snd (deny rq reason w)) = w_store w" "w_now (snd (deny rq reason w)) = w_now w" "rs_sessionCookie (fst (deny rq reason w)) = None"
  by (simp_all add: deny_def html_def)

definition same_world :: "World \<Rightarrow> World \<Rightarrow> bool" where
  "same_world w w' \<longleftrightarrow> w_store w' = w_store w \<and> w_now w' = w_now w"

lemma same_worldD: "same_world w w' \<Longrightarrow> w_store w' = w_store w \<and> w_now w' = w_now w"
  by (simp add: same_world_def)

lemma same_world_deny [simp]: "same_world w (snd (deny rq reason w'))" if "same_world w w'"
  using that by (simp add: same_world_def)

lemma same_world_refl [simp]: "same_world w w"
  by (simp add: same_world_def)

lemma same_stateChange: "same_world w (snd (stateChange sv rq csrf w))"
  by (simp add: same_world_def stateChange_def)

lemma same_requireState: "same_world w (snd (requireState sv rq w))"
  using same_stateChange [of w sv rq] by (simp add: requireState_def case_prod_beta split: option.split)

lemma same_requireAuthenticated: "same_world w (snd (requireAuthenticated sv rq w))"
proof (cases "rq_session rq")
  case (Some session)
  obtain r w' where r: "stateChange sv rq (st_csrfToken session) w = (r, w')" by fastforce
  then have "same_world w w'" using same_stateChange [of w sv rq "st_csrfToken session"] by simp
  then show ?thesis
    unfolding requireAuthenticated_def Some option.case r prod.case by (cases r) (simp_all split: option.split)
qed (simp add: requireAuthenticated_def)

lemma same_requireReauthenticated: "same_world w (snd (requireReauthenticated sv rq w))"
proof -
  obtain r w' where r: "requireAuthenticated sv rq w = (r, w')" by fastforce
  then have "same_world w w'" using same_requireAuthenticated [of w sv rq] by simp
  then show ?thesis
    unfolding requireReauthenticated_def r prod.case by (cases r) simp_all
qed

lemma same_setupContext: "same_world w (snd (setupContext sv rq w))"
proof -
  obtain r w' where r: "requireState sv rq w = (r, w')" by fastforce
  then have "same_world w w'" using same_requireState [of w sv rq] by simp
  then show ?thesis
    unfolding setupContext_def r prod.case by (cases r) (simp_all split: option.split)
qed

lemma same_draw: "same_world w (snd (draw sv n w))"
  by (simp add: draw_def same_world_def)

lemma fallback_hash_store: "fallback_hash sv w = (r, w') \<Longrightarrow> w_store w' = w_store w \<and> w_now w' = w_now w"
  by (auto simp: fallback_hash_def draw_def Let_def split: option.splits)

lemma start_for_store:
  "start_for sv i client w = (r, w') \<Longrightarrow>
   db_recovery (w_store w') = db_recovery (w_store w) \<and> db_operators (w_store w') = db_operators (w_store w) \<and> w_now w' = w_now w"
  by (auto simp: start_for_def draw_def start_session_def insert_session_def Let_def split: option.splits prod.splits if_splits)

lemma attach_store:
  "attach_session sv cookie rq w = (rq', w') \<Longrightarrow>
   db_recovery (w_store w') = db_recovery (w_store w) \<and> db_operators (w_store w') = db_operators (w_store w) \<and> w_now w' = w_now w"
  by (auto simp: attach_session_def resolve_session_def delete_session_def touch_session_def update_session_def Let_def
      split: option.splits prod.splits if_splits)

lemma answers_Inr [simp]: "answers r \<noteq> (Inr p, w)"
  by (cases r) (simp add: answers_def fail_def)

lemma waits_Inr: "waits P r = (Inr p, w) \<Longrightarrow> \<exists>q. p = P q"
  by (auto simp: waits_def ok_def fail_def split: sum.splits prod.splits)

section \<open>A view of the store the handlers keep\<close>

text \<open>
  A view of the store that depends on the operators and the recovery codes alone and that neither a
  new password nor a new address changes. Every handler keeps it, apart from those that check a
  second factor, replace an authenticator or issue codes.
\<close>

locale store_view =
  fixes view :: "IdentityStore \<Rightarrow> 'a"
  assumes view_cong: "db_operators s' = db_operators s \<Longrightarrow> db_recovery s' = db_recovery s \<Longrightarrow> view s' = view s"
    and view_password: "view (updatePasswordHash i h t s) = view s"
    and view_email: "updateEmail i email s = Some s' \<Longrightarrow> view s' = view s"
begin

abbreviation seen :: "World \<Rightarrow> 'a" where
  "seen w \<equiv> view (w_store w)"

lemma view_leaves [simp]:
  "view (update_session h g s) = view s" "view (delete_session h s) = view s" "view (snd (deleteOthersForOperator i h s)) = view s"
  "view (identity_maintenance now s) = view s" "view (record_attempts subs now b s) = view s"
  by (rule view_cong; simp add: leaves update_operator_def update_session_def delete_session_def deleteOthersForOperator_def
      identity_maintenance_def Let_def)+

lemma seen_same: "same_world w w' \<Longrightarrow> seen w' = seen w"
  by (simp add: same_world_def)

lemma seen_draw [simp]: "seen (snd (draw sv n w)) = seen w"
  by (simp add: draw_def)

lemma seen_login_failed [simp]: "seen (login_failed rq c step w) = seen w"
  by (simp add: login_failed_def)

lemma seen_password_refused [simp]: "seen (snd (password_refused p w)) = seen w"
  by (simp add: password_refused_def Let_def)

lemma seen_passwordStep [simp]: "seen (snd (passwordStep sv rq w)) = seen w"
  using seen_same [OF same_requireState] by (simp add: passwordStep_def case_prod_beta Let_def split: sum.split)

lemma seen_fallback [simp]: "seen (snd (fallback_hash sv w)) = seen w"
  by (simp add: fallback_hash_def draw_def Let_def split: option.split)

lemma seen_passwordStep_checked [simp]: "seen (snd (passwordStep_checked sv p w)) = seen w"
proof (cases "cl_operator (pp_claim p)")
  case None
  then show ?thesis by (simp add: passwordStep_checked_def case_prod_beta Let_def split: option.split)
next
  case (Some o')
  then show ?thesis
    by (simp add: passwordStep_checked_def case_prod_beta Let_def split: option.split)
qed

lemma seen_passwordStep_rehashed [simp]: "seen (snd (passwordStep_rehashed p w)) = seen w"
  by (simp add: passwordStep_rehashed_def Let_def view_password split: option.split)

lemma seen_secondStep [simp]: "seen (snd (secondStep sv rq w)) = seen w"
  using seen_same [OF same_requireState] by (simp add: secondStep_def case_prod_beta split: sum.split option.split)

lemma seen_start_for [simp]: "seen (snd (start_for sv i client w)) = seen w"
proof -
  obtain r w' where r: "start_for sv i client w = (r, w')" by fastforce
  from start_for_store [OF this] have "seen w' = seen w" by (intro view_cong) simp_all
  with r show ?thesis by simp
qed

lemma seen_attach: "attach_session sv cookie rq w = (rq', w') \<Longrightarrow> seen w' = seen w"
  using attach_store by (intro view_cong) blast+

lemma seen_signed_in [simp]: "seen (snd (signed_in sv p m w)) = seen w"
  by (simp add: signed_in_def Let_def case_prod_beta end_session_def split: option.split)

lemma seen_secondStep_checked: "seen (snd (secondStep_checked sv p w)) = seen (snd (verifySecondFactor sv (sp_operator p) (field (rq_form (sp_request p)) ''code'') w))"
  by (simp add: secondStep_checked_def Let_def case_prod_beta split: option.split)

lemma seen_login_page [simp]: "seen (snd (login_page sv rq w)) = seen w"
  by (simp add: login_page_def Let_def case_prod_beta)

lemma seen_logout [simp]: "seen (snd (logout sv rq w)) = seen w"
  using seen_same [OF same_stateChange]
  by (simp add: logout_def case_prod_beta end_session_def split: option.split)

lemma seen_setup_page [simp]: "seen (snd (setup_page sv rq w)) = seen w"
  by (simp add: setup_page_def Let_def case_prod_beta)

lemma seen_setup_post [simp]: "seen (snd (setup_post sv rq w)) = seen w"
proof -
  obtain r w' where r: "setupContext sv rq w = (r, w')" by fastforce
  then have "seen w' = seen w" using seen_same [OF same_setupContext [of w sv rq]] by simp
  then show ?thesis
    unfolding setup_post_def r by (simp add: Let_def case_prod_beta split: sum.split option.split)
qed

lemma seen_account [simp]:
  "seen (snd (reauthenticate sv rq w)) = seen w" "seen (snd (changePassword sv rq w)) = seen w"
  using seen_same [OF same_requireAuthenticated] seen_same [OF same_requireReauthenticated]
  by (simp_all add: reauthenticate_def changePassword_def case_prod_beta split: sum.split)

lemma seen_reauthenticate_checked [simp]: "seen (snd (reauthenticate_checked sv p w)) = seen w"
  by (simp add: reauthenticate_checked_def Let_def markReauthenticated_def setReauthenticatedAt_def split: option.split)

lemma seen_changePassword_hashed [simp]: "seen (snd (changePassword_hashed p w)) = seen w"
  by (simp add: changePassword_hashed_def Let_def endOthers_def view_password split: option.split)

lemma seen_changeEmail [simp]: "seen (snd (changeEmail sv rq w)) = seen w"
proof -
  obtain r w' where r: "requireReauthenticated sv rq w = (r, w')" by fastforce
  then have "seen w' = seen w" using seen_same [OF same_requireReauthenticated [of w sv rq]] by simp
  then show ?thesis
    unfolding changeEmail_def r by (auto dest: view_email split: sum.split option.splits)
qed

lemma seen_waits [simp]: "seen (snd (waits P r)) = seen (snd r)"
  by (simp add: waits_def case_prod_beta split: sum.split)

lemma seen_answers [simp]: "seen (snd (answers r)) = seen (snd r)"
  by (simp add: answers_def)

lemma seen_begin: "route \<noteq> PostRecovery \<Longrightarrow> route \<noteq> PostTotp \<Longrightarrow> seen (snd (begin_route sv route rq w)) = seen w"
  by (cases route) (simp_all add: begin_route_def)

lemma seen_resume: "(\<And>q. p \<noteq> PSetup q) \<Longrightarrow> (\<And>q. p \<noteq> PSecond q) \<Longrightarrow> seen (snd (resume sv p w)) = seen w"
  by (cases p) (auto simp: resume_def)

end

end
