(* ===== verification/LoginSafety.thy ===== *)
theory LoginSafety
  imports LoginSystem
begin

text \<open>
  What holds of every run of the sign-in: a recovery code signs in once, in any interleaving; a
  one-time code does when requests do not overlap, and \<open>totp_replay_race\<close> is what two overlapping
  requests do; and what a response that signs in has checked.
\<close>

section \<open>Recovery codes\<close>

interpretation codes: store_view db_recovery
  by unfold_locales (auto simp: updatePasswordHash_def updateEmail_def leaves split: if_splits)

definition codes_of :: "World \<Rightarrow> RecoveryRow list" where
  "codes_of w = db_recovery (w_store w)"

lemma codes_rotateTotp: "codes_of (snd (rotateTotp sv rq w)) = codes_of w"
proof -
  obtain r w' where r: "requireReauthenticated sv rq w = (r, w')" by fastforce
  then have "codes_of w' = codes_of w" using codes.seen_same [OF same_requireReauthenticated [of w sv rq]] by (simp add: codes_of_def)
  then show ?thesis
    unfolding rotateTotp_def r
    by (simp add: Let_def case_prod_beta codes_of_def updateTotpLastStep_def updateTotpSecret_def leaves split: sum.split option.split)
qed

text \<open>No code becomes unused.\<close>

definition spends :: "World \<Rightarrow> World \<Rightarrow> bool" where
  "spends w w' \<longleftrightarrow> (\<forall>i h. (\<exists>r \<in> set (codes_of w'). unused_code i h r) \<longrightarrow> (\<exists>r \<in> set (codes_of w). unused_code i h r))"

lemma spends_same: "codes_of w' = codes_of w \<Longrightarrow> spends w w'"
  by (simp add: spends_def)

lemma spends_trans: "spends w w' \<Longrightarrow> spends w' w'' \<Longrightarrow> spends w w''"
  by (auto simp: spends_def)

lemma consume_spends: "spends w (w\<lparr>w_store := snd (consume_code i h now (w_store w))\<rparr>)"
  by (auto simp: spends_def codes_of_def consume_code_def set_update_rows unused_code_def split: if_splits)

lemma consume_consumes: "\<not> (\<exists>r \<in> set (db_recovery (snd (consume_code i h now s))). unused_code i h r)"
  by (simp add: consume_code_def update_rows_def) (auto simp: unused_code_def)

lemma verify_recovery:
  "\<not> totp_shape (trim code) \<Longrightarrow>
   verifySecondFactor sv o' code w =
     (let c = consume_code (op_id o') (hashRecoveryCode (sv_sha256 sv) (trim code)) (w_now w) (w_store w) in
      (Some (if fst c then Some ByRecovery else None), w\<lparr>w_store := snd c\<rparr>))"
  by (simp add: verifySecondFactor_def Let_def case_prod_beta)

lemma verify_totp_codes: "totp_shape (trim code) \<Longrightarrow> codes_of (snd (verifySecondFactor sv o' code w)) = codes_of w"
  by (simp add: verifySecondFactor_def Let_def codes_of_def updateTotpLastStep_def leaves split: option.split)

lemma verify_spends: "spends w (snd (verifySecondFactor sv o' code w))"
  using consume_spends [of w]
  by (cases "totp_shape (trim code)") (simp_all add: verify_totp_codes spends_same verify_recovery Let_def)

lemma secondStep_checked_spends: "spends w (snd (secondStep_checked sv p w))"
  using verify_spends [of w sv "sp_operator p" "field (rq_form (sp_request p)) ''code''"]
  by (simp add: spends_def codes_of_def codes.seen_secondStep_checked)

lemma begin_codes: "route \<noteq> PostRecovery \<Longrightarrow> codes_of (snd (begin_route sv route rq w)) = codes_of w"
  using codes.seen_begin [of route sv rq w] codes_rotateTotp [of sv rq w]
  by (cases "route = PostTotp") (simp_all add: codes_of_def begin_route_def)

text \<open>Nothing that sets new codes runs or waits.\<close>

definition no_new_codes :: "Pending list \<Rightarrow> bool" where
  "no_new_codes ps \<longleftrightarrow> (\<forall>p \<in> set ps. \<forall>q. p \<noteq> PSetup q)"

lemma resume_spends: "(\<And>q. p \<noteq> PSetup q) \<Longrightarrow> spends w (snd (resume sv p w))"
  using codes.seen_resume [of p sv w]
  by (cases "\<exists>q. p = PSecond q") (auto simp: codes_of_def spends_same resume_def answers_def secondStep_checked_spends)

lemma begin_no_new: "route \<noteq> PostSetup \<Longrightarrow> begin_route sv route rq w = (Inr p, w') \<Longrightarrow> p \<noteq> PSetup q"
  by (cases route) (auto simp: begin_route_def dest: waits_Inr)

lemma resume_no_new: "resume sv p w = (Inr p', w') \<Longrightarrow> p' \<noteq> PSetup q"
  by (cases p) (auto simp: resume_def dest: waits_Inr)

lemma login_step_spends:
  assumes "login_step sv routes (w, ps) (w', ps')" "PostRecovery \<notin> routes" "PostSetup \<notin> routes" "no_new_codes ps"
  shows "spends w w' \<and> no_new_codes ps'"
  using assms(1)
proof cases
  case (time_passes later)
  then show ?thesis using assms(4) by (simp add: spends_same codes_of_def)
next
  case (arrives route cookie rq rq' w1 r)
  have "codes_of w1 = codes_of w" using codes.seen_attach [OF arrives(3)] by (simp add: codes_of_def)
  moreover have "codes_of w' = codes_of w1" using begin_codes [of route sv rq' w1] arrives assms(2) by auto
  moreover have "r = Inr p \<Longrightarrow> p \<noteq> PSetup q" for p q
    using begin_no_new [of route sv rq' w1 p w' q] arrives assms(3) by auto
  ultimately show ?thesis
    using arrives(1) assms(4) by (auto simp: spends_same no_new_codes_def split: sum.splits)
next
  case (goes_on p r)
  have "\<And>q. p \<noteq> PSetup q" using goes_on assms(4) by (auto simp: no_new_codes_def)
  then have "spends w w'" using resume_spends [of p w sv] goes_on by simp
  moreover have "no_new_codes (remove1 p ps)" using assms(4) by (auto simp: no_new_codes_def dest: subsetD [OF set_remove1_subset])
  moreover have "r = Inr p' \<Longrightarrow> p' \<noteq> PSetup q" for p' q using resume_no_new [of sv p w p' w' q] goes_on by auto
  ultimately show ?thesis
    using goes_on(1) by (auto simp: no_new_codes_def split: sum.splits)
next
  case maintains
  then show ?thesis using assms(4) by (simp add: spends_same codes_of_def leaves)
qed

lemma login_runs_spend:
  assumes "(login_step sv routes)\<^sup>*\<^sup>* (w, ps) (w', ps')" "PostRecovery \<notin> routes" "PostSetup \<notin> routes" "no_new_codes ps"
  shows "spends w w' \<and> no_new_codes ps'"
  using assms(1)
proof (induction rule: rtranclp_induct2)
  case refl
  then show ?case using assms(4) by (simp add: spends_same)
next
  case (step w1 ps1 w2 ps2)
  then show ?case using login_step_spends [OF step(2) assms(2,3)] spends_trans by blast
qed

text \<open>
  C31: A recovery code signs an operator in once: after a second factor accepted it, no run of any
  requests, in any interleaving, leads to a second factor that accepts it again, however it is typed,
  as long as no new set of codes is issued.
\<close>

theorem recovery_code_once:
  assumes "verifySecondFactor sv o' code w = (Some (Some ByRecovery), w1)"
    and "(login_step sv routes)\<^sup>*\<^sup>* (w1, ps) (w2, ps')"
    and "PostRecovery \<notin> routes" "PostSetup \<notin> routes" "\<forall>p \<in> set ps. \<forall>q. p \<noteq> PSetup q"
    and "op_id again = op_id o'" "hashRecoveryCode (sv_sha256 sv) (trim retyped) = hashRecoveryCode (sv_sha256 sv) (trim code)"
  shows "fst (verifySecondFactor sv again retyped w2) \<noteq> Some (Some ByRecovery)"
proof -
  define h where "h = hashRecoveryCode (sv_sha256 sv) (trim code)"
  have shape: "\<not> totp_shape (trim code)"
  proof
    assume "totp_shape (trim code)"
    then show False using assms(1) by (auto simp: verifySecondFactor_def Let_def split: option.splits)
  qed
  then have "w1 = w\<lparr>w_store := snd (consume_code (op_id o') h (w_now w) (w_store w))\<rparr>"
    using assms(1) by (simp add: verify_recovery Let_def h_def)
  then have "\<not> (\<exists>r \<in> set (codes_of w1). unused_code (op_id o') h r)"
    using consume_consumes [of "op_id o'" h "w_now w" "w_store w"] by (simp add: codes_of_def)
  moreover have "spends w1 w2" using login_runs_spend [OF assms(2-4)] assms(5) by (simp add: no_new_codes_def)
  ultimately have none: "filter (unused_code (op_id o') h) (db_recovery (w_store w2)) = []"
    by (auto simp: spends_def codes_of_def filter_empty_conv)
  show ?thesis
  proof (cases "totp_shape (trim retyped)")
    case True
    then show ?thesis by (simp add: verifySecondFactor_def Let_def split: option.split)
  next
    case False
    then show ?thesis
      using assms(6,7) none by (simp add: verify_recovery Let_def consume_code_def h_def)
  qed
qed

section \<open>One-time codes\<close>

text \<open>A request that runs from its first segment to its response with no other between.\<close>

definition finish :: "IdentityServices \<Rightarrow> Pending \<Rightarrow> World \<Rightarrow> Response \<times> World" where
  "finish sv p w =
     (case resume sv p w of
        (Inl r, w') \<Rightarrow> (r, w')
      | (Inr q, w') \<Rightarrow> (case resume sv q w' of (Inl r, w'') \<Rightarrow> (r, w'') | (Inr _, w'') \<Rightarrow> (server_error, w'')))"

definition serve_alone :: "IdentityServices \<Rightarrow> Route \<Rightarrow> string option \<Rightarrow> Request \<Rightarrow> World \<Rightarrow> Response \<times> World" where
  "serve_alone sv route cookie rq w =
     (case attach_session sv cookie rq w of
        (rq', w1) \<Rightarrow>
        (case begin_route sv route rq' w1 of
           (Inl r, w2) \<Rightarrow> (r, w2)
         | (Inr p, w2) \<Rightarrow> finish sv p (w2\<lparr>w_now := max (w_now w2) (due_time w2 p)\<rparr>)))"

text \<open>Requests one after the other; the authenticator is not replaced.\<close>

inductive serial_step :: "IdentityServices \<Rightarrow> World \<Rightarrow> World \<Rightarrow> bool" for sv :: IdentityServices where
  waits_on: "w_now w \<le> later \<Longrightarrow> serial_step sv w (w\<lparr>w_now := later\<rparr>)"
| served: "route \<notin> {PostTotp, PostSetup} \<Longrightarrow> serve_alone sv route cookie rq w = (r, w') \<Longrightarrow> serial_step sv w w'"
| maintained_between: "serial_step sv w (store_write (identity_maintenance (w_now w)) w)"

text \<open>The last step an operator signed in with.\<close>

definition last_step :: "string \<Rightarrow> IdentityStore \<Rightarrow> int option" where
  "last_step i s = Option.bind (findOperatorById i s) op_totpLastStep"

lemma find_update:
  assumes "\<And>r. op_id (f r) = op_id r"
  shows "find (\<lambda>r. op_id r = i) (update_rows (\<lambda>r. op_id r = j) f rs) =
    map_option (\<lambda>r. if i = j then f r else r) (find (\<lambda>r. op_id r = i) rs)"
  using assms by (induction rs) (auto simp: update_rows_def)

lemma last_step_update:
  "(\<And>r. op_id (f r) = op_id r) \<Longrightarrow> (\<And>r. op_totpLastStep (f r) = op_totpLastStep r) \<Longrightarrow> last_step i (update_operator j f s) = last_step i s"
  unfolding last_step_def findOperatorById_def update_operator_def
  by (cases "find (\<lambda>r. op_id r = i) (db_operators s)") (auto simp: find_update)

interpretation marks: store_view "last_step i" for i
proof unfold_locales
  show "last_step i s' = last_step i s" if "db_operators s' = db_operators s" for s s'
    using that by (simp add: last_step_def findOperatorById_def)
  show "last_step i (updatePasswordHash j h t s) = last_step i s" for j h t s
    unfolding updatePasswordHash_def by (rule last_step_update) simp_all
  show "last_step i s' = last_step i s" if "updateEmail j email s = Some s'" for j email s s'
    using that by (auto simp: updateEmail_def last_step_update split: if_splits)
qed

text \<open>Never back, whatever it is compared with.\<close>

definition not_before :: "int option \<Rightarrow> int option \<Rightarrow> bool" where
  "not_before a b \<longleftrightarrow> (\<forall>m. a = Some m \<longrightarrow> (\<exists>m'. b = Some m' \<and> m \<le> m'))"

lemma not_before_simps [simp]: "not_before a a" "not_before None b"
  by (auto simp: not_before_def)

lemma not_before_trans: "not_before a b \<Longrightarrow> not_before b c \<Longrightarrow> not_before a c"
  by (fastforce simp: not_before_def)

lemma try_steps_Some:
  "try_steps hmac v steps = Some (Some step) \<Longrightarrow>
   unused_step (tv_lastStep v) step \<and> hotp hmac (tv_secret v) step TOTP_DIGITS = Some (tv_code v)"
  by (induction steps) (auto simp: unused_step_def split: if_splits option.splits)

lemma verify_totp_cases:
  assumes "verifySecondFactor sv o' code w = (Some (Some ByTotp), w1)"
  obtains step secret where "w1 = store_write (updateTotpLastStep (op_id o') step) w" "unused_step (op_totpLastStep o') step"
    "box_open (sv_totpBox sv) (case op_totpSecret o' of None \<Rightarrow> [] | Some c \<Rightarrow> c) = Some secret"
    "hotp (sv_hmac sv) (latin1 secret) step TOTP_DIGITS = Some (trim code)"
proof -
  have "totp_shape (trim code)"
  proof (rule ccontr)
    assume "\<not> totp_shape (trim code)"
    then show False using assms by (simp add: verify_recovery Let_def split: if_splits)
  qed
  with assms that show ?thesis
    by (auto simp: verifySecondFactor_def verifyTotp_def Let_def split: option.splits if_splits dest!: try_steps_Some)
qed

lemma last_step_totp:
  "findOperatorById j s = Some o' \<Longrightarrow> last_step i (updateTotpLastStep j step s) = (if i = j then Some step else last_step i s)"
  unfolding last_step_def findOperatorById_def updateTotpLastStep_def update_operator_def
  by (cases "find (\<lambda>r. op_id r = i) (db_operators s)") (auto simp: find_update)

text \<open>With the row as it is in the store, an accepted code moves the marker on.\<close>

lemma verify_moves_on:
  assumes "verifySecondFactor sv o' code w = (Some (Some ByTotp), w1)" "findOperatorById (op_id o') (w_store w) = Some o'"
  obtains step secret where "last_step (op_id o') (w_store w1) = Some step"
    "\<And>m. last_step (op_id o') (w_store w) = Some m \<Longrightarrow> m < step"
    "box_open (sv_totpBox sv) (case op_totpSecret o' of None \<Rightarrow> [] | Some c \<Rightarrow> c) = Some secret"
    "hotp (sv_hmac sv) (latin1 secret) step TOTP_DIGITS = Some (trim code)"
    "\<And>i. i \<noteq> op_id o' \<Longrightarrow> last_step i (w_store w1) = last_step i (w_store w)"
proof -
  obtain step secret where v: "w1 = store_write (updateTotpLastStep (op_id o') step) w" "unused_step (op_totpLastStep o') step"
    "box_open (sv_totpBox sv) (case op_totpSecret o' of None \<Rightarrow> [] | Some c \<Rightarrow> c) = Some secret"
    "hotp (sv_hmac sv) (latin1 secret) step TOTP_DIGITS = Some (trim code)"
    using verify_totp_cases [OF assms(1)] .
  have "m < step" if "last_step (op_id o') (w_store w) = Some m" for m
    using that v(2) assms(2) by (simp add: last_step_def unused_step_def)
  then show ?thesis
    using that [of step secret] v assms(2) by (simp add: last_step_totp)
qed

lemma verify_not_before:
  assumes "findOperatorById (op_id o') (w_store w) = Some o'"
  shows "not_before (last_step i (w_store w)) (last_step i (w_store (snd (verifySecondFactor sv o' code w))))"
proof -
  obtain m w1 where v: "verifySecondFactor sv o' code w = (m, w1)" by fastforce
  consider "m = Some (Some ByTotp)" | "last_step i (w_store w1) = last_step i (w_store w)"
  proof (cases "totp_shape (trim code)")
    case True
    then show ?thesis using v that by (auto simp: verifySecondFactor_def Let_def split: option.splits)
  next
    case False
    then have "db_operators (w_store w1) = db_operators (w_store w)"
      using v by (auto simp: verify_recovery Let_def consume_code_def)
    then show ?thesis using that by (simp add: last_step_def findOperatorById_def)
  qed
  then show ?thesis
  proof cases
    case 1
    then show ?thesis
      using verify_moves_on [OF v [unfolded 1] assms] v by (cases "i = op_id o'") (fastforce simp: not_before_def)+
  qed (simp add: v)
qed

lemma findOperatorById_id: "findOperatorById i s = Some o' \<Longrightarrow> op_id o' = i"
  by (auto simp: findOperatorById_def find_Some_iff)

lemma apfst_eq_pair: "apfst f p = (a, b) \<longleftrightarrow> f (fst p) = a \<and> snd p = b"
  by (cases p) simp

lemma requireState_Inr:
  "requireState sv rq w = (Inr st, w') \<Longrightarrow>
   w' = w \<and> rq_sealed rq = Some st \<and> w_now w < bs_expiresAt st \<and> rq_form rq ''csrf'' = Some (bs_csrfToken st) \<and>
   isSameOriginRequest (rq_headers rq) (sv_origin sv)"
  by (auto simp: requireState_def readState_def stateChange_def isValidCsrfToken_iff ok_def fail_def apfst_eq_pair
      split: option.splits if_splits prod.splits)

lemma secondStep_pending:
  "secondStep sv rq w = (Inr x, w') \<Longrightarrow>
   \<exists>st i. requireState sv rq w = (Inr st, w') \<and> bs_passwordVerified st = Some i \<and> findOperatorById i (w_store w') = Some (sp_operator x) \<and>
     sp_request x = rq \<and> sp_state x = st \<and> sp_next x = safeNextPath (rq_form rq ''next'') (sv_homePath sv)"
proof -
  assume second: "secondStep sv rq w = (Inr x, w')"
  obtain r v where r: "requireState sv rq w = (r, v)" by fastforce
  obtain d u where d: "deny rq ''password step not completed'' v = (d, u)" by fastforce
  show ?thesis
  proof (cases r)
    case (Inr st)
    then show ?thesis
      using second r d by (auto simp: secondStep_def ok_def fail_def split: option.splits Option.bind_splits)
  qed (use second r in \<open>simp add: secondStep_def fail_def\<close>)
qed

lemma serve_alone_not_before:
  assumes "route \<notin> {PostTotp, PostSetup}" "serve_alone sv route cookie rq w = (r, w')"
  shows "not_before (last_step i (w_store w)) (last_step i (w_store w'))"
proof -
  obtain rq' w1 where attach: "attach_session sv cookie rq w = (rq', w1)" by fastforce
  obtain q w2 where begins: "begin_route sv route rq' w1 = (q, w2)" by fastforce
  have same: "last_step i (w_store w2) = last_step i (w_store w)"
  proof (cases "route = PostRecovery")
    case True
    have "db_operators s' = db_operators s" if "replaceAll j hs s = Some s'" for j hs s s'
      using that by (auto simp: replaceAll_def split: if_splits)
    then have "last_step i (w_store (snd (regenerateRecoveryCodes sv rq' w1))) = last_step i (w_store w1)"
      using marks.seen_same [OF same_requireReauthenticated [of w1 sv rq'], of i]
      by (fastforce simp: regenerateRecoveryCodes_def case_prod_beta Let_def last_step_def findOperatorById_def split: sum.split option.splits)
    then show ?thesis using begins True marks.seen_attach [OF attach, of i] by (cases "regenerateRecoveryCodes sv rq' w1") (auto simp: begin_route_def answers_def)
  next
    case False
    then show ?thesis
      using marks.seen_begin [of route i sv rq' w1] marks.seen_attach [OF attach, of i] assms(1) begins by simp
  qed
  show ?thesis
  proof (cases q)
    case (Inl r')
    then show ?thesis using assms(2) attach begins same by (simp add: serve_alone_def)
  next
    case (Inr p)
    define w3 where "w3 = w2\<lparr>w_now := max (w_now w2) (due_time w2 p)\<rparr>"
    have w': "w' = snd (finish sv p w3)" using assms(2) attach begins Inr by (simp add: serve_alone_def w3_def)
    have not_setup: "\<And>x. p \<noteq> PSetup x" using begin_no_new begins Inr assms(1) by blast
    show ?thesis
    proof (cases "\<exists>x. p = PSecond x")
      case True
      then obtain x where x: "p = PSecond x" by blast
      then have "waits PSecond (secondStep sv rq' w1) = (Inr (PSecond x), w2)"
        using begins Inr assms(1) by (cases route) (auto simp: begin_route_def dest: waits_Inr)
      then have "secondStep sv rq' w1 = (Inr x, w2)"
        by (auto simp: waits_def ok_def fail_def split: sum.splits prod.splits)
      then have fresh: "findOperatorById (op_id (sp_operator x)) (w_store w3) = Some (sp_operator x)"
        by (auto simp: w3_def dest!: secondStep_pending dest: findOperatorById_id)
      have "w' = snd (secondStep_checked sv x w3)"
        unfolding w' x finish_def resume_def by (simp add: answers_def fail_def case_prod_beta)
      then show ?thesis
        using verify_not_before [OF fresh] by (simp add: marks.seen_secondStep_checked w3_def flip: same)
    next
      case False
      have again: "last_step i (w_store (snd (resume sv y v))) = last_step i (w_store v)" if "y = p \<or> (\<exists>x. y = PRehash x)" for y v
        using that marks.seen_resume [of y i sv v] not_setup False by auto
      obtain a v where a: "resume sv p w3 = (a, v)" by fastforce
      then have first: "last_step i (w_store v) = last_step i (w_store w3)" using again [of p w3] by simp
      have rehash: "\<exists>x. y = PRehash x" if "a = Inr y" for y
        using a that by (cases p) (auto simp: resume_def dest: waits_Inr)
      have "last_step i (w_store w') = last_step i (w_store w3)"
      proof (cases a)
        case (Inr y)
        then show ?thesis using first again [of y v] rehash [OF Inr] unfolding w' finish_def a by (simp add: case_prod_beta split: sum.split)
      qed (simp add: w' finish_def a first)
      then show ?thesis using same by (simp add: w3_def)
    qed
  qed
qed

lemma serial_not_before: "(serial_step sv)\<^sup>*\<^sup>* w w' \<Longrightarrow> not_before (last_step i (w_store w)) (last_step i (w_store w'))"
proof (induction rule: rtranclp_induct)
  case (step w1 w2)
  from step(2) have "not_before (last_step i (w_store w1)) (last_step i (w_store w2))"
  proof cases
    case (served route cookie rq r)
    then show ?thesis by (rule serve_alone_not_before)
  qed (simp_all add: last_step_def findOperatorById_def leaves)
  with step(3) show ?case by (rule not_before_trans)
qed simp


text \<open>
  The step a code was accepted for is not looked up again after the backoff: two requests that were
  read before either was answered are both let in by the same code.
\<close>

lemma totp_replay_race:
  assumes "verifySecondFactor sv o' code w = (Some (Some ByTotp), w1)" "w_now w2 = w_now w"
  shows "fst (verifySecondFactor sv o' code w2) = Some (Some ByTotp)"
proof -
  have "totp_shape (trim code)"
  proof (rule ccontr)
    assume "\<not> totp_shape (trim code)"
    then show False using assms(1) by (simp add: verify_recovery Let_def split: if_splits)
  qed
  then show ?thesis
    using assms by (auto simp: verifySecondFactor_def Let_def split: option.splits)
qed

section \<open>What a sign-in has checked\<close>

lemma start_for_Some:
  assumes "start_for sv i client w = (Some (c, st), w')"
  shows "\<exists>r \<in> set (db_sessions (w_store w')). se_idHash r = hashSessionId (sv_sha256 sv) c \<and> se_operator r = i \<and> se_reauthenticatedAt r = None"
  using assms
  by (auto simp: start_for_def start_session_def insert_session_def new_session_def Let_def split: prod.splits option.splits if_splits)


text \<open>
  The password step marks an operator as verified only for the operator the address names, and
  only when scrypt of the password submitted gives the stored hash.
\<close>

theorem password_step_checked:
  assumes "passwordStep sv rq w = (Inr p, w1)" "passwordStep_checked sv p w2 = (Inl r, w3)"
    and "rs_stateCookie r = Some (Some st)" "bs_passwordVerified st = Some i"
  shows "\<exists>o'. cl_operator (claimFrom rq (w_store w)) = Some o' \<and> op_id o' = i \<and>
    isCorrectPassword (sv_scrypt sv) (field (rq_form rq) ''password'') (op_passwordHash o') = Some True \<and>
    rs_sessionCookie r = None"
proof -
  obtain st0 where "requireState sv rq w = (Inr st0, w1)" "pp_request p = rq" "pp_claim p = claimFrom rq (w_store w1)"
    using assms(1) by (auto simp: passwordStep_def Let_def ok_def fail_def split: sum.splits prod.splits)
  then have p: "pp_request p = rq" "pp_claim p = claimFrom rq (w_store w)" using requireState_Inr by blast+
  have "rs_stateCookie (fst (password_refused p v)) = None" for v
    by (simp add: password_refused_def html_def Let_def)
  then show ?thesis
    using assms(2-4) p
    by (auto simp: passwordStep_checked_def Let_def ok_def fail_def apfst_eq_pair server_error_def html_def password_accepted_def
        state_cookie_def split: prod.splits option.splits if_splits)
qed

end
