(* ===== verification/LoginExamples.thy ===== *)
theory LoginExamples
  imports LoginSafety
begin

text \<open>
  The hypotheses of the properties of the sign-in at a concrete operator: toy primitives (the digest
  of a text is the text, every HMAC is zero, scrypt repeats the password), one account with a password
  and one recovery code.
\<close>

definition example_box :: SecretBox where
  "example_box = createSecretBox \<lparr>hkdf = \<lambda>k s i n. k, gcm_seal = \<lambda>k iv p. (p, replicate 16 (CHR ''t'')),
     gcm_open = \<lambda>k iv c t. Some c\<rparr> ''root'' TOTP_SECRET_INFO"

definition example_services :: IdentityServices where
  "example_services = \<lparr>sv_sha256 = id, sv_hmac = \<lambda>k m. replicate 20 0, sv_scrypt = \<lambda>w s q. Some (replicate 64 (hd w)),
     sv_draw = \<lambda>i n. [char_of (65 + i)], sv_ttl = 43200000, sv_parameters = \<lparr>cost = 2, blockSize = 8, parallelism = 1\<rparr>,
     sv_common = [], sv_totpBox = example_box, sv_origin = ''https://vault.example'', sv_homePath = ''/account''\<rparr>"

definition example_operator :: OperatorRecord where
  "example_operator = \<lparr>op_id = ''op'', op_email = Some ''a@b.example'',
     op_passwordHash = ''scrypt$2$8$1$$cHBwcHBwcHBwcHBwcHBwcHBwcHBwcHBwcHBwcHBwcHBwcHBwcHBwcHBwcHBwcHBwcHBwcHBwcHBwcHBwcHBwcA=='',
     op_totpSecret = Some ''v1.aWlpaWlpaWlpaWlp.c2VjcmV0.dHR0dHR0dHR0dHR0dHR0dA'' , op_totpLastStep = None,
     op_createdAt = 0, op_passwordChangedAt = 0\<rparr>"

definition example_world :: World where
  "example_world = \<lparr>w_store = empty_identity\<lparr>db_operators := [example_operator],
       db_recovery := [\<lparr>rc_hash = hashRecoveryCode id ''AB'', rc_operator = ''op'', rc_usedAt = None\<rparr>]\<rparr>,
     w_now = 60000, w_draws = 0, w_fallback = None, w_trail = []\<rparr>"

definition example_state :: BrowserState where
  "example_state = (anonymous_state ''tok'')\<lparr>bs_expiresAt := 90000, bs_passwordVerified := Some ''op''\<rparr>"

definition example_form :: "string \<Rightarrow> string option" where
  "example_form = map_of [(''csrf'', ''tok''), (''email'', '' A@B.example''), (''password'', ''pw''), (''code'', ''ab'')]"

definition example_request :: Request where
  "example_request = \<lparr>rq_path = ''/login/verify'', rq_headers = map_of [(''origin'', ''https://vault.example'')],
     rq_form = example_form, rq_query = Map.empty, rq_sealed = Some example_state, rq_session = None,
     rq_client = \<lparr>ci_ip = Some ''192.0.2.1'', ci_userAgent = None\<rparr>\<rparr>"

lemma pair_of: "fst r = a \<Longrightarrow> r = (a, snd r)"
  by auto

theorem recovery_code_once_witness:
  "fst (verifySecondFactor example_services example_operator '' a-B''
     ((snd (verifySecondFactor example_services example_operator ''ab'' example_world))\<lparr>w_now := 70000\<rparr>)) \<noteq> Some (Some ByRecovery)"
proof -
  let ?w1 = "snd (verifySecondFactor example_services example_operator ''ab'' example_world)"
  have "fst (verifySecondFactor example_services example_operator ''ab'' example_world) = Some (Some ByRecovery)" by code_simp
  then have accepted: "verifySecondFactor example_services example_operator ''ab'' example_world = (Some (Some ByRecovery), ?w1)"
    by (rule pair_of)
  have "w_now ?w1 \<le> 70000" by code_simp
  then have "login_step example_services {PostVerify} (?w1, []) (?w1\<lparr>w_now := 70000\<rparr>, [])" by (rule time_passes)
  then have run: "(login_step example_services {PostVerify})\<^sup>*\<^sup>* (?w1, []) (?w1\<lparr>w_now := 70000\<rparr>, [])" by (rule r_into_rtranclp)
  have "hashRecoveryCode (sv_sha256 example_services) (trim '' a-B'') = hashRecoveryCode (sv_sha256 example_services) (trim ''ab'')"
    by code_simp
  then show ?thesis
    using recovery_code_once [OF accepted run, where again = example_operator and retyped = "'' a-B''"] by simp
qed

lemma zero_code: "0 \<le> step \<Longrightarrow> step < 2 ^ 64 \<Longrightarrow> hotp (\<lambda>k m. replicate 20 0) secret step TOTP_DIGITS = Some ''000000''"
proof -
  assume "0 \<le> step" "step < 2 ^ 64"
  moreover have "nat_text 0 = ''0''" "pad_start 6 ''0'' = ''000000''" "read_uint32be (replicate 20 0) 0 = Some 0" by code_simp+
  ultimately show ?thesis by (simp add: hotp_def TOTP_DIGITS_def)
qed

definition later_world :: World where
  "later_world = store_write (updateTotpLastStep ''op'' 1) example_world"

lemma example_totp:
  "w_now w = 60000 \<Longrightarrow> verifySecondFactor example_services example_operator ''000000'' w = (Some (Some ByTotp), store_write (updateTotpLastStep ''op'' 1) w)"
proof -
  assume now: "w_now w = 60000"
  have "totp_shape (trim ''000000'')" "trim ''000000'' = ''000000''" by code_simp+
  moreover have "box_open example_box ''v1.aWlpaWlpaWlpaWlp.c2VjcmV0.dHR0dHR0dHR0dHR0dHR0dA'' = Some ''secret''" by code_simp
  moreover have "totpStep 60000 = 2" by code_simp
  ultimately show ?thesis
    using now by (simp add: verifySecondFactor_def Let_def example_services_def example_operator_def verifyTotp_def WINDOW_def upto_rec1 zero_code)
qed

lemma later_totp:
  "verifySecondFactor example_services (example_operator\<lparr>op_totpLastStep := Some 1\<rparr>) ''000000'' later_world =
     (Some (Some ByTotp), store_write (updateTotpLastStep ''op'' 2) later_world)"
proof -
  have "totp_shape (trim ''000000'')" "trim ''000000'' = ''000000''" by code_simp+
  moreover have "box_open example_box ''v1.aWlpaWlpaWlpaWlp.c2VjcmV0.dHR0dHR0dHR0dHR0dHR0dA'' = Some ''secret''" by code_simp
  moreover have "totpStep 60000 = 2" by code_simp
  moreover have "w_now later_world = 60000" by code_simp
  ultimately show ?thesis
    by (simp add: verifySecondFactor_def Let_def example_services_def example_operator_def verifyTotp_def WINDOW_def upto_rec1 zero_code)
qed


definition example_second :: SecondPending where
  "example_second = projr (fst (secondStep example_services example_request example_world))"


definition example_login :: Request where
  "example_login = example_request\<lparr>rq_sealed := Some ((anonymous_state ''tok'')\<lparr>bs_expiresAt := 90000\<rparr>)\<rparr>"

definition example_password :: PasswordPending where
  "example_password = projr (fst (passwordStep example_services example_login example_world))"

lemma example_hash:
  "op_passwordHash example_operator = hash_text \<lparr>cost = 2, blockSize = 8, parallelism = 1\<rparr> [] (replicate 64 (CHR ''p''))"
  by code_simp

lemma example_parsed:
  "parseStoredHash (op_passwordHash example_operator) =
     Some \<lparr>sh_parameters = \<lparr>cost = 2, blockSize = 8, parallelism = 1\<rparr>, sh_salt = [], sh_hash = replicate 64 (CHR ''p'')\<rparr>"
  unfolding example_hash by (rule parse_hash_text) (simp add: usable_parameters_def)

theorem password_step_checked_witness:
  "isCorrectPassword (sv_scrypt example_services) ''pw'' (op_passwordHash example_operator) = Some True"
proof -
  let ?run = "passwordStep_checked example_services example_password example_world"
  have "isl (fst (passwordStep example_services example_login example_world)) = False" by code_simp
  then have begins: "passwordStep example_services example_login example_world =
      (Inr example_password, snd (passwordStep example_services example_login example_world))"
    by (intro pair_of) (simp add: example_password_def)
  have claim: "cl_operator (pp_claim example_password) = Some example_operator" by code_simp
  have typed: "field (rq_form (pp_request example_password)) ''password'' = ''pw''" by code_simp
  have correct: "isCorrectPassword (sv_scrypt example_services) ''pw'' (op_passwordHash example_operator) = Some True"
    by (simp add: isCorrectPassword_def example_parsed HASH_BYTES_def example_services_def)
  have strong: "\<not> requiresRehash (op_passwordHash example_operator) (sv_parameters example_services)"
    by (simp add: requiresRehash_def example_parsed example_services_def)
  have checks: "?run = (Inl (password_accepted example_password example_operator example_world), example_world)"
    by (simp add: passwordStep_checked_def claim typed correct strong fail_def)
  have "rs_stateCookie (password_accepted example_password example_operator example_world) =
      Some (Some ((anonymous_state (bs_csrfToken (pp_state example_password)))\<lparr>bs_passwordVerified := Some ''op'',
        bs_expiresAt := w_now example_world + STATE_TTL_MS\<rparr>))"
    by (simp add: password_accepted_def state_cookie_def example_operator_def)
  from password_step_checked [OF begins checks this, of "''op''"] obtain o' where
    "cl_operator (claimFrom example_login (w_store example_world)) = Some o'"
    "isCorrectPassword (sv_scrypt example_services) (field example_form ''password'') (op_passwordHash o') = Some True"
    by (auto simp: example_login_def example_request_def)
  moreover have "cl_operator (claimFrom example_login (w_store example_world)) = Some example_operator" by code_simp
  moreover have "field example_form ''password'' = ''pw''" by code_simp
  ultimately show ?thesis by simp
qed

end
