(* ===== verification/CodeDocs.thy ===== *)
theory CodeDocs
  imports Actions CanonicalJson Decodings HttpRequest
begin

text \<open>
  The documents of a code target (\<^verbatim>\<open>src/actions/connectors/code/schemas.ts\<close>) with the grammars they
  are held to: repositories and refs (\<^verbatim>\<open>references.ts\<close>), patterns (\<^verbatim>\<open>patterns.ts\<close>), and the keys
  of the snapshots built from them (\<^verbatim>\<open>keys.ts\<close>).

  The digest of a text is a parameter. Code points beyond 255 order as their stand-in does.
\<close>

section \<open>Repositories and refs\<close>

datatype ReferenceSpec = RefDefault | RefName string | RefCommit string | RefPull nat

definition REPOSITORY_PART :: "string \<Rightarrow> bool" where
  "REPOSITORY_PART s \<longleftrightarrow> list_all (\<lambda>c. is_word c \<or> c \<in> {CHR ''.'', CHR ''-''}) s \<and> 1 \<le> length s \<and> length s \<le> 100"

definition lower_hex :: "char \<Rightarrow> bool" where
  "lower_hex c \<longleftrightarrow> is_digit c \<or> (97 \<le> char_code c \<and> char_code c \<le> 102)"

definition COMMIT_SHA :: "string \<Rightarrow> bool" where
  "COMMIT_SHA s \<longleftrightarrow> list_all lower_hex s \<and> length s = 40"

definition REF_NAME :: "string \<Rightarrow> bool" where
  "REF_NAME s \<longleftrightarrow> list_all (\<lambda>c. is_word c \<or> c \<in> {CHR ''.'', CHR ''/'', CHR ''-''}) s \<and> 1 \<le> length s \<and> length s \<le> 255"

text \<open>\<^verbatim>\<open>/^pr:([1-9]\d{0,8})$/u\<close>: the number the group holds.\<close>

definition PULL_REQUEST :: "string \<Rightarrow> nat option" where
  "PULL_REQUEST s =
     (let digits = drop 3 s in
      if prefix ''pr:'' s \<and> digits \<noteq> [] \<and> length digits \<le> 9 \<and> list_all is_digit digits \<and> hd digits \<noteq> CHR ''0''
      then Some (decimal digits) else None)"

definition REPO_RULE :: string where
  "REPO_RULE = ''must be owner/name, each of letters, digits, '' @ [CHR 0x22] @ ''.'' @ [CHR 0x22] @ '', '' @
     [CHR 0x22] @ ''_'' @ [CHR 0x22] @ '' or '' @ [CHR 0x22] @ ''-'' @ [CHR 0x22]"

definition repositoryProblem :: "string \<Rightarrow> string option" where
  "repositoryProblem s =
     (let parts = split_on (CHR ''/'') s in
      if length parts = 2 \<and> list_all (\<lambda>p. REPOSITORY_PART p \<and> p \<noteq> ''.'' \<and> p \<noteq> ''..'') parts then None
      else Some REPO_RULE)"

definition isReferenceName :: "string \<Rightarrow> bool" where
  "isReferenceName s \<longleftrightarrow>
     REF_NAME s \<and> \<not> prefix ''/'' s \<and> \<not> suffix ''/'' s \<and>
     list_all (\<lambda>segment. segment \<noteq> [] \<and> segment \<noteq> ''..'') (split_on (CHR ''/'') s)"

definition isCommitSha :: "string \<Rightarrow> bool" where
  "isCommitSha s \<longleftrightarrow> COMMIT_SHA s"

definition configuredReferenceProblem :: "string \<Rightarrow> string option" where
  "configuredReferenceProblem s =
     (if isCommitSha s \<or> isReferenceName s then None
      else Some ''must be a branch or tag name, or a full 40-character commit SHA'')"

definition parseReference :: "string option \<Rightarrow> ReferenceSpec option" where
  "parseReference s =
     (case s of
        None \<Rightarrow> Some RefDefault
      | Some t \<Rightarrow>
          (case PULL_REQUEST t of
             Some n \<Rightarrow> Some (RefPull n)
           | None \<Rightarrow>
               if isCommitSha t then Some (RefCommit t)
               else if isReferenceName t then Some (RefName t) else None))"

definition encodePath :: "string \<Rightarrow> string" where
  "encodePath s = join_with (CHR ''/'') (map encodeURIComponent (split_on (CHR ''/'') s))"

section \<open>Patterns\<close>

definition MAX_PATTERNS :: nat where "MAX_PATTERNS = 100"
definition MAX_PATTERN_LENGTH :: nat where "MAX_PATTERN_LENGTH = 1024"
definition MAX_PATTERN_BYTES :: nat where "MAX_PATTERN_BYTES = 32 * 1024"

text \<open>The loop over the points of a bracket expression: the list is what is left from \<^verbatim>\<open>index\<close> on.\<close>

fun isReversed :: "char list \<Rightarrow> bool" where
  "isReversed (a # b # c # rest) =
     (if b \<noteq> CHR ''-'' then isReversed (b # c # rest)
      else if char_code c < char_code a then True
      else isReversed rest)"
| "isReversed _ = False"

text \<open>
  The body of the bracket expression opened just before the text: after an optional \<open>!\<close> or \<open>^\<close>, up
  to the next \<open>]\<close> that is not the first character; empty when there is none.
\<close>

definition bracket_body :: "string \<Rightarrow> string" where
  "bracket_body opened =
     (let start = (if opened \<noteq> [] \<and> hd opened \<in> {CHR ''!'', CHR ''^''} then tl opened else opened);
          first = (if start \<noteq> [] \<and> hd start = CHR '']'' then 1 else 0)
      in if CHR '']'' \<in> set (drop first start)
         then take first start @ before_first (CHR '']'') (drop first start)
         else [])"

fun hasReversedRange :: "string \<Rightarrow> bool" where
  "hasReversedRange [] = False"
| "hasReversedRange (c # rest) =
     ((c = CHR ''['' \<and> isReversed (bracket_body rest)) \<or> hasReversedRange rest)"

definition hasDanglingEscape :: "string \<Rightarrow> bool" where
  "hasDanglingEscape pattern \<longleftrightarrow> length (takeWhile (\<lambda>c. c = CHR 0x5C) (rev pattern)) mod 2 = 1"

definition patternProblem :: "string \<Rightarrow> string option" where
  "patternProblem pattern =
     (if set pattern \<inter> {CHR 0x00, CHR 0x0A, CHR 0x0D} \<noteq> {} then Some ''must be a single line''
      else if pattern = ''!'' then Some ''negates nothing''
      else if hasReversedRange pattern then Some ''has a character range that runs backwards''
      else if hasDanglingEscape pattern then Some ''ends with a backslash that escapes nothing''
      else None)"

text \<open>\<^verbatim>\<open>JSON.stringify\<close> of a value: the fields of an object in their order, undefined ones left out.\<close>

fun stringifyJson :: "json \<Rightarrow> string" where
  "stringifyJson JNull = ''null''"
| "stringifyJson (JBool b) = (if b then ''true'' else ''false'')"
| "stringifyJson (JNumber n) = n"
| "stringifyJson (JString s) = json_string s"
| "stringifyJson (JArray vs) =
     CHR ''['' # join_with (CHR '','') (map (\<lambda>v. if v = JUndefined then ''null'' else stringifyJson v) vs) @ '']''"
| "stringifyJson (JObject members) =
     CHR 0x7B #
     join_with (CHR '','')
       (map json_entry
         (defined_fields (map (\<lambda>(k, v). (k, if v = JUndefined then None else Some (stringifyJson v))) members))) @
     [CHR 0x7D]"
| "stringifyJson JUndefined = []"

definition strings_json :: "string list \<Rightarrow> json" where
  "strings_json xs = JArray (map JString xs)"

definition patternBytes :: "string list \<Rightarrow> string list \<Rightarrow> nat" where
  "patternBytes included excluded =
     utf8_length (stringifyJson (strings_json included)) + utf8_length (stringifyJson (strings_json excluded))"

section \<open>Documents\<close>

datatype ContentType = ContentCode | ContentDocs | ContentConfig

definition CONTENT_TYPES :: "ContentType list" where
  "CONTENT_TYPES = [ContentCode, ContentDocs, ContentConfig]"

primrec content_name :: "ContentType \<Rightarrow> string" where
  "content_name ContentCode = ''code''"
| "content_name ContentDocs = ''docs''"
| "content_name ContentConfig = ''config''"

definition DEFAULT_EXCLUDE :: "string list" where
  "DEFAULT_EXCLUDE =
     [''.env'', ''.env.*'', ''*.pem'', ''*.key'', ''*.p12'', ''*.pfx'', ''id_rsa*'', ''id_ed25519*'', ''*.kdbx'',
      ''.git-credentials'', ''.netrc'', ''.npmrc'']"

definition GITHUB_API_HOST :: string where "GITHUB_API_HOST = ''api.github.com''"
definition GITHUB_ARCHIVE_HOST :: string where "GITHUB_ARCHIVE_HOST = ''codeload.github.com''"

record CodeDestination =
  dest_repository :: string
  dest_ref :: "string option"

record CodeCredential =
  cred_token_field :: "string option"

record CodePolicy =
  cp_timeout_ms :: nat
  cp_refresh_interval_s :: nat
  cp_content :: "ContentType list"
  cp_allow_ref :: bool
  cp_max_top_k :: nat
  cp_build_wait_s :: nat
  cp_include :: "string list"
  cp_exclude :: "string list"
  cp_max_archive_bytes :: nat
  cp_max_files :: nat
  cp_max_total_bytes :: nat
  cp_max_file_bytes :: nat
  cp_build_timeout_s :: nat
  cp_allow_read :: bool
  cp_max_read_lines :: nat

definition within :: "nat \<Rightarrow> nat \<Rightarrow> nat \<Rightarrow> bool" where
  "within low high n \<longleftrightarrow> low \<le> n \<and> n \<le> high"

definition MIB :: nat where "MIB = 1024 * 1024"
definition GIB :: nat where "GIB = 1024 * MIB"
definition WAIT_MARGIN_MS :: nat where "WAIT_MARGIN_MS = 10000"
definition CODE_MS_PER_SECOND :: nat where "CODE_MS_PER_SECOND = 1000"

text \<open>The values the three schemas let through.\<close>

definition destination_valid :: "CodeDestination \<Rightarrow> bool" where
  "destination_valid d \<longleftrightarrow>
     repositoryProblem (dest_repository d) = None \<and>
     (case dest_ref d of None \<Rightarrow> True | Some r \<Rightarrow> configuredReferenceProblem r = None)"

definition credential_valid :: "CodeCredential \<Rightarrow> bool" where
  "credential_valid c \<longleftrightarrow> cred_token_field c \<noteq> Some []"

definition pattern_list_valid :: "string list \<Rightarrow> bool" where
  "pattern_list_valid ps \<longleftrightarrow>
     length ps \<le> MAX_PATTERNS \<and>
     list_all (\<lambda>p. 1 \<le> length p \<and> length p \<le> MAX_PATTERN_LENGTH \<and> patternProblem p = None) ps"

definition code_policy_valid :: "CodePolicy \<Rightarrow> bool" where
  "code_policy_valid p \<longleftrightarrow>
     within CODE_MS_PER_SECOND 300000 (cp_timeout_ms p) \<and> within 60 86400 (cp_refresh_interval_s p) \<and>
     cp_content p \<noteq> [] \<and> distinct (cp_content p) \<and>
     within 1 200 (cp_max_top_k p) \<and> within 0 290 (cp_build_wait_s p) \<and>
     pattern_list_valid (cp_include p) \<and> pattern_list_valid (cp_exclude p) \<and>
     within MIB GIB (cp_max_archive_bytes p) \<and> within 1 200000 (cp_max_files p) \<and>
     within MIB (4 * GIB) (cp_max_total_bytes p) \<and> within 1024 (16 * MIB) (cp_max_file_bytes p) \<and>
     within 10 3600 (cp_build_timeout_s p) \<and> within 1 2000 (cp_max_read_lines p) \<and>
     patternBytes (cp_include p) (cp_exclude p) \<le> MAX_PATTERN_BYTES"

definition code_endpoints :: "Endpoint list" where
  "code_endpoints =
     [\<lparr>endpoint_host = GITHUB_API_HOST, endpoint_tls = True\<rparr>,
      \<lparr>endpoint_host = GITHUB_ARCHIVE_HOST, endpoint_tls = True\<rparr>]"

text \<open>The name and the selector of the one secret field.\<close>

definition code_credential_fields :: "CodeCredential \<Rightarrow> (string \<times> string) list" where
  "code_credential_fields c = (case cred_token_field c of None \<Rightarrow> [] | Some f \<Rightarrow> [(f, f)])"

definition code_save_problems :: "CodePolicy \<Rightarrow> string list" where
  "code_save_problems p =
     (if cp_timeout_ms p < cp_build_wait_s p * CODE_MS_PER_SECOND + WAIT_MARGIN_MS
      then [''policy.build_wait_s: must end at least 10 seconds before policy.timeout_ms''] else [])"

definition normaliseContent :: "ContentType list \<Rightarrow> ContentType list" where
  "normaliseContent types = filter (\<lambda>t. t \<in> set types) CONTENT_TYPES"

definition summariseDestination :: "CodeDestination \<Rightarrow> string" where
  "summariseDestination d =
     (case dest_ref d of None \<Rightarrow> dest_repository d | Some r \<Rightarrow> dest_repository d @ ''@'' @ r)"

section \<open>Keys\<close>

record CodeDocuments =
  cd_destination :: CodeDestination
  cd_credential :: CodeCredential
  cd_policy :: CodePolicy

record ParsedKey =
  key_target :: string
  key_fingerprint :: string
  key_commit :: string

text \<open>\<^verbatim>\<open>createHash('sha256')\<close> of a UTF-8 text, in hexadecimal.\<close>

type_synonym Sha256 = "string \<Rightarrow> string"

definition FINGERPRINT_LENGTH :: nat where "FINGERPRINT_LENGTH = 16"

definition digest_text :: "Sha256 \<Rightarrow> json \<Rightarrow> string" where
  "digest_text sha v = take FINGERPRINT_LENGTH (sha (utf8_encode (stringifyJson v)))"

definition number_json :: "nat \<Rightarrow> json" where
  "number_json n = JNumber (nat_text n)"

text \<open>What the extraction depends on, as the object that is digested.\<close>

definition extraction_json :: "CodeDocuments \<Rightarrow> json" where
  "extraction_json d =
     JObject
       [(''repository'', JString (toLowerCase (dest_repository (cd_destination d)))),
        (''token_field'', (case cred_token_field (cd_credential d) of None \<Rightarrow> JNull | Some f \<Rightarrow> JString f)),
        (''include'', strings_json (cp_include (cd_policy d))),
        (''exclude'', strings_json (cp_exclude (cd_policy d))),
        (''max_archive_bytes'', number_json (cp_max_archive_bytes (cd_policy d))),
        (''max_files'', number_json (cp_max_files (cd_policy d))),
        (''max_total_bytes'', number_json (cp_max_total_bytes (cd_policy d))),
        (''max_file_bytes'', number_json (cp_max_file_bytes (cd_policy d)))]"

definition extractionFingerprint :: "Sha256 \<Rightarrow> CodeDocuments \<Rightarrow> string" where
  "extractionFingerprint sha d = digest_text sha (extraction_json d)"

definition reset_json :: "Sha256 \<Rightarrow> CodeDocuments \<Rightarrow> json" where
  "reset_json sha d =
     JObject
       [(''extraction'', JString (extractionFingerprint sha d)),
        (''content'', strings_json (map content_name (normaliseContent (cp_content (cd_policy d))))),
        (''ref'', (case dest_ref (cd_destination d) of None \<Rightarrow> JNull | Some r \<Rightarrow> JString r)),
        (''build_timeout_s'', number_json (cp_build_timeout_s (cd_policy d)))]"

definition resetFingerprint :: "Sha256 \<Rightarrow> CodeDocuments \<Rightarrow> string" where
  "resetFingerprint sha d = digest_text sha (reset_json sha d)"

definition snapshotKey :: "string \<Rightarrow> string \<Rightarrow> string \<Rightarrow> string" where
  "snapshotKey targetId fingerprint commit = targetId @ ''.'' @ fingerprint @ ''.'' @ commit"

text \<open>\<^verbatim>\<open>KEY\<close>: its three groups hold no dot, so they are what the two dots separate.\<close>

definition key_owner :: "string \<Rightarrow> bool" where
  "key_owner s \<longleftrightarrow>
     s \<noteq> [] \<and> length s \<le> 64 \<and> hd s \<noteq> CHR ''-'' \<and> list_all (\<lambda>c. is_lower c \<or> is_digit c \<or> c = CHR ''-'') s"

definition parseSnapshotKey :: "string \<Rightarrow> ParsedKey option" where
  "parseSnapshotKey key =
     (case split_on (CHR ''.'') key of
        [targetId, fingerprint, commit] \<Rightarrow>
          if key_owner targetId \<and> list_all lower_hex fingerprint \<and> length fingerprint = 16 \<and> COMMIT_SHA commit
          then Some \<lparr>key_target = targetId, key_fingerprint = fingerprint, key_commit = commit\<rparr> else None
      | _ \<Rightarrow> None)"

section \<open>A text determines its value\<close>

text \<open>Values with no undefined part, whose number texts are ones \<^verbatim>\<open>JSON.stringify\<close> writes.\<close>

fun dense :: "json \<Rightarrow> bool" where
  "dense (JNumber n) = number_text n"
| "dense (JArray vs) = list_all (\<lambda>v. v \<noteq> JUndefined \<and> dense v) vs"
| "dense (JObject members) = list_all (\<lambda>(k, v). v \<noteq> JUndefined \<and> dense v) members"
| "dense _ = True"

definition member_text :: "string \<times> json \<Rightarrow> string" where
  "member_text f = json_string (fst f) @ CHR '':'' # stringifyJson (snd f)"

lemma stringify_array:
  "dense (JArray vs) \<Longrightarrow> stringifyJson (JArray vs) = CHR ''['' # join_with (CHR '','') (map stringifyJson vs) @ '']''"
  by (auto simp: list_all_iff intro!: arg_cong [where f = "join_with _"])

lemma stringify_object:
  "dense (JObject members) \<Longrightarrow>
   stringifyJson (JObject members) = CHR 0x7B # join_with (CHR '','') (map member_text members) @ [CHR 0x7D]"
proof -
  assume "dense (JObject members)"
  then have "defined_fields (map (\<lambda>(k, v). (k, if v = JUndefined then None else Some (stringifyJson v))) members) =
    map (apsnd stringifyJson) members"
    by (induction members) (auto simp: defined_fields_def List.map_filter_def)
  moreover have "json_entry \<circ> apsnd stringifyJson = member_text" by (auto simp: json_entry_def member_text_def)
  ultimately show ?thesis by simp
qed

lemma stringify_starts: "dense v \<Longrightarrow> v \<noteq> JUndefined \<Longrightarrow> \<exists>c x. stringifyJson v = c # x \<and> first_char v c"
proof (cases v)
  case (JNumber n)
  moreover assume "dense v"
  ultimately show ?thesis by (cases n) (auto simp: first_char_def number_text_def)
qed (auto simp: first_char_def json_string_def)

lemma stringify_kind:
  assumes "dense a" "dense b" "a \<noteq> JUndefined" "b \<noteq> JUndefined" "stringifyJson a @ s = stringifyJson b @ t"
  shows "case a of
      JNull \<Rightarrow> b = JNull | JBool x \<Rightarrow> b = JBool x | JNumber _ \<Rightarrow> (\<exists>n. b = JNumber n) | JString _ \<Rightarrow> (\<exists>n. b = JString n)
    | JArray _ \<Rightarrow> (\<exists>vs. b = JArray vs) | JObject _ \<Rightarrow> (\<exists>fs. b = JObject fs) | JUndefined \<Rightarrow> False"
proof -
  obtain c x where a: "stringifyJson a = c # x" "first_char a c" using stringify_starts [OF assms(1,3)] by (elim exE conjE)
  obtain d y where b: "stringifyJson b = d # y" "first_char b d" using stringify_starts [OF assms(2,4)] by (elim exE conjE)
  from assms(5) a(1) b(1) have "c = d" by simp
  with a(2) b(2) show ?thesis by (simp add: same_kind)
qed

lemma stringify_prefix_free:
  "\<lbrakk>dense a; dense b; a \<noteq> JUndefined; b \<noteq> JUndefined; delimited s; delimited t;
    stringifyJson a @ s = stringifyJson b @ t\<rbrakk> \<Longrightarrow> a = b \<and> s = t"
proof (induction a arbitrary: b s t rule: stringifyJson.induct)
  case 1
  from stringify_kind [OF 1(1-4,7)] have "b = JNull" by simp
  with 1 show ?case by simp
next
  case (2 x)
  from stringify_kind [OF 2(1-4,7)] have "b = JBool x" by simp
  with 2 show ?case by simp
next
  case (3 n)
  from stringify_kind [OF 3(1-4,7)] obtain m where "b = JNumber m" by auto
  with 3 number_prefix_free [of n m s t] show ?case by simp
next
  case (4 x)
  from stringify_kind [OF 4(1-4,7)] obtain y where "b = JString y" by auto
  with 4 show ?case by (simp add: json_string_prefix_free)
next
  case (5 vs)
  from stringify_kind [OF 5(2-5,8)] obtain ws where b: "b = JArray ws" by auto
  have start: "\<exists>c u. stringifyJson v = c # u \<and> \<not> delimiter c" if "v \<in> set us" "dense (JArray us)" for v us
    using that stringify_starts [of v] first_char_delimiter by (auto simp: list_all_iff)
  have "list_all2 (=) vs ws \<and> s = t"
  proof (rule list_prefix_free [of vs ws stringifyJson stringifyJson _ "CHR '']''"])
    fix v w s t
    assume *: "v \<in> set vs" "w \<in> set ws" "delimited s" "delimited t" "stringifyJson v @ s = stringifyJson w @ t"
    then show "v = w \<and> s = t"
      using 5(2,3) unfolding b by (intro 5(1) [of v]) (auto simp: list_all_iff)
    next
    show "join_with (CHR '','') (map stringifyJson vs) @ CHR '']'' # s =
      join_with (CHR '','') (map stringifyJson ws) @ CHR '']'' # t"
      using 5(8) unfolding b stringify_array [OF 5(2)] stringify_array [OF 5(3) [unfolded b]] by simp
  qed (use 5(2,3) b start in auto)
  then show ?case by (simp add: b list_all2_eq)
next
  case (6 members)
  from stringify_kind [OF 6(2-5,8)] obtain others where b: "b = JObject others" by auto
  have "list_all2 (=) members others \<and> s = t"
  proof (rule list_prefix_free [of _ _ member_text member_text _ "CHR 0x7D"])
    fix f g s t
    assume *: "f \<in> set members" "g \<in> set others" "delimited s" "delimited t" "member_text f @ s = member_text g @ t"
    then have "fst f = fst g" and eq: "stringifyJson (snd f) @ s = stringifyJson (snd g) @ t"
      by (auto simp: member_text_def json_string_prefix_free)
    have f: "(fst f, snd f) \<in> set members" "dense (snd f)" "snd f \<noteq> JUndefined"
      and g: "dense (snd g)" "snd g \<noteq> JUndefined"
      using *(1,2) 6(2,3) unfolding b by (auto simp: list_all_iff)
    have "snd f = snd g \<and> s = t" using 6(1) [OF f(1) refl f(3,2) g(1) f(3) g(2) *(3,4) eq] .
    with \<open>fst f = fst g\<close> show "f = g \<and> s = t" by (simp add: prod_eq_iff)
  next
    show "join_with (CHR '','') (map member_text members) @ CHR 0x7D # s =
      join_with (CHR '','') (map member_text others) @ CHR 0x7D # t"
      using 6(8) unfolding b stringify_object [OF 6(2)] stringify_object [OF 6(3) [unfolded b]] by simp
  qed (auto simp: member_text_def json_string_def delimiter_def)
  then show ?case by (simp add: b list_all2_eq)
qed simp

lemma stringify_eq:
  "\<lbrakk>dense a; dense b; a \<noteq> JUndefined; b \<noteq> JUndefined\<rbrakk> \<Longrightarrow> stringifyJson a = stringifyJson b \<longleftrightarrow> a = b"
  using stringify_prefix_free [of a b "[]" "[]"] by auto

lemma number_text_nat: "number_text (nat_text n)"
  using nat_text_digits [of n] by (auto simp: number_text_def list_all_iff number_char_def)

lemma strings_json_eq [simp]: "strings_json xs = strings_json ys \<longleftrightarrow> xs = ys"
proof -
  have "inj JString" by (rule injI) simp
  then show ?thesis by (simp add: strings_json_def)
qed

lemma number_json_eq [simp]: "number_json m = number_json n \<longleftrightarrow> m = n"
  unfolding number_json_def using decimal_nat_text by (metis json.inject(2))

lemma dense_simps [simp]: "dense (strings_json xs)" "dense (number_json n)"
  "strings_json xs \<noteq> JUndefined" "number_json n \<noteq> JUndefined"
  by (simp_all add: strings_json_def number_json_def number_text_nat list_all_iff)

lemma dense_extraction: "dense (extraction_json d)" "extraction_json d \<noteq> JUndefined"
  by (simp_all add: extraction_json_def split: option.splits)

text \<open>
  the text that is hashed into an extraction fingerprint determines everything the extraction
  depends on: two documents have the same text exactly when their repositories agree up to case and
  their token field, patterns and four limits are the same. What the fingerprint leaves out (the ref,
  the content, the waits, \<^verbatim>\<open>build_timeout_s\<close>) never changes it.
\<close>

theorem extraction_text_exact:
  "stringifyJson (extraction_json d) = stringifyJson (extraction_json e) \<longleftrightarrow>
   toLowerCase (dest_repository (cd_destination d)) = toLowerCase (dest_repository (cd_destination e)) \<and>
   cred_token_field (cd_credential d) = cred_token_field (cd_credential e) \<and>
   cp_include (cd_policy d) = cp_include (cd_policy e) \<and> cp_exclude (cd_policy d) = cp_exclude (cd_policy e) \<and>
   cp_max_archive_bytes (cd_policy d) = cp_max_archive_bytes (cd_policy e) \<and>
   cp_max_files (cd_policy d) = cp_max_files (cd_policy e) \<and>
   cp_max_total_bytes (cd_policy d) = cp_max_total_bytes (cd_policy e) \<and>
   cp_max_file_bytes (cd_policy d) = cp_max_file_bytes (cd_policy e)"
proof -
  have "stringifyJson (extraction_json d) = stringifyJson (extraction_json e) \<longleftrightarrow> extraction_json d = extraction_json e"
    by (rule stringify_eq [OF dense_extraction(1) dense_extraction(1) dense_extraction(2) dense_extraction(2)])
  then show ?thesis by (auto simp: extraction_json_def split: option.splits)
qed

section \<open>Keys are read back\<close>

definition parsed_key_ok :: "ParsedKey \<Rightarrow> bool" where
  "parsed_key_ok k \<longleftrightarrow>
     key_owner (key_target k) \<and> list_all lower_hex (key_fingerprint k) \<and> length (key_fingerprint k) = 16 \<and>
     COMMIT_SHA (key_commit k)"

lemma lower_hex_no_dot: "list_all lower_hex s \<Longrightarrow> CHR ''.'' \<notin> set s"
  by (auto simp: list_all_iff lower_hex_def is_digit_def char_code_def)

lemma key_owner_no_dot: "key_owner s \<Longrightarrow> CHR ''.'' \<notin> set s"
  by (auto simp: key_owner_def list_all_iff char_class_defs)

text \<open>
  a snapshot key is read back as exactly the target, the fingerprint and the commit it was made
  of, and nothing else is read as a key.
\<close>

theorem parseSnapshotKey_exact:
  "parseSnapshotKey key = Some k \<longleftrightarrow>
   parsed_key_ok k \<and> key = snapshotKey (key_target k) (key_fingerprint k) (key_commit k)"
proof
  assume read: "parseSnapshotKey key = Some k"
  then obtain a b c where parts: "split_on (CHR ''.'') key = [a, b, c]"
    by (auto simp: parseSnapshotKey_def split: list.splits)
  with join_split [of "CHR ''.''" key] have "key = a @ ''.'' @ b @ ''.'' @ c" by simp
  with read parts show "parsed_key_ok k \<and> key = snapshotKey (key_target k) (key_fingerprint k) (key_commit k)"
    by (auto simp: parseSnapshotKey_def parsed_key_ok_def snapshotKey_def split: if_splits)
next
  assume ok: "parsed_key_ok k \<and> key = snapshotKey (key_target k) (key_fingerprint k) (key_commit k)"
  then have "split_on (CHR ''.'') key = [key_target k, key_fingerprint k, key_commit k]"
    by (simp add: snapshotKey_def parsed_key_ok_def COMMIT_SHA_def key_owner_no_dot lower_hex_no_dot split_on_append_sep
        split_on_plain)
  with ok show "parseSnapshotKey key = Some k" by (simp add: parseSnapshotKey_def parsed_key_ok_def)
qed

end
