(* ===== verification/CodeCalls.thy ===== *)
theory CodeCalls
  imports CodeDocs
begin

text \<open>
  The operations of the three code tools and the rules their arguments are held to
  (\<^verbatim>\<open>src/actions/connectors/code/tools.ts\<close>), the policy decisions (\<^verbatim>\<open>authorize.ts\<close>) and what a refusal of
  the sidecar means to the agent (\<^verbatim>\<open>refusals.ts\<close>).
\<close>

section \<open>Arguments\<close>

definition CODE_SEARCH :: string where "CODE_SEARCH = ''code_search''"
definition CODE_FIND_RELATED :: string where "CODE_FIND_RELATED = ''code_find_related''"
definition CODE_READ :: string where "CODE_READ = ''code_read''"

definition MAX_QUERY :: nat where "MAX_QUERY = 1000"
definition MAX_TOP_K :: nat where "MAX_TOP_K = 200"
definition DEFAULT_TOP_K :: nat where "DEFAULT_TOP_K = 5"
definition MAX_SNIPPET_LINES :: nat where "MAX_SNIPPET_LINES = 1000"
definition MAX_FILTERS :: nat where "MAX_FILTERS = 20"
definition CODE_MAX_PATH_BYTES :: nat where "CODE_MAX_PATH_BYTES = 1024"

definition LANGUAGE :: "string \<Rightarrow> bool" where
  "LANGUAGE s \<longleftrightarrow>
     list_all (\<lambda>c. is_word c \<or> c \<in> {CHR ''#'', CHR ''+'', CHR ''.'', CHR ''-''}) s \<and> 1 \<le> length s \<and> length s \<le> 64"

definition BAD_SEGMENTS :: "string list" where "BAD_SEGMENTS = [[], ''.'', ''..'']"

datatype ContentSelection = SelectType ContentType | SelectAll

definition code_pathProblem :: "string \<Rightarrow> string option" where
  "code_pathProblem p =
     (if CODE_MAX_PATH_BYTES < utf8_length p then Some ''must be at most 1 024 bytes''
      else if CHR 0x5C \<in> set p \<or> CHR 0x00 \<in> set p then Some ''must not contain a backslash or a NUL''
      else if prefix ''/'' p \<or> list_ex (\<lambda>part. part \<in> set BAD_SEGMENTS) (split_on (CHR ''/'') p)
      then Some (''must be a relative path with no empty, '' @ [CHR 0x22] @ ''.'' @ [CHR 0x22] @ '' or '' @
        [CHR 0x22] @ ''..'' @ [CHR 0x22] @ '' segment'')
      else None)"

record SearchOperation =
  so_query :: string
  so_ref :: "string option"
  so_content :: "ContentSelection option"
  so_top_k :: "nat option"
  so_max_snippet_lines :: "nat option"
  so_paths :: "string list option"
  so_languages :: "string list option"

record RelatedOperation =
  ro_file_path :: string
  ro_line :: nat
  ro_ref :: "string option"
  ro_content :: "ContentSelection option"
  ro_top_k :: "nat option"
  ro_max_snippet_lines :: "nat option"

record ReadOperation =
  rd_file_path :: string
  rd_ref :: "string option"
  rd_start_line :: "nat option"
  rd_end_line :: "nat option"

datatype CodeOperation = OpSearch SearchOperation | OpRelated RelatedOperation | OpReadFile ReadOperation

definition optional :: "('v \<Rightarrow> bool) \<Rightarrow> 'v option \<Rightarrow> bool" where
  "optional rule v \<longleftrightarrow> (case v of None \<Rightarrow> True | Some x \<Rightarrow> rule x)"

definition reference_valid :: "string \<Rightarrow> bool" where
  "reference_valid r \<longleftrightarrow> parseReference (Some r) \<noteq> None"

text \<open>The operations the three argument schemas let through.\<close>

definition search_valid :: "SearchOperation \<Rightarrow> bool" where
  "search_valid s \<longleftrightarrow>
     within 1 MAX_QUERY (length (so_query s)) \<and> optional reference_valid (so_ref s) \<and>
     optional (within 1 MAX_TOP_K) (so_top_k s) \<and> optional (within 0 MAX_SNIPPET_LINES) (so_max_snippet_lines s) \<and>
     optional (\<lambda>ps. length ps \<le> MAX_FILTERS \<and> list_all (\<lambda>p. code_pathProblem p = None) ps) (so_paths s) \<and>
     optional (\<lambda>ls. length ls \<le> MAX_FILTERS \<and> list_all LANGUAGE ls) (so_languages s)"

definition related_valid :: "RelatedOperation \<Rightarrow> bool" where
  "related_valid r \<longleftrightarrow>
     code_pathProblem (ro_file_path r) = None \<and> 1 \<le> ro_line r \<and> optional reference_valid (ro_ref r) \<and>
     optional (within 1 MAX_TOP_K) (ro_top_k r) \<and> optional (within 0 MAX_SNIPPET_LINES) (ro_max_snippet_lines r)"

definition read_valid :: "ReadOperation \<Rightarrow> bool" where
  "read_valid r \<longleftrightarrow>
     code_pathProblem (rd_file_path r) = None \<and> optional reference_valid (rd_ref r) \<and>
     optional (\<lambda>n. 1 \<le> n) (rd_start_line r) \<and> optional (\<lambda>n. 1 \<le> n) (rd_end_line r) \<and>
     optional (\<lambda>n. (case rd_start_line r of None \<Rightarrow> 1 | Some m \<Rightarrow> m) \<le> n) (rd_end_line r)"

definition operation_ref :: "CodeOperation \<Rightarrow> string option" where
  "operation_ref operation =
     (case operation of OpSearch s \<Rightarrow> so_ref s | OpRelated r \<Rightarrow> ro_ref r | OpReadFile r \<Rightarrow> rd_ref r)"

section \<open>Decisions\<close>

definition isRead :: "string \<Rightarrow> CodeOperation \<Rightarrow> bool" where
  "isRead tool operation \<longleftrightarrow> tool = CODE_READ \<and> (case operation of OpReadFile _ \<Rightarrow> True | _ \<Rightarrow> False)"

definition isRelated :: "string \<Rightarrow> CodeOperation \<Rightarrow> bool" where
  "isRelated tool operation \<longleftrightarrow> tool = CODE_FIND_RELATED \<and> (case operation of OpRelated _ \<Rightarrow> True | _ \<Rightarrow> False)"

definition isSearch :: "CodeOperation \<Rightarrow> bool" where
  "isSearch operation \<longleftrightarrow> (case operation of OpSearch _ \<Rightarrow> True | _ \<Rightarrow> False)"

definition selectedContent :: "CodePolicy \<Rightarrow> ContentSelection option \<Rightarrow> ContentType list option" where
  "selectedContent policy selection =
     (case selection of
        Some (SelectType t) \<Rightarrow> (if t \<in> set (cp_content policy) then Some [t] else None)
      | _ \<Rightarrow> Some (normaliseContent (cp_content policy)))"

definition contentOf :: "CodeOperation \<Rightarrow> ContentSelection option" where
  "contentOf operation =
     (case operation of OpSearch s \<Rightarrow> so_content s | OpRelated r \<Rightarrow> ro_content r | OpReadFile _ \<Rightarrow> None)"

definition sharedContent :: "CodePolicy list \<Rightarrow> ContentSelection option \<Rightarrow> ContentType list" where
  "sharedContent policies selection =
     (let allowed = map (\<lambda>p. case selectedContent p selection of None \<Rightarrow> [] | Some types \<Rightarrow> types) policies
      in filter (\<lambda>t. list_all (\<lambda>types. t \<in> set types) allowed) CONTENT_TYPES)"

definition topKOf :: "CodeOperation \<Rightarrow> nat option" where
  "topKOf operation = (case operation of OpSearch s \<Rightarrow> so_top_k s | OpRelated r \<Rightarrow> ro_top_k r | OpReadFile _ \<Rightarrow> None)"

definition topKFor :: "CodePolicy list \<Rightarrow> nat option \<Rightarrow> nat" where
  "topKFor policies requested =
     (case requested of Some k \<Rightarrow> k | None \<Rightarrow> foldr min (map cp_max_top_k policies) DEFAULT_TOP_K)"

definition authorizeCode :: "CodePolicy \<Rightarrow> string \<Rightarrow> CodeOperation \<Rightarrow> PolicyDecision" where
  "authorizeCode policy tool operation =
     (if tool = CODE_READ \<and> \<not> cp_allow_read policy then Denied RRead
      else if operation_ref operation \<noteq> None \<and> \<not> cp_allow_ref policy then Denied RRef
      else if selectedContent policy (contentOf operation) = None then Denied RContent
      else
        (case topKOf operation of
           Some k \<Rightarrow> if cp_max_top_k policy < k then Denied RTopK else Allowed OpRead None
         | None \<Rightarrow> Allowed OpRead None))"

definition authorizeCodeMany :: "CodePolicy list \<Rightarrow> CodeOperation \<Rightarrow> PolicyDecision" where
  "authorizeCodeMany policies operation =
     (if sharedContent policies (contentOf operation) = [] then Denied RContent else Allowed OpRead None)"

definition describeCode :: "string \<Rightarrow> CodeOperation \<Rightarrow> string" where
  "describeCode tool operation =
     (if isSearch operation then ''search'' else if isRelated tool operation then ''related'' else ''read'')"

section \<open>Refusals\<close>

text \<open>A failed exchange with the sidecar: an error of vaultgate's own, or a refusal by code with the key it names.\<close>

datatype SidecarError = SidecarFailed ActionError | SidecarRefusal (refusal_code: string) (refusal_key: "string option")

definition PASSED_THROUGH :: "(string \<times> ActionErrorCode) list" where
  "PASSED_THROUGH =
     [(''chunk_not_found'', chunk_not_found), (''path_not_found'', path_not_found), (''not_text'', not_text)]"

definition INVALID :: "string list" where "INVALID = [''invalid_path'', ''invalid_range'']"

definition BUILD_FAILURES :: "string list" where
  "BUILD_FAILURES = [''archive_invalid'', ''archive_too_large'', ''build_failed'', ''build_timeout'', ''storage_full'']"

definition isRemembered :: "string \<Rightarrow> bool" where
  "isRemembered reason \<longleftrightarrow> reason \<in> set BUILD_FAILURES \<or> reason = ''ref_not_found''"

definition fromRefusal :: "string \<Rightarrow> string \<Rightarrow> ActionError" where
  "fromRefusal code repo =
     (case map_of PASSED_THROUGH code of
        Some c \<Rightarrow> action_error c []
      | None \<Rightarrow>
          if code \<in> set INVALID then action_error invalid_arguments [(''problem'', DText code)]
          else if code \<in> set BUILD_FAILURES
          then action_error index_not_ready [(''state'', DText ''failed''), (''repo'', DText repo), (''reason'', DText code)]
          else action_error connector_fault [(''reason'', DText ''sidecar''), (''message'', DText code)])"

definition refusalError :: "SidecarError \<Rightarrow> string \<Rightarrow> ActionError" where
  "refusalError e repo = (case e of SidecarFailed a \<Rightarrow> a | SidecarRefusal code _ \<Rightarrow> fromRefusal code repo)"

section \<open>Within every policy\<close>

lemma normaliseContent_set: "set (normaliseContent types) = set types"
proof -
  have "t \<in> set CONTENT_TYPES" for t by (cases t) (simp_all add: CONTENT_TYPES_def)
  then show ?thesis by (auto simp: normaliseContent_def)
qed

lemma selectedContent_subset: "selectedContent p s = Some types \<Longrightarrow> set types \<subseteq> set (cp_content p)"
  by (auto simp: selectedContent_def normaliseContent_set split: option.splits ContentSelection.splits if_splits)

lemma sharedContent_subset: "p \<in> set policies \<Longrightarrow> set (sharedContent policies s) \<subseteq> set (cp_content p)"
proof
  fix t assume "p \<in> set policies" "t \<in> set (sharedContent policies s)"
  then have "t \<in> set (case selectedContent p s of None \<Rightarrow> [] | Some types \<Rightarrow> types)"
    by (auto simp: sharedContent_def list_all_iff)
  then show "t \<in> set (cp_content p)"
    using selectedContent_subset [of p s] by (cases "selectedContent p s") auto
qed

lemma foldr_min_le: "x \<in> set xs \<Longrightarrow> foldr min xs (d::nat) \<le> x"
  by (induction xs) (auto simp: min_le_iff_disj)

lemma authorized_top_k:
  "p \<in> set policies \<Longrightarrow> is_allowed (authorizeCode p tool operation) \<Longrightarrow>
   topKFor policies (topKOf operation) \<le> cp_max_top_k p"
  by (auto simp: authorizeCode_def topKFor_def intro!: foldr_min_le split: option.splits if_splits)

text \<open>
  once every repository of a call is allowed, what the call reads stays within every policy: it
  selects a content type, each of them one that every policy allows, and asks for no more results
  than the smallest \<^verbatim>\<open>max_top_k\<close>.
\<close>

theorem authorized_within_policies:
  assumes "\<forall>p \<in> set policies. is_allowed (authorizeCode p tool operation)"
    and "is_allowed (authorizeCodeMany policies operation)"
  shows "sharedContent policies (contentOf operation) \<noteq> [] \<and>
    (\<forall>p \<in> set policies.
       set (sharedContent policies (contentOf operation)) \<subseteq> set (cp_content p) \<and>
       topKFor policies (topKOf operation) \<le> cp_max_top_k p)"
  using assms authorized_top_k sharedContent_subset by (auto simp: authorizeCodeMany_def)

definition example_code_policy :: CodePolicy where
  "example_code_policy =
     \<lparr>cp_timeout_ms = 150000, cp_refresh_interval_s = 300, cp_content = [ContentDocs, ContentCode], cp_allow_ref = True,
      cp_max_top_k = 3, cp_build_wait_s = 90, cp_include = [], cp_exclude = DEFAULT_EXCLUDE,
      cp_max_archive_bytes = 1048576, cp_max_files = 50, cp_max_total_bytes = 1048576, cp_max_file_bytes = 2048,
      cp_build_timeout_s = 600, cp_allow_read = True, cp_max_read_lines = 400\<rparr>"

definition example_search :: SearchOperation where
  "example_search =
     \<lparr>so_query = ''open a pinned socket'', so_ref = Some ''main'', so_content = None, so_top_k = None,
      so_max_snippet_lines = Some 10, so_paths = None, so_languages = None\<rparr>"

lemma example_authorized:
  "is_allowed (authorizeCode example_code_policy CODE_SEARCH (OpSearch example_search))"
  "is_allowed (authorizeCodeMany [example_code_policy, example_code_policy\<lparr>cp_content := [ContentDocs]\<rparr>] (OpSearch example_search))"
  "is_allowed (authorizeCode (example_code_policy\<lparr>cp_content := [ContentDocs]\<rparr>) CODE_SEARCH (OpSearch example_search))"
  by (simp_all add: authorizeCode_def authorizeCodeMany_def example_code_policy_def example_search_def operation_ref_def
      contentOf_def topKOf_def selectedContent_def sharedContent_def normaliseContent_def CONTENT_TYPES_def CODE_SEARCH_def
      CODE_READ_def)

lemma authorized_within_policies_witness:
  "sharedContent [example_code_policy, example_code_policy\<lparr>cp_content := [ContentDocs]\<rparr>] None = [ContentDocs] \<and>
   topKFor [example_code_policy, example_code_policy\<lparr>cp_content := [ContentDocs]\<rparr>] None \<le> 3"
proof -
  have "sharedContent [example_code_policy, example_code_policy\<lparr>cp_content := [ContentDocs]\<rparr>] None = [ContentDocs]"
    by (simp add: example_code_policy_def selectedContent_def sharedContent_def normaliseContent_def CONTENT_TYPES_def)
  moreover have "contentOf (OpSearch example_search) = None" "topKOf (OpSearch example_search) = None"
    "cp_max_top_k example_code_policy = 3"
    by (simp_all add: contentOf_def topKOf_def example_search_def example_code_policy_def)
  ultimately show ?thesis
    using authorized_within_policies
        [of "[example_code_policy, example_code_policy\<lparr>cp_content := [ContentDocs]\<rparr>]" CODE_SEARCH "OpSearch example_search"]
      example_authorized by simp
qed

end
