(* ===== verification/CodeGithub.thy ===== *)
theory CodeGithub
  imports CodeDocs
begin

text \<open>
  GitHub's answers about a repository: the exchange over the pinned transport
  (\<^verbatim>\<open>src/actions/connectors/code/github-http.ts\<close>), the commit a ref names and the listings
  (\<^verbatim>\<open>github.ts\<close>), and the archive of a commit with its one redirect (\<^verbatim>\<open>archive.ts\<close>).

  The transport, the URL class and \<^verbatim>\<open>JSON.parse\<close> are parameters. A run keeps the requests it made and
  the values it put into the scrub table; the answer of the transport may depend on how many requests
  went before.
\<close>

section \<open>The exchange\<close>

record FetchRequest =
  fetch_url :: string
  fetch_address :: string
  fetch_headers :: "(string \<times> string) list"

text \<open>A body is the chunks that arrive and what the stream throws after them, if anything.\<close>

record FetchResponse =
  resp_status :: nat
  resp_location :: "string option"
  resp_body :: "(bytes list \<times> Thrown option) option"

record ParsedUrl =
  pu_protocol :: string
  pu_hostname :: string
  pu_port :: string
  pu_username :: string
  pu_password :: string
  pu_pathname :: string
  pu_params :: "string list"

record GitHubEnv =
  gh_fetch :: "nat \<Rightarrow> FetchRequest \<Rightarrow> (FetchResponse, Thrown) result"
  gh_aborted :: "nat \<Rightarrow> bool"
  gh_parse_url :: "string \<Rightarrow> ParsedUrl option"
  gh_parse_json :: "string \<Rightarrow> json option"
  gh_scrub :: "string \<Rightarrow> string"

record GitHubAccess =
  gh_api_address :: string
  gh_archive_address :: string
  gh_token :: "string option"
  gh_user_agent :: string

record GitHubRun =
  gh_sent :: "FetchRequest list"
  gh_captured :: "(string \<times> bytes) list"

type_synonym 'v Step = "('v, ActionError) result \<times> GitHubRun"

definition JSON_MEDIA_TYPE :: string where "JSON_MEDIA_TYPE = ''application/vnd.github+json''"
definition SHA_MEDIA_TYPE :: string where "SHA_MEDIA_TYPE = ''application/vnd.github.sha''"
definition API_VERSION :: string where "API_VERSION = ''2022-11-28''"
definition MAX_BODY_BYTES :: nat where "MAX_BODY_BYTES = 8 * 1024 * 1024"

definition apiHeaders :: "GitHubAccess \<Rightarrow> string \<Rightarrow> (string \<times> string) list" where
  "apiHeaders access accept =
     [(''accept'', accept), (''user-agent'', gh_user_agent access), (''x-github-api-version'', API_VERSION)] @
     (case gh_token access of None \<Rightarrow> [] | Some t \<Rightarrow> [(''authorization'', ''Bearer '' @ t)])"

definition statusError :: "nat \<Rightarrow> ActionError" where
  "statusError status =
     (if status = 401 then action_error authentication_failed []
      else action_error upstream_error
        [(''status'', DNumber status), (''message'', DText (''GitHub answered '' @ nat_text status))])"

definition github_errorCode :: "Thrown \<Rightarrow> string" where
  "github_errorCode e =
     (case e of
        ThrownError code name _ _ \<Rightarrow> (case code of Some c \<Rightarrow> c | None \<Rightarrow> name)
      | ThrownAction a \<Rightarrow> code_name (error_code a)
      | ThrownOther _ \<Rightarrow> ''unknown'')"

definition transportError :: "Thrown \<Rightarrow> bool \<Rightarrow> ActionError" where
  "transportError e aborted =
     (if aborted then action_error timeout []
      else
        (let code = github_errorCode e in
         action_error (if isTlsErrorCode code then tls_error else connection_failed) [(''reason'', DText code)]))"

definition gh_send :: "GitHubEnv \<Rightarrow> FetchRequest \<Rightarrow> GitHubRun \<Rightarrow> (FetchResponse, Thrown) result \<times> GitHubRun" where
  "gh_send env q w = (gh_fetch env (length (gh_sent w)) q, w\<lparr>gh_sent := gh_sent w @ [q]\<rparr>)"

definition api_request :: "GitHubAccess \<Rightarrow> string \<Rightarrow> string \<Rightarrow> FetchRequest" where
  "api_request access p accept =
     \<lparr>fetch_url = ''https://'' @ GITHUB_API_HOST @ p, fetch_address = gh_api_address access,
      fetch_headers = apiHeaders access accept\<rparr>"

definition apiGet :: "GitHubEnv \<Rightarrow> GitHubAccess \<Rightarrow> string \<Rightarrow> string \<Rightarrow> GitHubRun \<Rightarrow> (FetchResponse, Thrown) result \<times> GitHubRun" where
  "apiGet env access p accept w = gh_send env (api_request access p accept) w"

text \<open>The chunks while they stay within the cap: \<open>None\<close> as soon as one passes it, before anything it is followed by.\<close>

fun read_chunks :: "bytes list \<Rightarrow> Thrown option \<Rightarrow> nat \<Rightarrow> bytes \<Rightarrow> (bytes option, Thrown) result" where
  "read_chunks [] thrown received kept = (case thrown of Some e \<Rightarrow> fail e | None \<Rightarrow> ok (Some kept))"
| "read_chunks (chunk # rest) thrown received kept =
     (if MAX_BODY_BYTES < received + length chunk then ok None
      else read_chunks rest thrown (received + length chunk) (kept @ chunk))"

definition readCapped :: "bytes list \<times> Thrown option \<Rightarrow> (string option, Thrown) result" where
  "readCapped body =
     (case read_chunks (fst body) (snd body) 0 [] of Inl e \<Rightarrow> fail e | Inr bs \<Rightarrow> ok (map_option utf8_decode bs))"

text \<open>\<^verbatim>\<open>Answered\<close>: the status, and the text of a \<^verbatim>\<open>200\<close> within the cap.\<close>

definition apiText :: "GitHubEnv \<Rightarrow> GitHubAccess \<Rightarrow> string \<Rightarrow> string \<Rightarrow> GitHubRun \<Rightarrow> (nat \<times> string option) Step" where
  "apiText env access p accept w =
     (case apiGet env access p accept w of (answered, w') \<Rightarrow>
        ((case answered of
            Inl e \<Rightarrow> fail (transportError e (gh_aborted env (length (gh_sent w'))))
          | Inr r \<Rightarrow>
              (case resp_body r of
                 Some body \<Rightarrow>
                   if resp_status r \<noteq> 200 then ok (resp_status r, None)
                   else
                     (case readCapped body of
                        Inl e \<Rightarrow> fail (transportError e (gh_aborted env (length (gh_sent w'))))
                      | Inr t \<Rightarrow> ok (200, t))
               | None \<Rightarrow> ok (resp_status r, None))), w'))"

section \<open>The commit a ref names\<close>

record ResolvedReference =
  rr_commit :: string
  rr_ref :: string

record RepoInfo =
  ri_fullName :: string
  ri_defaultBranch :: string
  ri_visibility :: string

definition outOfShape :: ActionError where
  "outOfShape = action_error upstream_error [(''message'', DText ''GitHub answered out of shape'')]"

definition jsonOf :: "GitHubEnv \<Rightarrow> (json \<Rightarrow> 'v option) \<Rightarrow> string \<Rightarrow> 'v option" where
  "jsonOf env schema t = Option.bind (gh_parse_json env t) schema"

definition shaOf :: "string \<Rightarrow> string option" where
  "shaOf t = (if isCommitSha (trim t) then Some (trim t) else None)"

record 'v GitHubStep =
  step_path :: string
  step_accept :: string
  step_parse :: "string \<Rightarrow> 'v option"
  step_missing :: ActionError

definition github_step :: "GitHubEnv \<Rightarrow> GitHubAccess \<Rightarrow> 'v GitHubStep \<Rightarrow> GitHubRun \<Rightarrow> 'v Step" where
  "github_step env access spec w =
     (case apiText env access (step_path spec) (step_accept spec) w of (answered, w') \<Rightarrow>
        (and_then answered (\<lambda>(status, t).
           if status = 404 \<or> status = 422 then fail (step_missing spec)
           else if status \<noteq> 200 then fail (statusError status)
           else (case Option.bind t (step_parse spec) of None \<Rightarrow> fail outOfShape | Some v \<Rightarrow> ok v)), w'))"

definition repo_path :: "string \<Rightarrow> string" where
  "repo_path repo = ''/repos/'' @ encodePath repo"

definition commits_path :: "string \<Rightarrow> string \<Rightarrow> string" where
  "commits_path repo name = repo_path repo @ ''/commits/'' @ encodePath name"

definition commitOf :: "GitHubEnv \<Rightarrow> GitHubAccess \<Rightarrow> string \<Rightarrow> string \<Rightarrow> GitHubRun \<Rightarrow> string Step" where
  "commitOf env access repo name w =
     github_step env access
       \<lparr>step_path = commits_path repo name, step_accept = SHA_MEDIA_TYPE, step_parse = shaOf,
        step_missing = action_error ref_not_found []\<rparr> w"

text \<open>What \<^verbatim>\<open>repoSchema\<close> lets through.\<close>

record RepoAnswer =
  ra_full_name :: string
  ra_default_branch :: string
  ra_visibility :: "string option"
  ra_private :: "bool option"

definition string_field :: "json \<Rightarrow> string \<Rightarrow> string option" where
  "string_field v name = (case property_of v name of Some (JString s) \<Rightarrow> Some s | _ \<Rightarrow> None)"

definition optional_string :: "json \<Rightarrow> string \<Rightarrow> string option option" where
  "optional_string v name =
     (case property_of v name of None \<Rightarrow> Some None | Some JUndefined \<Rightarrow> Some None | Some (JString s) \<Rightarrow> Some (Some s) | _ \<Rightarrow> None)"

definition optional_bool :: "json \<Rightarrow> string \<Rightarrow> bool option option" where
  "optional_bool v name =
     (case property_of v name of None \<Rightarrow> Some None | Some JUndefined \<Rightarrow> Some None | Some (JBool b) \<Rightarrow> Some (Some b) | _ \<Rightarrow> None)"

definition repoSchema :: "json \<Rightarrow> RepoAnswer option" where
  "repoSchema v =
     (case (string_field v ''full_name'', string_field v ''default_branch'', optional_string v ''visibility'',
            optional_bool v ''private'') of
        (Some full_name, Some branch, Some visibility, Some is_private) \<Rightarrow>
          if branch = [] then None
          else Some \<lparr>ra_full_name = full_name, ra_default_branch = branch, ra_visibility = visibility, ra_private = is_private\<rparr>
      | _ \<Rightarrow> None)"

definition repo_step :: "GitHubEnv \<Rightarrow> GitHubAccess \<Rightarrow> string \<Rightarrow> ActionError \<Rightarrow> GitHubRun \<Rightarrow> RepoAnswer Step" where
  "repo_step env access repo missing w =
     github_step env access
       \<lparr>step_path = repo_path repo, step_accept = JSON_MEDIA_TYPE, step_parse = jsonOf env repoSchema, step_missing = missing\<rparr> w"

definition defaultBranchOf :: "GitHubEnv \<Rightarrow> GitHubAccess \<Rightarrow> string \<Rightarrow> GitHubRun \<Rightarrow> ResolvedReference Step" where
  "defaultBranchOf env access repo w =
     (case repo_step env access repo (action_error ref_not_found []) w of (found, w') \<Rightarrow>
        (case found of
           Inl e \<Rightarrow> (fail e, w')
         | Inr r \<Rightarrow>
             (case commitOf env access repo (ra_default_branch r) w' of (commit, w'') \<Rightarrow>
                (and_then commit (\<lambda>c. ok \<lparr>rr_commit = c, rr_ref = gh_scrub env (ra_default_branch r)\<rparr>), w''))))"

definition pull_head :: "nat \<Rightarrow> string" where
  "pull_head n = ''refs/pull/'' @ nat_text n @ ''/head''"

definition resolveReference ::
  "GitHubEnv \<Rightarrow> GitHubAccess \<Rightarrow> string \<Rightarrow> string option \<Rightarrow> GitHubRun \<Rightarrow> ResolvedReference Step" where
  "resolveReference env access repo t w =
     (case parseReference t of
        None \<Rightarrow> (fail (action_error invalid_arguments [(''problem'', DText ''ref: follows no rule of ACT-104'')]), w)
      | Some (RefCommit sha) \<Rightarrow> (ok \<lparr>rr_commit = sha, rr_ref = sha\<rparr>, w)
      | Some RefDefault \<Rightarrow> defaultBranchOf env access repo w
      | Some (RefName name) \<Rightarrow>
          (case commitOf env access repo name w of (commit, w') \<Rightarrow>
             (and_then commit (\<lambda>c. ok \<lparr>rr_commit = c, rr_ref = name\<rparr>), w'))
      | Some (RefPull n) \<Rightarrow>
          (case commitOf env access repo (pull_head n) w of (commit, w') \<Rightarrow>
             (and_then commit (\<lambda>c. ok \<lparr>rr_commit = c, rr_ref = ''pr:'' @ nat_text n\<rparr>), w')))"

definition repoInfo :: "GitHubEnv \<Rightarrow> GitHubAccess \<Rightarrow> string \<Rightarrow> GitHubRun \<Rightarrow> RepoInfo Step" where
  "repoInfo env access repo w =
     (case repo_step env access repo
         (action_error upstream_error
           [(''status'', DNumber 404), (''message'', DText ''the repository was not found, or the token cannot read it'')]) w
      of (found, w') \<Rightarrow>
        (and_then found (\<lambda>r.
           ok \<lparr>ri_fullName = ra_full_name r, ri_defaultBranch = ra_default_branch r,
             ri_visibility =
               (case ra_visibility r of
                  Some v \<Rightarrow> v
                | None \<Rightarrow> if ra_private r = Some True then ''private'' else ''public'')\<rparr>), w'))"

section \<open>The repositories a token can read\<close>

definition MAX_REPOSITORY_PAGES :: nat where "MAX_REPOSITORY_PAGES = 10"
definition PER_PAGE :: nat where "PER_PAGE = 100"

record ListedRepo =
  lr_fullName :: string
  lr_isPrivate :: bool

definition listed_repo :: "json \<Rightarrow> ListedRepo option" where
  "listed_repo v =
     (case (string_field v ''full_name'', optional_bool v ''private'') of
        (Some name, Some is_private) \<Rightarrow> Some \<lparr>lr_fullName = name, lr_isPrivate = (is_private = Some True)\<rparr>
      | _ \<Rightarrow> None)"

definition repoListSchema :: "json \<Rightarrow> ListedRepo list option" where
  "repoListSchema v =
     (case v of
        JArray vs \<Rightarrow>
          (let found = map listed_repo vs in if None \<in> set found then None else Some (map the found))
      | _ \<Rightarrow> None)"

definition listing_path :: "nat \<Rightarrow> string" where
  "listing_path page =
     ''/user/repos?per_page='' @ nat_text PER_PAGE @ ''&page='' @ nat_text page @ ''&sort=full_name''"

text \<open>The pages from \<open>page\<close> on, of which at most \<open>left\<close> are asked for.\<close>

fun list_pages :: "GitHubEnv \<Rightarrow> GitHubAccess \<Rightarrow> nat \<Rightarrow> nat \<Rightarrow> ListedRepo list \<Rightarrow> GitHubRun \<Rightarrow> ListedRepo list Step" where
  "list_pages env access 0 page found w = (ok found, w)"
| "list_pages env access (Suc left) page found w =
     (case github_step env access
         \<lparr>step_path = listing_path page, step_accept = JSON_MEDIA_TYPE, step_parse = jsonOf env repoListSchema,
          step_missing = action_error upstream_error
            [(''status'', DNumber 404), (''message'', DText ''GitHub has no such listing'')]\<rparr> w
      of (batch, w') \<Rightarrow>
        (case batch of
           Inl e \<Rightarrow> (fail e, w')
         | Inr some_repos \<Rightarrow>
             if length some_repos < PER_PAGE then (ok (found @ some_repos), w')
             else list_pages env access left (Suc page) (found @ some_repos) w'))"

definition listRepos :: "GitHubEnv \<Rightarrow> GitHubAccess \<Rightarrow> GitHubRun \<Rightarrow> ListedRepo list Step" where
  "listRepos env access w = list_pages env access MAX_REPOSITORY_PAGES 1 [] w"

section \<open>The archive of a commit\<close>

definition ARCHIVE_REDIRECT_STATUSES :: "nat list" where "ARCHIVE_REDIRECT_STATUSES = [301, 302, 303, 307, 308]"

definition is_archive_url :: "ParsedUrl \<Rightarrow> bool" where
  "is_archive_url url \<longleftrightarrow>
     pu_protocol url = ''https:'' \<and> pu_hostname url = GITHUB_ARCHIVE_HOST \<and> pu_port url = [] \<and>
     pu_username url = [] \<and> pu_password url = []"

definition archiveRedirectProblem :: "GitHubEnv \<Rightarrow> string \<Rightarrow> string \<Rightarrow> string option" where
  "archiveRedirectProblem env location repo =
     (case gh_parse_url env location of
        None \<Rightarrow> Some ''the redirect is not a URL''
      | Some url \<Rightarrow>
          if \<not> is_archive_url url then Some ''the redirect leaves the archive host''
          else if prefix (''/'' @ toLowerCase repo @ ''/'') (toLowerCase (pu_pathname url)) then None
          else Some ''the redirect leaves the repository'')"

definition capture_value :: "string \<Rightarrow> string \<Rightarrow> GitHubRun \<Rightarrow> GitHubRun" where
  "capture_value field v w = w\<lparr>gh_captured := gh_captured w @ [(field, utf8_encode v)]\<rparr>"

definition captureRedirect :: "GitHubEnv \<Rightarrow> string \<Rightarrow> GitHubRun \<Rightarrow> GitHubRun" where
  "captureRedirect env location w =
     fold (\<lambda>v w. if v = [] then w else capture_value ''archive_token'' v w)
       (case gh_parse_url env location of None \<Rightarrow> [] | Some url \<Rightarrow> pu_params url)
       (capture_value ''archive_url'' location w)"

text \<open>An answer, a refusal of the redirect, or what the second request threw.\<close>

datatype Followed = Answer FetchResponse | RedirectRefused ActionError | FollowThrew Thrown

definition archive_request :: "GitHubAccess \<Rightarrow> string \<Rightarrow> FetchRequest" where
  "archive_request access location =
     \<lparr>fetch_url = location, fetch_address = gh_archive_address access,
      fetch_headers = [(''user-agent'', gh_user_agent access)]\<rparr>"

definition follow_archive :: "GitHubEnv \<Rightarrow> GitHubAccess \<Rightarrow> string \<Rightarrow> FetchResponse \<Rightarrow> GitHubRun \<Rightarrow> Followed \<times> GitHubRun" where
  "follow_archive env access repo first w =
     (if resp_status first \<notin> set ARCHIVE_REDIRECT_STATUSES then (Answer first, w)
      else
        (let location = (case resp_location first of None \<Rightarrow> [] | Some l \<Rightarrow> l) in
         case archiveRedirectProblem env location repo of
           Some problem \<Rightarrow> (RedirectRefused (action_error upstream_error [(''message'', DText problem)]), w)
         | None \<Rightarrow>
             (case gh_send env (archive_request access location) (captureRedirect env location w) of (answered, w') \<Rightarrow>
                ((case answered of Inl e \<Rightarrow> FollowThrew e | Inr r \<Rightarrow> Answer r), w'))))"

definition archiveError :: "nat \<Rightarrow> ActionError" where
  "archiveError status =
     (if status = 404 \<or> status = 422 then action_error ref_not_found []
      else if status \<in> set ARCHIVE_REDIRECT_STATUSES
      then action_error upstream_error [(''message'', DText ''a second redirect was refused'')]
      else statusError status)"

definition archive_path :: "string \<Rightarrow> string \<Rightarrow> string" where
  "archive_path repo commit = repo_path repo @ ''/tarball/'' @ commit"

definition openArchive ::
  "GitHubEnv \<Rightarrow> GitHubAccess \<Rightarrow> string \<Rightarrow> string \<Rightarrow> GitHubRun \<Rightarrow> (bytes list \<times> Thrown option) Step" where
  "openArchive env access repo commit w =
     (case apiGet env access (archive_path repo commit) JSON_MEDIA_TYPE w of (first, w1) \<Rightarrow>
        (case first of
           Inl e \<Rightarrow> (fail (transportError e (gh_aborted env (length (gh_sent w1)))), w1)
         | Inr answered \<Rightarrow>
             (case follow_archive env access repo answered w1 of (followed, w2) \<Rightarrow>
                ((case followed of
                    FollowThrew e \<Rightarrow> fail (transportError e (gh_aborted env (length (gh_sent w2))))
                  | RedirectRefused e \<Rightarrow> fail e
                  | Answer r \<Rightarrow>
                      (case resp_body r of
                         Some body \<Rightarrow> if resp_status r = 200 then ok body else fail (archiveError (resp_status r))
                       | None \<Rightarrow> fail (archiveError (resp_status r)))), w2))))"

end
