(* ===== verification/CodeGithubSafety.thy ===== *)
theory CodeGithubSafety
  imports CodeGithub
begin

text \<open>
  Where the token goes and which paths of the API a ref can name: the requests an archive download
  makes, and the path the URL class leaves of a path built from a repository and a ref that follow the
  grammar.
\<close>

section \<open>The token stays on the API host\<close>

text \<open>
  A request to the API host at its pinned address, or one without \<^verbatim>\<open>authorization\<close> to the archive
  host, at its own pinned address, under the repository.
\<close>

definition token_safe :: "GitHubEnv \<Rightarrow> GitHubAccess \<Rightarrow> string \<Rightarrow> FetchRequest \<Rightarrow> bool" where
  "token_safe env access repo q \<longleftrightarrow>
     (prefix (''https://'' @ GITHUB_API_HOST @ ''/'') (fetch_url q) \<and> fetch_address q = gh_api_address access) \<or>
     (map_of (fetch_headers q) ''authorization'' = None \<and> fetch_address q = gh_archive_address access \<and>
      (case gh_parse_url env (fetch_url q) of
         None \<Rightarrow> False
       | Some url \<Rightarrow> is_archive_url url \<and> prefix (''/'' @ toLowerCase repo @ ''/'') (toLowerCase (pu_pathname url))))"

lemma api_request_safe: "prefix ''/'' p \<Longrightarrow> token_safe env access repo (api_request access p accept)"
  by (auto simp: token_safe_def api_request_def prefix_def)

lemma archive_request_safe:
  "archiveRedirectProblem env location repo = None \<Longrightarrow> token_safe env access repo (archive_request access location)"
  by (auto simp: token_safe_def archive_request_def archiveRedirectProblem_def split: option.splits if_splits)

lemma sent_capture [simp]: "gh_sent (captureRedirect env location w) = gh_sent w"
proof -
  have "gh_sent (fold (\<lambda>v w. if v = [] then w else capture_value f v w) vs w) = gh_sent w" for f vs w
    by (induction vs arbitrary: w) (simp_all add: capture_value_def)
  then show ?thesis by (simp add: captureRedirect_def capture_value_def)
qed

lemma gh_send_sel: "gh_sent (snd (gh_send env q w)) = gh_sent w @ [q]"
  by (simp add: gh_send_def)

lemma follow_archive_sent:
  "\<exists>sent. gh_sent (snd (follow_archive env access repo first w)) = gh_sent w @ sent \<and> length sent \<le> 1 \<and>
     list_all (token_safe env access repo) sent"
  using archive_request_safe [of env _ repo access]
  by (auto simp: follow_archive_def gh_send_def Let_def split: option.splits)

lemma archive_path_starts: "prefix ''/'' (archive_path repo commit)"
  by (simp add: archive_path_def repo_path_def)

text \<open>
  C34: a download makes at most two requests, and the token leaves vaultgate on the API host only: each
  request goes to \<^verbatim>\<open>https://api.github.com/\<close> at the pinned address of that host, or carries no
  \<^verbatim>\<open>authorization\<close> and goes over TLS, at the pinned address of the archive host, to a URL of that host
  under the same repository.
\<close>

theorem token_only_to_api:
  "\<exists>sent. gh_sent (snd (openArchive env access repo commit w)) = gh_sent w @ sent \<and> length sent \<le> 2 \<and>
     list_all (token_safe env access repo) sent"
proof -
  let ?q = "api_request access (archive_path repo commit) JSON_MEDIA_TYPE"
  let ?w = "w\<lparr>gh_sent := gh_sent w @ [?q]\<rparr>"
  have q: "token_safe env access repo ?q" by (rule api_request_safe [OF archive_path_starts])
  show ?thesis
  proof (cases "gh_fetch env (length (gh_sent w)) ?q")
    case (Inl e)
    then have "gh_sent (snd (openArchive env access repo commit w)) = gh_sent w @ [?q]"
      by (simp add: openArchive_def apiGet_def gh_send_def)
    with q show ?thesis by auto
  next
    case (Inr r)
    obtain sent where "gh_sent (snd (follow_archive env access repo r ?w)) = gh_sent ?w @ sent" "length sent \<le> 1"
      "list_all (token_safe env access repo) sent" using follow_archive_sent by blast
    moreover have "snd (openArchive env access repo commit w) = snd (follow_archive env access repo r ?w)"
      using Inr by (simp add: openArchive_def apiGet_def gh_send_def split_beta)
    ultimately show ?thesis using q by (intro exI [of _ "?q # sent"]) simp
  qed
qed

section \<open>A ref stays under its repository\<close>

definition path_char :: "char \<Rightarrow> bool" where
  "path_char c \<longleftrightarrow> is_word c \<or> c \<in> {CHR ''.'', CHR ''/'', CHR ''-''}"

lemma encodeURIComponent_plain: "list_all path_char s \<Longrightarrow> CHR ''/'' \<notin> set s \<Longrightarrow> encodeURIComponent s = s"
  by (induction s) (auto simp: encodeURIComponent_def path_char_def is_word_def is_alnum_def)

lemma encodePath_plain: "list_all path_char s \<Longrightarrow> encodePath s = s"
proof -
  assume s: "list_all path_char s"
  have "map encodeURIComponent (split_on (CHR ''/'') s) = split_on (CHR ''/'') s"
  proof (rule map_idI)
    fix x assume x: "x \<in> set (split_on (CHR ''/'') s)"
    have "list_all path_char x" using split_on_set [OF x] s by (auto simp: list_all_iff)
    with split_on_no_sep [OF x] show "encodeURIComponent x = x" by (rule encodeURIComponent_plain [rotated])
  qed
  then show ?thesis by (simp add: encodePath_def)
qed

lemma path_char_codes: "path_char c \<Longrightarrow> c \<notin> {CHR 0x09, CHR 0x0A, CHR 0x0D, CHR ''#'', CHR ''?'', CHR 0x5C, CHR ''%''}"
  by (auto simp: path_char_def char_class_defs)

lemma plain_encoded: "list_all path_char s \<Longrightarrow> encode_with path_encoded s = s"
  by (induction s) (auto simp: encode_with_def path_encoded_def path_char_def char_class_defs)

lemma no_percent_dots:
  assumes "list_all path_char s"
  shows "url_dot s \<longleftrightarrow> s = ''.''" "url_dot_dot s \<longleftrightarrow> s = ''..''"
proof -
  have same: "ascii_lower c = d \<longleftrightarrow> c = d" if "char_code d < 65" for c d
  proof (cases "is_upper c")
    case True
    then have "char_code (ascii_lower c) = char_code c + 32" "65 \<le> char_code c" by (simp_all add: ascii_lower_def is_upper_def)
    with that show ?thesis by auto
  qed (simp add: ascii_lower_def)
  have dot: "ascii_lower c = CHR ''.'' \<longleftrightarrow> c = CHR ''.''" for c by (rule same) (simp add: char_code_def)
  have percent_char: "ascii_lower c = CHR ''%'' \<longleftrightarrow> c = CHR ''%''" for c by (rule same) (simp add: char_code_def)
  have percent: "CHR ''%'' \<notin> set s" using assms path_char_codes by (auto simp: list_all_iff)
  show "url_dot s \<longleftrightarrow> s = ''.''" "url_dot_dot s \<longleftrightarrow> s = ''..''"
    using percent by (auto simp: url_dot_def url_dot_dot_def map_eq_Cons_conv dot percent_char)
qed

lemma url_segments_append:
  "\<forall>x \<in> set xs. \<not> url_dot x \<and> \<not> url_dot_dot x \<Longrightarrow> ys \<noteq> [] \<Longrightarrow>
   url_segments (xs @ ys) out = url_segments ys (out @ map (encode_with path_encoded) xs)"
  by (induction xs arbitrary: out) (simp_all add: url_output_def)

lemma url_segments_grow:
  "\<forall>x \<in> set ys. \<not> url_dot_dot x \<Longrightarrow> ys \<noteq> [] \<Longrightarrow> \<exists>m more. url_segments ys out = out @ m # more"
proof (induction ys arbitrary: out)
  case (Cons y ys)
  show ?case
  proof (cases "ys = []")
    case True
    with Cons.prems show ?thesis by (auto simp: url_output_def)
  next
    case False
    then obtain m more where "url_segments ys (url_output False y out) = url_output False y out @ m # more"
      using Cons by fastforce
    moreover have "url_output False y out = out \<or> (\<exists>z. url_output False y out = out @ [z])"
      using Cons.prems by (auto simp: url_output_def)
    ultimately show ?thesis using False by auto
  qed
qed simp

lemma repo_parts:
  assumes "repositoryProblem repo = None"
  obtains owner name where "repo = owner @ ''/'' @ name" "list_all path_char owner" "list_all path_char name"
    "split_on (CHR ''/'') repo = [owner, name]" "\<forall>x \<in> {owner, name}. x \<noteq> [] \<and> x \<noteq> ''.'' \<and> x \<noteq> ''..''"
proof -
  from assms obtain owner name where parts: "split_on (CHR ''/'') repo = [owner, name]"
    "\<forall>x \<in> {owner, name}. REPOSITORY_PART x \<and> x \<noteq> ''.'' \<and> x \<noteq> ''..''"
    by (auto simp: repositoryProblem_def Let_def numeral_2_eq_2 length_Suc_conv split: if_splits)
  moreover have "repo = owner @ ''/'' @ name" using join_split [of "CHR ''/''" repo] parts(1) by simp
  moreover have "list_all path_char x \<and> x \<noteq> []" if "REPOSITORY_PART x" for x
    using that by (auto simp: REPOSITORY_PART_def path_char_def list_all_iff)
  ultimately show thesis using that by auto
qed

text \<open>The names a commit is asked for by: no segment is two dots.\<close>

definition commit_name_ok :: "string \<Rightarrow> bool" where
  "commit_name_ok name \<longleftrightarrow> list_all path_char name \<and> ''..'' \<notin> set (split_on (CHR ''/'') name)"

lemma reference_name_ok: "isReferenceName name \<Longrightarrow> commit_name_ok name"
  by (auto simp: isReferenceName_def REF_NAME_def commit_name_ok_def path_char_def list_all_iff)

lemma pull_head_ok: "commit_name_ok (pull_head n)"
proof -
  have digits: "list_all is_digit (nat_text n)" using nat_text_digits [of n] by (simp add: list_all_iff)
  then have "CHR ''/'' \<notin> set (nat_text n)" by (auto simp: list_all_iff char_class_defs)
  moreover have "nat_text n \<noteq> ''..''" using digits by (auto simp: char_class_defs)
  moreover have "list_all path_char (nat_text n)" using digits by (auto simp: list_all_iff path_char_def is_word_def)
  ultimately show ?thesis
    by (simp add: commit_name_ok_def pull_head_def split_on_append_sep path_char_def is_word_def char_class_defs)
qed

lemma commits_path_confined:
  assumes "repositoryProblem repo = None" and "commit_name_ok name"
  obtains url where "url_under (commits_path repo name) base = Some url"
    "prefix (''/repos/'' @ repo @ ''/commits/'') (url_pathname url)"
proof -
  obtain owner n where parts: "repo = owner @ ''/'' @ n" "list_all path_char owner" "list_all path_char n"
    "split_on (CHR ''/'') repo = [owner, n]" "\<forall>x \<in> {owner, n}. x \<noteq> [] \<and> x \<noteq> ''.'' \<and> x \<noteq> ''..''"
    using repo_parts [OF assms(1)] by metis
  have no_slash: "CHR ''/'' \<notin> set owner" "CHR ''/'' \<notin> set n"
    using split_on_no_sep [of _ "CHR ''/''" repo] parts(4) by auto
  have plain: "list_all path_char repo" "list_all path_char name" "list_all path_char ''/repos/''" "list_all path_char ''/commits/''"
    using parts assms(2) by (auto simp: commit_name_ok_def path_char_def is_word_def is_lower_def char_code_def)
  have p: "commits_path repo name = ''/repos/'' @ repo @ ''/commits/'' @ name"
    using plain by (simp add: commits_path_def repo_path_def encodePath_plain)
  have all: "list_all path_char (commits_path repo name)" using plain unfolding p by simp
  then have keep: "c \<notin> {CHR 0x09, CHR 0x0A, CHR 0x0D, CHR ''#'', CHR ''?'', CHR 0x5C}" if "c \<in> set (commits_path repo name)" for c
    using that path_char_codes [of c] by (auto simp: list_all_iff)
  have clean: "filter (\<lambda>c. c \<notin> {CHR 0x09, CHR 0x0A, CHR 0x0D}) (commits_path repo name) = commits_path repo name"
    by (rule filter_True) (use keep in blast)
  have cut1: "before_first d (commits_path repo name) = commits_path repo name" if "d \<in> {CHR ''#'', CHR ''?''}" for d
    unfolding before_first_def by (rule takeWhile_eq_all_conv [THEN iffD2]) (use keep that in blast)
  have slashed: "map (\<lambda>c. if c = CHR 0x5C then CHR ''/'' else c) (commits_path repo name) = commits_path repo name"
    by (rule map_idI) (use keep in auto)
  let ?head = "[''repos'', owner, n, ''commits'']"
  have "split_on (CHR ''/'') (commits_path repo name) = [] # ?head @ split_on (CHR ''/'') name"
    using no_slash unfolding p by (simp add: parts(1) split_on_append_sep)
  then have segments: "tl (split_on (CHR ''/'') (commits_path repo name)) = ?head @ split_on (CHR ''/'') name" by simp
  have dots: "\<forall>x \<in> set ?head. \<not> url_dot x \<and> \<not> url_dot_dot x"
    using parts(2,3,5) by (auto simp: no_percent_dots path_char_def is_word_def is_lower_def char_code_def)
  have more: "\<forall>x \<in> set (split_on (CHR ''/'') name). \<not> url_dot_dot x"
  proof
    fix x assume x: "x \<in> set (split_on (CHR ''/'') name)"
    then have "list_all path_char x" using split_on_set [OF x] plain(2) by (auto simp: list_all_iff)
    then show "\<not> url_dot_dot x" using x assms(2) by (auto simp: no_percent_dots commit_name_ok_def)
  qed
  have "map (encode_with path_encoded) ?head = ?head"
    using parts(2,3) by (simp add: plain_encoded path_char_def is_word_def is_lower_def char_code_def)
  then obtain m rest where "url_segments (?head @ split_on (CHR ''/'') name) [] = ?head @ m # rest"
    using url_segments_append [OF dots, of "split_on (CHR ''/'') name" "[]"] url_segments_grow [OF more, of ?head] by auto
  then have under: "prefix (''/repos/'' @ repo @ ''/commits/'') (serialise_path (url_segments (?head @ split_on (CHR ''/'') name) []))"
    by (simp add: serialise_path_def parts(1))
  have "url_under (commits_path repo name) base =
    Some \<lparr>url_origin = url_origin base, url_pathname = serialise_path (url_segments (?head @ split_on (CHR ''/'') name) []),
      url_search = []\<rparr>"
  proof -
    have "from_first (CHR ''?'') (commits_path repo name) = []"
      unfolding from_first_def by (rule dropWhile_eq_Nil_conv [THEN iffD2]) (use keep in blast)
    moreover have "\<not> prefix ''//'' (commits_path repo name)" unfolding p by simp
    ultimately show ?thesis using cut1 unfolding url_under_def Let_def clean by (simp add: slashed segments)
  qed
  then show thesis by (rule that) (simp only: Url.select_convs under)
qed

lemma github_step_sent:
  "gh_sent (snd (github_step env access spec w)) = gh_sent w @ [api_request access (step_path spec) (step_accept spec)]"
  by (simp add: github_step_def apiText_def apiGet_def gh_send_def)

lemma commitOf_sent:
  "gh_sent (snd (commitOf env access repo name w)) = gh_sent w @ [api_request access (commits_path repo name) SHA_MEDIA_TYPE]"
  by (simp add: commitOf_def github_step_sent)

text \<open>A request to the API host whose path, as the URL class leaves it, starts with \<open>root\<close>.\<close>

definition asks_under :: "string \<Rightarrow> FetchRequest \<Rightarrow> bool" where
  "asks_under root q \<longleftrightarrow>
     (\<exists>p. fetch_url q = ''https://'' @ GITHUB_API_HOST @ p \<and>
        (\<forall>base. \<exists>url. url_under p base = Some url \<and> prefix root (url_pathname url)))"

lemma commit_asks_under:
  assumes "repositoryProblem repo = None" and "commit_name_ok name"
  shows "asks_under (''/repos/'' @ repo @ ''/commits/'') (api_request access (commits_path repo name) accept)"
proof -
  have "\<exists>url. url_under (commits_path repo name) base = Some url \<and> prefix (''/repos/'' @ repo @ ''/commits/'') (url_pathname url)"
    for base by (rule commits_path_confined [OF assms, of base]) blast
  then show ?thesis unfolding asks_under_def by (intro exI [of _ "commits_path repo name"]) (simp add: api_request_def)
qed

text \<open>
  C35: a ref that follows the grammar never takes a request outside its repository: for a repository
  that passes \<^verbatim>\<open>repoProblem\<close> and a named ref, resolving it sends at most one request, and the path the
  URL class makes of it lies under \<^verbatim>\<open>/repos/<owner>/<name>/commits/\<close>.
\<close>

theorem reference_stays_in_repository:
  assumes "repositoryProblem repo = None"
  shows "\<exists>sent. gh_sent (snd (resolveReference env access repo (Some r) w)) = gh_sent w @ sent \<and> length sent \<le> 1 \<and>
    list_all (asks_under (''/repos/'' @ repo @ ''/commits/'')) sent"
proof (cases "parseReference (Some r)")
  case None
  then show ?thesis by (simp add: resolveReference_def)
next
  case (Some spec)
  have one: "list_all (asks_under (''/repos/'' @ repo @ ''/commits/'')) [api_request access (commits_path repo name) SHA_MEDIA_TYPE]"
    if "commit_name_ok name" for name using commit_asks_under [OF assms that] by simp
  have "(\<exists>name. spec = RefName name \<and> commit_name_ok name) \<or> (\<exists>n. spec = RefPull n) \<or> (\<exists>sha. spec = RefCommit sha)"
    using Some reference_name_ok by (auto simp: parseReference_def split: option.splits if_splits)
  then show ?thesis
    using Some one one [OF pull_head_ok] by (elim disjE exE conjE) (auto simp: resolveReference_def split_beta commitOf_sent)
qed

text \<open>
  The name of the default branch is GitHub's own and is not held to that grammar: one made of dots
  and slashes takes the second request out of the repository.
\<close>

definition dotted_branch :: string where
  "dotted_branch = ''../../../../user''"

definition dotted_env :: GitHubEnv where
  "dotted_env =
     \<lparr>gh_fetch = (\<lambda>_ _. ok \<lparr>resp_status = 200, resp_location = None, resp_body = Some ([''{}''], None)\<rparr>),
      gh_aborted = (\<lambda>_. False), gh_parse_url = (\<lambda>_. None),
      gh_parse_json = (\<lambda>_. Some (JObject [(''full_name'', JString ''o/n''), (''default_branch'', JString dotted_branch)])),
      gh_scrub = (\<lambda>t. t)\<rparr>"

definition plain_access :: GitHubAccess where
  "plain_access =
     \<lparr>gh_api_address = ''192.0.2.1'', gh_archive_address = ''192.0.2.2'', gh_token = Some ''t'', gh_user_agent = ''vaultgate''\<rparr>"

lemma dotted_read: "readCapped ([''{}''], None) = ok (Some ''{}'')"
proof -
  have "utf8_decode ''{}'' = ''{}''" by code_simp
  then show ?thesis by (simp add: readCapped_def MAX_BODY_BYTES_def)
qed

lemma default_branch_unchecked:
  "map fetch_url (gh_sent (snd (resolveReference dotted_env plain_access ''o/n'' None \<lparr>gh_sent = [], gh_captured = []\<rparr>))) =
     [''https://api.github.com/repos/o/n'', ''https://api.github.com/repos/o/n/commits/../../../../user'']"
  "map_option url_pathname (url_under ''/repos/o/n/commits/../../../../user'' base) = Some ''/user''"
proof -
  have c: "encodePath ''o/n'' = ''o/n''" "encodePath dotted_branch = dotted_branch" by code_simp+
  have r: "repo_step dotted_env plain_access ''o/n'' e w =
    (ok \<lparr>ra_full_name = ''o/n'', ra_default_branch = dotted_branch, ra_visibility = None, ra_private = None\<rparr>,
     w\<lparr>gh_sent := gh_sent w @ [api_request plain_access (repo_path ''o/n'') JSON_MEDIA_TYPE]\<rparr>)" for e w
    by (simp add: repo_step_def github_step_def apiText_def apiGet_def gh_send_def dotted_env_def dotted_read jsonOf_def
        repoSchema_def string_field_def optional_string_def optional_bool_def property_of_def dotted_branch_def
        ok_def fail_def and_then_def)
  show "map fetch_url (gh_sent (snd (resolveReference dotted_env plain_access ''o/n'' None \<lparr>gh_sent = [], gh_captured = []\<rparr>))) =
     [''https://api.github.com/repos/o/n'', ''https://api.github.com/repos/o/n/commits/../../../../user'']"
    using c by (simp add: resolveReference_def parseReference_def defaultBranchOf_def r split_beta commitOf_sent ok_def
        api_request_def repo_path_def commits_path_def GITHUB_API_HOST_def dotted_branch_def)
  show "map_option url_pathname (url_under ''/repos/o/n/commits/../../../../user'' base) = Some ''/user''"
    by (simp add: url_under_def Let_def before_first_def from_first_def url_output_def url_dot_def url_dot_dot_def
        ascii_lower_def is_upper_def char_code_def serialise_path_def encode_with_def path_encoded_def)
qed

lemma reference_stays_in_repository_witness:
  "\<exists>sent. gh_sent (snd (resolveReference dotted_env plain_access ''octo/demo'' (Some ''feature/./x'') \<lparr>gh_sent = [], gh_captured = []\<rparr>)) = sent \<and>
     length sent \<le> 1 \<and> list_all (asks_under ''/repos/octo/demo/commits/'') sent"
proof -
  have "repositoryProblem ''octo/demo'' = None" by code_simp
  from reference_stays_in_repository [OF this, of dotted_env plain_access "''feature/./x''" "\<lparr>gh_sent = [], gh_captured = []\<rparr>"]
  show ?thesis by simp
qed

end
