(* ===== verification/CodeBuilds.thy ===== *)
theory CodeBuilds
  imports CodeDocs "HOL-Library.Multiset"
begin

text \<open>
  Which builds run at once (\<^verbatim>\<open>src/actions/connectors/code/build-slots.ts\<close>) and one build per key
  (\<^verbatim>\<open>build-flight.ts\<close>), as a state machine: what a caller, a finished download or a forgotten target
  does to the slots and to the flights, one turn of the event loop at a time.

  A flight is numbered as it is launched. Its promise of a slot is pending (\<open>Waits\<close>), resolved with
  the code after it still to run (\<open>Granted\<close>), or behind it with the download under way (\<open>Runs\<close>); at
  the end it has told \<^verbatim>\<open>finished\<close> (\<open>Ended\<close>).
\<close>

section \<open>Requests\<close>

datatype Trigger = by_save | by_operator_press | by_call

record BuildRequest =
  br_target :: string
  br_name :: string
  br_documents :: CodeDocuments
  br_commit :: string
  br_ref :: string
  br_trigger :: Trigger
  br_variants :: "ContentType list list"
  br_configured :: bool

record Skipped =
  skipped_links :: nat
  skipped_special :: nat
  skipped_excluded :: nat
  skipped_large :: nat

text \<open>What vaultgate reads of a snapshot: the chunks by variant.\<close>

record SnapshotMeta =
  sm_created_at :: int
  sm_files :: nat
  sm_skipped :: Skipped
  sm_variant_chunks :: "(string \<times> nat) list"

text \<open>The snapshot, or the reason there is none.\<close>

type_synonym BuildOutcome = "(SnapshotMeta, string) result"

record BuildEnd =
  be_duration :: int
  be_abandoned :: bool

definition build_key :: "Sha256 \<Rightarrow> BuildRequest \<Rightarrow> string" where
  "build_key sha q = snapshotKey (br_target q) (extractionFingerprint sha (br_documents q)) (br_commit q)"

section \<open>Slots\<close>

record BuildLimits =
  lim_total :: nat
  lim_per_target :: nat

definition BUILD_LIMITS :: BuildLimits where "BUILD_LIMITS = \<lparr>lim_total = 4, lim_per_target = 2\<rparr>"
definition BUILD_RETRY_AFTER_S :: nat where "BUILD_RETRY_AFTER_S = 30"

text \<open>
  \<^verbatim>\<open>running\<close>, the map \<^verbatim>\<open>named\<close> as a count per target, and \<^verbatim>\<open>waiting\<close>: the flights whose promise the
  stored functions resolve.
\<close>

record Slots =
  slots_running :: nat
  slots_named :: "string \<Rightarrow> nat"
  slots_waiting :: "nat list"

definition new_build_slots :: Slots where
  "new_build_slots = \<lparr>slots_running = 0, slots_named = (\<lambda>_. 0), slots_waiting = []\<rparr>"

text \<open>\<^verbatim>\<open>tryTake\<close>: the slots with one taken, or \<open>None\<close> past a cap.\<close>

definition tryTake :: "BuildLimits \<Rightarrow> string \<Rightarrow> Slots \<Rightarrow> Slots option" where
  "tryTake lims targetId s =
     (if lim_total lims \<le> slots_running s \<or> lim_per_target lims \<le> slots_named s targetId then None
      else Some (s\<lparr>slots_running := slots_running s + 1, slots_named := (slots_named s)(targetId := slots_named s targetId + 1)\<rparr>))"

text \<open>\<^verbatim>\<open>take\<close> for a flight: whether its promise is resolved at once.\<close>

definition take_slot :: "BuildLimits \<Rightarrow> nat \<Rightarrow> Slots \<Rightarrow> bool \<times> Slots" where
  "take_slot lims f s =
     (if slots_running s < lim_total lims then (True, s\<lparr>slots_running := slots_running s + 1\<rparr>)
      else (False, s\<lparr>slots_waiting := slots_waiting s @ [f]\<rparr>))"

text \<open>
  A release, called once: the count of the target a named build gives back, and the flight that takes
  the slot over, if one waits.
\<close>

definition release_slot :: "string option \<Rightarrow> Slots \<Rightarrow> nat option \<times> Slots" where
  "release_slot named s =
     (let s1 = (case named of None \<Rightarrow> s | Some t \<Rightarrow> s\<lparr>slots_named := (slots_named s)(t := slots_named s t - 1)\<rparr>) in
      case slots_waiting s1 of
        [] \<Rightarrow> (None, s1\<lparr>slots_running := slots_running s1 - 1\<rparr>)
      | f # rest \<Rightarrow> (Some f, s1\<lparr>slots_waiting := rest\<rparr>))"

section \<open>Flights\<close>

datatype Phase = Waits | Granted | Runs int | Ended

record Flight =
  fl_request :: BuildRequest
  fl_named :: bool
  fl_phase :: Phase
  fl_abandoned :: bool

record BuildsState =
  bs_slots :: Slots
  bs_flights :: "Flight list"
  bs_running :: "(string \<times> nat) list"
  bs_finished :: "(nat \<times> BuildOutcome \<times> BuildEnd) list"

definition new_builds :: BuildsState where
  "new_builds = \<lparr>bs_slots = new_build_slots, bs_flights = [], bs_running = [], bs_finished = []\<rparr>"

definition NEVER_STARTED :: BuildOutcome where "NEVER_STARTED = fail ''target_changed''"

text \<open>\<^verbatim>\<open>launch\<close>: the entry put under its key, with the slot promise as it is.\<close>

definition launch :: "Sha256 \<Rightarrow> BuildRequest \<Rightarrow> bool \<Rightarrow> Phase \<Rightarrow> Slots \<Rightarrow> BuildsState \<Rightarrow> nat \<times> BuildsState" where
  "launch sha q named phase slots s =
     (let f = length (bs_flights s) in
      (f, s\<lparr>bs_slots := slots,
           bs_flights := bs_flights s @ [\<lparr>fl_request = q, fl_named = named, fl_phase = phase, fl_abandoned = False\<rparr>],
           bs_running := AList.update (build_key sha q) f (bs_running s)\<rparr>))"

text \<open>\<^verbatim>\<open>start\<close>: the flight the caller waits for, which it joined or launched.\<close>

definition start_build :: "Sha256 \<Rightarrow> BuildLimits \<Rightarrow> BuildRequest \<Rightarrow> BuildsState \<Rightarrow> nat \<times> BuildsState" where
  "start_build sha lims q s =
     (case map_of (bs_running s) (build_key sha q) of
        Some f \<Rightarrow> (f, s)
      | None \<Rightarrow>
          (case take_slot lims (length (bs_flights s)) (bs_slots s) of (resolved, slots) \<Rightarrow>
             launch sha q False (if resolved then Granted else Waits) slots s))"

text \<open>\<^verbatim>\<open>tryStart\<close>: \<open>None\<close> is \<^verbatim>\<open>BUSY\<close>.\<close>

definition try_start :: "Sha256 \<Rightarrow> BuildLimits \<Rightarrow> BuildRequest \<Rightarrow> BuildsState \<Rightarrow> nat option \<times> BuildsState" where
  "try_start sha lims q s =
     (case map_of (bs_running s) (build_key sha q) of
        Some f \<Rightarrow> (Some f, s)
      | None \<Rightarrow>
          (case tryTake lims (br_target q) (bs_slots s) of
             None \<Rightarrow> (None, s)
           | Some slots \<Rightarrow> apfst Some (launch sha q True Granted slots s)))"

definition set_phase :: "nat \<Rightarrow> Phase \<Rightarrow> BuildsState \<Rightarrow> BuildsState" where
  "set_phase f phase s = s\<lparr>bs_flights := (bs_flights s)[f := (bs_flights s ! f)\<lparr>fl_phase := phase\<rparr>]\<rparr>"

text \<open>
  What follows the build: the slot given back, the entry taken off its key if it is still there, and
  \<^verbatim>\<open>finished\<close> told.
\<close>

definition end_flight :: "Sha256 \<Rightarrow> nat \<Rightarrow> BuildOutcome \<Rightarrow> int \<Rightarrow> BuildsState \<Rightarrow> BuildsState" where
  "end_flight sha f outcome duration s =
     (let flight = bs_flights s ! f;
          key = build_key sha (fl_request flight)
      in case release_slot (if fl_named flight then Some (br_target (fl_request flight)) else None) (bs_slots s) of (next_up, slots) \<Rightarrow>
           (let s1 = set_phase f Ended (s\<lparr>bs_slots := slots\<rparr>);
                s2 = (case next_up of None \<Rightarrow> s1 | Some g \<Rightarrow> set_phase g Granted s1)
            in s2\<lparr>bs_running := (if map_of (bs_running s2) key = Some f then AList.delete key (bs_running s2) else bs_running s2),
                 bs_finished := bs_finished s2 @ [(f, outcome, \<lparr>be_duration = duration, be_abandoned = fl_abandoned flight\<rparr>)]\<rparr>))"

text \<open>The code after \<^verbatim>\<open>await work.slot\<close>: an abandoned flight ends there and then.\<close>

definition begin_flight :: "Sha256 \<Rightarrow> nat \<Rightarrow> int \<Rightarrow> int \<Rightarrow> BuildsState \<Rightarrow> BuildsState" where
  "begin_flight sha f startedAt moment s =
     (if fl_abandoned (bs_flights s ! f) then end_flight sha f NEVER_STARTED (moment - startedAt) s else set_phase f (Runs startedAt) s)"

text \<open>The end of a download: what \<^verbatim>\<open>attempt\<close> makes of a build that threw is an outcome too.\<close>

definition attempt_outcome :: "BuildOutcome option \<Rightarrow> BuildOutcome" where
  "attempt_outcome built = (case built of None \<Rightarrow> fail ''connector_fault'' | Some outcome \<Rightarrow> outcome)"

definition settle_flight :: "Sha256 \<Rightarrow> nat \<Rightarrow> BuildOutcome option \<Rightarrow> int \<Rightarrow> int \<Rightarrow> BuildsState \<Rightarrow> BuildsState" where
  "settle_flight sha f built startedAt moment s = end_flight sha f (attempt_outcome built) (moment - startedAt) s"

definition targets_flight :: "string \<Rightarrow> BuildsState \<Rightarrow> nat \<Rightarrow> bool" where
  "targets_flight targetId s f \<longleftrightarrow> br_target (fl_request (bs_flights s ! f)) = targetId"

definition isBuilding :: "string \<Rightarrow> BuildsState \<Rightarrow> bool" where
  "isBuilding targetId s \<longleftrightarrow> list_ex (\<lambda>(key, f). targets_flight targetId s f) (bs_running s)"

definition forget_builds :: "string \<Rightarrow> BuildsState \<Rightarrow> BuildsState" where
  "forget_builds targetId s =
     (let mine = filter (\<lambda>(key, f). targets_flight targetId s f) (bs_running s) in
      s\<lparr>bs_flights := fold (\<lambda>(key, f) fs. fs[f := (fs ! f)\<lparr>fl_abandoned := True\<rparr>]) mine (bs_flights s),
        bs_running := filter (\<lambda>(key, f). \<not> targets_flight targetId s f) (bs_running s)\<rparr>)"

section \<open>The machine\<close>

definition phase_of :: "BuildsState \<Rightarrow> nat \<Rightarrow> Phase option" where
  "phase_of s f = (if f < length (bs_flights s) then Some (fl_phase (bs_flights s ! f)) else None)"

inductive build_step :: "Sha256 \<Rightarrow> BuildLimits \<Rightarrow> BuildsState \<Rightarrow> BuildsState \<Rightarrow> bool"
  for sha lims where
  Start: "build_step sha lims s (snd (start_build sha lims q s))"
| TryStart: "build_step sha lims s (snd (try_start sha lims q s))"
| Begin: "phase_of s f = Some Granted \<Longrightarrow> build_step sha lims s (begin_flight sha f startedAt moment s)"
| Settle: "phase_of s f = Some (Runs startedAt) \<Longrightarrow> build_step sha lims s (settle_flight sha f built startedAt moment s)"
| Forget: "build_step sha lims s (forget_builds targetId s)"

inductive_cases build_stepE: "build_step sha lims s s'"

end
