(* ===== verification/CodeBuildsSafety.thy ===== *)
theory CodeBuildsSafety
  imports CodeBuilds
begin

text \<open>
  What the slots and the flights keep in every reachable state: the caps, one live build for a key,
  one \<^verbatim>\<open>finished\<close> for a build; and that every build that was started ends once the downloads do.
\<close>

section \<open>The invariant\<close>

definition holds :: "Flight \<Rightarrow> bool" where
  "holds x \<longleftrightarrow> (case fl_phase x of Granted \<Rightarrow> True | Runs _ \<Rightarrow> True | _ \<Rightarrow> False)"

definition holds_named :: "string \<Rightarrow> Flight \<Rightarrow> bool" where
  "holds_named t x \<longleftrightarrow> holds x \<and> fl_named x \<and> br_target (fl_request x) = t"

definition live_flight :: "Flight \<Rightarrow> bool" where
  "live_flight x \<longleftrightarrow> fl_phase x \<noteq> Ended \<and> \<not> fl_abandoned x"

definition flight_key :: "Sha256 \<Rightarrow> Flight \<Rightarrow> string" where
  "flight_key sha x = build_key sha (fl_request x)"

definition slots_ok :: "BuildLimits \<Rightarrow> Flight list \<Rightarrow> Slots \<Rightarrow> bool" where
  "slots_ok lims fs sl \<longleftrightarrow>
     slots_running sl = length (filter holds fs) \<and> slots_running sl \<le> lim_total lims \<and>
     (slots_waiting sl \<noteq> [] \<longrightarrow> slots_running sl = lim_total lims) \<and> distinct (slots_waiting sl) \<and>
     (\<forall>f. f \<in> set (slots_waiting sl) \<longleftrightarrow> f < length fs \<and> fl_phase (fs ! f) = Waits) \<and>
     (\<forall>t. slots_named sl t = length (filter (holds_named t) fs) \<and> slots_named sl t \<le> lim_per_target lims) \<and>
     (\<forall>f < length fs. fl_named (fs ! f) \<longrightarrow> fl_phase (fs ! f) \<noteq> Waits)"

definition keys_ok :: "Sha256 \<Rightarrow> Flight list \<Rightarrow> (string \<times> nat) list \<Rightarrow> bool" where
  "keys_ok sha fs running \<longleftrightarrow>
     distinct (map fst running) \<and>
     (\<forall>k f. (k, f) \<in> set running \<longleftrightarrow> f < length fs \<and> live_flight (fs ! f) \<and> flight_key sha (fs ! f) = k)"

definition log_ok :: "Flight list \<Rightarrow> (nat \<times> 'a) list \<Rightarrow> bool" where
  "log_ok fs finished \<longleftrightarrow>
     distinct (map fst finished) \<and> (\<forall>f. f \<in> set (map fst finished) \<longleftrightarrow> f < length fs \<and> fl_phase (fs ! f) = Ended)"

definition builds_inv :: "Sha256 \<Rightarrow> BuildLimits \<Rightarrow> BuildsState \<Rightarrow> bool" where
  "builds_inv sha lims s \<longleftrightarrow>
     slots_ok lims (bs_flights s) (bs_slots s) \<and> keys_ok sha (bs_flights s) (bs_running s) \<and>
     log_ok (bs_flights s) (bs_finished s)"

lemma builds_inv_new: "builds_inv sha lims new_builds"
  by (simp add: builds_inv_def slots_ok_def keys_ok_def log_ok_def new_builds_def new_build_slots_def)

lemma filter_update:
  "f < length xs \<Longrightarrow>
   length (filter P (xs[f := x])) + (if P (xs ! f) then 1 else 0) = length (filter P xs) + (if P x then 1 else 0)"
  by (subst (3) id_take_nth_drop, assumption) (simp add: upd_conv_take_nth_drop)

lemma nth_append_one: "f < Suc (length fs) \<Longrightarrow> (fs @ [x]) ! f = (if f = length fs then x else fs ! f)"
  by (auto simp: nth_append)

section \<open>Launching\<close>

lemma slots_ok_new:
  assumes "slots_ok lims fs sl" and "take_slot lims (length fs) sl = (resolved, sl')"
  shows "slots_ok lims (fs @ [\<lparr>fl_request = q, fl_named = False, fl_phase = (if resolved then Granted else Waits), fl_abandoned = False\<rparr>]) sl'"
  using assms unfolding slots_ok_def take_slot_def
  by (auto simp: holds_def holds_named_def nth_append_one less_Suc_eq split: if_splits)

lemma slots_ok_named:
  assumes "slots_ok lims fs sl" and "tryTake lims (br_target q) sl = Some sl'"
  shows "slots_ok lims (fs @ [\<lparr>fl_request = q, fl_named = True, fl_phase = Granted, fl_abandoned = False\<rparr>]) sl'"
  using assms unfolding slots_ok_def tryTake_def
  by (auto simp: holds_def holds_named_def nth_append_one less_Suc_eq split: if_splits)

lemma keys_ok_new:
  assumes "keys_ok sha fs running" and "map_of running (build_key sha q) = None" and "phase \<noteq> Ended"
  shows "keys_ok sha (fs @ [\<lparr>fl_request = q, fl_named = b, fl_phase = phase, fl_abandoned = False\<rparr>])
    (AList.update (build_key sha q) (length fs) running)"
proof -
  have fresh: "build_key sha q \<notin> fst ` set running" using assms(2) by (simp add: map_of_eq_None_iff)
  then have "AList.update (build_key sha q) (length fs) running = running @ [(build_key sha q, length fs)]"
    by (induction running) auto
  with assms fresh show ?thesis
    by (auto simp: keys_ok_def live_flight_def flight_key_def nth_append_one less_Suc_eq)
qed

lemma log_ok_new: "log_ok fs finished \<Longrightarrow> fl_phase x \<noteq> Ended \<Longrightarrow> log_ok (fs @ [x]) finished"
  by (auto simp: log_ok_def nth_append_one less_Suc_eq)

lemma inv_start: "builds_inv sha lims s \<Longrightarrow> builds_inv sha lims (snd (start_build sha lims q s))"
proof (cases "map_of (bs_running s) (build_key sha q)")
  case None
  assume inv: "builds_inv sha lims s"
  obtain resolved sl where t: "take_slot lims (length (bs_flights s)) (bs_slots s) = (resolved, sl)" by fastforce
  have "slots_ok lims (bs_flights s) (bs_slots s)" using inv by (simp add: builds_inv_def)
  from slots_ok_new [OF this t, of q] inv None t show ?thesis
    by (auto simp: builds_inv_def start_build_def launch_def Let_def intro: keys_ok_new log_ok_new)
qed (simp add: start_build_def)

lemma inv_try_start: "builds_inv sha lims s \<Longrightarrow> builds_inv sha lims (snd (try_start sha lims q s))"
  by (auto simp: builds_inv_def try_start_def launch_def Let_def intro: slots_ok_named keys_ok_new log_ok_new split: option.splits)

section \<open>Ending\<close>

text \<open>What \<^verbatim>\<open>release\<close> leaves, with the flight that takes the slot over.\<close>

definition ended_flights :: "nat \<Rightarrow> nat option \<Rightarrow> Flight list \<Rightarrow> Flight list" where
  "ended_flights f next_up fs =
     (let fs1 = fs[f := (fs ! f)\<lparr>fl_phase := Ended\<rparr>] in
      case next_up of None \<Rightarrow> fs1 | Some g \<Rightarrow> fs1[g := (fs1 ! g)\<lparr>fl_phase := Granted\<rparr>])"

lemma end_flight_parts:
  assumes "release_slot (if fl_named (bs_flights s ! f) then Some (br_target (fl_request (bs_flights s ! f))) else None) (bs_slots s) = (next_up, sl)"
  shows "bs_slots (end_flight sha f outcome d s) = sl"
    "bs_flights (end_flight sha f outcome d s) = ended_flights f next_up (bs_flights s)"
    "bs_running (end_flight sha f outcome d s) =
       (if map_of (bs_running s) (flight_key sha (bs_flights s ! f)) = Some f
        then AList.delete (flight_key sha (bs_flights s ! f)) (bs_running s) else bs_running s)"
    "map fst (bs_finished (end_flight sha f outcome d s)) = map fst (bs_finished s) @ [f]"
  using assms
  by (simp_all add: end_flight_def Let_def set_phase_def ended_flights_def flight_key_def split: option.splits)

lemma ended_nth:
  "\<lbrakk>f < length fs; x < length fs; (case next_up of None \<Rightarrow> True | Some g \<Rightarrow> g < length fs \<and> g \<noteq> f)\<rbrakk> \<Longrightarrow>
   ended_flights f next_up fs ! x =
     (if x = f then (fs ! f)\<lparr>fl_phase := Ended\<rparr> else if next_up = Some x then (fs ! x)\<lparr>fl_phase := Granted\<rparr> else fs ! x)"
  by (auto simp: ended_flights_def Let_def nth_list_update split: option.splits)

lemma length_ended [simp]: "length (ended_flights f next_up fs) = length fs"
  by (simp add: ended_flights_def Let_def split: option.splits)

lemma slots_ok_end:
  assumes ok: "slots_ok lims fs sl" and f: "f < length fs" "holds (fs ! f)"
    and r: "release_slot (if fl_named (fs ! f) then Some (br_target (fl_request (fs ! f))) else None) sl = (next_up, sl')"
  shows "slots_ok lims (ended_flights f next_up fs) sl'" "case next_up of None \<Rightarrow> True | Some g \<Rightarrow> g < length fs \<and> g \<noteq> f \<and> fl_phase (fs ! g) = Waits"
proof -
  let ?e = "(fs ! f)\<lparr>fl_phase := Ended\<rparr>"
  let ?fs = "fs[f := ?e]"
  have running: "length (filter holds ?fs) + 1 = length (filter holds fs)"
    using filter_update [OF f(1), of holds ?e] f(2) by (simp add: holds_def)
  have named: "length (filter (holds_named t) ?fs) + (if fl_named (fs ! f) \<and> br_target (fl_request (fs ! f)) = t then 1 else 0)
      = length (filter (holds_named t) fs)" for t
    using filter_update [OF f(1), of "holds_named t" ?e] f(2) by (simp add: holds_named_def holds_def)
  have sl': "slots_named sl' t + (if fl_named (fs ! f) \<and> br_target (fl_request (fs ! f)) = t then 1 else 0) = slots_named sl t" for t
  proof -
    have "slots_named sl t = length (filter (holds_named t) fs)" using ok by (simp add: slots_ok_def)
    then have "(if fl_named (fs ! f) \<and> br_target (fl_request (fs ! f)) = t then 1 else 0) \<le> slots_named sl t"
      using named [of t] by linarith
    then show ?thesis using r by (auto simp: release_slot_def Let_def split: list.splits if_splits)
  qed
  have not_waiting: "f \<notin> set (slots_waiting sl)" using ok f by (auto simp: slots_ok_def holds_def)
  show "case next_up of None \<Rightarrow> True | Some g \<Rightarrow> g < length fs \<and> g \<noteq> f \<and> fl_phase (fs ! g) = Waits"
  proof (cases next_up)
    case (Some g)
    then have "g \<in> set (slots_waiting sl)"
      using r by (auto simp: release_slot_def Let_def split: list.splits if_splits)
    moreover from this not_waiting have "g \<noteq> f" by blast
    ultimately show ?thesis using ok Some by (simp add: slots_ok_def)
  qed simp
  show "slots_ok lims (ended_flights f next_up fs) sl'"
  proof (cases next_up)
    case None
    then have w: "slots_waiting sl = []" "slots_waiting sl' = []" "slots_running sl' = slots_running sl - 1"
      using r by (auto simp: release_slot_def Let_def split: list.splits if_splits)
    have fs': "ended_flights f None fs = ?fs" by (simp add: ended_flights_def)
    show ?thesis
      unfolding None fs' slots_ok_def
    proof (intro conjI allI impI)
      show "slots_named sl' t = length (filter (holds_named t) ?fs)" "slots_named sl' t \<le> lim_per_target lims" for t
        using sl' [of t] named [of t] ok unfolding slots_ok_def by (metis add_right_cancel) (metis sl' ok slots_ok_def le_add1 le_trans)
      show "(x \<in> set (slots_waiting sl')) = (x < length ?fs \<and> fl_phase (?fs ! x) = Waits)" for x
        using ok w f(1) by (auto simp: slots_ok_def nth_list_update)
    qed (use ok w running f(1) in \<open>auto simp: slots_ok_def nth_list_update\<close>)
  next
    case (Some g)
    then have w: "slots_waiting sl = g # slots_waiting sl'" "slots_running sl' = slots_running sl"
      using r by (auto simp: release_slot_def Let_def split: list.splits if_splits)
    then have g: "g < length fs" "fl_phase (fs ! g) = Waits" "g \<noteq> f" "\<not> fl_named (fs ! g)"
      using ok not_waiting by (auto simp: slots_ok_def)
    let ?g = "(fs ! g)\<lparr>fl_phase := Granted\<rparr>"
    have fs': "ended_flights f (Some g) fs = ?fs[g := ?g]" using g by (simp add: ended_flights_def)
    have nth: "?fs ! g = fs ! g" using g by simp
    have run': "length (filter holds (?fs[g := ?g])) = length (filter holds fs)"
      using filter_update [of g ?fs holds ?g] running g by (simp add: holds_def)
    have named': "length (filter (holds_named t) (?fs[g := ?g])) = length (filter (holds_named t) ?fs)" for t
      using filter_update [of g ?fs "holds_named t" ?g] g by (simp add: holds_named_def)
    show ?thesis
      unfolding Some fs' slots_ok_def
    proof (intro conjI allI impI)
      show "slots_named sl' t = length (filter (holds_named t) (?fs[g := ?g]))" "slots_named sl' t \<le> lim_per_target lims" for t
        using sl' [of t] named [of t] named' [of t] ok unfolding slots_ok_def
        by (metis add_right_cancel) (metis sl' ok slots_ok_def le_add1 le_trans)
      show "(x \<in> set (slots_waiting sl')) = (x < length (?fs[g := ?g]) \<and> fl_phase (?fs[g := ?g] ! x) = Waits)" for x
        using ok w g f by (auto simp: slots_ok_def nth_list_update holds_def)
    qed (use ok w run' g f in \<open>auto simp: slots_ok_def nth_list_update\<close>)
  qed
qed

lemma keys_map_of: "keys_ok sha fs running \<Longrightarrow> map_of running k = Some f \<longleftrightarrow> f < length fs \<and> live_flight (fs ! f) \<and> flight_key sha (fs ! f) = k"
  by (auto simp: keys_ok_def map_of_eq_Some_iff)

lemma keys_unique:
  "\<lbrakk>keys_ok sha fs running; f < length fs; g < length fs; live_flight (fs ! f); live_flight (fs ! g);
    flight_key sha (fs ! f) = flight_key sha (fs ! g)\<rbrakk> \<Longrightarrow> f = g"
  using keys_map_of [of sha fs running "flight_key sha (fs ! g)" f] keys_map_of [of sha fs running "flight_key sha (fs ! g)" g]
  by simp

lemma inv_end:
  assumes inv: "builds_inv sha lims s" and f: "f < length (bs_flights s)" "holds (bs_flights s ! f)"
  shows "builds_inv sha lims (end_flight sha f outcome d s)"
proof -
  let ?fs = "bs_flights s"
  obtain next_up sl where r:
    "release_slot (if fl_named (?fs ! f) then Some (br_target (fl_request (?fs ! f))) else None) (bs_slots s) = (next_up, sl)"
    by fastforce
  note parts = end_flight_parts [OF r, of sha outcome d]
  have ok: "slots_ok lims ?fs (bs_slots s)" and keys: "keys_ok sha ?fs (bs_running s)" and log: "log_ok ?fs (bs_finished s)"
    using inv by (simp_all add: builds_inv_def)
  note slots = slots_ok_end [OF ok f r]
  have next_ok: "case next_up of None \<Rightarrow> True | Some g \<Rightarrow> g < length ?fs \<and> g \<noteq> f" using slots(2) by (auto split: option.splits)
  note nth = ended_nth [OF f(1) _ next_ok]
  have phases: "fl_phase (ended_flights f next_up ?fs ! x) = Ended \<longleftrightarrow> x = f \<or> fl_phase (?fs ! x) = Ended" if "x < length ?fs" for x
    using nth [OF that] slots(2) by (auto split: option.splits)
  have lives: "live_flight (ended_flights f next_up ?fs ! x) \<longleftrightarrow> x \<noteq> f \<and> live_flight (?fs ! x)" if "x < length ?fs" for x
    using nth [OF that] slots(2) by (auto simp: live_flight_def split: option.splits)
  have same_key: "flight_key sha (ended_flights f next_up ?fs ! x) = flight_key sha (?fs ! x)" if "x < length ?fs" for x
    using nth [OF that] by (simp add: flight_key_def)
  have "log_ok (ended_flights f next_up ?fs) (bs_finished (end_flight sha f outcome d s))"
    using log f phases unfolding log_ok_def parts(4) by (auto simp: holds_def)
  moreover have "keys_ok sha (ended_flights f next_up ?fs) (bs_running (end_flight sha f outcome d s))"
  proof -
    have "distinct (map fst (bs_running s))" using keys by (simp add: keys_ok_def)
    then have d: "(k, x) \<in> set (AList.delete key (bs_running s)) \<longleftrightarrow> (k, x) \<in> set (bs_running s) \<and> k \<noteq> key" for k x key
      by (auto simp: AList.delete_eq)
    have "distinct (map fst (AList.delete key (bs_running s)))" for key
      using keys by (simp add: keys_ok_def AList.distinct_delete)
    moreover have "x = f" if "x < length ?fs" "live_flight (?fs ! x)" "flight_key sha (?fs ! x) = flight_key sha (?fs ! f)"
        "live_flight (?fs ! f)" for x
      using keys_unique [OF keys that(1) f(1) that(2,4,3)] .
    ultimately show ?thesis
      using keys f(1) lives same_key keys_map_of [OF keys, of "flight_key sha (?fs ! f)" f] unfolding keys_ok_def parts(3)
      by (auto simp: d)
  qed
  ultimately show ?thesis using slots(1) by (simp add: builds_inv_def parts(1,2))
qed

section \<open>Forgetting\<close>

lemma fold_abandon:
  "set (map snd mine) \<subseteq> {..<length fs} \<Longrightarrow>
   length (fold (\<lambda>(key, f) fs. fs[f := (fs ! f)\<lparr>fl_abandoned := True\<rparr>]) mine fs) = length fs \<and>
   (\<forall>x < length fs. fold (\<lambda>(key, f) fs. fs[f := (fs ! f)\<lparr>fl_abandoned := True\<rparr>]) mine fs ! x =
      (if x \<in> snd ` set mine then (fs ! x)\<lparr>fl_abandoned := True\<rparr> else fs ! x))"
proof (induction mine arbitrary: fs)
  case (Cons p mine)
  obtain key f where p: "p = (key, f)" by (cases p)
  from Cons.prems have f: "f < length fs" and sub: "set (map snd mine) \<subseteq> {..<length (fs[f := (fs ! f)\<lparr>fl_abandoned := True\<rparr>])}"
    by (simp_all add: p)
  from Cons.IH [OF sub] f show ?case by (auto simp: p nth_list_update)
qed simp

lemma filter_same:
  assumes "length xs = length ys" "\<forall>x < length ys. P (xs ! x) = P (ys ! x)"
  shows "length (filter P xs) = length (filter P ys)"
proof -
  have "map P xs = map P ys" using assms by (simp add: list_eq_iff_nth_eq)
  then have "length (filter id (map P xs)) = length (filter id (map P ys))" by simp
  then show ?thesis by (simp add: filter_map comp_def id_def)
qed

lemma inv_forget: "builds_inv sha lims s \<Longrightarrow> builds_inv sha lims (forget_builds t s)"
proof -
  assume inv: "builds_inv sha lims s"
  let ?fs = "bs_flights s" and ?fs' = "bs_flights (forget_builds t s)"
  let ?mine = "filter (\<lambda>(key, f). targets_flight t s f) (bs_running s)"
  have keys: "keys_ok sha ?fs (bs_running s)" using inv by (simp add: builds_inv_def)
  then have sub: "set (map snd ?mine) \<subseteq> {..<length ?fs}" by (auto simp: keys_ok_def)
  have fs': "?fs' = fold (\<lambda>(key, f) fs. fs[f := (fs ! f)\<lparr>fl_abandoned := True\<rparr>]) ?mine ?fs"
    by (simp add: forget_builds_def Let_def)
  have mine: "x \<in> snd ` set ?mine \<longleftrightarrow> x < length ?fs \<and> live_flight (?fs ! x) \<and> targets_flight t s x" for x
    using keys by (auto simp: keys_ok_def image_iff)
  have len: "length ?fs' = length ?fs" using fold_abandon [OF sub] unfolding fs' by simp
  have nth: "?fs' ! x = (if live_flight (?fs ! x) \<and> targets_flight t s x then (?fs ! x)\<lparr>fl_abandoned := True\<rparr> else ?fs ! x)"
    if "x < length ?fs" for x
    using fold_abandon [OF sub] that mine [of x] unfolding fs' by simp
  have same: "fl_phase (?fs' ! x) = fl_phase (?fs ! x)" "fl_request (?fs' ! x) = fl_request (?fs ! x)"
    "fl_named (?fs' ! x) = fl_named (?fs ! x)" if "x < length ?fs" for x
    using nth [OF that] by simp_all
  have lives: "live_flight (?fs' ! x) \<longleftrightarrow> live_flight (?fs ! x) \<and> \<not> targets_flight t s x" if "x < length ?fs" for x
    using nth [OF that] by (auto simp: live_flight_def)
  have counts: "length (filter holds ?fs') = length (filter holds ?fs)"
    "length (filter (holds_named u) ?fs') = length (filter (holds_named u) ?fs)" for u
    by (rule filter_same; use len same in \<open>simp add: holds_def holds_named_def\<close>)+
  have rest: "bs_slots (forget_builds t s) = bs_slots s" "bs_finished (forget_builds t s) = bs_finished s"
    "bs_running (forget_builds t s) = filter (\<lambda>(key, f). \<not> targets_flight t s f) (bs_running s)"
    by (simp_all add: forget_builds_def Let_def)
  have "slots_ok lims ?fs' (bs_slots s)"
  proof -
    have "slots_ok lims ?fs (bs_slots s)" using inv by (simp add: builds_inv_def)
    then show ?thesis unfolding slots_ok_def counts len using same by (simp cong: conj_cong imp_cong)
  qed
  moreover have "keys_ok sha ?fs' (bs_running (forget_builds t s))"
    using keys lives same(2) unfolding keys_ok_def rest len flight_key_def by (auto simp: distinct_map_filter)
  moreover have "log_ok ?fs' (bs_finished s)"
    using inv same(1) unfolding builds_inv_def log_ok_def len by auto
  ultimately show ?thesis by (simp add: builds_inv_def rest(1,2))
qed

section \<open>Every step\<close>

lemma inv_phase:
  assumes inv: "builds_inv sha lims s" and f: "phase_of s f = Some Granted"
  shows "builds_inv sha lims (set_phase f (Runs m) s)"
proof -
  have f: "f < length (bs_flights s)" "fl_phase (bs_flights s ! f) = Granted" using f by (auto simp: phase_of_def split: if_splits)
  let ?x = "(bs_flights s ! f)\<lparr>fl_phase := Runs m\<rparr>"
  let ?fs = "bs_flights s" and ?fs' = "(bs_flights s)[f := ?x]"
  have counts: "length (filter holds ?fs') = length (filter holds ?fs)"
    "length (filter (holds_named t) ?fs') = length (filter (holds_named t) ?fs)" for t
    using filter_update [OF f(1), of holds ?x] filter_update [OF f(1), of "holds_named t" ?x] f(2)
    by (simp_all add: holds_def holds_named_def)
  have same: "fl_phase (?fs' ! x) = Waits \<longleftrightarrow> fl_phase (?fs ! x) = Waits" "fl_phase (?fs' ! x) = Ended \<longleftrightarrow> fl_phase (?fs ! x) = Ended"
    "fl_named (?fs' ! x) = fl_named (?fs ! x)" "live_flight (?fs' ! x) = live_flight (?fs ! x)"
    "flight_key sha (?fs' ! x) = flight_key sha (?fs ! x)" for x
    using f by (cases "x = f"; simp add: live_flight_def flight_key_def)+
  have ok: "slots_ok lims ?fs (bs_slots s)" "keys_ok sha ?fs (bs_running s)" "log_ok ?fs (bs_finished s)"
    using inv by (simp_all add: builds_inv_def)
  have "slots_ok lims ?fs' (bs_slots s)" using ok(1) unfolding slots_ok_def counts same length_list_update .
  moreover have "keys_ok sha ?fs' (bs_running s)" using ok(2) unfolding keys_ok_def same length_list_update .
  moreover have "log_ok ?fs' (bs_finished s)" using ok(3) unfolding log_ok_def same length_list_update .
  ultimately show ?thesis by (simp add: builds_inv_def set_phase_def)
qed

lemma phase_holds:
  "phase_of s f = Some Granted \<Longrightarrow> f < length (bs_flights s) \<and> holds (bs_flights s ! f)"
  "phase_of s f = Some (Runs m) \<Longrightarrow> f < length (bs_flights s) \<and> holds (bs_flights s ! f)"
  by (auto simp: phase_of_def holds_def split: if_splits)

lemma builds_inv_step: "build_step sha lims s s' \<Longrightarrow> builds_inv sha lims s \<Longrightarrow> builds_inv sha lims s'"
proof (induction rule: build_step.induct)
  case (Begin s f startedAt moment)
  then show ?case using inv_phase inv_end phase_holds(1) [of s f] by (simp add: begin_flight_def)
next
  case (Settle s f startedAt built moment)
  then show ?case using inv_end phase_holds(2) [of s f] by (simp add: settle_flight_def)
qed (simp_all add: inv_start inv_try_start inv_forget)

interpretation builds: invariant_system "build_step sha lims" "builds_inv sha lims" for sha lims
  by unfold_locales (rule builds_inv_step)

lemma builds_reachable: "(build_step sha lims)\<^sup>*\<^sup>* new_builds s \<Longrightarrow> builds_inv sha lims s"
  by (rule builds.reachable_inv [OF _ builds_inv_new])

section \<open>What every reachable state keeps\<close>

text \<open>
  in whatever order saves, calls, downloads and forgotten targets come, at most \<^verbatim>\<open>total\<close> builds
  hold a slot and at most \<^verbatim>\<open>perTarget\<close> of one target are builds of refs that calls named; and a build
  waits only while all the slots are held.
\<close>

theorem builds_capped:
  assumes "(build_step sha lims)\<^sup>*\<^sup>* new_builds s"
  shows "length (filter holds (bs_flights s)) \<le> lim_total lims \<and>
    length (filter (holds_named t) (bs_flights s)) \<le> lim_per_target lims \<and>
    (phase_of s f = Some Waits \<longrightarrow> length (filter holds (bs_flights s)) = lim_total lims)"
proof -
  have ok: "slots_ok lims (bs_flights s) (bs_slots s)" using builds_reachable [OF assms] by (simp add: builds_inv_def)
  moreover have "slots_waiting (bs_slots s) \<noteq> []" if "phase_of s f = Some Waits"
  proof -
    have "f < length (bs_flights s)" "fl_phase (bs_flights s ! f) = Waits" using that by (auto simp: phase_of_def split: if_splits)
    then have "f \<in> set (slots_waiting (bs_slots s))" using ok by (simp add: slots_ok_def)
    then show ?thesis by auto
  qed
  moreover have "length (filter (holds_named t) (bs_flights s)) \<le> lim_per_target lims"
    using ok unfolding slots_ok_def by metis
  ultimately show ?thesis by (auto simp: slots_ok_def)
qed

text \<open>
  C36: at any time at most one build of a key is live (not ended, its target not forgotten since), and
  \<^verbatim>\<open>finished\<close> has been told exactly once of every build that ended and of no other.
\<close>

theorem one_build_per_key:
  assumes "(build_step sha lims)\<^sup>*\<^sup>* new_builds s"
  shows "(f < length (bs_flights s) \<and> g < length (bs_flights s) \<and>
      live_flight (bs_flights s ! f) \<and> live_flight (bs_flights s ! g) \<and>
      flight_key sha (bs_flights s ! f) = flight_key sha (bs_flights s ! g) \<longrightarrow> f = g) \<and>
    distinct (map fst (bs_finished s)) \<and>
    (h \<in> set (map fst (bs_finished s)) \<longleftrightarrow> phase_of s h = Some Ended)"
  using builds_reachable [OF assms] keys_unique [of sha "bs_flights s" "bs_running s" f g]
  by (auto simp: builds_inv_def log_ok_def phase_of_def)

section \<open>Every build ends\<close>

text \<open>The turns the process and the downloads take on their own: no caller, no save.\<close>

inductive progress :: "Sha256 \<Rightarrow> BuildsState \<Rightarrow> BuildsState \<Rightarrow> bool" for sha where
  Begins: "phase_of s f = Some Granted \<Longrightarrow> progress sha s (begin_flight sha f startedAt moment s)"
| Settles: "phase_of s f = Some (Runs startedAt) \<Longrightarrow> progress sha s (settle_flight sha f built startedAt moment s)"

lemma progress_step: "progress sha s s' \<Longrightarrow> build_step sha lims s s'"
  by (induction rule: progress.induct) (auto intro: build_step.intros)

text \<open>How many turns a flight still takes.\<close>

definition turns :: "Flight \<Rightarrow> nat" where
  "turns x = (case fl_phase x of Waits \<Rightarrow> 3 | Granted \<Rightarrow> 2 | Runs _ \<Rightarrow> 1 | Ended \<Rightarrow> 0)"

definition all_turns :: "BuildsState \<Rightarrow> nat" where
  "all_turns s = sum_list (map turns (bs_flights s))"

lemma turns_update:
  "f < length xs \<Longrightarrow> sum_list (map turns (xs[f := x])) + turns (xs ! f) = sum_list (map turns xs) + turns x"
  by (subst (3) id_take_nth_drop, assumption) (simp add: upd_conv_take_nth_drop)

lemma turns_end:
  assumes inv: "builds_inv sha lims s" and f: "f < length (bs_flights s)" "holds (bs_flights s ! f)"
  shows "all_turns (end_flight sha f outcome d s) < all_turns s"
proof -
  let ?fs = "bs_flights s" and ?e = "(bs_flights s ! f)\<lparr>fl_phase := Ended\<rparr>"
  obtain next_up sl where r:
    "release_slot (if fl_named (?fs ! f) then Some (br_target (fl_request (?fs ! f))) else None) (bs_slots s) = (next_up, sl)"
    by fastforce
  have ok: "slots_ok lims ?fs (bs_slots s)" using inv by (simp add: builds_inv_def)
  have less: "sum_list (map turns (?fs[f := ?e])) < sum_list (map turns ?fs)"
    using turns_update [OF f(1), of ?e] f(2) by (auto simp: turns_def holds_def split: Phase.splits)
  have flights: "bs_flights (end_flight sha f outcome d s) = ended_flights f next_up ?fs" by (rule end_flight_parts(2) [OF r])
  show ?thesis
  proof (cases next_up)
    case None
    with less show ?thesis by (simp add: all_turns_def flights ended_flights_def)
  next
    case (Some g)
    with slots_ok_end(2) [OF ok f r] have g: "g < length ?fs" "g \<noteq> f" "fl_phase (?fs ! g) = Waits" by simp_all
    then have "sum_list (map turns ((?fs[f := ?e])[g := (?fs ! g)\<lparr>fl_phase := Granted\<rparr>])) < sum_list (map turns (?fs[f := ?e]))"
      using turns_update [of g "?fs[f := ?e]" "(?fs ! g)\<lparr>fl_phase := Granted\<rparr>"] by (simp add: turns_def)
    with less Some g show ?thesis by (simp add: all_turns_def flights ended_flights_def)
  qed
qed

lemma progress_turns: "progress sha s s' \<Longrightarrow> builds_inv sha lims s \<Longrightarrow> all_turns s' < all_turns s"
proof (induction rule: progress.induct)
  case (Begins s f startedAt moment)
  have "all_turns (set_phase f (Runs startedAt) s) < all_turns s"
    using Begins(1) turns_update [of f "bs_flights s" "(bs_flights s ! f)\<lparr>fl_phase := Runs startedAt\<rparr>"]
    by (auto simp: all_turns_def set_phase_def phase_of_def turns_def split: if_splits)
  with turns_end [OF Begins(2)] phase_holds(1) [OF Begins(1)] show ?case by (simp add: begin_flight_def)
next
  case (Settles s f startedAt built moment)
  then show ?case using turns_end phase_holds(2) by (simp add: settle_flight_def)
qed

lemma progress_possible:
  assumes "builds_inv sha lims s" and "0 < lim_total lims" and "phase_of s f \<notin> {None, Some Ended}"
  shows "\<exists>s'. progress sha s s'"
proof -
  have ok: "slots_ok lims (bs_flights s) (bs_slots s)" using assms(1) by (simp add: builds_inv_def)
  have f: "f < length (bs_flights s)" "fl_phase (bs_flights s ! f) \<noteq> Ended" using assms(3) by (auto simp: phase_of_def split: if_splits)
  have "\<exists>g. g < length (bs_flights s) \<and> holds (bs_flights s ! g)"
  proof (cases "fl_phase (bs_flights s ! f) = Waits")
    case True
    then have "f \<in> set (slots_waiting (bs_slots s))" using ok f by (simp add: slots_ok_def)
    then have "slots_waiting (bs_slots s) \<noteq> []" by auto
    then have "0 < length (filter holds (bs_flights s))" using ok assms(2) by (auto simp: slots_ok_def)
    then obtain x where "x \<in> set (bs_flights s)" "holds x" by (auto simp: filter_empty_conv)
    then show ?thesis by (auto simp: in_set_conv_nth)
  next
    case False
    with f show ?thesis by (intro exI [of _ f]) (auto simp: holds_def split: Phase.splits)
  qed
  then obtain g where g: "g < length (bs_flights s)" "holds (bs_flights s ! g)" by blast
  then have "phase_of s g = Some Granted \<or> (\<exists>m. phase_of s g = Some (Runs m))"
    by (auto simp: phase_of_def holds_def split: Phase.splits)
  then show ?thesis using progress.intros by blast
qed

lemma progress_ends:
  "builds_inv sha lims s \<Longrightarrow> 0 < lim_total lims \<Longrightarrow>
   \<exists>s'. (progress sha)\<^sup>*\<^sup>* s s' \<and> (\<forall>f. phase_of s' f \<in> {None, Some Ended})"
proof (induction "all_turns s" arbitrary: s rule: less_induct)
  case less
  show ?case
  proof (cases "\<forall>f. phase_of s f \<in> {None, Some Ended}")
    case False
    then obtain f where "phase_of s f \<notin> {None, Some Ended}" by blast
    then obtain s' where s': "progress sha s s'" using progress_possible [OF less.prems] by blast
    have "builds_inv sha lims s'" using builds_inv_step [OF progress_step [OF s'] less.prems(1)] .
    from less.hyps [OF progress_turns [OF s' less.prems(1)] this less.prems(2)] s' show ?thesis
      by (meson converse_rtranclp_into_rtranclp)
  qed blast
qed

text \<open>
  C37: no build waits for ever. From every state that can be reached, however the downloads end, the
  turns of the process alone lead to a state where every build launched has ended, in at most three
  turns for each build; and while one has not ended, some turn is possible.
\<close>

theorem builds_all_end:
  assumes "(build_step sha lims)\<^sup>*\<^sup>* new_builds s" and "0 < lim_total lims"
  shows "(\<exists>s'. (progress sha)\<^sup>*\<^sup>* s s' \<and> (\<forall>f. phase_of s' f \<in> {None, Some Ended})) \<and>
    (\<forall>s'. progress sha s s' \<longrightarrow> all_turns s' < all_turns s) \<and> all_turns s \<le> 3 * length (bs_flights s) \<and>
    (phase_of s f \<notin> {None, Some Ended} \<longrightarrow> (\<exists>s'. progress sha s s'))"
proof -
  have inv: "builds_inv sha lims s" by (rule builds_reachable [OF assms(1)])
  have "sum_list (map turns fs) \<le> 3 * length fs" for fs
    by (induction fs) (auto simp: turns_def split: Phase.splits)
  then show ?thesis
    using progress_ends [OF inv assms(2)] progress_turns [OF _ inv] progress_possible [OF inv assms(2)]
    unfolding all_turns_def by blast
qed

section \<open>A run\<close>

definition example_documents :: CodeDocuments where
  "example_documents =
     \<lparr>cd_destination = \<lparr>dest_repository = ''octo/demo'', dest_ref = None\<rparr>, cd_credential = \<lparr>cred_token_field = None\<rparr>,
      cd_policy =
        \<lparr>cp_timeout_ms = 1, cp_refresh_interval_s = 1, cp_content = [ContentCode], cp_allow_ref = True, cp_max_top_k = 1,
         cp_build_wait_s = 0, cp_include = [], cp_exclude = [], cp_max_archive_bytes = 1, cp_max_files = 1,
         cp_max_total_bytes = 1, cp_max_file_bytes = 1, cp_build_timeout_s = 1, cp_allow_read = True, cp_max_read_lines = 1\<rparr>\<rparr>"

definition example_build :: "string \<Rightarrow> BuildRequest" where
  "example_build commit =
     \<lparr>br_target = ''t'', br_name = ''demo'', br_documents = example_documents, br_commit = commit, br_ref = ''main'',
      br_trigger = by_call, br_variants = [[ContentCode]], br_configured = False\<rparr>"

text \<open>Two builds with one slot: the second waits for the first.\<close>

definition one_slot :: BuildLimits where "one_slot = \<lparr>lim_total = 1, lim_per_target = 1\<rparr>"

definition two_builds :: BuildsState where
  "two_builds =
     snd (start_build (\<lambda>_. []) one_slot (example_build ''b'') (snd (try_start (\<lambda>_. []) one_slot (example_build ''a'') new_builds)))"

lemma two_builds_reached: "(build_step (\<lambda>_. []) one_slot)\<^sup>*\<^sup>* new_builds two_builds"
  unfolding two_builds_def by (rule rtranclp.rtrancl_into_rtrancl [OF r_into_rtranclp]; rule build_step.intros)

lemma two_builds_flights:
  "bs_flights two_builds =
     [\<lparr>fl_request = example_build ''a'', fl_named = True, fl_phase = Granted, fl_abandoned = False\<rparr>,
      \<lparr>fl_request = example_build ''b'', fl_named = False, fl_phase = Waits, fl_abandoned = False\<rparr>]"
  by (simp add: two_builds_def try_start_def start_build_def tryTake_def take_slot_def one_slot_def launch_def Let_def
      new_builds_def new_build_slots_def example_build_def build_key_def snapshotKey_def)

lemma builds_capped_witness: "length (filter holds (bs_flights two_builds)) = 1 \<and> phase_of two_builds 1 = Some Waits"
  using builds_capped [OF two_builds_reached, of "''t''" 1] two_builds_flights by (simp add: phase_of_def one_slot_def)

lemma one_build_per_key_witness: "bs_finished two_builds = [] \<and> length (filter live_flight (bs_flights two_builds)) = 2"
proof -
  have "h \<notin> set (map fst (bs_finished two_builds))" for h
    using one_build_per_key [OF two_builds_reached, of 0 0 h] two_builds_flights
    by (auto simp: phase_of_def less_Suc_eq numeral_2_eq_2)
  then have "bs_finished two_builds = []" by (cases "bs_finished two_builds") auto
  then show ?thesis by (simp add: two_builds_flights live_flight_def)
qed

lemma builds_all_end_witness: "(\<exists>s'. progress (\<lambda>_. []) two_builds s') \<and> all_turns two_builds = 5"
proof -
  have "phase_of two_builds 1 \<notin> {None, Some Ended}" by (simp add: phase_of_def two_builds_flights)
  with builds_all_end [OF two_builds_reached, of 1] show ?thesis
    by (simp add: one_slot_def all_turns_def two_builds_flights turns_def)
qed

end
