(* ===== verification/CodeState.thy ===== *)
theory CodeState
  imports CodeBuilds CodeCalls CodeGithub
begin

text \<open>
  What vaultgate remembers about each code target between calls
  (\<^verbatim>\<open>src/actions/connectors/code/state.ts\<close>) with the row the database keeps of it
  (\<^verbatim>\<open>src/actions/kept-snapshots.ts\<close>) and the audit events of builds (\<^verbatim>\<open>build-events.ts\<close>).

  The clock is a function of how often it was read. A write to the database may fail, as a function of
  the writes before it; it is then logged and dropped.
\<close>

section \<open>The kept rows\<close>

record KeptSnapshot =
  ks_target :: string
  ks_key :: string
  ks_fingerprint :: string
  ks_commit :: string
  ks_ref :: string
  ks_indexedAt :: int

record CodeDb =
  db_targets :: "string list"
  db_kept :: "KeptSnapshot list"
  db_writes :: nat

record CodeEnv =
  env_sha :: Sha256
  env_now :: "nat \<Rightarrow> int"
  env_write_fails :: "nat \<Rightarrow> bool"

text \<open>\<^verbatim>\<open>safely\<close>: a write that throws leaves the rows as they were.\<close>

definition safely :: "CodeEnv \<Rightarrow> (CodeDb \<Rightarrow> CodeDb) \<Rightarrow> CodeDb \<Rightarrow> CodeDb" where
  "safely env work db =
     (let db' = db\<lparr>db_writes := Suc (db_writes db)\<rparr> in if env_write_fails env (db_writes db) then db' else work db')"

definition upsert :: "KeptSnapshot \<Rightarrow> KeptSnapshot list \<Rightarrow> KeptSnapshot list" where
  "upsert r rs =
     (if list_ex (\<lambda>x. ks_target x = ks_target r) rs then map (\<lambda>x. if ks_target x = ks_target r then r else x) rs
      else rs @ [r])"

definition keep_row :: "KeptSnapshot \<Rightarrow> CodeDb \<Rightarrow> CodeDb" where
  "keep_row r db = (if ks_target r \<in> set (db_targets db) then db\<lparr>db_kept := upsert r (db_kept db)\<rparr> else db)"

definition forget_row :: "string \<Rightarrow> CodeDb \<Rightarrow> CodeDb" where
  "forget_row targetId db = db\<lparr>db_kept := filter (\<lambda>x. ks_target x \<noteq> targetId) (db_kept db)\<rparr>"

definition keep :: "CodeEnv \<Rightarrow> KeptSnapshot \<Rightarrow> CodeDb \<Rightarrow> CodeDb" where
  "keep env r db = safely env (keep_row r) db"

definition forget :: "CodeEnv \<Rightarrow> string \<Rightarrow> CodeDb \<Rightarrow> CodeDb" where
  "forget env targetId db = safely env (forget_row targetId) db"

definition load_kept :: "CodeDb \<Rightarrow> KeptSnapshot list" where
  "load_kept db = sort_key ks_target (db_kept db)"

section \<open>What is remembered\<close>

record CurrentSnapshot =
  cs_key :: string
  cs_commit :: string
  cs_ref :: string
  cs_indexedAt :: int
  cs_fingerprint :: string

datatype CodeResolution = ResolvedTo int string string | ResolutionFailed int ActionErrorCode

record BuildRecord =
  rec_at :: int
  rec_commit :: "string option"
  rec_trigger :: Trigger
  rec_durationMs :: int
  rec_reason :: "string option"

record SnapshotNote =
  note_ref :: string
  note_trigger :: Trigger

record TargetState =
  ts_resolution :: "CodeResolution option"
  ts_resolvedCommit :: "string option"
  ts_current :: "CurrentSnapshot option"
  ts_lastBuild :: "BuildRecord option"
  ts_lastFailure :: "BuildRecord option"
  ts_notes :: "(string \<times> SnapshotNote) list"
  ts_failed :: "(string \<times> string \<times> int) list"

definition emptyTarget :: TargetState where
  "emptyTarget =
     \<lparr>ts_resolution = None, ts_resolvedCommit = None, ts_current = None, ts_lastBuild = None, ts_lastFailure = None,
      ts_notes = [], ts_failed = []\<rparr>"

record CodeAudit =
  ca_built :: bool
  ca_target :: string
  ca_trigger :: Trigger
  ca_content :: "string list"
  ca_commit :: "string option"
  ca_durationMs :: int
  ca_counts :: "(nat \<times> nat \<times> nat) option"
  ca_reason :: "string option"

record CodeWorld =
  cw_targets :: "(string \<times> TargetState) list"
  cw_db :: CodeDb
  cw_reads :: nat
  cw_audit :: "CodeAudit list"

definition code_now :: "CodeEnv \<Rightarrow> CodeWorld \<Rightarrow> int \<times> CodeWorld" where
  "code_now env w = (env_now env (cw_reads w), w\<lparr>cw_reads := Suc (cw_reads w)\<rparr>)"

text \<open>\<^verbatim>\<open>target(id)\<close>: the entry, made when there is none; \<^verbatim>\<open>peek\<close> makes none.\<close>

definition peek :: "CodeWorld \<Rightarrow> string \<Rightarrow> TargetState option" where
  "peek w targetId = map_of (cw_targets w) targetId"

definition held_target :: "CodeWorld \<Rightarrow> string \<Rightarrow> TargetState" where
  "held_target w targetId = (case peek w targetId of None \<Rightarrow> emptyTarget | Some st \<Rightarrow> st)"

definition change_target :: "string \<Rightarrow> (TargetState \<Rightarrow> TargetState) \<Rightarrow> CodeWorld \<Rightarrow> CodeWorld" where
  "change_target targetId f w = w\<lparr>cw_targets := AList.update targetId (f (held_target w targetId)) (cw_targets w)\<rparr>"

definition current_of :: "CodeWorld \<Rightarrow> string \<Rightarrow> CurrentSnapshot option" where
  "current_of w targetId = Option.bind (peek w targetId) ts_current"

section \<open>Audit events\<close>

definition variant_texts :: "ContentType list list \<Rightarrow> string list" where
  "variant_texts variants = map (\<lambda>v. join_with (CHR ''+'') (map content_name v)) variants"

definition counts_of :: "BuildOutcome \<Rightarrow> (nat \<times> nat \<times> nat) option" where
  "counts_of outcome =
     (case outcome of Inl _ \<Rightarrow> None | Inr meta \<Rightarrow> 
        Some (sm_files meta, sum_list (map snd (sm_variant_chunks meta)),
          skipped_links (sm_skipped meta) + skipped_special (sm_skipped meta) + skipped_excluded (sm_skipped meta) +
          skipped_large (sm_skipped meta)))"

definition reason_of :: "BuildOutcome \<Rightarrow> string option" where
  "reason_of outcome = (case outcome of Inl reason \<Rightarrow> Some reason | Inr _ \<Rightarrow> None)"

definition recordBuild :: "BuildRequest \<Rightarrow> BuildOutcome \<Rightarrow> int \<Rightarrow> CodeWorld \<Rightarrow> CodeWorld" where
  "recordBuild q outcome durationMs w =
     w\<lparr>cw_audit := cw_audit w @
        [\<lparr>ca_built = reason_of outcome = None, ca_target = br_name q, ca_trigger = br_trigger q,
          ca_content = variant_texts (br_variants q), ca_commit = Some (br_commit q), ca_durationMs = durationMs,
          ca_counts = counts_of outcome, ca_reason = reason_of outcome\<rparr>]\<rparr>"

record Refusal =
  rf_target :: string
  rf_name :: string
  rf_trigger :: Trigger
  rf_content :: "ContentType list"
  rf_reason :: string

definition recordRefusal :: "Refusal \<Rightarrow> CodeWorld \<Rightarrow> CodeWorld" where
  "recordRefusal r w =
     w\<lparr>cw_audit := cw_audit w @
        [\<lparr>ca_built = False, ca_target = rf_name r, ca_trigger = rf_trigger r,
          ca_content = (if rf_content r = [] then [] else variant_texts [rf_content r]), ca_commit = None,
          ca_durationMs = 0, ca_counts = None, ca_reason = Some (rf_reason r)\<rparr>]\<rparr>"

section \<open>Operations\<close>

definition isSame :: "CurrentSnapshot option \<Rightarrow> CurrentSnapshot option \<Rightarrow> bool" where
  "isSame l r \<longleftrightarrow>
     map_option cs_key l = map_option cs_key r \<and> map_option cs_ref l = map_option cs_ref r \<and>
     map_option cs_indexedAt l = map_option cs_indexedAt r"

definition kept_row :: "string \<Rightarrow> CurrentSnapshot \<Rightarrow> KeptSnapshot" where
  "kept_row targetId c =
     \<lparr>ks_target = targetId, ks_key = cs_key c, ks_fingerprint = cs_fingerprint c, ks_commit = cs_commit c,
      ks_ref = cs_ref c, ks_indexedAt = cs_indexedAt c\<rparr>"

definition row_current :: "KeptSnapshot \<Rightarrow> CurrentSnapshot" where
  "row_current r =
     \<lparr>cs_key = ks_key r, cs_commit = ks_commit r, cs_ref = ks_ref r, cs_indexedAt = ks_indexedAt r,
      cs_fingerprint = ks_fingerprint r\<rparr>"

definition setCurrent :: "CodeEnv \<Rightarrow> string \<Rightarrow> CurrentSnapshot option \<Rightarrow> CodeWorld \<Rightarrow> CodeWorld" where
  "setCurrent env targetId snap w =
     (let w1 = change_target targetId (\<lambda>st. st) w in
      if isSame (ts_current (held_target w targetId)) snap then w1
      else
        (let w2 = change_target targetId (\<lambda>st. st\<lparr>ts_current := snap\<rparr>) w1 in
         case snap of
           None \<Rightarrow> w2\<lparr>cw_db := forget env targetId (cw_db w2)\<rparr>
         | Some c \<Rightarrow> w2\<lparr>cw_db := keep env (kept_row targetId c) (cw_db w2)\<rparr>))"

text \<open>\<^verbatim>\<open>hold\<close>: what a process starts with.\<close>

definition hold_kept :: "CodeDb \<Rightarrow> (string \<times> TargetState) list" where
  "hold_kept db =
     fold (\<lambda>r targets.
        AList.update (ks_target r)
          ((case map_of targets (ks_target r) of None \<Rightarrow> emptyTarget | Some st \<Rightarrow> st)\<lparr>ts_current := Some (row_current r)\<rparr>) targets)
       (load_kept db) []"

definition restart :: "CodeWorld \<Rightarrow> CodeWorld" where
  "restart w = w\<lparr>cw_targets := hold_kept (cw_db w)\<rparr>"

definition remember :: "string \<Rightarrow> string \<Rightarrow> int \<Rightarrow> int \<Rightarrow> (string \<times> string \<times> int) list \<Rightarrow> (string \<times> string \<times> int) list" where
  "remember key reason at_ms intervalMs failed =
     AList.update key (reason, at_ms) (filter (\<lambda>(k, r, kept). \<not> intervalMs \<le> at_ms - kept) failed)"

definition currentAfter :: "CodeEnv \<Rightarrow> TargetState \<Rightarrow> BuildRequest \<Rightarrow> SnapshotMeta \<Rightarrow> CurrentSnapshot option" where
  "currentAfter env st q meta =
     (if br_configured q \<and> ts_resolvedCommit st = Some (br_commit q)
      then Some \<lparr>cs_key = build_key (env_sha env) q, cs_commit = br_commit q, cs_ref = br_ref q,
        cs_indexedAt = sm_created_at meta, cs_fingerprint = extractionFingerprint (env_sha env) (br_documents q)\<rparr>
      else ts_current st)"

definition finished :: "CodeEnv \<Rightarrow> BuildRequest \<Rightarrow> BuildOutcome \<Rightarrow> BuildEnd \<Rightarrow> CodeWorld \<Rightarrow> CodeWorld" where
  "finished env q outcome ended w =
     (let w1 = recordBuild q outcome (be_duration ended) w in
      if be_abandoned ended then w1
      else
        (case code_now env w1 of (moment, w2) \<Rightarrow>
           (let key = build_key (env_sha env) q;
                entry = \<lparr>rec_at = moment, rec_commit = Some (br_commit q), rec_trigger = br_trigger q,
                  rec_durationMs = be_duration ended, rec_reason = reason_of outcome\<rparr>;
                w3 = change_target (br_target q) (\<lambda>st. st\<lparr>ts_lastBuild := Some entry\<rparr>) w2
            in case outcome of
                 Inr meta \<Rightarrow>
                   (let w4 = change_target (br_target q)
                          (\<lambda>st. st\<lparr>ts_failed := AList.delete key (ts_failed st),
                             ts_notes := AList.update key \<lparr>note_ref = br_ref q, note_trigger = br_trigger q\<rparr> (ts_notes st)\<rparr>) w3
                    in setCurrent env (br_target q) (currentAfter env (held_target w4 (br_target q)) q meta) w4)
               | Inl reason \<Rightarrow>
                   change_target (br_target q)
                     (\<lambda>st. st\<lparr>ts_lastFailure := Some entry,
                        ts_failed :=
                          (if isRemembered reason
                           then remember key reason moment
                             (int (cp_refresh_interval_s (cd_policy (br_documents q)) * CODE_MS_PER_SECOND)) (ts_failed st)
                           else ts_failed st)\<rparr>) w3)))"

definition drop_target :: "CodeEnv \<Rightarrow> string \<Rightarrow> CodeWorld \<Rightarrow> CodeWorld" where
  "drop_target env targetId w =
     w\<lparr>cw_targets := AList.delete targetId (cw_targets w), cw_db := forget env targetId (cw_db w)\<rparr>"

definition resolved_ref :: "CodeEnv \<Rightarrow> string \<Rightarrow> (ResolvedReference, ActionError) result \<Rightarrow> CodeWorld \<Rightarrow> CodeWorld" where
  "resolved_ref env targetId found w =
     (case code_now env w of (moment, w1) \<Rightarrow>
        (case found of
           Inl e \<Rightarrow> change_target targetId (\<lambda>st. st\<lparr>ts_resolution := Some (ResolutionFailed moment (error_code e))\<rparr>) w1
         | Inr r \<Rightarrow>
             change_target targetId
               (\<lambda>st. st\<lparr>ts_resolution := Some (ResolvedTo moment (rr_commit r) (rr_ref r)), ts_resolvedCommit := Some (rr_commit r)\<rparr>) w1))"

definition refused_build :: "CodeEnv \<Rightarrow> Refusal \<Rightarrow> CodeWorld \<Rightarrow> CodeWorld" where
  "refused_build env r w =
     (case code_now env (recordRefusal r w) of (moment, w1) \<Rightarrow>
        (let entry = \<lparr>rec_at = moment, rec_commit = None, rec_trigger = rf_trigger r, rec_durationMs = 0, rec_reason = Some (rf_reason r)\<rparr>
         in change_target (rf_target r) (\<lambda>st. st\<lparr>ts_lastBuild := Some entry, ts_lastFailure := Some entry\<rparr>) w1))"

text \<open>\<^verbatim>\<open>failed.clear()\<close> of a refresh.\<close>

definition clear_failed :: "string \<Rightarrow> CodeWorld \<Rightarrow> CodeWorld" where
  "clear_failed targetId w = change_target targetId (\<lambda>st. st\<lparr>ts_failed := []\<rparr>) w"

text \<open>\<^verbatim>\<open>ON DELETE CASCADE\<close>: a target's row takes its kept snapshot with it.\<close>

definition insert_code_target :: "string \<Rightarrow> CodeWorld \<Rightarrow> CodeWorld" where
  "insert_code_target targetId w = w\<lparr>cw_db := (cw_db w)\<lparr>db_targets := db_targets (cw_db w) @ [targetId]\<rparr>\<rparr>"

definition delete_target :: "string \<Rightarrow> CodeWorld \<Rightarrow> CodeWorld" where
  "delete_target targetId w =
     w\<lparr>cw_db := forget_row targetId ((cw_db w)\<lparr>db_targets := filter (\<lambda>x. x \<noteq> targetId) (db_targets (cw_db w))\<rparr>)\<rparr>"

text \<open>A snapshot named by the key its target, fingerprint and commit make.\<close>

definition keyed :: "string \<Rightarrow> CurrentSnapshot \<Rightarrow> bool" where
  "keyed targetId c \<longleftrightarrow> cs_key c = snapshotKey targetId (cs_fingerprint c) (cs_commit c)"

inductive code_step :: "CodeEnv \<Rightarrow> CodeWorld \<Rightarrow> CodeWorld \<Rightarrow> bool" for env where
  Finished: "code_step env w (finished env q outcome ended w)"
| Adopt: "keyed targetId c \<Longrightarrow> code_step env w (setCurrent env targetId (Some c) w)"
| Forgot: "code_step env w (setCurrent env targetId None w)"
| ResolvedRef: "code_step env w (resolved_ref env targetId found w)"
| Refused: "code_step env w (refused_build env r w)"
| Cleared: "code_step env w (clear_failed targetId w)"
| Dropped: "code_step env w (drop_target env targetId w)"
| Restarted: "code_step env w (restart w)"
| Inserted: "peek w targetId = None \<Longrightarrow> targetId \<notin> set (db_targets (cw_db w)) \<Longrightarrow> code_step env w (insert_code_target targetId w)"
| Deleted: "code_step env w (delete_target targetId w)"

definition new_world :: CodeWorld where
  "new_world = \<lparr>cw_targets = [], cw_db = \<lparr>db_targets = [], db_kept = [], db_writes = 0\<rparr>, cw_reads = 0, cw_audit = []\<rparr>"

end
