(* ===== verification/CodeStateSafety.thy ===== *)
theory CodeStateSafety
  imports CodeState CodeBuildsSafety
begin

text \<open>
  What the memory of a target and its kept row keep: every snapshot is named by its own key, and the
  row of the database is what memory holds, so that a restart answers from the same snapshot.
\<close>

section \<open>Rows\<close>

definition kept_current :: "CodeDb \<Rightarrow> string \<Rightarrow> CurrentSnapshot option" where
  "kept_current db targetId = map_option row_current (List.find (\<lambda>r. ks_target r = targetId) (db_kept db))"

lemma find_upsert:
  "List.find (\<lambda>x. ks_target x = t) (upsert r rs) = (if t = ks_target r then Some r else List.find (\<lambda>x. ks_target x = t) rs)"
proof (cases "list_ex (\<lambda>x. ks_target x = ks_target r) rs")
  case True
  have "List.find (\<lambda>x. ks_target x = t) (map (\<lambda>x. if ks_target x = ks_target r then r else x) rs) =
    (if t \<noteq> ks_target r then List.find (\<lambda>x. ks_target x = t) rs
     else if list_ex (\<lambda>x. ks_target x = ks_target r) rs then Some r else None)"
    by (induction rs) auto
  with True show ?thesis by (simp add: upsert_def)
next
  case False
  then have "List.find (\<lambda>x. ks_target x = t) (rs @ [r]) =
    (if t = ks_target r then Some r else List.find (\<lambda>x. ks_target x = t) rs)"
    by (induction rs) auto
  with False show ?thesis by (simp add: upsert_def)
qed

lemma kept_current_keep:
  "kept_current (keep_row r db) t =
   (if ks_target r \<in> set (db_targets db) \<and> t = ks_target r then Some (row_current r) else kept_current db t)"
  by (simp add: kept_current_def keep_row_def find_upsert)

lemma kept_current_forget: "kept_current (forget_row u db) t = (if t = u then None else kept_current db t)"
proof -
  have "List.find (\<lambda>x. ks_target x = t) (filter (\<lambda>x. ks_target x \<noteq> u) rs) =
    (if t = u then None else List.find (\<lambda>x. ks_target x = t) rs)" for rs :: "KeptSnapshot list"
    by (induction rs) auto
  then show ?thesis by (simp add: kept_current_def forget_row_def)
qed

definition rows_ok :: "CodeDb \<Rightarrow> bool" where
  "rows_ok db \<longleftrightarrow>
     distinct (map ks_target (db_kept db)) \<and> set (map ks_target (db_kept db)) \<subseteq> set (db_targets db) \<and>
     (\<forall>r \<in> set (db_kept db). keyed (ks_target r) (row_current r))"

lemma rows_ok_keep: "rows_ok db \<Longrightarrow> keyed (ks_target r) (row_current r) \<Longrightarrow> rows_ok (keep_row r db)"
proof -
  assume ok: "rows_ok db" "keyed (ks_target r) (row_current r)"
  have same: "map ks_target (map (\<lambda>x. if ks_target x = ks_target r then r else x) (db_kept db)) = map ks_target (db_kept db)"
    by (rule nth_equalityI) simp_all
  show ?thesis
  proof (cases "ks_target r \<in> set (db_targets db)")
    case known: True
    show ?thesis
    proof (cases "list_ex (\<lambda>x. ks_target x = ks_target r) (db_kept db)")
      case True
      then have kept: "db_kept (keep_row r db) = map (\<lambda>x. if ks_target x = ks_target r then r else x) (db_kept db)"
        using known by (simp add: keep_row_def upsert_def)
      from known have "db_targets (keep_row r db) = db_targets db" by (simp add: keep_row_def)
      with ok show ?thesis unfolding rows_ok_def kept same by auto
    next
      case False
      then have "ks_target r \<notin> ks_target ` set (db_kept db)" by (auto simp: list_ex_iff)
      with ok known False show ?thesis by (auto simp: rows_ok_def keep_row_def upsert_def)
    qed
  qed (use ok in \<open>simp add: keep_row_def\<close>)
qed

lemma rows_ok_forget: "rows_ok db \<Longrightarrow> rows_ok (forget_row t db)"
  by (auto simp: rows_ok_def forget_row_def distinct_map_filter)

lemma rows_ok_writes [simp]: "rows_ok (db\<lparr>db_writes := n\<rparr>) = rows_ok db"
  by (simp add: rows_ok_def)

lemma rows_ok_safely: "rows_ok db \<Longrightarrow> (\<And>d. rows_ok d \<Longrightarrow> rows_ok (work d)) \<Longrightarrow> rows_ok (safely env work db)"
  by (simp add: safely_def Let_def)

lemma targets_safely [simp]:
  "db_targets (keep env r db) = db_targets db" "db_targets (forget env t db) = db_targets db"
  by (simp_all add: keep_def forget_def safely_def Let_def keep_row_def forget_row_def)

lemma find_unique:
  "distinct (map ks_target rs) \<Longrightarrow> r \<in> set rs \<Longrightarrow> List.find (\<lambda>x. ks_target x = ks_target r) rs = Some r"
  by (induction rs) (auto simp: rev_image_eqI)

lemma find_sorted: "distinct (map ks_target rs) \<Longrightarrow> List.find (\<lambda>x. ks_target x = t) (sort_key ks_target rs) = List.find (\<lambda>x. ks_target x = t) rs"
proof (cases "List.find (\<lambda>x. ks_target x = t) rs")
  case None
  then have "List.find (\<lambda>x. ks_target x = t) (sort_key ks_target rs) = None" by (simp add: find_None_iff)
  with None show ?thesis by simp
next
  case (Some r)
  assume d: "distinct (map ks_target rs)"
  from find_SomeD [OF Some] have r: "r \<in> set rs" "ks_target r = t" by simp_all
  have "mset (map ks_target (sort_key ks_target rs)) = mset (map ks_target rs)" by simp
  then have "distinct (map ks_target (sort_key ks_target rs))" using d mset_eq_imp_distinct_iff by blast
  from find_unique [OF this, of r] r Some show ?thesis by simp
qed

section \<open>Memory\<close>

lemma current_change:
  "current_of (change_target u f w) t = (if t = u then ts_current (f (held_target w u)) else current_of w t)"
  by (simp add: current_of_def peek_def change_target_def update_conv')

lemma current_held: "ts_current (held_target w t) = current_of w t"
  by (simp add: held_target_def current_of_def emptyTarget_def split: option.splits)

lemma held_change: "held_target (change_target u f w) t = (if t = u then f (held_target w u) else held_target w t)"
  by (simp add: held_target_def peek_def change_target_def update_conv')

lemma change_sel [simp]:
  "cw_db (change_target u f w) = cw_db w" "cw_reads (change_target u f w) = cw_reads w" "cw_audit (change_target u f w) = cw_audit w"
  by (simp_all add: change_target_def)

lemma current_same [simp]:
  "current_of (w\<lparr>cw_db := db\<rparr>) t = current_of w t" "current_of (w\<lparr>cw_reads := n\<rparr>) t = current_of w t"
  "current_of (w\<lparr>cw_audit := evs\<rparr>) t = current_of w t"
  by (simp_all add: current_of_def peek_def)

lemma hold_kept_current:
  "distinct (map ks_target rs) \<Longrightarrow>
   Option.bind (map_of (fold (\<lambda>r targets.
        AList.update (ks_target r)
          ((case map_of targets (ks_target r) of None \<Rightarrow> emptyTarget | Some st \<Rightarrow> st)\<lparr>ts_current := Some (row_current r)\<rparr>) targets)
       rs held) t) ts_current =
   (case List.find (\<lambda>r. ks_target r = t) rs of Some r \<Rightarrow> Some (row_current r) | None \<Rightarrow> Option.bind (map_of held t) ts_current)"
proof (induction rs arbitrary: held)
  case (Cons r rs)
  have "List.find (\<lambda>x. ks_target x = ks_target r) rs = None"
    using Cons.prems by (simp add: find_None_iff image_iff) metis
  with Cons show ?case by (auto simp: update_conv' split: option.splits)
qed simp

lemma current_restart: "rows_ok (cw_db w) \<Longrightarrow> current_of (restart w) t = kept_current (cw_db w) t"
proof -
  assume "rows_ok (cw_db w)"
  then have d: "distinct (map ks_target (db_kept (cw_db w)))" by (simp add: rows_ok_def)
  have "mset (map ks_target (load_kept (cw_db w))) = mset (map ks_target (db_kept (cw_db w)))" by (simp add: load_kept_def)
  then have "distinct (map ks_target (load_kept (cw_db w)))" using d mset_eq_imp_distinct_iff by blast
  from hold_kept_current [OF this, of "[]" t] find_sorted [OF d, of t] show ?thesis
    by (auto simp: current_of_def peek_def restart_def hold_kept_def kept_current_def load_kept_def split: option.splits)
qed

lemma held_same [simp]:
  "held_target (w\<lparr>cw_reads := n\<rparr>) t = held_target w t" "held_target (w\<lparr>cw_audit := evs\<rparr>) t = held_target w t"
  by (simp_all add: held_target_def peek_def)

section \<open>The invariant\<close>

definition code_inv :: "CodeEnv \<Rightarrow> CodeWorld \<Rightarrow> bool" where
  "code_inv env w \<longleftrightarrow>
     rows_ok (cw_db w) \<and> (\<forall>t c. current_of w t = Some c \<longrightarrow> keyed t c) \<and>
     ((\<forall>n. \<not> env_write_fails env n) \<longrightarrow> (\<forall>t \<in> set (db_targets (cw_db w)). current_of w t = kept_current (cw_db w) t))"

lemma code_inv_new: "code_inv env new_world"
  by (simp add: code_inv_def new_world_def rows_ok_def current_of_def peek_def)

lemma code_inv_same:
  "code_inv env w \<Longrightarrow> (\<And>t. current_of w' t = current_of w t) \<Longrightarrow> cw_db w' = cw_db w \<Longrightarrow> code_inv env w'"
  by (simp add: code_inv_def)

lemma code_inv_change:
  "code_inv env w \<Longrightarrow> (\<And>st. ts_current (f st) = ts_current st) \<Longrightarrow> code_inv env (change_target t f w)"
  by (erule code_inv_same) (simp_all add: current_change current_held)

lemma code_now_sel [simp]:
  "current_of (snd (code_now env w)) t = current_of w t" "cw_db (snd (code_now env w)) = cw_db w"
  "cw_audit (snd (code_now env w)) = cw_audit w"
  by (simp_all add: code_now_def)

lemma code_inv_reads [simp]: "code_inv env (w\<lparr>cw_reads := n\<rparr>) = code_inv env w"
  by (simp add: code_inv_def)

lemma code_inv_now: "code_inv env w \<Longrightarrow> code_inv env (snd (code_now env w))"
  by (erule code_inv_same) simp_all

lemma keyed_row: "ks_target (kept_row t c) = t" "row_current (kept_row t c) = c"
  by (simp_all add: kept_row_def row_current_def)

lemma code_inv_setCurrent:
  assumes inv: "code_inv env w" and keyed: "\<And>c. snap = Some c \<Longrightarrow> keyed t c"
  shows "code_inv env (setCurrent env t snap w)"
proof (cases "isSame (ts_current (held_target w t)) snap")
  case True
  then have "setCurrent env t snap w = change_target t (\<lambda>st. st) w" by (simp add: setCurrent_def)
  with code_inv_change [OF inv, of "\<lambda>st. st" t] show ?thesis by simp
next
  case False
  let ?w = "change_target t (\<lambda>st. st\<lparr>ts_current := snap\<rparr>) (change_target t (\<lambda>st. st) w)"
  have cur: "current_of ?w u = (if u = t then snap else current_of w u)" for u by (simp add: current_change)
  have rows: "rows_ok (cw_db w)" using inv by (simp add: code_inv_def)
  show ?thesis
  proof (cases snap)
    case None
    then have eq: "setCurrent env t snap w = ?w\<lparr>cw_db := forget env t (cw_db w)\<rparr>" using False by (simp add: setCurrent_def)
    have "rows_ok (forget env t (cw_db w))" unfolding forget_def by (intro rows_ok_safely rows rows_ok_forget)
    moreover have "kept_current (forget env t (cw_db w)) u = (if u = t then None else kept_current (cw_db w) u)"
      if "\<forall>n. \<not> env_write_fails env n" for u
      using that kept_current_forget [of t "(cw_db w)\<lparr>db_writes := Suc (db_writes (cw_db w))\<rparr>" u]
      by (simp add: forget_def safely_def Let_def) (simp add: kept_current_def)
    ultimately show ?thesis using inv unfolding eq by (simp add: code_inv_def cur [unfolded None] None)
  next
    case (Some c)
    then have eq: "setCurrent env t snap w = ?w\<lparr>cw_db := keep env (kept_row t c) (cw_db w)\<rparr>" using False by (simp add: setCurrent_def)
    have "rows_ok (keep env (kept_row t c) (cw_db w))"
      unfolding keep_def by (intro rows_ok_safely rows rows_ok_keep) (simp_all add: keyed_row keyed Some)
    moreover have "kept_current (keep env (kept_row t c) (cw_db w)) u = (if u = t then Some c else kept_current (cw_db w) u)"
      if "\<forall>n. \<not> env_write_fails env n" "u \<in> set (db_targets (cw_db w))" for u
      using that kept_current_keep [of "kept_row t c" "(cw_db w)\<lparr>db_writes := Suc (db_writes (cw_db w))\<rparr>" u]
      by (auto simp: keep_def safely_def Let_def keyed_row) (auto simp: kept_current_def kept_row_def)
    ultimately show ?thesis using inv keyed [OF Some] unfolding eq by (simp add: code_inv_def cur [unfolded Some] Some)
  qed
qed

lemma code_inv_audit: "code_inv env w \<Longrightarrow> code_inv env (recordBuild q outcome d w)" "code_inv env w \<Longrightarrow> code_inv env (recordRefusal r w)"
  by (erule code_inv_same; simp add: recordBuild_def recordRefusal_def)+

lemma currentAfter_keyed:
  "\<lbrakk>code_inv env w; currentAfter env (held_target w (br_target q)) q meta = Some c\<rbrakk> \<Longrightarrow> keyed (br_target q) c"
  by (auto simp: currentAfter_def keyed_def build_key_def current_held code_inv_def split: if_splits)

lemma code_inv_finished: "code_inv env w \<Longrightarrow> code_inv env (finished env q outcome ended w)"
proof -
  assume inv: "code_inv env w"
  let ?w1 = "recordBuild q outcome (be_duration ended) w"
  have w1: "code_inv env ?w1" by (rule code_inv_audit(1) [OF inv])
  show ?thesis
  proof (cases "be_abandoned ended")
    case False
    show ?thesis
    proof (cases outcome)
      case (Inl reason)
      with False show ?thesis by (auto simp: finished_def Let_def code_now_def intro!: code_inv_change w1 [unfolded Inl])
    next
      case (Inr meta)
      have kept: "code_inv env (setCurrent env (br_target q) (currentAfter env (held_target x (br_target q)) q meta) x)"
        if "code_inv env x" for x
        by (rule code_inv_setCurrent [OF that]) (rule currentAfter_keyed [OF that])
      from False Inr show ?thesis
        by (auto simp: finished_def Let_def code_now_def intro!: kept code_inv_change w1 [unfolded Inr])
    qed
  qed (simp add: finished_def w1)
qed

lemma code_inv_delete: "code_inv env w \<Longrightarrow> code_inv env (delete_target t w)"
proof -
  assume inv: "code_inv env w"
  let ?db = "forget_row t ((cw_db w)\<lparr>db_targets := filter (\<lambda>x. x \<noteq> t) (db_targets (cw_db w))\<rparr>)"
  have "rows_ok ?db" using inv by (auto simp: code_inv_def rows_ok_def forget_row_def distinct_map_filter)
  moreover have "kept_current ?db u = (if u = t then None else kept_current (cw_db w) u)" for u
    using kept_current_forget [of t "(cw_db w)\<lparr>db_targets := filter (\<lambda>x. x \<noteq> t) (db_targets (cw_db w))\<rparr>" u]
    by (simp add: kept_current_def)
  ultimately show ?thesis
    using inv unfolding code_inv_def delete_target_def by (auto simp: forget_row_def)
qed

lemma code_inv_drop: "code_inv env w \<Longrightarrow> code_inv env (drop_target env t w)"
proof -
  assume inv: "code_inv env w"
  have rows: "rows_ok (forget env t (cw_db w))" using inv unfolding forget_def code_inv_def by (auto intro: rows_ok_safely rows_ok_forget)
  have cur: "current_of (drop_target env t w) u = (if u = t then None else current_of w u)" for u
    by (simp add: drop_target_def current_of_def peek_def AList.delete_conv')
  have "kept_current (forget env t (cw_db w)) u = (if u = t then None else kept_current (cw_db w) u)"
    if "\<forall>n. \<not> env_write_fails env n" for u
    using that kept_current_forget [of t "(cw_db w)\<lparr>db_writes := Suc (db_writes (cw_db w))\<rparr>" u]
    by (simp add: forget_def safely_def Let_def) (simp add: kept_current_def)
  with inv rows show ?thesis unfolding code_inv_def cur by (simp add: drop_target_def)
qed

lemma code_inv_restart: "code_inv env w \<Longrightarrow> code_inv env (restart w)"
proof -
  assume inv: "code_inv env w"
  then have rows: "rows_ok (cw_db w)" by (simp add: code_inv_def)
  moreover have "keyed t c" if "kept_current (cw_db w) t = Some c" for t c
    using that rows by (auto simp: kept_current_def rows_ok_def dest: find_SomeD)
  moreover have "cw_db (restart w) = cw_db w" by (simp add: restart_def)
  ultimately show ?thesis by (simp add: code_inv_def current_restart)
qed

lemma code_inv_insert:
  "code_inv env w \<Longrightarrow> peek w t = None \<Longrightarrow> t \<notin> set (db_targets (cw_db w)) \<Longrightarrow> code_inv env (insert_code_target t w)"
proof -
  assume h: "code_inv env w" "peek w t = None" "t \<notin> set (db_targets (cw_db w))"
  have "kept_current (cw_db w) t = None"
    using h(1,3) by (auto simp: code_inv_def rows_ok_def kept_current_def find_None_iff)
  moreover have "current_of w t = None" using h(2) by (simp add: current_of_def)
  ultimately show ?thesis
    using h(1) by (auto simp: code_inv_def insert_code_target_def rows_ok_def kept_current_def)
qed

lemma code_inv_step: "code_step env w w' \<Longrightarrow> code_inv env w \<Longrightarrow> code_inv env w'"
proof (induction rule: code_step.induct)
  case (ResolvedRef w targetId found)
  obtain moment w1 where now: "code_now env w = (moment, w1)" by fastforce
  with code_inv_now [OF ResolvedRef] show ?case
    by (auto simp: resolved_ref_def intro!: code_inv_change split: sum.splits)
next
  case (Refused w r)
  obtain moment w1 where now: "code_now env (recordRefusal r w) = (moment, w1)" by fastforce
  with code_inv_now [OF code_inv_audit(2) [OF Refused, of r]] show ?case
    by (auto simp: refused_build_def Let_def intro!: code_inv_change)
next
  case (Adopt targetId c w)
  then show ?case by (intro code_inv_setCurrent) simp_all
next
  case (Forgot w targetId)
  then show ?case by (intro code_inv_setCurrent) simp_all
qed (simp_all add: code_inv_finished clear_failed_def code_inv_change code_inv_drop code_inv_restart code_inv_insert code_inv_delete)

interpretation code: invariant_system "code_step env" "code_inv env" for env
  by unfold_locales (rule code_inv_step)

section \<open>A restart\<close>

text \<open>
  C38: while the writes to the database succeed, a process that starts again answers calls without a
  ref from the same snapshot of every stored target; and whether they succeed or not, the snapshot it
  answers from is the one its key names: of that target, that fingerprint and that commit.
\<close>

theorem restart_keeps_current:
  assumes "(code_step env)\<^sup>*\<^sup>* new_world w"
  shows "((\<forall>n. \<not> env_write_fails env n) \<and> t \<in> set (db_targets (cw_db w)) \<longrightarrow> current_of (restart w) t = current_of w t) \<and>
    (current_of (restart w) t = Some c \<longrightarrow> cs_key c = snapshotKey t (cs_fingerprint c) (cs_commit c))"
proof -
  have inv: "code_inv env w" by (rule code.reachable_inv [OF assms code_inv_new])
  with code_inv_restart [OF inv] show ?thesis by (auto simp: code_inv_def current_restart keyed_def)
qed

text \<open>
  a build that ends changes the snapshot calls answer from only to its own, and only when it
  built the configured ref at the commit that ref last resolved to and its target was not forgotten
  meanwhile; and every build that ends leaves exactly one audit event.
\<close>

theorem late_build_never_current:
  "(current_of (finished env q outcome ended w) t \<noteq> current_of w t \<longrightarrow>
      t = br_target q \<and> \<not> be_abandoned ended \<and> br_configured q \<and>
      ts_resolvedCommit (held_target w t) = Some (br_commit q) \<and>
      (\<exists>c. current_of (finished env q outcome ended w) t = Some c \<and> cs_key c = build_key (env_sha env) q \<and> cs_commit c = br_commit q)) \<and>
    length (cw_audit (finished env q outcome ended w)) = Suc (length (cw_audit w))"
proof -
  have log: "cw_audit (setCurrent env u snap x) = cw_audit x" for u snap x
    by (simp add: setCurrent_def Let_def split: option.splits)
  have set: "current_of (setCurrent env u snap x) v = (if v = u \<and> \<not> isSame (current_of x u) snap then snap else current_of x v)"
    for u snap x v
    by (auto simp: setCurrent_def Let_def current_change current_held split: option.splits)
  note parts = finished_def Let_def code_now_def current_change current_held held_change set log recordBuild_def currentAfter_def
  show ?thesis
  proof (cases "be_abandoned ended")
    case True
    then show ?thesis by (simp add: finished_def recordBuild_def)
  next
    case live: False
    show ?thesis
    proof (cases outcome)
      case (Inl reason)
      with live show ?thesis by (simp add: parts)
    next
      case (Inr meta)
      with live show ?thesis by (auto simp: parts)
    qed
  qed
qed

section \<open>A run\<close>

definition example_code_env :: CodeEnv where
  "example_code_env = \<lparr>env_sha = (\<lambda>_. ''0123456789abcdef''), env_now = int, env_write_fails = (\<lambda>_. False)\<rparr>"

definition example_current :: CurrentSnapshot where
  "example_current =
     \<lparr>cs_key = ''t.0123456789abcdef.c'', cs_commit = ''c'', cs_ref = ''main'', cs_indexedAt = 5, cs_fingerprint = ''0123456789abcdef''\<rparr>"

definition example_code_world :: CodeWorld where
  "example_code_world = setCurrent example_code_env ''t'' (Some example_current) (insert_code_target ''t'' new_world)"

lemma example_world_reached: "(code_step example_code_env)\<^sup>*\<^sup>* new_world example_code_world"
proof -
  have "code_step example_code_env new_world (insert_code_target ''t'' new_world)"
    by (rule code_step.Inserted) (simp_all add: peek_def new_world_def)
  moreover have "code_step example_code_env (insert_code_target ''t'' new_world) example_code_world"
    unfolding example_code_world_def by (rule code_step.Adopt) (simp add: keyed_def example_current_def snapshotKey_def)
  ultimately show ?thesis by (meson r_into_rtranclp rtranclp.rtrancl_into_rtrancl)
qed

lemma restart_keeps_current_witness: "current_of (restart example_code_world) ''t'' = Some example_current"
proof -
  have "isSame None (Some example_current) = False" by (simp add: isSame_def)
  then have "current_of example_code_world ''t'' = Some example_current" "''t'' \<in> set (db_targets (cw_db example_code_world))"
    by (simp_all add: example_code_world_def setCurrent_def insert_code_target_def new_world_def held_target_def peek_def
        emptyTarget_def current_of_def change_target_def Let_def)
  with restart_keeps_current [OF example_world_reached, of "''t''"] show ?thesis by (simp add: example_code_env_def)
qed

definition none_skipped :: Skipped where
  "none_skipped = \<lparr>skipped_links = 0, skipped_special = 0, skipped_excluded = 0, skipped_large = 0\<rparr>"

text \<open>A build of the configured ref that ends after the ref moved on: calls still answer from the old snapshot.\<close>

lemma late_build_never_current_witness:
  "current_of (finished example_code_env ((example_build ''old'')\<lparr>br_target := ''t'', br_configured := True\<rparr>)
     (ok \<lparr>sm_created_at = 9, sm_files = 1, sm_skipped = none_skipped, sm_variant_chunks = [(''code'', 1)]\<rparr>) \<lparr>be_duration = 1, be_abandoned = False\<rparr>
     (resolved_ref example_code_env ''t'' (ok \<lparr>rr_commit = ''new'', rr_ref = ''main''\<rparr>) new_world)) ''t'' = None"
proof -
  let ?w = "resolved_ref example_code_env ''t'' (ok \<lparr>rr_commit = ''new'', rr_ref = ''main''\<rparr>) new_world"
  have w: "ts_resolvedCommit (held_target ?w ''t'') = Some ''new''" "current_of ?w ''t'' = None"
    by (simp_all add: resolved_ref_def code_now_def new_world_def held_target_def change_target_def emptyTarget_def ok_def current_of_def
        peek_def)
  from late_build_never_current [of example_code_env "(example_build ''old'')\<lparr>br_target := ''t'', br_configured := True\<rparr>"
      "ok \<lparr>sm_created_at = 9, sm_files = 1, sm_skipped = none_skipped, sm_variant_chunks = [(''code'', 1)]\<rparr>" "\<lparr>be_duration = 1, be_abandoned = False\<rparr>" ?w "''t''"]
  show ?thesis using w by (auto simp: example_build_def)
qed

end
