(* ===== verification/CodeIndexes.thy ===== *)
theory CodeIndexes
  imports CodeState
begin

text \<open>
  Which snapshot a call reads: the commit its ref names
  (\<^verbatim>\<open>src/actions/connectors/code/resolution.ts\<close>) and the snapshot of that commit (\<^verbatim>\<open>indexes.ts\<close>).

  A preparation is cut at its awaits: between two of them other calls, builds that end, saves and
  deletions may change the state. Its stage says what it waits for; what GitHub, the sidecar and the
  timer answer comes from outside.
\<close>

section \<open>Requests and answers\<close>

record PrepareRequest =
  pr_target :: string
  pr_name :: string
  pr_documents :: CodeDocuments
  pr_ref :: "string option"
  pr_content :: "ContentType list"

record PreparedIndex =
  pp_target :: string
  pp_key :: string
  pp_label :: string
  pp_repository :: string
  pp_commit :: string
  pp_ref :: string
  pp_stale :: bool
  pp_indexedAt :: int

datatype SnapshotState = SnapshotReady SnapshotMeta | SnapshotBuilding | SnapshotMissing

text \<open>
  What a preparation waits for: the answer about its ref (with the snapshot it could answer from
  instead), the sidecar's about the snapshot, a build. At the end: what the ref resolved to, when it
  did, and the result.
\<close>

datatype PrepareStage =
    AskRef "CurrentSnapshot option"
  | AskStatus ResolvedReference
  | AwaitBuild ResolvedReference nat
  | Done "ResolvedReference option" "(PreparedIndex, ActionError) result"

record CodeSystem =
  sys_world :: CodeWorld
  sys_builds :: BuildsState

definition in_world :: "(CodeWorld \<Rightarrow> CodeWorld) \<Rightarrow> CodeSystem \<Rightarrow> CodeSystem" where
  "in_world f s = s\<lparr>sys_world := f (sys_world s)\<rparr>"

definition notReady :: "string \<Rightarrow> string \<Rightarrow> string option \<Rightarrow> ActionError" where
  "notReady repo state reason =
     action_error index_not_ready
       ([(''state'', DText state), (''repo'', DText repo)] @ (case reason of None \<Rightarrow> [] | Some r \<Rightarrow> [(''reason'', DText r)]))"

definition failedBuild :: "string \<Rightarrow> string \<Rightarrow> ActionError" where
  "failedBuild label reason =
     (if reason = ''index_unavailable'' then action_error index_unavailable []
      else if reason = ''ref_not_found'' then action_error ref_not_found []
      else notReady label ''failed'' (Some reason))"

definition variantsFor :: "PrepareRequest \<Rightarrow> bool \<Rightarrow> ContentType list list" where
  "variantsFor q isConfigured =
     (let whole = normaliseContent (cp_content (cd_policy (pr_documents q)));
          texts = (\<lambda>types. join_with (CHR ''+'') (map content_name types))
      in if isConfigured \<and> texts whole \<noteq> texts (pr_content q) then [pr_content q, whole] else [pr_content q])"

definition buildRequestFor :: "PrepareRequest \<Rightarrow> ResolvedReference \<Rightarrow> bool \<Rightarrow> BuildRequest" where
  "buildRequestFor q resolved isConfigured =
     \<lparr>br_target = pr_target q, br_name = pr_name q, br_documents = pr_documents q, br_commit = rr_commit resolved,
      br_ref = rr_ref resolved, br_trigger = by_call, br_variants = variantsFor q isConfigured, br_configured = isConfigured\<rparr>"

definition prepared_from :: "PrepareRequest \<Rightarrow> string \<Rightarrow> string \<Rightarrow> string \<Rightarrow> int \<Rightarrow> bool \<Rightarrow> PreparedIndex" where
  "prepared_from q key commit ref indexedAt isStale =
     \<lparr>pp_target = pr_target q, pp_key = key, pp_label = pr_name q,
      pp_repository = dest_repository (cd_destination (pr_documents q)), pp_commit = commit, pp_ref = ref,
      pp_stale = isStale, pp_indexedAt = indexedAt\<rparr>"

definition prepared_current :: "PrepareRequest \<Rightarrow> CurrentSnapshot \<Rightarrow> bool \<Rightarrow> PreparedIndex" where
  "prepared_current q c isStale = prepared_from q (cs_key c) (cs_commit c) (cs_ref c) (cs_indexedAt c) isStale"

section \<open>What is fresh\<close>

definition isFresh :: "CodeEnv \<Rightarrow> int \<Rightarrow> CodeDocuments \<Rightarrow> CodeWorld \<Rightarrow> bool \<times> CodeWorld" where
  "isFresh env moment documents w =
     (case code_now env w of (t, w') \<Rightarrow> (t - moment < int (cp_refresh_interval_s (cd_policy documents) * CODE_MS_PER_SECOND), w'))"

definition recentFailure :: "CodeEnv \<Rightarrow> PrepareRequest \<Rightarrow> string \<Rightarrow> CodeWorld \<Rightarrow> string option \<times> CodeWorld" where
  "recentFailure env q key w =
     (let w1 = change_target (pr_target q) (\<lambda>st. st) w in
      case map_of (ts_failed (held_target w1 (pr_target q))) key of
        None \<Rightarrow> (None, w1)
      | Some (reason, moment) \<Rightarrow>
          (case isFresh env moment (pr_documents q) w1 of (fresh, w2) \<Rightarrow> (if fresh then Some reason else None, w2)))"

text \<open>The last resolution of the configured ref while it is fresh, and its failure while there is a snapshot.\<close>

definition cached_resolution ::
  "CodeEnv \<Rightarrow> PrepareRequest \<Rightarrow> bool \<Rightarrow> CodeWorld \<Rightarrow> (ResolvedReference, ActionError) result option \<times> CodeWorld" where
  "cached_resolution env q hasSnapshot w =
     (if pr_ref q \<noteq> None then (None, w)
      else
        (let w1 = change_target (pr_target q) (\<lambda>st. st) w in
         case ts_resolution (held_target w1 (pr_target q)) of
           None \<Rightarrow> (None, w1)
         | Some (ResolvedTo moment commit ref) \<Rightarrow>
             (case isFresh env moment (pr_documents q) w1 of (fresh, w2) \<Rightarrow>
                (if fresh then Some (ok \<lparr>rr_commit = commit, rr_ref = ref\<rparr>) else None, w2))
         | Some (ResolutionFailed moment code) \<Rightarrow>
             (case isFresh env moment (pr_documents q) w1 of (fresh, w2) \<Rightarrow>
                (if fresh \<and> hasSnapshot then Some (fail (action_error code [])) else None, w2))))"

definition request_fingerprint :: "CodeEnv \<Rightarrow> PrepareRequest \<Rightarrow> string" where
  "request_fingerprint env q = extractionFingerprint (env_sha env) (pr_documents q)"

definition request_key :: "CodeEnv \<Rightarrow> PrepareRequest \<Rightarrow> string \<Rightarrow> string" where
  "request_key env q commit = snapshotKey (pr_target q) (request_fingerprint env q) commit"

definition current_for :: "CodeEnv \<Rightarrow> PrepareRequest \<Rightarrow> CodeWorld \<Rightarrow> CurrentSnapshot option" where
  "current_for env q w =
     (case ts_current (held_target w (pr_target q)) of
        Some c \<Rightarrow> if pr_ref q = None \<and> cs_fingerprint c = request_fingerprint env q then Some c else None
      | None \<Rightarrow> None)"

section \<open>The stages\<close>

definition start_moved :: "CodeEnv \<Rightarrow> BuildLimits \<Rightarrow> PrepareRequest \<Rightarrow> ResolvedReference \<Rightarrow> CodeSystem \<Rightarrow> CodeSystem" where
  "start_moved env lims q resolved s =
     (case recentFailure env q (request_key env q (rr_commit resolved)) (sys_world s) of (failure, w) \<Rightarrow>
        (let s1 = s\<lparr>sys_world := w\<rparr> in
         if failure \<noteq> None then s1
         else s1\<lparr>sys_builds := snd (start_build (env_sha env) lims (buildRequestFor q resolved True) (sys_builds s1))\<rparr>))"

definition adopt :: "CodeEnv \<Rightarrow> PrepareRequest \<Rightarrow> ResolvedReference \<Rightarrow> int \<Rightarrow> CodeSystem \<Rightarrow> PrepareStage \<times> CodeSystem" where
  "adopt env q resolved indexedAt s =
     (let key = request_key env q (rr_commit resolved);
          snap = \<lparr>cs_key = key, cs_commit = rr_commit resolved, cs_ref = rr_ref resolved, cs_indexedAt = indexedAt,
            cs_fingerprint = request_fingerprint env q\<rparr>;
          s1 = (if pr_ref q = None then in_world (setCurrent env (pr_target q) (Some snap)) s else s)
      in (Done (Some resolved) (ok (prepared_from q key (rr_commit resolved) (rr_ref resolved) indexedAt False)), s1))"

definition ensure_snapshot :: "CodeEnv \<Rightarrow> PrepareRequest \<Rightarrow> ResolvedReference \<Rightarrow> CodeSystem \<Rightarrow> PrepareStage \<times> CodeSystem" where
  "ensure_snapshot env q resolved s =
     (case recentFailure env q (request_key env q (rr_commit resolved)) (sys_world s) of (failure, w) \<Rightarrow>
        ((case failure of
            Some reason \<Rightarrow> Done (Some resolved) (fail (failedBuild (pr_name q) reason))
          | None \<Rightarrow> AskStatus resolved), s\<lparr>sys_world := w\<rparr>))"

definition after_resolution ::
  "CodeEnv \<Rightarrow> BuildLimits \<Rightarrow> PrepareRequest \<Rightarrow> CurrentSnapshot option \<Rightarrow> (ResolvedReference, ActionError) result \<Rightarrow>
   CodeSystem \<Rightarrow> PrepareStage \<times> CodeSystem" where
  "after_resolution env lims q cur found s =
     (case found of
        Inl e \<Rightarrow>
          (case cur of
             None \<Rightarrow> (Done None (fail e), s)
           | Some c \<Rightarrow> (Done None (ok (prepared_current q c False)), s))
      | Inr resolved \<Rightarrow>
          (case cur of
             Some c \<Rightarrow>
               if cs_commit c \<noteq> rr_commit resolved
               then (Done (Some resolved) (ok (prepared_current q c True)), start_moved env lims q resolved s)
               else ensure_snapshot env q resolved s
           | None \<Rightarrow> ensure_snapshot env q resolved s))"

definition begin_prepare :: "CodeEnv \<Rightarrow> BuildLimits \<Rightarrow> PrepareRequest \<Rightarrow> CodeSystem \<Rightarrow> PrepareStage \<times> CodeSystem" where
  "begin_prepare env lims q s =
     (let s1 = in_world (change_target (pr_target q) (\<lambda>st. st)) s;
          cur = current_for env q (sys_world s1)
      in case cached_resolution env q (cur \<noteq> None) (sys_world s1) of (cached, w) \<Rightarrow>
           (case cached of
              None \<Rightarrow> (AskRef cur, s1\<lparr>sys_world := w\<rparr>)
            | Some found \<Rightarrow> after_resolution env lims q cur found (s1\<lparr>sys_world := w\<rparr>)))"

text \<open>The answer about the ref: of the configured one it is remembered, and a failure with a snapshot is recorded.\<close>

definition answer_ref ::
  "CodeEnv \<Rightarrow> BuildLimits \<Rightarrow> PrepareRequest \<Rightarrow> CurrentSnapshot option \<Rightarrow> (ResolvedReference, ActionError) result \<Rightarrow>
   CodeSystem \<Rightarrow> PrepareStage \<times> CodeSystem" where
  "answer_ref env lims q cur found s =
     (let s1 =
        (if pr_ref q \<noteq> None then s
         else
           (let s2 = in_world (resolved_ref env (pr_target q) found) s in
            case found of
              Inl e \<Rightarrow>
                if cur = None then s2
                else in_world (refused_build env
                  \<lparr>rf_target = pr_target q, rf_name = pr_name q, rf_trigger = by_call, rf_content = pr_content q,
                   rf_reason = code_name (error_code e)\<rparr>) s2
            | Inr _ \<Rightarrow> s2))
      in after_resolution env lims q cur found s1)"

definition answer_status ::
  "CodeEnv \<Rightarrow> BuildLimits \<Rightarrow> PrepareRequest \<Rightarrow> ResolvedReference \<Rightarrow> (SnapshotState, SidecarError) result \<Rightarrow>
   CodeSystem \<Rightarrow> PrepareStage \<times> CodeSystem" where
  "answer_status env lims q resolved status s =
     (case status of
        Inl e \<Rightarrow> (Done (Some resolved) (fail (refusalError e (pr_name q))), s)
      | Inr (SnapshotReady meta) \<Rightarrow> adopt env q resolved (sm_created_at meta) s
      | Inr _ \<Rightarrow>
          (let isConfigured = (pr_ref q = None);
               build = buildRequestFor q resolved isConfigured
           in case (if isConfigured then apfst Some (start_build (env_sha env) lims build (sys_builds s))
                    else try_start (env_sha env) lims build (sys_builds s)) of
                (None, b) \<Rightarrow>
                  (Done (Some resolved)
                     (fail (action_error rate_limited
                       [(''retry_after_s'', DNumber BUILD_RETRY_AFTER_S), (''repo'', DText (pr_name q))])),
                   s\<lparr>sys_builds := b\<rparr>)
              | (Some f, b) \<Rightarrow> (AwaitBuild resolved f, s\<lparr>sys_builds := b\<rparr>)))"

text \<open>What the wait for the build gave: its outcome, or \<open>None\<close> at the deadline.\<close>

definition answer_build ::
  "CodeEnv \<Rightarrow> PrepareRequest \<Rightarrow> ResolvedReference \<Rightarrow> BuildOutcome option \<Rightarrow> CodeSystem \<Rightarrow> PrepareStage \<times> CodeSystem" where
  "answer_build env q resolved outcome s =
     (case outcome of
        None \<Rightarrow> (Done (Some resolved) (fail (notReady (pr_name q) ''building'' None)), s)
      | Some (Inr meta) \<Rightarrow> adopt env q resolved (sm_created_at meta) s
      | Some (Inl reason) \<Rightarrow> (Done (Some resolved) (fail (failedBuild (pr_name q) reason)), s))"

text \<open>\<^verbatim>\<open>forget\<close>: a snapshot the sidecar no longer has.\<close>

definition forget_snapshot :: "CodeEnv \<Rightarrow> string \<Rightarrow> string \<Rightarrow> CodeWorld \<Rightarrow> CodeWorld" where
  "forget_snapshot env targetId key w =
     (if map_option cs_key (Option.bind (peek w targetId) ts_current) = Some key then setCurrent env targetId None w else w)"

section \<open>Builds with their ends\<close>

text \<open>A turn of a flight: when it ended it, the state hears of it.\<close>

definition told :: "CodeEnv \<Rightarrow> BuildsState \<Rightarrow> CodeSystem \<Rightarrow> CodeSystem" where
  "told env b s =
     (let new_ends = drop (length (bs_finished (sys_builds s))) (bs_finished b) in
      s\<lparr>sys_builds := b,
        sys_world := fold (\<lambda>(f, outcome, ended). finished env (fl_request (bs_flights b ! f)) outcome ended) new_ends (sys_world s)\<rparr>)"

definition sys_begin :: "CodeEnv \<Rightarrow> nat \<Rightarrow> int \<Rightarrow> int \<Rightarrow> CodeSystem \<Rightarrow> CodeSystem" where
  "sys_begin env f startedAt moment s = told env (begin_flight (env_sha env) f startedAt moment (sys_builds s)) s"

definition sys_settle :: "CodeEnv \<Rightarrow> nat \<Rightarrow> BuildOutcome option \<Rightarrow> int \<Rightarrow> int \<Rightarrow> CodeSystem \<Rightarrow> CodeSystem" where
  "sys_settle env f built startedAt moment s = told env (settle_flight (env_sha env) f built startedAt moment (sys_builds s)) s"

section \<open>Calls that interleave\<close>

record CodeCallsState =
  ccs_system :: CodeSystem
  ccs_calls :: "(PrepareRequest \<times> PrepareStage) list"

definition moved_on :: "nat \<Rightarrow> PrepareStage \<times> CodeSystem \<Rightarrow> CodeCallsState \<Rightarrow> CodeCallsState" where
  "moved_on i r s = s\<lparr>ccs_system := snd r, ccs_calls := (ccs_calls s)[i := (fst (ccs_calls s ! i), fst r)]\<rparr>"

definition call_at :: "CodeCallsState \<Rightarrow> nat \<Rightarrow> (PrepareRequest \<times> PrepareStage) option" where
  "call_at s i = (if i < length (ccs_calls s) then Some (ccs_calls s ! i) else None)"

inductive calls_step :: "CodeEnv \<Rightarrow> BuildLimits \<Rightarrow> CodeCallsState \<Rightarrow> CodeCallsState \<Rightarrow> bool" for env lims where
  NewCall:
    "begin_prepare env lims q (ccs_system s) = (stage, sys) \<Longrightarrow>
     calls_step env lims s (s\<lparr>ccs_system := sys, ccs_calls := ccs_calls s @ [(q, stage)]\<rparr>)"
| RefAnswered:
    "call_at s i = Some (q, AskRef cur) \<Longrightarrow> calls_step env lims s (moved_on i (answer_ref env lims q cur found (ccs_system s)) s)"
| StatusAnswered:
    "call_at s i = Some (q, AskStatus resolved) \<Longrightarrow>
     calls_step env lims s (moved_on i (answer_status env lims q resolved status (ccs_system s)) s)"
| BuildAnswered:
    "call_at s i = Some (q, AwaitBuild resolved f) \<Longrightarrow> map_of (bs_finished (sys_builds (ccs_system s))) f = Some (outcome, ended) \<Longrightarrow>
     calls_step env lims s (moved_on i (answer_build env q resolved (Some outcome) (ccs_system s)) s)"
| DeadlinePassed:
    "call_at s i = Some (q, AwaitBuild resolved f) \<Longrightarrow>
     calls_step env lims s (moved_on i (answer_build env q resolved None (ccs_system s)) s)"
| Evicted: "calls_step env lims s (s\<lparr>ccs_system := in_world (forget_snapshot env targetId key) (ccs_system s)\<rparr>)"
| BuildBegins:
    "phase_of (sys_builds (ccs_system s)) f = Some Granted \<Longrightarrow>
     calls_step env lims s (s\<lparr>ccs_system := sys_begin env f startedAt moment (ccs_system s)\<rparr>)"
| BuildSettles:
    "phase_of (sys_builds (ccs_system s)) f = Some (Runs startedAt) \<Longrightarrow>
     calls_step env lims s (s\<lparr>ccs_system := sys_settle env f built startedAt moment (ccs_system s)\<rparr>)"
| OtherWork: "code_step env (sys_world (ccs_system s)) w \<Longrightarrow> calls_step env lims s (s\<lparr>ccs_system := (ccs_system s)\<lparr>sys_world := w\<rparr>\<rparr>)"
| OtherStart:
    "calls_step env lims s
       (s\<lparr>ccs_system := (ccs_system s)\<lparr>sys_builds := snd (start_build (env_sha env) lims b (sys_builds (ccs_system s)))\<rparr>\<rparr>)"
| BuildsForgotten:
    "calls_step env lims s
       (s\<lparr>ccs_system := (ccs_system s)\<lparr>sys_builds := forget_builds targetId (sys_builds (ccs_system s))\<rparr>\<rparr>)"

definition new_calls :: CodeCallsState where
  "new_calls = \<lparr>ccs_system = \<lparr>sys_world = new_world, sys_builds = new_builds\<rparr>, ccs_calls = []\<rparr>"

end
