(* ===== verification/CodeIndexesSafety.thy ===== *)
theory CodeIndexesSafety
  imports CodeIndexes CodeStateSafety
begin

text \<open>
  Which snapshot a call is given, however calls, builds, saves and deletions interleave: always one
  of its own target, under its own documents, at the commit its answer names.
\<close>

section \<open>The world under a preparation\<close>

lemma inv_touch: "code_inv env w \<Longrightarrow> code_inv env (change_target t (\<lambda>st. st) w)"
  by (rule code_inv_change) simp_all

lemma inv_fresh: "code_inv env w \<Longrightarrow> code_inv env (snd (isFresh env m d w))"
  by (simp add: isFresh_def code_now_def)

lemma inv_recent: "code_inv env w \<Longrightarrow> code_inv env (snd (recentFailure env q key w))"
  using inv_fresh inv_touch by (auto simp: recentFailure_def Let_def split_beta split: option.splits)

lemma inv_cached: "code_inv env w \<Longrightarrow> code_inv env (snd (cached_resolution env q b w))"
  using inv_fresh inv_touch by (auto simp: cached_resolution_def Let_def split_beta split: option.splits CodeResolution.splits)

lemma inv_resolved: "code_inv env w \<Longrightarrow> code_inv env (resolved_ref env t found w)"
  by (rule code_inv_step [OF code_step.ResolvedRef])

lemma inv_refused: "code_inv env w \<Longrightarrow> code_inv env (refused_build env r w)"
  by (rule code_inv_step [OF code_step.Refused])

section \<open>Stages\<close>

text \<open>
  What an answer promises: the snapshot is of the call's target under its documents, at the commit
  the answer names; not stale it is the commit the ref resolved to, stale it is another commit of the
  configured ref, and only the configured ref is answered without having been resolved.
\<close>

definition prepared_ok :: "CodeEnv \<Rightarrow> PrepareRequest \<Rightarrow> ResolvedReference option \<Rightarrow> PreparedIndex \<Rightarrow> bool" where
  "prepared_ok env q resolved p \<longleftrightarrow>
     pp_target p = pr_target q \<and> pp_label p = pr_name q \<and>
     pp_repository p = dest_repository (cd_destination (pr_documents q)) \<and>
     pp_key p = request_key env q (pp_commit p) \<and>
     (case resolved of
        Some r \<Rightarrow> (if pp_stale p then pr_ref q = None \<and> pp_commit p \<noteq> rr_commit r else pp_commit p = rr_commit r)
      | None \<Rightarrow> pr_ref q = None \<and> \<not> pp_stale p)"

definition current_ok :: "CodeEnv \<Rightarrow> PrepareRequest \<Rightarrow> CurrentSnapshot option \<Rightarrow> bool" where
  "current_ok env q cur \<longleftrightarrow>
     (case cur of None \<Rightarrow> True | Some c \<Rightarrow> pr_ref q = None \<and> cs_key c = request_key env q (cs_commit c))"

definition stage_ok :: "CodeEnv \<Rightarrow> PrepareRequest \<Rightarrow> PrepareStage \<Rightarrow> bool" where
  "stage_ok env q stage \<longleftrightarrow>
     (case stage of
        AskRef cur \<Rightarrow> current_ok env q cur
      | Done resolved (Inr p) \<Rightarrow> prepared_ok env q resolved p
      | _ \<Rightarrow> True)"

definition system_inv :: "CodeEnv \<Rightarrow> BuildLimits \<Rightarrow> CodeSystem \<Rightarrow> bool" where
  "system_inv env lims s \<longleftrightarrow> code_inv env (sys_world s) \<and> builds_inv (env_sha env) lims (sys_builds s)"

text \<open>A segment that keeps the system and leads to a stage that keeps its promise.\<close>

definition good :: "CodeEnv \<Rightarrow> BuildLimits \<Rightarrow> PrepareRequest \<Rightarrow> PrepareStage \<times> CodeSystem \<Rightarrow> bool" where
  "good env lims q r \<longleftrightarrow> stage_ok env q (fst r) \<and> system_inv env lims (snd r)"

lemma system_world: "system_inv env lims s \<Longrightarrow> code_inv env w \<Longrightarrow> system_inv env lims (s\<lparr>sys_world := w\<rparr>)"
  by (simp add: system_inv_def)

lemma system_builds: "system_inv env lims s \<Longrightarrow> builds_inv (env_sha env) lims b \<Longrightarrow> system_inv env lims (s\<lparr>sys_builds := b\<rparr>)"
  by (simp add: system_inv_def)

lemma current_for_ok: "code_inv env w \<Longrightarrow> current_ok env q (current_for env q w)"
  by (auto simp: current_for_def current_ok_def current_held code_inv_def keyed_def request_key_def split: option.splits)

lemma good_fail: "system_inv env lims s \<Longrightarrow> good env lims q (Done r (fail e), s)"
  by (simp add: good_def stage_ok_def fail_def)

lemma good_current:
  assumes "system_inv env lims s" and "current_ok env q (Some c)"
    and "case r of None \<Rightarrow> \<not> b | Some rr \<Rightarrow> b \<and> cs_commit c \<noteq> rr_commit rr"
  shows "good env lims q (Done r (ok (prepared_current q c b)), s)"
  using assms by (auto simp: good_def stage_ok_def ok_def prepared_ok_def prepared_current_def prepared_from_def current_ok_def
      split: option.splits)

lemma system_moved: "system_inv env lims s \<Longrightarrow> system_inv env lims (start_moved env lims q r s)"
  using inv_recent [of env "sys_world s" q "request_key env q (rr_commit r)"]
  by (auto simp: start_moved_def split_beta Let_def system_inv_def inv_start)

lemma good_adopt: "system_inv env lims s \<Longrightarrow> good env lims q (adopt env q r t s)"
  by (auto simp: good_def adopt_def Let_def stage_ok_def ok_def prepared_ok_def prepared_from_def in_world_def system_inv_def
      request_key_def keyed_def intro!: code_inv_setCurrent)

lemma good_ensure: "system_inv env lims s \<Longrightarrow> good env lims q (ensure_snapshot env q r s)"
  using inv_recent [of env "sys_world s" q "request_key env q (rr_commit r)"]
  by (auto simp: ensure_snapshot_def split_beta good_def stage_ok_def fail_def system_inv_def split: option.splits)

lemma good_after: "system_inv env lims s \<Longrightarrow> current_ok env q cur \<Longrightarrow> good env lims q (after_resolution env lims q cur found s)"
  by (auto simp: after_resolution_def good_fail good_ensure system_moved intro!: good_current split: sum.splits option.splits)

lemma good_begin: "system_inv env lims s \<Longrightarrow> good env lims q (begin_prepare env lims q s)"
proof -
  assume inv: "system_inv env lims s"
  let ?w = "change_target (pr_target q) (\<lambda>st. st) (sys_world s)"
  let ?cur = "current_for env q ?w"
  have w: "code_inv env ?w" using inv by (simp add: system_inv_def inv_touch)
  obtain cached w' where c: "cached_resolution env q (?cur \<noteq> None) ?w = (cached, w')" by fastforce
  have w': "code_inv env w'" using inv_cached [OF w, of q "?cur \<noteq> None"] c by simp
  have cur: "current_ok env q ?cur" by (rule current_for_ok [OF w])
  from w' inv have "system_inv env lims (s\<lparr>sys_world := w'\<rparr>)" by (simp add: system_inv_def)
  with c cur good_after [OF this cur] show ?thesis
    by (auto simp: begin_prepare_def Let_def in_world_def good_def stage_ok_def split: option.splits)
qed

lemma good_answer_ref: "system_inv env lims s \<Longrightarrow> current_ok env q cur \<Longrightarrow> good env lims q (answer_ref env lims q cur found s)"
  unfolding answer_ref_def Let_def
  by (intro good_after) (auto simp: system_inv_def in_world_def inv_resolved inv_refused split: sum.splits)

lemma good_answer_status: "system_inv env lims s \<Longrightarrow> good env lims q (answer_status env lims q r status s)"
proof -
  assume inv: "system_inv env lims s"
  define result where "result =
    (if pr_ref q = None then apfst Some (start_build (env_sha env) lims (buildRequestFor q r (pr_ref q = None)) (sys_builds s))
     else try_start (env_sha env) lims (buildRequestFor q r (pr_ref q = None)) (sys_builds s))"
  have b: "builds_inv (env_sha env) lims (snd result)"
    using inv by (auto simp: result_def system_inv_def inv_start inv_try_start)
  obtain f bs where res: "result = (f, bs)" by fastforce
  have sys: "system_inv env lims (s\<lparr>sys_builds := bs\<rparr>)" using system_builds [OF inv] b res by simp
  have run: "answer_status env lims q r (Inr st) s =
    (case f of
       None \<Rightarrow> (Done (Some r) (fail (action_error rate_limited
                       [(''retry_after_s'', DNumber BUILD_RETRY_AFTER_S), (''repo'', DText (pr_name q))])), s\<lparr>sys_builds := bs\<rparr>)
     | Some g \<Rightarrow> (AwaitBuild r g, s\<lparr>sys_builds := bs\<rparr>))" if "st = SnapshotBuilding \<or> st = SnapshotMissing" for st
    using that res unfolding result_def answer_status_def Let_def by (auto split: option.splits)
  have built: "good env lims q (answer_status env lims q r (Inr st) s)" if "st = SnapshotBuilding \<or> st = SnapshotMissing" for st
    unfolding run [OF that] using sys good_fail [OF sys] by (auto simp: good_def stage_ok_def split: option.splits)
  show ?thesis
  proof (cases status)
    case (Inl e)
    then show ?thesis by (simp add: answer_status_def good_fail inv)
  next
    case (Inr st)
    show ?thesis
    proof (cases st)
      case (SnapshotReady meta)
      with Inr show ?thesis by (simp add: answer_status_def good_adopt inv)
    next
      case SnapshotBuilding
      with built [of st] Inr show ?thesis by simp
    next
      case SnapshotMissing
      with built [of st] Inr show ?thesis by simp
    qed
  qed
qed

lemma good_answer_build: "system_inv env lims s \<Longrightarrow> good env lims q (answer_build env q r outcome s)"
  by (auto simp: answer_build_def good_fail good_adopt split: option.splits sum.splits)

lemma system_told: "system_inv env lims s \<Longrightarrow> builds_inv (env_sha env) lims b \<Longrightarrow> system_inv env lims (told env b s)"
proof -
  assume inv: "system_inv env lims s" and b: "builds_inv (env_sha env) lims b"
  have "code_inv env w \<Longrightarrow>
      code_inv env (fold (\<lambda>(f, outcome, ended). finished env (fl_request (bs_flights b ! f)) outcome ended) ends w)" for ends w
    by (induction ends arbitrary: w) (auto intro: code_inv_finished)
  with inv b show ?thesis by (simp add: told_def Let_def system_inv_def)
qed

section \<open>Every reachable state\<close>

definition calls_inv :: "CodeEnv \<Rightarrow> BuildLimits \<Rightarrow> CodeCallsState \<Rightarrow> bool" where
  "calls_inv env lims s \<longleftrightarrow> system_inv env lims (ccs_system s) \<and> (\<forall>(q, stage) \<in> set (ccs_calls s). stage_ok env q stage)"

lemma calls_inv_new: "calls_inv env lims new_calls"
  by (simp add: calls_inv_def new_calls_def system_inv_def code_inv_new builds_inv_new)

lemma call_at_in: "call_at s i = Some x \<Longrightarrow> x \<in> set (ccs_calls s)"
  by (auto simp: call_at_def split: if_splits)

lemma calls_inv_moved:
  assumes inv: "calls_inv env lims s" and c: "call_at s i = Some (q, stage)" and g: "good env lims q r"
  shows "calls_inv env lims (moved_on i r s)"
proof -
  have i: "i < length (ccs_calls s)" "ccs_calls s ! i = (q, stage)" using c by (auto simp: call_at_def split: if_splits)
  with inv g show ?thesis
    unfolding calls_inv_def moved_on_def good_def
    by (auto dest!: subsetD [OF set_update_subset_insert])
qed

lemma calls_inv_system: "calls_inv env lims s \<Longrightarrow> system_inv env lims sys \<Longrightarrow> calls_inv env lims (s\<lparr>ccs_system := sys\<rparr>)"
  by (simp add: calls_inv_def)

lemma calls_inv_step: "calls_step env lims s s' \<Longrightarrow> calls_inv env lims s \<Longrightarrow> calls_inv env lims s'"
proof (induction rule: calls_step.induct)
  case (NewCall q s stage sys)
  then show ?case using good_begin [of env lims "ccs_system s" q] by (auto simp: calls_inv_def good_def)
next
  case (RefAnswered s i q cur found)
  have "current_ok env q cur" using RefAnswered call_at_in [of s i] by (fastforce simp: calls_inv_def stage_ok_def)
  with RefAnswered show ?case by (intro calls_inv_moved [OF _ RefAnswered(1)] good_answer_ref) (simp_all add: calls_inv_def)
next
  case (StatusAnswered s i q resolved status)
  then show ?case by (intro calls_inv_moved [OF _ StatusAnswered(1)] good_answer_status) (simp_all add: calls_inv_def)
next
  case (BuildAnswered s i q resolved f outcome ended)
  then show ?case by (intro calls_inv_moved [OF _ BuildAnswered(1)] good_answer_build) (simp_all add: calls_inv_def)
next
  case (DeadlinePassed s i q resolved f)
  then show ?case by (intro calls_inv_moved [OF _ DeadlinePassed(1)] good_answer_build) (simp_all add: calls_inv_def)
next
  case (Evicted s targetId key)
  then have sys: "system_inv env lims (ccs_system s)" by (simp add: calls_inv_def)
  then have "code_inv env (forget_snapshot env targetId key (sys_world (ccs_system s)))"
    by (auto simp: forget_snapshot_def system_inv_def intro!: code_inv_setCurrent)
  with sys Evicted show ?case by (intro calls_inv_system) (simp_all add: in_world_def system_world)
next
  case (BuildBegins s f startedAt moment)
  then have sys: "system_inv env lims (ccs_system s)" by (simp add: calls_inv_def)
  then have "builds_inv (env_sha env) lims (begin_flight (env_sha env) f startedAt moment (sys_builds (ccs_system s)))"
    using BuildBegins(1) by (intro builds_inv_step [OF build_step.Begin]) (simp_all add: system_inv_def)
  with sys BuildBegins show ?case by (intro calls_inv_system) (simp_all add: sys_begin_def system_told)
next
  case (BuildSettles s f startedAt built moment)
  then have sys: "system_inv env lims (ccs_system s)" by (simp add: calls_inv_def)
  then have "builds_inv (env_sha env) lims (settle_flight (env_sha env) f built startedAt moment (sys_builds (ccs_system s)))"
    using BuildSettles(1) by (intro builds_inv_step [OF build_step.Settle]) (simp_all add: system_inv_def)
  with sys BuildSettles show ?case by (intro calls_inv_system) (simp_all add: sys_settle_def system_told)
next
  case (OtherWork s w)
  then show ?case by (intro calls_inv_system system_world) (auto simp: calls_inv_def system_inv_def intro: code_inv_step)
next
  case (OtherStart s b)
  then show ?case by (intro calls_inv_system system_builds) (auto simp: calls_inv_def system_inv_def intro: inv_start)
next
  case (BuildsForgotten s targetId)
  then show ?case by (intro calls_inv_system system_builds) (auto simp: calls_inv_def system_inv_def intro: inv_forget)
qed

interpretation calls: invariant_system "calls_step env lims" "calls_inv env lims" for env lims
  by unfold_locales (rule calls_inv_step)

text \<open>
  C39: in whatever order calls, builds that end, saves and deletions interleave, a call that is given a
  snapshot is given one of its own target, built under the documents of the call, at the commit the
  answer names. Unless the answer says \<^verbatim>\<open>stale\<close> that is the commit the call's ref resolved to; a stale
  answer is for the configured ref only, and so is one given without a resolution.
\<close>

theorem prepared_is_own_snapshot:
  assumes "(calls_step env lims)\<^sup>*\<^sup>* new_calls s" and "call_at s i = Some (q, Done resolved (Inr p))"
  shows "pp_target p = pr_target q \<and> pp_label p = pr_name q \<and>
    pp_key p = snapshotKey (pr_target q) (extractionFingerprint (env_sha env) (pr_documents q)) (pp_commit p) \<and>
    (case resolved of
       Some r \<Rightarrow> (if pp_stale p then pr_ref q = None \<and> pp_commit p \<noteq> rr_commit r else pp_commit p = rr_commit r)
     | None \<Rightarrow> pr_ref q = None \<and> \<not> pp_stale p)"
proof -
  have "calls_inv env lims s" by (rule calls.reachable_inv [OF assms(1) calls_inv_new])
  with call_at_in [OF assms(2)] have "prepared_ok env q resolved p" by (fastforce simp: calls_inv_def stage_ok_def)
  then show ?thesis by (simp add: prepared_ok_def request_key_def request_fingerprint_def)
qed

section \<open>A run\<close>

text \<open>A call for the configured ref whose snapshot the sidecar has.\<close>

definition example_prepare :: PrepareRequest where
  "example_prepare =
     \<lparr>pr_target = ''t'', pr_name = ''demo'', pr_documents = example_documents, pr_ref = None, pr_content = [ContentCode]\<rparr>"

definition example_calls :: CodeCallsState where
  "example_calls =
     (let s1 = begin_prepare example_code_env one_slot example_prepare (ccs_system new_calls);
          s2 = \<lparr>ccs_system = snd s1, ccs_calls = [(example_prepare, fst s1)]\<rparr>;
          s3 = moved_on 0 (answer_ref example_code_env one_slot example_prepare None (ok \<lparr>rr_commit = ''c'', rr_ref = ''main''\<rparr>) (ccs_system s2)) s2
      in moved_on 0 (answer_status example_code_env one_slot example_prepare \<lparr>rr_commit = ''c'', rr_ref = ''main''\<rparr>
           (Inr (SnapshotReady \<lparr>sm_created_at = 7, sm_files = 1, sm_skipped = none_skipped, sm_variant_chunks = []\<rparr>)) (ccs_system s3)) s3)"

lemma prepared_is_own_snapshot_witness:
  "\<exists>p. call_at example_calls 0 = Some (example_prepare, Done (Some \<lparr>rr_commit = ''c'', rr_ref = ''main''\<rparr>) (Inr p)) \<and>
     pp_key p = snapshotKey ''t'' ''0123456789abcdef'' ''c''"
proof -
  let ?e = example_code_env and ?q = example_prepare and ?r = "\<lparr>rr_commit = ''c'', rr_ref = ''main''\<rparr>"
  let ?m = "\<lparr>sm_created_at = 7, sm_files = 1, sm_skipped = none_skipped, sm_variant_chunks = []\<rparr>"
  obtain st1 y1 where b: "begin_prepare ?e one_slot ?q (ccs_system new_calls) = (st1, y1)" by fastforce
  have st1: "st1 = AskRef None"
    using b by (auto simp: begin_prepare_def Let_def in_world_def new_calls_def new_world_def current_for_def held_change
        cached_resolution_def example_prepare_def held_target_def peek_def emptyTarget_def change_target_def)
  let ?s2 = "\<lparr>ccs_system = y1, ccs_calls = [(?q, st1)]\<rparr>"
  have step1: "calls_step ?e one_slot new_calls ?s2"
    using calls_step.NewCall [OF b] by (simp add: new_calls_def)
  obtain st2 y2 where a: "answer_ref ?e one_slot ?q None (ok ?r) y1 = (st2, y2)" by fastforce
  have fresh: "map_of (ts_failed (held_target (sys_world y1) ''t'')) k = None" for k
    using b by (auto simp: begin_prepare_def Let_def in_world_def new_calls_def new_world_def current_for_def held_change
        cached_resolution_def example_prepare_def held_target_def peek_def emptyTarget_def change_target_def)
  have st2: "st2 = AskStatus ?r"
    using a fresh by (auto simp: answer_ref_def Let_def example_prepare_def in_world_def resolved_ref_def code_now_def ok_def
        after_resolution_def ensure_snapshot_def recentFailure_def held_change)
  let ?s3 = "moved_on 0 (st2, y2) ?s2"
  have step2: "calls_step ?e one_slot ?s2 ?s3"
    using calls_step.RefAnswered [of ?s2 0 ?q None ?e one_slot "ok ?r"] a by (simp add: call_at_def st1)
  let ?s4 = "moved_on 0 (answer_status ?e one_slot ?q ?r (Inr (SnapshotReady ?m)) y2) ?s3"
  have calls3: "ccs_system ?s3 = y2" "call_at ?s3 0 = Some (?q, AskStatus ?r)"
    by (simp_all add: moved_on_def call_at_def st2)
  have step3: "calls_step ?e one_slot ?s3 ?s4"
    using calls_step.StatusAnswered [OF calls3(2), of ?e one_slot "Inr (SnapshotReady ?m)"] unfolding calls3(1) .
  have reached: "(calls_step ?e one_slot)\<^sup>*\<^sup>* new_calls ?s4"
    using step1 step2 step3 by (meson r_into_rtranclp rtranclp.rtrancl_into_rtrancl)
  have final: "example_calls = ?s4"
    by (simp add: example_calls_def b a moved_on_def)
  have ended: "call_at ?s4 0 = Some (?q, Done (Some ?r) (Inr (prepared_from ?q (request_key ?e ?q ''c'') ''c'' ''main'' 7 False)))"
    by (simp add: call_at_def moved_on_def answer_status_def adopt_def Let_def ok_def)
  from prepared_is_own_snapshot [OF reached ended] ended final show ?thesis
    by (simp add: prepared_from_def example_prepare_def extractionFingerprint_def digest_text_def example_code_env_def
        FINGERPRINT_LENGTH_def)
qed

end
