(* ===== verification/CodeRun.thy ===== *)
theory CodeRun
  imports CodeCalls CodeIndexes EngineResolve
begin

text \<open>
  One code call over one or more repositories (\<^verbatim>\<open>src/actions/connectors/code/run.ts\<close>) and the read of
  a file (\<^verbatim>\<open>read.ts\<close>). What the preparations give and what the sidecar answers are parameters; a run
  keeps the queries it sent and the snapshots it asked to forget.
\<close>

section \<open>Queries and answers of the sidecar\<close>

record IndexReference =
  ix_key :: string
  ix_label :: string

record SearchQuery =
  sq_indexes :: "IndexReference list"
  sq_content :: "ContentType list"
  sq_query :: string
  sq_top_k :: nat
  sq_max_snippet_lines :: "nat option"
  sq_paths :: "string list option"
  sq_languages :: "string list option"

record RelatedQuery =
  rq_indexes :: "IndexReference list"
  rq_content :: "ContentType list"
  rq_file_path :: string
  rq_line :: nat
  rq_top_k :: nat
  rq_max_snippet_lines :: "nat option"

record ReadQuery =
  dq_key :: string
  dq_file_path :: string
  dq_start_line :: "nat option"
  dq_end_line :: "nat option"
  dq_max_lines :: nat

datatype SidecarQuery = AsksSearch SearchQuery | AsksRelated RelatedQuery | AsksRead ReadQuery

text \<open>The score is kept as the text \<^verbatim>\<open>JSON.stringify\<close> writes for it.\<close>

record SidecarResult =
  sr_label :: string
  sr_file_path :: string
  sr_start_line :: int
  sr_end_line :: int
  sr_score :: string
  sr_language :: "string option"
  sr_content :: "string option"

record SidecarRead =
  sd_file_path :: string
  sd_start_line :: int
  sd_end_line :: int
  sd_total_lines :: nat
  sd_text :: string
  sd_truncated :: bool

record CodeContext =
  cx_tool :: string
  cx_name :: string
  cx_policy :: CodePolicy
  cx_max_bytes :: nat

record RunEnv =
  re_prepare :: "nat \<Rightarrow> nat \<Rightarrow> (PreparedIndex, ActionError) result"
  re_results :: "nat \<Rightarrow> SidecarQuery \<Rightarrow> (SidecarResult list, SidecarError) result"
  re_read :: "nat \<Rightarrow> ReadQuery \<Rightarrow> (SidecarRead, SidecarError) result"

record RunLog =
  rl_sent :: "SidecarQuery list"
  rl_forgotten :: "(string \<times> string) list"

text \<open>What a call answers: the members of its result, the captured text, the size it claims.\<close>

record CodeOutput =
  co_result :: "(string \<times> json) list"
  co_text :: "string option"
  co_bytes :: "nat option"

section \<open>Entries\<close>

definition int_json :: "int \<Rightarrow> json" where
  "int_json n = JNumber (if n < 0 then CHR ''-'' # nat_text (nat (- n)) else nat_text (nat n))"

definition repoEntries :: "PreparedIndex list \<Rightarrow> json list" where
  "repoEntries prepared =
     map (\<lambda>p. JObject
       [(''repo'', JString (pp_label p)), (''repository'', JString (pp_repository p)), (''ref'', JString (pp_ref p)),
        (''commit'', JString (pp_commit p)), (''indexed_at'', int_json (pp_indexedAt p)), (''stale'', JBool (pp_stale p))]) prepared"

definition resultEntry :: "SidecarResult \<Rightarrow> json" where
  "resultEntry r =
     JObject
       ([(''repo'', JString (sr_label r)), (''file_path'', JString (sr_file_path r)),
         (''start_line'', int_json (sr_start_line r)), (''end_line'', int_json (sr_end_line r)),
         (''score'', JNumber (sr_score r)),
         (''language'', (case sr_language r of None \<Rightarrow> JNull | Some l \<Rightarrow> JString l))] @
        (case sr_content r of None \<Rightarrow> [] | Some c \<Rightarrow> [(''content'', JString c)]))"

definition resultEntries :: "SidecarResult list \<Rightarrow> json list" where
  "resultEntries results = map resultEntry results"

definition answer_size :: "string \<Rightarrow> json list \<Rightarrow> json list \<Rightarrow> nat" where
  "answer_size query repos kept =
     utf8_length (stringifyJson (JObject [(''query'', JString query), (''results'', JArray kept), (''repos'', JArray repos)]))"

function drop_until_fits :: "('e list \<Rightarrow> nat) \<Rightarrow> nat \<Rightarrow> 'e list \<Rightarrow> 'e list" where
  "drop_until_fits measured maxBytes kept =
     (if kept \<noteq> [] \<and> maxBytes < measured kept then drop_until_fits measured maxBytes (butlast kept) else kept)"
  by pat_completeness auto
termination by (relation "measure (\<lambda>(measured, maxBytes, kept). length kept)") (auto simp: length_greater_0_conv [symmetric] simp del: length_greater_0_conv)

declare drop_until_fits.simps [simp del]

definition fitted :: "string \<Rightarrow> SidecarResult list \<Rightarrow> PreparedIndex list \<Rightarrow> nat \<Rightarrow> CodeOutput" where
  "fitted query results prepared maxBytes =
     (let repos = repoEntries prepared;
          kept = drop_until_fits (answer_size query repos) maxBytes (resultEntries results)
      in \<lparr>co_result = [(''query'', JString query), (''results'', JArray kept), (''repos'', JArray repos),
            (''truncated'', JBool (length kept < length results))],
          co_text = None, co_bytes = Some (answer_size query repos kept)\<rparr>)"

section \<open>A read\<close>

definition isPathNotFound :: "(SidecarRead, SidecarError) result \<Rightarrow> bool" where
  "isPathNotFound outcome \<longleftrightarrow> (case outcome of Inl (SidecarRefusal code key) \<Rightarrow> code = ''path_not_found'' | _ \<Rightarrow> False)"

definition send_read :: "RunEnv \<Rightarrow> ReadQuery \<Rightarrow> RunLog \<Rightarrow> (SidecarRead, SidecarError) result \<times> RunLog" where
  "send_read env q l = (re_read env (length (rl_sent l)) q, l\<lparr>rl_sent := rl_sent l @ [AsksRead q]\<rparr>)"

definition read_query :: "PreparedIndex \<Rightarrow> ReadOperation \<Rightarrow> nat \<Rightarrow> string \<Rightarrow> ReadQuery" where
  "read_query p operation maxLines file_path =
     \<lparr>dq_key = pp_key p, dq_file_path = file_path, dq_start_line = rd_start_line operation, dq_end_line = rd_end_line operation,
      dq_max_lines = maxLines\<rparr>"

definition read_output :: "PreparedIndex \<Rightarrow> SidecarRead \<Rightarrow> CodeOutput" where
  "read_output p r =
     \<lparr>co_result =
        [(''repo'', JString (pp_label p)), (''commit'', JString (pp_commit p)), (''file_path'', JString (sd_file_path r)),
         (''start_line'', int_json (sd_start_line r)), (''end_line'', int_json (sd_end_line r)),
         (''total_lines'', number_json (sd_total_lines r)), (''truncated'', JBool (sd_truncated r))],
      co_text = Some (sd_text r), co_bytes = None\<rparr>"

definition readFile :: "RunEnv \<Rightarrow> PreparedIndex \<Rightarrow> ReadOperation \<Rightarrow> nat \<Rightarrow> RunLog \<Rightarrow> (CodeOutput, SidecarError) result \<times> RunLog" where
  "readFile env p operation maxLines l =
     (case send_read env (read_query p operation maxLines (rd_file_path operation)) l of (asGiven, l1) \<Rightarrow>
        (case (if isPathNotFound asGiven \<and> prefix (pp_label p @ ''/'') (rd_file_path operation)
               then send_read env (read_query p operation maxLines (drop (length (pp_label p @ ''/'')) (rd_file_path operation))) l1
               else (asGiven, l1)) of (found, l2) \<Rightarrow>
           (and_then found (\<lambda>r. ok (read_output p r)), l2)))"

section \<open>A query\<close>

definition least_of :: "nat list \<Rightarrow> nat" where
  "least_of xs = foldr min (tl xs) (hd xs)"

definition send_query :: "RunEnv \<Rightarrow> SidecarQuery \<Rightarrow> RunLog \<Rightarrow> (SidecarResult list, SidecarError) result \<times> RunLog" where
  "send_query env q l = (re_results env (length (rl_sent l)) q, l\<lparr>rl_sent := rl_sent l @ [q]\<rparr>)"

definition index_references :: "PreparedIndex list \<Rightarrow> IndexReference list" where
  "index_references prepared = map (\<lambda>p. \<lparr>ix_key = pp_key p, ix_label = pp_label p\<rparr>) prepared"

definition related_label :: "RelatedOperation \<Rightarrow> string" where
  "related_label r = ''Chunks related to '' @ ro_file_path r @ '':'' @ nat_text (ro_line r)"

text \<open>
  \<^verbatim>\<open>answer\<close>: the tool of a call and the shape of its operation agree, so what is no search and no
  related query is a read of the one snapshot.
\<close>

definition answer_query ::
  "RunEnv \<Rightarrow> CodeContext list \<Rightarrow> CodeOperation \<Rightarrow> ContentType list \<Rightarrow> PreparedIndex list \<Rightarrow> RunLog \<Rightarrow>
   (CodeOutput, SidecarError) result \<times> RunLog" where
  "answer_query env contexts operation content prepared l =
     (let maxBytes = least_of (map cx_max_bytes contexts);
          policies = map cx_policy contexts
      in case operation of
           OpSearch s \<Rightarrow>
             (case send_query env (AsksSearch
                 \<lparr>sq_indexes = index_references prepared, sq_content = content, sq_query = so_query s,
                  sq_top_k = topKFor policies (so_top_k s), sq_max_snippet_lines = so_max_snippet_lines s,
                  sq_paths = so_paths s, sq_languages = so_languages s\<rparr>) l of (found, l1) \<Rightarrow>
                (and_then found (\<lambda>rs. ok (fitted (so_query s) rs prepared maxBytes)), l1))
         | OpRelated r \<Rightarrow>
             (case send_query env (AsksRelated
                 \<lparr>rq_indexes = index_references prepared, rq_content = content, rq_file_path = ro_file_path r, rq_line = ro_line r,
                  rq_top_k = topKFor policies (ro_top_k r), rq_max_snippet_lines = ro_max_snippet_lines r\<rparr>) l of (found, l1) \<Rightarrow>
                (and_then found (\<lambda>rs. ok (fitted (related_label r) rs prepared maxBytes)), l1))
         | OpReadFile r \<Rightarrow> readFile env (hd prepared) r (cp_max_read_lines (cx_policy (hd contexts))) l)"

section \<open>An attempt\<close>

definition with_repo :: "ActionError \<Rightarrow> string \<Rightarrow> ActionError" where
  "with_repo e repo = action_error (error_code e) (filter (\<lambda>(k, d). k \<noteq> ''repo'') (error_detail e) @ [(''repo'', DText repo)])"

fun first_prepared :: "(PreparedIndex, ActionError) result list \<Rightarrow> (PreparedIndex list, ActionError) result" where
  "first_prepared [] = ok []"
| "first_prepared (r # rs) = and_then r (\<lambda>p. and_then (first_prepared rs) (\<lambda>ps. ok (p # ps)))"

definition prepareAll :: "RunEnv \<Rightarrow> nat \<Rightarrow> CodeContext list \<Rightarrow> (PreparedIndex list, ActionError) result" where
  "prepareAll env n contexts =
     first_prepared
       (map (\<lambda>i. case re_prepare env n i of
            Inr p \<Rightarrow> ok p
          | Inl e \<Rightarrow> if length contexts > 1 then fail (with_repo e (cx_name (contexts ! i))) else fail e)
        [0..<length contexts])"

datatype CodeAttempt = AttemptDone "(CodeOutput, ActionError) result" | AttemptEvicted

definition afterFailure :: "PreparedIndex list \<Rightarrow> SidecarError \<Rightarrow> RunLog \<Rightarrow> CodeAttempt \<times> RunLog" where
  "afterFailure prepared e l =
     (let named = (case e of SidecarRefusal code key \<Rightarrow> List.find (\<lambda>p. Some (pp_key p) = key) prepared | _ \<Rightarrow> None);
          repos = (case named of Some p \<Rightarrow> pp_label p | None \<Rightarrow> join_with (CHR '','') (map pp_label prepared))
      in if (case e of SidecarRefusal code key \<Rightarrow> code = ''snapshot_missing'' | _ \<Rightarrow> False)
         then (AttemptEvicted,
           l\<lparr>rl_forgotten := rl_forgotten l @ map (\<lambda>p. (pp_target p, pp_key p)) (case named of None \<Rightarrow> prepared | Some p \<Rightarrow> [p])\<rparr>)
         else if (case e of SidecarFailed a \<Rightarrow> error_code a = timeout | _ \<Rightarrow> False)
         then (AttemptDone (fail (action_error index_not_ready [(''state'', DText ''building''), (''repo'', DText repos)])), l)
         else (AttemptDone (fail (refusalError e repos)), l))"

definition code_attempt ::
  "RunEnv \<Rightarrow> nat \<Rightarrow> CodeContext list \<Rightarrow> CodeOperation \<Rightarrow> ContentType list \<Rightarrow> RunLog \<Rightarrow> CodeAttempt \<times> RunLog" where
  "code_attempt env n contexts operation content l =
     (case prepareAll env n contexts of
        Inl e \<Rightarrow> (AttemptDone (fail e), l)
      | Inr prepared \<Rightarrow>
          (case answer_query env contexts operation content prepared l of (answered, l1) \<Rightarrow>
             (case answered of
                Inr out \<Rightarrow> (AttemptDone (ok out), l1)
              | Inl e \<Rightarrow> afterFailure prepared e l1)))"

definition runCode :: "RunEnv \<Rightarrow> CodeContext list \<Rightarrow> CodeOperation \<Rightarrow> RunLog \<Rightarrow> (CodeOutput, ActionError) result \<times> RunLog" where
  "runCode env contexts operation l =
     (let content = sharedContent (map cx_policy contexts) (contentOf operation) in
      if content = [] then (fail (action_error policy_denied [(''reason'', DReason RContent)]), l)
      else if isRead (cx_tool (hd contexts)) operation \<and> length contexts > 1
      then (fail (action_error invalid_arguments [(''problem'', DText ''code_read takes one repo'')]), l)
      else
        (case code_attempt env 0 contexts operation content l of (first, l1) \<Rightarrow>
           (case first of
              AttemptDone r \<Rightarrow> (r, l1)
            | AttemptEvicted \<Rightarrow>
                (case code_attempt env 1 contexts operation content l1 of (second, l2) \<Rightarrow>
                   ((case second of AttemptDone r \<Rightarrow> r | AttemptEvicted \<Rightarrow> fail (action_error index_unavailable [])), l2)))))"

section \<open>What is sent\<close>

text \<open>A query within the policies of the call, about snapshots that were prepared for it.\<close>

definition query_within :: "RunEnv \<Rightarrow> CodeContext list \<Rightarrow> SidecarQuery \<Rightarrow> bool" where
  "query_within env contexts q \<longleftrightarrow>
     (let prepared_keys = (\<lambda>n. map_option (map pp_key) (case prepareAll env n contexts of Inl _ \<Rightarrow> None | Inr ps \<Rightarrow> Some ps));
          asked = (\<lambda>keys. \<exists>n \<in> {0, 1}. prepared_keys n = Some keys);
          allowed = (\<lambda>content. content \<noteq> [] \<and> (\<forall>c \<in> set contexts. set content \<subseteq> set (cp_content (cx_policy c))));
          few = (\<lambda>k. \<forall>c \<in> set contexts. k \<le> cp_max_top_k (cx_policy c))
      in case q of
           AsksSearch s \<Rightarrow> asked (map ix_key (sq_indexes s)) \<and> allowed (sq_content s) \<and> few (sq_top_k s)
         | AsksRelated r \<Rightarrow> asked (map ix_key (rq_indexes r)) \<and> allowed (rq_content r) \<and> few (rq_top_k r)
         | AsksRead r \<Rightarrow> asked [dq_key r] \<and> dq_max_lines r = cp_max_read_lines (cx_policy (hd contexts)))"

lemma first_prepared_length: "first_prepared rs = ok ps \<Longrightarrow> length ps = length rs"
  by (induction rs arbitrary: ps) (auto simp: and_then_ok)

lemma prepareAll_length: "prepareAll env n contexts = Inr ps \<Longrightarrow> length ps = length contexts"
  using first_prepared_length [of _ ps] by (fastforce simp: prepareAll_def ok_def)

lemma send_read_log: "rl_sent (snd (send_read env q l)) = rl_sent l @ [AsksRead q]"
  by (simp add: send_read_def)

lemma read_query_sel [simp]: "dq_key (read_query p operation m t) = pp_key p" "dq_max_lines (read_query p operation m t) = m"
  by (simp_all add: read_query_def)

lemma readFile_sent:
  "\<exists>qs. rl_sent (snd (readFile env p operation m l)) = rl_sent l @ map AsksRead qs \<and> length qs \<le> 2 \<and>
     (\<forall>q \<in> set qs. dq_key q = pp_key p \<and> dq_max_lines q = m)"
proof -
  let ?q = "read_query p operation m"
  obtain asGiven l1 where r: "send_read env (?q (rd_file_path operation)) l = (asGiven, l1)" by fastforce
  have l1: "rl_sent l1 = rl_sent l @ [AsksRead (?q (rd_file_path operation))]"
    using send_read_log [of env "?q (rd_file_path operation)" l] r by simp
  show ?thesis
  proof (cases "isPathNotFound asGiven \<and> prefix (pp_label p @ ''/'') (rd_file_path operation)")
    case True
    then show ?thesis
      using send_read_log [of env "?q (drop (length (pp_label p @ ''/'')) (rd_file_path operation))" l1]
      by (intro exI [of _ "[?q (rd_file_path operation), ?q (drop (length (pp_label p @ ''/'')) (rd_file_path operation))]"])
        (simp add: readFile_def r l1 split_beta)
  next
    case False
    then show ?thesis
      by (intro exI [of _ "[?q (rd_file_path operation)]"]) (auto simp: readFile_def r l1)
  qed
qed

lemma answer_query_sent:
  assumes prepared: "prepareAll env n contexts = Inr ps" "n \<in> {0, 1}"
    and content: "content \<noteq> []" "\<forall>c \<in> set contexts. set content \<subseteq> set (cp_content (cx_policy c))"
    and top_k: "\<forall>c \<in> set contexts. topKFor (map cx_policy contexts) (topKOf operation) \<le> cp_max_top_k (cx_policy c)"
    and one: "(\<exists>r. operation = OpReadFile r) \<longrightarrow> length contexts = 1"
  shows "\<exists>qs. rl_sent (snd (answer_query env contexts operation content ps l)) = rl_sent l @ qs \<and> length qs \<le> 2 \<and>
    list_all (query_within env contexts) qs"
proof -
  have keys: "map ix_key (index_references ps) = map pp_key ps" by (simp add: index_references_def)
  have asked: "\<exists>n \<in> {0, 1}. map_option (map pp_key) (case prepareAll env n contexts of Inl _ \<Rightarrow> None | Inr ps \<Rightarrow> Some ps) = Some (map pp_key ps)"
    using prepared by (intro bexI [of _ n]) simp_all
  show ?thesis
  proof (cases operation)
    case (OpSearch s)
    with asked content top_k keys show ?thesis
      by (auto simp: answer_query_def Let_def send_query_def query_within_def topKOf_def)
  next
    case (OpRelated r)
    with asked content top_k keys show ?thesis
      by (auto simp: answer_query_def Let_def send_query_def query_within_def topKOf_def)
  next
    case (OpReadFile r)
    with one have "length contexts = 1" by blast
    with prepareAll_length [OF prepared(1)] obtain p where ps: "ps = [p]" by (auto simp: length_Suc_conv)
    obtain qs where qs: "rl_sent (snd (readFile env p r (cp_max_read_lines (cx_policy (hd contexts))) l)) = rl_sent l @ map AsksRead qs"
      "length qs \<le> 2" "\<forall>q \<in> set qs. dq_key q = pp_key p \<and> dq_max_lines q = cp_max_read_lines (cx_policy (hd contexts))"
      using readFile_sent by blast
    then have "list_all (query_within env contexts) (map AsksRead qs)"
      using asked ps by (auto simp: list_all_iff query_within_def Let_def)
    with qs OpReadFile ps show ?thesis by (auto simp: answer_query_def Let_def)
  qed
qed

lemma afterFailure_sent: "rl_sent (snd (afterFailure ps e l)) = rl_sent l"
  by (simp add: afterFailure_def Let_def)

lemma attempt_sent:
  assumes "n \<in> {0, 1}" and "content \<noteq> []" "\<forall>c \<in> set contexts. set content \<subseteq> set (cp_content (cx_policy c))"
    and "\<forall>c \<in> set contexts. topKFor (map cx_policy contexts) (topKOf operation) \<le> cp_max_top_k (cx_policy c)"
    and "(\<exists>r. operation = OpReadFile r) \<longrightarrow> length contexts = 1"
  shows "\<exists>qs. rl_sent (snd (code_attempt env n contexts operation content l)) = rl_sent l @ qs \<and> length qs \<le> 2 \<and>
    list_all (query_within env contexts) qs"
proof (cases "prepareAll env n contexts")
  case (Inr ps)
  obtain answered l1 where a: "answer_query env contexts operation content ps l = (answered, l1)" by fastforce
  have "rl_sent (snd (code_attempt env n contexts operation content l)) = rl_sent l1"
    using Inr a by (auto simp: code_attempt_def afterFailure_sent split: sum.splits)
  with answer_query_sent [OF Inr assms, of l] a show ?thesis by simp
qed (simp add: code_attempt_def)

text \<open>
  C40: once every repository of a call is allowed, the run sends the sidecar at most four queries, and
  each stays within the policies: it names only snapshots that were prepared for this call, selects only
  content every policy allows, asks for no more results than the smallest \<^verbatim>\<open>max_top_k\<close>, and reads no more
  lines than the policy's \<^verbatim>\<open>max_read_lines\<close>.
\<close>

theorem code_queries_within_policies:
  assumes "\<forall>c \<in> set contexts. is_allowed (authorizeCode (cx_policy c) tool operation)"
    and "contexts \<noteq> []" and "case operation of OpReadFile r \<Rightarrow> isRead (cx_tool (hd contexts)) operation | _ \<Rightarrow> True"
  shows "\<exists>qs. rl_sent (snd (runCode env contexts operation l)) = rl_sent l @ qs \<and> length qs \<le> 4 \<and>
    list_all (query_within env contexts) qs"
proof -
  let ?content = "sharedContent (map cx_policy contexts) (contentOf operation)"
  have within: "\<forall>c \<in> set contexts. set ?content \<subseteq> set (cp_content (cx_policy c))"
    using sharedContent_subset [of _ "map cx_policy contexts"] by auto
  have few: "\<forall>c \<in> set contexts. topKFor (map cx_policy contexts) (topKOf operation) \<le> cp_max_top_k (cx_policy c)"
    using assms(1) authorized_top_k [of _ "map cx_policy contexts"] by auto
  show ?thesis
  proof (cases "?content = [] \<or> isRead (cx_tool (hd contexts)) operation \<and> length contexts > 1")
    case True
    then show ?thesis by (auto simp: runCode_def Let_def)
  next
    case False
    have one: "(\<exists>r. operation = OpReadFile r) \<longrightarrow> length contexts = 1"
      using False assms(2,3) by (cases contexts) auto
    have content: "?content \<noteq> []" using False by simp
    note sent = attempt_sent [OF _ content within few one]
    obtain first l1 where a: "code_attempt env 0 contexts operation ?content l = (first, l1)" by fastforce
    obtain qs1 where qs1: "rl_sent l1 = rl_sent l @ qs1" "length qs1 \<le> 2" "list_all (query_within env contexts) qs1"
      using sent [of 0 env l] a by auto
    obtain second l2 where b: "code_attempt env 1 contexts operation ?content l1 = (second, l2)" by fastforce
    obtain qs2 where qs2: "rl_sent l2 = rl_sent l1 @ qs2" "length qs2 \<le> 2" "list_all (query_within env contexts) qs2"
      using sent [of 1 env l1] b by auto
    have "runCode env contexts operation l =
      (case first of AttemptDone r \<Rightarrow> (r, l1)
       | AttemptEvicted \<Rightarrow> ((case second of AttemptDone r \<Rightarrow> r | AttemptEvicted \<Rightarrow> fail (action_error index_unavailable [])), l2))"
      using False by (auto simp: runCode_def Let_def a b [unfolded One_nat_def] split: CodeAttempt.splits)
    then show ?thesis
    proof (cases first)
      case (AttemptDone r)
      with qs1 \<open>runCode env contexts operation l = _\<close> show ?thesis by (intro exI [of _ qs1]) simp
    next
      case AttemptEvicted
      with qs1 qs2 \<open>runCode env contexts operation l = _\<close> show ?thesis by (intro exI [of _ "qs1 @ qs2"]) simp
    qed
  qed
qed

section \<open>What an answer keeps\<close>

lemma drop_until_fits_take: "\<exists>n. drop_until_fits measured m kept = take n kept"
proof (induction "length kept" arbitrary: kept)
  case 0
  then show ?case by (simp add: drop_until_fits.simps)
next
  case (Suc k)
  then obtain n where "drop_until_fits measured m (butlast kept) = take n (butlast kept)" by (metis length_butlast diff_Suc_1)
  moreover have "butlast kept = take k kept" using Suc(2) by (metis butlast_conv_take diff_Suc_1)
  ultimately show ?case by (subst drop_until_fits.simps) (auto simp: take_take intro: exI [of _ "length kept"])
qed

lemma drop_until_fits_size: "drop_until_fits measured m kept = [] \<or> measured (drop_until_fits measured m kept) \<le> m"
proof (induction "length kept" arbitrary: kept)
  case (Suc k)
  then have "k = length (butlast kept)" by simp
  from Suc(1) [OF this] show ?case by (subst (1 2) drop_until_fits.simps) auto
qed (simp add: drop_until_fits.simps)

lemma fitted_within:
  "\<exists>kept n. co_result (fitted query results prepared m) =
     [(''query'', JString query), (''results'', JArray kept), (''repos'', JArray (repoEntries prepared)),
      (''truncated'', JBool (length kept < length results))] \<and>
     kept = take n (resultEntries results) \<and> (kept = [] \<or> answer_size query (repoEntries prepared) kept \<le> m)"
proof -
  obtain n where n: "drop_until_fits (answer_size query (repoEntries prepared)) m (resultEntries results) = take n (resultEntries results)"
    using drop_until_fits_take by blast
  show ?thesis
    using drop_until_fits_size [of "answer_size query (repoEntries prepared)" m "resultEntries results"]
    unfolding fitted_def Let_def n by (intro exI [of _ "take n (resultEntries results)"] exI [of _ n]) simp
qed

section \<open>A run\<close>

definition example_context :: CodeContext where
  "example_context = \<lparr>cx_tool = CODE_SEARCH, cx_name = ''demo'', cx_policy = example_code_policy, cx_max_bytes = 65536\<rparr>"

text \<open>The first answer says the snapshot is gone, the second finds nothing.\<close>

definition example_run_env :: RunEnv where
  "example_run_env =
     \<lparr>re_prepare = (\<lambda>n i. ok \<lparr>pp_target = ''t'', pp_key = ''k'', pp_label = ''demo'', pp_repository = ''octo/demo'', pp_commit = ''c'',
        pp_ref = ''main'', pp_stale = False, pp_indexedAt = 5\<rparr>),
      re_results = (\<lambda>n q. if n = 0 then Inl (SidecarRefusal ''snapshot_missing'' (Some ''k'')) else Inr []),
      re_read = (\<lambda>n q. Inl (SidecarRefusal ''path_not_found'' None))\<rparr>"

lemma code_queries_within_policies_witness:
  "length (rl_sent (snd (runCode example_run_env [example_context] (OpSearch example_search) \<lparr>rl_sent = [], rl_forgotten = []\<rparr>))) \<le> 4 \<and>
   list_all (query_within example_run_env [example_context])
     (rl_sent (snd (runCode example_run_env [example_context] (OpSearch example_search) \<lparr>rl_sent = [], rl_forgotten = []\<rparr>)))"
  using code_queries_within_policies
      [of "[example_context]" CODE_SEARCH "OpSearch example_search" example_run_env "\<lparr>rl_sent = [], rl_forgotten = []\<rparr>"]
    example_authorized(1) by (simp add: example_context_def)

lemma example_run_sent:
  "map (\<lambda>q. case q of AsksSearch s \<Rightarrow> sq_top_k s | _ \<Rightarrow> 0)
     (rl_sent (snd (runCode example_run_env [example_context] (OpSearch example_search) \<lparr>rl_sent = [], rl_forgotten = []\<rparr>))) = [3, 3]"
  by (simp add: runCode_def Let_def sharedContent_def selectedContent_def contentOf_def example_search_def example_context_def
      example_code_policy_def normaliseContent_def CONTENT_TYPES_def code_attempt_def prepareAll_def example_run_env_def
      answer_query_def send_query_def afterFailure_def isRead_def ok_def fail_def and_then_def topKFor_def DEFAULT_TOP_K_def
      index_references_def)

end
