(* ===== verification/Spec2Isabelle.thy ===== *)
theory Spec2Isabelle
  imports Policy Encodings Scrub Secrets SqlTokens Actions SqlClassify SqlRun Command HttpRequest HttpRun
    RateLimit Scopes OAuthStore OAuth OAuthSafety OAuthRuns Net VaultFields CanonicalJson TargetsRepo Targets TargetsSafety
    EngineResolve EngineRun Engine EngineGuard EngineSafety EngineExamples
    Rc4 Md4 Decodings Octets Ntlm NtlmSafety NtlmSession NtlmBinding NtlmHandshake Xml XmlSafety Wsman WinrmClient WinrmSafety WinrmTransport
    Base32 Credentials Passwords SecretBox Browser IdentityStore Sessions Login Account LoginSystem LoginSafety LoginExamples
    CodeDocs CodeCalls
    CodeGithub CodeGithubSafety
    CodeBuilds CodeBuildsSafety
    CodeState CodeStateSafety
    CodeIndexes CodeIndexesSafety
    CodeRun
begin

text \<open>
  A verification development of vaultgate.
\<close>

end
